(* ===== verification/Antares.thy ===== *)
theory Antares
  imports Prelude
begin

text \<open>
  The vocabulary of \<open>source/antares.h\<close> and \<open>board/board.h\<close>: signals, objects and
  commands, the event and the message that travel through the post office, and the pins
  and PWM channels that the drivers command.
\<close>

section \<open>Enumerations\<close>

datatype OBJTYPES = MAIN | SWEEP | SERVO | MONITOR | USB | MICRO

primrec obj_code :: "OBJTYPES \<Rightarrow> u32" where
  "obj_code MAIN = 0x00010000"
| "obj_code SWEEP = 0x00020000"
| "obj_code SERVO = 0x00040000"
| "obj_code MONITOR = 0x00080000"
| "obj_code USB = 0x00100000"
| "obj_code MICRO = 0x00200000"

datatype SIGTYPES =
    NONE | PARSECMD_SIG | ALARM_SIG
  | CTRL_ETH_SIG | CTRL_END_SIGNALS
  | SWEEP_ETH_SIG | SWEEP_RESET_SIG | SWEEP_INTAP_SIG | SWEEP_OUTTAP_SIG | SWEEP_PARKED_SIG
  | SWEEP_JOBDONE_SIG | SWEEP_TICK_SIG | SWEEP_SWEEPJOB_SIG | SWEEP_END_SIG
  | SERVO_ETH_SIG | SERVO_RESET_SIG | SERVO_TICK_SIG | SERVO_INITJOB_SIG | SERVO_END_SIG
  | MONITOR_ETH_SIG | MONITOR_RESET_SIG | MONITOR_TICK_SIG | MONITOR_INITJOB_SIG | MONITOR_END_SIG
  | SENDPACKET_SIG | RECVPACKET_SIG

primrec sig_code :: "SIGTYPES \<Rightarrow> u32" where
  "sig_code NONE = 0" | "sig_code PARSECMD_SIG = 1" | "sig_code ALARM_SIG = 2"
| "sig_code CTRL_ETH_SIG = 3" | "sig_code CTRL_END_SIGNALS = 4"
| "sig_code SWEEP_ETH_SIG = 5" | "sig_code SWEEP_RESET_SIG = 6"
| "sig_code SWEEP_INTAP_SIG = 7" | "sig_code SWEEP_OUTTAP_SIG = 8"
| "sig_code SWEEP_PARKED_SIG = 9" | "sig_code SWEEP_JOBDONE_SIG = 10"
| "sig_code SWEEP_TICK_SIG = 11" | "sig_code SWEEP_SWEEPJOB_SIG = 12"
| "sig_code SWEEP_END_SIG = 13"
| "sig_code SERVO_ETH_SIG = 14" | "sig_code SERVO_RESET_SIG = 15"
| "sig_code SERVO_TICK_SIG = 16" | "sig_code SERVO_INITJOB_SIG = 17"
| "sig_code SERVO_END_SIG = 18"
| "sig_code MONITOR_ETH_SIG = 19" | "sig_code MONITOR_RESET_SIG = 20"
| "sig_code MONITOR_TICK_SIG = 21" | "sig_code MONITOR_INITJOB_SIG = 22"
| "sig_code MONITOR_END_SIG = 23"
| "sig_code SENDPACKET_SIG = 128" | "sig_code RECVPACKET_SIG = 129"

text \<open>Two signals with the same number are the same signal: the numbering has no clash.\<close>

lemma sig_code_inj: "sig_code a = sig_code b \<longleftrightarrow> a = b"
  by (cases a; cases b; simp)

lemma sig_code_low: "sig_code s < 0x10000"
  by (cases s) auto

abbreviation CALLBACK_REQ :: u8 where "CALLBACK_REQ \<equiv> 0"
abbreviation CMD_STATUSUPDATE :: u8 where "CMD_STATUSUPDATE \<equiv> 20"
abbreviation CMD_STATUSKEEP :: u8 where "CMD_STATUSKEEP \<equiv> 21"

abbreviation SWEEP_PARK :: u8 where "SWEEP_PARK \<equiv> 30"
abbreviation SWEEP_GOTO :: u8 where "SWEEP_GOTO \<equiv> 31"
abbreviation SWEEP_SCAN :: u8 where "SWEEP_SCAN \<equiv> 32"
abbreviation SWEEP_ENABLE :: u8 where "SWEEP_ENABLE \<equiv> 33"
abbreviation SWEEP_DIR :: u8 where "SWEEP_DIR \<equiv> 34"
abbreviation SWEEP_PULSE :: u8 where "SWEEP_PULSE \<equiv> 35"

abbreviation SERVO_ENABLE :: u8 where "SERVO_ENABLE \<equiv> 40"
abbreviation SERVO_SETPWM :: u8 where "SERVO_SETPWM \<equiv> 41"
abbreviation SERVO_SETSPEED :: u8 where "SERVO_SETSPEED \<equiv> 42"

abbreviation MON_SETVAC :: u8 where "MON_SETVAC \<equiv> 50"
abbreviation MON_SETDRUM :: u8 where "MON_SETDRUM \<equiv> 51"
abbreviation WG20_SETDIR :: u8 where "WG20_SETDIR \<equiv> 52"
abbreviation WG20_SETVEL :: u8 where "WG20_SETVEL \<equiv> 53"
abbreviation MON_RESET :: u8 where "MON_RESET \<equiv> 54"

section \<open>Messages and events\<close>

text \<open>
  \<open>antares_msg_struct\<close>: twelve header bytes and 150 bytes of data (\<open>ACPMESSAGE_LENGTH\<close>
  is 162). The fields keep the order of the struct.
\<close>

record antares_msg =
  csum :: u8
  msg_size :: u8
  tstamp :: "u8 list"
  cmd :: u8
  arg :: u8
  seq :: "u8 list"
  orig :: u8
  dest :: u8
  magic :: u8
  data :: "u8 list"

text \<open>
  \<open>event_t\<close>. Its \<open>void *\<close> payload is null, a heap-allocated message, or the current
  position in the sweep map (pushed by the sweep driver and never read back).
\<close>

datatype payload = PNull | PMsg antares_msg | PMap int

record event =
  evtype :: SIGTYPES
  simple :: u8
  evpayload :: payload

abbreviation mk_event :: "SIGTYPES \<Rightarrow> u8 \<Rightarrow> payload \<Rightarrow> event" where
  "mk_event t c p \<equiv> \<lparr>evtype = t, simple = c, evpayload = p\<rparr>"

text \<open>How a call can stop: see \<^theory_text>\<open>and_then\<close>.\<close>

datatype stop =
    TransitionUndefined string   \<comment> \<open>thrown by the SMC \<open>Default\<close> transition\<close>
  | StateUndefined               \<comment> \<open>thrown by \<open>getState\<close> inside a transition\<close>
  | Fault                        \<comment> \<open>access outside an object or through a wrong pointer\<close>

section \<open>Pins and PWM channels\<close>

datatype pin =
    STEP_ENABLE | STEP_DIR | STEP_PULSE | STEP_INTAP | STEP_OUTTAP
  | SERVO_CLK | SERVO_STATE | DRUM_ENABLE | VAC_ENABLE | WG2DIR | LED_BLUE

text \<open>
  The macros \<open>X_ON\<close> clear the output (the board's drivers are active low), \<open>X_OFF\<close>
  set it. \<open>pins\<close> is the output latch, \<open>inputs\<close> what \<open>GPIO_ReadPinInput\<close> returns,
  \<open>duty0\<close> and \<open>duty1\<close> the last duty cycles given to the FlexTimer channels.
\<close>

record hardware =
  pins :: "pin \<Rightarrow> bool"
  inputs :: "pin \<Rightarrow> u32"
  duty0 :: u8
  duty1 :: u8

definition pin_on :: "pin \<Rightarrow> hardware \<Rightarrow> hardware" where
  "pin_on p h = h\<lparr>pins := (pins h)(p := False)\<rparr>"

definition pin_off :: "pin \<Rightarrow> hardware \<Rightarrow> hardware" where
  "pin_off p h = h\<lparr>pins := (pins h)(p := True)\<rparr>"

definition pin_toggle :: "pin \<Rightarrow> hardware \<Rightarrow> hardware" where
  "pin_toggle p h = h\<lparr>pins := (pins h)(p := \<not> pins h p)\<rparr>"

text \<open>\<open>setPWM\<close> of \<open>board.c\<close>: channel 0, the plate motor, is clamped to 80 percent.\<close>

definition setPWM :: "u8 \<Rightarrow> u8 \<Rightarrow> hardware \<Rightarrow> hardware" where
  "setPWM channel value h =
     (if channel = 0 then h\<lparr>duty0 := (if value > 80 then 80 else value)\<rparr>
      else if channel = 1 then h\<lparr>duty1 := value\<rparr>
      else h)"

lemma setPWM_duty0: "duty0 h \<le> 80 \<Longrightarrow> duty0 (setPWM ch v h) \<le> 80"
  by (auto simp: setPWM_def not_less)

lemma pin_ops_frame [simp]:
  "duty0 (pin_on p h) = duty0 h" "duty0 (pin_off p h) = duty0 h" "duty0 (pin_toggle p h) = duty0 h"
  "duty1 (pin_on p h) = duty1 h" "duty1 (pin_off p h) = duty1 h" "duty1 (pin_toggle p h) = duty1 h"
  "inputs (pin_on p h) = inputs h" "inputs (pin_off p h) = inputs h" "inputs (pin_toggle p h) = inputs h"
  by (simp_all add: pin_on_def pin_off_def pin_toggle_def)

lemma pin_ops_pins [simp]:
  "pins (pin_on p h) = (pins h)(p := False)"
  "pins (pin_off p h) = (pins h)(p := True)"
  "pins (pin_toggle p h) = (pins h)(p := \<not> pins h p)"
  by (simp_all add: pin_on_def pin_off_def pin_toggle_def)

end
