(* ===== verification/Status.thy ===== *)
theory Status
  imports Complex_Main Antares
begin

text \<open>
  The status line of \<open>source/main.cpp\<close>: ten values and thirteen flags, and the text
  \<open>status_stream\<close> that the host polls. A \<open>double\<close> is modelled by the rational number
  it denotes; \<open>sprintf\<close> with the format \<open>%6.4E,\<close> is written out as the C library
  defines it (round to nearest, ties to even; at least two exponent digits).
\<close>

section \<open>The conversion \<open>%6.4E\<close>\<close>

fun dec_len :: "nat \<Rightarrow> nat" where
  "dec_len n = (if n = 0 then 0 else Suc (dec_len (n div 10)))"

declare dec_len.simps [simp del]

lemma dec_len_0 [simp]: "dec_len 0 = 0"
  by (simp add: dec_len.simps)

lemma dec_len_bound: "n < 10 ^ k \<Longrightarrow> dec_len n \<le> k"
proof (induction k arbitrary: n)
  case 0
  then show ?case by simp
next
  case (Suc k)
  then have "n div 10 < 10 ^ k" by (simp add: less_mult_imp_div_less mult.commute)
  with Suc.IH have "dec_len (n div 10) \<le> k" by blast
  then show ?case by (subst dec_len.simps) auto
qed

definition dec_exp :: "rat \<Rightarrow> int" where
  "dec_exp a = (if 1 \<le> a then int (dec_len (nat \<lfloor>a\<rfloor>)) - 1
                else - int (dec_len (nat (\<lceil>1 / a\<rceil> - 1))))"

definition round_half_even :: "rat \<Rightarrow> int" where
  "round_half_even y =
     (let f = \<lfloor>y\<rfloor>; r = y - of_int f in
      if r < 1/2 then f else if r > 1/2 then f + 1 else if even f then f else f + 1)"

definition mantissa :: "rat \<Rightarrow> int \<Rightarrow> int" where
  "mantissa a e = round_half_even (if 0 \<le> e then a / 10 ^ nat e * 10 ^ 4 else a * 10 ^ nat (- e) * 10 ^ 4)"

definition digit :: "int \<Rightarrow> u8" where
  "digit d = 48 + of_int (d mod 10)"

definition exp_digits :: "nat \<Rightarrow> u8 list" where
  "exp_digits n = (if 100 \<le> n then [digit (int n div 100)] else []) @ [digit (int n div 10), digit (int n)]"

definition sci_text :: "int \<Rightarrow> int \<Rightarrow> u8 list" where
  "sci_text m e =
     [digit (m div 10000), 46, digit (m div 1000), digit (m div 100), digit (m div 10), digit m, 69,
      (if 0 \<le> e then 43 else 45)] @ exp_digits (nat \<bar>e\<bar>)"

definition fmt_E :: "rat \<Rightarrow> u8 list" where
  "fmt_E x =
     (if x = 0 then sci_text 0 0
      else let a = \<bar>x\<bar>; e = dec_exp a; m = mantissa a e in
        (if x < 0 then [45] else []) @
        (if m \<ge> 100000 then sci_text (m div 10) (e + 1) else sci_text m e))"

text \<open>The text that \<open>sprintf (buf, "%6.4E,", value)\<close> leaves in \<open>buf\<close>, without its terminator.\<close>

definition slot_text :: "rat \<Rightarrow> u8 list" where
  "slot_text x = fmt_E x @ [44]"

lemma length_sci_text: "length (sci_text m e) = 8 + (if 100 \<le> \<bar>e\<bar> then 3 else 2)"
  by (auto simp: sci_text_def exp_digits_def)

lemma slot_text_ge_11: "11 \<le> length (slot_text x)"
  by (auto simp: slot_text_def fmt_E_def length_sci_text Let_def)

lemma dec_exp_bound:
  assumes "1 / 10 ^ n \<le> a" and "a < 10 ^ n"
  shows "\<bar>dec_exp a\<bar> \<le> int n"
proof (cases "1 \<le> a")
  case True
  have "\<lfloor>a\<rfloor> < 10 ^ n" using assms(2) by (simp add: floor_less_iff)
  then have "nat \<lfloor>a\<rfloor> < 10 ^ n" using True by (simp add: nat_less_iff)
  then have "dec_len (nat \<lfloor>a\<rfloor>) \<le> n" by (rule dec_len_bound)
  moreover have "dec_len (nat \<lfloor>a\<rfloor>) \<ge> 1" using True by (subst dec_len.simps) simp
  ultimately show ?thesis using True by (simp add: dec_exp_def)
next
  case False
  have pos: "0 < a" using assms(1) by (rule less_le_trans [rotated]) simp
  have "1 / a \<le> of_int (10 ^ n)" using assms(1) pos by (simp add: field_simps)
  then have "\<lceil>1 / a\<rceil> - 1 < 10 ^ n" by (simp only: ceiling_le_iff [symmetric])
  moreover have "0 \<le> \<lceil>1 / a\<rceil> - 1" using False pos by (simp add: field_simps)
  ultimately have "nat (\<lceil>1 / a\<rceil> - 1) < 10 ^ n" by (simp only: nat_less_iff of_nat_power of_nat_numeral)
  then have "dec_len (nat (\<lceil>1 / a\<rceil> - 1)) \<le> n" by (rule dec_len_bound)
  with False show ?thesis by (simp add: dec_exp_def)
qed

text \<open>
  With an exponent of two digits a field is ten characters long, eleven when it is
  negative: then \<open>slot_text\<close> is twelve long and its comma does not fit the slot.
\<close>

lemma fmt_E_length:
  assumes "x = 0 \<or> 1 / 10 ^ 98 \<le> \<bar>x\<bar> \<and> \<bar>x\<bar> < 10 ^ 98"
  shows "length (fmt_E x) = (if x < 0 then 11 else 10)"
proof (cases "x = 0")
  case True
  then show ?thesis by (simp add: fmt_E_def length_sci_text)
next
  case False
  with assms have "\<bar>dec_exp \<bar>x\<bar>\<bar> \<le> int 98" by (blast intro: dec_exp_bound)
  with False show ?thesis by (auto simp: fmt_E_def Let_def length_sci_text)
qed

section \<open>The status state\<close>

record status =
  statusvals :: "rat list"
  statusflags :: "bool list"
  status_stream :: "u8 list"
  status_updated :: bool

text \<open>The globals are zero before \<open>main\<close> runs.\<close>

definition status_bss :: status where
  "status_bss = \<lparr>statusvals = replicate 10 0, statusflags = replicate 13 False,
     status_stream = replicate 150 0, status_updated = False\<rparr>"

definition statusflags_ptr :: "nat list" where
  "statusflags_ptr = [110,112,114,116,118,120,122,124,126,128,130,132,134]"

definition storeMonitorSlot :: "nat \<Rightarrow> rat \<Rightarrow> status \<Rightarrow> stop + status" where
  "storeMonitorSlot slot v st =
     (if 10 \<le> slot then Inl Fault
      else if statusvals st ! slot \<noteq> v
      then Inr (st\<lparr>statusvals := (statusvals st)[slot := v],
                   status_stream := blit (slot * 10 + slot) (take 11 (slot_text v)) (status_stream st),
                   status_updated := True\<rparr>)
      else Inr st)"

text \<open>
  The two halves of a store that changes the slot: the value (line 445) and the bytes of
  the status line (lines 446 to 453). An interrupt can come between them.
\<close>

definition store_value :: "nat \<Rightarrow> rat \<Rightarrow> status \<Rightarrow> status" where
  "store_value slot v st = st\<lparr>statusvals := (statusvals st)[slot := v]\<rparr>"

definition show_value :: "nat \<Rightarrow> rat \<Rightarrow> status \<Rightarrow> status" where
  "show_value slot v st =
     st\<lparr>status_stream := blit (slot * 10 + slot) (take 11 (slot_text v)) (status_stream st),
        status_updated := True\<rparr>"

lemma storeMonitorSlot_halves:
  "storeMonitorSlot slot v st =
     (if 10 \<le> slot then Inl Fault
      else if statusvals st ! slot \<noteq> v then Inr (show_value slot v (store_value slot v st))
      else Inr st)"
  by (simp add: storeMonitorSlot_def store_value_def show_value_def)

definition storeMonitorFlag :: "nat \<Rightarrow> bool \<Rightarrow> status \<Rightarrow> stop + status" where
  "storeMonitorFlag slot flag st =
     (if 13 \<le> slot then Inl Fault
      else if statusflags st ! slot \<noteq> flag
      then let idx = statusflags_ptr ! slot in
           Inr (st\<lparr>statusflags := (statusflags st)[slot := flag],
                   status_stream := (status_stream st)[idx := (if flag then 49 else 48),
                                                       idx + 1 := (if slot = 11 then 0 else 44)],
                   status_updated := True\<rparr>)
      else Inr st)"

fun init_slots :: "nat list \<Rightarrow> status \<Rightarrow> stop + status" where
  "init_slots [] st = Inr st"
| "init_slots (i # is) st =
     and_then (storeMonitorSlot i (of_nat i * 80 + of_nat (i div 3))
                 (st\<lparr>statusvals := (statusvals st)[i := - 100000]\<rparr>)) (init_slots is)"

fun init_flags :: "nat list \<Rightarrow> status \<Rightarrow> stop + status" where
  "init_flags [] st = Inr st"
| "init_flags (j # js) st =
     and_then (storeMonitorFlag j True (st\<lparr>statusflags := (statusflags st)[j := False]\<rparr>)) (init_flags js)"

definition initStatus :: "status \<Rightarrow> stop + status" where
  "initStatus st = and_then (init_slots [0..<10] st) (init_flags [0..<12])"

section \<open>The stream shows the state\<close>

text \<open>
  The contract of the status line: the text of slot \<open>i\<close> starts at byte \<open>11 * i\<close>, the
  digit of flag \<open>j\<close> is byte \<open>110 + 2 * j\<close>, with its separator behind it. Flag 12
  (\<open>DROP_SENSOR\<close>) is outside the part that \<open>initStatus\<close> fills.
\<close>

definition slot_shown :: "status \<Rightarrow> nat \<Rightarrow> bool" where
  "slot_shown st i = (\<forall>k < 11. status_stream st ! (11 * i + k) = slot_text (statusvals st ! i) ! k)"

definition flag_shown :: "status \<Rightarrow> nat \<Rightarrow> bool" where
  "flag_shown st j =
     (status_stream st ! (110 + 2 * j) = (if statusflags st ! j then 49 else 48) \<and>
      status_stream st ! (111 + 2 * j) = (if j = 11 then 0 else 44))"

definition status_shape :: "status \<Rightarrow> bool" where
  "status_shape st =
     (length (statusvals st) = 10 \<and> length (statusflags st) = 13 \<and> length (status_stream st) = 150)"

definition status_inv :: "status \<Rightarrow> bool" where
  "status_inv st = (status_shape st \<and> (\<forall>i < 10. slot_shown st i) \<and> (\<forall>j < 12. flag_shown st j))"

lemma statusflags_ptr_nth: "j < 13 \<Longrightarrow> statusflags_ptr ! j = 110 + 2 * j"
  by (simp add: statusflags_ptr_def less_Suc_eq numeral_eq_Suc) (elim disjE; simp)

lemma storeMonitorSlot_shape:
  "storeMonitorSlot i v st = Inr st' \<Longrightarrow> status_shape st \<Longrightarrow> status_shape st'"
  using slot_text_ge_11 [of v]
  by (auto simp: storeMonitorSlot_def status_shape_def min_def split: if_splits)

lemma storeMonitorFlag_shape:
  "storeMonitorFlag i v st = Inr st' \<Longrightarrow> status_shape st \<Longrightarrow> status_shape st'"
  by (auto simp: storeMonitorFlag_def status_shape_def Let_def split: if_splits)

lemma storeMonitorSlot_stream:
  assumes "status_shape st" and "slot < 10" and "statusvals st ! slot \<noteq> v" and "k < 150"
    and "storeMonitorSlot slot v st = Inr st'"
  shows "status_stream st' ! k =
    (if 11 * slot \<le> k \<and> k < 11 * slot + 11 then slot_text v ! (k - 11 * slot) else status_stream st ! k)"
  using assms slot_text_ge_11 [of v]
  by (auto simp: storeMonitorSlot_def status_shape_def nth_blit min_def)

lemma storeMonitorSlot_shows:
  assumes "storeMonitorSlot slot v st = Inr st'" and "status_shape st"
    and "i \<noteq> slot \<Longrightarrow> slot_shown st i" and "i < 10" and "statusvals st ! slot \<noteq> v"
  shows "slot_shown st' i"
proof -
  have s: "slot < 10" and v: "statusvals st' = (statusvals st)[slot := v]"
    using assms by (auto simp: storeMonitorSlot_def split: if_splits)
  have l: "length (statusvals st) = 10" using assms(2) by (simp add: status_shape_def)
  show ?thesis
  proof (cases "i = slot")
    case True
    then show ?thesis
      using l s by (auto simp: slot_shown_def v storeMonitorSlot_stream [OF assms(2) s assms(5) _ assms(1)])
  next
    case False
    then have "\<not> (11 * slot \<le> 11 * i + k \<and> 11 * i + k < 11 * slot + 11)" if "k < 11" for k
      using that by arith
    with False show ?thesis
      using assms(3,4) by (auto simp: slot_shown_def v storeMonitorSlot_stream [OF assms(2) s assms(5) _ assms(1)])
  qed
qed

lemma storeMonitorSlot_flag_shown:
  assumes "storeMonitorSlot slot v st = Inr st'" and "status_shape st" and "j < 12" and "flag_shown st j"
  shows "flag_shown st' j"
proof (cases "statusvals st ! slot = v")
  case True
  with assms show ?thesis by (simp add: storeMonitorSlot_def split: if_splits)
next
  case False
  have s: "slot < 10" and f: "statusflags st' = statusflags st"
    using assms(1) by (auto simp: storeMonitorSlot_def split: if_splits)
  show ?thesis
    using assms(3,4) s
    by (auto simp: flag_shown_def f storeMonitorSlot_stream [OF assms(2) s False _ assms(1)])
qed

lemma storeMonitorFlag_stream:
  assumes "status_shape st" and "slot < 13" and "statusflags st ! slot \<noteq> flag"
    and "storeMonitorFlag slot flag st = Inr st'"
  shows "status_stream st' =
    (status_stream st)[110 + 2 * slot := (if flag then 49 else 48), 111 + 2 * slot := (if slot = 11 then 0 else 44)]"
  using assms by (auto simp: storeMonitorFlag_def Let_def statusflags_ptr_nth)

lemma storeMonitorFlag_slot_shown:
  assumes "storeMonitorFlag slot flag st = Inr st'" and "status_shape st" and "i < 10" and "slot_shown st i"
  shows "slot_shown st' i"
  using assms
  by (auto simp: storeMonitorFlag_def Let_def statusflags_ptr_nth slot_shown_def split: if_splits)

lemma storeMonitorFlag_shows:
  assumes "storeMonitorFlag slot flag st = Inr st'" and "status_shape st" and "j < 12"
    and "j \<noteq> slot \<Longrightarrow> flag_shown st j" and "statusflags st ! slot \<noteq> flag"
  shows "flag_shown st' j"
proof -
  have s: "slot < 13" and f: "statusflags st' = (statusflags st)[slot := flag]"
    using assms by (auto simp: storeMonitorFlag_def Let_def split: if_splits)
  have l: "length (statusflags st) = 13" "length (status_stream st) = 150"
    using assms(2) by (auto simp: status_shape_def)
  show ?thesis
    using assms(3,4) s l
    by (auto simp: flag_shown_def f storeMonitorFlag_stream [OF assms(2) s assms(5,1)] nth_list_update)
qed

lemma storeMonitorSlot_inv:
  assumes "storeMonitorSlot slot v st = Inr st'" and "status_inv st"
  shows "status_inv st'"
proof (cases "statusvals st ! slot = v")
  case True
  with assms show ?thesis by (simp add: storeMonitorSlot_def split: if_splits)
next
  case False
  with assms show ?thesis
    by (auto simp: status_inv_def
        intro: storeMonitorSlot_shape storeMonitorSlot_shows storeMonitorSlot_flag_shown)
qed

lemma storeMonitorFlag_inv:
  assumes "storeMonitorFlag slot flag st = Inr st'" and "status_inv st"
  shows "status_inv st'"
proof (cases "statusflags st ! slot = flag")
  case True
  with assms show ?thesis by (simp add: storeMonitorFlag_def split: if_splits)
next
  case False
  with assms show ?thesis
    by (auto simp: status_inv_def
        intro: storeMonitorFlag_shape storeMonitorFlag_shows storeMonitorFlag_slot_shown)
qed

section \<open>Totality on valid slots, and the initial line\<close>

lemma storeMonitorSlot_total: "slot < 10 \<Longrightarrow> \<exists>st'. storeMonitorSlot slot v st = Inr st'"
  by (simp add: storeMonitorSlot_def)

lemma storeMonitorFlag_total: "slot < 13 \<Longrightarrow> \<exists>st'. storeMonitorFlag slot f st = Inr st'"
  by (simp add: storeMonitorFlag_def Let_def)

lemma storeMonitorFlag_vals:
  "storeMonitorFlag slot flag st = Inr st' \<Longrightarrow> statusvals st' = statusvals st"
  by (auto simp: storeMonitorFlag_def Let_def split: if_splits)

text \<open>Forcing a stored value or flag does not disturb the other fields.\<close>

lemma force_val_shown:
  "i \<noteq> n \<Longrightarrow> slot_shown (st\<lparr>statusvals := (statusvals st)[n := x]\<rparr>) i = slot_shown st i"
  by (simp add: slot_shown_def)

lemma force_flag_shown:
  "i \<noteq> n \<Longrightarrow> flag_shown (st\<lparr>statusflags := (statusflags st)[n := x]\<rparr>) i = flag_shown st i"
  by (simp add: flag_shown_def)

lemma slot_shown_flags: "slot_shown (st\<lparr>statusflags := x\<rparr>) i = slot_shown st i"
  by (simp add: slot_shown_def)

lemma init_slots_shows:
  assumes "set is \<subseteq> {..<10}" and "status_shape st"
  shows "\<exists>st'. init_slots is st = Inr st' \<and> status_shape st' \<and>
           (\<forall>i < 10. i \<in> set is \<or> slot_shown st i \<longrightarrow> slot_shown st' i)"
  using assms
proof (induction "is" arbitrary: st)
  case Nil
  then show ?case by simp
next
  case (Cons n ns)
  let ?v = "of_nat n * 80 + of_nat (n div 3) :: rat"
  let ?st = "st\<lparr>statusvals := (statusvals st)[n := - 100000]\<rparr>"
  have n: "n < 10" and sh: "status_shape ?st"
    using Cons.prems by (auto simp: status_shape_def)
  obtain st1 where st1: "storeMonitorSlot n ?v ?st = Inr st1"
    using n storeMonitorSlot_total by blast
  have "(0::rat) \<le> ?v" by simp
  then have "- 100000 < ?v" by linarith
  then have ne: "statusvals ?st ! n \<noteq> ?v" using Cons.prems n by (auto simp: status_shape_def)
  have sh1: "status_shape st1" using st1 sh by (rule storeMonitorSlot_shape)
  have shown1: "slot_shown st1 i" if "i < 10" "i = n \<or> slot_shown st i" for i
    using that by (intro storeMonitorSlot_shows [OF st1 sh _ _ ne]) (auto simp: force_val_shown)
  obtain st' where "init_slots ns st1 = Inr st'" "status_shape st'"
    "\<forall>i < 10. i \<in> set ns \<or> slot_shown st1 i \<longrightarrow> slot_shown st' i"
    using Cons.IH [OF _ sh1] Cons.prems by auto
  with st1 shown1 show ?case by auto
qed

lemma init_flags_shows:
  assumes "set js \<subseteq> {..<12}" and "status_shape st" and "\<forall>i < 10. slot_shown st i"
  shows "\<exists>st'. init_flags js st = Inr st' \<and> status_shape st' \<and> (\<forall>i < 10. slot_shown st' i) \<and>
           (\<forall>j < 12. j \<in> set js \<or> flag_shown st j \<longrightarrow> flag_shown st' j)"
  using assms
proof (induction js arbitrary: st)
  case Nil
  then show ?case by simp
next
  case (Cons n ns)
  let ?st = "st\<lparr>statusflags := (statusflags st)[n := False]\<rparr>"
  have n: "n < 12" and sh: "status_shape ?st"
    using Cons.prems by (auto simp: status_shape_def)
  obtain st1 where st1: "storeMonitorFlag n True ?st = Inr st1"
    using n storeMonitorFlag_total [of n] by fastforce
  have ne: "statusflags ?st ! n \<noteq> True" using Cons.prems n by (auto simp: status_shape_def)
  have sh1: "status_shape st1" using st1 sh by (rule storeMonitorFlag_shape)
  have slots1: "\<forall>i < 10. slot_shown st1 i"
    using Cons.prems(3) storeMonitorFlag_slot_shown [OF st1 sh] by (simp add: slot_shown_flags)
  have shown1: "flag_shown st1 i" if "i < 12" "i = n \<or> flag_shown st i" for i
    using that by (intro storeMonitorFlag_shows [OF st1 sh _ _ ne]) (auto simp: force_flag_shown)
  obtain st' where "init_flags ns st1 = Inr st'" "status_shape st'" "\<forall>i < 10. slot_shown st' i"
    "\<forall>j < 12. j \<in> set ns \<or> flag_shown st1 j \<longrightarrow> flag_shown st' j"
    using Cons.IH [OF _ sh1 slots1] Cons.prems by auto
  with st1 shown1 show ?case by auto
qed

lemma initStatus_inv: "status_shape st \<Longrightarrow> \<exists>st'. initStatus st = Inr st' \<and> status_inv st'"
  using init_slots_shows [of "[0..<10]" st] init_flags_shows [of "[0..<12]"]
  unfolding initStatus_def status_inv_def
  by (fastforce simp: and_then_Inr_iff)

section \<open>The line over a whole run\<close>

text \<open>A run of stores, as the drivers issue them.\<close>

datatype store = Slot nat rat | Flag nat bool

primrec run_store :: "store \<Rightarrow> status \<Rightarrow> stop + status" where
  "run_store (Slot i v) st = storeMonitorSlot i v st"
| "run_store (Flag j b) st = storeMonitorFlag j b st"

fun run_stores :: "store list \<Rightarrow> status \<Rightarrow> stop + status" where
  "run_stores [] st = Inr st"
| "run_stores (c # cs) st = and_then (run_store c st) (run_stores cs)"

lemma run_store_inv: "run_store c st = Inr st' \<Longrightarrow> status_inv st \<Longrightarrow> status_inv st'"
  by (cases c) (auto intro: storeMonitorSlot_inv storeMonitorFlag_inv)

lemma run_stores_inv: "run_stores cs st = Inr st' \<Longrightarrow> status_inv st \<Longrightarrow> status_inv st'"
  by (induction cs arbitrary: st) (auto simp: and_then_Inr_iff dest: run_store_inv)

text \<open>After \<open>initStatus\<close>, whatever values and flags the drivers store, every one
  of the 150 bytes that the host polls for the ten values and the flags 0 to 11 shows the
  value stored last: the text of slot \<open>i\<close> is the first eleven characters of its
  \<open>%6.4E,\<close> conversion, and each flag is its digit followed by its separator.\<close>

theorem status_line_shows_state:
  assumes "initStatus status_bss = Inr st0" and "run_stores cs st0 = Inr st"
  shows "(\<forall>i < 10. take 11 (drop (11 * i) (status_stream st)) = take 11 (slot_text (statusvals st ! i))) \<and>
         (\<forall>j < 12. flag_shown st j)"
proof -
  have "status_shape status_bss" by (simp add: status_shape_def status_bss_def)
  with assms(1) have "status_inv st0" using initStatus_inv by fastforce
  with assms(2) have inv: "status_inv st" by (rule run_stores_inv)
  have "take 11 (drop (11 * i) (status_stream st)) = take 11 (slot_text (statusvals st ! i))" if "i < 10" for i
    using inv that slot_text_ge_11 [of "statusvals st ! i"]
    by (intro nth_equalityI) (auto simp: status_inv_def status_shape_def slot_shown_def)
  with inv show ?thesis by (simp add: status_inv_def)
qed

text \<open>The slots are too narrow for a negative value. A non-negative value of
  ordinary size is followed by its comma; a negative one fills the slot with its text and
  the comma is cut off, so the host cannot separate it from the next field.\<close>

theorem negative_slot_loses_comma:
  assumes "status_inv st" and "i < 10" and "v = 0 \<or> 1 / 10 ^ 98 \<le> \<bar>v\<bar> \<and> \<bar>v\<bar> < 10 ^ 98"
    and "statusvals st ! i \<noteq> v" and "storeMonitorSlot i v st = Inr st'"
  shows "status_stream st' ! (11 * i + 10) = (if v < 0 then last (fmt_E v) else 44)"
proof -
  have shp: "status_shape st" using assms(1) by (simp add: status_inv_def)
  have "status_stream st' ! (11 * i + 10) = slot_text v ! 10"
    using assms(2) by (subst storeMonitorSlot_stream [OF shp assms(2,4) _ assms(5)]) auto
  moreover have "v < 0 \<Longrightarrow> last (fmt_E v) = fmt_E v ! 10"
    using fmt_E_length [OF assms(3)] by (cases "fmt_E v = []") (auto simp: last_conv_nth)
  ultimately show ?thesis
    using fmt_E_length [OF assms(3)] by (auto simp: slot_text_def nth_append)
qed

text \<open>Concrete runs that satisfy the hypotheses of the two claims.\<close>

theorem status_line_shows_state_witness:
  "\<exists>st0 st. initStatus status_bss = Inr st0 \<and>
     run_stores [Slot 0 5, Flag 3 False] st0 = Inr st \<and>
     (\<forall>i < 10. take 11 (drop (11 * i) (status_stream st)) = take 11 (slot_text (statusvals st ! i)))"
proof -
  obtain st0 where 0: "initStatus status_bss = Inr st0"
    using initStatus_inv [of status_bss] by (auto simp: status_shape_def status_bss_def)
  obtain st where 1: "run_stores [Slot 0 5, Flag 3 False] st0 = Inr st"
    using storeMonitorSlot_total [of 0 5 st0] storeMonitorFlag_total [of 3 False]
    by (simp add: and_then_Inr_iff) metis
  from status_line_shows_state [OF 0 1] 0 1 show ?thesis by blast
qed

theorem negative_slot_loses_comma_witness:
  "\<exists>st0 st'. initStatus status_bss = Inr st0 \<and> storeMonitorSlot 0 (- 12345 / 1000) st0 = Inr st' \<and>
     status_stream st' ! 10 = last (fmt_E (- 12345 / 1000))"
proof -
  obtain st0 where 0: "initStatus status_bss = Inr st0" and i: "status_inv st0"
    using initStatus_inv [of status_bss] by (auto simp: status_shape_def status_bss_def)
  have z: "statusvals (projr (initStatus status_bss)) ! 0 = 0" by code_simp
  obtain st' where 1: "storeMonitorSlot 0 (- 12345 / 1000) st0 = Inr st'"
    using storeMonitorSlot_total by fastforce
  have v: "(- 12345 / 1000 :: rat) = 0 \<or>
      1 / 10 ^ 98 \<le> \<bar>- 12345 / 1000 :: rat\<bar> \<and> \<bar>- 12345 / 1000 :: rat\<bar> < 10 ^ 98" by simp
  from negative_slot_loses_comma [OF i _ v _ 1] z 0 1 show ?thesis by simp
qed

end
