(* ===== verification/EventLoop.thy ===== *)
theory EventLoop
  imports Antares
begin

text \<open>
  The contract that the three drivers share: each owns a queue of events and empties it
  in its \<open>serviceEvents\<close>, one event handled and then popped per turn of the loop. The
  drivers interpret it on their own \<open>serviceEvents\<close>.
\<close>

section \<open>The interface\<close>

locale event_service =
  fixes queue :: "'c \<Rightarrow> event list"
    and handle :: "event \<Rightarrow> 'c \<Rightarrow> stop + 'c"
    and pop :: "'c \<Rightarrow> 'c"
    and service :: "'c \<Rightarrow> stop + 'c"
    and weight :: "'c \<Rightarrow> nat"
  assumes service_Nil: "queue c = [] \<Longrightarrow> service c = Inr c"
    and service_Cons: "queue c = e # es \<Longrightarrow> service c = and_then (handle e c) (\<lambda>c'. service (pop c'))"
    and weight_less: "queue c = e # es \<Longrightarrow> handle e c = Inr c' \<Longrightarrow> weight (pop c') < weight c"
begin

lemma service_induct:
  assumes "\<And>c. queue c = [] \<Longrightarrow> P c"
    and "\<And>c e es. queue c = e # es \<Longrightarrow> (\<And>c'. handle e c = Inr c' \<Longrightarrow> P (pop c')) \<Longrightarrow> P c"
  shows "P c"
proof (induction "weight c" arbitrary: c rule: less_induct)
  case less
  show ?case
  proof (cases "queue c")
    case Nil
    then show ?thesis by (rule assms(1))
  next
    case (Cons e es)
    then show ?thesis using less weight_less by (blast intro: assms(2))
  qed
qed

text \<open>When the service returns, no event is left.\<close>

lemma service_drains: "service c = Inr c' \<Longrightarrow> queue c' = []"
proof (induction c rule: service_induct)
  case (2 c e es)
  then show ?case by (auto simp: service_Cons and_then_Inr_iff)
qed (auto simp: service_Nil)

text \<open>A relation that handling and popping respect holds between start and end.\<close>

lemma service_rel:
  assumes "service c = Inr c'" and refl: "\<And>c. R c c"
    and trans: "\<And>a b d. R a b \<Longrightarrow> R b d \<Longrightarrow> R a d"
    and step: "\<And>e c c'. handle e c = Inr c' \<Longrightarrow> R c (pop c')"
  shows "R c c'"
  using assms(1)
proof (induction c rule: service_induct)
  case (1 c)
  then show ?case using refl by (simp add: service_Nil)
next
  case (2 c e es)
  then obtain d where "handle e c = Inr d" "service (pop d) = Inr c'"
    by (auto simp: service_Cons and_then_Inr_iff)
  then show ?case using 2 step trans by blast
qed

lemma service_inv:
  assumes "service c = Inr c'" and "I c"
    and step: "\<And>e es c c'. queue c = e # es \<Longrightarrow> handle e c = Inr c' \<Longrightarrow> I c \<Longrightarrow> I (pop c')"
  shows "I c'"
  using assms(1,2)
proof (induction c rule: service_induct)
  case (1 c)
  then show ?case by (simp add: service_Nil)
next
  case (2 c e es)
  then obtain d where "handle e c = Inr d" "service (pop d) = Inr c'"
    by (auto simp: service_Cons and_then_Inr_iff)
  then show ?case using 2 step by blast
qed

text \<open>Where no handler stops, the service returns.\<close>

lemma service_returns:
  assumes "\<And>e es c. queue c = e # es \<Longrightarrow> I c \<Longrightarrow> \<exists>c'. handle e c = Inr c' \<and> I (pop c')" and "I c"
  shows "\<exists>c'. service c = Inr c' \<and> I c'"
  using assms(2)
proof (induction c rule: service_induct)
  case (1 c)
  then show ?case by (simp add: service_Nil)
next
  case (2 c e es)
  then obtain d where "handle e c = Inr d" "I (pop d)" using assms(1) by blast
  then show ?case using 2 by (simp add: service_Cons)
qed

end

end
