(* ===== verification/Sweep.thy ===== *)
theory Sweep
  imports Status EventLoop
begin

text \<open>
  The sweep (step motor) driver: \<open>Sweep/sweep.cpp\<close> and its state machine
  \<open>Sweep/sweep_sm.cpp\<close>, generated from \<open>sweep.sm\<close>. \<open>sweepmap\<close> holds 4000 cells:
  255 stops the motor, any other value is the number of ticks that one half of a step
  pulse lasts. \<open>sweepmapptr\<close> is modelled by its offset from \<open>sweepmapinit\<close>, which may
  leave the array; a read or a write there is a \<open>Fault\<close>.
\<close>

unbundle bit_operations_syntax

section \<open>Conversions of the library\<close>

text \<open>
  The conversions of \<open>sscanf\<close> that the command handlers use: a sequence of \<open>%d\<close>.
  A conversion skips white space, takes an optional sign and at least one digit. The
  call assigns the conversions that succeed, in order, and leaves the other targets
  alone. A string ends at its NUL byte; numbers outside \<open>int\<close> are undefined in C and
  are not given a meaning beyond their decimal value.
\<close>

definition is_space :: "u8 \<Rightarrow> bool" where
  "is_space c = (c = 32 \<or> (9 \<le> c \<and> c \<le> 13))"

definition is_digit :: "u8 \<Rightarrow> bool" where
  "is_digit c = (48 \<le> c \<and> c \<le> 57)"

fun digits_value :: "int \<Rightarrow> u8 list \<Rightarrow> int \<times> u8 list" where
  "digits_value acc [] = (acc, [])"
| "digits_value acc (c # cs) =
     (if is_digit c then digits_value (10 * acc + (uint c - 48)) cs else (acc, c # cs))"

definition scan_d :: "u8 list \<Rightarrow> (int \<times> u8 list) option" where
  "scan_d cs =
     (let t = dropWhile is_space cs;
          neg = (t \<noteq> [] \<and> hd t = 45);
          u = (if t \<noteq> [] \<and> (hd t = 45 \<or> hd t = 43) then tl t else t)
      in if u \<noteq> [] \<and> is_digit (hd u)
         then (case digits_value 0 u of (n, rest) \<Rightarrow> Some (if neg then - n else n, rest))
         else None)"

fun sscanf_d :: "nat \<Rightarrow> u8 list \<Rightarrow> int list" where
  "sscanf_d 0 cs = []"
| "sscanf_d (Suc k) cs = (case scan_d cs of None \<Rightarrow> [] | Some (n, rest) \<Rightarrow> n # sscanf_d k rest)"

text \<open>The value of the \<open>i\<close>-th target after the call, given its value before.\<close>

definition assigned :: "int list \<Rightarrow> nat \<Rightarrow> int \<Rightarrow> int" where
  "assigned xs i old = (if i < length xs then xs ! i else old)"

lemma sscanf_d_length: "length (sscanf_d k cs) \<le> k"
  by (induction k cs rule: sscanf_d.induct) (auto split: option.splits)

section \<open>State\<close>

text \<open>The globals of \<open>main.cpp\<close> that the drivers share.\<close>

record globals =
  bspcounter :: u32
  gstatus :: status
  hw :: hardware

definition store_flag :: "nat \<Rightarrow> bool \<Rightarrow> globals \<Rightarrow> stop + globals" where
  "store_flag slot b g = and_then (storeMonitorFlag slot b (gstatus g)) (\<lambda>st. Inr (g\<lparr>gstatus := st\<rparr>))"

definition store_slot :: "nat \<Rightarrow> rat \<Rightarrow> globals \<Rightarrow> stop + globals" where
  "store_slot slot v g = and_then (storeMonitorSlot slot v (gstatus g)) (\<lambda>st. Inr (g\<lparr>gstatus := st\<rparr>))"

datatype SweepState = ColdStart | Idle | setParked | searchOut | searchIn

primrec state_name :: "SweepState \<Rightarrow> string" where
  "state_name ColdStart = ''Adm::ColdStart''"
| "state_name Idle = ''Adm::Idle''"
| "state_name setParked = ''Adm::setParked''"
| "state_name searchOut = ''Adm::searchOut''"
| "state_name searchIn = ''Adm::searchIn''"

record sweep =
  sw_state :: "SweepState option"    \<comment> \<open>\<open>_fsm._state\<close>; \<open>None\<close> is NULL, inside a transition\<close>
  sw_events :: "event list"
  sweepmap :: "u8 list"
  sweepmapptr :: int
  sweeppos :: int
  pulsegap :: u8
  sw_enable :: bool
  outdir :: bool
  pulse :: bool
  intap :: u32
  outtap :: u32
  parked :: bool
  parkedptr :: "int option"
  sweepjob_in :: int
  sweepjob_out :: int
  sweepjob_speed :: int
  sweepjob_outdir :: bool
  sweepjob_enabled :: bool

type_synonym sw = "sweep \<times> globals"

section \<open>Setters and sensors\<close>

definition setEnable :: "bool \<Rightarrow> sw \<Rightarrow> stop + sw" where
  "setEnable b = (\<lambda>(s, g).
     let g = g\<lparr>hw := (if b then pin_off STEP_ENABLE (hw g) else pin_on STEP_ENABLE (hw g))\<rparr> in
     and_then (store_flag 3 b g) (\<lambda>g. Inr (s\<lparr>sw_enable := b\<rparr>, g)))"

definition setOutDir :: "bool \<Rightarrow> sw \<Rightarrow> stop + sw" where
  "setOutDir b = (\<lambda>(s, g).
     let g = g\<lparr>hw := (if b then pin_off STEP_DIR (hw g) else pin_on STEP_DIR (hw g))\<rparr> in
     and_then (store_flag 4 b g) (\<lambda>g. Inr (s\<lparr>outdir := b\<rparr>, g)))"

definition setPulse :: "bool \<Rightarrow> sw \<Rightarrow> sw" where
  "setPulse high = (\<lambda>(s, g).
     (s\<lparr>pulse := high\<rparr>,
      g\<lparr>hw := (if high then pin_on STEP_PULSE (hw g) else pin_off STEP_PULSE (hw g))\<rparr>))"

definition setFlag32 :: "u8 \<Rightarrow> u8 \<Rightarrow> u32 \<Rightarrow> u8" where
  "setFlag32 mon bits value = (if value = 1 then mon OR bits else mon AND NOT bits)"

definition setFlagB :: "u8 \<Rightarrow> u8 \<Rightarrow> bool \<Rightarrow> u8" where
  "setFlagB mon bits value = (if value then mon OR bits else mon AND NOT bits)"

definition readSensors :: "sw \<Rightarrow> stop + sw" where
  "readSensors = (\<lambda>(s, g).
     let it = inputs (hw g) STEP_INTAP;
         mon = setFlag32 0 2 it;
         ot = inputs (hw g) STEP_OUTTAP;
         mon = setFlag32 mon 4 ot;
         tparked = (it = 0 \<and> ot = 0);
         s = s\<lparr>intap := it, outtap := ot,
               parkedptr := (if \<not> parked s \<and> tparked then Some (sweepmapptr s) else parkedptr s),
               parked := tparked\<rparr>;
         mon = setFlagB mon 1 (sw_enable s)
     in and_then (store_flag 1 (mon \<noteq> 0) g) (\<lambda>g. Inr (s, g)))"

definition isParked :: "sw \<Rightarrow> stop + (bool \<times> sw)" where
  "isParked c = and_then (readSensors c) (\<lambda>(s, g). Inr (parked s, (s, g)))"

definition isInside :: "sw \<Rightarrow> stop + (bool \<times> sw)" where
  "isInside c = and_then (readSensors c) (\<lambda>(s, g). Inr (intap s \<noteq> 0, (s, g)))"

definition isOutside :: "sw \<Rightarrow> stop + (bool \<times> sw)" where
  "isOutside c = and_then (readSensors c) (\<lambda>(s, g). Inr (outtap s \<noteq> 0, (s, g)))"

section \<open>Core routines\<close>

definition clearMap :: "sweep \<Rightarrow> sweep" where
  "clearMap s = s\<lparr>sweepmap := replicate 4000 255\<rparr>"

definition Park :: "sw \<Rightarrow> sw" where
  "Park = (\<lambda>(s, g). ((clearMap s)\<lparr>sweepmapptr := 2000, sweeppos := 2000\<rparr>, g))"

text \<open>The loop of \<open>Slide\<close>: \<open>n\<close> cells from \<open>i\<close>, upwards when moving out.\<close>

fun slide_fill :: "nat \<Rightarrow> bool \<Rightarrow> u8 \<Rightarrow> int \<Rightarrow> u8 list \<Rightarrow> stop + u8 list" where
  "slide_fill 0 out v i m = Inr m"
| "slide_fill (Suc n) out v i m =
     (case arr_set m i v of
        None \<Rightarrow> Inl Fault
      | Some m' \<Rightarrow> slide_fill n out v (if out then i + 1 else i - 1) m')"

definition Slide :: "int \<Rightarrow> int \<Rightarrow> sw \<Rightarrow> stop + sw" where
  "Slide step speed c =
     and_then (setOutDir (\<not> step > 0) c) (\<lambda>(s, g).
     and_then (slide_fill (nat \<bar>step\<bar>) (outdir s) (of_int speed) (sweepmapptr s) (sweepmap s)) (\<lambda>m.
     setEnable True (s\<lparr>sweepmap := m\<rparr>, g)))"

definition Goto :: "int \<Rightarrow> int \<Rightarrow> sw \<Rightarrow> stop + sw" where
  "Goto step speed = (\<lambda>(s, g).
     let dif1 = step - sweeppos s in
     if dif1 \<noteq> 0 then Slide dif1 speed (s, g) else Inr (s, g))"

definition SweepJob :: "sw \<Rightarrow> stop + sw" where
  "SweepJob = (\<lambda>(s, g).
     if sweepjob_enabled s then
       and_then (if sweepjob_outdir s then Goto (sweepjob_out s) (sweepjob_speed s) (s, g)
                 else Goto (sweepjob_in s) (sweepjob_speed s) (s, g))
         (\<lambda>(s, g). Inr (s\<lparr>sweepjob_outdir := \<not> sweepjob_outdir s\<rparr>, g))
     else Inr (s, g))"

definition PulseBurst :: "sw \<Rightarrow> sw" where
  "PulseBurst = (\<lambda>(s, g). (s, g\<lparr>hw := (pin_toggle STEP_PULSE ^^ 10000) (hw g)\<rparr>))"

definition sw_push :: "SIGTYPES \<Rightarrow> sw \<Rightarrow> sw" where
  "sw_push t = (\<lambda>(s, g). (s\<lparr>sw_events := sw_events s @ [mk_event t 1 (PMap (sweepmapptr s))]\<rparr>, g))"

definition TickCallback :: "sw \<Rightarrow> sw" where
  "TickCallback = sw_push SWEEP_TICK_SIG"

section \<open>The state machine\<close>

definition setState :: "SweepState option \<Rightarrow> sw \<Rightarrow> sw" where
  "setState q = (\<lambda>(s, g). (s\<lparr>sw_state := q\<rparr>, g))"

fun Entry :: "SweepState \<Rightarrow> sw \<Rightarrow> stop + sw" where
  "Entry ColdStart c = Inr (TickCallback c)"
| "Entry Idle c = Inr c"
| "Entry setParked c = Inr (TickCallback (Park c))"
| "Entry searchOut c = Slide 1 4 c"
| "Entry searchIn c = Slide (- 1) 4 c"

definition goto_state :: "SweepState \<Rightarrow> sw \<Rightarrow> stop + sw" where
  "goto_state q c = Entry q (setState (Some q) c)"

text \<open>A \<open>nil\<close> transition whose action does nothing: the state is cleared and set again.\<close>

definition nil_transition :: "SweepState \<Rightarrow> sw \<Rightarrow> sw" where
  "nil_transition q c = setState (Some q) (setState None c)"

definition fsm_Tick :: "sw \<Rightarrow> stop + sw" where
  "fsm_Tick c = (case sw_state (fst c) of
     None \<Rightarrow> Inl StateUndefined
   | Some ColdStart \<Rightarrow> goto_state Idle c
   | Some setParked \<Rightarrow> goto_state Idle c
   | Some Idle \<Rightarrow> Inr (nil_transition Idle c)
   | Some q \<Rightarrow> Inl (TransitionUndefined (state_name q)))"

definition fsm_Park :: "sw \<Rightarrow> stop + sw" where
  "fsm_Park c = (case sw_state (fst c) of
     None \<Rightarrow> Inl StateUndefined
   | Some Idle \<Rightarrow>
       and_then (isParked c) (\<lambda>(b, c). if b then goto_state setParked c else
       and_then (isInside c) (\<lambda>(b, c). if b then goto_state searchOut c else
       and_then (isOutside c) (\<lambda>(b, c). if b then goto_state searchIn c else
       Inl (TransitionUndefined (state_name Idle)))))
   | Some q \<Rightarrow> Inl (TransitionUndefined (state_name q)))"

definition fsm_JobDone :: "sw \<Rightarrow> stop + sw" where
  "fsm_JobDone c = (case sw_state (fst c) of
     None \<Rightarrow> Inl StateUndefined
   | Some searchOut \<Rightarrow>
       and_then (isParked c) (\<lambda>(b, c). if b then goto_state setParked c else
       and_then (isInside c) (\<lambda>(b, c). if b then goto_state searchOut c else
       Inr (nil_transition searchOut c)))
   | Some searchIn \<Rightarrow>
       and_then (isParked c) (\<lambda>(b, c). if b then goto_state setParked c else
       and_then (isOutside c) (\<lambda>(b, c). if b then goto_state searchIn c else
       Inr (nil_transition searchIn c)))
   | Some q \<Rightarrow> Inr (nil_transition q c))"

definition sw_start :: "sw \<Rightarrow> stop + sw" where
  "sw_start c =
     and_then (readSensors c) (\<lambda>(s, g).
     let s = (clearMap s)\<lparr>sweepmapptr := 2000, sweeppos := 2000\<rparr> in
     and_then (setEnable False (s, g)) (\<lambda>c.
     and_then (setOutDir False c) (\<lambda>c.
     case setPulse True c of (s, g) \<Rightarrow>
     let s = s\<lparr>pulsegap := 0, sweepjob_enabled := False\<rparr> in
     (case sw_state s of None \<Rightarrow> Inl StateUndefined | Some q \<Rightarrow> Entry q (s, g)))))"

section \<open>The tick service (called from the PIT interrupt)\<close>

definition sw_serviceBoard :: "sw \<Rightarrow> stop + sw" where
  "sw_serviceBoard = (\<lambda>(s, g).
     if sw_enable s then
       (case arr_get (sweepmap s) (sweepmapptr s) of
          None \<Rightarrow> Inl Fault
        | Some cell \<Rightarrow>
            if cell \<noteq> 255 then
              and_then (if pulsegap s = 0 then setOutDir (outdir s) (s\<lparr>pulsegap := cell\<rparr>, g) else Inr (s, g))
                (\<lambda>(s, g).
                 let i = nat (sweepmapptr s) in
                 if cell = 0 then
                   readSensors
                     (if pulse s then setPulse False (s\<lparr>sweepmap := (sweepmap s)[i := pulsegap s]\<rparr>, g)
                      else case setPulse True (s, g) of (s, g) \<Rightarrow>
                        let s = s\<lparr>pulsegap := 0, sweepmap := (sweepmap s)[i := 255]\<rparr> in
                        (if outdir s then s\<lparr>sweepmapptr := sweepmapptr s + 1, sweeppos := sweeppos s - 1\<rparr>
                         else s\<lparr>sweepmapptr := sweepmapptr s - 1, sweeppos := sweeppos s + 1\<rparr>, g))
                 else Inr (s\<lparr>sweepmap := (sweepmap s)[i := cell - 1]\<rparr>, g))
            else
              (case setPulse True (s, g) of (s, g) \<Rightarrow>
               and_then (readSensors (s\<lparr>pulsegap := 0\<rparr>, g)) (\<lambda>(s, g).
               Inr (if sweepjob_enabled s then sw_push SWEEP_SWEEPJOB_SIG (s, g) else (s, g)))))
     else readSensors (s, g))"

section \<open>The event service (called from the main loop)\<close>

text \<open>
  Locals that \<open>sscanf\<close> does not assign keep an indeterminate value: \<open>junk\<close> supplies it.
\<close>

definition sw_command :: "(nat \<Rightarrow> int) \<Rightarrow> antares_msg \<Rightarrow> sw \<Rightarrow> stop + sw" where
  "sw_command junk ia c =
     (if cmd ia = SWEEP_PARK then fsm_Park c
      else if cmd ia = SWEEP_GOTO then
        let xs = sscanf_d 2 (data ia) in Goto (assigned xs 0 (junk 0)) (assigned xs 1 (junk 1)) c
      else if cmd ia = SWEEP_SCAN then
        (if arg ia = 1 then
           case c of (s, g) \<Rightarrow>
           let xs = sscanf_d 3 (data ia);
               s = s\<lparr>sweepjob_speed := assigned xs 2 (sweepjob_speed s),
                     sweepjob_out := assigned xs 1 (junk 1) * 40,
                     sweepjob_in := assigned xs 0 (junk 0) * 40,
                     sweepjob_outdir := True, sweepjob_enabled := True\<rparr>
           in Inr (sw_push SWEEP_SWEEPJOB_SIG (s, g))
         else case c of (s, g) \<Rightarrow> Inr (s\<lparr>sweepjob_enabled := False\<rparr>, g))
      else if cmd ia = SWEEP_ENABLE then setEnable (arg ia = 1) c
      else if cmd ia = SWEEP_DIR then setOutDir (arg ia = 1) c
      else if cmd ia = SWEEP_PULSE then Inr (PulseBurst c)
      else Inr c)"

definition sw_handle :: "(nat \<Rightarrow> int) \<Rightarrow> event \<Rightarrow> sw \<Rightarrow> stop + sw" where
  "sw_handle junk e c =
     (if evtype e = SWEEP_RESET_SIG then fsm_Tick c
      else if evtype e = SWEEP_ETH_SIG then
        (case evpayload e of PMsg ia \<Rightarrow> sw_command junk ia c | _ \<Rightarrow> Inl Fault)
      else if evtype e = SWEEP_JOBDONE_SIG then fsm_JobDone c
      else if evtype e = SWEEP_TICK_SIG then fsm_Tick c
      else if evtype e = SWEEP_SWEEPJOB_SIG then SweepJob c
      else Inr c)"

definition sw_pop :: "sw \<Rightarrow> sw" where
  "sw_pop = (\<lambda>(s, g). (s\<lparr>sw_events := tl (sw_events s)\<rparr>, g))"

definition sw_pushEvent :: "event \<Rightarrow> sweep \<Rightarrow> sweep" where
  "sw_pushEvent e s = s\<lparr>sw_events := sw_events s @ [e]\<rparr>"

section \<open>The setters and the sensors as equations\<close>

text \<open>The slots the drivers use exist, so a store on them always succeeds.\<close>

definition set_flag :: "nat \<Rightarrow> bool \<Rightarrow> globals \<Rightarrow> globals" where
  "set_flag slot b g = g\<lparr>gstatus := projr (storeMonitorFlag slot b (gstatus g))\<rparr>"

lemma store_flag_eq [simp]: "slot < 13 \<Longrightarrow> store_flag slot b g = Inr (set_flag slot b g)"
  using storeMonitorFlag_total [of slot b "gstatus g"] by (auto simp: store_flag_def set_flag_def)

lemma set_flag_frame [simp]:
  "hw (set_flag slot b g) = hw g" "bspcounter (set_flag slot b g) = bspcounter g"
  by (simp_all add: set_flag_def)

lemma set_flag_inv: "slot < 13 \<Longrightarrow> status_inv (gstatus g) \<Longrightarrow> status_inv (gstatus (set_flag slot b g))"
  using storeMonitorFlag_total [of slot b "gstatus g"] storeMonitorFlag_inv
  by (fastforce simp: set_flag_def)

definition set_pin :: "pin \<Rightarrow> bool \<Rightarrow> globals \<Rightarrow> globals" where
  "set_pin p high g = g\<lparr>hw := (if high then pin_off p (hw g) else pin_on p (hw g))\<rparr>"

lemma set_pin_frame [simp]:
  "inputs (hw (set_pin p b g)) = inputs (hw g)" "bspcounter (set_pin p b g) = bspcounter g"
  "duty0 (hw (set_pin p b g)) = duty0 (hw g)" "duty1 (hw (set_pin p b g)) = duty1 (hw g)"
  "gstatus (set_pin p b g) = gstatus g" "pins (hw (set_pin p b g)) = (pins (hw g))(p := b)"
  by (simp_all add: set_pin_def)

lemma setEnable_eq [simp]:
  "setEnable b (s, g) = Inr (s\<lparr>sw_enable := b\<rparr>, set_flag 3 b (set_pin STEP_ENABLE b g))"
  by (simp add: setEnable_def set_pin_def)

lemma setOutDir_eq [simp]:
  "setOutDir b (s, g) = Inr (s\<lparr>outdir := b\<rparr>, set_flag 4 b (set_pin STEP_DIR b g))"
  by (simp add: setOutDir_def set_pin_def)

lemma setPulse_eq [simp]: "setPulse b (s, g) = (s\<lparr>pulse := b\<rparr>, set_pin STEP_PULSE (\<not> b) g)"
  by (simp add: setPulse_def set_pin_def)

definition taps_clear :: "globals \<Rightarrow> bool" where
  "taps_clear g = (inputs (hw g) STEP_INTAP = 0 \<and> inputs (hw g) STEP_OUTTAP = 0)"

definition sense :: "globals \<Rightarrow> sweep \<Rightarrow> sweep" where
  "sense g s = s\<lparr>intap := inputs (hw g) STEP_INTAP, outtap := inputs (hw g) STEP_OUTTAP,
     parkedptr := (if \<not> parked s \<and> taps_clear g then Some (sweepmapptr s) else parkedptr s),
     parked := taps_clear g\<rparr>"

definition sensor_flag :: "sweep \<Rightarrow> globals \<Rightarrow> bool" where
  "sensor_flag s g = (inputs (hw g) STEP_INTAP = 1 \<or> inputs (hw g) STEP_OUTTAP = 1 \<or> sw_enable s)"

lemma readSensors_eq [simp]: "readSensors (s, g) = Inr (sense g s, set_flag 1 (sensor_flag s g) g)"
  by (simp add: readSensors_def sense_def sensor_flag_def taps_clear_def Let_def setFlag32_def setFlagB_def)

lemma sense_frame [simp]:
  "sweepmap (sense g s) = sweepmap s" "sweepmapptr (sense g s) = sweepmapptr s"
  "sweeppos (sense g s) = sweeppos s" "pulsegap (sense g s) = pulsegap s"
  "sw_enable (sense g s) = sw_enable s" "outdir (sense g s) = outdir s" "pulse (sense g s) = pulse s"
  "sw_events (sense g s) = sw_events s" "sw_state (sense g s) = sw_state s"
  "parked (sense g s) = taps_clear g" "intap (sense g s) = inputs (hw g) STEP_INTAP"
  "outtap (sense g s) = inputs (hw g) STEP_OUTTAP"
  "sweepjob_enabled (sense g s) = sweepjob_enabled s" "sweepjob_outdir (sense g s) = sweepjob_outdir s"
  "sweepjob_in (sense g s) = sweepjob_in s" "sweepjob_out (sense g s) = sweepjob_out s"
  "sweepjob_speed (sense g s) = sweepjob_speed s"
  by (simp_all add: sense_def)

lemma taps_clear_cong [simp]: "taps_clear (set_flag n b g) = taps_clear g" "taps_clear (set_pin p b g) = taps_clear g"
  by (simp_all add: taps_clear_def)

section \<open>The loop over the queue ends\<close>

text \<open>
  Handling an event may push another one, so the loop over the queue ends only because
  what is pushed never pushes again. \<open>ev_weight\<close> counts that: a command or a
  \<open>JOBDONE\<close> signal may push one event of weight 1.
\<close>

definition ev_weight :: "event \<Rightarrow> nat" where
  "ev_weight e = (if evtype e = SWEEP_ETH_SIG \<or> evtype e = SWEEP_JOBDONE_SIG then 2 else 1)"

definition queue_weight :: "event list \<Rightarrow> nat" where
  "queue_weight es = sum_list (map ev_weight es)"

lemma queue_weight_simps [simp]:
  "queue_weight [] = 0" "queue_weight (e # es) = ev_weight e + queue_weight es"
  "queue_weight (es @ fs) = queue_weight es + queue_weight fs"
  by (simp_all add: queue_weight_def)

text \<open>\<open>adds c r k\<close>: the call with result \<open>r\<close> appended events of total weight at most \<open>k\<close>.\<close>

definition adds :: "sw \<Rightarrow> stop + sw \<Rightarrow> nat \<Rightarrow> bool" where
  "adds c r k = (\<forall>c'. r = Inr c' \<longrightarrow> (\<exists>es. sw_events (fst c') = sw_events (fst c) @ es \<and> queue_weight es \<le> k))"

lemma adds_Inl [simp]: "adds c (Inl e) k"
  by (simp add: adds_def)

lemma adds_Inr_same: "sw_events (fst c') = sw_events (fst c) \<Longrightarrow> adds c (Inr c') k"
  by (simp add: adds_def)

lemma adds_mono: "adds c r j \<Longrightarrow> j \<le> k \<Longrightarrow> adds c r k"
  by (fastforce simp: adds_def)

lemma adds_from: "sw_events (fst d) = sw_events (fst c) \<Longrightarrow> adds c r k = adds d r k"
  by (simp add: adds_def)

lemma Slide_adds: "adds c (Slide step v c) 0"
  by (cases c) (auto simp: Slide_def adds_def and_then_Inr_iff)

lemma Goto_adds: "adds c (Goto p v c) 0"
  by (cases c) (auto simp: Goto_def Let_def intro: adds_Inr_same Slide_adds)

lemma SweepJob_adds: "adds c (SweepJob c) 0"
  using Goto_adds by (cases c) (fastforce simp: SweepJob_def adds_def and_then_Inr_iff)

lemma Slide_adds_from: "sw_events (fst d) = sw_events (fst c) \<Longrightarrow> adds c (Slide step v d) k"
  using Slide_adds [of d step v] by (auto simp: adds_from [of d c] intro: adds_mono)

lemma goto_state_adds:
  assumes "sw_events (fst d) = sw_events (fst c)"
  shows "adds c (goto_state q d) (if q = setParked \<or> q = ColdStart then Suc 0 else 0)"
proof (cases "q = searchOut \<or> q = searchIn")
  case True
  with assms show ?thesis
    by (cases d) (auto simp: goto_state_def setState_def intro!: Slide_adds_from)
next
  case False
  with assms show ?thesis
    by (cases d; cases q)
       (auto simp: goto_state_def setState_def adds_def TickCallback_def sw_push_def Park_def clearMap_def
          ev_weight_def)
qed

lemma isParked_eq [simp]:
  "isParked (s, g) = Inr (taps_clear g, sense g s, set_flag 1 (sensor_flag s g) g)"
  by (simp add: isParked_def)

lemma isInside_eq [simp]:
  "isInside (s, g) = Inr (inputs (hw g) STEP_INTAP \<noteq> 0, sense g s, set_flag 1 (sensor_flag s g) g)"
  by (simp add: isInside_def)

lemma isOutside_eq [simp]:
  "isOutside (s, g) = Inr (inputs (hw g) STEP_OUTTAP \<noteq> 0, sense g s, set_flag 1 (sensor_flag s g) g)"
  by (simp add: isOutside_def)

lemma nil_transition_adds:
  "sw_events (fst d) = sw_events (fst c) \<Longrightarrow> adds c (Inr (nil_transition q d)) k"
  by (cases d) (auto simp: nil_transition_def setState_def intro: adds_Inr_same)

lemma goto_state_adds_1:
  "sw_events (fst d) = sw_events (fst c) \<Longrightarrow> adds c (goto_state q d) (Suc 0)"
  by (rule adds_mono [OF goto_state_adds]) auto

lemma fsm_Tick_adds: "adds c (fsm_Tick c) 0"
  using goto_state_adds [of c c Idle]
  by (auto simp: fsm_Tick_def nil_transition_adds split: option.splits SweepState.splits)

lemma fsm_Park_adds: "adds c (fsm_Park c) (Suc 0)"
  by (cases c) (auto simp: fsm_Park_def intro: goto_state_adds_1 split: option.splits SweepState.splits)

lemma fsm_JobDone_adds: "adds c (fsm_JobDone c) (Suc 0)"
  by (cases c) (auto simp: fsm_JobDone_def intro: goto_state_adds_1 nil_transition_adds
       split: option.splits SweepState.splits)

lemma sw_push_adds: "sw_events (fst d) = sw_events (fst c) \<Longrightarrow> t \<noteq> SWEEP_ETH_SIG \<Longrightarrow>
    t \<noteq> SWEEP_JOBDONE_SIG \<Longrightarrow> adds c (Inr (sw_push t d)) (Suc 0)"
  by (cases d) (simp add: sw_push_def adds_def ev_weight_def)

lemma sw_command_adds: "adds c (sw_command junk ia c) (Suc 0)"
  by (cases c) (auto simp: sw_command_def Let_def PulseBurst_def
       intro: adds_mono [OF Goto_adds] fsm_Park_adds sw_push_adds adds_Inr_same)

lemma sw_handle_adds: "adds c (sw_handle junk e c) (ev_weight e - 1)"
  using fsm_Tick_adds sw_command_adds fsm_JobDone_adds SweepJob_adds
  by (auto simp: sw_handle_def ev_weight_def adds_Inr_same split: payload.splits)

lemma sw_weight_less:
  assumes "sw_events (fst c) = e # es" and "sw_handle junk e c = Inr c'"
  shows "queue_weight (sw_events (fst (sw_pop c'))) < queue_weight (sw_events (fst c))"
proof -
  obtain fs where "sw_events (fst c') = sw_events (fst c) @ fs" "queue_weight fs \<le> ev_weight e - 1"
    using sw_handle_adds [of c junk e] assms(2) by (auto simp: adds_def)
  moreover have "0 < ev_weight e" by (simp add: ev_weight_def)
  ultimately show ?thesis using assms(1) by (cases c') (auto simp: sw_pop_def)
qed

function sw_serviceEvents :: "(nat \<Rightarrow> int) \<Rightarrow> sw \<Rightarrow> stop + sw" where
  "sw_serviceEvents junk c =
     (case sw_events (fst c) of
        [] \<Rightarrow> Inr c
      | e # _ \<Rightarrow> (case sw_handle junk e c of
                    Inl x \<Rightarrow> Inl x
                  | Inr c' \<Rightarrow> sw_serviceEvents junk (sw_pop c')))"
  by pat_completeness auto
termination
  using sw_weight_less
  by (relation "measure (\<lambda>(junk, c). queue_weight (sw_events (fst c)))") (fastforce, fastforce)

declare sw_serviceEvents.simps [simp del]

text \<open>The driver keeps the contract of the event services.\<close>

interpretation swq: event_service "\<lambda>c. sw_events (fst c)" "sw_handle junk" sw_pop "sw_serviceEvents junk"
    "\<lambda>c. queue_weight (sw_events (fst c))" for junk
proof (unfold_locales, goal_cases)
  case (1 c)
  then show ?case by (simp add: sw_serviceEvents.simps [of junk c])
next
  case (2 c e es)
  then show ?case by (simp add: sw_serviceEvents.simps [of junk c] and_then_def)
next
  case (3 c e es c')
  then show ?case by (rule sw_weight_less)
qed

end
