(* ===== verification/Servo.thy ===== *)
theory Servo
  imports Sweep
begin

text \<open>
  The servo (plate motor) driver: \<open>Servo/Servo.cpp\<close> and \<open>Servo/servo_sm.cpp\<close>. A
  \<open>double\<close> is modelled by a rational number, so rounding is not. Two stores of the code
  reach beyond their object; the model gives them the effect they have with the layout of
  the class on the target (members in order, natural alignment, little endian): the sixth
  cell of \<open>tachbuffer\<close> is \<open>tachbufferptr\<close>, and a \<open>%d\<close> conversion into the byte
  \<open>request_pwm0\<close> also writes its padding byte and the low half of \<open>last_tach\<close>.
\<close>

section \<open>State\<close>

record SPid =
  dState :: rat
  iState :: rat
  iMax :: rat
  iMin :: rat
  iGain :: rat
  pGain :: rat
  dGain :: rat

record Svtf =
  a0 :: rat
  a1 :: rat
  a2 :: rat

datatype ServoState = SvColdStart | SvIdle

record servo =
  sv_state :: "ServoState option"
  sv_events :: "event list"
  svctl :: SPid
  servotransfer :: Svtf
  enable_servo :: bool
  present_pwm0 :: u8
  request_pwm0 :: u8
  last_tach :: u32
  this_tach :: u32
  tachbuffer :: "u32 list"
  tachbufferptr :: u8
  updatetach_flag :: u32
  tachval :: u32
  speed :: rat
  tach_theta :: u8
  servo_setpoint :: rat
  updatestatus :: bool

type_synonym sv = "servo \<times> globals"

section \<open>Control law\<close>

definition updateServo :: "SPid \<Rightarrow> rat \<Rightarrow> rat \<Rightarrow> rat \<times> SPid" where
  "updateServo pid error process =
     (let pTerm = pGain pid * error;
          i = iState pid + error;
          i = (if i > iMax pid then iMax pid else if i < iMin pid then iMin pid else i);
          iTerm = iGain pid * i;
          dTerm = dGain pid * (process - dState pid)
      in (pTerm + iTerm - dTerm, pid\<lparr>iState := i, dState := process\<rparr>))"

definition calculatePWM :: "Svtf \<Rightarrow> rat \<Rightarrow> rat" where
  "calculatePWM tf gamma =
     (let temp = gamma * gamma;
          temp = temp * a2 tf;
          temp = temp + gamma * a1 tf;
          temp = temp + a0 tf;
          temp = (if temp < 0 then 0 else temp)
      in if temp > 100 then 100 else temp)"

definition setServoPID :: "servo \<Rightarrow> servo" where
  "setServoPID s = s\<lparr>svctl := (svctl s)\<lparr>pGain := - 1/5, iGain := - 1/2, dGain := 1/10,
       iMax := 300, iMin := - 300\<rparr>, servo_setpoint := 0\<rparr>"

definition setServoTransfer :: "servo \<Rightarrow> servo" where
  "setServoTransfer s = s\<lparr>servotransfer :=
     \<lparr>a0 = 190818770428 / 10^10, a1 = 13861602127 / 10^10, a2 = - 59742764 / 10^10\<rparr>\<rparr>"

section \<open>Tachometer\<close>

text \<open>
  \<open>tachbuffer[i] = v\<close> for the index that \<open>serviceTach\<close> computes, which is at most 5:
  cell 5 lies over \<open>tachbufferptr\<close>.
\<close>

definition tach_store :: "nat \<Rightarrow> u32 \<Rightarrow> servo \<Rightarrow> servo" where
  "tach_store i v s =
     (if i < 5 then s\<lparr>tachbuffer := (tachbuffer s)[i := v]\<rparr>
      else s\<lparr>tachbufferptr := ucast v\<rparr>)"

definition tach_index :: "u8 \<Rightarrow> u8" where
  "tach_index p = (if p > 4 then 0 else p + 1)"

definition serviceTach :: "u32 \<Rightarrow> servo \<Rightarrow> servo" where
  "serviceTach tick s =
     (let t = tick - last_tach s;
          t = (if t > 2000 then 0 else t);
          p = tach_index (tachbufferptr s);
          s = s\<lparr>this_tach := t, last_tach := tick, tachbufferptr := p\<rparr>;
          s = tach_store (unat p) t s;
          th = (if tach_theta s > 160 then 0 else tach_theta s)
      in s\<lparr>tach_theta := th + 1\<rparr>)"

definition clearTachBuffer :: "u32 \<Rightarrow> servo \<Rightarrow> servo" where
  "clearTachBuffer now s =
     s\<lparr>last_tach := now, this_tach := 0, tachbufferptr := 0, updatetach_flag := 0,
       tach_theta := 0, speed := 0, tachval := 0, tachbuffer := replicate 5 0\<rparr>"

section \<open>Output pins and commands\<close>

definition EnableServo :: "bool \<Rightarrow> sv \<Rightarrow> stop + sv" where
  "EnableServo en = (\<lambda>(s, g).
     let g = (if en then g\<lparr>hw := pin_off SERVO_STATE (hw g)\<rparr>
              else g\<lparr>hw := pin_on SERVO_STATE (pin_on SERVO_CLK (hw g))\<rparr>)
     in and_then (store_flag 5 en g) (\<lambda>g. Inr (s, g)))"

text \<open>The four bytes that \<open>sscanf(mes, "%d", &request_pwm0)\<close> writes.\<close>

definition write_request :: "int \<Rightarrow> servo \<Rightarrow> servo" where
  "write_request n s =
     (let w = (of_int n :: u32) in
      s\<lparr>request_pwm0 := ucast w,
        last_tach := (last_tach s AND 0xFFFF0000) OR drop_bit 16 w\<rparr>)"

definition scan_request :: "u8 list \<Rightarrow> servo \<Rightarrow> servo" where
  "scan_request mes s = (case sscanf_d 1 mes of [] \<Rightarrow> s | n # _ \<Rightarrow> write_request n s)"

definition resetPWM :: "sv \<Rightarrow> sv" where
  "resetPWM = (\<lambda>(s, g). (s\<lparr>present_pwm0 := 0, request_pwm0 := 0\<rparr>, g\<lparr>hw := setPWM 0 0 (hw g)\<rparr>))"

definition sv_command :: "int \<Rightarrow> antares_msg \<Rightarrow> sv \<Rightarrow> stop + sv" where
  "sv_command junk ia = (\<lambda>(s, g).
     if cmd ia = SERVO_ENABLE then
       (if arg ia = 1 then
          let s = clearTachBuffer (bspcounter g) (s\<lparr>enable_servo := True\<rparr>);
              s = s\<lparr>svctl := (svctl s)\<lparr>dState := 0, iState := 0\<rparr>\<rparr>;
              s = scan_request (data ia) s
          in EnableServo True (s, g)
        else EnableServo False (s\<lparr>enable_servo := False, request_pwm0 := 0, servo_setpoint := 0\<rparr>, g))
     else if cmd ia = SERVO_SETPWM then
       (let s = s\<lparr>servo_setpoint := 0\<rparr> in
        if arg ia = 1 then Inr (scan_request (data ia) s, g)
        else Inr (s\<lparr>request_pwm0 := 0\<rparr>, g))
     else if cmd ia = SERVO_SETSPEED then
       (if arg ia = 1 then
          Inr (s\<lparr>servo_setpoint := of_int (assigned (sscanf_d 1 (data ia)) 0 junk)\<rparr>, g)
        else
          let s = s\<lparr>servo_setpoint := 0, speed := 0\<rparr> in
          and_then (store_slot 0 0 g) (\<lambda>g. and_then (store_slot 1 0 g) (\<lambda>g. Inr (s, g))))
     else Inr (s, g))"

section \<open>The state machine\<close>

definition sv_push :: "SIGTYPES \<Rightarrow> sv \<Rightarrow> sv" where
  "sv_push t = (\<lambda>(s, g). (s\<lparr>sv_events := sv_events s @ [mk_event t 1 PNull]\<rparr>, g))"

fun sv_Entry :: "ServoState \<Rightarrow> sv \<Rightarrow> sv" where
  "sv_Entry SvColdStart c = sv_push SERVO_TICK_SIG c"
| "sv_Entry SvIdle c = c"

definition sv_setState :: "ServoState option \<Rightarrow> sv \<Rightarrow> sv" where
  "sv_setState q = (\<lambda>(s, g). (s\<lparr>sv_state := q\<rparr>, g))"

definition sv_Tick :: "sv \<Rightarrow> stop + sv" where
  "sv_Tick c = (case sv_state (fst c) of
     None \<Rightarrow> Inl StateUndefined
   | Some SvColdStart \<Rightarrow> Inr (sv_Entry SvIdle (sv_setState (Some SvIdle) c))
   | Some SvIdle \<Rightarrow> Inr (sv_setState (Some SvIdle) (sv_setState None c)))"

definition sv_JobDone :: "sv \<Rightarrow> stop + sv" where
  "sv_JobDone c = (case sv_state (fst c) of
     None \<Rightarrow> Inl StateUndefined
   | Some q \<Rightarrow> Inr (sv_setState (Some q) (sv_setState None c)))"

text \<open>The constructor; members it does not write keep the contents of the fresh object.\<close>

definition Servo_new :: "sv \<Rightarrow> sv" where
  "Servo_new = (\<lambda>(s, g).
     let s = s\<lparr>sv_state := Some SvColdStart, sv_events := [], updatestatus := False,
               present_pwm0 := 1, request_pwm0 := 1\<rparr>;
         s = setServoTransfer (setServoPID (clearTachBuffer (bspcounter g) s))
     in (s, g\<lparr>hw := pin_on SERVO_CLK (pin_off SERVO_STATE (hw g))\<rparr>))"

definition sv_start :: "sv \<Rightarrow> stop + sv" where
  "sv_start c = (case sv_state (fst c) of None \<Rightarrow> Inl StateUndefined | Some q \<Rightarrow> Inr (sv_Entry q c))"

definition sv_handle :: "int \<Rightarrow> event \<Rightarrow> sv \<Rightarrow> stop + sv" where
  "sv_handle junk e c =
     (if evtype e = SERVO_RESET_SIG then sv_Tick c
      else if evtype e = SERVO_ETH_SIG then
        (case evpayload e of PMsg ia \<Rightarrow> sv_command junk ia c | _ \<Rightarrow> Inl Fault)
      else if evtype e = SERVO_TICK_SIG then sv_Tick c
      else Inr c)"

definition sv_pop :: "sv \<Rightarrow> sv" where
  "sv_pop = (\<lambda>(s, g). (s\<lparr>sv_events := tl (sv_events s)\<rparr>, g))"

definition sv_pushEvent :: "event \<Rightarrow> servo \<Rightarrow> servo" where
  "sv_pushEvent e s = s\<lparr>sv_events := sv_events s @ [e]\<rparr>"

section \<open>The tick service (called from the PIT interrupt)\<close>

definition update_pwm :: "sv \<Rightarrow> sv" where
  "update_pwm = (\<lambda>(s, g).
     if request_pwm0 s \<noteq> present_pwm0 s
     then (s\<lparr>present_pwm0 := request_pwm0 s\<rparr>, g\<lparr>hw := setPWM 0 (request_pwm0 s) (hw g)\<rparr>)
     else (s, g))"

definition control_step :: "sv \<Rightarrow> stop + sv" where
  "control_step = (\<lambda>(s, g).
     let s = s\<lparr>speed := (if tachval s = 0 then 0
                         else (1 / of_nat (unat (tachval s))) / 32 * 300000)\<rparr>;
         (gamma, s) =
           (if servo_setpoint s = 0 then (0, s)
            else let (gamma, pid) = updateServo (svctl s) (speed s - servo_setpoint s) (speed s);
                     r = calculatePWM (servotransfer s) gamma;
                     r = (if r > 80 then 80 else r)
                 in (gamma, s\<lparr>svctl := pid, request_pwm0 := of_int \<lfloor>r\<rfloor>\<rparr>))
     in and_then (store_slot 0 (speed s) g) (\<lambda>g.
        and_then (store_slot 1 gamma g) (\<lambda>g.
        Inr (s\<lparr>updatestatus := True\<rparr>, g))))"

definition sv_serviceBoard :: "sv \<Rightarrow> stop + sv" where
  "sv_serviceBoard c =
     (case update_pwm c of (s, g) \<Rightarrow>
      if updatetach_flag s > 2000 then
        let s = s\<lparr>tachval := sum_list (tachbuffer s), tachbuffer := replicate 5 0, updatetach_flag := 0\<rparr>
        in if tachval s \<noteq> 0 \<or> servo_setpoint s \<noteq> 0 then control_step (s, g) else Inr (s, g)
      else Inr (s\<lparr>updatetach_flag := updatetach_flag s + 1\<rparr>, g))"

section \<open>The event service (called from the main loop)\<close>

text \<open>No handler pushes an event, so the queue gets shorter with every turn of the loop.\<close>

lemma set_slot_total: "slot < 10 \<Longrightarrow> \<exists>g'. store_slot slot v g = Inr g' \<and> hw g' = hw g \<and> bspcounter g' = bspcounter g"
  using storeMonitorSlot_total [of slot v "gstatus g"] by (auto simp: store_slot_def)

definition set_slot :: "nat \<Rightarrow> rat \<Rightarrow> globals \<Rightarrow> globals" where
  "set_slot slot v g = g\<lparr>gstatus := projr (storeMonitorSlot slot v (gstatus g))\<rparr>"

lemma store_slot_eq [simp]: "slot < 10 \<Longrightarrow> store_slot slot v g = Inr (set_slot slot v g)"
  using storeMonitorSlot_total [of slot v "gstatus g"] by (auto simp: store_slot_def set_slot_def)

lemma set_slot_frame [simp]:
  "hw (set_slot slot v g) = hw g" "bspcounter (set_slot slot v g) = bspcounter g"
  by (simp_all add: set_slot_def)

lemma set_slot_inv: "slot < 10 \<Longrightarrow> status_inv (gstatus g) \<Longrightarrow> status_inv (gstatus (set_slot slot v g))"
  using storeMonitorSlot_total [of slot v "gstatus g"] storeMonitorSlot_inv
  by (fastforce simp: set_slot_def)

lemma EnableServo_eq [simp]:
  "EnableServo True (s, g) = Inr (s, set_flag 5 True (set_pin SERVO_STATE True g))"
  "EnableServo False (s, g) = Inr (s, set_flag 5 False (set_pin SERVO_STATE False (set_pin SERVO_CLK False g)))"
  by (simp_all add: EnableServo_def set_pin_def)

lemma sv_handle_events:
  assumes "sv_handle junk e c = Inr c'"
  shows "sv_events (fst c') = sv_events (fst c)"
  using assms
  by (cases c)
     (auto simp: sv_handle_def sv_Tick_def sv_command_def sv_setState_def clearTachBuffer_def
       scan_request_def write_request_def Let_def
       split: if_splits payload.splits option.splits ServoState.splits list.splits)

function sv_serviceEvents :: "int \<Rightarrow> sv \<Rightarrow> stop + sv" where
  "sv_serviceEvents junk c =
     (case sv_events (fst c) of
        [] \<Rightarrow> Inr c
      | e # _ \<Rightarrow> (case sv_handle junk e c of
                    Inl x \<Rightarrow> Inl x
                  | Inr c' \<Rightarrow> sv_serviceEvents junk (sv_pop c')))"
  by pat_completeness auto
termination
  by (relation "measure (\<lambda>(junk, c). length (sv_events (fst c)))")
     (auto simp: sv_pop_def dest!: sv_handle_events)

declare sv_serviceEvents.simps [simp del]

interpretation svq: event_service "\<lambda>c. sv_events (fst c)" "sv_handle junk" sv_pop "sv_serviceEvents junk"
    "\<lambda>c. length (sv_events (fst c))" for junk
proof (unfold_locales, goal_cases)
  case (1 c)
  then show ?case by (simp add: sv_serviceEvents.simps [of junk c])
next
  case (2 c e es)
  then show ?case by (simp add: sv_serviceEvents.simps [of junk c] and_then_def)
next
  case (3 c e es c')
  then show ?case by (cases c') (auto simp: sv_pop_def dest: sv_handle_events)
qed

end
