(* ===== verification/Monitor.thy ===== *)
theory Monitor
  imports Servo
begin

text \<open>
  The monitor driver, \<open>Monitor/Monitor.cpp\<close>: vacuum, drum and the WG20 motor. The
  conversion of \<open>%d\<close> into the byte \<open>wg20pwm\<close>, the last member of the object, writes
  three bytes behind the object as well; the model keeps the byte that lands in it.
\<close>

record monitor =
  mo_events :: "event list"
  wg20_cw :: bool
  drum :: bool
  vaccum :: bool
  wg20pwm :: u8

type_synonym mo = "monitor \<times> globals"

definition setDrum :: "bool \<Rightarrow> mo \<Rightarrow> stop + mo" where
  "setDrum b = (\<lambda>(m, g).
     let g = g\<lparr>hw := pin_toggle DRUM_ENABLE (hw g)\<rparr>
     in and_then (store_flag 10 b g) (\<lambda>g. Inr (m\<lparr>drum := b\<rparr>, g)))"

definition setVaccum :: "bool \<Rightarrow> mo \<Rightarrow> stop + mo" where
  "setVaccum b = (\<lambda>(m, g).
     let g = g\<lparr>hw := (if b then pin_on VAC_ENABLE (hw g) else pin_off VAC_ENABLE (hw g))\<rparr>
     in and_then (store_flag 11 b g) (\<lambda>g. Inr (m\<lparr>vaccum := b\<rparr>, g)))"

definition setWg20Cw :: "bool \<Rightarrow> mo \<Rightarrow> stop + mo" where
  "setWg20Cw b = (\<lambda>(m, g).
     let g = g\<lparr>hw := (if b then pin_on WG2DIR (hw g) else pin_off WG2DIR (hw g))\<rparr>
     in and_then (store_flag 8 b g) (\<lambda>g. Inr (m\<lparr>wg20_cw := b\<rparr>, g)))"

definition setWG20Vel :: "mo \<Rightarrow> stop + mo" where
  "setWG20Vel = (\<lambda>(m, g).
     let g = g\<lparr>hw := setPWM 1 (wg20pwm m) (hw g)\<rparr>
     in and_then (store_slot 6 (of_nat (unat (wg20pwm m))) g) (\<lambda>g. Inr (m, g)))"

definition mo_start :: "mo \<Rightarrow> stop + mo" where
  "mo_start c =
     and_then (setDrum False c) (\<lambda>c.
     and_then (setVaccum True c) (\<lambda>c.
     and_then (setWg20Cw True c) (\<lambda>(m, g).
     setWG20Vel (m\<lparr>wg20pwm := 0\<rparr>, g))))"

definition mo_command :: "antares_msg \<Rightarrow> mo \<Rightarrow> stop + mo" where
  "mo_command ia c =
     (if cmd ia = MON_SETVAC then setVaccum (arg ia = 1) c
      else if cmd ia = MON_SETDRUM then setDrum (arg ia = 1) c
      else if cmd ia = WG20_SETDIR then setWg20Cw (arg ia = 1) c
      else if cmd ia = WG20_SETVEL then
        and_then (setWg20Cw (arg ia \<noteq> 0) c) (\<lambda>(m, g).
        setWG20Vel (case sscanf_d 1 (data ia) of [] \<Rightarrow> m | n # _ \<Rightarrow> m\<lparr>wg20pwm := of_int n\<rparr>, g))
      else if cmd ia = MON_RESET then
        and_then (setDrum False c) (\<lambda>c.
        and_then (setVaccum True c) (\<lambda>c.
        and_then (setWg20Cw True c) (\<lambda>(m, g). Inr (m, g\<lparr>hw := setPWM 1 0 (hw g)\<rparr>))))
      else Inr c)"

definition mo_handle :: "event \<Rightarrow> mo \<Rightarrow> stop + mo" where
  "mo_handle e c =
     (if evtype e = MONITOR_ETH_SIG then
        (case evpayload e of PMsg ia \<Rightarrow> mo_command ia c | _ \<Rightarrow> Inl Fault)
      else Inr c)"

definition mo_pop :: "mo \<Rightarrow> mo" where
  "mo_pop = (\<lambda>(m, g). (m\<lparr>mo_events := tl (mo_events m)\<rparr>, g))"

definition mo_pushEvent :: "event \<Rightarrow> monitor \<Rightarrow> monitor" where
  "mo_pushEvent e m = m\<lparr>mo_events := mo_events m @ [e]\<rparr>"

section \<open>The setters as equations\<close>

lemma setDrum_eq [simp]:
  "setDrum b (m, g) = Inr (m\<lparr>drum := b\<rparr>, set_flag 10 b (g\<lparr>hw := pin_toggle DRUM_ENABLE (hw g)\<rparr>))"
  by (simp add: setDrum_def)

lemma setVaccum_eq [simp]:
  "setVaccum b (m, g) = Inr (m\<lparr>vaccum := b\<rparr>, set_flag 11 b (set_pin VAC_ENABLE (\<not> b) g))"
  by (simp add: setVaccum_def set_pin_def)

lemma setWg20Cw_eq [simp]:
  "setWg20Cw b (m, g) = Inr (m\<lparr>wg20_cw := b\<rparr>, set_flag 8 b (set_pin WG2DIR (\<not> b) g))"
  by (simp add: setWg20Cw_def set_pin_def)

lemma setWG20Vel_eq [simp]:
  "setWG20Vel (m, g) =
   Inr (m, set_slot 6 (of_nat (unat (wg20pwm m))) (g\<lparr>hw := setPWM 1 (wg20pwm m) (hw g)\<rparr>))"
  by (simp add: setWG20Vel_def)

lemma mo_handle_events: "mo_handle e c = Inr c' \<Longrightarrow> mo_events (fst c') = mo_events (fst c)"
  by (cases c) (auto simp: mo_handle_def mo_command_def split: if_splits payload.splits list.splits)

function mo_serviceEvents :: "mo \<Rightarrow> stop + mo" where
  "mo_serviceEvents c =
     (case mo_events (fst c) of
        [] \<Rightarrow> Inr c
      | e # _ \<Rightarrow> (case mo_handle e c of
                    Inl x \<Rightarrow> Inl x
                  | Inr c' \<Rightarrow> mo_serviceEvents (mo_pop c')))"
  by pat_completeness auto
termination
  by (relation "measure (\<lambda>c. length (mo_events (fst c)))") (auto simp: mo_pop_def dest!: mo_handle_events)

declare mo_serviceEvents.simps [simp del]

interpretation moq: event_service "\<lambda>c. mo_events (fst c)" mo_handle mo_pop mo_serviceEvents
    "\<lambda>c. length (mo_events (fst c))"
proof (unfold_locales, goal_cases)
  case (1 c)
  then show ?case by (simp add: mo_serviceEvents.simps [of c])
next
  case (2 c e es)
  then show ?case by (simp add: mo_serviceEvents.simps [of c] and_then_def)
next
  case (3 c e es c')
  then show ?case by (cases c') (auto simp: mo_pop_def dest: mo_handle_events)
qed

section \<open>The drum output is a toggle\<close>

text \<open>\<open>setDrum\<close> toggles its output whatever its argument is. Two equal drum
  commands in a row put the output back where it was, while the driver and the status flag
  report the state of the argument.\<close>

theorem drum_commands_toggle:
  assumes "cmd ia = MON_SETDRUM" and "mo_command ia (m, g) = Inr c1" and "mo_command ia c1 = Inr (m2, g2)"
  shows "pins (hw (snd c1)) DRUM_ENABLE = (\<not> pins (hw g) DRUM_ENABLE) \<and>
         pins (hw g2) DRUM_ENABLE = pins (hw g) DRUM_ENABLE \<and>
         drum (fst c1) = (arg ia = 1) \<and> drum m2 = (arg ia = 1)"
  using assms by (auto simp: mo_command_def)

end
