(* ===== verification/SweepMove.thy ===== *)
theory SweepMove
  imports Sweep
begin

text \<open>
  What the sweep driver does with a \<open>GOTO\<close>: the cells that \<open>Slide\<close> writes, the ticks
  that the interrupt handler spends on them, and where the arm ends. A step of speed \<open>v\<close>
  takes \<open>2 * (v + 1)\<close> ticks: the cell is counted down once with the pulse line raised and
  once with it dropped.
\<close>

section \<open>Runs of the tick service\<close>

fun sw_ticks :: "nat \<Rightarrow> sw \<Rightarrow> stop + sw" where
  "sw_ticks 0 c = Inr c"
| "sw_ticks (Suc n) c = and_then (sw_serviceBoard c) (sw_ticks n)"

lemma sw_ticks_add: "sw_ticks (m + n) c = and_then (sw_ticks m c) (sw_ticks n)"
proof (induction m arbitrary: c)
  case 0
  then show ?case by simp
next
  case (Suc m)
  then show ?case by (cases "sw_serviceBoard c") auto
qed

lemma sw_ticks_append:
  "sw_ticks m c = Inr c' \<Longrightarrow> sw_ticks n c' = r \<Longrightarrow> sw_ticks (m + n) c = r"
  by (simp add: sw_ticks_add)

lemma sw_ticks_1: "sw_ticks 1 c = sw_serviceBoard c"
  by (cases "sw_serviceBoard c") auto

section \<open>One step pulse\<close>

definition on_map :: "sweep \<Rightarrow> bool" where
  "on_map s = (length (sweepmap s) = 4000 \<and> 0 \<le> sweepmapptr s \<and> sweepmapptr s < 4000)"

definition cell :: "sweep \<Rightarrow> u8" where
  "cell s = sweepmap s ! nat (sweepmapptr s)"

definition set_cell :: "u8 \<Rightarrow> sweep \<Rightarrow> sweep" where
  "set_cell v s = s\<lparr>sweepmap := (sweepmap s)[nat (sweepmapptr s) := v]\<rparr>"

lemma cell_set_cell [simp]: "on_map s \<Longrightarrow> cell (set_cell v s) = v"
  by (simp add: cell_def set_cell_def on_map_def nat_less_iff)

lemma on_map_set_cell [simp]: "on_map (set_cell v s) = on_map s"
  by (simp add: set_cell_def on_map_def)

lemma set_cell_twice [simp]: "set_cell v (set_cell w s) = set_cell v s"
  by (simp add: set_cell_def)

lemma set_cell_frame [simp]:
  "sw_enable (set_cell v s) = sw_enable s" "pulsegap (set_cell v s) = pulsegap s"
  "pulse (set_cell v s) = pulse s" "outdir (set_cell v s) = outdir s"
  "sweepmapptr (set_cell v s) = sweepmapptr s" "sweeppos (set_cell v s) = sweeppos s"
  "sweepmap (set_cell v s) = (sweepmap s)[nat (sweepmapptr s) := v]"
  by (simp_all add: set_cell_def)

lemma arr_get_cell: "on_map s \<Longrightarrow> arr_get (sweepmap s) (sweepmapptr s) = Some (cell s)"
  by (simp add: on_map_def cell_def)

lemma set_cell_cell: "on_map s \<Longrightarrow> set_cell (cell s) s = s"
  by (simp add: set_cell_def cell_def)

text \<open>Counting the cell down, inside a half pulse.\<close>

lemma tick_count:
  assumes "on_map s" "sw_enable s" "pulsegap s \<noteq> 0" "cell s \<noteq> 0" "cell s \<noteq> 255"
  shows "sw_serviceBoard (s, g) = Inr (set_cell (cell s - 1) s, g)"
  using assms by (simp add: sw_serviceBoard_def arr_get_cell set_cell_def Let_def)

lemma countdown:
  assumes "on_map s" "sw_enable s" "pulsegap s \<noteq> 0" "cell s = of_nat k" "k < 255"
  shows "sw_ticks k (s, g) = Inr (set_cell 0 s, g)"
  using assms
proof (induction k arbitrary: s)
  case 0
  then show ?case using set_cell_cell [of s] by simp
next
  case (Suc k)
  have ne: "(of_nat (Suc k) :: u8) \<noteq> 0" "(of_nat (Suc k) :: u8) \<noteq> 255"
    using Suc.prems(5) by (simp_all add: word_unat_eq_iff unat_of_nat del: of_nat_Suc)
  have "sw_serviceBoard (s, g) = Inr (set_cell (of_nat k) s, g)"
    using Suc.prems ne by (simp add: tick_count)
  moreover have "sw_ticks k (set_cell (of_nat k) s, g) = Inr (set_cell 0 (set_cell (of_nat k) s), g)"
    using Suc.prems by (intro Suc.IH) auto
  ultimately show ?case by simp
qed

definition ready :: "sweep \<Rightarrow> bool" where
  "ready s = (sw_enable s \<and> pulse s \<and> pulsegap s = 0)"

text \<open>The first tick of a step takes the gap from the cell.\<close>

lemma tick_first:
  assumes "on_map s" "ready s" "cell s = v" "v \<noteq> 0" "v \<noteq> 255"
  shows "\<exists>g'. sw_serviceBoard (s, g) = Inr (set_cell (v - 1) (s\<lparr>pulsegap := v\<rparr>), g')"
  using assms by (simp add: sw_serviceBoard_def arr_get_cell set_cell_def ready_def)

lemma tick_drop:
  assumes "on_map s" "sw_enable s" "pulsegap s \<noteq> 0" "cell s = 0" "pulse s"
  shows "\<exists>g' h. sw_serviceBoard (s, g) = Inr (sense h ((set_cell (pulsegap s) s)\<lparr>pulse := False\<rparr>), g')"
  using assms by (simp add: sw_serviceBoard_def arr_get_cell set_cell_def Let_def) blast

lemma tick_raise:
  assumes "on_map s" "sw_enable s" "pulsegap s \<noteq> 0" "cell s = 0" "\<not> pulse s"
  shows "\<exists>s' g'. sw_serviceBoard (s, g) = Inr (s', g') \<and> ready s' \<and> outdir s' = outdir s \<and>
    sweepmap s' = (sweepmap s)[nat (sweepmapptr s) := 255] \<and>
    sweepmapptr s' = sweepmapptr s + (if outdir s then 1 else - 1) \<and>
    sweeppos s' = sweeppos s + (if outdir s then - 1 else 1)"
  using assms by (auto simp: sw_serviceBoard_def arr_get_cell ready_def Let_def)

lemma sense_map [simp]: "on_map (sense h s) = on_map s" "cell (sense h s) = cell s"
  by (simp_all add: on_map_def cell_def)

lemma upd_frame [simp]:
  "on_map (s\<lparr>pulsegap := v\<rparr>) = on_map s" "on_map (s\<lparr>pulse := b\<rparr>) = on_map s"
  "cell (s\<lparr>pulsegap := v\<rparr>) = cell s" "cell (s\<lparr>pulse := b\<rparr>) = cell s"
  by (simp_all add: on_map_def cell_def)

lemma step_pulse:
  assumes "on_map s" "ready s" "cell s = of_nat v" "0 < v" "v < 255"
  shows "\<exists>s' g'. sw_ticks (2 * (v + 1)) (s, g) = Inr (s', g') \<and> ready s' \<and> outdir s' = outdir s \<and>
    sweepmap s' = (sweepmap s)[nat (sweepmapptr s) := 255] \<and>
    sweepmapptr s' = sweepmapptr s + (if outdir s then 1 else - 1) \<and>
    sweeppos s' = sweeppos s + (if outdir s then - 1 else 1)"
proof -
  let ?v = "of_nat v :: u8"
  have v: "?v \<noteq> 0" "?v \<noteq> 255" using assms(4,5) by (simp_all add: word_unat_eq_iff unat_of_nat)
  have en: "sw_enable s" "pulse s" using assms(2) by (auto simp: ready_def)
  let ?s1 = "set_cell (?v - 1) (s\<lparr>pulsegap := ?v\<rparr>)"
  obtain g1 where t1: "sw_ticks 1 (s, g) = Inr (?s1, g1)"
    using tick_first [OF assms(1-3) v] sw_ticks_1 by metis
  let ?s2 = "set_cell 0 ?s1"
  have "?v - 1 = of_nat (v - 1)" using assms(4) by (simp add: of_nat_diff)
  then have t2: "sw_ticks (v - 1) (?s1, g1) = Inr (?s2, g1)"
    using assms en v by (intro countdown) auto
  obtain g3 h where t3: "sw_ticks 1 (?s2, g1) = Inr (sense h ((set_cell ?v ?s2)\<lparr>pulse := False\<rparr>), g3)"
    using tick_drop [of ?s2 g1] assms en v sw_ticks_1 by auto
  let ?s3 = "sense h ((set_cell ?v ?s2)\<lparr>pulse := False\<rparr>)"
  let ?s4 = "set_cell 0 ?s3"
  have t4: "sw_ticks v (?s3, g3) = Inr (?s4, g3)"
    using assms en v by (intro countdown) auto
  obtain s' g' where t5: "sw_ticks 1 (?s4, g3) = Inr (s', g')"
    and r: "ready s'" "outdir s' = outdir ?s4"
      "sweepmap s' = (sweepmap ?s4)[nat (sweepmapptr ?s4) := 255]"
      "sweepmapptr s' = sweepmapptr ?s4 + (if outdir ?s4 then 1 else - 1)"
      "sweeppos s' = sweeppos ?s4 + (if outdir ?s4 then - 1 else 1)"
    using tick_raise [of ?s4 g3] assms en v sw_ticks_1 by auto
  have "2 * (v + 1) = 1 + ((v - 1) + (1 + (v + 1)))" using assms(4) by simp
  then have "sw_ticks (2 * (v + 1)) (s, g) = Inr (s', g')"
    using t1 t2 t3 t4 t5 by (simp only: sw_ticks_add and_then_simps)
  with r show ?thesis by auto
qed

section \<open>A whole move\<close>

text \<open>\<open>armed n v s\<close>: \<open>n\<close> cells of speed \<open>v\<close> lie ahead of the arm, every other cell is 255.\<close>

definition ahead :: "bool \<Rightarrow> int \<Rightarrow> nat \<Rightarrow> int \<Rightarrow> bool" where
  "ahead out p n i = (if out then p \<le> i \<and> i < p + int n else p - int n < i \<and> i \<le> p)"

definition armed :: "nat \<Rightarrow> u8 \<Rightarrow> sweep \<Rightarrow> bool" where
  "armed n v s = (length (sweepmap s) = 4000 \<and>
     (\<forall>i < 4000. sweepmap s ! i = (if ahead (outdir s) (sweepmapptr s) n (int i) then v else 255)))"

definition final_ptr :: "nat \<Rightarrow> sweep \<Rightarrow> int" where
  "final_ptr n s = (if outdir s then sweepmapptr s + int n else sweepmapptr s - int n)"

lemma armed_0: "armed 0 v s \<Longrightarrow> sweepmap s = replicate 4000 255"
  by (intro nth_equalityI) (auto simp: armed_def ahead_def)

lemma armed_move:
  assumes "armed n v s" "ready s" "v = of_nat k" "0 < k" "k < 255"
    and "0 \<le> sweepmapptr s" "sweepmapptr s < 4000" "- 1 \<le> final_ptr n s" "final_ptr n s \<le> 4000"
  shows "\<exists>s' g'. sw_ticks (n * (2 * (k + 1))) (s, g) = Inr (s', g') \<and> ready s' \<and>
     sweepmap s' = replicate 4000 255 \<and> sweepmapptr s' = final_ptr n s \<and>
     sweeppos s' = sweeppos s + (if outdir s then - int n else int n)"
  using assms
proof (induction n arbitrary: s g)
  case 0
  then show ?case by (auto simp: armed_0 final_ptr_def)
next
  case (Suc n)
  have om: "on_map s" using Suc.prems by (simp add: on_map_def armed_def)
  have "ahead (outdir s) (sweepmapptr s) (Suc n) (sweepmapptr s)" by (simp add: ahead_def)
  then have c: "cell s = of_nat k" using Suc.prems by (simp add: armed_def cell_def)
  obtain s1 g1 where t: "sw_ticks (2 * (k + 1)) (s, g) = Inr (s1, g1)"
    and r: "ready s1" "outdir s1 = outdir s"
      "sweepmap s1 = (sweepmap s)[nat (sweepmapptr s) := 255]"
      "sweepmapptr s1 = sweepmapptr s + (if outdir s then 1 else - 1)"
      "sweeppos s1 = sweeppos s + (if outdir s then - 1 else 1)"
    using step_pulse [OF om Suc.prems(2) c Suc.prems(4,5)] by blast
  obtain p where p: "sweepmapptr s = int p" "p < 4000"
    using Suc.prems(6,7) by (metis nat_0_le nat_less_iff of_nat_numeral)
  have a1: "armed n v s1"
    using Suc.prems(1) p r unfolding armed_def
    by (auto simp: nth_list_update ahead_def split: if_splits)
  have fp: "final_ptr n s1 = final_ptr (Suc n) s" using r by (simp add: final_ptr_def)
  show ?case
  proof (cases "n = 0")
    case True
    with t r fp armed_0 [of v s1] a1 show ?thesis by (auto simp: final_ptr_def)
  next
    case False
    then have "0 \<le> sweepmapptr s1" "sweepmapptr s1 < 4000"
      using Suc.prems(6-9) r by (auto simp: final_ptr_def)
    then obtain s' g' where "sw_ticks (n * (2 * (k + 1))) (s1, g1) = Inr (s', g')" "ready s'"
      "sweepmap s' = replicate 4000 255" "sweepmapptr s' = final_ptr n s1"
      "sweeppos s' = sweeppos s1 + (if outdir s1 then - int n else int n)"
      using Suc.IH [OF a1 r(1) Suc.prems(3-5)] Suc.prems(8,9) fp by metis
    moreover have "Suc n * (2 * (k + 1)) = 2 * (k + 1) + n * (2 * (k + 1))" by simp
    ultimately show ?thesis using t r fp by (simp only: sw_ticks_add) auto
  qed
qed

section \<open>What \<open>Slide\<close> writes\<close>

lemma slide_fill_in:
  assumes "length m = 4000" "0 \<le> p" "p < 4000" "- 1 \<le> (if out then p + int n else p - int n)"
    "(if out then p + int n else p - int n) \<le> 4000"
  shows "\<exists>m'. slide_fill n out v p m = Inr m' \<and> length m' = 4000 \<and>
    (\<forall>i < 4000. m' ! i = (if ahead out p n (int i) then v else m ! i))"
  using assms
proof (induction n arbitrary: p m)
  case 0
  then show ?case by (auto simp: ahead_def)
next
  case (Suc n)
  let ?m = "m[nat p := v]" and ?p = "if out then p + 1 else p - 1"
  obtain q where q: "p = int q" "q < 4000"
    using Suc.prems(2,3) by (metis nat_0_le nat_less_iff of_nat_numeral)
  show ?case
  proof (cases "n = 0")
    case True
    with q Suc.prems(1) show ?thesis by (auto simp: ahead_def nth_list_update)
  next
    case False
    then have pr: "0 \<le> ?p" "?p < 4000" "- 1 \<le> (if out then ?p + int n else ?p - int n)"
      "(if out then ?p + int n else ?p - int n) \<le> 4000" "length ?m = 4000"
      using Suc.prems by (auto split: if_splits)
    obtain m' where "slide_fill n out v ?p ?m = Inr m'" "length m' = 4000"
      "\<forall>i < 4000. m' ! i = (if ahead out ?p n (int i) then v else ?m ! i)"
      using Suc.IH [OF pr(5,1-4)] by blast
    with q Suc.prems(1) show ?thesis
      by (auto simp: ahead_def nth_list_update split: if_splits)
  qed
qed

text \<open>Outside the map the loop ends in a fault.\<close>

lemma slide_fill_out:
  assumes "length m = 4000" "0 \<le> p" "p < 4000"
    and "(if out then p + int n else p - int n) < - 1 \<or> 4000 < (if out then p + int n else p - int n)"
  shows "slide_fill n out v p m = Inl Fault"
  using assms
proof (induction n arbitrary: p m)
  case 0
  then show ?case by (auto split: if_splits)
next
  case (Suc n)
  let ?p = "if out then p + 1 else p - 1"
  have m: "arr_set m p v = Some (m[nat p := v])" using Suc.prems by simp
  show ?case
  proof (cases "0 \<le> ?p \<and> ?p < 4000")
    case True
    then have "slide_fill n out v ?p (m[nat p := v]) = Inl Fault"
      using Suc.prems by (intro Suc.IH) (auto split: if_splits)
    with m show ?thesis by simp
  next
    case False
    with Suc.prems have "n \<noteq> 0" by (auto split: if_splits)
    then obtain k where "n = Suc k" using not0_implies_Suc by blast
    moreover have "arr_set (m[nat p := v]) ?p v = None"
      using False Suc.prems(1) by (auto simp: arr_set_None_iff)
    ultimately show ?thesis using m by simp
  qed
qed

section \<open>Moves to a position\<close>

text \<open>
  The driver at rest: the map is clear, the pulse line is raised, and the offset and
  the position add up to 4000, as \<open>start\<close> and \<open>Park\<close> leave them.
\<close>

definition at_rest :: "sweep \<Rightarrow> bool" where
  "at_rest s = (sweepmap s = replicate 4000 255 \<and> pulse s \<and> pulsegap s = 0 \<and>
     sweepmapptr s + sweeppos s = 4000 \<and> 1 \<le> sweeppos s \<and> sweeppos s \<le> 4000)"

lemma Goto_arms:
  assumes "at_rest s" "1 \<le> target" "target \<le> 4000" "target \<noteq> sweeppos s"
  shows "\<exists>s' g'. Goto target v (s, g) = Inr (s', g') \<and> ready s' \<and>
     armed (nat \<bar>target - sweeppos s\<bar>) (of_int v) s' \<and> outdir s' = (target < sweeppos s) \<and>
     sweepmapptr s' = sweepmapptr s \<and> sweeppos s' = sweeppos s"
proof -
  let ?n = "nat \<bar>target - sweeppos s\<bar>" and ?out = "target < sweeppos s"
  have p: "sweepmapptr s = 4000 - sweeppos s" using assms(1) by (simp add: at_rest_def)
  have bounds: "0 \<le> sweepmapptr s" "sweepmapptr s < 4000"
    using assms(1) p by (auto simp: at_rest_def)
  have l: "length (sweepmap s) = 4000" using assms(1) by (simp add: at_rest_def)
  have "- 1 \<le> (if ?out then sweepmapptr s + int ?n else sweepmapptr s - int ?n)"
    "(if ?out then sweepmapptr s + int ?n else sweepmapptr s - int ?n) \<le> 4000"
    using assms p by auto
  from slide_fill_in [OF l bounds this, of "of_int v"]
  obtain m' where m': "slide_fill ?n ?out (of_int v) (sweepmapptr s) (sweepmap s) = Inr m'" "length m' = 4000"
    "\<forall>i < 4000. m' ! i = (if ahead ?out (sweepmapptr s) ?n (int i) then of_int v else sweepmap s ! i)"
    by blast
  have "(\<not> 0 < target - sweeppos s) = ?out" using assms(4) by auto
  with m' assms show ?thesis
    by (auto simp: Goto_def Slide_def ready_def at_rest_def armed_def Let_def)
qed

text \<open>Claim C36: a \<open>GOTO\<close> to a position on the map, from rest and at a speed of 1 to 254, makes the arm arrive. After
  \<open>2 * (speed + 1)\<close> ticks for each step of the distance the arm is at the target, the map is
  clear again, and no tick has touched memory outside the map.\<close>

theorem goto_arrives:
  assumes "at_rest s" and "1 \<le> target" and "target \<le> 4000" and "1 \<le> speed" and "speed \<le> 254"
  shows "\<exists>c s' g'. Goto target speed (s, g) = Inr c \<and>
     sw_ticks (nat \<bar>target - sweeppos s\<bar> * (2 * (nat speed + 1))) c = Inr (s', g') \<and>
     sweeppos s' = target \<and> at_rest s'"
proof (cases "target = sweeppos s")
  case True
  with assms(1) show ?thesis by (simp add: Goto_def)
next
  case False
  let ?n = "nat \<bar>target - sweeppos s\<bar>"
  obtain s1 g1 where s1: "Goto target speed (s, g) = Inr (s1, g1)" "ready s1"
    "armed ?n (of_int speed) s1" "outdir s1 = (target < sweeppos s)"
    "sweepmapptr s1 = sweepmapptr s" "sweeppos s1 = sweeppos s"
    using Goto_arms [OF assms(1-3) False] by blast
  have v: "(of_int speed :: u8) = of_nat (nat speed)" using assms(4) by simp
  have p: "sweepmapptr s = 4000 - sweeppos s" "1 \<le> sweeppos s" "sweeppos s \<le> 4000"
    using assms(1) by (auto simp: at_rest_def)
  have "0 < nat speed" "nat speed < 255" using assms(4,5) by auto
  moreover have "0 \<le> sweepmapptr s1" "sweepmapptr s1 < 4000" "- 1 \<le> final_ptr ?n s1" "final_ptr ?n s1 \<le> 4000"
    using s1 p assms(2,3) by (auto simp: final_ptr_def)
  ultimately obtain s' g' where "sw_ticks (?n * (2 * (nat speed + 1))) (s1, g1) = Inr (s', g')" "ready s'"
    "sweepmap s' = replicate 4000 255" "sweepmapptr s' = final_ptr ?n s1"
    "sweeppos s' = sweeppos s1 + (if outdir s1 then - int ?n else int ?n)"
    using armed_move [OF s1(3,2) v] by blast
  with s1 p assms(2,3) False show ?thesis
    by (auto simp: at_rest_def ready_def final_ptr_def)
qed

text \<open>Claim C37: the target of a \<open>GOTO\<close> is not checked. From rest, a target below 0 or above
  4001 makes \<open>Slide\<close> write outside the 4000 cells of the map.\<close>

theorem goto_off_map_faults:
  assumes "at_rest s" and "target < 0 \<or> 4001 < target"
  shows "Goto target speed (s, g) = Inl Fault"
proof -
  let ?out = "target < sweeppos s"
  have p: "sweepmapptr s = 4000 - sweeppos s" "1 \<le> sweeppos s" "sweeppos s \<le> 4000" and l: "length (sweepmap s) = 4000"
    using assms(1) by (auto simp: at_rest_def)
  have "slide_fill (nat \<bar>target - sweeppos s\<bar>) ?out (of_int speed) (sweepmapptr s) (sweepmap s) = Inl Fault"
    using assms(2) p l by (intro slide_fill_out) auto
  moreover have "(\<not> 0 < target - sweeppos s) = ?out" and "target \<noteq> sweeppos s"
    using assms(2) p by auto
  ultimately show ?thesis by (simp add: Goto_def Slide_def Let_def)
qed

end
