(* ===== verification/SweepFsm.thy ===== *)
theory SweepFsm
  imports SweepMove
begin

text \<open>
  The sweep driver as a transition system: the interrupt's tick, the main loop's event
  service, commands delivered by the post office, and sensor inputs that change at will.
  The parking search is shown to have no end.
\<close>

section \<open>Frames\<close>

lemma Slide_frame:
  "Slide step v (s, g) = Inr (s', g') \<Longrightarrow>
   sw_state s' = sw_state s \<and> sw_events s' = sw_events s \<and> sweepmapptr s' = sweepmapptr s \<and>
   sweeppos s' = sweeppos s \<and> inputs (hw g') = inputs (hw g)"
  by (auto simp: Slide_def and_then_Inr_iff)

lemma Goto_frame:
  "Goto p v (s, g) = Inr (s', g') \<Longrightarrow> sw_state s' = sw_state s \<and> sw_events s' = sw_events s"
  by (auto simp: Goto_def Let_def dest: Slide_frame split: if_splits)

lemma SweepJob_frame:
  "SweepJob (s, g) = Inr (s', g') \<Longrightarrow> sw_state s' = sw_state s \<and> sw_events s' = sw_events s"
  by (auto simp: SweepJob_def and_then_Inr_iff dest: Goto_frame split: if_splits)

text \<open>Events of a driver that is searching: no \<open>JOBDONE\<close> signal waits.\<close>

definition no_jobdone :: "event list \<Rightarrow> bool" where
  "no_jobdone es = (\<forall>e \<in> set es. evtype e \<noteq> SWEEP_JOBDONE_SIG)"

lemma no_jobdone_simps [simp]:
  "no_jobdone []" "no_jobdone (e # es) = (evtype e \<noteq> SWEEP_JOBDONE_SIG \<and> no_jobdone es)"
  "no_jobdone (es @ fs) = (no_jobdone es \<and> no_jobdone fs)"
  by (auto simp: no_jobdone_def)

definition searching :: "SweepState \<Rightarrow> sw \<Rightarrow> bool" where
  "searching q c = ((q = searchOut \<or> q = searchIn) \<and> sw_state (fst c) = Some q \<and> no_jobdone (sw_events (fst c)))"

lemma serviceBoard_searching:
  "sw_serviceBoard c = Inr c' \<Longrightarrow> searching q c \<Longrightarrow> searching q c'"
  by (cases c)
     (auto simp: sw_serviceBoard_def searching_def sw_push_def Let_def and_then_Inr_iff
       split: option.splits if_splits)

lemma command_searching:
  assumes "sw_command junk ia (s, g) = Inr (s', g')" and "searching q (s, g)"
  shows "searching q (s', g')"
proof -
  have "cmd ia \<noteq> SWEEP_PARK" using assms by (auto simp: sw_command_def fsm_Park_def searching_def)
  with assms show ?thesis
    by (auto simp: sw_command_def searching_def Let_def sw_push_def PulseBurst_def
        dest!: Goto_frame split: if_splits)
qed

lemma handle_searching:
  assumes "sw_handle junk e (s, g) = Inr (s', g')" and "searching q (s, g)"
    and "evtype e \<noteq> SWEEP_JOBDONE_SIG"
  shows "searching q (s', g')"
  using assms command_searching [of junk _ s g s' g' q]
  by (auto simp: sw_handle_def fsm_Tick_def searching_def dest!: SweepJob_frame
      split: if_splits payload.splits)

lemma serviceEvents_searching:
  assumes "sw_serviceEvents junk c = Inr c'" and "searching q c"
  shows "searching q c'"
  using assms
proof (rule swq.service_inv)
  fix e es c c'
  assume a: "sw_events (fst c) = e # es" "sw_handle junk e c = Inr c'" "searching q c"
  then have "evtype e \<noteq> SWEEP_JOBDONE_SIG" by (simp add: searching_def)
  with a have "searching q c'" by (cases c; cases c') (auto dest: handle_searching)
  then show "searching q (sw_pop c')"
    by (cases c'; cases "sw_events (fst c')") (auto simp: searching_def sw_pop_def)
qed

section \<open>The driver as a transition system\<close>

inductive sw_step :: "sw \<Rightarrow> sw \<Rightarrow> bool" where
  tick: "sw_serviceBoard c = Inr c' \<Longrightarrow> sw_step c c'"
| service: "sw_serviceEvents junk c = Inr c' \<Longrightarrow> sw_step c c'"
| deliver: "evtype e = SWEEP_ETH_SIG \<Longrightarrow> sw_step (s, g) (sw_pushEvent e s, g)"
| sensors: "sw_step (s, g) (s, g\<lparr>hw := (hw g)\<lparr>inputs := f\<rparr>\<rparr>)"

inductive_cases sw_stepE: "sw_step c c'"

lemma sw_step_searching: "sw_step c c' \<Longrightarrow> searching q c \<Longrightarrow> searching q c'"
proof (induction rule: sw_step.induct)
  case (tick c c')
  then show ?case by (rule serviceBoard_searching)
next
  case (service junk c c')
  then show ?case by (rule serviceEvents_searching)
qed (auto simp: searching_def sw_pushEvent_def)

lemma sw_steps_searching: "sw_step\<^sup>*\<^sup>* c c' \<Longrightarrow> searching q c \<Longrightarrow> searching q c'"
  by (induction rule: rtranclp_induct) (auto dest: sw_step_searching)

text \<open>Claim C38: a parking search has no end. \<open>serviceBoard\<close> no longer queues the
  \<open>JOBDONE\<close> signal, so once the machine searches for the park position it stays in the
  same search state through every tick, command and sensor change.\<close>

theorem search_never_ends:
  assumes "sw_state s = Some q" and "q = searchOut \<or> q = searchIn" and "no_jobdone (sw_events s)"
    and "sw_step\<^sup>*\<^sup>* (s, g) (s', g')"
  shows "sw_state s' = Some q"
  using sw_steps_searching [OF assms(4), of q] assms(1-3) by (auto simp: searching_def)

text \<open>A second \<open>PARK\<close> command while the arm searches throws the exception of the
  undefined transition, which nothing catches. The first command, given with the inner
  sensor covered, is what starts the search.\<close>

theorem second_park_throws:
  assumes "sw_state s = Some Idle" and "inputs (hw g) STEP_INTAP \<noteq> 0"
    and "cmd ia = SWEEP_PARK" and "sw_command junk ia (s, g) = Inr (s', g')"
  shows "sw_state s' = Some searchOut \<and>
         sw_command junk' ia (s', g') = Inl (TransitionUndefined ''Adm::searchOut'')"
proof -
  have nc: "\<not> taps_clear g" using assms(2) by (simp add: taps_clear_def)
  have "sw_state s' = Some searchOut"
    using assms nc by (auto simp: sw_command_def fsm_Park_def goto_state_def setState_def dest!: Slide_frame)
  then show ?thesis using assms(3) by (simp add: sw_command_def fsm_Park_def)
qed

end
