(* ===== verification/ServoProps.thy ===== *)
theory ServoProps
  imports Servo
begin

text \<open>
  The servo driver as a transition system, the bounds of its control law, what a stop
  command guarantees, and what the two stores beyond their objects do.
\<close>

section \<open>The control law\<close>

lemma calculatePWM_range: "0 \<le> calculatePWM tf x \<and> calculatePWM tf x \<le> 100"
  by (simp add: calculatePWM_def Let_def)

lemma duty_floor:
  fixes r :: rat
  assumes "0 \<le> r" and "\<not> 80 < r"
  shows "(word_of_int \<lfloor>r\<rfloor> :: u8) \<le> 80"
proof -
  have f: "0 \<le> \<lfloor>r\<rfloor>" "\<lfloor>r\<rfloor> \<le> 80" using assms by (auto simp: floor_le_iff)
  then have "uint (word_of_int \<lfloor>r\<rfloor> :: u8) = \<lfloor>r\<rfloor>" by (simp add: uint_word_of_int)
  then show ?thesis using f by (simp add: word_le_def)
qed

text \<open>Claim C39: one turn of the closed loop keeps the integrator between its limits and
  requests at most 80 percent, whatever the measured speed, the setpoint and the state the
  integrator had before.\<close>

theorem control_step_bounded:
  assumes "control_step (s, g) = Inr (s', g')" and "servo_setpoint s \<noteq> 0"
    and "iMin (svctl s) \<le> iMax (svctl s)"
  shows "iMin (svctl s') \<le> iState (svctl s') \<and> iState (svctl s') \<le> iMax (svctl s') \<and>
         request_pwm0 s' \<le> 80 \<and> dState (svctl s') = speed s'"
  using assms calculatePWM_range
  by (auto simp: control_step_def updateServo_def Let_def duty_floor split: if_splits)

section \<open>The driver as a transition system\<close>

text \<open>
  Ticks and tachometer pulses come from interrupts, the event service runs in the main
  loop, the post office delivers any event, the tick counter and the sensor inputs move on.
\<close>

inductive sv_step :: "sv \<Rightarrow> sv \<Rightarrow> bool" where
  tick: "sv_serviceBoard c = Inr c' \<Longrightarrow> sv_step c c'"
| tach: "sv_step (s, g) (serviceTach t s, g)"
| service: "sv_serviceEvents junk c = Inr c' \<Longrightarrow> sv_step c c'"
| deliver: "sv_step (s, g) (sv_pushEvent e s, g)"
| environment: "sv_step (s, g) (s, g\<lparr>bspcounter := n, hw := (hw g)\<lparr>inputs := f\<rparr>\<rparr>)"

text \<open>The duty cycle of the plate motor follows the byte \<open>present_pwm0\<close>, clamped.\<close>

definition clamp80 :: "u8 \<Rightarrow> u8" where
  "clamp80 v = (if v > 80 then 80 else v)"

lemma clamp80_bound: "clamp80 v \<le> 80"
  by (simp add: clamp80_def not_less)

definition duty_inv :: "sv \<Rightarrow> bool" where
  "duty_inv c = (duty0 (hw (snd c)) = clamp80 (present_pwm0 (fst c)) \<or>
     present_pwm0 (fst c) = 1 \<and> duty0 (hw (snd c)) = 0)"

lemma update_pwm_duty_inv: "duty_inv c \<Longrightarrow> duty_inv (update_pwm c)"
  by (cases c) (auto simp: update_pwm_def duty_inv_def setPWM_def clamp80_def)

lemma update_pwm_request: "request_pwm0 (fst (update_pwm c)) = request_pwm0 (fst c)"
  by (cases c) (simp add: update_pwm_def)

lemma control_step_frame:
  "control_step (s, g) = Inr (s', g') \<Longrightarrow> hw g' = hw g \<and> present_pwm0 s' = present_pwm0 s"
  by (auto simp: control_step_def updateServo_def Let_def split: if_splits)

lemma serviceBoard_frame:
  assumes "sv_serviceBoard c = Inr (s', g')" and "update_pwm c = (s1, g1)"
  shows "hw g' = hw g1 \<and> present_pwm0 s' = present_pwm0 s1"
proof (cases "updatetach_flag s1 > 2000")
  case True
  let ?s = "s1\<lparr>tachval := sum_list (tachbuffer s1), tachbuffer := replicate 5 0, updatetach_flag := 0\<rparr>"
  have "sv_serviceBoard c =
      (if tachval ?s \<noteq> 0 \<or> servo_setpoint ?s \<noteq> 0 then control_step (?s, g1) else Inr (?s, g1))"
    using assms(2) True by (simp add: sv_serviceBoard_def Let_def)
  with assms(1) show ?thesis by (auto dest: control_step_frame split: if_splits)
next
  case False
  with assms show ?thesis by (auto simp: sv_serviceBoard_def)
qed

lemma serviceBoard_duty_inv: "sv_serviceBoard c = Inr c' \<Longrightarrow> duty_inv c \<Longrightarrow> duty_inv c'"
proof -
  assume a: "sv_serviceBoard c = Inr c'" "duty_inv c"
  obtain s1 g1 s' g' where u: "update_pwm c = (s1, g1)" "c' = (s', g')" by (cases "update_pwm c"; cases c')
  with a have "duty_inv (s1, g1)" using update_pwm_duty_inv by metis
  with serviceBoard_frame [of c s' g' s1 g1] a u show ?thesis by (simp add: duty_inv_def)
qed

lemma serviceTach_frame [simp]:
  "present_pwm0 (serviceTach t s) = present_pwm0 s" "request_pwm0 (serviceTach t s) = request_pwm0 s"
  "servo_setpoint (serviceTach t s) = servo_setpoint s"
  by (simp_all add: serviceTach_def tach_store_def Let_def)

lemma command_frame_servo [simp]:
  "present_pwm0 (scan_request m s) = present_pwm0 s" "sv_events (scan_request m s) = sv_events s"
  "present_pwm0 (clearTachBuffer t s) = present_pwm0 s" "sv_events (clearTachBuffer t s) = sv_events s"
  by (simp_all add: scan_request_def write_request_def clearTachBuffer_def Let_def split: list.splits)

lemma command_frame:
  assumes "sv_command junk ia (s, g) = Inr (s', g')"
  shows "duty0 (hw g') = duty0 (hw g) \<and> present_pwm0 s' = present_pwm0 s"
  using assms by (auto simp: sv_command_def Let_def split: if_splits)

lemma sv_Tick_frame:
  "sv_Tick (s, g) = Inr (s', g') \<Longrightarrow> g' = g \<and> present_pwm0 s' = present_pwm0 s"
  by (auto simp: sv_Tick_def sv_setState_def split: option.splits ServoState.splits)

lemma handle_frame:
  assumes "sv_handle junk e (s, g) = Inr (s', g')"
  shows "duty0 (hw g') = duty0 (hw g) \<and> present_pwm0 s' = present_pwm0 s"
  using assms
  by (auto simp: sv_handle_def dest: sv_Tick_frame command_frame split: if_splits payload.splits)

lemma serviceEvents_duty_inv:
  assumes "sv_serviceEvents junk c = Inr c'" and "duty_inv c"
  shows "duty_inv c'"
  using assms
proof (rule svq.service_inv)
  fix e es c c'
  assume "sv_handle junk e c = Inr c'" "duty_inv c"
  then show "duty_inv (sv_pop c')"
    using handle_frame [of junk e "fst c" "snd c" "fst c'" "snd c'"]
    by (cases c') (simp add: duty_inv_def sv_pop_def)
qed

lemma sv_step_duty_inv: "sv_step c c' \<Longrightarrow> duty_inv c \<Longrightarrow> duty_inv c'"
proof (induction rule: sv_step.induct)
  case (tick c c')
  then show ?case by (rule serviceBoard_duty_inv)
next
  case (service junk c c')
  then show ?case by (rule serviceEvents_duty_inv)
qed (simp_all add: duty_inv_def sv_pushEvent_def)

lemma sv_steps_duty_inv: "sv_step\<^sup>*\<^sup>* c c' \<Longrightarrow> duty_inv c \<Longrightarrow> duty_inv c'"
  by (induction rule: rtranclp_induct) (auto dest: sv_step_duty_inv)

lemma Servo_new_duty_inv: "duty0 (hw g) = 0 \<Longrightarrow> duty_inv (Servo_new (s, g))"
  by (simp add: duty_inv_def Servo_new_def setServoTransfer_def setServoPID_def clearTachBuffer_def Let_def)

text \<open>The safety trap of \<open>setPWM\<close> holds for the whole driver: from its
  construction on, no sequence of ticks, tachometer pulses, messages of any content and
  changes of the inputs drives the plate motor above 80 percent.\<close>

theorem plate_duty_bounded:
  assumes "duty0 (hw g) = 0" and "sv_step\<^sup>*\<^sup>* (Servo_new (s, g)) (s', g')"
  shows "duty0 (hw g') \<le> 80"
proof -
  have "duty_inv (s', g')"
    using assms Servo_new_duty_inv sv_steps_duty_inv by blast
  then show ?thesis by (auto simp: duty_inv_def clamp80_bound)
qed

section \<open>Stopping the motor\<close>

definition stopped :: "sv \<Rightarrow> bool" where
  "stopped c = (request_pwm0 (fst c) = 0 \<and> present_pwm0 (fst c) = 0 \<and>
     servo_setpoint (fst c) = 0 \<and> duty0 (hw (snd c)) = 0)"

lemma control_step_setpoint_0:
  "control_step (s, g) = Inr (s', g') \<Longrightarrow> servo_setpoint s = 0 \<Longrightarrow>
   servo_setpoint s' = 0 \<and> request_pwm0 s' = request_pwm0 s"
  by (auto simp: control_step_def Let_def)

text \<open>The interrupts alone: ticks and tachometer pulses, in any order.\<close>

inductive sv_irq :: "sv \<Rightarrow> sv \<Rightarrow> bool" where
  irq_tick: "sv_serviceBoard c = Inr c' \<Longrightarrow> sv_irq c c'"
| irq_tach: "sv_irq (s, g) (serviceTach t s, g)"

lemma serviceBoard_stops:
  assumes "sv_serviceBoard (s, g) = Inr (s', g')" and "request_pwm0 s = 0" and "servo_setpoint s = 0"
    and "duty_inv (s, g)"
  shows "stopped (s', g')"
proof -
  obtain s1 g1 where u: "update_pwm (s, g) = (s1, g1)" by fastforce
  then have "request_pwm0 s1 = 0" "present_pwm0 s1 = 0" "duty0 (hw g1) = 0" "servo_setpoint s1 = 0"
    using assms(2-4) by (auto simp: update_pwm_def setPWM_def duty_inv_def clamp80_def split: if_splits)
  with assms(1) u show ?thesis
    by (auto simp: sv_serviceBoard_def stopped_def Let_def
        dest: control_step_setpoint_0 control_step_frame split: if_splits)
qed

lemma irq_stopped: "sv_irq c c' \<Longrightarrow> stopped c \<Longrightarrow> stopped c'"
proof (induction rule: sv_irq.induct)
  case (irq_tick c c')
  then show ?case
    by (cases c; cases c') (auto simp: stopped_def duty_inv_def clamp80_def dest!: serviceBoard_stops)
qed (simp add: stopped_def)

lemma irqs_stopped: "sv_irq\<^sup>*\<^sup>* c c' \<Longrightarrow> stopped c \<Longrightarrow> stopped c'"
  by (induction rule: rtranclp_induct) (auto dest: irq_stopped)

text \<open>The stop command stops the motor. In any state the driver can reach, after a
  \<open>SERVO_ENABLE\<close> command with an argument other than 1 the next tick sets the duty
  cycle to 0, and it stays 0 through every later tick and tachometer pulse until another
  command comes.\<close>

theorem disable_stops_motor:
  assumes "duty0 (hw g0) = 0" and "sv_step\<^sup>*\<^sup>* (Servo_new (s0, g0)) (s, g)"
    and "cmd ia = SERVO_ENABLE" and "arg ia \<noteq> 1"
    and "sv_command junk ia (s, g) = Inr c1" and "sv_serviceBoard c1 = Inr c2" and "sv_irq\<^sup>*\<^sup>* c2 (s', g')"
  shows "duty0 (hw g') = 0"
proof -
  have inv: "duty_inv (s, g)"
    using assms(1,2) Servo_new_duty_inv sv_steps_duty_inv by blast
  have "duty_inv c1" "request_pwm0 (fst c1) = 0" "servo_setpoint (fst c1) = 0"
    using assms(3-5) inv by (auto simp: sv_command_def Let_def duty_inv_def)
  then have "stopped c2" using assms(6) serviceBoard_stops by (cases c1; cases c2) auto
  then show ?thesis using irqs_stopped [OF assms(7)] by (simp add: stopped_def)
qed

section \<open>The tachometer buffer\<close>

lemma tach_index_bound: "tach_index p \<le> 5"
proof (cases "p > 4")
  case False
  then have "p \<le> 4" by simp
  then have "unat p \<le> 4" by (simp add: word_le_nat_alt)
  then have "unat (p + 1) \<le> 5" by (subst unat_word_ariths) (simp add: )
  with False show ?thesis by (simp add: tach_index_def word_le_nat_alt)
qed (simp add: tach_index_def)

text \<open>\<open>serviceTach\<close> runs over the end of its five-cell buffer. Of the pulses
  after \<open>clearTachBuffer\<close>, the first four fill the cells 1 to 4 and the fifth addresses
  cell 5, which is the byte \<open>tachbufferptr\<close>: the index becomes the low byte of the
  measured interval and the interval itself is lost.\<close>

theorem fifth_pulse_overruns:
  assumes "s4 = fold serviceTach [t1, t2, t3, t4] (clearTachBuffer now s)"
  shows "tach_index (tachbufferptr s4) = 5 \<and>
         tachbuffer (serviceTach t5 s4) = tachbuffer s4 \<and>
         tachbufferptr (serviceTach t5 s4) = ucast (this_tach (serviceTach t5 s4))"
  unfolding assms
  by (simp add: serviceTach_def tach_store_def tach_index_def clearTachBuffer_def Let_def)

text \<open>Enabling the servo spoils the time stamp it has just taken. With a duty
  cycle that fits its byte, the conversion into \<open>request_pwm0\<close> clears the low half of
  \<open>last_tach\<close>, which \<open>clearTachBuffer\<close> had set to the current tick.\<close>

theorem enable_clobbers_last_tach:
  assumes "cmd ia = SERVO_ENABLE" and "arg ia = 1" and "sscanf_d 1 (data ia) = [n]"
    and "0 \<le> n" and "n < 256" and "sv_command junk ia (s, g) = Inr (s', g')"
  shows "request_pwm0 s' = of_int n \<and> last_tach s' = (bspcounter g AND 0xFFFF0000)"
proof -
  have "uint ((word_of_int n :: u32) div 65536) = 0"
    using assms(4,5) by (simp add: uint_div_distrib uint_word_of_int)
  then have "(word_of_int n :: u32) div 2 ^ 16 = 0" by (simp add: uint_0_iff)
  then have "drop_bit 16 (word_of_int n :: u32) = 0" by (simp only: drop_bit_eq_div)
  moreover have "(ucast (word_of_int n :: u32) :: u8) = word_of_int n"
    using assms(4,5) by (simp add: ucast_eq uint_word_of_int take_bit_int_eq_self)
  ultimately show ?thesis
    using assms by (auto simp: sv_command_def clearTachBuffer_def scan_request_def write_request_def Let_def)
qed

end
