(* ===== verification/Kernel.thy ===== *)
theory Kernel
  imports Monitor SweepFsm ServoProps
begin

text \<open>
  \<open>source/main.cpp\<close>: the post office, the alarms, the gate for messages from the network,
  the PIT interrupt and the main loop. \<open>unsigned long\<close> has 32 bits on the target.
\<close>

section \<open>State\<close>

datatype CTRLSTATES = INIT | IDLE | ALARM | SENDU | RECVU

record kernel =
  kglob :: globals
  ksweep :: sweep
  kservo :: servo
  kmonitor :: monitor
  subscriptions :: "u32 list"
  postoffice :: "event list"
  mainevents :: "event list"
  message_out :: "antares_msg list"
  alarms :: "u32 list"
  reload :: "u32 list"
  ctrl_state :: CTRLSTATES
  adc_done :: bool
  adc_value :: u32

section \<open>Post office\<close>

definition publish :: "event \<Rightarrow> kernel \<Rightarrow> kernel" where
  "publish evt k = k\<lparr>postoffice := postoffice k @ [evt]\<rparr>"

definition subscribe :: "OBJTYPES \<Rightarrow> SIGTYPES \<Rightarrow> kernel \<Rightarrow> kernel" where
  "subscribe obj sig k = k\<lparr>subscriptions := subscriptions k @ [obj_code obj OR sig_code sig]\<rparr>"

text \<open>The loop of \<open>unsubscribe\<close>: after an erase the index still advances.\<close>

function unsub_from :: "nat \<Rightarrow> u32 \<Rightarrow> u32 list \<Rightarrow> u32 list" where
  "unsub_from i index subs =
     (if i < length subs
      then if subs ! i = index then unsub_from (i + 1) index (take i subs @ drop (i + 1) subs)
           else unsub_from (i + 1) index subs
      else subs)"
  by pat_completeness auto
termination by (relation "measure (\<lambda>(i, _, subs). length subs - i)") auto

declare unsub_from.simps [simp del]

definition unsubscribe :: "OBJTYPES \<Rightarrow> SIGTYPES \<Rightarrow> kernel \<Rightarrow> kernel" where
  "unsubscribe obj sig k = k\<lparr>subscriptions := unsub_from 0 (obj_code obj + sig_code sig) (subscriptions k)\<rparr>"

text \<open>One turn of the inner loop of \<open>verifymail\<close>.\<close>

definition deliver_to :: "event \<Rightarrow> u32 \<Rightarrow> kernel \<Rightarrow> kernel" where
  "deliver_to evt sub k =
     (let subs = sub AND 0x0000ffff; addr = sub AND 0xffff0000 in
      if subs = sig_code (evtype evt) then
        let k = (if addr = obj_code MAIN then k\<lparr>mainevents := mainevents k @ [evt]\<rparr> else k);
            k = (if addr = obj_code SWEEP then k\<lparr>ksweep := sw_pushEvent evt (ksweep k)\<rparr> else k);
            k = (if addr = obj_code SERVO then k\<lparr>kservo := sv_pushEvent evt (kservo k)\<rparr> else k)
        in if addr = obj_code MONITOR then k\<lparr>kmonitor := mo_pushEvent evt (kmonitor k)\<rparr> else k
      else k)"

fun dispatch :: "event list \<Rightarrow> kernel \<Rightarrow> kernel" where
  "dispatch [] k = k"
| "dispatch (evt # evts) k = dispatch evts (fold (deliver_to evt) (subscriptions k) k)"

definition verifymail :: "kernel \<Rightarrow> kernel" where
  "verifymail k = (dispatch (postoffice k) k)\<lparr>postoffice := []\<rparr>"

definition locateEvent :: "SIGTYPES \<Rightarrow> kernel \<Rightarrow> bool \<times> kernel" where
  "locateEvent t k =
     (let rest = dropWhile (\<lambda>e. evtype e \<noteq> t) (mainevents k)
      in (rest \<noteq> [], k\<lparr>mainevents := rest\<rparr>))"

section \<open>Alarms\<close>

definition isAlarmTime :: "nat \<Rightarrow> kernel \<Rightarrow> bool" where
  "isAlarmTime i k = (bspcounter (kglob k) > alarms k ! i)"

definition setAlarm :: "nat \<Rightarrow> u32 \<Rightarrow> u32 \<Rightarrow> kernel \<Rightarrow> kernel" where
  "setAlarm i interval rld k =
     k\<lparr>alarms := (alarms k)[i := bspcounter (kglob k) + interval], reload := (reload k)[i := rld]\<rparr>"

definition resetAlarm :: "nat \<Rightarrow> kernel \<Rightarrow> kernel" where
  "resetAlarm i k = k\<lparr>alarms := (alarms k)[i := 0xffffffff], reload := (reload k)[i := 0]\<rparr>"

definition clearAlarms :: "kernel \<Rightarrow> kernel" where
  "clearAlarms k = k\<lparr>alarms := replicate 4 0xffffffff, reload := replicate 4 0\<rparr>"

text \<open>One turn of the alarm loop of the interrupt handler.\<close>

definition check_alarm :: "nat \<Rightarrow> kernel \<Rightarrow> kernel" where
  "check_alarm i k =
     (if alarms k ! i < bspcounter (kglob k)
      then (publish (mk_event ALARM_SIG 2 PNull) k)
             \<lparr>alarms := (alarms k)[i := (if reload k ! i \<noteq> 0 then bspcounter (kglob k) + reload k ! i
                                         else 0xffffffff)]\<rparr>
      else k)"

definition count_tick :: "kernel \<Rightarrow> kernel" where
  "count_tick k =
     fold check_alarm [0..<4] (k\<lparr>kglob := (kglob k)\<lparr>bspcounter := bspcounter (kglob k) + 1\<rparr>\<rparr>)"

section \<open>Interrupts\<close>

definition with_sweep :: "(sw \<Rightarrow> stop + sw) \<Rightarrow> kernel \<Rightarrow> stop + kernel" where
  "with_sweep f k = and_then (f (ksweep k, kglob k)) (\<lambda>(s, g). Inr (k\<lparr>ksweep := s, kglob := g\<rparr>))"

definition with_servo :: "(sv \<Rightarrow> stop + sv) \<Rightarrow> kernel \<Rightarrow> stop + kernel" where
  "with_servo f k = and_then (f (kservo k, kglob k)) (\<lambda>(s, g). Inr (k\<lparr>kservo := s, kglob := g\<rparr>))"

definition with_monitor :: "(mo \<Rightarrow> stop + mo) \<Rightarrow> kernel \<Rightarrow> stop + kernel" where
  "with_monitor f k = and_then (f (kmonitor k, kglob k)) (\<lambda>(s, g). Inr (k\<lparr>kmonitor := s, kglob := g\<rparr>))"

text \<open>\<open>Monitor::serviceBoard\<close> has an empty body.\<close>

definition PIT0_IRQHandler :: "kernel \<Rightarrow> stop + kernel" where
  "PIT0_IRQHandler k =
     and_then (with_sweep sw_serviceBoard k) (\<lambda>k.
     and_then (with_servo sv_serviceBoard k) (\<lambda>k.
     Inr (count_tick k)))"

definition BOARD_TACH_IRQ_HANDLER :: "kernel \<Rightarrow> kernel" where
  "BOARD_TACH_IRQ_HANDLER k = k\<lparr>kservo := serviceTach (bspcounter (kglob k)) (kservo k)\<rparr>"

definition ADC0_IRQHandler :: "u32 \<Rightarrow> kernel \<Rightarrow> kernel" where
  "ADC0_IRQHandler value k = k\<lparr>adc_done := True, adc_value := value\<rparr>"

section \<open>The gate for messages from the network\<close>

text \<open>\<open>memcpy\<close> of the first 64 bytes of a message: the header and 52 data bytes.\<close>

definition copy64 :: "antares_msg \<Rightarrow> antares_msg \<Rightarrow> antares_msg" where
  "copy64 src dst = src\<lparr>data := take 52 (data src) @ drop 52 (data dst)\<rparr>"

definition dest_signal :: "u8 \<Rightarrow> SIGTYPES option" where
  "dest_signal d = (if d = 1 then Some CTRL_ETH_SIG else if d = 2 then Some SWEEP_ETH_SIG
     else if d = 3 then Some SERVO_ETH_SIG else if d = 4 then Some MONITOR_ETH_SIG else None)"

definition ethergate :: "antares_msg \<Rightarrow> kernel \<Rightarrow> antares_msg \<times> kernel" where
  "ethergate m k =
     (if cmd m = CALLBACK_REQ then
        (case message_out k of
           d # ds \<Rightarrow> (copy64 d m, k\<lparr>message_out := ds\<rparr>)
         | [] \<Rightarrow>
           if status_updated (gstatus (kglob k))
           then (m\<lparr>cmd := CMD_STATUSUPDATE, data := blit 0 (take 150 (status_stream (gstatus (kglob k)))) (data m),
                   msg_size := 127\<rparr>, k)
           else (m\<lparr>cmd := CMD_STATUSKEEP, msg_size := 0\<rparr>, k))
      else (case dest_signal (dest m) of
              Some t \<Rightarrow> (m, publish (mk_event t 1 (PMsg m)) k)
            | None \<Rightarrow> (m, k)))"

section \<open>Main loop\<close>

definition main_switch :: "kernel \<Rightarrow> stop + kernel" where
  "main_switch k =
     (case ctrl_state k of
        INIT \<Rightarrow> Inr ((setAlarm 0 100 100 k)\<lparr>ctrl_state := IDLE\<rparr>)
      | IDLE \<Rightarrow>
          (case mainevents k of
             [] \<Rightarrow> Inr k
           | e # es \<Rightarrow>
             Inr (k\<lparr>ctrl_state := (if evtype e = ALARM_SIG then ALARM
                                   else if evtype e = CTRL_ETH_SIG then RECVU else IDLE),
                    mainevents := es\<rparr>))
      | ALARM \<Rightarrow>
          and_then
            (if adc_done k then
               (let g = kglob k; g = g\<lparr>hw := pin_toggle LED_BLUE (hw g)\<rparr> in
                and_then (store_slot 4 (of_nat (unat (adc_value k))) g)
                  (\<lambda>g. Inr (k\<lparr>adc_done := False, kglob := g\<rparr>)))
             else Inr k)
            (\<lambda>k. Inr (k\<lparr>ctrl_state := IDLE\<rparr>))
      | RECVU \<Rightarrow> Inr (k\<lparr>ctrl_state := IDLE\<rparr>)
      | SENDU \<Rightarrow> Inr k)"

text \<open>One turn of \<open>while(true)\<close>, after \<open>serviceEthernet\<close> (which ends in \<open>ethergate\<close>).\<close>

definition main_loop :: "(nat \<Rightarrow> int) \<Rightarrow> int \<Rightarrow> kernel \<Rightarrow> stop + kernel" where
  "main_loop junk junk' k =
     and_then (with_sweep (sw_serviceEvents junk) (verifymail k)) (\<lambda>k.
     and_then (with_servo (sv_serviceEvents junk') k) (\<lambda>k.
     and_then (with_monitor mo_serviceEvents k) main_switch))"

text \<open>The subscriptions that \<open>main\<close> makes.\<close>

definition boot_subscriptions :: "kernel \<Rightarrow> kernel" where
  "boot_subscriptions k =
     subscribe MONITOR MONITOR_ETH_SIG (subscribe SERVO SERVO_ETH_SIG (subscribe SWEEP SWEEP_ETH_SIG
       (subscribe MAIN ALARM_SIG (subscribe MAIN CTRL_ETH_SIG k))))"

end
