(* ===== verification/KernelProps.thy ===== *)
theory KernelProps
  imports Kernel
begin

text \<open>
  Mail routing, the period of the alarms, the subscription list, and the two invariants
  of the whole machine: the plate motor never exceeds 80 percent, and the status line
  always shows the state.
\<close>

section \<open>Mail routing\<close>

definition booted :: "kernel \<Rightarrow> bool" where
  "booted k = (subscriptions k =
     [obj_code MAIN OR sig_code CTRL_ETH_SIG, obj_code MAIN OR sig_code ALARM_SIG,
      obj_code SWEEP OR sig_code SWEEP_ETH_SIG, obj_code SERVO OR sig_code SERVO_ETH_SIG,
      obj_code MONITOR OR sig_code MONITOR_ETH_SIG])"

lemma boot_booted: "subscriptions k = [] \<Longrightarrow> booted (boot_subscriptions k)"
  by (simp add: booted_def boot_subscriptions_def subscribe_def)

lemma deliver_fold_booted:
  assumes "booted k"
  shows "fold (deliver_to e) (subscriptions k) k =
    (case evtype e of
       CTRL_ETH_SIG \<Rightarrow> k\<lparr>mainevents := mainevents k @ [e]\<rparr>
     | ALARM_SIG \<Rightarrow> k\<lparr>mainevents := mainevents k @ [e]\<rparr>
     | SWEEP_ETH_SIG \<Rightarrow> k\<lparr>ksweep := sw_pushEvent e (ksweep k)\<rparr>
     | SERVO_ETH_SIG \<Rightarrow> k\<lparr>kservo := sv_pushEvent e (kservo k)\<rparr>
     | MONITOR_ETH_SIG \<Rightarrow> k\<lparr>kmonitor := mo_pushEvent e (kmonitor k)\<rparr>
     | _ \<Rightarrow> k)"
  using assms by (cases "evtype e") (simp_all add: booted_def deliver_to_def Let_def)

definition of_type :: "SIGTYPES set \<Rightarrow> event list \<Rightarrow> event list" where
  "of_type ts es = filter (\<lambda>e. evtype e \<in> ts) es"

lemma of_type_simps [simp]:
  "of_type ts [] = []" "of_type ts (e # es) = (if evtype e \<in> ts then e # of_type ts es else of_type ts es)"
  by (simp_all add: of_type_def)

lemma dispatch_booted:
  assumes "booted k"
  shows "booted (dispatch es k) \<and>
    mainevents (dispatch es k) = mainevents k @ of_type {CTRL_ETH_SIG, ALARM_SIG} es \<and>
    ksweep (dispatch es k) = (ksweep k)\<lparr>sw_events := sw_events (ksweep k) @ of_type {SWEEP_ETH_SIG} es\<rparr> \<and>
    kservo (dispatch es k) = (kservo k)\<lparr>sv_events := sv_events (kservo k) @ of_type {SERVO_ETH_SIG} es\<rparr> \<and>
    kmonitor (dispatch es k) = (kmonitor k)\<lparr>mo_events := mo_events (kmonitor k) @ of_type {MONITOR_ETH_SIG} es\<rparr> \<and>
    kglob (dispatch es k) = kglob k"
  using assms
proof (induction es arbitrary: k)
  case Nil
  then show ?case by simp
next
  case (Cons e es)
  let ?k = "fold (deliver_to e) (subscriptions k) k"
  have "subscriptions ?k = subscriptions k"
    unfolding deliver_fold_booted [OF Cons.prems] by (simp split: SIGTYPES.split)
  then have b: "booted ?k" using Cons.prems by (simp add: booted_def)
  show ?case
    using Cons.IH [OF b] Cons.prems
    by (cases "evtype e")
       (simp_all add: deliver_fold_booted sw_pushEvent_def sv_pushEvent_def mo_pushEvent_def)
qed

text \<open>Claim C40: with the subscriptions that \<open>main\<close> makes, \<open>verifymail\<close> empties the post
  office and hands every event to the one object that subscribed to it, once and in the
  order of posting; events nobody subscribed to are dropped.\<close>

theorem mail_is_routed:
  assumes "subscriptions k0 = []" and "k = (boot_subscriptions k0)\<lparr>postoffice := es\<rparr>"
  shows "postoffice (verifymail k) = [] \<and>
    mainevents (verifymail k) = mainevents k @ of_type {CTRL_ETH_SIG, ALARM_SIG} es \<and>
    sw_events (ksweep (verifymail k)) = sw_events (ksweep k) @ of_type {SWEEP_ETH_SIG} es \<and>
    sv_events (kservo (verifymail k)) = sv_events (kservo k) @ of_type {SERVO_ETH_SIG} es \<and>
    mo_events (kmonitor (verifymail k)) = mo_events (kmonitor k) @ of_type {MONITOR_ETH_SIG} es"
proof -
  have "booted k" using boot_booted [OF assms(1)] assms(2) by (simp add: booted_def)
  from dispatch_booted [OF this, of es] assms(2) show ?thesis by (simp add: verifymail_def)
qed

section \<open>Subscriptions\<close>

lemma filter_neq_id: "x \<notin> set xs \<Longrightarrow> filter (\<lambda>y. y \<noteq> x) xs = xs"
  by (induction xs) auto

lemma unsub_from_suffix:
  assumes "i \<le> length subs" "distinct subs" "index \<notin> set (take i subs)"
  shows "unsub_from i index subs = filter (\<lambda>x. x \<noteq> index) subs"
  using assms
proof (induction i index subs rule: unsub_from.induct)
  case (1 i index subs)
  show ?case
  proof (cases "i < length subs")
    case False
    with "1.prems" show ?thesis
      by (subst unsub_from.simps) (auto intro!: filter_True [symmetric])
  next
    case True
    show ?thesis
    proof (cases "subs ! i = index")
      case False
      then have "unsub_from (i + 1) index subs = filter (\<lambda>x. x \<noteq> index) subs"
        using True "1.prems" by (intro "1.IH"(2)) (auto simp: take_Suc_conv_app_nth)
      with True False show ?thesis by (subst unsub_from.simps) simp
    next
      case hit: True
      have split: "subs = take i subs @ index # drop (Suc i) subs"
        using True hit id_take_nth_drop by metis
      then have d: "index \<notin> set (take i subs)" "index \<notin> set (drop (Suc i) subs)"
        using "1.prems"(2) by (metis distinct.simps(2) distinct_append not_distinct_conv_prefix in_set_conv_decomp,
            metis distinct.simps(2) distinct_append)
      let ?r = "take i subs @ drop (Suc i) subs"
      have no: "index \<notin> set ?r" using d by simp
      have gone: "filter (\<lambda>x. x \<noteq> index) subs = ?r"
        using d by (subst split) (simp add: filter_neq_id)
      have rest: "unsub_from j index ?r = ?r" for j
        using no
      proof (induction "length ?r - j" arbitrary: j)
        case 0
        then show ?case by (subst unsub_from.simps) simp
      next
        case (Suc n)
        then have "?r ! j \<noteq> index" by (metis nth_mem zero_less_Suc zero_less_diff)
        with Suc show ?case by (subst unsub_from.simps) simp
      qed
      have "unsub_from i index subs = unsub_from (i + 1) index ?r"
        using True hit by (subst unsub_from.simps) simp
      with rest gone show ?thesis by simp
    qed
  qed
qed

text \<open>\<open>unsubscribe\<close> removes a subscription from a list without repetitions, and
  only it. The index advances after an erase, so of two adjacent copies one stays.\<close>

theorem unsubscribe_spec:
  assumes "distinct (subscriptions k)" and "x = obj_code obj + sig_code sig"
  shows "subscriptions (unsubscribe obj sig k) = filter (\<lambda>y. y \<noteq> x) (subscriptions k) \<and>
         subscriptions (unsubscribe obj sig (k\<lparr>subscriptions := [x, x]\<rparr>)) = [x]"
  using assms
  by (simp add: unsubscribe_def unsub_from_suffix unsub_from.simps [of 0 _ "[_, _]"] unsub_from.simps [of "Suc 0" _ "[_]"])

section \<open>The period of an alarm\<close>

text \<open>
  One alarm on its own: \<open>alarm_after n c a r\<close> is the alarm register and the number of
  events after \<open>n\<close> ticks from counter \<open>c\<close>, as \<open>check_alarm\<close> computes them.
\<close>

lemma count_tick_counter: "bspcounter (kglob (count_tick k)) = bspcounter (kglob k) + 1"
proof -
  have "kglob (check_alarm i k) = kglob k" for i k by (simp add: check_alarm_def publish_def)
  then have "kglob (fold check_alarm is k) = kglob k" for "is" k by (induction "is" arbitrary: k) auto
  then show ?thesis by (simp add: count_tick_def)
qed

definition only_alarm_0 :: "u32 \<Rightarrow> u32 \<Rightarrow> kernel \<Rightarrow> bool" where
  "only_alarm_0 a r k = (alarms k = [a, 0xffffffff, 0xffffffff, 0xffffffff] \<and> reload k = [r, 0, 0, 0])"

lemma max_not_less: "\<not> (0xffffffff :: u32) < n"
proof -
  have "unat n < 2 ^ 32" using unsigned_less [of n] by simp
  then show ?thesis by (simp add: word_less_nat_alt)
qed

lemma funpow_comp: "(f ^^ p) ((f ^^ q) x) = (f ^^ (p + q)) x"
  by (simp add: funpow_add)

lemma count_tick_alarm_0:
  assumes "only_alarm_0 a r k" and "r \<noteq> 0"
  defines "n \<equiv> bspcounter (kglob k) + 1"
  shows "only_alarm_0 (if a < n then n + r else a) r (count_tick k) \<and>
         postoffice (count_tick k) = postoffice k @ (if a < n then [mk_event ALARM_SIG 2 PNull] else [])"
  using assms max_not_less
  by (auto simp: only_alarm_0_def count_tick_def check_alarm_def publish_def upt_rec)

lemma alarm_wait:
  assumes "only_alarm_0 a r k" and "r \<noteq> 0" and "unat (bspcounter (kglob k)) + j \<le> unat a"
  shows "only_alarm_0 a r ((count_tick ^^ j) k) \<and> postoffice ((count_tick ^^ j) k) = postoffice k \<and>
         unat (bspcounter (kglob ((count_tick ^^ j) k))) = unat (bspcounter (kglob k)) + j"
  using assms(3)
proof (induction j)
  case 0
  with assms(1) show ?case by simp
next
  case (Suc j)
  let ?k = "(count_tick ^^ j) k"
  from Suc have IH: "only_alarm_0 a r ?k" "postoffice ?k = postoffice k"
    "unat (bspcounter (kglob ?k)) = unat (bspcounter (kglob k)) + j" by auto
  have "unat a < 2 ^ 32" using unsigned_less [of a] by simp
  with Suc.prems IH(3) have n: "unat (bspcounter (kglob ?k) + 1) = unat (bspcounter (kglob k)) + Suc j"
    by (simp add: unat_word_ariths)
  with Suc.prems have "\<not> a < bspcounter (kglob ?k) + 1" by (simp add: word_less_nat_alt)
  with count_tick_alarm_0 [OF IH(1) assms(2)] IH(2) n show ?case
    by (simp add: count_tick_counter)
qed

lemma alarm_fire:
  assumes "only_alarm_0 a r k" and "r \<noteq> 0" and "unat (bspcounter (kglob k)) + j = unat a"
    and "unat a + 1 + unat r < 2 ^ 32"
  shows "\<exists>a'. only_alarm_0 a' r ((count_tick ^^ Suc j) k) \<and>
         postoffice ((count_tick ^^ Suc j) k) = postoffice k @ [mk_event ALARM_SIG 2 PNull] \<and>
         unat (bspcounter (kglob ((count_tick ^^ Suc j) k))) = unat a + 1 \<and> unat a' = unat a + 1 + unat r"
proof -
  let ?k = "(count_tick ^^ j) k"
  have w: "only_alarm_0 a r ?k" "postoffice ?k = postoffice k" "unat (bspcounter (kglob ?k)) = unat a"
    using alarm_wait [OF assms(1,2), of j] assms(3) by auto
  have n: "unat (bspcounter (kglob ?k) + 1) = unat a + 1"
    using assms(4) w(3) by (simp add: unat_word_ariths)
  then have f: "a < bspcounter (kglob ?k) + 1" by (simp add: word_less_nat_alt)
  have "unat (bspcounter (kglob ?k) + 1 + r) = unat a + 1 + unat r"
    using n assms(4) by (subst unat_word_ariths) simp
  with count_tick_alarm_0 [OF w(1) assms(2)] f n w(2) show ?thesis
    by (auto simp: count_tick_counter)
qed

lemma alarm_periods:
  assumes "only_alarm_0 a r k" and "r \<noteq> 0" and "unat (bspcounter (kglob k)) + j = unat a"
    and "unat a + 1 + unat r + m * (unat r + 1) < 2 ^ 32"
  shows "\<exists>a'. only_alarm_0 a' r ((count_tick ^^ (j + 1 + m * (unat r + 1))) k) \<and>
         postoffice ((count_tick ^^ (j + 1 + m * (unat r + 1))) k) =
           postoffice k @ replicate (m + 1) (mk_event ALARM_SIG 2 PNull) \<and>
         unat (bspcounter (kglob ((count_tick ^^ (j + 1 + m * (unat r + 1))) k))) = unat a + 1 + m * (unat r + 1) \<and>
         unat a' = unat a + 1 + unat r + m * (unat r + 1)"
  using assms(4)
proof (induction m)
  case 0
  with alarm_fire [OF assms(1-3)] show ?case by simp
next
  case (Suc m)
  let ?n = "j + 1 + m * (unat r + 1)" and ?e = "mk_event ALARM_SIG 2 PNull"
  from Suc obtain a' where IH: "only_alarm_0 a' r ((count_tick ^^ ?n) k)"
    "postoffice ((count_tick ^^ ?n) k) = postoffice k @ replicate (m + 1) ?e"
    "unat (bspcounter (kglob ((count_tick ^^ ?n) k))) = unat a + 1 + m * (unat r + 1)"
    "unat a' = unat a + 1 + unat r + m * (unat r + 1)" by auto
  have "unat (bspcounter (kglob ((count_tick ^^ ?n) k))) + unat r = unat a'" using IH(3,4) by simp
  moreover have "unat a' + 1 + unat r < 2 ^ 32" using Suc.prems IH(4) by simp
  ultimately obtain a'' where f: "only_alarm_0 a'' r ((count_tick ^^ Suc (unat r)) ((count_tick ^^ ?n) k))"
    "postoffice ((count_tick ^^ Suc (unat r)) ((count_tick ^^ ?n) k)) = postoffice ((count_tick ^^ ?n) k) @ [?e]"
    "unat (bspcounter (kglob ((count_tick ^^ Suc (unat r)) ((count_tick ^^ ?n) k)))) = unat a' + 1"
    "unat a'' = unat a' + 1 + unat r"
    using alarm_fire [OF IH(1) assms(2)] by metis
  have "Suc (unat r) + ?n = j + 1 + Suc m * (unat r + 1)" by simp
  then have eq: "(count_tick ^^ Suc (unat r)) ((count_tick ^^ ?n) k) =
      (count_tick ^^ (j + 1 + Suc m * (unat r + 1))) k"
    by (simp only: funpow_comp)
  have "replicate (m + 1) ?e @ [?e] = replicate (Suc m + 1) ?e"
    by (simp add: replicate_append_same)
  with f IH(2,4) show ?case unfolding eq by (intro exI [of _ a'']) simp
qed

text \<open>An alarm set for \<open>interval\<close> ticks with reload \<open>r\<close> posts its first event at
  tick \<open>interval + 1\<close> and then one event every \<open>r + 1\<close> ticks: the comparison with the
  counter is strict, so every period is one tick longer than the number given. Stated for
  the one alarm that \<open>main\<close> uses, while the 32-bit counter does not wrap.\<close>

theorem alarm_period:
  assumes "clearAlarms k0 = k1" and "k = setAlarm 0 interval r k1" and "r \<noteq> 0"
    and "unat (bspcounter (kglob k)) + unat interval + (m + 1) * (unat r + 1) < 2 ^ 32"
  shows "postoffice ((count_tick ^^ (unat interval + 1 + m * (unat r + 1))) k) =
           postoffice k @ replicate (m + 1) (mk_event ALARM_SIG 2 PNull) \<and>
         postoffice ((count_tick ^^ (unat interval + m * (unat r + 1))) k) =
           postoffice k @ replicate m (mk_event ALARM_SIG 2 PNull)"
proof -
  let ?a = "bspcounter (kglob k) + interval"
  have o: "only_alarm_0 ?a r k" using assms(1,2)
    by (auto simp: only_alarm_0_def setAlarm_def clearAlarms_def numeral_eq_Suc)
  have a: "unat (bspcounter (kglob k)) + unat interval = unat ?a"
    using assms(4) by (subst unat_word_ariths) simp
  have b: "unat ?a + 1 + unat r + m * (unat r + 1) < 2 ^ 32" using assms(4) a by simp
  have before: "postoffice ((count_tick ^^ (unat interval + m * (unat r + 1))) k) =
      postoffice k @ replicate m (mk_event ALARM_SIG 2 PNull)"
  proof (cases m)
    case 0
    then show ?thesis using alarm_wait [OF o assms(3), of "unat interval"] a by simp
  next
    case (Suc l)
    let ?n = "unat interval + 1 + l * (unat r + 1)"
    obtain a' where p: "only_alarm_0 a' r ((count_tick ^^ ?n) k)"
      "postoffice ((count_tick ^^ ?n) k) = postoffice k @ replicate (l + 1) (mk_event ALARM_SIG 2 PNull)"
      "unat (bspcounter (kglob ((count_tick ^^ ?n) k))) = unat ?a + 1 + l * (unat r + 1)"
      "unat a' = unat ?a + 1 + unat r + l * (unat r + 1)"
      using alarm_periods [OF o assms(3) a, of l] b Suc by auto
    have "postoffice ((count_tick ^^ unat r) ((count_tick ^^ ?n) k)) = postoffice ((count_tick ^^ ?n) k)"
      using alarm_wait [OF p(1) assms(3), of "unat r"] p(3,4) by simp
    moreover have "unat r + ?n = unat interval + m * (unat r + 1)" unfolding Suc by simp
    then have "(count_tick ^^ unat r) ((count_tick ^^ ?n) k) =
        (count_tick ^^ (unat interval + m * (unat r + 1))) k"
      by (simp only: funpow_comp)
    ultimately show ?thesis using p(2) Suc by simp
  qed
  show ?thesis using alarm_periods [OF o assms(3) a b] before by auto
qed

section \<open>The machine as a transition system\<close>

text \<open>
  \<open>keeps g g'\<close>: the plate motor's duty cycle is untouched and the status line is as
  good as it was.
\<close>

definition keeps :: "globals \<Rightarrow> globals \<Rightarrow> bool" where
  "keeps g g' = (duty0 (hw g') = duty0 (hw g) \<and> (status_inv (gstatus g) \<longrightarrow> status_inv (gstatus g')))"

lemma keeps_refl [simp]: "keeps g g"
  by (simp add: keeps_def)

lemma keeps_trans: "keeps g h \<Longrightarrow> keeps h i \<Longrightarrow> keeps g i"
  by (simp add: keeps_def)

lemma keeps_set_flag: "slot < 13 \<Longrightarrow> keeps g h \<Longrightarrow> keeps g (set_flag slot b h)"
  by (auto simp: keeps_def set_flag_inv)

lemma keeps_set_slot: "slot < 10 \<Longrightarrow> keeps g h \<Longrightarrow> keeps g (set_slot slot v h)"
  by (auto simp: keeps_def set_slot_inv)

lemma keeps_set_pin: "keeps g h \<Longrightarrow> keeps g (set_pin p b h)"
  by (simp add: keeps_def)

lemma keeps_hw: "keeps g h \<Longrightarrow> duty0 x = duty0 (hw h) \<Longrightarrow> keeps g (h\<lparr>hw := x\<rparr>)"
  by (simp add: keeps_def)

lemmas keeps_intros = keeps_refl keeps_set_flag keeps_set_slot keeps_set_pin

lemma pin_toggle_pow: "duty0 ((pin_toggle p ^^ n) h) = duty0 h"
  by (induction n) auto

lemma Slide_keeps: "Slide step v (s, g) = Inr (s', g') \<Longrightarrow> keeps g g'"
  by (auto simp: Slide_def and_then_Inr_iff intro!: keeps_intros)

lemma Goto_keeps: "Goto p v (s, g) = Inr (s', g') \<Longrightarrow> keeps g g'"
  by (auto simp: Goto_def Let_def dest: Slide_keeps split: if_splits)

lemma SweepJob_keeps: "SweepJob (s, g) = Inr (s', g') \<Longrightarrow> keeps g g'"
  by (auto simp: SweepJob_def and_then_Inr_iff dest: Goto_keeps split: if_splits)

lemma goto_state_keeps: "goto_state q (s, g) = Inr (s', g') \<Longrightarrow> keeps g g'"
  by (cases q) (auto simp: goto_state_def setState_def TickCallback_def sw_push_def Park_def dest: Slide_keeps)

lemma goto_state_keeps_from:
  "goto_state q (s, h) = Inr (s', g') \<Longrightarrow> keeps g h \<Longrightarrow> keeps g g'"
  using goto_state_keeps keeps_trans by blast

lemma fsm_Tick_keeps: "fsm_Tick (s, g) = Inr (s', g') \<Longrightarrow> keeps g g'"
  by (auto simp: fsm_Tick_def nil_transition_def setState_def dest: goto_state_keeps
      split: option.splits SweepState.splits)

lemma fsm_Park_keeps: "fsm_Park (s, g) = Inr (s', g') \<Longrightarrow> keeps g g'"
  by (auto simp: fsm_Park_def intro!: keeps_intros elim!: goto_state_keeps_from
      split: option.splits SweepState.splits if_splits)

lemma fsm_JobDone_keeps: "fsm_JobDone (s, g) = Inr (s', g') \<Longrightarrow> keeps g g'"
  by (auto simp: fsm_JobDone_def nil_transition_def setState_def intro!: keeps_intros
      elim!: goto_state_keeps_from split: option.splits SweepState.splits if_splits)

lemma sw_command_keeps: "sw_command junk ia (s, g) = Inr (s', g') \<Longrightarrow> keeps g g'"
  by (auto simp: sw_command_def Let_def sw_push_def PulseBurst_def pin_toggle_pow intro!: keeps_intros keeps_hw
      dest: Goto_keeps fsm_Park_keeps split: if_splits)

lemma sw_handle_keeps: "sw_handle junk e (s, g) = Inr (s', g') \<Longrightarrow> keeps g g'"
  by (auto simp: sw_handle_def dest: fsm_Tick_keeps sw_command_keeps fsm_JobDone_keeps SweepJob_keeps
      split: if_splits payload.splits)

lemma sw_serviceEvents_keeps: "sw_serviceEvents junk c = Inr c' \<Longrightarrow> keeps (snd c) (snd c')"
proof (rule swq.service_rel [where R = "\<lambda>c c'. keeps (snd c) (snd c')"])
  fix e c c'
  assume "sw_handle junk e c = Inr c'"
  then show "keeps (snd c) (snd (sw_pop c'))"
    by (cases c; cases c') (auto simp: sw_pop_def dest: sw_handle_keeps)
qed (auto intro: keeps_trans)

lemma sw_serviceBoard_keeps: "sw_serviceBoard (s, g) = Inr (s', g') \<Longrightarrow> keeps g g'"
  by (auto simp: sw_serviceBoard_def sw_push_def Let_def and_then_Inr_iff intro!: keeps_intros
      split: option.splits if_splits)

lemma setPWM_1_duty0 [simp]: "duty0 (setPWM 1 v h) = duty0 h"
  by (simp add: setPWM_def)

lemma mo_command_keeps: "mo_command ia (m, g) = Inr (m', g') \<Longrightarrow> keeps g g'"
  by (auto simp: mo_command_def intro!: keeps_intros keeps_hw split: if_splits)

lemma mo_handle_keeps: "mo_handle e (m, g) = Inr (m', g') \<Longrightarrow> keeps g g'"
  by (auto simp: mo_handle_def dest: mo_command_keeps split: if_splits payload.splits)

lemma mo_serviceEvents_keeps: "mo_serviceEvents c = Inr c' \<Longrightarrow> keeps (snd c) (snd c')"
proof (rule moq.service_rel [where R = "\<lambda>c c'. keeps (snd c) (snd c')"])
  fix e c c'
  assume "mo_handle e c = Inr c'"
  then show "keeps (snd c) (snd (mo_pop c'))"
    by (cases c; cases c') (auto simp: mo_pop_def dest: mo_handle_keeps)
qed (auto intro: keeps_trans)

text \<open>The servo changes the duty cycle, so only its status part is a frame.\<close>

definition line_ok :: "globals \<Rightarrow> globals \<Rightarrow> bool" where
  "line_ok g g' = (status_inv (gstatus g) \<longrightarrow> status_inv (gstatus g'))"

lemma line_ok_refl [simp]: "line_ok g g"
  by (simp add: line_ok_def)

lemma line_ok_trans: "line_ok g h \<Longrightarrow> line_ok h i \<Longrightarrow> line_ok g i"
  by (simp add: line_ok_def)

lemma line_ok_stores:
  "slot < 13 \<Longrightarrow> line_ok g h \<Longrightarrow> line_ok g (set_flag slot b h)"
  "slot < 10 \<Longrightarrow> line_ok g h \<Longrightarrow> line_ok g (set_slot slot v h)"
  "line_ok g h \<Longrightarrow> line_ok g (set_pin p b h)"
  "line_ok g h \<Longrightarrow> line_ok g (h\<lparr>hw := x\<rparr>)"
  by (auto simp: line_ok_def set_flag_inv set_slot_inv)

lemmas line_ok_intros = line_ok_stores line_ok_refl

lemma update_pwm_line: "update_pwm (s, g) = (s', g') \<Longrightarrow> line_ok g g'"
  by (auto simp: update_pwm_def intro!: line_ok_intros split: if_splits)

lemma control_step_line: "control_step (s, g) = Inr (s', g') \<Longrightarrow> line_ok g g'"
  by (auto simp: control_step_def updateServo_def Let_def intro!: line_ok_intros split: if_splits)

lemma sv_serviceBoard_line:
  assumes "sv_serviceBoard (s, g) = Inr (s', g')"
  shows "line_ok g g'"
proof -
  obtain s1 g1 where u: "update_pwm (s, g) = (s1, g1)" by fastforce
  have "g' = g1 \<or> (\<exists>s2. control_step (s2, g1) = Inr (s', g'))"
    using assms u by (auto simp: sv_serviceBoard_def Let_def split: if_splits)
  then show ?thesis using update_pwm_line [OF u] control_step_line line_ok_trans by blast
qed

lemma sv_command_line: "sv_command junk ia (s, g) = Inr (s', g') \<Longrightarrow> line_ok g g'"
  by (auto simp: sv_command_def Let_def intro!: line_ok_intros split: if_splits)

lemma sv_handle_line: "sv_handle junk e (s, g) = Inr (s', g') \<Longrightarrow> line_ok g g'"
  by (auto simp: sv_handle_def dest: sv_command_line sv_Tick_frame split: if_splits payload.splits)

lemma sv_serviceEvents_line: "sv_serviceEvents junk c = Inr c' \<Longrightarrow> line_ok (snd c) (snd c')"
proof (rule svq.service_rel [where R = "\<lambda>c c'. line_ok (snd c) (snd c')"])
  fix e c c'
  assume "sv_handle junk e c = Inr c'"
  then show "line_ok (snd c) (snd (sv_pop c'))"
    by (cases c; cases c') (auto simp: sv_pop_def dest: sv_handle_line)
qed (auto intro: line_ok_trans)

text \<open>
  The steps of the machine: its three interrupts, a message from the network, a turn of
  the main loop, and inputs that change. Each is one step from its first statement to its
  last: an interrupt that comes inside a handler or a turn of the loop is not a behaviour
  of this relation.
\<close>

inductive kstep :: "kernel \<Rightarrow> kernel \<Rightarrow> bool" where
  pit: "PIT0_IRQHandler k = Inr k' \<Longrightarrow> kstep k k'"
| tach_irq: "kstep k (BOARD_TACH_IRQ_HANDLER k)"
| adc: "kstep k (ADC0_IRQHandler v k)"
| gate: "ethergate m k = (m', k') \<Longrightarrow> kstep k k'"
| loop: "main_loop junk junk' k = Inr k' \<Longrightarrow> kstep k k'"
| inputs: "kstep k (k\<lparr>kglob := (kglob k)\<lparr>hw := (hw (kglob k))\<lparr>inputs := f\<rparr>\<rparr>\<rparr>)"

definition kinv :: "kernel \<Rightarrow> bool" where
  "kinv k = (duty_inv (kservo k, kglob k) \<and> status_inv (gstatus (kglob k)))"

lemma kinv_keeps:
  "kinv k \<Longrightarrow> keeps (kglob k) g' \<Longrightarrow> kservo k' = kservo k \<Longrightarrow> kglob k' = g' \<Longrightarrow> kinv k'"
  by (simp add: kinv_def keeps_def duty_inv_def)

lemma with_sweep_kinv:
  "with_sweep f k = Inr k' \<Longrightarrow> (\<And>s g s' g'. f (s, g) = Inr (s', g') \<Longrightarrow> keeps g g') \<Longrightarrow> kinv k \<Longrightarrow> kinv k'"
  by (auto simp: with_sweep_def and_then_Inr_iff intro!: kinv_keeps [where k = k])

lemma with_monitor_kinv:
  "with_monitor f k = Inr k' \<Longrightarrow> (\<And>s g s' g'. f (s, g) = Inr (s', g') \<Longrightarrow> keeps g g') \<Longrightarrow> kinv k \<Longrightarrow> kinv k'"
  by (auto simp: with_monitor_def and_then_Inr_iff intro!: kinv_keeps [where k = k])

lemma with_servo_kinv:
  assumes "with_servo f k = Inr k'" and "\<And>c c'. f c = Inr c' \<Longrightarrow> duty_inv c \<Longrightarrow> duty_inv c'"
    and "\<And>s g s' g'. f (s, g) = Inr (s', g') \<Longrightarrow> line_ok g g'" and "kinv k"
  shows "kinv k'"
proof -
  obtain s g where f: "f (kservo k, kglob k) = Inr (s, g)" and k': "k' = k\<lparr>kservo := s, kglob := g\<rparr>"
    using assms(1) by (auto simp: with_servo_def and_then_Inr_iff)
  have "duty_inv (s, g)" using assms(2) [OF f] assms(4) by (simp add: kinv_def)
  moreover have "status_inv (gstatus g)" using assms(3) [OF f] assms(4) by (simp add: kinv_def line_ok_def)
  ultimately show ?thesis by (simp add: k' kinv_def)
qed

lemma check_alarm_frame: "kglob (check_alarm i k) = kglob k \<and> kservo (check_alarm i k) = kservo k"
  by (simp add: check_alarm_def publish_def)

lemma count_tick_kinv: "kinv k \<Longrightarrow> kinv (count_tick k)"
proof -
  have "kglob (fold check_alarm is k) = kglob k \<and> kservo (fold check_alarm is k) = kservo k" for "is" k
    by (induction "is" arbitrary: k) (auto simp: check_alarm_frame)
  then show "kinv k \<Longrightarrow> kinv (count_tick k)" by (simp add: kinv_def count_tick_def duty_inv_def)
qed

lemma deliver_to_frame:
  "kglob (deliver_to e s k) = kglob k \<and> present_pwm0 (kservo (deliver_to e s k)) = present_pwm0 (kservo k)"
  by (simp add: deliver_to_def Let_def sv_pushEvent_def)

lemma dispatch_frame:
  "kglob (dispatch es k) = kglob k \<and> present_pwm0 (kservo (dispatch es k)) = present_pwm0 (kservo k)"
proof -
  have f: "kglob (fold (deliver_to e) ss k) = kglob k \<and>
      present_pwm0 (kservo (fold (deliver_to e) ss k)) = present_pwm0 (kservo k)" for e ss k
    by (induction ss arbitrary: k) (auto simp: deliver_to_frame)
  show ?thesis by (induction es arbitrary: k) (auto simp: f)
qed

lemma verifymail_kinv: "kinv k \<Longrightarrow> kinv (verifymail k)"
  using dispatch_frame [of "postoffice k" k] by (simp add: kinv_def verifymail_def duty_inv_def)

lemma main_switch_kinv: "main_switch k = Inr k' \<Longrightarrow> kinv k \<Longrightarrow> kinv k'"
  by (auto simp: main_switch_def kinv_def duty_inv_def setAlarm_def Let_def set_slot_inv
      split: CTRLSTATES.splits list.splits if_splits)

lemma main_loop_kinv: "main_loop junk junk' k = Inr k' \<Longrightarrow> kinv k \<Longrightarrow> kinv k'"
proof -
  assume a: "main_loop junk junk' k = Inr k'" "kinv k"
  then obtain k1 k2 k3 where 1: "with_sweep (sw_serviceEvents junk) (verifymail k) = Inr k1"
    and 2: "with_servo (sv_serviceEvents junk') k1 = Inr k2"
    and 3: "with_monitor mo_serviceEvents k2 = Inr k3" and 4: "main_switch k3 = Inr k'"
    by (auto simp: main_loop_def and_then_Inr_iff)
  have "kinv k1" using with_sweep_kinv [OF 1 _ verifymail_kinv [OF a(2)]] sw_serviceEvents_keeps by fastforce
  then have "kinv k2"
    using with_servo_kinv [OF 2] serviceEvents_duty_inv sv_serviceEvents_line by fastforce
  then have "kinv k3" using with_monitor_kinv [OF 3] mo_serviceEvents_keeps by fastforce
  with main_switch_kinv [OF 4] show "kinv k'" by blast
qed

lemma PIT0_kinv: "PIT0_IRQHandler k = Inr k' \<Longrightarrow> kinv k \<Longrightarrow> kinv k'"
proof -
  assume a: "PIT0_IRQHandler k = Inr k'" "kinv k"
  then obtain k1 k2 where 1: "with_sweep sw_serviceBoard k = Inr k1"
    and 2: "with_servo sv_serviceBoard k1 = Inr k2" and 3: "k' = count_tick k2"
    by (auto simp: PIT0_IRQHandler_def and_then_Inr_iff)
  have "kinv k1" using with_sweep_kinv [OF 1 _ a(2)] sw_serviceBoard_keeps by blast
  then have "kinv k2"
    by (rule with_servo_kinv [OF 2 serviceBoard_duty_inv sv_serviceBoard_line, rotated -1])
  then show "kinv k'" by (simp add: 3 count_tick_kinv)
qed

lemma ethergate_frame: "ethergate m k = (m', k') \<Longrightarrow> kglob k' = kglob k \<and> kservo k' = kservo k"
  by (auto simp: ethergate_def publish_def split: if_splits list.splits option.splits)

lemma kstep_kinv: "kstep k k' \<Longrightarrow> kinv k \<Longrightarrow> kinv k'"
proof (induction rule: kstep.induct)
  case (pit k k')
  then show ?case by (rule PIT0_kinv)
next
  case (gate m k m' k')
  then show ?case using ethergate_frame [of m k m' k'] by (simp add: kinv_def)
next
  case (loop junk junk' k k')
  then show ?case by (rule main_loop_kinv)
qed (simp_all add: kinv_def duty_inv_def BOARD_TACH_IRQ_HANDLER_def ADC0_IRQHandler_def)


text \<open>Claim C0: a store that is interrupted can leave the status line wrong for good.
  The main loop (\<open>SERVO_SETSPEED\<close>) and the PIT interrupt (\<open>serviceBoard\<close>) both store
  the servo's speed. When the main loop has stored its value \<open>v\<close> but not yet its text,
  and the interrupt stores another value \<open>w\<close> whose text differs, the slot ends with
  \<open>w\<close> and the line with the text of \<open>v\<close>; and storing \<open>w\<close> again, as every later
  interrupt at the same speed does, changes nothing, for the value is already there.\<close>

theorem interrupted_store_tears:
  assumes "status_inv st" and "slot < 10" and "v \<noteq> w"
    and "take 11 (slot_text v) \<noteq> take 11 (slot_text w)"
    and "storeMonitorSlot slot w (store_value slot v st) = Inr interrupted"
  shows "statusvals (show_value slot v interrupted) ! slot = w \<and>
    (\<forall>k < 11. status_stream (show_value slot v interrupted) ! (11 * slot + k) = slot_text v ! k) \<and>
    \<not> slot_shown (show_value slot v interrupted) slot \<and>
    storeMonitorSlot slot w (show_value slot v interrupted) = Inr (show_value slot v interrupted)"
proof -
  have sh: "status_shape st" using assms(1) by (simp add: status_inv_def)
  then have len: "length (statusvals st) = 10" "length (status_stream st) = 150"
    by (auto simp: status_shape_def)
  have i: "interrupted = show_value slot w (store_value slot w st)"
    using assms(2,3,5) len by (auto simp: storeMonitorSlot_halves store_value_def)
  have w: "statusvals (show_value slot v interrupted) ! slot = w"
    using assms(2) len by (simp add: i show_value_def store_value_def)
  have v: "status_stream (show_value slot v interrupted) ! (11 * slot + k) = slot_text v ! k"
    if "k < 11" for k
    using that assms(2) len slot_text_ge_11 [of v] slot_text_ge_11 [of w]
    by (simp add: i show_value_def store_value_def nth_blit min_def)
  have "take 11 (slot_text v) = take 11 (slot_text w)" if "\<forall>k < 11. slot_text v ! k = slot_text w ! k"
    using that slot_text_ge_11 [of v] slot_text_ge_11 [of w] by (intro nth_equalityI) auto
  with assms(4) have "\<not> slot_shown (show_value slot v interrupted) slot"
    by (auto simp: slot_shown_def w v)
  moreover have "storeMonitorSlot slot w (show_value slot v interrupted) = Inr (show_value slot v interrupted)"
    using assms(2) w by (simp add: storeMonitorSlot_halves)
  ultimately show ?thesis using w v by simp
qed

end
