(* ===== verification/Witnesses.thy ===== *)
theory Witnesses
  imports KernelProps
begin

text \<open>
  A concrete machine, and for every property of the drivers and of the main program that
  has hypotheses a run of it that satisfies them.
\<close>

section \<open>A concrete machine\<close>

definition ex_hw :: hardware where
  "ex_hw = \<lparr>pins = (\<lambda>_. False), inputs = (\<lambda>_. 0), duty0 = 0, duty1 = 0\<rparr>"

definition ex_g :: globals where
  "ex_g = \<lparr>bspcounter = 7, gstatus = projr (initStatus status_bss), hw = ex_hw\<rparr>"

definition ex_sweep :: sweep where
  "ex_sweep = \<lparr>sw_state = Some Idle, sw_events = [], sweepmap = replicate 4000 255,
     sweepmapptr = 2000, sweeppos = 2000, pulsegap = 0, sw_enable = False, outdir = False,
     pulse = True, intap = 0, outtap = 0, parked = False, parkedptr = None,
     sweepjob_in = 0, sweepjob_out = 0, sweepjob_speed = 0, sweepjob_outdir = False,
     sweepjob_enabled = False\<rparr>"

definition ex_servo :: servo where
  "ex_servo = \<lparr>sv_state = Some SvColdStart, sv_events = [],
     svctl = \<lparr>dState = 0, iState = 0, iMax = 300, iMin = - 300, iGain = - 1/2, pGain = - 1/5, dGain = 1/10\<rparr>,
     servotransfer = \<lparr>a0 = 19, a1 = 7/5, a2 = - 1/200\<rparr>, enable_servo = False,
     present_pwm0 = 1, request_pwm0 = 1, last_tach = 0, this_tach = 0,
     tachbuffer = replicate 5 0, tachbufferptr = 0, updatetach_flag = 0, tachval = 0, speed = 0,
     tach_theta = 0, servo_setpoint = 0, updatestatus = False\<rparr>"

definition ex_monitor :: monitor where
  "ex_monitor = \<lparr>mo_events = [], wg20_cw = False, drum = False, vaccum = False, wg20pwm = 0\<rparr>"

definition ex_kernel :: kernel where
  "ex_kernel = \<lparr>kglob = ex_g, ksweep = ex_sweep, kservo = ex_servo, kmonitor = ex_monitor,
     subscriptions = [], postoffice = [], mainevents = [], message_out = [],
     alarms = replicate 4 0, reload = replicate 4 0, ctrl_state = INIT, adc_done = False, adc_value = 0\<rparr>"

text \<open>A message with command \<open>c\<close>, argument \<open>a\<close> and data \<open>d\<close>.\<close>

definition ex_msg :: "u8 \<Rightarrow> u8 \<Rightarrow> u8 list \<Rightarrow> antares_msg" where
  "ex_msg c a d = \<lparr>csum = 0, msg_size = 0, tstamp = [0, 0, 0], cmd = c, arg = a, seq = [0, 0],
     orig = 0, dest = 0, magic = 0, data = d\<rparr>"

lemma ex_at_rest: "at_rest ex_sweep"
  by (simp add: at_rest_def ex_sweep_def)

lemma ex_initStatus: "initStatus status_bss = Inr (gstatus ex_g)"
  using initStatus_inv [of status_bss]
  by (auto simp: ex_g_def status_shape_def status_bss_def)

lemma ex_g_simps [simp]: "bspcounter ex_g = 7" "duty0 (hw ex_g) = 0"
  by (simp_all add: ex_g_def ex_hw_def)

section \<open>Sweep\<close>

theorem goto_arrives_witness:
  "\<exists>c s' g'. Goto 2300 4 (ex_sweep, ex_g) = Inr c \<and>
     sw_ticks (nat \<bar>2300 - sweeppos ex_sweep\<bar> * (2 * (nat 4 + 1))) c = Inr (s', g') \<and>
     sweeppos s' = 2300 \<and> at_rest s'"
  by (rule goto_arrives) (simp_all add: ex_at_rest)

theorem goto_off_map_faults_witness: "Goto 5000 4 (ex_sweep, ex_g) = Inl Fault"
  by (rule goto_off_map_faults) (simp_all add: ex_at_rest)

theorem search_never_ends_witness:
  "sw_step\<^sup>*\<^sup>* (ex_sweep\<lparr>sw_state := Some searchIn\<rparr>, ex_g)
     (sense ex_g (ex_sweep\<lparr>sw_state := Some searchIn\<rparr>), set_flag 1 (sensor_flag ex_sweep ex_g) ex_g) \<and>
   sw_state (sense ex_g (ex_sweep\<lparr>sw_state := Some searchIn\<rparr>)) = Some searchIn"
proof -
  let ?s = "ex_sweep\<lparr>sw_state := Some searchIn\<rparr>"
  have "sw_serviceBoard (?s, ex_g) = Inr (sense ex_g ?s, set_flag 1 (sensor_flag ex_sweep ex_g) ex_g)"
    by (simp add: sw_serviceBoard_def ex_sweep_def sensor_flag_def)
  then have r: "sw_step\<^sup>*\<^sup>* (?s, ex_g) (sense ex_g ?s, set_flag 1 (sensor_flag ex_sweep ex_g) ex_g)"
    by (blast intro: sw_step.intros)
  moreover have "sw_state (sense ex_g ?s) = Some searchIn"
    by (rule search_never_ends [OF _ _ _ r]) (simp_all add: ex_sweep_def)
  ultimately show ?thesis by blast
qed

theorem second_park_throws_witness:
  "\<exists>c. sw_command (\<lambda>_. 0) (ex_msg SWEEP_PARK 0 [])
      (ex_sweep, ex_g\<lparr>hw := ex_hw\<lparr>inputs := (\<lambda>_. 1)\<rparr>\<rparr>) = Inr c \<and>
    sw_command (\<lambda>_. 0) (ex_msg SWEEP_PARK 0 []) c = Inl (TransitionUndefined ''Adm::searchOut'')"
proof -
  let ?g = "ex_g\<lparr>hw := ex_hw\<lparr>inputs := (\<lambda>_. 1)\<rparr>\<rparr>" and ?ia = "ex_msg SWEEP_PARK 0 []"
  obtain s' g' where c: "sw_command (\<lambda>_. 0) ?ia (ex_sweep, ?g) = Inr (s', g')"
    by (auto simp: sw_command_def ex_msg_def fsm_Park_def ex_sweep_def taps_clear_def ex_hw_def goto_state_def
        setState_def Slide_def sense_def arr_set_def)
  have "sw_command (\<lambda>_. 0) ?ia (s', g') = Inl (TransitionUndefined ''Adm::searchOut'')"
    using second_park_throws [OF _ _ _ c] by (simp add: ex_sweep_def ex_msg_def)
  with c show ?thesis by blast
qed

section \<open>Servo\<close>


definition ex_running :: servo where
  "ex_running = ex_servo\<lparr>servo_setpoint := 40, svctl := (svctl ex_servo)\<lparr>iState := 900\<rparr>\<rparr>"

lemma control_step_total: "\<exists>s' g'. control_step (s, g) = Inr (s', g')"
  by (simp add: control_step_def updateServo_def Let_def)

theorem control_step_bounded_witness:
  "\<exists>s' g'. control_step (ex_running, ex_g) = Inr (s', g') \<and> iState (svctl s') \<le> 300 \<and> request_pwm0 s' \<le> 80"
proof -
  obtain s' g' where c: "control_step (ex_running, ex_g) = Inr (s', g')"
    using control_step_total by blast
  have m: "iMax (svctl s') = 300"
    using c by (auto simp: control_step_def updateServo_def Let_def ex_running_def ex_servo_def split: if_splits)
  from control_step_bounded [OF c] m c show ?thesis
    by (fastforce simp: ex_running_def ex_servo_def)
qed

theorem plate_duty_bounded_witness:
  "duty0 (hw (snd (sv_pushEvent (mk_event SERVO_ETH_SIG 1 (PMsg (ex_msg SERVO_SETPWM 1 [57, 57])))
      (fst (Servo_new (ex_servo, ex_g))), snd (Servo_new (ex_servo, ex_g))))) \<le> 80"
proof -
  obtain s g where n: "Servo_new (ex_servo, ex_g) = (s, g)" by fastforce
  have "sv_step\<^sup>*\<^sup>* (Servo_new (ex_servo, ex_g))
      (sv_pushEvent (mk_event SERVO_ETH_SIG 1 (PMsg (ex_msg SERVO_SETPWM 1 [57, 57]))) s, g)"
    unfolding n by (blast intro: sv_step.intros)
  from plate_duty_bounded [OF _ this] n show ?thesis by simp
qed

theorem disable_stops_motor_witness:
  "\<exists>c1 s' g'. sv_command 0 (ex_msg SERVO_ENABLE 0 []) (Servo_new (ex_servo, ex_g)) = Inr c1 \<and>
     sv_serviceBoard c1 = Inr (s', g') \<and> duty0 (hw g') = 0"
proof -
  obtain s g where n: "Servo_new (ex_servo, ex_g) = (s, g)" by fastforce
  then have r: "sv_step\<^sup>*\<^sup>* (Servo_new (ex_servo, ex_g)) (s, g)" by simp
  obtain s1 g1 where c1: "sv_command 0 (ex_msg SERVO_ENABLE 0 []) (s, g) = Inr (s1, g1)"
    by (simp add: sv_command_def ex_msg_def)
  obtain s2 g2 where c2: "sv_serviceBoard (s1, g1) = Inr (s2, g2)"
    using control_step_total by (cases "update_pwm (s1, g1)") (fastforce simp: sv_serviceBoard_def Let_def)
  from disable_stops_motor [OF _ r _ _ c1 c2 rtranclp.rtrancl_refl] n c1 c2 show ?thesis
    by (auto simp: ex_msg_def)
qed

theorem fifth_pulse_overruns_witness:
  "\<exists>s4. s4 = fold serviceTach [100, 200, 300, 400] (clearTachBuffer 7 ex_servo) \<and>
     tachbufferptr (serviceTach 500 s4) = 100"
proof -
  define s4 where "s4 = fold serviceTach [100, 200, 300, 400] (clearTachBuffer 7 ex_servo)"
  have "this_tach (serviceTach 500 s4) = 100"
    by (simp add: s4_def serviceTach_def tach_store_def tach_index_def clearTachBuffer_def Let_def)
  with fifth_pulse_overruns [OF s4_def, of 500] have "tachbufferptr (serviceTach 500 s4) = 100" by simp
  with s4_def show ?thesis by blast
qed

theorem enable_clobbers_last_tach_witness:
  "\<exists>s' g'. sv_command 0 (ex_msg SERVO_ENABLE 1 [52, 50, 0]) (ex_servo, ex_g) = Inr (s', g') \<and>
     request_pwm0 s' = 42 \<and> last_tach s' = 0"
proof -
  have sc: "sscanf_d 1 (data (ex_msg SERVO_ENABLE 1 [52, 50, 0])) = [42]" by code_simp
  obtain s' g' where c: "sv_command 0 (ex_msg SERVO_ENABLE 1 [52, 50, 0]) (ex_servo, ex_g) = Inr (s', g')"
    by (simp add: sv_command_def ex_msg_def Let_def)
  from enable_clobbers_last_tach [OF _ _ sc _ _ c] c show ?thesis by (simp add: ex_msg_def)
qed

section \<open>Monitor and main program\<close>

theorem drum_commands_toggle_witness:
  "\<exists>c1 m2 g2. mo_command (ex_msg MON_SETDRUM 1 []) (ex_monitor, ex_g) = Inr c1 \<and>
     mo_command (ex_msg MON_SETDRUM 1 []) c1 = Inr (m2, g2) \<and> drum m2 \<and>
     pins (hw g2) DRUM_ENABLE = pins (hw ex_g) DRUM_ENABLE"
proof -
  obtain c1 where 1: "mo_command (ex_msg MON_SETDRUM 1 []) (ex_monitor, ex_g) = Inr c1"
    by (simp add: mo_command_def ex_msg_def)
  obtain m2 g2 where 2: "mo_command (ex_msg MON_SETDRUM 1 []) c1 = Inr (m2, g2)"
    by (cases c1) (simp add: mo_command_def ex_msg_def)
  from drum_commands_toggle [OF _ 1 2] 1 2 show ?thesis by (auto simp: ex_msg_def)
qed

theorem mail_is_routed_witness:
  "mainevents (verifymail ((boot_subscriptions ex_kernel)\<lparr>postoffice :=
      [mk_event SWEEP_ETH_SIG 1 PNull, mk_event ALARM_SIG 2 PNull]\<rparr>)) = [mk_event ALARM_SIG 2 PNull]"
  using mail_is_routed [of ex_kernel _ "[mk_event SWEEP_ETH_SIG 1 PNull, mk_event ALARM_SIG 2 PNull]"]
  by (simp add: ex_kernel_def boot_subscriptions_def subscribe_def of_type_def)

theorem unsubscribe_spec_witness:
  "subscriptions (unsubscribe SWEEP SWEEP_ETH_SIG
     (ex_kernel\<lparr>subscriptions := [1, obj_code SWEEP + sig_code SWEEP_ETH_SIG, 2]\<rparr>)) = [1, 2]"
  using unsubscribe_spec [of "ex_kernel\<lparr>subscriptions := [1, obj_code SWEEP + sig_code SWEEP_ETH_SIG, 2]\<rparr>"]
  by simp

theorem alarm_period_witness:
  "postoffice ((count_tick ^^ 303) (setAlarm 0 100 100 (clearAlarms ex_kernel))) =
     replicate 3 (mk_event ALARM_SIG 2 PNull)"
  using alarm_period [of ex_kernel "clearAlarms ex_kernel" "setAlarm 0 100 100 (clearAlarms ex_kernel)" 100 100 2]
  by (simp add: setAlarm_def clearAlarms_def ex_kernel_def)


theorem interrupted_store_tears_witness:
  "\<exists>st st'. storeMonitorSlot 0 12 (store_value 0 7 st) = Inr st' \<and>
     statusvals (show_value 0 7 st') ! 0 = 12 \<and> \<not> slot_shown (show_value 0 7 st') 0"
proof -
  obtain st where st: "initStatus status_bss = Inr st" using ex_initStatus by blast
  have inv: "status_inv st"
    using initStatus_inv [of status_bss] st by (auto simp: status_shape_def status_bss_def)
  obtain st' where st': "storeMonitorSlot 0 12 (store_value 0 7 st) = Inr st'"
    using storeMonitorSlot_total [of 0 12 "store_value 0 7 st"] by auto
  have "take 11 (slot_text 7) \<noteq> take 11 (slot_text 12)" by code_simp
  from interrupted_store_tears [OF inv _ _ this st'] st' show ?thesis by (intro exI [of _ st] exI [of _ st']) simp
qed

end
