(* ===== verification/Mem.thy ===== *)
theory Mem
  imports Prelude "HOL-Library.Monad_Syntax"
begin

text \<open>
  The heap of the network stack, \<open>lwip/src/core/mem.c\<close>, with the configuration of
  \<open>lwip/port/lwipopts.h\<close>: \<open>MEM_SIZE\<close> 6144, \<open>MEM_ALIGNMENT\<close> 4, no operating system
  (the mutex and protection macros are empty), \<open>mem_size_t\<close> of 16 bits, no statistics.

  Addresses are byte offsets from the aligned start \<open>ram\<close> of the heap. Only the block
  headers are modelled, one \<open>struct mem\<close> at each offset; the bytes that callers keep in
  their blocks are not. A failing \<open>LWIP_ASSERT\<close> ends in \<open>sys_assert\<close>, which
  never returns: a call that does not return is \<open>None\<close>.
\<close>

section \<open>Assertions\<close>

definition lwip_assert :: "bool \<Rightarrow> unit option" where
  "lwip_assert b = (if b then Some () else None)"

lemma lwip_assert_bind [simp]: "Option.bind (lwip_assert b) f = (if b then f () else None)"
  by (simp add: lwip_assert_def)

section \<open>Block headers\<close>

record struct_mem =
  mnext :: nat     \<comment> \<open>offset of the next header\<close>
  mprev :: nat     \<comment> \<open>offset of the previous header\<close>
  mused :: bool

record heap =
  ram :: "nat \<Rightarrow> struct_mem"
  lfree :: nat     \<comment> \<open>offset of the lowest free block, \<open>ram_end\<close> if there is none\<close>

text \<open>\<open>sizeof(struct mem)\<close> is 6, aligned to 8. \<open>ram_end\<close> is the offset \<open>MEM_SIZE_ALIGNED\<close>.\<close>

abbreviation SIZEOF_STRUCT_MEM :: nat where "SIZEOF_STRUCT_MEM \<equiv> 8"
abbreviation MIN_SIZE_ALIGNED :: nat where "MIN_SIZE_ALIGNED \<equiv> 12"
abbreviation MEM_SIZE_ALIGNED :: nat where "MEM_SIZE_ALIGNED \<equiv> 6144"

text \<open>\<open>LWIP_MEM_ALIGN_SIZE\<close> stored back into a \<open>mem_size_t\<close>.\<close>

definition align_size :: "nat \<Rightarrow> nat" where
  "align_size n = trunc16 ((n + 3) div 4 * 4)"

text \<open>Subtraction in \<open>size_t\<close>, to which the header size takes the expressions it is in.\<close>

definition sub32 :: "nat \<Rightarrow> nat \<Rightarrow> nat" where
  "sub32 a b = nat ((int a - int b) mod 2 ^ 32)"

definition upd :: "nat \<Rightarrow> (struct_mem \<Rightarrow> struct_mem) \<Rightarrow> heap \<Rightarrow> heap" where
  "upd p f h = h\<lparr>ram := (ram h)(p := f (ram h p))\<rparr>"

section \<open>Operations\<close>

definition plug_forward :: "nat \<Rightarrow> heap \<Rightarrow> heap" where
  "plug_forward mem h =
     (let nmem = mnext (ram h mem) in
      if mem \<noteq> nmem \<and> \<not> mused (ram h nmem) \<and> nmem \<noteq> MEM_SIZE_ALIGNED then
        let next = mnext (ram h nmem);
            h = (if lfree h = nmem then h\<lparr>lfree := mem\<rparr> else h);
            h = upd mem (\<lambda>m. m\<lparr>mnext := next\<rparr>) h
        in upd next (\<lambda>m. m\<lparr>mprev := mem\<rparr>) h
      else h)"

definition plug_backward :: "nat \<Rightarrow> heap \<Rightarrow> heap" where
  "plug_backward mem h =
     (let pmem = mprev (ram h mem) in
      if pmem \<noteq> mem \<and> \<not> mused (ram h pmem) then
        let next = mnext (ram h mem);
            h = (if lfree h = mem then h\<lparr>lfree := pmem\<rparr> else h);
            h = upd pmem (\<lambda>m. m\<lparr>mnext := next\<rparr>) h
        in upd next (\<lambda>m. m\<lparr>mprev := pmem\<rparr>) h
      else h)"

definition plug_holes :: "nat \<Rightarrow> heap \<Rightarrow> heap option" where
  "plug_holes mem h = do {
     lwip_assert (mem < MEM_SIZE_ALIGNED);
     lwip_assert (\<not> mused (ram h mem));
     lwip_assert (mnext (ram h mem) \<le> MEM_SIZE_ALIGNED);
     Some (plug_backward mem (plug_forward mem h))
   }"

definition mem_init :: "heap \<Rightarrow> heap" where
  "mem_init h =
     (let h = upd 0 (\<lambda>_. \<lparr>mnext = MEM_SIZE_ALIGNED, mprev = 0, mused = False\<rparr>) h;
          h = upd MEM_SIZE_ALIGNED (\<lambda>_. \<lparr>mnext = MEM_SIZE_ALIGNED, mprev = MEM_SIZE_ALIGNED, mused = True\<rparr>) h
      in h\<lparr>lfree := 0\<rparr>)"

text \<open>
  \<open>None\<close> as an argument is the null pointer. Below offset 8 the header would lie before
  the heap.
\<close>

definition mem_free :: "int option \<Rightarrow> heap \<Rightarrow> heap option" where
  "mem_free rmem h =
     (case rmem of
        None \<Rightarrow> Some h
      | Some r \<Rightarrow> do {
          lwip_assert (r mod 4 = 0);
          lwip_assert (0 \<le> r \<and> r < int MEM_SIZE_ALIGNED);
          (if r < int SIZEOF_STRUCT_MEM then None else do {
             let mem = nat r - SIZEOF_STRUCT_MEM;
             lwip_assert (mused (ram h mem));
             let h = upd mem (\<lambda>m. m\<lparr>mused := False\<rparr>) h;
             plug_holes mem (if mem < lfree h then h\<lparr>lfree := mem\<rparr> else h)
           })
        })"

definition mem_trim :: "int \<Rightarrow> nat \<Rightarrow> heap \<Rightarrow> (int option \<times> heap) option" where
  "mem_trim rmem newsize h =
     (let newsize = align_size newsize;
          newsize = (if newsize < MIN_SIZE_ALIGNED then MIN_SIZE_ALIGNED else newsize)
      in if newsize > MEM_SIZE_ALIGNED then Some (None, h)
      else do {
        lwip_assert (0 \<le> rmem \<and> rmem < int MEM_SIZE_ALIGNED);
        (if rmem < int SIZEOF_STRUCT_MEM then None else do {
           let ptr = nat rmem - SIZEOF_STRUCT_MEM;
           let sz = trunc16 (sub32 (mnext (ram h ptr)) (ptr + SIZEOF_STRUCT_MEM));
           lwip_assert (newsize \<le> sz);
           (if newsize = sz then Some (Some rmem, h) else
              let mem2 = mnext (ram h ptr); ptr2 = trunc16 (ptr + SIZEOF_STRUCT_MEM + newsize) in
              if \<not> mused (ram h mem2) then
                let next = mnext (ram h mem2);
                    h = (if lfree h = mem2 then h\<lparr>lfree := ptr2\<rparr> else h);
                    h = upd ptr2 (\<lambda>m. \<lparr>mnext = next, mprev = ptr, mused = False\<rparr>) h;
                    h = upd ptr (\<lambda>m. m\<lparr>mnext := ptr2\<rparr>) h
                in Some (Some rmem,
                     if next \<noteq> MEM_SIZE_ALIGNED then upd next (\<lambda>m. m\<lparr>mprev := ptr2\<rparr>) h else h)
              else if newsize + SIZEOF_STRUCT_MEM + MIN_SIZE_ALIGNED \<le> sz then
                let next = mnext (ram h ptr);
                    h = (if ptr2 < lfree h then h\<lparr>lfree := ptr2\<rparr> else h);
                    h = upd ptr2 (\<lambda>m. \<lparr>mnext = next, mprev = ptr, mused = False\<rparr>) h;
                    h = upd ptr (\<lambda>m. m\<lparr>mnext := ptr2\<rparr>) h
                in Some (Some rmem,
                     if next \<noteq> MEM_SIZE_ALIGNED then upd next (\<lambda>m. m\<lparr>mprev := ptr2\<rparr>) h else h)
              else Some (Some rmem, h))
         })
      })"

text \<open>The search loop of \<open>mem_malloc\<close>; the inner result is \<open>None\<close> when no block fits.\<close>

partial_function (option) find_fit :: "(nat \<Rightarrow> struct_mem) \<Rightarrow> nat \<Rightarrow> nat \<Rightarrow> nat option option" where
  "find_fit H sz ptr =
     (if ptr < MEM_SIZE_ALIGNED - sz
      then if \<not> mused (H ptr) \<and> sz \<le> sub32 (mnext (H ptr)) (ptr + SIZEOF_STRUCT_MEM)
           then Some (Some ptr)
           else find_fit H sz (mnext (H ptr))
      else Some None)"

text \<open>The loop that looks for the next free block after the lowest one is taken.\<close>

partial_function (option) next_free :: "(nat \<Rightarrow> struct_mem) \<Rightarrow> nat \<Rightarrow> nat option" where
  "next_free H cur =
     (if mused (H cur) \<and> cur \<noteq> MEM_SIZE_ALIGNED then next_free H (mnext (H cur)) else Some cur)"

definition take_block :: "nat \<Rightarrow> nat \<Rightarrow> heap \<Rightarrow> heap" where
  "take_block sz ptr h =
     (if sz + SIZEOF_STRUCT_MEM + MIN_SIZE_ALIGNED \<le> sub32 (mnext (ram h ptr)) (ptr + SIZEOF_STRUCT_MEM)
      then let ptr2 = trunc16 (ptr + SIZEOF_STRUCT_MEM + sz);
               next = mnext (ram h ptr);
               h = upd ptr2 (\<lambda>m. \<lparr>mnext = next, mprev = ptr, mused = False\<rparr>) h;
               h = upd ptr (\<lambda>m. m\<lparr>mnext := ptr2, mused := True\<rparr>) h
           in if next \<noteq> MEM_SIZE_ALIGNED then upd next (\<lambda>m. m\<lparr>mprev := ptr2\<rparr>) h else h
      else upd ptr (\<lambda>m. m\<lparr>mused := True\<rparr>) h)"

definition mem_malloc :: "nat \<Rightarrow> heap \<Rightarrow> (int option \<times> heap) option" where
  "mem_malloc sz h =
     (if sz = 0 then Some (None, h) else
      let sz = align_size sz;
          sz = (if sz < MIN_SIZE_ALIGNED then MIN_SIZE_ALIGNED else sz)
      in if sz > MEM_SIZE_ALIGNED then Some (None, h)
      else do {
        fit \<leftarrow> find_fit (ram h) sz (lfree h);
        (case fit of
           None \<Rightarrow> Some (None, h)
         | Some ptr \<Rightarrow> do {
             let h = take_block sz ptr h;
             h \<leftarrow> (if ptr = lfree h then do {
                      cur \<leftarrow> next_free (ram h) (lfree h);
                      lwip_assert (cur = MEM_SIZE_ALIGNED \<or> \<not> mused (ram h cur));
                      Some (h\<lparr>lfree := cur\<rparr>)
                    } else Some h);
             lwip_assert (ptr + SIZEOF_STRUCT_MEM + sz \<le> MEM_SIZE_ALIGNED);
             lwip_assert ((ptr + SIZEOF_STRUCT_MEM) mod 4 = 0);
             lwip_assert (ptr mod 4 = 0);
             Some (Some (int (ptr + SIZEOF_STRUCT_MEM)), h)
           })
      })"

text \<open>
  \<open>mem_calloc\<close> hands \<open>count * size\<close> to \<open>mem_malloc\<close>, which truncates it to 16 bits, and
  to \<open>memset\<close>, which does not: the third result is how many bytes are zeroed from the
  block on.
\<close>

definition mem_calloc :: "nat \<Rightarrow> nat \<Rightarrow> heap \<Rightarrow> (int option \<times> heap \<times> nat) option" where
  "mem_calloc count sz h = do {
     (p, h) \<leftarrow> mem_malloc (trunc16 (count * sz)) h;
     Some (p, h, if p = None then 0 else count * sz)
   }"

end
