(* ===== verification/Allocator.thy ===== *)
theory Allocator
  imports Mem
begin

text \<open>
  The contract that the stack's two allocators, the heap and the pools, share: which
  blocks are handed out, what an allocation adds and a release takes away. The clients'
  loops (a chain of buffers allocated and released one by one) are proved on it once.
\<close>

section \<open>Loops over an allocator\<close>

fun release_all :: "('p \<Rightarrow> 'h \<Rightarrow> 'h option) \<Rightarrow> 'p list \<Rightarrow> 'h \<Rightarrow> 'h option" where
  "release_all rel [] h = Some h"
| "release_all rel (p # ps) h = Option.bind (rel p h) (release_all rel ps)"

text \<open>Up to \<open>n\<close> allocations, ending at the first that fails.\<close>

fun alloc_many :: "('h \<Rightarrow> ('p option \<times> 'h) option) \<Rightarrow> nat \<Rightarrow> 'h \<Rightarrow> ('p list \<times> 'h) option" where
  "alloc_many al 0 h = Some ([], h)"
| "alloc_many al (Suc n) h =
     (case al h of
        None \<Rightarrow> None
      | Some (None, h) \<Rightarrow> Some ([], h)
      | Some (Some p, h) \<Rightarrow> map_option (\<lambda>(ps, h). (p # ps, h)) (alloc_many al n h))"

section \<open>The interface\<close>

locale allocator =
  fixes holds :: "'h \<Rightarrow> 'p set \<Rightarrow> bool"
    and alloc :: "'h \<Rightarrow> ('p option \<times> 'h) option"
    and release :: "'p \<Rightarrow> 'h \<Rightarrow> 'h option"
  assumes alloc_returns: "holds h L \<Longrightarrow> \<exists>r h'. alloc h = Some (r, h')"
    and alloc_null: "holds h L \<Longrightarrow> alloc h = Some (None, h') \<Longrightarrow> holds h' L"
    and alloc_fresh: "holds h L \<Longrightarrow> alloc h = Some (Some p, h') \<Longrightarrow> p \<notin> L \<and> holds h' (insert p L)"
    and release_ok: "holds h L \<Longrightarrow> p \<in> L \<Longrightarrow> \<exists>h'. release p h = Some h' \<and> holds h' (L - {p})"
begin

lemma release_all_ok:
  "holds h L \<Longrightarrow> distinct ps \<Longrightarrow> set ps \<subseteq> L \<Longrightarrow>
   \<exists>h'. release_all release ps h = Some h' \<and> holds h' (L - set ps)"
proof (induction ps arbitrary: h L)
  case (Cons p ps)
  then obtain h1 where 1: "release p h = Some h1" "holds h1 (L - {p})" using release_ok by fastforce
  have "set ps \<subseteq> L - {p}" using Cons.prems by auto
  from Cons.IH [OF 1(2) _ this] Cons.prems obtain h2
    where "release_all release ps h1 = Some h2" "holds h2 (L - {p} - set ps)" by auto
  with 1 show ?case by (auto simp: Diff_insert2 [symmetric])
qed simp

lemma alloc_many_ok:
  "holds h L \<Longrightarrow>
   \<exists>ps h'. alloc_many alloc n h = Some (ps, h') \<and> distinct ps \<and> set ps \<inter> L = {} \<and>
     holds h' (set ps \<union> L) \<and> length ps \<le> n"
proof (induction n arbitrary: h L)
  case (Suc n)
  obtain r h1 where a: "alloc h = Some (r, h1)" using alloc_returns [OF Suc.prems] by blast
  show ?case
  proof (cases r)
    case None
    with a alloc_null [OF Suc.prems] show ?thesis by simp
  next
    case (Some p)
    then have f: "p \<notin> L" "holds h1 (insert p L)" using alloc_fresh [OF Suc.prems] a by auto
    obtain ps h2 where "alloc_many alloc n h1 = Some (ps, h2)" "distinct ps" "set ps \<inter> insert p L = {}"
      "holds h2 (set ps \<union> insert p L)" "length ps \<le> n" using Suc.IH [OF f(2)] by blast
    with a Some f show ?thesis by auto
  qed
qed simp

text \<open>What a caller allocates in one go it can give back, and nothing of it stays out.\<close>

lemma alloc_release:
  assumes "holds h L" and "alloc_many alloc n h = Some (ps, h1)"
  shows "\<exists>h2. release_all release ps h1 = Some h2 \<and> holds h2 L"
proof -
  have p: "distinct ps" "set ps \<inter> L = {}" "holds h1 (set ps \<union> L)"
    using alloc_many_ok [OF assms(1), of n] assms(2) by auto
  have "(set ps \<union> L) - set ps = L" using p(2) by auto
  with release_all_ok [OF p(3,1)] show ?thesis by auto
qed

end

end
