(* ===== verification/MemProps.thy ===== *)
theory MemProps
  imports Allocator
begin

text \<open>
  The heap as a list of blocks. \<open>chain H bs\<close> says that the headers in \<open>H\<close> form the
  doubly linked list of the blocks \<open>bs\<close>, each a size (header included) and whether it is
  used, from offset 0 to \<open>ram_end\<close>. The operations are shown to be a first-fit
  allocator on that list, and the invariant \<open>heap_ok\<close> to hold through all of them.
\<close>

section \<open>Lists of blocks\<close>

type_synonym blocks = "(nat \<times> bool) list"

definition span :: "blocks \<Rightarrow> nat" where
  "span bs = sum_list (map fst bs)"

lemma span_simps [simp]:
  "span [] = 0" "span (b # bs) = fst b + span bs" "span (xs @ ys) = span xs + span ys"
  by (simp_all add: span_def)

definition good :: "blocks \<Rightarrow> bool" where
  "good bs = (\<forall>b \<in> set bs. 20 \<le> fst b \<and> 4 dvd fst b)"

lemma good_simps [simp]:
  "good []" "good (b # bs) = (20 \<le> fst b \<and> 4 dvd fst b \<and> good bs)" "good (xs @ ys) = (good xs \<and> good ys)"
  by (auto simp: good_def)

lemma good_dvd: "good bs \<Longrightarrow> 4 dvd span bs"
  by (induction bs) auto

lemma good_total_0: "good bs \<Longrightarrow> span bs = 0 \<longleftrightarrow> bs = []"
  by (cases bs) auto

text \<open>The offset of the last block, which the next header points back to.\<close>

definition last_off :: "blocks \<Rightarrow> nat" where
  "last_off bs = span (butlast bs)"

lemma last_off_simps [simp]:
  "last_off [] = 0" "last_off (xs @ [b]) = span xs"
  by (simp_all add: last_off_def)

section \<open>Linked headers\<close>

fun seg :: "(nat \<Rightarrow> struct_mem) \<Rightarrow> nat \<Rightarrow> nat \<Rightarrow> blocks \<Rightarrow> nat \<Rightarrow> nat \<Rightarrow> bool" where
  "seg H p q [] p' q' = (p = p' \<and> q = q')"
| "seg H p q ((n, u) # bs) p' q' =
     (H p = \<lparr>mnext = p + n, mprev = q, mused = u\<rparr> \<and> seg H (p + n) p bs p' q')"

lemma seg_end:
  "seg H p q bs p' q' \<Longrightarrow> p' = p + span bs \<and> q' = (if bs = [] then q else p + last_off bs)"
proof (induction H p q bs p' q' rule: seg.induct)
  case (2 H p q n u bs p' q')
  then show ?case by (cases bs) (auto simp: last_off_def)
qed simp

lemma seg_append:
  "seg H p q (xs @ ys) p' q' \<longleftrightarrow> (\<exists>m r. seg H p q xs m r \<and> seg H m r ys p' q')"
proof (induction xs arbitrary: p q)
  case (Cons b xs)
  then show ?case by (cases b) auto
qed simp

lemma seg_frame:
  "seg H p q bs p' q' \<Longrightarrow> good bs \<Longrightarrow> (\<And>x. p \<le> x \<Longrightarrow> x < p' \<Longrightarrow> H' x = H x) \<Longrightarrow> seg H' p q bs p' q'"
proof (induction H p q bs p' q' rule: seg.induct)
  case (2 H p q n u bs p' q')
  moreover from this have "p' = p + n + span bs" using seg_end by fastforce
  ultimately show ?case by auto
qed simp

lemma seg_relink:
  assumes "seg H p q bs p' q'" and "good bs" and "\<And>x. p < x \<Longrightarrow> x < p' \<Longrightarrow> H' x = H x"
    and "bs \<noteq> [] \<Longrightarrow> H' p = (H p)\<lparr>mprev := r\<rparr>"
  shows "\<exists>q'. seg H' p r bs p' q'"
proof (cases bs)
  case Nil
  with assms(1) show ?thesis by simp
next
  case (Cons b bs')
  obtain n u where b: "b = (n, u)" by (cases b)
  have hp: "H p = \<lparr>mnext = p + n, mprev = q, mused = u\<rparr>" and s: "seg H (p + n) p bs' p' q'" and g: "good bs'" "20 \<le> n"
    using assms(1,2) Cons b by auto
  have "seg H' (p + n) p bs' p' q'"
    using g by (intro seg_frame [OF s g(1)] assms(3)) auto
  moreover have "H' p = \<lparr>mnext = p + n, mprev = r, mused = u\<rparr>" using assms(4) hp Cons by simp
  ultimately show ?thesis using Cons b by auto
qed

definition chain :: "(nat \<Rightarrow> struct_mem) \<Rightarrow> blocks \<Rightarrow> bool" where
  "chain H bs = ((\<exists>q. seg H 0 0 bs MEM_SIZE_ALIGNED q) \<and> good bs \<and>
     mused (H MEM_SIZE_ALIGNED) \<and> mnext (H MEM_SIZE_ALIGNED) = MEM_SIZE_ALIGNED)"

lemma chain_total: "chain H bs \<Longrightarrow> span bs = MEM_SIZE_ALIGNED"
  using seg_end by (fastforce simp: chain_def)

lemma chain_good: "chain H bs \<Longrightarrow> good bs"
  by (simp add: chain_def)

lemma chain_split:
  assumes "chain H (xs @ ys)"
  shows "seg H 0 0 xs (span xs) (last_off xs)" and "\<exists>q. seg H (span xs) (last_off xs) ys MEM_SIZE_ALIGNED q"
proof -
  obtain m r q where s: "seg H 0 0 xs m r" "seg H m r ys MEM_SIZE_ALIGNED q"
    using assms by (auto simp: chain_def seg_append)
  have "m = span xs" "r = last_off xs" using seg_end [OF s(1)] by auto
  with s show "seg H 0 0 xs (span xs) (last_off xs)"
    "\<exists>q. seg H (span xs) (last_off xs) ys MEM_SIZE_ALIGNED q" by auto
qed

lemma chain_at:
  assumes "chain H (xs @ (n, u) # ys)"
  shows "H (span xs) = \<lparr>mnext = span xs + n, mprev = last_off xs, mused = u\<rparr>"
  using chain_split [OF assms] by auto

text \<open>Replacing the blocks \<open>ms\<close> in the middle by others of the same total size.\<close>

lemma chain_splice:
  assumes c: "chain H (xs @ ms @ ys)" and p: "p = span xs" and e: "e = p + span ms"
    and new: "seg H' p (last_off xs) ms' e r'" and g: "good ms'"
    and low: "\<And>x. x < p \<Longrightarrow> H' x = H x" and high: "\<And>x. e < x \<Longrightarrow> H' x = H x"
    and nxt: "e \<noteq> MEM_SIZE_ALIGNED \<Longrightarrow> H' e = (H e)\<lparr>mprev := r'\<rparr>"
    and rend: "mused (H' MEM_SIZE_ALIGNED)" "mnext (H' MEM_SIZE_ALIGNED) = MEM_SIZE_ALIGNED"
  shows "chain H' (xs @ ms' @ ys)"
proof -
  have gd: "good xs" "good ys" using chain_good [OF c] by auto
  have t: "e + span ys = MEM_SIZE_ALIGNED" using chain_total [OF c] p e by simp
  have 1: "seg H' 0 0 xs p (last_off xs)"
    using seg_frame [OF chain_split(1) [OF c] gd(1)] low p by simp
  obtain q where "seg H e (last_off (xs @ ms)) ys MEM_SIZE_ALIGNED q"
    using chain_split(2) [of H "xs @ ms" ys] c p e by auto
  then obtain q' where 2: "seg H' e r' ys MEM_SIZE_ALIGNED q'"
  proof (rule seg_relink [THEN exE])
    show "H' e = (H e)\<lparr>mprev := r'\<rparr>" if "ys \<noteq> []"
      using nxt t that good_total_0 [OF gd(2)] by auto
  qed (use gd high in auto)
  have "seg H' 0 0 (xs @ ms' @ ys) MEM_SIZE_ALIGNED q'"
    using 1 2 new by (subst seg_append, subst seg_append) blast
  then show ?thesis using g gd rend by (auto simp: chain_def)
qed

section \<open>The invariant\<close>

text \<open>Two free blocks are never neighbours.\<close>

fun tight :: "blocks \<Rightarrow> bool" where
  "tight (a # b # bs) = ((snd a \<or> snd b) \<and> tight (b # bs))"
| "tight bs = True"

lemma tight_append:
  "tight (xs @ ys) \<longleftrightarrow> tight xs \<and> tight ys \<and> (xs \<noteq> [] \<longrightarrow> ys \<noteq> [] \<longrightarrow> snd (last xs) \<or> snd (hd ys))"
proof (induction xs rule: tight.induct)
  case "2_2"
  then show ?case by (cases ys) auto
qed auto

fun first_free :: "nat \<Rightarrow> blocks \<Rightarrow> nat" where
  "first_free p [] = p"
| "first_free p (b # bs) = (if snd b then first_free (p + fst b) bs else p)"

definition all_used :: "blocks \<Rightarrow> bool" where
  "all_used bs = (\<forall>b \<in> set bs. snd b)"

lemma all_used_simps [simp]:
  "all_used []" "all_used (b # bs) = (snd b \<and> all_used bs)" "all_used (xs @ ys) = (all_used xs \<and> all_used ys)"
  by (auto simp: all_used_def)

lemma first_free_append:
  "first_free p (xs @ ys) = (if all_used xs then first_free (p + span xs) ys else first_free p xs)"
  by (induction xs arbitrary: p) (auto simp: add.assoc)

lemma first_free_split:
  "\<exists>xs ys. bs = xs @ ys \<and> all_used xs \<and> first_free p bs = p + span xs \<and> (ys = [] \<or> \<not> snd (hd ys))"
proof (induction bs arbitrary: p)
  case (Cons b bs)
  show ?case
  proof (cases "snd b")
    case True
    obtain xs ys where "bs = xs @ ys" "all_used xs" "first_free (p + fst b) bs = p + fst b + span xs"
      "ys = [] \<or> \<not> snd (hd ys)" using Cons.IH by blast
    with True show ?thesis by (intro exI [of _ "b # xs"] exI [of _ ys]) auto
  next
    case False
    then have "b # bs = [] @ b # bs \<and> all_used [] \<and> first_free p (b # bs) = p + span [] \<and> \<not> snd (hd (b # bs))"
      by simp
    then show ?thesis by blast
  qed
qed simp

lemma first_free_le: "first_free p bs \<le> p + span bs"
proof (induction bs arbitrary: p)
  case (Cons b bs)
  show ?case using Cons.IH [of "p + fst b"] by simp
qed simp

lemma first_free_lt: "good xs \<Longrightarrow> \<not> all_used xs \<Longrightarrow> first_free p xs < p + span xs"
proof (induction xs arbitrary: p)
  case (Cons b xs)
  then have "snd b \<Longrightarrow> first_free (p + fst b) xs < p + fst b + span xs" by simp
  moreover have "20 \<le> fst b" using Cons.prems by simp
  ultimately show ?case by (auto simp: add.assoc)
qed simp

definition heap_ok :: "heap \<Rightarrow> blocks \<Rightarrow> bool" where
  "heap_ok h bs = (chain (ram h) bs \<and> tight bs \<and> lfree h = first_free 0 bs)"

lemma mem_init_ok: "heap_ok (mem_init h) [(MEM_SIZE_ALIGNED, False)]"
  by (simp add: heap_ok_def chain_def mem_init_def upd_def Let_def)

lemma chain_next_prev:
  assumes "chain H (xs @ (n, u) # ys)" and "span xs + n \<noteq> MEM_SIZE_ALIGNED"
  shows "mprev (H (span xs + n)) = span xs"
proof (cases ys)
  case Nil
  with assms chain_total [OF assms(1)] show ?thesis by simp
next
  case (Cons y ys')
  then show ?thesis using chain_at [of H "xs @ [(n, u)]" "fst y" "snd y" ys'] assms(1) by simp
qed

lemma chain_bounds:
  assumes "chain H (xs @ (n, u) # ys)"
  shows "20 \<le> n" and "4 dvd n" and "4 dvd span xs" and "span xs + n \<le> MEM_SIZE_ALIGNED"
    and "span xs + n + span ys = MEM_SIZE_ALIGNED"
  using chain_good [OF assms] chain_total [OF assms] good_dvd [of xs] by auto

section \<open>Allocation\<close>

lemma sub32_ge: "b \<le> a \<Longrightarrow> a < 2 ^ 32 \<Longrightarrow> sub32 a b = a - b"
  by (simp add: sub32_def)

fun fit :: "nat \<Rightarrow> nat \<Rightarrow> blocks \<Rightarrow> nat option" where
  "fit sz p [] = None"
| "fit sz p (b # bs) = (if \<not> snd b \<and> sz + 8 \<le> fst b then Some p else fit sz (p + fst b) bs)"

lemma fit_None: "span bs \<le> sz \<Longrightarrow> fit sz p bs = None"
  by (induction bs arbitrary: p) auto

lemma fit_append_used: "all_used xs \<Longrightarrow> fit sz p (xs @ ys) = fit sz (p + span xs) ys"
  by (induction xs arbitrary: p) (auto simp: add.assoc)

lemma find_fit_spec:
  "seg H p q bs MEM_SIZE_ALIGNED q' \<Longrightarrow> good bs \<Longrightarrow> find_fit H sz p = Some (fit sz p bs)"
proof (induction bs arbitrary: p q)
  case Nil
  then show ?case by (subst find_fit.simps) auto
next
  case (Cons b bs)
  obtain n u where b: "b = (n, u)" by (cases b)
  have H: "H p = \<lparr>mnext = p + n, mprev = q, mused = u\<rparr>" and s: "seg H (p + n) p bs MEM_SIZE_ALIGNED q'"
    and n: "20 \<le> n" and g: "good bs" using Cons.prems b by auto
  have t: "p + n + span bs = MEM_SIZE_ALIGNED" using seg_end [OF s] by simp
  show ?case
  proof (cases "p < MEM_SIZE_ALIGNED - sz")
    case True
    have "sub32 (p + n) (p + 8) = n - 8" using n t by (subst sub32_ge) auto
    with True n show ?thesis
      using Cons.IH [OF s g] H b by (subst find_fit.simps) auto
  next
    case False
    then have "span (b # bs) \<le> sz" using t b by simp
    with False show ?thesis by (subst find_fit.simps) (simp add: fit_None)
  qed
qed

text \<open>What the allocator does to the list: the first block that fits is taken, and split if
  the rest can hold a header and 12 bytes.\<close>

definition carve :: "nat \<Rightarrow> nat \<Rightarrow> blocks" where
  "carve sz n = (if sz + 20 \<le> n - 8 then [(sz + 8, True), (n - sz - 8, False)] else [(n, True)])"

fun alloc_blocks :: "nat \<Rightarrow> blocks \<Rightarrow> blocks" where
  "alloc_blocks sz [] = []"
| "alloc_blocks sz (b # bs) = (if \<not> snd b \<and> sz + 8 \<le> fst b then carve sz (fst b) @ bs else b # alloc_blocks sz bs)"

lemma alloc_blocks_None: "fit sz p bs = None \<Longrightarrow> alloc_blocks sz bs = bs"
  by (induction bs arbitrary: p) (auto split: if_splits)

lemma alloc_blocks_Some:
  "fit sz p bs = Some r \<Longrightarrow>
   \<exists>xs n ys. bs = xs @ (n, False) # ys \<and> r = p + span xs \<and> sz + 8 \<le> n \<and>
     alloc_blocks sz bs = xs @ carve sz n @ ys"
proof (induction bs arbitrary: p)
  case (Cons b bs)
  show ?case
  proof (cases "\<not> snd b \<and> sz + 8 \<le> fst b")
    case True
    with Cons.prems show ?thesis
      by (intro exI [of _ "[]"] exI [of _ "fst b"] exI [of _ bs]) (cases b, auto)
  next
    case False
    with Cons obtain xs n ys where "bs = xs @ (n, False) # ys" "r = p + fst b + span xs" "sz + 8 \<le> n"
      "alloc_blocks sz bs = xs @ carve sz n @ ys" by (metis (no_types, lifting) fit.simps(2))
    with False show ?thesis by (intro exI [of _ "b # xs"] exI [of _ n] exI [of _ ys]) auto
  qed
qed simp

lemma take_block_chain:
  assumes c: "chain (ram h) (xs @ (n, False) # ys)" and f: "sz + 8 \<le> n" and sz: "4 dvd sz" "12 \<le> sz"
  shows "chain (ram (take_block sz (span xs) h)) (xs @ carve sz n @ ys)"
proof -
  let ?p = "span xs" and ?H = "ram h"
  note b = chain_bounds [OF c] and at = chain_at [OF c]
  have nn: "ram h MEM_SIZE_ALIGNED = ram h MEM_SIZE_ALIGNED \<and> mused (?H MEM_SIZE_ALIGNED) \<and>
      mnext (?H MEM_SIZE_ALIGNED) = MEM_SIZE_ALIGNED" using c by (simp add: chain_def)
  have s: "sub32 (?p + n) (?p + 8) = n - 8" using b by (subst sub32_ge) auto
  show ?thesis
  proof (cases "sz + 20 \<le> n - 8")
    case True
    let ?q = "?p + 8 + sz" and ?H' = "ram (take_block sz ?p h)"
    have t: "trunc16 ?q = ?q" using b True by simp
    have q: "?p < ?q" "?q < ?p + n" using True b(1) by auto
    have eq: "?H' = (let G = ?H(?q := \<lparr>mnext = ?p + n, mprev = ?p, mused = False\<rparr>,
                           ?p := \<lparr>mnext = ?q, mprev = last_off xs, mused = True\<rparr>)
                  in if ?p + n \<noteq> MEM_SIZE_ALIGNED then G(?p + n := (G (?p + n))\<lparr>mprev := ?q\<rparr>) else G)"
      using True at t s q(1) by (simp add: take_block_def upd_def Let_def)
    have "seg ?H' ?p (last_off xs) [(sz + 8, True), (n - sz - 8, False)] (?p + n) ?q"
      using q by (auto simp: eq Let_def)
    moreover have "good [(sz + 8, True), (n - sz - 8, False)]"
      using True b(1,2) sz by (auto simp: dvd_diff_nat)
    moreover have "\<And>x. x < ?p \<Longrightarrow> ?H' x = ?H x" "\<And>x. ?p + n < x \<Longrightarrow> ?H' x = ?H x"
      "?p + n \<noteq> MEM_SIZE_ALIGNED \<Longrightarrow> ?H' (?p + n) = (?H (?p + n))\<lparr>mprev := ?q\<rparr>"
      "?H' MEM_SIZE_ALIGNED = ?H MEM_SIZE_ALIGNED"
      using q b(4) by (auto simp: eq Let_def)
    ultimately show ?thesis
      using chain_splice [where ms = "[(n, False)]" and xs = xs and ys = ys and H = ?H and H' = ?H'
          and p = ?p and e = "?p + n" and r' = ?q and ms' = "carve sz n"] c True nn
      by (simp add: carve_def)
  next
    case False
    let ?H' = "ram (take_block sz ?p h)"
    have eq: "?H' = ?H(?p := \<lparr>mnext = ?p + n, mprev = last_off xs, mused = True\<rparr>)"
      using False at s by (simp add: take_block_def upd_def Let_def)
    have "?H' (?p + n) = (?H (?p + n))\<lparr>mprev := ?p\<rparr>" if "?p + n \<noteq> MEM_SIZE_ALIGNED"
      using chain_next_prev [OF c that] b(1) by (cases "?H (?p + n)") (simp add: eq)
    then show ?thesis
      using chain_splice [where ms = "[(n, False)]" and xs = xs and ys = ys and H = ?H and H' = ?H'
          and p = ?p and e = "?p + n" and r' = ?p and ms' = "carve sz n"] c False nn b
      by (simp add: carve_def eq)
  qed
qed

lemma take_block_lfree [simp]: "lfree (take_block sz p h) = lfree h"
  by (simp add: take_block_def upd_def Let_def)

lemma next_free_spec:
  "seg H p q bs MEM_SIZE_ALIGNED q' \<Longrightarrow> good bs \<Longrightarrow> mused (H MEM_SIZE_ALIGNED) \<Longrightarrow>
   next_free H p = Some (first_free p bs)"
proof (induction bs arbitrary: p q)
  case Nil
  then show ?case by (subst next_free.simps) auto
next
  case (Cons b bs)
  obtain n u where b: "b = (n, u)" by (cases b)
  have "p + n + span bs = MEM_SIZE_ALIGNED" "20 \<le> n" using seg_end [OF Cons.prems(1)] Cons.prems(2) b by auto
  then have "p \<noteq> MEM_SIZE_ALIGNED" by simp
  with Cons b show ?case by (subst next_free.simps) auto
qed

lemma first_free_used:
  assumes "chain H bs"
  shows "first_free 0 bs = MEM_SIZE_ALIGNED \<or> \<not> mused (H (first_free 0 bs))"
proof -
  obtain xs ys where s: "bs = xs @ ys" "first_free 0 bs = span xs" "ys = [] \<or> \<not> snd (hd ys)"
    using first_free_split [of bs 0] by auto
  show ?thesis
  proof (cases ys)
    case Nil
    with s chain_total [OF assms] show ?thesis by simp
  next
    case (Cons y ys')
    obtain n where "y = (n, False)" using s(3) Cons by (cases y) auto
    with s assms Cons chain_at [of H xs n False ys'] show ?thesis by simp
  qed
qed

lemma carve_tight:
  "tight (xs @ (n, False) # ys) \<Longrightarrow> tight (xs @ carve sz n @ ys)"
  by (cases ys) (auto simp: carve_def tight_append)

lemma carve_head: "\<exists>m bs. carve sz n = (m, True) # bs"
  by (simp add: carve_def)

definition request :: "nat \<Rightarrow> nat" where
  "request sz = (let n = align_size sz in if n < 12 then 12 else n)"

lemma request_props: "4 dvd request sz" "12 \<le> request sz"
  by (auto simp: request_def align_size_def trunc16_def Let_def dvd_mod_iff)

lemma request_exact: "sz \<le> 65532 \<Longrightarrow> sz \<le> request sz"
  by (auto simp: request_def align_size_def trunc16_def Let_def)

lemma fit_from_lfree:
  assumes "heap_ok h bs"
  shows "find_fit (ram h) sz (lfree h) = Some (fit sz 0 bs)"
proof -
  obtain xs ys where s: "bs = xs @ ys" "all_used xs" "first_free 0 bs = span xs"
    using first_free_split [of bs 0] by auto
  have c: "chain (ram h) (xs @ ys)" and l: "lfree h = span xs" using assms s by (auto simp: heap_ok_def)
  obtain q where "seg (ram h) (span xs) (last_off xs) ys MEM_SIZE_ALIGNED q" using chain_split(2) [OF c] by blast
  from find_fit_spec [OF this] chain_good [OF c] l s fit_append_used [OF s(2), of sz 0 ys]
  show ?thesis by simp
qed

lemma fit_too_big:
  "chain H bs \<Longrightarrow> MEM_SIZE_ALIGNED < sz \<Longrightarrow> fit sz p bs = None"
  using chain_total [of H bs] by (intro fit_None) simp

text \<open>\<open>mem_malloc\<close> always returns, and does to the headers what \<open>alloc_blocks\<close> does to the
  list of blocks.\<close>

lemma mem_malloc_refines_aux:
  assumes ok: "heap_ok h bs" and sz: "sz \<noteq> 0"
  shows "\<exists>h'. mem_malloc sz h = Some (map_option (\<lambda>p. int (p + 8)) (fit (request sz) 0 bs), h') \<and>
     heap_ok h' (alloc_blocks (request sz) bs)"
proof -
  let ?s = "request sz"
  have c: "chain (ram h) bs" and l: "lfree h = first_free 0 bs" and t: "tight bs" using ok by (auto simp: heap_ok_def)
  have unf: "mem_malloc sz h = (if ?s > MEM_SIZE_ALIGNED then Some (None, h) else do {
        fit \<leftarrow> find_fit (ram h) ?s (lfree h);
        (case fit of
           None \<Rightarrow> Some (None, h)
         | Some ptr \<Rightarrow> do {
             let h = take_block ?s ptr h;
             h \<leftarrow> (if ptr = lfree h then do {
                      cur \<leftarrow> next_free (ram h) (lfree h);
                      lwip_assert (cur = MEM_SIZE_ALIGNED \<or> \<not> mused (ram h cur));
                      Some (h\<lparr>lfree := cur\<rparr>)
                    } else Some h);
             lwip_assert (ptr + SIZEOF_STRUCT_MEM + ?s \<le> MEM_SIZE_ALIGNED);
             lwip_assert ((ptr + SIZEOF_STRUCT_MEM) mod 4 = 0);
             lwip_assert (ptr mod 4 = 0);
             Some (Some (int (ptr + SIZEOF_STRUCT_MEM)), h)
           })
      })"
    using sz by (simp only: mem_malloc_def request_def Let_def if_False)
  show ?thesis
  proof (cases "fit ?s 0 bs")
    case None
    then show ?thesis using ok by (simp add: unf fit_from_lfree [OF ok] alloc_blocks_None)
  next
    case (Some r)
    obtain xs n ys where d: "bs = xs @ (n, False) # ys" "r = span xs" "?s + 8 \<le> n"
      "alloc_blocks ?s bs = xs @ carve ?s n @ ys" using alloc_blocks_Some [OF Some] by auto
    let ?h = "take_block ?s (span xs) h" and ?bs = "xs @ carve ?s n @ ys"
    note b = chain_bounds [OF c [unfolded d(1)]]
    have c': "chain (ram ?h) ?bs" using take_block_chain [OF c [unfolded d(1)] d(3) request_props] .
    have t': "tight ?bs" using carve_tight t d(1) by simp
    have le: "\<not> MEM_SIZE_ALIGNED < ?s" using b(4) d(3) by simp
    have asserts: "span xs + 8 + ?s \<le> MEM_SIZE_ALIGNED" "(span xs + 8) mod 4 = 0" "span xs mod 4 = 0"
      using b d(3) by (auto simp: mod_eq_0_iff_dvd)
    obtain m cs where ca: "carve ?s n = (m, True) # cs" using carve_head by blast
    show ?thesis
    proof (cases "all_used xs")
      case True
      then have lf: "lfree h = span xs" using l d(1) by (simp add: first_free_append)
      obtain q where "seg (ram ?h) (span xs) (last_off xs) (carve ?s n @ ys) MEM_SIZE_ALIGNED q"
        using chain_split(2) [OF c'] by blast
      then have nf: "next_free (ram ?h) (span xs) = Some (first_free 0 ?bs)"
        using next_free_spec [of "ram ?h" _ _ "carve ?s n @ ys"] c' chain_good [OF c'] True
        by (auto simp: chain_def first_free_append)
      have "find_fit (ram h) ?s (span xs) = Some (Some (span xs))"
        using fit_from_lfree [OF ok, of ?s] Some d(2) lf by simp
      then show ?thesis
        using Some d le lf nf first_free_used [OF c'] asserts c' t'
        by (simp add: unf heap_ok_def Let_def)
    next
      case False
      then have "lfree h < span xs"
        using l d(1) b first_free_lt [of xs 0] chain_good [OF c] by (simp add: first_free_append)
      moreover have "first_free 0 ?bs = lfree h" using False l d(1) by (simp add: first_free_append)
      ultimately show ?thesis
        using Some d le asserts c' t' by (simp add: unf fit_from_lfree [OF ok] heap_ok_def)
    qed
  qed
qed

section \<open>Release\<close>

definition join_next :: "nat \<Rightarrow> blocks \<Rightarrow> nat \<times> blocks" where
  "join_next n ys = (if ys \<noteq> [] \<and> \<not> snd (hd ys) then (n + fst (hd ys), tl ys) else (n, ys))"

definition join_prev :: "blocks \<Rightarrow> nat \<Rightarrow> blocks \<times> nat" where
  "join_prev xs n = (if xs \<noteq> [] \<and> \<not> snd (last xs) then (butlast xs, fst (last xs) + n) else (xs, n))"

text \<open>What \<open>mem_free\<close> does to the list: the block is joined with its free neighbours.\<close>

definition free_blocks :: "blocks \<Rightarrow> nat \<Rightarrow> blocks \<Rightarrow> blocks" where
  "free_blocks xs n ys =
     (let (n, ys) = join_next n ys; (xs, n) = join_prev xs n in xs @ (n, False) # ys)"

lemma plug_forward_chain:
  assumes c: "chain (ram h) (xs @ (n, False) # ys)"
  shows "chain (ram (plug_forward (span xs) h)) (xs @ (fst (join_next n ys), False) # snd (join_next n ys))"
    and "lfree h \<le> span xs \<Longrightarrow> lfree (plug_forward (span xs) h) = lfree h"
proof -
  let ?p = "span xs" and ?H = "ram h" and ?H' = "ram (plug_forward (span xs) h)"
  note b = chain_bounds [OF c] and at = chain_at [OF c]
  show "lfree h \<le> ?p \<Longrightarrow> lfree (plug_forward ?p h) = lfree h"
    using at b(1) by (auto simp: plug_forward_def upd_def Let_def)
  have rend: "mused (?H MEM_SIZE_ALIGNED)" "mnext (?H MEM_SIZE_ALIGNED) = MEM_SIZE_ALIGNED"
    using c by (auto simp: chain_def)
  show "chain ?H' (xs @ (fst (join_next n ys), False) # snd (join_next n ys))"
  proof (cases "ys \<noteq> [] \<and> \<not> snd (hd ys)")
    case False
    have "?p + n = MEM_SIZE_ALIGNED \<or> mused (?H (?p + n))"
    proof (cases ys)
      case Nil
      with b(5) show ?thesis by simp
    next
      case (Cons y zs)
      with False obtain m where "y = (m, True)" by (cases y) auto
      with Cons c chain_at [of ?H "xs @ [(n, False)]" m True zs] show ?thesis by simp
    qed
    with at False c show ?thesis by (auto simp: plug_forward_def Let_def join_next_def)
  next
    case True
    then obtain m zs where ys: "ys = (m, False) # zs" by (cases ys) (auto simp: prod_eq_iff)
    have c2: "chain ?H ((xs @ [(n, False)]) @ (m, False) # zs)" using c ys by simp
    note b2 = chain_bounds [OF c2]
    have at2: "?H (?p + n) = \<lparr>mnext = ?p + n + m, mprev = ?p, mused = False\<rparr>"
      using chain_at [OF c2] by simp
    have eq: "?H' = (?H(?p := \<lparr>mnext = ?p + n + m, mprev = last_off xs, mused = False\<rparr>))
        (?p + n + m := (?H (?p + n + m))\<lparr>mprev := ?p\<rparr>)"
      using at at2 b b2(1,4) by (simp add: plug_forward_def upd_def Let_def)
    have "seg ?H' ?p (last_off xs) [(n + m, False)] (?p + n + m) ?p"
      using b(1) by (auto simp: eq)
    moreover have "\<And>x. x < ?p \<Longrightarrow> ?H' x = ?H x" "\<And>x. ?p + n + m < x \<Longrightarrow> ?H' x = ?H x"
      "?H' (?p + n + m) = (?H (?p + n + m))\<lparr>mprev := ?p\<rparr>"
      "mused (?H' MEM_SIZE_ALIGNED)" "mnext (?H' MEM_SIZE_ALIGNED) = MEM_SIZE_ALIGNED"
      using b(1,4) b2(1,4) rend by (auto simp: eq)
    ultimately have "chain ?H' (xs @ [(n + m, False)] @ zs)"
      using chain_splice [where ms = "[(n, False), (m, False)]" and xs = xs and ys = zs and H = ?H and H' = ?H'
          and p = ?p and e = "?p + n + m" and r' = ?p and ms' = "[(n + m, False)]"] c ys b(1,2) b2(1,2)
      by (simp add: add.assoc)
    then show ?thesis by (simp add: ys join_next_def)
  qed
qed

lemma plug_backward_chain:
  assumes c: "chain (ram h) (xs @ (n, False) # ys)"
  shows "chain (ram (plug_backward (span xs) h)) (fst (join_prev xs n) @ (snd (join_prev xs n), False) # ys)"
    and "lfree h \<noteq> span xs \<or> all_used xs \<Longrightarrow> lfree (plug_backward (span xs) h) = lfree h"
proof -
  let ?p = "span xs" and ?H = "ram h" and ?H' = "ram (plug_backward (span xs) h)"
  note b = chain_bounds [OF c] and at = chain_at [OF c]
  have rend: "mused (?H MEM_SIZE_ALIGNED)" "mnext (?H MEM_SIZE_ALIGNED) = MEM_SIZE_ALIGNED"
    using c by (auto simp: chain_def)
  have "chain ?H' (fst (join_prev xs n) @ (snd (join_prev xs n), False) # ys) \<and>
      (lfree h \<noteq> ?p \<or> all_used xs \<longrightarrow> lfree (plug_backward ?p h) = lfree h)"
  proof (cases xs rule: rev_cases)
    case Nil
    with at c show ?thesis by (simp add: plug_backward_def join_prev_def Let_def)
  next
    case (snoc xs' x)
    obtain k u where x: "x = (k, u)" by (cases x)
    have c2: "chain ?H (xs' @ (k, u) # (n, False) # ys)" using c snoc x by simp
    note b2 = chain_bounds [OF c2] and at2 = chain_at [OF c2]
    show ?thesis
    proof (cases u)
      case True
      with at at2 b2(1) c snoc x show ?thesis by (simp add: plug_backward_def join_prev_def Let_def)
    next
      case False
      let ?q = "span xs'"
      have pk: "?p = ?q + k" using snoc x by simp
      have eq: "?H' = (?H(?q := \<lparr>mnext = ?p + n, mprev = last_off xs', mused = False\<rparr>))
          (?p + n := (?H (?p + n))\<lparr>mprev := ?q\<rparr>)"
        using at at2 b(1) b2(1,4) snoc x False by (simp add: plug_backward_def upd_def Let_def)
      have "seg ?H' ?q (last_off xs') [(k + n, False)] (?p + n) ?q"
        unfolding eq seg.simps using b(1) b2(1) pk by auto
      moreover have "\<And>x. x < ?q \<Longrightarrow> ?H' x = ?H x" "\<And>x. ?p + n < x \<Longrightarrow> ?H' x = ?H x"
        "?H' (?p + n) = (?H (?p + n))\<lparr>mprev := ?q\<rparr>"
        "mused (?H' MEM_SIZE_ALIGNED)" "mnext (?H' MEM_SIZE_ALIGNED) = MEM_SIZE_ALIGNED"
        unfolding eq using b(1,4) b2(1,4) rend pk by auto
      ultimately have "chain ?H' (xs' @ [(k + n, False)] @ ys)"
        using chain_splice [where ms = "[(k, False), (n, False)]" and xs = xs' and ys = ys and H = ?H and H' = ?H'
            and p = ?q and e = "?p + n" and r' = ?q and ms' = "[(k + n, False)]"] c2 False b(1,2) b2(1,2) snoc x
        by (simp add: add.assoc)
      moreover have "lfree h \<noteq> ?p \<Longrightarrow> lfree (plug_backward ?p h) = lfree h"
        by (simp add: plug_backward_def upd_def Let_def)
      ultimately show ?thesis using False snoc x by (simp add: join_prev_def)
    qed
  qed
  then show "chain ?H' (fst (join_prev xs n) @ (snd (join_prev xs n), False) # ys)"
    "lfree h \<noteq> ?p \<or> all_used xs \<Longrightarrow> lfree (plug_backward ?p h) = lfree h" by auto
qed

lemma first_free_middle:
  "first_free 0 (xs @ (n, False) # ys) = (if all_used xs then span xs else first_free 0 xs)"
  by (simp add: first_free_append)

lemma free_tight:
  assumes "tight (xs @ (n, True) # ys)"
  shows "tight (free_blocks xs n ys)"
proof -
  have x: "tight xs" and y: "tight ys" using assms by (auto simp: tight_append split: if_splits dest: tight.elims)
  have y': "tight (tl ys)" "\<not> snd (hd ys) \<Longrightarrow> ys \<noteq> [] \<Longrightarrow> tl ys \<noteq> [] \<Longrightarrow> snd (hd (tl ys))"
    using y by (cases ys rule: tight.cases; simp)+
  have x': "tight (butlast xs)" "\<not> snd (last xs) \<Longrightarrow> xs \<noteq> [] \<Longrightarrow> butlast xs \<noteq> [] \<Longrightarrow> snd (last (butlast xs))"
    using x by (cases xs rule: rev_cases; auto simp: tight_append)+
  have c: "tight (as @ (k, False) # bs)"
    if "tight as" "tight bs" "as \<noteq> [] \<longrightarrow> snd (last as)" "bs \<noteq> [] \<longrightarrow> snd (hd bs)" for as bs k
    using that by (cases bs) (auto simp: tight_append)
  have c0: "tight ((k, False) # bs)" if "tight bs" "bs \<noteq> [] \<longrightarrow> snd (hd bs)" for bs k
    using c [of "[]" bs k] that by simp
  show ?thesis
    using x y x' y' by (auto simp: free_blocks_def join_next_def join_prev_def Let_def intro!: c c0)
qed

text \<open>\<open>mem_free\<close> of a used block returns, and joins the block with its free neighbours.\<close>

lemma mem_free_refines_aux:
  assumes ok: "heap_ok h (xs @ (n, True) # ys)"
  shows "\<exists>h'. mem_free (Some (int (span xs + 8))) h = Some h' \<and> heap_ok h' (free_blocks xs n ys)"
proof -
  let ?p = "span xs"
  have c: "chain (ram h) (xs @ (n, True) # ys)" and t: "tight (xs @ (n, True) # ys)"
    and l: "lfree h = first_free 0 (xs @ (n, True) # ys)" using ok by (auto simp: heap_ok_def)
  note b = chain_bounds [OF c] and at = chain_at [OF c]
  define h1 where "h1 = upd ?p (\<lambda>m. m\<lparr>mused := False\<rparr>) h"
  define h2 where "h2 = (if ?p < lfree h1 then h1\<lparr>lfree := ?p\<rparr> else h1)"
  have r2: "ram h2 = (ram h)(?p := \<lparr>mnext = ?p + n, mprev = last_off xs, mused = False\<rparr>)"
    using at by (simp add: h2_def h1_def upd_def)
  have c2: "chain (ram h2) (xs @ (n, False) # ys)"
  proof -
    have "(ram h2) (?p + n) = (ram h (?p + n))\<lparr>mprev := ?p\<rparr>" if "?p + n \<noteq> MEM_SIZE_ALIGNED"
      using chain_next_prev [OF c that] b(1) by (cases "ram h (?p + n)") (simp add: r2)
    moreover have "seg (ram h2) ?p (last_off xs) [(n, False)] (?p + n) ?p" by (simp add: r2)
    moreover have "\<And>x. x < ?p \<Longrightarrow> ram h2 x = ram h x" "\<And>x. ?p + n < x \<Longrightarrow> ram h2 x = ram h x"
      "ram h2 MEM_SIZE_ALIGNED = ram h MEM_SIZE_ALIGNED" using b(1,4) by (auto simp: r2)
    ultimately show ?thesis
      using chain_splice [where ms = "[(n, True)]" and xs = xs and ys = ys and H = "ram h" and H' = "ram h2"
          and p = ?p and e = "?p + n" and r' = ?p and ms' = "[(n, False)]"] c b(1,2)
      by (simp add: chain_def)
  qed
  have l2: "lfree h2 = first_free 0 (xs @ (n, False) # ys)"
  proof (cases "all_used xs")
    case True
    have "?p + n \<le> first_free (?p + n) ys" for p :: nat
      using first_free_split [of ys "?p + n"] by auto
    with True b(1) l show ?thesis by (simp add: h2_def h1_def upd_def first_free_append)
  next
    case False
    with l b first_free_lt [of xs 0] chain_good [OF c] show ?thesis
      by (simp add: h2_def h1_def upd_def first_free_append)
  qed
  let ?h3 = "plug_forward ?p h2" and ?n = "fst (join_next n ys)" and ?ys = "snd (join_next n ys)"
  have le: "lfree h2 \<le> ?p" using l2 first_free_le [of 0 xs] by (simp add: first_free_middle)
  note f = plug_forward_chain [OF c2]
  have l3: "lfree ?h3 = first_free 0 (xs @ (?n, False) # ?ys)"
    using f(2) [OF le] l2 by (simp add: first_free_middle)
  let ?h4 = "plug_backward ?p ?h3"
  note g = plug_backward_chain [OF f(1)]
  have "lfree ?h3 \<noteq> ?p \<or> all_used xs"
    using l3 first_free_lt [of xs 0] chain_good [OF c] by (auto simp: first_free_middle)
  then have "lfree ?h4 = first_free 0 (xs @ (?n, False) # ?ys)" using g(2) l3 by simp
  moreover have "first_free 0 (xs @ (?n, False) # ?ys) =
      first_free 0 (fst (join_prev xs ?n) @ (snd (join_prev xs ?n), False) # ?ys)"
    by (cases xs rule: rev_cases) (auto simp: join_prev_def first_free_append)
  moreover have "free_blocks xs n ys = fst (join_prev xs ?n) @ (snd (join_prev xs ?n), False) # ?ys"
    by (simp add: free_blocks_def split: prod.splits)
  ultimately have ok4: "heap_ok ?h4 (free_blocks xs n ys)"
    using g(1) free_tight [OF t] by (simp add: heap_ok_def)
  have n8: "nat (int ?p + 8) - 8 = ?p" by simp
  have "int 4 dvd int ?p" using b(3) by (simp only: int_dvd_int_iff)
  then have al: "(int ?p + 8) mod 4 = 0" "4 dvd int ?p + 8" by presburger+
  have "mem_free (Some (int (?p + 8))) h = plug_holes ?p h2"
    using b(1,4) at by (simp add: mem_free_def h1_def h2_def upd_def Let_def n8 al)
  also have "\<dots> = Some ?h4"
    using r2 b(1,4) by (simp add: plug_holes_def)
  finally show ?thesis using ok4 by blast
qed

section \<open>Shrinking\<close>

text \<open>What \<open>mem_trim\<close> does: the bytes cut off join the free block behind, or become a
  free block of their own if they can hold one; otherwise nothing changes.\<close>

definition trim_blocks :: "blocks \<Rightarrow> nat \<Rightarrow> nat \<Rightarrow> blocks \<Rightarrow> blocks" where
  "trim_blocks xs n sz ys =
     (if sz + 8 = n then xs @ (n, True) # ys
      else if ys \<noteq> [] \<and> \<not> snd (hd ys) then
        xs @ (sz + 8, True) # (n - sz - 8 + fst (hd ys), False) # tl ys
      else if sz + 20 \<le> n - 8 then xs @ (sz + 8, True) # (n - sz - 8, False) # ys
      else xs @ (n, True) # ys)"

text \<open>The headers after a cut of the block at \<open>p\<close> behind \<open>sz\<close> bytes, the rest reaching up to \<open>e\<close>.\<close>

definition cut :: "nat \<Rightarrow> nat \<Rightarrow> nat \<Rightarrow> (nat \<Rightarrow> struct_mem) \<Rightarrow> nat \<Rightarrow> struct_mem" where
  "cut p sz e H =
     (let q = p + 8 + sz;
          G = H(q := \<lparr>mnext = e, mprev = p, mused = False\<rparr>, p := (H p)\<lparr>mnext := q\<rparr>)
      in if e \<noteq> MEM_SIZE_ALIGNED then G(e := (G e)\<lparr>mprev := q\<rparr>) else G)"

lemma cut_chain:
  assumes c: "chain H (xs @ (n, True) # ms @ ys)" and ms: "span ms + n = e - span xs"
    and sz: "4 dvd sz" "12 \<le> sz" and room: "sz + 28 \<le> n + span ms" "sz + 8 < n"
  shows "chain (cut (span xs) sz e H) (xs @ (sz + 8, True) # (n + span ms - sz - 8, False) # ys)"
proof -
  let ?p = "span xs" and ?q = "span xs + 8 + sz" and ?H' = "cut (span xs) sz e H"
  note b = chain_bounds [OF c] and at = chain_at [OF c]
  have e: "e = ?p + n + span ms" "e \<le> MEM_SIZE_ALIGNED" using ms b by auto
  have q: "?p < ?q" "?q < e" using e room by auto
  have rend: "mused (H MEM_SIZE_ALIGNED)" "mnext (H MEM_SIZE_ALIGNED) = MEM_SIZE_ALIGNED"
    using c by (auto simp: chain_def)
  have "4 dvd n + span ms" using b(2) chain_good [OF c] good_dvd [of ms] by simp
  then have "4 dvd (n + span ms - sz) - 8" using sz by (intro dvd_diff_nat) auto
  then have g: "good [(sz + 8, True), (n + span ms - sz - 8, False)]"
    using sz room by (auto simp: dvd_diff_nat)
  have "seg ?H' ?p (last_off xs) [(sz + 8, True), (n + span ms - sz - 8, False)] e ?q"
    using q at e by (auto simp: cut_def Let_def)
  moreover have "\<And>x. x < ?p \<Longrightarrow> ?H' x = H x" "\<And>x. e < x \<Longrightarrow> ?H' x = H x"
    "e \<noteq> MEM_SIZE_ALIGNED \<Longrightarrow> ?H' e = (H e)\<lparr>mprev := ?q\<rparr>"
    "?H' MEM_SIZE_ALIGNED = H MEM_SIZE_ALIGNED"
    using q e by (auto simp: cut_def Let_def)
  ultimately show ?thesis
    using chain_splice [where ms = "(n, True) # ms" and xs = xs and ys = ys and H = H and H' = ?H' and p = ?p
        and e = e and r' = ?q and ms' = "[(sz + 8, True), (n + span ms - sz - 8, False)]"] c g e rend
    by (simp add: add.assoc)
qed

lemma mem_trim_unfold:
  assumes c: "chain (ram h) (xs @ (n, True) # ys)" and sz: "request newsize + 8 \<le> n"
  defines "p \<equiv> span xs" and "s \<equiv> request newsize"
  shows "mem_trim (int (p + 8)) newsize h =
     (if s + 8 = n then Some (Some (int (p + 8)), h)
      else if \<not> mused (ram h (p + n)) then
        Some (Some (int (p + 8)), h\<lparr>ram := cut p s (mnext (ram h (p + n))) (ram h),
          lfree := (if lfree h = p + n then p + 8 + s else lfree h)\<rparr>)
      else if s + 20 \<le> n - 8 then
        Some (Some (int (p + 8)), h\<lparr>ram := cut p s (p + n) (ram h),
          lfree := (if p + 8 + s < lfree h then p + 8 + s else lfree h)\<rparr>)
      else Some (Some (int (p + 8)), h))"
proof -
  note b = chain_bounds [OF c, folded p_def] and at = chain_at [OF c, folded p_def]
  have 1: "sub32 (p + n) (p + 8) = n - 8" using b by (subst sub32_ge) auto
  have 2: "trunc16 (n - 8) = n - 8" "trunc16 (p + 8 + s) = p + 8 + s" using b sz by (auto simp: s_def)
  have 3: "\<not> MEM_SIZE_ALIGNED < s" "s \<le> n - 8" "(s = n - 8) = (s + 8 = n)" "p < 6136" "p \<noteq> p + 8 + s"
    using b sz by (auto simp: s_def)
  have 4: "nat (int p + 8) - 8 = p" by simp
  have "mem_trim (int (p + 8)) newsize h = (if s > MEM_SIZE_ALIGNED then Some (None, h)
      else do {
        lwip_assert (0 \<le> int (p + 8) \<and> int (p + 8) < int MEM_SIZE_ALIGNED);
        (if int (p + 8) < int SIZEOF_STRUCT_MEM then None else do {
           let ptr = nat (int (p + 8)) - SIZEOF_STRUCT_MEM;
           let sz = trunc16 (sub32 (mnext (ram h ptr)) (ptr + SIZEOF_STRUCT_MEM));
           lwip_assert (s \<le> sz);
           (if s = sz then Some (Some (int (p + 8)), h) else
              let mem2 = mnext (ram h ptr); ptr2 = trunc16 (ptr + SIZEOF_STRUCT_MEM + s) in
              if \<not> mused (ram h mem2) then
                let next = mnext (ram h mem2);
                    h = (if lfree h = mem2 then h\<lparr>lfree := ptr2\<rparr> else h);
                    h = upd ptr2 (\<lambda>m. \<lparr>mnext = next, mprev = ptr, mused = False\<rparr>) h;
                    h = upd ptr (\<lambda>m. m\<lparr>mnext := ptr2\<rparr>) h
                in Some (Some (int (p + 8)),
                     if next \<noteq> MEM_SIZE_ALIGNED then upd next (\<lambda>m. m\<lparr>mprev := ptr2\<rparr>) h else h)
              else if s + SIZEOF_STRUCT_MEM + MIN_SIZE_ALIGNED \<le> sz then
                let next = mnext (ram h ptr);
                    h = (if ptr2 < lfree h then h\<lparr>lfree := ptr2\<rparr> else h);
                    h = upd ptr2 (\<lambda>m. \<lparr>mnext = next, mprev = ptr, mused = False\<rparr>) h;
                    h = upd ptr (\<lambda>m. m\<lparr>mnext := ptr2\<rparr>) h
                in Some (Some (int (p + 8)),
                     if next \<noteq> MEM_SIZE_ALIGNED then upd next (\<lambda>m. m\<lparr>mprev := ptr2\<rparr>) h else h)
              else Some (Some (int (p + 8)), h))
         })
      })"
    by (simp only: mem_trim_def s_def request_def Let_def)
  then show ?thesis
    using 3 at by (simp add: 1 2 4 Let_def cut_def upd_def)
qed

lemma trim_tight:
  "tight (xs @ (n, True) # ys) \<Longrightarrow> tight (trim_blocks xs n sz ys)"
proof -
  assume t: "tight (xs @ (n, True) # ys)"
  have "tight ((n, True) # ys) = tight ys" for ys n by (cases ys) auto
  moreover have "tight ((n, False) # ys) = (tight ys \<and> (ys = [] \<or> snd (hd ys)))" for ys n by (cases ys) auto
  ultimately show ?thesis using t by (cases ys; cases "tl ys") (auto simp: trim_blocks_def tight_append)
qed

lemma next_used:
  assumes "chain H (xs @ (n, u) # ys)"
  shows "mused (H (span xs + n)) = (ys = [] \<or> snd (hd ys))"
    and "ys \<noteq> [] \<Longrightarrow> mnext (H (span xs + n)) = span xs + n + fst (hd ys)"
proof -
  have "mused (H (span xs + n)) = (ys = [] \<or> snd (hd ys)) \<and>
      (ys \<noteq> [] \<longrightarrow> mnext (H (span xs + n)) = span xs + n + fst (hd ys))"
  proof (cases ys)
    case Nil
    with assms chain_bounds(5) [OF assms] show ?thesis by (simp add: chain_def)
  next
    case (Cons y zs)
    then show ?thesis using chain_at [of H "xs @ [(n, u)]" "fst y" "snd y" zs] assms by simp
  qed
  then show "mused (H (span xs + n)) = (ys = [] \<or> snd (hd ys))"
    "ys \<noteq> [] \<Longrightarrow> mnext (H (span xs + n)) = span xs + n + fst (hd ys)" by auto
qed

lemma mem_trim_refines_aux:
  assumes ok: "heap_ok h (xs @ (n, True) # ys)" and sz: "request newsize + 8 \<le> n"
  shows "\<exists>h'. mem_trim (int (span xs + 8)) newsize h = Some (Some (int (span xs + 8)), h') \<and>
     heap_ok h' (trim_blocks xs n (request newsize) ys)"
proof -
  let ?p = "span xs" and ?s = "request newsize"
  have c: "chain (ram h) (xs @ (n, True) # ys)" and t: "tight (xs @ (n, True) # ys)"
    and l: "lfree h = first_free 0 (xs @ (n, True) # ys)" using ok by (auto simp: heap_ok_def)
  note b = chain_bounds [OF c] and nu = next_used [OF c] and r = request_props [of newsize]
  note unf = mem_trim_unfold [OF c sz] and tt = trim_tight [OF t, of ?s]
  have lu: "\<not> all_used xs \<Longrightarrow> first_free 0 xs < ?p" using first_free_lt [of xs 0] chain_good [OF c] by simp
  consider "?s + 8 = n" | "?s + 8 < n" "ys \<noteq> []" "\<not> snd (hd ys)"
    | "?s + 8 < n" "ys = [] \<or> snd (hd ys)" "?s + 20 \<le> n - 8" | "?s + 8 < n" "ys = [] \<or> snd (hd ys)" "\<not> ?s + 20 \<le> n - 8"
    using sz by linarith
  then show ?thesis
  proof cases
    case 2
    then obtain m zs where ys: "ys = (m, False) # zs" by (cases ys) (auto simp: prod_eq_iff)
    have m: "20 \<le> m" using chain_good [OF c] ys by simp
    let ?h = "h\<lparr>ram := cut ?p ?s (?p + n + m) (ram h), lfree := (if lfree h = ?p + n then ?p + 8 + ?s else lfree h)\<rparr>"
    have "chain (ram ?h) (trim_blocks xs n ?s ys)"
      using cut_chain [of "ram h" xs n "[(m, False)]" zs "?p + n + m" ?s] c ys m 2 r
      by (simp add: trim_blocks_def algebra_simps)
    moreover have "lfree ?h = first_free 0 (trim_blocks xs n ?s ys)"
    proof (cases "all_used xs")
      case True
      with l 2 ys show ?thesis by (simp add: trim_blocks_def first_free_append)
    next
      case False
      then have "lfree h < ?p" using l lu by (simp add: first_free_append)
      with False l 2 ys show ?thesis by (simp add: trim_blocks_def first_free_append)
    qed
    ultimately show ?thesis using tt unf 2 nu ys by (simp add: heap_ok_def)
  next
    case 3
    let ?h = "h\<lparr>ram := cut ?p ?s (?p + n) (ram h), lfree := (if ?p + 8 + ?s < lfree h then ?p + 8 + ?s else lfree h)\<rparr>"
    have "chain (ram ?h) (trim_blocks xs n ?s ys)"
      using cut_chain [of "ram h" xs n "[]" ys "?p + n" ?s] c 3 r by (auto simp: trim_blocks_def)
    moreover have "lfree ?h = first_free 0 (trim_blocks xs n ?s ys)"
    proof (cases "all_used xs")
      case True
      have "?p + n \<le> first_free (?p + n) ys" using first_free_split [of ys "?p + n"] by auto
      with True l 3 show ?thesis by (auto simp: trim_blocks_def first_free_append)
    next
      case False
      with l lu 3 show ?thesis by (auto simp: trim_blocks_def first_free_append)
    qed
    ultimately show ?thesis using tt unf 3 nu by (simp add: heap_ok_def)
  next
    case 4
    then show ?thesis using ok unf nu by (auto simp: trim_blocks_def)
  qed (use ok unf in \<open>auto simp: trim_blocks_def\<close>)
qed

end
