(* ===== verification/HeapOwners.thy ===== *)
theory HeapOwners
  imports MemProps
begin

text \<open>
  The heap as its callers see it: the blocks handed out, their disjointness, and the
  states that any use of the heap can reach.
\<close>

section \<open>The blocks handed out\<close>

fun payloads :: "nat \<Rightarrow> blocks \<Rightarrow> int set" where
  "payloads p [] = {}"
| "payloads p (b # bs) = (if snd b then insert (int (p + 8)) (payloads (p + fst b) bs) else payloads (p + fst b) bs)"

lemma payloads_append: "payloads p (xs @ ys) = payloads p xs \<union> payloads (p + span xs) ys"
  by (induction xs arbitrary: p) (auto simp: add.assoc)

lemma payloads_range: "good bs \<Longrightarrow> x \<in> payloads p bs \<Longrightarrow> int p + 8 \<le> x \<and> x \<le> int (p + span bs) - 12"
proof (induction bs arbitrary: p)
  case (Cons b bs)
  show ?case
  proof (cases "x \<in> payloads (p + fst b) bs")
    case True
    then show ?thesis using Cons.IH [of "p + fst b"] Cons.prems by auto
  next
    case False
    with Cons.prems show ?thesis by (auto split: if_splits)
  qed
qed simp

lemma payloads_member:
  assumes "good bs" and "x \<in> payloads p bs"
  shows "\<exists>xs n ys. bs = xs @ (n, True) # ys \<and> x = int (p + span xs + 8)"
  using assms
proof (induction bs arbitrary: p)
  case (Cons b bs)
  show ?case
  proof (cases "x \<in> payloads (p + fst b) bs")
    case True
    moreover have "good bs" using Cons.prems(1) by simp
    ultimately obtain xs n ys where "bs = xs @ (n, True) # ys" "x = int (p + fst b + span xs + 8)"
      using Cons.IH [of "p + fst b"] by blast
    then show ?thesis by (intro exI [of _ "b # xs"] exI [of _ n] exI [of _ ys]) auto
  next
    case False
    with Cons.prems have "snd b" "x = int (p + 8)" by (auto split: if_splits)
    then show ?thesis by (intro exI [of _ "[]"] exI [of _ "fst b"] exI [of _ bs]) (cases b, auto)
  qed
qed simp

lemma payloads_fresh:
  assumes "good (xs @ (n, u) # ys)"
  shows "int (p + span xs + 8) \<notin> payloads p xs" and "int (p + span xs + 8) \<notin> payloads (p + span xs + n) ys"
  using payloads_range [of xs "int (p + span xs + 8)" p] assms
    payloads_range [of ys "int (p + span xs + 8)" "p + span xs + n"] by auto

lemma payloads_carve:
  "payloads p (carve sz n @ ys) = insert (int (p + 8)) (payloads (p + n) ys)" if "sz + 8 \<le> n"
  using that by (auto simp: carve_def)

lemma payloads_free:
  assumes "good (xs @ (n, True) # ys)"
  shows "payloads 0 (free_blocks xs n ys) = payloads 0 (xs @ (n, True) # ys) - {int (span xs + 8)}"
proof -
  have "payloads 0 (free_blocks xs n ys) = payloads 0 xs \<union> payloads (span xs + n) ys"
    by (cases xs rule: rev_cases; cases ys)
      (auto simp: free_blocks_def join_next_def join_prev_def payloads_append Let_def add.assoc add.commute
        add.left_commute)
  with payloads_fresh [OF assms, of 0] show ?thesis by (auto simp: payloads_append)
qed

lemma payloads_trim:
  "sz + 8 \<le> n \<Longrightarrow> payloads 0 (trim_blocks xs n sz ys) = payloads 0 (xs @ (n, True) # ys)"
  by (cases ys) (auto simp: trim_blocks_def payloads_append add.assoc)

section \<open>The heap is an allocator\<close>

definition heap_owned :: "heap \<Rightarrow> int set \<Rightarrow> bool" where
  "heap_owned h L = (\<exists>bs. heap_ok h bs \<and> L = payloads 0 bs)"

lemma malloc_owned:
  assumes "heap_owned h L"
  shows "\<exists>r h'. mem_malloc sz h = Some (r, h') \<and>
    (case r of None \<Rightarrow> heap_owned h' L | Some p \<Rightarrow> p \<notin> L \<and> heap_owned h' (insert p L))"
proof (cases "sz = 0")
  case True
  with assms show ?thesis by (simp add: mem_malloc_def)
next
  case False
  obtain bs where ok: "heap_ok h bs" and L: "L = payloads 0 bs" using assms by (auto simp: heap_owned_def)
  let ?s = "request sz"
  obtain h' where h': "mem_malloc sz h = Some (map_option (\<lambda>p. int (p + 8)) (fit ?s 0 bs), h')"
    "heap_ok h' (alloc_blocks ?s bs)" using mem_malloc_refines_aux [OF ok False] by blast
  show ?thesis
  proof (cases "fit ?s 0 bs")
    case None
    with h' L show ?thesis by (auto simp: heap_owned_def alloc_blocks_None)
  next
    case (Some r)
    then obtain xs n ys where d: "bs = xs @ (n, False) # ys" "r = span xs" "?s + 8 \<le> n"
      "alloc_blocks ?s bs = xs @ carve ?s n @ ys" using alloc_blocks_Some [OF Some] by auto
    have "good bs" using ok by (simp add: heap_ok_def chain_def)
    then have "int (r + 8) \<notin> L" using payloads_fresh [of xs n False ys 0] d L by (auto simp: payloads_append)
    moreover have "payloads 0 (alloc_blocks ?s bs) = insert (int (r + 8)) L"
      using d L by (simp add: payloads_append [of 0 xs] payloads_carve)
    ultimately show ?thesis using h' Some by (auto simp: heap_owned_def)
  qed
qed

lemma free_owned:
  assumes "heap_owned h L" and "p \<in> L"
  shows "\<exists>h'. mem_free (Some p) h = Some h' \<and> heap_owned h' (L - {p})"
proof -
  obtain bs where ok: "heap_ok h bs" and L: "L = payloads 0 bs" using assms by (auto simp: heap_owned_def)
  have g: "good bs" using ok by (simp add: heap_ok_def chain_def)
  obtain xs n ys where d: "bs = xs @ (n, True) # ys" "p = int (span xs + 8)"
    using payloads_member [OF g, of p 0] assms(2) L by auto
  from mem_free_refines_aux [of h xs n ys] ok d obtain h' where
    "mem_free (Some p) h = Some h'" "heap_ok h' (free_blocks xs n ys)" by auto
  with payloads_free [of xs n ys] g d L show ?thesis by (auto simp: heap_owned_def)
qed

interpretation heap_alloc: allocator heap_owned "mem_malloc sz" "\<lambda>p. mem_free (Some p)" for sz
proof (unfold_locales, goal_cases)
  case (1 h L)
  then show ?case using malloc_owned [of h L sz] by auto
next
  case (2 h L h')
  then show ?case using malloc_owned [of h L sz] by auto
next
  case (3 h L p h')
  then show ?case using malloc_owned [of h L sz] by auto
next
  case (4 h L p)
  then show ?case by (rule free_owned)
qed

lemma trim_owned:
  assumes "heap_owned h L" and "p \<in> L" and "mem_trim p newsize h = Some (r, h')"
  shows "heap_owned h' L"
proof -
  obtain bs where ok: "heap_ok h bs" and L: "L = payloads 0 bs" using assms by (auto simp: heap_owned_def)
  have g: "good bs" and c: "chain (ram h) bs" using ok by (auto simp: heap_ok_def chain_def)
  obtain xs n ys where d: "bs = xs @ (n, True) # ys" "p = int (span xs + 8)"
    using payloads_member [OF g, of p 0] assms(2) L by auto
  note b = chain_bounds [OF c [unfolded d(1)]] and at = chain_at [OF c [unfolded d(1)]]
  consider "request newsize > MEM_SIZE_ALIGNED" | "request newsize \<le> MEM_SIZE_ALIGNED" "n < request newsize + 8"
    | "request newsize + 8 \<le> n" by linarith
  then show ?thesis
  proof cases
    case 1
    then have "h' = h" using assms(3) by (simp add: mem_trim_def request_def Let_def split: if_splits)
    with assms(1) show ?thesis by simp
  next
    case 2
    have s: "sub32 (span xs + n) (span xs + 8) = n - 8" using b by (subst sub32_ge) auto
    have n8: "nat (int (span xs) + 8) - 8 = span xs" by simp
    have "trunc16 (n - 8) = n - 8" using b by simp
    with 2 assms(3) at b(1) show ?thesis
      by (auto simp: mem_trim_def request_def Let_def d(2) s n8 split: if_splits)
  next
    case 3
    obtain h2 where "mem_trim p newsize h = Some (Some p, h2)" "heap_ok h2 (trim_blocks xs n (request newsize) ys)"
      using mem_trim_refines_aux [of h xs n ys] ok d 3 by auto
    with assms(3) payloads_trim [OF 3, of xs ys] d L show ?thesis by (auto simp: heap_owned_def)
  qed
qed

section \<open>What the operations promise\<close>

lemma mem_malloc_0: "mem_malloc 0 h = Some (None, h)"
  by (simp add: mem_malloc_def)

lemma mem_malloc_Some:
  assumes "heap_ok h bs" and m: "mem_malloc sz h = Some (Some p, h')"
  shows "\<exists>r. fit (request sz) 0 bs = Some r \<and> p = int (r + 8) \<and> heap_ok h' (alloc_blocks (request sz) bs)"
proof -
  have "sz \<noteq> 0" using m mem_malloc_0 [of h] by (metis option.inject option.distinct(1) prod.inject)
  from mem_malloc_refines_aux [OF assms(1) this] m show ?thesis
    by (cases "fit (request sz) 0 bs") auto
qed

definition too_small :: "nat \<Rightarrow> blocks \<Rightarrow> bool" where
  "too_small sz bs = (\<forall>b \<in> set bs. snd b \<or> fst b < sz + 8)"

lemma fit_None_iff: "fit sz p bs = None \<longleftrightarrow> too_small sz bs"
  by (induction bs arbitrary: p) (auto simp: too_small_def not_le)

lemma fit_Some_first:
  "fit sz p bs = Some r \<Longrightarrow>
   \<exists>xs n ys. bs = xs @ (n, False) # ys \<and> r = p + span xs \<and> sz + 8 \<le> n \<and> too_small sz xs \<and>
     alloc_blocks sz bs = xs @ carve sz n @ ys"
proof (induction bs arbitrary: p)
  case (Cons b bs)
  show ?case
  proof (cases "\<not> snd b \<and> sz + 8 \<le> fst b")
    case True
    with Cons.prems show ?thesis
      by (intro exI [of _ "[]"] exI [of _ "fst b"] exI [of _ bs]) (cases b, auto simp: too_small_def)
  next
    case False
    with Cons obtain xs n ys where "bs = xs @ (n, False) # ys" "r = p + fst b + span xs" "sz + 8 \<le> n"
      "too_small sz xs" "alloc_blocks sz bs = xs @ carve sz n @ ys" by (metis (no_types, lifting) fit.simps(2))
    with False show ?thesis
      by (intro exI [of _ "b # xs"] exI [of _ n] exI [of _ ys]) (auto simp: too_small_def)
  qed
qed simp

text \<open>Claim C20: \<open>mem_malloc\<close> is a first-fit allocator and complete. On a well-formed heap it
  always returns. It returns null only if no free block can hold the rounded request, and
  otherwise takes the lowest free block that can, splitting off the rest when a header and
  12 bytes fit in it; the heap stays well-formed and every other block is untouched.\<close>

theorem mem_malloc_first_fit:
  assumes "heap_ok h bs" and "sz \<noteq> 0"
  shows "\<exists>r h'. mem_malloc sz h = Some (r, h') \<and>
    (case r of
       None \<Rightarrow> too_small (request sz) bs \<and> heap_ok h' bs
     | Some p \<Rightarrow> \<exists>xs n ys. bs = xs @ (n, False) # ys \<and> too_small (request sz) xs \<and>
         request sz + 8 \<le> n \<and> p = int (span xs + 8) \<and> heap_ok h' (xs @ carve (request sz) n @ ys))"
proof -
  obtain h' where h': "mem_malloc sz h = Some (map_option (\<lambda>p. int (p + 8)) (fit (request sz) 0 bs), h')"
    "heap_ok h' (alloc_blocks (request sz) bs)" using mem_malloc_refines_aux [OF assms] by blast
  show ?thesis
  proof (cases "fit (request sz) 0 bs")
    case None
    with h' fit_None_iff alloc_blocks_None show ?thesis by fastforce
  next
    case (Some r)
    from fit_Some_first [OF this] h' Some show ?thesis by fastforce
  qed
qed

lemma free_undoes_carve:
  assumes "tight (xs @ (n, False) # ys)" and "sz + 8 \<le> n"
  shows "\<exists>m zs. carve sz n @ ys = (m, True) # zs \<and> free_blocks xs m zs = xs @ (n, False) # ys"
proof -
  have 1: "xs \<noteq> [] \<longrightarrow> snd (last xs)" using assms(1) by (auto simp: tight_append)
  have 2: "ys \<noteq> [] \<longrightarrow> snd (hd ys)" using assms(1) by (cases ys) (auto simp: tight_append)
  show ?thesis using assms(2) 1 2
    by (auto simp: carve_def free_blocks_def join_next_def join_prev_def Let_def)
qed

lemma malloc_then_free:
  assumes "heap_ok h bs" and "mem_malloc sz h = Some (Some p, h')"
  shows "\<exists>h''. mem_free (Some p) h' = Some h'' \<and> heap_ok h'' bs"
proof -
  obtain r where f: "fit (request sz) 0 bs = Some r" "p = int (r + 8)" and ok: "heap_ok h' (alloc_blocks (request sz) bs)"
    using mem_malloc_Some [OF assms] by blast
  obtain xs n ys where d: "bs = xs @ (n, False) # ys" "r = span xs" "request sz + 8 \<le> n"
    "alloc_blocks (request sz) bs = xs @ carve (request sz) n @ ys" using alloc_blocks_Some [OF f(1)] by auto
  have "tight (xs @ (n, False) # ys)" using assms(1) d(1) by (simp add: heap_ok_def)
  from free_undoes_carve [OF this d(3)] obtain m zs where
    z: "carve (request sz) n @ ys = (m, True) # zs" "free_blocks xs m zs = bs" using d(1) by auto
  with ok d have "heap_ok h' (xs @ (m, True) # zs)" by simp
  from mem_free_refines_aux [OF this] f d z show ?thesis by simp
qed


text \<open>\<open>mem_free\<close> undoes \<open>mem_malloc\<close>. A block that has just been allocated can be
  freed, no assertion fails, and the heap has exactly the blocks it had before, however the
  allocation split them.\<close>

theorem free_undoes_malloc:
  assumes "heap_ok h bs" and "mem_malloc sz h = Some (Some p, h')"
  shows "\<exists>h''. mem_free (Some p) h' = Some h'' \<and> heap_ok h'' bs"
  by (rule malloc_then_free [OF assms])

text \<open>Shrinking a block in place. \<open>mem_trim\<close> to a size the block has room for returns
  the same pointer; the block keeps at least the rounded size, the blocks below it are
  untouched, and the heap stays well-formed. It keeps more than asked only when the block
  behind it is used and the rest could not hold a header and 12 bytes.\<close>

theorem mem_trim_in_place:
  assumes "heap_ok h (xs @ (n, True) # ys)" and "request newsize + 8 \<le> n"
  shows "\<exists>h' m zs. mem_trim (int (span xs + 8)) newsize h = Some (Some (int (span xs + 8)), h') \<and>
     heap_ok h' (xs @ (m, True) # zs) \<and> m \<le> n \<and>
     (m = request newsize + 8 \<or> m = n \<and> n < request newsize + 28 \<and> (ys = [] \<or> snd (hd ys)))"
proof -
  obtain h' where h': "mem_trim (int (span xs + 8)) newsize h = Some (Some (int (span xs + 8)), h')"
    "heap_ok h' (trim_blocks xs n (request newsize) ys)" using mem_trim_refines_aux [OF assms] by blast
  have "\<exists>m zs. trim_blocks xs n (request newsize) ys = xs @ (m, True) # zs \<and> m \<le> n \<and>
     (m = request newsize + 8 \<or> m = n \<and> n < request newsize + 28 \<and> (ys = [] \<or> snd (hd ys)))"
    using assms(2) by (auto simp: trim_blocks_def)
  then obtain m zs where t: "trim_blocks xs n (request newsize) ys = xs @ (m, True) # zs" "m \<le> n"
    "m = request newsize + 8 \<or> m = n \<and> n < request newsize + 28 \<and> (ys = [] \<or> snd (hd ys))" by blast
  have "heap_ok h' (xs @ (m, True) # zs)" using h'(2) t(1) by simp
  with h'(1) t(2,3) show ?thesis by blast
qed

text \<open>A second \<open>mem_free\<close> of the same block is caught. The header of a freed block
  stays marked unused even when the block has been joined with its neighbours, so the
  assertion of the second call fails and it never returns.\<close>

lemma plug_used [simp]:
  "mused (ram (plug_forward p h) x) = mused (ram h x)" "mused (ram (plug_backward p h) x) = mused (ram h x)"
  by (auto simp: plug_forward_def plug_backward_def upd_def Let_def)

theorem double_free_stops:
  assumes "mem_free (Some p) h = Some h'"
  shows "mem_free (Some p) h' = None"
proof -
  have "\<not> mused (ram h' (nat p - 8))"
    using assms by (auto simp: mem_free_def plug_holes_def upd_def Let_def split: if_splits)
  then show ?thesis by (simp add: mem_free_def Let_def)
qed

section \<open>The room behind each pointer\<close>

text \<open>The bytes that a block handed out has, from its pointer to the next header.\<close>

fun room :: "nat \<Rightarrow> blocks \<Rightarrow> int \<Rightarrow> nat option" where
  "room p [] = Map.empty"
| "room p (b # bs) = (if snd b then (room (p + fst b) bs)(int (p + 8) \<mapsto> fst b - 8) else room (p + fst b) bs)"

lemma dom_room: "dom (room p bs) = payloads p bs"
  by (induction bs arbitrary: p) auto

lemma room_append: "room p (xs @ ys) = room (p + span xs) ys ++ room p xs"
  by (induction xs arbitrary: p) (auto simp: add.assoc)

lemma room_range:
  "good bs \<Longrightarrow> room p bs q = Some n \<Longrightarrow> int p + 8 \<le> q \<and> q + int n \<le> int (p + span bs) \<and> 4 dvd q - int p"
proof (induction bs arbitrary: p)
  case (Cons b bs)
  then have "4 dvd int (fst b)" by (metis good_simps(2) int_dvd_int_iff of_nat_numeral)
  moreover have "4 dvd q - int p" if "4 dvd q - int (p + fst b)"
    using dvd_add [OF that \<open>4 dvd int (fst b)\<close>] by simp
  ultimately show ?case using Cons.prems Cons.IH [of "p + fst b"] by (fastforce split: if_splits)
qed simp

lemma room_apart:
  "good bs \<Longrightarrow> room p bs q = Some n \<Longrightarrow> room p bs r = Some m \<Longrightarrow> q < r \<Longrightarrow> q + int n + 8 \<le> r"
proof (induction bs arbitrary: p)
  case (Cons b bs)
  note range = room_range [of bs "p + fst b"]
  show ?case
  proof (cases "snd b \<and> q = int (p + 8)")
    case True
    then have "room (p + fst b) bs r = Some m" "n = fst b - 8" using Cons.prems by auto
    with range True Cons.prems(1) show ?thesis by fastforce
  next
    case False
    then have q: "room (p + fst b) bs q = Some n" using Cons.prems(2) by (auto split: if_splits)
    then have "r \<noteq> int (p + 8)" using range Cons.prems(1,4) by fastforce
    then have "room (p + fst b) bs r = Some m" using Cons.prems(3) by (auto split: if_splits)
    with q Cons show ?thesis by auto
  qed
qed simp

lemma room_fresh:
  assumes "good (xs @ (n, u) # ys)"
  shows "room 0 xs (int (span xs + 8)) = None" and "room (span xs + n) ys (int (span xs + 8)) = None"
  using payloads_fresh [OF assms, of 0] dom_room [of 0 xs] dom_room [of "span xs + n" ys] by auto

lemma room_carve:
  assumes "good (xs @ (n, False) # ys)" and "sz + 8 \<le> n"
  shows "\<exists>m \<ge> sz. room 0 (xs @ carve sz n @ ys) = (room 0 (xs @ (n, False) # ys))(int (span xs + 8) \<mapsto> m)"
proof -
  have k: "int (span xs + 8) \<notin> dom (room 0 xs)" using room_fresh [OF assms(1)] by auto
  show ?thesis
  proof (cases "sz + 20 \<le> n - 8")
    case True
    then have "room 0 (xs @ carve sz n @ ys) = (room 0 (xs @ (n, False) # ys))(int (span xs + 8) \<mapsto> sz)"
      using k assms(2) by (simp add: carve_def room_append map_add_upd_left)
    then show ?thesis by blast
  next
    case False
    then have "room 0 (xs @ carve sz n @ ys) = (room 0 (xs @ (n, False) # ys))(int (span xs + 8) \<mapsto> n - 8)"
      using k by (simp add: carve_def room_append map_add_upd_left)
    then show ?thesis using assms(2) by (intro exI [of _ "n - 8"]) simp
  qed
qed

lemma room_used:
  assumes "good (xs @ (n, True) # ys)"
  shows "room 0 (xs @ (n, True) # ys) = (room (span xs + n) ys ++ room 0 xs)(int (span xs + 8) \<mapsto> n - 8)"
  using room_fresh [OF assms] by (simp add: room_append map_add_upd_left domIff)

lemma room_free:
  assumes "good (xs @ (n, True) # ys)"
  shows "room 0 (free_blocks xs n ys) = (room 0 (xs @ (n, True) # ys))(int (span xs + 8) := None)"
proof -
  have "room 0 (free_blocks xs n ys) = room (span xs + n) ys ++ room 0 xs"
    by (cases xs rule: rev_cases; cases ys)
      (auto simp: free_blocks_def join_next_def join_prev_def room_append Let_def add.assoc add.commute
        add.left_commute)
  moreover have "(room (span xs + n) ys ++ room 0 xs) (int (span xs + 8)) = None"
    using room_fresh [OF assms] by (simp add: map_add_def)
  ultimately show ?thesis by (simp add: room_used [OF assms] fun_upd_idem)
qed

lemma room_trim:
  assumes "good (xs @ (n, True) # ys)" and "sz + 8 \<le> n"
  shows "\<exists>m \<ge> sz. room 0 (trim_blocks xs n sz ys) = (room 0 (xs @ (n, True) # ys))(int (span xs + 8) \<mapsto> m)"
proof -
  have k: "int (span xs + 8) \<notin> dom (room 0 xs)" using room_fresh [OF assms(1)] by auto
  have "\<exists>m zs. trim_blocks xs n sz ys = xs @ (m, True) # zs \<and> sz + 8 \<le> m \<and> room (span xs + m) zs = room (span xs + n) ys"
    using assms(2) by (cases ys) (auto simp: trim_blocks_def add.assoc)
  then obtain m zs where z: "trim_blocks xs n sz ys = xs @ (m, True) # zs" "sz + 8 \<le> m"
    "room (span xs + m) zs = room (span xs + n) ys" by blast
  have "room 0 (trim_blocks xs n sz ys) = (room 0 (xs @ (n, True) # ys))(int (span xs + 8) \<mapsto> m - 8)"
    using k z(1,3) by (simp add: room_append map_add_upd_left)
  then show ?thesis using z(2) by (intro exI [of _ "m - 8"]) simp
qed

section \<open>Any use of the heap\<close>

text \<open>
  Callers allocate, free and shrink blocks they own, in any order; a call that does not
  return is not a step. \<open>L p\<close> is the size for which the block at \<open>p\<close> was asked for last.
  A request of more than 65532 bytes is no step of such a caller: it would be served with
  12 bytes (\<open>mem_malloc_wraps\<close>).
\<close>

type_synonym owned = "int \<Rightarrow> nat option"

inductive heap_step :: "heap \<times> owned \<Rightarrow> heap \<times> owned \<Rightarrow> bool" where
  malloc: "sz \<le> 65532 \<Longrightarrow> mem_malloc sz h = Some (Some p, h') \<Longrightarrow> heap_step (h, L) (h', L(p \<mapsto> sz))"
| null: "mem_malloc sz h = Some (None, h') \<Longrightarrow> heap_step (h, L) (h', L)"
| free: "p \<in> dom L \<Longrightarrow> mem_free (Some p) h = Some h' \<Longrightarrow> heap_step (h, L) (h', L(p := None))"
| trim: "p \<in> dom L \<Longrightarrow> sz \<le> 65532 \<Longrightarrow> mem_trim p sz h = Some (Some q, h') \<Longrightarrow> heap_step (h, L) (h', L(q \<mapsto> sz))"
| untrimmed: "p \<in> dom L \<Longrightarrow> mem_trim p sz h = Some (None, h') \<Longrightarrow> heap_step (h, L) (h', L)"

inductive_cases heap_stepE: "heap_step (h, L) c'"

text \<open>Every owned block has at least the room asked for, and no other block is in use.\<close>

definition heap_sized :: "heap \<Rightarrow> owned \<Rightarrow> bool" where
  "heap_sized h L = (\<exists>bs. heap_ok h bs \<and> (\<forall>p. rel_option (\<le>) (L p) (room 0 bs p)))"

lemma heap_ok_good: "heap_ok h bs \<Longrightarrow> good bs"
  by (auto simp: heap_ok_def intro: chain_good)

lemma rel_option_dom: "\<forall>p. rel_option R (f p) (g p) \<Longrightarrow> dom f = dom g"
proof (intro set_eqI)
  fix p assume "\<forall>p. rel_option R (f p) (g p)"
  then have "rel_option R (f p) (g p)" ..
  then show "p \<in> dom f \<longleftrightarrow> p \<in> dom g" by (cases "f p"; cases "g p") auto
qed

lemma rel_option_upd: "\<forall>p. rel_option (\<le>) (f p) (g p) \<Longrightarrow> n \<le> m \<Longrightarrow> \<forall>p. rel_option (\<le>) ((f(k \<mapsto> n)) p) ((g(k \<mapsto> m :: nat)) p)"
  by simp

lemma sized_owned: "heap_sized h L \<Longrightarrow> heap_owned h (dom L)"
proof -
  assume "heap_sized h L"
  then obtain bs where "heap_ok h bs" "\<forall>p. rel_option (\<le>) (L p) (room 0 bs p)" by (auto simp: heap_sized_def)
  with rel_option_dom [of "(\<le>)" L "room 0 bs"] dom_room [of 0 bs] show ?thesis by (auto simp: heap_owned_def)
qed

lemma malloc_sized:
  assumes "heap_sized h L" and "sz \<le> 65532" and m: "mem_malloc sz h = Some (Some p, h')"
  shows "L p = None \<and> heap_sized h' (L(p \<mapsto> sz))"
proof -
  obtain bs where ok: "heap_ok h bs" and L: "\<forall>p. rel_option (\<le>) (L p) (room 0 bs p)" using assms(1) by (auto simp: heap_sized_def)
  obtain r where f: "fit (request sz) 0 bs = Some r" "p = int (r + 8)" and ok': "heap_ok h' (alloc_blocks (request sz) bs)"
    using mem_malloc_Some [OF ok m] by blast
  obtain xs n ys where d: "bs = xs @ (n, False) # ys" "r = span xs" "request sz + 8 \<le> n"
    "alloc_blocks (request sz) bs = xs @ carve (request sz) n @ ys" using alloc_blocks_Some [OF f(1)] by auto
  obtain k where k: "request sz \<le> k" "room 0 (alloc_blocks (request sz) bs) = (room 0 bs)(p \<mapsto> k)"
    using room_carve [OF heap_ok_good [OF ok, unfolded d(1)] d(3)] d f(2) by metis
  have "sz \<le> k" using request_exact [OF assms(2)] k(1) by simp
  with ok' k(2) rel_option_upd [OF L this, of p] have "heap_sized h' (L(p \<mapsto> sz))" unfolding heap_sized_def by metis
  moreover have "p \<notin> dom L" using malloc_owned [OF sized_owned [OF assms(1)], of sz] m by auto
  ultimately show ?thesis by blast
qed

lemma null_sized:
  assumes "heap_sized h L" and m: "mem_malloc sz h = Some (None, h')"
  shows "heap_sized h' L"
proof (cases "sz = 0")
  case True
  with assms show ?thesis by (simp add: mem_malloc_def)
next
  case False
  obtain bs where ok: "heap_ok h bs" and L: "\<forall>p. rel_option (\<le>) (L p) (room 0 bs p)" using assms(1) by (auto simp: heap_sized_def)
  from mem_malloc_refines_aux [OF ok False] m have "heap_ok h' bs"
    by (cases "fit (request sz) 0 bs") (auto simp: alloc_blocks_None)
  with L show ?thesis by (auto simp: heap_sized_def)
qed

lemma owned_block:
  assumes "heap_ok h bs" and "\<forall>p. rel_option (\<le>) (L p) (room 0 bs p)" and "p \<in> dom L"
  obtains xs n ys where "bs = xs @ (n, True) # ys" "p = int (span xs + 8)" "good (xs @ (n, True) # ys)"
proof -
  have "p \<in> payloads 0 bs" using assms(3) rel_option_dom [OF assms(2)] dom_room by metis
  from payloads_member [OF heap_ok_good [OF assms(1)] this] heap_ok_good [OF assms(1)] that show thesis by auto
qed

lemma free_sized:
  assumes "heap_sized h L" and p: "p \<in> dom L" and f: "mem_free (Some p) h = Some h'"
  shows "heap_sized h' (L(p := None))"
proof -
  obtain bs where ok: "heap_ok h bs" and L: "\<forall>p. rel_option (\<le>) (L p) (room 0 bs p)" using assms(1) by (auto simp: heap_sized_def)
  obtain xs n ys where d: "bs = xs @ (n, True) # ys" "p = int (span xs + 8)" and g: "good (xs @ (n, True) # ys)"
    by (rule owned_block [OF ok L p])
  from mem_free_refines_aux [of h xs n ys] ok d f have "heap_ok h' (free_blocks xs n ys)" by auto
  moreover have "room 0 (free_blocks xs n ys) = (room 0 bs)(p := None)" using room_free [OF g] d by simp
  ultimately show ?thesis using L by (auto simp: heap_sized_def intro!: exI [of _ "free_blocks xs n ys"])
qed

lemma trim_sized:
  assumes "heap_sized h L" and p: "p \<in> dom L" and "sz \<le> 65532" and t: "mem_trim p sz h = Some (r, h')"
  shows "heap_sized h' (case r of None \<Rightarrow> L | Some q \<Rightarrow> L(q \<mapsto> sz))"
proof -
  obtain bs where ok: "heap_ok h bs" and L: "\<forall>p. rel_option (\<le>) (L p) (room 0 bs p)" using assms(1) by (auto simp: heap_sized_def)
  obtain xs n ys where d: "bs = xs @ (n, True) # ys" "p = int (span xs + 8)" and g: "good (xs @ (n, True) # ys)"
    by (rule owned_block [OF ok L p])
  have c: "chain (ram h) (xs @ (n, True) # ys)" using ok d(1) by (simp add: heap_ok_def)
  note b = chain_bounds [OF c] and at = chain_at [OF c]
  consider "request sz > MEM_SIZE_ALIGNED" | "request sz \<le> MEM_SIZE_ALIGNED" "n < request sz + 8"
    | "request sz + 8 \<le> n" by linarith
  then show ?thesis
  proof cases
    case 1
    then have "h' = h" "r = None" using t by (auto simp: mem_trim_def request_def Let_def split: if_splits)
    with assms(1) show ?thesis by simp
  next
    case 2
    have s: "sub32 (span xs + n) (span xs + 8) = n - 8" using b by (subst sub32_ge) auto
    have n8: "nat (int (span xs) + 8) - 8 = span xs" by simp
    have "trunc16 (n - 8) = n - 8" using b by simp
    with 2 t at b(1) show ?thesis by (auto simp: mem_trim_def request_def Let_def d(2) s n8 split: if_splits)
  next
    case 3
    obtain h2 where h2: "mem_trim p sz h = Some (Some p, h2)" "heap_ok h2 (trim_blocks xs n (request sz) ys)"
      using mem_trim_refines_aux [of h xs n ys] ok d 3 by auto
    obtain m where m: "request sz \<le> m" "room 0 (trim_blocks xs n (request sz) ys) = (room 0 bs)(p \<mapsto> m)"
      using room_trim [OF g 3] d by auto
    have "sz \<le> m" using request_exact [OF assms(3)] m(1) by simp
    with h2 m(2) rel_option_upd [OF L this, of p] t show ?thesis unfolding heap_sized_def by (fastforce split: option.splits)
  qed
qed

lemma untrimmed_sized: "mem_trim p sz h = Some (None, h') \<Longrightarrow> h' = h"
  by (auto simp: mem_trim_def Let_def split: if_splits bind_splits)

lemma heap_step_sized: "heap_step c c' \<Longrightarrow> heap_sized (fst c) (snd c) \<Longrightarrow> heap_sized (fst c') (snd c')"
proof (induction rule: heap_step.induct)
  case (malloc sz h p h' L)
  then show ?case using malloc_sized [of h L sz p h'] by (simp only: fst_conv snd_conv)
next
  case (null sz h h' L)
  then show ?case using null_sized by simp
next
  case (free p L h h')
  then show ?case using free_sized [of h L p h'] by (simp only: fst_conv snd_conv)
next
  case (trim p L sz h q h')
  then show ?case using trim_sized [of h L p sz "Some q" h'] by (simp only: fst_conv snd_conv option.case)
next
  case (untrimmed p L sz h h')
  then show ?case using untrimmed_sized [of p sz h h'] by (simp only: fst_conv snd_conv)
qed

lemma heap_steps_sized:
  assumes "heap_step\<^sup>*\<^sup>* (mem_init h0, Map.empty) (h, L)"
  shows "heap_sized h L"
proof -
  have "heap_sized (mem_init h0) Map.empty"
    using mem_init_ok by (fastforce simp: heap_sized_def)
  with assms show ?thesis
    by (induction "(h, L)" arbitrary: h L rule: rtranclp_induct) (force dest: heap_step_sized)+
qed

lemma sized_inside:
  assumes "heap_sized h L" and "L p = Some s"
  shows "p mod 4 = 0 \<and> 8 \<le> p \<and> p + int s \<le> 6144"
proof -
  obtain bs where ok: "heap_ok h bs" and L: "rel_option (\<le>) (L p) (room 0 bs p)" using assms(1) by (auto simp: heap_sized_def)
  obtain n where n: "room 0 bs p = Some n" "s \<le> n" using L assms(2) by (auto simp: rel_option_iff split: option.splits)
  have "span bs = 6144" using ok chain_total by (auto simp: heap_ok_def)
  with room_range [OF heap_ok_good [OF ok] n(1)] n(2) show ?thesis by auto
qed

lemma sized_apart:
  assumes "heap_sized h L" and "L p = Some s" and "L q = Some t" and "p < q"
  shows "p + int s + 8 \<le> q"
proof -
  obtain bs where ok: "heap_ok h bs" and L: "\<forall>p. rel_option (\<le>) (L p) (room 0 bs p)" using assms(1) by (auto simp: heap_sized_def)
  obtain n where n: "room 0 bs p = Some n" "s \<le> n" using L [rule_format, of p] assms(2) by (auto simp: rel_option_iff split: option.splits)
  obtain m where m: "room 0 bs q = Some m" using L [rule_format, of q] assms(3) by (auto simp: rel_option_iff split: option.splits)
  from room_apart [OF heap_ok_good [OF ok] n(1) m assms(4)] n(2) show ?thesis by simp
qed

lemma no_payloads: "payloads p bs = {} \<Longrightarrow> tight bs \<Longrightarrow> length bs \<le> 1"
  by (induction bs rule: tight.induct) (auto split: if_splits)

lemma sized_empty:
  assumes "heap_sized h Map.empty"
  shows "heap_ok h [(6144, False)]"
proof -
  obtain bs where ok: "heap_ok h bs" and L: "payloads 0 bs = {}"
    using sized_owned [OF assms] by (auto simp: heap_owned_def)
  have c: "chain (ram h) bs" and t: "tight bs" using ok by (auto simp: heap_ok_def)
  have "length bs \<le> 1" using no_payloads [OF L t] .
  moreover have "span bs = 6144" using chain_total [OF c] .
  ultimately have "bs = [(6144, False)]" using L by (cases bs) (auto simp: prod_eq_iff split: if_splits)
  with ok show ?thesis by simp
qed

text \<open>Claim C19: the heap is safe to use and does not leak. In every state that allocations,
  releases and trims of owned blocks can reach from \<open>mem_init\<close>, with requests of up to 65532
  bytes: every owned block is aligned, has all the bytes asked for inside the heap, and can be
  freed without failing an assertion; between two owned blocks there is room for a header; an
  allocation of any size returns, and all the bytes of a block it returns are inside
  the heap and apart from every owned block and its header; and once nothing is owned the heap is one free
  block again.\<close>

theorem heap_clients_safe:
  assumes "heap_step\<^sup>*\<^sup>* (mem_init h0, Map.empty) (h, L)"
  shows "(\<forall>p s. L p = Some s \<longrightarrow>
       p mod 4 = 0 \<and> 8 \<le> p \<and> p + int s \<le> 6144 \<and> (\<exists>h'. mem_free (Some p) h = Some h')) \<and>
     (\<forall>p q s t. L p = Some s \<longrightarrow> L q = Some t \<longrightarrow> p < q \<longrightarrow> p + int s + 8 \<le> q) \<and>
     (\<exists>r h'. mem_malloc sz h = Some (r, h') \<and>
       (\<forall>p. r = Some p \<longrightarrow> sz \<le> 65532 \<longrightarrow>
          p mod 4 = 0 \<and> 8 \<le> p \<and> p + int sz \<le> 6144 \<and>
          (\<forall>q t. L q = Some t \<longrightarrow> q + int t + 8 \<le> p \<or> p + int sz + 8 \<le> q))) \<and>
     (L = Map.empty \<longrightarrow> heap_ok h [(6144, False)])"
proof (intro conjI allI impI)
  have o: "heap_sized h L" using heap_steps_sized [OF assms] .
  show "p mod 4 = 0" "8 \<le> p" "p + int s \<le> 6144" if "L p = Some s" for p s
    using sized_inside [OF o that] by auto
  show "\<exists>h'. mem_free (Some p) h = Some h'" if "L p = Some s" for p s
    using heap_alloc.release_ok [OF sized_owned [OF o], of p] that by auto
  show "p + int s + 8 \<le> q" if "L p = Some s" "L q = Some t" "p < q" for p q s t
    using sized_apart [OF o that] .
  show "heap_ok h [(6144, False)]" if "L = Map.empty" using o that sized_empty by simp
  obtain r h' where m: "mem_malloc sz h = Some (r, h')" using heap_alloc.alloc_returns [OF sized_owned [OF o]] by blast
  have "p mod 4 = 0 \<and> 8 \<le> p \<and> p + int sz \<le> 6144 \<and> (\<forall>q t. L q = Some t \<longrightarrow> q + int t + 8 \<le> p \<or> p + int sz + 8 \<le> q)"
    if r: "r = Some p" "sz \<le> 65532" for p
  proof -
    have n: "L p = None" "heap_sized h' (L(p \<mapsto> sz))" using malloc_sized [OF o r(2)] m r(1) by auto
    have "q + int t + 8 \<le> p \<or> p + int sz + 8 \<le> q" if q: "L q = Some t" for q t
      using sized_apart [OF n(2), of q t p sz] sized_apart [OF n(2), of p sz q t] q n(1) by (cases q p rule: linorder_cases) auto
    with sized_inside [OF n(2), of p sz] show ?thesis by auto
  qed
  with m show "\<exists>r h'. mem_malloc sz h = Some (r, h') \<and>
     (\<forall>p. r = Some p \<longrightarrow> sz \<le> 65532 \<longrightarrow>
        p mod 4 = 0 \<and> 8 \<le> p \<and> p + int sz \<le> 6144 \<and>
        (\<forall>q t. L q = Some t \<longrightarrow> q + int t + 8 \<le> p \<or> p + int sz + 8 \<le> q))" by blast
qed

text \<open>The alignment of the request wraps. \<open>LWIP_MEM_ALIGN_SIZE\<close> of 65533 to 65535
  is 0 in a \<open>mem_size_t\<close>, so a request for nearly 64 KB is served like one for 12 bytes
  instead of being refused.\<close>

theorem mem_malloc_wraps:
  assumes "65533 \<le> sz" and "sz \<le> 65535"
  shows "mem_malloc sz h = mem_malloc 12 h"
proof -
  have "sz = 65533 \<or> sz = 65534 \<or> sz = 65535" using assms by linarith
  then have "align_size sz = 0" by (auto simp: align_size_def trunc16_def)
  moreover have "align_size 12 = 12" by (simp add: align_size_def trunc16_def)
  ultimately show ?thesis using assms by (simp add: mem_malloc_def)
qed

text \<open>\<open>mem_calloc\<close> does not check its product. When \<open>count * size\<close> needs more than 16
  bits, the block is allocated for the low 16 bits only and \<open>memset\<close> clears the full
  product: a call that returns a block writes past the end of the heap.\<close>

theorem mem_calloc_overflows:
  assumes "heap_ok h bs" and "65536 \<le> count * sz" and "mem_calloc count sz h = Some (Some p, h', cleared)"
  shows "mem_malloc (trunc16 (count * sz)) h = Some (Some p, h') \<and> 6144 < p + int cleared"
proof -
  have m: "mem_malloc (trunc16 (count * sz)) h = Some (Some p, h')" and c: "cleared = count * sz"
    using assms(3) by (auto simp: mem_calloc_def Option.bind_eq_Some_conv split: prod.splits)
  have "0 \<le> p" using mem_malloc_Some [OF assms(1) m] by auto
  with m c assms(2) show ?thesis by linarith
qed

section \<open>Concrete runs\<close>

definition ex_heap :: heap where
  "ex_heap = mem_init \<lparr>ram = (\<lambda>_. \<lparr>mnext = 0, mprev = 0, mused = False\<rparr>), lfree = 0\<rparr>"

lemma ex_heap_ok: "heap_ok ex_heap [(6144, False)]"
  unfolding ex_heap_def by (rule mem_init_ok)

text \<open>The heap after a first allocation of 100 bytes: a block of 108 and the rest.\<close>

lemma ex_malloc_100:
  "\<exists>h. mem_malloc 100 ex_heap = Some (Some 8, h) \<and> heap_ok h [(108, True), (6036, False)]"
  using mem_malloc_refines_aux [OF ex_heap_ok, of 100]
  by (simp add: request_def align_size_def trunc16_def carve_def)

theorem mem_malloc_first_fit_witness:
  "\<exists>r h'. mem_malloc 100 ex_heap = Some (r, h') \<and>
    (case r of
       None \<Rightarrow> too_small (request 100) [(6144, False)] \<and> heap_ok h' [(6144, False)]
     | Some p \<Rightarrow> \<exists>xs n ys. [(6144, False)] = xs @ (n, False) # ys \<and> too_small (request 100) xs \<and>
         request 100 + 8 \<le> n \<and> p = int (span xs + 8) \<and> heap_ok h' (xs @ carve (request 100) n @ ys))"
  by (rule mem_malloc_first_fit [OF ex_heap_ok]) simp

theorem free_undoes_malloc_witness:
  "\<exists>h h'. mem_malloc 100 ex_heap = Some (Some 8, h) \<and> mem_free (Some 8) h = Some h' \<and> heap_ok h' [(6144, False)]"
  using ex_malloc_100 free_undoes_malloc [OF ex_heap_ok, of 100 8] by blast

theorem mem_trim_in_place_witness:
  "\<exists>h h' m zs. mem_malloc 100 ex_heap = Some (Some 8, h) \<and> mem_trim 8 40 h = Some (Some 8, h') \<and>
     heap_ok h' ((m, True) # zs) \<and> m = 48"
proof -
  have r: "request 40 = 40" by (simp add: request_def align_size_def trunc16_def)
  obtain h where h: "mem_malloc 100 ex_heap = Some (Some 8, h)" "heap_ok h [(108, True), (6036, False)]"
    using ex_malloc_100 by blast
  from mem_trim_in_place [of h "[]" 108 "[(6036, False)]" 40] h show ?thesis by (auto simp: r)
qed

theorem double_free_stops_witness:
  "\<exists>h h'. mem_malloc 100 ex_heap = Some (Some 8, h) \<and> mem_free (Some 8) h = Some h' \<and> mem_free (Some 8) h' = None"
proof -
  obtain h where h: "mem_malloc 100 ex_heap = Some (Some 8, h)" "heap_ok h [(108, True), (6036, False)]"
    using ex_malloc_100 by blast
  obtain h' where h': "mem_free (Some 8) h = Some h'"
    using mem_free_refines_aux [of h "[]" 108 "[(6036, False)]"] h(2) by auto
  from double_free_stops [OF h'] h h' show ?thesis by blast
qed

theorem heap_clients_safe_witness:
  "\<exists>h. heap_step\<^sup>*\<^sup>* (ex_heap, Map.empty) (h, [8 \<mapsto> 100]) \<and> (\<exists>h'. mem_free (Some 8) h = Some h')"
proof -
  obtain h where h: "mem_malloc 100 ex_heap = Some (Some 8, h)" using ex_malloc_100 by blast
  then have r: "heap_step\<^sup>*\<^sup>* (ex_heap, Map.empty) (h, [8 \<mapsto> 100])" using heap_step.malloc [of 100 ex_heap 8 h] by (intro r_into_rtranclp) simp
  have "[8 \<mapsto> 100] 8 = Some (100 :: nat)" by simp
  then have "\<exists>h'. mem_free (Some 8) h = Some h'" using heap_clients_safe [OF r [unfolded ex_heap_def]] by blast
  with r show ?thesis by blast
qed

theorem mem_malloc_wraps_witness:
  "\<exists>h. mem_malloc 65535 ex_heap = Some (Some 8, h) \<and> heap_ok h [(20, True), (6124, False)]"
proof -
  have "\<exists>h. mem_malloc 12 ex_heap = Some (Some 8, h) \<and> heap_ok h [(20, True), (6124, False)]"
    using mem_malloc_refines_aux [OF ex_heap_ok, of 12]
    by (simp add: request_def align_size_def trunc16_def carve_def)
  with mem_malloc_wraps [of 65535 ex_heap] show ?thesis by simp
qed

theorem mem_calloc_overflows_witness:
  "\<exists>h cleared. mem_calloc 257 256 ex_heap = Some (Some 8, h, cleared) \<and> 6144 < 8 + int cleared"
proof -
  obtain h where "mem_malloc 256 ex_heap = Some (Some 8, h)"
    using mem_malloc_refines_aux [OF ex_heap_ok, of 256]
    by (auto simp: request_def align_size_def trunc16_def)
  then have c: "mem_calloc 257 256 ex_heap = Some (Some 8, h, 65792)" by (simp add: mem_calloc_def trunc16_def)
  from mem_calloc_overflows [OF ex_heap_ok _ c] c show ?thesis by auto
qed

end
