(* ===== verification/Memp.thy ===== *)
theory Memp
  imports Allocator
begin

text \<open>
  The fixed-size pools of the network stack, \<open>lwip/src/core/memp.c\<close>, with the pools that
  \<open>memp_std.h\<close> lists under \<open>lwipopts.h\<close>; no overflow or sanity checks are compiled in
  (\<open>MEMP_SIZE\<close> is 0). An element is its offset in the aligned \<open>memp_memory\<close>. The sizes
  of the elements (aligned sizes of the stack's structures) are the parameter \<open>sizes\<close>.
\<close>

section \<open>Pools\<close>

datatype memp_t =
    MEMP_RAW_PCB | MEMP_UDP_PCB | MEMP_TCP_PCB | MEMP_TCP_PCB_LISTEN | MEMP_TCP_SEG
  | MEMP_REASSDATA | MEMP_FRAG_PBUF | MEMP_SYS_TIMEOUT | MEMP_PBUF | MEMP_PBUF_POOL

definition memp_all :: "memp_t list" where
  "memp_all = [MEMP_RAW_PCB, MEMP_UDP_PCB, MEMP_TCP_PCB, MEMP_TCP_PCB_LISTEN, MEMP_TCP_SEG,
     MEMP_REASSDATA, MEMP_FRAG_PBUF, MEMP_SYS_TIMEOUT, MEMP_PBUF, MEMP_PBUF_POOL]"

primrec memp_num :: "memp_t \<Rightarrow> nat" where
  "memp_num MEMP_RAW_PCB = 4"
| "memp_num MEMP_UDP_PCB = 6"
| "memp_num MEMP_TCP_PCB = 10"
| "memp_num MEMP_TCP_PCB_LISTEN = 6"
| "memp_num MEMP_TCP_SEG = 12"
| "memp_num MEMP_REASSDATA = 5"
| "memp_num MEMP_FRAG_PBUF = 15"
| "memp_num MEMP_SYS_TIMEOUT = 10"
| "memp_num MEMP_PBUF = 10"
| "memp_num MEMP_PBUF_POOL = 10"

text \<open>\<open>memp_tab\<close> is the first free element of each pool, \<open>mp_next\<close> the link in a free element.\<close>

record memp =
  memp_tab :: "memp_t \<Rightarrow> nat option"
  mp_next :: "nat \<Rightarrow> nat option"

section \<open>Operations\<close>

text \<open>The inner loop of \<open>memp_init\<close>: \<open>n\<close> elements from address \<open>a\<close>, pushed one by one.\<close>

fun carve_pool :: "memp_t \<Rightarrow> nat \<Rightarrow> nat \<Rightarrow> nat \<times> memp \<Rightarrow> nat \<times> memp" where
  "carve_pool t sz 0 am = am"
| "carve_pool t sz (Suc n) (a, mp) =
     carve_pool t sz n (a + sz, mp\<lparr>mp_next := (mp_next mp)(a := memp_tab mp t),
                                 memp_tab := (memp_tab mp)(t := Some a)\<rparr>)"

text \<open>One turn of its outer loop, with the address the pools have reached.\<close>

definition init_pool :: "(memp_t \<Rightarrow> nat) \<Rightarrow> memp_t \<Rightarrow> nat \<times> memp \<Rightarrow> nat \<times> memp" where
  "init_pool sizes t am =
     carve_pool t (sizes t) (memp_num t)
       (fst am, (snd am)\<lparr>memp_tab := (memp_tab (snd am))(t := None)\<rparr>)"

definition memp_init :: "(memp_t \<Rightarrow> nat) \<Rightarrow> memp \<Rightarrow> memp" where
  "memp_init sizes mp = snd (fold (init_pool sizes) memp_all (0, mp))"

definition memp_malloc :: "memp_t \<Rightarrow> memp \<Rightarrow> (nat option \<times> memp) option" where
  "memp_malloc type mp =
     (case memp_tab mp type of
        None \<Rightarrow> Some (None, mp)
      | Some e \<Rightarrow> do {
          lwip_assert (e mod 4 = 0);
          Some (Some e, mp\<lparr>memp_tab := (memp_tab mp)(type := mp_next mp e)\<rparr>)
        })"

definition memp_free :: "memp_t \<Rightarrow> nat option \<Rightarrow> memp \<Rightarrow> memp option" where
  "memp_free type mem mp =
     (case mem of
        None \<Rightarrow> Some mp
      | Some e \<Rightarrow> do {
          lwip_assert (e mod 4 = 0);
          Some (mp\<lparr>mp_next := (mp_next mp)(e := memp_tab mp type),
                  memp_tab := (memp_tab mp)(type := Some e)\<rparr>)
        })"

section \<open>Layout\<close>

definition pool_base :: "(memp_t \<Rightarrow> nat) \<Rightarrow> memp_t \<Rightarrow> nat" where
  "pool_base sizes t = sum_list (map (\<lambda>s. memp_num s * sizes s) (takeWhile (\<lambda>s. s \<noteq> t) memp_all))"

definition elems :: "(memp_t \<Rightarrow> nat) \<Rightarrow> memp_t \<Rightarrow> nat list" where
  "elems sizes t = map (\<lambda>j. pool_base sizes t + j * sizes t) [0..<memp_num t]"

definition sizes_ok :: "(memp_t \<Rightarrow> nat) \<Rightarrow> bool" where
  "sizes_ok sizes = (\<forall>t. 0 < sizes t \<and> 4 dvd sizes t)"

lemma sizes_pos: "sizes_ok sizes \<Longrightarrow> 0 < sizes t"
  by (simp add: sizes_ok_def)

lemma memp_all_set [simp]: "set memp_all = UNIV"
proof -
  have "t \<in> set memp_all" for t by (cases t) (simp_all add: memp_all_def)
  then show ?thesis by auto
qed

lemma elems_distinct: "sizes_ok sizes \<Longrightarrow> distinct (elems sizes t)"
  using sizes_pos [of sizes t] by (auto simp: elems_def distinct_map inj_on_def)

lemma elems_aligned: "sizes_ok sizes \<Longrightarrow> e \<in> set (elems sizes t) \<Longrightarrow> e mod 4 = 0"
proof -
  assume ok: "sizes_ok sizes" and e: "e \<in> set (elems sizes t)"
  have "4 dvd sum_list (map (\<lambda>s. memp_num s * sizes s) ts)" for ts
    using ok by (induction ts) (auto simp: sizes_ok_def)
  moreover have "4 dvd sizes t" using ok by (simp add: sizes_ok_def)
  ultimately show "e mod 4 = 0" using e by (auto simp: elems_def pool_base_def dvd_add)
qed

text \<open>The pools lie one behind the other, so an element belongs to one pool only.\<close>

lemma elems_range:
  "e \<in> set (elems sizes t) \<Longrightarrow> pool_base sizes t \<le> e \<and> (e < pool_base sizes t + memp_num t * sizes t \<or> sizes t = 0)"
proof -
  assume "e \<in> set (elems sizes t)"
  then obtain j where j: "j < memp_num t" "e = pool_base sizes t + j * sizes t" by (auto simp: elems_def)
  then have "j * sizes t + sizes t \<le> memp_num t * sizes t"
    by (metis Suc_leI add.commute mult_Suc mult_le_mono1)
  with j show ?thesis by auto
qed

lemma elems_disjoint:
  assumes "sizes_ok sizes" and "s \<noteq> t"
  shows "set (elems sizes s) \<inter> set (elems sizes t) = {}"
proof -
  have b: "pool_base sizes s + memp_num s * sizes s \<le> pool_base sizes t \<or>
      pool_base sizes t + memp_num t * sizes t \<le> pool_base sizes s"
    using assms(2) by (cases s; cases t) (simp_all add: pool_base_def memp_all_def)
  have r: "pool_base sizes u \<le> e \<and> e < pool_base sizes u + memp_num u * sizes u"
    if "e \<in> set (elems sizes u)" for e u
    using elems_range [OF that] sizes_pos [OF assms(1), of u] by simp
  have False if "e \<in> set (elems sizes s)" "e \<in> set (elems sizes t)" for e
    using b r [OF that(1)] r [OF that(2)] by linarith
  then show ?thesis by blast
qed

section \<open>The invariant\<close>

fun free_list :: "(nat \<Rightarrow> nat option) \<Rightarrow> nat option \<Rightarrow> nat list \<Rightarrow> bool" where
  "free_list nx h [] = (h = None)"
| "free_list nx h (e # es) = (h = Some e \<and> free_list nx (nx e) es)"

lemma free_list_frame: "free_list nx h es \<Longrightarrow> a \<notin> set es \<Longrightarrow> free_list (nx(a := v)) h es"
  by (induction es arbitrary: h) auto

text \<open>\<open>F t\<close> is the list of free elements of pool \<open>t\<close>.\<close>

definition memp_ok :: "(memp_t \<Rightarrow> nat) \<Rightarrow> memp \<Rightarrow> (memp_t \<Rightarrow> nat list) \<Rightarrow> bool" where
  "memp_ok sizes mp F = (sizes_ok sizes \<and> (\<forall>t. free_list (mp_next mp) (memp_tab mp t) (F t) \<and>
     distinct (F t) \<and> set (F t) \<subseteq> set (elems sizes t)))"

lemma carve_pool_spec:
  assumes "free_list (mp_next mp) (memp_tab mp t) es" and "0 < sz" and "\<forall>e \<in> set es. e < a"
  shows "\<exists>mp'. carve_pool t sz n (a, mp) = (a + n * sz, mp') \<and>
     free_list (mp_next mp') (memp_tab mp' t) (rev (map (\<lambda>j. a + j * sz) [0..<n]) @ es) \<and>
     (\<forall>s. s \<noteq> t \<longrightarrow> memp_tab mp' s = memp_tab mp s) \<and>
     (\<forall>e. e < a \<longrightarrow> mp_next mp' e = mp_next mp e)"
  using assms
proof (induction n arbitrary: a mp es)
  case (Suc n)
  let ?mp = "mp\<lparr>mp_next := (mp_next mp)(a := memp_tab mp t), memp_tab := (memp_tab mp)(t := Some a)\<rparr>"
  have "free_list (mp_next ?mp) (memp_tab ?mp t) (a # es)"
    using Suc.prems(1,3) by (auto intro!: free_list_frame)
  moreover have "\<forall>e \<in> set (a # es). e < a + sz" using Suc.prems(2,3) by auto
  ultimately obtain mp' where m: "carve_pool t sz n (a + sz, ?mp) = (a + sz + n * sz, mp')"
    "free_list (mp_next mp') (memp_tab mp' t) (rev (map (\<lambda>j. a + sz + j * sz) [0..<n]) @ a # es)"
    "\<forall>s. s \<noteq> t \<longrightarrow> memp_tab mp' s = memp_tab ?mp s" "\<forall>e. e < a + sz \<longrightarrow> mp_next mp' e = mp_next ?mp e"
    using Suc.IH [of ?mp "a # es" "a + sz"] Suc.prems(2) by blast
  have "map (\<lambda>j. a + j * sz) [0..<Suc n] = a # map (\<lambda>j. a + sz + j * sz) [0..<n]"
    by (subst upt_conv_Cons) (simp_all add: map_Suc_upt [symmetric] del: upt_Suc)
  with m show ?case by (auto simp: add.assoc simp del: upt_Suc)
qed simp

lemma memp_init_fold:
  assumes "sizes_ok sizes" and "memp_all = pre @ ts"
    and "\<forall>s \<in> set pre. free_list (mp_next mp) (memp_tab mp s) (rev (elems sizes s)) \<and>
           (\<forall>e \<in> set (elems sizes s). e < a)"
    and "a = sum_list (map (\<lambda>s. memp_num s * sizes s) pre)"
  shows "\<forall>s. free_list (mp_next (snd (fold (init_pool sizes) ts (a, mp))))
    (memp_tab (snd (fold (init_pool sizes) ts (a, mp))) s) (rev (elems sizes s))"
  using assms(2-)
proof (induction ts arbitrary: pre a mp)
  case Nil
  then have "set pre = UNIV" using memp_all_set by simp
  with Nil show ?case by simp
next
  case (Cons t ts)
  have d: "distinct memp_all" by (simp add: memp_all_def)
  then have "distinct (pre @ t # ts)" using Cons.prems(1) by simp
  then have t: "t \<notin> set pre" by simp
  have "takeWhile (\<lambda>s. s \<noteq> t) (pre @ t # ts) = pre"
    using t by (subst takeWhile_append2) auto
  then have "takeWhile (\<lambda>s. s \<noteq> t) memp_all = pre" by (simp add: Cons.prems(1))
  then have base: "pool_base sizes t = a" using Cons.prems(3) by (simp add: pool_base_def)
  let ?mp = "mp\<lparr>memp_tab := (memp_tab mp)(t := None)\<rparr>"
  obtain mp' where m: "carve_pool t (sizes t) (memp_num t) (a, ?mp) = (a + memp_num t * sizes t, mp')"
    "free_list (mp_next mp') (memp_tab mp' t) (rev (map (\<lambda>j. a + j * sizes t) [0..<memp_num t]))"
    "\<forall>s. s \<noteq> t \<longrightarrow> memp_tab mp' s = memp_tab mp s" "\<forall>e. e < a \<longrightarrow> mp_next mp' e = mp_next mp e"
    using carve_pool_spec [of ?mp t "[]" "sizes t" a "memp_num t"] sizes_pos [OF assms(1)] by auto
  have cong: "free_list nx h es \<Longrightarrow> \<forall>e \<in> set es. nx' e = nx e \<Longrightarrow> free_list nx' h es" for nx nx' h es
    by (induction es arbitrary: h) auto
  have "\<forall>s \<in> set (pre @ [t]). free_list (mp_next mp') (memp_tab mp' s) (rev (elems sizes s)) \<and>
      (\<forall>e \<in> set (elems sizes s). e < a + memp_num t * sizes t)"
  proof
    fix s
    assume "s \<in> set (pre @ [t])"
    then consider "s \<in> set pre" | "s = t" by auto
    then show "free_list (mp_next mp') (memp_tab mp' s) (rev (elems sizes s)) \<and>
        (\<forall>e \<in> set (elems sizes s). e < a + memp_num t * sizes t)"
    proof cases
      case 1
      then have l: "free_list (mp_next mp) (memp_tab mp s) (rev (elems sizes s))" "\<forall>e \<in> set (elems sizes s). e < a"
        and "s \<noteq> t" using Cons.prems(2) t by auto
      moreover have "free_list (mp_next mp') (memp_tab mp s) (rev (elems sizes s))"
        using l m(4) by (intro cong [OF l(1)]) auto
      ultimately show ?thesis using m(3) by (auto intro: less_le_trans)
    next
      case 2
      then show ?thesis
        using m(2) base elems_range [of _ sizes t] sizes_pos [OF assms(1), of t] by (auto simp: elems_def)
    qed
  qed
  from Cons.IH [of "pre @ [t]" mp' "a + memp_num t * sizes t", OF _ this] Cons.prems(1,3) m(1)
  show ?case by (simp add: init_pool_def)
qed

lemma memp_init_ok: "sizes_ok sizes \<Longrightarrow> memp_ok sizes (memp_init sizes mp) (\<lambda>t. rev (elems sizes t))"
  using memp_init_fold [of sizes "[]" memp_all mp 0] elems_distinct [of sizes]
  by (simp add: memp_ok_def memp_init_def)

section \<open>Each pool is an allocator\<close>

definition pool_holds :: "(memp_t \<Rightarrow> nat) \<Rightarrow> memp_t \<Rightarrow> memp \<Rightarrow> nat set \<Rightarrow> bool" where
  "pool_holds sizes t mp L = (\<exists>F. memp_ok sizes mp F \<and> L = set (elems sizes t) - set (F t))"

lemma memp_malloc_spec:
  assumes "memp_ok sizes mp F"
  shows "(F t = [] \<longrightarrow> memp_malloc t mp = Some (None, mp)) \<and>
    (\<forall>e es. F t = e # es \<longrightarrow>
       (\<exists>mp'. memp_malloc t mp = Some (Some e, mp') \<and> memp_ok sizes mp' (F(t := es))))"
proof (intro conjI allI impI)
  have f: "free_list (mp_next mp) (memp_tab mp t) (F t)" using assms by (simp add: memp_ok_def)
  show "F t = [] \<Longrightarrow> memp_malloc t mp = Some (None, mp)" using f by (simp add: memp_malloc_def)
  fix e es
  assume F: "F t = e # es"
  have "e \<in> set (elems sizes t)" "sizes_ok sizes" using assms F by (force simp: memp_ok_def)+
  then have "e mod 4 = 0" using elems_aligned by blast
  with f F assms show "\<exists>mp'. memp_malloc t mp = Some (Some e, mp') \<and> memp_ok sizes mp' (F(t := es))"
    by (auto simp: memp_malloc_def memp_ok_def) (metis distinct.simps(2) list.set_intros(2) subset_iff)+
qed

lemma memp_free_spec:
  assumes "memp_ok sizes mp F" and "e \<in> set (elems sizes t)" and "e \<notin> set (F t)"
  shows "\<exists>mp'. memp_free t (Some e) mp = Some mp' \<and> memp_ok sizes mp' (F(t := e # F t))"
proof -
  have ok: "sizes_ok sizes" using assms(1) by (simp add: memp_ok_def)
  have "e \<notin> set (F s)" for s
    using assms elems_disjoint [OF ok, of s t] by (cases "s = t") (auto simp: memp_ok_def)
  then show ?thesis
    using assms elems_aligned [OF ok assms(2)]
    by (auto simp: memp_free_def memp_ok_def intro!: free_list_frame)
qed

interpretation pool_alloc: allocator "pool_holds sizes t" "memp_malloc t" "\<lambda>e. memp_free t (Some e)" for sizes t
proof (unfold_locales, goal_cases)
  case (1 h L)
  then obtain F where F: "memp_ok sizes h F" by (auto simp: pool_holds_def)
  then show ?case using memp_malloc_spec [OF F, of t] by (cases "F t") auto
next
  case (2 h L h')
  then obtain F where F: "memp_ok sizes h F" "L = set (elems sizes t) - set (F t)" by (auto simp: pool_holds_def)
  then show ?case using memp_malloc_spec [OF F(1), of t] 2 by (cases "F t") auto
next
  case (3 h L p h')
  then obtain F where F: "memp_ok sizes h F" "L = set (elems sizes t) - set (F t)" by (auto simp: pool_holds_def)
  then obtain es where es: "F t = p # es" "memp_ok sizes h' (F(t := es))"
    using memp_malloc_spec [OF F(1), of t] 3 by (cases "F t") auto
  have "p \<in> set (elems sizes t)" "p \<notin> set es" using F(1) es(1) by (force simp: memp_ok_def, metis distinct.simps(2) memp_ok_def)
  with F(2) es show ?case by (auto simp: pool_holds_def intro!: exI [of _ "F(t := es)"])
next
  case (4 h L p)
  then obtain F where F: "memp_ok sizes h F" "L = set (elems sizes t) - set (F t)" by (auto simp: pool_holds_def)
  then obtain h' where "memp_free t (Some p) h = Some h'" "memp_ok sizes h' (F(t := p # F t))"
    using memp_free_spec [OF F(1), of p t] 4 by auto
  with F(2) show ?case by (auto simp: pool_holds_def intro!: exI [of _ "F(t := p # F t)"])
qed

section \<open>Capacity\<close>

lemma alloc_until_empty:
  "memp_ok sizes mp F \<Longrightarrow>
   \<exists>mp'. alloc_many (memp_malloc t) (length (F t) + k) mp = Some (F t, mp') \<and> memp_ok sizes mp' (F(t := []))"
proof (induction "F t" arbitrary: F mp)
  case Nil
  have "alloc_many (memp_malloc t) k mp = Some ([], mp)"
    using memp_malloc_spec [OF Nil.prems, of t] Nil.hyps by (cases k) auto
  moreover have "F(t := []) = F" using Nil.hyps by auto
  ultimately show ?case using Nil by (metis add_0 list.size(3))
next
  case (Cons e es)
  then obtain mp1 where 1: "memp_malloc t mp = Some (Some e, mp1)" "memp_ok sizes mp1 (F(t := es))"
    using memp_malloc_spec [OF Cons.prems, of t] by metis
  from Cons.hyps(1) [of "F(t := es)" mp1] 1(2) obtain mp2 where
    "alloc_many (memp_malloc t) (length es + k) mp1 = Some (es, mp2)" "memp_ok sizes mp2 (F(t := []))" by auto
  with 1 Cons.hyps(2) [symmetric] show ?case by simp
qed

lemma release_into_empty:
  "memp_ok sizes mp F \<Longrightarrow> distinct es \<Longrightarrow> set es \<subseteq> set (elems sizes t) \<Longrightarrow> set es \<inter> set (F t) = {} \<Longrightarrow>
   \<exists>mp' F'. release_all (\<lambda>e. memp_free t (Some e)) es mp = Some mp' \<and> memp_ok sizes mp' F' \<and> F' t = rev es @ F t"
proof (induction es arbitrary: mp F)
  case (Cons e es)
  then obtain mp1 where 1: "memp_free t (Some e) mp = Some mp1" "memp_ok sizes mp1 (F(t := e # F t))"
    using memp_free_spec [OF Cons.prems(1), of e t] by auto
  have "distinct es" "set es \<subseteq> set (elems sizes t)" "set es \<inter> set ((F(t := e # F t)) t) = {}"
    using Cons.prems by auto
  from Cons.IH [OF 1(2) this] 1(1) show ?case by auto
qed auto

text \<open>A pool has the capacity it is configured with, and recovers it. After
  \<open>memp_init\<close>, any number of attempts from \<open>memp_num\<close> on yields exactly \<open>memp_num\<close> distinct
  aligned elements; when they are put back in any order, the pool can hand out as many again.\<close>

theorem pool_capacity:
  assumes "sizes_ok sizes"
  shows "\<exists>ps mp1. alloc_many (memp_malloc t) (memp_num t + k) (memp_init sizes mp) = Some (ps, mp1) \<and>
     length ps = memp_num t \<and> distinct ps \<and> (\<forall>e \<in> set ps. e mod 4 = 0) \<and>
     (\<forall>es. distinct es \<and> set es = set ps \<longrightarrow>
        (\<exists>mp2 qs mp3. release_all (\<lambda>e. memp_free t (Some e)) es mp1 = Some mp2 \<and>
           alloc_many (memp_malloc t) (memp_num t) mp2 = Some (qs, mp3) \<and> length qs = memp_num t))"
proof -
  let ?F = "\<lambda>t. rev (elems sizes t)"
  have n: "length (?F t) = memp_num t" by (simp add: elems_def)
  obtain mp1 where 1: "alloc_many (memp_malloc t) (memp_num t + k) (memp_init sizes mp) = Some (?F t, mp1)"
    "memp_ok sizes mp1 (?F(t := []))"
    using alloc_until_empty [OF memp_init_ok [OF assms], of t k] n by auto
  have "\<exists>mp2 qs mp3. release_all (\<lambda>e. memp_free t (Some e)) es mp1 = Some mp2 \<and>
      alloc_many (memp_malloc t) (memp_num t) mp2 = Some (qs, mp3) \<and> length qs = memp_num t"
    if "distinct es \<and> set es = set (?F t)" for es
  proof -
    have "length es = memp_num t" using that n elems_distinct [OF assms] by (metis distinct_card distinct_rev)
    have "set es \<subseteq> set (elems sizes t)" using that by simp
    with release_into_empty [OF 1(2), of es t] that obtain mp2 F' where
      2: "release_all (\<lambda>e. memp_free t (Some e)) es mp1 = Some mp2" "memp_ok sizes mp2 F'" "F' t = rev es" by auto
    from alloc_until_empty [OF 2(2), of t 0] 2(3) \<open>length es = memp_num t\<close> obtain mp3 where
      "alloc_many (memp_malloc t) (memp_num t) mp2 = Some (rev es, mp3)" by auto
    with 2(1) \<open>length es = memp_num t\<close> show ?thesis by auto
  qed
  then show ?thesis
    using 1(1) n elems_distinct [OF assms] elems_aligned [OF assms]
    by (intro exI [of _ "?F t"] exI [of _ mp1]) auto
qed

text \<open>A double release is not noticed. With the sanity check compiled out, releasing
  an element twice makes the pool hand the same element to the next two callers.\<close>

theorem memp_double_free:
  assumes "memp_free t (Some e) mp = Some mp1" and "memp_free t (Some e) mp1 = Some mp2"
  shows "\<exists>mp3 mp4. memp_malloc t mp2 = Some (Some e, mp3) \<and> memp_malloc t mp3 = Some (Some e, mp4)"
  using assms by (auto simp: memp_free_def memp_malloc_def split: if_splits)

theorem pool_capacity_witness:
  "\<exists>ps mp1. alloc_many (memp_malloc MEMP_SYS_TIMEOUT) 12
      (memp_init (\<lambda>_. 16) \<lparr>memp_tab = (\<lambda>_. None), mp_next = (\<lambda>_. None)\<rparr>) = Some (ps, mp1) \<and> length ps = 10"
  using pool_capacity [of "\<lambda>_. 16" MEMP_SYS_TIMEOUT 2 "\<lparr>memp_tab = (\<lambda>_. None), mp_next = (\<lambda>_. None)\<rparr>"]
  by (auto simp: sizes_ok_def)

theorem memp_double_free_witness:
  "\<exists>mp1 mp2 mp3. memp_free MEMP_PBUF (Some 32) \<lparr>memp_tab = (\<lambda>_. None), mp_next = (\<lambda>_. None)\<rparr> = Some mp1 \<and>
     memp_free MEMP_PBUF (Some 32) mp1 = Some mp2 \<and> memp_malloc MEMP_PBUF mp2 = Some (Some 32, mp3)"
proof -
  obtain mp1 where 1: "memp_free MEMP_PBUF (Some 32) \<lparr>memp_tab = (\<lambda>_. None), mp_next = (\<lambda>_. None)\<rparr> = Some mp1"
    by (simp add: memp_free_def)
  obtain mp2 where 2: "memp_free MEMP_PBUF (Some 32) mp1 = Some mp2" by (simp add: memp_free_def)
  from memp_double_free [OF 1 2] 1 2 show ?thesis by blast
qed

end
