(* ===== verification/Pbuf.thy ===== *)
theory Pbuf
  imports Memp HeapOwners
begin

text \<open>
  Packet buffers, \<open>lwip/src/core/pbuf.c\<close>. A buffer lives in a heap block, a pool element or
  memory outside both; a pointer into its data is the block and a byte offset from its
  start. The state is the heap, the pools, the \<open>struct pbuf\<close> at each block, the bytes of
  every block and, for the elements of the pool of custom references, the buffer each refers to. \<open>sizeof(struct pbuf)\<close> is 16; the pool buffers hold 600 bytes. As in the
  heap, \<open>None\<close> is a call that does not return (a failed \<open>LWIP_ASSERT\<close> or \<open>LWIP_ERROR\<close>,
  which both end in \<open>sys_assert\<close>, or a loop over a cyclic chain) or that follows a null
  pointer.
\<close>

unbundle bit_operations_syntax

section \<open>State\<close>

datatype loc = Ram int | Pool nat | Rom nat

datatype pbuf_layer = PBUF_TRANSPORT | PBUF_IP | PBUF_LINK | PBUF_RAW

datatype pbuf_type = PBUF_RAM | PBUF_ROM | PBUF_REF | PBUF_POOL

type_synonym dptr = "(loc \<times> int) option"

record pbuf =
  pnext :: "loc option"
  payload :: dptr
  tot_len :: nat
  plen :: nat
  ptype :: pbuf_type
  pflags :: u8
  pref :: nat

record net =
  nheap :: heap
  npools :: memp
  pb :: "loc \<Rightarrow> pbuf"
  bytes :: "loc \<Rightarrow> int \<Rightarrow> u8"
  pcr_original :: "nat \<Rightarrow> loc option"

abbreviation SIZEOF_STRUCT_PBUF :: nat where "SIZEOF_STRUCT_PBUF \<equiv> 16"
abbreviation PBUF_POOL_BUFSIZE_ALIGNED :: nat where "PBUF_POOL_BUFSIZE_ALIGNED \<equiv> 600"
abbreviation PBUF_FLAG_IS_CUSTOM :: u8 where "PBUF_FLAG_IS_CUSTOM \<equiv> 2"

text \<open>\<open>LWIP_MEM_ALIGN_SIZE\<close> in \<open>int\<close>, and the room a layer leaves for headers.\<close>

definition align4 :: "nat \<Rightarrow> nat" where
  "align4 n = (n + 3) div 4 * 4"

primrec layer_offset :: "pbuf_layer \<Rightarrow> nat" where
  "layer_offset PBUF_TRANSPORT = 14 + 20 + 20"
| "layer_offset PBUF_IP = 14 + 20"
| "layer_offset PBUF_LINK = 14"
| "layer_offset PBUF_RAW = 0"

definition set_pb :: "loc \<Rightarrow> (pbuf \<Rightarrow> pbuf) \<Rightarrow> net \<Rightarrow> net" where
  "set_pb l f st = st\<lparr>pb := (pb st)(l := f (pb st l))\<rparr>"

text \<open>\<open>MEMCPY\<close> out of and into a block.\<close>

definition peek :: "dptr \<Rightarrow> int \<Rightarrow> nat \<Rightarrow> net \<Rightarrow> u8 list option" where
  "peek d i n st = (case d of None \<Rightarrow> if n = 0 then Some [] else None
     | Some (b, off) \<Rightarrow> Some (map (\<lambda>k. bytes st b (off + i + int k)) [0..<n]))"

definition poke :: "dptr \<Rightarrow> int \<Rightarrow> u8 list \<Rightarrow> net \<Rightarrow> net option" where
  "poke d i xs st = (case d of None \<Rightarrow> if xs = [] then Some st else None
     | Some (b, off) \<Rightarrow> Some (st\<lparr>bytes := (bytes st)(b := (\<lambda>k.
         if off + i \<le> k \<and> k < off + i + int (length xs) then xs ! nat (k - (off + i)) else bytes st b k))\<rparr>))"

section \<open>Release\<close>

definition pool_put :: "memp_t \<Rightarrow> nat \<Rightarrow> net \<Rightarrow> net option" where
  "pool_put t e st = map_option (\<lambda>m. st\<lparr>npools := m\<rparr>) (memp_free t (Some e) (npools st))"

text \<open>
  The memory of a buffer goes back where its type says. A pool element for a heap buffer,
  or the reverse, would corrupt the allocator: that is no return. A custom buffer is
  given to its \<open>custom_free_function\<close>, the parameter \<open>cfree\<close>.
\<close>

definition dealloc :: "(loc \<Rightarrow> net \<Rightarrow> net option) \<Rightarrow> loc \<Rightarrow> net \<Rightarrow> net option" where
  "dealloc cfree p st =
     (if pflags (pb st p) AND PBUF_FLAG_IS_CUSTOM \<noteq> 0 then cfree p st
      else case (ptype (pb st p), p) of
        (PBUF_POOL, Pool e) \<Rightarrow> pool_put MEMP_PBUF_POOL e st
      | (PBUF_ROM, Pool e) \<Rightarrow> pool_put MEMP_PBUF e st
      | (PBUF_REF, Pool e) \<Rightarrow> pool_put MEMP_PBUF e st
      | (PBUF_RAM, Ram r) \<Rightarrow> map_option (\<lambda>h. st\<lparr>nheap := h\<rparr>) (mem_free (Some r) (nheap st))
      | _ \<Rightarrow> None)"

partial_function (option) pbuf_free_loop ::
    "(loc \<Rightarrow> net \<Rightarrow> net option) \<Rightarrow> loc option \<Rightarrow> nat \<Rightarrow> net \<Rightarrow> (nat \<times> net) option" where
  "pbuf_free_loop cfree po count st =
     (case po of
        None \<Rightarrow> Some (count, st)
      | Some p \<Rightarrow>
          if pref (pb st p) = 0 then None
          else
            (let st' = set_pb p (\<lambda>b. b\<lparr>pref := pref b - 1\<rparr>) st in
             if pref (pb st' p) = 0 then
               Option.bind (dealloc cfree p st')
                 (pbuf_free_loop cfree (pnext (pb st' p)) ((count + 1) mod 256))
             else Some (count, st')))"

definition pbuf_free :: "(loc \<Rightarrow> net \<Rightarrow> net option) \<Rightarrow> loc option \<Rightarrow> net \<Rightarrow> (nat \<times> net) option" where
  "pbuf_free cfree p st = do { lwip_assert (p \<noteq> None); pbuf_free_loop cfree p 0 st }"

section \<open>Allocation\<close>

definition pool_get :: "memp_t \<Rightarrow> net \<Rightarrow> (loc option \<times> net) option" where
  "pool_get t st = map_option (\<lambda>(e, m). (map_option Pool e, st\<lparr>npools := m\<rparr>)) (memp_malloc t (npools st))"

text \<open>The loop of \<open>pbuf_alloc\<close> that appends pool buffers to \<open>r\<close> until \<open>rem\<close> bytes are covered.\<close>

function pool_tail ::
    "(loc \<Rightarrow> net \<Rightarrow> net option) \<Rightarrow> loc \<Rightarrow> loc \<Rightarrow> nat \<Rightarrow> net \<Rightarrow> (loc option \<times> net) option" where
  "pool_tail cfree p r rem st =
     (if rem = 0 then Some (Some p, st)
      else case pool_get MEMP_PBUF_POOL st of
        None \<Rightarrow> None
      | Some (None, st) \<Rightarrow> map_option (\<lambda>(_, st). (None, st)) (pbuf_free cfree (Some p) st)
      | Some (Some q, st) \<Rightarrow>
          if rem < 0xffff then
            pool_tail cfree p q (rem - min rem PBUF_POOL_BUFSIZE_ALIGNED)
              (set_pb q (\<lambda>_. \<lparr>pnext = None, payload = Some (q, int SIZEOF_STRUCT_PBUF), tot_len = rem,
                              plen = min rem PBUF_POOL_BUFSIZE_ALIGNED, ptype = PBUF_POOL,
                              pflags = 0, pref = 1\<rparr>)
                (set_pb r (\<lambda>b. b\<lparr>pnext := Some q\<rparr>) st))
          else None)"
  by pat_completeness auto
termination by (relation "measure (\<lambda>(_, _, _, rem, _). rem)") auto

declare pool_tail.simps [simp del]

definition pbuf_alloc ::
    "(loc \<Rightarrow> net \<Rightarrow> net option) \<Rightarrow> pbuf_layer \<Rightarrow> nat \<Rightarrow> pbuf_type \<Rightarrow> net \<Rightarrow> (loc option \<times> net) option" where
  "pbuf_alloc cfree layer len type st =
     (let offset = layer_offset layer in
      case type of
        PBUF_POOL \<Rightarrow> do {
          (p, st) \<leftarrow> pool_get MEMP_PBUF_POOL st;
          (case p of
             None \<Rightarrow> Some (None, st)
           | Some p \<Rightarrow> do {
               let start = align4 (SIZEOF_STRUCT_PBUF + offset);
               let n = min len (PBUF_POOL_BUFSIZE_ALIGNED - align4 offset);
               lwip_assert (start + n \<le> SIZEOF_STRUCT_PBUF + PBUF_POOL_BUFSIZE_ALIGNED);
               let st = set_pb p (\<lambda>b. b\<lparr>pnext := None, payload := Some (p, int start), tot_len := len, plen := n,
                                      ptype := PBUF_POOL, pref := 1\<rparr>) st;
               (r, st) \<leftarrow> pool_tail cfree p p (len - n) st;
               Some (r, case r of None \<Rightarrow> st | Some p \<Rightarrow> set_pb p (\<lambda>b. b\<lparr>pref := 1, pflags := 0\<rparr>) st)
             })
        }
      | PBUF_RAM \<Rightarrow> do {
          (m, h) \<leftarrow> mem_malloc (trunc16 (align4 (SIZEOF_STRUCT_PBUF + offset) + align4 len)) (nheap st);
          let st = st\<lparr>nheap := h\<rparr>;
          Some (case m of
             None \<Rightarrow> (None, st)
           | Some r \<Rightarrow>
               (Some (Ram r),
                set_pb (Ram r) (\<lambda>_. \<lparr>pnext = None, payload = Some (Ram r, int (align4 (SIZEOF_STRUCT_PBUF + offset))),
                  tot_len = len, plen = len, ptype = PBUF_RAM, pflags = 0, pref = 1\<rparr>) st))
        }
      | _ \<Rightarrow> do {
          (p, st) \<leftarrow> pool_get MEMP_PBUF st;
          Some (case p of
             None \<Rightarrow> (None, st)
           | Some q \<Rightarrow>
               (Some q, set_pb q (\<lambda>_. \<lparr>pnext = None, payload = None, tot_len = len, plen = len,
                  ptype = type, pflags = 0, pref = 1\<rparr>) st))
        })"

text \<open>A buffer in a \<open>struct\<close> of the caller, with its data in memory of the caller. Null when they do not fit.\<close>

definition pbuf_alloced_custom ::
    "pbuf_layer \<Rightarrow> nat \<Rightarrow> pbuf_type \<Rightarrow> loc \<Rightarrow> dptr \<Rightarrow> nat \<Rightarrow> net \<Rightarrow> loc option \<times> net" where
  "pbuf_alloced_custom layer len type p payload_mem payload_mem_len st =
     (let offset = layer_offset layer in
      if payload_mem_len < align4 offset + len then (None, st)
      else (Some p, set_pb p (\<lambda>_. \<lparr>pnext = None, payload = map_option (\<lambda>(b, off). (b, off + int (align4 offset))) payload_mem,
             tot_len = len, plen = len, ptype = type, pflags = PBUF_FLAG_IS_CUSTOM, pref = 1\<rparr>) st))"

section \<open>Changing a chain\<close>

text \<open>The loop of \<open>pbuf_realloc\<close> over the buffers that stay: the last one, its new length.\<close>

partial_function (option) realloc_skip :: "nat \<Rightarrow> nat \<Rightarrow> loc \<Rightarrow> net \<Rightarrow> (nat \<times> loc \<times> net) option" where
  "realloc_skip shrink rem q st =
     (if plen (pb st q) < rem then
        (let st' = set_pb q (\<lambda>b. b\<lparr>tot_len := nat ((int (tot_len b) - int shrink) mod 65536)\<rparr>) st in
         case pnext (pb st' q) of
           None \<Rightarrow> None
         | Some q' \<Rightarrow> realloc_skip shrink (rem - plen (pb st q)) q' st')
      else Some (rem, q, st))"

definition pbuf_realloc :: "(loc \<Rightarrow> net \<Rightarrow> net option) \<Rightarrow> loc \<Rightarrow> nat \<Rightarrow> net \<Rightarrow> net option" where
  "pbuf_realloc cfree p new_len st =
     (if tot_len (pb st p) \<le> new_len then Some st
      else do {
        (rem, q, st) \<leftarrow> realloc_skip (tot_len (pb st p) - new_len) new_len p st;
        st \<leftarrow> (if ptype (pb st q) = PBUF_RAM \<and> rem \<noteq> plen (pb st q) then
                 (case (q, payload (pb st q)) of
                    (Ram r, Some (b, off)) \<Rightarrow>
                      if b \<noteq> q then None else do {
                        (m, h) \<leftarrow> mem_trim r (trunc16 (trunc16 (nat off) + rem)) (nheap st);
                        lwip_assert (m \<noteq> None);
                        Some (st\<lparr>nheap := h\<rparr>)
                      }
                  | _ \<Rightarrow> None)
               else Some st);
        let st = set_pb q (\<lambda>b. b\<lparr>plen := rem, tot_len := rem\<rparr>) st;
        st \<leftarrow> (case pnext (pb st q) of
                 None \<Rightarrow> Some st
               | Some n \<Rightarrow> map_option snd (pbuf_free cfree (Some n) st));
        Some (set_pb q (\<lambda>b. b\<lparr>pnext := None\<rparr>) st)
      })"

text \<open>\<open>pbuf_header\<close>: a positive increment reveals room before the data. Result 1 is failure.\<close>

definition pbuf_header :: "loc \<Rightarrow> int \<Rightarrow> net \<Rightarrow> (nat \<times> net) option" where
  "pbuf_header p inc st =
     (if inc = 0 then Some (0, st)
      else if inc < 0 \<and> \<not> - inc \<le> int (plen (pb st p)) then None
      else
        let pay = payload (pb st p);
            moved = map_option (\<lambda>(b, off). (b, off - inc)) pay;
            adjust = set_pb p (\<lambda>b. b\<lparr>payload := moved, plen := nat ((int (plen b) + inc) mod 65536),
                                     tot_len := nat ((int (tot_len b) + inc) mod 65536)\<rparr>) st
        in if ptype (pb st p) = PBUF_RAM \<or> ptype (pb st p) = PBUF_POOL then
             (case moved of
                None \<Rightarrow> None
              | Some (b, off) \<Rightarrow>
                  if b = p then if off < int SIZEOF_STRUCT_PBUF then Some (1, st) else Some (0, adjust)
                  else None)
           else if inc < 0 then Some (0, adjust) else Some (1, st))"

partial_function (option) clen_loop :: "loc option \<Rightarrow> nat \<Rightarrow> net \<Rightarrow> nat option" where
  "clen_loop po n st =
     (case po of None \<Rightarrow> Some n | Some p \<Rightarrow> clen_loop (pnext (pb st p)) ((n + 1) mod 256) st)"

definition pbuf_clen :: "loc option \<Rightarrow> net \<Rightarrow> nat option" where
  "pbuf_clen p st = clen_loop p 0 st"

definition pbuf_ref :: "loc option \<Rightarrow> net \<Rightarrow> net" where
  "pbuf_ref p st = (case p of None \<Rightarrow> st | Some p \<Rightarrow> set_pb p (\<lambda>b. b\<lparr>pref := trunc16 (pref b + 1)\<rparr>) st)"

text \<open>The loop of \<open>pbuf_cat\<close>: the last buffer of the first chain.\<close>

partial_function (option) cat_loop :: "loc \<Rightarrow> loc \<Rightarrow> net \<Rightarrow> (loc \<times> net) option" where
  "cat_loop p t st =
     (case pnext (pb st p) of
        None \<Rightarrow> Some (p, st)
      | Some q \<Rightarrow> cat_loop q t (set_pb p (\<lambda>b. b\<lparr>tot_len := trunc16 (tot_len b + tot_len (pb st t))\<rparr>) st))"

definition pbuf_cat :: "loc option \<Rightarrow> loc option \<Rightarrow> net \<Rightarrow> net option" where
  "pbuf_cat h t st =
     (case (h, t) of
        (Some h, Some t) \<Rightarrow> do {
          (p, st) \<leftarrow> cat_loop h t st;
          lwip_assert (tot_len (pb st p) = plen (pb st p));
          Some (set_pb p (\<lambda>b. b\<lparr>tot_len := trunc16 (tot_len b + tot_len (pb st t)), pnext := Some t\<rparr>) st)
        }
      | _ \<Rightarrow> None)"

definition pbuf_chain :: "loc option \<Rightarrow> loc option \<Rightarrow> net \<Rightarrow> net option" where
  "pbuf_chain h t st = map_option (pbuf_ref t) (pbuf_cat h t st)"

definition pbuf_dechain :: "(loc \<Rightarrow> net \<Rightarrow> net option) \<Rightarrow> loc \<Rightarrow> net \<Rightarrow> (loc option \<times> net) option" where
  "pbuf_dechain cfree p st = do {
     let q = pnext (pb st p);
     (gone, st) \<leftarrow> (case q of
        None \<Rightarrow> Some (1, st)
      | Some q' \<Rightarrow> do {
          let d = int (tot_len (pb st p)) - int (plen (pb st p));
          lwip_assert (int (tot_len (pb st q')) = d);
          let st = set_pb q' (\<lambda>b. b\<lparr>tot_len := nat (d mod 65536)\<rparr>) st;
          let st = set_pb p (\<lambda>b. b\<lparr>pnext := None, tot_len := plen b\<rparr>) st;
          pbuf_free cfree q st
        });
     lwip_assert (tot_len (pb st p) = plen (pb st p));
     Some (if gone > 0 then None else q, st)
   }"

section \<open>Copying\<close>

datatype err_t = ERR_OK | ERR_MEM | ERR_BUF | ERR_TIMEOUT | ERR_RTE | ERR_INPROGRESS | ERR_VAL
  | ERR_WOULDBLOCK | ERR_USE | ERR_ISCONN | ERR_ABRT | ERR_RST | ERR_CLSD | ERR_CONN | ERR_ARG | ERR_IF

text \<open>One turn of the loop of \<open>pbuf_copy\<close>: target, its offset, source, its offset.\<close>

partial_function (option) copy_loop ::
    "loc option \<Rightarrow> nat \<Rightarrow> loc \<Rightarrow> nat \<Rightarrow> net \<Rightarrow> (err_t \<times> net) option" where
  "copy_loop too ot f off st =
     (case too of
        None \<Rightarrow> None
      | Some t \<Rightarrow>
          (let n = (if plen (pb st f) - off \<le> plen (pb st t) - ot then plen (pb st f) - off
                    else plen (pb st t) - ot) in
           Option.bind (peek (payload (pb st f)) (int off) n st) (\<lambda>xs.
           Option.bind (poke (payload (pb st t)) (int ot) xs st) (\<lambda>st'.
           (let ot' = ot + n; off' = off + n;
                fdone = (plen (pb st' f) \<le> off'); tdone = (ot' = plen (pb st' t));
                f' = (if fdone then pnext (pb st' f) else Some f);
                t' = (if tdone then pnext (pb st' t) else Some t) in
            if tdone \<and> t' = None \<and> f' \<noteq> None then None
            else if (case f' of None \<Rightarrow> False | Some q \<Rightarrow> plen (pb st' q) = tot_len (pb st' q) \<and> pnext (pb st' q) \<noteq> None) then None
            else if (case t' of None \<Rightarrow> False | Some q \<Rightarrow> plen (pb st' q) = tot_len (pb st' q) \<and> pnext (pb st' q) \<noteq> None) then None
            else case f' of
                None \<Rightarrow> Some (ERR_OK, st')
              | Some q \<Rightarrow> copy_loop t' (if tdone then 0 else ot') q (if fdone then 0 else off') st')))))"

definition pbuf_copy :: "loc option \<Rightarrow> loc option \<Rightarrow> net \<Rightarrow> (err_t \<times> net) option" where
  "pbuf_copy too fo st =
     (case (too, fo) of
        (Some t, Some f) \<Rightarrow>
          if tot_len (pb st f) \<le> tot_len (pb st t) then copy_loop too 0 f 0 st else None
      | _ \<Rightarrow> None)"

text \<open>The bytes that \<open>pbuf_copy_partial\<close> writes to \<open>dataptr\<close>; their number is its result.\<close>

partial_function (option) partial_loop :: "loc option \<Rightarrow> nat \<Rightarrow> nat \<Rightarrow> u8 list \<Rightarrow> net \<Rightarrow> u8 list option" where
  "partial_loop po len off acc st =
     (if len = 0 then Some acc
      else case po of
        None \<Rightarrow> Some acc
      | Some p \<Rightarrow>
          if off \<noteq> 0 \<and> plen (pb st p) \<le> off then
            partial_loop (pnext (pb st p)) len (off - plen (pb st p)) acc st
          else
            (let n = min (plen (pb st p) - off) len in
             Option.bind (peek (payload (pb st p)) (int off) n st)
               (\<lambda>xs. partial_loop (pnext (pb st p)) (len - n) 0 (acc @ xs) st)))"

definition pbuf_copy_partial :: "loc option \<Rightarrow> nat \<Rightarrow> nat \<Rightarrow> net \<Rightarrow> u8 list option" where
  "pbuf_copy_partial buf len off st = do { lwip_assert (buf \<noteq> None); partial_loop buf len off [] st }"

partial_function (option) take_loop :: "loc option \<Rightarrow> u8 list \<Rightarrow> net \<Rightarrow> net option" where
  "take_loop po xs st =
     (if xs = [] then Some st
      else case po of
        None \<Rightarrow> None
      | Some p \<Rightarrow>
          Option.bind (poke (payload (pb st p)) 0 (take (plen (pb st p)) xs) st)
            (take_loop (pnext (pb st p)) (drop (plen (pb st p)) xs)))"

definition pbuf_take :: "loc option \<Rightarrow> u8 list \<Rightarrow> net \<Rightarrow> (err_t \<times> net) option" where
  "pbuf_take buf xs st =
     (case buf of
        None \<Rightarrow> None
      | Some p \<Rightarrow>
          if tot_len (pb st p) < length xs then Some (ERR_ARG, st)
          else map_option (\<lambda>st. (ERR_OK, st)) (take_loop buf xs st))"

definition pbuf_coalesce :: "(loc \<Rightarrow> net \<Rightarrow> net option) \<Rightarrow> loc \<Rightarrow> pbuf_layer \<Rightarrow> net \<Rightarrow> (loc \<times> net) option" where
  "pbuf_coalesce cfree p layer st =
     (if pnext (pb st p) = None then Some (p, st)
      else do {
        (q, st) \<leftarrow> pbuf_alloc cfree layer (tot_len (pb st p)) PBUF_RAM st;
        (case q of
           None \<Rightarrow> Some (p, st)
         | Some q \<Rightarrow> do {
             (err, st) \<leftarrow> pbuf_copy (Some q) (Some p) st;
             lwip_assert (err = ERR_OK);
             (n, st) \<leftarrow> pbuf_free cfree (Some p) st;
             Some (q, st)
           })
      })"

section \<open>Searching\<close>

text \<open>The loop of \<open>pbuf_get_at\<close> and \<open>pbuf_memcmp\<close>: the buffer that holds an offset.\<close>

partial_function (option) seek_loop :: "loc option \<Rightarrow> nat \<Rightarrow> net \<Rightarrow> (loc option \<times> nat) option" where
  "seek_loop po off st =
     (case po of
        None \<Rightarrow> Some (None, off)
      | Some q \<Rightarrow> if plen (pb st q) \<le> off then seek_loop (pnext (pb st q)) (off - plen (pb st q)) st
                  else Some (po, off))"

definition pbuf_get_at :: "loc option \<Rightarrow> nat \<Rightarrow> net \<Rightarrow> u8 option" where
  "pbuf_get_at p off st = do {
     (q, i) \<leftarrow> seek_loop p off st;
     (case q of
        None \<Rightarrow> Some 0
      | Some q \<Rightarrow> map_option hd (peek (payload (pb st q)) (int i) 1 st))
   }"

fun memcmp_loop :: "loc option \<Rightarrow> nat \<Rightarrow> nat \<Rightarrow> u8 list \<Rightarrow> net \<Rightarrow> nat option" where
  "memcmp_loop q start i [] st = Some 0"
| "memcmp_loop q start i (b # bs) st =
     (case pbuf_get_at q (trunc16 (start + i)) st of
        None \<Rightarrow> None
      | Some a \<Rightarrow> if a \<noteq> b then Some (trunc16 (i + 1)) else memcmp_loop q start (i + 1) bs st)"

definition pbuf_memcmp :: "loc option \<Rightarrow> nat \<Rightarrow> u8 list \<Rightarrow> net \<Rightarrow> nat option" where
  "pbuf_memcmp p off s2 st = do {
     (q, start) \<leftarrow> seek_loop p off st;
     (if q = None then Some 0xffff else memcmp_loop q start 0 s2 st)
   }"

partial_function (option) memfind_loop :: "loc \<Rightarrow> u8 list \<Rightarrow> nat \<Rightarrow> nat \<Rightarrow> net \<Rightarrow> nat option" where
  "memfind_loop p mem mx i st =
     (if i \<le> mx then
        Option.bind (pbuf_memcmp (Some p) i mem st) (\<lambda>plus.
          if plus = 0 then Some i else memfind_loop p mem mx (trunc16 (i + plus)) st)
      else Some 0xFFFF)"

definition pbuf_memfind :: "loc \<Rightarrow> u8 list \<Rightarrow> nat \<Rightarrow> net \<Rightarrow> nat option" where
  "pbuf_memfind p mem start st =
     (if length mem + start \<le> tot_len (pb st p)
      then memfind_loop p mem (tot_len (pb st p) - length mem) start st
      else Some 0xFFFF)"

text \<open>\<open>substr\<close> is a C string; \<open>None\<close> is the null pointer.\<close>

definition pbuf_strstr :: "loc \<Rightarrow> u8 list option \<Rightarrow> net \<Rightarrow> nat option" where
  "pbuf_strstr p substr st =
     (case substr of
        None \<Rightarrow> Some 0xFFFF
      | Some s \<Rightarrow>
          if s = [] \<or> tot_len (pb st p) = 0xFFFF then Some 0xFFFF
          else if 0xFFFF \<le> length s then Some 0xFFFF
          else pbuf_memfind p s 0 st)"

end
