(* ===== verification/Timers.thy ===== *)
theory Timers
  imports Memp
begin

text \<open>
  Timeouts, \<open>lwip/src/core/lwip_timers.c\<close> as compiled with \<open>NO_SYS\<close>, and the clock of
  \<open>lwip/port/sys_arch.c\<close>. The list is linked through elements of the pool
  \<open>MEMP_SYS_TIMEOUT\<close>; the time of an element counts from the one before it. What a tick
  does in the rest of the stack is the parameter \<open>tick\<close>, on the state \<open>world\<close> of the other
  modules; it is \<open>None\<close> where the function called does not return. Ticks do not touch the list of timeouts. \<open>has_pcbs\<close> reads whether there are active or
  time-wait connections. As in the pools, \<open>None\<close> is a call that does not return.
\<close>

section \<open>State\<close>

datatype sys_timeout_handler = ip_reass_timer | arp_timer | dhcp_timer_coarse | dhcp_timer_fine | tcpip_tcp_timer

record sys_timeo =
  tnext :: "nat option"
  ttime :: u32
  thandler :: "sys_timeout_handler option"
  targ :: nat

record 'w timers =
  tpool :: memp
  tmo :: "nat \<Rightarrow> sys_timeo"
  next_timeout :: "nat option"
  timeouts_last_time :: u32
  tcpip_tcp_timer_active :: bool
  world :: 'w

record 'w modules =
  tick :: "sys_timeout_handler \<Rightarrow> 'w \<Rightarrow> 'w option"
  has_pcbs :: "'w \<Rightarrow> bool"

abbreviation IP_TMR_INTERVAL :: u32 where "IP_TMR_INTERVAL \<equiv> 1000"
abbreviation ARP_TMR_INTERVAL :: u32 where "ARP_TMR_INTERVAL \<equiv> 5000"
abbreviation DHCP_COARSE_TIMER_MSECS :: u32 where "DHCP_COARSE_TIMER_MSECS \<equiv> 60 * 1000"
abbreviation DHCP_FINE_TIMER_MSECS :: u32 where "DHCP_FINE_TIMER_MSECS \<equiv> 500"
abbreviation TCP_TMR_INTERVAL :: u32 where "TCP_TMR_INTERVAL \<equiv> 250"

definition set_tmo :: "nat \<Rightarrow> (sys_timeo \<Rightarrow> sys_timeo) \<Rightarrow> (nat \<Rightarrow> sys_timeo) \<Rightarrow> nat \<Rightarrow> sys_timeo" where
  "set_tmo e f m = m(e := f (m e))"

section \<open>Starting and cancelling\<close>

text \<open>The loop that looks for the place behind the head.\<close>

partial_function (option) place_loop :: "nat \<Rightarrow> nat option \<Rightarrow> (nat \<Rightarrow> sys_timeo) \<Rightarrow> (nat \<Rightarrow> sys_timeo) option" where
  "place_loop timeout t m =
     (case t of
        None \<Rightarrow> Some m
      | Some t \<Rightarrow>
          (let m = set_tmo timeout (\<lambda>x. x\<lparr>ttime := ttime x - ttime (m t)\<rparr>) m in
           case tnext (m t) of
             None \<Rightarrow> Some (set_tmo t (\<lambda>x. x\<lparr>tnext := Some timeout\<rparr>) (set_tmo timeout (\<lambda>x. x\<lparr>tnext := None\<rparr>) m))
           | Some n \<Rightarrow>
               if ttime (m n) > ttime (m timeout) then
                 (let m = set_tmo n (\<lambda>x. x\<lparr>ttime := ttime x - ttime (m timeout)\<rparr>) m in
                  Some (set_tmo t (\<lambda>x. x\<lparr>tnext := Some timeout\<rparr>) (set_tmo timeout (\<lambda>x. x\<lparr>tnext := Some n\<rparr>) m)))
               else place_loop timeout (Some n) m))"

definition sys_timeout :: "u32 \<Rightarrow> sys_timeout_handler option \<Rightarrow> nat \<Rightarrow> 'w timers \<Rightarrow> 'w timers option" where
  "sys_timeout msecs handler a st = do {
     (timeout, mp) \<leftarrow> memp_malloc MEMP_SYS_TIMEOUT (tpool st);
     (case timeout of
        None \<Rightarrow> None
      | Some e \<Rightarrow> do {
          let m = (tmo st)(e := \<lparr>tnext = None, ttime = msecs, thandler = handler, targ = a\<rparr>);
          (case next_timeout st of
             None \<Rightarrow> Some (st\<lparr>tpool := mp, tmo := m, next_timeout := Some e\<rparr>)
           | Some h \<Rightarrow>
               if ttime (m h) > msecs then
                 Some (st\<lparr>tpool := mp,
                          tmo := set_tmo e (\<lambda>x. x\<lparr>tnext := Some h\<rparr>) (set_tmo h (\<lambda>x. x\<lparr>ttime := ttime x - msecs\<rparr>) m),
                          next_timeout := Some e\<rparr>)
               else map_option (\<lambda>m. st\<lparr>tpool := mp, tmo := m\<rparr>) (place_loop e (Some h) m))
        })
   }"

text \<open>The loop of \<open>sys_untimeout\<close>, with the element before the current one.\<close>

partial_function (option) untimeout_loop ::
    "sys_timeout_handler option \<Rightarrow> nat \<Rightarrow> nat option \<Rightarrow> nat option \<Rightarrow> 'w timers \<Rightarrow> 'w timers option" where
  "untimeout_loop handler a prev t st =
     (case t of
        None \<Rightarrow> Some st
      | Some t \<Rightarrow>
          if thandler (tmo st t) = handler \<and> targ (tmo st t) = a then
            (let st = (case prev of
                 None \<Rightarrow> st\<lparr>next_timeout := tnext (tmo st t)\<rparr>
               | Some p \<Rightarrow> st\<lparr>tmo := set_tmo p (\<lambda>x. x\<lparr>tnext := tnext (tmo st t)\<rparr>) (tmo st)\<rparr>);
                 st = (case tnext (tmo st t) of
                 None \<Rightarrow> st
               | Some n \<Rightarrow> st\<lparr>tmo := set_tmo n (\<lambda>x. x\<lparr>ttime := ttime x + ttime (tmo st t)\<rparr>) (tmo st)\<rparr>)
             in map_option (\<lambda>mp. st\<lparr>tpool := mp\<rparr>) (memp_free MEMP_SYS_TIMEOUT (Some t) (tpool st)))
          else untimeout_loop handler a (Some t) (tnext (tmo st t)) st)"

definition sys_untimeout :: "sys_timeout_handler option \<Rightarrow> nat \<Rightarrow> 'w timers \<Rightarrow> 'w timers option" where
  "sys_untimeout handler a st = untimeout_loop handler a None (next_timeout st) st"

section \<open>The periodic handlers\<close>

definition ticked :: "'w modules \<Rightarrow> sys_timeout_handler \<Rightarrow> 'w timers \<Rightarrow> 'w timers option" where
  "ticked mods h st = map_option (\<lambda>w. st\<lparr>world := w\<rparr>) (tick mods h (world st))"

definition tcp_timer :: "'w modules \<Rightarrow> 'w timers \<Rightarrow> 'w timers option" where
  "tcp_timer mods st = do {
     st \<leftarrow> ticked mods tcpip_tcp_timer st;
     (if has_pcbs mods (world st) then sys_timeout TCP_TMR_INTERVAL (Some tcpip_tcp_timer) 0 st
      else Some (st\<lparr>tcpip_tcp_timer_active := False\<rparr>))
   }"

primrec call_handler :: "'w modules \<Rightarrow> sys_timeout_handler \<Rightarrow> 'w timers \<Rightarrow> 'w timers option" where
  "call_handler mods tcpip_tcp_timer st = tcp_timer mods st"
| "call_handler mods ip_reass_timer st =
     Option.bind (ticked mods ip_reass_timer st) (sys_timeout IP_TMR_INTERVAL (Some ip_reass_timer) 0)"
| "call_handler mods arp_timer st =
     Option.bind (ticked mods arp_timer st) (sys_timeout ARP_TMR_INTERVAL (Some arp_timer) 0)"
| "call_handler mods dhcp_timer_coarse st =
     Option.bind (ticked mods dhcp_timer_coarse st) (sys_timeout DHCP_COARSE_TIMER_MSECS (Some dhcp_timer_coarse) 0)"
| "call_handler mods dhcp_timer_fine st =
     Option.bind (ticked mods dhcp_timer_fine st) (sys_timeout DHCP_FINE_TIMER_MSECS (Some dhcp_timer_fine) 0)"

definition tcp_timer_needed :: "'w modules \<Rightarrow> 'w timers \<Rightarrow> 'w timers option" where
  "tcp_timer_needed mods st =
     (if \<not> tcpip_tcp_timer_active st \<and> has_pcbs mods (world st)
      then sys_timeout TCP_TMR_INTERVAL (Some tcpip_tcp_timer) 0 (st\<lparr>tcpip_tcp_timer_active := True\<rparr>)
      else Some st)"

definition sys_timeouts_init :: "u32 \<Rightarrow> 'w timers \<Rightarrow> 'w timers option" where
  "sys_timeouts_init sys_now st = do {
     st \<leftarrow> sys_timeout IP_TMR_INTERVAL (Some ip_reass_timer) 0 st;
     st \<leftarrow> sys_timeout ARP_TMR_INTERVAL (Some arp_timer) 0 st;
     st \<leftarrow> sys_timeout DHCP_COARSE_TIMER_MSECS (Some dhcp_timer_coarse) 0 st;
     st \<leftarrow> sys_timeout DHCP_FINE_TIMER_MSECS (Some dhcp_timer_fine) 0 st;
     st \<leftarrow> sys_timeout TCP_TMR_INTERVAL (Some tcpip_tcp_timer) 0 st;
     Some (st\<lparr>timeouts_last_time := sys_now\<rparr>)
   }"

section \<open>Expiry\<close>

partial_function (option) expire_loop :: "'w modules \<Rightarrow> u32 \<Rightarrow> u32 \<Rightarrow> 'w timers \<Rightarrow> 'w timers option" where
  "expire_loop mods now diff st =
     (case next_timeout st of
        None \<Rightarrow> Some st
      | Some t \<Rightarrow>
          if ttime (tmo st t) \<le> diff then
            Option.bind (memp_free MEMP_SYS_TIMEOUT (Some t) (tpool st)) (\<lambda>mp.
            Option.bind
              (let st' = st\<lparr>timeouts_last_time := now, next_timeout := tnext (tmo st t), tpool := mp\<rparr>
               in case thandler (tmo st t) of None \<Rightarrow> Some st' | Some h \<Rightarrow> call_handler mods h st')
              (expire_loop mods now (diff - ttime (tmo st t))))
          else Some st)"

definition sys_check_timeouts :: "'w modules \<Rightarrow> u32 \<Rightarrow> 'w timers \<Rightarrow> 'w timers option" where
  "sys_check_timeouts mods sys_now st =
     (if next_timeout st = None then Some st
      else expire_loop mods sys_now (sys_now - timeouts_last_time st) st)"

definition sys_restart_timeouts :: "u32 \<Rightarrow> 'w timers \<Rightarrow> 'w timers" where
  "sys_restart_timeouts sys_now st = st\<lparr>timeouts_last_time := sys_now\<rparr>"

text \<open>The clock counts interrupts.\<close>

definition LWIP_TIME_ISR :: "u32 \<Rightarrow> u32" where
  "LWIP_TIME_ISR time_now = time_now + 1"

end
