(* ===== verification/TcpState.thy ===== *)
theory TcpState
  imports Pbuf Timers
begin

text \<open>
  The data of TCP as configured: \<open>struct tcp_pcb\<close>, \<open>struct tcp_seg\<close>, the lists of control
  blocks and the variables of \<open>tcp.c\<close> and \<open>tcp_in.c\<close>. A \<open>struct tcp_pcb_listen\<close> is
  the same record of which only the members it has are used. Pointers to control blocks and segments are
  offsets of pool elements; a callback is the number of a function of the application, and
  \<open>Null_fn\<close> stands for the functions \<open>tcp_recv_null\<close> and \<open>tcp_accept_null\<close> of the module itself.
  Sequence numbers are words, the 16-bit lengths and windows numbers that are reduced where they are
  stored, and the signed 16-bit members integers that are wrapped where they are stored.
\<close>

unbundle bit_operations_syntax

section \<open>States of a connection\<close>

datatype tcp_state = CLOSED | LISTEN | SYN_SENT | SYN_RCVD | ESTABLISHED | FIN_WAIT_1 | FIN_WAIT_2
  | CLOSE_WAIT | CLOSING | LAST_ACK | TIME_WAIT

text \<open>The numbers of the enumeration, which the code compares.\<close>

primrec state_num :: "tcp_state \<Rightarrow> nat" where
  "state_num CLOSED = 0"
| "state_num LISTEN = 1"
| "state_num SYN_SENT = 2"
| "state_num SYN_RCVD = 3"
| "state_num ESTABLISHED = 4"
| "state_num FIN_WAIT_1 = 5"
| "state_num FIN_WAIT_2 = 6"
| "state_num CLOSE_WAIT = 7"
| "state_num CLOSING = 8"
| "state_num LAST_ACK = 9"
| "state_num TIME_WAIT = 10"

lemma state_num_inject: "state_num s = state_num t \<Longrightarrow> s = t"
  by (cases s; cases t) simp_all

instantiation tcp_state :: linorder
begin

definition less_eq_tcp_state :: "tcp_state \<Rightarrow> tcp_state \<Rightarrow> bool" where
  "less_eq_tcp_state s t = (state_num s \<le> state_num t)"

definition less_tcp_state :: "tcp_state \<Rightarrow> tcp_state \<Rightarrow> bool" where
  "less_tcp_state s t = (state_num s < state_num t)"

instance
  by standard (auto simp: less_eq_tcp_state_def less_tcp_state_def dest: state_num_inject)

end

lemmas state_order = less_eq_tcp_state_def less_tcp_state_def

section \<open>Constants\<close>

abbreviation TF_ACK_DELAY :: u8 where "TF_ACK_DELAY \<equiv> 0x01"
abbreviation TF_ACK_NOW :: u8 where "TF_ACK_NOW \<equiv> 0x02"
abbreviation TF_INFR :: u8 where "TF_INFR \<equiv> 0x04"
abbreviation TF_RXCLOSED :: u8 where "TF_RXCLOSED \<equiv> 0x10"
abbreviation TF_FIN :: u8 where "TF_FIN \<equiv> 0x20"
abbreviation TF_NODELAY :: u8 where "TF_NODELAY \<equiv> 0x40"
abbreviation TF_NAGLEMEMERR :: u8 where "TF_NAGLEMEMERR \<equiv> 0x80"
abbreviation TF_RESET :: u8 where "TF_RESET \<equiv> 0x08"
abbreviation TF_CLOSED :: u8 where "TF_CLOSED \<equiv> 0x10"
abbreviation TF_GOT_FIN :: u8 where "TF_GOT_FIN \<equiv> 0x20"
abbreviation TF_SEG_OPTS_MSS :: u8 where "TF_SEG_OPTS_MSS \<equiv> 0x01"
abbreviation TCP_FIN :: u8 where "TCP_FIN \<equiv> 0x01"
abbreviation TCP_SYN :: u8 where "TCP_SYN \<equiv> 0x02"
abbreviation TCP_RST :: u8 where "TCP_RST \<equiv> 0x04"
abbreviation TCP_PSH :: u8 where "TCP_PSH \<equiv> 0x08"
abbreviation TCP_ACK :: u8 where "TCP_ACK \<equiv> 0x10"
abbreviation TCP_FLAGS :: u8 where "TCP_FLAGS \<equiv> 0x3f"
abbreviation SOF_ACCEPTCONN :: u8 where "SOF_ACCEPTCONN \<equiv> 0x02"
abbreviation SOF_KEEPALIVE :: u8 where "SOF_KEEPALIVE \<equiv> 0x08"
abbreviation SOF_INHERITED :: u8 where "SOF_INHERITED \<equiv> 0x8c"
abbreviation PBUF_FLAG_PUSH :: u8 where "PBUF_FLAG_PUSH \<equiv> 0x01"
abbreviation PBUF_FLAG_TCP_FIN :: u8 where "PBUF_FLAG_TCP_FIN \<equiv> 0x20"
abbreviation TCP_WRITE_FLAG_COPY :: u8 where "TCP_WRITE_FLAG_COPY \<equiv> 0x01"
abbreviation TCP_WRITE_FLAG_MORE :: u8 where "TCP_WRITE_FLAG_MORE \<equiv> 0x02"
abbreviation TCP_HLEN :: nat where "TCP_HLEN \<equiv> 20"
abbreviation TCP_MSS :: nat where "TCP_MSS \<equiv> 1460"
abbreviation TCP_WND :: nat where "TCP_WND \<equiv> 2920"
abbreviation TCP_SND_BUF :: nat where "TCP_SND_BUF \<equiv> 2920"

text \<open>\<open>TCP_SND_QUEUELEN\<close> expands to \<open>(6 * TCP_SND_BUF)/TCP_MSS\<close> = \<open>6 * (2*1460) / 1460\<close>.\<close>

abbreviation TCP_SND_QUEUELEN :: nat where "TCP_SND_QUEUELEN \<equiv> 12"
abbreviation TCP_SNDQUEUELEN_OVERFLOW :: nat where "TCP_SNDQUEUELEN_OVERFLOW \<equiv> 0xfffc"
abbreviation TCP_WND_UPDATE_THRESHOLD :: nat where "TCP_WND_UPDATE_THRESHOLD \<equiv> 730"
abbreviation TCP_OVERSIZE :: nat where "TCP_OVERSIZE \<equiv> 1460"
abbreviation TCP_MAXRTX :: nat where "TCP_MAXRTX \<equiv> 12"
abbreviation TCP_SYNMAXRTX :: nat where "TCP_SYNMAXRTX \<equiv> 6"
abbreviation TCP_TTL :: u8 where "TCP_TTL \<equiv> 255"
abbreviation TCP_PRIO_MIN :: nat where "TCP_PRIO_MIN \<equiv> 1"
abbreviation TCP_PRIO_NORMAL :: nat where "TCP_PRIO_NORMAL \<equiv> 64"
abbreviation TCP_PRIO_MAX :: nat where "TCP_PRIO_MAX \<equiv> 127"
abbreviation TCP_LOCAL_PORT_RANGE_START :: nat where "TCP_LOCAL_PORT_RANGE_START \<equiv> 0xc000"
abbreviation TCP_LOCAL_PORT_RANGE_END :: nat where "TCP_LOCAL_PORT_RANGE_END \<equiv> 0xffff"

section \<open>Arithmetic\<close>

text \<open>Difference stored into a \<open>u16_t\<close>, and a value stored into an \<open>s16_t\<close>.\<close>

definition sub16 :: "nat \<Rightarrow> nat \<Rightarrow> nat" where
  "sub16 a b = nat ((int a - int b) mod 65536)"

definition s16 :: "int \<Rightarrow> int" where
  "s16 i = (i + 32768) mod 65536 - 32768"

definition TCP_SEQ_LT :: "u32 \<Rightarrow> u32 \<Rightarrow> bool" where "TCP_SEQ_LT a b = (sint (a - b) < 0)"

definition TCP_SEQ_LEQ :: "u32 \<Rightarrow> u32 \<Rightarrow> bool" where "TCP_SEQ_LEQ a b = (sint (a - b) \<le> 0)"

definition TCP_SEQ_GT :: "u32 \<Rightarrow> u32 \<Rightarrow> bool" where "TCP_SEQ_GT a b = (sint (a - b) > 0)"

definition TCP_SEQ_GEQ :: "u32 \<Rightarrow> u32 \<Rightarrow> bool" where "TCP_SEQ_GEQ a b = (sint (a - b) \<ge> 0)"

definition TCP_SEQ_BETWEEN :: "u32 \<Rightarrow> u32 \<Rightarrow> u32 \<Rightarrow> bool" where
  "TCP_SEQ_BETWEEN a b c = (TCP_SEQ_GEQ a b \<and> TCP_SEQ_LEQ a c)"

section \<open>Control blocks and segments\<close>

datatype callback = Null_fn | App nat

record tcp_pcb =
  t_local_ip :: u32
  t_remote_ip :: u32
  t_so_options :: u8
  t_tos :: u8
  t_ttl :: u8
  t_next :: "nat option"
  t_arg :: nat
  t_accept :: "callback option"
  t_state :: tcp_state
  t_prio :: nat
  t_local_port :: nat
  t_remote_port :: nat
  t_flags :: u8
  t_polltmr :: nat
  t_pollinterval :: nat
  t_last_timer :: u8
  t_tmr :: u32
  t_rcv_nxt :: u32
  t_rcv_wnd :: nat
  t_rcv_ann_wnd :: nat
  t_rcv_ann_right_edge :: u32
  t_rtime :: int
  t_mss :: nat
  t_rttest :: u32
  t_rtseq :: u32
  t_sa :: int
  t_sv :: int
  t_rto :: int
  t_nrtx :: nat
  t_dupacks :: nat
  t_lastack :: u32
  t_cwnd :: nat
  t_ssthresh :: nat
  t_snd_nxt :: u32
  t_snd_wl1 :: u32
  t_snd_wl2 :: u32
  t_snd_lbb :: u32
  t_snd_wnd :: nat
  t_snd_wnd_max :: nat
  t_acked :: nat
  t_snd_buf :: nat
  t_snd_queuelen :: nat
  t_unsent_oversize :: nat
  t_unsent :: "nat option"
  t_unacked :: "nat option"
  t_refused_data :: "loc option"
  t_sent :: "nat option"
  t_recv :: "callback option"
  t_connected :: "nat option"
  t_poll :: "nat option"
  t_errf :: "nat option"
  t_keep_idle :: u32
  t_persist_cnt :: nat
  t_persist_backoff :: nat
  t_keep_cnt_sent :: nat

definition zero_tcp_pcb :: tcp_pcb where
  "zero_tcp_pcb = \<lparr>t_local_ip = 0, t_remote_ip = 0, t_so_options = 0, t_tos = 0, t_ttl = 0, t_next = None, t_arg = 0,
     t_accept = None, t_state = CLOSED, t_prio = 0, t_local_port = 0, t_remote_port = 0, t_flags = 0, t_polltmr = 0,
     t_pollinterval = 0, t_last_timer = 0, t_tmr = 0, t_rcv_nxt = 0, t_rcv_wnd = 0, t_rcv_ann_wnd = 0,
     t_rcv_ann_right_edge = 0, t_rtime = 0, t_mss = 0, t_rttest = 0, t_rtseq = 0, t_sa = 0, t_sv = 0, t_rto = 0,
     t_nrtx = 0, t_dupacks = 0, t_lastack = 0, t_cwnd = 0, t_ssthresh = 0, t_snd_nxt = 0, t_snd_wl1 = 0, t_snd_wl2 = 0,
     t_snd_lbb = 0, t_snd_wnd = 0, t_snd_wnd_max = 0, t_acked = 0, t_snd_buf = 0, t_snd_queuelen = 0,
     t_unsent_oversize = 0, t_unsent = None, t_unacked = None, t_refused_data = None, t_sent = None, t_recv = None,
     t_connected = None, t_poll = None, t_errf = None, t_keep_idle = 0, t_persist_cnt = 0, t_persist_backoff = 0,
     t_keep_cnt_sent = 0\<rparr>"

text \<open>\<open>s_oversize_left\<close> is compiled in, because \<open>LWIP_DEBUG\<close> is defined.\<close>

record tcp_seg =
  s_next :: "nat option"
  s_p :: "loc option"
  s_len :: nat
  s_oversize_left :: nat
  s_flags :: u8
  s_tcphdr :: dptr

section \<open>Variables\<close>

text \<open>
  The segment that is being processed is kept in the static variables of \<open>tcp_in.c\<close>
  (\<open>inseg\<close>, and with a prefix \<open>tcphdr\<close>, \<open>seqno\<close>, \<open>ackno\<close>, \<open>flags\<close>, \<open>tcplen\<close>). \<open>iss\<close> is that of \<open>tcp_next_iss\<close>,
  \<open>tcp_tmr_count\<close> the variable \<open>tcp_timer\<close>. \<open>timeouts\<close> are the variables of \<open>lwip_timers.c\<close>,
  whose pool is the one of the network.
\<close>

record tcp_vars =
  tcp_bound_pcbs :: "nat option"
  tcp_listen_pcbs :: "nat option"
  tcp_active_pcbs :: "nat option"
  tcp_tw_pcbs :: "nat option"
  tcp_pcb_at :: "nat \<Rightarrow> tcp_pcb"
  tcp_seg_at :: "nat \<Rightarrow> tcp_seg"
  tcp_port :: nat
  tcp_ticks :: u32
  tcp_timer_ctr :: u8
  tcp_tmr_count :: u8
  tcp_active_pcbs_changed :: bool
  tcp_iss :: u32
  tcp_input_pcb :: "nat option"
  inseg :: tcp_seg
  in_tcphdr :: dptr
  in_seqno :: u32
  in_ackno :: u32
  in_flags :: u8
  in_tcplen :: nat
  recv_flags :: u8
  recv_data :: "loc option"
  timeouts :: "unit timers"

text \<open>What the variables hold when the program starts; control blocks and segments are unused pool elements.\<close>

definition tcp_vars_init :: tcp_vars where
  "tcp_vars_init = \<lparr>tcp_bound_pcbs = None, tcp_listen_pcbs = None, tcp_active_pcbs = None, tcp_tw_pcbs = None,
     tcp_pcb_at = (\<lambda>_. zero_tcp_pcb),
     tcp_seg_at = (\<lambda>_. \<lparr>s_next = None, s_p = None, s_len = 0, s_oversize_left = 0, s_flags = 0, s_tcphdr = None\<rparr>),
     tcp_port = TCP_LOCAL_PORT_RANGE_START, tcp_ticks = 0, tcp_timer_ctr = 0, tcp_tmr_count = 0,
     tcp_active_pcbs_changed = False, tcp_iss = 6510, tcp_input_pcb = None,
     inseg = \<lparr>s_next = None, s_p = None, s_len = 0, s_oversize_left = 0, s_flags = 0, s_tcphdr = None\<rparr>,
     in_tcphdr = None, in_seqno = 0, in_ackno = 0, in_flags = 0, in_tcplen = 0, recv_flags = 0, recv_data = None,
     timeouts = \<lparr>tpool = \<lparr>memp_tab = (\<lambda>_. None), mp_next = (\<lambda>_. None)\<rparr>,
       tmo = (\<lambda>_. \<lparr>tnext = None, ttime = 0, thandler = None, targ = 0\<rparr>), next_timeout = None,
       timeouts_last_time = 0, tcpip_tcp_timer_active = False, world = ()\<rparr>\<rparr>"

text \<open>The arrays of \<open>tcp.c\<close>; a read behind their end has no result.\<close>

definition tcp_backoff :: "nat list" where
  "tcp_backoff = [1, 2, 3, 4, 5, 6, 7, 7, 7, 7, 7, 7, 7]"

definition tcp_persist_backoff :: "nat list" where
  "tcp_persist_backoff = [3, 6, 12, 24, 48, 96, 120]"

end
