(* ===== verification/Tcp.thy ===== *)
theory Tcp
  imports TcpState
begin

text \<open>
  What the two servers of \<open>lwip/httpd.c\<close> see of a \<open>struct tcp_pcb\<close> and of the calls of
  \<open>lwip/tcp.h\<close> they make (\<open>tcp_write\<close> is \<open>conn_write\<close> here, and so on): an abstraction of
  the modules \<open>TcpOut\<close> and \<open>TcpPcb\<close>. Whether \<open>conn_write\<close> accepts a
  number of bytes, how many buffers are queued afterwards and whether \<open>conn_close\<close>
  succeeds are the parameter \<open>env\<close>. \<open>written\<close> are the bytes queued for the peer.
\<close>

datatype tcp_end = Open | Closed | Aborted

record tcp =
  cb_arg :: "int option"
  cb_recv :: bool
  cb_sent :: bool
  cb_err :: bool
  cb_poll :: "nat option"
  prio :: nat
  snd_buf :: nat
  snd_queuelen :: nat
  mss :: nat
  written :: "u8 list"
  recved :: nat
  flushed :: nat
  conn_state :: tcp_end

record tcp_env =
  write_result :: "nat \<Rightarrow> tcp \<Rightarrow> err_t"
  write_queue :: "nat \<Rightarrow> tcp \<Rightarrow> nat"
  close_result :: "tcp \<Rightarrow> err_t"

definition conn_write :: "tcp_env \<Rightarrow> u8 list \<Rightarrow> tcp \<Rightarrow> err_t \<times> tcp" where
  "conn_write env xs t =
     (let e = write_result env (length xs) t in
      (e, if e = ERR_OK
          then t\<lparr>written := written t @ xs, snd_buf := snd_buf t - length xs,
                snd_queuelen := write_queue env (length xs) t\<rparr>
          else t))"

definition conn_close :: "tcp_env \<Rightarrow> tcp \<Rightarrow> err_t \<times> tcp" where
  "conn_close env t = (let e = close_result env t in (e, if e = ERR_OK then t\<lparr>conn_state := Closed\<rparr> else t))"

definition conn_abort :: "tcp \<Rightarrow> tcp" where
  "conn_abort t = t\<lparr>conn_state := Aborted\<rparr>"

text \<open>\<open>tcp_arg\<close>, \<open>tcp_recv\<close>, \<open>tcp_err\<close>, \<open>tcp_poll\<close> and \<open>tcp_sent\<close> with null pointers.\<close>

definition conn_detach :: "tcp \<Rightarrow> tcp" where
  "conn_detach t = t\<lparr>cb_arg := None, cb_recv := False, cb_err := False, cb_poll := None, cb_sent := False\<rparr>"

definition conn_recved :: "nat \<Rightarrow> tcp \<Rightarrow> tcp" where
  "conn_recved n t = t\<lparr>recved := recved t + n\<rparr>"

text \<open>A connection that takes whatever its send buffer has room for.\<close>

definition accepts :: "tcp_env \<Rightarrow> bool" where
  "accepts env = (\<forall>n t. n \<le> snd_buf t \<longrightarrow> write_result env n t = ERR_OK)"

end
