(* ===== verification/Echo.thy ===== *)
theory Echo
  imports Tcp Kernel
begin

text \<open>
  The dock of \<open>lwip/httpd.c\<close> (\<open>echo_accept\<close> to \<open>echo_close\<close>, port 10887): the TCP server
  through which the host sends its messages. A message goes through \<open>ethergate\<close>, which
  answers in place, and back to the host. One connection is modelled, with the kernel
  behind the gate, the buffers, and the \<open>struct echo_state\<close> in its heap block. Writing
  log messages is left out. \<open>None\<close> is a null pointer, a failed assertion or an access
  outside a buffer.
\<close>

datatype echo_states = ES_NONE | ES_ACCEPTED | ES_RECEIVED | ES_CLOSING

record echo_state =
  es_state :: echo_states
  es_retries :: u8
  es_p :: "loc option"

record dock =
  dk :: kernel
  dnet :: net
  dtcp :: tcp
  des :: echo_state

type_synonym cfree = "loc \<Rightarrow> net \<Rightarrow> net option"

section \<open>Messages in memory\<close>

abbreviation ACPMESSAGE_LENGTH :: nat where "ACPMESSAGE_LENGTH \<equiv> 162"

definition encode :: "antares_msg \<Rightarrow> u8 list" where
  "encode m = [csum m, msg_size m] @ tstamp m @ [cmd m, arg m] @ seq m @ [orig m, dest m, magic m] @ antares_msg.data m"

definition decode :: "u8 list \<Rightarrow> antares_msg" where
  "decode xs = \<lparr>csum = xs ! 0, msg_size = xs ! 1, tstamp = take 3 (drop 2 xs), cmd = xs ! 5, arg = xs ! 6,
     seq = take 2 (drop 7 xs), orig = xs ! 9, dest = xs ! 10, magic = xs ! 11, data = take 150 (drop 12 xs)\<rparr>"

text \<open>
  \<open>ethergate(es->p->payload)\<close>: the message is read from the buffer and written back over it.
  The buffers of received segments are pool elements of 16 and 600 bytes; the gate takes
  162 bytes from the payload on whatever the length of the buffer.
\<close>

definition gate_buffer :: "loc \<Rightarrow> dock \<Rightarrow> dock option" where
  "gate_buffer p d =
     (case payload (pb (dnet d) p) of
        Some (Pool e, off) \<Rightarrow>
          if 0 \<le> off \<and> off + int ACPMESSAGE_LENGTH \<le> int (SIZEOF_STRUCT_PBUF + PBUF_POOL_BUFSIZE_ALIGNED) then
            Option.bind (peek (Some (Pool e, off)) 0 ACPMESSAGE_LENGTH (dnet d)) (\<lambda>xs.
              (let (m, k) = ethergate (decode xs) (dk d) in
               map_option (\<lambda>n. d\<lparr>dk := k, dnet := n\<rparr>) (poke (Some (Pool e, off)) 0 (encode m) (dnet d))))
          else None
      | _ \<Rightarrow> None)"

section \<open>Sending and closing\<close>

text \<open>\<open>do freed = pbuf_free(ptr); while (freed == 0)\<close>.\<close>

partial_function (option) free_hard :: "cfree \<Rightarrow> loc \<Rightarrow> net \<Rightarrow> net option" where
  "free_hard cfree p n =
     Option.bind (pbuf_free cfree (Some p) n) (\<lambda>(freed, n'). if freed = 0 then free_hard cfree p n' else Some n')"

partial_function (option) echo_send :: "tcp_env \<Rightarrow> cfree \<Rightarrow> dock \<Rightarrow> dock option" where
  "echo_send env cfree d =
     (case es_p (des d) of
        None \<Rightarrow> Some d
      | Some ptr \<Rightarrow>
          if plen (pb (dnet d) ptr) \<le> snd_buf (dtcp d) then
            Option.bind (peek (payload (pb (dnet d) ptr)) 0 (plen (pb (dnet d) ptr)) (dnet d)) (\<lambda>xs.
              (let (e, t) = conn_write env xs (dtcp d) in
               if e = ERR_OK then
                 (let len = plen (pb (dnet d) ptr); next = pnext (pb (dnet d) ptr) in
                  Option.bind (free_hard cfree ptr (pbuf_ref next (dnet d))) (\<lambda>n.
                    echo_send env cfree (d\<lparr>dnet := n, dtcp := conn_recved len t,
                                           des := (des d)\<lparr>es_p := next\<rparr>\<rparr>)))
               else Some (d\<lparr>dtcp := t\<rparr>)))
          else Some d)"

definition heap_free :: "int option \<Rightarrow> dock \<Rightarrow> dock option" where
  "heap_free a d = map_option (\<lambda>h. d\<lparr>dnet := (dnet d)\<lparr>nheap := h\<rparr>\<rparr>) (mem_free a (nheap (dnet d)))"

text \<open>\<open>es\<close> is the address of the state block; a null \<open>es\<close> is \<open>None\<close>.\<close>

definition echo_close :: "tcp_env \<Rightarrow> int option \<Rightarrow> dock \<Rightarrow> dock option" where
  "echo_close env es d = do {
     let d = d\<lparr>dtcp := conn_detach (dtcp d)\<rparr>;
     d \<leftarrow> (if es = None then Some d else heap_free es d);
     Some (d\<lparr>dtcp := snd (conn_close env (dtcp d))\<rparr>)
   }"

section \<open>Callbacks\<close>

definition set_sent :: "dock \<Rightarrow> dock" where
  "set_sent d = d\<lparr>dtcp := (dtcp d)\<lparr>cb_sent := True\<rparr>\<rparr>"

definition echo_accept :: "dock \<Rightarrow> (err_t \<times> dock) option" where
  "echo_accept d = do {
     let d = d\<lparr>dtcp := (dtcp d)\<lparr>prio := TCP_PRIO_MIN\<rparr>\<rparr>;
     (a, h) \<leftarrow> mem_malloc 12 (nheap (dnet d));
     let d = d\<lparr>dnet := (dnet d)\<lparr>nheap := h\<rparr>\<rparr>;
     Some (case a of
        None \<Rightarrow> (ERR_MEM, d)
      | Some es \<Rightarrow>
          (ERR_OK, d\<lparr>des := \<lparr>es_state = ES_ACCEPTED, es_retries = 0, es_p = None\<rparr>,
             dtcp := (dtcp d)\<lparr>cb_arg := Some es, cb_recv := True, cb_err := True, cb_poll := Some 0\<rparr>\<rparr>))
   }"

definition set_p :: "loc option \<Rightarrow> dock \<Rightarrow> dock" where
  "set_p p d = d\<lparr>des := (des d)\<lparr>es_p := p\<rparr>\<rparr>"

definition net_free :: "cfree \<Rightarrow> loc \<Rightarrow> dock \<Rightarrow> dock option" where
  "net_free cfree p d = map_option (\<lambda>(_, n). d\<lparr>dnet := n\<rparr>) (pbuf_free cfree (Some p) (dnet d))"

definition trash :: "cfree \<Rightarrow> loc \<Rightarrow> dock \<Rightarrow> dock option" where
  "trash cfree p d = net_free cfree p (set_p None (d\<lparr>dtcp := conn_recved (tot_len (pb (dnet d) p)) (dtcp d)\<rparr>))"

definition echo_recv :: "tcp_env \<Rightarrow> cfree \<Rightarrow> int option \<Rightarrow> loc option \<Rightarrow> err_t \<Rightarrow> dock \<Rightarrow> (err_t \<times> dock) option" where
  "echo_recv env cfree es p err d = do {
     lwip_assert (es \<noteq> None);
     (case p of
        None \<Rightarrow> do {
          let d = d\<lparr>des := (des d)\<lparr>es_state := ES_CLOSING\<rparr>\<rparr>;
          d \<leftarrow> (if es_p (des d) = None then echo_close env es d else echo_send env cfree (set_sent d));
          Some (ERR_OK, d)
        }
      | Some b \<Rightarrow>
          if err \<noteq> ERR_OK then map_option (\<lambda>d. (err, d)) (net_free cfree b (set_p None d))
          else (case es_state (des d) of
             ES_ACCEPTED \<Rightarrow>
               map_option (\<lambda>d. (ERR_OK, d))
                 (echo_send env cfree (set_sent (d\<lparr>des := (des d)\<lparr>es_state := ES_RECEIVED, es_p := p\<rparr>\<rparr>)))
           | ES_RECEIVED \<Rightarrow>
               (case es_p (des d) of
                  None \<Rightarrow> do {
                    d \<leftarrow> gate_buffer b (set_sent (set_p p d));
                    map_option (\<lambda>d. (ERR_OK, d)) (echo_send env cfree d)
                  }
                | Some ptr \<Rightarrow> map_option (\<lambda>n. (ERR_OK, d\<lparr>dnet := n\<rparr>)) (pbuf_chain (Some ptr) p (dnet d)))
           | _ \<Rightarrow> map_option (\<lambda>d. (ERR_OK, d)) (trash cfree b d)))
   }"

definition echo_error :: "int option \<Rightarrow> dock \<Rightarrow> dock option" where
  "echo_error es d = (if es = None then Some d else heap_free es d)"

definition echo_poll :: "tcp_env \<Rightarrow> cfree \<Rightarrow> int option \<Rightarrow> dock \<Rightarrow> (err_t \<times> dock) option" where
  "echo_poll env cfree es d =
     (if es = None then Some (ERR_ABRT, d\<lparr>dtcp := conn_abort (dtcp d)\<rparr>)
      else map_option (\<lambda>d. (ERR_OK, d))
        (if es_p (des d) \<noteq> None then echo_send env cfree (set_sent d)
         else if es_state (des d) = ES_CLOSING then echo_close env es d
         else Some d))"

definition echo_sent :: "tcp_env \<Rightarrow> cfree \<Rightarrow> int option \<Rightarrow> dock \<Rightarrow> (err_t \<times> dock) option" where
  "echo_sent env cfree es d =
     (if es = None then None
      else (let d = d\<lparr>des := (des d)\<lparr>es_retries := 0\<rparr>\<rparr> in
        map_option (\<lambda>d. (ERR_OK, d))
          (if es_p (des d) \<noteq> None then echo_send env cfree (set_sent d)
           else if es_state (des d) = ES_CLOSING then echo_close env es d
           else Some d)))"

end
