(* ===== verification/PbufProps.thy ===== *)
theory PbufProps
  imports Pbuf
begin

text \<open>
  What the packet buffers promise: a packet is a list of buffers linked by \<open>next\<close>, whose
  \<open>tot_len\<close> fields are the sums of the lengths from there on and whose content is the
  concatenation of the buffers' data. Copying, searching and joining are proved against
  that list; allocation and release against the pool the buffers come from.
\<close>

unbundle bit_operations_syntax

lemma set_pb_simps [simp]:
  "pb (set_pb p f st) = (pb st)(p := f (pb st p))"
  "bytes (set_pb p f st) = bytes st" "npools (set_pb p f st) = npools st" "pcr_original (set_pb p f st) = pcr_original st" "nheap (set_pb p f st) = nheap st"
  by (simp_all add: set_pb_def)

lemma net_update_order [simp]: "st\<lparr>npools := m, pb := f\<rparr> = st\<lparr>pb := f, npools := m\<rparr>"
  by (cases st) simp

section \<open>Packets\<close>

fun pchain :: "(loc \<Rightarrow> pbuf) \<Rightarrow> loc option \<Rightarrow> loc list \<Rightarrow> loc option \<Rightarrow> bool" where
  "pchain f po [] e = (po = e)"
| "pchain f po (p # ps) e = (po = Some p \<and> pchain f (pnext (f p)) ps e)"

fun lens_ok :: "(loc \<Rightarrow> pbuf) \<Rightarrow> loc list \<Rightarrow> bool" where
  "lens_ok f [] = True"
| "lens_ok f (p # ps) = (tot_len (f p) = plen (f p) + (\<Sum>q \<leftarrow> ps. plen (f q)) \<and> lens_ok f ps)"

definition buf_data :: "net \<Rightarrow> loc \<Rightarrow> u8 list" where
  "buf_data st p = (case payload (pb st p) of None \<Rightarrow> []
     | Some (b, off) \<Rightarrow> map (\<lambda>k. bytes st b (off + int k)) [0..<plen (pb st p)])"

definition content :: "net \<Rightarrow> loc list \<Rightarrow> u8 list" where
  "content st ps = concat (map (buf_data st) ps)"

definition has_data :: "net \<Rightarrow> loc list \<Rightarrow> bool" where
  "has_data st ps = (\<forall>p \<in> set ps. payload (pb st p) \<noteq> None)"

lemma content_simps [simp]: "content st [] = []" "content st (p # ps) = buf_data st p @ content st ps"
  by (simp_all add: content_def)

lemma has_data_simps [simp]:
  "has_data st []" "has_data st (p # ps) = (payload (pb st p) \<noteq> None \<and> has_data st ps)"
  by (auto simp: has_data_def)

lemma length_data: "payload (pb st p) \<noteq> None \<Longrightarrow> length (buf_data st p) = plen (pb st p)"
  by (auto simp: buf_data_def)

lemma length_content: "has_data st ps \<Longrightarrow> length (content st ps) = (\<Sum>q \<leftarrow> ps. plen (pb st q))"
  by (induction ps) (auto simp: length_data)

lemma pchain_frame: "pchain f po ps e \<Longrightarrow> \<forall>p \<in> set ps. pnext (g p) = pnext (f p) \<Longrightarrow> pchain g po ps e"
  by (induction ps arbitrary: po) auto

lemma lens_ok_frame:
  "lens_ok f ps \<Longrightarrow> \<forall>p \<in> set ps. tot_len (g p) = tot_len (f p) \<and> plen (g p) = plen (f p) \<Longrightarrow> lens_ok g ps"
  by (induction ps) (auto intro: arg_cong [where f = sum_list] map_cong simp: comp_def)

lemma pchain_append: "pchain f po (ps @ qs) e = (\<exists>m. pchain f po ps m \<and> pchain f m qs e)"
  by (induction ps arbitrary: po) auto

section \<open>Reading\<close>

lemma peek_data:
  assumes "payload (pb st p) \<noteq> None" and "i + n \<le> plen (pb st p)"
  shows "peek (payload (pb st p)) (int i) n st = Some (take n (drop i (buf_data st p)))"
proof -
  obtain b off where d: "payload (pb st p) = Some (b, off)" using assms(1) by auto
  have "map (\<lambda>k. bytes st b (off + int i + int k)) [0..<n]
      = take n (drop i (map (\<lambda>k. bytes st b (off + int k)) [0..<plen (pb st p)]))"
    using assms(2) by (intro nth_equalityI) (auto simp: algebra_simps)
  then show ?thesis by (simp add: peek_def buf_data_def d)
qed

lemma partial_loop_spec:
  "pchain (pb st) po ps None \<Longrightarrow> has_data st ps \<Longrightarrow>
   partial_loop po len off acc st = Some (acc @ take len (drop off (content st ps)))"
proof (induction ps arbitrary: po len off acc)
  case Nil
  then show ?case by (simp add: partial_loop.simps)
next
  case (Cons p ps)
  let ?d = "plen (pb st p)"
  have l: "length (buf_data st p) = ?d" using Cons.prems(2) by (simp add: length_data)
  have po: "po = Some p" using Cons.prems(1) by simp
  note IH = Cons.IH [of "pnext (pb st p)"]
  consider (z) "len = 0" | (skip) "len \<noteq> 0" "off \<noteq> 0" "?d \<le> off" | (copy) "len \<noteq> 0" "off \<le> ?d" "off = 0 \<or> off < ?d"
    by linarith
  then show ?case
  proof cases
    case z
    then show ?thesis by (simp add: partial_loop.simps)
  next
    case skip
    then have "partial_loop po len off acc st = partial_loop (pnext (pb st p)) len (off - ?d) acc st"
      by (subst partial_loop.simps) (simp add: po)
    with skip IH Cons.prems l show ?thesis by simp
  next
    case copy
    define n where "n = min (?d - off) len"
    have n: "off + n \<le> ?d" using copy by (simp add: n_def)
    have "partial_loop po len off acc st
        = partial_loop (pnext (pb st p)) (len - n) 0 (acc @ take n (drop off (buf_data st p))) st"
      using copy peek_data [OF _ n] Cons.prems by (subst partial_loop.simps) (auto simp: po n_def [symmetric])
    moreover have "take len (drop off (buf_data st p)) = take n (drop off (buf_data st p))"
      using l by (cases "?d - off \<le> len") (simp_all add: n_def min_def)
    moreover have "len - n = len - (?d - off)" by (simp add: n_def)
    ultimately show ?thesis using IH Cons.prems copy l by simp
  qed
qed

lemma seek_loop_spec:
  "pchain (pb st) po ps None \<Longrightarrow> has_data st ps \<Longrightarrow>
   (off < length (content st ps) \<longrightarrow>
      (\<exists>q i. seek_loop po off st = Some (Some q, i) \<and> i < plen (pb st q) \<and> payload (pb st q) \<noteq> None \<and>
         buf_data st q ! i = content st ps ! off)) \<and>
   (length (content st ps) \<le> off \<longrightarrow> (\<exists>i. seek_loop po off st = Some (None, i)))"
proof (induction ps arbitrary: po off)
  case Nil
  then show ?case by (simp add: seek_loop.simps)
next
  case (Cons p ps)
  have po: "po = Some p" and l: "length (buf_data st p) = plen (pb st p)"
    using Cons.prems by (simp_all add: length_data)
  show ?case
  proof (cases "plen (pb st p) \<le> off")
    case True
    have "seek_loop po off st = seek_loop (pnext (pb st p)) (off - plen (pb st p)) st"
      using True by (subst seek_loop.simps) (simp add: po)
    with Cons.IH [of "pnext (pb st p)" "off - plen (pb st p)"] Cons.prems True l show ?thesis
      by (auto simp: nth_append)
  next
    case False
    then have "seek_loop po off st = Some (Some p, off)" by (subst seek_loop.simps) (simp add: po)
    with False l Cons.prems show ?thesis by (auto simp: nth_append)
  qed
qed

lemma clen_loop_spec: "pchain (pb st) po ps None \<Longrightarrow> n < 256 \<Longrightarrow> clen_loop po n st = Some ((n + length ps) mod 256)"
proof (induction ps arbitrary: po n)
  case (Cons p ps)
  then have "clen_loop po n st = clen_loop (pnext (pb st p)) ((n + 1) mod 256) st"
    by (subst clen_loop.simps) simp
  with Cons.IH [of "pnext (pb st p)" "(n + 1) mod 256"] Cons.prems show ?case by (simp add: mod_Suc_eq mod_simps)
qed (simp add: clen_loop.simps)

section \<open>Writing\<close>

definition cells :: "net \<Rightarrow> loc \<Rightarrow> (loc \<times> int) set" where
  "cells st p = {(b, k). \<exists>off. payload (pb st p) = Some (b, off) \<and> off \<le> k \<and> k < off + int (plen (pb st p))}"

fun apart :: "net \<Rightarrow> loc list \<Rightarrow> bool" where
  "apart st [] = True"
| "apart st (p # ps) = ((\<forall>q \<in> set ps. cells st p \<inter> cells st q = {}) \<and> apart st ps)"

lemma data_cong:
  assumes "pb st' p = pb st p" and "\<And>b k. (b, k) \<in> cells st p \<Longrightarrow> bytes st' b k = bytes st b k"
  shows "buf_data st' p = buf_data st p"
  using assms by (auto simp: buf_data_def cells_def split: option.splits)

lemma content_cong:
  assumes "\<And>p. p \<in> set ps \<Longrightarrow> buf_data st' p = buf_data st p"
  shows "content st' ps = content st ps"
  using assms by (induction ps) auto

lemma poke_spec:
  assumes "payload (pb st p) \<noteq> None" and "length xs \<le> plen (pb st p)"
  shows "\<exists>bs. poke (payload (pb st p)) 0 xs st = Some (st\<lparr>bytes := bs\<rparr>) \<and>
     buf_data (st\<lparr>bytes := bs\<rparr>) p = xs @ drop (length xs) (buf_data st p) \<and>
     (\<forall>b k. (b, k) \<notin> cells st p \<longrightarrow> bs b k = bytes st b k)"
proof -
  obtain b off where d: "payload (pb st p) = Some (b, off)" using assms(1) by auto
  define bs where "bs = (bytes st)(b := (\<lambda>k. if off \<le> k \<and> k < off + int (length xs) then xs ! nat (k - (off + 0)) else bytes st b k))"
  have "map (\<lambda>k. bs b (off + int k)) [0..<plen (pb st p)]
      = xs @ drop (length xs) (map (\<lambda>k. bytes st b (off + int k)) [0..<plen (pb st p)])"
    using assms(2) by (intro nth_equalityI) (auto simp: bs_def nth_append)
  moreover have "\<forall>b' k. (b', k) \<notin> cells st p \<longrightarrow> bs b' k = bytes st b' k"
    using assms(2) by (auto simp: bs_def cells_def d)
  ultimately show ?thesis
    by (intro exI [of _ bs]) (simp add: poke_def d buf_data_def bs_def)
qed

lemma take_loop_spec:
  "pchain (pb st) po ps None \<Longrightarrow> has_data st ps \<Longrightarrow> apart st ps \<Longrightarrow> length xs \<le> length (content st ps) \<Longrightarrow>
   \<exists>bs. take_loop po xs st = Some (st\<lparr>bytes := bs\<rparr>) \<and>
     content (st\<lparr>bytes := bs\<rparr>) ps = xs @ drop (length xs) (content st ps) \<and>
     (\<forall>b k. (\<forall>p \<in> set ps. (b, k) \<notin> cells st p) \<longrightarrow> bs b k = bytes st b k)"
proof (induction ps arbitrary: po xs st)
  case Nil
  then show ?case by (auto simp: take_loop.simps intro!: exI [of _ "bytes st"])
next
  case (Cons p ps)
  let ?d = "plen (pb st p)"
  show ?case
  proof (cases "xs = []")
    case True
    then show ?thesis by (auto simp: take_loop.simps intro!: exI [of _ "bytes st"])
  next
    case False
    have l: "length (buf_data st p) = ?d" using Cons.prems(2) by (simp add: length_data)
    obtain b1 where 1: "poke (payload (pb st p)) 0 (take ?d xs) st = Some (st\<lparr>bytes := b1\<rparr>)"
      "buf_data (st\<lparr>bytes := b1\<rparr>) p = take ?d xs @ drop (length (take ?d xs)) (buf_data st p)"
      "\<forall>b k. (b, k) \<notin> cells st p \<longrightarrow> b1 b k = bytes st b k"
      using poke_spec [of st p "take ?d xs"] Cons.prems(2) by auto
    let ?s = "st\<lparr>bytes := b1\<rparr>"
    have cells: "cells ?s q = cells st q" for q by (simp add: cells_def)
    have same: "content ?s ps = content st ps"
      using 1(3) Cons.prems(3) by (intro content_cong data_cong) auto
    have "apart ?s qs = apart st qs" for qs by (induction qs) (auto simp: cells)
    then have pre: "pchain (pb ?s) (pnext (pb st p)) ps None" "has_data ?s ps" "apart ?s ps"
      "length (drop ?d xs) \<le> length (content ?s ps)"
      using Cons.prems l by (auto simp: has_data_def same)
    obtain b2 where 2: "take_loop (pnext (pb st p)) (drop ?d xs) ?s = Some (?s\<lparr>bytes := b2\<rparr>)"
      "content (?s\<lparr>bytes := b2\<rparr>) ps = drop ?d xs @ drop (length (drop ?d xs)) (content ?s ps)"
      "\<forall>b k. (\<forall>p \<in> set ps. (b, k) \<notin> cells ?s p) \<longrightarrow> b2 b k = bytes ?s b k"
      using Cons.IH [OF pre] by blast
    have "buf_data (?s\<lparr>bytes := b2\<rparr>) p = buf_data ?s p"
      using 2(3) Cons.prems(3) by (intro data_cong) (auto simp: cells)
    moreover have "take_loop po xs st = Some (st\<lparr>bytes := b2\<rparr>)"
      using False 1(1) 2(1) Cons.prems(1) by (subst take_loop.simps) simp
    moreover have "\<forall>b k. (\<forall>q \<in> set (p # ps). (b, k) \<notin> cells st q) \<longrightarrow> b2 b k = bytes st b k"
      using 1(3) 2(3) by (simp add: cells)
    moreover have "content (st\<lparr>bytes := b2\<rparr>) ps = drop ?d xs @ drop (length xs - ?d) (content st ps)"
      using 2(2) same by simp
    ultimately show ?thesis
      using 1(2) l by (intro exI [of _ b2]) (cases "length xs \<le> ?d"; simp)
  qed
qed

section \<open>Joining\<close>

lemma cat_loop_spec:
  "ps \<noteq> [] \<Longrightarrow> pchain (pb st) (Some h) ps None \<Longrightarrow> distinct ps \<Longrightarrow> t \<notin> set ps \<Longrightarrow>
   cat_loop h t st = Some (last ps, st\<lparr>pb := (\<lambda>p. if p \<in> set (butlast ps)
      then (pb st p)\<lparr>tot_len := trunc16 (tot_len (pb st p) + tot_len (pb st t))\<rparr> else pb st p)\<rparr>)"
proof (induction ps arbitrary: h st rule: induct_list012)
  case (2 p)
  then show ?case by (subst cat_loop.simps) simp
next
  case (3 p q ps)
  let ?s = "set_pb p (\<lambda>b. b\<lparr>tot_len := trunc16 (tot_len b + tot_len (pb st t))\<rparr>) st"
  let ?g = "\<lambda>p. if p \<in> set (butlast (q # ps))
      then (pb ?s p)\<lparr>tot_len := trunc16 (tot_len (pb ?s p) + tot_len (pb ?s t))\<rparr> else pb ?s p"
  let ?f = "\<lambda>x. if x \<in> set (butlast (p # q # ps))
      then (pb st x)\<lparr>tot_len := trunc16 (tot_len (pb st x) + tot_len (pb st t))\<rparr> else pb st x"
  have h: "h = p" "pnext (pb st p) = Some q" using 3(4) by auto
  have "pchain (pb st) (Some q) (q # ps) None" using 3(4) h(2) by simp
  then have c: "pchain (pb ?s) (Some q) (q # ps) None" by (rule pchain_frame) auto
  have IH: "cat_loop q t ?s = Some (last (q # ps), ?s\<lparr>pb := ?g\<rparr>)"
    by (rule "3.IH"(2) [OF _ c]) (use 3(5,6) in auto)
  have "cat_loop h t st = cat_loop q t ?s" using h by (subst cat_loop.simps) simp
  moreover have "p \<notin> set (butlast (q # ps))" using 3(5) by (auto dest: in_set_butlastD)
  moreover have "t \<noteq> p" using 3(6) by auto
  ultimately have "?s\<lparr>pb := ?g\<rparr> = st\<lparr>pb := ?f\<rparr>" by (auto simp: set_pb_def fun_eq_iff)
  with \<open>cat_loop h t st = cat_loop q t ?s\<close> IH show ?case by (simp only: last_ConsR list.distinct not_False_eq_True)
qed simp

text \<open>What the join does to each buffer of the first chain.\<close>

definition joined :: "net \<Rightarrow> loc list \<Rightarrow> loc \<Rightarrow> loc \<Rightarrow> pbuf" where
  "joined st hs t p = (if p \<in> set hs
     then (pb st p)\<lparr>tot_len := tot_len (pb st p) + tot_len (pb st t),
                    pnext := (if p = last hs then Some t else pnext (pb st p))\<rparr>
     else pb st p)"

lemma lens_tot: "lens_ok f ps \<Longrightarrow> ps \<noteq> [] \<Longrightarrow> tot_len (f (hd ps)) = (\<Sum>q \<leftarrow> ps. plen (f q))"
  by (cases ps) auto

lemma lens_le: "lens_ok f ps \<Longrightarrow> p \<in> set ps \<Longrightarrow> tot_len (f p) \<le> (\<Sum>q \<leftarrow> ps. plen (f q))"
  by (induction ps) auto

lemma lens_last: "lens_ok f ps \<Longrightarrow> ps \<noteq> [] \<Longrightarrow> tot_len (f (last ps)) = plen (f (last ps))"
  by (induction ps rule: induct_list012) auto

lemma pbuf_cat_eq:
  assumes "hs \<noteq> []" and "pchain (pb st) (Some h) hs None" and "distinct hs" and "t \<notin> set hs"
    and "lens_ok (pb st) hs" and "(\<Sum>q \<leftarrow> hs. plen (pb st q)) + tot_len (pb st t) < 65536"
  shows "pbuf_cat (Some h) (Some t) st = Some (st\<lparr>pb := joined st hs t\<rparr>)"
proof -
  have l: "last hs \<notin> set (butlast hs)" "last hs \<in> set hs" "set hs = insert (last hs) (set (butlast hs))"
    using assms(1,3) by (metis append_butlast_last_id distinct_append not_distinct_conv_prefix, simp,
        metis append_butlast_last_id list.simps(15) rotate1.simps(2) set_rotate1)
  have s: "tot_len (pb st p) + tot_len (pb st t) < 65536" if "p \<in> set hs" for p
    using lens_le [OF assms(5) that] assms(6) by linarith
  have "plen (pb st (last hs)) + tot_len (pb st t) < 65536" using s [OF l(2)] lens_last [OF assms(5,1)] by simp
  then show ?thesis
    unfolding pbuf_cat_def joined_def
    using cat_loop_spec [OF assms(1-4)] lens_last [OF assms(5,1)] l s assms(4)
    by (auto simp: set_pb_def fun_eq_iff lwip_assert_def intro!: net.equality)
qed

lemma link_last:
  "xs \<noteq> [] \<Longrightarrow> pchain f po xs m \<Longrightarrow> distinct xs \<Longrightarrow>
   \<forall>x \<in> set xs. x \<noteq> last xs \<longrightarrow> pnext (g x) = pnext (f x) \<Longrightarrow> pnext (g (last xs)) = m' \<Longrightarrow> pchain g po xs m'"
proof (induction xs arbitrary: po rule: induct_list012)
  case (3 x y zs)
  have "x \<noteq> last (x # y # zs)" using 3(5) last_in_set [of "y # zs"] by auto
  then have "pnext (g x) = pnext (f x)" using 3(6) by simp
  moreover have "pchain g (pnext (f x)) (y # zs) m'" using 3(3-) by (intro "3.IH"(2)) auto
  ultimately show ?case using 3(4) by simp
qed auto

lemma joined_chain:
  assumes "hs \<noteq> []" and "pchain (pb st) po hs None" and "distinct hs"
  shows "pchain (joined st hs t) po hs (Some t)"
  by (rule link_last [OF assms]) (use last_in_set [OF assms(1)] in \<open>auto simp: joined_def\<close>)

lemma joined_lens:
  assumes "lens_ok (pb st) hs" and "lens_ok (pb st) ts" and "t \<notin> set hs" and "distinct (hs @ ts)"
    and "tot_len (pb st t) = (\<Sum>q \<leftarrow> ts. plen (pb st q))"
  shows "lens_ok (joined st hs t) (hs @ ts)"
proof -
  have p: "plen (joined st xs t q) = plen (pb st q)" for xs q by (simp add: joined_def)
  have tot: "q \<in> set xs \<Longrightarrow> tot_len (joined st xs t q) = tot_len (pb st q) + tot_len (pb st t)" for xs q
    by (simp add: joined_def)
  have "lens_ok (joined st hs t) ts"
    by (rule lens_ok_frame [OF assms(2)]) (use assms(4) in \<open>auto simp: joined_def\<close>)
  moreover have "lens_ok (joined st (rs @ hs) t) (hs @ ts)" if "lens_ok (joined st (rs @ hs) t) ts" for rs
    using assms(1) that
  proof (induction hs arbitrary: rs)
    case (Cons q hs)
    then have "lens_ok (joined st ((rs @ [q]) @ hs) t) (hs @ ts)" by (intro Cons.IH) auto
    with Cons.prems assms(5) show ?case by (simp add: p tot)
  qed simp
  from this [of "[]"] calculation show ?thesis by simp
qed

lemma cat_packets:
  assumes "hs \<noteq> []" and "ts \<noteq> []" and "distinct (hs @ ts)"
    and "pchain (pb st) (Some h) hs None" and "pchain (pb st) (Some t) ts None"
    and "lens_ok (pb st) hs" and "lens_ok (pb st) ts" and "tot_len (pb st h) + tot_len (pb st t) < 65536"
  shows "\<exists>st'. pbuf_cat (Some h) (Some t) st = Some st' \<and> pchain (pb st') (Some h) (hs @ ts) None \<and>
     lens_ok (pb st') (hs @ ts) \<and> content st' (hs @ ts) = content st hs @ content st ts \<and>
     bytes st' = bytes st \<and> npools st' = npools st \<and> nheap st' = nheap st \<and>
     (\<forall>q. payload (pb st' q) = payload (pb st q))"
proof -
  let ?st = "st\<lparr>pb := joined st hs t\<rparr>"
  have h: "hd hs = h" "hd ts = t" using assms(1,2,4,5) by (cases hs; cases ts; simp)+
  then have len: "tot_len (pb st h) = (\<Sum>q \<leftarrow> hs. plen (pb st q))" "tot_len (pb st t) = (\<Sum>q \<leftarrow> ts. plen (pb st q))"
    using lens_tot [OF assms(6,1)] lens_tot [OF assms(7,2)] by simp_all
  have t: "t \<notin> set hs" "distinct hs" using assms(2,3) h(2) by (cases ts; auto)+
  have eq: "pbuf_cat (Some h) (Some t) st = Some ?st"
    using pbuf_cat_eq [OF assms(1,4) t(2,1) assms(6)] assms(8) len by simp
  have ts: "\<forall>q \<in> set ts. pb ?st q = pb st q" using assms(3) by (auto simp: joined_def)
  have "pchain (pb ?st) (Some h) (hs @ ts) None"
    using joined_chain [OF assms(1,4) t(2), of t] pchain_frame [OF assms(5), of "joined st hs t"] ts
    by (auto simp: pchain_append)
  moreover have "lens_ok (pb ?st) (hs @ ts)"
    using joined_lens [OF assms(6,7) t(1) assms(3) len(2)] by simp
  moreover have "buf_data ?st = buf_data st" by (rule ext) (auto simp: buf_data_def joined_def split: option.split)
  then have "content ?st (hs @ ts) = content st hs @ content st ts" by (simp add: content_def comp_def)
  moreover have "payload (pb ?st q) = payload (pb st q)" for q by (simp add: joined_def)
  ultimately show ?thesis using eq by simp
qed

section \<open>Release\<close>

definition pool_buf :: "net \<Rightarrow> nat \<Rightarrow> bool" where
  "pool_buf st e = (ptype (pb st (Pool e)) = PBUF_POOL \<and> pflags (pb st (Pool e)) AND PBUF_FLAG_IS_CUSTOM = 0 \<and>
     pref (pb st (Pool e)) = 1)"

text \<open>Where a release stops: at the end of the chain or at a buffer that others refer to.\<close>

definition stops :: "net \<Rightarrow> loc option \<Rightarrow> bool" where
  "stops st e = (\<forall>q. e = Some q \<longrightarrow> 1 < pref (pb st q))"

definition released :: "net \<Rightarrow> nat list \<Rightarrow> loc option \<Rightarrow> loc \<Rightarrow> pbuf" where
  "released st es e p = (if p \<in> Pool ` set es \<or> e = Some p then (pb st p)\<lparr>pref := pref (pb st p) - 1\<rparr> else pb st p)"

lemma free_loop_spec:
  assumes "memp_ok sizes (npools st) F" and "distinct es" and "set es \<subseteq> set (elems sizes MEMP_PBUF_POOL)"
    and "set es \<inter> set (F MEMP_PBUF_POOL) = {}" and "pchain (pb st) po (map Pool es) e"
    and "\<forall>x \<in> set es. pool_buf st x" and "stops st e" and "e \<notin> Some ` Pool ` set es" and "n < 256"
  shows "\<exists>mp. pbuf_free_loop cfree po n st
      = Some ((n + length es) mod 256, st\<lparr>pb := released st es e, npools := mp\<rparr>) \<and>
      memp_ok sizes mp (F(MEMP_PBUF_POOL := rev es @ F MEMP_PBUF_POOL))"
  using assms
proof (induction es arbitrary: po n st F)
  case Nil
  have "F(MEMP_PBUF_POOL := F MEMP_PBUF_POOL) = F" by auto
  with Nil show ?case
    by (cases e; subst pbuf_free_loop.simps)
      (auto simp: stops_def released_def set_pb_def fun_eq_iff Let_def intro!: exI [of _ "npools st"] net.equality)
next
  case (Cons x es)
  let ?s1 = "set_pb (Pool x) (\<lambda>b. b\<lparr>pref := pref b - 1\<rparr>) st"
  have x: "pool_buf st x" "po = Some (Pool x)" using Cons.prems by auto
  let ?F = "F(MEMP_PBUF_POOL := x # F MEMP_PBUF_POOL)"
  obtain mp1 where 1: "memp_free MEMP_PBUF_POOL (Some x) (npools st) = Some mp1" "memp_ok sizes mp1 ?F"
    using memp_free_spec [OF Cons.prems(1), of x MEMP_PBUF_POOL] Cons.prems by auto
  let ?s = "?s1\<lparr>npools := mp1\<rparr>"
  have ok: "memp_ok sizes (npools ?s) ?F" using 1(2) by simp
  have "pchain (pb st) (pnext (pb st (Pool x))) (map Pool es) e" using Cons.prems(5) by simp
  then have "pchain (pb ?s) (pnext (pb st (Pool x))) (map Pool es) e"
    using Cons.prems(2) by (elim pchain_frame) (auto simp: set_pb_def)
  moreover have "\<forall>y \<in> set es. pool_buf ?s y" using Cons.prems(2,6) by (auto simp: pool_buf_def set_pb_def)
  moreover have "stops ?s e" using Cons.prems(7,8) by (auto simp: stops_def set_pb_def)
  moreover have "distinct es" "set es \<subseteq> set (elems sizes MEMP_PBUF_POOL)" "set es \<inter> set (?F MEMP_PBUF_POOL) = {}"
    "e \<notin> Some ` Pool ` set es" "(n + 1) mod 256 < 256"
    using Cons.prems(2,3,4,8) by auto
  ultimately obtain mp where 2: "pbuf_free_loop cfree (pnext (pb st (Pool x))) ((n + 1) mod 256) ?s
      = Some (((n + 1) mod 256 + length es) mod 256, ?s\<lparr>pb := released ?s es e, npools := mp\<rparr>)"
    "memp_ok sizes mp (?F(MEMP_PBUF_POOL := rev es @ ?F MEMP_PBUF_POOL))"
    using Cons.IH [of ?s ?F "pnext (pb st (Pool x))" "(n + 1) mod 256", OF ok] by blast
  have d: "dealloc cfree (Pool x) ?s1 = Some ?s"
    using x(1) 1(1) by (simp add: dealloc_def pool_buf_def set_pb_def pool_put_def)
  have n: "((n + 1) mod 256 + length es) mod 256 = (n + length (x # es)) mod 256" by (simp add: mod_add_left_eq)
  have "pbuf_free_loop cfree po n st = pbuf_free_loop cfree (pnext (pb st (Pool x))) ((n + 1) mod 256) ?s"
    using x d by (subst pbuf_free_loop.simps) (simp add: pool_buf_def set_pb_def)
  moreover have "released ?s es e = released st (x # es) e"
    using Cons.prems(2,8) by (intro ext) (auto simp: released_def set_pb_def)
  then have "?s\<lparr>pb := released ?s es e, npools := mp\<rparr> = st\<lparr>pb := released st (x # es) e, npools := mp\<rparr>"
    by (simp add: set_pb_def)
  ultimately have "pbuf_free_loop cfree po n st
      = Some ((n + length (x # es)) mod 256, st\<lparr>pb := released st (x # es) e, npools := mp\<rparr>)"
    by (simp only: 2(1) n)
  moreover have "memp_ok sizes mp (F(MEMP_PBUF_POOL := rev (x # es) @ F MEMP_PBUF_POOL))"
    using 2(2) by (simp only: fun_upd_upd fun_upd_same rev.simps append_assoc append.simps)
  ultimately show ?case by blast
qed

section \<open>Allocation\<close>

definition nbufs :: "nat \<Rightarrow> nat" where
  "nbufs len = (len + (PBUF_POOL_BUFSIZE_ALIGNED - 1)) div PBUF_POOL_BUFSIZE_ALIGNED"

lemma nbufs_0 [simp]: "nbufs 0 = 0"
  by (simp add: nbufs_def)

lemma nbufs_step: "0 < len \<Longrightarrow> nbufs len = Suc (nbufs (len - min len PBUF_POOL_BUFSIZE_ALIGNED))"
  by (cases "len \<le> 600") (auto simp: nbufs_def div_nat_eqI le_div_geq)

lemma pool_get_spec:
  assumes "memp_ok sizes (npools st) F"
  shows "(F MEMP_PBUF_POOL = [] \<longrightarrow> pool_get MEMP_PBUF_POOL st = Some (None, st)) \<and>
    (\<forall>e es. F MEMP_PBUF_POOL = e # es \<longrightarrow>
       (\<exists>mp. pool_get MEMP_PBUF_POOL st = Some (Some (Pool e), st\<lparr>npools := mp\<rparr>) \<and>
          memp_ok sizes mp (F(MEMP_PBUF_POOL := es))))"
  using memp_malloc_spec [OF assms, of MEMP_PBUF_POOL]
  by (cases "F MEMP_PBUF_POOL") (auto simp: pool_get_def)

definition tail_buf :: "(loc \<Rightarrow> pbuf) \<Rightarrow> nat \<Rightarrow> bool" where
  "tail_buf f e = (ptype (f (Pool e)) = PBUF_POOL \<and> pflags (f (Pool e)) = 0 \<and> pref (f (Pool e)) = 1 \<and>
     payload (f (Pool e)) = Some (Pool e, 16) \<and> plen (f (Pool e)) \<le> PBUF_POOL_BUFSIZE_ALIGNED)"

text \<open>The record that one turn of the loop writes, and the state after the turn.\<close>

definition tail_rec :: "nat \<Rightarrow> nat \<Rightarrow> pbuf" where
  "tail_rec e rem = \<lparr>pnext = None, payload = Some (Pool e, 16), tot_len = rem,
     plen = min rem PBUF_POOL_BUFSIZE_ALIGNED, ptype = PBUF_POOL, pflags = 0, pref = 1\<rparr>"

definition linked :: "net \<Rightarrow> loc \<Rightarrow> nat \<Rightarrow> nat \<Rightarrow> memp \<Rightarrow> net" where
  "linked st r e rem mp = st\<lparr>pb := (pb st)(r := (pb st r)\<lparr>pnext := Some (Pool e)\<rparr>, Pool e := tail_rec e rem), npools := mp\<rparr>"

lemma pool_tail_turn:
  assumes "0 < rem" and "rem < 0xffff" and "pool_get MEMP_PBUF_POOL st = Some (Some (Pool e), st\<lparr>npools := mp\<rparr>)"
  shows "pool_tail cfree p r rem st
    = pool_tail cfree p (Pool e) (rem - min rem PBUF_POOL_BUFSIZE_ALIGNED) (linked st r e rem mp)"
  using assms by (subst pool_tail.simps) (simp add: linked_def tail_rec_def set_pb_def)

lemma tail_ok:
  "memp_ok sizes (npools st) F \<Longrightarrow> rem < 0xffff \<Longrightarrow> nbufs rem \<le> length (F MEMP_PBUF_POOL) \<Longrightarrow>
   r \<notin> Pool ` set (F MEMP_PBUF_POOL) \<Longrightarrow> pnext (pb st r) = None \<Longrightarrow>
   es = take (nbufs rem) (F MEMP_PBUF_POOL) \<Longrightarrow>
   \<exists>f mp. pool_tail cfree p r rem st = Some (Some p, st\<lparr>pb := f, npools := mp\<rparr>) \<and>
     memp_ok sizes mp (F(MEMP_PBUF_POOL := drop (nbufs rem) (F MEMP_PBUF_POOL))) \<and>
     pchain f (pnext (f r)) (map Pool es) None \<and> lens_ok f (map Pool es) \<and>
     (\<Sum>e \<leftarrow> es. plen (f (Pool e))) = rem \<and> (\<forall>e \<in> set es. tail_buf f e) \<and>
     (\<exists>n. f r = (pb st r)\<lparr>pnext := n\<rparr>) \<and> (\<forall>l. l \<noteq> r \<and> l \<notin> Pool ` set es \<longrightarrow> f l = pb st l)"
proof (induction rem arbitrary: r st F es rule: less_induct)
  case (less rem)
  show ?case
  proof (cases "rem = 0")
    case True
    have "F(MEMP_PBUF_POOL := F MEMP_PBUF_POOL) = F" by auto
    moreover have "\<exists>n. pb st r = (pb st r)\<lparr>pnext := n\<rparr>" by (rule exI [of _ "pnext (pb st r)"]) simp
    ultimately show ?thesis using True less.prems
      by (intro exI [of _ "pb st"] exI [of _ "npools st"]) (auto simp: pool_tail.simps)
  next
    case False
    define rem' where "rem' = rem - min rem PBUF_POOL_BUFSIZE_ALIGNED"
    have n: "nbufs rem = Suc (nbufs rem')" using nbufs_step [of rem] False by (simp add: rem'_def)
    then obtain e es' where F: "F MEMP_PBUF_POOL = e # es'" using less.prems(3) by (cases "F MEMP_PBUF_POOL") auto
    let ?F = "F(MEMP_PBUF_POOL := es')"
    obtain mp1 where 1: "pool_get MEMP_PBUF_POOL st = Some (Some (Pool e), st\<lparr>npools := mp1\<rparr>)" "memp_ok sizes mp1 ?F"
      using pool_get_spec [OF less.prems(1)] F by blast
    let ?s = "linked st r e rem mp1" and ?es = "take (nbufs rem') es'"
    have e: "e \<notin> set es'" "r \<noteq> Pool e" "r \<notin> Pool ` set es'"
      using less.prems(1,4) F by (auto simp: memp_ok_def) (metis distinct.simps(2))
    have ok: "memp_ok sizes (npools ?s) ?F" using 1(2) by (simp add: linked_def)
    have pre: "rem' < rem" "rem' < 0xffff" "nbufs rem' \<le> length (?F MEMP_PBUF_POOL)"
      "Pool e \<notin> Pool ` set (?F MEMP_PBUF_POOL)" "pnext (pb ?s (Pool e)) = None" "?es = take (nbufs rem') (?F MEMP_PBUF_POOL)"
      using False less.prems(2,3) e n F by (auto simp: rem'_def linked_def tail_rec_def)
    obtain f mp where 2: "pool_tail cfree p (Pool e) rem' ?s = Some (Some p, ?s\<lparr>pb := f, npools := mp\<rparr>)"
      "memp_ok sizes mp (?F(MEMP_PBUF_POOL := drop (nbufs rem') (?F MEMP_PBUF_POOL)))"
      "pchain f (pnext (f (Pool e))) (map Pool ?es) None" "lens_ok f (map Pool ?es)"
      "(\<Sum>e \<leftarrow> ?es. plen (f (Pool e))) = rem'" "\<forall>e \<in> set ?es. tail_buf f e"
      "\<exists>n. f (Pool e) = (pb ?s (Pool e))\<lparr>pnext := n\<rparr>"
      "\<forall>l. l \<noteq> Pool e \<and> l \<notin> Pool ` set ?es \<longrightarrow> f l = pb ?s l"
      using less.IH [OF pre(1) ok pre(2-6)] by blast
    have es: "es = e # ?es" using less.prems(6) n F by simp
    have fe: "\<exists>n. f (Pool e) = (tail_rec e rem)\<lparr>pnext := n\<rparr>" using 2(7) by (simp add: linked_def)
    have "r \<notin> Pool ` set ?es" using e(3) set_take_subset [of "nbufs rem'" es'] by blast
    then have fr: "f r = (pb st r)\<lparr>pnext := Some (Pool e)\<rparr>" using 2(8) e(2) by (simp add: linked_def)
    have t: "pool_tail cfree p r rem st = Some (Some p, st\<lparr>pb := f, npools := mp\<rparr>)"
      using pool_tail_turn [OF _ less.prems(2) 1(1), of cfree p r] 2(1) False
      by (simp add: rem'_def [symmetric]) (simp add: linked_def)
    have m: "memp_ok sizes mp (F(MEMP_PBUF_POOL := drop (nbufs rem) (F MEMP_PBUF_POOL)))"
      using 2(2) by (simp only: fun_upd_upd fun_upd_same F n drop_Suc_Cons)
    have le: "plen (f (Pool e)) = min rem PBUF_POOL_BUFSIZE_ALIGNED" "tot_len (f (Pool e)) = rem" "tail_buf f e"
      using fe by (auto simp: tail_rec_def tail_buf_def)
    have sum: "plen (f (Pool e)) + rem' = rem" using le by (simp add: rem'_def)
    have other: "\<forall>l. l \<noteq> r \<and> l \<notin> Pool ` set es \<longrightarrow> f l = pb st l" using 2(8) es by (auto simp: linked_def)
    have "pnext (f r) = Some (Pool e)" using fr by simp
    then have "pchain f (pnext (f r)) (map Pool es) None" using 2(3) by (subst es) simp
    moreover have "lens_ok f (map Pool es)" using 2(4,5) le(2) sum by (subst es) (simp add: comp_def)
    moreover have "(\<Sum>e \<leftarrow> es. plen (f (Pool e))) = rem" using 2(5) sum by (subst es) simp
    moreover have "\<forall>e \<in> set es. tail_buf f e" using 2(6) le(3) by (subst es) simp
    ultimately show ?thesis using t m fr other by blast
  qed
qed

text \<open>When the pool runs dry, everything taken so far goes back to it.\<close>

definition all_plain :: "(memp_t \<Rightarrow> nat) \<Rightarrow> (loc \<Rightarrow> pbuf) \<Rightarrow> bool" where
  "all_plain sizes f = (\<forall>e \<in> set (elems sizes MEMP_PBUF_POOL). pflags (f (Pool e)) AND PBUF_FLAG_IS_CUSTOM = 0)"

lemma tail_fail:
  "memp_ok sizes (npools st) F \<Longrightarrow> rem < 0xffff \<Longrightarrow> length (F MEMP_PBUF_POOL) < nbufs rem \<Longrightarrow> cs \<noteq> [] \<Longrightarrow>
   r = Pool (last cs) \<Longrightarrow> pchain (pb st) (Some p) (map Pool cs) None \<Longrightarrow> distinct cs \<Longrightarrow>
   set cs \<subseteq> set (elems sizes MEMP_PBUF_POOL) \<Longrightarrow> set cs \<inter> set (F MEMP_PBUF_POOL) = {} \<Longrightarrow>
   \<forall>x \<in> set cs. pool_buf st x \<Longrightarrow>
   \<exists>f mp F'. pool_tail cfree p r rem st = Some (None, st\<lparr>pb := f, npools := mp\<rparr>) \<and> memp_ok sizes mp F' \<and>
     set (F' MEMP_PBUF_POOL) = set cs \<union> set (F MEMP_PBUF_POOL) \<and> (\<forall>t. t \<noteq> MEMP_PBUF_POOL \<longrightarrow> F' t = F t) \<and>
     (all_plain sizes (pb st) \<longrightarrow> all_plain sizes f)"
proof (induction rem arbitrary: r st F cs rule: less_induct)
  case (less rem)
  have pos: "0 < rem" using less.prems(3) by (cases "rem = 0") auto
  show ?case
  proof (cases "F MEMP_PBUF_POOL")
    case Nil
    obtain mp where "pbuf_free_loop cfree (Some p) 0 st
        = Some ((0 + length cs) mod 256, st\<lparr>pb := released st cs None, npools := mp\<rparr>)"
      "memp_ok sizes mp (F(MEMP_PBUF_POOL := rev cs @ F MEMP_PBUF_POOL))"
      using free_loop_spec [OF less.prems(1,7,8,9,6,10)] by (force simp: stops_def)
    then show ?thesis using pos pool_get_spec [OF less.prems(1)] Nil
      by (intro exI [of _ "released st cs None"] exI [of _ mp] exI [of _ "F(MEMP_PBUF_POOL := rev cs)"])
        (subst pool_tail.simps, auto simp: pbuf_free_def lwip_assert_def all_plain_def released_def)
  next
    case (Cons e es')
    define rem' where "rem' = rem - min rem PBUF_POOL_BUFSIZE_ALIGNED"
    let ?F = "F(MEMP_PBUF_POOL := es')"
    obtain mp1 where 1: "pool_get MEMP_PBUF_POOL st = Some (Some (Pool e), st\<lparr>npools := mp1\<rparr>)" "memp_ok sizes mp1 ?F"
      using pool_get_spec [OF less.prems(1)] Cons by blast
    let ?s = "linked st r e rem mp1"
    have e: "e \<notin> set es'" "e \<notin> set cs" "e \<in> set (elems sizes MEMP_PBUF_POOL)"
      using less.prems(1,9) Cons by (auto simp: memp_ok_def) (metis distinct.simps(2), metis list.set_intros(1) subset_iff)
    have same: "pb ?s (Pool x) = pb st (Pool x)" if "x \<noteq> e" "x \<noteq> last cs" for x
      using that less.prems(5) by (simp add: linked_def)
    have same': "\<forall>x \<in> set cs. x \<noteq> last cs \<longrightarrow> pb ?s (Pool x) = pb st (Pool x)" using same e(2) by metis
    have last: "pb ?s (Pool (last cs)) = (pb st (Pool (last cs)))\<lparr>pnext := Some (Pool e)\<rparr>"
      using less.prems(4,5) e(2) last_in_set [of cs] by (auto simp: linked_def)
    have new: "pb ?s (Pool e) = tail_rec e rem" by (simp add: linked_def)
    have "pchain (pb ?s) (Some p) (map Pool cs) (Some (Pool e))"
      by (rule link_last [OF _ less.prems(6)])
        (use less.prems(4,7) last same' in \<open>auto simp: distinct_map inj_on_def last_map\<close>)
    then have chain: "pchain (pb ?s) (Some p) (map Pool (cs @ [e])) None"
      using new by (simp add: pchain_append tail_rec_def)
    have bufs: "\<forall>x \<in> set (cs @ [e]). pool_buf ?s x"
    proof
      fix x assume "x \<in> set (cs @ [e])"
      then consider "x = e" | "x = last cs" | "x \<noteq> e" "x \<noteq> last cs" "x \<in> set cs" by auto
      then show "pool_buf ?s x"
        by cases (use new last same less.prems(4,10) in \<open>simp_all add: pool_buf_def tail_rec_def\<close>)
    qed
    have ok: "memp_ok sizes (npools ?s) ?F" using 1(2) by (simp add: linked_def)
    have pre: "rem' < rem" "rem' < 0xffff" "length (?F MEMP_PBUF_POOL) < nbufs rem'" "cs @ [e] \<noteq> []"
      "Pool e = Pool (last (cs @ [e]))" "distinct (cs @ [e])" "set (cs @ [e]) \<subseteq> set (elems sizes MEMP_PBUF_POOL)"
      "set (cs @ [e]) \<inter> set (?F MEMP_PBUF_POOL) = {}"
      using pos less.prems(2,3,7,8,9) nbufs_step [OF pos] Cons e by (auto simp: rem'_def)
    obtain f mp F' where 2: "pool_tail cfree p (Pool e) rem' ?s = Some (None, ?s\<lparr>pb := f, npools := mp\<rparr>)"
      "memp_ok sizes mp F'" "set (F' MEMP_PBUF_POOL) = set (cs @ [e]) \<union> set (?F MEMP_PBUF_POOL)"
      "\<forall>t. t \<noteq> MEMP_PBUF_POOL \<longrightarrow> F' t = ?F t" "all_plain sizes (pb ?s) \<longrightarrow> all_plain sizes f"
      using less.IH [OF pre(1) ok pre(2-5) chain pre(6-8) bufs] by blast
    have "all_plain sizes (pb st) \<longrightarrow> all_plain sizes (pb ?s)"
      using new last less.prems(5) by (auto simp: all_plain_def linked_def tail_rec_def)
    moreover have "pool_tail cfree p r rem st = Some (None, st\<lparr>pb := f, npools := mp\<rparr>)"
      using pool_tail_turn [OF pos less.prems(2) 1(1), of cfree p r] 2(1)
      by (simp add: rem'_def [symmetric]) (simp add: linked_def)
    ultimately show ?thesis using 2(2-5) Cons
      by (intro exI [of _ f] exI [of _ mp] exI [of _ F']) auto
  qed
qed

section \<open>What a caller of the buffers may rely on\<close>

text \<open>Buffers that \<open>pbuf_alloc\<close> chains for \<open>len\<close> bytes behind the room for a layer's headers.\<close>

definition nbufs_for :: "pbuf_layer \<Rightarrow> nat \<Rightarrow> nat" where
  "nbufs_for layer len = Suc (nbufs (len - (PBUF_POOL_BUFSIZE_ALIGNED - align4 (layer_offset layer))))"

text \<open>The data of a pool buffer lies inside its element.\<close>

definition inside :: "(loc \<Rightarrow> pbuf) \<Rightarrow> nat \<Rightarrow> bool" where
  "inside f e = (\<exists>off. payload (f (Pool e)) = Some (Pool e, off) \<and> int SIZEOF_STRUCT_PBUF \<le> off \<and>
     off + int (plen (f (Pool e))) \<le> int (SIZEOF_STRUCT_PBUF + PBUF_POOL_BUFSIZE_ALIGNED))"

definition pbuf_head :: "pbuf_layer \<Rightarrow> nat \<Rightarrow> nat \<Rightarrow> pbuf \<Rightarrow> pbuf" where
  "pbuf_head layer len e b = b\<lparr>pnext := None, payload := Some (Pool e, int (align4 (SIZEOF_STRUCT_PBUF + layer_offset layer))),
     tot_len := len, plen := min len (PBUF_POOL_BUFSIZE_ALIGNED - align4 (layer_offset layer)), ptype := PBUF_POOL, pref := 1\<rparr>"

lemma pbuf_alloc_pool_eq:
  assumes "pool_get MEMP_PBUF_POOL st = Some (Some (Pool e), st1)"
  shows "pbuf_alloc cfree layer len PBUF_POOL st = Option.bind
    (pool_tail cfree (Pool e) (Pool e) (len - (PBUF_POOL_BUFSIZE_ALIGNED - align4 (layer_offset layer)))
       (set_pb (Pool e) (pbuf_head layer len e) st1))
    (\<lambda>(r, st). Some (r, case r of None \<Rightarrow> st | Some p \<Rightarrow> set_pb p (\<lambda>b. b\<lparr>pref := 1, pflags := 0\<rparr>) st))"
proof -
  have "align4 (16 + layer_offset layer) + min len (600 - align4 (layer_offset layer)) \<le> 616"
    by (cases layer) (auto simp: align4_def)
  moreover have "len - min len k = len - k" for k by simp
  ultimately show ?thesis
    using assms unfolding pbuf_alloc_def pbuf_head_def [abs_def] by (simp add: Let_def lwip_assert_def)
qed

text \<open>A packet of \<open>len\<close> bytes in exclusively owned pool buffers \<open>es\<close>.\<close>

definition packet :: "net \<Rightarrow> nat list \<Rightarrow> nat \<Rightarrow> bool" where
  "packet st es len = (es \<noteq> [] \<and> pchain (pb st) (Some (Pool (hd es))) (map Pool es) None \<and>
     lens_ok (pb st) (map Pool es) \<and> tot_len (pb st (Pool (hd es))) = len \<and>
     (\<forall>e \<in> set es. pool_buf st e \<and> inside (pb st) e))"

lemma tail_inside: "tail_buf f e \<Longrightarrow> inside f e"
  by (auto simp: tail_buf_def inside_def)

lemma head_inside: "payload b = Some (Pool e, int (align4 (16 + layer_offset layer))) \<Longrightarrow>
    plen b \<le> 600 - align4 (layer_offset layer) \<Longrightarrow> f (Pool e) = b \<Longrightarrow> inside f e"
  by (cases layer) (auto simp: inside_def align4_def)

text \<open>The head, finished with its reference count and flags, in front of the buffers of the loop.\<close>

lemma packet_made:
  assumes f: "pchain f (pnext (f (Pool e))) (map Pool es) None" "lens_ok f (map Pool es)"
    "(\<Sum>e \<leftarrow> es. plen (f (Pool e))) = len - (600 - align4 (layer_offset layer))" "\<forall>x \<in> set es. tail_buf f x"
    "f (Pool e) = (pbuf_head layer len e b)\<lparr>pnext := n\<rparr>" and e: "e \<notin> set es"
    and st: "pb st = f(Pool e := (f (Pool e))\<lparr>pref := 1, pflags := 0\<rparr>)"
  shows "packet st (e # es) len"
proof -
  have same: "\<forall>q \<in> set (map Pool es). pb st q = f q" using e st by auto
  have h: "pnext (pb st (Pool e)) = pnext (f (Pool e))" "plen (pb st (Pool e)) = min len (600 - align4 (layer_offset layer))"
    "tot_len (pb st (Pool e)) = len" "pool_buf st e" "inside (pb st) e"
    using f(5) st by (auto simp: pbuf_head_def pool_buf_def intro!: head_inside [of _ e layer])
  have sum: "(\<Sum>q \<leftarrow> map Pool es. plen (pb st q)) = len - (600 - align4 (layer_offset layer))"
    using f(3) same by (simp add: comp_def cong: map_cong)
  have "pchain (pb st) (pnext (f (Pool e))) (map Pool es) None"
    by (rule pchain_frame [OF f(1)]) (use same in auto)
  moreover have "lens_ok (pb st) (map Pool es)"
    by (rule lens_ok_frame [OF f(2)]) (use same in auto)
  moreover have "pool_buf st x \<and> inside (pb st) x" if "x \<in> set es" for x
    using f(4) same that tail_inside [of f x] by (auto simp: tail_buf_def pool_buf_def inside_def)
  ultimately show ?thesis using h sum by (auto simp: packet_def)
qed

text \<open>Without buffers, with enough of them, and with too few.\<close>

lemma pool_head:
  assumes "memp_ok sizes (npools st) F" and "all_plain sizes (pb st)" and "F MEMP_PBUF_POOL = e # es"
  obtains mp where "pool_get MEMP_PBUF_POOL st = Some (Some (Pool e), st\<lparr>npools := mp\<rparr>)"
    "memp_ok sizes mp (F(MEMP_PBUF_POOL := es))" "e \<notin> set es" "e \<in> set (elems sizes MEMP_PBUF_POOL)"
    "pool_buf (set_pb (Pool e) (pbuf_head layer len e) (st\<lparr>npools := mp\<rparr>)) e"
proof -
  have e: "e \<notin> set es" "e \<in> set (elems sizes MEMP_PBUF_POOL)"
    using assms(1,3) by (auto simp: memp_ok_def) (metis distinct.simps(2), metis list.set_intros(1) subset_iff)
  then have "pool_buf (set_pb (Pool e) (pbuf_head layer len e) (st\<lparr>npools := mp\<rparr>)) e" for mp
    using assms(2) by (auto simp: pool_buf_def pbuf_head_def all_plain_def)
  with e that pool_get_spec [OF assms(1)] assms(3) show ?thesis by blast
qed

lemma pbuf_alloc_enough:
  assumes ok: "memp_ok sizes (npools st) F" "all_plain sizes (pb st)" "len < 65536"
    and n: "nbufs_for layer len \<le> length (F MEMP_PBUF_POOL)"
  shows "\<exists>f mp. pbuf_alloc cfree layer len PBUF_POOL st
      = Some (Some (Pool (hd (F MEMP_PBUF_POOL))), st\<lparr>pb := f, npools := mp\<rparr>) \<and>
    packet (st\<lparr>pb := f, npools := mp\<rparr>) (take (nbufs_for layer len) (F MEMP_PBUF_POOL)) len \<and>
    memp_ok sizes mp (F(MEMP_PBUF_POOL := drop (nbufs_for layer len) (F MEMP_PBUF_POOL))) \<and>
    (\<forall>l. l \<notin> Pool ` set (take (nbufs_for layer len) (F MEMP_PBUF_POOL)) \<longrightarrow> f l = pb st l)"
proof -
  let ?room = "600 - align4 (layer_offset layer)"
  obtain e es where F: "F MEMP_PBUF_POOL = e # es" using n by (cases "F MEMP_PBUF_POOL") (auto simp: nbufs_for_def)
  obtain mp where 1: "pool_get MEMP_PBUF_POOL st = Some (Some (Pool e), st\<lparr>npools := mp\<rparr>)"
    "memp_ok sizes mp (F(MEMP_PBUF_POOL := es))" "e \<notin> set es"
    using pool_head [OF ok(1,2) F] by metis
  let ?F = "F(MEMP_PBUF_POOL := es)" and ?es = "take (nbufs (len - ?room)) es"
  let ?s = "set_pb (Pool e) (pbuf_head layer len e) (st\<lparr>npools := mp\<rparr>)"
  have "544 \<le> ?room" by (cases layer) (auto simp: align4_def)
  then have small: "len - ?room < 0xffff" using ok(3) by linarith
  have pre: "memp_ok sizes (npools ?s) ?F" "nbufs (len - ?room) \<le> length (?F MEMP_PBUF_POOL)"
    "Pool e \<notin> Pool ` set (?F MEMP_PBUF_POOL)" "pnext (pb ?s (Pool e)) = None"
    "?es = take (nbufs (len - ?room)) (?F MEMP_PBUF_POOL)"
    using 1(2,3) n F by (auto simp: nbufs_for_def pbuf_head_def)
  obtain f mp' k where 2: "pool_tail cfree (Pool e) (Pool e) (len - ?room) ?s = Some (Some (Pool e), ?s\<lparr>pb := f, npools := mp'\<rparr>)"
    "memp_ok sizes mp' (?F(MEMP_PBUF_POOL := drop (nbufs (len - ?room)) (?F MEMP_PBUF_POOL)))"
    "pchain f (pnext (f (Pool e))) (map Pool ?es) None" "lens_ok f (map Pool ?es)"
    "(\<Sum>e \<leftarrow> ?es. plen (f (Pool e))) = len - ?room" "\<forall>x \<in> set ?es. tail_buf f x"
    "f (Pool e) = (pb ?s (Pool e))\<lparr>pnext := k\<rparr>" "\<forall>l. l \<noteq> Pool e \<and> l \<notin> Pool ` set ?es \<longrightarrow> f l = pb ?s l"
    using tail_ok [OF pre(1) small pre(2-5), of cfree "Pool e"] by blast
  let ?f = "f(Pool e := (f (Pool e))\<lparr>pref := 1, pflags := 0\<rparr>)"
  let ?st = "st\<lparr>pb := ?f, npools := mp'\<rparr>"
  have e: "e \<notin> set ?es" using 1(3) set_take_subset [of _ es] by blast
  have "f (Pool e) = (pbuf_head layer len e (pb st (Pool e)))\<lparr>pnext := k\<rparr>" using 2(7) by simp
  then have "packet ?st (e # ?es) len"
    by (intro packet_made [OF 2(3-6) _ e, where b = "pb st (Pool e)" and n = k]) simp_all
  moreover have "pbuf_alloc cfree layer len PBUF_POOL st = Some (Some (Pool e), ?st)"
    using pbuf_alloc_pool_eq [OF 1(1), of cfree layer len] 2(1) by (simp add: set_pb_def)
  moreover have "memp_ok sizes mp' (F(MEMP_PBUF_POOL := drop (nbufs_for layer len) (F MEMP_PBUF_POOL)))"
    using 2(2) by (simp only: fun_upd_upd fun_upd_same nbufs_for_def F drop_Suc_Cons)
  moreover have t: "take (nbufs_for layer len) (F MEMP_PBUF_POOL) = e # ?es" by (simp add: nbufs_for_def F)
  moreover have "\<forall>l. l \<notin> Pool ` set (e # ?es) \<longrightarrow> ?f l = pb st l" using 2(8) by simp
  ultimately show ?thesis unfolding t unfolding F list.sel by blast
qed

lemma pbuf_alloc_too_few:
  assumes ok: "memp_ok sizes (npools st) F" "all_plain sizes (pb st)" "len < 65536"
    and n: "length (F MEMP_PBUF_POOL) < nbufs_for layer len"
  shows "\<exists>f mp F'. pbuf_alloc cfree layer len PBUF_POOL st = Some (None, st\<lparr>pb := f, npools := mp\<rparr>) \<and>
    memp_ok sizes mp F' \<and> set (F' MEMP_PBUF_POOL) = set (F MEMP_PBUF_POOL) \<and>
    (\<forall>t. t \<noteq> MEMP_PBUF_POOL \<longrightarrow> F' t = F t) \<and> all_plain sizes f"
proof (cases "F MEMP_PBUF_POOL")
  case Nil
  then have "pbuf_alloc cfree layer len PBUF_POOL st = Some (None, st)"
    using pool_get_spec [OF ok(1)] by (simp add: pbuf_alloc_def)
  then show ?thesis using ok by (intro exI [of _ "pb st"] exI [of _ "npools st"] exI [of _ F]) simp
next
  case (Cons e es)
  let ?room = "600 - align4 (layer_offset layer)" and ?F = "F(MEMP_PBUF_POOL := es)"
  obtain mp where 1: "pool_get MEMP_PBUF_POOL st = Some (Some (Pool e), st\<lparr>npools := mp\<rparr>)"
    "memp_ok sizes mp ?F" "e \<notin> set es" "e \<in> set (elems sizes MEMP_PBUF_POOL)"
    "pool_buf (set_pb (Pool e) (pbuf_head layer len e) (st\<lparr>npools := mp\<rparr>)) e"
    using pool_head [OF ok(1,2) Cons] by metis
  let ?s = "set_pb (Pool e) (pbuf_head layer len e) (st\<lparr>npools := mp\<rparr>)"
  have "544 \<le> ?room" by (cases layer) (auto simp: align4_def)
  then have small: "len - ?room < 0xffff" using ok(3) by linarith
  have pre: "memp_ok sizes (npools ?s) ?F" "length (?F MEMP_PBUF_POOL) < nbufs (len - ?room)" "[e] \<noteq> []" "Pool e = Pool (last [e])"
    "pchain (pb ?s) (Some (Pool e)) (map Pool [e]) None" "distinct [e]" "set [e] \<subseteq> set (elems sizes MEMP_PBUF_POOL)"
    "set [e] \<inter> set (?F MEMP_PBUF_POOL) = {}" "\<forall>x \<in> set [e]. pool_buf ?s x"
    using 1 n Cons by (auto simp: nbufs_for_def pbuf_head_def)
  obtain f mp' F' where 2: "pool_tail cfree (Pool e) (Pool e) (len - ?room) ?s = Some (None, ?s\<lparr>pb := f, npools := mp'\<rparr>)"
    "memp_ok sizes mp' F'" "set (F' MEMP_PBUF_POOL) = set [e] \<union> set (?F MEMP_PBUF_POOL)"
    "\<forall>t. t \<noteq> MEMP_PBUF_POOL \<longrightarrow> F' t = ?F t" "all_plain sizes (pb ?s) \<longrightarrow> all_plain sizes f"
    using tail_fail [OF pre(1) small pre(2-9)] by blast
  have "all_plain sizes (pb ?s)" using ok(2) by (auto simp: all_plain_def pbuf_head_def)
  moreover have "pbuf_alloc cfree layer len PBUF_POOL st = Some (None, st\<lparr>pb := f, npools := mp'\<rparr>)"
    using pbuf_alloc_pool_eq [OF 1(1), of cfree layer len] 2(1) by (simp add: set_pb_def)
  ultimately show ?thesis using 2(2-5) Cons
    by (intro exI [of _ f] exI [of _ mp'] exI [of _ F']) auto
qed

end
