(* ===== verification/EchoProps.thy ===== *)
theory EchoProps
  imports Echo PbufProps
begin

text \<open>
  The dock between host and kernel: what is queued is sent completely and its buffers go
  back, a message goes through the gate once, and a connection leaves no memory behind.
\<close>

unbundle bit_operations_syntax

section \<open>Sending a chain\<close>

text \<open>The buffers \<open>es\<close> are a chain of the dock's own, none of them in the free list \<open>F\<close>.\<close>

definition queued :: "(memp_t \<Rightarrow> nat) \<Rightarrow> net \<Rightarrow> (memp_t \<Rightarrow> nat list) \<Rightarrow> loc option \<Rightarrow> nat list \<Rightarrow> bool" where
  "queued sizes n F po es = (memp_ok sizes (npools n) F \<and> distinct es \<and>
     set es \<subseteq> set (elems sizes MEMP_PBUF_POOL) \<and> set es \<inter> set (F MEMP_PBUF_POOL) = {} \<and>
     pchain (pb n) po (map Pool es) None \<and> (\<forall>x \<in> set es. pool_buf n x) \<and> has_data n (map Pool es))"

definition unref1 :: "net \<Rightarrow> nat \<Rightarrow> memp \<Rightarrow> net" where
  "unref1 n x mp = n\<lparr>pb := (pb n)(Pool x := (pb n (Pool x))\<lparr>pref := 0\<rparr>), npools := mp\<rparr>"

text \<open>Head of the queue: the next buffer gets a reference, the release of the head takes it.\<close>

lemma free_head:
  assumes "queued sizes n F po (x # es)"
  shows "\<exists>mp. free_hard cfree (Pool x) (pbuf_ref (pnext (pb n (Pool x))) n) = Some (unref1 n x mp) \<and>
     queued sizes (unref1 n x mp) (F(MEMP_PBUF_POOL := x # F MEMP_PBUF_POOL)) (pnext (pb n (Pool x))) es"
proof -
  let ?e = "pnext (pb n (Pool x))" and ?F = "F(MEMP_PBUF_POOL := x # F MEMP_PBUF_POOL)"
  let ?n = "pbuf_ref ?e n"
  have q: "memp_ok sizes (npools n) F" "x \<notin> set es" "distinct es" "x \<in> set (elems sizes MEMP_PBUF_POOL)"
    "set es \<subseteq> set (elems sizes MEMP_PBUF_POOL)" "x \<notin> set (F MEMP_PBUF_POOL)" "set es \<inter> set (F MEMP_PBUF_POOL) = {}"
    "pchain (pb n) ?e (map Pool es) None" "pool_buf n x" "\<forall>y \<in> set es. pool_buf n y" "has_data n (map Pool es)"
    using assms by (auto simp: queued_def)
  have e: "?e = (case es of [] \<Rightarrow> None | y # _ \<Rightarrow> Some (Pool y))" using q(8) by (cases es) auto
  have same: "pb ?n (Pool x) = pb n (Pool x)" using e q(2) by (auto simp: pbuf_ref_def split: list.splits)
  have pre: "memp_ok sizes (npools ?n) F" "distinct [x]" "set [x] \<subseteq> set (elems sizes MEMP_PBUF_POOL)"
    "set [x] \<inter> set (F MEMP_PBUF_POOL) = {}" "pchain (pb ?n) (Some (Pool x)) (map Pool [x]) ?e"
    "\<forall>y \<in> set [x]. pool_buf ?n y" "stops ?n ?e" "?e \<notin> Some ` Pool ` set [x]" "(0::nat) < 256"
    using q(1,2,4,6,9,10) same e
    by (auto simp: pbuf_ref_def pool_buf_def stops_def split: option.splits list.splits)
  obtain mp where mp: "pbuf_free_loop cfree (Some (Pool x)) 0 ?n
      = Some ((0 + length [x]) mod 256, ?n\<lparr>pb := released ?n [x] ?e, npools := mp\<rparr>)"
    "memp_ok sizes mp (F(MEMP_PBUF_POOL := rev [x] @ F MEMP_PBUF_POOL))"
    using free_loop_spec [OF pre, of cfree] by blast
  have "released ?n [x] ?e l = pb (unref1 n x mp) l" for l
    using e q(2,9,10) same
    by (auto simp: released_def unref1_def pbuf_ref_def pool_buf_def split: option.splits list.splits)
  then have "?n\<lparr>pb := released ?n [x] ?e, npools := mp\<rparr> = unref1 n x mp"
    by (intro net.equality) (auto simp: unref1_def pbuf_ref_def fun_eq_iff split: option.splits)
  then have "free_hard cfree (Pool x) ?n = Some (unref1 n x mp)"
    using mp(1) by (subst free_hard.simps) (simp add: pbuf_free_def lwip_assert_def)
  moreover have "pchain (pb (unref1 n x mp)) ?e (map Pool es) None"
    by (rule pchain_frame [OF q(8)]) (use q(2) in \<open>auto simp: unref1_def\<close>)
  then have "queued sizes (unref1 n x mp) ?F ?e es"
    using q mp(2) by (auto simp: queued_def unref1_def pool_buf_def has_data_def)
  ultimately show ?thesis by blast
qed

lemma content_append: "content n (xs @ ys) = content n xs @ content n ys"
  by (induction xs) auto

text \<open>Over any TCP a first part of the queue is sent, and its buffers go back; with a TCP that takes what
  its send buffer has room for, that part is empty only if the first buffer does not fit.\<close>

lemma echo_send_any:
  "queued sizes (dnet d) F (es_p (des d)) es \<Longrightarrow>
   \<exists>d' sent rest. es = sent @ rest \<and> echo_send env cfree d = Some d' \<and>
     written (dtcp d') = written (dtcp d) @ content (dnet d) (map Pool sent) \<and>
     recved (dtcp d') = recved (dtcp d) + (\<Sum>x \<leftarrow> sent. plen (pb (dnet d) (Pool x))) \<and>
     des d' = (des d)\<lparr>es_p := es_p (des d')\<rparr> \<and> dk d' = dk d \<and> bytes (dnet d') = bytes (dnet d) \<and> cb_sent (dtcp d') = cb_sent (dtcp d) \<and>
     nheap (dnet d') = nheap (dnet d) \<and> (\<forall>y \<in> set rest. pb (dnet d') (Pool y) = pb (dnet d) (Pool y)) \<and>
     queued sizes (dnet d') (F(MEMP_PBUF_POOL := rev sent @ F MEMP_PBUF_POOL)) (es_p (des d')) rest \<and>
     (accepts env \<and> (\<Sum>x \<leftarrow> es. plen (pb (dnet d) (Pool x))) \<le> snd_buf (dtcp d) \<longrightarrow> rest = []) \<and>
     (accepts env \<and> es \<noteq> [] \<and> plen (pb (dnet d) (Pool (hd es))) \<le> snd_buf (dtcp d) \<longrightarrow> sent \<noteq> [])"
proof (induction es arbitrary: d F)
  case Nil
  then have p: "es_p (des d) = None" by (auto simp: queued_def)
  then have "echo_send env cfree d = Some d" by (subst echo_send.simps) simp
  with Nil p show ?case by (intro exI [of _ d] exI [of _ "[]"]) simp
next
  case (Cons x es)
  let ?n = "dnet d" and ?F = "F(MEMP_PBUF_POOL := x # F MEMP_PBUF_POOL)"
  have x: "es_p (des d) = Some (Pool x)" "payload (pb ?n (Pool x)) \<noteq> None" "x \<notin> set es"
    using Cons.prems(1) by (auto simp: queued_def)
  have peek: "peek (payload (pb ?n (Pool x))) 0 (plen (pb ?n (Pool x))) ?n = Some (buf_data ?n (Pool x))"
    using peek_data [OF x(2), of 0 "plen (pb ?n (Pool x))"] length_data [OF x(2)] by simp
  obtain e t where w: "conn_write env (buf_data ?n (Pool x)) (dtcp d) = (e, t)" by (cases "conn_write env (buf_data ?n (Pool x)) (dtcp d)")
  have refused: "\<not> (accepts env \<and> plen (pb ?n (Pool x)) \<le> snd_buf (dtcp d))" if "e \<noteq> ERR_OK"
    using that w length_data [OF x(2)] by (auto simp: conn_write_def accepts_def Let_def)
  show ?case
  proof (cases "plen (pb ?n (Pool x)) \<le> snd_buf (dtcp d) \<and> e = ERR_OK")
    case False
    have "d\<lparr>dtcp := t\<rparr> = d" if "e \<noteq> ERR_OK" using w that by (auto simp: conn_write_def Let_def)
    then have "echo_send env cfree d = Some d" using x(1) peek w False by (subst echo_send.simps) auto
    then show ?thesis using Cons.prems False refused by (intro exI [of _ d] exI [of _ "[]"] exI [of _ "x # es"]) auto
  next
    case True
    then have t: "written t = written (dtcp d) @ buf_data ?n (Pool x)" "cb_sent t = cb_sent (dtcp d)"
      "snd_buf t = snd_buf (dtcp d) - plen (pb ?n (Pool x))" "recved t = recved (dtcp d)"
      using w length_data [OF x(2)] by (auto simp: conn_write_def Let_def)
    obtain mp where f: "free_hard cfree (Pool x) (pbuf_ref (pnext (pb ?n (Pool x))) ?n) = Some (unref1 ?n x mp)"
      "queued sizes (unref1 ?n x mp) ?F (pnext (pb ?n (Pool x))) es"
      using free_head [OF Cons.prems(1)[unfolded x(1)]] by blast
    let ?d = "d\<lparr>dnet := unref1 ?n x mp, dtcp := conn_recved (plen (pb ?n (Pool x))) t,
                des := (des d)\<lparr>es_p := pnext (pb ?n (Pool x))\<rparr>\<rparr>"
    have s: "echo_send env cfree d = echo_send env cfree ?d"
      using x(1) peek w True f(1) by (subst echo_send.simps) simp
    have other: "pb (unref1 ?n x mp) (Pool y) = pb ?n (Pool y)" if "y \<in> set es" for y
      using that x(3) by (auto simp: unref1_def)
    have 1: "queued sizes (dnet ?d) ?F (es_p (des ?d)) es" using f(2) by simp
    obtain d' sent rest where i: "es = sent @ rest" "echo_send env cfree ?d = Some d'"
      "written (dtcp d') = written (dtcp ?d) @ content (dnet ?d) (map Pool sent)"
      "recved (dtcp d') = recved (dtcp ?d) + (\<Sum>y \<leftarrow> sent. plen (pb (dnet ?d) (Pool y)))"
      "des d' = (des ?d)\<lparr>es_p := es_p (des d')\<rparr>" "dk d' = dk ?d" "bytes (dnet d') = bytes (dnet ?d)" "cb_sent (dtcp d') = cb_sent (dtcp ?d)"
      "nheap (dnet d') = nheap (dnet ?d)" "\<forall>y \<in> set rest. pb (dnet d') (Pool y) = pb (dnet ?d) (Pool y)"
      "queued sizes (dnet d') (?F(MEMP_PBUF_POOL := rev sent @ ?F MEMP_PBUF_POOL)) (es_p (des d')) rest"
      "accepts env \<and> (\<Sum>y \<leftarrow> es. plen (pb (dnet ?d) (Pool y))) \<le> snd_buf (dtcp ?d) \<longrightarrow> rest = []"
      using Cons.IH [OF 1] by blast
    have sum: "(\<Sum>y \<leftarrow> ys. plen (pb (unref1 ?n x mp) (Pool y))) = (\<Sum>y \<leftarrow> ys. plen (pb ?n (Pool y)))" if "set ys \<subseteq> set es" for ys
      using that other by (intro arg_cong [of _ _ sum_list] map_cong) auto
    have same: "content (unref1 ?n x mp) (map Pool sent) = content ?n (map Pool sent)"
      using i(1) other by (intro content_cong) (auto simp: buf_data_def unref1_def split: option.split)
    have F: "?F(MEMP_PBUF_POOL := rev sent @ ?F MEMP_PBUF_POOL) = F(MEMP_PBUF_POOL := rev (x # sent) @ F MEMP_PBUF_POOL)"
      by (simp only: fun_upd_upd fun_upd_same rev.simps append_assoc append.simps)
    have all: "accepts env \<and> (\<Sum>y \<leftarrow> x # es. plen (pb ?n (Pool y))) \<le> snd_buf (dtcp d) \<longrightarrow> rest = []"
      using i(12) sum [of es] t(3) by (auto simp: conn_recved_def)
    show ?thesis
    proof (intro exI conjI)
      show "echo_send env cfree d = Some d'" using s i(2) by simp
      show "x # es = (x # sent) @ rest" using i(1) by simp
      show "written (dtcp d') = written (dtcp d) @ content ?n (map Pool (x # sent))"
        using i(3) t(1) same by (simp add: conn_recved_def)
      show "recved (dtcp d') = recved (dtcp d) + (\<Sum>y \<leftarrow> x # sent. plen (pb ?n (Pool y)))"
        using i(1,4) t(4) sum [of sent] by (simp add: conn_recved_def)
      show "des d' = (des d)\<lparr>es_p := es_p (des d')\<rparr>" by (subst i(5)) simp
      show "queued sizes (dnet d') (F(MEMP_PBUF_POOL := rev (x # sent) @ F MEMP_PBUF_POOL)) (es_p (des d')) rest"
        using i(11) F by (simp only:)
      show "\<forall>y \<in> set rest. pb (dnet d') (Pool y) = pb ?n (Pool y)" using i(1,10) other by simp
    qed (use i(6-9) t(2) all in \<open>simp_all add: conn_recved_def unref1_def\<close>)
  qed
qed

lemma echo_send_all:
  assumes "queued sizes (dnet d) F (es_p (des d)) es" and "accepts env"
    and "(\<Sum>x \<leftarrow> es. plen (pb (dnet d) (Pool x))) \<le> snd_buf (dtcp d)"
  shows "\<exists>d'. echo_send env cfree d = Some d' \<and> written (dtcp d') = written (dtcp d) @ content (dnet d) (map Pool es) \<and>
     recved (dtcp d') = recved (dtcp d) + (\<Sum>x \<leftarrow> es. plen (pb (dnet d) (Pool x))) \<and>
     des d' = (des d)\<lparr>es_p := None\<rparr> \<and> dk d' = dk d \<and> bytes (dnet d') = bytes (dnet d) \<and>
     nheap (dnet d') = nheap (dnet d) \<and>
     memp_ok sizes (npools (dnet d')) (F(MEMP_PBUF_POOL := rev es @ F MEMP_PBUF_POOL))"
proof -
  obtain d' where d': "echo_send env cfree d = Some d'" "written (dtcp d') = written (dtcp d) @ content (dnet d) (map Pool es)"
    "recved (dtcp d') = recved (dtcp d) + (\<Sum>x \<leftarrow> es. plen (pb (dnet d) (Pool x)))" "des d' = (des d)\<lparr>es_p := es_p (des d')\<rparr>"
    "dk d' = dk d" "bytes (dnet d') = bytes (dnet d)" "nheap (dnet d') = nheap (dnet d)"
    "queued sizes (dnet d') (F(MEMP_PBUF_POOL := rev es @ F MEMP_PBUF_POOL)) (es_p (des d')) []"
    using echo_send_any [OF assms(1), of env cfree] assms(2,3) by fastforce
  then have "es_p (des d') = None" by (simp add: queued_def)
  with d' show ?thesis by (intro exI [of _ d']) (auto simp: queued_def)
qed

section \<open>Messages\<close>

definition wf_msg :: "antares_msg \<Rightarrow> bool" where
  "wf_msg m = (length (tstamp m) = 3 \<and> length (seq m) = 2 \<and> length (antares_msg.data m) = 150)"

lemma encode_decode: "length xs = ACPMESSAGE_LENGTH \<Longrightarrow> encode (decode xs) = xs"
proof -
  assume l: "length xs = ACPMESSAGE_LENGTH"
  have c: "drop i xs = xs ! i # drop (Suc i) xs" if "i < 162" for i using that l by (simp add: Cons_nth_drop_Suc)
  have t: "take n (drop i xs) @ drop (i + n) xs = drop i xs" for n i by (metis add.commute append_take_drop_id drop_drop)
  have "xs = xs ! 0 # xs ! 1 # drop 2 xs" using c [of 0] c [of 1] by (simp add: numeral_2_eq_2)
  also have "drop 2 xs = take 3 (drop 2 xs) @ xs ! 5 # xs ! 6 # drop 7 xs"
    using t [of 3 2] c [of 5] c [of 6] by simp
  also have "drop 7 xs = take 2 (drop 7 xs) @ xs ! 9 # xs ! 10 # xs ! 11 # drop 12 xs"
    using t [of 2 7] c [of 9] c [of 10] c [of 11] by simp
  finally show ?thesis using l by (simp add: encode_def decode_def)
qed

lemma decode_wf: "length xs = ACPMESSAGE_LENGTH \<Longrightarrow> wf_msg (decode xs)"
  by (simp add: decode_def wf_msg_def)

lemma encode_length: "wf_msg m \<Longrightarrow> length (encode m) = ACPMESSAGE_LENGTH"
  by (simp add: encode_def wf_msg_def)

definition gate_ready :: "kernel \<Rightarrow> bool" where
  "gate_ready k = ((\<forall>m \<in> set (message_out k). wf_msg m) \<and> 150 \<le> length (status_stream (gstatus (kglob k))))"

lemma ethergate_wf: "wf_msg m \<Longrightarrow> gate_ready k \<Longrightarrow> wf_msg (fst (ethergate m k))"
  by (auto simp: ethergate_def gate_ready_def wf_msg_def copy64_def split: list.split option.split)

text \<open>The gate on the first buffer of a chain: the first 162 bytes of the content are exchanged.\<close>

lemma poke_bytes: "poke (Some (b, off)) 0 xs n = Some n' \<Longrightarrow> \<exists>bs. n' = n\<lparr>bytes := bs\<rparr> \<and>
    (\<forall>c. c \<noteq> b \<longrightarrow> bs c = bytes n c) \<and>
    (\<forall>k < length xs. bs b (off + int k) = xs ! k) \<and> (\<forall>k \<ge> length xs. bs b (off + int k) = bytes n b (off + int k))"
  by (auto simp: poke_def)

lemma gate_content:
  assumes q: "queued sizes (dnet d) F (Some (Pool x)) (x # es)" and i: "\<forall>y \<in> set (x # es). inside (pb (dnet d)) y"
    and len: "ACPMESSAGE_LENGTH \<le> plen (pb (dnet d) (Pool x))" and k: "gate_ready (dk d)"
    and xs: "xs = content (dnet d) (map Pool (x # es))" and g: "ethergate (decode (take ACPMESSAGE_LENGTH xs)) (dk d) = (m, k')"
  shows "\<exists>bs. gate_buffer (Pool x) d = Some (d\<lparr>dk := k', dnet := (dnet d)\<lparr>bytes := bs\<rparr>\<rparr>) \<and>
    content ((dnet d)\<lparr>bytes := bs\<rparr>) (map Pool (x # es)) = encode m @ drop ACPMESSAGE_LENGTH xs"
proof -
  let ?n = "dnet d"
  obtain off where p: "payload (pb ?n (Pool x)) = Some (Pool x, off)" "16 \<le> off" "off + int (plen (pb ?n (Pool x))) \<le> 616"
    using i by (auto simp: inside_def)
  have l: "length (buf_data ?n (Pool x)) = plen (pb ?n (Pool x))" using p(1) by (simp add: length_data)
  have t: "take ACPMESSAGE_LENGTH xs = take ACPMESSAGE_LENGTH (buf_data ?n (Pool x))" using xs l len by simp
  have peek: "peek (Some (Pool x, off)) 0 ACPMESSAGE_LENGTH ?n = Some (take ACPMESSAGE_LENGTH xs)"
    using peek_data [of ?n "Pool x" 0 ACPMESSAGE_LENGTH] p(1) len by (simp add: t)
  have "wf_msg m" using ethergate_wf [OF decode_wf k, of "take ACPMESSAGE_LENGTH xs"] g l len t by simp
  then have e: "length (encode m) = 162" by (simp add: encode_length)
  obtain bs where b: "poke (Some (Pool x, off)) 0 (encode m) ?n = Some (?n\<lparr>bytes := bs\<rparr>)"
    "\<forall>c. c \<noteq> Pool x \<longrightarrow> bs c = bytes ?n c" "\<forall>j < 162. bs (Pool x) (off + int j) = encode m ! j"
    "\<forall>j \<ge> 162. bs (Pool x) (off + int j) = bytes ?n (Pool x) (off + int j)"
    using poke_bytes [of "Pool x" off "encode m" ?n] e by (auto simp: poke_def)
  have "off + int ACPMESSAGE_LENGTH \<le> int (SIZEOF_STRUCT_PBUF + PBUF_POOL_BUFSIZE_ALIGNED)" using p(3) len by simp
  then have gb: "gate_buffer (Pool x) d = Some (d\<lparr>dk := k', dnet := ?n\<lparr>bytes := bs\<rparr>\<rparr>)"
    using p(1,2) peek g b(1) by (simp add: gate_buffer_def)
  have hd: "buf_data (?n\<lparr>bytes := bs\<rparr>) (Pool x) = encode m @ drop ACPMESSAGE_LENGTH (buf_data ?n (Pool x))"
    using p(1) b(3,4) e len by (intro nth_equalityI) (auto simp: buf_data_def nth_append)
  have tl: "content (?n\<lparr>bytes := bs\<rparr>) (map Pool es) = content ?n (map Pool es)"
  proof (intro content_cong)
    fix q assume "q \<in> set (map Pool es)"
    then obtain y where y: "q = Pool y" "y \<in> set es" by auto
    then obtain o' where "payload (pb ?n (Pool y)) = Some (Pool y, o')" using i by (auto simp: inside_def)
    moreover have "y \<noteq> x" using q y(2) by (auto simp: queued_def)
    ultimately show "buf_data (?n\<lparr>bytes := bs\<rparr>) q = buf_data ?n q" using y(1) b(2) by (simp add: buf_data_def)
  qed
  show ?thesis using gb hd tl xs l len by auto
qed

lemma queued_bytes: "queued sizes (n\<lparr>bytes := bs\<rparr>) F po es = queued sizes n F po es"
  by (simp add: queued_def pool_buf_def has_data_def)

section \<open>A message and the acknowledgements of its answer\<close>

text \<open>The dock with the first \<open>j\<close> buffers of the chain \<open>es\<close> on its way to the host. \<open>n\<close> are the buffers
  after the gate, \<open>w\<close> and \<open>r\<close> what was written and received before.\<close>

definition echoing ::
    "(memp_t \<Rightarrow> nat) \<Rightarrow> (memp_t \<Rightarrow> nat list) \<Rightarrow> net \<Rightarrow> nat list \<Rightarrow> u8 list \<Rightarrow> nat \<Rightarrow> kernel \<Rightarrow> nat \<Rightarrow> dock \<Rightarrow> bool" where
  "echoing sizes F n es w r k j d = (j \<le> length es \<and>
     queued sizes (dnet d) (F(MEMP_PBUF_POOL := rev (take j es) @ F MEMP_PBUF_POOL)) (es_p (des d)) (drop j es) \<and>
     written (dtcp d) = w @ content n (map Pool (take j es)) \<and>
     recved (dtcp d) = r + (\<Sum>y \<leftarrow> take j es. plen (pb n (Pool y))) \<and>
     es_state (des d) = ES_RECEIVED \<and> dk d = k \<and> bytes (dnet d) = bytes n \<and>
     (\<forall>y \<in> set (drop j es). pb (dnet d) (Pool y) = pb n (Pool y)))"

lemma echoing_send:
  assumes e: "echoing sizes F n es w r k j d"
  shows "\<exists>d' i. echo_send env cfree d = Some d' \<and> echoing sizes F n es w r k (j + i) d' \<and>
     (accepts env \<and> (\<Sum>y \<leftarrow> drop j es. plen (pb n (Pool y))) \<le> snd_buf (dtcp d) \<longrightarrow> j + i = length es) \<and>
     (accepts env \<and> j < length es \<and> plen (pb n (Pool (es ! j))) \<le> snd_buf (dtcp d) \<longrightarrow> 0 < i)"
proof -
  let ?F = "F(MEMP_PBUF_POOL := rev (take j es) @ F MEMP_PBUF_POOL)" and ?es = "drop j es"
  have q: "queued sizes (dnet d) ?F (es_p (des d)) ?es" and j: "j \<le> length es"
    and same: "\<forall>y \<in> set ?es. pb (dnet d) (Pool y) = pb n (Pool y)" and b: "bytes (dnet d) = bytes n"
    using e by (auto simp: echoing_def)
  obtain d' sent rest where s: "?es = sent @ rest" "echo_send env cfree d = Some d'"
    "written (dtcp d') = written (dtcp d) @ content (dnet d) (map Pool sent)"
    "recved (dtcp d') = recved (dtcp d) + (\<Sum>x \<leftarrow> sent. plen (pb (dnet d) (Pool x)))"
    "des d' = (des d)\<lparr>es_p := es_p (des d')\<rparr>" "dk d' = dk d" "bytes (dnet d') = bytes (dnet d)"
    "\<forall>y \<in> set rest. pb (dnet d') (Pool y) = pb (dnet d) (Pool y)"
    "queued sizes (dnet d') (?F(MEMP_PBUF_POOL := rev sent @ ?F MEMP_PBUF_POOL)) (es_p (des d')) rest"
    "accepts env \<and> (\<Sum>x \<leftarrow> ?es. plen (pb (dnet d) (Pool x))) \<le> snd_buf (dtcp d) \<longrightarrow> rest = []"
    "accepts env \<and> ?es \<noteq> [] \<and> plen (pb (dnet d) (Pool (hd ?es))) \<le> snd_buf (dtcp d) \<longrightarrow> sent \<noteq> []"
    using echo_send_any [OF q, of env cfree] by blast
  let ?i = "length sent"
  have es: "es = (take j es @ sent) @ rest" using s(1) append_take_drop_id [of j es] by simp
  then have t: "take (j + ?i) es = take j es @ sent" "drop (j + ?i) es = rest"
    using j by (metis append_eq_conv_conj length_append length_take min.absorb2)+
  have le: "j + ?i \<le> length es" using j arg_cong [OF s(1), of length] by simp
  have sub: "set sent \<subseteq> set ?es" "set rest \<subseteq> set ?es" using s(1) by auto
  have sum: "(\<Sum>y \<leftarrow> ys. plen (pb (dnet d) (Pool y))) = (\<Sum>y \<leftarrow> ys. plen (pb n (Pool y)))" if "set ys \<subseteq> set ?es" for ys
    using that same by (intro arg_cong [of _ _ sum_list] map_cong) auto
  have c: "content (dnet d) (map Pool sent) = content n (map Pool sent)"
    using same sub b by (intro content_cong) (auto simp: buf_data_def split: option.split)
  have F: "?F(MEMP_PBUF_POOL := rev sent @ ?F MEMP_PBUF_POOL)
      = F(MEMP_PBUF_POOL := rev (take (j + ?i) es) @ F MEMP_PBUF_POOL)" by (simp add: t)
  have st: "es_state (des d') = es_state (des d)" by (subst s(5)) simp
  have "echoing sizes F n es w r k (j + ?i) d'"
    unfolding echoing_def using st s(3,4,6-9) t e c sum [OF sub(1)] sub(2) same le b
    by (auto simp: echoing_def content_append F simp del: fun_upd_upd simp flip: F)
  moreover have "accepts env \<and> (\<Sum>y \<leftarrow> ?es. plen (pb n (Pool y))) \<le> snd_buf (dtcp d) \<longrightarrow> j + ?i = length es"
    using s(10) sum [of ?es] t(2) le by auto
  moreover have "accepts env \<and> j < length es \<and> plen (pb n (Pool (es ! j))) \<le> snd_buf (dtcp d) \<longrightarrow> 0 < ?i"
    using s(11) same by (auto simp: hd_drop_conv_nth nth_mem) (metis drop_eq_Nil hd_drop_conv_nth hd_in_set leD)
  ultimately show ?thesis using s(2) by blast
qed

text \<open>Acknowledgements, each with the room it leaves in the send buffer.\<close>

fun dock_acked :: "tcp_env \<Rightarrow> cfree \<Rightarrow> int option \<Rightarrow> (nat \<times> nat) list \<Rightarrow> dock \<Rightarrow> dock option" where
  "dock_acked env cfree a [] d = Some d"
| "dock_acked env cfree a ((n, q) # rs) d =
     Option.bind (echo_sent env cfree a (d\<lparr>dtcp := (dtcp d)\<lparr>snd_buf := n, snd_queuelen := q\<rparr>\<rparr>)) (\<lambda>(_, d). dock_acked env cfree a rs d)"

lemma echoing_acked:
  "echoing sizes F n es w r k j d \<Longrightarrow>
   \<exists>d' i. dock_acked env cfree (Some a) rs d = Some d' \<and> echoing sizes F n es w r k (j + i) d' \<and>
     (accepts env \<and> (\<forall>(room, q) \<in> set rs. \<forall>y \<in> set es. plen (pb n (Pool y)) \<le> room) \<and> length es \<le> j + length rs \<longrightarrow> j + i = length es)"
proof (induction rs arbitrary: j d)
  case Nil
  then show ?case by (intro exI [of _ d] exI [of _ 0]) (auto simp: echoing_def)
next
  case (Cons ack rs)
  obtain room q where a: "ack = (room, q)" by (cases ack)
  let ?d = "(d\<lparr>dtcp := (dtcp d)\<lparr>snd_buf := room, snd_queuelen := q\<rparr>, des := (des d)\<lparr>es_retries := 0\<rparr>\<rparr>)"
  have e: "echoing sizes F n es w r k j (if es_p (des d) \<noteq> None then set_sent ?d else ?d)"
    using Cons.prems by (auto simp: echoing_def set_sent_def)
  have none: "drop j es = []" if "es_p (des d) = None" using Cons.prems that by (cases "drop j es") (auto simp: echoing_def queued_def)
  have "\<exists>d1 i. echo_sent env cfree (Some a) (d\<lparr>dtcp := (dtcp d)\<lparr>snd_buf := room, snd_queuelen := q\<rparr>\<rparr>) = Some (ERR_OK, d1) \<and>
      echoing sizes F n es w r k (j + i) d1 \<and>
      (accepts env \<and> j < length es \<and> plen (pb n (Pool (es ! j))) \<le> room \<longrightarrow> 0 < i)"
  proof (cases "es_p (des d) = None")
    case True
    then show ?thesis using e Cons.prems none by (intro exI [of _ ?d] exI [of _ 0]) (auto simp: echo_sent_def echoing_def)
  next
    case False
    then have "echoing sizes F n es w r k j (set_sent ?d)" using e by simp
    from echoing_send [OF this, of env cfree] obtain d1 i where "echo_send env cfree (set_sent ?d) = Some d1"
      "echoing sizes F n es w r k (j + i) d1" "accepts env \<and> j < length es \<and> plen (pb n (Pool (es ! j))) \<le> room \<longrightarrow> 0 < i"
      by (auto simp: set_sent_def)
    then show ?thesis using False by (auto simp: echo_sent_def)
  qed
  then obtain d1 i where d1: "echo_sent env cfree (Some a) (d\<lparr>dtcp := (dtcp d)\<lparr>snd_buf := room, snd_queuelen := q\<rparr>\<rparr>) = Some (ERR_OK, d1)"
    "echoing sizes F n es w r k (j + i) d1" "accepts env \<and> j < length es \<and> plen (pb n (Pool (es ! j))) \<le> room \<longrightarrow> 0 < i" by blast
  from Cons.IH [OF d1(2)] obtain d2 i2 where d2: "dock_acked env cfree (Some a) rs d1 = Some d2"
    "echoing sizes F n es w r k (j + i + i2) d2"
    "accepts env \<and> (\<forall>(room, q) \<in> set rs. \<forall>y \<in> set es. plen (pb n (Pool y)) \<le> room) \<and> length es \<le> j + i + length rs \<longrightarrow> j + i + i2 = length es"
    by blast
  have le: "j + i + i2 \<le> length es" using d2(2) by (simp add: echoing_def)
  have "j + i + i2 = length es" if h: "accepts env" "\<forall>(room, q) \<in> set (ack # rs). \<forall>y \<in> set es. plen (pb n (Pool y)) \<le> room"
    "length es \<le> j + length (ack # rs)"
  proof (cases "j < length es")
    case True
    then have "0 < i" using d1(3) h(1,2) a by auto
    with h d2(3) show ?thesis by auto
  qed (use le in simp)
  then show ?case using a d1(1) d2(1,2) by (intro exI [of _ d2] exI [of _ "i + i2"]) (auto simp: add.assoc)
qed

text \<open>Claim C2: a message goes through the gate and its answer back to the host, over any TCP. A segment that
  begins with a message and arrives on a docked connection with nothing queued is handed to
  \<open>ethergate\<close> once, and the reply is the answer that the gate left in the buffer followed by the rest of
  the segment unchanged. Whatever \<open>tcp_write\<close> accepts or refuses then and at any acknowledgements that follow,
  the host has been sent a first part of the reply, a number of whole buffers, exactly those are back in the pool, and
  exactly the rest of the reply is queued, in order. With a TCP that never refuses what its send buffer has room for, all of
  it is sent at once when there is room for it, and else after as many acknowledgements as there are buffers if each
  of them leaves room for a buffer; nothing is queued then and the dock is ready for the next message.\<close>

theorem message_through_gate:
  assumes "queued sizes (dnet d) F (Some (Pool x)) (x # es)" and "\<forall>y \<in> set (x # es). inside (pb (dnet d)) y"
    and "ACPMESSAGE_LENGTH \<le> plen (pb (dnet d) (Pool x))" and "gate_ready (dk d)"
    and "es_state (des d) = ES_RECEIVED" and "es_p (des d) = None"
    and "xs = content (dnet d) (map Pool (x # es))" and "ethergate (decode (take ACPMESSAGE_LENGTH xs)) (dk d) = (m, k')"
  shows "\<exists>d1 d2 sent rest. echo_recv env cfree (Some a) (Some (Pool x)) ERR_OK d = Some (ERR_OK, d1) \<and>
     dock_acked env cfree (Some a) rs d1 = Some d2 \<and> dk d2 = k' \<and> es_state (des d2) = ES_RECEIVED \<and> x # es = sent @ rest \<and>
     (let n = (\<Sum>y \<leftarrow> sent. plen (pb (dnet d) (Pool y))) in
      written (dtcp d2) = written (dtcp d) @ take n (encode m @ drop ACPMESSAGE_LENGTH xs) \<and>
      content (dnet d2) (map Pool rest) = drop n (encode m @ drop ACPMESSAGE_LENGTH xs) \<and>
      recved (dtcp d2) = recved (dtcp d) + n) \<and>
     queued sizes (dnet d2) (F(MEMP_PBUF_POOL := rev sent @ F MEMP_PBUF_POOL)) (es_p (des d2)) rest \<and>
     (accepts env \<and>
        ((\<Sum>y \<leftarrow> x # es. plen (pb (dnet d) (Pool y))) \<le> snd_buf (dtcp d) \<or>
         (\<forall>(room, q) \<in> set rs. \<forall>y \<in> set (x # es). plen (pb (dnet d) (Pool y)) \<le> room) \<and> length (x # es) \<le> length rs) \<longrightarrow>
      rest = [] \<and> es_p (des d2) = None)"
proof -
  let ?d = "set_sent (set_p (Some (Pool x)) d)" and ?es = "x # es"
  have d: "dnet ?d = dnet d" "dk ?d = dk d" "es_p (des ?d) = Some (Pool x)" "es_state (des ?d) = ES_RECEIVED"
    "written (dtcp ?d) = written (dtcp d)" "recved (dtcp ?d) = recved (dtcp d)" "snd_buf (dtcp ?d) = snd_buf (dtcp d)"
    using assms(5) by (simp_all add: set_sent_def set_p_def)
  obtain bs where g: "gate_buffer (Pool x) ?d = Some (?d\<lparr>dk := k', dnet := (dnet d)\<lparr>bytes := bs\<rparr>\<rparr>)"
    "content ((dnet d)\<lparr>bytes := bs\<rparr>) (map Pool ?es) = encode m @ drop ACPMESSAGE_LENGTH xs"
    using gate_content [of sizes ?d F x es xs m k'] assms(1-4,7,8) d(1,2) by auto
  let ?d' = "?d\<lparr>dk := k', dnet := (dnet d)\<lparr>bytes := bs\<rparr>\<rparr>" and ?n = "(dnet d)\<lparr>bytes := bs\<rparr>"
  have F: "F(MEMP_PBUF_POOL := F MEMP_PBUF_POOL) = F" by auto
  have e0: "echoing sizes F ?n ?es (written (dtcp d)) (recved (dtcp d)) k' 0 ?d'"
    using assms(1) d by (simp add: echoing_def queued_bytes F)
  obtain d1 i where d1: "echo_send env cfree ?d' = Some d1"
    "echoing sizes F ?n ?es (written (dtcp d)) (recved (dtcp d)) k' i d1"
    "accepts env \<and> (\<Sum>y \<leftarrow> ?es. plen (pb (dnet d) (Pool y))) \<le> snd_buf (dtcp d) \<longrightarrow> i = length ?es"
    using echoing_send [OF e0, of env cfree] d(7) by auto
  have r: "echo_recv env cfree (Some a) (Some (Pool x)) ERR_OK d = Some (ERR_OK, d1)"
    using assms(5,6) g(1) d1(1) by (simp add: echo_recv_def lwip_assert_def)
  obtain d2 i2 where d2: "dock_acked env cfree (Some a) rs d1 = Some d2"
    "echoing sizes F ?n ?es (written (dtcp d)) (recved (dtcp d)) k' (i + i2) d2"
    "accepts env \<and> (\<forall>(room, q) \<in> set rs. \<forall>y \<in> set ?es. plen (pb ?n (Pool y)) \<le> room) \<and> length ?es \<le> i + length rs \<longrightarrow> i + i2 = length ?es"
    using echoing_acked [OF d1(2)] by blast
  let ?j = "i + i2"
  let ?sent = "take ?j ?es" and ?rest = "drop ?j ?es"
  have data: "has_data ?n (map Pool ?es)" using assms(1) by (auto simp: queued_def has_data_def)
  have hs: "has_data ?n (map Pool ?sent)" using data by (auto simp: has_data_def dest!: in_set_takeD)
  have len: "length (content ?n (map Pool ?sent)) = (\<Sum>y \<leftarrow> ?sent. plen (pb (dnet d) (Pool y)))"
    using length_content [OF hs] by (simp add: comp_def)
  have split: "content ?n (map Pool ?es) = content ?n (map Pool ?sent) @ content ?n (map Pool ?rest)"
    by (metis append_take_drop_id map_append content_append)
  have rest: "content (dnet d2) (map Pool ?rest) = content ?n (map Pool ?rest)"
    using d2(2) by (intro content_cong) (auto simp: buf_data_def echoing_def split: option.split)
  have t: "take (\<Sum>y \<leftarrow> ?sent. plen (pb (dnet d) (Pool y))) (encode m @ drop ACPMESSAGE_LENGTH xs) = content ?n (map Pool ?sent)"
    "drop (\<Sum>y \<leftarrow> ?sent. plen (pb (dnet d) (Pool y))) (encode m @ drop ACPMESSAGE_LENGTH xs) = content ?n (map Pool ?rest)"
    unfolding g(2) [symmetric] len [symmetric] split by simp_all
  have all: "?rest = []" if "accepts env \<and>
        ((\<Sum>y \<leftarrow> ?es. plen (pb (dnet d) (Pool y))) \<le> snd_buf (dtcp d) \<or>
         (\<forall>(room, q) \<in> set rs. \<forall>y \<in> set ?es. plen (pb (dnet d) (Pool y)) \<le> room) \<and> length ?es \<le> length rs)"
    using that d1(3) d2(3) by auto
  have none: "es_p (des d2) = None" if "?rest = []" using d2(2) that by (simp add: echoing_def queued_def)
  have d2': "dk d2 = k'" "es_state (des d2) = ES_RECEIVED" "written (dtcp d2) = written (dtcp d) @ content ?n (map Pool ?sent)"
    "recved (dtcp d2) = recved (dtcp d) + (\<Sum>y \<leftarrow> ?sent. plen (pb (dnet d) (Pool y)))"
    "queued sizes (dnet d2) (F(MEMP_PBUF_POOL := rev ?sent @ F MEMP_PBUF_POOL)) (es_p (des d2)) ?rest"
    using d2(2) unfolding echoing_def by auto
  show ?thesis
    unfolding Let_def
  proof (rule exI [of _ d1], rule exI [of _ d2], rule exI [of _ ?sent], rule exI [of _ ?rest], intro conjI impI)
    show "written (dtcp d2) = written (dtcp d) @
        take (\<Sum>y \<leftarrow> ?sent. plen (pb (dnet d) (Pool y))) (encode m @ drop ACPMESSAGE_LENGTH xs)" unfolding t by (rule d2'(3))
    show "content (dnet d2) (map Pool ?rest) =
        drop (\<Sum>y \<leftarrow> ?sent. plen (pb (dnet d) (Pool y))) (encode m @ drop ACPMESSAGE_LENGTH xs)" unfolding t by (rule rest)
    show "es_p (des d2) = None" if "accepts env \<and>
        ((\<Sum>y \<leftarrow> ?es. plen (pb (dnet d) (Pool y))) \<le> snd_buf (dtcp d) \<or>
         (\<forall>(room, q) \<in> set rs. \<forall>y \<in> set ?es. plen (pb (dnet d) (Pool y)) \<le> room) \<and> length ?es \<le> length rs)"
      by (rule none [OF all [OF that]])
  qed (rule r d2(1) d2' all append_take_drop_id [symmetric]; assumption?)+
qed

text \<open>The first message after the host docks is lost. The segment that arrives in
  \<open>ES_ACCEPTED\<close> is sent back as it came: the gate is not called, nothing is published and no
  answer is made, although the host gets its bytes back as it does with an answered message.\<close>

theorem first_message_skips_gate:
  assumes "queued sizes (dnet d) F (Some (Pool x)) es" and "es_state (des d) = ES_ACCEPTED" and "accepts env"
    and "(\<Sum>y \<leftarrow> es. plen (pb (dnet d) (Pool y))) \<le> snd_buf (dtcp d)"
  shows "\<exists>d'. echo_recv env cfree (Some a) (Some (Pool x)) ERR_OK d = Some (ERR_OK, d') \<and> dk d' = dk d \<and>
     written (dtcp d') = written (dtcp d) @ content (dnet d) (map Pool es) \<and>
     es_state (des d') = ES_RECEIVED \<and> es_p (des d') = None"
proof -
  let ?d = "set_sent (d\<lparr>des := (des d)\<lparr>es_state := ES_RECEIVED, es_p := Some (Pool x)\<rparr>\<rparr>)"
  have d: "dnet ?d = dnet d" "dk ?d = dk d" "es_p (des ?d) = Some (Pool x)" "es_state (des ?d) = ES_RECEIVED"
    "written (dtcp ?d) = written (dtcp d)" "snd_buf (dtcp ?d) = snd_buf (dtcp d)" by (simp_all add: set_sent_def)
  have pre: "queued sizes (dnet ?d) F (es_p (des ?d)) es" "(\<Sum>y \<leftarrow> es. plen (pb (dnet ?d) (Pool y))) \<le> snd_buf (dtcp ?d)"
    using assms(1,4) d by simp_all
  have "echo_recv env cfree (Some a) (Some (Pool x)) ERR_OK d = map_option (\<lambda>d. (ERR_OK, d)) (echo_send env cfree ?d)"
    using assms(2) by (simp add: echo_recv_def lwip_assert_def)
  with echo_send_all [OF pre(1) assms(3) pre(2), of cfree] d show ?thesis by auto
qed

text \<open>A connection leaves no memory behind. When the host docks and closes again with
  nothing queued, the heap has exactly the blocks it had before, the state block is freed
  once, and every callback of the connection is cleared, whether \<open>conn_close\<close> succeeds or not.\<close>

theorem dock_cycle_leaves_heap:
  assumes "heap_ok (nheap (dnet d)) bs" and "echo_accept d = Some (ERR_OK, d1)"
  shows "\<exists>es d2. cb_arg (dtcp d1) = Some es \<and> es_state (des d1) = ES_ACCEPTED \<and>
     echo_recv env cfree (Some es) None err d1 = Some (ERR_OK, d2) \<and> heap_ok (nheap (dnet d2)) bs \<and>
     cb_arg (dtcp d2) = None \<and> \<not> cb_recv (dtcp d2) \<and> \<not> cb_sent (dtcp d2) \<and> \<not> cb_err (dtcp d2) \<and> cb_poll (dtcp d2) = None"
proof -
  obtain es h where m: "mem_malloc 12 (nheap (dnet d)) = Some (Some es, h)" and d1: "dnet d1 = (dnet d)\<lparr>nheap := h\<rparr>"
    "cb_arg (dtcp d1) = Some es" "es_state (des d1) = ES_ACCEPTED" "es_p (des d1) = None"
    using assms(2) by (auto simp: echo_accept_def Let_def split: bind_splits option.splits)
  obtain h' where "mem_free (Some es) h = Some h'" "heap_ok h' bs" using malloc_then_free [OF assms(1) m] by blast
  with d1 show ?thesis
    by (simp add: echo_recv_def lwip_assert_def echo_close_def heap_free_def conn_detach_def conn_close_def Let_def)
qed

end
