(* ===== verification/Http.thy ===== *)
theory Http
  imports Tcp
begin

text \<open>
  The HTTP server of \<open>lwip/httpd.c\<close> and the file system \<open>lwip/fs.c\<close> it serves from, as
  configured: CGI, no SSI, no POST, no keep-alive, requests over several buffers. One
  connection is modelled with its \<open>struct http_state\<close>, the buffers, the connection and
  the board state the CGI handlers touch. The files of \<open>fsdata.c\<close> are the parameter
  \<open>root\<close>. The parser ends strings by writing zeros into the request, which is released
  right after; here the strings are lists. Log messages are left out.
\<close>

section \<open>Files\<close>

record fsdata_file =
  f_name :: "u8 list"
  f_data :: "u8 list"
  f_header :: bool

record fs_file =
  fdata :: "u8 list"
  findex :: nat
  http_header_included :: bool

definition str :: "string \<Rightarrow> u8 list" where
  "str s = map of_char s"

fun fs_open :: "fsdata_file list \<Rightarrow> u8 list \<Rightarrow> fs_file option" where
  "fs_open [] name = None"
| "fs_open (f # fs) name =
     (if name = f_name f
      then Some \<lparr>fdata = f_data f, findex = length (f_data f), http_header_included = f_header f\<rparr>
      else fs_open fs name)"

definition fs_bytes_left :: "fs_file \<Rightarrow> int" where
  "fs_bytes_left f = int (length (fdata f)) - int (findex f)"

section \<open>State\<close>

text \<open>\<open>hhandle\<close> says whether \<open>handle\<close> points to \<open>file_handle\<close>; \<open>hfile\<close> is the offset of \<open>file\<close> in its data.\<close>

record http_state =
  file_handle :: fs_file
  hhandle :: bool
  hfile :: "nat option"
  hs_req :: "loc option"
  hleft :: nat
  hretries :: u8
  uri_params :: "(u8 list \<times> u8 list option) list"

record web =
  g_ButtonPress :: bool
  red_led :: bool

record http =
  hnet :: net
  htcp :: tcp
  hs :: http_state
  board :: web

abbreviation HTTPD_MAX_RETRIES :: u8 where "HTTPD_MAX_RETRIES \<equiv> 4"
abbreviation HTTPD_POLL_INTERVAL :: nat where "HTTPD_POLL_INTERVAL \<equiv> 4"
abbreviation LWIP_HTTPD_MAX_REQ_LENGTH :: nat where "LWIP_HTTPD_MAX_REQ_LENGTH \<equiv> 1023"
abbreviation LWIP_HTTPD_REQ_QUEUELEN :: nat where "LWIP_HTTPD_REQ_QUEUELEN \<equiv> 5"
abbreviation MIN_REQ_LEN :: nat where "MIN_REQ_LEN \<equiv> 7"

definition no_state :: http_state where
  "no_state = \<lparr>file_handle = \<lparr>fdata = [], findex = 0, http_header_included = False\<rparr>, hhandle = False,
     hfile = None, hs_req = None, hleft = 0, hretries = 0, uri_params = []\<rparr>"

section \<open>Strings\<close>

text \<open>\<open>strnstr\<close>: the search ends at a zero byte and where the token no longer fits.\<close>

fun strnstr_loop :: "u8 list \<Rightarrow> nat \<Rightarrow> nat \<Rightarrow> u8 list \<Rightarrow> nat option" where
  "strnstr_loop token n i [] = None"
| "strnstr_loop token n i (b # bs) =
     (if b \<noteq> 0 \<and> i + length token \<le> n
      then if take (length token) (b # bs) = token then Some i else strnstr_loop token n (Suc i) bs
      else None)"

definition strnstr :: "u8 list \<Rightarrow> u8 list \<Rightarrow> nat \<Rightarrow> nat option" where
  "strnstr buffer token n = (if token = [] then Some 0 else strnstr_loop token n 0 buffer)"

definition CRLF :: "u8 list" where
  "CRLF = [13, 10]"

definition default_filenames :: "u8 list list" where
  "default_filenames = map str [''/index.shtml'', ''/index.ssi'', ''/index.shtm'', ''/index.html'', ''/index.htm'']"

text \<open>\<open>strchr\<close>, cutting the string there: what is before and, if found, what is after.\<close>

definition cut_at :: "u8 \<Rightarrow> u8 list \<Rightarrow> u8 list \<times> u8 list option" where
  "cut_at c xs = (takeWhile (\<lambda>x. x \<noteq> c) xs,
     case dropWhile (\<lambda>x. x \<noteq> c) xs of [] \<Rightarrow> None | _ # ys \<Rightarrow> Some ys)"

fun extract_loop :: "nat \<Rightarrow> u8 list \<Rightarrow> (u8 list \<times> u8 list option) list" where
  "extract_loop 0 pair = []"
| "extract_loop (Suc k) pair =
     (case cut_at 38 pair of
        (this, Some next) \<Rightarrow> cut_at 61 this # extract_loop k next
      | (this, None) \<Rightarrow> [cut_at 61 (fst (cut_at 32 this))])"

text \<open>At most \<open>LWIP_HTTPD_MAX_CGI_PARAMETERS\<close> (16); the result of the C function is the length.\<close>

definition extract_uri_parameters :: "u8 list option \<Rightarrow> (u8 list \<times> u8 list option) list" where
  "extract_uri_parameters params =
     (case params of None \<Rightarrow> [] | Some p \<Rightarrow> if p = [] then [] else extract_loop 16 p)"

section \<open>CGI\<close>

definition button_handler :: "web \<Rightarrow> u8 list \<times> web" where
  "button_handler w =
     (if g_ButtonPress w then (str ''/btnprss.cgi'', w\<lparr>g_ButtonPress := False\<rparr>)
      else (str ''/btnunprss.cgi'', w))"

definition toggle_redled :: "web \<Rightarrow> u8 list \<times> web" where
  "toggle_redled w = (str ''/toggleredled.cgi'', w\<lparr>red_led := \<not> red_led w\<rparr>)"

definition BOARD_SW_IRQ_HANDLER :: "web \<Rightarrow> web" where
  "BOARD_SW_IRQ_HANDLER w = w\<lparr>g_ButtonPress := True\<rparr>"

definition cgis :: "(u8 list \<times> (web \<Rightarrow> u8 list \<times> web)) list" where
  "cgis = [(str ''/btndata.cgi'', button_handler), (str ''/toggleredled.cgi'', toggle_redled)]"

section \<open>Writing\<close>

text \<open>\<open>http_write\<close> tries smaller and smaller lengths: result, length, connection.\<close>

function http_write_loop :: "tcp_env \<Rightarrow> u8 list \<Rightarrow> nat \<Rightarrow> tcp \<Rightarrow> err_t \<times> nat \<times> tcp" where
  "http_write_loop env ptr len t =
     (let (e, t') = conn_write env (take len ptr) t in
      if e = ERR_MEM then
        (let len' = (if snd_buf t = 0 \<or> TCP_SND_QUEUELEN \<le> snd_queuelen t then 1 else len div 2) in
         if 1 < len' then http_write_loop env ptr len' t else (e, len', t'))
      else (e, len, t'))"
  by pat_completeness auto
termination
  by (relation "measure (\<lambda>(_, _, len, _). len)") (auto simp: conn_write_def Let_def split: if_splits)

declare http_write_loop.simps [simp del]

definition http_write :: "tcp_env \<Rightarrow> u8 list \<Rightarrow> nat \<Rightarrow> tcp \<Rightarrow> err_t \<times> nat \<times> tcp" where
  "http_write env ptr len t = (if len = 0 then (ERR_OK, 0, t) else http_write_loop env ptr len t)"

section \<open>Closing\<close>

definition http_state_free :: "int option \<Rightarrow> http \<Rightarrow> http option" where
  "http_state_free a h =
     (if a = None then Some h
      else map_option (\<lambda>m. h\<lparr>hnet := (hnet h)\<lparr>nheap := m\<rparr>, hs := (hs h)\<lparr>hhandle := False\<rparr>\<rparr>)
             (mem_free a (nheap (hnet h))))"

definition http_close_or_abort_conn :: "tcp_env \<Rightarrow> int option \<Rightarrow> bool \<Rightarrow> http \<Rightarrow> (err_t \<times> http) option" where
  "http_close_or_abort_conn env a abort_conn h = do {
     h \<leftarrow> http_state_free a (h\<lparr>htcp := conn_detach (htcp h)\<rparr>);
     Some (if abort_conn then (ERR_OK, h\<lparr>htcp := conn_abort (htcp h)\<rparr>)
       else (let (e, t) = conn_close env (htcp h) in
             (e, h\<lparr>htcp := (if e \<noteq> ERR_OK then t\<lparr>cb_poll := Some HTTPD_POLL_INTERVAL\<rparr> else t)\<rparr>)))
   }"

definition http_close_conn :: "tcp_env \<Rightarrow> int option \<Rightarrow> http \<Rightarrow> (err_t \<times> http) option" where
  "http_close_conn env a = http_close_or_abort_conn env a False"

definition http_eof :: "tcp_env \<Rightarrow> int option \<Rightarrow> http \<Rightarrow> http option" where
  "http_eof env a h = map_option snd (http_close_conn env a h)"

section \<open>Sending\<close>

definition http_check_eof :: "tcp_env \<Rightarrow> int option \<Rightarrow> http \<Rightarrow> (bool \<times> http) option" where
  "http_check_eof env a h =
     (if \<not> hhandle (hs h) then map_option (\<lambda>h. (False, h)) (http_eof env a h)
      else if fs_bytes_left (file_handle (hs h)) \<le> 0 then map_option (\<lambda>h. (False, h)) (http_eof env a h)
      else None)"

definition http_send_data_nonssi :: "tcp_env \<Rightarrow> http \<Rightarrow> (bool \<times> http) option" where
  "http_send_data_nonssi env h = do {
     len \<leftarrow> (if snd_buf (htcp h) < hleft (hs h) then Some (snd_buf (htcp h))
             else do { lwip_assert (trunc16 (hleft (hs h)) = hleft (hs h)); Some (trunc16 (hleft (hs h))) });
     let len = (if 2 * mss (htcp h) < len then trunc16 (2 * mss (htcp h)) else len);
     off \<leftarrow> hfile (hs h);
     let (e, len, t) = http_write env (drop off (fdata (file_handle (hs h)))) len (htcp h);
     Some (if e = ERR_OK
           then (True, h\<lparr>htcp := t, hs := (hs h)\<lparr>hfile := Some (off + len), hleft := hleft (hs h) - len\<rparr>\<rparr>)
           else (False, h\<lparr>htcp := t\<rparr>))
   }"

definition http_send :: "tcp_env \<Rightarrow> int option \<Rightarrow> http \<Rightarrow> (bool \<times> http) option" where
  "http_send env a h =
     (if a = None then Some (False, h)
      else do {
        (go, h) \<leftarrow> (if hleft (hs h) = 0 then http_check_eof env a h else Some (True, h));
        (if \<not> go then Some (False, h)
         else do {
           (data_to_send, h) \<leftarrow> http_send_data_nonssi env h;
           (if hleft (hs h) = 0 \<and> fs_bytes_left (file_handle (hs h)) \<le> 0
            then map_option (\<lambda>h. (False, h)) (http_eof env a h)
            else Some (data_to_send, h))
         })
      })"

section \<open>Finding the file\<close>

definition http_get_404_file :: "fsdata_file list \<Rightarrow> fs_file option" where
  "http_get_404_file root =
     (case fs_open root (str ''/404.html'') of
        Some f \<Rightarrow> Some f
      | None \<Rightarrow>
          (case fs_open root (str ''/404.htm'') of
             Some f \<Rightarrow> Some f
           | None \<Rightarrow> fs_open root (str ''/404.shtml'')))"

text \<open>A file whose headers are not included fails an assertion.\<close>

definition http_init_file :: "fs_file option \<Rightarrow> bool \<Rightarrow> http \<Rightarrow> (err_t \<times> http) option" where
  "http_init_file file is_09 h =
     (case file of
        None \<Rightarrow> Some (ERR_OK, h\<lparr>hs := (hs h)\<lparr>hhandle := False, hfile := None, hleft := 0, hretries := 0\<rparr>\<rparr>)
      | Some f \<Rightarrow> do {
          lwip_assert (http_header_included f);
          let diff = (if is_09 then case strnstr (fdata f) (CRLF @ CRLF) (length (fdata f)) of
                                      None \<Rightarrow> 0 | Some i \<Rightarrow> i + 4
                      else 0);
          Some (ERR_OK, h\<lparr>hs := (hs h)\<lparr>file_handle := f, hhandle := True, hfile := Some diff,
                                   hleft := length (fdata f) - diff, hretries := 0\<rparr>\<rparr>)
        })"

fun open_first :: "fsdata_file list \<Rightarrow> u8 list list \<Rightarrow> fs_file option" where
  "open_first root [] = None"
| "open_first root (n # ns) = (case fs_open root n of Some f \<Rightarrow> Some f | None \<Rightarrow> open_first root ns)"

definition http_find_file :: "fsdata_file list \<Rightarrow> u8 list \<Rightarrow> bool \<Rightarrow> http \<Rightarrow> (err_t \<times> http) option" where
  "http_find_file root uri is_09 h =
     (if uri = str ''/'' then
        http_init_file (case open_first root default_filenames of Some f \<Rightarrow> Some f
                        | None \<Rightarrow> http_get_404_file root) is_09 h
      else
        (let (uri, params) = cut_at 63 uri;
             (uri, h) = (case map_of cgis uri of
                None \<Rightarrow> (uri, h)
              | Some handler \<Rightarrow>
                  let h = h\<lparr>hs := (hs h)\<lparr>uri_params := extract_uri_parameters params\<rparr>\<rparr>;
                      (uri, w) = handler (board h)
                  in (uri, h\<lparr>board := w\<rparr>))
         in http_init_file (case fs_open root uri of Some f \<Rightarrow> Some f | None \<Rightarrow> http_get_404_file root) is_09 h))"

section \<open>Requests\<close>

text \<open>
  What the parser makes of the bytes received so far: nothing yet (or no valid URI), a
  method other than \<open>GET\<close>, or a URI and whether the line has no protocol version.
\<close>

datatype request_line = Incomplete | Unsupported | Get "u8 list" bool

definition parse_line :: "u8 list \<Rightarrow> request_line" where
  "parse_line data =
     (if length data < MIN_REQ_LEN \<or> strnstr data CRLF (length data) = None then Incomplete
      else if take 4 data \<noteq> str ''GET '' then Unsupported
      else
        (let rest = drop 4 data; left_len = length data - 4;
             (sp2, is_09) = (case strnstr rest [32] left_len of
                Some i \<Rightarrow> (Some i, False) | None \<Rightarrow> (strnstr rest CRLF left_len, True))
         in case sp2 of
              None \<Rightarrow> Incomplete
            | Some uri_len \<Rightarrow>
                if strnstr data (CRLF @ CRLF) (length data) \<noteq> None then Get (take uri_len rest) is_09
                else Incomplete))"

text \<open>The parser after the buffer \<open>p\<close> has been enqueued.\<close>

definition parse_queue :: "fsdata_file list \<Rightarrow> loc \<Rightarrow> http \<Rightarrow> (err_t \<times> http) option" where
  "parse_queue root p h = do {
     req \<leftarrow> hs_req (hs h);
     data \<leftarrow> (if pnext (pb (hnet h) req) \<noteq> None
             then pbuf_copy_partial (Some req) (min (tot_len (pb (hnet h) req)) LWIP_HTTPD_MAX_REQ_LENGTH) 0 (hnet h)
             else peek (payload (pb (hnet h) p)) 0 (plen (pb (hnet h) p)) (hnet h));
     (case parse_line data of
        Unsupported \<Rightarrow> Some (ERR_ARG, h)
      | Get uri is_09 \<Rightarrow> http_find_file root uri is_09 h
      | Incomplete \<Rightarrow> do {
          clen \<leftarrow> pbuf_clen (Some req) (hnet h);
          Some (if tot_len (pb (hnet h) req) \<le> LWIP_HTTPD_MAX_REQ_LENGTH \<and> clen \<le> LWIP_HTTPD_REQ_QUEUELEN
                then ERR_INPROGRESS else ERR_ARG, h)
        })
   }"

definition http_parse_request :: "fsdata_file list \<Rightarrow> loc \<Rightarrow> http \<Rightarrow> (err_t \<times> http) option" where
  "http_parse_request root p h =
     (if hhandle (hs h) \<or> hfile (hs h) \<noteq> None then Some (ERR_USE, h)
      else
        Option.bind
          (case hs_req (hs h) of
             None \<Rightarrow> Some (h\<lparr>hs := (hs h)\<lparr>hs_req := Some p\<rparr>\<rparr>)
           | Some r \<Rightarrow> map_option (\<lambda>n. h\<lparr>hnet := n\<rparr>) (pbuf_cat (Some r) (Some p) (hnet h)))
          (parse_queue root p))"

section \<open>Callbacks\<close>

definition free_req :: "(loc \<Rightarrow> net \<Rightarrow> net option) \<Rightarrow> http \<Rightarrow> http option" where
  "free_req cfree h =
     (case hs_req (hs h) of
        None \<Rightarrow> Some h
      | Some r \<Rightarrow> map_option (\<lambda>(_, n). h\<lparr>hnet := n, hs := (hs h)\<lparr>hs_req := None\<rparr>\<rparr>) (pbuf_free cfree (Some r) (hnet h)))"

definition http_recv ::
    "tcp_env \<Rightarrow> (loc \<Rightarrow> net \<Rightarrow> net option) \<Rightarrow> fsdata_file list \<Rightarrow> int option \<Rightarrow> loc option \<Rightarrow> err_t \<Rightarrow> http \<Rightarrow>
     (err_t \<times> http) option" where
  "http_recv env cfree root a p err h =
     (case p of
        None \<Rightarrow> map_option (\<lambda>(_, h). (ERR_OK, h)) (http_close_conn env a h)
      | Some b \<Rightarrow>
          let h = h\<lparr>htcp := conn_recved (tot_len (pb (hnet h) b)) (htcp h)\<rparr> in
          if err \<noteq> ERR_OK \<or> a = None then do {
            (_, n) \<leftarrow> pbuf_free cfree (Some b) (hnet h);
            map_option (\<lambda>(_, h). (ERR_OK, h)) (http_close_conn env a (h\<lparr>hnet := n\<rparr>))
          }
          else do {
            (parsed, h) \<leftarrow> (if \<not> hhandle (hs h) then http_parse_request root b h else Some (ERR_ABRT, h));
            h \<leftarrow> (if parsed \<noteq> ERR_INPROGRESS then free_req cfree h else Some h);
            (if parsed = ERR_OK then map_option (\<lambda>(_, h). (ERR_OK, h)) (http_send env a h)
             else if parsed = ERR_ARG then map_option (\<lambda>(_, h). (ERR_OK, h)) (http_close_conn env a h)
             else Some (ERR_OK, h))
          })"

definition http_err :: "int option \<Rightarrow> http \<Rightarrow> http option" where
  "http_err a h = http_state_free a h"

definition http_sent :: "tcp_env \<Rightarrow> int option \<Rightarrow> http \<Rightarrow> (err_t \<times> http) option" where
  "http_sent env a h =
     (if a = None then Some (ERR_OK, h)
      else map_option (\<lambda>(_, h). (ERR_OK, h)) (http_send env a (h\<lparr>hs := (hs h)\<lparr>hretries := 0\<rparr>\<rparr>)))"

definition http_poll :: "tcp_env \<Rightarrow> int option \<Rightarrow> http \<Rightarrow> (err_t \<times> http) option" where
  "http_poll env a h =
     (if a = None then map_option (\<lambda>(_, h). (ERR_OK, h)) (http_close_conn env None h)
      else
        (let h = h\<lparr>hs := (hs h)\<lparr>hretries := hretries (hs h) + 1\<rparr>\<rparr> in
         if hretries (hs h) = HTTPD_MAX_RETRIES then map_option (\<lambda>(_, h). (ERR_OK, h)) (http_close_conn env a h)
         else if hhandle (hs h) then
           map_option (\<lambda>(sent, h). (ERR_OK, if sent then h\<lparr>htcp := (htcp h)\<lparr>flushed := length (written (htcp h))\<rparr>\<rparr> else h))
             (http_send env a h)
         else Some (ERR_OK, h)))"

definition http_accept :: "http \<Rightarrow> (err_t \<times> http) option" where
  "http_accept h = do {
     let h = h\<lparr>htcp := (htcp h)\<lparr>prio := TCP_PRIO_MIN\<rparr>\<rparr>;
     (a, m) \<leftarrow> mem_malloc 172 (nheap (hnet h));
     let h = h\<lparr>hnet := (hnet h)\<lparr>nheap := m\<rparr>\<rparr>;
     Some (case a of
        None \<Rightarrow> (ERR_MEM, h)
      | Some p \<Rightarrow> (ERR_OK, h\<lparr>hs := no_state, htcp := (htcp h)\<lparr>cb_arg := Some p, cb_recv := True, cb_err := True,
                     cb_poll := Some HTTPD_POLL_INTERVAL, cb_sent := True\<rparr>\<rparr>))
   }"

end
