(* ===== verification/HttpProps.thy ===== *)
theory HttpProps
  imports Http PbufProps HeapOwners
begin

text \<open>
  The HTTP server: what it reads from a request however it is cut into segments, the
  parameters it extracts, and that a file is sent completely and in order.
\<close>

section \<open>Searching strings\<close>

lemma strnstr_loop_hit:
  assumes "0 \<notin> set xs" and "tok \<noteq> []" and "hd tok \<noteq> 0" and "i + length (xs @ tok) \<le> n"
  shows "\<exists>k \<le> length xs. strnstr_loop tok n i (xs @ tok @ ys) = Some (i + k)"
  using assms
proof (induction xs arbitrary: i)
  case Nil
  then show ?case by (cases tok) auto
next
  case (Cons x xs)
  then obtain k where "k \<le> length xs" "strnstr_loop tok n (Suc i) (xs @ tok @ ys) = Some (Suc i + k)"
    using Cons.IH [of "Suc i"] by auto
  then have "\<exists>j \<le> Suc (length xs). (if take (length tok) (x # xs @ tok @ ys) = tok then Some i
      else strnstr_loop tok n (Suc i) (xs @ tok @ ys)) = Some (i + j)"
    by (cases "take (length tok) (x # xs @ tok @ ys) = tok") (auto intro: exI [of _ "Suc k"])
  then show ?case using Cons.prems by simp
qed

lemma strnstr_hit:
  "0 \<notin> set xs \<Longrightarrow> tok \<noteq> [] \<Longrightarrow> hd tok \<noteq> 0 \<Longrightarrow> length (xs @ tok) \<le> n \<Longrightarrow> strnstr (xs @ tok @ ys) tok n \<noteq> None"
  using strnstr_loop_hit [of xs tok 0 n ys] by (auto simp: strnstr_def)

lemma strnstr_loop_char:
  "0 \<notin> set xs \<Longrightarrow> c \<notin> set xs \<Longrightarrow> c \<noteq> 0 \<Longrightarrow> i + length xs < n \<Longrightarrow>
   strnstr_loop [c] n i (xs @ c # ys) = Some (i + length xs)"
  by (induction xs arbitrary: i) auto

lemma strnstr_char:
  "0 \<notin> set xs \<Longrightarrow> c \<notin> set xs \<Longrightarrow> c \<noteq> 0 \<Longrightarrow> length xs < n \<Longrightarrow> strnstr (xs @ c # ys) [c] n = Some (length xs)"
  using strnstr_loop_char [of xs c 0 n ys] by (simp add: strnstr_def)

section \<open>Parameters\<close>

lemma cut_at_none: "c \<notin> set xs \<Longrightarrow> cut_at c xs = (xs, None)"
  by (induction xs) (auto simp: cut_at_def)

lemma cut_at_some: "c \<notin> set xs \<Longrightarrow> cut_at c (xs @ c # ys) = (xs, Some ys)"
  by (induction xs) (auto simp: cut_at_def)

text \<open>A query string: name, or name and value, joined with ampersands.\<close>

fun print_pair :: "u8 list \<times> u8 list option \<Rightarrow> u8 list" where
  "print_pair (k, None) = k"
| "print_pair (k, Some v) = k @ 61 # v"

fun print_query :: "(u8 list \<times> u8 list option) list \<Rightarrow> u8 list" where
  "print_query [] = []"
| "print_query [p] = print_pair p"
| "print_query (p # q # ps) = print_pair p @ 38 # print_query (q # ps)"

definition plain_pair :: "u8 list \<times> u8 list option \<Rightarrow> bool" where
  "plain_pair p = (61 \<notin> set (fst p) \<and> set (print_pair p) \<inter> {0, 32, 38} = {})"

lemma cut_pair: "plain_pair p \<Longrightarrow> cut_at 61 (print_pair p) = p"
  by (cases p; cases "snd p") (auto simp: plain_pair_def cut_at_none cut_at_some)

lemma extract_print:
  "ps \<noteq> [] \<Longrightarrow> \<forall>p \<in> set ps. plain_pair p \<Longrightarrow> extract_loop n (print_query ps) = take n ps"
proof (induction ps arbitrary: n rule: print_query.induct)
  case (2 p)
  then have "38 \<notin> set (print_pair p)" "32 \<notin> set (print_pair p)" by (auto simp: plain_pair_def)
  with 2 show ?case by (cases n) (simp_all add: cut_at_none cut_pair)
next
  case (3 p q ps)
  then have "38 \<notin> set (print_pair p)" by (auto simp: plain_pair_def)
  with 3 show ?case by (cases n) (simp_all add: cut_at_some cut_pair)
qed simp

section \<open>Sending a file\<close>

text \<open>\<open>http_write\<close> on any connection: it queues a prefix of what it was given and says how much,
  or nothing.\<close>

lemma http_write_loop_any:
  "http_write_loop env ptr len t = (e, n, t') \<Longrightarrow> len \<le> length ptr \<Longrightarrow>
   n \<le> max 1 len \<and>
   (if e = ERR_OK then n \<le> len \<and> written t' = written t @ take n ptr \<and> snd_buf t' = snd_buf t - n \<and>
      t' = t\<lparr>written := written t', snd_buf := snd_buf t', snd_queuelen := snd_queuelen t'\<rparr>
    else t' = t)"
proof (induction env ptr len t rule: http_write_loop.induct)
  case (1 env ptr len t)
  note u = http_write_loop.simps [of env ptr len t]
  show ?case
  proof (cases "write_result env len t = ERR_MEM")
    case True
    let ?len = "if snd_buf t = 0 \<or> TCP_SND_QUEUELEN \<le> snd_queuelen t then 1 else len div 2"
    have l: "length (take len ptr) = len" using "1.prems"(2) by simp
    then have w: "conn_write env (take len ptr) t = (ERR_MEM, t)" using True by (simp add: conn_write_def)
    show ?thesis
    proof (cases "1 < ?len")
      case True
      have "http_write_loop env ptr ?len t = (e, n, t')" using "1.prems"(1) w True u by simp
      moreover have "?len \<le> len" using True by (auto split: if_splits)
      ultimately show ?thesis using "1.IH" [OF w [symmetric] refl refl refl True] "1.prems"(2) by (auto split: if_splits)
    next
      case False
      then have "http_write_loop env ptr len t = (ERR_MEM, ?len, t)" using w u by simp
      then have "e = ERR_MEM" "n = ?len" "t' = t" using "1.prems"(1) by auto
      then show ?thesis using False by auto
    qed
  next
    case False
    have "length (take len ptr) = len" using "1.prems"(2) by simp
    with False have "http_write_loop env ptr len t =
        (write_result env len t, len, snd (conn_write env (take len ptr) t))" using u by (simp add: conn_write_def Let_def)
    then show ?thesis using "1.prems" by (auto simp: conn_write_def Let_def)
  qed
qed

lemma http_write_any:
  assumes "http_write env ptr len t = (e, n, t')" and "len \<le> length ptr"
  shows "if e = ERR_OK then n \<le> len \<and> written t' = written t @ take n ptr \<and>
      t' = t\<lparr>written := written t', snd_buf := snd_buf t', snd_queuelen := snd_queuelen t'\<rparr>
    else t' = t"
proof (cases "len = 0")
  case False
  with assms(1) have "http_write_loop env ptr len t = (e, n, t')" by (simp add: http_write_def)
  from http_write_loop_any [OF this assms(2)] show ?thesis by (auto split: if_splits)
qed (use assms(1) in \<open>simp add: http_write_def\<close>)

lemma http_write_full:
  assumes "write_result env len t = ERR_OK" and "len \<le> length ptr" and "0 < len"
  shows "fst (http_write env ptr len t) = ERR_OK \<and> fst (snd (http_write env ptr len t)) = len"
  using assms by (simp add: http_write_def http_write_loop.simps [of env ptr len] conn_write_def Let_def)

definition serving :: "u8 list \<Rightarrow> http \<Rightarrow> bool" where
  "serving fd h = (hhandle (hs h) \<and> fdata (file_handle (hs h)) = fd \<and> findex (file_handle (hs h)) = length fd \<and>
     hleft (hs h) \<le> length fd \<and> hfile (hs h) = Some (length fd - hleft (hs h)))"

text \<open>The connection was asked to close: it did, or its poll callback will ask again. The
  callbacks are cleared and the block of the connection's state is freed.\<close>

definition given_up :: "int \<Rightarrow> int set \<Rightarrow> http \<Rightarrow> bool" where
  "given_up a L h = (\<not> cb_sent (htcp h) \<and> \<not> cb_recv (htcp h) \<and> cb_arg (htcp h) = None \<and> heap_owned (nheap (hnet h)) (L - {a}) \<and>
     (conn_state (htcp h) = Closed \<and> cb_poll (htcp h) = None \<or>
      conn_state (htcp h) = Open \<and> cb_poll (htcp h) = Some HTTPD_POLL_INTERVAL))"

lemma close_frees:
  assumes "heap_owned (nheap (hnet h)) L" and "a \<in> L" and "conn_state (htcp h) = Open"
  shows "\<exists>h'. http_eof env (Some a) h = Some h' \<and> given_up a L h' \<and> written (htcp h') = written (htcp h) \<and>
     npools (hnet h') = npools (hnet h) \<and> ((\<forall>t. close_result env t = ERR_OK) \<longrightarrow> conn_state (htcp h') = Closed)"
proof -
  obtain m where "mem_free (Some a) (nheap (hnet h)) = Some m" "heap_owned m (L - {a})"
    using heap_alloc.release_ok [OF assms(1,2)] by blast
  then show ?thesis using assms(3)
    by (simp add: http_eof_def http_close_conn_def http_close_or_abort_conn_def http_state_free_def given_up_def
        conn_detach_def conn_close_def Let_def)
qed

definition chunk :: "http \<Rightarrow> nat" where
  "chunk h = min (min (snd_buf (htcp h)) (hleft (hs h))) (2 * mss (htcp h))"

definition sizes_fit :: "tcp \<Rightarrow> bool" where
  "sizes_fit t = (snd_buf t < 65536 \<and> 2 * mss t < 65536)"

text \<open>Where a connection is that serves \<open>fd\<close> and has written the first \<open>k\<close> bytes of it.\<close>

definition served :: "tcp_env \<Rightarrow> u8 list \<Rightarrow> int \<Rightarrow> int set \<Rightarrow> nat \<Rightarrow> http \<Rightarrow> bool" where
  "served env fd a L k h = (k \<le> length fd \<and>
     (if k < length fd
      then serving fd h \<and> hleft (hs h) = length fd - k \<and> cb_sent (htcp h) \<and> conn_state (htcp h) = Open \<and>
        heap_owned (nheap (hnet h)) L
      else given_up a L h \<and> ((\<forall>t. close_result env t = ERR_OK) \<longrightarrow> conn_state (htcp h) = Closed)))"

lemma send_step:
  assumes s: "served env fd a L k h" "k < length fd" and a: "a \<in> L" and t: "sizes_fit (htcp h)"
  shows "\<exists>b h' n. http_send env (Some a) h = Some (b, h') \<and> n \<le> length fd - k \<and>
     written (htcp h') = written (htcp h) @ take n (drop k fd) \<and> npools (hnet h') = npools (hnet h) \<and>
     served env fd a L (k + n) h' \<and> (k + n < length fd \<longrightarrow> mss (htcp h') = mss (htcp h)) \<and>
     (accepts env \<and> 0 < snd_buf (htcp h) \<and> 0 < mss (htcp h) \<longrightarrow> n = chunk h)"
proof -
  let ?c = "chunk h" and ?l = "length fd - k"
  have v: "serving fd h" "hleft (hs h) = ?l" "cb_sent (htcp h)" "conn_state (htcp h) = Open" "heap_owned (nheap (hnet h)) L"
    using s by (auto simp: served_def)
  have f: "hfile (hs h) = Some k" "fdata (file_handle (hs h)) = fd" "fs_bytes_left (file_handle (hs h)) = 0"
    using v(1,2) s(2) by (auto simp: serving_def fs_bytes_left_def)
  have c: "?c \<le> ?l" "?c \<le> snd_buf (htcp h)" using v(2) by (auto simp: chunk_def)
  obtain e n t' where w: "http_write env (drop k fd) ?c (htcp h) = (e, n, t')" by (metis prod_cases3)
  have wp: "if e = ERR_OK then n \<le> ?c \<and> written t' = written (htcp h) @ take n (drop k fd) \<and>
      t' = (htcp h)\<lparr>written := written t', snd_buf := snd_buf t', snd_queuelen := snd_queuelen t'\<rparr> else t' = htcp h"
    using http_write_any [OF w] c(1) by simp
  let ?n = "if e = ERR_OK then n else 0"
  let ?h = "h\<lparr>htcp := t', hs := (hs h)\<lparr>hfile := Some (k + ?n), hleft := ?l - ?n\<rparr>\<rparr>"
  have same: "(hs h)\<lparr>hfile := Some k, hleft := ?l\<rparr> = hs h" using f(1) v(2) by (cases "hs h") auto
  have len: "(if snd_buf (htcp h) < hleft (hs h) then Some (snd_buf (htcp h))
      else do { lwip_assert (trunc16 (hleft (hs h)) = hleft (hs h)); Some (trunc16 (hleft (hs h))) }) = Some (min (snd_buf (htcp h)) ?l)"
    "(if 2 * mss (htcp h) < min (snd_buf (htcp h)) ?l then trunc16 (2 * mss (htcp h)) else min (snd_buf (htcp h)) ?l) = ?c"
    using t v(2) by (auto simp: chunk_def sizes_fit_def lwip_assert_def)
  have d: "http_send_data_nonssi env h = Some (e = ERR_OK, ?h)"
    unfolding http_send_data_nonssi_def len(1) bind.simps Let_def len(2) f(1,2) w using same v(2) by simp
  have n: "?n \<le> ?l" using wp c(1) by auto
  have ht: "written t' = written (htcp h) @ take ?n (drop k fd)" "cb_sent t' = cb_sent (htcp h)" "mss t' = mss (htcp h)"
    "conn_state t' = conn_state (htcp h)"
    using wp by (auto split: if_splits dest: arg_cong [of _ _ cb_sent] arg_cong [of _ _ mss] arg_cong [of _ _ conn_state])
  have full: "?n = ?c" if "accepts env \<and> 0 < snd_buf (htcp h) \<and> 0 < mss (htcp h)"
    using http_write_full [of env ?c "htcp h" "drop k fd"] w that c s(2) v(2) by (auto simp: accepts_def chunk_def split: if_splits)
  show ?thesis
  proof (cases "?n < ?l")
    case True
    then have "http_send env (Some a) h = Some (e = ERR_OK, ?h)" using d v(2) s(2) by (auto simp: http_send_def split: if_splits)
    moreover have "served env fd a L (k + ?n) ?h"
      using True v ht s(2) f by (auto simp: served_def serving_def)
    ultimately show ?thesis using ht(1,3) full n by (intro exI [of _ "e = ERR_OK"] exI [of _ ?h] exI [of _ ?n]) simp
  next
    case False
    then have z: "?n = ?l" using n by simp
    then have e: "e = ERR_OK" "0 < n" using s(2) by (auto split: if_splits)
    obtain h' where h': "http_eof env (Some a) ?h = Some h'" "given_up a L h'" "written (htcp h') = written (htcp ?h)"
      "npools (hnet h') = npools (hnet ?h)" "(\<forall>t. close_result env t = ERR_OK) \<longrightarrow> conn_state (htcp h') = Closed"
      using close_frees [of ?h L a env] v(4,5) a ht(4) by auto
    have "http_send env (Some a) h = Some (False, h')" using d v(2) s(2) z e f(3) h'(1) by (simp add: http_send_def)
    moreover have "served env fd a L (k + ?n) h'" using z h'(2,5) s(2) by (simp add: served_def)
    moreover have "\<not> k + ?n < length fd" using z s(2) by simp
    ultimately show ?thesis using h'(3,4) ht(1) full n by (intro exI [of _ False] exI [of _ h'] exI [of _ ?n]) simp
  qed
qed

text \<open>Acknowledgements, each with the room it leaves in the send buffer, until the callbacks are gone.\<close>

fun acked :: "tcp_env \<Rightarrow> int option \<Rightarrow> (nat \<times> nat) list \<Rightarrow> http \<Rightarrow> http option" where
  "acked env a [] h = Some h"
| "acked env a ((n, q) # rs) h =
     (if cb_sent (htcp h)
      then Option.bind (http_sent env a (h\<lparr>htcp := (htcp h)\<lparr>snd_buf := n, snd_queuelen := q\<rparr>\<rparr>)) (\<lambda>(_, h). acked env a rs h)
      else Some h)"

lemma acked_closed: "\<not> cb_sent (htcp h) \<Longrightarrow> acked env a rs h = Some h"
  by (cases rs) auto

lemma acked_delivers:
  assumes "a \<in> L" and "\<forall>(n, q) \<in> set rs. 0 < n \<and> n < 65536"
    and "served env fd a L k h" and "k < length fd \<Longrightarrow> 0 < mss (htcp h) \<and> 2 * mss (htcp h) < 65536"
  shows "\<exists>h' m. acked env (Some a) rs h = Some h' \<and> k \<le> m \<and> served env fd a L m h' \<and>
     written (htcp h') = written (htcp h) @ take (m - k) (drop k fd) \<and>
     (accepts env \<and> length fd - k \<le> length rs \<longrightarrow> m = length fd)"
  using assms(2-)
proof (induction rs arbitrary: h k)
  case Nil
  then have "k \<le> length fd" by (simp add: served_def)
  with Nil show ?case by (intro exI [of _ h] exI [of _ k]) auto
next
  case (Cons r rs)
  obtain n q where r: "r = (n, q)" by (cases r)
  show ?case
  proof (cases "k < length fd")
    case False
    then have "k = length fd" "\<not> cb_sent (htcp h)" using Cons.prems(2) by (auto simp: served_def given_up_def)
    then show ?thesis using Cons.prems(2) acked_closed by (intro exI [of _ h] exI [of _ k]) simp
  next
    case True
    let ?h = "h\<lparr>htcp := (htcp h)\<lparr>snd_buf := n, snd_queuelen := q\<rparr>, hs := (hs h)\<lparr>hretries := 0\<rparr>\<rparr>"
    have c: "cb_sent (htcp h)" using True Cons.prems(2) by (simp add: served_def)
    have h: "served env fd a L k ?h" "sizes_fit (htcp ?h)" "0 < snd_buf (htcp ?h)" "0 < mss (htcp ?h)"
      using Cons.prems True r by (auto simp: served_def serving_def sizes_fit_def)
    obtain b h1 i where s: "http_send env (Some a) ?h = Some (b, h1)" "i \<le> length fd - k"
      "written (htcp h1) = written (htcp ?h) @ take i (drop k fd)" "served env fd a L (k + i) h1"
      "k + i < length fd \<longrightarrow> mss (htcp h1) = mss (htcp ?h)" "accepts env \<and> 0 < snd_buf (htcp ?h) \<and> 0 < mss (htcp ?h) \<longrightarrow> i = chunk ?h"
      using send_step [OF h(1) True assms(1) h(2)] by blast
    have a: "acked env (Some a) (r # rs) h = acked env (Some a) rs h1" using c r s(1) by (simp add: http_sent_def)
    have "k + i < length fd \<Longrightarrow> 0 < mss (htcp h1) \<and> 2 * mss (htcp h1) < 65536" using s(5) Cons.prems(3) True by simp
    with Cons.IH [OF _ s(4)] Cons.prems(1) obtain h2 m where
      h2: "acked env (Some a) rs h1 = Some h2" "k + i \<le> m" "served env fd a L m h2"
        "written (htcp h2) = written (htcp h1) @ take (m - (k + i)) (drop (k + i) fd)"
        "accepts env \<and> length fd - (k + i) \<le> length rs \<longrightarrow> m = length fd" by auto
    have "take (m - k) (drop k fd) = take i (drop k fd) @ take (m - (k + i)) (drop (k + i) fd)"
      using h2(2) take_add [of i "m - (k + i)" "drop k fd"] by (simp add: add.commute)
    then have w: "written (htcp h2) = written (htcp h) @ take (m - k) (drop k fd)" using h2(4) s(3) by simp
    have pos: "0 < i" if "accepts env" using s(6) h(3,4) that True h(1) by (auto simp: chunk_def served_def)
    then have "accepts env \<and> length fd - k \<le> length (r # rs) \<longrightarrow> m = length fd" using h2(5) True by fastforce
    with a h2 w show ?thesis by (intro exI [of _ h2] exI [of _ m]) simp
  qed
qed

lemma file_sent:
  assumes s: "served env fd a L 0 h" "fd \<noteq> []" and a: "a \<in> L"
    and t: "sizes_fit (htcp h)" "0 < snd_buf (htcp h)" "0 < mss (htcp h)"
    and rs: "\<forall>(n, q) \<in> set rs. 0 < n \<and> n < 65536"
  shows "\<exists>b h1 h2 m. http_send env (Some a) h = Some (b, h1) \<and> acked env (Some a) rs h1 = Some h2 \<and>
     written (htcp h2) = written (htcp h) @ take m fd \<and> served env fd a L m h2 \<and>
     (accepts env \<and> length fd \<le> length rs \<longrightarrow> m = length fd) \<and> npools (hnet h1) = npools (hnet h)"
proof -
  obtain b h1 i where h1: "http_send env (Some a) h = Some (b, h1)" "written (htcp h1) = written (htcp h) @ take i fd"
    "npools (hnet h1) = npools (hnet h)" "served env fd a L i h1" "i < length fd \<longrightarrow> mss (htcp h1) = mss (htcp h)"
    "accepts env \<longrightarrow> i = chunk h"
    using send_step [OF s(1) _ a t(1)] s(2) t by auto
  have "i < length fd \<Longrightarrow> 0 < mss (htcp h1) \<and> 2 * mss (htcp h1) < 65536" using h1(5) t by (simp add: sizes_fit_def)
  from acked_delivers [OF a rs h1(4) this] obtain h2 m where
    h2: "acked env (Some a) rs h1 = Some h2" "i \<le> m" "served env fd a L m h2"
      "written (htcp h2) = written (htcp h1) @ take (m - i) (drop i fd)" "accepts env \<and> length fd - i \<le> length rs \<longrightarrow> m = length fd" by auto
  have "take m fd = take i fd @ take (m - i) (drop i fd)" using h2(2) take_add [of i "m - i" fd] by simp
  then have "written (htcp h2) = written (htcp h) @ take m fd" using h1(2) h2(4) by simp
  with h1 h2 show ?thesis by (intro exI [of _ b] exI [of _ h1] exI [of _ h2] exI [of _ m]) auto
qed

end
