(* ===== verification/HttpClaims.thy ===== *)
theory HttpClaims
  imports HttpProps EchoProps
begin

text \<open>
  What the HTTP server promises its clients, from the segments of a request to the last
  acknowledged byte of the file.
\<close>

unbundle bit_operations_syntax

section \<open>Parsing\<close>

text \<open>The bytes the parser sees of a queue: all of a single buffer, at most 1023 of a chain.\<close>

definition visible :: "net \<Rightarrow> loc list \<Rightarrow> u8 list" where
  "visible n ps = (if length ps = 1 then content n ps else take LWIP_HTTPD_MAX_REQ_LENGTH (content n ps))"

text \<open>What \<open>http_parse_request\<close> does with what \<open>parse_line\<close> finds.\<close>

definition parsed :: "fsdata_file list \<Rightarrow> nat \<Rightarrow> nat \<Rightarrow> request_line \<Rightarrow> http \<Rightarrow> (err_t \<times> http) option" where
  "parsed files len bufs r h =
     (case r of
        Get uri is_09 \<Rightarrow> http_find_file files uri is_09 h
      | Unsupported \<Rightarrow> Some (ERR_ARG, h)
      | Incomplete \<Rightarrow> Some (if len \<le> LWIP_HTTPD_MAX_REQ_LENGTH \<and> bufs mod 256 \<le> LWIP_HTTPD_REQ_QUEUELEN
                           then ERR_INPROGRESS else ERR_ARG, h))"

lemma parse_enqueued:
  assumes c: "pchain (pb (hnet h)) (Some r) ps None" "lens_ok (pb (hnet h)) ps" "has_data (hnet h) ps"
    and h: "hs_req (hs h) = Some r" "length ps = 1 \<longrightarrow> r = p"
  shows "parse_queue files p h = parsed files (length (content (hnet h) ps)) (length ps) (parse_line (visible (hnet h) ps)) h"
proof -
  let ?n = "hnet h"
  obtain qs where ps: "ps = r # qs" using c(1) by (cases ps) auto
  have tot: "tot_len (pb ?n r) = length (content ?n ps)"
    using lens_tot [OF c(2)] length_content [OF c(3)] ps by simp
  have data: "(if pnext (pb ?n r) \<noteq> None
      then pbuf_copy_partial (Some r) (min (tot_len (pb ?n r)) LWIP_HTTPD_MAX_REQ_LENGTH) 0 ?n
      else peek (payload (pb ?n p)) 0 (plen (pb ?n p)) ?n) = Some (visible ?n ps)"
  proof (cases qs)
    case Nil
    then have "pnext (pb ?n r) = None" "r = p" "payload (pb ?n p) \<noteq> None" using c(1,3) h(2) ps by auto
    moreover have "peek (payload (pb ?n p)) (int 0) (plen (pb ?n p)) ?n = Some (take (plen (pb ?n p)) (drop 0 (buf_data ?n p)))"
      using calculation(3) by (intro peek_data) auto
    ultimately show ?thesis using Nil ps length_data [of ?n p] by (simp add: visible_def)
  next
    case (Cons q qs')
    then have "pnext (pb ?n r) \<noteq> None" using c(1) ps by auto
    moreover have "pbuf_copy_partial (Some r) (min (tot_len (pb ?n r)) LWIP_HTTPD_MAX_REQ_LENGTH) 0 ?n
        = Some (take (min (tot_len (pb ?n r)) LWIP_HTTPD_MAX_REQ_LENGTH) (content ?n ps))"
      using partial_loop_spec [OF c(1,3), of _ 0 "[]"] by (simp add: pbuf_copy_partial_def lwip_assert_def)
    ultimately show ?thesis using Cons ps tot by (simp add: visible_def min_def)
  qed
  have "pbuf_clen (Some r) ?n = Some (length ps mod 256)"
    using clen_loop_spec [OF c(1), of 0] by (simp add: pbuf_clen_def)
  then show ?thesis using h(1) data tot by (auto simp: parse_queue_def parsed_def split: request_line.split)
qed

text \<open>Claim C28: a request is parsed from what has arrived of it, however it is cut. When a further
  segment comes, the request is the buffers queued before followed by those of the segment;
  the answer is the one for their contents one after the other, up to 1023 bytes of it, and
  while it is incomplete the server waits as long as it is at most 1023 bytes in at most 5 buffers.\<close>

theorem split_request_parses:
  assumes "pchain (pb (hnet h)) (Some r) rs None" and "pchain (pb (hnet h)) (Some p) ps None"
    and "rs \<noteq> []" and "ps \<noteq> []" and "distinct (rs @ ps)"
    and "lens_ok (pb (hnet h)) rs" and "lens_ok (pb (hnet h)) ps" and "has_data (hnet h) (rs @ ps)"
    and "tot_len (pb (hnet h) r) + tot_len (pb (hnet h) p) < 65536"
    and "hs_req (hs h) = Some r" and "\<not> hhandle (hs h)" and "hfile (hs h) = None"
  shows "\<exists>n. pbuf_cat (Some r) (Some p) (hnet h) = Some n \<and> pchain (pb n) (Some r) (rs @ ps) None \<and>
     http_parse_request files p h = parsed files (length (content (hnet h) rs @ content (hnet h) ps)) (length (rs @ ps))
       (parse_line (take LWIP_HTTPD_MAX_REQ_LENGTH (content (hnet h) rs @ content (hnet h) ps))) (h\<lparr>hnet := n\<rparr>)"
proof -
  obtain n where n: "pbuf_cat (Some r) (Some p) (hnet h) = Some n" "pchain (pb n) (Some r) (rs @ ps) None"
    "lens_ok (pb n) (rs @ ps)" "content n (rs @ ps) = content (hnet h) rs @ content (hnet h) ps"
    "\<forall>q. payload (pb n q) = payload (pb (hnet h) q)"
    using cat_packets [OF assms(3,4,5,1,2,6,7,9)] by blast
  let ?h = "h\<lparr>hnet := n\<rparr>"
  have l: "length (rs @ ps) \<noteq> 1" using assms(3,4) by (cases rs; cases ps) auto
  have d: "has_data n (rs @ ps)" using assms(8) n(5) by (simp add: has_data_def)
  have "http_parse_request files p h = parsed files (length (content n (rs @ ps))) (length (rs @ ps))
      (parse_line (visible n (rs @ ps))) ?h"
    using parse_enqueued [of ?h r "rs @ ps" p files] n(2,3) d l assms(10-12) n(1)
    by (simp add: http_parse_request_def)
  then show ?thesis using n(1,2,4) l by (simp add: visible_def)
qed

text \<open>Claim C29: query parameters come out as they were written. A list of names, each with or
  without a value, joined with equals signs and ampersands is taken apart into the same
  list, of which the handler gets the first 16.\<close>

theorem query_parameters_roundtrip:
  assumes "\<forall>p \<in> set ps. plain_pair p" and "print_query ps \<noteq> []"
  shows "extract_uri_parameters (Some (print_query ps)) = take 16 ps"
proof -
  have "ps \<noteq> []" using assms(2) by auto
  then show ?thesis using extract_print [OF _ assms(1), of 16] assms(2) by (simp add: extract_uri_parameters_def)
qed

section \<open>A whole exchange\<close>

lemma parse_get:
  assumes "0 \<notin> set (uri @ xs)" and "32 \<notin> set uri" and "req = str ''GET '' @ uri @ 32 # xs @ CRLF @ CRLF @ ys"
  shows "parse_line req = Get uri False"
proof -
  have z: "0 \<notin> set (str ''GET '' @ uri @ 32 # xs)" using assms(1) by (simp add: str_def)
  have d: "req = (str ''GET '' @ uri @ 32 # xs) @ (CRLF @ CRLF) @ ys" "req = (str ''GET '' @ uri @ 32 # xs) @ CRLF @ (CRLF @ ys)"
    using assms(3) by simp_all
  have "strnstr req (CRLF @ CRLF) (length req) \<noteq> None"
    unfolding d(1) by (rule strnstr_hit) (use z in \<open>auto simp: CRLF_def\<close>)
  moreover have "strnstr req CRLF (length req) \<noteq> None"
    unfolding d(2) by (rule strnstr_hit) (use z in \<open>auto simp: CRLF_def\<close>)
  moreover have g: "length (str ''GET '') = 4" by (simp add: str_def)
  then have "take 4 req = str ''GET ''" "drop 4 req = uri @ 32 # (xs @ CRLF @ CRLF @ ys)" using assms(3) by simp_all
  moreover have "strnstr (uri @ 32 # (xs @ CRLF @ CRLF @ ys)) [32] (length req - 4) = Some (length uri)"
    using assms g by (intro strnstr_char) auto
  moreover have "MIN_REQ_LEN \<le> length req" using assms(3) g by (simp add: CRLF_def)
  ultimately show ?thesis by (simp add: parse_line_def)
qed

definition plain_uri :: "u8 list \<Rightarrow> bool" where
  "plain_uri uri = (uri \<noteq> str ''/'' \<and> 63 \<notin> set uri \<and> map_of cgis uri = None)"

lemma find_plain:
  assumes "plain_uri uri" and "fs_open files uri = Some f" and "http_header_included f"
  shows "http_find_file files uri False h = Some (ERR_OK, h\<lparr>hs := (hs h)\<lparr>file_handle := f, hhandle := True,
     hfile := Some 0, hleft := length (fdata f), hretries := 0\<rparr>\<rparr>)"
  using assms by (simp add: http_find_file_def plain_uri_def cut_at_none http_init_file_def lwip_assert_def Let_def)

lemma fs_open_index: "fs_open files uri = Some f \<Longrightarrow> findex f = length (fdata f)"
  by (induction files) (auto split: if_splits)

text \<open>Claim C3: a \<open>GET\<close> request gets its file, in order and once, over any TCP. On a fresh
  connection a segment with a request for a file of the file system is answered by that file: after
  any acknowledgements, whatever room each of them leaves in the send buffer and whatever \<open>tcp_write\<close> accepts or refuses,
  a first part of it has been written, exactly in order. While it is not complete, the connection is
  open and at its place in the file; when it is, the connection was asked to close: it is
  closed, or its poll callback is set to ask again because \<open>tcp_close\<close> failed; the other callbacks are
  cleared and the connection's state block is freed. If \<open>tcp_write\<close>
  never refuses what the send buffer has room for, it is complete after as many acknowledgements as it has bytes.
  The buffers of the request are back in the pool.\<close>

theorem get_request_served:
  assumes q: "queued sizes (hnet h) F (Some (Pool x)) (x # es)" "lens_ok (pb (hnet h)) (map Pool (x # es))"
    and req: "content (hnet h) (map Pool (x # es)) = str ''GET '' @ uri @ 32 # xs @ CRLF @ CRLF @ ys"
      "0 \<notin> set (uri @ xs)" "32 \<notin> set uri" "length (content (hnet h) (map Pool (x # es))) \<le> LWIP_HTTPD_MAX_REQ_LENGTH"
    and f: "plain_uri uri" "fs_open files uri = Some f" "http_header_included f" "fdata f \<noteq> []"
    and h: "hs h = no_state" "cb_sent (htcp h)" "0 < mss (htcp h)" "2 * mss (htcp h) < 65536"
      "0 < snd_buf (htcp h)" "snd_buf (htcp h) < 65536" "conn_state (htcp h) = Open"
    and heap: "heap_owned (nheap (hnet h)) L" "a \<in> L"
    and acks: "\<forall>(n, k) \<in> set rs. 0 < n \<and> n < 65536"
  shows "\<exists>h1 h2 m. http_recv env cfree files (Some a) (Some (Pool x)) ERR_OK h = Some (ERR_OK, h1) \<and>
     acked env (Some a) rs h1 = Some h2 \<and> m \<le> length (fdata f) \<and> written (htcp h2) = written (htcp h) @ take m (fdata f) \<and>
     (if m < length (fdata f)
      then cb_sent (htcp h2) \<and> conn_state (htcp h2) = Open \<and> hfile (hs h2) = Some m \<and>
        hleft (hs h2) = length (fdata f) - m \<and> heap_owned (nheap (hnet h2)) L
      else given_up a L h2 \<and> ((\<forall>t. close_result env t = ERR_OK) \<longrightarrow> conn_state (htcp h2) = Closed)) \<and>
     (accepts env \<and> length (fdata f) \<le> length rs \<longrightarrow> m = length (fdata f)) \<and>
     memp_ok sizes (npools (hnet h1)) (F(MEMP_PBUF_POOL := rev (x # es) @ F MEMP_PBUF_POOL))"
proof -
  let ?ps = "map Pool (x # es)" and ?n = "hnet h" and ?r = "Pool x"
  let ?h0 = "h\<lparr>htcp := conn_recved (tot_len (pb ?n ?r)) (htcp h), hs := (hs h)\<lparr>hs_req := Some ?r\<rparr>\<rparr>"
  let ?h1 = "?h0\<lparr>hs := (hs ?h0)\<lparr>file_handle := f, hhandle := True, hfile := Some 0, hleft := length (fdata f), hretries := 0\<rparr>\<rparr>"
  have c: "pchain (pb ?n) (Some ?r) ?ps None" "has_data ?n ?ps" using q(1) by (auto simp: queued_def)
  have "visible ?n ?ps = content ?n ?ps" using req(4) by (simp add: visible_def)
  then have "parse_line (visible ?n ?ps) = Get uri False" using parse_get [OF req(2,3,1)] by simp
  moreover have "http_parse_request files ?r (h\<lparr>htcp := conn_recved (tot_len (pb ?n ?r)) (htcp h)\<rparr>)
      = parsed files (length (content ?n ?ps)) (length ?ps) (parse_line (visible ?n ?ps)) ?h0"
    using parse_enqueued [of ?h0 ?r ?ps ?r files] c q(2) h(1) by (simp add: http_parse_request_def no_state_def)
  ultimately have p: "http_parse_request files ?r (h\<lparr>htcp := conn_recved (tot_len (pb ?n ?r)) (htcp h)\<rparr>) = Some (ERR_OK, ?h1)"
    using find_plain [OF f(1-3), of ?h0] by (simp add: parsed_def)
  obtain mp where mp: "pbuf_free cfree (Some ?r) ?n = Some ((0 + length (x # es)) mod 256,
      ?n\<lparr>pb := released ?n (x # es) None, npools := mp\<rparr>)"
    "memp_ok sizes mp (F(MEMP_PBUF_POOL := rev (x # es) @ F MEMP_PBUF_POOL))"
    using free_loop_spec [of sizes ?n F "x # es" "Some ?r" None 0 cfree] q(1)
    by (auto simp: queued_def stops_def pbuf_free_def lwip_assert_def)
  let ?m = "?n\<lparr>pb := released ?n (x # es) None, npools := mp\<rparr>"
  let ?h2 = "?h1\<lparr>hnet := ?m, hs := (hs ?h1)\<lparr>hs_req := None\<rparr>\<rparr>"
  have free: "free_req cfree ?h1 = Some ?h2" using mp(1) by (simp add: free_req_def)
  have "served env (fdata f) a L 0 ?h2"
    using f(4) h fs_open_index [OF f(2)] heap(1) by (simp add: served_def serving_def conn_recved_def)
  from file_sent [OF this f(4) heap(2) _ _ _ acks] h obtain b h3 h4 m where
    h3: "http_send env (Some a) ?h2 = Some (b, h3)" "acked env (Some a) rs h3 = Some h4"
    "written (htcp h4) = written (htcp ?h2) @ take m (fdata f)" "served env (fdata f) a L m h4"
    "accepts env \<and> length (fdata f) \<le> length rs \<longrightarrow> m = length (fdata f)" "npools (hnet h3) = npools (hnet ?h2)"
    by (auto simp: sizes_fit_def conn_recved_def)
  have "http_recv env cfree files (Some a) (Some ?r) ERR_OK h = Some (ERR_OK, h3)"
    using p free h3(1) h(1) by (simp add: http_recv_def no_state_def)
  moreover have "written (htcp h4) = written (htcp h) @ take m (fdata f)" using h3(3) by (simp add: conn_recved_def)
  moreover have "npools (hnet h3) = mp" using h3(6) by simp
  then have "memp_ok sizes (npools (hnet h3)) (F(MEMP_PBUF_POOL := rev (x # es) @ F MEMP_PBUF_POOL))"
    using mp(2) by (simp only:)
  moreover have "m \<le> length (fdata f)" "if m < length (fdata f)
      then cb_sent (htcp h4) \<and> conn_state (htcp h4) = Open \<and> hfile (hs h4) = Some m \<and>
        hleft (hs h4) = length (fdata f) - m \<and> heap_owned (nheap (hnet h4)) L
      else given_up a L h4 \<and> ((\<forall>t. close_result env t = ERR_OK) \<longrightarrow> conn_state (htcp h4) = Closed)"
    using h3(4) by (auto simp: served_def serving_def)
  ultimately show ?thesis using h3(2,5) by blast
qed

end
