(* ===== verification/Packets.thy ===== *)
theory Packets
  imports PbufProps
begin

text \<open>
  The contract of the packet buffers with their callers: what an allocation delivers, what
  a release gives back, and that reading, writing and joining work on the content of a
  packet whatever way it is cut into buffers.
\<close>

unbundle bit_operations_syntax

text \<open>Claim C21: an allocation from the pool either delivers a packet of exactly the length asked
  for, in as many buffers as that takes, each exclusively owned and with its data inside its
  own element, or, when the pool has too few elements, returns null with every element back in
  the pool. It never fails an assertion, and touches nothing else.\<close>

theorem pbuf_alloc_pool:
  assumes "memp_ok sizes (npools st) F" and "all_plain sizes (pb st)" and "len < 65536"
  shows "if nbufs_for layer len \<le> length (F MEMP_PBUF_POOL)
     then \<exists>f mp es. pbuf_alloc cfree layer len PBUF_POOL st = Some (Some (Pool (hd es)), st\<lparr>pb := f, npools := mp\<rparr>) \<and>
        es = take (nbufs_for layer len) (F MEMP_PBUF_POOL) \<and> packet (st\<lparr>pb := f, npools := mp\<rparr>) es len \<and>
        memp_ok sizes mp (F(MEMP_PBUF_POOL := drop (nbufs_for layer len) (F MEMP_PBUF_POOL))) \<and>
        (\<forall>l. l \<notin> Pool ` set es \<longrightarrow> f l = pb st l)
     else \<exists>f mp F'. pbuf_alloc cfree layer len PBUF_POOL st = Some (None, st\<lparr>pb := f, npools := mp\<rparr>) \<and>
        memp_ok sizes mp F' \<and> set (F' MEMP_PBUF_POOL) = set (F MEMP_PBUF_POOL) \<and> all_plain sizes f"
proof (cases "nbufs_for layer len \<le> length (F MEMP_PBUF_POOL)")
  case True
  moreover have "hd (take (nbufs_for layer len) (F MEMP_PBUF_POOL)) = hd (F MEMP_PBUF_POOL)"
    by (simp add: nbufs_for_def)
  ultimately show ?thesis using pbuf_alloc_enough [OF assms True, where cfree = cfree] by metis
next
  case False
  then show ?thesis using pbuf_alloc_too_few [OF assms, where layer = layer and cfree = cfree] by (metis not_le)
qed

text \<open>Claim C22: a release gives back exactly the buffers nobody else refers to. The buffers from
  the head up to the first with more than one reference return to the pool, that one only
  loses a reference, and nothing after it changes; the result is the number of buffers given back.\<close>

theorem pbuf_free_releases:
  assumes "memp_ok sizes (npools st) F" and "es \<noteq> []" and "distinct es" and "set es \<subseteq> set (elems sizes MEMP_PBUF_POOL)"
    and "set es \<inter> set (F MEMP_PBUF_POOL) = {}" and "pchain (pb st) (Some p) (map Pool es) e"
    and "\<forall>x \<in> set es. pool_buf st x" and "stops st e" and "e \<notin> Some ` Pool ` set es"
  shows "\<exists>mp. pbuf_free cfree (Some p) st = Some (length es mod 256, st\<lparr>pb := released st es e, npools := mp\<rparr>) \<and>
     memp_ok sizes mp (F(MEMP_PBUF_POOL := rev es @ F MEMP_PBUF_POOL))"
  using free_loop_spec [OF assms(1,3-9), of 0 cfree] by (simp add: pbuf_free_def lwip_assert_def)

text \<open>\<open>pbuf_cat\<close> concatenates. Joining two packets whose lengths fit 16 bits gives one
  well-formed packet: the second is linked behind the first, every \<open>tot_len\<close> is again the
  sum of the lengths from there on, and the content is one content after the other.\<close>

theorem pbuf_cat_joins:
  assumes "hs \<noteq> []" and "ts \<noteq> []" and "distinct (hs @ ts)"
    and "pchain (pb st) (Some h) hs None" and "pchain (pb st) (Some t) ts None"
    and "lens_ok (pb st) hs" and "lens_ok (pb st) ts" and "tot_len (pb st h) + tot_len (pb st t) < 65536"
  shows "\<exists>st'. pbuf_cat (Some h) (Some t) st = Some st' \<and> pchain (pb st') (Some h) (hs @ ts) None \<and>
     lens_ok (pb st') (hs @ ts) \<and> content st' (hs @ ts) = content st hs @ content st ts \<and>
     bytes st' = bytes st \<and> npools st' = npools st \<and> nheap st' = nheap st"
  using cat_packets [OF assms] by blast

text \<open>The readers see the content, however it is cut. \<open>pbuf_copy_partial\<close> copies the
  bytes of the packet from an offset, as many as asked for and there are, and \<open>pbuf_get_at\<close>
  returns the byte at an offset, 0 behind the end.\<close>

theorem pbuf_readers:
  assumes "pchain (pb st) (Some p) ps None" and "has_data st ps"
  shows "pbuf_copy_partial (Some p) len off st = Some (take len (drop off (content st ps))) \<and>
     pbuf_get_at (Some p) off st = Some (if off < length (content st ps) then content st ps ! off else 0)"
proof -
  have "pbuf_copy_partial (Some p) len off st = Some (take len (drop off (content st ps)))"
    using partial_loop_spec [OF assms, of len off "[]"] by (simp add: pbuf_copy_partial_def lwip_assert_def)
  moreover have "pbuf_get_at (Some p) off st = Some (if off < length (content st ps) then content st ps ! off else 0)"
  proof (cases "off < length (content st ps)")
    case True
    then obtain q i where q: "seek_loop (Some p) off st = Some (Some q, i)" "i < plen (pb st q)"
      "payload (pb st q) \<noteq> None" "buf_data st q ! i = content st ps ! off"
      using seek_loop_spec [OF assms, of off] by blast
    have "peek (payload (pb st q)) (int i) 1 st = Some (take 1 (drop i (buf_data st q)))"
      using q(2,3) by (intro peek_data) auto
    moreover have "take 1 (drop i (buf_data st q)) = [buf_data st q ! i]"
      using q(2,3) by (simp add: length_data take_Suc hd_drop_conv_nth)
    ultimately show ?thesis using q True by (simp add: pbuf_get_at_def)
  next
    case False
    then show ?thesis using seek_loop_spec [OF assms, of off] by (auto simp: pbuf_get_at_def)
  qed
  ultimately show ?thesis by blast
qed

text \<open>What \<open>pbuf_take\<close> writes, \<open>pbuf_copy_partial\<close> reads back. Application data that fits
  the packet is laid over its buffers from the start, the rest of the packet keeps its
  content, and no byte outside the packet changes.\<close>

theorem pbuf_take_reads_back:
  assumes "pchain (pb st) (Some p) ps None" and "has_data st ps" and "apart st ps" and "lens_ok (pb st) ps"
    and "length xs \<le> tot_len (pb st p)"
  shows "\<exists>bs. pbuf_take (Some p) xs st = Some (ERR_OK, st\<lparr>bytes := bs\<rparr>) \<and>
     pbuf_copy_partial (Some p) (length xs) 0 (st\<lparr>bytes := bs\<rparr>) = Some xs \<and>
     content (st\<lparr>bytes := bs\<rparr>) ps = xs @ drop (length xs) (content st ps) \<and>
     (\<forall>b k. (\<forall>q \<in> set ps. (b, k) \<notin> cells st q) \<longrightarrow> bs b k = bytes st b k)"
proof -
  have "ps \<noteq> []" "hd ps = p" using assms(1) by (cases ps; simp)+
  then have "length xs \<le> length (content st ps)"
    using assms(5) lens_tot [OF assms(4)] length_content [OF assms(2)] by simp
  then obtain bs where t: "take_loop (Some p) xs st = Some (st\<lparr>bytes := bs\<rparr>)"
    "content (st\<lparr>bytes := bs\<rparr>) ps = xs @ drop (length xs) (content st ps)"
    "\<forall>b k. (\<forall>q \<in> set ps. (b, k) \<notin> cells st q) \<longrightarrow> bs b k = bytes st b k"
    using take_loop_spec [OF assms(1-3)] by blast
  have "pbuf_copy_partial (Some p) (length xs) 0 (st\<lparr>bytes := bs\<rparr>) = Some xs"
    using partial_loop_spec [of "st\<lparr>bytes := bs\<rparr>" "Some p" ps "length xs" 0 "[]"] assms(1,2) t(2)
    by (simp add: pbuf_copy_partial_def lwip_assert_def has_data_def)
  with t assms(5) show ?thesis by (auto simp: pbuf_take_def)
qed

section \<open>Instances\<close>

text \<open>The pools after \<open>memp_init\<close>, and three buffers in read-only memory.\<close>

definition ex_buf :: "loc option \<Rightarrow> dptr \<Rightarrow> nat \<Rightarrow> nat \<Rightarrow> pbuf_type \<Rightarrow> pbuf" where
  "ex_buf n d tot len t = \<lparr>pnext = n, payload = d, tot_len = tot, plen = len, ptype = t, pflags = 0, pref = 1\<rparr>"

definition ex_net :: "heap \<Rightarrow> net" where
  "ex_net h = \<lparr>nheap = h, npools = memp_init (\<lambda>_. 616) \<lparr>memp_tab = (\<lambda>_. None), mp_next = (\<lambda>_. None)\<rparr>,
     pb = (\<lambda>l. case l of
        Rom (Suc (Suc 0)) \<Rightarrow> ex_buf (Some (Rom 3)) (Some (Rom 2, 0)) 5 2 PBUF_REF
      | Rom (Suc (Suc (Suc 0))) \<Rightarrow> ex_buf None (Some (Rom 3, 0)) 3 3 PBUF_REF
      | Rom _ \<Rightarrow> ex_buf None (Some (Rom 4, 0)) 4 4 PBUF_REF
      | _ \<Rightarrow> ex_buf None None 0 0 PBUF_POOL),
     bytes = (\<lambda>_ k. word_of_int k), pcr_original = (\<lambda>_. None)\<rparr>"

lemma ex_net_ok:
  "memp_ok (\<lambda>_. 616) (npools (ex_net h)) (\<lambda>t. rev (elems (\<lambda>_. 616) t))" "all_plain (\<lambda>_. 616) (pb (ex_net h))"
  by (auto simp: ex_net_def all_plain_def ex_buf_def sizes_ok_def intro: memp_init_ok)

lemma ex_net_bufs [simp]:
  "pb (ex_net h) (Rom 2) = ex_buf (Some (Rom 3)) (Some (Rom 2, 0)) 5 2 PBUF_REF"
  "pb (ex_net h) (Rom 3) = ex_buf None (Some (Rom 3, 0)) 3 3 PBUF_REF"
  "pb (ex_net h) (Rom 4) = ex_buf None (Some (Rom 4, 0)) 4 4 PBUF_REF"
  "pb (ex_net h) (Pool e) = ex_buf None None 0 0 PBUF_POOL"
  "bytes (ex_net h) b k = word_of_int k"
  by (simp_all add: ex_net_def eval_nat_numeral)

lemma ex_buf_sel [simp]:
  "pnext (ex_buf n d tot len t) = n" "payload (ex_buf n d tot len t) = d" "tot_len (ex_buf n d tot len t) = tot"
  "plen (ex_buf n d tot len t) = len" "ptype (ex_buf n d tot len t) = t" "pref (ex_buf n d tot len t) = 1"
  "pflags (ex_buf n d tot len t) = 0"
  by (simp_all add: ex_buf_def)

theorem pbuf_alloc_pool_witness:
  "\<forall>h. \<exists>e f mp es. pbuf_alloc (\<lambda>_. Some) PBUF_RAW 1500 PBUF_POOL (ex_net h)
      = Some (Some (Pool e), ex_net h\<lparr>pb := f, npools := mp\<rparr>) \<and>
    length es = 3 \<and> packet (ex_net h\<lparr>pb := f, npools := mp\<rparr>) es 1500"
proof
  fix h
  have n: "nbufs_for PBUF_RAW 1500 = 3" by (simp add: nbufs_for_def nbufs_def align4_def)
  let ?es = "rev (elems (\<lambda>_. 616) MEMP_PBUF_POOL)"
  have l: "length ?es = 10" by (simp add: elems_def)
  have "nbufs_for PBUF_RAW 1500 \<le> length ?es" using n l by simp
  with pbuf_alloc_pool [OF ex_net_ok(1) [of h] ex_net_ok(2) [of h], where len = 1500 and layer = PBUF_RAW and cfree = "\<lambda>_. Some"]
  obtain f mp where "pbuf_alloc (\<lambda>_. Some) PBUF_RAW 1500 PBUF_POOL (ex_net h)
      = Some (Some (Pool (hd (take 3 ?es))), ex_net h\<lparr>pb := f, npools := mp\<rparr>)"
    "packet (ex_net h\<lparr>pb := f, npools := mp\<rparr>) (take 3 ?es) 1500"
    unfolding n by auto
  moreover have "length (take 3 ?es) = 3" using l by simp
  ultimately show "\<exists>e f mp es. pbuf_alloc (\<lambda>_. Some) PBUF_RAW 1500 PBUF_POOL (ex_net h)
      = Some (Some (Pool e), ex_net h\<lparr>pb := f, npools := mp\<rparr>) \<and>
    length es = 3 \<and> packet (ex_net h\<lparr>pb := f, npools := mp\<rparr>) es 1500" by blast
qed

theorem pbuf_free_releases_witness:
  "\<exists>e. \<forall>h. \<exists>mp mp'. memp_malloc MEMP_PBUF_POOL (npools (ex_net h)) = Some (Some e, mp) \<and>
     pbuf_free (\<lambda>_. Some) (Some (Pool e)) (ex_net h\<lparr>npools := mp\<rparr>)
       = Some (1, ex_net h\<lparr>pb := released (ex_net h\<lparr>npools := mp\<rparr>) [e] None, npools := mp'\<rparr>)"
proof -
  let ?F = "\<lambda>t. rev (elems (\<lambda>_. 616) t)"
  obtain e es where F: "?F MEMP_PBUF_POOL = e # es" by (cases "?F MEMP_PBUF_POOL") (simp_all add: elems_def)
  have "\<exists>mp mp'. memp_malloc MEMP_PBUF_POOL (npools (ex_net h)) = Some (Some e, mp) \<and>
     pbuf_free (\<lambda>_. Some) (Some (Pool e)) (ex_net h\<lparr>npools := mp\<rparr>)
       = Some (1, ex_net h\<lparr>pb := released (ex_net h\<lparr>npools := mp\<rparr>) [e] None, npools := mp'\<rparr>)" for h
  proof -
    obtain mp where m: "memp_malloc MEMP_PBUF_POOL (npools (ex_net h)) = Some (Some e, mp)"
      "memp_ok (\<lambda>_. 616) mp (?F(MEMP_PBUF_POOL := es))"
      using memp_malloc_spec [OF ex_net_ok(1), of MEMP_PBUF_POOL h] F by blast
    have "e \<in> set (?F MEMP_PBUF_POOL)" "e \<notin> set es"
      using F ex_net_ok(1) [of h] by (simp, metis distinct.simps(2) memp_ok_def)
    then have "\<exists>mp'. pbuf_free (\<lambda>_. Some) (Some (Pool e)) (ex_net h\<lparr>npools := mp\<rparr>)
       = Some (length [e] mod 256, ex_net h\<lparr>npools := mp, pb := released (ex_net h\<lparr>npools := mp\<rparr>) [e] None, npools := mp'\<rparr>) \<and>
        memp_ok (\<lambda>_. 616) mp' (?F(MEMP_PBUF_POOL := es, MEMP_PBUF_POOL := rev [e] @ (?F(MEMP_PBUF_POOL := es)) MEMP_PBUF_POOL))"
      using m(2) by (intro pbuf_free_releases) (auto simp: pool_buf_def stops_def)
    with m(1) show ?thesis by auto
  qed
  then show ?thesis by blast
qed

theorem pbuf_cat_joins_witness:
  "\<forall>h. \<exists>st'. pbuf_cat (Some (Rom 2)) (Some (Rom 4)) (ex_net h) = Some st' \<and>
     pchain (pb st') (Some (Rom 2)) [Rom 2, Rom 3, Rom 4] None \<and> lens_ok (pb st') [Rom 2, Rom 3, Rom 4]"
proof
  fix h
  have "\<exists>st'. pbuf_cat (Some (Rom 2)) (Some (Rom 4)) (ex_net h) = Some st' \<and>
     pchain (pb st') (Some (Rom 2)) ([Rom 2, Rom 3] @ [Rom 4]) None \<and> lens_ok (pb st') ([Rom 2, Rom 3] @ [Rom 4]) \<and>
     content st' ([Rom 2, Rom 3] @ [Rom 4]) = content (ex_net h) [Rom 2, Rom 3] @ content (ex_net h) [Rom 4] \<and>
     bytes st' = bytes (ex_net h) \<and> npools st' = npools (ex_net h) \<and> nheap st' = nheap (ex_net h)"
    by (rule pbuf_cat_joins) auto
  then show "\<exists>st'. pbuf_cat (Some (Rom 2)) (Some (Rom 4)) (ex_net h) = Some st' \<and>
     pchain (pb st') (Some (Rom 2)) [Rom 2, Rom 3, Rom 4] None \<and> lens_ok (pb st') [Rom 2, Rom 3, Rom 4]" by auto
qed

theorem pbuf_readers_witness:
  "\<forall>h. pbuf_copy_partial (Some (Rom 2)) 3 1 (ex_net h) = Some [1, 0, 1] \<and> pbuf_get_at (Some (Rom 2)) 4 (ex_net h) = Some 2"
proof
  fix h
  have "content (ex_net h) [Rom 2, Rom 3] = [0, 1, 0, 1, 2]" by (simp add: buf_data_def upt_rec)
  moreover have "pchain (pb (ex_net h)) (Some (Rom 2)) [Rom 2, Rom 3] None" "has_data (ex_net h) [Rom 2, Rom 3]" by simp_all
  ultimately show "pbuf_copy_partial (Some (Rom 2)) 3 1 (ex_net h) = Some [1, 0, 1] \<and>
      pbuf_get_at (Some (Rom 2)) 4 (ex_net h) = Some 2"
    using pbuf_readers [of "ex_net h" "Rom 2" "[Rom 2, Rom 3]" 3 1] pbuf_readers [of "ex_net h" "Rom 2" "[Rom 2, Rom 3]" 3 4]
    by simp
qed

theorem pbuf_take_reads_back_witness:
  "\<forall>h. \<exists>bs. pbuf_take (Some (Rom 2)) [7, 8, 9] (ex_net h) = Some (ERR_OK, ex_net h\<lparr>bytes := bs\<rparr>) \<and>
     pbuf_copy_partial (Some (Rom 2)) 3 0 (ex_net h\<lparr>bytes := bs\<rparr>) = Some [7, 8, 9]"
proof
  fix h
  have "pchain (pb (ex_net h)) (Some (Rom 2)) [Rom 2, Rom 3] None" "has_data (ex_net h) [Rom 2, Rom 3]"
    "lens_ok (pb (ex_net h)) [Rom 2, Rom 3]" by simp_all
  moreover have "apart (ex_net h) [Rom 2, Rom 3]" by (auto simp: cells_def)
  moreover have "length [7, 8, 9 :: u8] \<le> tot_len (pb (ex_net h) (Rom 2))" by simp
  ultimately obtain bs where "pbuf_take (Some (Rom 2)) [7, 8, 9] (ex_net h) = Some (ERR_OK, ex_net h\<lparr>bytes := bs\<rparr>)"
    "pbuf_copy_partial (Some (Rom 2)) (length [7, 8, 9 :: u8]) 0 (ex_net h\<lparr>bytes := bs\<rparr>) = Some [7, 8, 9]"
    using pbuf_take_reads_back [of "ex_net h" "Rom 2" "[Rom 2, Rom 3]" "[7, 8, 9]"] by blast
  moreover have "length [7, 8, 9 :: u8] = 3" by simp
  ultimately show "\<exists>bs. pbuf_take (Some (Rom 2)) [7, 8, 9] (ex_net h) = Some (ERR_OK, ex_net h\<lparr>bytes := bs\<rparr>) \<and>
     pbuf_copy_partial (Some (Rom 2)) 3 0 (ex_net h\<lparr>bytes := bs\<rparr>) = Some [7, 8, 9]"
    by (simp only:) blast
qed

end
