(* ===== verification/ServerWitnesses.thy ===== *)
theory ServerWitnesses
  imports EchoProps HttpClaims Packets Witnesses
begin

text \<open>
  The properties of the two servers at concrete connections, the dock first.
\<close>

section \<open>The dock\<close>

text \<open>A docked connection with one message of 162 zero bytes in a pool buffer, and the dock's properties on it.\<close>

definition ok_env :: tcp_env where
  "ok_env = \<lparr>write_result = (\<lambda>n t. if n \<le> snd_buf t then ERR_OK else ERR_MEM),
     write_queue = (\<lambda>n t. snd_queuelen t + 1), close_result = (\<lambda>_. ERR_OK)\<rparr>"

definition ex_tcp :: tcp where
  "ex_tcp = \<lparr>cb_arg = Some 8, cb_recv = True, cb_sent = False, cb_err = True, cb_poll = Some 0, prio = 1,
     snd_buf = 2920, snd_queuelen = 0, mss = 1460, written = [], recved = 0, flushed = 0, conn_state = Open\<rparr>"

definition ex_e :: nat where
  "ex_e = hd (rev (elems (\<lambda>_. 616) MEMP_PBUF_POOL))"

definition ex_dock :: "echo_states \<Rightarrow> dock" where
  "ex_dock s = \<lparr>dk = ex_kernel,
     dnet = \<lparr>nheap = ex_heap, npools = snd (the (memp_malloc MEMP_PBUF_POOL (npools (ex_net ex_heap)))),
       pb = (\<lambda>_. \<lparr>pnext = None, payload = Some (Pool ex_e, 70), tot_len = 162, plen = 162,
                  ptype = PBUF_POOL, pflags = 0, pref = 1\<rparr>), bytes = (\<lambda>_ _. 0), pcr_original = (\<lambda>_. None)\<rparr>,
     dtcp = ex_tcp, des = \<lparr>es_state = s, es_retries = 0, es_p = None\<rparr>\<rparr>"

lemma ok_env_accepts: "accepts ok_env"
  by (simp add: accepts_def ok_env_def)

lemma ex_dock_queued:
  "\<exists>es. queued (\<lambda>_. 616) (dnet (ex_dock s)) ((\<lambda>t. rev (elems (\<lambda>_. 616) t))(MEMP_PBUF_POOL := es)) (Some (Pool ex_e)) [ex_e]"
proof -
  let ?F = "\<lambda>t. rev (elems (\<lambda>_. 616) t)"
  obtain e es where F: "?F MEMP_PBUF_POOL = e # es" by (cases "?F MEMP_PBUF_POOL") (simp_all add: elems_def)
  then have e: "ex_e = e" by (simp add: ex_e_def)
  obtain mp where m: "memp_malloc MEMP_PBUF_POOL (npools (ex_net ex_heap)) = Some (Some e, mp)"
    "memp_ok (\<lambda>_. 616) mp (?F(MEMP_PBUF_POOL := es))"
    using memp_malloc_spec [OF ex_net_ok(1), of MEMP_PBUF_POOL ex_heap] F by blast
  have "e \<in> set (?F MEMP_PBUF_POOL)" "e \<notin> set es"
    using F ex_net_ok(1) [of ex_heap] by (simp, metis distinct.simps(2) memp_ok_def)
  with m show ?thesis
    by (intro exI [of _ es]) (simp add: queued_def ex_dock_def e pool_buf_def)
qed

lemma ex_gate_ready: "gate_ready ex_kernel"
proof -
  have "status_shape (gstatus ex_g)"
    using initStatus_inv [of status_bss] by (auto simp: ex_g_def status_shape_def status_bss_def status_inv_def)
  then show ?thesis by (simp add: gate_ready_def ex_kernel_def status_shape_def)
qed

lemma ex_dock_sel:
  "es_p (des (ex_dock s)) = None" "es_state (des (ex_dock s)) = s" "plen (pb (dnet (ex_dock s)) p) = 162"
  "snd_buf (dtcp (ex_dock s)) = 2920" "written (dtcp (ex_dock s)) = []" "dk (ex_dock s) = ex_kernel"
  "inside (pb (dnet (ex_dock s))) ex_e"
  by (simp_all add: ex_dock_def ex_tcp_def inside_def)

theorem message_through_gate_witness:
  "\<exists>d'. echo_recv ok_env (\<lambda>_. Some) (Some 8) (Some (Pool ex_e)) ERR_OK (ex_dock ES_RECEIVED) = Some (ERR_OK, d') \<and>
     es_p (des d') = None"
proof -
  obtain es where q: "queued (\<lambda>_. 616) (dnet (ex_dock ES_RECEIVED))
      ((\<lambda>t. rev (elems (\<lambda>_. 616) t))(MEMP_PBUF_POOL := es)) (Some (Pool ex_e)) [ex_e]" using ex_dock_queued by blast
  obtain m k' where "ethergate (decode (take 162 (content (dnet (ex_dock ES_RECEIVED)) (map Pool [ex_e])))) (dk (ex_dock ES_RECEIVED)) = (m, k')"
    by fastforce
  from message_through_gate [OF q _ _ _ _ _ refl this, of ok_env "\<lambda>_. Some" 8 "[]"] ok_env_accepts show ?thesis
    by (auto simp: ex_dock_sel ex_gate_ready Let_def)
qed

theorem first_message_skips_gate_witness:
  "\<exists>d'. echo_recv ok_env (\<lambda>_. Some) (Some 8) (Some (Pool ex_e)) ERR_OK (ex_dock ES_ACCEPTED) = Some (ERR_OK, d') \<and>
     dk d' = ex_kernel"
proof -
  obtain es where q: "queued (\<lambda>_. 616) (dnet (ex_dock ES_ACCEPTED))
      ((\<lambda>t. rev (elems (\<lambda>_. 616) t))(MEMP_PBUF_POOL := es)) (Some (Pool ex_e)) [ex_e]" using ex_dock_queued by blast
  from first_message_skips_gate [OF q _ ok_env_accepts, of "\<lambda>_. Some" 8] show ?thesis by (auto simp: ex_dock_sel ex_gate_ready)
qed

theorem dock_cycle_leaves_heap_witness:
  "\<exists>d1 es d2. echo_accept (ex_dock ES_NONE) = Some (ERR_OK, d1) \<and>
     echo_recv ok_env (\<lambda>_. Some) (Some es) None ERR_OK d1 = Some (ERR_OK, d2) \<and> heap_ok (nheap (dnet d2)) [(6144, False)]"
proof -
  have h: "heap_ok (nheap (dnet (ex_dock ES_NONE))) [(6144, False)]" using ex_heap_ok by (simp add: ex_dock_def)
  obtain es hp where "mem_malloc 12 ex_heap = Some (Some es, hp)"
    using mem_malloc_refines_aux [OF ex_heap_ok, of 12] by (auto simp: request_def align_size_def trunc16_def)
  then obtain d1 where "echo_accept (ex_dock ES_NONE) = Some (ERR_OK, d1)"
    by (simp add: echo_accept_def ex_dock_def Let_def)
  with dock_cycle_leaves_heap [OF h this, of ok_env "\<lambda>_. Some" ERR_OK] show ?thesis by blast
qed

section \<open>The web server\<close>

text \<open>A request for a file of three bytes, a request in two segments, and a query string.\<close>

definition ex_request :: "u8 list" where
  "ex_request = str ''GET '' @ str ''/a'' @ 32 # str ''HTTP/1.0'' @ CRLF @ CRLF @ []"

definition ex_http :: http where
  "ex_http = \<lparr>hnet = (dnet (ex_dock ES_NONE))
       \<lparr>pb := (\<lambda>_. \<lparr>pnext = None, payload = Some (Pool ex_e, 70), tot_len = length ex_request,
                   plen = length ex_request, ptype = PBUF_POOL, pflags = 0, pref = 1\<rparr>),
        bytes := (\<lambda>_ k. ex_request ! nat (k - 70)), nheap := snd (the (mem_malloc 100 ex_heap))\<rparr>,
     htcp = ex_tcp\<lparr>cb_sent := True\<rparr>, hs = no_state, board = \<lparr>g_ButtonPress = False, red_led = False\<rparr>\<rparr>"

definition ex_files :: "fsdata_file list" where
  "ex_files = [\<lparr>f_name = str ''/a'', f_data = [1, 2, 3], f_header = True\<rparr>]"

lemma ex_http_queued:
  "\<exists>es. queued (\<lambda>_. 616) (hnet ex_http) ((\<lambda>t. rev (elems (\<lambda>_. 616) t))(MEMP_PBUF_POOL := es)) (Some (Pool ex_e)) [ex_e]"
  using ex_dock_queued [of ES_NONE] by (auto simp: queued_def ex_http_def pool_buf_def ex_dock_def)

lemma ex_http_owned: "heap_owned (nheap (hnet ex_http)) {8}"
proof -
  obtain h where h: "mem_malloc 100 ex_heap = Some (Some 8, h)" "heap_ok h [(108, True), (6036, False)]"
    using ex_malloc_100 by blast
  then have "nheap (hnet ex_http) = h" by (simp add: ex_http_def)
  moreover have "payloads 0 [(108, True), (6036, False)] = {8}" by simp
  ultimately show ?thesis using h(2) unfolding heap_owned_def by metis
qed

theorem get_request_served_witness:
  "\<exists>h1 h2. http_recv ok_env (\<lambda>_. Some) ex_files (Some 8) (Some (Pool ex_e)) ERR_OK ex_http = Some (ERR_OK, h1) \<and>
     acked ok_env (Some 8) [(2920, 0), (2920, 0), (2920, 0)] h1 = Some h2 \<and> written (htcp h2) = [1, 2, 3] \<and>
     conn_state (htcp h2) = Closed"
proof -
  obtain es where q: "queued (\<lambda>_. 616) (hnet ex_http)
      ((\<lambda>t. rev (elems (\<lambda>_. 616) t))(MEMP_PBUF_POOL := es)) (Some (Pool ex_e)) [ex_e]" using ex_http_queued by blast
  have c: "content (hnet ex_http) (map Pool [ex_e]) = ex_request"
    by (simp add: buf_data_def ex_http_def map_nth)
  have t: "hs ex_http = no_state" "cb_sent (htcp ex_http)" "mss (htcp ex_http) = 1460" "snd_buf (htcp ex_http) = 2920"
    "written (htcp ex_http) = []" "conn_state (htcp ex_http) = Open" by (simp_all add: ex_http_def ex_tcp_def)
  have f: "fs_open ex_files (str ''/a'') = Some \<lparr>fdata = [1, 2, 3], findex = 3, http_header_included = True\<rparr>"
    by (simp add: ex_files_def)
  have u: "plain_uri (str ''/a'')" by (simp add: plain_uri_def str_def cgis_def)
  have l: "lens_ok (pb (hnet ex_http)) (map Pool [ex_e])" by (simp add: ex_http_def)
  have z: "0 \<notin> set (str ''/a'' @ str ''HTTP/1.0'')" "32 \<notin> set (str ''/a'')" "length ex_request = 19"
    by (simp_all add: str_def ex_request_def CRLF_def)
  let ?f = "\<lparr>fdata = [1, 2, 3], findex = 3, http_header_included = True\<rparr>"
  have "\<exists>h1 h2 m. http_recv ok_env (\<lambda>_. Some) ex_files (Some 8) (Some (Pool ex_e)) ERR_OK ex_http = Some (ERR_OK, h1) \<and>
     acked ok_env (Some 8) [(2920, 0), (2920, 0), (2920, 0)] h1 = Some h2 \<and> m \<le> length (fdata ?f) \<and>
     written (htcp h2) = written (htcp ex_http) @ take m (fdata ?f) \<and>
     (if m < length (fdata ?f)
      then cb_sent (htcp h2) \<and> conn_state (htcp h2) = Open \<and> hfile (hs h2) = Some m \<and>
        hleft (hs h2) = length (fdata ?f) - m \<and> heap_owned (nheap (hnet h2)) {8}
      else given_up 8 {8} h2 \<and> ((\<forall>t. close_result ok_env t = ERR_OK) \<longrightarrow> conn_state (htcp h2) = Closed)) \<and>
     (accepts ok_env \<and> length (fdata ?f) \<le> length [(2920, 0), (2920, 0), (2920 :: nat, 0 :: nat)] \<longrightarrow> m = length (fdata ?f)) \<and>
     memp_ok (\<lambda>_. 616) (npools (hnet h1))
       ((\<lambda>t. rev (elems (\<lambda>_. 616) t))(MEMP_PBUF_POOL := es, MEMP_PBUF_POOL := rev [ex_e] @
          ((\<lambda>t. rev (elems (\<lambda>_. 616) t))(MEMP_PBUF_POOL := es)) MEMP_PBUF_POOL))"
    by (rule get_request_served [OF q l c [unfolded ex_request_def] z(1,2) _ u f])
      (use t z(3) ex_http_owned c in simp_all)
  moreover have "\<forall>t. close_result ok_env t = ERR_OK" by (simp add: ok_env_def)
  ultimately show ?thesis using t ok_env_accepts by auto
qed

theorem split_request_parses_witness:
  "\<exists>h h'. hs_req (hs h) = Some (Rom 2) \<and> http_parse_request ex_files (Rom 4) h = Some (ERR_INPROGRESS, h')"
proof -
  let ?h = "ex_http\<lparr>hnet := ex_net ex_heap, hs := no_state\<lparr>hs_req := Some (Rom 2)\<rparr>\<rparr>"
  have c: "content (ex_net ex_heap) [Rom 2, Rom 3] = [0, 1, 0, 1, 2]" "content (ex_net ex_heap) [Rom 4] = [0, 1, 2, 3]"
    by (simp_all add: buf_data_def upt_rec)
  have "\<exists>n. pbuf_cat (Some (Rom 2)) (Some (Rom 4)) (hnet ?h) = Some n \<and> pchain (pb n) (Some (Rom 2)) ([Rom 2, Rom 3] @ [Rom 4]) None \<and>
     http_parse_request ex_files (Rom 4) ?h = parsed ex_files (length (content (hnet ?h) [Rom 2, Rom 3] @ content (hnet ?h) [Rom 4]))
       (length ([Rom 2, Rom 3] @ [Rom 4]))
       (parse_line (take LWIP_HTTPD_MAX_REQ_LENGTH (content (hnet ?h) [Rom 2, Rom 3] @ content (hnet ?h) [Rom 4]))) (?h\<lparr>hnet := n\<rparr>)"
    by (rule split_request_parses) (simp_all add: no_state_def)
  moreover have "parse_line [0, 1, 0, 1, 2, 0, 1, 2, 3] = Incomplete"
    by (simp add: parse_line_def strnstr_def CRLF_def)
  moreover have n: "hnet ?h = ex_net ex_heap" by simp
  ultimately have "\<exists>h'. http_parse_request ex_files (Rom 4) ?h = Some (ERR_INPROGRESS, h')"
    unfolding n c by (auto simp: parsed_def simp del: content_simps)
  moreover have "hs_req (hs ?h) = Some (Rom 2)" by simp
  ultimately show ?thesis by blast
qed

theorem query_parameters_roundtrip_witness:
  "extract_uri_parameters (Some (str ''led=1&x'')) = [(str ''led'', Some (str ''1'')), (str ''x'', None)]"
proof -
  let ?ps = "[(str ''led'', Some (str ''1'')), (str ''x'', None)]"
  have "print_query ?ps = str ''led=1&x''" by (simp add: str_def)
  moreover have "\<forall>p \<in> set ?ps. plain_pair p" by (simp add: plain_pair_def str_def)
  ultimately show ?thesis using query_parameters_roundtrip [of ?ps] by (simp add: str_def)
qed

end
