(* ===== verification/Chksum.thy ===== *)
theory Chksum
  imports Pbuf
begin

text \<open>
  The Internet checksum, \<open>lwip/src/core/ipv4/inet_chksum.c\<close>, with the byte order functions of
  \<open>def.c\<close>: the three implementations of \<open>lwip_standard_chksum\<close> (the second is the one
  compiled) and the sums over chains of buffers. The target is little endian. The address
  of the data matters for its alignment only and is a number.
\<close>

unbundle bit_operations_syntax

section \<open>Byte order\<close>

definition lwip_htons :: "u16 \<Rightarrow> u16" where
  "lwip_htons n = push_bit 8 (n AND 0xff) OR drop_bit 8 (n AND 0xff00)"

definition lwip_htonl :: "u32 \<Rightarrow> u32" where
  "lwip_htonl n = push_bit 24 (n AND 0xff) OR push_bit 8 (n AND 0xff00) OR
     drop_bit 8 (n AND 0xff0000) OR drop_bit 24 (n AND 0xff000000)"

definition SWAP_BYTES_IN_WORD :: "u32 \<Rightarrow> u32" where
  "SWAP_BYTES_IN_WORD w = push_bit 8 (w AND 0xff) OR drop_bit 8 (w AND 0xff00)"

definition FOLD_U32T :: "u32 \<Rightarrow> u32" where
  "FOLD_U32T u = drop_bit 16 u + (u AND 0xffff)"

text \<open>Little-endian loads of \<open>u16_t\<close> and \<open>u32_t\<close>.\<close>

definition le16 :: "u8 \<Rightarrow> u8 \<Rightarrow> u32" where
  "le16 a b = ucast a OR push_bit 8 (ucast b)"

definition le32 :: "u8 \<Rightarrow> u8 \<Rightarrow> u8 \<Rightarrow> u8 \<Rightarrow> u32" where
  "le32 a b c d = ucast a OR push_bit 8 (ucast b) OR push_bit 16 (ucast c) OR push_bit 24 (ucast d)"

section \<open>Version 1: octets in network order\<close>

fun octet_loop :: "u8 list \<Rightarrow> u32 \<Rightarrow> u32" where
  "octet_loop (a # b # xs) acc = octet_loop xs (acc + (push_bit 8 (ucast a) OR ucast b))"
| "octet_loop [a] acc = acc + push_bit 8 (ucast a)"
| "octet_loop [] acc = acc"

text \<open>Its \<open>len\<close> is a \<open>u16_t\<close> (in the other versions an \<open>int\<close>): the loop counts down from the low 16 bits of the length.\<close>

definition lwip_standard_chksum1 :: "u8 list \<Rightarrow> u16" where
  "lwip_standard_chksum1 xs =
     (let len = trunc16 (length xs);
          acc = FOLD_U32T (octet_loop (take len xs) 0);
          acc = (if acc AND 0xffff0000 \<noteq> 0 then FOLD_U32T acc else acc)
      in lwip_htons (ucast acc))"

section \<open>Version 2: aligned half words\<close>

text \<open>The bulk loop: the sum and the bytes left over, at most one.\<close>

fun half_loop :: "u8 list \<Rightarrow> u32 \<Rightarrow> u32 \<times> u8 list" where
  "half_loop (a # b # xs) s = half_loop xs (s + le16 a b)"
| "half_loop xs s = (s, xs)"

text \<open>The end: the last byte and the one before the aligned part form \<open>t\<close>.\<close>

definition end_bytes :: "u8 list \<Rightarrow> u8 \<Rightarrow> u32 \<Rightarrow> u32" where
  "end_bytes left first s = s + le16 (case left of [] \<Rightarrow> 0 | b # _ \<Rightarrow> b) first"

definition finish_sum :: "bool \<Rightarrow> u32 \<Rightarrow> u16" where
  "finish_sum is_odd s =
     (let s = FOLD_U32T (FOLD_U32T s)
      in ucast (if is_odd then SWAP_BYTES_IN_WORD s else s))"

definition lwip_standard_chksum :: "nat \<Rightarrow> u8 list \<Rightarrow> u16" where
  "lwip_standard_chksum addr xs =
     (let is_odd = (addr mod 2 = 1);
          (first, xs) = (if is_odd \<and> xs \<noteq> [] then (hd xs, tl xs) else (0, xs));
          (s, left) = half_loop xs 0
      in finish_sum is_odd (end_bytes left first s))"

section \<open>Version 3: aligned words, carries added back\<close>

definition add_carry :: "u32 \<Rightarrow> u32 \<Rightarrow> u32" where
  "add_carry s w = (let tmp = s + w in if tmp < s then tmp + 1 else tmp)"

fun word_loop :: "u8 list \<Rightarrow> u32 \<Rightarrow> u32 \<times> u8 list" where
  "word_loop (a # b # c # d # e # f # g # h # xs) s =
     word_loop xs (add_carry (add_carry s (le32 a b c d)) (le32 e f g h))"
| "word_loop xs s = (s, xs)"

definition lwip_standard_chksum3 :: "nat \<Rightarrow> u8 list \<Rightarrow> u16" where
  "lwip_standard_chksum3 addr xs =
     (let is_odd = (addr mod 2 = 1);
          (first, addr, xs) = (if is_odd \<and> xs \<noteq> [] then (hd xs, addr + 1, tl xs) else (0, addr, xs));
          (s, xs) = (if addr mod 4 \<noteq> 0 \<and> 1 < length xs then (le16 (xs ! 0) (xs ! 1), drop 2 xs) else (0, xs));
          (s, xs) = word_loop xs s;
          (s, left) = half_loop xs (FOLD_U32T s)
      in finish_sum is_odd (end_bytes left first s))"

text \<open>\<open>len\<close> is a \<open>u16_t\<close> here too; the callers give at most 65535 bytes.\<close>

definition inet_chksum :: "nat \<Rightarrow> u8 list \<Rightarrow> u16" where
  "inet_chksum addr xs = NOT (lwip_standard_chksum addr xs)"

section \<open>Chains of buffers\<close>

text \<open>
  The loop shared by the sums over a chain: \<open>acc\<close> and \<open>swapped\<close>. \<open>base\<close> gives the address of
  each block; a chain that does not end is \<open>None\<close>.
\<close>

definition sum_buf :: "(loc \<Rightarrow> nat) \<Rightarrow> loc \<Rightarrow> nat \<Rightarrow> net \<Rightarrow> u32 \<times> bool \<Rightarrow> (u32 \<times> bool) option" where
  "sum_buf base q n st = (\<lambda>(acc, swapped).
     Option.bind (peek (payload (pb st q)) 0 n st) (\<lambda>xs.
       (let addr = (case payload (pb st q) of None \<Rightarrow> 0 | Some (b, off) \<Rightarrow> nat (int (base b) + off));
            acc = FOLD_U32T (acc + ucast (lwip_standard_chksum addr xs))
        in Some (if odd (plen (pb st q)) then (SWAP_BYTES_IN_WORD acc, \<not> swapped) else (acc, swapped)))))"

partial_function (option) chain_loop ::
    "(loc \<Rightarrow> nat) \<Rightarrow> loc option \<Rightarrow> net \<Rightarrow> u32 \<times> bool \<Rightarrow> (u32 \<times> bool) option" where
  "chain_loop base po st acc =
     (case po of
        None \<Rightarrow> Some acc
      | Some q \<Rightarrow> Option.bind (sum_buf base q (plen (pb st q)) st acc) (chain_loop base (pnext (pb st q)) st))"

definition unswap :: "u32 \<times> bool \<Rightarrow> u32" where
  "unswap = (\<lambda>(acc, swapped). if swapped then SWAP_BYTES_IN_WORD acc else acc)"

definition inet_chksum_pbuf :: "(loc \<Rightarrow> nat) \<Rightarrow> loc option \<Rightarrow> net \<Rightarrow> u16 option" where
  "inet_chksum_pbuf base p st =
     map_option (\<lambda>acc. NOT (ucast (unswap acc AND 0xffff))) (chain_loop base p st (0, False))"

text \<open>The pseudo header: addresses as they are in memory, protocol and length.\<close>

definition add_pseudo :: "u32 \<Rightarrow> u32 \<Rightarrow> u8 \<Rightarrow> u16 \<Rightarrow> u32 \<Rightarrow> u32" where
  "add_pseudo src dest proto proto_len acc =
     acc + (src AND 0xffff) + (drop_bit 16 src AND 0xffff) + (dest AND 0xffff) + (drop_bit 16 dest AND 0xffff)
       + ucast (lwip_htons (ucast proto)) + ucast (lwip_htons proto_len)"

definition inet_chksum_pseudo ::
    "(loc \<Rightarrow> nat) \<Rightarrow> loc option \<Rightarrow> u32 \<Rightarrow> u32 \<Rightarrow> u8 \<Rightarrow> u16 \<Rightarrow> net \<Rightarrow> u16 option" where
  "inet_chksum_pseudo base p src dest proto proto_len st =
     map_option (\<lambda>acc. NOT (ucast (FOLD_U32T (FOLD_U32T (add_pseudo src dest proto proto_len (unswap acc))) AND 0xffff)))
       (chain_loop base p st (0, False))"

partial_function (option) partial_chain_loop ::
    "(loc \<Rightarrow> nat) \<Rightarrow> loc option \<Rightarrow> nat \<Rightarrow> net \<Rightarrow> u32 \<times> bool \<Rightarrow> (u32 \<times> bool) option" where
  "partial_chain_loop base po chksum_len st acc =
     (case po of
        None \<Rightarrow> Some acc
      | Some q \<Rightarrow>
          if chksum_len = 0 then Some acc
          else (let chklen = min (plen (pb st q)) chksum_len in
            Option.bind (sum_buf base q chklen st acc) (\<lambda>acc.
              if chksum_len - chklen < 0x7fff
              then partial_chain_loop base (pnext (pb st q)) (chksum_len - chklen) st acc else None)))"

definition inet_chksum_pseudo_partial ::
    "(loc \<Rightarrow> nat) \<Rightarrow> loc option \<Rightarrow> u32 \<Rightarrow> u32 \<Rightarrow> u8 \<Rightarrow> u16 \<Rightarrow> nat \<Rightarrow> net \<Rightarrow> u16 option" where
  "inet_chksum_pseudo_partial base p src dest proto proto_len chksum_len st =
     map_option (\<lambda>acc. NOT (ucast (FOLD_U32T (FOLD_U32T (add_pseudo src dest proto proto_len (unswap acc))) AND 0xffff)))
       (partial_chain_loop base p chksum_len st (0, False))"

end
