(* ===== verification/IpAddr.thy ===== *)
theory IpAddr
  imports Chksum
begin

text \<open>
  Addresses and their text form, \<open>lwip/src/core/ipv4/ip_addr.c\<close>. A C string is the list of its
  bytes before the terminating NUL; \<open>at\<close> reads the current byte, 0 at the end. An address
  is a \<open>u32_t\<close> in network order, as in memory. The static buffer of \<open>ipaddr_ntoa\<close> has 16 bytes.
\<close>

unbundle bit_operations_syntax

section \<open>Classes of addresses\<close>

abbreviation IPADDR_ANY :: u32 where "IPADDR_ANY \<equiv> 0"
abbreviation IPADDR_NONE :: u32 where "IPADDR_NONE \<equiv> 0xffffffff"
abbreviation IPADDR_BROADCAST :: u32 where "IPADDR_BROADCAST \<equiv> 0xffffffff"
abbreviation NETIF_FLAG_BROADCAST :: u8 where "NETIF_FLAG_BROADCAST \<equiv> 2"

text \<open>The members of \<open>struct netif\<close> that the modelled parts use.\<close>

record netif =
  ip_addr :: u32
  netmask :: u32
  gw :: u32
  mtu :: nat
  hwaddr_len :: nat
  hwaddr :: "u8 list"
  netif_flags :: u8

definition ip_addr_netcmp :: "u32 \<Rightarrow> u32 \<Rightarrow> u32 \<Rightarrow> bool" where
  "ip_addr_netcmp a b m = (a AND m = b AND m)"

definition ip4_addr_isbroadcast :: "u32 \<Rightarrow> netif \<Rightarrow> bool" where
  "ip4_addr_isbroadcast addr nif =
     (if NOT addr = IPADDR_ANY \<or> addr = IPADDR_ANY then True
      else if netif_flags nif AND NETIF_FLAG_BROADCAST = 0 then False
      else if addr = ip_addr nif then False
      else if ip_addr_netcmp addr (ip_addr nif) (netmask nif) \<and>
              addr AND NOT (netmask nif) = IPADDR_BROADCAST AND NOT (netmask nif) then True
      else False)"

text \<open>The two loops over a single bit, from \<open>1 << 31\<close> down; \<open>n\<close> is its position plus one.\<close>

fun first_zero :: "nat \<Rightarrow> u32 \<Rightarrow> nat" where
  "first_zero 0 v = 0"
| "first_zero (Suc n) v = (if v AND push_bit n 1 = 0 then Suc n else first_zero n v)"

fun no_one :: "nat \<Rightarrow> u32 \<Rightarrow> bool" where
  "no_one 0 v = True"
| "no_one (Suc n) v = (if v AND push_bit n 1 \<noteq> 0 then False else no_one n v)"

definition ip4_addr_netmask_valid :: "u32 \<Rightarrow> bool" where
  "ip4_addr_netmask_valid m = (let nm_hostorder = lwip_htonl m in no_one (first_zero 32 nm_hostorder) nm_hostorder)"

section \<open>Reading\<close>

definition at :: "u8 list \<Rightarrow> u8" where
  "at cp = (case cp of [] \<Rightarrow> 0 | c # _ \<Rightarrow> c)"

definition in_range :: "u8 \<Rightarrow> u8 \<Rightarrow> u8 \<Rightarrow> bool" where
  "in_range c lo up = (lo \<le> c \<and> c \<le> up)"

definition isdigit :: "u8 \<Rightarrow> bool" where
  "isdigit c = in_range c 48 57"

definition isxdigit :: "u8 \<Rightarrow> bool" where
  "isxdigit c = (isdigit c \<or> in_range c 97 102 \<or> in_range c 65 70)"

definition islower :: "u8 \<Rightarrow> bool" where
  "islower c = in_range c 97 122"

definition isspace :: "u8 \<Rightarrow> bool" where
  "isspace c = (c = 32 \<or> c = 12 \<or> c = 10 \<or> c = 13 \<or> c = 9 \<or> c = 11)"

text \<open>The inner loop: the digits of one number, in \<open>u32_t\<close> arithmetic.\<close>

fun aton_digits :: "u32 \<Rightarrow> u32 \<Rightarrow> u8 list \<Rightarrow> u32 \<times> u8 list" where
  "aton_digits base val [] = (val, [])"
| "aton_digits base val (c # cp) =
     (if isdigit c then aton_digits base (val * base + ucast (c - 48)) cp
      else if base = 16 \<and> isxdigit c then
        aton_digits base (push_bit 4 val OR ucast (c + 10 - (if islower c then 97 else 65))) cp
      else (val, c # cp))"

definition aton_number :: "u8 list \<Rightarrow> u32 \<times> u8 list" where
  "aton_number cp =
     (if at cp = 48 then
        (let cp = tl cp in
         if at cp = 120 \<or> at cp = 88 then aton_digits 16 0 (tl cp) else aton_digits 8 0 cp)
      else aton_digits 10 0 cp)"

lemma aton_digits_shorter: "length (snd (aton_digits base val cp)) \<le> length cp"
  by (induction base val cp rule: aton_digits.induct) auto

lemma aton_number_shorter: "length (snd (aton_number cp)) \<le> length cp"
proof -
  have t: "length (tl cp) \<le> length cp" "length (tl (tl cp)) \<le> length cp" by simp_all
  show ?thesis
    using aton_digits_shorter[of 16 0 "tl (tl cp)"] aton_digits_shorter[of 8 0 "tl cp"] aton_digits_shorter[of 10 0 cp] t
    unfolding aton_number_def Let_def by (auto intro: order_trans)
qed

text \<open>The outer loop: \<open>parts\<close> holds the numbers before the dots seen so far.\<close>

function aton_parts :: "u32 list \<Rightarrow> u8 list \<Rightarrow> (u32 list \<times> u32 \<times> u8 list) option" where
  "aton_parts parts cp =
     (if \<not> isdigit (at cp) then None
      else
        (let (val, cp') = aton_number cp in
         if at cp' = 46 then (if 3 \<le> length parts then None else aton_parts (parts @ [val]) (tl cp'))
         else Some (parts, val, cp')))"
  by pat_completeness auto
termination
proof (relation "measure (\<lambda>(_, cp). length cp)", simp)
  fix parts :: "u32 list" and cp :: "u8 list" and x :: "u32 \<times> u8 list" and val cp'
  assume "x = aton_number cp" "(val, cp') = x" and dot: "at cp' = 46"
  then have "length cp' \<le> length cp" using aton_number_shorter[of cp] by (metis snd_conv)
  with dot show "((parts @ [val], tl cp'), parts, cp) \<in> measure (\<lambda>(_, cp). length cp)"
    by (cases cp') (auto simp: at_def)
qed

declare aton_parts.simps [simp del]

definition ipaddr_aton :: "u8 list \<Rightarrow> u32 option" where
  "ipaddr_aton cp =
     (case aton_parts [] cp of
        None \<Rightarrow> None
      | Some (parts, val, cp) \<Rightarrow>
          if at cp \<noteq> 0 \<and> \<not> isspace (at cp) then None
          else map_option lwip_htonl
            (case parts of
               [] \<Rightarrow> Some val
             | [a] \<Rightarrow> if val > 0xffffff then None else Some (val OR push_bit 24 a)
             | [a, b] \<Rightarrow> if val > 0xffff then None else Some (val OR (push_bit 24 a OR push_bit 16 b))
             | a # b # c # _ \<Rightarrow> if val > 0xff then None
                                else Some (val OR (push_bit 24 a OR push_bit 16 b OR push_bit 8 c))))"

definition ipaddr_addr :: "u8 list \<Rightarrow> u32" where
  "ipaddr_addr cp = (case ipaddr_aton cp of Some v \<Rightarrow> v | None \<Rightarrow> IPADDR_NONE)"

section \<open>Printing\<close>

text \<open>The digits of a byte, most significant first; the source collects them backwards in \<open>inv\<close>.\<close>

lemma unat_numeral_byte: "unat (10 :: u8) = 10" by simp

function byte_digits :: "u8 \<Rightarrow> u8 list \<Rightarrow> u8 list" where
  "byte_digits ap ds = (let ds = (48 + ap mod 10) # ds in if ap div 10 = 0 then ds else byte_digits (ap div 10) ds)"
  by pat_completeness auto
termination
proof (relation "measure (\<lambda>(ap, _). unat ap)", simp)
  fix ap :: u8 and ds x :: "u8 list"
  assume "ap div 10 \<noteq> 0"
  then have "unat (ap div 10) \<noteq> 0" by (metis unat_eq_zero)
  then have "unat ap div 10 \<noteq> 0" unfolding unat_div_distrib unat_numeral_byte .
  then have "unat ap div 10 < unat ap" by simp
  then show "((ap div 10, x), ap, ds) \<in> measure (\<lambda>(ap, _). unat ap)" by (simp add: unat_div_distrib)
qed

declare byte_digits.simps [simp del]

text \<open>
  The loop over the four bytes, in the order they have in memory. Every character is
  stored behind a check of \<open>len\<close> against \<open>buflen\<close>; the dot after the last byte is stored, too, and
  then overwritten by the NUL.
\<close>

fun put_chars :: "u8 list \<Rightarrow> int \<Rightarrow> u8 list \<Rightarrow> u8 list option" where
  "put_chars [] buflen out = Some out"
| "put_chars (c # cs) buflen out = (if buflen \<le> int (length out) then None else put_chars cs buflen (out @ [c]))"

fun ntoa_loop :: "u8 list \<Rightarrow> int \<Rightarrow> u8 list \<Rightarrow> u8 list option" where
  "ntoa_loop [] buflen out = Some out"
| "ntoa_loop (ap # aps) buflen out =
     Option.bind (put_chars (byte_digits ap [] @ [46]) buflen out) (ntoa_loop aps buflen)"

definition ipaddr_ntoa_r :: "u32 \<Rightarrow> int \<Rightarrow> u8 list option" where
  "ipaddr_ntoa_r addr buflen =
     map_option butlast (ntoa_loop [ucast addr, ucast (drop_bit 8 addr), ucast (drop_bit 16 addr), ucast (drop_bit 24 addr)] buflen [])"

definition ipaddr_ntoa :: "u32 \<Rightarrow> u8 list option" where
  "ipaddr_ntoa addr = ipaddr_ntoa_r addr 16"

end
