(* ===== verification/IpState.thy ===== *)
theory IpState
  imports TcpState
begin

text \<open>
  The state of the network and datagram layers: the variables of \<open>lwip/src/core/ipv4/ip.c\<close>,
  the reassembly queue of \<open>ip_frag.c\<close>, the control blocks of \<open>udp.c\<close> and \<open>raw.c\<close> and the variables of TCP. Pointers to
  \<open>struct ip_reassdata\<close>, \<open>struct udp_pcb\<close> and \<open>struct raw_pcb\<close> are offsets of pool elements.
\<close>

section \<open>Reassembly\<close>

text \<open>\<open>struct ip_reassdata\<close>: the header kept is the 20 bytes of an IP header.\<close>

record ip_reassdata =
  r_next :: "nat option"
  r_p :: "loc option"
  r_iphdr :: "u8 list"
  datagram_len :: nat
  r_flags :: u8
  r_timer :: nat

text \<open>
  \<open>struct ip_reass_helper\<close> lies over the IP header of a fragment that waits; it is kept
  by the buffer that holds it, and the bytes it overwrites are overwritten as well.
\<close>

record reass_helper =
  next_pbuf :: "loc option"
  h_start :: nat
  h_end :: nat

abbreviation IP_REASS_FLAG_LASTFRAG :: u8 where "IP_REASS_FLAG_LASTFRAG \<equiv> 1"
abbreviation IP_REASS_MAXAGE :: nat where "IP_REASS_MAXAGE \<equiv> 3"
abbreviation IP_REASS_MAX_PBUFS :: nat where "IP_REASS_MAX_PBUFS \<equiv> 10"

text \<open>What \<open>memset\<close> leaves of a \<open>struct ip_reassdata\<close>.\<close>

definition zero_reassdata :: ip_reassdata where
  "zero_reassdata = \<lparr>r_next = None, r_p = None, r_iphdr = replicate 20 0, datagram_len = 0, r_flags = 0, r_timer = 0\<rparr>"

section \<open>UDP control blocks\<close>

text \<open>The callback is a number: which function of the application \<open>recv\<close> points to.\<close>

record udp_pcb =
  u_local_ip :: u32
  u_remote_ip :: u32
  u_tos :: u8
  u_ttl :: u8
  u_next :: "nat option"
  u_flags :: u8
  u_local_port :: nat
  u_remote_port :: nat
  u_recv :: "nat option"
  u_recv_arg :: nat

abbreviation UDP_FLAGS_NOCHKSUM :: u8 where "UDP_FLAGS_NOCHKSUM \<equiv> 1"
abbreviation UDP_FLAGS_CONNECTED :: u8 where "UDP_FLAGS_CONNECTED \<equiv> 4"
abbreviation UDP_LOCAL_PORT_RANGE_START :: nat where "UDP_LOCAL_PORT_RANGE_START \<equiv> 0xc000"
abbreviation UDP_LOCAL_PORT_RANGE_END :: nat where "UDP_LOCAL_PORT_RANGE_END \<equiv> 0xffff"
abbreviation DHCP_SERVER_PORT :: nat where "DHCP_SERVER_PORT \<equiv> 67"
abbreviation DHCP_CLIENT_PORT :: nat where "DHCP_CLIENT_PORT \<equiv> 68"
abbreviation UDP_HLEN :: nat where "UDP_HLEN \<equiv> 8"
abbreviation UDP_TTL :: u8 where "UDP_TTL \<equiv> 255"

definition zero_udp_pcb :: udp_pcb where
  "zero_udp_pcb = \<lparr>u_local_ip = 0, u_remote_ip = 0, u_tos = 0, u_ttl = 0, u_next = None, u_flags = 0,
     u_local_port = 0, u_remote_port = 0, u_recv = None, u_recv_arg = 0\<rparr>"

section \<open>Raw control blocks\<close>

record raw_pcb =
  w_local_ip :: u32
  w_remote_ip :: u32
  w_tos :: u8
  w_ttl :: u8
  w_next :: "nat option"
  w_protocol :: u8
  w_recv :: "nat option"
  w_recv_arg :: nat

abbreviation RAW_TTL :: u8 where "RAW_TTL \<equiv> 255"

definition zero_raw_pcb :: raw_pcb where
  "zero_raw_pcb = \<lparr>w_local_ip = 0, w_remote_ip = 0, w_tos = 0, w_ttl = 0, w_next = None, w_protocol = 0,
     w_recv = None, w_recv_arg = 0\<rparr>"

section \<open>The state\<close>

text \<open>\<open>dhcp_pcb\<close> is the control block of the DHCP client of an interface, if it has one.\<close>

record ip_state =
  ip_id :: nat
  current_iphdr_src :: u32
  current_iphdr_dest :: u32
  reassdatagrams :: "nat option"
  reass :: "nat \<Rightarrow> ip_reassdata"
  ip_reass_pbufcount :: nat
  reass_helpers :: "loc \<Rightarrow> reass_helper"
  udp_pcbs :: "nat option"
  udp_pcb_at :: "nat \<Rightarrow> udp_pcb"
  udp_port :: nat
  raw_pcbs :: "nat option"
  raw_pcb_at :: "nat \<Rightarrow> raw_pcb"
  dhcp_pcb :: "nat \<Rightarrow> nat option"
  tcps :: tcp_vars

end
