(* ===== verification/Etharp.thy ===== *)
theory Etharp
  imports IpAddr IpState
begin

text \<open>
  The Ethernet side of the stack: the port's interface \<open>lwip/port/ethernetif.c\<close> and address
  resolution \<open>lwip/src/netif/etharp.c\<close>, as configured (one queued packet per entry, no static
  entries, no VLAN, no AutoIP). There is one interface. The controller is behind the
  parameter \<open>port\<close>: whether the link is up and whether it takes a frame, given the frames it
  took before. \<open>ip_handler\<close> (\<open>ip_input\<close>) and \<open>dhcp_arp_reply\<close> are the upper layers. \<open>wire\<close> is the list of frames
  handed to the controller, the last one first. \<open>None\<close> is a call that does not return.
\<close>

unbundle bit_operations_syntax

section \<open>State\<close>

datatype etharp_state = ETHARP_STATE_EMPTY | ETHARP_STATE_PENDING | ETHARP_STATE_STABLE | ETHARP_STATE_STABLE_REREQUESTING

record etharp_entry =
  arp_q :: "loc option"
  arp_ipaddr :: u32
  arp_netif :: bool
  arp_ethaddr :: "u8 list"
  arp_state :: etharp_state
  arp_ctime :: nat

record lan =
  lnet :: net
  arp_table :: "etharp_entry list"
  etharp_cached_entry :: nat
  ucBuffer :: "u8 list"
  wire :: "u8 list list"
  ipst :: ip_state

record port =
  custom_free :: "loc \<Rightarrow> net \<Rightarrow> net option"
  link_up :: "u8 list list \<Rightarrow> bool"
  send_frame :: "u8 list list \<Rightarrow> u8 list \<Rightarrow> bool"
  ip_handler :: "loc \<Rightarrow> lan \<Rightarrow> lan option"
  dhcp_arp_reply :: "u32 \<Rightarrow> lan \<Rightarrow> lan option"

abbreviation ARP_TABLE_SIZE :: nat where "ARP_TABLE_SIZE \<equiv> 10"
abbreviation ARP_MAXAGE :: nat where "ARP_MAXAGE \<equiv> 240"
abbreviation ARP_AGE_REREQUEST_USED :: nat where "ARP_AGE_REREQUEST_USED \<equiv> 228"
abbreviation ARP_MAXPENDING :: nat where "ARP_MAXPENDING \<equiv> 2"
abbreviation ETHARP_HWADDR_LEN :: nat where "ETHARP_HWADDR_LEN \<equiv> 6"
abbreviation SIZEOF_ETH_HDR :: nat where "SIZEOF_ETH_HDR \<equiv> 14"
abbreviation SIZEOF_ETHARP_PACKET :: nat where "SIZEOF_ETHARP_PACKET \<equiv> 42"
abbreviation ENET_FRAME_MAX_FRAMELEN :: nat where "ENET_FRAME_MAX_FRAMELEN \<equiv> 1518"
abbreviation NETIF_FLAG_ETHARP :: u8 where "NETIF_FLAG_ETHARP \<equiv> 0x20"
abbreviation PBUF_FLAG_LLBCAST :: u8 where "PBUF_FLAG_LLBCAST \<equiv> 8"
abbreviation PBUF_FLAG_LLMCAST :: u8 where "PBUF_FLAG_LLMCAST \<equiv> 16"

text \<open>Constants in network order are given by their bytes in memory.\<close>

abbreviation ETHTYPE_IP :: "u8 list" where "ETHTYPE_IP \<equiv> [0x08, 0x00]"
abbreviation ETHTYPE_ARP :: "u8 list" where "ETHTYPE_ARP \<equiv> [0x08, 0x06]"
abbreviation ARP_REQUEST :: "u8 list" where "ARP_REQUEST \<equiv> [0, 1]"
abbreviation ARP_REPLY :: "u8 list" where "ARP_REPLY \<equiv> [0, 2]"
abbreviation HWTYPE_ETHERNET :: "u8 list" where "HWTYPE_ETHERNET \<equiv> [0, 1]"

definition ethbroadcast :: "u8 list" where "ethbroadcast = replicate 6 0xff"

definition ethzero :: "u8 list" where "ethzero = replicate 6 0"

definition ip_bytes :: "u32 \<Rightarrow> u8 list" where
  "ip_bytes x = [ucast x, ucast (drop_bit 8 x), ucast (drop_bit 16 x), ucast (drop_bit 24 x)]"

definition ip_of_bytes :: "u8 list \<Rightarrow> u32" where
  "ip_of_bytes bs = le32 (bs ! 0) (bs ! 1) (bs ! 2) (bs ! 3)"

definition empty_entry :: etharp_entry where
  "empty_entry = \<lparr>arp_q = None, arp_ipaddr = 0, arp_netif = False, arp_ethaddr = ethzero,
     arp_state = ETHARP_STATE_EMPTY, arp_ctime = 0\<rparr>"

text \<open>\<open>state >= ETHARP_STATE_STABLE\<close>\<close>

definition is_stable :: "etharp_state \<Rightarrow> bool" where
  "is_stable s = (s = ETHARP_STATE_STABLE \<or> s = ETHARP_STATE_STABLE_REREQUESTING)"

definition ip_addr_ismulticast :: "u32 \<Rightarrow> bool" where
  "ip_addr_ismulticast a = (a AND lwip_htonl 0xf0000000 = lwip_htonl 0xe0000000)"

definition ip_addr_islinklocal :: "u32 \<Rightarrow> bool" where
  "ip_addr_islinklocal a = (a AND lwip_htonl 0xffff0000 = lwip_htonl 0xa9fe0000)"

section \<open>Access to packets\<close>

definition buf :: "lan \<Rightarrow> loc \<Rightarrow> pbuf" where
  "buf st p = pb (lnet st) p"

definition rd :: "loc \<Rightarrow> nat \<Rightarrow> nat \<Rightarrow> lan \<Rightarrow> u8 list option" where
  "rd p i n st = peek (payload (buf st p)) (int i) n (lnet st)"

fun puts :: "loc \<Rightarrow> (nat \<times> u8 list) list \<Rightarrow> lan \<Rightarrow> lan option" where
  "puts p [] st = Some st"
| "puts p ((i, xs) # ws) st =
     Option.bind (poke (payload (buf st p)) (int i) xs (lnet st)) (\<lambda>n. puts p ws (st\<lparr>lnet := n\<rparr>))"

definition release :: "port \<Rightarrow> loc \<Rightarrow> lan \<Rightarrow> lan option" where
  "release pt p st = map_option (\<lambda>(_, n). st\<lparr>lnet := n\<rparr>) (pbuf_free (custom_free pt) (Some p) (lnet st))"

section \<open>Sending a frame\<close>

text \<open>The copy of a chain into \<open>ucBuffer\<close>; writing past its end has no result.\<close>

partial_function (option) gather_loop :: "loc option \<Rightarrow> nat \<Rightarrow> u8 list \<Rightarrow> net \<Rightarrow> u8 list option" where
  "gather_loop po pos out st =
     (case po of
        None \<Rightarrow> Some out
      | Some q \<Rightarrow>
          Option.bind (peek (payload (pb st q)) 0 (plen (pb st q)) st) (\<lambda>xs.
            if pos + length xs \<le> ENET_FRAME_MAX_FRAMELEN
            then gather_loop (pnext (pb st q)) (pos + length xs) (blit pos xs out) st else None))"

definition transmit :: "port \<Rightarrow> u8 list \<Rightarrow> lan \<Rightarrow> err_t \<times> lan" where
  "transmit pt frame st =
     (if link_up pt (wire st) \<and> send_frame pt (wire st) frame then (ERR_OK, st\<lparr>wire := frame # wire st\<rparr>)
      else (ERR_IF, st))"

definition low_level_output :: "port \<Rightarrow> loc \<Rightarrow> lan \<Rightarrow> (err_t \<times> lan) option" where
  "low_level_output pt p st =
     (if plen (buf st p) = tot_len (buf st p) then
        map_option (\<lambda>frame. transmit pt frame st) (rd p 0 (tot_len (buf st p)) st)
      else if ENET_FRAME_MAX_FRAMELEN \<le> tot_len (buf st p) then Some (ERR_BUF, st)
      else
        map_option (\<lambda>out. transmit pt (take (tot_len (buf st p)) out) (st\<lparr>ucBuffer := out\<rparr>))
          (gather_loop (Some p) 0 (ucBuffer st) (lnet st)))"

definition etharp_send_ip :: "port \<Rightarrow> netif \<Rightarrow> loc \<Rightarrow> u8 list \<Rightarrow> u8 list \<Rightarrow> lan \<Rightarrow> (err_t \<times> lan) option" where
  "etharp_send_ip pt nif p src dst st = do {
     lwip_assert (hwaddr_len nif = ETHARP_HWADDR_LEN);
     st \<leftarrow> puts p [(0, dst), (6, src), (12, ETHTYPE_IP)] st;
     low_level_output pt p st
   }"

section \<open>The ARP table\<close>

definition set_entry :: "nat \<Rightarrow> (etharp_entry \<Rightarrow> etharp_entry) \<Rightarrow> lan \<Rightarrow> lan" where
  "set_entry i f st = st\<lparr>arp_table := (arp_table st)[i := f (arp_table st ! i)]\<rparr>"

definition etharp_free_entry :: "port \<Rightarrow> nat \<Rightarrow> lan \<Rightarrow> lan option" where
  "etharp_free_entry pt i st = do {
     st \<leftarrow> (case arp_q (arp_table st ! i) of None \<Rightarrow> Some st | Some q \<Rightarrow> release pt q st);
     Some (set_entry i (\<lambda>_. empty_entry) st)
   }"

definition tmr_entry :: "port \<Rightarrow> nat \<Rightarrow> lan \<Rightarrow> lan option" where
  "tmr_entry pt i st =
     (if arp_state (arp_table st ! i) \<noteq> ETHARP_STATE_EMPTY then
        (let st = set_entry i (\<lambda>e. e\<lparr>arp_ctime := (arp_ctime e + 1) mod 256\<rparr>) st;
             e = arp_table st ! i in
         if ARP_MAXAGE \<le> arp_ctime e \<or> arp_state e = ETHARP_STATE_PENDING \<and> ARP_MAXPENDING \<le> arp_ctime e
         then etharp_free_entry pt i st
         else if arp_state e = ETHARP_STATE_STABLE_REREQUESTING
         then Some (set_entry i (\<lambda>e. e\<lparr>arp_state := ETHARP_STATE_STABLE\<rparr>) st)
         else Some st)
      else Some st)"

fun tmr_loop :: "port \<Rightarrow> nat list \<Rightarrow> lan \<Rightarrow> lan option" where
  "tmr_loop pt [] st = Some st"
| "tmr_loop pt (i # is) st = Option.bind (tmr_entry pt i st) (tmr_loop pt is)"

definition etharp_tmr :: "port \<Rightarrow> lan \<Rightarrow> lan option" where
  "etharp_tmr pt st = tmr_loop pt [0..<ARP_TABLE_SIZE] st"

text \<open>The candidates of \<open>etharp_find_entry\<close>: \<open>ARP_TABLE_SIZE\<close> stands for none.\<close>

record candidates =
  c_empty :: nat
  old_pending :: nat
  age_pending :: nat
  old_stable :: nat
  age_stable :: nat
  old_queue :: nat
  age_queue :: nat

definition consider_entry :: "nat \<Rightarrow> etharp_entry \<Rightarrow> candidates \<Rightarrow> candidates" where
  "consider_entry i e c =
     (if arp_state e = ETHARP_STATE_PENDING then
        (if arp_q e \<noteq> None then
           if age_queue c \<le> arp_ctime e then c\<lparr>old_queue := i, age_queue := arp_ctime e\<rparr> else c
         else if age_pending c \<le> arp_ctime e then c\<lparr>old_pending := i, age_pending := arp_ctime e\<rparr> else c)
      else if is_stable (arp_state e) then
        if age_stable c \<le> arp_ctime e then c\<lparr>old_stable := i, age_stable := arp_ctime e\<rparr> else c
      else c)"

text \<open>The sweep: \<open>Inl i\<close> is a match, \<open>Inr\<close> the candidates.\<close>

fun find_scan :: "u32 option \<Rightarrow> nat \<Rightarrow> etharp_entry list \<Rightarrow> candidates \<Rightarrow> nat + candidates" where
  "find_scan ip i [] c = Inr c"
| "find_scan ip i (e # es) c =
     (if c_empty c = ARP_TABLE_SIZE \<and> arp_state e = ETHARP_STATE_EMPTY then find_scan ip (i + 1) es (c\<lparr>c_empty := i\<rparr>)
      else if arp_state e \<noteq> ETHARP_STATE_EMPTY then
        (if ip = Some (arp_ipaddr e) then Inl i else find_scan ip (i + 1) es (consider_entry i e c))
      else find_scan ip (i + 1) es c)"

definition no_candidates :: candidates where
  "no_candidates = \<lparr>c_empty = ARP_TABLE_SIZE, old_pending = ARP_TABLE_SIZE, age_pending = 0,
     old_stable = ARP_TABLE_SIZE, age_stable = 0, old_queue = ARP_TABLE_SIZE, age_queue = 0\<rparr>"

text \<open>The entry to use: empty, or recycled. \<open>None\<close> inside is \<open>ERR_MEM\<close>.\<close>

definition recycle :: "port \<Rightarrow> candidates \<Rightarrow> lan \<Rightarrow> (nat option \<times> lan) option" where
  "recycle pt c st =
     (if c_empty c < ARP_TABLE_SIZE then Some (Some (c_empty c), st)
      else if old_stable c < ARP_TABLE_SIZE then do {
        lwip_assert (arp_q (arp_table st ! old_stable c) = None);
        st \<leftarrow> etharp_free_entry pt (old_stable c) st;
        Some (Some (old_stable c), st)
      }
      else if old_pending c < ARP_TABLE_SIZE then
        map_option (\<lambda>st. (Some (old_pending c), st)) (etharp_free_entry pt (old_pending c) st)
      else if old_queue c < ARP_TABLE_SIZE then
        map_option (\<lambda>st. (Some (old_queue c), st)) (etharp_free_entry pt (old_queue c) st)
      else Some (None, st))"

definition etharp_find_entry :: "port \<Rightarrow> u32 option \<Rightarrow> bool \<Rightarrow> bool \<Rightarrow> lan \<Rightarrow> (nat option \<times> lan) option" where
  "etharp_find_entry pt ip try_hard find_only st =
     (case find_scan ip 0 (arp_table st) no_candidates of
        Inl i \<Rightarrow> Some (Some i, st)
      | Inr c \<Rightarrow>
          if find_only \<or> c_empty c = ARP_TABLE_SIZE \<and> \<not> try_hard then Some (None, st)
          else do {
            (r, st) \<leftarrow> recycle pt c st;
            (case r of
               None \<Rightarrow> Some (None, st)
             | Some i \<Rightarrow> do {
                 lwip_assert (arp_state (arp_table st ! i) = ETHARP_STATE_EMPTY);
                 Some (Some i, set_entry i (\<lambda>e. e\<lparr>arp_ipaddr := (case ip of None \<Rightarrow> arp_ipaddr e | Some a \<Rightarrow> a), arp_ctime := 0\<rparr>) st)
               })
          })"

definition etharp_find_addr :: "port \<Rightarrow> u32 \<Rightarrow> lan \<Rightarrow> ((nat \<times> u8 list \<times> u32) option \<times> lan) option" where
  "etharp_find_addr pt ip st = do {
     (r, st) \<leftarrow> etharp_find_entry pt (Some ip) False True st;
     Some (case r of
         None \<Rightarrow> (None, st)
       | Some i \<Rightarrow> (if is_stable (arp_state (arp_table st ! i))
                   then Some (i, arp_ethaddr (arp_table st ! i), arp_ipaddr (arp_table st ! i)) else None, st))
   }"

fun cleanup_loop :: "port \<Rightarrow> nat list \<Rightarrow> lan \<Rightarrow> lan option" where
  "cleanup_loop pt [] st = Some st"
| "cleanup_loop pt (i # is) st =
     Option.bind (if arp_state (arp_table st ! i) \<noteq> ETHARP_STATE_EMPTY \<and> arp_netif (arp_table st ! i)
                  then etharp_free_entry pt i st else Some st) (cleanup_loop pt is)"

definition etharp_cleanup_netif :: "port \<Rightarrow> lan \<Rightarrow> lan option" where
  "etharp_cleanup_netif pt st = cleanup_loop pt [0..<ARP_TABLE_SIZE] st"

definition etharp_update_arp_entry ::
    "port \<Rightarrow> netif \<Rightarrow> u32 \<Rightarrow> u8 list \<Rightarrow> bool \<Rightarrow> bool \<Rightarrow> lan \<Rightarrow> (err_t \<times> lan) option" where
  "etharp_update_arp_entry pt nif ip ethaddr try_hard find_only st = do {
     lwip_assert (hwaddr_len nif = ETHARP_HWADDR_LEN);
     (if ip = IPADDR_ANY \<or> ip4_addr_isbroadcast ip nif \<or> ip_addr_ismulticast ip then Some (ERR_ARG, st)
      else do {
        (r, st) \<leftarrow> etharp_find_entry pt (Some ip) try_hard find_only st;
        (case r of
           None \<Rightarrow> Some (ERR_MEM, st)
         | Some i \<Rightarrow> do {
             let st = set_entry i (\<lambda>e. e\<lparr>arp_state := ETHARP_STATE_STABLE, arp_netif := True,
                                          arp_ethaddr := ethaddr, arp_ctime := 0\<rparr>) st;
             (case arp_q (arp_table st ! i) of
                None \<Rightarrow> Some (ERR_OK, st)
              | Some p \<Rightarrow> do {
                  let st = set_entry i (\<lambda>e. e\<lparr>arp_q := None\<rparr>) st;
                  (_, st) \<leftarrow> etharp_send_ip pt nif p (hwaddr nif) ethaddr st;
                  st \<leftarrow> release pt p st;
                  Some (ERR_OK, st)
                })
           })
      })
   }"

section \<open>Requests\<close>

definition arp_fields :: "u8 list \<Rightarrow> u8 list \<Rightarrow> u8 list \<Rightarrow> u32 \<Rightarrow> u8 list \<Rightarrow> u32 \<Rightarrow> u8 list \<Rightarrow> (nat \<times> u8 list) list" where
  "arp_fields ethsrc ethdst hwsrc ipsrc hwdst ipdst opcode =
     [(20, opcode), (22, hwsrc), (32, hwdst), (0, ethdst), (6, ethsrc), (28, ip_bytes ipsrc), (38, ip_bytes ipdst),
      (14, HWTYPE_ETHERNET), (16, ETHTYPE_IP), (18, [6]), (19, [4]), (12, ETHTYPE_ARP)]"

definition etharp_raw ::
    "port \<Rightarrow> netif \<Rightarrow> u8 list \<Rightarrow> u8 list \<Rightarrow> u8 list \<Rightarrow> u32 \<Rightarrow> u8 list \<Rightarrow> u32 \<Rightarrow> u8 list \<Rightarrow> lan \<Rightarrow> (err_t \<times> lan) option" where
  "etharp_raw pt nif ethsrc ethdst hwsrc ipsrc hwdst ipdst opcode st = do {
     (p, n) \<leftarrow> pbuf_alloc (custom_free pt) PBUF_RAW SIZEOF_ETHARP_PACKET PBUF_RAM (lnet st);
     let st = st\<lparr>lnet := n\<rparr>;
     (case p of
        None \<Rightarrow> Some (ERR_MEM, st)
      | Some p \<Rightarrow> do {
          lwip_assert (SIZEOF_ETHARP_PACKET \<le> plen (buf st p));
          lwip_assert (hwaddr_len nif = ETHARP_HWADDR_LEN);
          st \<leftarrow> puts p (arp_fields ethsrc ethdst hwsrc ipsrc hwdst ipdst opcode) st;
          (result, st) \<leftarrow> low_level_output pt p st;
          st \<leftarrow> release pt p st;
          Some (result, st)
        })
   }"

definition etharp_request :: "port \<Rightarrow> netif \<Rightarrow> u32 \<Rightarrow> lan \<Rightarrow> (err_t \<times> lan) option" where
  "etharp_request pt nif ip st =
     etharp_raw pt nif (hwaddr nif) ethbroadcast (hwaddr nif) (ip_addr nif) ethzero ip ARP_REQUEST st"

text \<open>
  The loop that decides whether a packet must be copied before it is queued: the first
  buffer that is not in read-only memory, if there is one.
\<close>

partial_function (option) copy_needed :: "loc option \<Rightarrow> net \<Rightarrow> loc option option" where
  "copy_needed po st =
     (case po of
        None \<Rightarrow> Some None
      | Some p \<Rightarrow>
          if plen (pb st p) = tot_len (pb st p) \<and> pnext (pb st p) \<noteq> None then None
          else if ptype (pb st p) \<noteq> PBUF_ROM then Some (Some p)
          else copy_needed (pnext (pb st p)) st)"

text \<open>
  The packet to queue: a copy in a heap buffer as long as the packet from the buffer found on,
  or the packet itself with one more reference.
\<close>

definition take_over :: "port \<Rightarrow> loc \<Rightarrow> lan \<Rightarrow> (loc option \<times> lan) option" where
  "take_over pt q st = do {
     c \<leftarrow> copy_needed (Some q) (lnet st);
     (case c of Some r \<Rightarrow> do {
        (p, n) \<leftarrow> pbuf_alloc (custom_free pt) PBUF_RAW (tot_len (buf st r)) PBUF_RAM (lnet st);
        (case p of
           None \<Rightarrow> Some (None, st\<lparr>lnet := n\<rparr>)
         | Some p \<Rightarrow> do {
             (err, n) \<leftarrow> pbuf_copy (Some p) (Some q) n;
             (if err = ERR_OK then Some (Some p, st\<lparr>lnet := n\<rparr>)
              else map_option (\<lambda>st. (None, st)) (release pt p (st\<lparr>lnet := n\<rparr>)))
           })
      }
      | None \<Rightarrow> Some (Some q, st\<lparr>lnet := pbuf_ref (Some q) (lnet st)\<rparr>))
   }"

definition queue_on :: "port \<Rightarrow> nat \<Rightarrow> loc \<Rightarrow> lan \<Rightarrow> (err_t \<times> lan) option" where
  "queue_on pt i q st = do {
     (p, st) \<leftarrow> take_over pt q st;
     (case p of
        None \<Rightarrow> Some (ERR_MEM, st)
      | Some p \<Rightarrow> do {
          st \<leftarrow> (case arp_q (arp_table st ! i) of None \<Rightarrow> Some st | Some old \<Rightarrow> release pt old st);
          Some (ERR_OK, set_entry i (\<lambda>e. e\<lparr>arp_q := Some p\<rparr>) st)
        })
   }"

definition etharp_query :: "port \<Rightarrow> netif \<Rightarrow> u32 \<Rightarrow> loc option \<Rightarrow> lan \<Rightarrow> (err_t \<times> lan) option" where
  "etharp_query pt nif ip q st =
     (if ip4_addr_isbroadcast ip nif \<or> ip_addr_ismulticast ip \<or> ip = IPADDR_ANY then Some (ERR_ARG, st)
      else do {
        (r, st) \<leftarrow> etharp_find_entry pt (Some ip) True False st;
        (case r of
           None \<Rightarrow> Some (ERR_MEM, st)
         | Some i \<Rightarrow> do {
             let st = (if arp_state (arp_table st ! i) = ETHARP_STATE_EMPTY
                       then set_entry i (\<lambda>e. e\<lparr>arp_state := ETHARP_STATE_PENDING\<rparr>) st else st);
             (result, st) \<leftarrow> (if arp_state (arp_table st ! i) = ETHARP_STATE_PENDING \<or> q = None
                              then etharp_request pt nif ip st else Some (ERR_MEM, st));
             (case q of
                None \<Rightarrow> Some (result, st)
              | Some q \<Rightarrow>
                  if is_stable (arp_state (arp_table st ! i)) then
                    etharp_send_ip pt nif q (hwaddr nif) (arp_ethaddr (arp_table st ! i)) (st\<lparr>etharp_cached_entry := i\<rparr>)
                  else if arp_state (arp_table st ! i) = ETHARP_STATE_PENDING then queue_on pt i q st
                  else Some (result, st))
           })
      })"

section \<open>Output\<close>

definition etharp_output_to_arp_index :: "port \<Rightarrow> netif \<Rightarrow> loc \<Rightarrow> nat \<Rightarrow> lan \<Rightarrow> (err_t \<times> lan) option" where
  "etharp_output_to_arp_index pt nif q i st = do {
     lwip_assert (is_stable (arp_state (arp_table st ! i)));
     st \<leftarrow> (if arp_state (arp_table st ! i) = ETHARP_STATE_STABLE \<and> ARP_AGE_REREQUEST_USED \<le> arp_ctime (arp_table st ! i)
            then do {
              (err, st) \<leftarrow> etharp_request pt nif (arp_ipaddr (arp_table st ! i)) st;
              Some (if err = ERR_OK
                    then set_entry i (\<lambda>e. e\<lparr>arp_state := ETHARP_STATE_STABLE_REREQUESTING\<rparr>) st else st)
            }
            else Some st);
     etharp_send_ip pt nif q (hwaddr nif) (arp_ethaddr (arp_table st ! i)) st
   }"

fun stable_scan :: "u32 \<Rightarrow> nat \<Rightarrow> etharp_entry list \<Rightarrow> nat option" where
  "stable_scan ip i [] = None"
| "stable_scan ip i (e # es) =
     (if is_stable (arp_state e) \<and> ip = arp_ipaddr e then Some i else stable_scan ip (i + 1) es)"

definition unicast_output :: "port \<Rightarrow> netif \<Rightarrow> loc \<Rightarrow> u32 \<Rightarrow> lan \<Rightarrow> (err_t \<times> lan) option" where
  "unicast_output pt nif q dst st =
     (let cached = arp_table st ! etharp_cached_entry st in
      if is_stable (arp_state cached) \<and> dst = arp_ipaddr cached
      then etharp_output_to_arp_index pt nif q (etharp_cached_entry st) st
      else case stable_scan dst 0 (arp_table st) of
          Some i \<Rightarrow> etharp_output_to_arp_index pt nif q i (st\<lparr>etharp_cached_entry := i\<rparr>)
        | None \<Rightarrow> etharp_query pt nif dst (Some q) st)"

definition etharp_output :: "port \<Rightarrow> netif \<Rightarrow> loc \<Rightarrow> u32 \<Rightarrow> lan \<Rightarrow> (err_t \<times> lan) option" where
  "etharp_output pt nif q ip st = do {
     (fail, n) \<leftarrow> pbuf_header q (int SIZEOF_ETH_HDR) (lnet st);
     let st = st\<lparr>lnet := n\<rparr>;
     (if fail \<noteq> 0 then Some (ERR_BUF, st)
      else if ip4_addr_isbroadcast ip nif then etharp_send_ip pt nif q (hwaddr nif) ethbroadcast st
      else if ip_addr_ismulticast ip then
        etharp_send_ip pt nif q (hwaddr nif)
          [0x01, 0x00, 0x5e, ip_bytes ip ! 1 AND 0x7f, ip_bytes ip ! 2, ip_bytes ip ! 3] st
      else if \<not> ip_addr_netcmp ip (ip_addr nif) (netmask nif) \<and> \<not> ip_addr_islinklocal ip then
        (if gw nif \<noteq> IPADDR_ANY then unicast_output pt nif q (gw nif) st else Some (ERR_RTE, st))
      else unicast_output pt nif q ip st)
   }"

section \<open>Input\<close>

text \<open>The \<open>switch\<close> on the operation of an ARP packet.\<close>

definition arp_opcode :: "port \<Rightarrow> netif \<Rightarrow> loc \<Rightarrow> u8 list \<Rightarrow> u32 \<Rightarrow> u8 list \<Rightarrow> bool \<Rightarrow> lan \<Rightarrow> lan option" where
  "arp_opcode pt nif p opcode sipaddr shwaddr for_us st =
     (if opcode = ARP_REQUEST then
        if for_us then do {
          lwip_assert (hwaddr_len nif = ETHARP_HWADDR_LEN);
          st \<leftarrow> puts p [(20, ARP_REPLY), (38, ip_bytes sipaddr), (28, ip_bytes (ip_addr nif)), (32, shwaddr),
                       (0, shwaddr), (22, hwaddr nif), (6, hwaddr nif)] st;
          map_option snd (low_level_output pt p st)
        } else Some st
      else if opcode = ARP_REPLY then dhcp_arp_reply pt sipaddr st
      else Some st)"

definition etharp_arp_input :: "port \<Rightarrow> netif \<Rightarrow> loc \<Rightarrow> lan \<Rightarrow> lan option" where
  "etharp_arp_input pt nif p st =
     (if plen (buf st p) < SIZEOF_ETHARP_PACKET then release pt p st
      else do {
        hdr \<leftarrow> rd p 14 28 st;
        (if take 2 hdr \<noteq> HWTYPE_ETHERNET \<or> hdr ! 4 \<noteq> 6 \<or> hdr ! 5 \<noteq> 4 \<or> take 2 (drop 2 hdr) \<noteq> ETHTYPE_IP
         then release pt p st
         else do {
           let sipaddr = ip_of_bytes (drop 14 hdr);
           let dipaddr = ip_of_bytes (drop 24 hdr);
           let shwaddr = take 6 (drop 8 hdr);
           let for_us = (ip_addr nif \<noteq> IPADDR_ANY \<and> dipaddr = ip_addr nif);
           (_, st) \<leftarrow> etharp_update_arp_entry pt nif sipaddr shwaddr for_us (\<not> for_us) st;
           st \<leftarrow> arp_opcode pt nif p (take 2 (drop 6 hdr)) sipaddr shwaddr for_us st;
           release pt p st
         })
      })"

definition mark_cast :: "loc \<Rightarrow> u8 list \<Rightarrow> lan \<Rightarrow> lan" where
  "mark_cast p dest st =
     (let flag = (if dest ! 0 AND 1 = 0 then 0
                  else if dest ! 0 = 0x01 then if dest ! 1 = 0x00 \<and> dest ! 2 = 0x5e then PBUF_FLAG_LLMCAST else 0
                  else if dest = ethbroadcast then PBUF_FLAG_LLBCAST else 0)
      in st\<lparr>lnet := set_pb p (\<lambda>b. b\<lparr>pflags := pflags b OR flag\<rparr>) (lnet st)\<rparr>)"

definition ethernet_input :: "port \<Rightarrow> netif \<Rightarrow> loc \<Rightarrow> lan \<Rightarrow> lan option" where
  "ethernet_input pt nif p st =
     (if plen (buf st p) \<le> SIZEOF_ETH_HDR then release pt p st
      else do {
        hdr \<leftarrow> rd p 0 14 st;
        let st = mark_cast p (take 6 hdr) st;
        (if drop 12 hdr = ETHTYPE_IP then
           if netif_flags nif AND NETIF_FLAG_ETHARP = 0 then release pt p st
           else do {
             (fail, n) \<leftarrow> pbuf_header p (- int SIZEOF_ETH_HDR) (lnet st);
             (if fail \<noteq> 0 then None else ip_handler pt p (st\<lparr>lnet := n\<rparr>))
           }
         else if drop 12 hdr = ETHTYPE_ARP then
           if netif_flags nif AND NETIF_FLAG_ETHARP = 0 then release pt p st
           else etharp_arp_input pt nif p st
         else release pt p st)
      })"

text \<open>
  The receive interrupt: the frames that are in the ring, one after the other; a frame
  received with an error is \<open>None\<close> and is dropped by the driver. A frame that finds the pool
  empty fails an assertion, and one of length 0 would be asked for again and again.
\<close>

definition receive_frame :: "port \<Rightarrow> netif \<Rightarrow> u8 list \<Rightarrow> lan \<Rightarrow> lan option" where
  "receive_frame pt nif frame st = do {
     (p, n) \<leftarrow> pbuf_alloc (custom_free pt) PBUF_RAW (length frame) PBUF_POOL (lnet st);
     (case p of
        None \<Rightarrow> None
      | Some p \<Rightarrow> do {
          lwip_assert (payload (pb n p) \<noteq> None);
          let n = set_pb p (\<lambda>b. b\<lparr>plen := trunc16 (length frame)\<rparr>) n;
          st \<leftarrow> puts p [(0, take (plen (pb n p)) frame)] (st\<lparr>lnet := n\<rparr>);
          etype \<leftarrow> rd p 12 2 st;
          (if etype = ETHTYPE_IP \<or> etype = ETHTYPE_ARP then ethernet_input pt nif p st else release pt p st)
        })
   }"

fun ethernetif_input :: "port \<Rightarrow> netif \<Rightarrow> u8 list option list \<Rightarrow> lan \<Rightarrow> lan option" where
  "ethernetif_input pt nif [] st = Some st"
| "ethernetif_input pt nif (None # fs) st = ethernetif_input pt nif fs st"
| "ethernetif_input pt nif (Some f # fs) st =
     (if f = [] then None else Option.bind (receive_frame pt nif f st) (ethernetif_input pt nif fs))"

end
