(* ===== verification/EtharpProps.thy ===== *)
theory EtharpProps
  imports Etharp PbufProps
begin

text \<open>
  Reception and address resolution: what arrives at the upper layers, and what the ARP
  table holds.
\<close>

unbundle bit_operations_syntax

section \<open>Access to packets\<close>

lemma poke_block:
  assumes "payload (pb n p) = Some (b, off)"
  shows "poke (payload (pb n p)) (int i) xs n = Some (n\<lparr>bytes := (bytes n)(b := (\<lambda>k.
     if off + int i \<le> k \<and> k < off + int i + int (length xs) then xs ! nat (k - (off + int i)) else bytes n b k))\<rparr>)"
  by (simp add: poke_def assms)

lemma rd_data:
  assumes "payload (buf st p) \<noteq> None" and "i + k \<le> plen (buf st p)"
  shows "rd p i k st = Some (take k (drop i (buf_data (lnet st) p)))"
  using peek_data[of "lnet st" p i k] assms by (simp add: rd_def buf_def)

text \<open>A frame written to the start of the payload, however long it is.\<close>

lemma put_frame:
  assumes "payload (pb n p) = Some (p, off)"
  shows "\<exists>bs. poke (payload (pb n p)) 0 xs n = Some (n\<lparr>bytes := (bytes n)(p := bs)\<rparr>) \<and>
     (\<forall>j < length xs. bs (off + int j) = xs ! j)"
  using poke_block[OF assms, of 0 xs] by (intro exI conjI) (simp, simp)

section \<open>Reception\<close>

lemma nbufs_raw: "nbufs_for PBUF_RAW len = Suc (nbufs (len - 600))"
  by (simp add: nbufs_for_def align4_def)

text \<open>The state in which a received frame is handed on.\<close>

lemma receive_frame_eq:
  assumes ok: "memp_ok sizes (npools (lnet st)) F" "all_plain sizes (pb (lnet st))" "length frame < 65536"
    and n: "nbufs_for PBUF_RAW (length frame) \<le> length (F MEMP_PBUF_POOL)"
  defines "es \<equiv> take (nbufs_for PBUF_RAW (length frame)) (F MEMP_PBUF_POOL)"
  defines "p \<equiv> Pool (hd es)"
  shows "\<exists>f mp bs off. let n0 = (lnet st)\<lparr>pb := f, npools := mp\<rparr>;
       st1 = st\<lparr>lnet := (set_pb p (\<lambda>b. b\<lparr>plen := length frame\<rparr>) n0)\<lparr>bytes := (bytes (lnet st))(p := bs)\<rparr>\<rparr> in
     receive_frame pt nif frame st = Option.bind (rd p 12 2 st1) (\<lambda>etype.
       if etype = ETHTYPE_IP \<or> etype = ETHTYPE_ARP then ethernet_input pt nif p st1 else release pt p st1) \<and>
     packet n0 es (length frame) \<and> payload (f p) = Some (p, off) \<and> int SIZEOF_STRUCT_PBUF \<le> off \<and>
     (\<forall>j < length frame. bs (off + int j) = frame ! j) \<and>
     memp_ok sizes mp (F(MEMP_PBUF_POOL := drop (nbufs_for PBUF_RAW (length frame)) (F MEMP_PBUF_POOL))) \<and>
     (\<forall>l. l \<notin> Pool ` set es \<longrightarrow> f l = pb (lnet st) l)"
proof -
  have "F MEMP_PBUF_POOL \<noteq> []" using n by (auto simp: nbufs_for_def)
  then have hd: "hd es = hd (F MEMP_PBUF_POOL)" by (simp add: es_def nbufs_for_def)
  obtain f mp where a: "pbuf_alloc (custom_free pt) PBUF_RAW (length frame) PBUF_POOL (lnet st) =
      Some (Some p, (lnet st)\<lparr>pb := f, npools := mp\<rparr>)"
    "packet ((lnet st)\<lparr>pb := f, npools := mp\<rparr>) es (length frame)"
    "memp_ok sizes mp (F(MEMP_PBUF_POOL := drop (nbufs_for PBUF_RAW (length frame)) (F MEMP_PBUF_POOL)))"
    "\<forall>l. l \<notin> Pool ` set es \<longrightarrow> f l = pb (lnet st) l"
    using pbuf_alloc_enough[OF ok n, of "custom_free pt"]
    unfolding hd[symmetric] es_def[symmetric] p_def[symmetric] by blast
  define n0 where "n0 = (lnet st)\<lparr>pb := f, npools := mp\<rparr>"
  have "inside f (hd es)" using a(2) by (simp add: packet_def)
  then obtain off where off: "payload (f p) = Some (p, off)" "int SIZEOF_STRUCT_PBUF \<le> off"
    unfolding inside_def p_def by blast
  define n1 where "n1 = set_pb p (\<lambda>b. b\<lparr>plen := length frame\<rparr>) n0"
  have "payload (pb n1 p) = Some (p, off)" using off(1) by (simp add: n1_def n0_def)
  from put_frame[OF this, of frame] obtain bs where
    bs: "poke (payload (pb n1 p)) 0 frame n1 = Some (n1\<lparr>bytes := (bytes n1)(p := bs)\<rparr>)" "\<forall>j < length frame. bs (off + int j) = frame ! j"
    by blast
  have "poke (payload (pb n0 p)) 0 frame n1 = Some (n1\<lparr>bytes := (bytes n1)(p := bs)\<rparr>)"
    using bs(1) by (simp add: n1_def)
  moreover have "bytes n1 = bytes (lnet st)" by (simp add: n1_def n0_def)
  moreover have "payload (pb n0 p) \<noteq> None" using off(1) by (simp add: n0_def)
  moreover have "trunc16 (length frame) = length frame" using ok(3) by simp
  moreover have "plen (pb n1 p) = length frame" by (simp add: n1_def)
  ultimately have "receive_frame pt nif frame st = Option.bind (rd p 12 2 (st\<lparr>lnet := n1\<lparr>bytes := (bytes (lnet st))(p := bs)\<rparr>\<rparr>)) (\<lambda>etype.
       if etype = ETHTYPE_IP \<or> etype = ETHTYPE_ARP
       then ethernet_input pt nif p (st\<lparr>lnet := n1\<lparr>bytes := (bytes (lnet st))(p := bs)\<rparr>\<rparr>)
       else release pt p (st\<lparr>lnet := n1\<lparr>bytes := (bytes (lnet st))(p := bs)\<rparr>\<rparr>))"
    using a(1) by (simp add: receive_frame_def n0_def[symmetric] n1_def[symmetric] buf_def)
  then show ?thesis
    using a(2-4) off bs(2) unfolding Let_def n1_def n0_def by blast
qed


definition elem_end :: int where
  "elem_end = int (SIZEOF_STRUCT_PBUF + PBUF_POOL_BUFSIZE_ALIGNED)"

lemma long_frame:
  assumes ok: "memp_ok sizes (npools (lnet st)) F" "all_plain sizes (pb (lnet st))" "length frame < 65536"
    and n: "nbufs_for PBUF_RAW (length frame) \<le> length (F MEMP_PBUF_POOL)" and long: "PBUF_POOL_BUFSIZE_ALIGNED < length frame"
  shows "\<exists>st1 off. receive_frame pt nif frame st = Option.bind (rd (Pool (hd (F MEMP_PBUF_POOL))) 12 2 st1) (\<lambda>etype.
       if etype = ETHTYPE_IP \<or> etype = ETHTYPE_ARP then ethernet_input pt nif (Pool (hd (F MEMP_PBUF_POOL))) st1
       else release pt (Pool (hd (F MEMP_PBUF_POOL))) st1) \<and>
     (\<forall>j < length frame. bytes (lnet st1) (Pool (hd (F MEMP_PBUF_POOL))) (off + int j) = frame ! j) \<and>
     elem_end \<le> off + int (length frame) - 1 \<and>
     plen (buf st1 (Pool (hd (F MEMP_PBUF_POOL)))) = tot_len (buf st1 (Pool (hd (F MEMP_PBUF_POOL)))) \<and>
     pnext (buf st1 (Pool (hd (F MEMP_PBUF_POOL)))) \<noteq> None"
proof -
  define es where "es = take (nbufs_for PBUF_RAW (length frame)) (F MEMP_PBUF_POOL)"
  have "F MEMP_PBUF_POOL \<noteq> []" using n by (auto simp: nbufs_for_def)
  then have h: "hd es = hd (F MEMP_PBUF_POOL)" by (simp add: es_def nbufs_for_def)
  define p where "p = Pool (hd (F MEMP_PBUF_POOL))"
  obtain f mp bs off where r: "receive_frame pt nif frame st =
      Option.bind (rd p 12 2 (st\<lparr>lnet := (set_pb p (\<lambda>b. b\<lparr>plen := length frame\<rparr>) ((lnet st)\<lparr>pb := f, npools := mp\<rparr>))\<lparr>bytes := (bytes (lnet st))(p := bs)\<rparr>\<rparr>)) (\<lambda>etype.
       if etype = ETHTYPE_IP \<or> etype = ETHTYPE_ARP
       then ethernet_input pt nif p (st\<lparr>lnet := (set_pb p (\<lambda>b. b\<lparr>plen := length frame\<rparr>) ((lnet st)\<lparr>pb := f, npools := mp\<rparr>))\<lparr>bytes := (bytes (lnet st))(p := bs)\<rparr>\<rparr>)
       else release pt p (st\<lparr>lnet := (set_pb p (\<lambda>b. b\<lparr>plen := length frame\<rparr>) ((lnet st)\<lparr>pb := f, npools := mp\<rparr>))\<lparr>bytes := (bytes (lnet st))(p := bs)\<rparr>\<rparr>))"
     "packet ((lnet st)\<lparr>pb := f, npools := mp\<rparr>) es (length frame)" "int SIZEOF_STRUCT_PBUF \<le> off"
     "\<forall>j < length frame. bs (off + int j) = frame ! j"
    using receive_frame_eq[OF ok n, of pt nif] unfolding Let_def es_def[symmetric] h p_def by blast
  have "nbufs (length frame - 600) \<noteq> 0" using long nbufs_step[of "length frame - 600"] by simp
  then have "2 \<le> length es" using n by (simp add: es_def nbufs_raw)
  then obtain e e' es' where es: "es = e # e' # es'" by (cases es; cases "tl es") auto
  have e: "p = Pool e" using h es by (simp add: p_def)
  have "tot_len (f p) = length frame" "pnext (f p) = Some (Pool e')"
    using r(2) es e by (auto simp: packet_def)
  moreover define st1 where "st1 = st\<lparr>lnet := (set_pb p (\<lambda>b. b\<lparr>plen := length frame\<rparr>) ((lnet st)\<lparr>pb := f, npools := mp\<rparr>))
     \<lparr>bytes := (bytes (lnet st))(p := bs)\<rparr>\<rparr>"
  ultimately have "plen (buf st1 p) = tot_len (buf st1 p)" "pnext (buf st1 p) \<noteq> None" "bytes (lnet st1) p = bs"
    by (simp_all add: buf_def)
  moreover have "elem_end \<le> off + int (length frame) - 1" using r(3) long by (simp add: elem_end_def)
  ultimately show ?thesis unfolding p_def[symmetric]
    using r(1,4) unfolding st1_def[symmetric] by (intro exI[of _ st1] exI[of _ off]) simp
qed

lemma short_frame:
  assumes ok: "memp_ok sizes (npools (lnet st)) F" "all_plain sizes (pb (lnet st))"
    and F: "F MEMP_PBUF_POOL = e # es" and len: "length frame \<le> PBUF_POOL_BUFSIZE_ALIGNED"
  shows "\<exists>n1. receive_frame pt nif frame st = Option.bind (rd (Pool e) 12 2 (st\<lparr>lnet := n1\<rparr>)) (\<lambda>etype.
       if etype = ETHTYPE_IP \<or> etype = ETHTYPE_ARP then ethernet_input pt nif (Pool e) (st\<lparr>lnet := n1\<rparr>)
       else release pt (Pool e) (st\<lparr>lnet := n1\<rparr>)) \<and>
     packet n1 [e] (length frame) \<and> buf_data n1 (Pool e) = frame \<and>
     memp_ok sizes (npools n1) (F(MEMP_PBUF_POOL := es)) \<and> nheap n1 = nheap (lnet st) \<and>
     (\<forall>l. l \<noteq> Pool e \<longrightarrow> pb n1 l = pb (lnet st) l \<and> bytes n1 l = bytes (lnet st) l)"
proof -
  have nb: "nbufs_for PBUF_RAW (length frame) = 1" using len by (simp add: nbufs_raw)
  have F1: "take 1 (F MEMP_PBUF_POOL) = [e]" "drop 1 (F MEMP_PBUF_POOL) = es" "1 \<le> length (F MEMP_PBUF_POOL)"
    "length frame < 65536" using F len by simp_all
  obtain f mp bs off where r: "receive_frame pt nif frame st =
      Option.bind (rd (Pool e) 12 2 (st\<lparr>lnet := (set_pb (Pool e) (\<lambda>b. b\<lparr>plen := length frame\<rparr>) ((lnet st)\<lparr>pb := f, npools := mp\<rparr>))\<lparr>bytes := (bytes (lnet st))(Pool e := bs)\<rparr>\<rparr>)) (\<lambda>etype.
       if etype = ETHTYPE_IP \<or> etype = ETHTYPE_ARP
       then ethernet_input pt nif (Pool e) (st\<lparr>lnet := (set_pb (Pool e) (\<lambda>b. b\<lparr>plen := length frame\<rparr>) ((lnet st)\<lparr>pb := f, npools := mp\<rparr>))\<lparr>bytes := (bytes (lnet st))(Pool e := bs)\<rparr>\<rparr>)
       else release pt (Pool e) (st\<lparr>lnet := (set_pb (Pool e) (\<lambda>b. b\<lparr>plen := length frame\<rparr>) ((lnet st)\<lparr>pb := f, npools := mp\<rparr>))\<lparr>bytes := (bytes (lnet st))(Pool e := bs)\<rparr>\<rparr>))"
     "packet ((lnet st)\<lparr>pb := f, npools := mp\<rparr>) [e] (length frame)" "payload (f (Pool e)) = Some (Pool e, off)"
     "\<forall>j < length frame. bs (off + int j) = frame ! j" "memp_ok sizes mp (F(MEMP_PBUF_POOL := es))"
     "\<forall>l. l \<noteq> Pool e \<longrightarrow> f l = pb (lnet st) l"
    using receive_frame_eq[OF ok F1(4), of pt nif] F1(3) unfolding Let_def nb F1(1,2) list.sel list.set
    by (auto simp: image_iff)
  have pl: "plen (f (Pool e)) = length frame" using r(2) by (simp add: packet_def)
  then have "f (Pool e)\<lparr>plen := length frame\<rparr> = f (Pool e)" by simp
  then have "f(Pool e := f (Pool e)\<lparr>plen := length frame\<rparr>) = f" by (simp only: fun_upd_triv)
  then have id: "set_pb (Pool e) (\<lambda>b. b\<lparr>plen := length frame\<rparr>) ((lnet st)\<lparr>pb := f, npools := mp\<rparr>) = (lnet st)\<lparr>pb := f, npools := mp\<rparr>"
    by (simp add: set_pb_def)
  define n1 where "n1 = (lnet st)\<lparr>pb := f, npools := mp, bytes := (bytes (lnet st))(Pool e := bs)\<rparr>"
  have "buf_data n1 (Pool e) = frame"
    using r(3,4) pl by (intro nth_equalityI) (simp_all add: buf_data_def n1_def)
  moreover have "packet n1 [e] (length frame)"
    using r(2) by (simp add: packet_def n1_def pool_buf_def inside_def)
  moreover have "npools n1 = mp" "nheap n1 = nheap (lnet st)" "pb n1 = f" "\<forall>l. l \<noteq> Pool e \<longrightarrow> bytes n1 l = bytes (lnet st) l"
    by (simp_all add: n1_def)
  ultimately show ?thesis using r(1,5,6) unfolding id n1_def[symmetric] by (intro exI[of _ n1]) simp
qed

section \<open>A frame in one buffer\<close>

text \<open>Pool element \<open>e\<close> is a packet of its own, and holds the bytes \<open>xs\<close>.\<close>

definition frame_in :: "net \<Rightarrow> nat \<Rightarrow> u8 list \<Rightarrow> bool" where
  "frame_in n e xs = (packet n [e] (length xs) \<and> buf_data n (Pool e) = xs)"

lemma frame_in_buf:
  assumes "frame_in n e xs"
  obtains off where "payload (pb n (Pool e)) = Some (Pool e, off)" "int SIZEOF_STRUCT_PBUF \<le> off"
    "plen (pb n (Pool e)) = length xs" "tot_len (pb n (Pool e)) = length xs" "pnext (pb n (Pool e)) = None"
    "pool_buf n e" "off + int (length xs) \<le> elem_end"
proof -
  have "inside (pb n) e" "plen (pb n (Pool e)) = length xs" "tot_len (pb n (Pool e)) = length xs"
    "pnext (pb n (Pool e)) = None" "pool_buf n e"
    using assms by (simp_all add: frame_in_def packet_def)
  then show thesis using that unfolding inside_def elem_end_def by auto
qed

lemma frame_in_iff: "frame_in n e xs = (pnext (pb n (Pool e)) = None \<and> plen (pb n (Pool e)) = length xs \<and>
    tot_len (pb n (Pool e)) = length xs \<and> pool_buf n e \<and> inside (pb n) e \<and> buf_data n (Pool e) = xs)"
  by (auto simp: frame_in_def packet_def)

lemma frame_in_len: "frame_in n e xs \<Longrightarrow> plen (pb n (Pool e)) = length xs"
  "frame_in n e xs \<Longrightarrow> tot_len (pb n (Pool e)) = length xs"
  by (auto elim: frame_in_buf)

lemma frame_in_payload: "frame_in n e xs \<Longrightarrow> payload (pb n (Pool e)) \<noteq> None"
  by (auto elim: frame_in_buf)

lemma frame_in_data: "frame_in n e xs \<Longrightarrow> buf_data n (Pool e) = xs"
  by (simp add: frame_in_def)

lemma frame_in_rd: "frame_in (lnet st) e xs \<Longrightarrow> i + k \<le> length xs \<Longrightarrow> rd (Pool e) i k st = Some (take k (drop i xs))"
  using rd_data[of st "Pool e" i k] by (simp add: buf_def frame_in_payload frame_in_data frame_in_len del: not_None_eq)

lemma inside_same: "payload (g (Pool e)) = payload (f (Pool e)) \<Longrightarrow> plen (g (Pool e)) = plen (f (Pool e)) \<Longrightarrow> inside g e = inside f e"
  by (simp add: inside_def)

lemma buf_data_same: "payload (pb n' p) = payload (pb n p) \<Longrightarrow> plen (pb n' p) = plen (pb n p) \<Longrightarrow> bytes n' = bytes n \<Longrightarrow>
    buf_data n' p = buf_data n p"
  by (simp add: buf_data_def split: option.splits)

text \<open>A packet of one buffer that keeps its record keeps being one.\<close>

lemma frame_in_same:
  assumes "frame_in n e xs" and "pb n' (Pool e) = pb n (Pool e)" and "buf_data n' (Pool e) = ys" and "length ys = length xs"
  shows "frame_in n' e ys"
  using assms inside_same[of "pb n'" e "pb n"] by (simp add: frame_in_iff pool_buf_def)

lemma frame_in_byte:
  assumes "frame_in n e xs" and "payload (pb n (Pool e)) = Some (b, off)" and "k < length xs"
  shows "bytes n b (off + int k) = xs ! k"
proof -
  have "xs ! k = buf_data n (Pool e) ! k" using assms(1) by (simp add: frame_in_data)
  also have "\<dots> = bytes n b (off + int k)" using assms frame_in_len(1)[OF assms(1)] by (simp add: buf_data_def)
  finally show ?thesis by simp
qed

text \<open>Only the content of buffer \<open>e\<close> differs.\<close>

definition rewritten :: "nat \<Rightarrow> net \<Rightarrow> net \<Rightarrow> bool" where
  "rewritten e n n' = (pb n' = pb n \<and> npools n' = npools n \<and> nheap n' = nheap n \<and>
     (\<forall>l. l \<noteq> Pool e \<longrightarrow> bytes n' l = bytes n l))"

lemma frame_in_write:
  assumes f: "frame_in n e xs" and w: "i + length ys \<le> length xs"
  shows "\<exists>n'. poke (payload (pb n (Pool e))) (int i) ys n = Some n' \<and> frame_in n' e (blit i ys xs) \<and> rewritten e n n'"
proof -
  obtain off where p: "payload (pb n (Pool e)) = Some (Pool e, off)" "plen (pb n (Pool e)) = length xs"
    using f by (elim frame_in_buf)
  have old: "bytes n (Pool e) (off + int k) = xs ! k" if "k < length xs" for k
    by (rule frame_in_byte[OF f p(1) that])
  define n' where "n' = n\<lparr>bytes := (bytes n)(Pool e := (\<lambda>k. if off + int i \<le> k \<and> k < off + int i + int (length ys)
       then ys ! nat (k - (off + int i)) else bytes n (Pool e) k))\<rparr>"
  have new: "bytes n' (Pool e) (off + int k) = blit i ys xs ! k" if "k < length xs" for k
  proof -
    have "nat (off + int k - (off + int i)) = k - i" by simp
    then show ?thesis using that w by (simp add: n'_def nth_blit old)
  qed
  have "buf_data n' (Pool e) = map (\<lambda>k. bytes n' (Pool e) (off + int k)) [0..<length xs]"
    using p by (simp add: buf_data_def n'_def)
  also have "\<dots> = blit i ys xs" using w by (intro nth_equalityI) (simp_all add: new)
  finally have "frame_in n' e (blit i ys xs)"
    using w by (intro frame_in_same[OF f]) (simp_all add: n'_def)
  moreover have "rewritten e n n'" by (simp add: rewritten_def n'_def)
  ultimately show ?thesis using poke_block[OF p(1), of i ys] unfolding n'_def[symmetric] by blast
qed

lemma puts_frame:
  "frame_in (lnet st) e xs \<Longrightarrow> \<forall>(i, ys) \<in> set ws. i + length ys \<le> length xs \<Longrightarrow>
   \<exists>n'. puts (Pool e) ws st = Some (st\<lparr>lnet := n'\<rparr>) \<and>
     frame_in n' e (fold (\<lambda>(i, ys). blit i ys) ws xs) \<and> rewritten e (lnet st) n'"
proof (induction "Pool e" ws st arbitrary: xs rule: puts.induct)
  case (1 st)
  then show ?case by (intro exI[of _ "lnet st"]) (simp add: rewritten_def)
next
  case (2 i ys ws st)
  obtain n' where n': "poke (payload (buf st (Pool e))) (int i) ys (lnet st) = Some n'" "frame_in n' e (blit i ys xs)"
    "rewritten e (lnet st) n'"
    using frame_in_write[OF 2(2), of i ys] 2(3) by (auto simp: buf_def)
  have "length (blit i ys xs) = length xs" using 2(3) by simp
  with 2(1)[of n' "blit i ys xs"] 2(3) n' obtain n'' where "puts (Pool e) ws (st\<lparr>lnet := n'\<rparr>) = Some (st\<lparr>lnet := n''\<rparr>)"
    "frame_in n'' e (fold (\<lambda>(i, ys). blit i ys) ws (blit i ys xs))" "rewritten e n' n''"
    by auto
  with n' show ?case by (intro exI[of _ n'']) (auto simp: rewritten_def)
qed

lemma low_level_output_frame:
  "frame_in (lnet st) e xs \<Longrightarrow> low_level_output pt (Pool e) st = Some (transmit pt xs st)"
  by (simp add: low_level_output_def buf_def frame_in_rd frame_in_len)

lemma cast_flags: "flag \<in> {0, PBUF_FLAG_LLMCAST, PBUF_FLAG_LLBCAST} \<Longrightarrow> x AND PBUF_FLAG_IS_CUSTOM = 0 \<Longrightarrow>
    (x OR flag) AND PBUF_FLAG_IS_CUSTOM = 0"
  by (simp only: bit.conj_disj_distrib2) auto

lemma mark_cast_frame:
  assumes "frame_in (lnet st) e xs"
  shows "\<exists>n'. mark_cast (Pool e) d st = st\<lparr>lnet := n'\<rparr> \<and> frame_in n' e xs \<and>
     npools n' = npools (lnet st) \<and> nheap n' = nheap (lnet st)"
proof -
  have "\<exists>flag \<in> {0, PBUF_FLAG_LLMCAST, PBUF_FLAG_LLBCAST}. mark_cast (Pool e) d st
      = st\<lparr>lnet := set_pb (Pool e) (\<lambda>b. b\<lparr>pflags := pflags b OR flag\<rparr>) (lnet st)\<rparr>"
    unfolding mark_cast_def Let_def by auto
  then obtain flag where flag: "flag \<in> {0, PBUF_FLAG_LLMCAST, PBUF_FLAG_LLBCAST}"
    "mark_cast (Pool e) d st = st\<lparr>lnet := set_pb (Pool e) (\<lambda>b. b\<lparr>pflags := pflags b OR flag\<rparr>) (lnet st)\<rparr>" by blast
  have "pool_buf (lnet st) e" using assms by (auto elim: frame_in_buf)
  with cast_flags[OF flag(1)] have
    "pool_buf (set_pb (Pool e) (\<lambda>b. b\<lparr>pflags := pflags b OR flag\<rparr>) (lnet st)) e" (is "pool_buf ?n e")
    by (simp add: pool_buf_def)
  then have "frame_in ?n e xs"
    using assms inside_same[of "pb ?n" e "pb (lnet st)"] buf_data_same[of ?n "Pool e" "lnet st"] by (simp add: frame_in_iff)
  with flag(2) show ?thesis by auto
qed

lemma release_frame:
  assumes "frame_in (lnet st) e xs" and ok: "memp_ok sizes (npools (lnet st)) F" and "e \<notin> set (F MEMP_PBUF_POOL)"
    and "e \<in> set (elems sizes MEMP_PBUF_POOL)"
  shows "\<exists>n'. release pt (Pool e) st = Some (st\<lparr>lnet := n'\<rparr>) \<and> memp_ok sizes (npools n') (F(MEMP_PBUF_POOL := e # F MEMP_PBUF_POOL)) \<and>
     nheap n' = nheap (lnet st)"
proof -
  have "pchain (pb (lnet st)) (Some (Pool e)) (map Pool [e]) None" "\<forall>x \<in> set [e]. pool_buf (lnet st) x"
    using assms(1) by (auto elim: frame_in_buf)
  from free_loop_spec[OF ok _ _ _ this, of 0 "custom_free pt"] assms(3,4) obtain mp where "pbuf_free_loop (custom_free pt) (Some (Pool e)) 0 (lnet st) =
      Some (1, (lnet st)\<lparr>pb := released (lnet st) [e] None, npools := mp\<rparr>)"
    "memp_ok sizes mp (F(MEMP_PBUF_POOL := e # F MEMP_PBUF_POOL))"
    by (simp add: stops_def image_iff) blast
  then show ?thesis by (auto simp: release_def pbuf_free_def lwip_assert_def)
qed

lemma header_off:
  assumes f: "frame_in n e xs" and k: "0 < k" "k \<le> length xs" "length xs < 65536"
  shows "\<exists>n'. pbuf_header (Pool e) (- int k) n = Some (0, n') \<and> frame_in n' e (drop k xs) \<and>
     npools n' = npools n \<and> nheap n' = nheap n"
proof -
  obtain off where p: "payload (pb n (Pool e)) = Some (Pool e, off)" "int SIZEOF_STRUCT_PBUF \<le> off"
    "plen (pb n (Pool e)) = length xs" "tot_len (pb n (Pool e)) = length xs" "pnext (pb n (Pool e)) = None"
    "pool_buf n e" "off + int (length xs) \<le> elem_end"
    using f by (elim frame_in_buf)
  define n' where "n' = set_pb (Pool e) (\<lambda>b. b\<lparr>payload := Some (Pool e, off + int k),
     plen := length xs - k, tot_len := length xs - k\<rparr>) n"
  have old: "bytes n (Pool e) (off + int j) = xs ! j" if "j < length xs" for j
    by (rule frame_in_byte[OF f p(1) that])
  have "buf_data n' (Pool e) = map (\<lambda>j. bytes n (Pool e) (off + int (k + j))) [0..<length xs - k]"
    by (simp add: n'_def buf_data_def add.assoc)
  also have "\<dots> = drop k xs" using k(2) by (intro nth_equalityI) (simp_all add: old del: of_nat_add)
  finally have "frame_in n' e (drop k xs)"
    using p k by (simp add: n'_def frame_in_iff pool_buf_def inside_def elem_end_def)
  moreover have "nat ((int (length xs) - int k) mod 65536) = length xs - k"
    using k by (simp add: nat_diff_distrib flip: of_nat_diff)
  then have "pbuf_header (Pool e) (- int k) n = Some (0, n')"
    using p k by (simp add: pbuf_header_def n'_def pool_buf_def)
  ultimately show ?thesis by (auto simp: n'_def)
qed

end
