(* ===== verification/EtharpTable.thy ===== *)
theory EtharpTable
  imports EtharpProps
begin

text \<open>
  The ARP table: what the search for an entry finds, and the invariant that every operation
  of \<open>etharp.c\<close> keeps.
\<close>

unbundle bit_operations_syntax

section \<open>The search\<close>

text \<open>What the candidates say of the entries before \<open>i\<close>.\<close>

definition cand_ok :: "etharp_entry list \<Rightarrow> nat \<Rightarrow> candidates \<Rightarrow> bool" where
  "cand_ok tab i c =
     ((c_empty c = 10 \<or> c_empty c < i \<and> arp_state (tab ! c_empty c) = ETHARP_STATE_EMPTY) \<and>
      (old_stable c = 10 \<and> age_stable c = 0 \<or> old_stable c < i \<and> is_stable (arp_state (tab ! old_stable c))) \<and>
      (old_pending c = 10 \<and> age_pending c = 0 \<or> old_pending c < i \<and> arp_state (tab ! old_pending c) = ETHARP_STATE_PENDING) \<and>
      (old_queue c = 10 \<and> age_queue c = 0 \<or> old_queue c < i \<and> arp_state (tab ! old_queue c) = ETHARP_STATE_PENDING) \<and>
      (0 < i \<longrightarrow> c_empty c < 10 \<or> old_stable c < 10 \<or> old_pending c < 10 \<or> old_queue c < 10))"

lemma cand_ok_0: "cand_ok tab 0 no_candidates"
  by (simp add: cand_ok_def no_candidates_def)

lemma consider_ok:
  assumes "cand_ok tab i c" and "i < 10" and "arp_state (tab ! i) \<noteq> ETHARP_STATE_EMPTY"
  shows "cand_ok tab (Suc i) (consider_entry i (tab ! i) c)"
proof -
  let ?e = "tab ! i"
  have keep: "cand_ok tab (Suc i) c" if "old_stable c < 10 \<or> old_pending c < 10 \<or> old_queue c < 10"
    using assms(1) that unfolding cand_ok_def by (elim conjE) (intro conjI; force)
  have st: "cand_ok tab (Suc i) (c\<lparr>old_stable := i, age_stable := a\<rparr>)" if "is_stable (arp_state ?e)" for a
    using assms(1,2) that unfolding cand_ok_def by (elim conjE) (intro conjI; force)
  have pe: "cand_ok tab (Suc i) (c\<lparr>old_pending := i, age_pending := a\<rparr>)"
    and qu: "cand_ok tab (Suc i) (c\<lparr>old_queue := i, age_queue := a\<rparr>)" if "arp_state ?e = ETHARP_STATE_PENDING" for a
    using assms(1,2) that unfolding cand_ok_def by ((elim conjE, intro conjI; force), (elim conjE, intro conjI; force))
  have none: "age_stable c = 0 \<or> cand_ok tab (Suc i) c" "age_pending c = 0 \<or> cand_ok tab (Suc i) c"
    "age_queue c = 0 \<or> cand_ok tab (Suc i) c"
    using assms(1,2) keep by (auto simp: cand_ok_def)
  consider "arp_state ?e = ETHARP_STATE_PENDING" "arp_q ?e \<noteq> None" | "arp_state ?e = ETHARP_STATE_PENDING" "arp_q ?e = None"
    | "is_stable (arp_state ?e)" "arp_state ?e \<noteq> ETHARP_STATE_PENDING"
    using assms(3) by (cases "arp_state ?e") (auto simp: is_stable_def)
  then show ?thesis
  proof cases
    case 1
    then show ?thesis using qu none(3) by (cases "age_queue c \<le> arp_ctime ?e") (simp_all add: consider_entry_def)
  next
    case 2
    then show ?thesis using pe none(2) by (cases "age_pending c \<le> arp_ctime ?e") (simp_all add: consider_entry_def)
  next
    case 3
    then show ?thesis using st none(1) by (cases "age_stable c \<le> arp_ctime ?e") (simp_all add: consider_entry_def)
  qed
qed

lemma find_scan_spec:
  "cand_ok tab i c \<Longrightarrow> i + length es = length tab \<Longrightarrow> length tab \<le> 10 \<Longrightarrow> es = drop i tab \<Longrightarrow>
   \<forall>j < i. arp_state (tab ! j) \<noteq> ETHARP_STATE_EMPTY \<longrightarrow> ip \<noteq> Some (arp_ipaddr (tab ! j)) \<Longrightarrow>
   (case find_scan ip i es c of
      Inl k \<Rightarrow> k < length tab \<and> arp_state (tab ! k) \<noteq> ETHARP_STATE_EMPTY \<and> ip = Some (arp_ipaddr (tab ! k))
    | Inr c \<Rightarrow> cand_ok tab (length tab) c \<and>
        (\<forall>j < length tab. arp_state (tab ! j) \<noteq> ETHARP_STATE_EMPTY \<longrightarrow> ip \<noteq> Some (arp_ipaddr (tab ! j))))"
proof (induction es arbitrary: i c)
  case Nil
  then show ?case by simp
next
  case (Cons e es)
  have "i < length tab" "i < 10" using Cons.prems(2,3) by simp_all
  moreover then have "drop i tab = tab ! i # drop (Suc i) tab" by (simp add: Cons_nth_drop_Suc)
  ultimately have i: "i < length tab" "e = tab ! i" "es = drop (Suc i) tab" "i < 10" using Cons.prems(4) by simp_all
  consider (new) "c_empty c = 10" "arp_state e = ETHARP_STATE_EMPTY" | (taken) "arp_state e \<noteq> ETHARP_STATE_EMPTY"
    | (more) "c_empty c \<noteq> 10" "arp_state e = ETHARP_STATE_EMPTY" by blast
  then show ?case
  proof cases
    case new
    have "cand_ok tab (Suc i) (c\<lparr>c_empty := i\<rparr>)" using Cons.prems(1) new i by (auto simp: cand_ok_def)
    with Cons.IH[of "Suc i" "c\<lparr>c_empty := i\<rparr>"] Cons.prems(1-3,5) i new show ?thesis by (auto simp: less_Suc_eq)
  next
    case taken
    show ?thesis
    proof (cases "ip = Some (arp_ipaddr e)")
      case True
      then show ?thesis using taken i by simp
    next
      case False
      have "cand_ok tab (Suc i) (consider_entry i e c)" using consider_ok[OF Cons.prems(1)] i taken by simp
      with Cons.IH[of "Suc i" "consider_entry i e c"] Cons.prems(1-3,5) i taken False show ?thesis by (auto simp: less_Suc_eq)
    qed
  next
    case more
    have "cand_ok tab (Suc i) c" using Cons.prems(1) more by (auto simp: cand_ok_def)
    with Cons.IH[of "Suc i" c] Cons.prems(1-3,5) i more show ?thesis by (auto simp: less_Suc_eq)
  qed
qed

section \<open>The invariant\<close>

text \<open>
  Ten entries, the cached one among them, a packet waits only for an address being resolved,
  and no address is in two entries.
\<close>

definition table_ok :: "etharp_entry list \<Rightarrow> bool" where
  "table_ok tab = (length tab = 10 \<and>
     (\<forall>i < 10. arp_q (tab ! i) \<noteq> None \<longrightarrow> arp_state (tab ! i) = ETHARP_STATE_PENDING) \<and>
     (\<forall>i < 10. \<forall>j < 10. i \<noteq> j \<longrightarrow> arp_state (tab ! i) \<noteq> ETHARP_STATE_EMPTY \<longrightarrow>
        arp_state (tab ! j) \<noteq> ETHARP_STATE_EMPTY \<longrightarrow> arp_ipaddr (tab ! i) \<noteq> arp_ipaddr (tab ! j)))"

definition arp_ok :: "lan \<Rightarrow> bool" where
  "arp_ok st = (table_ok (arp_table st) \<and> etharp_cached_entry st < 10)"

lemma set_entry_sel [simp]:
  "arp_table (set_entry i f st) = (arp_table st)[i := f (arp_table st ! i)]"
  "etharp_cached_entry (set_entry i f st) = etharp_cached_entry st"
  "lnet (set_entry i f st) = lnet st" "wire (set_entry i f st) = wire st"
  by (simp_all add: set_entry_def)

text \<open>An entry replaced by one whose address is in no other entry.\<close>

lemma table_ok_update:
  assumes "table_ok tab" and "i < 10" and "arp_q e \<noteq> None \<longrightarrow> arp_state e = ETHARP_STATE_PENDING"
    and "arp_state e = ETHARP_STATE_EMPTY \<or> (\<forall>j < 10. j \<noteq> i \<longrightarrow> arp_state (tab ! j) \<noteq> ETHARP_STATE_EMPTY \<longrightarrow>
      arp_ipaddr (tab ! j) \<noteq> arp_ipaddr e)"
  shows "table_ok (tab[i := e])"
proof -
  have "length tab = 10" using assms(1) by (simp add: table_ok_def)
  with assms show ?thesis unfolding table_ok_def by (auto simp: nth_list_update)
qed

lemma table_ok_same_address:
  assumes "table_ok tab" and "i < 10" and "arp_q e \<noteq> None \<longrightarrow> arp_state e = ETHARP_STATE_PENDING"
    and "arp_state e = ETHARP_STATE_EMPTY \<or> arp_state (tab ! i) \<noteq> ETHARP_STATE_EMPTY \<and> arp_ipaddr e = arp_ipaddr (tab ! i)"
  shows "table_ok (tab[i := e])"
  using assms by (intro table_ok_update) (auto simp: table_ok_def)

text \<open>Frames and packets leave the table alone.\<close>

definition same_table :: "lan \<Rightarrow> lan \<Rightarrow> bool" where
  "same_table st st' = (arp_table st' = arp_table st \<and> etharp_cached_entry st' = etharp_cached_entry st)"

lemma same_table_simps [simp]: "same_table st st" "same_table st (st\<lparr>lnet := n\<rparr>)" "same_table st (st\<lparr>ucBuffer := b\<rparr>)"
    "same_table st (st\<lparr>wire := w\<rparr>)"
  by (simp_all add: same_table_def)

lemma same_table_trans: "same_table a b \<Longrightarrow> same_table b c \<Longrightarrow> same_table a c"
  by (simp add: same_table_def)

lemma puts_table: "puts p ws st = Some st' \<Longrightarrow> same_table st st'"
  by (induction p ws st rule: puts.induct) (auto simp: same_table_def split: bind_splits)

lemma release_table: "release pt p st = Some st' \<Longrightarrow> same_table st st'"
  by (auto simp: release_def)

lemma transmit_table: "transmit pt frame st = (err, st') \<Longrightarrow> same_table st st'"
  by (auto simp: transmit_def split: if_splits)

lemma low_level_output_table: "low_level_output pt p st = Some (err, st') \<Longrightarrow> same_table st st'"
  by (auto simp: low_level_output_def split: if_splits dest!: transmit_table) (simp add: same_table_def)

lemma etharp_send_ip_table: "etharp_send_ip pt nif p src dst st = Some (err, st') \<Longrightarrow> same_table st st'"
  by (auto simp: etharp_send_ip_def simp del: puts.simps split: if_splits bind_splits dest!: puts_table low_level_output_table
      intro: same_table_trans)

lemma etharp_raw_table: "etharp_raw pt nif es ed hs ips hwd ipd oc st = Some (err, st') \<Longrightarrow> same_table st st'"
  unfolding etharp_raw_def Let_def
  by (auto split: if_splits bind_splits option.splits dest!: puts_table low_level_output_table release_table)
     (auto simp: same_table_def)

lemma etharp_request_table: "etharp_request pt nif ip st = Some (err, st') \<Longrightarrow> same_table st st'"
  unfolding etharp_request_def by (rule etharp_raw_table)

lemma take_over_table: "take_over pt q st = Some (r, st') \<Longrightarrow> same_table st st'"
  unfolding take_over_def
  by (auto split: if_splits bind_splits option.splits dest!: release_table) (auto simp: same_table_def)

end
