(* ===== verification/EtharpInv.thy ===== *)
theory EtharpInv
  imports EtharpTable
begin

text \<open>
  Every operation of \<open>etharp.c\<close> keeps the invariant of the ARP table.
\<close>

unbundle bit_operations_syntax

section \<open>Entries\<close>

lemma arp_ok_same: "arp_ok st \<Longrightarrow> same_table st st' \<Longrightarrow> arp_ok st'"
  by (simp add: arp_ok_def same_table_def)

lemma arp_ok_entry: "arp_ok st \<Longrightarrow> table_ok ((arp_table st)[i := f (arp_table st ! i)]) \<Longrightarrow> arp_ok (set_entry i f st)"
  by (simp add: arp_ok_def)

lemma arp_ok_length [simp]: "arp_ok st \<Longrightarrow> length (arp_table st) = 10"
  by (simp add: arp_ok_def table_ok_def)

lemma arp_ok_queue: "arp_ok st \<Longrightarrow> i < 10 \<Longrightarrow> arp_state (arp_table st ! i) \<noteq> ETHARP_STATE_PENDING \<Longrightarrow> arp_q (arp_table st ! i) = None"
  by (auto simp: arp_ok_def table_ok_def)

lemma empty_entry_sel [simp]: "arp_state empty_entry = ETHARP_STATE_EMPTY" "arp_q empty_entry = None"
  by (simp_all add: empty_entry_def)

lemma set_entry_compose: "i < length (arp_table st) \<Longrightarrow> set_entry i g (set_entry i f st) = set_entry i (\<lambda>e. g (f e)) st"
  by (simp add: set_entry_def)

lemma etharp_free_entry_spec:
  assumes "etharp_free_entry pt i st = Some st'" and "arp_ok st" and "i < 10"
  shows "arp_ok st' \<and> arp_table st' = (arp_table st)[i := empty_entry]"
proof -
  obtain st1 where "same_table st st1" "st' = set_entry i (\<lambda>_. empty_entry) st1"
    using assms(1) by (cases "arp_q (arp_table st ! i)")
      (auto simp: etharp_free_entry_def split: bind_splits dest!: release_table intro: same_table_simps)
  moreover have "table_ok ((arp_table st)[i := empty_entry])"
    using assms(2,3) by (intro table_ok_update) (auto simp: arp_ok_def)
  ultimately show ?thesis using assms(2) by (auto simp: arp_ok_def same_table_def)
qed

lemma tmr_entry_ok: "tmr_entry pt i st = Some st' \<Longrightarrow> arp_ok st \<Longrightarrow> i < 10 \<Longrightarrow> arp_ok st'"
proof -
  assume t: "tmr_entry pt i st = Some st'" and ok: "arp_ok st" and i: "i < 10"
  let ?age = "\<lambda>e. e\<lparr>arp_ctime := (arp_ctime e + 1) mod 256\<rparr>" and ?stable = "\<lambda>e. e\<lparr>arp_state := ETHARP_STATE_STABLE\<rparr>"
  have a: "arp_ok (set_entry i ?age st)"
    using ok i by (intro arp_ok_entry table_ok_same_address) (auto simp: arp_ok_def table_ok_def)
  show ?thesis
  proof (cases "arp_state (arp_table st ! i) = ETHARP_STATE_STABLE_REREQUESTING")
    case True
    have "arp_ok (set_entry i (\<lambda>e. ?stable (?age e)) st)"
      using True ok i arp_ok_queue[OF ok i] by (intro arp_ok_entry table_ok_same_address) (auto simp: arp_ok_def)
    then have "arp_ok (set_entry i ?stable (set_entry i ?age st))"
      using ok i by (simp add: set_entry_compose)
    with t a ok i show ?thesis
      by (auto simp: tmr_entry_def Let_def dest: etharp_free_entry_spec split: if_splits)
  next
    case False
    with t a ok i arp_ok_length[OF ok] show ?thesis
      by (auto simp: tmr_entry_def Let_def dest: etharp_free_entry_spec split: if_splits)
  qed
qed

lemma tmr_loop_ok: "tmr_loop pt is st = Some st' \<Longrightarrow> arp_ok st \<Longrightarrow> \<forall>i \<in> set is. i < 10 \<Longrightarrow> arp_ok st'"
  by (induction pt "is" st rule: tmr_loop.induct) (auto split: bind_splits dest: tmr_entry_ok)

lemma cleanup_loop_ok: "cleanup_loop pt is st = Some st' \<Longrightarrow> arp_ok st \<Longrightarrow> \<forall>i \<in> set is. i < 10 \<Longrightarrow> arp_ok st'"
  by (induction pt "is" st rule: cleanup_loop.induct)
     (auto split: bind_splits if_splits dest: etharp_free_entry_spec)

section \<open>The search for an entry\<close>

lemma find_scan_table:
  assumes "arp_ok st"
  shows "case find_scan ip 0 (arp_table st) no_candidates of
      Inl k \<Rightarrow> k < 10 \<and> arp_state (arp_table st ! k) \<noteq> ETHARP_STATE_EMPTY \<and> ip = Some (arp_ipaddr (arp_table st ! k))
    | Inr c \<Rightarrow> cand_ok (arp_table st) 10 c \<and>
        (\<forall>j < 10. arp_state (arp_table st ! j) \<noteq> ETHARP_STATE_EMPTY \<longrightarrow> ip \<noteq> Some (arp_ipaddr (arp_table st ! j)))"
  using find_scan_spec[OF cand_ok_0, of "arp_table st" "arp_table st" ip] arp_ok_length[OF assms]
  by (simp split: sum.splits)

lemma recycle_spec:
  assumes "recycle pt c st = Some (r, st')" and ok: "arp_ok st" and c: "cand_ok (arp_table st) 10 c"
  shows "\<exists>i e. r = Some i \<and> i < 10 \<and> arp_ok st' \<and> arp_table st' = (arp_table st)[i := e] \<and> arp_state e = ETHARP_STATE_EMPTY"
proof -
  have r: "c_empty c < 10 \<or> old_stable c < 10 \<or> old_pending c < 10 \<or> old_queue c < 10"
    "c_empty c < 10 \<Longrightarrow> arp_state (arp_table st ! c_empty c) = ETHARP_STATE_EMPTY"
    using c by (auto simp: cand_ok_def)
  show ?thesis
  proof (cases "c_empty c < 10")
    case True
    then show ?thesis using assms(1) ok r(2)
      by (intro exI[of _ "c_empty c"] exI[of _ "arp_table st ! c_empty c"]) (auto simp: recycle_def)
  next
    case False
    with assms(1) r(1) obtain i where "r = Some i" "i < 10" "etharp_free_entry pt i st = Some st'"
      by (auto simp: recycle_def split: if_splits bind_splits)
    with ok show ?thesis by (auto dest!: etharp_free_entry_spec intro!: exI[of _ i] exI[of _ empty_entry])
  qed
qed

text \<open>What a caller gets: the entry of the address, or an empty one that may take it.\<close>

definition entry_for :: "u32 \<Rightarrow> nat \<Rightarrow> lan \<Rightarrow> bool" where
  "entry_for ip i st = (i < 10 \<and> arp_ipaddr (arp_table st ! i) = ip \<and>
     (\<forall>j < 10. j \<noteq> i \<longrightarrow> arp_state (arp_table st ! j) \<noteq> ETHARP_STATE_EMPTY \<longrightarrow> arp_ipaddr (arp_table st ! j) \<noteq> ip))"

lemma find_entry_spec:
  assumes "etharp_find_entry pt (Some ip) hard fonly st = Some (r, st')" and ok: "arp_ok st"
  shows "arp_ok st' \<and> (\<forall>i. r = Some i \<longrightarrow> entry_for ip i st' \<and>
     (fonly \<longrightarrow> st' = st \<and> arp_state (arp_table st ! i) \<noteq> ETHARP_STATE_EMPTY)) \<and> (r = None \<longrightarrow> st' = st)"
proof (cases "find_scan (Some ip) 0 (arp_table st) no_candidates")
  case (Inl k)
  then have "entry_for ip k st" "arp_state (arp_table st ! k) \<noteq> ETHARP_STATE_EMPTY"
    using find_scan_table[OF ok, of "Some ip"] ok by (auto simp: entry_for_def arp_ok_def table_ok_def)
  then show ?thesis using assms Inl by (auto simp: etharp_find_entry_def)
next
  case (Inr c)
  then have c: "cand_ok (arp_table st) 10 c"
    "\<forall>j < 10. arp_state (arp_table st ! j) \<noteq> ETHARP_STATE_EMPTY \<longrightarrow> ip \<noteq> arp_ipaddr (arp_table st ! j)"
    using find_scan_table[OF ok, of "Some ip"] by auto
  show ?thesis
  proof (cases "fonly \<or> c_empty c = 10 \<and> \<not> hard")
    case True
    then show ?thesis using assms Inr by (simp add: etharp_find_entry_def)
  next
    case False
    then obtain r1 st1 where r1: "recycle pt c st = Some (r1, st1)"
      using assms(1) Inr by (auto simp: etharp_find_entry_def split: bind_splits)
    obtain i e where i: "r1 = Some i" "i < 10" "arp_ok st1" "arp_table st1 = (arp_table st)[i := e]" "arp_state e = ETHARP_STATE_EMPTY"
      using recycle_spec[OF r1 ok c(1)] by blast
    have len: "length (arp_table st) = 10" using ok by simp
    have st': "r = Some i" "st' = set_entry i (\<lambda>e. e\<lparr>arp_ipaddr := ip, arp_ctime := 0\<rparr>) st1"
      using assms(1) Inr False r1 i len by (auto simp: etharp_find_entry_def)
    have "arp_q e = None" using arp_ok_queue[OF i(3,2)] i(4,5) len i(2) by simp
    then have "arp_ok st'"
      unfolding st' using i len by (intro arp_ok_entry table_ok_update) (auto simp: arp_ok_def)
    moreover have "entry_for ip i st'" using c(2) i(2,4) len by (auto simp: entry_for_def st'(2))
    ultimately show ?thesis using st' False by simp
  qed
qed

text \<open>The entry takes the address: \<open>f\<close> gives it a state.\<close>

lemma entry_for_update:
  assumes "arp_ok st" and "entry_for ip i st" and "arp_ipaddr e = ip" and "arp_q e \<noteq> None \<longrightarrow> arp_state e = ETHARP_STATE_PENDING"
  shows "table_ok ((arp_table st)[i := e])"
  using assms by (intro table_ok_update) (auto simp: entry_for_def arp_ok_def)

section \<open>Operations\<close>

lemma update_arp_entry_ok:
  assumes "etharp_update_arp_entry pt nif ip ha hard fonly st = Some (err, st')" and ok: "arp_ok st"
  shows "arp_ok st'"
proof (cases "ip = IPADDR_ANY \<or> ip4_addr_isbroadcast ip nif \<or> ip_addr_ismulticast ip")
  case True
  then show ?thesis using assms by (auto simp: etharp_update_arp_entry_def split: if_splits)
next
  case False
  then obtain r st1 where f: "etharp_find_entry pt (Some ip) hard fonly st = Some (r, st1)"
    using assms(1) by (auto simp: etharp_update_arp_entry_def split: if_splits bind_splits)
  have s: "arp_ok st1" "\<And>i. r = Some i \<Longrightarrow> entry_for ip i st1" using find_entry_spec[OF f ok] by auto
  show ?thesis
  proof (cases r)
    case None
    then show ?thesis using assms(1) f s False by (auto simp: etharp_update_arp_entry_def split: if_splits)
  next
    case (Some i)
    let ?e = "(arp_table st1 ! i)\<lparr>arp_state := ETHARP_STATE_STABLE, arp_netif := True, arp_ethaddr := ha, arp_ctime := 0\<rparr>"
    have i: "i < 10" "arp_ipaddr ?e = ip" using s(2)[OF Some] by (auto simp: entry_for_def)
    have t: "table_ok ((arp_table st1)[i := ?e\<lparr>arp_q := None\<rparr>])"
      using i by (intro entry_for_update[OF s(1) s(2)[OF Some]]) simp_all
    let ?st2 = "set_entry i (\<lambda>e. e\<lparr>arp_state := ETHARP_STATE_STABLE, arp_netif := True, arp_ethaddr := ha, arp_ctime := 0\<rparr>) st1"
    let ?st3 = "set_entry i (\<lambda>e. e\<lparr>arp_q := None\<rparr>) ?st2"
    have "arp_ok ?st3" using t s(1) i(1) by (simp add: arp_ok_def arp_ok_length[OF s(1)])
    moreover have "same_table ?st3 st'"
    proof (cases "arp_q (arp_table st1 ! i)")
      case None
      have "?e\<lparr>arp_q := None\<rparr> = ?e" using None by (cases "arp_table st1 ! i") simp
      then have "?st3 = ?st2" using i(1) by (simp add: set_entry_compose arp_ok_length[OF s(1)]) (simp add: set_entry_def)
      then show ?thesis using assms(1) f False Some None i(1) arp_ok_length[OF s(1)]
        by (simp add: etharp_update_arp_entry_def split: if_splits)
    next
      case (Some p)
      then show ?thesis using assms(1) f False \<open>r = Some i\<close> i(1) arp_ok_length[OF s(1)]
        by (auto simp: etharp_update_arp_entry_def Let_def split: if_splits bind_splits
            dest!: etharp_send_ip_table release_table intro: same_table_trans)
    qed
    ultimately show ?thesis by (rule arp_ok_same)
  qed
qed

lemma queue_on_ok:
  assumes "queue_on pt i q st = Some (err, st')" and ok: "arp_ok st" and i: "i < 10"
    and pending: "arp_state (arp_table st ! i) = ETHARP_STATE_PENDING"
  shows "arp_ok st'"
proof -
  obtain r st1 where t: "take_over pt q st = Some (r, st1)"
    using assms(1) by (auto simp: queue_on_def split: bind_splits)
  then have s1: "same_table st st1" by (rule take_over_table)
  show ?thesis
  proof (cases r)
    case None
    then show ?thesis using assms(1) t arp_ok_same[OF ok s1] by (simp add: queue_on_def)
  next
    case (Some p)
    then obtain st2 where s2: "same_table st1 st2" "st' = set_entry i (\<lambda>e. e\<lparr>arp_q := Some p\<rparr>) st2"
      using assms(1) t by (cases "arp_q (arp_table st1 ! i)")
        (auto simp: queue_on_def split: bind_splits dest!: release_table intro: same_table_simps)
    have "arp_ok st2" "arp_state (arp_table st2 ! i) = ETHARP_STATE_PENDING"
      using arp_ok_same[OF ok same_table_trans[OF s1 s2(1)]] s1 s2(1) pending by (auto simp: same_table_def)
    then show ?thesis unfolding s2(2) using i
      by (intro arp_ok_entry table_ok_same_address) (auto simp: arp_ok_def)
  qed
qed

lemma etharp_query_ok:
  assumes "etharp_query pt nif ip q st = Some (err, st')" and ok: "arp_ok st"
  shows "arp_ok st'"
proof (cases "ip4_addr_isbroadcast ip nif \<or> ip_addr_ismulticast ip \<or> ip = IPADDR_ANY")
  case True
  then show ?thesis using assms by (simp add: etharp_query_def)
next
  case False
  then obtain r st1 where f: "etharp_find_entry pt (Some ip) True False st = Some (r, st1)"
    using assms(1) by (auto simp: etharp_query_def split: if_splits bind_splits)
  have s: "arp_ok st1" "\<And>i. r = Some i \<Longrightarrow> entry_for ip i st1" using find_entry_spec[OF f ok] by auto
  show ?thesis
  proof (cases r)
    case None
    then show ?thesis using assms(1) f s False by (simp add: etharp_query_def)
  next
    case (Some i)
    let ?st2 = "if arp_state (arp_table st1 ! i) = ETHARP_STATE_EMPTY
       then set_entry i (\<lambda>e. e\<lparr>arp_state := ETHARP_STATE_PENDING\<rparr>) st1 else st1"
    have i: "i < 10" "arp_ipaddr (arp_table st1 ! i) = ip" using s(2)[OF Some] by (auto simp: entry_for_def)
    have 2: "arp_ok ?st2"
      using s(1) i entry_for_update[OF s(1) s(2)[OF Some], of "(arp_table st1 ! i)\<lparr>arp_state := ETHARP_STATE_PENDING\<rparr>"]
      by (simp add: arp_ok_def)
    let ?req = "if arp_state (arp_table ?st2 ! i) = ETHARP_STATE_PENDING \<or> q = None
       then etharp_request pt nif ip ?st2 else Some (ERR_MEM, ?st2)"
    obtain result st3 where r: "?req = Some (result, st3)"
      and rest: "(case q of None \<Rightarrow> Some (result, st3)
         | Some q \<Rightarrow> if is_stable (arp_state (arp_table st3 ! i)) then
              etharp_send_ip pt nif q (hwaddr nif) (arp_ethaddr (arp_table st3 ! i)) (st3\<lparr>etharp_cached_entry := i\<rparr>)
            else if arp_state (arp_table st3 ! i) = ETHARP_STATE_PENDING then queue_on pt i q st3
            else Some (result, st3)) = Some (err, st')"
      using assms(1) f False Some by (auto simp: etharp_query_def Let_def split: bind_splits if_splits)
    have "same_table ?st2 st3" using r by (auto dest: etharp_request_table split: if_splits)
    with 2 have 3: "arp_ok st3" by (rule arp_ok_same)
    have 4: "arp_ok (st3\<lparr>etharp_cached_entry := i\<rparr>)" using 3 i by (simp add: arp_ok_def)
    show ?thesis
    proof (cases q)
      case None
      then show ?thesis using rest 3 by simp
    next
      case (Some q')
      then show ?thesis using rest 3 i(1) arp_ok_same[OF 4]
        by (auto split: if_splits dest: etharp_send_ip_table queue_on_ok)
    qed
  qed
qed

lemma output_to_index_ok:
  assumes "etharp_output_to_arp_index pt nif q i st = Some (err, st')" and ok: "arp_ok st" and i: "i < 10"
  shows "arp_ok st'"
proof -
  have st: "is_stable (arp_state (arp_table st ! i))"
    using assms(1) by (simp add: etharp_output_to_arp_index_def split: if_splits)
  let ?re = "\<lambda>e. e\<lparr>arp_state := ETHARP_STATE_STABLE_REREQUESTING\<rparr>"
  have up: "arp_ok (set_entry i ?re st2)" if "same_table st st2" for st2
  proof -
    have 2: "arp_ok st2" "is_stable (arp_state (arp_table st2 ! i))"
      using arp_ok_same[OF ok that] that st by (simp_all add: same_table_def)
    then show ?thesis using i arp_ok_queue[OF 2(1) i]
      by (intro arp_ok_entry table_ok_same_address) (auto simp: arp_ok_def is_stable_def)
  qed
  show ?thesis
  proof (cases "arp_state (arp_table st ! i) = ETHARP_STATE_STABLE \<and> ARP_AGE_REREQUEST_USED \<le> arp_ctime (arp_table st ! i)")
    case True
    then obtain err1 st1 where r: "etharp_request pt nif (arp_ipaddr (arp_table st ! i)) st = Some (err1, st1)"
      using assms(1) st by (auto simp: etharp_output_to_arp_index_def split: bind_splits)
    define st2 where "st2 = (if err1 = ERR_OK then set_entry i ?re st1 else st1)"
    have "arp_ok st2" using up[OF etharp_request_table[OF r]] arp_ok_same[OF ok etharp_request_table[OF r]]
      by (simp add: st2_def)
    moreover have "etharp_send_ip pt nif q (hwaddr nif) (arp_ethaddr (arp_table st2 ! i)) st2 = Some (err, st')"
      using assms(1) st True r by (simp add: etharp_output_to_arp_index_def st2_def)
    ultimately show ?thesis using etharp_send_ip_table arp_ok_same by blast
  next
    case False
    then have "etharp_send_ip pt nif q (hwaddr nif) (arp_ethaddr (arp_table st ! i)) st = Some (err, st')"
      using assms(1) st by (auto simp: etharp_output_to_arp_index_def)
    then show ?thesis using etharp_send_ip_table arp_ok_same[OF ok] by blast
  qed
qed

lemma stable_scan_bound: "stable_scan ip i es = Some k \<Longrightarrow> k < i + length es"
  by (induction es arbitrary: i) (fastforce split: if_splits)+

lemma unicast_output_ok:
  assumes "unicast_output pt nif q dst st = Some (err, st')" and ok: "arp_ok st"
  shows "arp_ok st'"
proof -
  let ?c = "arp_table st ! etharp_cached_entry st"
  show ?thesis
  proof (cases "is_stable (arp_state ?c) \<and> dst = arp_ipaddr ?c")
    case True
    then show ?thesis using assms output_to_index_ok[OF _ ok] by (simp add: unicast_output_def Let_def arp_ok_def)
  next
    case False
    show ?thesis
    proof (cases "stable_scan dst 0 (arp_table st)")
      case None
      then show ?thesis using assms False etharp_query_ok by (auto simp: unicast_output_def Let_def)
    next
      case (Some i)
      then have "i < 10" using stable_scan_bound[OF Some] ok by simp
      moreover then have "arp_ok (st\<lparr>etharp_cached_entry := i\<rparr>)" using ok by (simp add: arp_ok_def)
      ultimately show ?thesis using assms(1) False Some output_to_index_ok by (auto simp: unicast_output_def Let_def)
    qed
  qed
qed

lemma etharp_output_ok:
  assumes "etharp_output pt nif q ip st = Some (err, st')" and ok: "arp_ok st"
  shows "arp_ok st'"
proof -
  obtain fail n where h: "pbuf_header q (int SIZEOF_ETH_HDR) (lnet st) = Some (fail, n)"
    using assms(1) by (auto simp: etharp_output_def split: bind_splits)
  have "arp_ok (st\<lparr>lnet := n\<rparr>)" using ok by (simp add: arp_ok_def)
  then show ?thesis using assms(1) h arp_ok_same[of "st\<lparr>lnet := n\<rparr>"]
    by (auto simp: etharp_output_def Let_def split: if_splits dest: etharp_send_ip_table unicast_output_ok)
qed

end
