(* ===== verification/ChksumProps.thy ===== *)
theory ChksumProps
  imports Chksum PbufProps
begin

text \<open>
  What the sums of \<open>Chksum\<close> compute. \<open>le\<close> is the sum of the half words of a byte sequence in
  the byte order of the machine, \<open>be\<close> the same sum from an odd position; \<open>ones\<close> is the
  canonical 16-bit representative of a sum in ones' complement arithmetic, that is modulo
  65535 with zero only for zero. Every routine of the source returns \<open>ones\<close> of \<open>le\<close>.
\<close>

unbundle bit_operations_syntax

named_theorems chksum_simps \<open>the word operations of the sums on natural numbers\<close>

section \<open>Ones' complement arithmetic\<close>

definition ones :: "nat \<Rightarrow> nat" where
  "ones s = (if s = 0 then 0 else (s - 1) mod 65535 + 1)"

lemma ones_le: "ones s \<le> 65535"
  using mod_less_divisor[of 65535 "s - 1"] by (simp add: ones_def Suc_le_eq)

lemma ones_zero [simp]: "ones s = 0 \<longleftrightarrow> s = 0"
  by (simp add: ones_def)

lemma ones_mod: "ones s mod 65535 = s mod 65535"
proof (cases s)
  case (Suc k)
  then show ?thesis by (simp add: ones_def mod_Suc_eq)
qed (simp add: ones_def)

lemma ones_small: "a \<le> 65535 \<Longrightarrow> ones a = a"
  by (simp add: ones_def)

lemma ones_eqI:
  assumes m: "a mod 65535 = s mod 65535" and z: "a = 0 \<longleftrightarrow> s = 0"
  shows "ones a = ones s"
proof -
  have "ones a mod 65535 = ones s mod 65535" "ones a = 0 \<longleftrightarrow> ones s = 0"
    using m z by (simp_all add: ones_mod)
  with ones_le[of a] ones_le[of s] show ?thesis
    by (cases "ones a = 65535"; cases "ones s = 65535") auto
qed

lemma ones_add: "ones (ones a + b) = ones (a + b)" "ones (b + ones a) = ones (b + a)"
  by (rule ones_eqI; metis add_is_0 mod_add_left_eq mod_add_right_eq ones_mod ones_zero)+

lemma ones_mult: "ones (k * ones a) = ones (k * a)"
  by (rule ones_eqI; metis mult_is_0 mod_mult_right_eq ones_mod ones_zero)

lemma ones_period: "ones (65536 * a + b) = ones (a + b)"
proof (rule ones_eqI)
  have "65536 * a + b = (a + b) + 65535 * a" by simp
  then show "(65536 * a + b) mod 65535 = (a + b) mod 65535" by (simp only: mod_mult_self2)
qed simp

lemma ones_period_mult: "ones (256 * (256 * a)) = ones a"
  using ones_period[of a 0] by (simp add: ac_simps)

lemma ones_cong: "ones a = ones b \<Longrightarrow> ones (k * a + c) = ones (k * b + c)"
  by (metis ones_add(1) ones_mult)

lemma ones_cong1: "ones a = ones b \<Longrightarrow> ones (a + c) = ones (b + c)"
  by (metis ones_add(1))

lemma ones_cong1': "ones a = ones b \<Longrightarrow> ones (c + a) = ones (c + b)"
  by (metis ones_add(2))

definition fold16 :: "nat \<Rightarrow> nat" where
  "fold16 s = s div 65536 + s mod 65536"

lemma ones_fold [simp]: "ones (fold16 s) = ones s"
  using ones_period[of "s div 65536" "s mod 65536"] by (simp add: fold16_def)

lemma fold16_le: "s < 65536 * 65536 \<Longrightarrow> fold16 s \<le> 131070"
  using less_mult_imp_div_less[of s 65536 65536] mod_less_divisor[of 65536 s]
  unfolding fold16_def by linarith

lemma fold16_once: "s \<le> 131070 \<Longrightarrow> fold16 s = ones s"
proof -
  assume s: "s \<le> 131070"
  have d: "65536 * (s div 65536) + s mod 65536 = s" by simp
  have "s mod 65536 < 65536" by simp
  with s d have "fold16 s \<le> 65535" unfolding fold16_def by arith
  then show ?thesis using ones_small[of "fold16 s"] by simp
qed

lemma fold16_twice: "s < 65536 * 65536 \<Longrightarrow> fold16 (fold16 s) = ones s"
  using fold16_once[OF fold16_le] by simp

definition swap16 :: "nat \<Rightarrow> nat" where
  "swap16 a = 256 * (a mod 256) + a div 256"

lemma swap16_ones: "a \<le> 65535 \<Longrightarrow> swap16 a = ones (256 * a)"
proof -
  assume a: "a \<le> 65535"
  have "ones (256 * a) = ones (65536 * (a div 256) + 256 * (a mod 256))"
    by (rule arg_cong[of _ _ ones]) (use div_mult_mod_eq[of a 256] in arith)
  also have "\<dots> = ones (swap16 a)" by (subst ones_period) (simp only: swap16_def add.commute)
  also have "\<dots> = swap16 a"
    using a mod_less_divisor[of 256 a] less_mult_imp_div_less[of a 256 256]
    by (intro ones_small) (unfold swap16_def, linarith)
  finally show ?thesis by simp
qed

section \<open>The sum of a byte sequence\<close>

fun le :: "u8 list \<Rightarrow> nat" and be :: "u8 list \<Rightarrow> nat" where
  "le [] = 0"
| "le (x # xs) = unat x + be xs"
| "be [] = 0"
| "be (x # xs) = 256 * unat x + le xs"

lemma le_be: "ones (be xs) = ones (256 * le xs)" "ones (le xs) = ones (256 * be xs)"
proof (induction xs)
  case (Cons x xs)
  {
    case 1
    have "ones (256 * le (x # xs)) = ones (256 * be xs + 256 * unat x)" by (simp add: algebra_simps)
    also have "\<dots> = ones (le xs + 256 * unat x)" using Cons(2) by (metis ones_add(1))
    finally show ?case by (simp add: algebra_simps)
  next
    case 2
    have "ones (256 * be (x # xs)) = ones (65536 * unat x + 256 * le xs)" by (simp add: algebra_simps)
    also have "\<dots> = ones (256 * le xs + unat x)" by (subst ones_period) (simp only: add.commute)
    also have "\<dots> = ones (be xs + unat x)" using Cons(1) by (metis ones_add(1))
    finally show ?case by (simp add: algebra_simps)
  }
qed simp_all

lemma le_append:
  "le (xs @ ys) = le xs + (if even (length xs) then le ys else be ys)"
  "be (xs @ ys) = be xs + (if even (length xs) then be ys else le ys)"
  by (induction xs) auto

lemma byte_bound: "unat (x :: u8) \<le> 255"
proof -
  have "unat x < 2 ^ LENGTH(8)" by (rule unsigned_less)
  then show ?thesis by simp
qed

lemma le_bound: "le xs \<le> 65535 * ((length xs + 1) div 2)" "be xs \<le> 65535 * ((length xs + 1) div 2)"
proof (induction xs rule: induct_list012)
  case (2 x)
  { case 1 show ?case using byte_bound[of x] by simp
  next case 2 show ?case using byte_bound[of x] by simp }
next
  case (3 x y zs)
  { case 1 show ?case using 3(1) byte_bound[of x] byte_bound[of y] by simp
  next case 2 show ?case using 3(2) byte_bound[of x] byte_bound[of y] by simp }
qed simp_all


section \<open>The word operations\<close>

lemma word_bound: "unat (u :: u32) < 65536 * 65536" "unat (h :: u16) < 65536"
proof -
  have "unat u < 2 ^ LENGTH(32)" "unat h < 2 ^ LENGTH(16)" by (rule unsigned_less)+
  then show "unat u < 65536 * 65536" "unat h < 65536" by simp_all
qed

lemma or_shifted: "x < 2 ^ n \<Longrightarrow> push_bit n y OR x = 2 ^ n * y + (x :: nat)"
proof -
  assume x: "x < 2 ^ n"
  then have "take_bit n x = x" by (simp add: take_bit_nat_eq_self)
  then have "push_bit n y AND x = 0"
    by (intro bit_eqI) (metis bit_0_eq bit_and_iff bit_push_bit_iff bit_take_bit_iff bot_apply bot_bool_def linorder_not_le)
  then show ?thesis by (simp add: disjunctive_add_eq_or[symmetric] push_bit_eq_mult mult.commute)
qed

lemmas or_shifted_16 = or_shifted[of _ 16, simplified] or_shifted[of _ 8, simplified]

lemma unat_take [chksum_simps]:
  "unat (w AND 0xff :: u32) = unat w mod 256"
  "unat (w AND 0xffff :: u32) = unat w mod 65536"
  "unat (h AND 0xff :: u16) = unat h mod 256"
proof -
  have "w AND 0xff = take_bit 8 w" "w AND 0xffff = take_bit 16 w" "h AND 0xff = take_bit 8 h"
    unfolding take_bit_eq_mask mask_eq_exp_minus_1 by simp_all
  then show "unat (w AND 0xff) = unat w mod 256" "unat (w AND 0xffff) = unat w mod 65536"
    "unat (h AND 0xff) = unat h mod 256"
    by (simp_all only: unsigned_take_bit_eq) (simp_all add: take_bit_eq_mod)
qed

lemma second_byte:
  "drop_bit 8 (w AND 0xff00 :: u32) = take_bit 8 (drop_bit 8 w)"
  "drop_bit 8 (h AND 0xff00 :: u16) = take_bit 8 (drop_bit 8 h)"
proof -
  have m: "(0xff00 :: u32) = push_bit 8 (mask 8)" "(0xff00 :: u16) = push_bit 8 (mask 8)"
    by (simp_all add: mask_eq_exp_minus_1 push_bit_eq_mult)
  show "drop_bit 8 (w AND 0xff00 :: u32) = take_bit 8 (drop_bit 8 w)"
    "drop_bit 8 (h AND 0xff00 :: u16) = take_bit 8 (drop_bit 8 h)"
    unfolding m by (rule bit_word_eqI; auto simp: bit_simps)+
qed

lemma FOLD_nat [chksum_simps]: "unat (FOLD_U32T u) = fold16 (unat u)"
proof -
  have "unat (drop_bit 16 u) = unat u div 65536"
    by (simp add: drop_bit_eq_div unat_div_distrib)
  then show ?thesis
    using fold16_le[OF word_bound(1)[of u]] by (simp add: FOLD_U32T_def fold16_def unat_word_ariths unat_take)
qed

lemma or_bytes: "x \<le> 255 \<Longrightarrow> x OR y * 256 = x + 256 * (y :: nat)" "x \<le> 255 \<Longrightarrow> 256 * y OR x = 256 * y + x"
  using or_shifted[of x 8 y] by (simp_all add: push_bit_eq_mult or.commute mult.commute)

lemma SWAP_nat [chksum_simps]:
  assumes "unat u \<le> 65535"
  shows "unat (SWAP_BYTES_IN_WORD u) = swap16 (unat u)"
proof -
  have "unat (drop_bit 8 (u AND 0xff00)) = unat u div 256"
    unfolding second_byte using assms
    by (simp add: drop_bit_eq_div take_bit_eq_mod unat_div_distrib unat_mod_distrib less_mult_imp_div_less)
  moreover have "unat (push_bit 8 (u AND 0xff)) = 256 * (unat u mod 256)"
    unfolding push_bit_eq_mult by (simp add: unat_word_ariths unat_take)
  moreover have "unat u div 256 \<le> 255" using assms div_le_mono[of "unat u" 65535 256] by simp
  ultimately show ?thesis by (simp only: SWAP_BYTES_IN_WORD_def swap16_def unsigned_or_eq or_bytes)
qed

lemma htons_nat [chksum_simps]: "unat (lwip_htons h) = swap16 (unat h)"
proof -
  have "unat (drop_bit 8 (h AND 0xff00)) = unat h div 256"
    unfolding second_byte using word_bound(2)[of h]
    by (simp add: drop_bit_eq_div take_bit_eq_mod unat_div_distrib unat_mod_distrib less_mult_imp_div_less)
  moreover have "unat (push_bit 8 (h AND 0xff)) = 256 * (unat h mod 256)"
    unfolding push_bit_eq_mult by (simp add: unat_word_ariths unat_take)
  moreover have "unat h div 256 \<le> 255" using word_bound(2)[of h] div_le_mono[of "unat h" 65535 256] by simp
  ultimately show ?thesis by (simp only: lwip_htons_def swap16_def unsigned_or_eq or_bytes)
qed

lemma le16_nat [chksum_simps]: "unat (le16 a b) = unat a + 256 * unat b"
  using byte_bound[of a] byte_bound[of b]
  by (simp add: le16_def unsigned_or_eq unat_word_ariths unsigned_ucast_eq or_bytes push_bit_eq_mult take_bit_eq_mod)


lemma le16_le [chksum_simps]: "unat (le16 a b) = le [a, b]"
  by (simp add: le16_nat)

lemma byte_up: "unat (ucast (a :: u8) :: u32) = unat a"
  using byte_bound[of a] by (simp add: unsigned_ucast_eq take_bit_eq_mod)

lemma le32_nat: "unat (le32 a b c d) = unat a + 256 * unat b + 65536 * unat c + 16777216 * unat d"
proof -
  note b = byte_bound[of a] byte_bound[of b] byte_bound[of c] byte_bound[of d]
  have p: "unat (push_bit 8 (ucast b) :: u32) = push_bit 8 (unat b)" "unat (push_bit 16 (ucast c) :: u32) = push_bit 16 (unat c)"
    "unat (push_bit 24 (ucast d) :: u32) = push_bit 24 (unat d)"
    using b by (simp_all only: push_bit_eq_mult) (simp_all add: unat_word_ariths byte_up)
  have 1: "push_bit 8 (unat b) OR unat a = 256 * unat b + unat a" using b by (simp add: or_shifted)
  have 2: "push_bit 16 (unat c) OR (256 * unat b + unat a) = 65536 * unat c + (256 * unat b + unat a)"
    using b by (simp add: or_shifted)
  have 3: "push_bit 24 (unat d) OR (65536 * unat c + (256 * unat b + unat a)) =
    16777216 * unat d + (65536 * unat c + (256 * unat b + unat a))"
    using b by (simp add: or_shifted)
  have "unat (le32 a b c d) = push_bit 24 (unat d) OR (push_bit 16 (unat c) OR (push_bit 8 (unat b) OR unat a))"
    by (simp only: le32_def unsigned_or_eq p byte_up) (simp only: ac_simps)
  then show ?thesis unfolding 1 2 3 by simp
qed

lemma ones_le32: "ones (k + unat (le32 a b c d)) = ones (k + le [a, b, c, d])"
proof -
  have "k + unat (le32 a b c d) = 65536 * (unat c + 256 * unat d) + (k + (unat a + 256 * unat b))"
    by (simp add: le32_nat)
  also have "ones \<dots> = ones (k + le [a, b, c, d])" by (subst ones_period) (simp add: ac_simps)
  finally show ?thesis .
qed

lemma add_carry_nat: "ones (unat (add_carry s w)) = ones (unat s + unat w)"
proof (cases "unat s + unat w < 65536 * 65536")
  case True
  then show ?thesis by (simp add: add_carry_def Let_def unat_word_ariths word_less_nat_alt)
next
  case False
  define t where "t = unat s + unat w - 65536 * 65536"
  have t: "unat s + unat w = 65536 * 65536 + t" "t + 1 < 65536 * 65536" "t < unat s"
    using False word_bound(1)[of s] word_bound(1)[of w] by (simp_all add: t_def)
  have s: "unat (s + w) = t" using t by (simp add: unat_word_ariths)
  have "unat (add_carry s w) = t + 1"
    using t s by (simp add: add_carry_def Let_def word_less_nat_alt unat_word_ariths)
  moreover have "ones (unat s + unat w) = ones (t + 1)"
    unfolding t(1) using ones_period[of 65536 t] ones_period[of 1 t] by simp
  ultimately show ?thesis by simp
qed

section \<open>The three loops\<close>

lemma octet_loop_nat:
  "unat acc + be xs < 65536 * 65536 \<Longrightarrow> unat (octet_loop xs acc) = unat acc + be xs"
proof (induction xs acc rule: octet_loop.induct)
  case (1 a b xs acc)
  have "unat (push_bit 8 (ucast a) OR ucast b :: u32) = 256 * unat a + unat b"
    using byte_bound[of a] byte_bound[of b] or_bytes(2)[of "unat b" "unat a"]
    by (simp only: unsigned_or_eq push_bit_eq_mult) (simp add: unat_word_ariths byte_up mult.commute)
  then show ?case using 1 by (simp add: unat_word_ariths)
next
  case (2 a acc)
  have "unat (push_bit 8 (ucast a) :: u32) = 256 * unat a"
    using byte_bound[of a] by (simp only: push_bit_eq_mult) (simp add: unat_word_ariths byte_up)
  then show ?case using 2 by (simp add: unat_word_ariths)
qed simp

lemma half_loop_nat:
  assumes "half_loop xs s = (s', left)" and "unat s + le xs < 65536 * 65536"
  shows "unat s' + le left = unat s + le xs \<and> length left \<le> 1"
  using assms
proof (induction xs s rule: half_loop.induct)
  case (1 a b xs s)
  have "unat (s + le16 a b) = unat s + unat a + 256 * unat b"
    using 1(3) by (simp add: unat_word_ariths le16_nat)
  with 1 show ?case by simp
qed auto

lemma word_loop_nat:
  "word_loop xs s = (s', ys) \<Longrightarrow> ones (unat s' + le ys) = ones (unat s + le xs) \<and> length ys < 8 \<and> length ys \<le> length xs
    \<and> even (length xs - length ys)"
proof (induction xs s rule: word_loop.induct)
  case (1 a b c d e f g h xs s)
  have "ones (unat (add_carry (add_carry s (le32 a b c d)) (le32 e f g h)) + le xs) =
        ones (unat s + le (a # b # c # d # e # f # g # h # xs))"
  proof -
    have "ones (unat (add_carry (add_carry s (le32 a b c d)) (le32 e f g h)) + le xs) =
          ones (unat s + unat (le32 a b c d) + unat (le32 e f g h) + le xs)"
      by (metis add_carry_nat ones_add(1))
    also have "\<dots> = ones ((le xs + unat (le32 a b c d) + unat s) + unat (le32 e f g h))" by (simp add: ac_simps)
    also have "\<dots> = ones ((le xs + le [e, f, g, h] + unat s) + unat (le32 a b c d))"
      by (subst ones_le32) (simp add: ac_simps)
    also have "\<dots> = ones (unat s + le (a # b # c # d # e # f # g # h # xs))"
      by (subst ones_le32) (simp add: ac_simps)
    finally show ?thesis .
  qed
  with 1 show ?case by (auto simp: le_append)
qed auto


section \<open>The three versions compute the same sum\<close>

lemma finish_nat:
  assumes "unat s = v" shows "unat (finish_sum is_odd s) = ones (if is_odd then 256 * v else v)"
proof -
  have "fold16 (fold16 (unat s)) = ones v"
    using fold16_twice[OF word_bound(1)[of s]] assms by simp
  then have t: "unat (FOLD_U32T (FOLD_U32T s)) = ones v" by (simp add: FOLD_nat)
  with ones_le[of v] have "unat (SWAP_BYTES_IN_WORD (FOLD_U32T (FOLD_U32T s))) = ones (256 * v)"
    by (simp add: SWAP_nat swap16_ones ones_mult)
  then show ?thesis using t ones_le[of v] ones_le[of "256 * v"]
    by (simp add: finish_sum_def Let_def unsigned_ucast_eq take_bit_eq_mod)
qed

lemma end_nat:
  assumes "unat s + le left + 256 * unat first < 65536 * 65536" and "length left \<le> 1"
  shows "unat (end_bytes left first s) = unat s + le left + 256 * unat first"
  using assms by (cases left) (auto simp: end_bytes_def unat_word_ariths le16_nat)

lemma odd_start: "xs \<noteq> [] \<Longrightarrow> le (tl xs) + 256 * unat (hd xs) = be xs"
  by (cases xs) auto

lemma half_room: "n \<le> 131072 \<Longrightarrow> 65535 * ((n + 1) div 2) < 65536 * (65536 :: nat)"
  using div_le_mono[of "n + 1" 131073 2] by simp

lemma chksum2_ones:
  assumes "length xs \<le> 0x20000"
  shows "unat (lwip_standard_chksum addr xs) = ones (le xs)"
proof (cases "addr mod 2 = 1 \<and> xs \<noteq> []")
  case True
  obtain s left where h: "half_loop (tl xs) 0 = (s, left)" by fastforce
  have b: "be xs < 65536 * 65536" using le_bound(2)[of xs] half_room[OF assms[simplified]] by simp
  with half_loop_nat[OF h] odd_start[of xs] True
  have s: "unat s + le left + 256 * unat (hd xs) = be xs" "length left \<le> 1" by auto
  with end_nat[of s left "hd xs"] b have "unat (end_bytes left (hd xs) s) = be xs" by simp
  then show ?thesis using True h by (simp add: lwip_standard_chksum_def finish_nat le_be(2)[symmetric])
next
  case False
  obtain s left where h: "half_loop xs 0 = (s, left)" by fastforce
  have b: "le xs < 65536 * 65536" using le_bound(1)[of xs] half_room[OF assms[simplified]] by simp
  with half_loop_nat[OF h] have s: "unat s + le left = le xs" "length left \<le> 1" by auto
  with end_nat[of s left 0] b have "unat (end_bytes left 0 s) = le xs" by simp
  then show ?thesis using False h
    by (cases "xs = []") (auto simp add: lwip_standard_chksum_def finish_nat)
qed

lemma chksum1_ones:
  assumes "length xs < 65536"
  shows "unat (lwip_standard_chksum1 xs) = ones (le xs)"
proof -
  define a where "a = FOLD_U32T (octet_loop xs 0)"
  have b: "be xs < 65536 * 65536" using le_bound(2)[of xs] half_room[of "length xs"] assms by simp
  then have a: "unat a = fold16 (be xs)" using octet_loop_nat[of 0 xs] by (simp add: a_def FOLD_nat)
  have "unat a \<le> 131070" using a fold16_le[OF b] by simp
  then have f: "unat (FOLD_U32T a) = ones (be xs)" using a by (simp add: FOLD_nat fold16_once)
  have "unat (if a AND 0xffff0000 \<noteq> 0 then FOLD_U32T a else a) = ones (be xs)"
  proof (cases "a AND 0xffff0000 = 0")
    case True
    have "a = take_bit 16 a"
    proof (rule bit_word_eqI)
      fix n assume n: "n < LENGTH(32)"
      have m: "(0xffff0000 :: u32) = push_bit 16 (mask 16)" by (simp add: mask_eq_exp_minus_1 push_bit_eq_mult)
      have "\<not> bit (a AND push_bit 16 (mask 16)) n" using True unfolding m by simp
      with n show "bit a n = bit (take_bit 16 a) n" by (auto simp: bit_simps)
    qed
    then have "unat a = take_bit 16 (unat a)" by (metis unsigned_take_bit_eq)
    then have "unat a < 65536" using take_bit_nat_less_exp[of 16 "unat a"] by simp
    then have "unat a = ones (be xs)" using a f by (simp add: FOLD_nat fold16_def)
    then show ?thesis using True by simp
  qed (simp add: f)
  moreover have "lwip_standard_chksum1 xs = lwip_htons (ucast (if a AND 0xffff0000 \<noteq> 0 then FOLD_U32T a else a))"
    using assms by (simp add: lwip_standard_chksum1_def Let_def a_def)
  ultimately show ?thesis using b ones_le[of "be xs"]
    by (simp only: htons_nat unsigned_ucast_eq) (simp add: take_bit_eq_mod swap16_ones ones_mult le_be(2)[symmetric])
qed

lemma chksum3_tail:
  assumes w: "word_loop ys s0 = (s, zs)" and h: "half_loop zs (FOLD_U32T s) = (s', left)"
  shows "ones (unat (end_bytes left first s')) = ones (unat s0 + le ys + 256 * unat first)"
proof -
  have z: "ones (unat s + le zs) = ones (unat s0 + le ys)" "length zs < 8" using word_loop_nat[OF w] by auto
  have "le zs \<le> 65535 * 4"
    using le_bound(1)[of zs] mult_le_mono2[OF div_le_mono[of "length zs + 1" 8 2], of 65535] z(2) by simp
  moreover have "unat (FOLD_U32T s) \<le> 131070" using fold16_le[OF word_bound(1)[of s]] by (simp add: FOLD_nat)
  ultimately have b: "unat (FOLD_U32T s) + le zs + 256 * unat first < 65536 * 65536" using byte_bound[of first] by simp
  with half_loop_nat[OF h] have "unat s' + le left = unat (FOLD_U32T s) + le zs" "length left \<le> 1" by auto
  with end_nat[of s' left first] b have "unat (end_bytes left first s') = unat (FOLD_U32T s) + le zs + 256 * unat first" by simp
  then show ?thesis by (metis FOLD_nat add.assoc ones_add(1) ones_fold z(1))
qed


lemma chksum3_ones: "unat (lwip_standard_chksum3 addr xs) = ones (le xs)"
proof -
  define is_odd where "is_odd = (addr mod 2 = 1)"
  define start where "start = (if is_odd \<and> xs \<noteq> [] then (hd xs, addr + 1, tl xs) else (0, addr, xs))"
  define mid where "mid = (\<lambda>addr (ys :: u8 list). if addr mod 4 \<noteq> (0 :: nat) \<and> 1 < length ys
    then (le16 (ys ! 0) (ys ! 1), drop 2 ys) else (0, ys))"
  obtain first addr' ys where st: "start = (first, addr', ys)" by (cases start)
  obtain s0 zs where m: "mid addr' ys = (s0, zs)" by fastforce
  obtain s ws where w: "word_loop zs s0 = (s, ws)" by fastforce
  obtain s' left where h: "half_loop ws (FOLD_U32T s) = (s', left)" by fastforce
  have mid: "unat s0 + le zs = le ys"
  proof (cases "addr' mod 4 \<noteq> 0 \<and> 1 < length ys")
    case True
    then obtain a b vs where "ys = a # b # vs" by (cases ys; cases "tl ys") auto
    then show ?thesis using m True by (auto simp: mid_def le16_nat)
  qed (use m in \<open>auto simp: mid_def\<close>)
  have unf: "lwip_standard_chksum3 addr xs = (case start of (first, addr', ys) \<Rightarrow> case mid addr' ys of (s0, zs) \<Rightarrow>
      case word_loop zs s0 of (s, ws) \<Rightarrow> case half_loop ws (FOLD_U32T s) of (s', left) \<Rightarrow>
      finish_sum is_odd (end_bytes left first s'))"
    by (simp only: lwip_standard_chksum3_def Let_def start_def mid_def is_odd_def)
  have "unat (lwip_standard_chksum3 addr xs) = ones (if is_odd then 256 * unat (end_bytes left first s') else unat (end_bytes left first s'))"
    unfolding unf by (simp only: st m w h prod.case finish_nat)
  also have "\<dots> = ones (if is_odd then 256 * (le ys + 256 * unat first) else le ys + 256 * unat first)"
    using chksum3_tail[OF w h, of first] ones_cong[of _ _ 256 0] by (simp add: mid)
  also have "\<dots> = ones (le xs)"
  proof (cases "is_odd \<and> xs \<noteq> []")
    case True
    then show ?thesis using st odd_start[of xs] by (simp add: start_def le_be(2)[symmetric] split: if_splits)
  next
    case False
    then show ?thesis using st by (cases "xs = []") (auto simp: start_def)
  qed
  finally show ?thesis .
qed


section \<open>Sums over a chain\<close>

text \<open>
  The accumulator holds the sum of the bytes \<open>zs\<close> seen so far, in the byte order of the
  position reached: times 256 after an odd number of bytes.
\<close>

definition holds :: "u32 \<times> bool \<Rightarrow> u8 list \<Rightarrow> bool" where
  "holds st zs = (unat (fst st) \<le> 65535 \<and> ones ((if snd st then 256 else 1) * unat (fst st)) = ones (le zs))"

lemma unswap_holds: "holds st zs \<Longrightarrow> unat (unswap st) = ones (le zs)"
  using ones_small[of "unat (fst st)"]
  by (cases st) (auto simp: holds_def unswap_def SWAP_nat swap16_ones)

lemma sum_buf_step:
  assumes h: "holds (acc, odd (length zs)) zs" and p: "payload (pb st q) \<noteq> None" "n \<le> plen (pb st q)" "plen (pb st q) < 65536"
  shows "\<exists>acc'. sum_buf base q n st (acc, odd (length zs)) = Some (acc', odd (length zs) \<noteq> odd (plen (pb st q))) \<and>
     holds (acc', odd (length zs) \<noteq> odd (plen (pb st q))) (zs @ take n (buf_data st q))"
proof -
  define xs where "xs = take n (buf_data st q)"
  have len: "length xs = n" using p by (simp add: xs_def length_data)
  have peek: "peek (payload (pb st q)) 0 n st = Some xs" using peek_data[of st q 0 n] p by (simp add: xs_def)
  define addr where "addr = (case payload (pb st q) of None \<Rightarrow> 0 | Some (b, off) \<Rightarrow> nat (int (base b) + off))"
  define a where "a = FOLD_U32T (acc + ucast (lwip_standard_chksum addr xs))"
  have c: "unat (ucast (lwip_standard_chksum addr xs) :: u32) = ones (le xs)"
    using chksum2_ones[of xs addr] len p ones_le[of "le xs"] by (simp add: unsigned_ucast_eq take_bit_eq_mod)
  have "unat acc \<le> 65535" using h by (simp add: holds_def)
  then have a: "unat a = ones (unat acc + le xs)"
    using ones_le[of "le xs"] c by (simp add: a_def FOLD_nat unat_word_ariths fold16_once ones_add)
  define v where "v = (if odd (plen (pb st q)) then SWAP_BYTES_IN_WORD a else a)"
  have v: "unat v = ones ((if odd (plen (pb st q)) then 256 else 1) * (unat acc + le xs))"
    using a ones_le[of "unat acc + le xs"] by (simp add: v_def SWAP_nat swap16_ones ones_mult)
  have E: "ones ((if odd (length zs) then 256 else 1) * (unat acc + le xs)) = ones (le (zs @ xs))"
  proof (cases "odd (length zs)")
    case True
    have "ones (256 * unat acc) = ones (le zs)" using h True by (simp add: holds_def)
    then have "ones (256 * unat acc + 256 * le xs) = ones (le zs + 256 * le xs)" by (rule ones_cong1)
    also have "\<dots> = ones (le zs + be xs)" by (rule ones_cong1') (simp add: le_be(1))
    finally have "ones (256 * unat acc + 256 * le xs) = ones (le zs + be xs)" .
    then show ?thesis using True by (simp add: le_append distrib_left)
  next
    case False
    then have "ones (unat acc) = ones (le zs)" using h by (simp add: holds_def)
    then have "ones (unat acc + le xs) = ones (le zs + le xs)" by (rule ones_cong1)
    then show ?thesis using False by (simp add: le_append)
  qed
  have "ones ((if odd (length zs) \<noteq> odd (plen (pb st q)) then 256 else 1) * unat v) =
      ones ((if odd (length zs) then 256 else 1) * (unat acc + le xs))"
    unfolding v ones_mult
    by (cases "odd (length zs)"; cases "odd (plen (pb st q))")
      (simp_all only: not_True_eq_False not_False_eq_True if_True if_False mult_1 ones_period_mult simp_thms)
  then have "holds (v, odd (length zs) \<noteq> odd (plen (pb st q))) (zs @ xs)"
    unfolding holds_def fst_conv snd_conv E using v ones_le by metis
  moreover have "sum_buf base q n st (acc, odd (length zs)) = Some (v, odd (length zs) \<noteq> odd (plen (pb st q)))"
    by (auto simp: sum_buf_def peek addr_def[symmetric] a_def[symmetric] v_def Let_def)
  ultimately show ?thesis by (auto simp: xs_def)
qed

definition short_bufs :: "net \<Rightarrow> loc list \<Rightarrow> bool" where
  "short_bufs st ps = (\<forall>p \<in> set ps. plen (pb st p) < 65536)"

lemma chain_loop_holds:
  assumes "pchain (pb st) po ps None" and "has_data st ps" and "short_bufs st ps" and "holds (acc, odd (length zs)) zs"
  shows "\<exists>r. chain_loop base po st (acc, odd (length zs)) = Some r \<and> holds r (zs @ content st ps)"
  using assms
proof (induction ps arbitrary: po acc zs)
  case (Cons q ps)
  have l: "length (buf_data st q) = plen (pb st q)" using Cons.prems(2) by (simp add: length_data)
  have q: "po = Some q" "payload (pb st q) \<noteq> None" "plen (pb st q) < 65536"
    using Cons.prems by (auto simp: short_bufs_def)
  obtain acc' where
    a: "sum_buf base q (plen (pb st q)) st (acc, odd (length zs)) = Some (acc', odd (length zs) \<noteq> odd (plen (pb st q)))"
      "holds (acc', odd (length zs) \<noteq> odd (plen (pb st q))) (zs @ buf_data st q)"
    using sum_buf_step[OF Cons.prems(4) q(2) order_refl q(3), of base] l by auto
  have o: "(odd (length zs) \<noteq> odd (plen (pb st q))) = odd (length (zs @ buf_data st q))" by (simp add: l)
  have "\<exists>r. chain_loop base (pnext (pb st q)) st (acc', odd (length (zs @ buf_data st q))) = Some r \<and>
      holds r ((zs @ buf_data st q) @ content st ps)"
    using Cons.prems a(2) o by (intro Cons.IH) (auto simp: short_bufs_def)
  moreover have "chain_loop base po st (acc, odd (length zs)) =
      chain_loop base (pnext (pb st q)) st (acc', odd (length (zs @ buf_data st q)))"
    by (subst chain_loop.simps) (simp only: q(1) option.case a(1) o Option.bind.simps)
  ultimately show ?case by (simp only: content_simps append_assoc)
qed (auto simp: chain_loop.simps)

lemma not_nat16: "unat (NOT (u :: u16)) = 65535 - unat u"
proof -
  have "NOT u = - 1 - u" by (simp add: not_eq_complement)
  moreover have "unat (- 1 :: u16) = 65535" by (simp add: unsigned_minus_1_eq_mask mask_eq_exp_minus_1)
  ultimately show ?thesis using word_bound(2)[of u] by (simp add: unat_sub word_le_nat_alt)
qed

lemma inet_chksum_nat: "length xs \<le> 0x20000 \<Longrightarrow> unat (inet_chksum addr xs) = 65535 - ones (le xs)"
  by (simp add: inet_chksum_def not_nat16 chksum2_ones)

lemma take_chksum:
  "unat (ucast (u AND 0xffff :: u32) :: u16) = unat u mod 65536"
  by (simp add: unsigned_ucast_eq take_bit_eq_mod unat_take)

lemma chksum_eqI: "unat (a :: u32) = ones n \<Longrightarrow> length xs \<le> 0x20000 \<Longrightarrow> ones (le xs) = ones n \<Longrightarrow>
    NOT (ucast (a AND 0xffff) :: u16) = inet_chksum addr xs"
  using ones_le[of n] by (intro unsigned_word_eqI[where ?'a = nat]) (simp add: not_nat16 take_chksum inet_chksum_nat)

lemma inet_chksum_pbuf_flat:
  assumes "pchain (pb st) po ps None" and "has_data st ps" and "short_bufs st ps" and "length (content st ps) \<le> 0x20000"
  shows "inet_chksum_pbuf base po st = Some (inet_chksum addr (content st ps))"
proof -
  have "holds (0, False) []" by (simp add: holds_def)
  then obtain r where r: "chain_loop base po st (0, False) = Some r" "holds r (content st ps)"
    using chain_loop_holds[OF assms(1-3), of 0 "[]" base] by auto
  from chksum_eqI[OF unswap_holds[OF r(2)] assms(4) refl, of addr]
  show ?thesis by (simp add: inet_chksum_pbuf_def r(1))
qed


section \<open>The pseudo header\<close>

definition mem32 :: "u32 \<Rightarrow> u8 list" where
  "mem32 x = [ucast x, ucast (drop_bit 8 x), ucast (drop_bit 16 x), ucast (drop_bit 24 x)]"

definition mem16be :: "u16 \<Rightarrow> u8 list" where
  "mem16be x = [ucast (drop_bit 8 x), ucast x]"

definition pseudo_header :: "u32 \<Rightarrow> u32 \<Rightarrow> u8 \<Rightarrow> u16 \<Rightarrow> u8 list" where
  "pseudo_header src dest proto proto_len = mem32 src @ mem32 dest @ [0, proto] @ mem16be proto_len"

lemma byte_of [chksum_simps]:
  "unat (ucast (w :: u32) :: u8) = unat w mod 256" "unat (ucast (h :: u16) :: u8) = unat h mod 256"
  by (simp_all add: unsigned_ucast_eq take_bit_eq_mod)

lemma byte_pair: "v mod 256 + 256 * (v div 256 mod 256) = v mod (65536 :: nat)"
  using mod_mult2_eq[of v 256 256] by simp

lemma le_mem32: "le (mem32 x) = unat (x AND 0xffff) + unat (drop_bit 16 x AND 0xffff)"
  using byte_pair[of "unat x"] byte_pair[of "unat x div 65536"]
  by (simp add: mem32_def unat_take byte_of drop_bit_eq_div unat_div_distrib flip: div_mult2_eq)

lemma le_mem16be: "le (mem16be x) = unat (lwip_htons x)"
  using word_bound(2)[of x]
  by (simp add: mem16be_def htons_nat swap16_def byte_of drop_bit_eq_div unat_div_distrib less_mult_imp_div_less)

lemma htons_proto: "unat (lwip_htons (ucast (proto :: u8))) = 256 * unat proto"
  using byte_bound[of proto] by (simp add: htons_nat swap16_def unsigned_ucast_eq take_bit_eq_mod)

lemma length_pseudo [simp]: "length (pseudo_header src dest proto proto_len) = 12"
  by (simp add: pseudo_header_def mem32_def mem16be_def)

lemma half_up: "unat (ucast (h :: u16) :: u32) = unat h"
  using word_bound(2)[of h] by (simp add: unsigned_ucast_eq take_bit_eq_mod)

lemma add_pseudo_nat:
  assumes "unat acc \<le> 65535"
  shows "unat (add_pseudo src dest proto proto_len acc) = unat acc + le (pseudo_header src dest proto proto_len)"
proof -
  have b: "unat (x AND 0xffff :: u32) \<le> 65535" for x by (simp add: unat_take)
  have h: "unat (lwip_htons x) \<le> 65535" for x using word_bound(2)[of "lwip_htons x"] by simp
  have l: "le (pseudo_header src dest proto proto_len) = unat (src AND 0xffff) + unat (drop_bit 16 src AND 0xffff) +
      (unat (dest AND 0xffff) + unat (drop_bit 16 dest AND 0xffff)) + unat (lwip_htons (ucast proto)) + unat (lwip_htons proto_len)"
    by (simp only: pseudo_header_def le_append le_mem32 le_mem16be htons_proto) (simp add: mem32_def)
  have add: "unat (a + b) = unat a + unat b" if "unat a + unat b \<le> 10000000" for a b :: u32
    using that by (simp add: unat_word_ariths)
  show ?thesis
    using assms b[of src] b[of "drop_bit 16 src"] b[of dest] b[of "drop_bit 16 dest"] h[of "ucast proto"] h[of proto_len]
    unfolding l add_pseudo_def by (simp add: add half_up)
qed

text \<open>The end of both pseudo header sums.\<close>

lemma pseudo_end:
  assumes "holds r ys" and "length ys + 12 \<le> 0x20000"
  shows "NOT (ucast (FOLD_U32T (FOLD_U32T (add_pseudo src dest proto proto_len (unswap r))) AND 0xffff) :: u16) =
     inet_chksum addr (pseudo_header src dest proto proto_len @ ys)"
proof (rule chksum_eqI)
  let ?h = "pseudo_header src dest proto proto_len"
  have u: "unat (unswap r) = ones (le ys)" using assms(1) by (rule unswap_holds)
  show "unat (FOLD_U32T (FOLD_U32T (add_pseudo src dest proto proto_len (unswap r)))) = ones (ones (le ys) + le ?h)"
    unfolding FOLD_nat fold16_twice[OF word_bound(1)] using add_pseudo_nat[of "unswap r"] u ones_le[of "le ys"] by simp
  show "ones (le (?h @ ys)) = ones (ones (le ys) + le ?h)"
    by (simp add: le_append ones_add add.commute)
qed (use assms in simp)

lemma inet_chksum_pseudo_flat:
  assumes "pchain (pb st) po ps None" and "has_data st ps" and "short_bufs st ps" and "length (content st ps) + 12 \<le> 0x20000"
  shows "inet_chksum_pseudo base po src dest proto proto_len st =
     Some (inet_chksum addr (pseudo_header src dest proto proto_len @ content st ps))"
proof -
  have "holds (0, False) []" by (simp add: holds_def)
  then obtain r where r: "chain_loop base po st (0, False) = Some r" "holds r (content st ps)"
    using chain_loop_holds[OF assms(1-3), of 0 "[]" base] by auto
  from pseudo_end[OF r(2) assms(4)] show ?thesis by (simp add: inet_chksum_pseudo_def r(1))
qed

section \<open>The sum over a part\<close>

lemma partial_chain_loop_holds:
  assumes "pchain (pb st) po ps None" and "has_data st ps" and "short_bufs st ps" and "holds (acc, odd (length zs)) zs"
    and "ps \<noteq> [] \<Longrightarrow> n < 0x7fff + plen (pb st (hd ps))"
  shows "\<exists>r. partial_chain_loop base po n st (acc, odd (length zs)) = Some r \<and> holds r (zs @ take n (content st ps))"
  using assms
proof (induction ps arbitrary: po acc zs n)
  case (Cons q ps)
  let ?d = "plen (pb st q)"
  have l: "length (buf_data st q) = ?d" using Cons.prems(2) by (simp add: length_data)
  have q: "po = Some q" "payload (pb st q) \<noteq> None" "?d < 65536" "n - ?d < 0x7fff"
    using Cons.prems by (auto simp: short_bufs_def)
  show ?case
  proof (cases "n = 0")
    case True
    then show ?thesis using Cons.prems(4) by (simp add: partial_chain_loop.simps q(1))
  next
    case n: False
    define k where "k = min ?d n"
    have k: "k \<le> ?d" "n - k = n - ?d" "take k (buf_data st q) = take n (buf_data st q)" using l by (auto simp: k_def min_def)
    obtain acc' where a: "sum_buf base q k st (acc, odd (length zs)) = Some (acc', odd (length zs) \<noteq> odd ?d)"
      "holds (acc', odd (length zs) \<noteq> odd ?d) (zs @ take n (buf_data st q))"
      using sum_buf_step[OF Cons.prems(4) q(2) k(1) q(3), of base] unfolding k(3) by auto
    have e: "partial_chain_loop base po n st (acc, odd (length zs)) =
        partial_chain_loop base (pnext (pb st q)) (n - ?d) st (acc', odd (length zs) \<noteq> odd ?d)"
      using n q(4) by (subst partial_chain_loop.simps) (simp only: q(1) option.case if_False Let_def k_def[symmetric] a(1)
        k(2) Option.bind.simps if_True)
    show ?thesis
    proof (cases "n \<le> ?d")
      case True
      then have "partial_chain_loop base (pnext (pb st q)) (n - ?d) st r = Some r" for r
        by (subst partial_chain_loop.simps) (simp split: option.splits)
      then show ?thesis using e a(2) True l by simp
    next
      case False
      then have t: "take n (buf_data st q) = buf_data st q" using l by simp
      have o: "(odd (length zs) \<noteq> odd ?d) = odd (length (zs @ buf_data st q))" by (simp add: l)
      have "\<exists>r. partial_chain_loop base (pnext (pb st q)) (n - ?d) st (acc', odd (length (zs @ buf_data st q))) = Some r \<and>
          holds r ((zs @ buf_data st q) @ take (n - ?d) (content st ps))"
        using Cons.prems a(2) o q(4) unfolding t by (intro Cons.IH) (auto simp: short_bufs_def)
      then show ?thesis unfolding e o using t l by simp
    qed
  qed
qed (auto simp: partial_chain_loop.simps)

lemma inet_chksum_partial_flat:
  assumes "pchain (pb st) (Some p) ps None" and "has_data st ps" and "short_bufs st ps" and "length (content st ps) + 12 \<le> 0x20000"
    and "n < 0x7fff + plen (pb st p)"
  shows "inet_chksum_pseudo_partial base (Some p) src dest proto proto_len n st =
     Some (inet_chksum addr (pseudo_header src dest proto proto_len @ take n (content st ps)))"
proof -
  have "hd ps = p" if "ps \<noteq> []" using assms(1) that by (cases ps) auto
  moreover have "holds (0, False) []" by (simp add: holds_def)
  ultimately obtain r where r: "partial_chain_loop base (Some p) n st (0, False) = Some r" "holds r (take n (content st ps))"
    using partial_chain_loop_holds[OF assms(1-3), of 0 "[]" n base] assms(5) by auto
  have "length (take n (content st ps)) + 12 \<le> 0x20000" using assms(4) by simp
  from pseudo_end[OF r(2) this] show ?thesis by (simp add: inet_chksum_pseudo_partial_def r(1))
qed


section \<open>One byte\<close>

definition weight :: "nat \<Rightarrow> nat" where
  "weight j = (if even j then 1 else 256)"

lemma le_update:
  "j < length xs \<Longrightarrow> le (xs[j := b]) + weight j * unat (xs ! j) = le xs + weight j * unat b"
  "j < length xs \<Longrightarrow> be (xs[j := b]) + weight (Suc j) * unat (xs ! j) = be xs + weight (Suc j) * unat b"
proof (induction xs arbitrary: j)
  case (Cons x xs)
  { case 1 then show ?case using Cons.IH(2)[of "j - 1"] by (cases j) (auto simp: weight_def)
  next case 2 then show ?case using Cons.IH(1)[of "j - 1"] by (cases j) (auto simp: weight_def) }
qed simp_all

lemma ones_full: "ones s = 65535 \<longleftrightarrow> s \<noteq> 0 \<and> s mod 65535 = 0"
proof
  assume "ones s = 65535"
  with ones_mod[of s] ones_zero[of s] show "s \<noteq> 0 \<and> s mod 65535 = 0" by auto
next
  assume s: "s \<noteq> 0 \<and> s mod 65535 = 0"
  with ones_mod[of s] ones_zero[of s] ones_le[of s] show "ones s = 65535"
    by (metis mod_less le_neq_implies_less)
qed

lemma inet_chksum_zero:
  "length xs \<le> 0x20000 \<Longrightarrow> inet_chksum addr xs = 0 \<longleftrightarrow> le xs \<noteq> 0 \<and> le xs mod 65535 = 0"
  using inet_chksum_nat[of xs addr] ones_full[of "le xs"] ones_le[of "le xs"] unat_eq_zero[of "inet_chksum addr xs"] by auto

lemma small_step:
  assumes "(d :: int) \<noteq> 0" and "\<bar>d\<bar> \<le> 255" shows "\<not> 65535 dvd int (weight j) * d"
proof
  assume "65535 dvd int (weight j) * d"
  then obtain k where k: "int (weight j) * d = 65535 * k" by (rule dvdE)
  have w: "int (weight j) = 1 \<or> int (weight j) = 256" by (auto simp: weight_def)
  have "k = 0 \<or> 1 \<le> k \<or> k \<le> - 1" by linarith
  with w k assms show False by (elim disjE) auto
qed

lemma byte_change:
  assumes "j < length xs" and "b \<noteq> xs ! j" and "le xs mod 65535 = 0"
  shows "le (xs[j := b]) mod 65535 \<noteq> 0"
proof
  assume z: "le (xs[j := b]) mod 65535 = 0"
  have e: "int (le (xs[j := b])) - int (le xs) = int (weight j) * (int (unat b) - int (unat (xs ! j)))"
    using arg_cong[OF le_update(1)[OF assms(1), of b], of int] by (simp add: right_diff_distrib)
  have "65535 dvd int (le (xs[j := b]))" "65535 dvd int (le xs)"
    using z assms(3) by presburger+
  then have d: "65535 dvd int (weight j) * (int (unat b) - int (unat (xs ! j)))"
    unfolding e[symmetric] by (rule dvd_diff)
  have "unat b \<noteq> unat (xs ! j)" using assms(2) by (metis unsigned_word_eqI)
  then have "int (unat b) - int (unat (xs ! j)) \<noteq> 0" by linarith
  moreover have "\<bar>int (unat b) - int (unat (xs ! j))\<bar> \<le> 255"
    using byte_bound[of b] byte_bound[of "xs ! j"] by linarith
  moreover note d
  ultimately show False using small_step[of "int (unat b) - int (unat (xs ! j))" j] by blast
qed

end
