(* ===== verification/EtharpClaims.thy ===== *)
theory EtharpClaims
  imports EtharpInv ChksumProps
begin

text \<open>
  Reception, answers to requests, and the ARP table.
\<close>

unbundle bit_operations_syntax

section \<open>Frames\<close>

lemma ip_bytes_nat:
  "map unat (ip_bytes x) = [unat x mod 256, unat x div 256 mod 256, unat x div 65536 mod 256, unat x div 16777216 mod 256]"
  by (simp add: ip_bytes_def drop_bit_eq_div take_bit_eq_mod unat_div_distrib unsigned_ucast_eq)

lemma ip_of_ip_bytes: "ip_of_bytes (ip_bytes x @ xs) = x"
proof -
  obtain a b c d where bs: "ip_bytes x = [a, b, c, d]" by (simp add: ip_bytes_def)
  then have d: "unat a = unat x mod 256" "unat b = unat x div 256 mod 256" "unat c = unat x div 256 div 256 mod 256"
    "unat d = unat x div 256 div 256 div 256 mod 256"
    using ip_bytes_nat[of x] by (simp_all flip: div_mult2_eq)
  have "unat x < 2 ^ 32" using unsigned_less[of x] by simp
  then have "unat x div 256 div 256 div 256 mod 256 = unat x div 256 div 256 div 256" by (simp flip: div_mult2_eq)
  then have "unat (le32 a b c d) = unat x"
    unfolding le32_nat d using div_mult_mod_eq[of "unat x" 256] div_mult_mod_eq[of "unat x div 256" 256]
      div_mult_mod_eq[of "unat x div 256 div 256" 256]
    by linarith
  then show ?thesis by (simp add: ip_of_bytes_def bs word_unat_eq_iff)
qed

lemma ip_bytes_length [simp]: "length (ip_bytes x) = 4"
  by (simp add: ip_bytes_def)

text \<open>An ARP packet in an Ethernet frame.\<close>

definition arp_frame :: "u8 list \<Rightarrow> u8 list \<Rightarrow> u8 list \<Rightarrow> u8 list \<Rightarrow> u32 \<Rightarrow> u8 list \<Rightarrow> u32 \<Rightarrow> u8 list" where
  "arp_frame ethdst ethsrc opcode hwsrc ipsrc hwdst ipdst = ethdst @ ethsrc @ ETHTYPE_ARP @
     HWTYPE_ETHERNET @ ETHTYPE_IP @ [6, 4] @ opcode @ hwsrc @ ip_bytes ipsrc @ hwdst @ ip_bytes ipdst"

lemma blit_at: "length a = i \<Longrightarrow> length b = length ys \<Longrightarrow> blit i ys (a @ b @ c) = a @ ys @ c"
  by (simp add: blit_def)

lemma blit_0: "length b = length ys \<Longrightarrow> blit 0 ys (b @ c) = ys @ c"
  by (simp add: blit_def)

text \<open>The reply is written over the request, field by field.\<close>

lemma reply_over_request:
  assumes "length d = 6" "length s = 6" "length hs = 6" "length th = 6" "length hw = 6"
  shows "fold (\<lambda>(i, ys). blit i ys) [(20, ARP_REPLY), (38, ip_bytes sip), (28, ip_bytes ip), (32, hs), (0, hs), (22, hw), (6, hw)]
      (arp_frame d s ARP_REQUEST hs sip th tip @ pad) = arp_frame hs hw ARP_REPLY hw ip hs sip @ pad"
proof -
  let ?h = "ETHTYPE_ARP @ HWTYPE_ETHERNET @ ETHTYPE_IP @ [6, 4]"
  have 1: "blit 20 ARP_REPLY (arp_frame d s ARP_REQUEST hs sip th tip @ pad) = arp_frame d s ARP_REPLY hs sip th tip @ pad"
    using blit_at[of "d @ s @ ?h" 20 ARP_REQUEST ARP_REPLY "hs @ ip_bytes sip @ th @ ip_bytes tip @ pad"] assms
    by (simp add: arp_frame_def)
  have 2: "blit 38 (ip_bytes a) (arp_frame d s r hs sip th tip @ pad) = arp_frame d s r hs sip th a @ pad" if "length r = 2" for a r
    using blit_at[of "d @ s @ ?h @ r @ hs @ ip_bytes sip @ th" 38 "ip_bytes tip" "ip_bytes a" pad] assms that
    by (simp add: arp_frame_def)
  have 3: "blit 28 (ip_bytes a) (arp_frame d s r hs sip th tip @ pad) = arp_frame d s r hs a th tip @ pad" if "length r = 2" for a r tip
    using blit_at[of "d @ s @ ?h @ r @ hs" 28 "ip_bytes sip" "ip_bytes a" "th @ ip_bytes tip @ pad"] assms that
    by (simp add: arp_frame_def)
  have 4: "blit 32 a (arp_frame d s r hs sip th tip @ pad) = arp_frame d s r hs sip a tip @ pad"
    if "length r = 2" "length a = 6" for a r sip tip
    using blit_at[of "d @ s @ ?h @ r @ hs @ ip_bytes sip" 32 th a "ip_bytes tip @ pad"] assms that
    by (simp add: arp_frame_def)
  have 5: "blit 0 a (arp_frame d s r hs sip th tip @ pad) = arp_frame a s r hs sip th tip @ pad"
    if "length a = 6" for a r th sip tip
    using blit_0[of d a "s @ ?h @ r @ hs @ ip_bytes sip @ th @ ip_bytes tip @ pad"] assms that
    by (simp add: arp_frame_def)
  have 6: "blit 22 a (arp_frame d s r hs sip th tip @ pad) = arp_frame d s r a sip th tip @ pad"
    if "length r = 2" "length a = 6" "length d = 6" for a d r th sip tip
    using blit_at[of "d @ s @ ?h @ r" 22 hs a "ip_bytes sip @ th @ ip_bytes tip @ pad"] assms that
    by (simp add: arp_frame_def)
  have 7: "blit 6 a (arp_frame d s r hs sip th tip @ pad) = arp_frame d a r hs sip th tip @ pad"
    if "length a = 6" "length d = 6" for a d r hs th sip tip
    using blit_at[of d 6 s a "?h @ r @ hs @ ip_bytes sip @ th @ ip_bytes tip @ pad"] assms that
    by (simp add: arp_frame_def)
  show ?thesis using assms by (simp add: 1 2 3 4 5 6 7 del: One_nat_def)
qed

section \<open>Updating the table\<close>

lemma free_entry_idle: "arp_q (arp_table st ! i) = None \<Longrightarrow> etharp_free_entry pt i st = Some (set_entry i (\<lambda>_. empty_entry) st)"
  by (simp add: etharp_free_entry_def)

text \<open>Without waiting packets a search that may recycle always delivers an entry.\<close>

lemma find_entry_hard:
  assumes ok: "arp_ok st" and idle: "\<forall>i < 10. arp_q (arp_table st ! i) = None"
  shows "\<exists>i e. etharp_find_entry pt (Some ip) True False st = Some (Some i, st\<lparr>arp_table := (arp_table st)[i := e]\<rparr>) \<and>
     i < 10 \<and> arp_q e = None \<and> arp_ipaddr e = ip"
proof (cases "find_scan (Some ip) 0 (arp_table st) no_candidates")
  case (Inl k)
  then have k: "k < 10" "arp_ipaddr (arp_table st ! k) = ip" using find_scan_table[OF ok, of "Some ip"] by auto
  then show ?thesis using Inl idle by (intro exI[of _ k] exI[of _ "arp_table st ! k"]) (simp add: etharp_find_entry_def)
next
  case (Inr c)
  then have c: "cand_ok (arp_table st) 10 c" using find_scan_table[OF ok, of "Some ip"] by simp
  then have r: "c_empty c < 10 \<or> old_stable c < 10 \<or> old_pending c < 10 \<or> old_queue c < 10"
    "c_empty c < 10 \<Longrightarrow> arp_state (arp_table st ! c_empty c) = ETHARP_STATE_EMPTY" "c_empty c \<le> 10"
    by (auto simp: cand_ok_def)
  have free: "etharp_free_entry pt i st = Some (set_entry i (\<lambda>_. empty_entry) st)" if "i < 10" for i
    using idle that by (intro free_entry_idle) simp
  obtain i e where i: "recycle pt c st = Some (Some i, st\<lparr>arp_table := (arp_table st)[i := e]\<rparr>)" "i < 10" "arp_q e = None"
    "arp_state e = ETHARP_STATE_EMPTY"
  proof (cases "c_empty c < 10")
    case True
    then show thesis using that[of "c_empty c" "arp_table st ! c_empty c"] r(2) idle by (simp add: recycle_def)
  next
    case False
    have "recycle pt c st = Some (Some i, set_entry i (\<lambda>_. empty_entry) st)"
      if "i = (if old_stable c < 10 then old_stable c else if old_pending c < 10 then old_pending c else old_queue c)" "i < 10" for i
      using False that free[OF that(2)] idle by (simp add: recycle_def split: if_splits)
    moreover have "(if old_stable c < 10 then old_stable c else if old_pending c < 10 then old_pending c else old_queue c) < 10"
      using False r(1) by auto
    ultimately obtain i where "i < 10" "recycle pt c st = Some (Some i, set_entry i (\<lambda>_. empty_entry) st)" by blast
    then show thesis using that[of i empty_entry] by (simp add: set_entry_def)
  qed
  then show ?thesis using Inr r(3) arp_ok_length[OF ok]
    by (intro exI[of _ i] exI[of _ "e\<lparr>arp_ipaddr := ip, arp_ctime := 0\<rparr>"])
       (auto simp: etharp_find_entry_def set_entry_def)
qed

definition learned :: "u32 \<Rightarrow> u8 list \<Rightarrow> etharp_entry" where
  "learned ip ha = \<lparr>arp_q = None, arp_ipaddr = ip, arp_netif = True, arp_ethaddr = ha,
     arp_state = ETHARP_STATE_STABLE, arp_ctime = 0\<rparr>"

lemma learned_q [simp]: "arp_q (learned ip ha) = None"
  by (simp add: learned_def)

lemma update_learns:
  assumes ok: "arp_ok st" and idle: "\<forall>i < 10. arp_q (arp_table st ! i) = None" and "hwaddr_len nif = 6"
    and ip: "ip \<noteq> IPADDR_ANY" "\<not> ip4_addr_isbroadcast ip nif" "\<not> ip_addr_ismulticast ip"
  shows "\<exists>i < 10. etharp_update_arp_entry pt nif ip ha True False st =
     Some (ERR_OK, st\<lparr>arp_table := (arp_table st)[i := learned ip ha]\<rparr>)"
proof -
  obtain i e where f: "etharp_find_entry pt (Some ip) True False st = Some (Some i, st\<lparr>arp_table := (arp_table st)[i := e]\<rparr>)"
    "i < 10" "arp_q e = None" "arp_ipaddr e = ip"
    using find_entry_hard[OF ok idle] by blast
  have "e\<lparr>arp_state := ETHARP_STATE_STABLE, arp_netif := True, arp_ethaddr := ha, arp_ctime := 0\<rparr> = learned ip ha"
    using f(3,4) by (cases e) (simp add: learned_def)
  then show ?thesis using f arp_ok_length[OF ok] assms(3) ip
    by (intro exI[of _ i]) (auto simp: etharp_update_arp_entry_def set_entry_def Let_def)
qed

section \<open>A request is answered\<close>

lemma take_drop_app: "length a = i \<Longrightarrow> length b = k \<Longrightarrow> take k (drop i (a @ b @ c)) = b"
  by simp

lemma arp_input_reply:
  assumes frame: "frame_in (lnet st) e (arp_frame d s ARP_REQUEST hs sip th (ip_addr nif) @ pad)"
    and len: "length d = 6" "length s = 6" "length hs = 6" "length th = 6" "length (hwaddr nif) = 6" "hwaddr_len nif = 6"
    and ok: "arp_ok st" and idle: "\<forall>i < 10. arp_q (arp_table st ! i) = None"
    and ip: "sip \<noteq> IPADDR_ANY" "\<not> ip4_addr_isbroadcast sip nif" "\<not> ip_addr_ismulticast sip" "ip_addr nif \<noteq> IPADDR_ANY"
    and up: "link_up pt (wire st)" "send_frame pt (wire st) (arp_frame hs (hwaddr nif) ARP_REPLY (hwaddr nif) (ip_addr nif) hs sip @ pad)"
    and m: "memp_ok sizes (npools (lnet st)) F" "e \<notin> set (F MEMP_PBUF_POOL)" "e \<in> set (elems sizes MEMP_PBUF_POOL)"
  shows "\<exists>n i. etharp_arp_input pt nif (Pool e) st = Some (st\<lparr>lnet := n, arp_table := (arp_table st)[i := learned sip hs],
       wire := (arp_frame hs (hwaddr nif) ARP_REPLY (hwaddr nif) (ip_addr nif) hs sip @ pad) # wire st\<rparr>) \<and>
     i < 10 \<and> memp_ok sizes (npools n) (F(MEMP_PBUF_POOL := e # F MEMP_PBUF_POOL))"
proof -
  let ?req = "arp_frame d s ARP_REQUEST hs sip th (ip_addr nif) @ pad"
  let ?rep = "arp_frame hs (hwaddr nif) ARP_REPLY (hwaddr nif) (ip_addr nif) hs sip @ pad"
  let ?ws = "[(20, ARP_REPLY), (38, ip_bytes sip), (28, ip_bytes (ip_addr nif)), (32, hs), (0, hs), (22, hwaddr nif), (6, hwaddr nif)]"
  let ?hdr = "HWTYPE_ETHERNET @ ETHTYPE_IP @ [6, 4] @ ARP_REQUEST @ hs @ ip_bytes sip @ th @ ip_bytes (ip_addr nif)"
  have plen: "plen (buf st (Pool e)) = 42 + length pad"
    using frame_in_len(1)[OF frame] len by (simp add: buf_def arp_frame_def)
  define hdr where "hdr = ?hdr"
  have hdr: "rd (Pool e) 14 28 st = Some hdr"
    using frame_in_rd[OF frame, of 14 28] len by (simp add: arp_frame_def hdr_def)
  obtain i where i: "i < 10" "etharp_update_arp_entry pt nif sip hs True False st =
     Some (ERR_OK, st\<lparr>arp_table := (arp_table st)[i := learned sip hs]\<rparr>)"
    using update_learns[OF ok idle len(6) ip(1-3)] by blast
  define st1 where "st1 = st\<lparr>arp_table := (arp_table st)[i := learned sip hs]\<rparr>"
  have frame1: "frame_in (lnet st1) e ?req" using frame by (simp add: st1_def)
  have "\<forall>(i, ys) \<in> set ?ws. i + length ys \<le> length ?req" using len by (simp add: arp_frame_def)
  from puts_frame[OF frame1 this] obtain n1 where n1: "puts (Pool e) ?ws st1 = Some (st1\<lparr>lnet := n1\<rparr>)"
    "frame_in n1 e ?rep" "rewritten e (lnet st1) n1"
    unfolding reply_over_request[OF len(1-5)] by blast
  define st2 where "st2 = st1\<lparr>lnet := n1, wire := ?rep # wire st\<rparr>"
  have out: "low_level_output pt (Pool e) (st1\<lparr>lnet := n1\<rparr>) = Some (ERR_OK, st2)"
    using low_level_output_frame[of "st1\<lparr>lnet := n1\<rparr>" e ?rep pt] n1(2) up
    by (simp add: transmit_def st1_def st2_def)
  have f2: "frame_in (lnet st2) e ?rep" "memp_ok sizes (npools (lnet st2)) F"
    using n1(2,3) m(1) by (simp_all add: st2_def rewritten_def st1_def)
  obtain n2 where n2: "release pt (Pool e) st2 = Some (st2\<lparr>lnet := n2\<rparr>)"
    "memp_ok sizes (npools n2) (F(MEMP_PBUF_POOL := e # F MEMP_PBUF_POOL))"
    using release_frame[OF f2 m(2,3)] by blast
  have fields: "take 2 hdr = HWTYPE_ETHERNET" "hdr ! 4 = 6" "hdr ! 5 = 4" "take 2 (drop 2 hdr) = ETHTYPE_IP"
    "ip_of_bytes (drop 14 hdr) = sip" "ip_of_bytes (drop 24 hdr) = ip_addr nif" "take 6 (drop 8 hdr) = hs"
    "take 2 (drop 6 hdr) = ARP_REQUEST"
    using len ip_of_ip_bytes[of sip] ip_of_ip_bytes[of "ip_addr nif" "[]"] by (simp_all add: hdr_def)
  have "etharp_arp_input pt nif (Pool e) st = Some (st2\<lparr>lnet := n2\<rparr>)"
    using plen i(2) ip(4) len(6) n1(1) out n2(1)
    by (simp del: puts.simps add: etharp_arp_input_def arp_opcode_def hdr fields Let_def st1_def[symmetric])
  then show ?thesis using i(1) n2(2)
    by (intro exI[of _ n2] exI[of _ i]) (simp add: st2_def st1_def)
qed

section \<open>From the interrupt to the upper layers\<close>

lemma short_frame_in:
  assumes ok: "memp_ok sizes (npools (lnet st)) F" "all_plain sizes (pb (lnet st))" and F: "F MEMP_PBUF_POOL = e # es"
    and len: "14 \<le> length frame" "length frame \<le> PBUF_POOL_BUFSIZE_ALIGNED" and ty: "take 2 (drop 12 frame) = ETHTYPE_IP \<or> take 2 (drop 12 frame) = ETHTYPE_ARP"
  shows "\<exists>n1. receive_frame pt nif frame st = ethernet_input pt nif (Pool e) (st\<lparr>lnet := n1\<rparr>) \<and> frame_in n1 e frame \<and>
     memp_ok sizes (npools n1) (F(MEMP_PBUF_POOL := es)) \<and> nheap n1 = nheap (lnet st)"
proof -
  obtain n1 where n1: "receive_frame pt nif frame st = Option.bind (rd (Pool e) 12 2 (st\<lparr>lnet := n1\<rparr>)) (\<lambda>etype.
       if etype = ETHTYPE_IP \<or> etype = ETHTYPE_ARP then ethernet_input pt nif (Pool e) (st\<lparr>lnet := n1\<rparr>)
       else release pt (Pool e) (st\<lparr>lnet := n1\<rparr>))"
     "packet n1 [e] (length frame)" "buf_data n1 (Pool e) = frame"
     "memp_ok sizes (npools n1) (F(MEMP_PBUF_POOL := es))" "nheap n1 = nheap (lnet st)"
    using short_frame[OF ok F len(2), of pt nif] by blast
  have f: "frame_in n1 e frame" using n1(2,3) by (simp add: frame_in_def)
  then have "rd (Pool e) 12 2 (st\<lparr>lnet := n1\<rparr>) = Some (take 2 (drop 12 frame))"
    using frame_in_rd[of "st\<lparr>lnet := n1\<rparr>" e frame 12 2] len(1) by simp
  then show ?thesis using n1(1,4,5) f ty by (intro exI[of _ n1]) simp
qed

lemma free_elem:
  assumes "memp_ok sizes mp F" and "F MEMP_PBUF_POOL = e # es"
  shows "e \<notin> set es" and "e \<in> set (elems sizes MEMP_PBUF_POOL)"
  using assms by (auto simp: memp_ok_def dest!: spec[of _ MEMP_PBUF_POOL])

text \<open>Claim C27: a frame longer than one pool buffer overruns it. The receive interrupt asks for a chain of
  buffers for the frame, but then sets the length of the first one to the length of the whole
  frame and lets the driver copy all of it there: every byte of the frame is written behind
  the start of the first buffer's data, up to and past the end of its pool element, and the
  packet handed on claims in its first buffer the length of the whole chain.\<close>

theorem long_frame_overruns:
  assumes "memp_ok sizes (npools (lnet st)) F" and "all_plain sizes (pb (lnet st))" and "length frame < 65536"
    and "nbufs_for PBUF_RAW (length frame) \<le> length (F MEMP_PBUF_POOL)" and "PBUF_POOL_BUFSIZE_ALIGNED < length frame"
  shows "\<exists>st1 off. receive_frame pt nif frame st = Option.bind (rd (Pool (hd (F MEMP_PBUF_POOL))) 12 2 st1) (\<lambda>etype.
       if etype = ETHTYPE_IP \<or> etype = ETHTYPE_ARP then ethernet_input pt nif (Pool (hd (F MEMP_PBUF_POOL))) st1
       else release pt (Pool (hd (F MEMP_PBUF_POOL))) st1) \<and>
     (\<forall>j < length frame. bytes (lnet st1) (Pool (hd (F MEMP_PBUF_POOL))) (off + int j) = frame ! j) \<and>
     elem_end \<le> off + int (length frame) - 1 \<and>
     plen (buf st1 (Pool (hd (F MEMP_PBUF_POOL)))) = tot_len (buf st1 (Pool (hd (F MEMP_PBUF_POOL)))) \<and>
     pnext (buf st1 (Pool (hd (F MEMP_PBUF_POOL)))) \<noteq> None"
  by (rule long_frame [OF assms])

text \<open>Claim C24: an IP frame that fits a pool buffer is delivered. The upper layer gets one buffer that
  holds exactly the frame without its Ethernet header, with that length, exclusively owned;
  the rest of the pool and the heap are as before.\<close>

theorem ip_frame_delivered:
  assumes "memp_ok sizes (npools (lnet st)) F" and "all_plain sizes (pb (lnet st))" and "F MEMP_PBUF_POOL = e # es"
    and "14 < length frame" and "length frame \<le> PBUF_POOL_BUFSIZE_ALIGNED" and "take 2 (drop 12 frame) = ETHTYPE_IP"
    and "netif_flags nif AND NETIF_FLAG_ETHARP \<noteq> 0"
  shows "\<exists>n. receive_frame pt nif frame st = ip_handler pt (Pool e) (st\<lparr>lnet := n\<rparr>) \<and>
     packet n [e] (length frame - 14) \<and> content n [Pool e] = drop 14 frame \<and>
     memp_ok sizes (npools n) (F(MEMP_PBUF_POOL := es)) \<and> nheap n = nheap (lnet st)"
proof -
  obtain n1 where 1: "receive_frame pt nif frame st = ethernet_input pt nif (Pool e) (st\<lparr>lnet := n1\<rparr>)" "frame_in n1 e frame"
     "memp_ok sizes (npools n1) (F(MEMP_PBUF_POOL := es))" "nheap n1 = nheap (lnet st)"
    using short_frame_in[OF assms(1-3) _ assms(5)] assms(4,6) by (metis less_imp_le)
  obtain n2 where 2: "mark_cast (Pool e) (take 6 (take 14 frame)) (st\<lparr>lnet := n1\<rparr>) = st\<lparr>lnet := n2\<rparr>" "frame_in n2 e frame"
     "npools n2 = npools n1" "nheap n2 = nheap n1"
    using mark_cast_frame[of "st\<lparr>lnet := n1\<rparr>" e frame "take 6 (take 14 frame)"] 1(2) by auto
  obtain n3 where 3: "pbuf_header (Pool e) (- int 14) n2 = Some (0, n3)" "frame_in n3 e (drop 14 frame)"
     "npools n3 = npools n2" "nheap n3 = nheap n2"
    using header_off[OF 2(2), of 14] assms(4,5) by auto
  have "rd (Pool e) 0 14 (st\<lparr>lnet := n1\<rparr>) = Some (take 14 frame)"
    using frame_in_rd[of "st\<lparr>lnet := n1\<rparr>" e frame 0 14] 1(2) assms(4) by simp
  moreover have "plen (buf (st\<lparr>lnet := n1\<rparr>) (Pool e)) = length frame" using frame_in_len(1)[OF 1(2)] by (simp add: buf_def)
  moreover have "drop 12 (take 14 frame) = ETHTYPE_IP" using assms(6) by (simp add: drop_take)
  ultimately have "ethernet_input pt nif (Pool e) (st\<lparr>lnet := n1\<rparr>) = ip_handler pt (Pool e) (st\<lparr>lnet := n3\<rparr>)"
    using assms(4,7) 2(1) 3(1) by (simp add: ethernet_input_def Let_def del: take_take)
  then show ?thesis using 1 2 3 by (intro exI[of _ n3]) (simp add: frame_in_def)
qed

text \<open>Claim C23: an ARP request for the board's address is answered, when the sender's address is valid (not 0.0.0.0, no
  broadcast) and no packet is queued in the table. The frame that goes out is the request
  turned round: to the sender, from the board, with the board's hardware address as the
  answer. The sender's address pair is then in the table as a stable entry of age 0, no
  other entry has changed, and the buffer of the request is back in the pool.\<close>

theorem arp_request_answered:
  assumes "memp_ok sizes (npools (lnet st)) F" and "all_plain sizes (pb (lnet st))" and "F MEMP_PBUF_POOL = e # es"
    and "arp_ok st" and "\<forall>i < 10. arp_q (arp_table st ! i) = None" and "netif_flags nif AND NETIF_FLAG_ETHARP \<noteq> 0"
    and "length d = 6" "length s = 6" "length hs = 6" "length th = 6" "length (hwaddr nif) = 6" "hwaddr_len nif = 6" "length pad \<le> 558"
    and "sip \<noteq> IPADDR_ANY" "\<not> ip4_addr_isbroadcast sip nif" "\<not> ip_addr_ismulticast sip" "ip_addr nif \<noteq> IPADDR_ANY"
    and "link_up pt (wire st)" "send_frame pt (wire st) (arp_frame hs (hwaddr nif) ARP_REPLY (hwaddr nif) (ip_addr nif) hs sip @ pad)"
  shows "\<exists>n i. receive_frame pt nif (arp_frame d s ARP_REQUEST hs sip th (ip_addr nif) @ pad) st =
       Some (st\<lparr>lnet := n, arp_table := (arp_table st)[i := learned sip hs],
         wire := (arp_frame hs (hwaddr nif) ARP_REPLY (hwaddr nif) (ip_addr nif) hs sip @ pad) # wire st\<rparr>) \<and>
     i < 10 \<and> memp_ok sizes (npools n) F"
proof -
  let ?frame = "arp_frame d s ARP_REQUEST hs sip th (ip_addr nif) @ pad"
  have len: "length ?frame = 42 + length pad" using assms(7-10) by (simp add: arp_frame_def)
  have ty: "take 2 (drop 12 ?frame) = ETHTYPE_ARP" using assms(7-10) by (simp add: arp_frame_def)
  obtain n1 where 1: "receive_frame pt nif ?frame st = ethernet_input pt nif (Pool e) (st\<lparr>lnet := n1\<rparr>)" "frame_in n1 e ?frame"
     "memp_ok sizes (npools n1) (F(MEMP_PBUF_POOL := es))"
    using short_frame_in[OF assms(1-3), of ?frame pt nif] ty len assms(13) by auto
  obtain n2 where 2: "mark_cast (Pool e) (take 6 (take 14 ?frame)) (st\<lparr>lnet := n1\<rparr>) = st\<lparr>lnet := n2\<rparr>" "frame_in n2 e ?frame"
     "npools n2 = npools n1"
    using mark_cast_frame[of "st\<lparr>lnet := n1\<rparr>" e ?frame "take 6 (take 14 ?frame)"] 1(2) by auto
  have rd: "rd (Pool e) 0 14 (st\<lparr>lnet := n1\<rparr>) = Some (take 14 ?frame)"
    using frame_in_rd[of "st\<lparr>lnet := n1\<rparr>" e ?frame 0 14] 1(2) len by simp
  have plen: "plen (buf (st\<lparr>lnet := n1\<rparr>) (Pool e)) = 42 + length pad" using frame_in_len(1)[OF 1(2)] len by (simp add: buf_def)
  have type: "drop 12 (take 14 ?frame) = ETHTYPE_ARP" using ty by (simp only: drop_take) simp
  have "ethernet_input pt nif (Pool e) (st\<lparr>lnet := n1\<rparr>) = etharp_arp_input pt nif (Pool e) (st\<lparr>lnet := n2\<rparr>)"
    unfolding ethernet_input_def rd Let_def using plen assms(6) type 2(1) by (simp del: take_take take_append drop_append)
  moreover obtain n i where "etharp_arp_input pt nif (Pool e) (st\<lparr>lnet := n2\<rparr>) = Some (st\<lparr>lnet := n2, lnet := n, arp_table := (arp_table st)[i := learned sip hs],
       wire := (arp_frame hs (hwaddr nif) ARP_REPLY (hwaddr nif) (ip_addr nif) hs sip @ pad) # wire st\<rparr>)" "i < 10"
     "memp_ok sizes (npools n) (F(MEMP_PBUF_POOL := es, MEMP_PBUF_POOL := e # (F(MEMP_PBUF_POOL := es)) MEMP_PBUF_POOL))"
    using arp_input_reply[of "st\<lparr>lnet := n2\<rparr>" e d s hs sip th nif pad pt sizes "F(MEMP_PBUF_POOL := es)"]
      assms(4,5,7-19) 1(3) 2(2,3) free_elem[OF assms(1,3)] by (auto simp: arp_ok_def)
  moreover have "F(MEMP_PBUF_POOL := es, MEMP_PBUF_POOL := e # (F(MEMP_PBUF_POOL := es)) MEMP_PBUF_POOL) = F"
    using assms(3) by auto
  ultimately show ?thesis using 1(1) by (intro exI[of _ n] exI[of _ i]) simp
qed

section \<open>The table\<close>

lemma arp_opcode_ok:
  assumes "arp_opcode pt nif p opc sip sha us st = Some st'" and ok: "arp_ok st"
    and dhcp: "\<And>ip s s'. arp_ok s \<Longrightarrow> dhcp_arp_reply pt ip s = Some s' \<Longrightarrow> arp_ok s'"
  shows "arp_ok st'"
  using assms(1) arp_ok_same[OF ok] ok dhcp[OF ok] unfolding arp_opcode_def
  by (auto simp del: puts.simps split: if_splits bind_splits dest!: puts_table low_level_output_table intro: same_table_trans)

lemma arp_input_ok:
  assumes "etharp_arp_input pt nif p st = Some st'" and ok: "arp_ok st"
    and dhcp: "\<And>ip s s'. arp_ok s \<Longrightarrow> dhcp_arp_reply pt ip s = Some s' \<Longrightarrow> arp_ok s'"
  shows "arp_ok st'"
  using assms(1) ok unfolding etharp_arp_input_def Let_def
  by (auto split: if_splits bind_splits dest!: update_arp_entry_ok arp_opcode_ok[OF _ _ dhcp] release_table
      intro: arp_ok_same)

lemma mark_cast_table: "same_table st (mark_cast p d st)"
  by (simp add: mark_cast_def Let_def)

lemma ethernet_input_ok:
  assumes "ethernet_input pt nif p st = Some st'" and ok: "arp_ok st"
    and up: "\<And>p s s'. arp_ok s \<Longrightarrow> ip_handler pt p s = Some s' \<Longrightarrow> arp_ok s'"
      "\<And>ip s s'. arp_ok s \<Longrightarrow> dhcp_arp_reply pt ip s = Some s' \<Longrightarrow> arp_ok s'"
  shows "arp_ok st'"
proof -
  have m: "arp_ok (mark_cast p d st)" for d using ok mark_cast_table by (rule arp_ok_same)
  have n: "arp_ok (mark_cast p d st\<lparr>lnet := n\<rparr>)" for d n using m[of d] by (simp add: arp_ok_def)
  show ?thesis using assms(1) arp_ok_same[OF ok] arp_ok_same[OF m] up(1)[OF n] arp_input_ok[OF _ m up(2)]
    unfolding ethernet_input_def Let_def by (auto split: if_splits bind_splits dest!: release_table)
qed

lemma receive_frame_ok:
  assumes "receive_frame pt nif frame st = Some st'" and ok: "arp_ok st"
    and up: "\<And>p s s'. arp_ok s \<Longrightarrow> ip_handler pt p s = Some s' \<Longrightarrow> arp_ok s'"
      "\<And>ip s s'. arp_ok s \<Longrightarrow> dhcp_arp_reply pt ip s = Some s' \<Longrightarrow> arp_ok s'"
  shows "arp_ok st'"
proof -
  have "\<exists>p n xs st1. puts p [(0, xs)] (st\<lparr>lnet := n\<rparr>) = Some st1 \<and>
      (release pt p st1 = Some st' \<or> ethernet_input pt nif p st1 = Some st')"
    using assms(1) unfolding receive_frame_def Let_def
    by (auto simp del: puts.simps split: bind_splits option.splits if_splits) blast+
  then obtain p n xs st1 where 1: "puts p [(0, xs)] (st\<lparr>lnet := n\<rparr>) = Some st1"
    "release pt p st1 = Some st' \<or> ethernet_input pt nif p st1 = Some st'" by blast
  have "arp_ok (st\<lparr>lnet := n\<rparr>)" using ok by (simp add: arp_ok_def)
  from arp_ok_same[OF this puts_table[OF 1(1)]] have 2: "arp_ok st1" .
  show ?thesis using 1(2)
  proof
    assume "release pt p st1 = Some st'"
    then show ?thesis using release_table arp_ok_same[OF 2] by blast
  next
    assume "ethernet_input pt nif p st1 = Some st'"
    then show ?thesis by (rule ethernet_input_ok[OF _ 2 up])
  qed
qed

lemma ethernetif_input_ok:
  assumes up: "\<And>p s s'. arp_ok s \<Longrightarrow> ip_handler pt p s = Some s' \<Longrightarrow> arp_ok s'"
      "\<And>ip s s'. arp_ok s \<Longrightarrow> dhcp_arp_reply pt ip s = Some s' \<Longrightarrow> arp_ok s'"
  shows "ethernetif_input pt nif fs st = Some st' \<Longrightarrow> arp_ok st \<Longrightarrow> arp_ok st'"
proof (induction fs arbitrary: st)
  case (Cons f fs)
  have "arp_ok s" if "receive_frame pt nif g st = Some s" for g s
    by (rule receive_frame_ok[OF that Cons.prems(2)]; rule up)
  with Cons show ?case by (cases f) (auto split: bind_splits if_splits)
qed simp


end
