(* ===== verification/EtharpWitnesses.thy ===== *)
theory EtharpWitnesses
  imports EtharpClaims Packets
begin

text \<open>
  The properties of reception and address resolution at an idle board with the address
  192.168.1.10, on a controller that sends every frame.
\<close>

unbundle bit_operations_syntax

definition ex_port :: port where
  "ex_port = \<lparr>custom_free = (\<lambda>_ _. None), link_up = (\<lambda>_. True), send_frame = (\<lambda>_ _. True),
     ip_handler = (\<lambda>_ st. Some st), dhcp_arp_reply = (\<lambda>_ st. Some st)\<rparr>"

definition ex_nif :: netif where
  "ex_nif = \<lparr>ip_addr = 0x0a01a8c0, netmask = 0x00ffffff, gw = 0x0101a8c0, mtu = 1500, hwaddr_len = 6,
     hwaddr = [2, 0, 0, 0, 0, 1], netif_flags = 0x33\<rparr>"

definition ex_ip_state :: ip_state where
  "ex_ip_state = \<lparr>ip_id = 0, current_iphdr_src = 0, current_iphdr_dest = 0, reassdatagrams = None,
     reass = (\<lambda>_. zero_reassdata), ip_reass_pbufcount = 0, reass_helpers = (\<lambda>_. \<lparr>next_pbuf = None, h_start = 0, h_end = 0\<rparr>),
     udp_pcbs = None, udp_pcb_at = (\<lambda>_. zero_udp_pcb), udp_port = UDP_LOCAL_PORT_RANGE_START, raw_pcbs = None, raw_pcb_at = (\<lambda>_. zero_raw_pcb), dhcp_pcb = (\<lambda>_. None), tcps = tcp_vars_init\<rparr>"

definition ex_lan :: "heap \<Rightarrow> etharp_entry list \<Rightarrow> lan" where
  "ex_lan h tab = \<lparr>lnet = ex_net h, arp_table = tab, etharp_cached_entry = 0, ucBuffer = [], wire = [], ipst = ex_ip_state\<rparr>"

lemma ex_port_sel [simp]:
  "custom_free ex_port = (\<lambda>_ _. None)" "link_up ex_port w" "send_frame ex_port w f"
  "ip_handler ex_port p st = Some st" "dhcp_arp_reply ex_port ip st = Some st"
  by (simp_all add: ex_port_def)

lemma ex_nif_sel [simp]:
  "mtu ex_nif = 1500" "ip_addr ex_nif = 0x0a01a8c0" "netmask ex_nif = 0x00ffffff" "hwaddr_len ex_nif = 6"
  "hwaddr ex_nif = [2, 0, 0, 0, 0, 1]" "netif_flags ex_nif = 0x33"
  by (simp_all add: ex_nif_def)

lemma ex_lan_sel [simp]: "lnet (ex_lan h tab) = ex_net h" "arp_table (ex_lan h tab) = tab" "wire (ex_lan h tab) = []"
  "etharp_cached_entry (ex_lan h tab) = 0"
  by (simp_all add: ex_lan_def)

lemma ex_pool: "\<exists>e es. rev (elems (\<lambda>_. 616) MEMP_PBUF_POOL) = e # es"
  by (cases "rev (elems (\<lambda>_. 616) MEMP_PBUF_POOL)") (simp_all add: elems_def)

definition long_ip_frame :: "u8 list" where
  "long_ip_frame = replicate 12 0xff @ ETHTYPE_IP @ replicate 588 7"

theorem long_frame_overruns_witness:
  "\<forall>h tab. \<exists>e st1 off. receive_frame ex_port ex_nif long_ip_frame (ex_lan h tab) = Option.bind (rd (Pool e) 12 2 st1) (\<lambda>etype.
       if etype = ETHTYPE_IP \<or> etype = ETHTYPE_ARP then ethernet_input ex_port ex_nif (Pool e) st1 else release ex_port (Pool e) st1) \<and>
     bytes (lnet st1) (Pool e) (off + 601) = 7 \<and> elem_end \<le> off + 601"
proof (intro allI)
  fix h tab
  let ?F = "\<lambda>t. rev (elems (\<lambda>_. 616) t)"
  have l: "length long_ip_frame = 602" by (simp add: long_ip_frame_def)
  have n: "nbufs_for PBUF_RAW (length long_ip_frame) \<le> length (?F MEMP_PBUF_POOL)"
    by (simp add: l nbufs_raw nbufs_def elems_def)
  have last: "long_ip_frame ! 601 = 7" by (simp add: long_ip_frame_def nth_append)
  have pre: "memp_ok (\<lambda>_. 616) (npools (lnet (ex_lan h tab))) ?F" "all_plain (\<lambda>_. 616) (pb (lnet (ex_lan h tab)))"
    "length long_ip_frame < 65536" "PBUF_POOL_BUFSIZE_ALIGNED < length long_ip_frame"
    using ex_net_ok[of h] by (simp_all add: l)
  from long_frame_overruns[OF pre(1-3) n pre(4), of ex_port ex_nif]
  show "\<exists>e st1 off. receive_frame ex_port ex_nif long_ip_frame (ex_lan h tab) = Option.bind (rd (Pool e) 12 2 st1) (\<lambda>etype.
       if etype = ETHTYPE_IP \<or> etype = ETHTYPE_ARP then ethernet_input ex_port ex_nif (Pool e) st1 else release ex_port (Pool e) st1) \<and>
     bytes (lnet st1) (Pool e) (off + 601) = 7 \<and> elem_end \<le> off + 601"
    unfolding l using last by (elim exE conjE) (drule spec[of _ 601], intro exI conjI, assumption, simp_all add: add.commute)
qed

theorem ip_frame_delivered_witness:
  "\<forall>h tab. \<exists>e n. receive_frame ex_port ex_nif (replicate 12 0xff @ ETHTYPE_IP @ [0x45, 7]) (ex_lan h tab) =
       ip_handler ex_port (Pool e) ((ex_lan h tab)\<lparr>lnet := n\<rparr>) \<and> packet n [e] 2 \<and> content n [Pool e] = [0x45, 7]"
proof (intro allI)
  fix h tab
  let ?f = "replicate 12 0xff @ ETHTYPE_IP @ [0x45, 7] :: u8 list"
  obtain e es where F: "rev (elems (\<lambda>_. 616) MEMP_PBUF_POOL) = e # es" using ex_pool by blast
  have f: "14 < length ?f" "length ?f \<le> 600" "take 2 (drop 12 ?f) = ETHTYPE_IP" "netif_flags ex_nif AND 0x20 \<noteq> 0"
    "length ?f - 14 = 2" "drop 14 ?f = [0x45, 7]"
    by simp_all
  show "\<exists>e n. receive_frame ex_port ex_nif ?f (ex_lan h tab) = ip_handler ex_port (Pool e) ((ex_lan h tab)\<lparr>lnet := n\<rparr>) \<and>
      packet n [e] 2 \<and> content n [Pool e] = [0x45, 7]"
    using ip_frame_delivered[of "\<lambda>_. 616" "ex_lan h tab" "\<lambda>t. rev (elems (\<lambda>_. 616) t)" e es ?f ex_nif ex_port] ex_net_ok[of h] F f
    unfolding f(5,6) ex_lan_sel by blast
qed

text \<open>The host 192.168.1.7 asks for 192.168.1.10.\<close>

theorem arp_request_answered_witness:
  "\<forall>h. \<exists>st' i. receive_frame ex_port ex_nif
       (arp_frame ethbroadcast [9, 9, 9, 9, 9, 9] ARP_REQUEST [9, 9, 9, 9, 9, 9] 0x0701a8c0 ethzero 0x0a01a8c0) (ex_lan h (replicate 10 empty_entry))
       = Some st' \<and>
     wire st' = [arp_frame [9, 9, 9, 9, 9, 9] [2, 0, 0, 0, 0, 1] ARP_REPLY [2, 0, 0, 0, 0, 1] 0x0a01a8c0 [9, 9, 9, 9, 9, 9] 0x0701a8c0] \<and>
     i < 10 \<and> arp_table st' = (replicate 10 empty_entry)[i := learned 0x0701a8c0 [9, 9, 9, 9, 9, 9]]"
proof
  fix h
  obtain e es where F: "rev (elems (\<lambda>_. 616) MEMP_PBUF_POOL) = e # es" using ex_pool by blast
  let ?st = "ex_lan h (replicate 10 empty_entry)"
  have ok: "arp_ok ?st" "\<forall>i < 10. arp_q (arp_table ?st ! i) = None" by (simp_all add: arp_ok_def table_ok_def)
  have cast: "\<not> ip4_addr_isbroadcast 0x0701a8c0 ex_nif" "\<not> ip_addr_ismulticast 0x0701a8c0"
    by (simp_all add: ip4_addr_isbroadcast_def ip_addr_netcmp_def ip_addr_ismulticast_def lwip_htonl_def)
  show "\<exists>st' i. receive_frame ex_port ex_nif
       (arp_frame ethbroadcast [9, 9, 9, 9, 9, 9] ARP_REQUEST [9, 9, 9, 9, 9, 9] 0x0701a8c0 ethzero 0x0a01a8c0) ?st
       = Some st' \<and>
     wire st' = [arp_frame [9, 9, 9, 9, 9, 9] [2, 0, 0, 0, 0, 1] ARP_REPLY [2, 0, 0, 0, 0, 1] 0x0a01a8c0 [9, 9, 9, 9, 9, 9] 0x0701a8c0] \<and>
     i < 10 \<and> arp_table st' = (replicate 10 empty_entry)[i := learned 0x0701a8c0 [9, 9, 9, 9, 9, 9]]"
    using arp_request_answered[of "\<lambda>_. 616" ?st "\<lambda>t. rev (elems (\<lambda>_. 616) t)" e es ex_nif ethbroadcast
        "[9, 9, 9, 9, 9, 9]" "[9, 9, 9, 9, 9, 9]" ethzero "[]" "0x0701a8c0" ex_port] ex_net_ok[of h] F ok cast
    by (auto simp: ethbroadcast_def ethzero_def simp del: replicate.simps)
qed

text \<open>A stable entry ages under the timer.\<close>

lemma tmr_loop_empty: "\<forall>i \<in> set is. arp_state (arp_table st ! i) = ETHARP_STATE_EMPTY \<Longrightarrow> tmr_loop pt is st = Some st"
  by (induction "is") (simp_all add: tmr_entry_def)


end
