(* ===== verification/IpHdr.thy ===== *)
theory IpHdr
  imports Etharp
begin

text \<open>
  What the IP modules share: the host (the interfaces in the order of \<open>netif_list\<close>, the
  controller behind them, the addresses of the memory blocks, and the layers above that
  are given as functions), access to memory through a data pointer, and the fields of the
  IP header of \<open>lwip/src/include/ipv4/lwip/ip.h\<close> and of the bytes in network order.
  An interface is its position in the list. The callbacks of UDP and raw control blocks are
  given by their number, argument and control block.
\<close>

unbundle bit_operations_syntax

section \<open>The host\<close>

record host =
  hport :: port
  netifs :: "netif list"
  netif_default :: "nat option"
  block_addr :: "loc \<Rightarrow> nat"
  tcp_handler :: "nat \<Rightarrow> loc \<Rightarrow> lan \<Rightarrow> lan option"
  udp_recv_fn :: "nat \<Rightarrow> nat \<Rightarrow> nat \<Rightarrow> loc \<Rightarrow> u32 \<Rightarrow> nat \<Rightarrow> lan \<Rightarrow> lan option"
  raw_recv_fn :: "nat \<Rightarrow> nat \<Rightarrow> nat \<Rightarrow> loc \<Rightarrow> u32 \<Rightarrow> lan \<Rightarrow> (nat \<times> lan) option"

definition nif :: "host \<Rightarrow> nat \<Rightarrow> netif" where
  "nif H i = netifs H ! i"

abbreviation NETIF_FLAG_UP :: u8 where "NETIF_FLAG_UP \<equiv> 1"

definition netif_is_up :: "netif \<Rightarrow> bool" where
  "netif_is_up n = (netif_flags n AND NETIF_FLAG_UP \<noteq> 0)"

definition data_addr :: "host \<Rightarrow> dptr \<Rightarrow> nat" where
  "data_addr H d = (case d of None \<Rightarrow> 0 | Some (b, off) \<Rightarrow> nat (int (block_addr H b) + off))"

definition set_ipst :: "(ip_state \<Rightarrow> ip_state) \<Rightarrow> lan \<Rightarrow> lan" where
  "set_ipst f st = st\<lparr>ipst := f (ipst st)\<rparr>"

section \<open>Memory\<close>

definition fetch :: "dptr \<Rightarrow> nat \<Rightarrow> nat \<Rightarrow> lan \<Rightarrow> u8 list option" where
  "fetch d i n st = peek d (int i) n (lnet st)"

fun store :: "dptr \<Rightarrow> (nat \<times> u8 list) list \<Rightarrow> lan \<Rightarrow> lan option" where
  "store d [] st = Some st"
| "store d ((i, xs) # ws) st = Option.bind (poke d (int i) xs (lnet st)) (\<lambda>n. store d ws (st\<lparr>lnet := n\<rparr>))"

text \<open>A half word in network order, and as the processor stores it.\<close>

definition net16 :: "u16 \<Rightarrow> u8 list" where
  "net16 h = [ucast (drop_bit 8 h), ucast h]"

definition mem16 :: "u16 \<Rightarrow> u8 list" where
  "mem16 h = [ucast h, ucast (drop_bit 8 h)]"

definition ntohs_at :: "u8 list \<Rightarrow> nat \<Rightarrow> u16" where
  "ntohs_at h i = push_bit 8 (ucast (h ! i)) OR ucast (h ! (i + 1))"

section \<open>The IP header\<close>

abbreviation IP_HLEN :: nat where "IP_HLEN \<equiv> 20"
abbreviation IP_DF :: u16 where "IP_DF \<equiv> 0x4000"
abbreviation IP_MF :: u16 where "IP_MF \<equiv> 0x2000"
abbreviation IP_OFFMASK :: u16 where "IP_OFFMASK \<equiv> 0x1fff"
abbreviation IP_PROTO_ICMP :: u8 where "IP_PROTO_ICMP \<equiv> 1"
abbreviation IP_PROTO_UDP :: u8 where "IP_PROTO_UDP \<equiv> 17"
abbreviation IP_PROTO_TCP :: u8 where "IP_PROTO_TCP \<equiv> 6"

definition IPH_V :: "u8 list \<Rightarrow> u8" where "IPH_V h = drop_bit 4 (h ! 0)"

definition IPH_HL :: "u8 list \<Rightarrow> nat" where "IPH_HL h = unat (h ! 0 AND 0x0f)"

text \<open>\<open>ntohs\<close> of the length, the identification and the offset with its flags.\<close>

definition IPH_LEN :: "u8 list \<Rightarrow> nat" where "IPH_LEN h = unat (ntohs_at h 2)"

definition IPH_ID :: "u8 list \<Rightarrow> u16" where "IPH_ID h = ntohs_at h 4"

definition IPH_OFFSET :: "u8 list \<Rightarrow> u16" where "IPH_OFFSET h = ntohs_at h 6"

definition IPH_PROTO :: "u8 list \<Rightarrow> u8" where "IPH_PROTO h = h ! 9"

definition IPH_SRC :: "u8 list \<Rightarrow> u32" where "IPH_SRC h = ip_of_bytes (drop 12 h)"

definition IPH_DEST :: "u8 list \<Rightarrow> u32" where "IPH_DEST h = ip_of_bytes (drop 16 h)"

text \<open>The checksum of the header at a pointer, stored into it behind a 0.\<close>

definition seal_header :: "host \<Rightarrow> dptr \<Rightarrow> lan \<Rightarrow> lan option" where
  "seal_header H d st = do {
     st \<leftarrow> store d [(10, [0, 0])] st;
     h \<leftarrow> fetch d 0 IP_HLEN st;
     store d [(10, mem16 (inet_chksum (data_addr H d) h))] st
   }"

end
