(* ===== verification/IpFrag.thy ===== *)
theory IpFrag
  imports IpHdr
begin

text \<open>
  Sending a datagram in fragments, the second half of \<open>lwip/src/core/ipv4/ip_frag.c\<close>. Each
  fragment is a header in a heap buffer, followed by custom buffers that point into the
  datagram and hold a reference to it. \<open>None\<close> is a call that does not return.
\<close>

unbundle bit_operations_syntax

section \<open>Custom references\<close>

definition ip_frag_alloc_pbuf_custom_ref :: "net \<Rightarrow> (loc option \<times> net) option" where
  "ip_frag_alloc_pbuf_custom_ref st = pool_get MEMP_FRAG_PBUF st"

definition ip_frag_free_pbuf_custom_ref :: "loc \<Rightarrow> net \<Rightarrow> net option" where
  "ip_frag_free_pbuf_custom_ref p st = (case p of Pool e \<Rightarrow> pool_put MEMP_FRAG_PBUF e st | _ \<Rightarrow> None)"

text \<open>
  The \<open>custom_free_function\<close>. It calls \<open>pbuf_free\<close>, which may come back here when the buffer
  referred to is a reference itself: \<open>d\<close> bounds how deep such references are nested.
\<close>

primrec ipfrag_free_pbuf_custom :: "nat \<Rightarrow> loc \<Rightarrow> net \<Rightarrow> net option" where
  "ipfrag_free_pbuf_custom 0 p st = None"
| "ipfrag_free_pbuf_custom (Suc d) p st =
     (case p of
        Pool e \<Rightarrow> do {
          st \<leftarrow> (case pcr_original st e of
                   None \<Rightarrow> Some st
                 | Some q \<Rightarrow> map_option snd (pbuf_free (ipfrag_free_pbuf_custom d) (Some q) st));
          ip_frag_free_pbuf_custom_ref p st
        }
      | _ \<Rightarrow> None)"

section \<open>Fragmentation\<close>

text \<open>The datagram from \<open>p\<close> on, the reference to it, chained behind \<open>rambuf\<close>.\<close>

definition mirror :: "port \<Rightarrow> loc \<Rightarrow> loc \<Rightarrow> nat \<Rightarrow> lan \<Rightarrow> (err_t \<times> lan) option" where
  "mirror pt rambuf p newpbuflen st = do {
     (pcr, n) \<leftarrow> ip_frag_alloc_pbuf_custom_ref (lnet st);
     (case pcr of
        None \<Rightarrow> map_option (\<lambda>st. (ERR_MEM, st)) (release pt rambuf (st\<lparr>lnet := n\<rparr>))
      | Some pcr \<Rightarrow>
          (case pbuf_alloced_custom PBUF_RAW newpbuflen PBUF_REF pcr (payload (pb n p)) newpbuflen n of
             (None, n) \<Rightarrow> do {
               n \<leftarrow> ip_frag_free_pbuf_custom_ref pcr n;
               map_option (\<lambda>st. (ERR_MEM, st)) (release pt rambuf (st\<lparr>lnet := n\<rparr>))
             }
           | (Some newpbuf, n) \<Rightarrow> do {
               let n = pbuf_ref (Some p) n;
               n \<leftarrow> (case pcr of Pool e \<Rightarrow> Some (n\<lparr>pcr_original := (pcr_original n)(e := Some p)\<rparr>) | _ \<Rightarrow> None);
               n \<leftarrow> pbuf_cat (Some rambuf) (Some newpbuf) n;
               Some (ERR_OK, st\<lparr>lnet := n\<rparr>)
             }))
   }"

text \<open>The inner loop: the buffer reached and the last length mirrored, or \<open>ERR_MEM\<close>.\<close>

partial_function (option) mirror_loop ::
    "port \<Rightarrow> loc \<Rightarrow> loc option \<Rightarrow> nat \<Rightarrow> nat \<Rightarrow> lan \<Rightarrow> (err_t \<times> loc option \<times> nat \<times> lan) option" where
  "mirror_loop pt rambuf po left_to_copy newpbuflen st =
     (if left_to_copy = 0 then Some (ERR_OK, po, newpbuflen, st)
      else case po of
        None \<Rightarrow> None
      | Some p \<Rightarrow>
          (let newpbuflen = min left_to_copy (plen (buf st p)) in
           if newpbuflen = 0 then mirror_loop pt rambuf (pnext (buf st p)) left_to_copy newpbuflen st
           else
             Option.bind (mirror pt rambuf p newpbuflen st) (\<lambda>(err, st).
               if err \<noteq> ERR_OK then Some (err, po, newpbuflen, st)
               else mirror_loop pt rambuf
                 (if left_to_copy - newpbuflen = 0 then Some p else pnext (buf st p)) (left_to_copy - newpbuflen) newpbuflen st)))"

text \<open>
  One fragment: the first \<open>IP_HLEN\<close> bytes from \<open>original_iphdr\<close>, \<open>cop\<close> bytes of data from
  \<open>poff\<close> bytes behind the data of \<open>p\<close>, and the offset field \<open>tmp\<close>. Results are the buffer
  reached and the next \<open>poff\<close>.
\<close>

definition send_fragment ::
    "host \<Rightarrow> netif \<Rightarrow> u32 \<Rightarrow> dptr \<Rightarrow> loc \<Rightarrow> nat \<Rightarrow> nat \<Rightarrow> u16 \<Rightarrow> lan \<Rightarrow> (err_t \<times> loc option \<times> nat \<times> lan) option" where
  "send_fragment H netif dest original_iphdr p poff cop tmp st = do {
     let pt = hport H;
     (r, n) \<leftarrow> pbuf_alloc (custom_free pt) PBUF_LINK IP_HLEN PBUF_RAM (lnet st);
     let st = st\<lparr>lnet := n\<rparr>;
     (case r of
        None \<Rightarrow> Some (ERR_MEM, Some p, poff, st)
      | Some rambuf \<Rightarrow> do {
          lwip_assert (IP_HLEN \<le> plen (buf st p));
          hdr \<leftarrow> fetch original_iphdr 0 IP_HLEN st;
          let iphdr = payload (buf st rambuf);
          st \<leftarrow> store iphdr [(0, hdr)] st;
          let st = st\<lparr>lnet := set_pb p (\<lambda>b. b\<lparr>payload := map_option (\<lambda>(l, off). (l, off + int poff)) (payload b),
                                             plen := nat ((int (plen b) - int poff) mod 65536)\<rparr>) (lnet st)\<rparr>;
          (err, q, newpbuflen, st) \<leftarrow> mirror_loop pt rambuf (Some p) cop 0 st;
          (if err \<noteq> ERR_OK then Some (err, q, newpbuflen, st)
           else do {
             st \<leftarrow> store iphdr [(6, net16 tmp), (2, net16 (word_of_nat (cop + IP_HLEN)))] st;
             st \<leftarrow> seal_header H iphdr st;
             (_, st) \<leftarrow> etharp_output pt netif rambuf dest st;
             st \<leftarrow> release pt rambuf st;
             Some (ERR_OK, q, newpbuflen, st)
           })
        })
   }"

partial_function (option) frag_loop ::
    "host \<Rightarrow> netif \<Rightarrow> u32 \<Rightarrow> dptr \<Rightarrow> u16 \<Rightarrow> loc option \<Rightarrow> nat \<Rightarrow> nat \<Rightarrow> u16 \<Rightarrow> lan \<Rightarrow> (err_t \<times> lan) option" where
  "frag_loop H netif dest original_iphdr omf po poff left ofo st =
     (if left = 0 then Some (ERR_OK, st)
      else case po of
        None \<Rightarrow> None
      | Some p \<Rightarrow>
          (let nfb = (mtu netif - IP_HLEN) div 8;
               last = (left \<le> mtu netif - IP_HLEN);
               tmp = omf OR (IP_OFFMASK AND ofo) OR (if last then 0 else IP_MF);
               cop = (if last then left else nfb * 8) in
           Option.bind (send_fragment H netif dest original_iphdr p poff cop tmp st) (\<lambda>(err, po, poff, st).
             if err \<noteq> ERR_OK then Some (err, st)
             else frag_loop H netif dest original_iphdr omf po poff (left - cop) (ofo + word_of_nat nfb) st)))"

text \<open>
  The C code computes \<open>mtu - IP_HLEN\<close> in \<open>int\<close>; an interface whose \<open>mtu\<close> is below 20 is
  outside the model. With one below 28 and data left, \<open>cop\<close> is 0 and the loop never ends.
\<close>

definition ip_frag :: "host \<Rightarrow> loc \<Rightarrow> netif \<Rightarrow> u32 \<Rightarrow> lan \<Rightarrow> (err_t \<times> lan) option" where
  "ip_frag H p netif dest st = do {
     let iphdr = payload (buf st p);
     hdr \<leftarrow> fetch iphdr 0 IP_HLEN st;
     let tmp = IPH_OFFSET hdr;
     (if mtu netif < IP_HLEN then None
      else frag_loop H netif dest iphdr (tmp AND IP_MF) (Some p) IP_HLEN
             (nat ((int (tot_len (buf st p)) - int IP_HLEN) mod 65536)) (tmp AND IP_OFFMASK) st)
   }"

end
