(* ===== verification/IpOut.thy ===== *)
theory IpOut
  imports IpFrag
begin

text \<open>
  Sending, the second half of \<open>lwip/src/core/ipv4/ip.c\<close>: the choice of the interface, the
  header with its checksum summed up while the fields are stored, fragmentation.
\<close>

unbundle bit_operations_syntax

section \<open>Routing\<close>

fun route_loop :: "u32 \<Rightarrow> nat \<Rightarrow> netif list \<Rightarrow> nat option" where
  "route_loop dest i [] = None"
| "route_loop dest i (n # ns) =
     (if netif_is_up n \<and> ip_addr_netcmp dest (ip_addr n) (netmask n) then Some i else route_loop dest (i + 1) ns)"

definition ip_route :: "host \<Rightarrow> u32 \<Rightarrow> nat option" where
  "ip_route H dest =
     (case route_loop dest 0 (netifs H) of
        Some i \<Rightarrow> Some i
      | None \<Rightarrow> (case netif_default H of
          None \<Rightarrow> None
        | Some d \<Rightarrow> if netif_is_up (nif H d) then Some d else None))"

section \<open>Output\<close>

text \<open>\<open>LWIP_MAKE_U16\<close> as it is defined for little endian.\<close>

definition LWIP_MAKE_U16 :: "u8 \<Rightarrow> u8 \<Rightarrow> u32" where
  "LWIP_MAKE_U16 a b = push_bit 8 (ucast a) OR ucast b"

definition ip_hdr_sum :: "u32 \<Rightarrow> u32 \<Rightarrow> u8 \<Rightarrow> u8 \<Rightarrow> u8 \<Rightarrow> u16 \<Rightarrow> u16 \<Rightarrow> u16" where
  "ip_hdr_sum src dest ttl tos proto len ident =
     (let chk_sum = LWIP_MAKE_U16 proto ttl + (dest AND 0xFFFF) + drop_bit 16 dest + LWIP_MAKE_U16 tos 0x45
                    + ucast (lwip_htons len) + ucast (lwip_htons ident) + (src AND 0xFFFF) + drop_bit 16 src;
          chk_sum = drop_bit 16 chk_sum + (chk_sum AND 0xFFFF);
          chk_sum = drop_bit 16 chk_sum + chk_sum
      in ucast (NOT chk_sum))"

text \<open>The bytes of the header as \<open>ip_output_if\<close> fills it in.\<close>

definition ip_hdr :: "u32 \<Rightarrow> u32 \<Rightarrow> u8 \<Rightarrow> u8 \<Rightarrow> u8 \<Rightarrow> u16 \<Rightarrow> u16 \<Rightarrow> u8 list" where
  "ip_hdr src dest ttl tos proto len ident =
     [0x45, tos] @ net16 len @ net16 ident @ [0, 0, ttl, proto] @ mem16 (ip_hdr_sum src dest ttl tos proto len ident)
     @ ip_bytes src @ ip_bytes dest"

text \<open>
  \<open>dest\<close> is \<open>None\<close> for \<open>IP_HDRINCL\<close>, \<open>src\<close> is \<open>None\<close> for a null pointer. \<open>netif->output\<close> is
  \<open>etharp_output\<close>.
\<close>

definition ip_deliver :: "host \<Rightarrow> loc \<Rightarrow> u32 \<Rightarrow> nat \<Rightarrow> lan \<Rightarrow> (err_t \<times> lan) option" where
  "ip_deliver H p dest i st =
     (if mtu (nif H i) \<noteq> 0 \<and> mtu (nif H i) < tot_len (buf st p) then ip_frag H p (nif H i) dest st
      else etharp_output (hport H) (nif H i) p dest st)"

definition ip_output_if ::
    "host \<Rightarrow> loc \<Rightarrow> u32 option \<Rightarrow> u32 option \<Rightarrow> u8 \<Rightarrow> u8 \<Rightarrow> u8 \<Rightarrow> nat \<Rightarrow> lan \<Rightarrow> (err_t \<times> lan) option" where
  "ip_output_if H p src dest ttl tos proto i st = do {
     lwip_assert (pref (buf st p) = 1);
     (case dest of
        Some dest \<Rightarrow> do {
          (fail, n) \<leftarrow> pbuf_header p (int IP_HLEN) (lnet st);
          let st = st\<lparr>lnet := n\<rparr>;
          (if fail \<noteq> 0 then Some (ERR_BUF, st)
           else do {
             lwip_assert (IP_HLEN \<le> plen (buf st p));
             let src = (if src = None \<or> src = Some IPADDR_ANY then ip_addr (nif H i) else the src);
             let ident = ip_id (ipst st);
             st \<leftarrow> store (payload (buf st p))
                    [(0, ip_hdr src dest ttl tos proto (word_of_nat (tot_len (buf st p))) (word_of_nat ident))] st;
             let st = set_ipst (\<lambda>s. s\<lparr>ip_id := trunc16 (ident + 1)\<rparr>) st;
             ip_deliver H p dest i st
           })
        }
      | None \<Rightarrow> do {
          h \<leftarrow> fetch (payload (buf st p)) 0 IP_HLEN st;
          ip_deliver H p (IPH_DEST h) i st
        })
   }"

definition ip_output ::
    "host \<Rightarrow> loc \<Rightarrow> u32 option \<Rightarrow> u32 \<Rightarrow> u8 \<Rightarrow> u8 \<Rightarrow> u8 \<Rightarrow> lan \<Rightarrow> (err_t \<times> lan) option" where
  "ip_output H p src dest ttl tos proto st = do {
     lwip_assert (pref (buf st p) = 1);
     (case ip_route H dest of
        None \<Rightarrow> Some (ERR_RTE, st)
      | Some i \<Rightarrow> ip_output_if H p src (Some dest) ttl tos proto i st)
   }"

end
