(* ===== verification/Icmp.thy ===== *)
theory Icmp
  imports IpOut
begin

text \<open>
  Control messages, \<open>lwip/src/core/ipv4/icmp.c\<close>, as configured: echo requests to a broadcast
  or multicast address are not answered. \<open>iphdr\<close> and \<open>iecho\<close> are the data pointers of the C code.
\<close>

unbundle bit_operations_syntax

abbreviation ICMP_ER :: u8 where "ICMP_ER \<equiv> 0"
abbreviation ICMP_DUR :: u8 where "ICMP_DUR \<equiv> 3"
abbreviation ICMP_ECHO :: u8 where "ICMP_ECHO \<equiv> 8"
abbreviation ICMP_TE :: u8 where "ICMP_TE \<equiv> 11"
abbreviation ICMP_DUR_PROTO :: u8 where "ICMP_DUR_PROTO \<equiv> 2"
abbreviation ICMP_DUR_PORT :: u8 where "ICMP_DUR_PORT \<equiv> 3"
abbreviation ICMP_TE_FRAG :: u8 where "ICMP_TE_FRAG \<equiv> 1"
abbreviation ICMP_TTL :: u8 where "ICMP_TTL \<equiv> 255"
abbreviation ICMP_DEST_UNREACH_DATASIZE :: nat where "ICMP_DEST_UNREACH_DATASIZE \<equiv> 8"
abbreviation SIZEOF_ICMP_ECHO_HDR :: nat where "SIZEOF_ICMP_ECHO_HDR \<equiv> 8"

section \<open>Error messages\<close>

definition icmp_send_response :: "host \<Rightarrow> loc \<Rightarrow> u8 \<Rightarrow> u8 \<Rightarrow> lan \<Rightarrow> lan option" where
  "icmp_send_response H p type code st = do {
     (q, n) \<leftarrow> pbuf_alloc (custom_free (hport H)) PBUF_IP
                 (SIZEOF_ICMP_ECHO_HDR + IP_HLEN + ICMP_DEST_UNREACH_DATASIZE) PBUF_RAM (lnet st);
     let st = st\<lparr>lnet := n\<rparr>;
     (case q of
        None \<Rightarrow> Some st
      | Some q \<Rightarrow> do {
          lwip_assert (SIZEOF_ICMP_ECHO_HDR + IP_HLEN + ICMP_DEST_UNREACH_DATASIZE \<le> plen (buf st q));
          let iphdr = payload (buf st p);
          let icmphdr = payload (buf st q);
          st \<leftarrow> store icmphdr [(0, [type]), (1, [code]), (4, [0, 0]), (6, [0, 0])] st;
          orig_hdr \<leftarrow> fetch iphdr 0 (IP_HLEN + ICMP_DEST_UNREACH_DATASIZE) st;
          st \<leftarrow> store icmphdr [(SIZEOF_ICMP_ECHO_HDR, orig_hdr), (2, [0, 0])] st;
          msg \<leftarrow> fetch icmphdr 0 (plen (buf st q)) st;
          st \<leftarrow> store icmphdr [(2, mem16 (inet_chksum (data_addr H icmphdr) msg))] st;
          h \<leftarrow> fetch iphdr 0 IP_HLEN st;
          (_, st) \<leftarrow> ip_output H q None (IPH_SRC h) ICMP_TTL 0 IP_PROTO_ICMP st;
          release (hport H) q st
        })
   }"

definition icmp_dest_unreach :: "host \<Rightarrow> loc \<Rightarrow> u8 \<Rightarrow> lan \<Rightarrow> lan option" where
  "icmp_dest_unreach H p t st = icmp_send_response H p ICMP_DUR t st"

definition icmp_time_exceeded :: "host \<Rightarrow> loc \<Rightarrow> u8 \<Rightarrow> lan \<Rightarrow> lan option" where
  "icmp_time_exceeded H p t st = icmp_send_response H p ICMP_TE t st"

section \<open>Echo\<close>

text \<open>
  Room for the link header in front of the packet, found or made: the buffer to answer in and
  the pointer to its IP header. \<open>None\<close> inside is \<open>memerr\<close>.
\<close>

definition echo_room :: "host \<Rightarrow> loc \<Rightarrow> dptr \<Rightarrow> nat \<Rightarrow> lan \<Rightarrow> ((loc \<times> dptr) option \<times> lan) option" where
  "echo_room H p iphdr hlen st = do {
     (fail, n) \<leftarrow> pbuf_header p (int (IP_HLEN + SIZEOF_ETH_HDR)) (lnet st);
     let st = st\<lparr>lnet := n\<rparr>;
     (if fail \<noteq> 0 then do {
        (fail, n) \<leftarrow> pbuf_header p (int hlen) (lnet st);
        lwip_assert (fail = 0);
        (r, n) \<leftarrow> pbuf_alloc (custom_free (hport H)) PBUF_LINK (tot_len (pb n p)) PBUF_RAM n;
        let st = st\<lparr>lnet := n\<rparr>;
        (case r of
           None \<Rightarrow> Some (None, st)
         | Some r \<Rightarrow> do {
             lwip_assert (hlen + SIZEOF_ICMP_ECHO_HDR \<le> plen (buf st r));
             (err, n) \<leftarrow> pbuf_copy (Some r) (Some p) (lnet st);
             lwip_assert (err = ERR_OK);
             let iphdr = payload (pb n r);
             (fail, n) \<leftarrow> pbuf_header r (- int hlen) n;
             lwip_assert (fail = 0);
             st \<leftarrow> release (hport H) p (st\<lparr>lnet := n\<rparr>);
             Some (Some (r, iphdr), st)
           })
      }
      else do {
        (fail, n) \<leftarrow> pbuf_header p (- int (IP_HLEN + SIZEOF_ETH_HDR)) (lnet st);
        lwip_assert (fail = 0);
        Some (Some (p, iphdr), st\<lparr>lnet := n\<rparr>)
      })
   }"

text \<open>The adjustment of the checksum for the change of the type from 8 to 0.\<close>

definition adjust_chksum :: "u16 \<Rightarrow> u16" where
  "adjust_chksum c = (if lwip_htons (0xffff - 0x0800) \<le> c then c + lwip_htons 0x0800 + 1 else c + lwip_htons 0x0800)"

definition echo_reply :: "host \<Rightarrow> loc \<Rightarrow> dptr \<Rightarrow> nat \<Rightarrow> nat \<Rightarrow> lan \<Rightarrow> lan option" where
  "echo_reply H p iphdr hlen inp st = do {
     let iecho = payload (buf st p);
     st \<leftarrow> store iphdr [(12, ip_bytes (current_iphdr_dest (ipst st))), (16, ip_bytes (current_iphdr_src (ipst st)))] st;
     st \<leftarrow> store iecho [(0, [ICMP_ER])] st;
     c \<leftarrow> fetch iecho 2 2 st;
     st \<leftarrow> store iecho [(2, mem16 (adjust_chksum (ucast (le16 (c ! 0) (c ! 1)))))] st;
     st \<leftarrow> store iphdr [(8, [ICMP_TTL])] st;
     st \<leftarrow> seal_header H iphdr st;
     (fail, n) \<leftarrow> pbuf_header p (int hlen) (lnet st);
     lwip_assert (fail = 0);
     map_option snd (ip_output_if H p (Some (current_iphdr_dest (ipst st))) None ICMP_TTL 0 IP_PROTO_ICMP inp (st\<lparr>lnet := n\<rparr>))
   }"

definition icmp_input :: "host \<Rightarrow> loc \<Rightarrow> nat \<Rightarrow> lan \<Rightarrow> lan option" where
  "icmp_input H p inp st = do {
     let iphdr = payload (buf st p);
     h \<leftarrow> fetch iphdr 0 1 st;
     let hlen = IPH_HL h * 4;
     (fail, n) \<leftarrow> pbuf_header p (- int hlen) (lnet st);
     let st = st\<lparr>lnet := n\<rparr>;
     (if fail \<noteq> 0 \<or> tot_len (buf st p) < 4 then release (hport H) p st
      else do {
        type \<leftarrow> fetch (payload (buf st p)) 0 1 st;
        (if type = [ICMP_ECHO] then
           if ip_addr_ismulticast (current_iphdr_dest (ipst st)) \<or> ip4_addr_isbroadcast (current_iphdr_dest (ipst st)) (nif H inp)
           then release (hport H) p st
           else if tot_len (buf st p) < SIZEOF_ICMP_ECHO_HDR then release (hport H) p st
           else do {
             c \<leftarrow> inet_chksum_pbuf (block_addr H) (Some p) (lnet st);
             (if c \<noteq> 0 then release (hport H) p st
              else do {
                (room, st) \<leftarrow> echo_room H p iphdr hlen st;
                (case room of
                   None \<Rightarrow> release (hport H) p st
                 | Some (p, iphdr) \<Rightarrow> do {
                     st \<leftarrow> echo_reply H p iphdr hlen inp st;
                     release (hport H) p st
                   })
              })
           }
         else release (hport H) p st)
      })
   }"

end
