(* ===== verification/Reass.thy ===== *)
theory Reass
  imports Icmp
begin

text \<open>
  Reassembly, the first half of \<open>lwip/src/core/ipv4/ip_frag.c\<close>. The datagrams that wait form
  a list linked by \<open>r_next\<close>; the fragments of one form a list linked by \<open>next_pbuf\<close>
  in the helper that lies over their headers. A loop over a list that is not
  acyclic, and a null pointer that is followed, have no result. The link that is written into a
  fragment before the overlap check throws it away is left out: its buffer is free then.
\<close>

unbundle bit_operations_syntax

section \<open>Access\<close>

definition set_reass :: "nat \<Rightarrow> (ip_reassdata \<Rightarrow> ip_reassdata) \<Rightarrow> lan \<Rightarrow> lan" where
  "set_reass r f st = set_ipst (\<lambda>s. s\<lparr>reass := (reass s)(r := f (reass s r))\<rparr>) st"

definition reass_at :: "lan \<Rightarrow> nat \<Rightarrow> ip_reassdata" where
  "reass_at st r = reass (ipst st) r"

definition helper_at :: "lan \<Rightarrow> loc \<Rightarrow> reass_helper" where
  "helper_at st p = reass_helpers (ipst st) p"

text \<open>The helper in memory: the pointer, 4 bytes, and the two numbers.\<close>

definition helper_bytes :: "host \<Rightarrow> reass_helper \<Rightarrow> u8 list" where
  "helper_bytes H h =
     ip_bytes (case next_pbuf h of None \<Rightarrow> 0 | Some q \<Rightarrow> word_of_nat (block_addr H q))
     @ mem16 (word_of_nat (h_start h)) @ mem16 (word_of_nat (h_end h))"

definition put_helper :: "host \<Rightarrow> loc \<Rightarrow> reass_helper \<Rightarrow> lan \<Rightarrow> lan option" where
  "put_helper H p h st =
     map_option (set_ipst (\<lambda>s. s\<lparr>reass_helpers := (reass_helpers s)(p := h)\<rparr>))
       (store (payload (buf st p)) [(0, helper_bytes H h)] st)"

definition IP_ADDRESSES_AND_ID_MATCH :: "u8 list \<Rightarrow> u8 list \<Rightarrow> bool" where
  "IP_ADDRESSES_AND_ID_MATCH a b = (IPH_SRC a = IPH_SRC b \<and> IPH_DEST a = IPH_DEST b \<and> IPH_ID a = IPH_ID b)"

definition drop_pbuf :: "host \<Rightarrow> loc \<Rightarrow> lan \<Rightarrow> lan option" where
  "drop_pbuf H p st = release (hport H) p st"

section \<open>Giving up\<close>

definition ip_reass_dequeue_datagram :: "nat \<Rightarrow> nat option \<Rightarrow> lan \<Rightarrow> lan option" where
  "ip_reass_dequeue_datagram ipr prev st = do {
     st \<leftarrow> (if reassdatagrams (ipst st) = Some ipr
            then Some (set_ipst (\<lambda>s. s\<lparr>reassdatagrams := r_next (reass s ipr)\<rparr>) st)
            else (case prev of
                None \<Rightarrow> None
              | Some q \<Rightarrow> Some (set_reass q (\<lambda>r. r\<lparr>r_next := r_next (reass_at st ipr)\<rparr>) st)));
     n \<leftarrow> pool_put MEMP_REASSDATA ipr (lnet st);
     Some (st\<lparr>lnet := n\<rparr>)
   }"

text \<open>The loop that frees the fragments; the result is the number of buffers they had.\<close>

partial_function (option) free_frags :: "host \<Rightarrow> loc option \<Rightarrow> nat \<Rightarrow> lan \<Rightarrow> (nat \<times> lan) option" where
  "free_frags H po pbufs_freed st =
     (case po of
        None \<Rightarrow> Some (pbufs_freed, st)
      | Some pcur \<Rightarrow>
          (let p = next_pbuf (helper_at st pcur) in
           Option.bind (pbuf_clen (Some pcur) (lnet st)) (\<lambda>clen.
             if pbufs_freed + clen \<le> 0xffff
             then Option.bind (release (hport H) pcur st) (free_frags H p (pbufs_freed + clen))
             else None)))"

definition ip_reass_free_complete_datagram :: "host \<Rightarrow> nat \<Rightarrow> nat option \<Rightarrow> lan \<Rightarrow> (nat \<times> lan) option" where
  "ip_reass_free_complete_datagram H ipr prev st = do {
     lwip_assert (prev \<noteq> Some ipr);
     lwip_assert (\<forall>q \<in> set_option prev. r_next (reass_at st q) = Some ipr);
     p \<leftarrow> r_p (reass_at st ipr);
     (pbufs_freed, st) \<leftarrow>
       (if h_start (helper_at st p) = 0 then do {
          let st = set_reass ipr (\<lambda>r. r\<lparr>r_p := next_pbuf (helper_at st p)\<rparr>) st;
          st \<leftarrow> store (payload (buf st p)) [(0, r_iphdr (reass_at st ipr))] st;
          st \<leftarrow> icmp_time_exceeded H p ICMP_TE_FRAG st;
          clen \<leftarrow> pbuf_clen (Some p) (lnet st);
          st \<leftarrow> release (hport H) p st;
          Some (clen, st)
        }
        else Some (0, st));
     (pbufs_freed, st) \<leftarrow> free_frags H (r_p (reass_at st ipr)) pbufs_freed st;
     st \<leftarrow> ip_reass_dequeue_datagram ipr prev st;
     lwip_assert (pbufs_freed \<le> ip_reass_pbufcount (ipst st));
     Some (pbufs_freed, set_ipst (\<lambda>s. s\<lparr>ip_reass_pbufcount := ip_reass_pbufcount s - pbufs_freed\<rparr>) st)
   }"

partial_function (option) reass_tmr_loop :: "host \<Rightarrow> nat option \<Rightarrow> nat option \<Rightarrow> lan \<Rightarrow> lan option" where
  "reass_tmr_loop H ro prev st =
     (case ro of
        None \<Rightarrow> Some st
      | Some r \<Rightarrow>
          if 0 < r_timer (reass_at st r) then
            reass_tmr_loop H (r_next (reass_at st r)) (Some r) (set_reass r (\<lambda>d. d\<lparr>r_timer := r_timer d - 1\<rparr>) st)
          else
            Option.bind (ip_reass_free_complete_datagram H r prev st) (\<lambda>(_, st').
              reass_tmr_loop H (r_next (reass_at st r)) prev st'))"

definition ip_reass_tmr :: "host \<Rightarrow> lan \<Rightarrow> lan option" where
  "ip_reass_tmr H st = reass_tmr_loop H (reassdatagrams (ipst st)) None st"

text \<open>The inner loop that looks for the oldest datagram: the oldest, \<open>prev\<close> and \<open>other_datagrams\<close>.\<close>

partial_function (option) oldest_loop ::
    "u8 list \<Rightarrow> nat option \<Rightarrow> nat option \<Rightarrow> nat option \<Rightarrow> nat \<Rightarrow> lan \<Rightarrow> (nat option \<times> nat option \<times> nat) option" where
  "oldest_loop fraghdr ro oldest prev other_datagrams st =
     (case ro of
        None \<Rightarrow> Some (oldest, prev, other_datagrams)
      | Some r \<Rightarrow>
          (let other = (\<not> IP_ADDRESSES_AND_ID_MATCH (r_iphdr (reass_at st r)) fraghdr);
               older = (case oldest of None \<Rightarrow> True | Some q \<Rightarrow> r_timer (reass_at st r) \<le> r_timer (reass_at st q)) in
           oldest_loop fraghdr (r_next (reass_at st r)) (if other \<and> older then Some r else oldest)
             (if r_next (reass_at st r) \<noteq> None then Some r else prev)
             (if other then other_datagrams + 1 else other_datagrams) st))"

partial_function (option) remove_oldest_loop :: "host \<Rightarrow> u8 list \<Rightarrow> nat \<Rightarrow> nat \<Rightarrow> lan \<Rightarrow> (nat \<times> lan) option" where
  "remove_oldest_loop H fraghdr pbufs_needed pbufs_freed st =
     Option.bind (oldest_loop fraghdr (reassdatagrams (ipst st)) None None 0 st) (\<lambda>(oldest, prev, other_datagrams).
     Option.bind (case oldest of None \<Rightarrow> Some (0, st) | Some r \<Rightarrow> ip_reass_free_complete_datagram H r prev st) (\<lambda>(n, st).
       if pbufs_freed + n < pbufs_needed \<and> 1 < other_datagrams
       then remove_oldest_loop H fraghdr pbufs_needed (pbufs_freed + n) st
       else Some (pbufs_freed + n, st)))"

definition ip_reass_remove_oldest_datagram :: "host \<Rightarrow> u8 list \<Rightarrow> nat \<Rightarrow> lan \<Rightarrow> (nat \<times> lan) option" where
  "ip_reass_remove_oldest_datagram H fraghdr pbufs_needed st = remove_oldest_loop H fraghdr pbufs_needed 0 st"

definition reassdata_malloc :: "lan \<Rightarrow> (nat option \<times> lan) option" where
  "reassdata_malloc st = do {
     (e, m) \<leftarrow> memp_malloc MEMP_REASSDATA (npools (lnet st));
     Some (e, st\<lparr>lnet := (lnet st)\<lparr>npools := m\<rparr>\<rparr>)
   }"

definition ip_reass_enqueue_new_datagram :: "host \<Rightarrow> u8 list \<Rightarrow> nat \<Rightarrow> lan \<Rightarrow> (nat option \<times> lan) option" where
  "ip_reass_enqueue_new_datagram H fraghdr clen st = do {
     (ipr, st) \<leftarrow> reassdata_malloc st;
     (ipr, st) \<leftarrow>
       (case ipr of
          Some _ \<Rightarrow> Some (ipr, st)
        | None \<Rightarrow> do {
            (n, st) \<leftarrow> ip_reass_remove_oldest_datagram H fraghdr clen st;
            (if clen \<le> n then reassdata_malloc st else Some (None, st))
          });
     Some (case ipr of
         None \<Rightarrow> (None, st)
       | Some r \<Rightarrow>
           (let st = set_reass r (\<lambda>_. zero_reassdata\<lparr>r_timer := IP_REASS_MAXAGE, r_next := reassdatagrams (ipst st)\<rparr>) st;
                st = set_ipst (\<lambda>s. s\<lparr>reassdatagrams := Some r\<rparr>) st
            in (Some r, set_reass r (\<lambda>d. d\<lparr>r_iphdr := fraghdr\<rparr>) st)))
   }"

section \<open>Placing a fragment\<close>

text \<open>
  The search for the place of a fragment that covers \<open>[start, fin)\<close>: the buffer it goes before
  (\<open>None\<close> is the end of the list) with the one it goes behind and \<open>valid\<close>, or that it is thrown away.
\<close>

datatype place = FreePbuf | Insert "loc option" "loc option" bool

partial_function (option) place_frag :: "nat \<Rightarrow> nat \<Rightarrow> loc option \<Rightarrow> loc option \<Rightarrow> bool \<Rightarrow> lan \<Rightarrow> place option" where
  "place_frag start fin qo prev valid st =
     (case qo of
        None \<Rightarrow> Some (Insert prev None valid)
      | Some q \<Rightarrow>
          (let tmp = helper_at st q in
           if start < h_start tmp then
             (case prev of
                Some b \<Rightarrow> if start < h_end (helper_at st b) \<or> h_start tmp < fin then Some FreePbuf
                          else Some (Insert prev (Some q) valid)
              | None \<Rightarrow> Some (Insert None (Some q) valid))
           else if start = h_start tmp then Some FreePbuf
           else if start < h_end tmp then Some FreePbuf
           else place_frag start fin (next_pbuf tmp) (Some q)
                  (case prev of Some b \<Rightarrow> if h_end (helper_at st b) \<noteq> h_start tmp then False else valid | None \<Rightarrow> valid) st))"

text \<open>The loop behind the new fragment: no hole up to the end, and the last helper reached.\<close>

partial_function (option) no_holes :: "loc \<Rightarrow> loc option \<Rightarrow> lan \<Rightarrow> (bool \<times> loc) option" where
  "no_holes prev qo st =
     (case qo of
        None \<Rightarrow> Some (True, prev)
      | Some q \<Rightarrow>
          if h_end (helper_at st prev) \<noteq> h_start (helper_at st q) then Some (False, q)
          else no_holes q (next_pbuf (helper_at st q)) st)"

definition link_frag :: "host \<Rightarrow> nat \<Rightarrow> loc \<Rightarrow> loc option \<Rightarrow> loc option \<Rightarrow> lan \<Rightarrow> lan option" where
  "link_frag H ipr new_p prev q st = do {
     st \<leftarrow> (case q of None \<Rightarrow> Some st
             | Some _ \<Rightarrow> put_helper H new_p ((helper_at st new_p)\<lparr>next_pbuf := q\<rparr>) st);
     (case prev of
        Some b \<Rightarrow> do {
          lwip_assert (q \<noteq> None \<or> h_end (helper_at st b) \<le> h_start (helper_at st new_p));
          put_helper H b ((helper_at st b)\<lparr>next_pbuf := Some new_p\<rparr>) st
        }
      | None \<Rightarrow> do {
          lwip_assert (q \<noteq> None \<or> r_p (reass_at st ipr) = None);
          Some (set_reass ipr (\<lambda>r. r\<lparr>r_p := Some new_p\<rparr>) st)
        })
   }"

definition validate :: "nat \<Rightarrow> loc \<Rightarrow> bool \<Rightarrow> lan \<Rightarrow> bool option" where
  "validate ipr new_p valid st =
     (if r_flags (reass_at st ipr) AND IP_REASS_FLAG_LASTFRAG = 0 then Some False
      else if \<not> valid then Some False
      else do {
        p \<leftarrow> r_p (reass_at st ipr);
        (if h_start (helper_at st p) \<noteq> 0 then Some False
         else do {
           (ok, e) \<leftarrow> no_holes new_p (next_pbuf (helper_at st new_p)) st;
           (if \<not> ok then Some False
            else do {
              lwip_assert (p \<noteq> e);
              lwip_assert (next_pbuf (helper_at st e) = None);
              lwip_assert (h_end (helper_at st e) = datagram_len (reass_at st ipr));
              Some True
            })
         })
      })"

definition ip_reass_chain_frag_into_datagram_and_validate :: "host \<Rightarrow> nat \<Rightarrow> loc \<Rightarrow> lan \<Rightarrow> (bool \<times> lan) option" where
  "ip_reass_chain_frag_into_datagram_and_validate H ipr new_p st = do {
     fraghdr \<leftarrow> fetch (payload (buf st new_p)) 0 IP_HLEN st;
     let len = nat ((int (IPH_LEN fraghdr) - int (IPH_HL fraghdr * 4)) mod 65536);
     let offset = unat ((IPH_OFFSET fraghdr AND IP_OFFMASK) * 8);
     let fin = trunc16 (offset + len);
     st \<leftarrow> put_helper H new_p \<lparr>next_pbuf = None, h_start = offset, h_end = fin\<rparr> st;
     w \<leftarrow> place_frag offset fin (r_p (reass_at st ipr)) None True st;
     (case w of
        FreePbuf \<Rightarrow> do {
          clen \<leftarrow> pbuf_clen (Some new_p) (lnet st);
          let st = set_ipst (\<lambda>s. s\<lparr>ip_reass_pbufcount := nat ((int (ip_reass_pbufcount s) - int clen) mod 65536)\<rparr>) st;
          st \<leftarrow> release (hport H) new_p st;
          Some (False, st)
        }
      | Insert prev q valid \<Rightarrow> do {
          let valid = (case (q, prev) of
                 (None, Some b) \<Rightarrow> if h_end (helper_at st b) \<noteq> offset then False else valid
               | _ \<Rightarrow> valid);
          st \<leftarrow> link_frag H ipr new_p prev q st;
          ok \<leftarrow> validate ipr new_p valid st;
          Some (ok, st)
        })
   }"

section \<open>The interface\<close>

partial_function (option) find_datagram ::
    "u8 list \<Rightarrow> nat option \<Rightarrow> nat option \<Rightarrow> lan \<Rightarrow> (nat option \<times> nat option) option" where
  "find_datagram fraghdr ro prev st =
     (case ro of
        None \<Rightarrow> Some (None, prev)
      | Some r \<Rightarrow> if IP_ADDRESSES_AND_ID_MATCH (r_iphdr (reass_at st r)) fraghdr then Some (Some r, prev)
                  else find_datagram fraghdr (r_next (reass_at st r)) (Some r) st)"

text \<open>The loop that chains the fragments. \<open>iprh\<close> is read behind \<open>pbuf_header\<close>, by its old address.\<close>

partial_function (option) chain_frags :: "loc \<Rightarrow> loc option \<Rightarrow> lan \<Rightarrow> lan option" where
  "chain_frags p ro st =
     (case ro of
        None \<Rightarrow> Some st
      | Some r \<Rightarrow>
          Option.bind (pbuf_header r (- int IP_HLEN) (lnet st)) (\<lambda>(_, n).
          Option.bind (pbuf_cat (Some p) (Some r) n) (\<lambda>n.
            chain_frags p (next_pbuf (helper_at st r)) (st\<lparr>lnet := n\<rparr>))))"

definition complete_datagram :: "host \<Rightarrow> nat \<Rightarrow> nat option \<Rightarrow> lan \<Rightarrow> (loc \<times> lan) option" where
  "complete_datagram H ipr ipr_prev st = do {
     let st = set_reass ipr (\<lambda>r. r\<lparr>datagram_len := trunc16 (datagram_len r + IP_HLEN)\<rparr>) st;
     p \<leftarrow> r_p (reass_at st ipr);
     let r = next_pbuf (helper_at st p);
     let fraghdr = payload (buf st p);
     st \<leftarrow> store fraghdr [(0, r_iphdr (reass_at st ipr)), (2, net16 (word_of_nat (datagram_len (reass_at st ipr)))), (6, [0, 0])] st;
     st \<leftarrow> seal_header H fraghdr st;
     st \<leftarrow> chain_frags p r st;
     st \<leftarrow> ip_reass_dequeue_datagram ipr ipr_prev st;
     clen \<leftarrow> pbuf_clen (Some p) (lnet st);
     Some (p, set_ipst (\<lambda>s. s\<lparr>ip_reass_pbufcount := nat ((int (ip_reass_pbufcount s) - int clen) mod 65536)\<rparr>) st)
   }"

text \<open>The fragment belongs to datagram \<open>ipr\<close>: note a last fragment, place it, and finish if it was the last one missing.\<close>

definition accept_frag :: "host \<Rightarrow> loc \<Rightarrow> u8 list \<Rightarrow> nat \<Rightarrow> nat \<Rightarrow> nat option \<Rightarrow> lan \<Rightarrow> (loc option \<times> lan) option" where
  "accept_frag H p fraghdr clen ipr ipr_prev st = do {
     let offset = unat ((IPH_OFFSET fraghdr AND IP_OFFMASK) * 8);
     let len = nat ((int (IPH_LEN fraghdr) - int (IPH_HL fraghdr * 4)) mod 65536);
     let st = set_ipst (\<lambda>s. s\<lparr>ip_reass_pbufcount := trunc16 (ip_reass_pbufcount s + clen)\<rparr>) st;
     let st = (if IPH_OFFSET fraghdr AND IP_MF = 0
               then set_reass ipr (\<lambda>r. r\<lparr>r_flags := r_flags r OR IP_REASS_FLAG_LASTFRAG, datagram_len := trunc16 (offset + len)\<rparr>) st
               else st);
     (valid, st) \<leftarrow> ip_reass_chain_frag_into_datagram_and_validate H ipr p st;
     (if valid then map_option (\<lambda>(p, st). (Some p, st)) (complete_datagram H ipr ipr_prev st)
      else Some (None, st))
   }"

definition ip_reass :: "host \<Rightarrow> loc \<Rightarrow> lan \<Rightarrow> (loc option \<times> lan) option" where
  "ip_reass H p st = do {
     fraghdr \<leftarrow> fetch (payload (buf st p)) 0 IP_HLEN st;
     (if IPH_HL fraghdr * 4 \<noteq> IP_HLEN then map_option (\<lambda>st. (None, st)) (release (hport H) p st)
      else do {
        clen \<leftarrow> pbuf_clen (Some p) (lnet st);
        (room, st) \<leftarrow>
          (if IP_REASS_MAX_PBUFS < ip_reass_pbufcount (ipst st) + clen then do {
             (n, st) \<leftarrow> ip_reass_remove_oldest_datagram H fraghdr clen st;
             Some (n \<noteq> 0 \<and> ip_reass_pbufcount (ipst st) + clen \<le> IP_REASS_MAX_PBUFS, st)
           }
           else Some (True, st));
        (if \<not> room then map_option (\<lambda>st. (None, st)) (release (hport H) p st)
         else do {
           (ipr, ipr_prev) \<leftarrow> find_datagram fraghdr (reassdatagrams (ipst st)) None st;
           (case ipr of
              None \<Rightarrow> do {
                (ipr, st) \<leftarrow> ip_reass_enqueue_new_datagram H fraghdr clen st;
                (case ipr of
                   None \<Rightarrow> map_option (\<lambda>st. (None, st)) (release (hport H) p st)
                 | Some ipr \<Rightarrow> accept_frag H p fraghdr clen ipr ipr_prev st)
              }
            | Some ipr \<Rightarrow>
                accept_frag H p fraghdr clen ipr ipr_prev
                  (if IPH_OFFSET fraghdr AND IP_OFFMASK = 0 \<and> IPH_OFFSET (r_iphdr (reass_at st ipr)) AND IP_OFFMASK \<noteq> 0
                   then set_reass ipr (\<lambda>r. r\<lparr>r_iphdr := fraghdr\<rparr>) st else st))
         })
      })
   }"

end
