(* ===== verification/Udp.thy ===== *)
theory Udp
  imports Icmp
begin

text \<open>
  Datagrams, \<open>lwip/src/core/udp.c\<close>, as configured (no UDP-Lite, no multicast, no socket options).
  The control blocks are linked by \<open>u_next\<close> from \<open>udp_pcbs\<close>; a callback is the parameter \<open>udp_recv_fn\<close>.
  \<open>None\<close> is a call that does not return.
\<close>

unbundle bit_operations_syntax

definition udp_at :: "lan \<Rightarrow> nat \<Rightarrow> udp_pcb" where
  "udp_at st u = udp_pcb_at (ipst st) u"

definition set_udp :: "nat \<Rightarrow> (udp_pcb \<Rightarrow> udp_pcb) \<Rightarrow> lan \<Rightarrow> lan" where
  "set_udp u f st = set_ipst (\<lambda>s. s\<lparr>udp_pcb_at := (udp_pcb_at s)(u := f (udp_pcb_at s u))\<rparr>) st"

definition set_udp_pcbs :: "nat option \<Rightarrow> lan \<Rightarrow> lan" where
  "set_udp_pcbs u st = set_ipst (\<lambda>s. s\<lparr>udp_pcbs := u\<rparr>) st"

section \<open>Ports\<close>

partial_function (option) port_used :: "nat option \<Rightarrow> nat \<Rightarrow> lan \<Rightarrow> bool option" where
  "port_used po port st =
     (case po of
        None \<Rightarrow> Some False
      | Some u \<Rightarrow> if u_local_port (udp_at st u) = port then Some True else port_used (u_next (udp_at st u)) port st)"

function new_port_loop :: "nat \<Rightarrow> lan \<Rightarrow> (nat \<times> lan) option" where
  "new_port_loop n st =
     (let port = (if udp_port (ipst st) = UDP_LOCAL_PORT_RANGE_END then UDP_LOCAL_PORT_RANGE_START
                  else trunc16 (udp_port (ipst st) + 1));
          st = set_ipst (\<lambda>s. s\<lparr>udp_port := port\<rparr>) st in
      case port_used (udp_pcbs (ipst st)) port st of
        None \<Rightarrow> None
      | Some False \<Rightarrow> Some (port, st)
      | Some True \<Rightarrow>
          if UDP_LOCAL_PORT_RANGE_END - UDP_LOCAL_PORT_RANGE_START < n + 1 then Some (0, st)
          else new_port_loop (n + 1) st)"
  by pat_completeness auto
termination by (relation "measure (\<lambda>(n, _). 0x4000 - n)") auto

declare new_port_loop.simps [simp del]

definition udp_new_port :: "lan \<Rightarrow> (nat \<times> lan) option" where
  "udp_new_port st = new_port_loop 0 st"

section \<open>Control blocks\<close>

text \<open>The loop of \<open>udp_bind\<close>: \<open>rebind\<close>, or \<open>ERR_USE\<close> (\<open>None\<close> inside).\<close>

partial_function (option) bind_loop :: "nat \<Rightarrow> u32 \<Rightarrow> nat \<Rightarrow> nat option \<Rightarrow> bool \<Rightarrow> lan \<Rightarrow> bool option option" where
  "bind_loop pcb ipaddr port po rebind st =
     (case po of
        None \<Rightarrow> Some (Some rebind)
      | Some u \<Rightarrow>
          if u = pcb then if rebind then None else bind_loop pcb ipaddr port (u_next (udp_at st u)) True st
          else if u_local_port (udp_at st u) = port \<and>
                  (u_local_ip (udp_at st u) = IPADDR_ANY \<or> ipaddr = IPADDR_ANY \<or> u_local_ip (udp_at st u) = ipaddr)
          then Some None
          else bind_loop pcb ipaddr port (u_next (udp_at st u)) rebind st)"

definition udp_bind :: "nat \<Rightarrow> u32 \<Rightarrow> nat \<Rightarrow> lan \<Rightarrow> (err_t \<times> lan) option" where
  "udp_bind pcb ipaddr port st = do {
     r \<leftarrow> bind_loop pcb ipaddr port (udp_pcbs (ipst st)) False st;
     (case r of
        None \<Rightarrow> Some (ERR_USE, st)
      | Some rebind \<Rightarrow> do {
          let st = set_udp pcb (\<lambda>u. u\<lparr>u_local_ip := ipaddr\<rparr>) st;
          (newport, st) \<leftarrow> (if port = 0 then udp_new_port st else Some (port, st));
          (if newport = 0 then Some (ERR_USE, st)
           else
             (let st = set_udp pcb (\<lambda>u. u\<lparr>u_local_port := newport\<rparr>) st in
              Some (ERR_OK, if rebind then st
                else set_udp_pcbs (Some pcb) (set_udp pcb (\<lambda>u. u\<lparr>u_next := udp_pcbs (ipst st)\<rparr>) st))))
        })
   }"

partial_function (option) on_list :: "nat \<Rightarrow> nat option \<Rightarrow> lan \<Rightarrow> bool option" where
  "on_list pcb po st =
     (case po of
        None \<Rightarrow> Some False
      | Some u \<Rightarrow> if pcb = u then Some True else on_list pcb (u_next (udp_at st u)) st)"

definition udp_connect :: "nat \<Rightarrow> u32 \<Rightarrow> nat \<Rightarrow> lan \<Rightarrow> (err_t \<times> lan) option" where
  "udp_connect pcb ipaddr port st = do {
     (err, st) \<leftarrow> (if u_local_port (udp_at st pcb) = 0
                   then udp_bind pcb (u_local_ip (udp_at st pcb)) (u_local_port (udp_at st pcb)) st
                   else Some (ERR_OK, st));
     (if err \<noteq> ERR_OK then Some (err, st)
      else do {
        let st = set_udp pcb (\<lambda>u. u\<lparr>u_remote_ip := ipaddr, u_remote_port := port, u_flags := u_flags u OR UDP_FLAGS_CONNECTED\<rparr>) st;
        present \<leftarrow> on_list pcb (udp_pcbs (ipst st)) st;
        Some (ERR_OK, if present then st
          else set_udp_pcbs (Some pcb) (set_udp pcb (\<lambda>u. u\<lparr>u_next := udp_pcbs (ipst st)\<rparr>) st))
      })
   }"

definition udp_disconnect :: "nat \<Rightarrow> lan \<Rightarrow> lan" where
  "udp_disconnect pcb st =
     set_udp pcb (\<lambda>u. u\<lparr>u_remote_ip := IPADDR_ANY, u_remote_port := 0, u_flags := u_flags u AND NOT UDP_FLAGS_CONNECTED\<rparr>) st"

definition udp_recv :: "nat \<Rightarrow> nat option \<Rightarrow> nat \<Rightarrow> lan \<Rightarrow> lan" where
  "udp_recv pcb recv recv_arg st = set_udp pcb (\<lambda>u. u\<lparr>u_recv := recv, u_recv_arg := recv_arg\<rparr>) st"

partial_function (option) udp_unlink_loop :: "nat \<Rightarrow> nat option \<Rightarrow> lan \<Rightarrow> lan option" where
  "udp_unlink_loop pcb po st =
     (case po of
        None \<Rightarrow> Some st
      | Some u \<Rightarrow>
          (let st' = (if u_next (udp_at st u) = Some pcb
                      then set_udp u (\<lambda>v. v\<lparr>u_next := u_next (udp_at st pcb)\<rparr>) st else st)
           in udp_unlink_loop pcb (u_next (udp_at st' u)) st'))"

definition udp_remove :: "nat \<Rightarrow> lan \<Rightarrow> lan option" where
  "udp_remove pcb st = do {
     st \<leftarrow> (if udp_pcbs (ipst st) = Some pcb then Some (set_udp_pcbs (u_next (udp_at st pcb)) st)
            else udp_unlink_loop pcb (udp_pcbs (ipst st)) st);
     n \<leftarrow> pool_put MEMP_UDP_PCB pcb (lnet st);
     Some (st\<lparr>lnet := n\<rparr>)
   }"

definition udp_new :: "lan \<Rightarrow> (nat option \<times> lan) option" where
  "udp_new st = do {
     (e, m) \<leftarrow> memp_malloc MEMP_UDP_PCB (npools (lnet st));
     let st = st\<lparr>lnet := (lnet st)\<lparr>npools := m\<rparr>\<rparr>;
     Some (e, case e of None \<Rightarrow> st | Some u \<Rightarrow> set_udp u (\<lambda>_. zero_udp_pcb\<lparr>u_ttl := UDP_TTL\<rparr>) st)
   }"

section \<open>Input\<close>

definition local_match :: "netif \<Rightarrow> bool \<Rightarrow> nat \<Rightarrow> udp_pcb \<Rightarrow> lan \<Rightarrow> bool" where
  "local_match inp broadcast dest u st =
     (u_local_port u = dest \<and>
      (\<not> broadcast \<and> u_local_ip u = IPADDR_ANY \<or> u_local_ip u = current_iphdr_dest (ipst st) \<or>
       broadcast \<and> (u_local_ip u = IPADDR_ANY \<or>
                    ip_addr_netcmp (u_local_ip u) (current_iphdr_dest (ipst st)) (netmask inp))))"

text \<open>The loop over the control blocks: the full match, the one before it, and the first unconnected match.\<close>

partial_function (option) udp_scan ::
    "netif \<Rightarrow> bool \<Rightarrow> nat \<Rightarrow> nat \<Rightarrow> nat option \<Rightarrow> nat option \<Rightarrow> nat option \<Rightarrow> lan \<Rightarrow> (nat option \<times> nat option \<times> nat option) option" where
  "udp_scan inp broadcast src dest po prev uncon st =
     (case po of
        None \<Rightarrow> Some (None, prev, uncon)
      | Some u \<Rightarrow>
          (let v = udp_at st u;
               m = local_match inp broadcast dest v st;
               uncon = (if m \<and> uncon = None \<and> u_flags v AND UDP_FLAGS_CONNECTED = 0 then Some u else uncon) in
           if m \<and> u_remote_port v = src \<and> (u_remote_ip v = IPADDR_ANY \<or> u_remote_ip v = current_iphdr_src (ipst st))
           then Some (Some u, prev, uncon)
           else udp_scan inp broadcast src dest (u_next v) (Some u) uncon st))"

definition udp_demux :: "host \<Rightarrow> nat \<Rightarrow> bool \<Rightarrow> nat \<Rightarrow> nat \<Rightarrow> lan \<Rightarrow> (nat option \<times> lan) option" where
  "udp_demux H inp broadcast src dest st =
     (if dest = DHCP_CLIENT_PORT then
        Some (if src = DHCP_SERVER_PORT then
                (case dhcp_pcb (ipst st) inp of
                   None \<Rightarrow> None
                 | Some u \<Rightarrow> if u_remote_ip (udp_at st u) = IPADDR_ANY \<or> u_remote_ip (udp_at st u) = current_iphdr_src (ipst st)
                             then Some u else None)
              else None, st)
      else do {
        (pcb, prev, uncon) \<leftarrow> udp_scan (nif H inp) broadcast src dest (udp_pcbs (ipst st)) None None st;
        Some (case pcb of
            None \<Rightarrow> (uncon, st)
          | Some u \<Rightarrow>
              (Some u, case prev of
                 None \<Rightarrow> st
               | Some b \<Rightarrow>
                   (let st = set_udp b (\<lambda>v. v\<lparr>u_next := u_next (udp_at st u)\<rparr>) st;
                        st = set_udp u (\<lambda>v. v\<lparr>u_next := udp_pcbs (ipst st)\<rparr>) st
                    in set_udp_pcbs (Some u) st)))
      })"

definition udp_input :: "host \<Rightarrow> loc \<Rightarrow> nat \<Rightarrow> lan \<Rightarrow> lan option" where
  "udp_input H p inp st = do {
     let iphdr = payload (buf st p);
     h \<leftarrow> fetch iphdr 0 1 st;
     let hlen = IPH_HL h * 4;
     (if tot_len (buf st p) < hlen + UDP_HLEN then release (hport H) p st
      else do {
        (fail, n) \<leftarrow> pbuf_header p (- int hlen) (lnet st);
        let st = st\<lparr>lnet := n\<rparr>;
        (if fail \<noteq> 0 then release (hport H) p st
         else do {
           udphdr \<leftarrow> fetch (payload (buf st p)) 0 UDP_HLEN st;
           let broadcast = ip4_addr_isbroadcast (current_iphdr_dest (ipst st)) (nif H inp);
           let src = unat (ntohs_at udphdr 0);
           let dest = unat (ntohs_at udphdr 2);
           (pcb, st) \<leftarrow> udp_demux H inp broadcast src dest st;
           (if pcb = None \<and> ip_addr (nif H inp) \<noteq> current_iphdr_dest (ipst st) then release (hport H) p st
            else do {
              c \<leftarrow> (if take 2 (drop 6 udphdr) = [0, 0] then Some 0
                    else inet_chksum_pseudo (block_addr H) (Some p) (current_iphdr_src (ipst st)) (current_iphdr_dest (ipst st))
                           IP_PROTO_UDP (word_of_nat (tot_len (buf st p))) (lnet st));
              (if c \<noteq> 0 then release (hport H) p st
               else do {
                 (fail, n) \<leftarrow> pbuf_header p (- int UDP_HLEN) (lnet st);
                 lwip_assert (fail = 0);
                 let st = st\<lparr>lnet := n\<rparr>;
                 (case pcb of
                    Some u \<Rightarrow>
                      (case u_recv (udp_at st u) of
                         Some f \<Rightarrow> udp_recv_fn H f (u_recv_arg (udp_at st u)) u p (current_iphdr_src (ipst st)) src st
                       | None \<Rightarrow> release (hport H) p st)
                  | None \<Rightarrow> do {
                      st \<leftarrow> (if \<not> broadcast \<and> \<not> ip_addr_ismulticast (current_iphdr_dest (ipst st)) then do {
                               (_, n) \<leftarrow> pbuf_header p (int (hlen + UDP_HLEN)) (lnet st);
                               let st = st\<lparr>lnet := n\<rparr>;
                               lwip_assert (payload (buf st p) = iphdr);
                               icmp_dest_unreach H p ICMP_DUR_PORT st
                             }
                             else Some st);
                      release (hport H) p st
                    })
               })
            })
         })
      })
   }"

section \<open>Output\<close>

text \<open>The buffer the header goes to: the packet itself, or a new one chained in front of it.\<close>

definition udp_room :: "host \<Rightarrow> loc \<Rightarrow> lan \<Rightarrow> (loc option \<times> lan) option" where
  "udp_room H p st = do {
     (fail, n) \<leftarrow> pbuf_header p (int UDP_HLEN) (lnet st);
     let st = st\<lparr>lnet := n\<rparr>;
     (if fail \<noteq> 0 then do {
        (q, n) \<leftarrow> pbuf_alloc (custom_free (hport H)) PBUF_IP UDP_HLEN PBUF_RAM (lnet st);
        (case q of
           None \<Rightarrow> Some (None, st\<lparr>lnet := n\<rparr>)
         | Some q \<Rightarrow> do {
             n \<leftarrow> (if tot_len (pb n p) \<noteq> 0 then pbuf_chain (Some q) (Some p) n else Some n);
             Some (Some q, st\<lparr>lnet := n\<rparr>)
           })
      }
      else Some (Some p, st))
   }"

definition udp_header :: "host \<Rightarrow> nat \<Rightarrow> loc \<Rightarrow> u32 \<Rightarrow> u32 \<Rightarrow> lan \<Rightarrow> lan option" where
  "udp_header H pcb q src_ip dst_ip st = do {
     let udphdr = payload (buf st q);
     st \<leftarrow> store udphdr [(4, net16 (word_of_nat (tot_len (buf st q))))] st;
     (if u_flags (udp_at st pcb) AND UDP_FLAGS_NOCHKSUM = 0 then do {
        c \<leftarrow> inet_chksum_pseudo (block_addr H) (Some q) src_ip dst_ip IP_PROTO_UDP (word_of_nat (tot_len (buf st q))) (lnet st);
        store udphdr [(6, mem16 (if c = 0 then 0xffff else c))] st
      }
      else Some st)
   }"

definition udp_sendto_if :: "host \<Rightarrow> nat \<Rightarrow> loc \<Rightarrow> u32 \<Rightarrow> nat \<Rightarrow> nat \<Rightarrow> lan \<Rightarrow> (err_t \<times> lan) option" where
  "udp_sendto_if H pcb p dst_ip dst_port i st = do {
     (err, st) \<leftarrow> (if u_local_port (udp_at st pcb) = 0
                   then udp_bind pcb (u_local_ip (udp_at st pcb)) (u_local_port (udp_at st pcb)) st
                   else Some (ERR_OK, st));
     (if err \<noteq> ERR_OK then Some (err, st)
      else do {
        (q, st) \<leftarrow> udp_room H p st;
        (case q of
           None \<Rightarrow> Some (ERR_MEM, st)
         | Some q \<Rightarrow> do {
             lwip_assert (UDP_HLEN \<le> plen (buf st q));
             st \<leftarrow> store (payload (buf st q))
                    [(0, net16 (word_of_nat (u_local_port (udp_at st pcb)))), (2, net16 (word_of_nat dst_port)), (6, [0, 0])] st;
             (if u_local_ip (udp_at st pcb) \<noteq> IPADDR_ANY \<and> u_local_ip (udp_at st pcb) \<noteq> ip_addr (nif H i)
              then map_option (\<lambda>st. (ERR_VAL, st)) (if q \<noteq> p then release (hport H) q st else Some st)
              else do {
                let src_ip = (if u_local_ip (udp_at st pcb) = IPADDR_ANY then ip_addr (nif H i) else u_local_ip (udp_at st pcb));
                st \<leftarrow> udp_header H pcb q src_ip dst_ip st;
                (err, st) \<leftarrow> ip_output_if H q (Some src_ip) (Some dst_ip) (u_ttl (udp_at st pcb)) (u_tos (udp_at st pcb)) IP_PROTO_UDP i st;
                map_option (\<lambda>st. (err, st)) (if q \<noteq> p then release (hport H) q st else Some st)
              })
           })
      })
   }"

definition udp_sendto :: "host \<Rightarrow> nat \<Rightarrow> loc \<Rightarrow> u32 \<Rightarrow> nat \<Rightarrow> lan \<Rightarrow> (err_t \<times> lan) option" where
  "udp_sendto H pcb p dst_ip dst_port st =
     (case ip_route H dst_ip of
        None \<Rightarrow> Some (ERR_RTE, st)
      | Some i \<Rightarrow> udp_sendto_if H pcb p dst_ip dst_port i st)"

definition udp_send :: "host \<Rightarrow> nat \<Rightarrow> loc \<Rightarrow> lan \<Rightarrow> (err_t \<times> lan) option" where
  "udp_send H pcb p st = udp_sendto H pcb p (u_remote_ip (udp_at st pcb)) (u_remote_port (udp_at st pcb)) st"

end
