(* ===== verification/Raw.thy ===== *)
theory Raw
  imports IpOut
begin

text \<open>
  Raw control blocks, \<open>lwip/src/core/raw.c\<close>, linked by \<open>w_next\<close> from \<open>raw_pcbs\<close>. The callback is the
  parameter \<open>raw_recv_fn\<close>; a result other than 0 says that it took the packet.
\<close>

definition raw_at :: "lan \<Rightarrow> nat \<Rightarrow> raw_pcb" where
  "raw_at st u = raw_pcb_at (ipst st) u"

definition set_raw :: "nat \<Rightarrow> (raw_pcb \<Rightarrow> raw_pcb) \<Rightarrow> lan \<Rightarrow> lan" where
  "set_raw u f st = set_ipst (\<lambda>s. s\<lparr>raw_pcb_at := (raw_pcb_at s)(u := f (raw_pcb_at s u))\<rparr>) st"

definition set_raw_pcbs :: "nat option \<Rightarrow> lan \<Rightarrow> lan" where
  "set_raw_pcbs u st = set_ipst (\<lambda>s. s\<lparr>raw_pcbs := u\<rparr>) st"

section \<open>Input\<close>

definition raw_match :: "u8 \<Rightarrow> nat \<Rightarrow> lan \<Rightarrow> bool" where
  "raw_match proto u st =
     (w_protocol (raw_at st u) = proto \<and>
      (w_local_ip (raw_at st u) = IPADDR_ANY \<or> w_local_ip (raw_at st u) = current_iphdr_dest (ipst st)))"

definition raw_front :: "nat option \<Rightarrow> nat \<Rightarrow> lan \<Rightarrow> lan" where
  "raw_front prev u st =
     (case prev of
        None \<Rightarrow> st
      | Some b \<Rightarrow>
          (let st = set_raw b (\<lambda>v. v\<lparr>w_next := w_next (raw_at st u)\<rparr>) st;
               st = set_raw u (\<lambda>v. v\<lparr>w_next := raw_pcbs (ipst st)\<rparr>) st
           in set_raw_pcbs (Some u) st))"

partial_function (option) raw_loop :: "host \<Rightarrow> loc \<Rightarrow> u8 \<Rightarrow> nat option \<Rightarrow> nat option \<Rightarrow> lan \<Rightarrow> (bool \<times> lan) option" where
  "raw_loop H p proto po prev st =
     (case po of
        None \<Rightarrow> Some (False, st)
      | Some u \<Rightarrow>
          Option.bind
            (case (raw_match proto u st, w_recv (raw_at st u)) of
               (True, Some f) \<Rightarrow> raw_recv_fn H f (w_recv_arg (raw_at st u)) u p (current_iphdr_src (ipst st)) st
             | _ \<Rightarrow> Some (0, st))
            (\<lambda>(r, st). if r \<noteq> 0 then Some (True, raw_front prev u st)
                       else raw_loop H p proto (w_next (raw_at st u)) (Some u) st))"

definition raw_input :: "host \<Rightarrow> loc \<Rightarrow> lan \<Rightarrow> (bool \<times> lan) option" where
  "raw_input H p st = do {
     h \<leftarrow> fetch (payload (buf st p)) 9 1 st;
     raw_loop H p (h ! 0) (raw_pcbs (ipst st)) None st
   }"

section \<open>Control blocks\<close>

definition raw_bind :: "nat \<Rightarrow> u32 \<Rightarrow> lan \<Rightarrow> err_t \<times> lan" where
  "raw_bind pcb ipaddr st = (ERR_OK, set_raw pcb (\<lambda>u. u\<lparr>w_local_ip := ipaddr\<rparr>) st)"

definition raw_connect :: "nat \<Rightarrow> u32 \<Rightarrow> lan \<Rightarrow> err_t \<times> lan" where
  "raw_connect pcb ipaddr st = (ERR_OK, set_raw pcb (\<lambda>u. u\<lparr>w_remote_ip := ipaddr\<rparr>) st)"

definition raw_recv :: "nat \<Rightarrow> nat option \<Rightarrow> nat \<Rightarrow> lan \<Rightarrow> lan" where
  "raw_recv pcb recv recv_arg st = set_raw pcb (\<lambda>u. u\<lparr>w_recv := recv, w_recv_arg := recv_arg\<rparr>) st"

partial_function (option) raw_unlink_loop :: "nat \<Rightarrow> nat option \<Rightarrow> lan \<Rightarrow> lan option" where
  "raw_unlink_loop pcb po st =
     (case po of
        None \<Rightarrow> Some st
      | Some u \<Rightarrow>
          (let st' = (if w_next (raw_at st u) = Some pcb
                      then set_raw u (\<lambda>v. v\<lparr>w_next := w_next (raw_at st pcb)\<rparr>) st else st)
           in raw_unlink_loop pcb (w_next (raw_at st' u)) st'))"

definition raw_remove :: "nat \<Rightarrow> lan \<Rightarrow> lan option" where
  "raw_remove pcb st = do {
     st \<leftarrow> (if raw_pcbs (ipst st) = Some pcb then Some (set_raw_pcbs (w_next (raw_at st pcb)) st)
            else raw_unlink_loop pcb (raw_pcbs (ipst st)) st);
     n \<leftarrow> pool_put MEMP_RAW_PCB pcb (lnet st);
     Some (st\<lparr>lnet := n\<rparr>)
   }"

definition raw_new :: "u8 \<Rightarrow> lan \<Rightarrow> (nat option \<times> lan) option" where
  "raw_new proto st = do {
     (e, m) \<leftarrow> memp_malloc MEMP_RAW_PCB (npools (lnet st));
     let st = st\<lparr>lnet := (lnet st)\<lparr>npools := m\<rparr>\<rparr>;
     Some (e, case e of
         None \<Rightarrow> st
       | Some u \<Rightarrow> set_raw_pcbs (Some u)
           (set_raw u (\<lambda>_. zero_raw_pcb\<lparr>w_protocol := proto, w_ttl := RAW_TTL, w_next := raw_pcbs (ipst st)\<rparr>) st))
   }"

section \<open>Output\<close>

definition raw_room :: "host \<Rightarrow> loc \<Rightarrow> lan \<Rightarrow> (loc option \<times> lan) option" where
  "raw_room H p st = do {
     (fail, n) \<leftarrow> pbuf_header p (int IP_HLEN) (lnet st);
     (if fail \<noteq> 0 then do {
        (q, n) \<leftarrow> pbuf_alloc (custom_free (hport H)) PBUF_IP 0 PBUF_RAM n;
        (case q of
           None \<Rightarrow> Some (None, st\<lparr>lnet := n\<rparr>)
         | Some q \<Rightarrow> do {
             n \<leftarrow> (if tot_len (pb n p) \<noteq> 0 then pbuf_chain (Some q) (Some p) n else Some n);
             Some (Some q, st\<lparr>lnet := n\<rparr>)
           })
      }
      else do {
        (fail, n) \<leftarrow> pbuf_header p (- int IP_HLEN) n;
        lwip_assert (fail = 0);
        Some (Some p, st\<lparr>lnet := n\<rparr>)
      })
   }"

definition raw_sendto :: "host \<Rightarrow> nat \<Rightarrow> loc \<Rightarrow> u32 \<Rightarrow> lan \<Rightarrow> (err_t \<times> lan) option" where
  "raw_sendto H pcb p ipaddr st = do {
     (q, st) \<leftarrow> raw_room H p st;
     (case q of
        None \<Rightarrow> Some (ERR_MEM, st)
      | Some q \<Rightarrow>
          (case ip_route H ipaddr of
             None \<Rightarrow> map_option (\<lambda>st. (ERR_RTE, st)) (if q \<noteq> p then release (hport H) q st else Some st)
           | Some i \<Rightarrow> do {
               let src_ip = (if w_local_ip (raw_at st pcb) = IPADDR_ANY then ip_addr (nif H i) else w_local_ip (raw_at st pcb));
               (err, st) \<leftarrow> ip_output_if H q (Some src_ip) (Some ipaddr) (w_ttl (raw_at st pcb)) (w_tos (raw_at st pcb))
                              (w_protocol (raw_at st pcb)) i st;
               map_option (\<lambda>st. (err, st)) (if q \<noteq> p then release (hport H) q st else Some st)
             }))
   }"

definition raw_send :: "host \<Rightarrow> nat \<Rightarrow> loc \<Rightarrow> lan \<Rightarrow> (err_t \<times> lan) option" where
  "raw_send H pcb p st = raw_sendto H pcb p (w_remote_ip (raw_at st pcb)) st"

end
