(* ===== verification/IpIn.thy ===== *)
theory IpIn
  imports Reass Udp Raw
begin

text \<open>
  Reception, the first half of \<open>lwip/src/core/ipv4/ip.c\<close>, as configured: no forwarding, no
  multicast groups, DHCP messages accepted whatever their address. \<open>inp\<close> is the interface the
  packet came from. \<open>tcp_handler\<close> is a parameter. Together with the interface below and the
  modules above it is the receive path of the board.
\<close>

unbundle bit_operations_syntax

definition set_payload :: "loc \<Rightarrow> dptr \<Rightarrow> lan \<Rightarrow> lan" where
  "set_payload p d st = st\<lparr>lnet := set_pb p (\<lambda>b. b\<lparr>payload := d\<rparr>) (lnet st)\<rparr>"

section \<open>The interface a packet is for\<close>

definition netif_accepts :: "host \<Rightarrow> u32 \<Rightarrow> nat \<Rightarrow> bool" where
  "netif_accepts H dest i =
     (netif_is_up (nif H i) \<and> ip_addr (nif H i) \<noteq> IPADDR_ANY \<and>
      (dest = ip_addr (nif H i) \<or> ip4_addr_isbroadcast dest (nif H i)))"

text \<open>The \<open>do\<close> loop: \<open>inp\<close> first, then the list of interfaces without it.\<close>

fun netif_walk :: "host \<Rightarrow> u32 \<Rightarrow> nat \<Rightarrow> nat list \<Rightarrow> nat option" where
  "netif_walk H dest inp [] = None"
| "netif_walk H dest inp (i # is) =
     (if i = inp then netif_walk H dest inp is
      else if netif_accepts H dest i then Some i else netif_walk H dest inp is)"

definition netif_for :: "host \<Rightarrow> u32 \<Rightarrow> nat \<Rightarrow> nat option" where
  "netif_for H dest inp =
     (if netif_accepts H dest inp then Some inp else netif_walk H dest inp [0..<length (netifs H)])"

section \<open>Input\<close>

definition ip_dispatch :: "host \<Rightarrow> loc \<Rightarrow> nat \<Rightarrow> dptr \<Rightarrow> lan \<Rightarrow> lan option" where
  "ip_dispatch H p inp iphdr st = do {
     (eaten, st) \<leftarrow> raw_input H p st;
     st \<leftarrow> (if eaten then Some st
            else do {
              proto \<leftarrow> fetch iphdr 9 1 st;
              (if proto = [IP_PROTO_UDP] then udp_input H p inp st
               else if proto = [IP_PROTO_TCP] then tcp_handler H inp p st
               else if proto = [IP_PROTO_ICMP] then icmp_input H p inp st
               else do {
                 st \<leftarrow> (if \<not> ip4_addr_isbroadcast (current_iphdr_dest (ipst st)) (nif H inp) \<and>
                           \<not> ip_addr_ismulticast (current_iphdr_dest (ipst st))
                        then icmp_dest_unreach H p ICMP_DUR_PROTO (set_payload p iphdr st) else Some st);
                 release (hport H) p st
               })
            });
     Some (set_ipst (\<lambda>s. s\<lparr>current_iphdr_src := IPADDR_ANY, current_iphdr_dest := IPADDR_ANY\<rparr>) st)
   }"

text \<open>Reassembly when the packet is a fragment, then the layers above.\<close>

definition ip_local :: "host \<Rightarrow> loc \<Rightarrow> nat \<Rightarrow> lan \<Rightarrow> lan option" where
  "ip_local H p inp st = do {
     h \<leftarrow> fetch (payload (buf st p)) 0 IP_HLEN st;
     (p', st) \<leftarrow> (if IPH_OFFSET h AND (IP_OFFMASK OR IP_MF) \<noteq> 0 then ip_reass H p st else Some (Some p, st));
     (case p' of
        None \<Rightarrow> Some st
      | Some p \<Rightarrow> ip_dispatch H p inp (payload (buf st p)) st)
   }"

definition ip_input :: "host \<Rightarrow> nat \<Rightarrow> loc \<Rightarrow> lan \<Rightarrow> lan option" where
  "ip_input H inp p st = do {
     let iphdr = payload (buf st p);
     h \<leftarrow> fetch iphdr 0 IP_HLEN st;
     let iphdr_hlen = IPH_HL h * 4;
     let iphdr_len = IPH_LEN h;
     (if IPH_V h \<noteq> 4 then release (hport H) p st
      else if plen (buf st p) < iphdr_hlen \<or> tot_len (buf st p) < iphdr_len then release (hport H) p st
      else do {
        xs \<leftarrow> fetch iphdr 0 iphdr_hlen st;
        (if inet_chksum (data_addr H iphdr) xs \<noteq> 0 then release (hport H) p st
         else do {
           n \<leftarrow> pbuf_realloc (custom_free (hport H)) p iphdr_len (lnet st);
           let st = set_ipst (\<lambda>s. s\<lparr>current_iphdr_dest := IPH_DEST h, current_iphdr_src := IPH_SRC h\<rparr>) (st\<lparr>lnet := n\<rparr>);
           let netif = netif_for H (IPH_DEST h) inp;
           port \<leftarrow> fetch iphdr (iphdr_hlen + 2) 2 st;
           let dhcp = (netif = None \<and> IPH_PROTO h = IP_PROTO_UDP \<and> unat (ntohs_at port 0) = DHCP_CLIENT_PORT);
           let netif = (if dhcp then Some inp else netif);
           (if \<not> dhcp \<and> IPH_SRC h \<noteq> IPADDR_ANY \<and> (ip4_addr_isbroadcast (IPH_SRC h) (nif H inp) \<or> ip_addr_ismulticast (IPH_SRC h))
            then release (hport H) p st
            else if netif = None then release (hport H) p st
            else ip_local H p inp st)
         })
      })
   }"

section \<open>The receive path\<close>

text \<open>The port with \<open>ip_input\<close> as the handler of the frames of interface \<open>inp\<close>.\<close>

definition net_port :: "host \<Rightarrow> nat \<Rightarrow> port" where
  "net_port H inp = (hport H)\<lparr>ip_handler := ip_input H inp\<rparr>"

definition receive :: "host \<Rightarrow> nat \<Rightarrow> u8 list option list \<Rightarrow> lan \<Rightarrow> lan option" where
  "receive H inp frames st = ethernetif_input (net_port H inp) (nif H inp) frames st"

end
