(* ===== verification/ChksumClaims.thy ===== *)
theory ChksumClaims
  imports ChksumProps Packets
begin

text \<open>
  The contract of the Internet checksum: the implementations agree, a packet has the
  checksum of its content whatever way it is cut into buffers, and a receiver that sums
  a checksummed block accepts it and notices every changed byte.
\<close>

unbundle bit_operations_syntax


text \<open>Claim C31: the checksum of a packet does not depend on how it is cut into buffers or where
  they lie: \<open>inet_chksum_pbuf\<close> is the checksum of the content of the chain,
  \<open>inet_chksum_pseudo\<close> that of the pseudo header followed by the content, and
  \<open>inet_chksum_pseudo_partial\<close> that of the pseudo header followed by the first \<open>n\<close> bytes,
  when less than 0x7fff of them lie behind the first buffer (otherwise an assertion fails).\<close>

theorem chain_checksum_is_flat:
  assumes "pchain (pb st) (Some p) ps None" and "has_data st ps" and "\<forall>q \<in> set ps. plen (pb st q) < 65536"
    and "length (content st ps) + 12 \<le> 0x20000"
  shows "inet_chksum_pbuf base (Some p) st = Some (inet_chksum addr (content st ps)) \<and>
     inet_chksum_pseudo base (Some p) src dest proto proto_len st =
       Some (inet_chksum addr (pseudo_header src dest proto proto_len @ content st ps)) \<and>
     (n < 0x7fff + plen (pb st p) \<longrightarrow> inet_chksum_pseudo_partial base (Some p) src dest proto proto_len n st =
       Some (inet_chksum addr (pseudo_header src dest proto proto_len @ take n (content st ps))))"
  using assms inet_chksum_pbuf_flat inet_chksum_pseudo_flat inet_chksum_partial_flat
  by (simp add: short_bufs_def)

text \<open>A block whose checksum field, at an even offset and zero while the sum is taken, is
  filled with \<open>inet_chksum\<close> sums to zero at the receiver, at any address; and after a change of
  any one of its bytes it does not.\<close>

theorem checksummed_block_verifies:
  assumes "even i" and "Suc i < length xs" and "xs ! i = 0" and "xs ! Suc i = 0" and "length xs \<le> 0x20000"
    and "zs = xs[i := ucast (inet_chksum addr xs), Suc i := ucast (drop_bit 8 (inet_chksum addr xs))]"
  shows "inet_chksum addr' zs = 0 \<and> (\<forall>j < length zs. \<forall>b. b \<noteq> zs ! j \<longrightarrow> inet_chksum addr' (zs[j := b]) \<noteq> 0)"
proof -
  define c where "c = inet_chksum addr xs"
  have len: "length zs = length xs" using assms(6) by simp
  have "le (xs[i := ucast c]) = le xs + unat c mod 256"
    using le_update(1)[of i xs "ucast c"] assms(1-3) by (simp add: weight_def byte_of)
  moreover have "le zs = le (xs[i := ucast c]) + 256 * (unat c div 256 mod 256)"
    using le_update(1)[of "Suc i" "xs[i := ucast c]" "ucast (drop_bit 8 c)"] assms(1,2,4,6)
    by (simp add: weight_def byte_of c_def drop_bit_eq_div unat_div_distrib)
  ultimately have "le zs = le xs + unat c"
    using byte_pair[of "unat c"] word_bound(2)[of c] by simp
  then have "ones (le zs) = ones (ones (le xs) + (65535 - ones (le xs)))"
    using inet_chksum_nat[OF assms(5), of addr] by (simp add: c_def ones_add)
  then have "ones (le zs) = 65535" using ones_le[of "le xs"] by (simp add: ones_small)
  then have z: "le zs \<noteq> 0" "le zs mod 65535 = 0" by (simp_all add: ones_full)
  with byte_change[of _ zs] show ?thesis using assms(5) len by (auto simp: inet_chksum_zero)
qed

section \<open>Witnesses\<close>


theorem chain_checksum_is_flat_witness:
  "\<forall>h base. inet_chksum_pbuf base (Some (Rom 2)) (ex_net h) = Some (inet_chksum 0 [0, 1, 0, 1, 2]) \<and>
     inet_chksum_pseudo_partial base (Some (Rom 2)) 1 2 17 4 4 (ex_net h) =
       Some (inet_chksum 0 (pseudo_header 1 2 17 4 @ [0, 1, 0, 1]))"
proof (intro allI)
  fix h base
  have c: "content (ex_net h) [Rom 2, Rom 3] = [0, 1, 0, 1, 2]" by (simp add: buf_data_def upt_rec)
  have "pchain (pb (ex_net h)) (Some (Rom 2)) [Rom 2, Rom 3] None" "has_data (ex_net h) [Rom 2, Rom 3]"
    "\<forall>q \<in> set [Rom 2, Rom 3]. plen (pb (ex_net h) q) < 65536"
    "length (content (ex_net h) [Rom 2, Rom 3]) + 12 \<le> 0x20000" by (simp_all add: c del: content_simps)
  from chain_checksum_is_flat [OF this, of base 0 1 2 17 4 4]
  show "inet_chksum_pbuf base (Some (Rom 2)) (ex_net h) = Some (inet_chksum 0 [0, 1, 0, 1, 2]) \<and>
     inet_chksum_pseudo_partial base (Some (Rom 2)) 1 2 17 4 4 (ex_net h) =
       Some (inet_chksum 0 (pseudo_header 1 2 17 4 @ [0, 1, 0, 1]))"
    unfolding c by simp
qed

theorem checksummed_block_verifies_witness:
  "\<forall>addr addr'. inet_chksum addr' ([0x45, 7, 0, 0] [2 := ucast (inet_chksum addr [0x45, 7, 0, 0]),
     3 := ucast (drop_bit 8 (inet_chksum addr [0x45, 7, 0, 0]))]) = 0"
proof (intro allI)
  fix addr addr'
  have "even (2 :: nat)" "Suc 2 < length [0x45 :: u8, 7, 0, 0]" "[0x45 :: u8, 7, 0, 0] ! 2 = 0" "[0x45 :: u8, 7, 0, 0] ! Suc 2 = 0"
    "length [0x45 :: u8, 7, 0, 0] \<le> 0x20000" by simp_all
  from checksummed_block_verifies [OF this refl, of addr' addr]
  show "inet_chksum addr' ([0x45, 7, 0, 0] [2 := ucast (inet_chksum addr [0x45, 7, 0, 0]),
     3 := ucast (drop_bit 8 (inet_chksum addr [0x45, 7, 0, 0]))]) = 0" by (simp add: eval_nat_numeral)
qed

end
