(* ===== verification/IpView.thy ===== *)
theory IpView
  imports IpIn EtharpClaims ChksumClaims
begin

text \<open>
  A packet in one pool buffer as the network layer sees it: the bytes received, from the start of the
  frame, and how many of them headers taken off hide. Taking headers off and revealing
  them again, loads and stores through pointers to any header, and trimming, on that view.
\<close>

unbundle bit_operations_syntax

section \<open>The view\<close>

definition view :: "net \<Rightarrow> nat \<Rightarrow> int \<Rightarrow> nat \<Rightarrow> u8 list \<Rightarrow> bool" where
  "view n e off k xs =
     (payload (pb n (Pool e)) = Some (Pool e, off + int k) \<and> int SIZEOF_STRUCT_PBUF \<le> off \<and>
      off + int (length xs) \<le> elem_end \<and> k \<le> length xs \<and> plen (pb n (Pool e)) = length xs - k \<and>
      tot_len (pb n (Pool e)) = length xs - k \<and> pnext (pb n (Pool e)) = None \<and> pool_buf n e \<and>
      (\<forall>j < length xs. bytes n (Pool e) (off + int j) = xs ! j))"

text \<open>Nothing but buffer \<open>e\<close> differs.\<close>

definition only_buf :: "nat \<Rightarrow> net \<Rightarrow> net \<Rightarrow> bool" where
  "only_buf e n n' = (npools n' = npools n \<and> nheap n' = nheap n \<and> pcr_original n' = pcr_original n \<and>
     (\<forall>l. l \<noteq> Pool e \<longrightarrow> pb n' l = pb n l \<and> bytes n' l = bytes n l))"

lemma only_buf_refl [simp]: "only_buf e n n"
  by (simp add: only_buf_def)

lemma only_buf_trans: "only_buf e a b \<Longrightarrow> only_buf e b c \<Longrightarrow> only_buf e a c"
  by (auto simp: only_buf_def)

lemma only_buf_same: "only_buf e n n' \<Longrightarrow> npools n' = npools n" "only_buf e n n' \<Longrightarrow> nheap n' = nheap n"
  by (simp_all add: only_buf_def)

lemma view_short: "view n e off k xs \<Longrightarrow> length xs \<le> 600"
  by (simp add: view_def elem_end_def)

lemma view_of_frame: "frame_in n e xs \<Longrightarrow> \<exists>off. view n e off 0 xs"
proof -
  assume f: "frame_in n e xs"
  then obtain off where p: "payload (pb n (Pool e)) = Some (Pool e, off)" "int SIZEOF_STRUCT_PBUF \<le> off"
    "plen (pb n (Pool e)) = length xs" "tot_len (pb n (Pool e)) = length xs" "pnext (pb n (Pool e)) = None"
    "pool_buf n e" "off + int (length xs) \<le> elem_end"
    by (elim frame_in_buf)
  then show ?thesis using frame_in_byte[OF f p(1)] by (intro exI[of _ off]) (simp add: view_def)
qed

lemma view_data: "view n e off k xs \<Longrightarrow> buf_data n (Pool e) = drop k xs"
  by (rule nth_equalityI) (auto simp: view_def buf_data_def add.assoc simp flip: of_nat_add)

lemma frame_of_view: "view n e off k xs \<Longrightarrow> frame_in n e (drop k xs)"
  using view_data[of n e off k xs] by (auto simp: frame_in_iff view_def inside_def elem_end_def)

lemma view_sel:
  assumes "view n e off k xs"
  shows "payload (pb n (Pool e)) = Some (Pool e, off + int k)" "plen (pb n (Pool e)) = length xs - k"
    "tot_len (pb n (Pool e)) = length xs - k" "pnext (pb n (Pool e)) = None" "pref (pb n (Pool e)) = 1" "k \<le> length xs"
    "int SIZEOF_STRUCT_PBUF \<le> off" "ptype (pb n (Pool e)) = PBUF_POOL"
  using assms by (auto simp: view_def pool_buf_def)

text \<open>\<open>pbuf_header\<close> in both directions.\<close>

lemma view_move:
  assumes v: "view n e off k xs" and k': "k' \<le> length xs"
  shows "\<exists>n'. pbuf_header (Pool e) (int k - int k') n = Some (0, n') \<and> view n' e off k' xs \<and> only_buf e n n'"
proof (cases "k' = k")
  case True
  then show ?thesis using v by (intro exI[of _ n]) (simp add: pbuf_header_def)
next
  case False
  define n' where "n' = set_pb (Pool e) (\<lambda>b. b\<lparr>payload := map_option (\<lambda>(b, o'). (b, o' - (int k - int k'))) (payload b),
     plen := nat ((int (plen b) + (int k - int k')) mod 65536), tot_len := nat ((int (tot_len b) + (int k - int k')) mod 65536)\<rparr>) n"
  have l: "nat ((int (length xs - k) + (int k - int k')) mod 65536) = length xs - k'"
    using view_short[OF v] view_sel(6)[OF v] k' by (simp add: of_nat_diff)
  have "pbuf_header (Pool e) (int k - int k') n = Some (0, n')"
    using view_sel[OF v] k' False by (simp add: pbuf_header_def n'_def Let_def set_pb_def of_nat_diff)
  moreover have "view n' e off k' xs" using v k' l by (simp add: view_def n'_def pool_buf_def)
  moreover have "only_buf e n n'" by (simp add: only_buf_def n'_def)
  ultimately show ?thesis by blast
qed

lemma view_hide:
  assumes "view n e off k xs" and "k + j \<le> length xs"
  shows "\<exists>n'. pbuf_header (Pool e) (- int j) n = Some (0, n') \<and> view n' e off (k + j) xs \<and> only_buf e n n'"
  using view_move[OF assms] by simp

lemma view_reveal:
  assumes "view n e off k xs" and "j \<le> k"
  shows "\<exists>n'. pbuf_header (Pool e) (int j) n = Some (0, n') \<and> view n' e off (k - j) xs \<and> only_buf e n n'"
  using view_move[OF assms(1), of "k - j"] assms view_sel(6)[OF assms(1)] by (simp add: of_nat_diff)

section \<open>Loads and stores\<close>

lemma fetch_view:
  assumes "view (lnet st) e off k xs" and "h + i + m \<le> length xs"
  shows "fetch (Some (Pool e, off + int h)) i m st = Some (take m (drop (h + i) xs))"
proof -
  have "map (\<lambda>j. bytes (lnet st) (Pool e) (off + int h + int i + int j)) [0..<m] = take m (drop (h + i) xs)"
    using assms by (intro nth_equalityI) (auto simp: view_def add.assoc simp flip: of_nat_add)
  then show ?thesis by (simp add: fetch_def peek_def)
qed

lemma poke_view:
  assumes v: "view n e off k xs" and l: "h + i + length ys \<le> length xs"
  shows "\<exists>n'. poke (Some (Pool e, off + int h)) (int i) ys n = Some n' \<and> view n' e off k (blit (h + i) ys xs) \<and> only_buf e n n'"
proof -
  define n' where "n' = n\<lparr>bytes := (bytes n)(Pool e := (\<lambda>j. if off + int h + int i \<le> j \<and> j < off + int h + int i + int (length ys)
       then ys ! nat (j - (off + int h + int i)) else bytes n (Pool e) j))\<rparr>"
  have "bytes n' (Pool e) (off + int j) = blit (h + i) ys xs ! j" if "j < length xs" for j
  proof -
    have "nat (off + int j - (off + int h + int i)) = j - (h + i)" by simp
    then show ?thesis using that l v by (auto simp: n'_def nth_blit view_def)
  qed
  moreover have "length (blit (h + i) ys xs) = length xs" using l by simp
  ultimately have "view n' e off k (blit (h + i) ys xs)" using v by (simp add: view_def n'_def pool_buf_def)
  moreover have "only_buf e n n'" by (simp add: only_buf_def n'_def)
  ultimately show ?thesis by (auto simp: poke_def n'_def)
qed

lemma store_view:
  "view (lnet st) e off k xs \<Longrightarrow> \<forall>(i, ys) \<in> set ws. h + i + length ys \<le> length xs \<Longrightarrow>
   \<exists>n'. store (Some (Pool e, off + int h)) ws st = Some (st\<lparr>lnet := n'\<rparr>) \<and>
     view n' e off k (fold (\<lambda>(i, ys). blit (h + i) ys) ws xs) \<and> only_buf e (lnet st) n'"
proof (induction ws arbitrary: st xs)
  case Nil
  then show ?case by (intro exI[of _ "lnet st"]) simp
next
  case (Cons w ws)
  obtain i ys where w: "w = (i, ys)" by (cases w)
  obtain n1 where n1: "poke (Some (Pool e, off + int h)) (int i) ys (lnet st) = Some n1" "view n1 e off k (blit (h + i) ys xs)"
    "only_buf e (lnet st) n1"
    using poke_view[OF Cons.prems(1), of h i ys] Cons.prems(2) w by auto
  have "length (blit (h + i) ys xs) = length xs" using Cons.prems(2) w by simp
  then obtain n2 where "store (Some (Pool e, off + int h)) ws (st\<lparr>lnet := n1\<rparr>) = Some (st\<lparr>lnet := n2\<rparr>)"
    "view n2 e off k (fold (\<lambda>(i, ys). blit (h + i) ys) ws (blit (h + i) ys xs))" "only_buf e n1 n2"
    using Cons.IH[of "st\<lparr>lnet := n1\<rparr>" "blit (h + i) ys xs"] n1(2) Cons.prems(2) by auto
  then show ?case using n1 w only_buf_trans[OF n1(3)] by auto
qed

lemma store_on:
  "view n e off k xs \<Longrightarrow> \<forall>(i, ys) \<in> set ws. h + i + length ys \<le> length xs \<Longrightarrow>
   \<exists>n'. store (Some (Pool e, off + int h)) ws (st\<lparr>lnet := n\<rparr>) = Some (st\<lparr>lnet := n'\<rparr>) \<and>
     view n' e off k (fold (\<lambda>(i, ys). blit (h + i) ys) ws xs) \<and> only_buf e n n'"
  using store_view[of "st\<lparr>lnet := n\<rparr>" e off k xs ws h] by (simp del: store.simps)

section \<open>Trimming and release\<close>

lemma realloc_view:
  assumes v: "view n e off k xs" and l: "m \<le> length xs - k"
  shows "\<exists>n'. pbuf_realloc cfree (Pool e) m n = Some n' \<and> view n' e off k (take (k + m) xs) \<and> only_buf e n n'"
proof (cases "length xs - k \<le> m")
  case True
  then have "take (k + m) xs = xs" using view_sel(6)[OF v] by simp
  then show ?thesis using True v view_sel[OF v] by (intro exI[of _ n]) (simp add: pbuf_realloc_def)
next
  case False
  define n' where "n' = set_pb (Pool e) (\<lambda>b. b\<lparr>plen := m, tot_len := m\<rparr>) n"
  have "realloc_skip (length xs - k - m) m (Pool e) n = Some (m, Pool e, n)"
    using False view_sel[OF v] by (simp add: realloc_skip.simps)
  then have "pbuf_realloc cfree (Pool e) m n = Some (set_pb (Pool e) (\<lambda>b. b\<lparr>pnext := None\<rparr>) n')"
    using False view_sel[OF v] by (simp add: pbuf_realloc_def n'_def)
  moreover have "set_pb (Pool e) (\<lambda>b. b\<lparr>pnext := None\<rparr>) n' = n'"
    using view_sel(4)[OF v] by (simp add: n'_def set_pb_def fun_eq_iff)
  moreover have "view n' e off k (take (k + m) xs)" using v False l by (auto simp: view_def n'_def pool_buf_def)
  moreover have "only_buf e n n'" by (simp add: only_buf_def n'_def)
  ultimately show ?thesis by auto
qed

lemma release_view:
  assumes "view (lnet st) e off k xs" and "memp_ok sizes (npools (lnet st)) F" and "e \<notin> set (F MEMP_PBUF_POOL)"
    and "e \<in> set (elems sizes MEMP_PBUF_POOL)"
  shows "\<exists>n'. release pt (Pool e) st = Some (st\<lparr>lnet := n'\<rparr>) \<and> memp_ok sizes (npools n') (F(MEMP_PBUF_POOL := e # F MEMP_PBUF_POOL)) \<and>
     nheap n' = nheap (lnet st)"
  by (rule release_frame[OF frame_of_view[OF assms(1)] assms(2-4)])

lemma view_chksum:
  assumes "view n e off k xs"
  shows "inet_chksum_pbuf base (Some (Pool e)) n = Some (inet_chksum addr (drop k xs))"
  using inet_chksum_pbuf_flat[of n "Some (Pool e)" "[Pool e]" base addr] view_sel[OF assms] view_data[OF assms] view_short[OF assms]
  by (simp add: short_bufs_def)

lemma view_clen: "view n e off k xs \<Longrightarrow> pbuf_clen (Some (Pool e)) n = Some 1"
  by (simp add: pbuf_clen_def clen_loop.simps view_sel)

end
