(* ===== verification/IpEcho.thy ===== *)
theory IpEcho
  imports IpView
begin

text \<open>
  From a received frame to the answer: checksums that are filled in and adjusted, output to
  a host in the ARP table, acceptance of a packet by \<open>ip_input\<close>, and the echo reply.
\<close>

unbundle bit_operations_syntax

section \<open>Checksums\<close>

lemma chksum_any: "length xs \<le> 0x20000 \<Longrightarrow> inet_chksum a xs = inet_chksum b xs"
  by (simp add: word_unat_eq_iff inet_chksum_nat)

lemma mem16_length [simp]: "length (mem16 c) = 2" "length (net16 c) = 2"
  by (simp_all add: mem16_def net16_def)

lemma mem16_le [simp]: "le (mem16 c) = unat c"
proof -
  have "unat c div 256 mod 256 = unat c div 256" using word_bound(2)[of c] by (simp add: less_mult_imp_div_less)
  then show ?thesis
    by (simp add: mem16_def drop_bit_eq_div take_bit_eq_mod unat_div_distrib unsigned_ucast_eq)
qed

lemma mem16_load: "ucast (le16 a b) = c \<longleftrightarrow> [a, b] = mem16 c"
proof -
  have u: "unat (ucast (le16 a b) :: u16) = unat a + 256 * unat b"
    using byte_bound[of a] byte_bound[of b] by (simp add: unsigned_ucast_eq take_bit_eq_mod le16_nat)
  have d: "unat (ucast c :: u8) = unat c mod 256" "unat (ucast (drop_bit 8 c) :: u8) = unat c div 256"
    using word_bound(2)[of c] by (simp_all add: drop_bit_eq_div take_bit_eq_mod unat_div_distrib unsigned_ucast_eq less_mult_imp_div_less)
  have "unat a + 256 * unat b = unat c \<longleftrightarrow> unat a = unat c mod 256 \<and> unat b = unat c div 256"
  proof
    assume c: "unat a + 256 * unat b = unat c"
    then have "unat c mod 256 = unat a mod 256" "unat c div 256 = unat a div 256 + unat b" by (metis mod_mult_self2, metis div_mult_self2 add.commute zero_neq_numeral)
    then show "unat a = unat c mod 256 \<and> unat b = unat c div 256" using byte_bound[of a] by simp
  qed (use div_mult_mod_eq[of "unat c" 256] in simp)
  then show ?thesis by (simp add: mem16_def word_unat_eq_iff u d)
qed

text \<open>A block filled in with its checksum verifies.\<close>

lemma sealed_verifies:
  assumes "even (length a)" and "length a + 2 + length b \<le> 0x20000"
  shows "inet_chksum addr' (a @ mem16 (inet_chksum addr (a @ [0, 0] @ b)) @ b) = 0"
proof -
  let ?s = "le a + le b"
  have "unat (inet_chksum addr (a @ [0, 0] @ b)) = 65535 - ones ?s"
    using assms inet_chksum_nat[of "a @ [0, 0] @ b" addr] by (simp add: le_append)
  then have "le (a @ mem16 (inet_chksum addr (a @ [0, 0] @ b)) @ b) = ?s + (65535 - ones ?s)" (is "?l = _")
    using assms(1) by (simp add: le_append)
  then have "ones ?l = 65535" using ones_le[of ?s] ones_add(1)[of ?s "65535 - ones ?s"] by (simp add: ones_small)
  then show ?thesis using assms by (simp add: inet_chksum_zero ones_full)
qed

lemma le_zero_iff: "le xs = 0 \<longleftrightarrow> (\<forall>x \<in> set xs. x = 0)" "be xs = 0 \<longleftrightarrow> (\<forall>x \<in> set xs. x = 0)"
  by (induction xs) (auto simp: unat_eq_zero)

lemma adjust_nat:
  "unat (adjust_chksum c) = (if 0xfff7 \<le> unat c then unat c + 9 - 65536 else unat c + 8)"
proof -
  have h: "adjust_chksum c = (if 0xfff7 \<le> c then c + 8 + 1 else c + 8)" by (simp add: adjust_chksum_def lwip_htons_def)
  have le: "(0xfff7 \<le> c) = (0xfff7 \<le> unat c)" by (simp add: word_le_nat_alt)
  show ?thesis
  proof (cases "0xfff7 \<le> unat c")
    case True
    have "unat (c + 8 + 1) = (unat c + 9) mod 65536" by (simp add: unat_word_ariths add.assoc)
    also have "\<dots> = unat c + 9 - 65536" using True word_bound(2)[of c] by (subst le_mod_geq) simp_all
    finally show ?thesis using True le by (simp add: h)
  next
    case False
    then have "unat (c + 8) = unat c + 8" by (simp add: unat_word_ariths)
    then show ?thesis using False le by (simp add: h)
  qed
qed

text \<open>
  The checksum of a request, adjusted for the changed type, is right for the reply, except that
  a reply of which every byte is 0 gets 0 instead of 0xffff.
\<close>

lemma adjusted_verifies:
  assumes "inet_chksum a ([8, code] @ mem16 c @ rest) = 0" and "length rest \<le> 0x10000"
  shows "inet_chksum b ([0, code] @ mem16 (adjust_chksum c) @ rest) = 0 \<longleftrightarrow> code \<noteq> 0 \<or> (\<exists>x \<in> set rest. x \<noteq> 0)"
proof -
  let ?m = "[8, code] @ mem16 c @ rest" and ?m' = "[0, code] @ mem16 (adjust_chksum c) @ rest"
  have m: "le ?m = 8 + 256 * unat code + unat c + le rest" by (simp add: le_append)
  have z: "le ?m \<noteq> 0" "le ?m mod 65535 = 0" using assms by (simp_all add: inet_chksum_zero)
  have m': "le ?m' = 256 * unat code + unat (adjust_chksum c) + le rest" by (simp add: le_append)
  have adj: "unat (adjust_chksum c) = (if 0xfff7 \<le> unat c then unat c + 9 - 65536 else unat c + 8)" by (rule adjust_nat)
  have sum: "le ?m' + (if 0xfff7 \<le> unat c then 65535 else 0) = le ?m" unfolding m m' adj by simp
  have period: "x mod 65535 = 0" if "x + d = y" "65535 dvd d" "y mod 65535 = 0" for x d y :: nat
    using that by (metis dvd_add_left_iff mod_0_imp_dvd dvd_imp_mod_0)
  have "le ?m' mod 65535 = 0" by (rule period[OF sum _ z(2)]) simp
  then have "inet_chksum b ?m' = 0 \<longleftrightarrow> le ?m' \<noteq> 0" using assms(2) by (simp add: inet_chksum_zero)
  also have "\<dots> \<longleftrightarrow> unat code \<noteq> 0 \<or> le rest \<noteq> 0"
  proof
    assume "unat code \<noteq> 0 \<or> le rest \<noteq> 0"
    then show "le ?m' \<noteq> 0" unfolding m' by auto
  next
    assume nz: "le ?m' \<noteq> 0"
    show "unat code \<noteq> 0 \<or> le rest \<noteq> 0"
    proof (rule ccontr)
      assume "\<not> ?thesis"
      then have r: "unat code = 0" "le rest = 0" by simp_all
      then have "(8 + unat c) mod 65535 = 0" using z(2) m by simp
      then obtain k where k: "8 + unat c = 65535 * k" by (metis mod_0_imp_dvd dvdE)
      then have "k = 1" using word_bound(2)[of c] by linarith
      with k have "unat c = 65527" by simp
      then show False using nz r m' adj by simp
    qed
  qed
  finally show ?thesis by (auto simp: le_zero_iff unat_eq_zero)
qed

section \<open>Output to a known host\<close>

text \<open>Entry \<open>i\<close> of the ARP table has the address of host \<open>ip\<close>, and is not due for another request.\<close>

definition resolved :: "lan \<Rightarrow> u32 \<Rightarrow> nat \<Rightarrow> bool" where
  "resolved st ip i = (i < 10 \<and> is_stable (arp_state (arp_table st ! i)) \<and> arp_ipaddr (arp_table st ! i) = ip \<and>
     arp_ctime (arp_table st ! i) < ARP_AGE_REREQUEST_USED)"

text \<open>Host \<open>ip\<close> is on the network of the interface and addressed alone.\<close>

definition neighbour :: "netif \<Rightarrow> u32 \<Rightarrow> bool" where
  "neighbour n ip = (\<not> ip4_addr_isbroadcast ip n \<and> \<not> ip_addr_ismulticast ip \<and> ip_addr_netcmp ip (ip_addr n) (netmask n))"

lemma stable_nonempty: "is_stable s \<Longrightarrow> s \<noteq> ETHARP_STATE_EMPTY"
  by (auto simp: is_stable_def)

lemma stable_scan_find:
  "\<forall>k < length es. is_stable (arp_state (es ! k)) \<and> arp_ipaddr (es ! k) = ip \<longleftrightarrow> k = m \<Longrightarrow> m < length es \<Longrightarrow>
   stable_scan ip i es = Some (i + m)"
proof (induction es arbitrary: i m)
  case (Cons a es)
  show ?case
  proof (cases m)
    case 0
    then show ?thesis using Cons.prems(1)[rule_format, of 0] by auto
  next
    case (Suc m')
    have "\<forall>k < length es. is_stable (arp_state (es ! k)) \<and> arp_ipaddr (es ! k) = ip \<longleftrightarrow> k = m'"
      using Cons.prems(1) Suc by (auto dest: spec[of _ "Suc _"])
    moreover have "\<not> (is_stable (arp_state a) \<and> ip = arp_ipaddr a)" using Cons.prems(1)[rule_format, of 0] Suc by auto
    ultimately show ?thesis using Cons.IH[of m' "i + 1"] Cons.prems(2) Suc by simp
  qed
qed simp

lemma unicast_resolved:
  assumes "arp_ok st" and r: "resolved st ip i"
  shows "unicast_output pt n q ip st =
     etharp_send_ip pt n q (hwaddr n) (arp_ethaddr (arp_table st ! i)) (st\<lparr>etharp_cached_entry := i\<rparr>)"
proof -
  have one: "k = i" if "k < 10" "is_stable (arp_state (arp_table st ! k))" "arp_ipaddr (arp_table st ! k) = ip" for k
    using assms that stable_nonempty unfolding arp_ok_def table_ok_def resolved_def by metis
  have send: "etharp_output_to_arp_index pt n q i (st\<lparr>etharp_cached_entry := i\<rparr>) =
      etharp_send_ip pt n q (hwaddr n) (arp_ethaddr (arp_table st ! i)) (st\<lparr>etharp_cached_entry := i\<rparr>)"
    using r by (simp add: etharp_output_to_arp_index_def resolved_def)
  show ?thesis
  proof (cases "is_stable (arp_state (arp_table st ! etharp_cached_entry st)) \<and> ip = arp_ipaddr (arp_table st ! etharp_cached_entry st)")
    case True
    then have "etharp_cached_entry st = i" using one assms(1) by (simp add: arp_ok_def)
    moreover from this have same: "st\<lparr>etharp_cached_entry := i\<rparr> = st" by simp
    ultimately show ?thesis using True send unfolding same by (simp add: unicast_output_def Let_def)
  next
    case False
    have "stable_scan ip 0 (arp_table st) = Some (0 + i)"
      using one r assms(1) by (intro stable_scan_find) (auto simp: resolved_def)
    then show ?thesis using False send by (auto simp: unicast_output_def Let_def)
  qed
qed

lemma puts_view:
  "view (lnet st) e off k xs \<Longrightarrow> \<forall>(i, ys) \<in> set ws. k + i + length ys \<le> length xs \<Longrightarrow>
   \<exists>n'. puts (Pool e) ws st = Some (st\<lparr>lnet := n'\<rparr>) \<and>
     view n' e off k (fold (\<lambda>(i, ys). blit (k + i) ys) ws xs) \<and> only_buf e (lnet st) n'"
proof (induction ws arbitrary: st xs)
  case Nil
  then show ?case by (intro exI[of _ "lnet st"]) simp
next
  case (Cons w ws)
  obtain i ys where w: "w = (i, ys)" by (cases w)
  obtain n1 where n1: "poke (Some (Pool e, off + int k)) (int i) ys (lnet st) = Some n1" "view n1 e off k (blit (k + i) ys xs)"
    "only_buf e (lnet st) n1"
    using poke_view[OF Cons.prems(1), of k i ys] Cons.prems(2) w by auto
  have "length (blit (k + i) ys xs) = length xs" using Cons.prems(2) w by simp
  then obtain n2 where "puts (Pool e) ws (st\<lparr>lnet := n1\<rparr>) = Some (st\<lparr>lnet := n2\<rparr>)"
    "view n2 e off k (fold (\<lambda>(i, ys). blit (k + i) ys) ws (blit (k + i) ys xs))" "only_buf e n1 n2"
    using Cons.IH[of "st\<lparr>lnet := n1\<rparr>" "blit (k + i) ys xs"] n1(2) Cons.prems(2) by auto
  then show ?case using n1 w only_buf_trans[OF n1(3)] view_sel(1)[OF Cons.prems(1)] by (auto simp: buf_def)
qed

text \<open>A packet behind the room for an Ethernet header goes out with that header.\<close>

lemma output_view:
  assumes v: "view (lnet st) e off 14 xs" and ok: "arp_ok st" "resolved st ip i" and nb: "neighbour n ip"
    and hw: "hwaddr_len n = 6" "length (hwaddr n) = 6" "length (arp_ethaddr (arp_table st ! i)) = 6"
    and up: "link_up pt (wire st)" "send_frame pt (wire st) (arp_ethaddr (arp_table st ! i) @ hwaddr n @ ETHTYPE_IP @ drop 14 xs)"
  shows "\<exists>n'. etharp_output pt n (Pool e) ip st = Some (ERR_OK, st\<lparr>lnet := n', etharp_cached_entry := i,
       wire := (arp_ethaddr (arp_table st ! i) @ hwaddr n @ ETHTYPE_IP @ drop 14 xs) # wire st\<rparr>) \<and>
     view n' e off 0 (arp_ethaddr (arp_table st ! i) @ hwaddr n @ ETHTYPE_IP @ drop 14 xs) \<and> only_buf e (lnet st) n'"
proof -
  let ?ha = "arp_ethaddr (arp_table st ! i)" let ?f = "?ha @ hwaddr n @ ETHTYPE_IP @ drop 14 xs"
  have len: "14 \<le> length xs" using view_sel(6)[OF v] .
  obtain n1 where n1: "pbuf_header (Pool e) (int 14) (lnet st) = Some (0, n1)" "view n1 e off 0 xs" "only_buf e (lnet st) n1"
    using view_reveal[OF v, of 14] by auto
  let ?st1 = "st\<lparr>lnet := n1\<rparr>" let ?st2 = "st\<lparr>lnet := n1, etharp_cached_entry := i\<rparr>"
  have "arp_ok ?st1" "resolved ?st1 ip i" using ok by (simp_all add: arp_ok_def resolved_def)
  from unicast_resolved[OF this, of pt n "Pool e"]
  have u: "etharp_output pt n (Pool e) ip st = etharp_send_ip pt n (Pool e) (hwaddr n) ?ha ?st2"
    using n1(1) nb by (simp add: etharp_output_def neighbour_def)
  have xs: "fold (\<lambda>(i, ys). blit (0 + i) ys) [(0, ?ha), (6, hwaddr n), (12, ETHTYPE_IP)] xs = ?f"
    using len hw by (simp add: blit_def drop_Cons' take_Cons' numeral_eq_Suc)
  obtain n2 where n2: "puts (Pool e) [(0, ?ha), (6, hwaddr n), (12, ETHTYPE_IP)] ?st2 = Some (?st2\<lparr>lnet := n2\<rparr>)" "view n2 e off 0 ?f"
    "only_buf e n1 n2"
    using puts_view[of ?st2 e off 0 xs "[(0, ?ha), (6, hwaddr n), (12, ETHTYPE_IP)]"] n1(2) len hw unfolding xs by auto
  have "frame_in n2 e ?f" using frame_of_view[OF n2(2)] by simp
  then have "low_level_output pt (Pool e) (?st2\<lparr>lnet := n2\<rparr>) = Some (transmit pt ?f (?st2\<lparr>lnet := n2\<rparr>))"
    by (intro low_level_output_frame) simp
  then have "etharp_send_ip pt n (Pool e) (hwaddr n) ?ha ?st2 = Some (ERR_OK, st\<lparr>lnet := n2, etharp_cached_entry := i, wire := ?f # wire st\<rparr>)"
    using n2(1) hw up by (simp add: etharp_send_ip_def transmit_def del: puts.simps)
  then show ?thesis using u n2(2) only_buf_trans[OF n1(3) n2(3)] by auto
qed

section \<open>Acceptance\<close>

lemma fetch_some: "d \<noteq> None \<Longrightarrow> \<exists>ys. fetch d i m st = Some ys"
  by (auto simp: fetch_def peek_def)

lemma frame_bytes: "view n e off k xs \<Longrightarrow> length xs \<le> 0x20000"
  using view_short by fastforce

definition at_host :: "u8 list \<Rightarrow> ip_state \<Rightarrow> ip_state" where
  "at_host h = (\<lambda>s. s\<lparr>current_iphdr_dest := IPH_DEST h, current_iphdr_src := IPH_SRC h\<rparr>)"

text \<open>A good header for this host, in front of a packet that is long enough: the packet is trimmed and handled.\<close>

lemma ip_input_accepts:
  assumes v: "view (lnet st) e off 14 xs" and h: "h = take 20 (drop 14 xs)" and len: "20 \<le> IPH_LEN h" "14 + IPH_LEN h \<le> length xs"
    and good: "IPH_V h = 4" "IPH_HL h = 5" "inet_chksum 0 h = 0"
    and src: "\<not> ip4_addr_isbroadcast (IPH_SRC h) (nif H inp)" "\<not> ip_addr_ismulticast (IPH_SRC h)"
    and dest: "netif_for H (IPH_DEST h) inp = Some i"
  shows "\<exists>n'. ip_input H inp (Pool e) st = ip_local H (Pool e) inp (set_ipst (at_host h) (st\<lparr>lnet := n'\<rparr>)) \<and>
     view n' e off 14 (take (14 + IPH_LEN h) xs) \<and> only_buf e (lnet st) n'"
proof -
  have pay: "payload (buf st (Pool e)) = Some (Pool e, off + int 14)" "plen (buf st (Pool e)) = length xs - 14" "tot_len (buf st (Pool e)) = length xs - 14"
    using view_sel[OF v] by (simp_all add: buf_def)
  have f: "fetch (Some (Pool e, off + int 14)) 0 20 st = Some h" using fetch_view[OF v, of 14 0 20] len h by simp
  have c: "inet_chksum (data_addr H (Some (Pool e, off + int 14))) h = 0"
    by (rule trans[OF chksum_any[of h _ 0] good(3)]) (simp add: h)
  obtain n' where n': "pbuf_realloc (custom_free (hport H)) (Pool e) (IPH_LEN h) (lnet st) = Some n'"
    "view n' e off 14 (take (14 + IPH_LEN h) xs)" "only_buf e (lnet st) n'"
    using realloc_view[OF v, of "IPH_LEN h" "custom_free (hport H)"] len by (metis add.commute le_diff_conv2 le_trans le_add1)
  define st' where "st' = set_ipst (at_host h) (st\<lparr>lnet := n'\<rparr>)"
  obtain ys where ys: "fetch (Some (Pool e, off + int 14)) 22 2 st' = Some ys" using fetch_some by blast
  have st': "set_ipst (\<lambda>s. s\<lparr>current_iphdr_dest := IPH_DEST h, current_iphdr_src := IPH_SRC h\<rparr>) (st\<lparr>lnet := n'\<rparr>) = st'"
    by (simp add: st'_def at_host_def)
  have "\<not> (length xs - 14 < 20 \<or> length xs - 14 < IPH_LEN h)" "(5 :: nat) * 4 = 20" "(20 :: nat) + 2 = 22" using len by linarith+
  then have "ip_input H inp (Pool e) st = ip_local H (Pool e) inp st'"
    unfolding ip_input_def pay Let_def f good(1,2) bind.bind_lunit c n'(1) st' dest ys
    using src by (simp add: f[simplified] c[simplified] ys[simplified])
  then show ?thesis using n'(2,3) unfolding st'_def by blast
qed

section \<open>The echo reply\<close>

text \<open>The IP header of an ICMP packet, of which \<open>v\<close> is the first 8 bytes, an echo message, and their frame.\<close>

definition icmp_hdr :: "u8 list \<Rightarrow> u8 \<Rightarrow> u8 list \<Rightarrow> u32 \<Rightarrow> u32 \<Rightarrow> u8 list" where
  "icmp_hdr v ttl ck src dst = v @ [ttl, 1] @ ck @ ip_bytes src @ ip_bytes dst"

definition echo_msg :: "u8 \<Rightarrow> u8 \<Rightarrow> u16 \<Rightarrow> u8 list \<Rightarrow> u8 list" where
  "echo_msg type code c rest = [type, code] @ mem16 c @ rest"

definition echo_frame :: "u8 list \<Rightarrow> u8 list \<Rightarrow> u8 list \<Rightarrow> u8 list \<Rightarrow> u8 list" where
  "echo_frame ethdst ethsrc hdr msg = ethdst @ ethsrc @ ETHTYPE_IP @ hdr @ msg"

lemma icmp_hdr_length [simp]: "length v = 8 \<Longrightarrow> length ck = 2 \<Longrightarrow> length (icmp_hdr v ttl ck src dst) = 20"
  by (simp add: icmp_hdr_def)

lemma echo_msg_length [simp]: "length (echo_msg type code c rest) = 4 + length rest"
  by (simp add: echo_msg_def)

lemma seal_view:
  assumes v: "view (lnet st) e off k xs" and l: "h + 20 \<le> length xs"
    and c: "c = inet_chksum 0 (take 20 (drop h (blit (h + 10) [0, 0] xs)))"
  shows "\<exists>n'. seal_header H (Some (Pool e, off + int h)) st = Some (st\<lparr>lnet := n'\<rparr>) \<and>
     view n' e off k (blit (h + 10) (mem16 c) xs) \<and> only_buf e (lnet st) n'"
proof -
  let ?d = "Some (Pool e, off + int h)" let ?ys = "blit (h + 10) [0, 0] xs"
  obtain n1 where n1: "store ?d [(10, [0, 0])] st = Some (st\<lparr>lnet := n1\<rparr>)" "view n1 e off k ?ys" "only_buf e (lnet st) n1"
    using store_view[OF v, of "[(10, [0, 0])]" h] l by auto
  have len: "length ?ys = length xs" using l by simp
  have f: "fetch ?d 0 20 (st\<lparr>lnet := n1\<rparr>) = Some (take 20 (drop h ?ys))"
    using fetch_view[of "st\<lparr>lnet := n1\<rparr>" e off k ?ys h 0 20] n1(2) l by simp
  have ck: "inet_chksum (data_addr H ?d) (take 20 (drop h ?ys)) = c" unfolding c by (rule chksum_any) simp
  obtain n2 where n2: "store ?d [(10, mem16 c)] (st\<lparr>lnet := n1\<rparr>) = Some (st\<lparr>lnet := n2\<rparr>)" "view n2 e off k (blit (h + 10) (mem16 c) ?ys)"
    "only_buf e n1 n2"
    using store_view[of "st\<lparr>lnet := n1\<rparr>" e off k ?ys "[(10, mem16 c)]" h] n1(2) l by auto
  have "blit (h + 10) (mem16 c) ?ys = blit (h + 10) (mem16 c) xs" using l by (simp add: blit_def)
  then show ?thesis
    using n1(1) n2 f ck only_buf_trans[OF n1(3) n2(3)] unfolding seal_header_def by (intro exI[of _ n2]) (simp del: store.simps)
qed

lemma seal_on:
  assumes "view n e off k xs" and "h + 20 \<le> length xs"
    and "c = inet_chksum 0 (take 20 (drop h (blit (h + 10) [0, 0] xs)))"
  shows "\<exists>n'. seal_header H (Some (Pool e, off + int h)) (st\<lparr>lnet := n\<rparr>) = Some (st\<lparr>lnet := n'\<rparr>) \<and>
     view n' e off k (blit (h + 10) (mem16 c) xs) \<and> only_buf e n n'"
  using seal_view[of "st\<lparr>lnet := n\<rparr>" e off k xs h c H] assms by simp

text \<open>The stores of \<open>icmp_input\<close> turn the request into the reply.\<close>

lemma reply_bytes:
  assumes "length a = 14" "length v = 8" "length ck = 2"
    and "xs = a @ icmp_hdr v ttl ck src dst @ echo_msg t code c rest"
  shows "blit 30 (ip_bytes s') (blit 26 (ip_bytes d') xs) = a @ icmp_hdr v ttl ck d' s' @ echo_msg t code c rest"
    and "blit 34 [t'] xs = a @ icmp_hdr v ttl ck src dst @ echo_msg t' code c rest"
    and "blit 36 (mem16 c') xs = a @ icmp_hdr v ttl ck src dst @ echo_msg t code c' rest"
    and "blit 22 [ttl'] xs = a @ icmp_hdr v ttl' ck src dst @ echo_msg t code c rest"
    and "length ck' = 2 \<Longrightarrow> blit 24 ck' xs = a @ icmp_hdr v ttl ck' src dst @ echo_msg t code c rest"
    and "take 2 (drop 36 xs) = mem16 c"
    and "take 20 (drop 14 xs) = icmp_hdr v ttl ck src dst"
    and "drop 34 xs = echo_msg t code c rest"
  unfolding assms(4) using assms(1-3)
  by (simp_all add: blit_def icmp_hdr_def echo_msg_def drop_Cons' take_Cons')

text \<open>The reply to a request from \<open>S\<close> to \<open>D\<close>.\<close>

definition reply_hdr :: "u8 list \<Rightarrow> u32 \<Rightarrow> u32 \<Rightarrow> u8 list" where
  "reply_hdr v D S = icmp_hdr v 255 (mem16 (inet_chksum 0 (icmp_hdr v 255 [0, 0] D S))) D S"

lemma reply_hdr_verifies: "length v = 8 \<Longrightarrow> inet_chksum b (reply_hdr v D S) = 0"
  using sealed_verifies[of "v @ [255, 1]" "ip_bytes D @ ip_bytes S" b 0] by (simp add: reply_hdr_def icmp_hdr_def)

lemma reply_hdr_dest: "length v = 8 \<Longrightarrow> IPH_DEST (reply_hdr v D S) = S"
  using ip_of_ip_bytes[of S "[]"] by (simp add: IPH_DEST_def reply_hdr_def icmp_hdr_def)

lemma fetch_icmp:
  assumes "view (lnet st) e off k (a @ h @ m)" and "length a = 14" "length h = 20"
  shows "fetch (Some (Pool e, off + 14)) 0 20 st = Some h" "2 \<le> length m \<Longrightarrow> j + 2 \<le> length m \<Longrightarrow>
     fetch (Some (Pool e, off + 34)) j 2 st = Some (take 2 (drop j m))"
  using fetch_view[OF assms(1), of 14 0 20] fetch_view[OF assms(1), of 34 j 2] assms by simp_all

lemma echo_reply_view:
  assumes v: "view (lnet st) e off 34 (a @ icmp_hdr v ttl ck src dst @ echo_msg 8 code c rest)"
    and len: "length a = 14" "length v = 8" "length ck = 2"
    and DS: "current_iphdr_dest (ipst st) = D" "current_iphdr_src (ipst st) = S"
    and mtu: "mtu (nif H inp) \<noteq> 0 \<longrightarrow> 24 + length rest \<le> mtu (nif H inp)"
    and arp: "arp_ok st" "resolved st S i" "neighbour (nif H inp) S"
    and hw: "hwaddr_len (nif H inp) = 6" "length (hwaddr (nif H inp)) = 6" "length (arp_ethaddr (arp_table st ! i)) = 6"
    and f: "f = echo_frame (arp_ethaddr (arp_table st ! i)) (hwaddr (nif H inp)) (reply_hdr v D S) (echo_msg 0 code (adjust_chksum c) rest)"
    and up: "link_up (hport H) (wire st)" "send_frame (hport H) (wire st) f"
  shows "\<exists>n'. echo_reply H (Pool e) (Some (Pool e, off + 14)) 20 inp st =
       Some (st\<lparr>lnet := n', etharp_cached_entry := i, wire := f # wire st\<rparr>) \<and> view n' e off 0 f \<and> only_buf e (lnet st) n'"
proof -
  let ?x = "\<lambda>ttl ck s d t c. a @ icmp_hdr v ttl ck s d @ echo_msg t code c rest"
  let ?ip = "Some (Pool e, off + 14)" and ?ic = "Some (Pool e, off + 34)"
  note rb = reply_bytes[OF len refl]
  obtain n1 where n1: "store ?ip [(12, ip_bytes D), (16, ip_bytes S)] st = Some (st\<lparr>lnet := n1\<rparr>)" "view n1 e off 34 (?x ttl ck D S 8 c)"
    "only_buf e (lnet st) n1"
    using store_view[OF v, of "[(12, ip_bytes D), (16, ip_bytes S)]" 14] by (auto simp: rb len)
  obtain n2 where n2: "store ?ic [(0, [0])] (st\<lparr>lnet := n1\<rparr>) = Some (st\<lparr>lnet := n2\<rparr>)" "view n2 e off 34 (?x ttl ck D S 0 c)" "only_buf e n1 n2"
    using store_on[OF n1(2), of "[(0, [0])]" 34 st] by (auto simp: rb len)
  have c: "fetch ?ic 2 2 (st\<lparr>lnet := n2\<rparr>) = Some (mem16 c)"
    using fetch_icmp(2)[of "st\<lparr>lnet := n2\<rparr>" e off 34 a _ _ 2] n2(2) len by (simp add: echo_msg_def)
  obtain n3 where n3: "store ?ic [(2, mem16 (adjust_chksum c))] (st\<lparr>lnet := n2\<rparr>) = Some (st\<lparr>lnet := n3\<rparr>)"
    "view n3 e off 34 (?x ttl ck D S 0 (adjust_chksum c))" "only_buf e n2 n3"
    using store_on[OF n2(2), of "[(2, mem16 (adjust_chksum c))]" 34 st] by (auto simp: rb len)
  obtain n4 where n4: "store ?ip [(8, [255])] (st\<lparr>lnet := n3\<rparr>) = Some (st\<lparr>lnet := n4\<rparr>)"
    "view n4 e off 34 (?x 255 ck D S 0 (adjust_chksum c))" "only_buf e n3 n4"
    using store_on[OF n3(2), of "[(8, [255])]" 14 st] by (auto simp: rb len)
  have z: "take 20 (drop 14 (blit (14 + 10) [0, 0] (?x 255 ck D S 0 (adjust_chksum c)))) = icmp_hdr v 255 [0, 0] D S"
    using len by (simp add: rb)
  obtain n5 where n5: "seal_header H ?ip (st\<lparr>lnet := n4\<rparr>) = Some (st\<lparr>lnet := n5\<rparr>)"
    "view n5 e off 34 (a @ reply_hdr v D S @ echo_msg 0 code (adjust_chksum c) rest)" "only_buf e n4 n5"
    using seal_on[OF n4(2) _ refl, of 14 H st]
    unfolding z reply_hdr_def by (auto simp: rb len)
  obtain n6 where n6: "pbuf_header (Pool e) (int 20) n5 = Some (0, n6)"
    "view n6 e off 14 (a @ reply_hdr v D S @ echo_msg 0 code (adjust_chksum c) rest)" "only_buf e n5 n6"
    using view_reveal[OF n5(2), of 20] by auto
  let ?st6 = "st\<lparr>lnet := n6\<rparr>" let ?xs = "a @ reply_hdr v D S @ echo_msg 0 code (adjust_chksum c) rest"
  have rl: "length (reply_hdr v D S) = 20" using len by (simp add: reply_hdr_def)
  have "drop 14 ?xs = reply_hdr v D S @ echo_msg 0 code (adjust_chksum c) rest" using len by simp
  then obtain n7 where n7: "etharp_output (hport H) (nif H inp) (Pool e) S ?st6 =
      Some (ERR_OK, st\<lparr>lnet := n7, etharp_cached_entry := i, wire := f # wire st\<rparr>)" "view n7 e off 0 f" "only_buf e n6 n7"
    using output_view[of ?st6 e off ?xs S i "nif H inp" "hport H"] n6(2) arp hw up len
    by (auto simp: f echo_frame_def arp_ok_def resolved_def)
  have "fetch ?ip 0 20 ?st6 = Some (reply_hdr v D S)"
    using fetch_icmp(1)[of ?st6 e off 14] n6(2) len rl by simp
  moreover have "payload (buf ?st6 (Pool e)) = ?ip" "tot_len (buf ?st6 (Pool e)) = 24 + length rest" "pref (buf ?st6 (Pool e)) = 1"
    using view_sel[OF n6(2)] len rl by (simp_all add: buf_def)
  moreover have "IPH_DEST (reply_hdr v D S) = S" using len by (simp add: reply_hdr_dest)
  ultimately have out: "ip_output_if H (Pool e) (Some D) None 255 0 1 inp ?st6 = Some (ERR_OK, st\<lparr>lnet := n7, etharp_cached_entry := i, wire := f # wire st\<rparr>)"
    using n7(1) mtu by (auto simp: ip_output_if_def ip_deliver_def)
  have pay: "payload (buf st (Pool e)) = ?ic" using view_sel(1)[OF v] by (simp add: buf_def)
  have ld: "ucast (le16 (mem16 c ! 0) (mem16 c ! 1)) = c" by (simp add: mem16_load mem16_def)
  have "echo_reply H (Pool e) ?ip 20 inp st = Some (st\<lparr>lnet := n7, etharp_cached_entry := i, wire := f # wire st\<rparr>)"
    unfolding echo_reply_def Let_def pay DS n1(1) n2(1) n3(1) n4(1) n5(1) c bind.bind_lunit ld
    using n6(1) out by (simp add: DS)
  then show ?thesis using n7(2) n1(3) n2(3) n3(3) n4(3) n5(3) n6(3) n7(3) by (meson only_buf_trans)
qed

section \<open>From the frame to the reply\<close>

text \<open>A received IP frame that fits a buffer, as the handler of the interface gets it.\<close>

lemma ip_frame_view:
  assumes ok: "memp_ok sizes (npools (lnet st)) F" "all_plain sizes (pb (lnet st))" and F: "F MEMP_PBUF_POOL = e # es"
    and len: "14 < length frame" "length frame \<le> PBUF_POOL_BUFSIZE_ALIGNED" and ty: "take 2 (drop 12 frame) = ETHTYPE_IP"
    and fl: "netif_flags n AND NETIF_FLAG_ETHARP \<noteq> 0"
  shows "\<exists>off m. receive_frame pt n frame st = ip_handler pt (Pool e) (st\<lparr>lnet := m\<rparr>) \<and> view m e off 14 frame \<and>
     memp_ok sizes (npools m) (F(MEMP_PBUF_POOL := es)) \<and> nheap m = nheap (lnet st)"
proof -
  obtain n1 where 1: "receive_frame pt n frame st = ethernet_input pt n (Pool e) (st\<lparr>lnet := n1\<rparr>)" "frame_in n1 e frame"
     "memp_ok sizes (npools n1) (F(MEMP_PBUF_POOL := es))" "nheap n1 = nheap (lnet st)"
    using short_frame_in[OF ok F _ len(2)] len(1) ty by (metis less_imp_le)
  obtain n2 where 2: "mark_cast (Pool e) (take 6 (take 14 frame)) (st\<lparr>lnet := n1\<rparr>) = st\<lparr>lnet := n2\<rparr>" "frame_in n2 e frame"
     "npools n2 = npools n1" "nheap n2 = nheap n1"
    using mark_cast_frame[of "st\<lparr>lnet := n1\<rparr>" e frame "take 6 (take 14 frame)"] 1(2) by auto
  obtain off where v: "view n2 e off 0 frame" using view_of_frame[OF 2(2)] by blast
  obtain n3 where 3: "pbuf_header (Pool e) (- int 14) n2 = Some (0, n3)" "view n3 e off 14 frame" "only_buf e n2 n3"
    using view_hide[OF v, of 14] len(1) by auto
  have "rd (Pool e) 0 14 (st\<lparr>lnet := n1\<rparr>) = Some (take 14 frame)"
    using frame_in_rd[of "st\<lparr>lnet := n1\<rparr>" e frame 0 14] 1(2) len(1) by simp
  moreover have "plen (buf (st\<lparr>lnet := n1\<rparr>) (Pool e)) = length frame" using frame_in_len(1)[OF 1(2)] by (simp add: buf_def)
  moreover have "drop 12 (take 14 frame) = ETHTYPE_IP" using ty by (simp add: drop_take)
  ultimately have "ethernet_input pt n (Pool e) (st\<lparr>lnet := n1\<rparr>) = ip_handler pt (Pool e) (st\<lparr>lnet := n3\<rparr>)"
    using len(1) fl 2(1) 3(1) by (simp add: ethernet_input_def Let_def del: take_take)
  then show ?thesis using 1 2 3 only_buf_same by (intro exI[of _ off] exI[of _ n3]) simp
qed

text \<open>The interface is set up for IP on Ethernet, with this address.\<close>

definition ip_interface :: "netif \<Rightarrow> bool" where
  "ip_interface n = (netif_is_up n \<and> netif_flags n AND NETIF_FLAG_ETHARP \<noteq> 0 \<and> ip_addr n \<noteq> IPADDR_ANY \<and>
     \<not> ip_addr_ismulticast (ip_addr n) \<and> \<not> ip4_addr_isbroadcast (ip_addr n) n \<and>
     hwaddr_len n = 6 \<and> length (hwaddr n) = 6)"

lemma for_this_interface: "ip_interface (nif H inp) \<Longrightarrow> netif_for H (ip_addr (nif H inp)) inp = Some inp"
  by (simp add: netif_for_def netif_accepts_def ip_interface_def)

lemma icmp_echo_view:
  assumes v: "view (lnet st) e off 14 (a @ icmp_hdr v ttl ck src dst @ echo_msg 8 code c rest)"
    and len: "length a = 14" "length v = 8" "length ck = 2" "4 \<le> length rest" and hl: "IPH_HL v = 5"
    and good: "inet_chksum 0 (echo_msg 8 code c rest) = 0"
    and DS: "current_iphdr_dest (ipst st) = D" "current_iphdr_src (ipst st) = S" "D = ip_addr (nif H inp)"
    and i: "ip_interface (nif H inp)" and mtu: "mtu (nif H inp) \<noteq> 0 \<longrightarrow> 24 + length rest \<le> mtu (nif H inp)"
    and arp: "arp_ok st" "resolved st S i" "neighbour (nif H inp) S" "length (arp_ethaddr (arp_table st ! i)) = 6"
    and f: "f = echo_frame (arp_ethaddr (arp_table st ! i)) (hwaddr (nif H inp)) (reply_hdr v D S) (echo_msg 0 code (adjust_chksum c) rest)"
    and up: "link_up (hport H) (wire st)" "send_frame (hport H) (wire st) f"
    and m: "memp_ok sizes (npools (lnet st)) F" "e \<notin> set (F MEMP_PBUF_POOL)" "e \<in> set (elems sizes MEMP_PBUF_POOL)"
  shows "\<exists>n'. icmp_input H (Pool e) inp st = Some (st\<lparr>lnet := n', etharp_cached_entry := i, wire := f # wire st\<rparr>) \<and>
     memp_ok sizes (npools n') (F(MEMP_PBUF_POOL := e # F MEMP_PBUF_POOL)) \<and> nheap n' = nheap (lnet st)"
proof -
  let ?xs = "a @ icmp_hdr v ttl ck src dst @ echo_msg 8 code c rest"
  have pay: "payload (buf st (Pool e)) = Some (Pool e, off + 14)" using view_sel(1)[OF v] by (simp add: buf_def)
  have f1: "fetch (Some (Pool e, off + 14)) 0 1 st = Some [v ! 0]"
    using fetch_view[OF v, of 14 0 1] len by (cases v) (simp_all add: icmp_hdr_def)
  have hl': "IPH_HL [v ! 0] = 5" using hl by (simp add: IPH_HL_def)
  obtain n1 where n1: "pbuf_header (Pool e) (- int 20) (lnet st) = Some (0, n1)" "view n1 e off 34 ?xs" "only_buf e (lnet st) n1"
    using view_hide[OF v, of 20] len by auto
  let ?st1 = "st\<lparr>lnet := n1\<rparr>"
  have t: "tot_len (buf ?st1 (Pool e)) = 4 + length rest" "payload (buf ?st1 (Pool e)) = Some (Pool e, off + 34)"
    using view_sel[OF n1(2)] len by (simp_all add: buf_def)
  have ty: "fetch (Some (Pool e, off + 34)) 0 1 ?st1 = Some [8]"
    using fetch_view[of ?st1 e off 34 ?xs 34 0 1] n1(2) len by (simp add: echo_msg_def)
  have ck: "inet_chksum_pbuf (block_addr H) (Some (Pool e)) n1 = Some 0"
    using view_chksum[OF n1(2), of "block_addr H" 0] reply_bytes(8)[OF len(1-3) refl, of ttl src dst 8 code c rest] good by simp
  obtain n2 where n2: "pbuf_header (Pool e) (int 34) n1 = Some (0, n2)" "view n2 e off 0 ?xs" "only_buf e n1 n2"
    using view_reveal[OF n1(2), of 34] by auto
  obtain n3 where n3: "pbuf_header (Pool e) (- int 34) n2 = Some (0, n3)" "view n3 e off 34 ?xs" "only_buf e n2 n3"
    using view_hide[OF n2(2), of 34] len by auto
  have room: "echo_room H (Pool e) (Some (Pool e, off + 14)) 20 ?st1 = Some (Some (Pool e, Some (Pool e, off + 14)), st\<lparr>lnet := n3\<rparr>)"
    using n2(1) n3(1) by (simp add: echo_room_def)
  let ?st3 = "st\<lparr>lnet := n3\<rparr>"
  obtain n4 where n4: "echo_reply H (Pool e) (Some (Pool e, off + 14)) 20 inp ?st3 =
      Some (st\<lparr>lnet := n4, etharp_cached_entry := i, wire := f # wire st\<rparr>)" "view n4 e off 0 f" "only_buf e n3 n4"
    using echo_reply_view[of ?st3 e off a v ttl ck src dst code c rest D S H inp i f] n3(2) len DS mtu arp f up i
    by (auto simp: ip_interface_def arp_ok_def resolved_def)
  have same: "npools n4 = npools (lnet st)" "nheap n4 = nheap (lnet st)"
    using only_buf_same[OF n1(3)] only_buf_same[OF n2(3)] only_buf_same[OF n3(3)] only_buf_same[OF n4(3)] by simp_all
  let ?st4 = "st\<lparr>lnet := n4, etharp_cached_entry := i, wire := f # wire st\<rparr>"
  obtain n5 where n5: "release (hport H) (Pool e) ?st4 = Some (?st4\<lparr>lnet := n5\<rparr>)"
    "memp_ok sizes (npools n5) (F(MEMP_PBUF_POOL := e # F MEMP_PBUF_POOL))" "nheap n5 = nheap n4"
    using release_view[of ?st4 e off 0 f sizes F "hport H"] n4(2) m same by auto
  have nb: "\<not> ip_addr_ismulticast D" "\<not> ip4_addr_isbroadcast D (nif H inp)" using i DS(3) by (simp_all add: ip_interface_def)
  have "icmp_input H (Pool e) inp st = Some (?st4\<lparr>lnet := n5\<rparr>)"
    unfolding icmp_input_def pay Let_def f1 bind.bind_lunit hl'
    using n1(1) t ty ck room n4(1) n5(1) nb len(4) DS(1) by simp
  then show ?thesis using n5(2,3) same by (intro exI[of _ n5]) simp
qed

section \<open>Fields of the header\<close>

lemma icmp_hdr_fields:
  assumes "length v = 8" "length ck = 2"
  shows "IPH_V (icmp_hdr v ttl ck src dst) = IPH_V v" "IPH_HL (icmp_hdr v ttl ck src dst) = IPH_HL v"
    "IPH_LEN (icmp_hdr v ttl ck src dst) = IPH_LEN v" "IPH_OFFSET (icmp_hdr v ttl ck src dst) = IPH_OFFSET v"
    "IPH_PROTO (icmp_hdr v ttl ck src dst) = 1" "IPH_SRC (icmp_hdr v ttl ck src dst) = src" "IPH_DEST (icmp_hdr v ttl ck src dst) = dst"
proof -
  have b: "icmp_hdr v ttl ck src dst ! j = v ! j" if "j < 8" for j
    using assms that by (simp add: icmp_hdr_def nth_append)
  show "IPH_V (icmp_hdr v ttl ck src dst) = IPH_V v" "IPH_HL (icmp_hdr v ttl ck src dst) = IPH_HL v"
    "IPH_LEN (icmp_hdr v ttl ck src dst) = IPH_LEN v" "IPH_OFFSET (icmp_hdr v ttl ck src dst) = IPH_OFFSET v"
    by (simp_all add: IPH_V_def IPH_HL_def IPH_LEN_def IPH_OFFSET_def ntohs_at_def b)
  show "IPH_PROTO (icmp_hdr v ttl ck src dst) = 1"
    using assms by (simp add: IPH_PROTO_def icmp_hdr_def nth_append)
  show "IPH_DEST (icmp_hdr v ttl ck src dst) = dst"
    using assms ip_of_ip_bytes[of dst "[]"] by (simp add: IPH_DEST_def icmp_hdr_def)
  show "IPH_SRC (icmp_hdr v ttl ck src dst) = src"
    using assms ip_of_ip_bytes[of src "ip_bytes dst"] by (simp add: IPH_SRC_def icmp_hdr_def)
qed

lemma dispatch_icmp:
  assumes "raw_pcbs (ipst st) = None" and "fetch d 9 1 st = Some [1]" and "payload (buf st p) = d"
  shows "ip_dispatch H p inp d st = map_option (set_ipst (\<lambda>s. s\<lparr>current_iphdr_src := IPADDR_ANY, current_iphdr_dest := IPADDR_ANY\<rparr>))
     (icmp_input H p inp st)"
  using assms unfolding ip_dispatch_def raw_input_def
  by (simp add: raw_loop.simps map_conv_bind_option comp_def)

section \<open>From the frame to the protocol\<close>

text \<open>A frame with a whole datagram for this host, with a good header without options and any padding behind it, reaches
  \<open>ip_local\<close> as one buffer that shows the datagram.\<close>

lemma datagram_arrives:
  assumes pool: "memp_ok sizes (npools (lnet st)) F" "all_plain sizes (pb (lnet st))" "F MEMP_PBUF_POOL = e # es"
    and i: "ip_interface (nif H inp)" "neighbour (nif H inp) (IPH_SRC h)" "IPH_DEST h = ip_addr (nif H inp)"
    and len: "length d = 6" "length s = 6" "length h = 20" "34 + length m + length pad \<le> 600"
    and h: "IPH_V h = 4" "IPH_HL h = 5" "IPH_LEN h = 20 + length m" "inet_chksum 0 h = 0"
  shows "\<exists>off n. receive H inp [Some (d @ s @ ETHTYPE_IP @ h @ m @ pad)] st =
       ip_local H (Pool e) inp (set_ipst (at_host h) (st\<lparr>lnet := n\<rparr>)) \<and>
     view n e off 14 ((d @ s @ ETHTYPE_IP) @ h @ m) \<and> memp_ok sizes (npools n) (F(MEMP_PBUF_POOL := es)) \<and> nheap n = nheap (lnet st)"
proof -
  let ?xs = "d @ s @ ETHTYPE_IP @ h @ m @ pad" let ?a = "d @ s @ ETHTYPE_IP"
  let ?pt = "net_port H inp"
  have l: "length ?xs = 34 + length m + length pad" "length ?a = 14" using len by simp_all
  have ty: "take 2 (drop 12 ?xs) = ETHTYPE_IP" using len by simp
  obtain off n1 where 1: "receive_frame ?pt (nif H inp) ?xs st = ip_input H inp (Pool e) (st\<lparr>lnet := n1\<rparr>)" "view n1 e off 14 ?xs"
     "memp_ok sizes (npools n1) (F(MEMP_PBUF_POOL := es))" "nheap n1 = nheap (lnet st)"
    using ip_frame_view[OF pool, of ?xs "nif H inp" ?pt] l ty i(1) len(4) by (auto simp: ip_interface_def net_port_def)
  have hd: "h = take 20 (drop 14 ?xs)" using len by simp
  have "?xs = (?a @ h @ m) @ pad" "14 + IPH_LEN h = length (?a @ h @ m)" using len(1-3) h(3) by simp_all
  then have cut: "take (14 + IPH_LEN h) ?xs = ?a @ h @ m" by (metis append_eq_conv_conj)
  obtain n2 where 2: "ip_input H inp (Pool e) (st\<lparr>lnet := n1\<rparr>) = ip_local H (Pool e) inp (set_ipst (at_host h) (st\<lparr>lnet := n2\<rparr>))"
     "view n2 e off 14 (?a @ h @ m)" "only_buf e n1 n2"
    using ip_input_accepts[of "st\<lparr>lnet := n1\<rparr>" e off ?xs h H inp inp] 1(2) hd l h i(2,3) for_this_interface[OF i(1)]
    unfolding cut by (auto simp: neighbour_def)
  have "ethernetif_input ?pt (nif H inp) [] = Some" by (rule ext) simp
  then have "receive H inp [Some ?xs] st = receive_frame ?pt (nif H inp) ?xs st" using l(1) by (auto simp: receive_def)
  then have "receive H inp [Some ?xs] st = ip_local H (Pool e) inp (set_ipst (at_host h) (st\<lparr>lnet := n2\<rparr>))"
    unfolding 1(1) 2(1) .
  then show ?thesis using 1(3,4) 2(2) only_buf_same[OF 2(3)] by (intro exI[of _ off] exI[of _ n2]) simp
qed

section \<open>A ping\<close>

text \<open>Claim C4: a ping is answered. A frame with an echo request to the board, with good checksums and behind it
  any padding, from a neighbour in the ARP table, makes the board send one frame: to that neighbour,
  the same header with the addresses exchanged and the time to live 255, the same
  message with the type of a reply, without the padding. The header checksum is right, and
  the checksum of the message is right unless all its other bytes are 0 (the adjustment then gives 0 for
  0xffff). The buffer of the request is back in the pool and the heap is as before.\<close>

theorem ping_answered:
  assumes "memp_ok sizes (npools (lnet st)) F" and "all_plain sizes (pb (lnet st))" and "F MEMP_PBUF_POOL = e # es"
    and "ip_interface (nif H inp)" and "arp_ok st" and "resolved st S i" and "neighbour (nif H inp) S"
    and "length (arp_ethaddr (arp_table st ! i)) = 6" and "raw_pcbs (ipst st) = None"
    and "length d = 6" "length s = 6" "length v = 8" "length ck = 2" "4 \<le> length rest" "38 + length rest + length pad \<le> 600"
    and "IPH_V v = 4" "IPH_HL v = 5" "IPH_LEN v = 24 + length rest" "IPH_OFFSET v AND 0x3fff = 0"
    and "mtu (nif H inp) = 1500"
    and "inet_chksum 0 (icmp_hdr v ttl ck S (ip_addr (nif H inp))) = 0" and "inet_chksum 0 (echo_msg 8 code c rest) = 0"
    and "f = echo_frame (arp_ethaddr (arp_table st ! i)) (hwaddr (nif H inp)) (reply_hdr v (ip_addr (nif H inp)) S)
           (echo_msg 0 code (adjust_chksum c) rest)"
    and "link_up (hport H) (wire st)" "send_frame (hport H) (wire st) f"
  shows "(\<exists>n. receive H inp [Some (echo_frame d s (icmp_hdr v ttl ck S (ip_addr (nif H inp))) (echo_msg 8 code c rest) @ pad)] st =
       Some (st\<lparr>lnet := n, etharp_cached_entry := i, wire := f # wire st,
         ipst := (ipst st)\<lparr>current_iphdr_src := IPADDR_ANY, current_iphdr_dest := IPADDR_ANY\<rparr>\<rparr>) \<and>
       memp_ok sizes (npools n) F \<and> nheap n = nheap (lnet st)) \<and>
     (\<forall>a. inet_chksum a (reply_hdr v (ip_addr (nif H inp)) S) = 0) \<and>
     (\<forall>a. inet_chksum a (echo_msg 0 code (adjust_chksum c) rest) = 0 \<longleftrightarrow> code \<noteq> 0 \<or> (\<exists>x \<in> set rest. x \<noteq> 0))"
proof (intro conjI allI)
  let ?D = "ip_addr (nif H inp)" let ?h = "icmp_hdr v ttl ck S ?D" let ?m = "echo_msg 8 code c rest"
  let ?xs = "echo_frame d s ?h ?m @ pad" let ?a = "d @ s @ ETHTYPE_IP"
  have len: "length ?a = 14" using assms(10,11) by simp
  note fields = icmp_hdr_fields[OF assms(12,13)]
  obtain off n2 where 2: "receive H inp [Some ?xs] st = ip_local H (Pool e) inp (set_ipst (at_host ?h) (st\<lparr>lnet := n2\<rparr>))"
     "view n2 e off 14 (?a @ ?h @ ?m)" "memp_ok sizes (npools n2) (F(MEMP_PBUF_POOL := es))" "nheap n2 = nheap (lnet st)"
    using datagram_arrives[OF assms(1-4), of ?h d s ?m pad] assms(7,10-13,15-18,21) by (auto simp: fields echo_frame_def)
  define st2 where "st2 = set_ipst (at_host ?h) (st\<lparr>lnet := n2\<rparr>)"
  have st2: "lnet st2 = n2" "wire st2 = wire st" "arp_table st2 = arp_table st" "etharp_cached_entry st2 = etharp_cached_entry st"
    "raw_pcbs (ipst st2) = None" "current_iphdr_dest (ipst st2) = ?D" "current_iphdr_src (ipst st2) = S"
    using assms(9) by (simp_all add: st2_def set_ipst_def at_host_def fields)
  have pay: "payload (buf st2 (Pool e)) = Some (Pool e, off + 14)" using view_sel(1)[OF 2(2)] by (simp add: buf_def st2)
  have hd: "fetch (Some (Pool e, off + 14)) 0 20 st2 = Some ?h" "fetch (Some (Pool e, off + 14)) 9 1 st2 = Some [1]"
    using fetch_view[of st2 e off 14 "?a @ ?h @ ?m" 14 0 20] fetch_view[of st2 e off 14 "?a @ ?h @ ?m" 14 9 1] 2(2) assms(12,13) len
    by (simp_all add: st2 icmp_hdr_def)
  obtain n3 where 3: "icmp_input H (Pool e) inp st2 = Some (st2\<lparr>lnet := n3, etharp_cached_entry := i, wire := f # wire st2\<rparr>)"
     "memp_ok sizes (npools n3) (F(MEMP_PBUF_POOL := es, MEMP_PBUF_POOL := e # (F(MEMP_PBUF_POOL := es)) MEMP_PBUF_POOL))" "nheap n3 = nheap n2"
    using icmp_echo_view[of st2 e off ?a v ttl ck S ?D code c rest ?D S H inp i f sizes "F(MEMP_PBUF_POOL := es)"]
      2(2,3) len assms free_elem[OF assms(1,3)]
    by (auto simp: st2 arp_ok_def resolved_def)
  have F: "F(MEMP_PBUF_POOL := es, MEMP_PBUF_POOL := e # (F(MEMP_PBUF_POOL := es)) MEMP_PBUF_POOL) = F" using assms(3) by auto
  have "ip_local H (Pool e) inp st2 = map_option (set_ipst (\<lambda>s. s\<lparr>current_iphdr_src := IPADDR_ANY, current_iphdr_dest := IPADDR_ANY\<rparr>))
      (icmp_input H (Pool e) inp st2)"
    using dispatch_icmp[OF st2(5) hd(2) pay] hd(1) pay assms(19) by (simp add: ip_local_def fields)
  also have "\<dots> = Some (st\<lparr>lnet := n3, etharp_cached_entry := i, wire := f # wire st,
         ipst := (ipst st)\<lparr>current_iphdr_src := IPADDR_ANY, current_iphdr_dest := IPADDR_ANY\<rparr>\<rparr>)"
    unfolding 3(1) by (simp add: st2_def set_ipst_def at_host_def)
  finally have "receive H inp [Some ?xs] st = Some (st\<lparr>lnet := n3, etharp_cached_entry := i, wire := f # wire st,
         ipst := (ipst st)\<lparr>current_iphdr_src := IPADDR_ANY, current_iphdr_dest := IPADDR_ANY\<rparr>\<rparr>)"
    using 2(1) by (simp add: st2_def[symmetric])
  then show "\<exists>n. receive H inp [Some ?xs] st = Some (st\<lparr>lnet := n, etharp_cached_entry := i, wire := f # wire st,
         ipst := (ipst st)\<lparr>current_iphdr_src := IPADDR_ANY, current_iphdr_dest := IPADDR_ANY\<rparr>\<rparr>) \<and>
       memp_ok sizes (npools n) F \<and> nheap n = nheap (lnet st)"
    using 3(2,3) 2(4) F by auto
next
  fix a
  show "inet_chksum a (reply_hdr v (ip_addr (nif H inp)) S) = 0" by (rule reply_hdr_verifies[OF assms(12)])
  show "(inet_chksum a (echo_msg 0 code (adjust_chksum c) rest) = 0) = (code \<noteq> 0 \<or> (\<exists>x \<in> set rest. x \<noteq> 0))"
    using adjusted_verifies[of 0 code c rest a] assms(15,22) by (simp add: echo_msg_def)
qed

end
