(* ===== verification/IpWitnesses.thy ===== *)
theory IpWitnesses
  imports IpEcho EtharpWitnesses
begin

text \<open>
  The properties of the network layer at the board 192.168.1.10 with one interface and no callbacks.
\<close>

unbundle bit_operations_syntax

definition ex_host :: host where
  "ex_host = \<lparr>hport = ex_port, netifs = [ex_nif], netif_default = Some 0, block_addr = (\<lambda>_. 0),
     tcp_handler = (\<lambda>_ _ st. Some st), udp_recv_fn = (\<lambda>_ _ _ _ _ _ st. Some st), raw_recv_fn = (\<lambda>_ _ _ _ _ st. Some (0, st))\<rparr>"

lemma ex_host_sel [simp]: "hport ex_host = ex_port" "nif ex_host 0 = ex_nif"
  by (simp_all add: ex_host_def nif_def)

lemma ex_ip_sel [simp]: "ipst (ex_lan h tab) = ex_ip_state" "raw_pcbs ex_ip_state = None" "reassdatagrams ex_ip_state = None"
  "ip_reass_pbufcount ex_ip_state = 0"
  by (simp_all add: ex_lan_def ex_ip_state_def)

lemma ex_interface: "ip_interface ex_nif" "neighbour ex_nif 0x0701a8c0"
  by (simp_all add: ip_interface_def neighbour_def netif_is_up_def ip_addr_ismulticast_def ip4_addr_isbroadcast_def
      ip_addr_netcmp_def lwip_htonl_def)

text \<open>The table knows the neighbour 192.168.1.7.\<close>

definition ex_table :: "etharp_entry list" where
  "ex_table = learned 0x0701a8c0 [9, 9, 9, 9, 9, 9] # replicate 9 empty_entry"

lemma ex_table_known: "arp_ok (ex_lan h ex_table)" "resolved (ex_lan h ex_table) 0x0701a8c0 0"
  "arp_ethaddr (ex_table ! 0) = [9, 9, 9, 9, 9, 9]"
proof -
  have len: "length ex_table = 10" by (simp add: ex_table_def)
  have nth: "ex_table ! i = (if i = 0 then learned 0x0701a8c0 [9, 9, 9, 9, 9, 9] else empty_entry)" if "i < 10" for i
    using that by (cases i) (simp_all add: ex_table_def)
  show "arp_ok (ex_lan h ex_table)" by (auto simp: arp_ok_def table_ok_def nth len split: if_splits)
  show "resolved (ex_lan h ex_table) 0x0701a8c0 0" by (simp add: resolved_def nth learned_def is_stable_def)
  show "arp_ethaddr (ex_table ! 0) = [9, 9, 9, 9, 9, 9]" by (simp add: nth learned_def)
qed

lemma ip_bytes_ex: "ip_bytes 0x0701a8c0 = [0xc0, 0xa8, 1, 7]" "ip_bytes 0x0a01a8c0 = [0xc0, 0xa8, 1, 10]"
  by (simp_all add: ip_bytes_def)

text \<open>The neighbour pings with 4 bytes behind the checksum, padded to the shortest Ethernet frame.\<close>

definition ping_hdr :: "u8 list" where
  "ping_hdr = [0x45, 0, 0, 28, 0, 1, 0, 0, 64, 1, 0xf7, 0x7e, 0xc0, 0xa8, 1, 7, 0xc0, 0xa8, 1, 10]"

lemma ping_hdr_eq: "icmp_hdr [0x45, 0, 0, 28, 0, 1, 0, 0] 64 [0xf7, 0x7e] 0x0701a8c0 0x0a01a8c0 = ping_hdr"
  by (simp add: icmp_hdr_def ip_bytes_ex ping_hdr_def)

lemma reply_hdr_eq: "reply_hdr [0x45, 0, 0, 28, 0, 1, 0, 0] 0x0a01a8c0 0x0701a8c0 =
   [0x45, 0, 0, 28, 0, 1, 0, 0, 255, 1, 0x38, 0x7e, 0xc0, 0xa8, 1, 10, 0xc0, 0xa8, 1, 7]"
proof -
  have "inet_chksum 0 [0x45, 0, 0, 28, 0, 1, 0, 0, 255, 1, 0, 0, 0xc0, 0xa8, 1, 10, 0xc0, 0xa8, 1, 7] = 0x7e38"
    by (simp add: word_unat_eq_iff inet_chksum_nat ones_def)
  then show ?thesis by (simp add: reply_hdr_def icmp_hdr_def ip_bytes_ex mem16_def)
qed

theorem ping_answered_witness:
  "\<forall>h. \<exists>st'. receive ex_host 0
       [Some ([2, 0, 0, 0, 0, 1] @ [9, 9, 9, 9, 9, 9] @ ETHTYPE_IP @ ping_hdr @ [8, 0, 0xf7, 0xf7, 0, 1, 0, 7] @ replicate 18 0)]
       (ex_lan h ex_table) = Some st' \<and>
     wire st' = [[9, 9, 9, 9, 9, 9] @ [2, 0, 0, 0, 0, 1] @ ETHTYPE_IP @
       [0x45, 0, 0, 28, 0, 1, 0, 0, 255, 1, 0x38, 0x7e, 0xc0, 0xa8, 1, 10, 0xc0, 0xa8, 1, 7] @ [0, 0, 0xff, 0xf7, 0, 1, 0, 7]]"
proof
  fix h
  obtain e es where F: "rev (elems (\<lambda>_. 616) MEMP_PBUF_POOL) = e # es" using ex_pool by blast
  let ?v = "[0x45, 0, 0, 28, 0, 1, 0, 0] :: u8 list"
  have v: "IPH_V ?v = 4" "IPH_HL ?v = 5" "IPH_LEN ?v = 24 + length ([0, 1, 0, 7] :: u8 list)" "IPH_OFFSET ?v AND 0x3fff = 0"
    by (simp_all add: IPH_V_def IPH_HL_def IPH_LEN_def IPH_OFFSET_def ntohs_at_def)
  have m: "echo_msg 8 0 0xf7f7 [0, 1, 0, 7] = [8, 0, 0xf7, 0xf7, 0, 1, 0, 7]"
    "echo_msg 0 0 (adjust_chksum 0xf7f7) [0, 1, 0, 7] = [0, 0, 0xff, 0xf7, 0, 1, 0, 7]"
    by (simp_all add: echo_msg_def mem16_def adjust_chksum_def lwip_htons_def)
  have c: "inet_chksum 0 ping_hdr = 0" "inet_chksum 0 [8, 0, 0xf7, 0xf7, 0, 1, 0, 7] = 0"
    by (simp_all add: inet_chksum_zero ping_hdr_def)
  let ?f = "echo_frame [9, 9, 9, 9, 9, 9] [2, 0, 0, 0, 0, 1] (reply_hdr ?v 0x0a01a8c0 0x0701a8c0) (echo_msg 0 0 (adjust_chksum 0xf7f7) [0, 1, 0, 7])"
  have "\<exists>n. receive ex_host 0 [Some (echo_frame [2, 0, 0, 0, 0, 1] [9, 9, 9, 9, 9, 9] ping_hdr (echo_msg 8 0 0xf7f7 [0, 1, 0, 7]) @ replicate 18 0)]
      (ex_lan h ex_table) = Some ((ex_lan h ex_table)\<lparr>lnet := n, etharp_cached_entry := 0, wire := ?f # wire (ex_lan h ex_table),
         ipst := (ipst (ex_lan h ex_table))\<lparr>current_iphdr_src := IPADDR_ANY, current_iphdr_dest := IPADDR_ANY\<rparr>\<rparr>)"
    using ping_answered[of "\<lambda>_. 616" "ex_lan h ex_table" "\<lambda>t. rev (elems (\<lambda>_. 616) t)" e es ex_host 0 "0x0701a8c0" 0
        "[2, 0, 0, 0, 0, 1]" "[9, 9, 9, 9, 9, 9]" ?v "[0xf7, 0x7e]" "[0, 1, 0, 7]" "replicate 18 0" 64 0 "0xf7f7" ?f]
      ex_net_ok[of h] F ex_interface ex_table_known(1,2)[of h] ex_table_known(3) v m c
    unfolding ping_hdr_eq by (simp add: ping_hdr_eq) blast
  then show "\<exists>st'. receive ex_host 0
       [Some ([2, 0, 0, 0, 0, 1] @ [9, 9, 9, 9, 9, 9] @ ETHTYPE_IP @ ping_hdr @ [8, 0, 0xf7, 0xf7, 0, 1, 0, 7] @ replicate 18 0)]
       (ex_lan h ex_table) = Some st' \<and>
     wire st' = [[9, 9, 9, 9, 9, 9] @ [2, 0, 0, 0, 0, 1] @ ETHTYPE_IP @
       [0x45, 0, 0, 28, 0, 1, 0, 0, 255, 1, 0x38, 0x7e, 0xc0, 0xa8, 1, 10, 0xc0, 0xa8, 1, 7] @ [0, 0, 0xff, 0xf7, 0, 1, 0, 7]]"
    by (auto simp: echo_frame_def m reply_hdr_eq)
qed

end
