(* ===== verification/ReassProps.thy ===== *)
theory ReassProps
  imports IpEcho
begin

text \<open>
  Reassembly, on the list of the fragments that wait: a fragment is its buffer and the range
  of the datagram it covers. The linked structure in the headers of the fragments implements an
  algorithm on that list.
\<close>

unbundle bit_operations_syntax

section \<open>The algorithm\<close>

type_synonym frag = "nat \<times> nat \<times> nat"

text \<open>How many fragments a new one comes behind and whether the list is still without holes; \<open>None\<close> if it is thrown away.\<close>

fun place_list :: "nat \<Rightarrow> nat \<Rightarrow> frag option \<Rightarrow> bool \<Rightarrow> frag list \<Rightarrow> (nat \<times> bool) option" where
  "place_list s f prev valid [] = Some (0, valid)"
| "place_list s f prev valid ((q, qs, qe) # frs) =
     (if s < qs then
        (case prev of Some (_, _, pe) \<Rightarrow> if s < pe \<or> qs < f then None else Some (0, valid) | None \<Rightarrow> Some (0, valid))
      else if s = qs \<or> s < qe then None
      else map_option (\<lambda>(k, v). (Suc k, v))
        (place_list s f (Some (q, qs, qe)) (valid \<and> (case prev of Some (_, _, pe) \<Rightarrow> pe = qs | None \<Rightarrow> True)) frs))"

definition insert_frag :: "nat \<Rightarrow> frag \<Rightarrow> frag list \<Rightarrow> frag list" where
  "insert_frag k x frs = take k frs @ x # drop k frs"

fun joined_up :: "frag list \<Rightarrow> bool" where
  "joined_up ((q, qs, qe) # (r, rs, re) # frs) = (qe = rs \<and> joined_up ((r, rs, re) # frs))"
| "joined_up _ = True"

definition starts_at_0 :: "frag list \<Rightarrow> bool" where
  "starts_at_0 frs = (case frs of [] \<Rightarrow> False | (q, qs, qe) # _ \<Rightarrow> qs = 0)"

lemma place_list_le: "place_list s f prev valid frs = Some (k, v) \<Longrightarrow> k \<le> length frs"
  by (induction s f prev valid frs arbitrary: k v rule: place_list.induct) (auto split: if_splits option.splits prod.splits)

section \<open>The list in memory\<close>

fun frags :: "(loc \<Rightarrow> reass_helper) \<Rightarrow> loc option \<Rightarrow> frag list \<Rightarrow> bool" where
  "frags hs po [] = (po = None)"
| "frags hs po ((q, qs, qe) # frs) =
     (po = Some (Pool q) \<and> h_start (hs (Pool q)) = qs \<and> h_end (hs (Pool q)) = qe \<and> frags hs (next_pbuf (hs (Pool q))) frs)"

lemma frags_same: "frags hs po frs \<Longrightarrow> \<forall>q \<in> fst ` set frs. hs' (Pool q) = hs (Pool q) \<Longrightarrow> frags hs' po frs"
  by (induction hs po frs rule: frags.induct) auto

lemma frags_cases: "frags hs po frs \<Longrightarrow> po = (case frs of [] \<Rightarrow> None | (q, _) # _ \<Rightarrow> Some (Pool q))"
  by (cases frs) auto

text \<open>Where the fragment goes in memory.\<close>

definition place_of :: "nat \<Rightarrow> frag option \<Rightarrow> frag list \<Rightarrow> loc option \<times> loc option" where
  "place_of k prev frs =
     (case k of 0 \<Rightarrow> map_option (Pool \<circ> fst) prev | Suc j \<Rightarrow> Some (Pool (fst (frs ! j))),
      if k < length frs then Some (Pool (fst (frs ! k))) else None)"

lemma place_frag_list:
  assumes "frags (reass_helpers (ipst st)) po frs"
    and "\<forall>q qs qe. prev = Some (q, qs, qe) \<longrightarrow> h_end (reass_helpers (ipst st) (Pool q)) = qe"
  shows "place_frag s f po (map_option (Pool \<circ> fst) prev) valid st =
     Some (case place_list s f prev valid frs of None \<Rightarrow> FreePbuf
           | Some (k, v) \<Rightarrow> Insert (fst (place_of k prev frs)) (snd (place_of k prev frs)) v)"
  using assms
proof (induction s f prev valid frs arbitrary: po rule: place_list.induct)
  case (1 s f prev valid)
  then show ?case by (cases prev) (auto simp: place_frag.simps place_of_def)
next
  case (2 s f prev valid q qs qe frs)
  have po: "po = Some (Pool q)" "h_start (helper_at st (Pool q)) = qs" "h_end (helper_at st (Pool q)) = qe"
    "frags (reass_helpers (ipst st)) (next_pbuf (helper_at st (Pool q))) frs"
    using 2(2) by (auto simp: helper_at_def)
  have pe: "h_end (helper_at st (Pool a)) = c" if "prev = Some (a, b, c)" for a b c
    using 2(3) that by (simp add: helper_at_def)
  note unfold = place_frag.simps[of s f po "map_option (Pool \<circ> fst) prev" valid st]
  consider "s < qs" | "s = qs \<or> \<not> s < qs \<and> s < qe" | "qs < s" "\<not> s < qe" by linarith
  then show ?case
  proof cases
    case 1
    then show ?thesis unfolding unfold using po pe by (cases prev) (auto simp: place_of_def Let_def)
  next
    case 2
    then show ?thesis unfolding unfold using po by (auto simp: Let_def)
  next
    case 3
    let ?valid = "valid \<and> (case prev of Some (_, _, pe) \<Rightarrow> pe = qs | None \<Rightarrow> True)"
    have eq: "place_frag s f po (map_option (Pool \<circ> fst) prev) valid st =
        place_frag s f (next_pbuf (helper_at st (Pool q))) (map_option (Pool \<circ> fst) (Some (q, qs, qe))) ?valid st"
      unfolding unfold using 3 po pe by (cases prev) (auto simp: Let_def)
    have IH: "place_frag s f (next_pbuf (helper_at st (Pool q))) (map_option (Pool \<circ> fst) (Some (q, qs, qe))) ?valid st =
        Some (case place_list s f (Some (q, qs, qe)) ?valid frs of None \<Rightarrow> FreePbuf
           | Some (k, v) \<Rightarrow> Insert (fst (place_of k (Some (q, qs, qe)) frs)) (snd (place_of k (Some (q, qs, qe)) frs)) v)"
      using 3 po by (intro 2(1)) (auto simp: helper_at_def)
    have step: "place_of (Suc k) prev ((q, qs, qe) # frs) = place_of k (Some (q, qs, qe)) frs" for k
      by (cases k) (auto simp: place_of_def)
    show ?thesis unfolding eq IH using 3 by (auto simp: step split: option.splits)
  qed
qed

section \<open>Insertion\<close>

definition next_after :: "nat \<Rightarrow> frag list \<Rightarrow> loc option" where
  "next_after k frs = (if k < length frs then Some (Pool (fst (frs ! k))) else None)"

definition with_new :: "(loc \<Rightarrow> reass_helper) \<Rightarrow> nat \<Rightarrow> frag \<Rightarrow> frag list \<Rightarrow> loc \<Rightarrow> reass_helper" where
  "with_new hs k x frs =
     (let hs1 = hs(Pool (fst x) := \<lparr>next_pbuf = next_after k frs, h_start = fst (snd x), h_end = snd (snd x)\<rparr>)
      in case k of 0 \<Rightarrow> hs1
         | Suc j \<Rightarrow> hs1(Pool (fst (frs ! j)) := (hs1 (Pool (fst (frs ! j))))\<lparr>next_pbuf := Some (Pool (fst x))\<rparr>))"

lemma frags_with_new:
  "frags hs po frs \<Longrightarrow> k \<le> length frs \<Longrightarrow> distinct (fst x # map fst frs) \<Longrightarrow>
   frags (with_new hs k x frs) (if k = 0 then Some (Pool (fst x)) else po) (insert_frag k x frs)"
proof (induction frs arbitrary: k po)
  case Nil
  then show ?case by (cases x) (simp add: insert_frag_def with_new_def next_after_def)
next
  case (Cons y frs)
  obtain q qs qe where y: "y = (q, qs, qe)" by (cases y)
  obtain e s f where x: "x = (e, s, f)" by (cases x)
  have po: "po = Some (Pool q)" "h_start (hs (Pool q)) = qs" "h_end (hs (Pool q)) = qe" "frags hs (next_pbuf (hs (Pool q))) frs"
    using Cons.prems(1) y by auto
  have d: "q \<noteq> e" "q \<notin> fst ` set frs" "e \<notin> fst ` set frs" "distinct (map fst frs)" using Cons.prems(3) x y by auto
  have d': "(q, a, b) \<notin> set frs" "(e, a, b) \<notin> set frs" for a b using d(2,3) by force+
  consider "k = 0" | "k = 1" | j where "k = Suc (Suc j)" by (metis One_nat_def not0_implies_Suc)
  then show ?case
  proof cases
    case 1
    have po_all: "frags hs (Some (Pool q)) (y # frs)" using Cons.prems(1) po(1) by simp
    have "frags (with_new hs 0 x (y # frs)) (Some (Pool q)) (y # frs)"
      using Cons.prems(1) po(1) d x y by (rule_tac frags_same[OF po_all]) (auto simp: with_new_def)
    then show ?thesis using 1 d by (simp add: insert_frag_def x y with_new_def next_after_def fun_upd_def)
  next
    case 2
    have "frags (with_new hs 1 x (y # frs)) (next_pbuf (hs (Pool q))) frs"
      using d x y by (rule_tac frags_same[OF po(4)]) (auto simp: with_new_def)
    moreover have "next_after 1 (y # frs) = next_pbuf (hs (Pool q))"
      using frags_cases[OF po(4)] by (cases frs) (auto simp: next_after_def)
    ultimately show ?thesis using 2 d po(1-3) by (auto simp: insert_frag_def x y with_new_def d' intro!: frags_same[OF po(4)])
  next
    case 3
    have "with_new hs k x (y # frs) = with_new hs (Suc j) x frs" using 3 by (simp add: with_new_def next_after_def)
    moreover have "frags (with_new hs (Suc j) x frs) (next_pbuf (hs (Pool q))) (insert_frag (Suc j) x frs)"
      using Cons.IH[OF po(4), of "Suc j"] Cons.prems(2,3) 3 y by simp
    moreover have "frs ! j \<in> set frs" using Cons.prems(2) 3 by simp
    then have "fst (frs ! j) \<noteq> q" using d(2) by force
    then have "with_new hs (Suc j) x frs (Pool q) = hs (Pool q)" using d x by (simp add: with_new_def)
    ultimately show ?thesis using 3 po by (simp add: insert_frag_def y)
  qed
qed

lemma place_list_behind:
  "place_list s f prev valid frs = Some (k, v) \<Longrightarrow> k = length frs \<Longrightarrow> frs \<noteq> [] \<Longrightarrow> snd (snd (last frs)) \<le> s"
  by (induction s f prev valid frs arbitrary: k v rule: place_list.induct) (auto split: if_splits option.splits)

section \<open>Buffers that hold fragments\<close>

text \<open>Buffer \<open>e\<close> is a received packet with an IP header of 20 bytes in front of data \<open>d\<close>.\<close>

definition holds_data :: "net \<Rightarrow> nat \<Rightarrow> u8 list \<Rightarrow> bool" where
  "holds_data n e d = (\<exists>off x. view n e off 14 x \<and> 34 \<le> length x \<and> d = drop 34 x)"

text \<open>Only buffers of \<open>S\<close> differ, and none lost its data.\<close>

definition untouched :: "nat set \<Rightarrow> net \<Rightarrow> net \<Rightarrow> bool" where
  "untouched S n n' = (\<forall>q. q \<notin> S \<longrightarrow> pb n' (Pool q) = pb n (Pool q) \<and> bytes n' (Pool q) = bytes n (Pool q))"

definition same_data :: "nat set \<Rightarrow> net \<Rightarrow> net \<Rightarrow> bool" where
  "same_data S n n' = (npools n' = npools n \<and> nheap n' = nheap n \<and> (\<forall>e d. holds_data n e d \<longrightarrow> holds_data n' e d) \<and> untouched S n n')"

lemma untouched_refl [simp]: "untouched S n n"
  by (simp add: untouched_def)

lemma untouched_trans: "untouched S a b \<Longrightarrow> untouched S b c \<Longrightarrow> untouched S a c"
  by (simp add: untouched_def)

lemma untouched_mono: "untouched S a b \<Longrightarrow> S \<subseteq> T \<Longrightarrow> untouched T a b"
  by (auto simp: untouched_def)

lemma same_data_refl [simp]: "same_data S n n"
  by (simp add: same_data_def)

lemma same_data_trans: "same_data S a b \<Longrightarrow> same_data S b c \<Longrightarrow> same_data S a c"
  by (auto simp: same_data_def intro: untouched_trans)

lemma same_data_mono: "same_data S a b \<Longrightarrow> S \<subseteq> T \<Longrightarrow> same_data T a b"
  by (auto simp: same_data_def intro: untouched_mono)

lemma view_other: "only_buf e n n' \<Longrightarrow> q \<noteq> e \<Longrightarrow> view n' q off k x = view n q off k x"
  by (simp add: only_buf_def view_def pool_buf_def)

lemma holds_unique: "holds_data n e d \<Longrightarrow> holds_data n e d' \<Longrightarrow> d = d'"
proof -
  have "d = drop 20 (buf_data n (Pool e))" if "holds_data n e d" for d
    using that view_data[of n e _ 14] by (auto simp: holds_data_def)
  then show "holds_data n e d \<Longrightarrow> holds_data n e d' \<Longrightarrow> d = d'" by metis
qed

lemma only_buf_same_data:
  assumes "only_buf e n n'" and "holds_data n e d" and "holds_data n' e d"
  shows "same_data {e} n n'"
proof -
  have "holds_data n' q x" if "holds_data n q x" for q x
  proof (cases "q = e")
    case True
    then show ?thesis using assms(3) holds_unique[OF assms(2), of x] that by simp
  next
    case False
    then show ?thesis using that by (simp add: holds_data_def view_other[OF assms(1)])
  qed
  moreover have "untouched {e} n n'" using assms(1) by (simp add: untouched_def only_buf_def)
  ultimately show ?thesis using assms(1) by (simp add: same_data_def only_buf_same)
qed

lemma store_header:
  assumes h: "holds_data (lnet st) e d" and l: "length ys \<le> 20"
  shows "\<exists>n'. store (payload (buf st (Pool e))) [(0, ys)] st = Some (st\<lparr>lnet := n'\<rparr>) \<and> holds_data n' e d \<and> same_data {e} (lnet st) n'"
proof -
  obtain off x where v: "view (lnet st) e off 14 x" "34 \<le> length x" "d = drop 34 x" using h by (auto simp: holds_data_def)
  obtain n' where n': "store (Some (Pool e, off + int 14)) [(0, ys)] st = Some (st\<lparr>lnet := n'\<rparr>)" "view n' e off 14 (blit 14 ys x)"
    "only_buf e (lnet st) n'"
    using store_view[OF v(1), of "[(0, ys)]" 14] v(2) l by auto
  have "drop 34 (blit 14 ys x) = d" using v(2,3) l by (simp add: blit_def)
  then have "holds_data n' e d" using n'(2) v(2) l by (auto simp: holds_data_def intro!: exI[of _ off] exI[of _ "blit 14 ys x"])
  then show ?thesis using n'(1) only_buf_same_data[OF n'(3) h] view_sel(1)[OF v(1)] by (auto simp: buf_def)
qed

section \<open>Helpers\<close>

lemma set_ipst_sel [simp]:
  "lnet (set_ipst f st) = lnet st" "ipst (set_ipst f st) = f (ipst st)" "wire (set_ipst f st) = wire st"
  "arp_table (set_ipst f st) = arp_table st" "etharp_cached_entry (set_ipst f st) = etharp_cached_entry st"
  "buf (set_ipst f st) p = buf st p"
  by (simp_all add: set_ipst_def buf_def)

lemma set_ipst_twice: "set_ipst f (set_ipst g st) = set_ipst (\<lambda>s. f (g s)) st"
  by (simp add: set_ipst_def)

lemma set_ipst_lnet: "(set_ipst f st)\<lparr>lnet := n\<rparr> = set_ipst f (st\<lparr>lnet := n\<rparr>)"
  by (simp add: set_ipst_def)

lemma helper_bytes_length: "length (helper_bytes H h) = 8"
  by (simp add: helper_bytes_def)

text \<open>A state in which datagram \<open>r\<close> waits alone: the network, its entry, the helpers and the count of buffers.\<close>

definition rst :: "lan \<Rightarrow> nat \<Rightarrow> net \<Rightarrow> ip_reassdata \<Rightarrow> (loc \<Rightarrow> reass_helper) \<Rightarrow> nat \<Rightarrow> lan" where
  "rst st r n d hs c = st\<lparr>lnet := n, ipst := (ipst st)\<lparr>reassdatagrams := Some r, reass := (reass (ipst st))(r := d),
     reass_helpers := hs, ip_reass_pbufcount := c\<rparr>\<rparr>"

lemma rst_sel [simp]:
  "lnet (rst st r n d hs c) = n" "reass_at (rst st r n d hs c) r = d" "reass_helpers (ipst (rst st r n d hs c)) = hs"
  "helper_at (rst st r n d hs c) p = hs p" "ip_reass_pbufcount (ipst (rst st r n d hs c)) = c"
  "reassdatagrams (ipst (rst st r n d hs c)) = Some r" "buf (rst st r n d hs c) p = pb n p"
  by (simp_all add: rst_def reass_at_def helper_at_def buf_def)

lemma rst_upd [simp]:
  "(rst st r n d hs c)\<lparr>lnet := n'\<rparr> = rst st r n' d hs c"
  "set_reass r g (rst st r n d hs c) = rst st r n (g d) hs c"
  "set_ipst (\<lambda>s. s\<lparr>ip_reass_pbufcount := trunc16 (ip_reass_pbufcount s + k)\<rparr>) (rst st r n d hs c) = rst st r n d hs (trunc16 (c + k))"
  "set_ipst (\<lambda>s. s\<lparr>ip_reass_pbufcount := nat ((int (ip_reass_pbufcount s) - int k) mod 65536)\<rparr>) (rst st r n d hs c) =
     rst st r n d hs (nat ((int c - int k) mod 65536))"
  "set_ipst (\<lambda>s. s\<lparr>reass_helpers := (reass_helpers s)(p := h)\<rparr>) (rst st r n d hs c) = rst st r n d (hs(p := h)) c"
  by (simp_all add: rst_def set_reass_def set_ipst_def)

lemma rst_same: "reassdatagrams (ipst st) = Some r \<Longrightarrow>
   rst st r (lnet st) (reass_at st r) (reass_helpers (ipst st)) (ip_reass_pbufcount (ipst st)) = st"
  by (simp add: rst_def reass_at_def)

lemma put_helper_spec:
  assumes "holds_data n e d"
  shows "\<exists>n'. put_helper H (Pool e) h (rst st r n x hs c) = Some (rst st r n' x (hs(Pool e := h)) c) \<and> same_data {e} n n'"
  using store_header[of "rst st r n x hs c" e d "helper_bytes H h"] assms
  by (auto simp: put_helper_def helper_bytes_length)

section \<open>Linking\<close>

lemma with_new_id: "hs (Pool (fst x)) = \<lparr>next_pbuf = None, h_start = fst (snd x), h_end = snd (snd x)\<rparr> \<Longrightarrow> length frs \<le> k \<Longrightarrow>
   with_new hs k x frs = (case k of 0 \<Rightarrow> hs | Suc j \<Rightarrow> hs(Pool (fst (frs ! j)) := (hs (Pool (fst (frs ! j))))\<lparr>next_pbuf := Some (Pool (fst x))\<rparr>))"
  by (auto simp: with_new_def next_after_def fun_eq_iff split: nat.splits)

lemma frags_end: "frags hs po frs \<Longrightarrow> j < length frs \<Longrightarrow> h_start (hs (Pool (fst (frs ! j)))) = fst (snd (frs ! j)) \<and>
   h_end (hs (Pool (fst (frs ! j)))) = snd (snd (frs ! j))"
  by (induction hs po frs arbitrary: j rule: frags.induct) (auto simp: nth_Cons split: nat.splits)

lemma link_frag_spec:
  assumes fr: "frags hs (r_p d) frs" and dis: "distinct (e # map fst frs)" and k: "k \<le> length frs"
    and new: "hs (Pool e) = \<lparr>next_pbuf = None, h_start = s, h_end = f\<rparr>"
    and hold: "\<forall>q \<in> insert e (fst ` set frs). \<exists>x. holds_data n q x"
    and behind: "k = length frs \<Longrightarrow> frs \<noteq> [] \<Longrightarrow> snd (snd (last frs)) \<le> s"
  shows "\<exists>n'. link_frag H r (Pool e) (fst (place_of k None frs)) (snd (place_of k None frs)) (rst st r n d hs c) =
      Some (rst st r n' (if k = 0 then d\<lparr>r_p := Some (Pool e)\<rparr> else d) (with_new hs k (e, s, f) frs) c) \<and> same_data (insert e (fst ` set frs)) n n'"
proof -
  let ?S = "insert e (fst ` set frs)"
  define hs1 where "hs1 = hs(Pool e := \<lparr>next_pbuf = next_after k frs, h_start = s, h_end = f\<rparr>)"
  have "\<exists>n1. (case snd (place_of k None frs) of None \<Rightarrow> Some (rst st r n d hs c)
      | Some _ \<Rightarrow> put_helper H (Pool e) ((helper_at (rst st r n d hs c) (Pool e))\<lparr>next_pbuf := snd (place_of k None frs)\<rparr>) (rst st r n d hs c))
      = Some (rst st r n1 d hs1 c) \<and> same_data ?S n n1"
  proof (cases "k < length frs")
    case True
    obtain x where "holds_data n e x" using hold by auto
    from put_helper_spec[OF this, of H "(hs (Pool e))\<lparr>next_pbuf := next_after k frs\<rparr>" st r d hs c] True new show ?thesis
      using same_data_mono[of "{e}" n _ ?S] by (auto simp: place_of_def next_after_def hs1_def)
  next
    case False
    then have "hs1 = hs" using new by (auto simp: hs1_def next_after_def)
    then show ?thesis using False by (auto simp: place_of_def)
  qed
  then obtain n1 where 1: "(case snd (place_of k None frs) of None \<Rightarrow> Some (rst st r n d hs c)
      | Some _ \<Rightarrow> put_helper H (Pool e) ((helper_at (rst st r n d hs c) (Pool e))\<lparr>next_pbuf := snd (place_of k None frs)\<rparr>) (rst st r n d hs c))
      = Some (rst st r n1 d hs1 c)" "same_data ?S n n1" by blast
  show ?thesis
  proof (cases k)
    case 0
    have "with_new hs k (e, s, f) frs = hs1" using 0 by (simp add: with_new_def hs1_def)
    moreover have "snd (place_of k None frs) \<noteq> None \<or> r_p d = None" using 0 fr by (cases frs) (auto simp: place_of_def)
    ultimately show ?thesis unfolding link_frag_def 1(1) using 1(2) 0 by (auto simp: place_of_def lwip_assert_def)
  next
    case (Suc j)
    let ?b = "Pool (fst (frs ! j))"
    have mem: "frs ! j \<in> set frs" using Suc k by simp
    obtain x where "holds_data n1 (fst (frs ! j)) x" using hold mem 1(2) by (fastforce simp: same_data_def)
    from put_helper_spec[OF this, of H "(hs1 ?b)\<lparr>next_pbuf := Some (Pool e)\<rparr>" st r d hs1 c] obtain n2 where
      2: "put_helper H ?b ((hs1 ?b)\<lparr>next_pbuf := Some (Pool e)\<rparr>) (rst st r n1 d hs1 c) =
        Some (rst st r n2 d (hs1(?b := (hs1 ?b)\<lparr>next_pbuf := Some (Pool e)\<rparr>)) c)" "same_data {fst (frs ! j)} n1 n2" by blast
    have big: "same_data ?S n1 n2" by (rule same_data_mono[OF 2(2)]) (use mem in auto)
    have ne: "fst (frs ! j) \<noteq> e" using dis mem by force
    have w: "with_new hs k (e, s, f) frs = hs1(?b := (hs1 ?b)\<lparr>next_pbuf := Some (Pool e)\<rparr>)"
      using Suc by (simp add: with_new_def hs1_def)
    have "snd (place_of k None frs) \<noteq> None \<or> h_end (hs1 ?b) \<le> h_start (hs1 (Pool e))"
    proof (cases "k < length frs")
      case False
      then have "j = length frs - 1" "frs \<noteq> []" using Suc k by auto
      then show ?thesis using behind frags_end[OF fr, of j] False k Suc ne by (simp add: hs1_def last_conv_nth)
    qed (simp add: place_of_def)
    then show ?thesis unfolding link_frag_def 1(1) using 2(1) Suc w same_data_trans[OF 1(2) big]
      by (auto simp: place_of_def lwip_assert_def)
  qed
qed

section \<open>The decision\<close>

lemma frags_append: "frags hs po (xs @ ys) \<Longrightarrow> \<exists>po'. frags hs po' ys \<and> (xs = [] \<longrightarrow> po' = po)"
  by (induction hs po xs rule: frags.induct) auto

lemma no_holes_list:
  "frags (reass_helpers (ipst st)) (Some (Pool q)) ((q, qs, qe) # frs) \<Longrightarrow>
   \<exists>l. no_holes (Pool q) (next_pbuf (helper_at st (Pool q))) st = Some (joined_up ((q, qs, qe) # frs), l) \<and>
     (joined_up ((q, qs, qe) # frs) \<longrightarrow> l = Pool (fst (last ((q, qs, qe) # frs))))"
proof (induction frs arbitrary: q qs qe)
  case Nil
  then show ?case by (simp add: no_holes.simps helper_at_def)
next
  case (Cons y frs)
  obtain z zs ze where y: "y = (z, zs, ze)" by (cases y)
  have q: "next_pbuf (helper_at st (Pool q)) = Some (Pool z)" "h_end (helper_at st (Pool q)) = qe" "h_start (helper_at st (Pool z)) = zs"
    "frags (reass_helpers (ipst st)) (Some (Pool z)) ((z, zs, ze) # frs)"
    using Cons.prems y by (auto simp: helper_at_def)
  note unfold = no_holes.simps[of "Pool q" "Some (Pool z)" st]
  show ?case
  proof (cases "qe = zs")
    case True
    then show ?thesis using Cons.IH[OF q(4)] q y unfold by (simp add: Let_def)
  next
    case False
    then show ?thesis using q y unfold by simp
  qed
qed

lemma joined_up_last: "frags hs po frs \<Longrightarrow> frs \<noteq> [] \<Longrightarrow> next_pbuf (hs (Pool (fst (last frs)))) = None \<and>
   h_end (hs (Pool (fst (last frs)))) = snd (snd (last frs))"
  by (induction hs po frs rule: frags.induct) auto

text \<open>The decision that the datagram is complete, and the two assertions behind it.\<close>

definition ends_well :: "nat \<Rightarrow> frag list \<Rightarrow> bool" where
  "ends_well dl frs = (1 < length frs \<and> snd (snd (last frs)) = dl)"

lemma validate_list:
  assumes fr: "frags hs (r_p d) (insert_frag k (e, s, f) frs)" and dis: "distinct (e # map fst frs)" and k: "k \<le> length frs"
  shows "validate r (Pool e) v (rst st r n d hs c) =
    (if r_flags d AND IP_REASS_FLAG_LASTFRAG \<noteq> 0 \<and> v \<and> starts_at_0 (insert_frag k (e, s, f) frs) \<and> joined_up ((e, s, f) # drop k frs)
     then (if ends_well (datagram_len d) (insert_frag k (e, s, f) frs) then Some True else None) else Some False)"
proof -
  let ?frs = "insert_frag k (e, s, f) frs"
  have split: "?frs = take k frs @ ((e, s, f) # drop k frs)" by (simp add: insert_frag_def)
  obtain po where "frags hs po ((e, s, f) # drop k frs)"
    using frags_append[of hs "r_p d" "take k frs" "(e, s, f) # drop k frs"] fr unfolding split by blast
  then have tail: "frags hs (Some (Pool e)) ((e, s, f) # drop k frs)" using frags_cases by fastforce
  then obtain l where l: "no_holes (Pool e) (next_pbuf (hs (Pool e))) (rst st r n d hs c) = Some (joined_up ((e, s, f) # drop k frs), l)"
    "joined_up ((e, s, f) # drop k frs) \<longrightarrow> l = Pool (fst (last ((e, s, f) # drop k frs)))"
    using no_holes_list[of "rst st r n d hs c" e s f "drop k frs"] by auto
  have last: "last ((e, s, f) # drop k frs) = last ?frs" by (simp add: split)
  obtain q qs qe rest where q: "?frs = (q, qs, qe) # rest" by (cases ?frs) (auto simp: insert_frag_def)
  have "distinct (map fst ?frs)"
    using dis by (simp add: insert_frag_def take_map[symmetric] drop_map[symmetric] set_take_disj_set_drop_if_distinct) (auto dest: in_set_takeD in_set_dropD)
  then have one: "fst (last ?frs) = q \<longleftrightarrow> length ?frs = 1" unfolding q by (cases rest rule: rev_cases) auto
  have p: "r_p d = Some (Pool q)" "h_start (hs (Pool q)) = qs" using fr unfolding q by auto
  have end_is: "next_pbuf (hs (Pool (fst (last ?frs)))) = None" "h_end (hs (Pool (fst (last ?frs)))) = snd (snd (last ?frs))"
    using joined_up_last[OF fr] q by auto
  have ew: "ends_well (datagram_len d) ?frs \<longleftrightarrow> q \<noteq> fst (last ?frs) \<and> snd (snd (last ?frs)) = datagram_len d"
    using one unfolding ends_well_def q by (cases rest) auto
  show ?thesis
    unfolding validate_def using l p end_is ew q last by (auto simp: starts_at_0_def lwip_assert_def)
qed

section \<open>A fragment is placed\<close>

lemma release_data:
  assumes "holds_data (lnet st) e x" and ok: "memp_ok sizes (npools (lnet st)) F" and "e \<notin> set (F MEMP_PBUF_POOL)"
    and "e \<in> set (elems sizes MEMP_PBUF_POOL)"
  shows "\<exists>n'. release pt (Pool e) st = Some (st\<lparr>lnet := n'\<rparr>) \<and> memp_ok sizes (npools n') (F(MEMP_PBUF_POOL := e # F MEMP_PBUF_POOL)) \<and>
     nheap n' = nheap (lnet st) \<and> (\<forall>q y. q \<noteq> e \<longrightarrow> holds_data (lnet st) q y \<longrightarrow> holds_data n' q y) \<and> untouched {e} (lnet st) n'"
proof -
  obtain off xs where v: "view (lnet st) e off 14 xs" using assms(1) by (auto simp: holds_data_def)
  then have "pchain (pb (lnet st)) (Some (Pool e)) (map Pool [e]) None" "\<forall>x \<in> set [e]. pool_buf (lnet st) x"
    by (auto simp: view_def)
  from free_loop_spec[OF ok _ _ _ this, of 0 "custom_free pt"] assms(3,4) obtain mp where mp: "pbuf_free_loop (custom_free pt) (Some (Pool e)) 0 (lnet st) =
      Some (1, (lnet st)\<lparr>pb := released (lnet st) [e] None, npools := mp\<rparr>)"
    "memp_ok sizes mp (F(MEMP_PBUF_POOL := e # F MEMP_PBUF_POOL))"
    by (simp add: stops_def image_iff) blast
  let ?n = "(lnet st)\<lparr>pb := released (lnet st) [e] None, npools := mp\<rparr>"
  have "view ?n q o' k y = view (lnet st) q o' k y" if "q \<noteq> e" for q o' k y
    using that by (simp add: view_def pool_buf_def released_def)
  then have "\<forall>q y. q \<noteq> e \<longrightarrow> holds_data (lnet st) q y \<longrightarrow> holds_data ?n q y" by (simp add: holds_data_def)
  moreover have "untouched {e} (lnet st) ?n" by (auto simp: untouched_def released_def)
  ultimately show ?thesis using mp by (auto simp: release_def pbuf_free_def lwip_assert_def)
qed

text \<open>The range a header says its fragment covers.\<close>

definition frag_start :: "u8 list \<Rightarrow> nat" where
  "frag_start h = unat ((IPH_OFFSET h AND IP_OFFMASK) * 8)"

definition frag_end :: "u8 list \<Rightarrow> nat" where
  "frag_end h = frag_start h + (IPH_LEN h - 20)"

lemma good_hdr: "IPH_HL h = 5 \<Longrightarrow> 20 \<le> IPH_LEN h \<Longrightarrow> nat ((int (IPH_LEN h) - int (IPH_HL h * 4)) mod 65536) = IPH_LEN h - 20"
proof -
  assume h: "IPH_HL h = 5" "20 \<le> IPH_LEN h"
  have "IPH_LEN h < 65536" using word_bound(2)[of "ntohs_at h 2"] by (simp add: IPH_LEN_def)
  then have "(int (IPH_LEN h) - int (IPH_HL h * 4)) mod 65536 = int (IPH_LEN h) - 20" using h by simp
  then show ?thesis using h by simp
qed

text \<open>The new fragment's view of the flag \<open>valid\<close>, with the hole before the end of the list.\<close>

definition unbroken :: "bool \<Rightarrow> nat \<Rightarrow> nat \<Rightarrow> frag list \<Rightarrow> bool" where
  "unbroken v k s frs = (v \<and> (k = length frs \<and> frs \<noteq> [] \<longrightarrow> snd (snd (last frs)) = s))"

lemma holds_single: "holds_data n e x \<Longrightarrow> pbuf_clen (Some (Pool e)) n = Some 1"
  by (auto simp: holds_data_def view_clen)

lemma chain_frag_spec:
  assumes v: "view n e off 14 x" and h: "h = take 20 (drop 14 x)" and good: "IPH_HL h = 5" "20 \<le> IPH_LEN h" "34 \<le> length x"
    and sf: "s = frag_start h" "f = frag_end h" "f < 65536"
    and fr: "frags hs (r_p d) frs" and dis: "distinct (e # map fst frs)"
    and hold: "\<forall>q \<in> fst ` set frs. holds_data n q (D q)"
    and free: "memp_ok sizes (npools n) F" "e \<notin> set (F MEMP_PBUF_POOL)" "e \<in> set (elems sizes MEMP_PBUF_POOL)"
    and len: "length frs = c - 1" "0 < c" "c < 65536"
  shows "case place_list s f None True frs of
     None \<Rightarrow> \<exists>n'. ip_reass_chain_frag_into_datagram_and_validate H r (Pool e) (rst st r n d hs c) =
        Some (False, rst st r n' d (hs(Pool e := \<lparr>next_pbuf = None, h_start = s, h_end = f\<rparr>)) (c - 1)) \<and>
        memp_ok sizes (npools n') (F(MEMP_PBUF_POOL := e # F MEMP_PBUF_POOL)) \<and> nheap n' = nheap n \<and>
        (\<forall>q y. q \<noteq> e \<longrightarrow> holds_data n q y \<longrightarrow> holds_data n' q y) \<and> untouched {e} n n'
   | Some (k, v) \<Rightarrow> \<exists>n'. same_data (insert e (fst ` set frs)) n n' \<and>
        (let st' = rst st r n' (if k = 0 then d\<lparr>r_p := Some (Pool e)\<rparr> else d) (with_new hs k (e, s, f) frs) c in
        ip_reass_chain_frag_into_datagram_and_validate H r (Pool e) (rst st r n d hs c) =
        map_option (\<lambda>ok. (ok, st')) (validate r (Pool e) (unbroken v k s frs) st'))"
proof -
  let ?hs = "hs(Pool e := \<lparr>next_pbuf = None, h_start = s, h_end = f\<rparr>)"
  have e: "holds_data n e (drop 34 x)" using v good(3) by (auto simp: holds_data_def)
  obtain n1 where n1: "put_helper H (Pool e) \<lparr>next_pbuf = None, h_start = s, h_end = f\<rparr> (rst st r n d hs c) = Some (rst st r n1 d ?hs c)"
    "same_data {e} n n1"
    using put_helper_spec[OF e] by blast
  have fetched: "fetch (payload (buf (rst st r n d hs c) (Pool e))) 0 20 (rst st r n d hs c) = Some h"
    using fetch_view[of "rst st r n d hs c" e off 14 x 14 0 20] v good(3) view_sel(1)[OF v] h by simp
  have fr1: "frags ?hs (r_p d) frs" by (rule frags_same[OF fr]) (use dis in auto)
  have fin: "trunc16 (s + (IPH_LEN h - 20)) = f" using sf by (simp add: frag_end_def)
  have placed: "place_frag s f (r_p d) None True (rst st r n1 d ?hs c) = Some (case place_list s f None True frs of None \<Rightarrow> FreePbuf
           | Some (k, v) \<Rightarrow> Insert (fst (place_of k None frs)) (snd (place_of k None frs)) v)"
    using place_frag_list[of "rst st r n1 d ?hs c" "r_p d" frs None s f True] fr1 by simp
  have start: "ip_reass_chain_frag_into_datagram_and_validate H r (Pool e) (rst st r n d hs c) =
     (case (case place_list s f None True frs of None \<Rightarrow> FreePbuf
           | Some (k, v) \<Rightarrow> Insert (fst (place_of k None frs)) (snd (place_of k None frs)) v) of
        FreePbuf \<Rightarrow> do {
          clen \<leftarrow> pbuf_clen (Some (Pool e)) n1;
          st \<leftarrow> release (hport H) (Pool e) (rst st r n1 d ?hs (nat ((int c - int clen) mod 65536)));
          Some (False, st)
        }
      | Insert prev q valid \<Rightarrow> do {
          let valid = (case (q, prev) of (None, Some b) \<Rightarrow> if h_end (?hs b) \<noteq> s then False else valid | _ \<Rightarrow> valid);
          st \<leftarrow> link_frag H r (Pool e) prev q (rst st r n1 d ?hs c);
          ok \<leftarrow> validate r (Pool e) valid st;
          Some (ok, st)
        })"
    unfolding ip_reass_chain_frag_into_datagram_and_validate_def fetched good_hdr[OF good(1,2)] frag_start_def[symmetric] Let_def
      bind.bind_lunit sf(1)[symmetric] fin n1(1)
    unfolding rst_sel rst_upd placed bind.bind_lunit by (rule refl)
  show ?thesis
  proof (cases "place_list s f None True frs")
    case None
    have e1: "holds_data n1 e (drop 34 x)" using n1(2) e by (simp add: same_data_def)
    from release_data[of "rst st r n1 d ?hs (c - 1)" e "drop 34 x" sizes F "hport H"] free(2,3) e1 free(1) n1(2) obtain n2 where
      "release (hport H) (Pool e) (rst st r n1 d ?hs (c - 1)) = Some (rst st r n2 d ?hs (c - 1))"
      "memp_ok sizes (npools n2) (F(MEMP_PBUF_POOL := e # F MEMP_PBUF_POOL))" "nheap n2 = nheap n1"
      "\<forall>q y. q \<noteq> e \<longrightarrow> holds_data n1 q y \<longrightarrow> holds_data n2 q y" "untouched {e} n1 n2"
      by (auto simp: same_data_def)
    moreover have "nat ((int c - 1) mod 65536) = c - 1" using len by (simp add: of_nat_diff)
    ultimately show ?thesis unfolding start None using holds_single[OF e1] n1(2) by (auto simp: same_data_def intro: untouched_trans)
  next
    case (Some kv)
    obtain k w where kw: "kv = (k, w)" by (cases kv)
    have k: "k \<le> length frs" using place_list_le Some kw by blast
    have hold1: "\<forall>q \<in> insert e (fst ` set frs). \<exists>x. holds_data n1 q x" using hold e n1(2) by (auto simp: same_data_def)
    obtain n2 where n2: "link_frag H r (Pool e) (fst (place_of k None frs)) (snd (place_of k None frs)) (rst st r n1 d ?hs c) =
      Some (rst st r n2 (if k = 0 then d\<lparr>r_p := Some (Pool e)\<rparr> else d) (with_new ?hs k (e, s, f) frs) c)" "same_data (insert e (fst ` set frs)) n1 n2"
      using link_frag_spec[OF fr1 dis k _ hold1, of s f H r st c] place_list_behind[of s f None True frs k w] Some kw by auto
    have twice: "with_new ?hs k (e, s, f) frs = with_new hs k (e, s, f) frs" by (simp add: with_new_def)
    have valid: "(case (snd (place_of k None frs), fst (place_of k None frs)) of
        (None, Some b) \<Rightarrow> if h_end (?hs b) \<noteq> s then False else w | _ \<Rightarrow> w) = unbroken w k s frs"
    proof (cases "k = length frs \<and> frs \<noteq> []")
      case True
      then have j: "k = Suc (length frs - 1)" "length frs - 1 < length frs" by auto
      have "place_of k None frs = (Some (Pool (fst (last frs))), None)"
        using True j by (simp add: place_of_def last_conv_nth split: nat.splits)
      moreover have "h_end (?hs (Pool (fst (last frs)))) = snd (snd (last frs))"
        using True frags_end[OF fr1 j(2)] by (simp only: last_conv_nth simp_thms)
      ultimately show ?thesis using True by (auto simp: unbroken_def)
    qed (use k in \<open>auto simp: place_of_def unbroken_def split: nat.splits\<close>)
    show ?thesis unfolding start Some kw using n2 same_data_trans[OF same_data_mono[OF n1(2)] n2(2)] twice valid
      by (auto simp: Let_def map_conv_bind_option comp_def intro!: exI[of _ n2])
  qed
qed

end
