(* ===== verification/ReassChain.thy ===== *)
theory ReassChain
  imports ReassProps
begin

text \<open>
  A datagram that is complete: its header is rebuilt, the fragments are chained behind it
  without their headers, and the entry goes back to its pool. With the placement this gives
  what \<open>ip_reass\<close> does with a fragment while one datagram waits.
\<close>

unbundle bit_operations_syntax

section \<open>Chaining\<close>

text \<open>A chain of own pool buffers with content \<open>xs\<close>.\<close>

definition chain_view :: "net \<Rightarrow> nat list \<Rightarrow> u8 list \<Rightarrow> bool" where
  "chain_view n es xs = (packet n es (length xs) \<and> content n (map Pool es) = xs \<and> distinct es)"

lemma view_inside: "view n e off k xs \<Longrightarrow> inside (pb n) e"
  by (auto simp: view_def inside_def elem_end_def)

lemma chain_view_single: "view n e off k xs \<Longrightarrow> chain_view n [e] (drop k xs)"
  using view_data[of n e off k xs] view_inside[of n e off k xs] by (auto simp: chain_view_def packet_def view_def)

lemma same_buf_view: "pb n' (Pool q) = pb n (Pool q) \<Longrightarrow> bytes n' (Pool q) = bytes n (Pool q) \<Longrightarrow> view n' q off k x = view n q off k x"
  by (simp add: view_def pool_buf_def)

text \<open>One more fragment without its IP header. Nothing but the chain and the fragment changes.\<close>

lemma cat_piece:
  assumes c: "chain_view n (a # as) xs" and e: "e \<notin> set (a # as)" and h: "holds_data n e d" and len: "length xs + length d < 65536"
  shows "\<exists>n1 n2. pbuf_header (Pool e) (- int IP_HLEN) n = Some (0, n1) \<and> pbuf_cat (Some (Pool a)) (Some (Pool e)) n1 = Some n2 \<and>
     chain_view n2 ((a # as) @ [e]) (xs @ d) \<and> npools n2 = npools n \<and> nheap n2 = nheap n \<and>
     (\<forall>q. q \<notin> set (e # a # as) \<longrightarrow> pb n2 (Pool q) = pb n (Pool q) \<and> bytes n2 (Pool q) = bytes n (Pool q))"
proof -
  obtain off x where v: "view n e off 14 x" "34 \<le> length x" "d = drop 34 x" using h by (auto simp: holds_data_def)
  obtain n1 where n1: "pbuf_header (Pool e) (- int 20) n = Some (0, n1)" "view n1 e off 34 x" "only_buf e n n1"
    using view_hide[OF v(1), of 20] v(2) by auto
  have old: "pb n1 (Pool q) = pb n (Pool q)" "bytes n1 (Pool q) = bytes n (Pool q)" if "q \<noteq> e" for q
    using n1(3) that by (simp_all add: only_buf_def)
  let ?hs = "map Pool (a # as)" let ?n2 = "n1\<lparr>pb := joined n1 ?hs (Pool e)\<rparr>"
  have p: "pchain (pb n) (Some (Pool a)) ?hs None" "lens_ok (pb n) ?hs" "tot_len (pb n (Pool a)) = length xs"
    "\<forall>q \<in> set (a # as). pool_buf n q \<and> inside (pb n) q" "content n ?hs = xs" "distinct (a # as)"
    using c by (simp_all add: chain_view_def packet_def)
  have same: "\<forall>q \<in> set ?hs. pb n1 q = pb n q" using n1(3) e by (auto simp: only_buf_def)
  have hs: "pchain (pb n1) (Some (Pool a)) ?hs None" "lens_ok (pb n1) ?hs"
    using pchain_frame[OF p(1), of "pb n1"] lens_ok_frame[OF p(2), of "pb n1"] same by auto
  have dis: "distinct ?hs" "Pool e \<notin> set ?hs" using p(6) e by (auto simp: distinct_map inj_on_def)
  have t: "tot_len (pb n1 (Pool a)) = length xs" using p(3) old e by auto
  have d: "tot_len (pb n1 (Pool e)) = length d" using view_sel(3)[OF n1(2)] v(3) by simp
  have sum: "(\<Sum>q \<leftarrow> ?hs. plen (pb n1 q)) = length xs" using lens_tot[OF hs(2)] t by simp
  have cat: "pbuf_cat (Some (Pool a)) (Some (Pool e)) n1 = Some ?n2"
    using pbuf_cat_eq[OF _ hs(1) dis hs(2)] sum d len by simp
  have tl: "pchain (pb n1) (Some (Pool e)) [Pool e] None" "lens_ok (pb n1) [Pool e]" using view_sel[OF n1(2)] by simp_all
  have data: "buf_data ?n2 = buf_data n1" by (rule ext) (auto simp: buf_data_def joined_def split: option.split)
  have chain: "pchain (pb ?n2) (Some (Pool a)) (?hs @ [Pool e]) None"
    using joined_chain[OF _ hs(1) dis(1), of "Pool e"] dis(2) view_sel(4)[OF n1(2)] by (auto simp: pchain_append joined_def)
  have lens: "lens_ok (pb ?n2) (?hs @ [Pool e])"
    using joined_lens[OF hs(2) tl(2) dis(2)] dis view_sel[OF n1(2)] by simp
  have "buf_data n1 p = buf_data n p" if in_p: "p \<in> set ?hs" for p
  proof -
    obtain q where q: "p = Pool q" "q \<in> set (a # as)" using in_p by auto
    then obtain o' where "payload (pb n p) = Some (p, o')" using p(4) by (auto simp: inside_def)
    moreover have "pb n1 p = pb n p" using same in_p by blast
    moreover have "bytes n1 p = bytes n p" using q e n1(3) by (auto simp: only_buf_def)
    ultimately show ?thesis by (simp add: buf_data_def)
  qed
  then have "content n1 ?hs = content n ?hs" unfolding content_def by (intro arg_cong[of _ _ concat] map_cong refl)
  then have cont: "content ?n2 (?hs @ [Pool e]) = xs @ d"
    unfolding content_def data using p(5) view_data[OF n1(2)] v(3) by (simp add: content_def)
  have "pool_buf ?n2 q \<and> inside (pb ?n2) q" if "q \<in> set ((a # as) @ [e])" for q
  proof (cases "q = e")
    case True
    then show ?thesis using n1(2) view_inside[OF n1(2)] dis(2) by (auto simp: view_def pool_buf_def joined_def inside_def)
  next
    case False
    then show ?thesis using that p(4) old[OF False] by (auto simp: pool_buf_def joined_def inside_def)
  qed
  moreover have "tot_len (pb ?n2 (Pool a)) = length (xs @ d)" using t d by (simp add: joined_def)
  ultimately have "chain_view ?n2 ((a # as) @ [e]) (xs @ d)"
    using chain lens cont p(6) e by (simp add: chain_view_def packet_def)
  moreover have "\<forall>q. q \<notin> set (e # a # as) \<longrightarrow> pb ?n2 (Pool q) = pb n (Pool q) \<and> bytes ?n2 (Pool q) = bytes n (Pool q)"
    using old by (auto simp: joined_def)
  ultimately show ?thesis using n1(1) cat only_buf_same[OF n1(3)] by (intro exI[of _ n1] exI[of _ ?n2]) simp
qed

lemma chain_frags_list:
  assumes "frags (reass_helpers (ipst st)) po frs" and "chain_view (lnet st) (a # as) xs"
    and "distinct (a # as @ map fst frs)" and "\<forall>q \<in> fst ` set frs. holds_data (lnet st) q (D q)"
    and "length xs + length (concat (map (D \<circ> fst) frs)) < 65536"
  shows "\<exists>n'. chain_frags (Pool a) po st = Some (st\<lparr>lnet := n'\<rparr>) \<and> chain_view n' (a # as @ map fst frs) (xs @ concat (map (D \<circ> fst) frs)) \<and>
     npools n' = npools (lnet st) \<and> nheap n' = nheap (lnet st) \<and> untouched (set (a # as) \<union> fst ` set frs) (lnet st) n'"
  using assms
proof (induction frs arbitrary: po st as xs)
  case Nil
  then show ?case by (intro exI[of _ "lnet st"]) (simp add: chain_frags.simps)
next
  case (Cons y frs)
  obtain q qs qe where y: "y = (q, qs, qe)" by (cases y)
  have po: "po = Some (Pool q)" "frags (reass_helpers (ipst st)) (next_pbuf (helper_at st (Pool q))) frs"
    using Cons.prems(1) y by (auto simp: helper_at_def)
  obtain n1 n2 where n: "pbuf_header (Pool q) (- int IP_HLEN) (lnet st) = Some (0, n1)" "pbuf_cat (Some (Pool a)) (Some (Pool q)) n1 = Some n2"
    "chain_view n2 ((a # as) @ [q]) (xs @ D q)" "npools n2 = npools (lnet st)" "nheap n2 = nheap (lnet st)"
    "\<forall>z. z \<notin> set (q # a # as) \<longrightarrow> pb n2 (Pool z) = pb (lnet st) (Pool z) \<and> bytes n2 (Pool z) = bytes (lnet st) (Pool z)"
    using cat_piece[OF Cons.prems(2), of q "D q"] Cons.prems(3-5) y by auto
  have "\<forall>z \<in> fst ` set frs. holds_data n2 z (D z)"
  proof
    fix z assume z: "z \<in> fst ` set frs"
    then have "z \<notin> set (q # a # as)" using Cons.prems(3) y by auto
    then have "view n2 z off k x = view (lnet st) z off k x" for off k x using n(6) by (intro same_buf_view) blast+
    then have "holds_data n2 z (D z) = holds_data (lnet st) z (D z)" by (simp add: holds_data_def)
    moreover have "z \<in> fst ` set (y # frs)" using z by auto
    ultimately show "holds_data n2 z (D z)" using Cons.prems(4) by blast
  qed
  then obtain n3 where n3: "chain_frags (Pool a) (next_pbuf (helper_at st (Pool q))) (st\<lparr>lnet := n2\<rparr>) = Some (st\<lparr>lnet := n2\<rparr>\<lparr>lnet := n3\<rparr>)"
    "chain_view n3 (a # (as @ [q]) @ map fst frs) ((xs @ D q) @ concat (map (D \<circ> fst) frs))" "npools n3 = npools n2" "nheap n3 = nheap n2"
    "untouched (set (a # as @ [q]) \<union> fst ` set frs) n2 n3"
    using Cons.IH[of "st\<lparr>lnet := n2\<rparr>" "next_pbuf (helper_at st (Pool q))" "as @ [q]" "xs @ D q"] po n(3) Cons.prems(3,5) y
    by (auto simp: comp_def)
  have "chain_frags (Pool a) po st = chain_frags (Pool a) (next_pbuf (helper_at st (Pool q))) (st\<lparr>lnet := n2\<rparr>)"
    using po(1) n(1,2) by (subst chain_frags.simps) simp
  moreover have "untouched (set (a # as) \<union> fst ` set (y # frs)) (lnet st) n3"
  proof -
    have "untouched (set (a # as) \<union> fst ` set (y # frs)) n2 n3" by (rule untouched_mono[OF n3(5)]) (auto simp: y)
    moreover have "untouched (set (a # as) \<union> fst ` set (y # frs)) (lnet st) n2"
      using n(6) y by (auto simp: untouched_def)
    ultimately show ?thesis by (rule untouched_trans[rotated])
  qed
  ultimately show ?case using n3 n(4,5) y by (intro exI[of _ n3]) (simp add: comp_def)
qed

section \<open>The complete datagram\<close>

lemma blit_mid: "length a = k \<Longrightarrow> i + length ys \<le> length b \<Longrightarrow> blit (k + i) ys (a @ b @ c) = a @ blit i ys b @ c"
  by (simp add: blit_def)

text \<open>The header of the first fragment, with the new length, no offset and a new checksum.\<close>

definition datagram_hdr :: "u8 list \<Rightarrow> nat \<Rightarrow> u8 list" where
  "datagram_hdr h len =
     (let z = blit 10 [0, 0] (blit 6 [0, 0] (blit 2 (net16 (word_of_nat len)) h)) in blit 10 (mem16 (inet_chksum 0 z)) z)"

lemma datagram_hdr_length [simp]: "length h = 20 \<Longrightarrow> length (datagram_hdr h len) = 20"
  by (simp add: datagram_hdr_def Let_def)

lemma rebuild_header:
  assumes h: "holds_data (lnet st) a x" and l: "length hdr = 20"
  shows "\<exists>m n'. store (payload (buf st (Pool a))) [(0, hdr), (2, net16 (word_of_nat len)), (6, [0, 0])] st = Some (st\<lparr>lnet := m\<rparr>) \<and>
     seal_header H (payload (buf st (Pool a))) (st\<lparr>lnet := m\<rparr>) = Some (st\<lparr>lnet := n'\<rparr>) \<and>
     chain_view n' [a] (datagram_hdr hdr len @ x) \<and> only_buf a (lnet st) n'"
proof -
  obtain off y where v: "view (lnet st) a off 14 y" "34 \<le> length y" "x = drop 34 y" using h by (auto simp: holds_data_def)
  let ?A = "take 14 y" let ?B = "take 20 (drop 14 y)"
  have mid: "?B @ drop 34 y = drop 14 y" using append_take_drop_id[of 20 "drop 14 y"] by simp
  have y: "y = ?A @ ?B @ x" using mid v(3) by simp
  have len: "length ?A = 14" "length ?B = 20" using v(2) by simp_all
  let ?h = "blit 6 [0, 0] (blit 2 (net16 (word_of_nat len)) hdr)"
  have pay: "payload (buf st (Pool a)) = Some (Pool a, off + int 14)" using view_sel(1)[OF v(1)] by (simp add: buf_def)
  have "fold (\<lambda>(i, ys). blit (14 + i) ys) [(0, hdr), (2, net16 (word_of_nat len)), (6, [0, 0])] (?A @ ?B @ x) = ?A @ ?h @ x"
    using len l blit_mid[of ?A 14 0 hdr ?B x] blit_mid[of ?A 14 2 "net16 (word_of_nat len)" hdr x]
      blit_mid[of ?A 14 6 "[0, 0]" "blit 2 (net16 (word_of_nat len)) hdr" x] by (simp add: blit_def)
  then obtain n1 where n1: "store (Some (Pool a, off + int 14)) [(0, hdr), (2, net16 (word_of_nat len)), (6, [0, 0])] st = Some (st\<lparr>lnet := n1\<rparr>)"
    "view n1 a off 14 (?A @ ?h @ x)" "only_buf a (lnet st) n1"
    using store_view[OF v(1), of "[(0, hdr), (2, net16 (word_of_nat len)), (6, [0, 0])]" 14] v(2) l y by auto
  have hl: "length ?h = 20" using l by simp
  have z: "blit (14 + 10) [0, 0] (?A @ ?h @ x) = ?A @ blit 10 [0, 0] ?h @ x" using blit_mid[of ?A 14 10 "[0, 0]" ?h x] len hl by simp
  have "take 20 (drop 14 (blit (14 + 10) [0, 0] (?A @ ?h @ x))) = blit 10 [0, 0] ?h" unfolding z using len hl by simp
  then obtain n2 where n2: "seal_header H (Some (Pool a, off + int 14)) (st\<lparr>lnet := n1\<rparr>) = Some (st\<lparr>lnet := n2\<rparr>)"
    "view n2 a off 14 (blit (14 + 10) (mem16 (inet_chksum 0 (blit 10 [0, 0] ?h))) (?A @ ?h @ x))" "only_buf a n1 n2"
    using seal_on[OF n1(2) _ refl, of 14 H st] len hl by auto
  have "drop 14 (blit (14 + 10) (mem16 (inet_chksum 0 (blit 10 [0, 0] ?h))) (?A @ ?h @ x)) =
      blit 10 (mem16 (inet_chksum 0 (blit 10 [0, 0] ?h))) ?h @ x"
    using blit_mid[of ?A 14 10 "mem16 (inet_chksum 0 (blit 10 [0, 0] ?h))" ?h x] len hl by simp
  also have "blit 10 (mem16 (inet_chksum 0 (blit 10 [0, 0] ?h))) ?h = datagram_hdr hdr len"
    using hl by (simp add: datagram_hdr_def Let_def blit_def)
  finally have "chain_view n2 [a] (datagram_hdr hdr len @ x)" using chain_view_single[OF n2(2)] by simp
  then show ?thesis unfolding pay using n1(1) n2(1) only_buf_trans[OF n1(3) n2(3)] by blast
qed

lemma pool_put_spec:
  "memp_ok sizes (npools n) F \<Longrightarrow> r \<in> set (elems sizes t) \<Longrightarrow> r \<notin> set (F t) \<Longrightarrow>
   \<exists>mp. pool_put t r n = Some (n\<lparr>npools := mp\<rparr>) \<and> memp_ok sizes mp (F(t := r # F t))"
  using memp_free_spec[of sizes "npools n" F r t] by (auto simp: pool_put_def)

lemma chain_view_pools: "chain_view (n\<lparr>npools := mp\<rparr>) es xs = chain_view n es xs"
proof -
  have "buf_data (n\<lparr>npools := mp\<rparr>) = buf_data n" by (rule ext) (simp add: buf_data_def split: option.split)
  then show ?thesis by (simp add: chain_view_def packet_def pool_buf_def content_def)
qed

lemma chain_clen:
  assumes "chain_view n (a # as) xs"
  shows "pbuf_clen (Some (Pool a)) n = Some (length (a # as) mod 256)"
proof -
  have "pchain (pb n) (Some (Pool a)) (map Pool (a # as)) None" using assms by (simp add: chain_view_def packet_def)
  from clen_loop_spec[OF this, of 0] show ?thesis by (simp add: pbuf_clen_def)
qed

lemma only_buf_holds: "only_buf a n n' \<Longrightarrow> q \<noteq> a \<Longrightarrow> holds_data n' q x = holds_data n q x"
  by (simp add: holds_data_def view_other)

text \<open>The queue is empty again.\<close>

definition unqueued :: "lan \<Rightarrow> lan" where
  "unqueued st = set_ipst (\<lambda>s. s\<lparr>reassdatagrams := None\<rparr>) st"

lemma dequeue_only:
  assumes "r_next d = None" and "memp_ok sizes (npools n) F" and "r \<in> set (elems sizes MEMP_REASSDATA)" and "r \<notin> set (F MEMP_REASSDATA)"
  shows "\<exists>mp. ip_reass_dequeue_datagram r prev (rst st r n d hs c) = Some (unqueued (rst st r (n\<lparr>npools := mp\<rparr>) d hs c)) \<and>
     memp_ok sizes mp (F(MEMP_REASSDATA := r # F MEMP_REASSDATA))"
proof -
  have "set_ipst (\<lambda>s. s\<lparr>reassdatagrams := r_next (reass s r)\<rparr>) (rst st r n d hs c) = unqueued (rst st r n d hs c)"
    using assms(1) by (simp add: unqueued_def set_ipst_def rst_def)
  then show ?thesis using pool_put_spec[OF assms(2-4)] by (auto simp: ip_reass_dequeue_datagram_def unqueued_def set_ipst_lnet)
qed

lemma complete_datagram_spec:
  assumes fr: "frags hs (r_p d) ((a, as, ae) # frs)" and dis: "distinct (a # map fst frs)"
    and hold: "holds_data n a (D a)" "\<forall>q \<in> fst ` set frs. holds_data n q (D q)"
    and d: "r_next d = None" "length (r_iphdr d) = 20" "dl = trunc16 (datagram_len d + 20)"
    and ok: "memp_ok sizes (npools n) F" "r \<in> set (elems sizes MEMP_REASSDATA)" "r \<notin> set (F MEMP_REASSDATA)"
    and len: "20 + length (concat (map (D \<circ> fst) ((a, as, ae) # frs))) < 65536" "c = length frs + 1" "c < 256"
  shows "\<exists>n'. complete_datagram H r prev (rst st r n d hs c) =
      Some (Pool a, unqueued (rst st r n' (d\<lparr>datagram_len := dl\<rparr>) hs 0)) \<and>
     chain_view n' (a # map fst frs) (datagram_hdr (r_iphdr d) dl @ concat (map (D \<circ> fst) ((a, as, ae) # frs))) \<and>
     memp_ok sizes (npools n') (F(MEMP_REASSDATA := r # F MEMP_REASSDATA)) \<and> nheap n' = nheap n \<and>
     untouched (insert a (fst ` set frs)) n n'"
proof -
  let ?d = "d\<lparr>datagram_len := dl\<rparr>" let ?hdr = "datagram_hdr (r_iphdr d) dl"
  let ?ds = "concat (map (D \<circ> fst) ((a, as, ae) # frs))"
  have p: "r_p d = Some (Pool a)" "frags hs (next_pbuf (hs (Pool a))) frs" using fr by auto
  let ?st = "rst st r n ?d hs c" let ?ws = "[(0, r_iphdr d), (2, net16 (word_of_nat dl)), (6, [0, 0])] :: (nat \<times> u8 list) list"
  obtain m n1 where n1: "seal_header H (payload (buf ?st (Pool a))) (rst st r m ?d hs c) = Some (rst st r n1 ?d hs c)"
     "chain_view n1 [a] (?hdr @ D a)" "only_buf a n n1" "store (payload (buf ?st (Pool a))) ?ws ?st = Some (rst st r m ?d hs c)"
    using rebuild_header[of ?st a "D a" "r_iphdr d" dl H] hold(1) d(2) unfolding rst_sel rst_upd by blast
  have hold1: "\<forall>q \<in> fst ` set frs. holds_data n1 q (D q)"
  proof
    fix q assume q: "q \<in> fst ` set frs"
    then have "q \<noteq> a" using dis by auto
    then show "holds_data n1 q (D q)" using only_buf_holds[OF n1(3)] hold(2) q by blast
  qed
  have small: "length (?hdr @ D a) + length (concat (map (D \<circ> fst) frs)) < 65536" using len(1) d(2) by simp
  obtain n2 where n2: "chain_frags (Pool a) (next_pbuf (hs (Pool a))) (rst st r n1 ?d hs c) = Some (rst st r n2 ?d hs c)"
     "chain_view n2 (a # map fst frs) (?hdr @ ?ds)" "npools n2 = npools n1" "nheap n2 = nheap n1"
     "untouched (insert a (fst ` set frs)) n1 n2"
    using chain_frags_list[of "rst st r n1 ?d hs c" "next_pbuf (hs (Pool a))" frs a "[]" "?hdr @ D a" D] p(2) n1(2) dis hold1 small by auto
  have "untouched (insert a (fst ` set frs)) n n1" using n1(3) by (auto simp: untouched_def only_buf_def)
  then have away: "untouched (insert a (fst ` set frs)) n (n2\<lparr>npools := mp\<rparr>)" for mp
    using n2(5) by (auto simp: untouched_def)
  have ok2: "memp_ok sizes (npools n2) F" using ok(1) n2(3) only_buf_same(1)[OF n1(3)] by simp
  obtain mp where mp: "ip_reass_dequeue_datagram r prev (rst st r n2 ?d hs c) = Some (unqueued (rst st r (n2\<lparr>npools := mp\<rparr>) ?d hs c))"
     "memp_ok sizes mp (F(MEMP_REASSDATA := r # F MEMP_REASSDATA))"
    using dequeue_only[of ?d sizes n2 F r prev st hs c] d(1) ok2 ok(2,3) by auto
  let ?n3 = "n2\<lparr>npools := mp\<rparr>"
  have v3: "chain_view ?n3 (a # map fst frs) (?hdr @ ?ds)"
    using n2(2) by (simp only: chain_view_pools)
  have count: "set_ipst (\<lambda>s. s\<lparr>ip_reass_pbufcount := nat ((int (ip_reass_pbufcount s) - int c) mod 65536)\<rparr>)
      (unqueued (rst st r ?n3 ?d hs c)) = unqueued (rst st r ?n3 ?d hs 0)"
    by (simp add: unqueued_def set_ipst_def rst_def)
  have clen: "pbuf_clen (Some (Pool a)) ?n3 = Some c" using chain_clen[OF v3] len(2,3) by simp
  have "complete_datagram H r prev (rst st r n d hs c) = Some (Pool a, unqueued (rst st r ?n3 ?d hs 0))"
    unfolding complete_datagram_def Let_def rst_upd d(3)[symmetric]
    using p(1) n1(1,4) n2(1) mp(1) count clen by (simp add: unqueued_def del: store.simps)
  then show ?thesis using v3 mp(2) n2(4) only_buf_same(2)[OF n1(3)] away by (intro exI[of _ ?n3]) simp
qed

section \<open>The abstract queue\<close>

text \<open>
  A datagram that is put together: the header kept, whether the last fragment is here, the length it
  gave, and the fragments. A fragment is thrown away, or kept, or an assertion stops, or the datagram is whole.
\<close>

record assembly =
  a_hdr :: "u8 list"
  a_last :: bool
  a_len :: nat
  a_frs :: "frag list"

datatype outcome = Dropped assembly | Kept assembly | Stuck | Whole assembly

definition note_last :: "u8 list \<Rightarrow> assembly \<Rightarrow> assembly" where
  "note_last h A = (if IPH_OFFSET h AND IP_MF = 0 then A\<lparr>a_last := True, a_len := frag_end h\<rparr> else A)"

definition place_step :: "u8 list \<Rightarrow> nat \<Rightarrow> assembly \<Rightarrow> outcome" where
  "place_step h e A =
     (let s = frag_start h; x = (e, s, frag_end h); frs = a_frs A in
      case place_list s (frag_end h) None True frs of
        None \<Rightarrow> Dropped A
      | Some (k, v) \<Rightarrow>
          (let A' = A\<lparr>a_frs := insert_frag k x frs\<rparr> in
           if a_last A \<and> unbroken v k s frs \<and> starts_at_0 (a_frs A') \<and> joined_up (x # drop k frs)
           then (if ends_well (a_len A) (a_frs A') then Whole A' else Stuck)
           else Kept A'))"

definition better_hdr :: "u8 list \<Rightarrow> assembly \<Rightarrow> assembly" where
  "better_hdr h A = (if IPH_OFFSET h AND IP_OFFMASK = 0 \<and> IPH_OFFSET (a_hdr A) AND IP_OFFMASK \<noteq> 0 then A\<lparr>a_hdr := h\<rparr> else A)"

definition reass_step :: "u8 list \<Rightarrow> nat \<Rightarrow> assembly \<Rightarrow> outcome" where
  "reass_step h e A = place_step h e (note_last h (better_hdr h A))"

text \<open>The entry and its fragments in memory hold the assembly; \<open>F\<close> are the free elements of the pools.\<close>

definition entry_is :: "ip_reassdata \<Rightarrow> assembly \<Rightarrow> bool" where
  "entry_is d A = (r_next d = None \<and> r_iphdr d = a_hdr A \<and> length (a_hdr A) = 20 \<and>
     (r_flags d AND IP_REASS_FLAG_LASTFRAG \<noteq> 0) = a_last A \<and> datagram_len d = a_len A)"

definition holds :: "(memp_t \<Rightarrow> nat) \<Rightarrow> (memp_t \<Rightarrow> nat list) \<Rightarrow> nat \<Rightarrow> net \<Rightarrow> ip_reassdata \<Rightarrow> (loc \<Rightarrow> reass_helper) \<Rightarrow> assembly \<Rightarrow> (nat \<Rightarrow> u8 list) \<Rightarrow> bool" where
  "holds sizes F r n d hs A D = (entry_is d A \<and> frags hs (r_p d) (a_frs A) \<and> distinct (map fst (a_frs A)) \<and>
     (\<forall>q \<in> fst ` set (a_frs A). holds_data n q (D q) \<and> q \<notin> set (F MEMP_PBUF_POOL) \<and> q \<in> set (elems sizes MEMP_PBUF_POOL)) \<and>
     memp_ok sizes (npools n) F \<and> r \<in> set (elems sizes MEMP_REASSDATA) \<and> r \<notin> set (F MEMP_REASSDATA))"

text \<open>A fragment in buffer \<open>e\<close>, trimmed to its length.\<close>

definition fragment :: "net \<Rightarrow> nat \<Rightarrow> u8 list \<Rightarrow> u8 list \<Rightarrow> bool" where
  "fragment n e h d = ((\<exists>off x. view n e off 14 x \<and> 34 \<le> length x \<and> h = take 20 (drop 14 x) \<and> d = drop 34 x \<and> length x = 14 + IPH_LEN h) \<and>
     IPH_HL h = 5 \<and> frag_end h < 65536)"

lemma fragment_sel:
  assumes "fragment n e h d"
  shows "IPH_HL h = 5" "20 \<le> IPH_LEN h" "frag_end h < 65536" "holds_data n e d" "length d = IPH_LEN h - 20"
proof -
  obtain off x where x: "view n e off 14 x" "34 \<le> length x" "d = drop 34 x" "length x = 14 + IPH_LEN h" "IPH_HL h = 5" "frag_end h < 65536"
    using assms unfolding fragment_def by blast
  then show "IPH_HL h = 5" "20 \<le> IPH_LEN h" "frag_end h < 65536" "length d = IPH_LEN h - 20" by simp_all
  show "holds_data n e d" unfolding holds_data_def using x(1-3) by blast
qed

lemma or_last: "((x :: u8) OR 1) AND 1 \<noteq> 0"
  by (simp add: word_ao_dist)

lemma note_last_entry:
  "entry_is d A \<Longrightarrow> entry_is (if IPH_OFFSET h AND IP_MF = 0 then d\<lparr>r_flags := r_flags d OR IP_REASS_FLAG_LASTFRAG, datagram_len := frag_end h\<rparr> else d)
     (note_last h A)"
  using or_last[of "r_flags d"] by (simp add: entry_is_def note_last_def)

lemma insert_frag_set: "k \<le> length frs \<Longrightarrow> set (insert_frag k x frs) = insert x (set frs)"
proof -
  have "set frs = set (take k frs) \<union> set (drop k frs)" by (metis append_take_drop_id set_append)
  then show ?thesis by (auto simp: insert_frag_def)
qed

lemma insert_frag_distinct: "distinct (fst x # map fst frs) \<Longrightarrow> distinct (map fst (insert_frag k x frs))"
proof -
  assume d: "distinct (fst x # map fst frs)"
  have "map fst frs = map fst (take k frs) @ map fst (drop k frs)" by (simp flip: map_append)
  then show ?thesis using d by (auto simp: insert_frag_def)
qed

lemma holds_short: "holds_data n q d \<Longrightarrow> length d \<le> 566"
  by (auto simp: holds_data_def dest!: view_short)

lemma pieces_short: "\<forall>q \<in> fst ` set frs. length (D q) \<le> 566 \<Longrightarrow> length (concat (map (D \<circ> fst) frs)) \<le> 566 * length frs"
  by (induction frs) auto

lemma rp_entry: "entry_is (d\<lparr>r_p := p\<rparr>) A = entry_is d A" "entry_is d (A\<lparr>a_frs := frs\<rparr>) = entry_is d A"
  by (simp_all add: entry_is_def)

text \<open>The part of \<open>accept_frag\<close> behind the note of a last fragment.\<close>

definition place_or_finish :: "host \<Rightarrow> nat \<Rightarrow> nat option \<Rightarrow> nat \<Rightarrow> lan \<Rightarrow> (loc option \<times> lan) option" where
  "place_or_finish H r prev e st =
     Option.bind (ip_reass_chain_frag_into_datagram_and_validate H r (Pool e) st) (\<lambda>(valid, st).
       if valid then map_option (\<lambda>(p, st). (Some p, st)) (complete_datagram H r prev st) else Some (None, st))"

lemma place_or_finish_spec:
  assumes hold: "holds sizes F r n d hs A D" and f: "fragment n e h (D e)" and e: "e \<notin> fst ` set (a_frs A)" "e \<notin> set (F MEMP_PBUF_POOL)"
    "e \<in> set (elems sizes MEMP_PBUF_POOL)" and c: "c = Suc (length (a_frs A))" "length (a_frs A) \<le> 10"
  shows "case place_step h e A of
     Dropped A' \<Rightarrow> \<exists>n' hs'. place_or_finish H r prev e (rst st r n d hs c) = Some (None, rst st r n' d hs' (length (a_frs A))) \<and>
       holds sizes (F(MEMP_PBUF_POOL := e # F MEMP_PBUF_POOL)) r n' d hs' A' D \<and> nheap n' = nheap n \<and>
       untouched (insert e (fst ` set (a_frs A))) n n'
   | Kept A' \<Rightarrow> \<exists>n' d' hs'. place_or_finish H r prev e (rst st r n d hs c) = Some (None, rst st r n' d' hs' c) \<and>
       holds sizes F r n' d' hs' A' D \<and> nheap n' = nheap n \<and> length (a_frs A') = c \<and>
       untouched (insert e (fst ` set (a_frs A))) n n'
   | Stuck \<Rightarrow> place_or_finish H r prev e (rst st r n d hs c) = None
   | Whole A' \<Rightarrow> \<exists>n' d' hs'. place_or_finish H r prev e (rst st r n d hs c) =
         Some (Some (Pool (fst (a_frs A' ! 0))), unqueued (rst st r n' d' hs' 0)) \<and>
       chain_view n' (map fst (a_frs A')) (datagram_hdr (a_hdr A) (trunc16 (a_len A + 20)) @ concat (map (D \<circ> fst) (a_frs A'))) \<and>
       memp_ok sizes (npools n') (F(MEMP_REASSDATA := r # F MEMP_REASSDATA)) \<and> nheap n' = nheap n \<and>
       untouched (insert e (fst ` set (a_frs A))) n n'"
proof -
  let ?S = "insert e (fst ` set (a_frs A))"
  obtain off x where v: "view n e off 14 x" "34 \<le> length x" "h = take 20 (drop 14 x)" "D e = drop 34 x" "length x = 14 + IPH_LEN h"
    "IPH_HL h = 5" "frag_end h < 65536"
    using f unfolding fragment_def by blast
  have ent: "entry_is d A" "frags hs (r_p d) (a_frs A)" "distinct (map fst (a_frs A))" "memp_ok sizes (npools n) F"
    "\<forall>q \<in> fst ` set (a_frs A). holds_data n q (D q) \<and> q \<notin> set (F MEMP_PBUF_POOL) \<and> q \<in> set (elems sizes MEMP_PBUF_POOL)"
    "r \<in> set (elems sizes MEMP_REASSDATA)" "r \<notin> set (F MEMP_REASSDATA)"
    using hold by (auto simp: holds_def)
  have De: "holds_data n e (D e)" unfolding holds_data_def using v(1,2,4) by blast
  define s where "s = frag_start h" define fin where "fin = frag_end h"
  have dis: "distinct (e # map fst (a_frs A))" using ent(3) e(1) by simp
  have spec: "case place_list s fin None True (a_frs A) of
     None \<Rightarrow> \<exists>n'. ip_reass_chain_frag_into_datagram_and_validate H r (Pool e) (rst st r n d hs c) =
        Some (False, rst st r n' d (hs(Pool e := \<lparr>next_pbuf = None, h_start = s, h_end = fin\<rparr>)) (c - 1)) \<and>
        memp_ok sizes (npools n') (F(MEMP_PBUF_POOL := e # F MEMP_PBUF_POOL)) \<and> nheap n' = nheap n \<and>
        (\<forall>q y. q \<noteq> e \<longrightarrow> holds_data n q y \<longrightarrow> holds_data n' q y) \<and> untouched {e} n n'
   | Some (k, v) \<Rightarrow> \<exists>n'. same_data ?S n n' \<and>
        (let st' = rst st r n' (if k = 0 then d\<lparr>r_p := Some (Pool e)\<rparr> else d) (with_new hs k (e, s, fin) (a_frs A)) c in
        ip_reass_chain_frag_into_datagram_and_validate H r (Pool e) (rst st r n d hs c) =
        map_option (\<lambda>ok. (ok, st')) (validate r (Pool e) (unbroken v k s (a_frs A)) st'))"
    using chain_frag_spec[OF v(1,3,6) _ v(2) s_def fin_def _ ent(2) dis, of D sizes F c H r st] ent(4,5) e v(2,5,7) c fin_def by auto
  show ?thesis
  proof (cases "place_list s fin None True (a_frs A)")
    case None
    then obtain n' where n': "ip_reass_chain_frag_into_datagram_and_validate H r (Pool e) (rst st r n d hs c) =
        Some (False, rst st r n' d (hs(Pool e := \<lparr>next_pbuf = None, h_start = s, h_end = fin\<rparr>)) (c - 1))"
        "memp_ok sizes (npools n') (F(MEMP_PBUF_POOL := e # F MEMP_PBUF_POOL))" "nheap n' = nheap n"
        "\<And>q y. q \<noteq> e \<Longrightarrow> holds_data n q y \<Longrightarrow> holds_data n' q y" "untouched {e} n n'"
      using spec by auto
    have "holds sizes (F(MEMP_PBUF_POOL := e # F MEMP_PBUF_POOL)) r n' d (hs(Pool e := \<lparr>next_pbuf = None, h_start = s, h_end = fin\<rparr>)) A D"
    proof -
      have ne: "\<forall>q \<in> fst ` set (a_frs A). q \<noteq> e" using e(1) by blast
      then have "frags (hs(Pool e := \<lparr>next_pbuf = None, h_start = s, h_end = fin\<rparr>)) (r_p d) (a_frs A)"
        using frags_same[OF ent(2), of "hs(Pool e := \<lparr>next_pbuf = None, h_start = s, h_end = fin\<rparr>)"] by simp
      moreover have "\<forall>q \<in> fst ` set (a_frs A). holds_data n' q (D q) \<and> q \<notin> set (e # F MEMP_PBUF_POOL) \<and> q \<in> set (elems sizes MEMP_PBUF_POOL)"
        using ne n'(4) ent(5) by simp
      ultimately show ?thesis using ent(1,3,6,7) n'(2) by (simp add: holds_def)
    qed
    then show ?thesis using n'(1,3) untouched_mono[OF n'(5), of ?S] None c(1)
      by (auto simp: place_step_def place_or_finish_def Let_def s_def fin_def)
  next
    case (Some kv)
    obtain k w where kw: "kv = (k, w)" by (cases kv)
    have k: "k \<le> length (a_frs A)" using place_list_le Some kw by blast
    let ?x = "(e, s, fin)" let ?frs = "insert_frag k ?x (a_frs A)"
    define d1 where "d1 = (if k = 0 then d\<lparr>r_p := Some (Pool e)\<rparr> else d)"
    let ?hs = "with_new hs k ?x (a_frs A)"
    obtain n1 where n1: "same_data ?S n n1" "ip_reass_chain_frag_into_datagram_and_validate H r (Pool e) (rst st r n d hs c) =
        map_option (\<lambda>ok. (ok, rst st r n1 d1 ?hs c)) (validate r (Pool e) (unbroken w k s (a_frs A)) (rst st r n1 d1 ?hs c))"
      using spec unfolding Some kw d1_def by (auto simp: Let_def)
    have fr: "frags ?hs (r_p d1) ?frs" using frags_with_new[OF ent(2) k, of ?x] dis by (simp add: d1_def split: if_splits)
    have sets: "set ?frs = insert ?x (set (a_frs A))" "distinct (map fst ?frs)" "length ?frs = c"
      using insert_frag_set[OF k] insert_frag_distinct[of ?x "a_frs A" k] dis k c by (simp_all add: insert_frag_def)
    have ent1: "entry_is d1 (A\<lparr>a_frs := ?frs\<rparr>)" using ent(1) by (simp add: rp_entry d1_def)
    have data1: "\<forall>q \<in> fst ` set ?frs. holds_data n1 q (D q) \<and> q \<notin> set (F MEMP_PBUF_POOL) \<and> q \<in> set (elems sizes MEMP_PBUF_POOL)"
      using sets(1) ent(5) De e n1(1) by (auto simp: same_data_def)
    have ok1: "memp_ok sizes (npools n1) F" "nheap n1 = nheap n" "untouched ?S n n1" using ent(4) n1(1) by (simp_all add: same_data_def)
    have holds1: "holds sizes F r n1 d1 ?hs (A\<lparr>a_frs := ?frs\<rparr>) D"
      using ent1 fr sets(2) data1 ok1(1) ent(6,7) by (simp add: holds_def)
    note dec = validate_list[OF fr dis k, of r "unbroken w k s (a_frs A)" st n1 c]
    have flags: "(r_flags d1 AND IP_REASS_FLAG_LASTFRAG \<noteq> 0) = a_last A" "datagram_len d1 = a_len A" "r_iphdr d1 = a_hdr A"
      "r_next d1 = None" "length (a_hdr A) = 20"
      using ent(1) by (auto simp: entry_is_def d1_def)
    define go where "go = (a_last A \<and> unbroken w k s (a_frs A) \<and> starts_at_0 ?frs \<and> joined_up (?x # drop k (a_frs A)))"
    have step: "place_step h e A = (if go then (if ends_well (a_len A) ?frs then Whole (A\<lparr>a_frs := ?frs\<rparr>) else Stuck) else Kept (A\<lparr>a_frs := ?frs\<rparr>))"
      using Some kw by (simp add: place_step_def Let_def s_def fin_def go_def)
    have dec': "validate r (Pool e) (unbroken w k s (a_frs A)) (rst st r n1 d1 ?hs c) =
        (if go then (if ends_well (a_len A) ?frs then Some True else None) else Some False)"
      unfolding dec flags go_def by simp
    show ?thesis
    proof (cases "go \<and> ends_well (a_len A) ?frs")
      case False
      show ?thesis
      proof (cases go)
        case False
        then have "place_or_finish H r prev e (rst st r n d hs c) = Some (None, rst st r n1 d1 ?hs c)"
          using n1(2) dec' by (simp add: place_or_finish_def)
        moreover have "place_step h e A = Kept (A\<lparr>a_frs := ?frs\<rparr>)" using False step by simp
        ultimately show ?thesis using holds1 ok1(2,3) sets(3) by auto
      next
        case True
        with False have "validate r (Pool e) (unbroken w k s (a_frs A)) (rst st r n1 d1 ?hs c) = None" using dec' by simp
        moreover have "place_step h e A = Stuck" using True False step by simp
        ultimately show ?thesis using n1(2) by (simp add: place_or_finish_def)
      qed
    next
      case True
      obtain a as ae rest where a: "?frs = (a, as, ae) # rest" by (cases ?frs) (auto simp: insert_frag_def)
      have short: "length (concat (map (D \<circ> fst) ?frs)) \<le> 566 * length ?frs"
        by (rule pieces_short) (use data1 holds_short in blast)
      have pre: "distinct (a # map fst rest)" "holds_data n1 a (D a)" "\<forall>q \<in> fst ` set rest. holds_data n1 q (D q)" "c = length rest + 1" "c < 256"
        "20 + length (concat (map (D \<circ> fst) ((a, as, ae) # rest))) < 65536"
        using sets(2,3) data1 c short unfolding a by auto
      obtain n2 where n2: "complete_datagram H r prev (rst st r n1 d1 ?hs c) =
          Some (Pool a, unqueued (rst st r n2 (d1\<lparr>datagram_len := trunc16 (a_len A + 20)\<rparr>) ?hs 0))"
        "chain_view n2 (a # map fst rest) (datagram_hdr (a_hdr A) (trunc16 (a_len A + 20)) @ concat (map (D \<circ> fst) ((a, as, ae) # rest)))"
        "memp_ok sizes (npools n2) (F(MEMP_REASSDATA := r # F MEMP_REASSDATA))" "nheap n2 = nheap n1" "untouched (insert a (fst ` set rest)) n1 n2"
        using complete_datagram_spec[OF fr[unfolded a] pre(1-3) flags(4) _ refl ok1(1) ent(6,7) pre(6,4,5), of H prev st] flags by auto
      have "insert a (fst ` set rest) = ?S" using arg_cong[OF sets(1), of "image fst"] unfolding a by simp
      then have away: "untouched ?S n n2" using untouched_trans[OF ok1(3)] n2(5) by simp
      have "place_or_finish H r prev e (rst st r n d hs c) =
          Some (Some (Pool (fst (?frs ! 0))), unqueued (rst st r n2 (d1\<lparr>datagram_len := trunc16 (a_len A + 20)\<rparr>) ?hs 0)) \<and>
        chain_view n2 (map fst ?frs) (datagram_hdr (a_hdr A) (trunc16 (a_len A + 20)) @ concat (map (D \<circ> fst) ?frs)) \<and>
        memp_ok sizes (npools n2) (F(MEMP_REASSDATA := r # F MEMP_REASSDATA)) \<and> nheap n2 = nheap n \<and> untouched ?S n n2"
        using True n1(2) dec' ok1(2) away n2(1-4) unfolding a by (simp add: place_or_finish_def)
      moreover have "place_step h e A = Whole (A\<lparr>a_frs := ?frs\<rparr>)" using True step by simp
      ultimately show ?thesis by auto
    qed
  qed
qed

end
