(* ===== verification/ReassClaims.thy ===== *)
theory ReassClaims
  imports ReassChain
begin

text \<open>
  What \<open>ip_reass\<close> does with a fragment when no datagram waits or one that it belongs to, and
  what follows from it: datagrams that are put together, and those that should not be.
\<close>

unbundle bit_operations_syntax

section \<open>One datagram at a time\<close>

text \<open>Nothing but the network memory and the state of the IP modules differs.\<close>

definition same_rest :: "lan \<Rightarrow> lan \<Rightarrow> bool" where
  "same_rest st st' = (st'\<lparr>lnet := lnet st, ipst := ipst st\<rparr> = st \<and> nheap (lnet st') = nheap (lnet st))"

definition waits :: "(memp_t \<Rightarrow> nat) \<Rightarrow> (memp_t \<Rightarrow> nat list) \<Rightarrow> lan \<Rightarrow> nat \<Rightarrow> assembly \<Rightarrow> (nat \<Rightarrow> u8 list) \<Rightarrow> bool" where
  "waits sizes F st r A D = (reassdatagrams (ipst st) = Some r \<and> ip_reass_pbufcount (ipst st) = length (a_frs A) \<and>
     holds sizes F r (lnet st) (reass_at st r) (reass_helpers (ipst st)) A D)"

definition idle :: "(memp_t \<Rightarrow> nat) \<Rightarrow> (memp_t \<Rightarrow> nat list) \<Rightarrow> lan \<Rightarrow> bool" where
  "idle sizes F st = (reassdatagrams (ipst st) = None \<and> ip_reass_pbufcount (ipst st) = 0 \<and> memp_ok sizes (npools (lnet st)) F)"

text \<open>Only the new buffer and those of the datagram differ.\<close>

definition only_in :: "nat \<Rightarrow> assembly \<Rightarrow> lan \<Rightarrow> lan \<Rightarrow> bool" where
  "only_in e A st st' = untouched (insert e (fst ` set (a_frs A))) (lnet st) (lnet st')"

text \<open>What the abstract step says, of the result of \<open>ip_reass\<close>.\<close>

definition implements :: "outcome \<Rightarrow> (memp_t \<Rightarrow> nat) \<Rightarrow> (memp_t \<Rightarrow> nat list) \<Rightarrow> lan \<Rightarrow> nat \<Rightarrow> nat \<Rightarrow> (nat \<Rightarrow> u8 list) \<Rightarrow> (loc option \<times> lan) option \<Rightarrow> bool" where
  "implements oc sizes F st r e D res = (case oc of
       Dropped A \<Rightarrow> \<exists>st'. res = Some (None, st') \<and> same_rest st st' \<and> only_in e A st st' \<and> waits sizes (F(MEMP_PBUF_POOL := e # F MEMP_PBUF_POOL)) st' r A D
     | Kept A \<Rightarrow> \<exists>st'. res = Some (None, st') \<and> same_rest st st' \<and> only_in e A st st' \<and> waits sizes F st' r A D
     | Stuck \<Rightarrow> res = None
     | Whole A \<Rightarrow> \<exists>st'. res = Some (Some (Pool (fst (a_frs A ! 0))), st') \<and> same_rest st st' \<and> only_in e A st st' \<and>
         idle sizes (F(MEMP_REASSDATA := r # F MEMP_REASSDATA)) st' \<and>
         chain_view (lnet st') (map fst (a_frs A)) (datagram_hdr (a_hdr A) (trunc16 (a_len A + 20)) @ concat (map (D \<circ> fst) (a_frs A))))"

lemma rst_rest: "nheap n' = nheap n \<Longrightarrow> same_rest (rst st r n d hs c) (rst st r n' d' hs' c')"
  "nheap n' = nheap n \<Longrightarrow> same_rest (rst st r n d hs c) (unqueued (rst st r n' d' hs' c'))"
  by (simp_all add: same_rest_def rst_def unqueued_def set_ipst_def)

lemma rest_trans: "same_rest a b \<Longrightarrow> same_rest b c \<Longrightarrow> same_rest a c"
  by (cases a; cases b; cases c) (simp add: same_rest_def)

lemma rst_waits: "waits sizes F (rst st r n d hs c) r A D = (c = length (a_frs A) \<and> holds sizes F r n d hs A D)"
  by (auto simp: waits_def)

lemma unqueued_idle: "idle sizes F (unqueued (rst st r n d hs 0)) = memp_ok sizes (npools n) F"
  by (simp add: idle_def unqueued_def set_ipst_def rst_def)

lemma unqueued_lnet: "lnet (unqueued st) = lnet st"
  by (simp add: unqueued_def)

lemma hdr_kept [simp]: "a_hdr (note_last h A) = a_hdr A" "a_frs (note_last h A) = a_frs A" "a_frs (better_hdr h A) = a_frs A"
  by (simp_all add: note_last_def better_hdr_def)

lemma place_hdr: "place_step h e A = Whole A' \<Longrightarrow> a_hdr A' = a_hdr A \<and> a_len A' = a_len A"
  by (auto simp: place_step_def Let_def split: option.splits if_splits prod.splits)

lemma place_set: "place_step h e A = Kept A' \<or> place_step h e A = Whole A' \<Longrightarrow> fst ` set (a_frs A) \<subseteq> fst ` set (a_frs A')"
proof -
  assume p: "place_step h e A = Kept A' \<or> place_step h e A = Whole A'"
  then obtain k v where "place_list (frag_start h) (frag_end h) None True (a_frs A) = Some (k, v)"
    "a_frs A' = insert_frag k (e, frag_start h, frag_end h) (a_frs A)"
    by (auto simp: place_step_def Let_def split: option.splits if_splits)
  then have k: "k \<le> length (a_frs A)" "a_frs A' = insert_frag k (e, frag_start h, frag_end h) (a_frs A)"
    using place_list_le by blast+
  then show ?thesis using insert_frag_set[OF k(1)] by auto
qed

lemma accept_frag_eq:
  assumes "IPH_HL h = 5" and "20 \<le> IPH_LEN h" and "frag_end h < 65536" and "c < 65535"
  shows "accept_frag H (Pool e) h 1 r prev (rst st r n d hs c) = place_or_finish H r prev e
     (rst st r n (if IPH_OFFSET h AND IP_MF = 0 then d\<lparr>r_flags := r_flags d OR IP_REASS_FLAG_LASTFRAG, datagram_len := frag_end h\<rparr> else d) hs (Suc c))"
proof -
  have t: "trunc16 (frag_start h + (IPH_LEN h - 20)) = frag_end h" "trunc16 (c + 1) = Suc c"
    using assms(3,4) by (simp_all add: frag_end_def)
  show ?thesis
    unfolding accept_frag_def good_hdr[OF assms(1,2)] frag_start_def[symmetric] Let_def rst_upd t place_or_finish_def
    by (cases "IPH_OFFSET h AND IP_MF = 0") (simp_all only: rst_upd if_True if_False simp_thms)
qed

lemma accept_implements:
  assumes hold: "holds sizes F r n d hs A D" and f: "fragment n e h (D e)" and e: "e \<notin> fst ` set (a_frs A)" "e \<notin> set (F MEMP_PBUF_POOL)"
    "e \<in> set (elems sizes MEMP_PBUF_POOL)" and c: "c = length (a_frs A)" "length (a_frs A) \<le> 10"
  shows "implements (place_step h e (note_last h A)) sizes F (rst st r n d hs c) r e D (accept_frag H (Pool e) h 1 r prev (rst st r n d hs c))"
proof -
  define B where "B = note_last h A" define S where "S = insert e (fst ` set (a_frs B))"
  define d1 where "d1 = (if IPH_OFFSET h AND IP_MF = 0 then d\<lparr>r_flags := r_flags d OR IP_REASS_FLAG_LASTFRAG, datagram_len := frag_end h\<rparr> else d)"
  have B: "a_frs B = a_frs A" by (simp add: B_def)
  have ent: "holds sizes F r n d1 hs B D"
    using hold note_last_entry[of d A h] by (auto simp: holds_def B_def d1_def)
  note eq = accept_frag_eq[OF fragment_sel(1-3)[OF f], of c H e r prev st n d hs, folded d1_def]
  have spec: "case place_step h e B of
     Dropped A' \<Rightarrow> \<exists>n' hs'. place_or_finish H r prev e (rst st r n d1 hs (Suc c)) = Some (None, rst st r n' d1 hs' (length (a_frs B))) \<and>
       holds sizes (F(MEMP_PBUF_POOL := e # F MEMP_PBUF_POOL)) r n' d1 hs' A' D \<and> nheap n' = nheap n \<and> untouched S n n'
   | Kept A' \<Rightarrow> \<exists>n' d' hs'. place_or_finish H r prev e (rst st r n d1 hs (Suc c)) = Some (None, rst st r n' d' hs' (Suc c)) \<and>
       holds sizes F r n' d' hs' A' D \<and> nheap n' = nheap n \<and> length (a_frs A') = Suc c \<and> untouched S n n'
   | Stuck \<Rightarrow> place_or_finish H r prev e (rst st r n d1 hs (Suc c)) = None
   | Whole A' \<Rightarrow> \<exists>n' d' hs'. place_or_finish H r prev e (rst st r n d1 hs (Suc c)) =
         Some (Some (Pool (fst (a_frs A' ! 0))), unqueued (rst st r n' d' hs' 0)) \<and>
       chain_view n' (map fst (a_frs A')) (datagram_hdr (a_hdr B) (trunc16 (a_len B + 20)) @ concat (map (D \<circ> fst) (a_frs A'))) \<and>
       memp_ok sizes (npools n') (F(MEMP_REASSDATA := r # F MEMP_REASSDATA)) \<and> nheap n' = nheap n \<and> untouched S n n'"
    using place_or_finish_spec[OF ent f, of "Suc c" H prev st] e c B unfolding S_def by simp
  have away: "untouched (insert e (fst ` set (a_frs A'))) n n'"
    if "untouched S n n'" "place_step h e B = Kept A' \<or> place_step h e B = Whole A'" for A' n'
    by (rule untouched_mono[OF that(1)]) (use place_set[OF that(2)] in \<open>auto simp: S_def\<close>)
  show ?thesis
    unfolding B_def[symmetric]
  proof (cases "place_step h e B")
    case (Dropped A')
    then have A': "a_frs A' = a_frs B" by (auto simp: place_step_def Let_def split: option.splits if_splits)
    obtain n' hs' where n': "place_or_finish H r prev e (rst st r n d1 hs (Suc c)) = Some (None, rst st r n' d1 hs' (length (a_frs B)))"
       "holds sizes (F(MEMP_PBUF_POOL := e # F MEMP_PBUF_POOL)) r n' d1 hs' A' D" "nheap n' = nheap n" "untouched S n n'"
      using spec unfolding Dropped by auto
    then show "implements (place_step h e B) sizes F (rst st r n d hs c) r e D (accept_frag H (Pool e) h 1 r prev (rst st r n d hs c))"
      unfolding Dropped implements_def outcome.case using eq c rst_rest(1)[OF n'(3)] A' B
      by (intro exI[of _ "rst st r n' d1 hs' (length (a_frs B))"]) (simp add: rst_waits only_in_def S_def)
  next
    case (Kept A')
    obtain n' d' hs' where n': "place_or_finish H r prev e (rst st r n d1 hs (Suc c)) = Some (None, rst st r n' d' hs' (Suc c))"
       "holds sizes F r n' d' hs' A' D" "nheap n' = nheap n" "length (a_frs A') = Suc c" "untouched S n n'"
      using spec unfolding Kept by auto
    then show "implements (place_step h e B) sizes F (rst st r n d hs c) r e D (accept_frag H (Pool e) h 1 r prev (rst st r n d hs c))"
      unfolding Kept implements_def outcome.case using eq c rst_rest(1)[OF n'(3)] away[OF n'(5)] Kept
      by (intro exI[of _ "rst st r n' d' hs' (Suc c)"]) (simp add: rst_waits only_in_def)
  next
    case Stuck
    then show "implements (place_step h e B) sizes F (rst st r n d hs c) r e D (accept_frag H (Pool e) h 1 r prev (rst st r n d hs c))"
      using spec eq c by (simp add: implements_def)
  next
    case (Whole A')
    obtain n' d' hs' where n': "place_or_finish H r prev e (rst st r n d1 hs (Suc c)) =
         Some (Some (Pool (fst (a_frs A' ! 0))), unqueued (rst st r n' d' hs' 0))"
       "chain_view n' (map fst (a_frs A')) (datagram_hdr (a_hdr A') (trunc16 (a_len A' + 20)) @ concat (map (D \<circ> fst) (a_frs A')))"
       "memp_ok sizes (npools n') (F(MEMP_REASSDATA := r # F MEMP_REASSDATA))" "nheap n' = nheap n" "untouched S n n'"
      using spec place_hdr[OF Whole] unfolding Whole by auto
    then show "implements (place_step h e B) sizes F (rst st r n d hs c) r e D (accept_frag H (Pool e) h 1 r prev (rst st r n d hs c))"
      unfolding Whole implements_def outcome.case using eq c rst_rest(2)[OF n'(4)] away[OF n'(5)] Whole
      by (intro exI[of _ "unqueued (rst st r n' d' hs' 0)"]) (simp add: unqueued_idle unqueued_lnet only_in_def)
  qed
qed

text \<open>The fragment belongs to no datagram that waits, and an entry is free.\<close>

definition fresh :: "(memp_t \<Rightarrow> nat) \<Rightarrow> (memp_t \<Rightarrow> nat list) \<Rightarrow> assembly \<Rightarrow> nat \<Rightarrow> bool" where
  "fresh sizes F A e = (e \<notin> fst ` set (a_frs A) \<and> e \<notin> set (F MEMP_PBUF_POOL) \<and> e \<in> set (elems sizes MEMP_PBUF_POOL))"

definition new_assembly :: "u8 list \<Rightarrow> assembly" where
  "new_assembly h = \<lparr>a_hdr = h, a_last = False, a_len = 0, a_frs = []\<rparr>"

lemma implements_rest:
  assumes "same_rest st st1" and "untouched {} (lnet st) (lnet st1)"
  shows "implements oc sizes F st1 r e D res \<Longrightarrow> implements oc sizes F st r e D res"
proof -
  have "only_in e A st1 st2 \<Longrightarrow> only_in e A st st2" for A st2
    using untouched_trans[OF untouched_mono[OF assms(2)]] by (auto simp: only_in_def)
  then show "implements oc sizes F st1 r e D res \<Longrightarrow> implements oc sizes F st r e D res"
    by (cases oc) (auto simp: implements_def intro: rest_trans[OF assms(1)])
qed

lemma fragment_hdr: "fragment n e h d \<Longrightarrow> length h = 20"
proof -
  assume "fragment n e h d"
  then obtain x where "34 \<le> length x" "h = take 20 (drop 14 x)" unfolding fragment_def by blast
  then show "length h = 20" by simp
qed

lemma ip_reass_head:
  assumes f: "fragment (lnet st) e h d" and room: "ip_reass_pbufcount (ipst st) < 10"
  shows "ip_reass H (Pool e) st = do {
       (ipr, ipr_prev) \<leftarrow> find_datagram h (reassdatagrams (ipst st)) None st;
       (case ipr of
          None \<Rightarrow> do {
            (ipr, st) \<leftarrow> ip_reass_enqueue_new_datagram H h 1 st;
            (case ipr of
               None \<Rightarrow> map_option (\<lambda>st. (None, st)) (release (hport H) (Pool e) st)
             | Some ipr \<Rightarrow> accept_frag H (Pool e) h 1 ipr ipr_prev st)
          }
        | Some ipr \<Rightarrow>
            accept_frag H (Pool e) h 1 ipr ipr_prev
              (if IPH_OFFSET h AND IP_OFFMASK = 0 \<and> IPH_OFFSET (r_iphdr (reass_at st ipr)) AND IP_OFFMASK \<noteq> 0
               then set_reass ipr (\<lambda>r. r\<lparr>r_iphdr := h\<rparr>) st else st))
     }"
proof -
  obtain off x where x: "view (lnet st) e off 14 x" "34 \<le> length x" "h = take 20 (drop 14 x)"
    using f unfolding fragment_def by blast
  have "fetch (payload (buf st (Pool e))) 0 20 st = Some h"
    using fetch_view[OF x(1), of 14 0 20] x(2,3) view_sel(1)[OF x(1)] by (simp add: buf_def)
  moreover have "pbuf_clen (Some (Pool e)) (lnet st) = Some 1" by (rule holds_single[OF fragment_sel(4)[OF f]])
  ultimately show ?thesis using fragment_sel(1)[OF f] room by (simp add: ip_reass_def del: One_nat_def)
qed

lemma ip_reass_waiting:
  assumes w: "waits sizes F st r A D" and f: "fragment (lnet st) e h (D e)" and fresh: "fresh sizes F A e"
    and m: "IP_ADDRESSES_AND_ID_MATCH (a_hdr A) h" and room: "length (a_frs A) < 10"
  shows "implements (reass_step h e A) sizes F st r e D (ip_reass H (Pool e) st)"
proof -
  define d where "d = reass_at st r" define c where "c = length (a_frs A)" define hs where "hs = reass_helpers (ipst st)"
  have q: "reassdatagrams (ipst st) = Some r" "ip_reass_pbufcount (ipst st) = c" "holds sizes F r (lnet st) d hs A D"
    using w by (simp_all add: waits_def d_def c_def hs_def)
  have st: "st = rst st r (lnet st) d hs c" using rst_same[OF q(1)] q(2) by (simp add: d_def hs_def)
  have hdr: "r_iphdr d = a_hdr A" "length h = 20" using q(3) fragment_hdr[OF f] by (simp_all add: holds_def entry_is_def)
  let ?swap = "IPH_OFFSET h AND IP_OFFMASK = 0 \<and> IPH_OFFSET (a_hdr A) AND IP_OFFMASK \<noteq> 0"
  let ?d = "if ?swap then d\<lparr>r_iphdr := h\<rparr> else d"
  have "find_datagram h (Some r) None st = Some (Some r, None)"
    using m hdr(1) by (subst find_datagram.simps) (simp add: d_def)
  moreover have "(if ?swap then set_reass r (\<lambda>r. r\<lparr>r_iphdr := h\<rparr>) st else st) = rst st r (lnet st) ?d hs c"
    by (subst (1 2) st) simp
  ultimately have go: "ip_reass H (Pool e) st = accept_frag H (Pool e) h 1 r None (rst st r (lnet st) ?d hs c)"
    using ip_reass_head[OF f, of H] q(1,2) room hdr(1) by (simp add: d_def c_def)
  have "holds sizes F r (lnet st) ?d hs (better_hdr h A) D"
    using q(3) hdr by (auto simp: holds_def entry_is_def better_hdr_def)
  from accept_implements[OF this f, of c st H None] fresh room
  have "implements (reass_step h e A) sizes F (rst st r (lnet st) ?d hs c) r e D (ip_reass H (Pool e) st)"
    unfolding go by (simp add: fresh_def c_def reass_step_def)
  moreover have "same_rest st (rst st r (lnet st) ?d hs c)" by (subst (1) st) (rule rst_rest(1), rule refl)
  ultimately show ?thesis using implements_rest by (metis rst_sel(1) untouched_refl)
qed

lemma fragment_pools: "fragment (n\<lparr>npools := mp\<rparr>) e h d = fragment n e h d"
  by (simp add: fragment_def view_def pool_buf_def)

lemma ip_reass_first:
  assumes i: "idle sizes F st" and f: "fragment (lnet st) e h (D e)" and fresh: "fresh sizes F (new_assembly h) e"
    and F: "F MEMP_REASSDATA = r # rs"
  shows "implements (place_step h e (note_last h (new_assembly h))) sizes (F(MEMP_REASSDATA := rs)) st r e D (ip_reass H (Pool e) st)"
proof -
  have q: "reassdatagrams (ipst st) = None" "ip_reass_pbufcount (ipst st) = 0" "memp_ok sizes (npools (lnet st)) F"
    using i by (simp_all add: idle_def)
  obtain mp where mp: "memp_malloc MEMP_REASSDATA (npools (lnet st)) = Some (Some r, mp)" "memp_ok sizes mp (F(MEMP_REASSDATA := rs))"
    using memp_malloc_spec[OF q(3), of MEMP_REASSDATA] F by auto
  have r: "r \<in> set (elems sizes MEMP_REASSDATA)" "r \<notin> set rs" using q(3) F by (auto simp: memp_ok_def dest!: spec[of _ MEMP_REASSDATA])
  define d where "d = zero_reassdata\<lparr>r_timer := IP_REASS_MAXAGE, r_next := None, r_iphdr := h\<rparr>"
  let ?n = "(lnet st)\<lparr>npools := mp\<rparr>" let ?hs = "reass_helpers (ipst st)"
  have new: "ip_reass_enqueue_new_datagram H h 1 st = Some (Some r, rst st r ?n d ?hs 0)"
    using mp(1) q(1,2) by (simp add: ip_reass_enqueue_new_datagram_def reassdata_malloc_def set_reass_def set_ipst_def rst_def d_def)
  have "find_datagram h None None st = Some (None, None)" by (subst find_datagram.simps) simp
  then have go: "ip_reass H (Pool e) st = accept_frag H (Pool e) h 1 r None (rst st r ?n d ?hs 0)"
    using ip_reass_head[OF f, of H] q(1,2) new by simp
  have "holds sizes (F(MEMP_REASSDATA := rs)) r ?n d ?hs (new_assembly h) D"
    using mp(2) r fragment_hdr[OF f] by (simp add: holds_def entry_is_def new_assembly_def d_def zero_reassdata_def)
  from accept_implements[OF this, of e h 0 st H None] f fresh
  have "implements (place_step h e (note_last h (new_assembly h))) sizes (F(MEMP_REASSDATA := rs)) (rst st r ?n d ?hs 0) r e D (ip_reass H (Pool e) st)"
    unfolding go by (simp add: fresh_def new_assembly_def fragment_pools)
  moreover have "same_rest st (rst st r ?n d ?hs 0)" by (simp add: same_rest_def rst_def)
  moreover have "untouched {} (lnet st) (lnet (rst st r ?n d ?hs 0))" by (simp add: untouched_def)
  ultimately show ?thesis using implements_rest by blast
qed

text \<open>Claim C15: while one datagram waits, \<open>ip_reass\<close> implements the abstract queue. A fragment that belongs to the datagram is placed in the list
  of the fragments in memory as the list algorithm places it, or goes back to the pool, or completes the datagram, which comes back
  as one packet while the queue becomes empty, or an assertion stops. Only the buffers concerned and the
  state of the IP modules change.\<close>

theorem fragment_joins_datagram:
  assumes "waits sizes F st r A D" and "fragment (lnet st) e h (D e)" and "fresh sizes F A e"
    and "IP_ADDRESSES_AND_ID_MATCH (a_hdr A) h" and "length (a_frs A) < 10"
  shows "implements (reass_step h e A) sizes F st r e D (ip_reass H (Pool e) st)"
  by (rule ip_reass_waiting[OF assms])

end
