(* ===== verification/ReassTraces.thy ===== *)
theory ReassTraces
  imports ReassClaims
begin

text \<open>
  Fragments given to \<open>ip_reass\<close> one after the other: in order they give the datagram; with a hole
  they may, too; and two last fragments that disagree stop the board.
\<close>

unbundle bit_operations_syntax

section \<open>Steps that keep the fragment\<close>

lemma frag_start_eq: "frag_start h = 8 * unat (IPH_OFFSET h AND IP_OFFMASK)"
proof -
  have "IPH_OFFSET h AND IP_OFFMASK \<le> IP_OFFMASK" by (rule word_and_le1)
  then have "unat (IPH_OFFSET h AND IP_OFFMASK) \<le> 0x1fff" by (simp add: word_le_nat_alt)
  then show ?thesis by (simp add: frag_start_def unat_word_ariths)
qed

lemma untouched_fragment: "untouched S n n' \<Longrightarrow> q \<notin> S \<Longrightarrow> fragment n' q h d = fragment n q h d"
proof -
  assume "untouched S n n'" "q \<notin> S"
  then have "view n' q off k x = view n q off k x" for off k x by (intro same_buf_view) (simp_all add: untouched_def)
  then show ?thesis unfolding fragment_def by (simp only:)
qed

lemma implements_kept:
  assumes "implements (Kept A') sizes F st r e D res"
  shows "\<exists>st'. res = Some (None, st') \<and> same_rest st st' \<and> waits sizes F st' r A' D \<and>
     (\<forall>q h d. q \<noteq> e \<longrightarrow> q \<notin> fst ` set (a_frs A') \<longrightarrow> fragment (lnet st) q h d \<longrightarrow> fragment (lnet st') q h d)"
proof -
  obtain st' where st': "res = Some (None, st')" "same_rest st st'" "only_in e A' st st'" "waits sizes F st' r A' D"
    using assms by (auto simp: implements_def)
  have "fragment (lnet st') q h d" if "q \<noteq> e" "q \<notin> fst ` set (a_frs A')" "fragment (lnet st) q h d" for q h d
    using untouched_fragment[OF st'(3)[unfolded only_in_def], of q h d] that by blast
  then show ?thesis using st' by blast
qed

section \<open>Fragments in order\<close>

fun feed :: "host \<Rightarrow> nat list \<Rightarrow> lan \<Rightarrow> (nat list \<times> loc option \<times> lan) option" where
  "feed H [] st = Some ([], None, st)"
| "feed H (e # es) st = Option.bind (ip_reass H (Pool e) st) (\<lambda>(r, st). if r = None then feed H es st else Some (es, r, st))"

text \<open>The fragments \<open>es\<close> cover the datagram from \<open>a\<close> on in order; the last and only the last says so.\<close>

fun in_order :: "(nat \<Rightarrow> u8 list) \<Rightarrow> (nat \<Rightarrow> u8 list) \<Rightarrow> nat \<Rightarrow> nat list \<Rightarrow> bool" where
  "in_order h D a [] = True"
| "in_order h D a (e # es) = (frag_start (h e) = a \<and> D e \<noteq> [] \<and> (IPH_OFFSET (h e) AND IP_MF = 0 \<longleftrightarrow> es = []) \<and>
     in_order h D (a + length (D e)) es)"

lemma place_list_end:
  "\<forall>(q, qs, qe) \<in> set frs. qs < s \<and> qe \<le> s \<Longrightarrow> place_list s f prev valid frs =
     Some (length frs, valid \<and> joined_up (case prev of None \<Rightarrow> frs | Some p \<Rightarrow> p # frs))"
proof (induction s f prev valid frs rule: place_list.induct)
  case (2 s f prev valid q qs qe frs)
  then show ?case by (cases prev; cases frs) auto
qed (simp split: option.splits)

text \<open>What waits covers the datagram up to \<open>a\<close>.\<close>

definition covers :: "assembly \<Rightarrow> nat \<Rightarrow> bool" where
  "covers A a = (a_frs A \<noteq> [] \<and> starts_at_0 (a_frs A) \<and> joined_up (a_frs A) \<and> snd (snd (last (a_frs A))) = a \<and>
     (\<forall>(q, qs, qe) \<in> set (a_frs A). qs < a \<and> qe \<le> a) \<and> \<not> a_last A \<and> IPH_OFFSET (a_hdr A) AND IP_OFFMASK = 0)"

lemma joined_up_snoc: "joined_up (frs @ [x]) = (joined_up frs \<and> (frs \<noteq> [] \<longrightarrow> snd (snd (last frs)) = fst (snd x)))"
  by (induction frs rule: joined_up.induct; cases x) auto

lemma next_in_order:
  assumes "covers A a" and "frag_start h = a" and "a < frag_end h"
  shows "reass_step h e A = (let B = A\<lparr>a_frs := a_frs A @ [(e, a, frag_end h)]\<rparr> in
     if IPH_OFFSET h AND IP_MF = 0 then Whole (B\<lparr>a_last := True, a_len := frag_end h\<rparr>) else Kept B)"
    and "covers (A\<lparr>a_frs := a_frs A @ [(e, a, frag_end h)]\<rparr>) (frag_end h)"
proof -
  have c: "a_frs A \<noteq> []" "starts_at_0 (a_frs A)" "joined_up (a_frs A)" "snd (snd (last (a_frs A))) = a"
    "\<forall>(q, qs, qe) \<in> set (a_frs A). qs < a \<and> qe \<le> a" "\<not> a_last A" "IPH_OFFSET (a_hdr A) AND IP_OFFMASK = 0"
    using assms(1) by (simp_all add: covers_def)
  have p: "place_list a (frag_end h) None True (a_frs A) = Some (length (a_frs A), True)"
    using place_list_end[OF c(5)] c(3) by simp
  have s0: "starts_at_0 (a_frs A @ [(e, a, frag_end h)])" using c(2) by (cases "a_frs A") (auto simp: starts_at_0_def)
  have "better_hdr h A = A" using c(7) by (simp add: better_hdr_def)
  then show "reass_step h e A = (let B = A\<lparr>a_frs := a_frs A @ [(e, a, frag_end h)]\<rparr> in
     if IPH_OFFSET h AND IP_MF = 0 then Whole (B\<lparr>a_last := True, a_len := frag_end h\<rparr>) else Kept B)"
    using c p s0 by (auto simp: reass_step_def place_step_def note_last_def assms(2) unbroken_def insert_frag_def ends_well_def Let_def
        intro: assembly.equality)
  show "covers (A\<lparr>a_frs := a_frs A @ [(e, a, frag_end h)]\<rparr>) (frag_end h)"
    using c s0 assms(3) by (auto simp: covers_def joined_up_snoc)
qed

text \<open>The fragments \<open>es\<close> wait in buffers of their own and belong to the datagram with header \<open>hdr\<close>.\<close>

definition arrived :: "(memp_t \<Rightarrow> nat) \<Rightarrow> (memp_t \<Rightarrow> nat list) \<Rightarrow> net \<Rightarrow> u8 list \<Rightarrow> (nat \<Rightarrow> u8 list) \<Rightarrow> (nat \<Rightarrow> u8 list) \<Rightarrow> nat list \<Rightarrow> bool" where
  "arrived sizes F n hdr h D es = (distinct es \<and> (\<forall>e \<in> set es. fragment n e (h e) (D e) \<and> IP_ADDRESSES_AND_ID_MATCH hdr (h e) \<and>
     e \<notin> set (F MEMP_PBUF_POOL) \<and> e \<in> set (elems sizes MEMP_PBUF_POOL)))"

lemma frag_end_data: "fragment n e h d \<Longrightarrow> frag_end h = frag_start h + length d"
  using fragment_sel(5)[of n e h d] by (simp add: frag_end_def)

lemma feed_waiting:
  assumes "waits sizes F st r A D" and "covers A a" and "es \<noteq> []" and "in_order h D a es"
    and "arrived sizes F (lnet st) (a_hdr A) h D es" and "set es \<inter> fst ` set (a_frs A) = {}" and "length (a_frs A) + length es \<le> 10"
  shows "\<exists>st'. feed H es st = Some ([], Some (Pool (fst (a_frs A ! 0))), st') \<and> same_rest st st' \<and>
     idle sizes (F(MEMP_REASSDATA := r # F MEMP_REASSDATA)) st' \<and>
     chain_view (lnet st') (map fst (a_frs A) @ es)
       (datagram_hdr (a_hdr A) (trunc16 (a + length (concat (map D es)) + 20)) @ concat (map (D \<circ> fst) (a_frs A)) @ concat (map D es))"
  using assms
proof (induction es arbitrary: st A a)
  case (Cons e es)
  have f: "fragment (lnet st) e (h e) (D e)" "IP_ADDRESSES_AND_ID_MATCH (a_hdr A) (h e)" "fresh sizes F A e" "distinct (e # es)"
    using Cons.prems(5,6) by (auto simp: arrived_def fresh_def)
  have o: "frag_start (h e) = a" "D e \<noteq> []" "IPH_OFFSET (h e) AND IP_MF = 0 \<longleftrightarrow> es = []" "in_order h D (a + length (D e)) es"
    using Cons.prems(4) by auto
  have fin: "frag_end (h e) = a + length (D e)" using frag_end_data[OF f(1)] o(1) by simp
  then have lt: "a < frag_end (h e)" using o(2) by simp
  define B where "B = A\<lparr>a_frs := a_frs A @ [(e, a, frag_end (h e))]\<rparr>"
  note step = next_in_order(1)[OF Cons.prems(2) o(1) lt, of e, unfolded Let_def, folded B_def]
  have cov: "covers B (frag_end (h e))" using next_in_order(2)[OF Cons.prems(2) o(1) lt, of e] by (simp add: B_def)
  have first: "a_frs B ! 0 = a_frs A ! 0" "a_hdr B = a_hdr A" using Cons.prems(2) by (auto simp: B_def covers_def nth_append)
  have imp: "implements (reass_step (h e) e A) sizes F st r e D (ip_reass H (Pool e) st)"
    using ip_reass_waiting[OF Cons.prems(1) f(1,3,2)] Cons.prems(7) by simp
  show ?case
  proof (cases "es = []")
    case True
    obtain st' where st': "ip_reass H (Pool e) st = Some (Some (Pool (fst (a_frs B ! 0))), st')" "same_rest st st'"
      "idle sizes (F(MEMP_REASSDATA := r # F MEMP_REASSDATA)) st'"
      "chain_view (lnet st') (map fst (a_frs B)) (datagram_hdr (a_hdr B) (trunc16 (frag_end (h e) + 20)) @ concat (map (D \<circ> fst) (a_frs B)))"
      using imp o(3) True unfolding step by (auto simp: implements_def)
    then show ?thesis unfolding True first fin by (simp add: B_def comp_def fun_upd_def)
  next
    case False
    then have "implements (Kept B) sizes F st r e D (ip_reass H (Pool e) st)" using imp o(3) unfolding step by simp
    from implements_kept[OF this] obtain st1 where st1: "ip_reass H (Pool e) st = Some (None, st1)" "same_rest st st1" "waits sizes F st1 r B D"
      "\<And>q h d. q \<noteq> e \<Longrightarrow> q \<notin> fst ` set (a_frs B) \<Longrightarrow> fragment (lnet st) q h d \<Longrightarrow> fragment (lnet st1) q h d" by blast
    have away: "q \<noteq> e \<and> q \<notin> fst ` set (a_frs B)" if "q \<in> set es" for q
      using that f(4) Cons.prems(6) by (auto simp: B_def)
    have arr: "arrived sizes F (lnet st1) (a_hdr B) h D es"
      using Cons.prems(5) away st1(4) by (auto simp: arrived_def first(2))
    have "set es \<inter> fst ` set (a_frs B) = {}" "length (a_frs B) + length es \<le> 10" using away Cons.prems(7) by (auto simp: B_def)
    from Cons.IH[OF st1(3) cov False _ arr this] o(4) fin obtain st' where st': "feed H es st1 = Some ([], Some (Pool (fst (a_frs B ! 0))), st')"
      "same_rest st1 st'" "idle sizes (F(MEMP_REASSDATA := r # F MEMP_REASSDATA)) st'"
      "chain_view (lnet st') (map fst (a_frs B) @ es) (datagram_hdr (a_hdr B) (trunc16 (a + length (D e) + length (concat (map D es)) + 20)) @
         concat (map (D \<circ> fst) (a_frs B)) @ concat (map D es))" by (auto simp: comp_def fun_upd_def)
    then show ?thesis using st1(1) rest_trans[OF st1(2) st'(2)] first by (simp add: B_def add.assoc comp_def fun_upd_def)
  qed
qed simp

lemma datagram_hdr_verifies: "length h = 20 \<Longrightarrow> inet_chksum addr (datagram_hdr h len) = 0"
proof -
  assume l: "length h = 20"
  define y where "y = blit 6 [0, 0] (blit 2 (net16 (word_of_nat len)) h)"
  have y: "length y = 20" using l by (simp add: y_def)
  then have "datagram_hdr h len = take 10 y @ mem16 (inet_chksum 0 (take 10 y @ [0, 0] @ drop 12 y)) @ drop 12 y"
    unfolding datagram_hdr_def y_def[symmetric] by (simp add: Let_def blit_def)
  then show ?thesis using sealed_verifies[of "take 10 y" "drop 12 y" addr 0] y by simp
qed

lemma match_refl: "IP_ADDRESSES_AND_ID_MATCH h h"
  by (simp add: IP_ADDRESSES_AND_ID_MATCH_def)

lemma first_step:
  assumes i: "idle sizes F st" and F: "F MEMP_REASSDATA = r # rs" and f: "fragment (lnet st) e h (D e)"
    and e: "e \<notin> set (F MEMP_PBUF_POOL)" "e \<in> set (elems sizes MEMP_PBUF_POOL)" and mf: "IPH_OFFSET h AND IP_MF \<noteq> 0"
  shows "\<exists>st'. ip_reass H (Pool e) st = Some (None, st') \<and> same_rest st st' \<and>
     waits sizes (F(MEMP_REASSDATA := rs)) st' r ((new_assembly h)\<lparr>a_frs := [(e, frag_start h, frag_end h)]\<rparr>) D \<and>
     (\<forall>q h d. q \<noteq> e \<longrightarrow> fragment (lnet st) q h d \<longrightarrow> fragment (lnet st') q h d)"
proof -
  have "place_step h e (note_last h (new_assembly h)) = Kept ((new_assembly h)\<lparr>a_frs := [(e, frag_start h, frag_end h)]\<rparr>)"
    using mf by (simp add: place_step_def note_last_def new_assembly_def insert_frag_def Let_def)
  then have "implements (Kept ((new_assembly h)\<lparr>a_frs := [(e, frag_start h, frag_end h)]\<rparr>)) sizes (F(MEMP_REASSDATA := rs)) st r e D (ip_reass H (Pool e) st)"
    using ip_reass_first[where e = e and D = D and H = H, OF i f _ F] e by (simp add: fresh_def new_assembly_def)
  from implements_kept[OF this] show ?thesis by auto
qed

text \<open>Claim C16: the fragments of a datagram, given to \<open>ip_reass\<close> in order while none waits, give the datagram. All
  but the last are kept, and with the last one comes one packet: the buffers of the fragments, chained, with the header
  of the first fragment (with the whole length, no offset, and a checksum that verifies) in front of
  the concatenated data. Then no datagram waits, and the entry is back in its pool.\<close>

theorem in_order_datagram_reassembles:
  assumes "idle sizes F st" and "F MEMP_REASSDATA = r # rs" and "arrived sizes F (lnet st) (h a) h D (a # b # es)"
    and "in_order h D 0 (a # b # es)" and "length es \<le> 8"
  shows "\<exists>st'. feed H (a # b # es) st = Some ([], Some (Pool a), st') \<and> same_rest st st' \<and> idle sizes F st' \<and>
     chain_view (lnet st') (a # b # es) (datagram_hdr (h a) (20 + length (concat (map D (a # b # es)))) @ concat (map D (a # b # es))) \<and>
     (\<forall>addr. inet_chksum addr (datagram_hdr (h a) (20 + length (concat (map D (a # b # es))))) = 0)"
proof -
  let ?A = "(new_assembly (h a))\<lparr>a_frs := [(a, frag_start (h a), frag_end (h a))]\<rparr>"
  have arr: "fragment (lnet st) e (h e) (D e)" "e \<notin> set (F MEMP_PBUF_POOL)" "e \<in> set (elems sizes MEMP_PBUF_POOL)" "IP_ADDRESSES_AND_ID_MATCH (h a) (h e)"
    if "e \<in> set (a # b # es)" for e using assms(3) that unfolding arrived_def by blast+
  have o: "frag_start (h a) = 0" "IPH_OFFSET (h a) AND IP_MF \<noteq> 0" "D a \<noteq> []" "in_order h D (length (D a)) (b # es)" using assms(4) by auto
  have dis: "distinct (a # b # es)" using assms(3) by (simp add: arrived_def)
  obtain st1 where st1: "ip_reass H (Pool a) st = Some (None, st1)" "same_rest st st1" "waits sizes (F(MEMP_REASSDATA := rs)) st1 r ?A D"
    "\<And>q h d. q \<noteq> a \<Longrightarrow> fragment (lnet st) q h d \<Longrightarrow> fragment (lnet st1) q h d"
    using first_step[where e = a and h = "h a" and D = D and H = H, OF assms(1,2) arr(1)[of a] arr(2)[of a] arr(3)[of a] o(2)] by auto
  have fin: "frag_end (h a) = length (D a)" using frag_end_data[OF arr(1)[of a]] o(1) by simp
  have cov: "covers ?A (length (D a))"
    using o fin by (auto simp: covers_def new_assembly_def starts_at_0_def frag_start_eq unat_eq_zero)
  have "arrived sizes (F(MEMP_REASSDATA := rs)) (lnet st1) (a_hdr ?A) h D (b # es)"
  proof -
    have "fragment (lnet st1) e (h e) (D e)" if "e \<in> set (b # es)" for e
    proof -
      have "e \<in> set (a # b # es)" "e \<noteq> a" using that dis by auto
      then show ?thesis using arr(1) st1(4) by blast
    qed
    then show ?thesis unfolding arrived_def using dis arr(2-4) by (simp add: new_assembly_def)
  qed
  from feed_waiting[OF st1(3) cov _ o(4) this, of H] dis assms(5) obtain st' where st': "feed H (b # es) st1 = Some ([], Some (Pool a), st')" "same_rest st1 st'"
    "idle sizes (F(MEMP_REASSDATA := rs, MEMP_REASSDATA := r # rs)) st'"
    "chain_view (lnet st') (a # b # es) (datagram_hdr (h a) (trunc16 (length (D a) + length (concat (map D (b # es))) + 20)) @ D a @ concat (map D (b # es)))"
    by (auto simp: new_assembly_def)
  have "length (concat (map D es')) \<le> 566 * length es'" if "\<forall>e \<in> set es'. length (D e) \<le> 566" for es'
    using that by (induction es') auto
  from this[of "a # b # es"] have "length (concat (map D (a # b # es))) \<le> 566 * 10"
    using holds_short[OF fragment_sel(4)[OF arr(1)]] assms(5) by fastforce
  then have "trunc16 (length (D a) + length (concat (map D (b # es))) + 20) = 20 + length (concat (map D (a # b # es)))" by simp
  moreover have "F(MEMP_REASSDATA := rs, MEMP_REASSDATA := r # rs) = F" using assms(2) by auto
  ultimately show ?thesis
    using st1(1) st' rest_trans[OF st1(2) st'(2)] datagram_hdr_verifies[OF fragment_hdr[OF arr(1)[of a]]]
    by (intro exI[of _ st']) simp
qed

section \<open>Holes and contradictions\<close>

lemma implements_dropped:
  assumes "implements (Dropped A') sizes F st r e D res"
  shows "\<exists>st'. res = Some (None, st') \<and> same_rest st st' \<and> waits sizes (F(MEMP_PBUF_POOL := e # F MEMP_PBUF_POOL)) st' r A' D \<and>
     (\<forall>q h d. q \<noteq> e \<longrightarrow> q \<notin> fst ` set (a_frs A') \<longrightarrow> fragment (lnet st) q h d \<longrightarrow> fragment (lnet st') q h d)"
proof -
  obtain st' where st': "res = Some (None, st')" "same_rest st st'" "only_in e A' st st'"
     "waits sizes (F(MEMP_PBUF_POOL := e # F MEMP_PBUF_POOL)) st' r A' D"
    using assms by (auto simp: implements_def)
  have "fragment (lnet st') q h d" if "q \<noteq> e" "q \<notin> fst ` set (a_frs A')" "fragment (lnet st) q h d" for q h d
    using untouched_fragment[OF st'(3)[unfolded only_in_def], of q h d] that by blast
  then show ?thesis using st' by blast
qed

text \<open>The first fragment and then the last one, with room between them.\<close>

lemma first_and_last:
  assumes i: "idle sizes F st" and F: "F MEMP_REASSDATA = r # rs" and arr: "arrived sizes F (lnet st) (h a) h D (a # z # es)"
    and fa: "frag_start (h a) = 0" "IPH_OFFSET (h a) AND IP_MF \<noteq> 0" "D a \<noteq> []" and z: "IPH_OFFSET (h z) AND IP_MF = 0" "frag_end (h a) < frag_start (h z)"
  shows "\<exists>st'. feed H (a # z # es) st = feed H es st' \<and> same_rest st st' \<and>
     waits sizes (F(MEMP_REASSDATA := rs)) st' r \<lparr>a_hdr = h a, a_last = True, a_len = frag_end (h z),
       a_frs = [(a, 0, frag_end (h a)), (z, frag_start (h z), frag_end (h z))]\<rparr> D \<and>
     arrived sizes (F(MEMP_REASSDATA := rs)) (lnet st') (h a) h D es"
proof -
  have ar: "fragment (lnet st) e (h e) (D e)" "e \<notin> set (F MEMP_PBUF_POOL)" "e \<in> set (elems sizes MEMP_PBUF_POOL)" "IP_ADDRESSES_AND_ID_MATCH (h a) (h e)"
    if "e \<in> set (a # z # es)" for e using arr that unfolding arrived_def by blast+
  have dis: "distinct (a # z # es)" using arr by (simp add: arrived_def)
  let ?A = "(new_assembly (h a))\<lparr>a_frs := [(a, frag_start (h a), frag_end (h a))]\<rparr>"
  let ?B = "\<lparr>a_hdr = h a, a_last = True, a_len = frag_end (h z), a_frs = [(a, 0, frag_end (h a)), (z, frag_start (h z), frag_end (h z))]\<rparr>"
  obtain st1 where st1: "ip_reass H (Pool a) st = Some (None, st1)" "same_rest st st1" "waits sizes (F(MEMP_REASSDATA := rs)) st1 r ?A D"
    "\<And>q h d. q \<noteq> a \<Longrightarrow> fragment (lnet st) q h d \<Longrightarrow> fragment (lnet st1) q h d"
    using first_step[where e = a and h = "h a" and D = D and H = H, OF i F ar(1)[of a] ar(2)[of a] ar(3)[of a] fa(2)] by auto
  have later: "e \<noteq> a" "fragment (lnet st1) e (h e) (D e)" if "e \<in> set (z # es)" for e
  proof -
    have e: "e \<in> set (a # z # es)" using that by simp
    show "e \<noteq> a" using that dis by auto
    then show "fragment (lnet st1) e (h e) (D e)" using ar(1)[OF e] st1(4) by blast
  qed
  have "IPH_OFFSET (h a) AND IP_OFFMASK = 0" using fa(1) by (simp add: frag_start_eq unat_eq_zero)
  then have "reass_step (h z) z ?A = Kept ?B"
    using z fa by (simp add: reass_step_def better_hdr_def place_step_def note_last_def new_assembly_def insert_frag_def Let_def unbroken_def)
  moreover have "implements (reass_step (h z) z ?A) sizes (F(MEMP_REASSDATA := rs)) st1 r z D (ip_reass H (Pool z) st1)"
    using ip_reass_waiting[OF st1(3) later(2)[of z]] later(1)[of z] ar(2,3,4)[of z] by (simp add: fresh_def new_assembly_def)
  ultimately have "implements (Kept ?B) sizes (F(MEMP_REASSDATA := rs)) st1 r z D (ip_reass H (Pool z) st1)" by simp
  from implements_kept[OF this] obtain st2 where st2: "ip_reass H (Pool z) st1 = Some (None, st2)" "same_rest st1 st2"
    "waits sizes (F(MEMP_REASSDATA := rs)) st2 r ?B D"
    "\<And>q h d. q \<noteq> z \<Longrightarrow> q \<noteq> a \<Longrightarrow> fragment (lnet st1) q h d \<Longrightarrow> fragment (lnet st2) q h d" by auto
  have "fragment (lnet st2) e (h e) (D e)" if "e \<in> set es" for e
  proof -
    have "e \<in> set (z # es)" "e \<noteq> z" "e \<noteq> a" using that dis by auto
    then show ?thesis using later(2) st2(4) by blast
  qed
  then have "arrived sizes (F(MEMP_REASSDATA := rs)) (lnet st2) (h a) h D es"
    using dis ar(2-4) by (simp add: arrived_def)
  then show ?thesis using st1(1) st2(1,3) rest_trans[OF st1(2) st2(2)] by (intro exI[of _ st2]) simp
qed

text \<open>Claim C17: a datagram with a hole is taken for complete. The first fragment arrives, then the last one, then one that joins the
  last one but does not join the first: the bytes between the first fragment and that one have not come, and the three
  are put together all the same, as the search does not compare the new fragment with the one before it when it goes
  between two others. The packet is shorter than its own header says.\<close>

theorem hole_is_not_noticed:
  assumes "idle sizes F st" and "F MEMP_REASSDATA = r # rs" and "arrived sizes F (lnet st) (h a) h D [a, z, b]"
    and "frag_start (h a) = 0" "IPH_OFFSET (h a) AND IP_MF \<noteq> 0" "D a \<noteq> []" "IPH_OFFSET (h z) AND IP_MF = 0"
    and "IPH_OFFSET (h b) AND IP_MF \<noteq> 0" "D b \<noteq> []" "frag_end (h a) < frag_start (h b)" "frag_end (h b) = frag_start (h z)"
    and "frag_end (h z) < 65516"
  shows "\<exists>st'. feed H [a, z, b] st = Some ([], Some (Pool a), st') \<and> same_rest st st' \<and> idle sizes F st' \<and>
     chain_view (lnet st') [a, b, z] (datagram_hdr (h a) (20 + frag_end (h z)) @ D a @ D b @ D z) \<and>
     length (D a @ D b @ D z) < frag_end (h z)"
proof -
  let ?B = "\<lparr>a_hdr = h a, a_last = True, a_len = frag_end (h z), a_frs = [(a, 0, frag_end (h a)), (z, frag_start (h z), frag_end (h z))]\<rparr>"
  have ar: "fragment (lnet st) e (h e) (D e)" "e \<notin> set (F MEMP_PBUF_POOL)" "e \<in> set (elems sizes MEMP_PBUF_POOL)" "IP_ADDRESSES_AND_ID_MATCH (h a) (h e)"
    if "e \<in> set [a, z, b]" for e using assms(3) that unfolding arrived_def by blast+
  have fin: "frag_end (h e) = frag_start (h e) + length (D e)" if "e \<in> set [a, z, b]" for e using frag_end_data[OF ar(1)[OF that]] .
  have lt: "frag_start (h b) < frag_end (h b)" using fin[of b] assms(9) by simp
  then have "frag_end (h a) < frag_start (h z)" using assms(10,11) by simp
  from first_and_last[where r = r and H = H, OF assms(1-7) this] obtain st1 where st1: "feed H [a, z, b] st = feed H [b] st1" "same_rest st st1"
    "waits sizes (F(MEMP_REASSDATA := rs)) st1 r ?B D" "arrived sizes (F(MEMP_REASSDATA := rs)) (lnet st1) (h a) h D [b]" by blast
  have b: "fragment (lnet st1) b (h b) (D b)" "fresh sizes (F(MEMP_REASSDATA := rs)) ?B b" "IP_ADDRESSES_AND_ID_MATCH (a_hdr ?B) (h b)"
    using st1(4) assms(3) by (auto simp: arrived_def fresh_def)
  have "IPH_OFFSET (h a) AND IP_OFFMASK = 0" using assms(4) by (simp add: frag_start_eq unat_eq_zero)
  then have "reass_step (h b) b ?B = Whole (?B\<lparr>a_frs := [(a, 0, frag_end (h a)), (b, frag_start (h b), frag_end (h b)), (z, frag_start (h z), frag_end (h z))]\<rparr>)"
    using assms(8,10,11) lt by (simp add: reass_step_def better_hdr_def place_step_def note_last_def insert_frag_def Let_def unbroken_def
        starts_at_0_def ends_well_def)
  then have "implements (Whole (?B\<lparr>a_frs := [(a, 0, frag_end (h a)), (b, frag_start (h b), frag_end (h b)), (z, frag_start (h z), frag_end (h z))]\<rparr>))
      sizes (F(MEMP_REASSDATA := rs)) st1 r b D (ip_reass H (Pool b) st1)"
    using ip_reass_waiting[OF st1(3) b(1,2,3), of H] by simp
  then obtain st2 where st2: "ip_reass H (Pool b) st1 = Some (Some (Pool a), st2)" "same_rest st1 st2"
    "idle sizes (F(MEMP_REASSDATA := rs, MEMP_REASSDATA := r # rs)) st2"
    "chain_view (lnet st2) [a, b, z] (datagram_hdr (h a) (trunc16 (frag_end (h z) + 20)) @ D a @ D b @ D z)"
    by (auto simp: implements_def)
  have F: "F(MEMP_REASSDATA := rs, MEMP_REASSDATA := r # rs) = F" using assms(2) by auto
  have t: "trunc16 (frag_end (h z) + 20) = 20 + frag_end (h z)" using assms(12) by simp
  have "length (D a @ D b @ D z) < frag_end (h z)" using fin[of a] fin[of b] fin[of z] assms(4,10,11) by simp
  then show ?thesis using st1(1) st2(1,3) st2(4)[unfolded t] rest_trans[OF st1(2) st2(2)] F by (intro exI[of _ st2]) simp
qed

text \<open>Claim C18: two last fragments that contradict each other stop the board. When a second last fragment starts where the one that waits
  starts but ends elsewhere, it is thrown away, but the length it gives has been noted; the fragment that
  then closes the gap makes the assertion on the length fail, which never returns.\<close>

theorem contradiction_stops:
  assumes "idle sizes F st" and "F MEMP_REASSDATA = r # rs" and "arrived sizes F (lnet st) (h a) h D [a, z, y, b]"
    and "frag_start (h a) = 0" "IPH_OFFSET (h a) AND IP_MF \<noteq> 0" "D a \<noteq> []" "IPH_OFFSET (h z) AND IP_MF = 0"
    and "IPH_OFFSET (h y) AND IP_MF = 0" "frag_start (h y) = frag_start (h z)" "frag_end (h y) \<noteq> frag_end (h z)"
    and "IPH_OFFSET (h b) AND IP_MF \<noteq> 0" "D b \<noteq> []" "frag_start (h b) = frag_end (h a)" "frag_end (h b) = frag_start (h z)"
  shows "feed H [a, z, y, b] st = None"
proof -
  let ?B = "\<lparr>a_hdr = h a, a_last = True, a_len = frag_end (h z), a_frs = [(a, 0, frag_end (h a)), (z, frag_start (h z), frag_end (h z))]\<rparr>"
  let ?F = "F(MEMP_REASSDATA := rs)"
  have ar: "fragment (lnet st) e (h e) (D e)" if "e \<in> set [a, z, y, b]" for e using assms(3) that unfolding arrived_def by blast
  have dis: "distinct [a, z, y, b]" using assms(3) by (simp add: arrived_def)
  have lt: "frag_start (h b) < frag_end (h b)" using frag_end_data[OF ar[of b]] assms(12) by simp
  then have gap: "frag_end (h a) < frag_start (h z)" using assms(13,14) by simp
  from first_and_last[where r = r and H = H, OF assms(1-7) this] obtain st1 where st1: "feed H [a, z, y, b] st = feed H [y, b] st1"
    "waits sizes ?F st1 r ?B D" "arrived sizes ?F (lnet st1) (h a) h D [y, b]" by blast
  have yb: "fragment (lnet st1) e (h e) (D e)" "fresh sizes ?F ?B e" "IP_ADDRESSES_AND_ID_MATCH (a_hdr ?B) (h e)" if "e \<in> set [y, b]" for e
    using st1(3) dis that by (auto simp: arrived_def fresh_def)
  have off: "IPH_OFFSET (h a) AND IP_OFFMASK = 0" using assms(4) by (simp add: frag_start_eq unat_eq_zero)
  then have "reass_step (h y) y ?B = Dropped (?B\<lparr>a_len := frag_end (h y)\<rparr>)"
    using assms(8,9) gap by (simp add: reass_step_def better_hdr_def place_step_def note_last_def Let_def)
  then have "implements (Dropped (?B\<lparr>a_len := frag_end (h y)\<rparr>)) sizes ?F st1 r y D (ip_reass H (Pool y) st1)"
    using ip_reass_waiting[OF st1(2) yb[of y], of H] by simp
  from implements_dropped[OF this] obtain st2 where st2: "ip_reass H (Pool y) st1 = Some (None, st2)"
    "waits sizes (?F(MEMP_PBUF_POOL := y # ?F MEMP_PBUF_POOL)) st2 r (?B\<lparr>a_len := frag_end (h y)\<rparr>) D"
    "\<And>q h d. q \<noteq> y \<Longrightarrow> q \<noteq> a \<Longrightarrow> q \<noteq> z \<Longrightarrow> fragment (lnet st1) q h d \<Longrightarrow> fragment (lnet st2) q h d" by auto
  have b: "fragment (lnet st2) b (h b) (D b)" "fresh sizes (?F(MEMP_PBUF_POOL := y # ?F MEMP_PBUF_POOL)) (?B\<lparr>a_len := frag_end (h y)\<rparr>) b"
    "IP_ADDRESSES_AND_ID_MATCH (a_hdr (?B\<lparr>a_len := frag_end (h y)\<rparr>)) (h b)"
    using yb[of b] dis st2(3) by (auto simp: fresh_def)
  have pos: "0 < frag_end (h a)" using frag_end_data[OF ar[of a]] assms(6) by simp
  have "reass_step (h b) b (?B\<lparr>a_len := frag_end (h y)\<rparr>) = Stuck"
    using off assms(10,11,13,14) lt gap pos by (simp add: reass_step_def better_hdr_def place_step_def note_last_def insert_frag_def Let_def unbroken_def
        starts_at_0_def ends_well_def)
  then have "ip_reass H (Pool b) st2 = None" using ip_reass_waiting[OF st2(2) b, of H] by (simp add: implements_def)
  then show ?thesis using st1(1) st2(1) by simp
qed

end
