(* ===== verification/ReassWitnesses.thy ===== *)
theory ReassWitnesses
  imports ReassTraces IpWitnesses
begin

text \<open>
  The properties of reassembly on fragments of 8 and of 3 bytes that wait in buffers of the idle board.
\<close>

unbundle bit_operations_syntax

section \<open>Packets in buffers\<close>

definition put_packet :: "nat \<Rightarrow> u8 list \<Rightarrow> net \<Rightarrow> net" where
  "put_packet e x n = n\<lparr>pb := (pb n)(Pool e := (pb n (Pool e))\<lparr>pnext := None, payload := Some (Pool e, 30), tot_len := length x - 14,
     plen := length x - 14, ptype := PBUF_POOL, pflags := 0, pref := 1\<rparr>),
     bytes := (bytes n)(Pool e := (\<lambda>i. if 16 \<le> i \<and> i < 16 + int (length x) then x ! nat (i - 16) else 0))\<rparr>"

lemma view_put: "14 \<le> length x \<Longrightarrow> length x \<le> 600 \<Longrightarrow> view (put_packet e x n) e 16 14 x"
  by (simp add: view_def put_packet_def pool_buf_def elem_end_def)

lemma view_put_other: "q \<noteq> e \<Longrightarrow> view (put_packet e x n) q off k y = view n q off k y"
  by (intro same_buf_view) (simp_all add: put_packet_def)

fun put_all :: "(nat \<Rightarrow> u8 list) \<Rightarrow> nat list \<Rightarrow> net \<Rightarrow> net" where
  "put_all x [] n = n"
| "put_all x (e # es) n = put_packet e (x e) (put_all x es n)"

lemma put_all_pools [simp]: "npools (put_all x es n) = npools n" "nheap (put_all x es n) = nheap n"
  by (induction es) (simp_all add: put_packet_def)

lemma view_put_all: "distinct es \<Longrightarrow> e \<in> set es \<Longrightarrow> 14 \<le> length (x e) \<Longrightarrow> length (x e) \<le> 600 \<Longrightarrow> view (put_all x es n) e 16 14 (x e)"
proof (induction es)
  case (Cons a es)
  then show ?case by (cases "e = a") (simp_all add: view_put view_put_other)
qed simp

section \<open>Fragments from a neighbour\<close>

definition fhdr :: "nat \<Rightarrow> u16 \<Rightarrow> u8 list" where
  "fhdr len off = [0x45, 0] @ net16 (word_of_nat len) @ [0, 1] @ net16 off @ [64, 17, 0, 0] @ ip_bytes 0x0701a8c0 @ ip_bytes 0x0a01a8c0"

lemma ntohs_net16: "ntohs_at ([a, b] @ net16 h @ ys) 2 = h" "ntohs_at ([a, b, c, d, e, f] @ net16 h @ ys) 6 = h"
proof -
  have "push_bit 8 (ucast (ucast (drop_bit 8 h) :: u8)) OR ucast (ucast h :: u8) = h"
    by (rule bit_word_eqI) (auto simp: bit_simps)
  then show "ntohs_at ([a, b] @ net16 h @ ys) 2 = h" "ntohs_at ([a, b, c, d, e, f] @ net16 h @ ys) 6 = h"
    by (simp_all add: ntohs_at_def net16_def)
qed

lemma fhdr_fields: "length (fhdr len off) = 20" "IPH_HL (fhdr len off) = 5" "len < 65536 \<Longrightarrow> IPH_LEN (fhdr len off) = len"
  "IPH_OFFSET (fhdr len off) = off" "IP_ADDRESSES_AND_ID_MATCH (fhdr len off) (fhdr len' off')"
proof -
  show "length (fhdr len off) = 20" by (simp add: fhdr_def)
  show "IPH_HL (fhdr len off) = 5" by (simp add: fhdr_def IPH_HL_def)
  show "len < 65536 \<Longrightarrow> IPH_LEN (fhdr len off) = len"
    unfolding IPH_LEN_def fhdr_def ntohs_net16 by (simp add: unat_of_nat)
  have "fhdr len off = [0x45, 0, ucast (drop_bit 8 (word_of_nat len :: u16)), ucast (word_of_nat len :: u16), 0, 1] @ net16 off @
      [64, 17, 0, 0] @ ip_bytes 0x0701a8c0 @ ip_bytes 0x0a01a8c0" by (simp add: fhdr_def net16_def)
  then show "IPH_OFFSET (fhdr len off) = off" by (simp only: IPH_OFFSET_def ntohs_net16)
  show "IP_ADDRESSES_AND_ID_MATCH (fhdr len off) (fhdr len' off')"
    by (simp add: IP_ADDRESSES_AND_ID_MATCH_def IPH_SRC_def IPH_DEST_def IPH_ID_def fhdr_def net16_def ntohs_at_def)
qed

text \<open>The pools with the first \<open>k\<close> buffers taken, and the board with fragments in them.\<close>

definition ex_bufs :: "nat list" where
  "ex_bufs = rev (elems (\<lambda>_. 616) MEMP_PBUF_POOL)"

definition taken :: "nat \<Rightarrow> memp_t \<Rightarrow> nat list" where
  "taken k = (\<lambda>t. rev (elems (\<lambda>_. 616) t))(MEMP_PBUF_POOL := drop k ex_bufs)"

lemma ex_bufs_props: "length ex_bufs = 10" "distinct ex_bufs" "set ex_bufs = set (elems (\<lambda>_. 616) MEMP_PBUF_POOL)"
  using elems_distinct[of "\<lambda>_. 616" MEMP_PBUF_POOL] by (simp_all add: ex_bufs_def elems_def sizes_ok_def)

lemma ex_pool_taken: "k \<le> 10 \<Longrightarrow> \<exists>mp. memp_ok (\<lambda>_. 616) mp (taken k)"
proof (induction k)
  case 0
  then show ?case using ex_net_ok(1) by (auto simp: taken_def ex_bufs_def fun_upd_idem)
next
  case (Suc k)
  then obtain mp where mp: "memp_ok (\<lambda>_. 616) mp (taken k)" by auto
  have "taken k MEMP_PBUF_POOL = (ex_bufs ! k) # drop (Suc k) ex_bufs"
    using Suc.prems ex_bufs_props(1) by (simp add: taken_def Cons_nth_drop_Suc)
  then obtain mp' where "memp_ok (\<lambda>_. 616) mp' ((taken k)(MEMP_PBUF_POOL := drop (Suc k) ex_bufs))"
    using memp_malloc_spec[OF mp, of MEMP_PBUF_POOL] by auto
  moreover have "(taken k)(MEMP_PBUF_POOL := drop (Suc k) ex_bufs) = taken (Suc k)" by (simp add: taken_def)
  ultimately show ?case by auto
qed

lemma taken_entry: "\<exists>r rs. taken k MEMP_REASSDATA = r # rs"
  by (cases "rev (elems (\<lambda>_. 616) MEMP_REASSDATA)") (simp_all add: taken_def elems_def)

lemma ex_arrived:
  assumes k: "k = length frs" and "length frs \<le> 4" and "\<forall>(off, d) \<in> set frs. length d \<le> 100 \<and> unat (off AND IP_OFFMASK) < 8000"
  obtains st h D where "idle (\<lambda>_. 616) (taken k) st" "\<And>len off. arrived (\<lambda>_. 616) (taken k) (lnet st) (fhdr len off) h D (take k ex_bufs)"
    "\<And>i. i < k \<Longrightarrow> h (ex_bufs ! i) = fhdr (20 + length (snd (frs ! i))) (fst (frs ! i)) \<and> D (ex_bufs ! i) = snd (frs ! i)"
proof -
  let ?k = "length frs" let ?es = "take ?k ex_bufs"
  obtain mp where mp: "memp_ok (\<lambda>_. 616) mp (taken ?k)" using ex_pool_taken[of ?k] assms(2) by auto
  define fr where "fr e = the (map_of (zip ?es frs) e)" for e
  define h where "h e = fhdr (20 + length (snd (fr e))) (fst (fr e))" for e
  define D where "D e = snd (fr e)" for e
  obtain hp :: heap where True by simp
  define st where "st = (ex_lan hp [])\<lparr>lnet := put_all (\<lambda>e. replicate 14 0 @ h e @ D e) ?es ((ex_net hp)\<lparr>npools := mp\<rparr>)\<rparr>"
  have es: "length ?es = ?k" "distinct ?es" using assms(2) ex_bufs_props by simp_all
  have fr: "fr (ex_bufs ! i) = frs ! i" if "i < ?k" for i
    using map_of_zip_nth[OF es(1,2), of i] that assms(2) ex_bufs_props(1) by (simp add: fr_def)
  have "fragment (lnet st) e (h e) (D e) \<and> e \<notin> set (taken ?k MEMP_PBUF_POOL) \<and> e \<in> set (elems (\<lambda>_. 616) MEMP_PBUF_POOL)"
    if e_in: "e \<in> set ?es" for e
  proof -
    obtain i where i: "e = ex_bufs ! i" "i < ?k" using e_in es(1) by (auto simp: in_set_conv_nth)
    have "frs ! i \<in> set frs" using i(2) by simp
    then have d: "length (D e) \<le> 100" "unat (fst (frs ! i) AND IP_OFFMASK) < 8000" using assms(3) fr[OF i(2)] i(1) by (cases "frs ! i"; force simp: D_def)+
    let ?x = "replicate 14 0 @ h e @ D e"
    have "view (lnet st) e 16 14 ?x" unfolding st_def
      using view_put_all[of ?es e "\<lambda>e. replicate 14 0 @ h e @ D e"] es(2) e_in d by (simp add: h_def fhdr_fields)
    moreover have "IPH_LEN (h e) = 20 + length (D e)" using d by (simp add: h_def D_def fhdr_fields)
    moreover have "IPH_OFFSET (h e) = fst (frs ! i)" using fr[OF i(2)] i(1) by (simp add: h_def fhdr_fields)
    moreover have "length (h e) = 20" "IPH_HL (h e) = 5" by (simp_all add: h_def fhdr_fields)
    ultimately have "fragment (lnet st) e (h e) (D e)"
      unfolding fragment_def using d by (intro conjI exI[of _ 16] exI[of _ ?x]) (simp_all add: frag_end_def frag_start_eq)
    moreover have "e \<notin> set (drop ?k ex_bufs)" using e_in ex_bufs_props(2) set_take_disj_set_drop_if_distinct[of ex_bufs ?k ?k] by blast
    moreover have "e \<in> set ex_bufs" using e_in by (rule in_set_takeD)
    ultimately show ?thesis using ex_bufs_props(3) by (simp add: taken_def)
  qed
  then have "arrived (\<lambda>_. 616) (taken ?k) (lnet st) (fhdr len off) h D ?es" for len off
    using es(2) by (simp add: arrived_def h_def fhdr_fields)
  moreover have "idle (\<lambda>_. 616) (taken ?k) st"
    using mp by (simp add: idle_def st_def)
  moreover have "h (ex_bufs ! i) = fhdr (20 + length (snd (frs ! i))) (fst (frs ! i)) \<and> D (ex_bufs ! i) = snd (frs ! i)" if "i < ?k" for i
    using fr[OF that] by (simp add: h_def D_def)
  ultimately show ?thesis using that k by blast
qed

section \<open>Witnesses\<close>

lemma ex_bufs_4: "take 2 ex_bufs = [ex_bufs ! 0, ex_bufs ! 1]" "take 3 ex_bufs = [ex_bufs ! 0, ex_bufs ! 1, ex_bufs ! 2]"
  "take 4 ex_bufs = [ex_bufs ! 0, ex_bufs ! 1, ex_bufs ! 2, ex_bufs ! 3]"
  using ex_bufs_props(1) by (simp_all add: take_Suc_conv_app_nth numeral_eq_Suc)

lemma fhdr_range: "frag_start (fhdr len off) = 8 * unat (off AND IP_OFFMASK)"
  "len < 65536 \<Longrightarrow> frag_end (fhdr len off) = 8 * unat (off AND IP_OFFMASK) + (len - 20)"
  by (simp_all add: frag_start_eq frag_end_def fhdr_fields)

theorem in_order_datagram_reassembles_witness:
  "\<exists>st st' p. feed ex_host (take 2 ex_bufs) st = Some ([], Some p, st') \<and> same_rest st st' \<and>
     chain_view (lnet st') (take 2 ex_bufs) (datagram_hdr (fhdr 28 0x2000) 31 @ [1, 2, 3, 4, 5, 6, 7, 8, 9, 10, 11])"
proof -
  let ?frs = "[(0x2000, [1, 2, 3, 4, 5, 6, 7, 8]), (1, [9, 10, 11])] :: (u16 \<times> u8 list) list"
  obtain st h D where a: "idle (\<lambda>_. 616) (taken 2) st" "\<And>len off. arrived (\<lambda>_. 616) (taken 2) (lnet st) (fhdr len off) h D (take 2 ex_bufs)"
    "\<And>i. i < 2 \<Longrightarrow> h (ex_bufs ! i) = fhdr (20 + length (snd (?frs ! i))) (fst (?frs ! i)) \<and> D (ex_bufs ! i) = snd (?frs ! i)"
    by (rule ex_arrived[of 2 ?frs, OF _ _ _ that]) simp_all
  have v: "h (ex_bufs ! 0) = fhdr 28 0x2000" "D (ex_bufs ! 0) = [1, 2, 3, 4, 5, 6, 7, 8]" "h (ex_bufs ! 1) = fhdr 23 1" "D (ex_bufs ! 1) = [9, 10, 11]"
    using a(3)[of 0] a(3)[of 1] by simp_all
  obtain r rs where F: "taken 2 MEMP_REASSDATA = r # rs" using taken_entry by blast
  have o: "in_order h D 0 [ex_bufs ! 0, ex_bufs ! 1]" using v by (simp add: fhdr_range fhdr_fields)
  show ?thesis using in_order_datagram_reassembles[OF a(1) F, of h "ex_bufs ! 0" D "ex_bufs ! 1" "[]" ex_host] a(2)[of 28 "0x2000"] o
    unfolding ex_bufs_4 v(1) by (auto simp: v simp del: One_nat_def feed.simps)
qed

theorem hole_is_not_noticed_witness:
  "\<exists>st st' p. feed ex_host (take 3 ex_bufs) st = Some ([], Some p, st') \<and> same_rest st st' \<and>
     chain_view (lnet st') [ex_bufs ! 0, ex_bufs ! 2, ex_bufs ! 1] (datagram_hdr (fhdr 28 0x2000) 47 @ replicate 8 1 @ replicate 8 2 @ [3, 3, 3])"
proof -
  let ?frs = "[(0x2000, replicate 8 1), (3, [3, 3, 3]), (0x2002, replicate 8 2)] :: (u16 \<times> u8 list) list"
  obtain st h D where a: "idle (\<lambda>_. 616) (taken 3) st" "\<And>len off. arrived (\<lambda>_. 616) (taken 3) (lnet st) (fhdr len off) h D (take 3 ex_bufs)"
    "\<And>i. i < 3 \<Longrightarrow> h (ex_bufs ! i) = fhdr (20 + length (snd (?frs ! i))) (fst (?frs ! i)) \<and> D (ex_bufs ! i) = snd (?frs ! i)"
    by (rule ex_arrived[of 3 ?frs, OF _ _ _ that]) simp_all
  have v: "h (ex_bufs ! 0) = fhdr 28 0x2000" "D (ex_bufs ! 0) = replicate 8 1" "h (ex_bufs ! 1) = fhdr 23 3" "D (ex_bufs ! 1) = [3, 3, 3]"
    "h (ex_bufs ! 2) = fhdr 28 0x2002" "D (ex_bufs ! 2) = replicate 8 2"
    using a(3)[of 0] a(3)[of 1] a(3)[of 2] by simp_all
  obtain r rs where F: "taken 3 MEMP_REASSDATA = r # rs" using taken_entry by blast
  have arr: "arrived (\<lambda>_. 616) (taken 3) (lnet st) (h (ex_bufs ! 0)) h D [ex_bufs ! 0, ex_bufs ! 1, ex_bufs ! 2]"
    using a(2)[of 28 "0x2000"] unfolding ex_bufs_4 v(1) .
  show ?thesis using hole_is_not_noticed[OF a(1) F arr, of ex_host] unfolding ex_bufs_4
    by (auto simp: v fhdr_range fhdr_fields simp del: One_nat_def feed.simps)
qed

theorem contradiction_stops_witness: "\<exists>st. idle (\<lambda>_. 616) (taken 4) st \<and> feed ex_host (take 4 ex_bufs) st = None"
proof -
  let ?frs = "[(0x2000, replicate 8 1), (2, [3, 3, 3]), (2, [3, 3]), (0x2001, replicate 8 2)] :: (u16 \<times> u8 list) list"
  obtain st h D where a: "idle (\<lambda>_. 616) (taken 4) st" "\<And>len off. arrived (\<lambda>_. 616) (taken 4) (lnet st) (fhdr len off) h D (take 4 ex_bufs)"
    "\<And>i. i < 4 \<Longrightarrow> h (ex_bufs ! i) = fhdr (20 + length (snd (?frs ! i))) (fst (?frs ! i)) \<and> D (ex_bufs ! i) = snd (?frs ! i)"
    by (rule ex_arrived[of 4 ?frs, OF _ _ _ that]) simp_all
  have v: "h (ex_bufs ! 0) = fhdr 28 0x2000" "D (ex_bufs ! 0) = replicate 8 1" "h (ex_bufs ! 1) = fhdr 23 2" "D (ex_bufs ! 1) = [3, 3, 3]"
    "h (ex_bufs ! 2) = fhdr 22 2" "D (ex_bufs ! 2) = [3, 3]" "h (ex_bufs ! 3) = fhdr 28 0x2001" "D (ex_bufs ! 3) = replicate 8 2"
    using a(3)[of 0] a(3)[of 1] a(3)[of 2] a(3)[of 3] by simp_all
  obtain r rs where F: "taken 4 MEMP_REASSDATA = r # rs" using taken_entry by blast
  have arr: "arrived (\<lambda>_. 616) (taken 4) (lnet st) (h (ex_bufs ! 0)) h D [ex_bufs ! 0, ex_bufs ! 1, ex_bufs ! 2, ex_bufs ! 3]"
    using a(2)[of 28 "0x2000"] unfolding ex_bufs_4 v(1) .
  have "feed ex_host [ex_bufs ! 0, ex_bufs ! 1, ex_bufs ! 2, ex_bufs ! 3] st = None"
    by (rule contradiction_stops[OF a(1) F arr]) (simp_all add: v fhdr_range fhdr_fields del: One_nat_def)
  then show ?thesis using a(1) unfolding ex_bufs_4 by blast
qed

text \<open>The second of two fragments, while the first waits.\<close>

theorem fragment_joins_datagram_witness:
  "\<exists>F st r A e h D st'. waits (\<lambda>_. 616) F st r A D \<and> fragment (lnet st) e h (D e) \<and> ip_reass ex_host (Pool e) st = Some (Some (Pool (ex_bufs ! 0)), st')"
proof -
  let ?frs = "[(0x2000, [1, 2, 3, 4, 5, 6, 7, 8]), (1, [9, 10, 11])] :: (u16 \<times> u8 list) list"
  obtain st h D where a: "idle (\<lambda>_. 616) (taken 2) st" "\<And>len off. arrived (\<lambda>_. 616) (taken 2) (lnet st) (fhdr len off) h D (take 2 ex_bufs)"
    "\<And>i. i < 2 \<Longrightarrow> h (ex_bufs ! i) = fhdr (20 + length (snd (?frs ! i))) (fst (?frs ! i)) \<and> D (ex_bufs ! i) = snd (?frs ! i)"
    by (rule ex_arrived[of 2 ?frs, OF _ _ _ that]) simp_all
  let ?a = "ex_bufs ! 0" let ?b = "ex_bufs ! 1" let ?A = "(new_assembly (h ?a))\<lparr>a_frs := [(?a, frag_start (h ?a), frag_end (h ?a))]\<rparr>"
  have v: "h ?a = fhdr 28 0x2000" "D ?a = [1, 2, 3, 4, 5, 6, 7, 8]" "h ?b = fhdr 23 1" "D ?b = [9, 10, 11]"
    using a(3)[of 0] a(3)[of 1] by simp_all
  obtain r rs where F: "taken 2 MEMP_REASSDATA = r # rs" using taken_entry by blast
  have arr: "?a \<noteq> ?b" "fragment (lnet st) ?a (h ?a) (D ?a)" "fragment (lnet st) ?b (h ?b) (D ?b)"
    "?a \<notin> set (taken 2 MEMP_PBUF_POOL)" "?a \<in> set (elems (\<lambda>_. 616) MEMP_PBUF_POOL)"
    "?b \<notin> set (taken 2 MEMP_PBUF_POOL)" "?b \<in> set (elems (\<lambda>_. 616) MEMP_PBUF_POOL)"
    using a(2)[of 28 "0x2000"] unfolding arrived_def ex_bufs_4 by (simp_all del: One_nat_def)
  have "IPH_OFFSET (h ?a) AND IP_MF \<noteq> 0" by (simp add: v fhdr_fields)
  from first_step[where D = D and H = ex_host, OF a(1) F arr(2,4,5) this] obtain st1 where st1:
    "waits (\<lambda>_. 616) ((taken 2)(MEMP_REASSDATA := rs)) st1 r ?A D" "fragment (lnet st1) ?b (h ?b) (D ?b)"
    using arr(1)[symmetric] arr(3) by blast
  have "fresh (\<lambda>_. 616) ((taken 2)(MEMP_REASSDATA := rs)) ?A ?b" using arr by (simp add: fresh_def new_assembly_def)
  moreover have "IP_ADDRESSES_AND_ID_MATCH (a_hdr ?A) (h ?b)" by (simp add: new_assembly_def v fhdr_fields del: One_nat_def)
  ultimately have imp: "implements (reass_step (h ?b) ?b ?A) (\<lambda>_. 616) ((taken 2)(MEMP_REASSDATA := rs)) st1 r ?b D (ip_reass ex_host (Pool ?b) st1)"
    using fragment_joins_datagram[OF st1] by (simp add: new_assembly_def)
  have "\<exists>A'. reass_step (h ?b) ?b ?A = Whole A' \<and> fst (a_frs A' ! 0) = ?a"
    by (simp add: v fhdr_range fhdr_fields reass_step_def better_hdr_def place_step_def note_last_def new_assembly_def insert_frag_def Let_def
        unbroken_def starts_at_0_def ends_well_def del: One_nat_def)
  then show ?thesis using imp st1 unfolding implements_def by fastforce
qed

end
