(* ===== verification/IpAddrProps.thy ===== *)
theory IpAddrProps
  imports IpAddr ChksumProps
begin

text \<open>
  Addresses: printing and reading are inverse, and which netmasks and broadcast addresses are recognised.
\<close>

unbundle bit_operations_syntax

section \<open>One number\<close>

definition digit :: "nat \<Rightarrow> u8" where
  "digit d = 48 + word_of_nat d"

lemma unat_digit: "d < 10 \<Longrightarrow> unat (digit d) = 48 + d"
  by (simp add: digit_def unat_word_ariths unsigned_of_nat take_bit_eq_mod)

lemma digit_facts:
  assumes "d < 10"
  shows "isdigit (digit d)" "digit d \<noteq> 46" "digit d \<noteq> 120" "digit d \<noteq> 88" "digit d = 48 \<longleftrightarrow> d = 0"
    "unat (ucast (digit d - 48) :: u32) = d"
proof -
  note u = unat_digit[OF assms]
  show "isdigit (digit d)" using u assms by (simp add: isdigit_def in_range_def word_le_nat_alt)
  show "digit d \<noteq> 46" "digit d \<noteq> 120" "digit d \<noteq> 88" using u assms by auto
  show "digit d = 48 \<longleftrightarrow> d = 0" using u unat_digit[of 0] by (auto simp: digit_def)
  have "digit d - 48 = word_of_nat d" by (simp add: digit_def)
  then show "unat (ucast (digit d - 48) :: u32) = d"
    using assms by (simp add: unsigned_ucast_eq unsigned_of_nat take_bit_eq_mod)
qed

lemma aton_digits_digit:
  "d < 10 \<Longrightarrow> aton_digits base val (digit d # cp) = aton_digits base (val * base + word_of_nat d) cp"
proof -
  assume d: "d < 10"
  have "(ucast (digit d - 48) :: u32) = word_of_nat d"
    by (rule unsigned_word_eqI[where ?'a = nat]) (use d digit_facts(6)[OF d] in \<open>simp add: unsigned_of_nat take_bit_eq_mod\<close>)
  then show ?thesis using digit_facts(1)[OF d] by simp
qed

lemma byte_digits_eq:
  "byte_digits x ds =
     (if unat x < 10 then [digit (unat x)]
      else if unat x < 100 then [digit (unat x div 10), digit (unat x mod 10)]
      else [digit (unat x div 100), digit (unat x div 10 mod 10), digit (unat x mod 10)]) @ ds"
proof -
  have dm: "48 + y mod 10 = digit (unat y mod 10)" for y :: u8
    by (simp add: digit_def flip: unat_mod_distrib[of y 10, simplified])
  have z: "(y div 10 = 0) = (unat y < 10)" for y :: u8
    unfolding unat_eq_zero[symmetric] by (simp add: unat_div_distrib div_eq_0_iff)
  have u: "unat (y div 10) = unat y div 10" for y :: u8 by (simp add: unat_div_distrib)
  have step: "byte_digits y es = (if unat y < 10 then digit (unat y mod 10) # es
      else byte_digits (y div 10) (digit (unat y mod 10) # es))" for y es
    by (subst byte_digits.simps) (simp only: Let_def dm z)
  show ?thesis
    using byte_bound[of x]
    by (subst step, subst step, subst step) (auto simp: u div_mult2_eq[symmetric])
qed


lemma aton_digits_end: "\<not> isdigit (at cp) \<Longrightarrow> aton_digits 10 val cp = (val, cp)" "\<not> isdigit (at cp) \<Longrightarrow> aton_digits 8 val cp = (val, cp)"
  by (cases cp; simp add: at_def)+

lemma at_Cons [simp]: "at (c # cs) = c" "at [] = 0"
  by (simp_all add: at_def)

lemma aton_number_digits:
  assumes "\<not> isdigit (at rest)" and "at rest \<noteq> 120" and "at rest \<noteq> 88"
  shows "aton_number (byte_digits x rest) = (ucast x, rest) \<and> isdigit (at (byte_digits x rest))"
proof -
  define n where "n = unat x"
  have x: "(ucast x :: u32) = word_of_nat n" by (simp add: n_def)
  have n: "n \<le> 255" using byte_bound[of x] by (simp add: n_def)
  note [simp] = aton_digits_digit aton_digits_end[OF assms(1)] digit_facts
  consider (zero) "n = 0" | (one) "0 < n" "n < 10" | (two) "10 \<le> n" "n < 100" | (three) "100 \<le> n" by linarith
  then show ?thesis
  proof cases
    case zero
    then show ?thesis using assms by (simp add: byte_digits_eq n_def[symmetric] aton_number_def x del: aton_digits.simps)
  next
    case one
    then show ?thesis by (simp add: byte_digits_eq n_def[symmetric] aton_number_def x del: aton_digits.simps)
  next
    case two
    then have "n div 10 < 10" "n div 10 \<noteq> 0" "n mod 10 < 10" by simp_all
    moreover have "word_of_nat (n div 10) * 10 + word_of_nat (n mod 10) = (word_of_nat n :: u32)"
      by (metis div_mult_mod_eq of_nat_add of_nat_mult of_nat_numeral)
    ultimately show ?thesis using two by (simp add: byte_digits_eq n_def[symmetric] aton_number_def x del: aton_digits.simps)
  next
    case three
    then have "n div 100 < 10" "n div 100 \<noteq> 0" "n div 10 mod 10 < 10" "n mod 10 < 10" using n by simp_all
    moreover have "(word_of_nat (n div 100) * 10 + word_of_nat (n div 10 mod 10)) * 10 + word_of_nat (n mod 10) = (word_of_nat n :: u32)"
    proof -
      have "(n div 100 * 10 + n div 10 mod 10) * 10 + n mod 10 = n"
        using div_mult2_eq[of n 10 10] by simp
      then show ?thesis by (metis of_nat_add of_nat_mult of_nat_numeral)
    qed
    ultimately show ?thesis using three by (simp add: byte_digits_eq n_def[symmetric] aton_number_def x del: aton_digits.simps)
  qed
qed

section \<open>The dotted form\<close>

definition dotted :: "u8 \<Rightarrow> u8 \<Rightarrow> u8 \<Rightarrow> u8 \<Rightarrow> u8 list" where
  "dotted a b c d = byte_digits a [] @ [46] @ byte_digits b [] @ [46] @ byte_digits c [] @ [46] @ byte_digits d []"

lemma byte_digits_append: "byte_digits x ds = byte_digits x [] @ ds"
  by (simp add: byte_digits_eq[of x ds] byte_digits_eq[of x "[]"])

lemma aton_parts_digits:
  assumes "at rest = 46 \<Longrightarrow> length parts < 3" and "at rest = 46 \<or> at rest = 0"
  shows "aton_parts parts (byte_digits x rest) =
     (if at rest = 46 then aton_parts (parts @ [ucast x]) (tl rest) else Some (parts, ucast x, rest))"
proof -
  have "\<not> isdigit (at rest)" "at rest \<noteq> 120" "at rest \<noteq> 88"
    using assms(2) by (auto simp: isdigit_def in_range_def)
  from aton_number_digits[OF this, of x] show ?thesis
    using assms(1) by (subst aton_parts.simps) auto
qed

lemma aton_parts_last: "aton_parts parts (byte_digits x []) = Some (parts, ucast x, [])"
  using aton_parts_digits[of "[]" parts x] by simp

lemma aton_parts_dotted:
  "aton_parts [] (dotted a b c d) = Some ([ucast a, ucast b, ucast c], ucast d, [])"
  unfolding dotted_def append_assoc byte_digits_append[symmetric] append_Cons append_Nil
  by (simp add: aton_parts_digits aton_parts_last)

lemma ucast_byte_small: "\<not> (ucast (d :: u8) :: u32) > 0xff"
  using byte_bound[of d] by (simp add: word_less_nat_alt unsigned_ucast_eq take_bit_eq_mod)

lemma htonl_le32: "lwip_htonl w = le32 (ucast (drop_bit 24 w)) (ucast (drop_bit 16 w)) (ucast (drop_bit 8 w)) (ucast w)"
proof (rule bit_word_eqI)
  fix n assume n: "n < LENGTH(32)"
  have m: "(0xff :: u32) = mask 8" "(0xff00 :: u32) = push_bit 8 (mask 8)" "(0xff0000 :: u32) = push_bit 16 (mask 8)"
    "(0xff000000 :: u32) = push_bit 24 (mask 8)"
    by (simp_all add: mask_eq_exp_minus_1 push_bit_eq_mult)
  consider "n < 8" | "8 \<le> n" "n < 16" | "16 \<le> n" "n < 24" | "24 \<le> n" "n < 32" using n by fastforce
  then show "bit (lwip_htonl w) n = bit (le32 (ucast (drop_bit 24 w)) (ucast (drop_bit 16 w)) (ucast (drop_bit 8 w)) (ucast w)) n"
    unfolding lwip_htonl_def le32_def m by cases (auto simp: bit_simps)
qed

lemma bytes_of_or:
  fixes a b c d :: u8
  defines "w \<equiv> (ucast d OR (push_bit 24 (ucast a) OR push_bit 16 (ucast b) OR push_bit 8 (ucast c))) :: u32"
  shows "ucast (drop_bit 24 w) = a" "ucast (drop_bit 16 w) = b" "ucast (drop_bit 8 w) = c" "ucast w = d"
proof -
  show "ucast (drop_bit 24 w) = a" "ucast (drop_bit 16 w) = b" "ucast (drop_bit 8 w) = c" "ucast w = d"
    unfolding w_def by (rule bit_word_eqI; auto simp: bit_simps dest: bit_imp_le_length)+
qed

lemma htonl_bytes:
  "lwip_htonl (ucast d OR (push_bit 24 (ucast a) OR push_bit 16 (ucast b) OR push_bit 8 (ucast c))) = le32 a b c d"
  by (simp only: htonl_le32 bytes_of_or)

lemma aton_dotted: "ipaddr_aton (dotted a b c d) = Some (le32 a b c d)"
  using ucast_byte_small[of d] htonl_bytes[of d a b c] by (simp add: ipaddr_aton_def aton_parts_dotted)


section \<open>Printing\<close>

lemma put_chars_eq:
  "put_chars cs buflen out = (if int (length out + length cs) \<le> buflen \<or> cs = [] then Some (out @ cs) else None)"
  by (induction cs buflen out rule: put_chars.induct) auto

lemma ntoa_eq:
  "ipaddr_ntoa_r (le32 a b c d) buflen =
     (if int (length (dotted a b c d)) < buflen then Some (dotted a b c d) else None)"
proof -
  have w: "ucast (le32 a b c d) = a" "ucast (drop_bit 8 (le32 a b c d)) = b" "ucast (drop_bit 16 (le32 a b c d)) = c"
    "ucast (drop_bit 24 (le32 a b c d)) = d"
    unfolding le32_def by (rule bit_word_eqI; auto simp: bit_simps dest: bit_imp_le_length)+
  have "ntoa_loop [a, b, c, d] buflen [] =
      (if int (length (dotted a b c d @ [46])) \<le> buflen then Some (dotted a b c d @ [46]) else None)"
    by (auto simp: put_chars_eq dotted_def)
  then show ?thesis by (simp add: ipaddr_ntoa_r_def w)
qed

lemma length_dotted: "length (dotted a b c d) \<le> 15"
proof -
  have "length (byte_digits x []) \<le> 3" for x by (simp add: byte_digits_eq)
  from this[of a] this[of b] this[of c] this[of d] show ?thesis by (simp add: dotted_def)
qed

lemma le32_bytes: "\<exists>a b c d. (addr :: u32) = le32 a b c d"
proof (intro exI)
  show "addr = le32 (ucast addr) (ucast (drop_bit 8 addr)) (ucast (drop_bit 16 addr)) (ucast (drop_bit 24 addr))"
    unfolding le32_def
  proof (rule bit_word_eqI)
    fix n assume n: "n < LENGTH(32)"
    consider "n < 8" | "8 \<le> n" "n < 16" | "16 \<le> n" "n < 24" | "24 \<le> n" "n < 32" using n by fastforce
    then show "bit addr n = bit ((ucast (ucast addr :: u8) :: u32) OR push_bit 8 (ucast (ucast (drop_bit 8 addr) :: u8)) OR
        push_bit 16 (ucast (ucast (drop_bit 16 addr) :: u8)) OR push_bit 24 (ucast (ucast (drop_bit 24 addr) :: u8))) n"
      by cases (auto simp: bit_simps)
  qed
qed

section \<open>Netmasks\<close>

lemma bit_test: "n < 32 \<Longrightarrow> (v :: u32) AND push_bit n 1 = 0 \<longleftrightarrow> \<not> bit v n"
  by (simp add: push_bit_eq_mult and_exp_eq_0_iff_not_bit)

lemma first_zero_spec:
  "n \<le> 32 \<Longrightarrow> first_zero n v \<le> n \<and> (\<forall>i. first_zero n v \<le> i \<and> i < n \<longrightarrow> bit v i) \<and>
     (0 < first_zero n v \<longrightarrow> \<not> bit v (first_zero n v - 1))"
  by (induction n) (auto simp: bit_test less_Suc_eq simp del: push_bit_of_1)

lemma no_one_spec: "n \<le> 32 \<Longrightarrow> no_one n v = (\<forall>i < n. \<not> bit v i)"
  by (induction n) (auto simp: bit_test less_Suc_eq simp del: push_bit_of_1)

lemma bit_not_mask: "bit (NOT (mask k) :: u32) i \<longleftrightarrow> i < 32 \<and> k \<le> i"
  by (auto simp: bit_simps)

text \<open>A netmask is accepted exactly when, in host order, it is a run of ones followed by zeros only.\<close>

lemma netmask_spec: "ip4_addr_netmask_valid m \<longleftrightarrow> (\<exists>k \<le> 32. lwip_htonl m = NOT (mask k))"
proof -
  define v where "v = lwip_htonl m"
  define f where "f = first_zero 32 v"
  have f: "f \<le> 32" "\<And>i. f \<le> i \<Longrightarrow> i < 32 \<Longrightarrow> bit v i" "0 < f \<Longrightarrow> \<not> bit v (f - 1)"
    using first_zero_spec[of 32 v] by (auto simp: f_def)
  have "no_one f v \<longleftrightarrow> (\<exists>k \<le> 32. v = NOT (mask k))"
  proof
    assume "no_one f v"
    then have "\<not> bit v n" if "n < f" for n using that f(1) by (simp add: no_one_spec)
    then have "bit v n = bit (NOT (mask f) :: u32) n" if "n < 32" for n
      using f(2) that by (cases "n < f") (auto simp: bit_not_mask)
    then have "v = NOT (mask f)" by (intro bit_word_eqI) simp
    then show "\<exists>k \<le> 32. v = NOT (mask k)" using f(1) by blast
  next
    assume "\<exists>k \<le> 32. v = NOT (mask k)"
    then obtain k where k: "k \<le> 32" "v = NOT (mask k)" by blast
    have "f \<le> k"
    proof (rule ccontr)
      assume "\<not> f \<le> k"
      then have "k \<le> f - 1" "f - 1 < 32" using f(1) by auto
      then have "bit v (f - 1)" using k by (simp only: bit_not_mask)
      with f(3) \<open>\<not> f \<le> k\<close> show False by simp
    qed
    then show "no_one f v" using k f(1) by (simp add: no_one_spec bit_not_mask)
  qed
  then show ?thesis by (simp add: ip4_addr_netmask_valid_def f_def v_def)
qed


section \<open>Contract\<close>

text \<open>Claim C34: every address survives its text form. \<open>ipaddr_ntoa\<close> always fits its static buffer of 16
  bytes, \<open>ipaddr_aton\<close> reads the text back to the same address, and \<open>ipaddr_ntoa_r\<close> returns the
  text exactly when the buffer given has room for it and the NUL, null otherwise.\<close>

theorem address_text_roundtrip:
  "\<exists>s. ipaddr_ntoa addr = Some s \<and> ipaddr_aton s = Some addr \<and> length s \<le> 15 \<and>
     (\<forall>buflen. ipaddr_ntoa_r addr buflen = (if int (length s) < buflen then Some s else None))"
proof -
  obtain a b c d where "addr = le32 a b c d" using le32_bytes by blast
  with length_dotted[of a b c d] show ?thesis
    by (intro exI[of _ "dotted a b c d"]) (simp add: ipaddr_ntoa_def ntoa_eq aton_dotted)
qed

text \<open>Only the last part of an address is checked against its range: an earlier one that is too
  large runs into the bits of the part before it.\<close>

theorem aton_overlaps_parts:
  "ipaddr_aton [49, 46, 51, 48, 48, 46, 50, 46, 51] = ipaddr_aton [49, 46, 52, 52, 46, 50, 46, 51] \<and>
   ipaddr_aton [49, 46, 51, 48, 48, 46, 50, 46, 51] \<noteq> None \<and> ipaddr_aton [49, 46, 50, 46, 51, 46, 51, 48, 48] = None"
  by code_simp

end
