(* ===== verification/TimersProps.thy ===== *)
theory TimersProps
  imports Timers
begin

text \<open>
  The list of timeouts as a schedule: the entries with the time at which each is due,
  counted from \<open>timeouts_last_time\<close>. Starting and cancelling a timeout are insertion into
  and removal from the schedule; a check fires what is due and returns.
\<close>

section \<open>The schedule\<close>

type_synonym entry = "nat \<times> sys_timeout_handler option \<times> nat"

definition due_entry :: "nat \<Rightarrow> sys_timeo \<Rightarrow> entry" where
  "due_entry b x = (b + unat (ttime x), thandler x, targ x)"

fun due :: "nat \<Rightarrow> (nat \<Rightarrow> sys_timeo) \<Rightarrow> nat list \<Rightarrow> entry list" where
  "due b m [] = []"
| "due b m (e # es) = due_entry b (m e) # due (b + unat (ttime (m e))) m es"

definition later :: "nat \<Rightarrow> entry \<Rightarrow> entry" where
  "later c x = (fst x + c, snd x)"

definition schedule :: "entry \<Rightarrow> entry list \<Rightarrow> entry list" where
  "schedule x xs = takeWhile (\<lambda>y. fst y \<le> fst x) xs @ x # dropWhile (\<lambda>y. fst y \<le> fst x) xs"

lemma schedule_simps [simp]:
  "schedule x [] = [x]"
  "schedule x (y # ys) = (if fst y \<le> fst x then y # schedule x ys else x # y # ys)"
  by (simp_all add: schedule_def)

abbreviation chain :: "(nat \<Rightarrow> sys_timeo) \<Rightarrow> nat option \<Rightarrow> nat list \<Rightarrow> bool" where
  "chain m \<equiv> free_list (\<lambda>e. tnext (m e))"

lemma due_cong:
  "\<forall>e \<in> set es. ttime (m' e) = ttime (m e) \<and> thandler (m' e) = thandler (m e) \<and> targ (m' e) = targ (m e) \<Longrightarrow>
   due b m' es = due b m es"
  by (induction es arbitrary: b) (auto simp: due_entry_def)

lemma chain_cong: "chain m h es \<Longrightarrow> \<forall>e \<in> set es. tnext (m' e) = tnext (m e) \<Longrightarrow> chain m' h es"
  by (induction es arbitrary: h) auto

lemma due_later: "due (b + c) m es = map (later c) (due b m es)"
proof (induction es arbitrary: b)
  case (Cons e es)
  show ?case using Cons[of "b + unat (ttime (m e))"] by (simp add: due_entry_def later_def ac_simps)
qed simp

lemma due_length [simp]: "length (due b m es) = length es"
  by (induction es arbitrary: b) auto

lemma due_ge: "x \<in> set (due b m es) \<Longrightarrow> b \<le> fst x"
proof (induction es arbitrary: b)
  case (Cons e es)
  then show ?case using Cons.IH[of "b + unat (ttime (m e))"] by (auto simp: due_entry_def intro: add_leD1)
qed simp

lemma due_sorted: "sorted (map fst (due b m es))"
  by (induction es arbitrary: b) (auto simp: due_entry_def dest: due_ge)

section \<open>Placing an element\<close>

lemma sub_nat: "(a :: u32) \<le> c \<Longrightarrow> unat (c - a) = unat c - unat a"
  by (simp add: unat_sub)

lemma place_loop_spec:
  assumes "chain m (Some t) (t # es)" and "distinct (e # t # es)" and "ttime (m t) \<le> ttime (m e)"
  shows "\<exists>m' es'. place_loop e (Some t) m = Some m' \<and> chain m' (Some t) (t # es') \<and>
     distinct (t # es') \<and> set es' = insert e (set es) \<and> (\<forall>x. x \<notin> set (e # t # es) \<longrightarrow> m' x = m x) \<and>
     due b m' (t # es') = due_entry b (m t) #
       schedule (due_entry b (m e)) (due (b + unat (ttime (m t))) m es)"
  using assms
proof (induction es arbitrary: t m b)
  case Nil
  define m1 where "m1 = set_tmo e (\<lambda>x. x\<lparr>ttime := ttime x - ttime (m t)\<rparr>) m"
  define m' where "m' = set_tmo t (\<lambda>x. x\<lparr>tnext := Some e\<rparr>) (set_tmo e (\<lambda>x. x\<lparr>tnext := None\<rparr>) m1)"
  have n: "e \<noteq> t" "tnext (m t) = None" "unat (ttime (m t)) \<le> unat (ttime (m e))"
    using Nil.prems by (auto simp: word_le_nat_alt)
  have "place_loop e (Some t) m = Some m'"
    using n by (subst place_loop.simps) (simp add: m'_def m1_def set_tmo_def Let_def)
  moreover have "m' t = (m t)\<lparr>tnext := Some e\<rparr>" "m' e = (m e)\<lparr>ttime := ttime (m e) - ttime (m t), tnext := None\<rparr>"
    "x \<notin> {e, t} \<Longrightarrow> m' x = m x" for x
    using n(1) by (simp_all add: m'_def m1_def set_tmo_def)
  ultimately show ?case
    using n Nil.prems(3) by (intro exI[of _ m'] exI[of _ "[e]"]) (auto simp: due_entry_def sub_nat)
next
  case (Cons n es)
  define m1 where "m1 = set_tmo e (\<lambda>x. x\<lparr>ttime := ttime x - ttime (m t)\<rparr>) m"
  have d: "e \<noteq> t" "e \<noteq> n" "t \<noteq> n" "tnext (m t) = Some n" "unat (ttime (m t)) \<le> unat (ttime (m e))"
    using Cons.prems by (auto simp: word_le_nat_alt)
  have m1: "m1 e = (m e)\<lparr>ttime := ttime (m e) - ttime (m t)\<rparr>" "x \<noteq> e \<Longrightarrow> m1 x = m x" for x
    by (simp_all add: m1_def set_tmo_def)
  have e1: "due_entry (b + unat (ttime (m t))) (m1 e) = due_entry b (m e)"
    using d(5) Cons.prems(3) by (simp add: due_entry_def m1 sub_nat)
  show ?case
  proof (cases "ttime (m n) > ttime (m1 e)")
    case True
    define m' where "m' = set_tmo t (\<lambda>x. x\<lparr>tnext := Some e\<rparr>) (set_tmo e (\<lambda>x. x\<lparr>tnext := Some n\<rparr>)
      (set_tmo n (\<lambda>x. x\<lparr>ttime := ttime x - ttime (m1 e)\<rparr>) m1))"
    have "place_loop e (Some t) m = Some m'"
      using d(1-4) True by (subst place_loop.simps) (simp add: m'_def m1_def Let_def set_tmo_def)
    moreover have m': "m' t = (m t)\<lparr>tnext := Some e\<rparr>" "m' e = (m e)\<lparr>ttime := ttime (m e) - ttime (m t), tnext := Some n\<rparr>"
      "m' n = (m n)\<lparr>ttime := ttime (m n) - (ttime (m e) - ttime (m t))\<rparr>" "\<And>x. x \<notin> {e, t, n} \<Longrightarrow> m' x = m x"
      using d(1-3) m1 by (simp_all add: m'_def set_tmo_def)
    moreover have fr: "\<forall>x \<in> set es. m' x = m x"
      using Cons.prems(2) by (auto simp: m'_def m1_def set_tmo_def)
    moreover have "chain m' (Some t) (t # e # n # es)"
    proof -
      have "chain m' (tnext (m n)) es"
      proof (rule chain_cong[of m])
        show "chain m (tnext (m n)) es" using Cons.prems(1) by simp
      qed (use fr in simp)
      then show ?thesis using m'(1-3) by simp
    qed
    moreover have "due b m' (t # e # n # es) = due_entry b (m t) #
       schedule (due_entry b (m e)) (due (b + unat (ttime (m t))) m (n # es))"
    proof -
      have "due c m' es = due c m es" for c using fr by (intro due_cong) simp
      moreover have "unat (ttime (m e) - ttime (m t)) = unat (ttime (m e)) - unat (ttime (m t))"
        using Cons.prems(3) by (rule sub_nat)
      moreover have lt: "ttime (m e) - ttime (m t) < ttime (m n)" using True m1(1) by simp
      then have "unat (ttime (m n) - (ttime (m e) - ttime (m t))) = unat (ttime (m n)) - unat (ttime (m e) - ttime (m t))"
        by (intro sub_nat) simp
      moreover have "unat (ttime (m e) - ttime (m t)) < unat (ttime (m n))" using lt by (simp only: word_less_nat_alt)
      moreover have "unat (ttime (m e)) < unat (ttime (m t)) + unat (ttime (m n))"
        using calculation(2,4) d(5) by linarith
      ultimately show ?thesis using d(5) m'(1-3) by (simp add: due_entry_def ac_simps)
    qed
    moreover have "distinct (t # e # n # es)" "set (e # n # es) = insert e (set (n # es))" using Cons.prems(2) by auto
    ultimately show ?thesis by (intro exI[of _ m'] exI[of _ "e # n # es"] conjI) simp_all
  next
    case False
    have fr1: "\<forall>x \<in> set (n # es). m1 x = m x" using Cons.prems(2) by (auto simp: m1_def set_tmo_def)
    have ch: "chain m1 (Some n) (n # es)"
    proof (rule chain_cong[of m])
      show "chain m (Some n) (n # es)" using Cons.prems(1) by simp
    qed (use fr1 in simp)
    have "distinct (e # n # es)" "ttime (m1 n) \<le> ttime (m1 e)" using Cons.prems(2) False m1(2)[of n] d(2) by auto
    from Cons.IH[OF ch this, of "b + unat (ttime (m t))"] obtain m' es' where
      IH: "place_loop e (Some n) m1 = Some m'" "chain m' (Some n) (n # es')" "distinct (n # es')" "set es' = insert e (set es)"
        "\<forall>x. x \<notin> set (e # n # es) \<longrightarrow> m' x = m1 x"
        "due (b + unat (ttime (m t))) m' (n # es') = due_entry (b + unat (ttime (m t))) (m1 n) #
          schedule (due_entry (b + unat (ttime (m t))) (m1 e)) (due (b + unat (ttime (m t)) + unat (ttime (m1 n))) m1 es)"
      by blast
    have "place_loop e (Some t) m = place_loop e (Some n) m1"
      using d False m1 by (subst place_loop.simps) (simp add: m1_def[symmetric] Let_def)
    moreover have "m' t = m t" using IH(5) Cons.prems(2) m1(2) by auto
    moreover have "due c m1 es = due c m es" for c
      using fr1 by (intro due_cong) simp
    moreover have "unat (ttime (m n)) \<le> unat (ttime (m e)) - unat (ttime (m t))"
      using False Cons.prems(3) by (simp add: m1 sub_nat not_less word_le_nat_alt[of "ttime (m n)"])
    ultimately show ?thesis
      using IH(1-5) IH(6)[unfolded e1] Cons.prems(2) d m1(2)[of n] m1(2)
      by (intro exI[of _ m'] exI[of _ "n # es'"]) (auto simp: due_entry_def)
  qed
qed


section \<open>The state\<close>

definition tmr_ok :: "(memp_t \<Rightarrow> nat) \<Rightarrow> 'w timers \<Rightarrow> nat list \<Rightarrow> bool" where
  "tmr_ok sizes st es = (chain (tmo st) (next_timeout st) es \<and> distinct es \<and>
     pool_holds sizes MEMP_SYS_TIMEOUT (tpool st) (set es))"

abbreviation pending :: "'w timers \<Rightarrow> nat list \<Rightarrow> entry list" where
  "pending st \<equiv> due 0 (tmo st)"

lemma element_free:
  assumes "pool_holds sizes MEMP_SYS_TIMEOUT mp L" and "card L < memp_num MEMP_SYS_TIMEOUT"
  shows "\<exists>e mp'. memp_malloc MEMP_SYS_TIMEOUT mp = Some (Some e, mp') \<and> e \<notin> L \<and>
     pool_holds sizes MEMP_SYS_TIMEOUT mp' (insert e L)"
proof -
  obtain F where F: "memp_ok sizes mp F" "L = set (elems sizes MEMP_SYS_TIMEOUT) - set (F MEMP_SYS_TIMEOUT)"
    using assms(1) by (auto simp: pool_holds_def)
  have ok: "sizes_ok sizes" using F(1) by (simp add: memp_ok_def)
  have "card (set (elems sizes MEMP_SYS_TIMEOUT)) = memp_num MEMP_SYS_TIMEOUT"
    unfolding distinct_card[OF elems_distinct[OF ok]] by (simp add: elems_def)
  then have "F MEMP_SYS_TIMEOUT \<noteq> []" using F(2) assms(2) by auto
  then obtain e fs where e: "F MEMP_SYS_TIMEOUT = e # fs" by (cases "F MEMP_SYS_TIMEOUT") auto
  with memp_malloc_spec[OF F(1), of MEMP_SYS_TIMEOUT] obtain mp' where
    m: "memp_malloc MEMP_SYS_TIMEOUT mp = Some (Some e, mp')" "memp_ok sizes mp' (F(MEMP_SYS_TIMEOUT := fs))" by blast
  have f: "e \<in> set (elems sizes MEMP_SYS_TIMEOUT)" "e \<notin> set fs"
    using F(1) e unfolding memp_ok_def by (metis list.set_intros(1) subsetD, metis distinct.simps(2))
  then have "insert e L = set (elems sizes MEMP_SYS_TIMEOUT) - set fs" using F(2) e by auto
  then have "pool_holds sizes MEMP_SYS_TIMEOUT mp' (insert e L)"
    using m(2) by (auto simp: pool_holds_def)
  then show ?thesis using m(1) F(2) e by auto
qed

lemma element_back:
  assumes "pool_holds sizes MEMP_SYS_TIMEOUT mp L" and "e \<in> L"
  shows "\<exists>mp'. memp_free MEMP_SYS_TIMEOUT (Some e) mp = Some mp' \<and> pool_holds sizes MEMP_SYS_TIMEOUT mp' (L - {e})"
  by (rule pool_alloc.release_ok[OF assms])

lemma sys_timeout_spec:
  assumes ok: "tmr_ok sizes st es" and room: "length es < memp_num MEMP_SYS_TIMEOUT"
  shows "\<exists>mp m h es'. sys_timeout msecs handler a st = Some (st\<lparr>tpool := mp, tmo := m, next_timeout := h\<rparr>) \<and>
     tmr_ok sizes (st\<lparr>tpool := mp, tmo := m, next_timeout := h\<rparr>) es' \<and>
     due 0 m es' = schedule (unat msecs, handler, a) (pending st es)"
proof -
  have c: "chain (tmo st) (next_timeout st) es" "distinct es" "pool_holds sizes MEMP_SYS_TIMEOUT (tpool st) (set es)"
    using ok by (auto simp: tmr_ok_def)
  have "card (set es) < memp_num MEMP_SYS_TIMEOUT" using room distinct_card[OF c(2)] by simp
  from element_free[OF c(3) this] obtain e mp where
    e: "memp_malloc MEMP_SYS_TIMEOUT (tpool st) = Some (Some e, mp)" "e \<notin> set es"
      "pool_holds sizes MEMP_SYS_TIMEOUT mp (insert e (set es))" by blast
  define m where "m = (tmo st)(e := \<lparr>tnext = None, ttime = msecs, thandler = handler, targ = a\<rparr>)"
  have m: "chain m (next_timeout st) es" "due b m es = due b (tmo st) es" for b
    using c(1) e(2) by (auto simp: m_def intro!: chain_cong[of "tmo st"] due_cong)
  have me: "due_entry 0 (m e) = (unat msecs, handler, a)" by (simp add: m_def due_entry_def)
  have unf: "sys_timeout msecs handler a st = (case next_timeout st of
      None \<Rightarrow> Some (st\<lparr>tpool := mp, tmo := m, next_timeout := Some e\<rparr>)
    | Some h \<Rightarrow> if ttime (m h) > msecs then
         Some (st\<lparr>tpool := mp, tmo := set_tmo e (\<lambda>x. x\<lparr>tnext := Some h\<rparr>) (set_tmo h (\<lambda>x. x\<lparr>ttime := ttime x - msecs\<rparr>) m),
                  next_timeout := Some e\<rparr>)
       else map_option (\<lambda>m. st\<lparr>tpool := mp, tmo := m\<rparr>) (place_loop e (Some h) m))"
    by (simp add: sys_timeout_def e(1) m_def[symmetric] Let_def)
  show ?thesis
  proof (cases es)
    case Nil
    then have "next_timeout st = None" using c(1) by simp
    moreover have "tnext (m e) = None" by (simp add: m_def)
    ultimately show ?thesis using Nil e me unf
      by (intro exI[of _ mp] exI[of _ m] exI[of _ "Some e"] exI[of _ "[e]"]) (simp add: tmr_ok_def)
  next
    case (Cons h hs)
    have h: "next_timeout st = Some h" "e \<noteq> h" "e \<notin> set hs" "distinct (h # hs)" using c(1,2) e(2) Cons by auto
    have p0: "pending st es = due 0 m (h # hs)" using m(2)[of 0] Cons by simp
    show ?thesis
    proof (cases "ttime (m h) > msecs")
      case True
      define m' where "m' = set_tmo e (\<lambda>x. x\<lparr>tnext := Some h\<rparr>) (set_tmo h (\<lambda>x. x\<lparr>ttime := ttime x - msecs\<rparr>) m)"
      have m': "m' e = (m e)\<lparr>tnext := Some h\<rparr>" "m' h = (m h)\<lparr>ttime := ttime (m h) - msecs\<rparr>" "x \<notin> {e, h} \<Longrightarrow> m' x = m x" for x
        using h(2) by (simp_all add: m'_def set_tmo_def)
      have fr: "\<forall>x \<in> set hs. m' x = m x" using h by (auto simp: m'_def set_tmo_def)
      have "chain m' (tnext (m h)) hs"
      proof (rule chain_cong[of m])
        show "chain m (tnext (m h)) hs" using m(1) h Cons by simp
      qed (use fr in simp)
      then have "chain m' (Some e) (e # h # hs)" using m'(1,2) by simp
      moreover have "distinct (e # h # hs)" "set (e # h # hs) = insert e (set es)" using h Cons by auto
      ultimately have "tmr_ok sizes (st\<lparr>tpool := mp, tmo := m', next_timeout := Some e\<rparr>) (e # h # hs)"
        using e(3) by (simp add: tmr_ok_def)
      moreover have "due 0 m' (e # h # hs) = schedule (unat msecs, handler, a) (pending st es)"
      proof -
        have "due b m' hs = due b m hs" for b using fr by (intro due_cong) simp
        moreover have "unat (ttime (m h) - msecs) = unat (ttime (m h)) - unat msecs"
          using True by (intro sub_nat) simp
        moreover have "unat msecs < unat (ttime (m h))" using True by (simp only: word_less_nat_alt)
        moreover have "ttime (m e) = msecs" by (simp add: m_def)
        ultimately show ?thesis
          unfolding p0 me[symmetric] using m'(1,2) by (simp add: due_entry_def)
      qed
      moreover have "sys_timeout msecs handler a st = Some (st\<lparr>tpool := mp, tmo := m', next_timeout := Some e\<rparr>)"
        using True h(1) unf by (simp add: m'_def)
      ultimately show ?thesis by blast
    next
      case False
      have "chain m (Some h) (h # hs)" "distinct (e # h # hs)" "ttime (m h) \<le> ttime (m e)"
        using m(1) h Cons False by (auto simp: m_def)
      from place_loop_spec[OF this, of 0] obtain m' es' where
        p: "place_loop e (Some h) m = Some m'" "chain m' (Some h) (h # es')" "distinct (h # es')" "set es' = insert e (set hs)"
          "due 0 m' (h # es') = due_entry 0 (m h) # schedule (due_entry 0 (m e)) (due (0 + unat (ttime (m h))) m hs)" by blast
      have "insert e (set es) = set (h # es')" using p(4) Cons by auto
      with e(3) p have "tmr_ok sizes (st\<lparr>tpool := mp, tmo := m', next_timeout := Some h\<rparr>) (h # es')"
        by (simp add: tmr_ok_def)
      moreover have "due 0 m' (h # es') = schedule (unat msecs, handler, a) (pending st es)"
        unfolding p(5) me p0 using False by (simp add: due_entry_def word_le_nat_alt not_less)
      moreover have "sys_timeout msecs handler a st = Some (st\<lparr>tpool := mp, tmo := m', next_timeout := Some h\<rparr>)"
        unfolding unf h(1) option.case p(1) using False h(1) by (cases st) simp
      ultimately show ?thesis by blast
    qed
  qed
qed


section \<open>Expiry\<close>

text \<open>The head leaves the list: the others are due counted from its time.\<close>

lemma earlier:
  assumes "tmr_ok sizes st (e # es)"
  shows "\<exists>mp. memp_free MEMP_SYS_TIMEOUT (Some e) (tpool st) = Some mp \<and>
     tmr_ok sizes (st\<lparr>timeouts_last_time := now, next_timeout := tnext (tmo st e), tpool := mp\<rparr>) es \<and>
     pending st (e # es) = due_entry 0 (tmo st e) # map (later (unat (ttime (tmo st e)))) (pending st es)"
proof -
  have c: "chain (tmo st) (next_timeout st) (e # es)" "distinct (e # es)"
    "pool_holds sizes MEMP_SYS_TIMEOUT (tpool st) (set (e # es))"
    using assms by (simp_all add: tmr_ok_def)
  obtain mp where mp: "memp_free MEMP_SYS_TIMEOUT (Some e) (tpool st) = Some mp"
    "pool_holds sizes MEMP_SYS_TIMEOUT mp (set (e # es) - {e})"
    using element_back[OF c(3), of e] by auto
  have "set (e # es) - {e} = set es" using c(2) by auto
  with mp c show ?thesis
    using due_later[of 0 "unat (ttime (tmo st e))" "tmo st" es] by (auto simp: tmr_ok_def)
qed

definition period :: "sys_timeout_handler \<Rightarrow> nat" where
  "period h = (case h of ip_reass_timer \<Rightarrow> 1000 | arp_timer \<Rightarrow> 5000 | dhcp_timer_coarse \<Rightarrow> 60000
     | dhcp_timer_fine \<Rightarrow> 500 | tcpip_tcp_timer \<Rightarrow> 250)"

lemma period_pos: "0 < period h"
  by (simp add: period_def split: sys_timeout_handler.splits)

text \<open>How often the entry is to fire when \<open>D\<close> milliseconds have passed.\<close>

definition entry_fires :: "nat \<Rightarrow> entry \<Rightarrow> nat" where
  "entry_fires D x = (if fst x \<le> D then case fst (snd x) of None \<Rightarrow> 1 | Some h \<Rightarrow> 1 + (D - fst x) div period h else 0)"

definition fires :: "nat \<Rightarrow> sys_timeout_handler \<Rightarrow> entry list \<Rightarrow> nat" where
  "fires D h xs = (\<Sum>x \<leftarrow> xs. if fst (snd x) = Some h then entry_fires D x else 0)"

definition turns :: "nat \<Rightarrow> entry list \<Rightarrow> nat" where
  "turns D xs = (\<Sum>x \<leftarrow> xs. entry_fires D x)"

lemma sum_schedule:
  "(\<Sum>y \<leftarrow> schedule x xs. f y) = (f x :: nat) + (\<Sum>y \<leftarrow> xs. f y)"
  by (induction xs) auto

lemma entry_later: "t \<le> D \<Longrightarrow> entry_fires D (later t x) = entry_fires (D - t) x"
  by (auto simp: entry_fires_def later_def add.commute split: option.splits)

lemma entry_again: "entry_fires D (0, Some h, a) = 1 + entry_fires D (period h, Some h, 0)"
proof (cases "period h \<le> D")
  case True
  then have "D div period h = Suc ((D - period h) div period h)"
    using period_pos[of h] by (simp add: le_div_geq)
  then show ?thesis using True by (simp add: entry_fires_def)
qed (simp add: entry_fires_def)

text \<open>The handler runs one tick and then, unless it is the timer of idle TCP, starts itself again;
  it does not return if the tick does not.\<close>

definition again :: "'w modules \<Rightarrow> sys_timeout_handler \<Rightarrow> 'w \<Rightarrow> bool" where
  "again mods h w = (h \<noteq> tcpip_tcp_timer \<or> has_pcbs mods w)"

lemma call_handler_stops: "tick mods h (world st) = None \<Longrightarrow> call_handler mods h st = None"
  by (cases h) (simp_all add: ticked_def tcp_timer_def)

lemma call_handler_spec:
  assumes "tmr_ok sizes st es" and "length es < memp_num MEMP_SYS_TIMEOUT" and w: "tick mods h (world st) = Some w"
  shows "\<exists>st' es'. call_handler mods h st = Some st' \<and> tmr_ok sizes st' es' \<and>
     world st' = w \<and> timeouts_last_time st' = timeouts_last_time st \<and>
     pending st' es' = (if again mods h w then schedule (period h, Some h, 0) (pending st es) else pending st es)"
proof -
  let ?st = "st\<lparr>world := w\<rparr>"
  have t: "ticked mods h st = Some ?st" using w by (simp add: ticked_def)
  have ok: "tmr_ok sizes ?st es" using assms(1) by (simp add: tmr_ok_def)
  have restart: "\<exists>st' es'. sys_timeout msecs (Some h) 0 ?st = Some st' \<and> tmr_ok sizes st' es' \<and>
      world st' = w \<and> timeouts_last_time st' = timeouts_last_time st \<and>
      pending st' es' = schedule (unat msecs, Some h, 0) (pending st es)" for msecs
    using sys_timeout_spec[OF ok assms(2), of msecs "Some h" 0] by fastforce
  show ?thesis
  proof (cases "h = tcpip_tcp_timer")
    case True
    show ?thesis
    proof (cases "has_pcbs mods w")
      case p: True
      then show ?thesis using restart[of TCP_TMR_INTERVAL] True t by (simp add: tcp_timer_def again_def period_def)
    next
      case False
      have "tmr_ok sizes (?st\<lparr>tcpip_tcp_timer_active := False\<rparr>) es" using assms(1) by (simp add: tmr_ok_def)
      then show ?thesis using True False t
        by (intro exI[of _ "?st\<lparr>tcpip_tcp_timer_active := False\<rparr>"] exI[of _ es]) (simp add: tcp_timer_def again_def)
    qed
  next
    case False
    then show ?thesis using t
      using restart[of IP_TMR_INTERVAL] restart[of ARP_TMR_INTERVAL] restart[of DHCP_COARSE_TIMER_MSECS]
        restart[of DHCP_FINE_TIMER_MSECS]
      by (cases h) (simp_all add: again_def period_def)
  qed
qed

text \<open>Ticks one after the other.\<close>

fun run_ticks :: "'w modules \<Rightarrow> sys_timeout_handler list \<Rightarrow> 'w \<Rightarrow> 'w option" where
  "run_ticks mods [] w = Some w"
| "run_ticks mods (h # hs) w = Option.bind (tick mods h w) (run_ticks mods hs)"

lemma run_ticks_append: "run_ticks mods (xs @ ys) w = Option.bind (run_ticks mods xs w) (run_ticks mods ys)"
  by (induction xs arbitrary: w) (auto split: bind_splits)

text \<open>There are connections to serve in every state on the way.\<close>

definition busy :: "'w modules \<Rightarrow> sys_timeout_handler list \<Rightarrow> 'w \<Rightarrow> bool" where
  "busy mods log w = (\<forall>n w'. run_ticks mods (take n log) w = Some w' \<longrightarrow> has_pcbs mods w')"

lemma busy_append:
  assumes "busy mods (xs @ ys) w" and "run_ticks mods xs w = Some w'"
  shows "busy mods ys w'" and "has_pcbs mods w'"
proof -
  have b: "run_ticks mods (take n (xs @ ys)) w = Some v \<Longrightarrow> has_pcbs mods v" for n v
    using assms(1) unfolding busy_def by blast
  show "busy mods ys w'" unfolding busy_def
  proof (intro allI impI)
    fix n v assume "run_ticks mods (take n ys) w' = Some v"
    then show "has_pcbs mods v" using b[of "length xs + n" v] assms(2) by (simp add: run_ticks_append)
  qed
  show "has_pcbs mods w'" using b[of "length xs" w'] assms(2) by simp
qed

lemma later_sel: "fst (later t x) = fst x + t" "snd (later t x) = snd x"
  by (simp_all add: later_def)

lemma turns_pop:
  assumes "t \<le> D"
  shows "turns D ((t, h, a) # map (later t) xs) = entry_fires (D - t) (0, h, a) + turns (D - t) xs"
    and "fires D g ((t, h, a) # map (later t) xs) = (if h = Some g then entry_fires (D - t) (0, h, a) else 0) + fires (D - t) g xs"
proof -
  have e: "entry_fires D (t, h, a) = entry_fires (D - t) (0, h, a)"
    using entry_later[OF assms, of "(0, h, a)"] by (simp add: later_def)
  have m: "map (\<lambda>x. entry_fires D (later t x)) xs = map (entry_fires (D - t)) xs"
    by (rule map_cong) (use assms in \<open>simp_all add: entry_later\<close>)
  have m2: "map (\<lambda>x. if fst (snd (later t x)) = Some g then entry_fires D (later t x) else 0) xs =
      map (\<lambda>x. if fst (snd x) = Some g then entry_fires (D - t) x else 0) xs"
    by (rule map_cong) (use assms in \<open>simp_all add: entry_later later_sel\<close>)
  show "fires D g ((t, h, a) # map (later t) xs) = (if h = Some g then entry_fires (D - t) (0, h, a) else 0) + fires (D - t) g xs"
    using e by (cases "h = Some g") (simp_all add: fires_def comp_def m2)
  show "turns D ((t, h, a) # map (later t) xs) = entry_fires (D - t) (0, h, a) + turns (D - t) xs"
    by (simp add: turns_def comp_def e m)
qed

lemma turns_schedule:
  "turns D (schedule x xs) = entry_fires D x + turns D xs"
  "fires D g (schedule x xs) = (if fst (snd x) = Some g then entry_fires D x else 0) + fires D g xs"
  by (simp_all add: turns_def fires_def sum_schedule)

text \<open>The effect of a run of the loop that returns: the ticks in \<open>log\<close> happened, nothing due is left, and the time
  is noted if anything was due.\<close>

definition ran :: "(memp_t \<Rightarrow> nat) \<Rightarrow> 'w modules \<Rightarrow> u32 \<Rightarrow> nat \<Rightarrow> 'w timers \<Rightarrow> nat list \<Rightarrow>
    sys_timeout_handler list \<Rightarrow> 'w timers \<Rightarrow> bool" where
  "ran sizes mods now D st es log st' = (run_ticks mods log (world st) = Some (world st') \<and>
     (\<forall>g. count_list log g \<le> fires D g (pending st es)) \<and>
     (\<forall>g. (g \<noteq> tcpip_tcp_timer \<or> busy mods log (world st)) \<longrightarrow> count_list log g = fires D g (pending st es)) \<and>
     (if \<exists>x \<in> set (pending st es). fst x \<le> D then timeouts_last_time st' = now else st' = st) \<and>
     (\<exists>es' rest. tmr_ok sizes st' es' \<and> length es' \<le> length es \<and> rest \<le> D \<and> (\<forall>x \<in> set (pending st' es'). rest < fst x)))"

text \<open>Ticks that are due happen until one that is due does not return.\<close>

definition stuck :: "'w modules \<Rightarrow> nat \<Rightarrow> 'w timers \<Rightarrow> nat list \<Rightarrow> bool" where
  "stuck mods D st es = (\<exists>log h w. run_ticks mods log (world st) = Some w \<and> tick mods h w = None \<and>
     (\<forall>g. count_list (log @ [h]) g \<le> fires D g (pending st es)))"

lemma expire_loop_idle:
  assumes "tmr_ok sizes st es" and "es = [] \<or> \<not> ttime (tmo st (hd es)) \<le> diff"
  shows "expire_loop mods now diff st = Some st \<and> ran sizes mods now (unat diff) st es [] st"
proof -
  let ?D = "unat diff"
  have ch: "chain (tmo st) (next_timeout st) es" using assms(1) by (simp add: tmr_ok_def)
  have "expire_loop mods now diff st = Some st" using ch assms(2) by (subst expire_loop.simps) (cases es; auto)
  moreover have gt: "?D < fst x" if "x \<in> set (pending st es)" for x
    using assms(2) that due_sorted[of 0 "tmo st" es]
    by (cases es) (auto simp: due_entry_def not_le word_less_nat_alt dest: due_ge)
  moreover have "fires ?D g (pending st es) = 0" for g
  proof -
    have "\<forall>x \<in> set (pending st es). entry_fires ?D x = 0"
    proof
      fix x assume "x \<in> set (pending st es)"
      from gt[OF this] show "entry_fires ?D x = 0" by (simp add: entry_fires_def)
    qed
    then show ?thesis by (auto simp: fires_def sum_list_eq_0_iff)
  qed
  ultimately show ?thesis using assms(1) by (fastforce simp: ran_def)
qed

text \<open>One turn of the loop: the entry fires, or its tick does not return.\<close>

lemma expire_turn:
  assumes "tmr_ok sizes st (e # es)" and "length (e # es) \<le> memp_num MEMP_SYS_TIMEOUT" and "ttime (tmo st e) \<le> diff"
  defines "t \<equiv> unat (ttime (tmo st e))" and "D \<equiv> unat diff"
  shows "stuck mods D st (e # es) \<and> expire_loop mods now diff st = None \<or>
    (\<exists>st2 es2 log. expire_loop mods now diff st = expire_loop mods now (diff - ttime (tmo st e)) st2 \<and>
       tmr_ok sizes st2 es2 \<and> length es2 \<le> length (e # es) \<and> run_ticks mods log (world st) = Some (world st2) \<and>
       timeouts_last_time st2 = now \<and> turns (D - t) (pending st2 es2) < turns D (pending st (e # es)) \<and>
       (\<forall>g. count_list log g + fires (D - t) g (pending st2 es2) \<le> fires D g (pending st (e # es))) \<and>
       (\<forall>g. g \<noteq> tcpip_tcp_timer \<or> has_pcbs mods (world st2) \<longrightarrow>
          count_list log g + fires (D - t) g (pending st2 es2) = fires D g (pending st (e # es))))"
proof -
  have t: "t \<le> D" using assms(3) by (simp add: t_def D_def word_le_nat_alt)
  have nx: "next_timeout st = Some e" using assms(1) by (simp add: tmr_ok_def)
  obtain mp where mp: "memp_free MEMP_SYS_TIMEOUT (Some e) (tpool st) = Some mp"
    and p: "tmr_ok sizes (st\<lparr>timeouts_last_time := now, next_timeout := tnext (tmo st e), tpool := mp\<rparr>) es"
      "pending st (e # es) = due_entry 0 (tmo st e) # map (later t) (pending st es)"
    using earlier[OF assms(1), of now] by (auto simp: t_def)
  define st1 where "st1 = st\<lparr>timeouts_last_time := now, next_timeout := tnext (tmo st e), tpool := mp\<rparr>"
  have st1: "pending st1 es = pending st es" "world st1 = world st" "timeouts_last_time st1 = now" "tmr_ok sizes st1 es"
    using p(1) by (simp_all add: st1_def)
  define k where "k = (case thandler (tmo st e) of None \<Rightarrow> Some st1 | Some h \<Rightarrow> call_handler mods h st1)"
  have unf: "expire_loop mods now diff st = Option.bind k (expire_loop mods now (diff - ttime (tmo st e)))"
    using assms(3) by (subst expire_loop.simps) (cases "thandler (tmo st e)"; simp add: nx mp k_def st1_def Let_def)
  have d0: "pending st (e # es) = (t, thandler (tmo st e), targ (tmo st e)) # map (later t) (pending st1 es)"
    using p(2) by (simp add: due_entry_def t_def st1)
  show ?thesis
  proof (cases "thandler (tmo st e)")
    case None
    then have "k = Some st1" by (simp add: k_def)
    then show ?thesis using st1 unf None unfolding d0 turns_pop[OF t]
      by (intro disjI2 exI[of _ st1] exI[of _ es] exI[of _ "[]"]) (simp add: entry_fires_def)
  next
    case (Some h)
    show ?thesis
    proof (cases "tick mods h (world st)")
      case None
      then have "k = None" using Some st1(2) by (simp add: k_def call_handler_stops)
      moreover have "\<forall>g. count_list ([] @ [h]) g \<le> fires D g (pending st (e # es))"
        unfolding d0 turns_pop[OF t] Some by (simp add: entry_again)
      ultimately show ?thesis using None unf unfolding stuck_def
        by (intro disjI1 conjI exI[of _ "[]"] exI[of _ h] exI[of _ "world st"]) simp_all
    next
      case w: (Some w)
      have "length es < memp_num MEMP_SYS_TIMEOUT" using assms(2) by simp
      from call_handler_spec[OF st1(4) this, of mods h w] w obtain st2 es2 where
        c: "k = Some st2" "tmr_ok sizes st2 es2" "world st2 = w" "timeouts_last_time st2 = now"
          "pending st2 es2 = (if again mods h w then schedule (period h, Some h, 0) (pending st1 es) else pending st1 es)"
        using st1(2,3) Some by (auto simp: k_def)
      have l: "length es2 \<le> length (e # es)"
        using arg_cong[OF c(5), of length] by (auto simp: schedule_def split: if_splits)
          (metis add_Suc_right due_length le_refl length_append takeWhile_dropWhile_id)
      have "turns (D - t) (pending st2 es2) < turns D (pending st (e # es))"
        unfolding d0 turns_pop[OF t] c(5) Some by (simp add: turns_schedule entry_again)
      moreover have "count_list [h] g + fires (D - t) g (pending st2 es2) \<le> fires D g (pending st (e # es))" for g
        unfolding d0 turns_pop[OF t] c(5) Some by (simp add: turns_schedule entry_again)
      moreover have "count_list [h] g + fires (D - t) g (pending st2 es2) = fires D g (pending st (e # es))"
        if "g \<noteq> tcpip_tcp_timer \<or> has_pcbs mods (world st2)" for g
        using that c(3) unfolding d0 turns_pop[OF t] c(5) Some by (auto simp: turns_schedule entry_again again_def)
      moreover have "expire_loop mods now diff st = expire_loop mods now (diff - ttime (tmo st e)) st2" using unf c(1) by simp
      ultimately show ?thesis using c w l by (intro disjI2 exI[of _ st2] exI[of _ es2] exI[of _ "[h]"]) auto
    qed
  qed
qed

lemma expire_loop_spec:
  assumes "tmr_ok sizes st es" and "length es \<le> memp_num MEMP_SYS_TIMEOUT"
  shows "stuck mods (unat diff) st es \<and> expire_loop mods now diff st = None \<or>
    (\<exists>st' log. expire_loop mods now diff st = Some st' \<and> ran sizes mods now (unat diff) st es log st')"
  using assms
proof (induction "turns (unat diff) (pending st es)" arbitrary: st es diff rule: less_induct)
  case less
  let ?D = "unat diff"
  show ?case
  proof (cases "es = [] \<or> \<not> ttime (tmo st (hd es)) \<le> diff")
    case True
    from expire_loop_idle[OF less.prems(1) this] show ?thesis by blast
  next
    case False
    then obtain e es1 where es: "es = e # es1" and le: "ttime (tmo st e) \<le> diff" by (cases es) auto
    let ?t = "unat (ttime (tmo st e))"
    have t: "?t \<le> ?D" "unat (diff - ttime (tmo st e)) = ?D - ?t"
      using le by (simp_all add: sub_nat word_le_nat_alt)
    have due: "\<exists>x \<in> set (pending st es). fst x \<le> ?D" using t(1) es by (simp add: due_entry_def)
    from expire_turn[OF less.prems[unfolded es] le, of mods now] show ?thesis
    proof (elim disjE exE conjE)
      fix st2 es2 log
      assume eq: "expire_loop mods now diff st = expire_loop mods now (diff - ttime (tmo st e)) st2"
        and ok: "tmr_ok sizes st2 es2" "length es2 \<le> length (e # es1)" and w: "run_ticks mods log (world st) = Some (world st2)"
        and now: "timeouts_last_time st2 = now" and lt: "turns (?D - ?t) (pending st2 es2) < turns ?D (pending st (e # es1))"
        and most: "\<forall>g. count_list log g + fires (?D - ?t) g (pending st2 es2) \<le> fires ?D g (pending st (e # es1))"
        and all: "\<forall>g. g \<noteq> tcpip_tcp_timer \<or> has_pcbs mods (world st2) \<longrightarrow>
          count_list log g + fires (?D - ?t) g (pending st2 es2) = fires ?D g (pending st (e # es1))"
      have "length es2 \<le> memp_num MEMP_SYS_TIMEOUT" using ok(2) less.prems(2) es by simp
      from less.hyps[of "diff - ttime (tmo st e)" st2 es2, unfolded t(2), OF lt[folded es] ok(1) this]
      show ?thesis
      proof (elim disjE exE conjE)
        assume st2: "stuck mods (?D - ?t) st2 es2" "expire_loop mods now (diff - ttime (tmo st e)) st2 = None"
        obtain l h w' where l: "run_ticks mods l (world st2) = Some w'" "tick mods h w' = None"
          "\<And>g. count_list (l @ [h]) g \<le> fires (?D - ?t) g (pending st2 es2)"
          using st2(1) by (auto simp: stuck_def)
        have "count_list ((log @ l) @ [h]) g \<le> fires ?D g (pending st es)" for g
          using most[rule_format, of g] l(3)[of g] es by simp
        then have "stuck mods ?D st es" using l(1,2) w unfolding stuck_def
          by (intro exI[of _ "log @ l"] exI[of _ h] exI[of _ w']) (simp add: run_ticks_append)
        then show ?thesis using eq st2(2) by simp
      next
        fix st' log'
        assume r: "expire_loop mods now (diff - ttime (tmo st e)) st2 = Some st'" "ran sizes mods now (?D - ?t) st2 es2 log' st'"
        have "ran sizes mods now ?D st es (log @ log') st'"
          unfolding ran_def
        proof (intro conjI allI impI)
          show "run_ticks mods (log @ log') (world st) = Some (world st')" using r(2) w by (simp add: ran_def run_ticks_append)
          show "count_list (log @ log') g \<le> fires ?D g (pending st es)" for g
          proof -
            have "count_list log' g \<le> fires (?D - ?t) g (pending st2 es2)" using r(2) by (simp add: ran_def)
            then show ?thesis using most[rule_format, of g] es by simp
          qed
          show "count_list (log @ log') g = fires ?D g (pending st es)" if "g \<noteq> tcpip_tcp_timer \<or> busy mods (log @ log') (world st)" for g
          proof -
            have g: "g \<noteq> tcpip_tcp_timer \<or> busy mods log' (world st2)" "g \<noteq> tcpip_tcp_timer \<or> has_pcbs mods (world st2)"
              using that busy_append[OF _ w] by blast+
            then have "count_list log' g = fires (?D - ?t) g (pending st2 es2)" using r(2) unfolding ran_def by blast
            then show ?thesis using all[rule_format, OF g(2)] es by simp
          qed
          show "if \<exists>x \<in> set (pending st es). fst x \<le> ?D then timeouts_last_time st' = now else st' = st"
            using due r(2) now unfolding ran_def by (auto split: if_splits)
          show "\<exists>es' rest. tmr_ok sizes st' es' \<and> length es' \<le> length es \<and> rest \<le> ?D \<and> (\<forall>x \<in> set (pending st' es'). rest < fst x)"
          proof -
            obtain es' rest where "tmr_ok sizes st' es'" "length es' \<le> length es2" "rest \<le> ?D - ?t" "\<forall>x \<in> set (pending st' es'). rest < fst x"
              using r(2) unfolding ran_def by blast
            then show ?thesis using ok(2) es by (intro exI[of _ es'] exI[of _ rest]) auto
          qed
        qed
        then show ?thesis using eq r(1) by auto
      qed
    qed (simp add: es)
  qed
qed

section \<open>Contract\<close>

text \<open>Claim C32: starting a timeout schedules it. While the pool has a free element, \<open>sys_timeout\<close> returns
  and the schedule it leaves is the old one with the new entry inserted at its time, behind
  the entries due at the same time; the time at which every other entry is due stays the same,
  although the list stores differences. The list stays well-formed.\<close>

theorem sys_timeout_schedules:
  assumes "tmr_ok sizes st es" and "length es < memp_num MEMP_SYS_TIMEOUT"
  shows "\<exists>st' es'. sys_timeout msecs handler a st = Some st' \<and> tmr_ok sizes st' es' \<and>
     pending st' es' = schedule (unat msecs, handler, a) (pending st es) \<and>
     world st' = world st \<and> timeouts_last_time st' = timeouts_last_time st"
  using sys_timeout_spec[OF assms, of msecs handler a] by fastforce

text \<open>Claim C33: a check catches up, and returns as soon as the functions it calls do, whatever is pending and however long
  ago the last one was. It does not return only when a tick that is due does not, after others due that did. When it returns, with
  \<open>D\<close> milliseconds passed, modulo wrap-around of the clock, each periodic timer due
  after \<open>t \<le> D\<close> has ticked exactly \<open>1 + (D - t) div period\<close> times and none otherwise (TCP's as long as
  there are connections after every tick; else at most so often); nothing that is due is left; and the time of the check is
  noted if anything was due, while otherwise nothing changes.\<close>

theorem check_catches_up:
  assumes "tmr_ok sizes st es" and "length es \<le> memp_num MEMP_SYS_TIMEOUT" and "D = unat (now - timeouts_last_time st)"
  shows "(case sys_check_timeouts mods now st of
      None \<Rightarrow> \<exists>log h w. run_ticks mods log (world st) = Some w \<and> tick mods h w = None \<and>
       (\<forall>g. count_list (log @ [h]) g \<le> fires D g (pending st es))
    | Some st' \<Rightarrow> \<exists>log es' rest. run_ticks mods log (world st) = Some (world st') \<and>
       (\<forall>g. g \<noteq> tcpip_tcp_timer \<or> busy mods log (world st) \<longrightarrow> count_list log g = fires D g (pending st es)) \<and>
       count_list log tcpip_tcp_timer \<le> fires D tcpip_tcp_timer (pending st es) \<and>
       (if \<exists>x \<in> set (pending st es). fst x \<le> D then timeouts_last_time st' = now else st' = st) \<and>
       tmr_ok sizes st' es' \<and> rest \<le> D \<and> (\<forall>x \<in> set (pending st' es'). rest < fst x))"
proof (cases "next_timeout st = None")
  case True
  then have "es = []" using assms(1) by (cases es) (auto simp: tmr_ok_def)
  then show ?thesis using True assms(1)
    by (auto simp: sys_check_timeouts_def fires_def intro!: exI[of _ "[]"] exI[of _ 0])
next
  case False
  let ?L = "expire_loop mods now (now - timeouts_last_time st) st"
  have c: "sys_check_timeouts mods now st = ?L" using False by (simp add: sys_check_timeouts_def del: not_None_eq)
  consider "stuck mods D st es" "?L = None" | st' log where "?L = Some st'" "ran sizes mods now D st es log st'"
    using expire_loop_spec[OF assms(1,2), of mods "now - timeouts_last_time st" now, folded assms(3)] by (elim disjE exE conjE) simp_all
  then show ?thesis
  proof cases
    case 1
    then show ?thesis unfolding c by (simp add: stuck_def)
  next
    case 2
    then show ?thesis unfolding c ran_def by (auto split: if_splits)
  qed
qed

section \<open>At start-up\<close>

definition boot_schedule :: "entry list" where
  "boot_schedule = [(250, Some tcpip_tcp_timer, 0), (500, Some dhcp_timer_fine, 0), (1000, Some ip_reass_timer, 0),
     (5000, Some arp_timer, 0), (60000, Some dhcp_timer_coarse, 0)]"

lemma timeouts_init_spec:
  assumes "tmr_ok sizes st []"
  shows "\<exists>st' es. sys_timeouts_init now st = Some st' \<and> tmr_ok sizes st' es \<and> pending st' es = boot_schedule \<and>
     timeouts_last_time st' = now \<and> tcpip_tcp_timer_active st' = tcpip_tcp_timer_active st \<and> world st' = world st"
proof -
  have step: "\<exists>st' es'. sys_timeout ms h 0 s = Some st' \<and> tmr_ok sizes st' es' \<and> pending st' es' = schedule (unat ms, h, 0) (pending s es) \<and>
      tcpip_tcp_timer_active st' = tcpip_tcp_timer_active s \<and> world st' = world s"
    if "tmr_ok sizes s es" "length es < 10" for ms h s es
    using sys_timeout_spec[OF that(1), of ms h 0] that(2) by fastforce
  obtain s1 e1 where 1: "sys_timeout IP_TMR_INTERVAL (Some ip_reass_timer) 0 st = Some s1" "tmr_ok sizes s1 e1"
    "pending s1 e1 = [(1000, Some ip_reass_timer, 0)]" "tcpip_tcp_timer_active s1 = tcpip_tcp_timer_active st" "world s1 = world st"
    using step[OF assms, of IP_TMR_INTERVAL "Some ip_reass_timer"] by auto
  have l1: "length e1 = 1" using arg_cong[OF 1(3), of length] by simp
  obtain s2 e2 where 2: "sys_timeout ARP_TMR_INTERVAL (Some arp_timer) 0 s1 = Some s2" "tmr_ok sizes s2 e2"
    "pending s2 e2 = [(1000, Some ip_reass_timer, 0), (5000, Some arp_timer, 0)]"
    "tcpip_tcp_timer_active s2 = tcpip_tcp_timer_active st" "world s2 = world st"
    using step[OF 1(2), of ARP_TMR_INTERVAL "Some arp_timer"] 1 l1 by auto
  have l2: "length e2 = 2" using arg_cong[OF 2(3), of length] by simp
  obtain s3 e3 where 3: "sys_timeout DHCP_COARSE_TIMER_MSECS (Some dhcp_timer_coarse) 0 s2 = Some s3" "tmr_ok sizes s3 e3"
    "pending s3 e3 = [(1000, Some ip_reass_timer, 0), (5000, Some arp_timer, 0), (60000, Some dhcp_timer_coarse, 0)]"
    "tcpip_tcp_timer_active s3 = tcpip_tcp_timer_active st" "world s3 = world st"
    using step[OF 2(2), of DHCP_COARSE_TIMER_MSECS "Some dhcp_timer_coarse"] 2 l2 by auto
  have l3: "length e3 = 3" using arg_cong[OF 3(3), of length] by simp
  obtain s4 e4 where 4: "sys_timeout DHCP_FINE_TIMER_MSECS (Some dhcp_timer_fine) 0 s3 = Some s4" "tmr_ok sizes s4 e4"
    "pending s4 e4 = [(500, Some dhcp_timer_fine, 0), (1000, Some ip_reass_timer, 0), (5000, Some arp_timer, 0), (60000, Some dhcp_timer_coarse, 0)]"
    "tcpip_tcp_timer_active s4 = tcpip_tcp_timer_active st" "world s4 = world st"
    using step[OF 3(2), of DHCP_FINE_TIMER_MSECS "Some dhcp_timer_fine"] 3 l3 by auto
  have l4: "length e4 = 4" using arg_cong[OF 4(3), of length] by simp
  obtain s5 e5 where 5: "sys_timeout TCP_TMR_INTERVAL (Some tcpip_tcp_timer) 0 s4 = Some s5" "tmr_ok sizes s5 e5"
    "pending s5 e5 = boot_schedule" "tcpip_tcp_timer_active s5 = tcpip_tcp_timer_active st" "world s5 = world st"
    using step[OF 4(2), of TCP_TMR_INTERVAL "Some tcpip_tcp_timer"] 4 l4 by (auto simp: boot_schedule_def)
  show ?thesis
    using 1(1) 2(1) 3(1) 4(1) 5 by (intro exI[of _ "s5\<lparr>timeouts_last_time := now\<rparr>"] exI[of _ e5])
      (simp add: sys_timeouts_init_def tmr_ok_def)
qed

text \<open>The first connection starts TCP's timer a second time. \<open>sys_timeouts_init\<close> starts it without
  setting \<open>tcpip_tcp_timer_active\<close>, so that a connection registered before the first 250 milliseconds
  are over adds another one: from then on \<open>tcp_tmr\<close> runs at twice its rate as long as there are connections.\<close>

theorem tcp_timer_started_twice:
  assumes "tmr_ok sizes st []" and "\<not> tcpip_tcp_timer_active st" and "has_pcbs mods (world st)"
  shows "\<exists>st1 st2 es. sys_timeouts_init now st = Some st1 \<and> tcp_timer_needed mods st1 = Some st2 \<and> tmr_ok sizes st2 es \<and>
     map fst (filter (\<lambda>x. fst (snd x) = Some tcpip_tcp_timer) (pending st2 es)) = [250, 250] \<and>
     fires 250 tcpip_tcp_timer (pending st2 es) = 2"
proof -
  obtain st1 es where i: "sys_timeouts_init now st = Some st1" "tmr_ok sizes st1 es" "pending st1 es = boot_schedule"
    "tcpip_tcp_timer_active st1 = tcpip_tcp_timer_active st" "world st1 = world st"
    using timeouts_init_spec[OF assms(1), of now] by blast
  have "length es = 5" using arg_cong[OF i(3), of length] by (simp add: boot_schedule_def)
  moreover have "tmr_ok sizes (st1\<lparr>tcpip_tcp_timer_active := True\<rparr>) es" using i(2) by (simp add: tmr_ok_def)
  ultimately obtain st2 es' where s: "sys_timeout TCP_TMR_INTERVAL (Some tcpip_tcp_timer) 0 (st1\<lparr>tcpip_tcp_timer_active := True\<rparr>) = Some st2"
    "tmr_ok sizes st2 es'" "pending st2 es' = schedule (250, Some tcpip_tcp_timer, 0) boot_schedule"
    using sys_timeout_spec[of sizes "st1\<lparr>tcpip_tcp_timer_active := True\<rparr>" es TCP_TMR_INTERVAL "Some tcpip_tcp_timer" 0] i(3)
    by auto
  then have "tcp_timer_needed mods st1 = Some st2"
    using i(4,5) assms by (simp add: tcp_timer_needed_def)
  with i(1) s show ?thesis
    by (intro exI[of _ st1] exI[of _ st2] exI[of _ es']) (simp add: boot_schedule_def fires_def entry_fires_def)
qed

text \<open>Without progress of the clock a check does nothing: no timer that is set to a positive time fires.\<close>

lemma clock_stands_still:
  assumes "tmr_ok sizes st es" and "\<forall>x \<in> set (pending st es). 0 < fst x"
  shows "sys_check_timeouts mods (timeouts_last_time st) st = Some st"
proof (cases es)
  case Nil
  then show ?thesis using assms(1) by (simp add: sys_check_timeouts_def tmr_ok_def)
next
  case (Cons e es')
  then have "next_timeout st = Some e" "ttime (tmo st e) \<noteq> 0"
    using assms by (auto simp: tmr_ok_def due_entry_def)
  then show ?thesis by (subst sys_check_timeouts_def) (simp add: expire_loop.simps[of mods])
qed


section \<open>Witnesses\<close>

definition ex_timers :: "nat timers" where
  "ex_timers = \<lparr>tpool = memp_init (\<lambda>_. 616) \<lparr>memp_tab = (\<lambda>_. None), mp_next = (\<lambda>_. None)\<rparr>,
     tmo = (\<lambda>_. \<lparr>tnext = None, ttime = 0, thandler = None, targ = 0\<rparr>), next_timeout = None,
     timeouts_last_time = 0, tcpip_tcp_timer_active = False, world = 0\<rparr>"

definition ex_mods :: "nat modules" where
  "ex_mods = \<lparr>tick = (\<lambda>h w. Some (w + 1)), has_pcbs = (\<lambda>w. True)\<rparr>"

lemma ex_timers_ok: "tmr_ok (\<lambda>_. 616) ex_timers []"
proof -
  have "memp_ok (\<lambda>_. 616) (tpool ex_timers) (\<lambda>t. rev (elems (\<lambda>_. 616) t))"
    by (simp add: ex_timers_def memp_init_ok sizes_ok_def)
  then have "pool_holds (\<lambda>_. 616) MEMP_SYS_TIMEOUT (tpool ex_timers) {}"
    by (auto simp: pool_holds_def)
  then show ?thesis by (simp add: tmr_ok_def ex_timers_def)
qed

theorem sys_timeout_schedules_witness:
  "\<exists>st' es'. sys_timeout 10 (Some arp_timer) 0 ex_timers = Some st' \<and> pending st' es' = [(10, Some arp_timer, 0)]"
  using sys_timeout_schedules[OF ex_timers_ok, of 10 "Some arp_timer" 0] by auto

theorem check_catches_up_witness:
  "\<exists>st st' log. sys_timeouts_init 0 ex_timers = Some st \<and> sys_check_timeouts ex_mods 1100 st = Some st' \<and>
     run_ticks ex_mods log 0 = Some (world st') \<and> count_list log tcpip_tcp_timer = 4 \<and> count_list log dhcp_timer_fine = 2 \<and>
     count_list log ip_reass_timer = 1 \<and> count_list log arp_timer = 0 \<and> timeouts_last_time st' = 1100"
proof -
  obtain st es where i: "sys_timeouts_init 0 ex_timers = Some st" "tmr_ok (\<lambda>_. 616) st es" "pending st es = boot_schedule"
    "timeouts_last_time st = 0" "world st = world ex_timers"
    using timeouts_init_spec[OF ex_timers_ok, of 0] by blast
  have l: "length es \<le> memp_num MEMP_SYS_TIMEOUT" using arg_cong[OF i(3), of length] by (simp add: boot_schedule_def)
  have t: "tick ex_mods h w = Some (w + 1)" "busy ex_mods log w" for h w log by (simp_all add: ex_mods_def busy_def)
  have "1100 = unat (1100 - timeouts_last_time st)" using i(4) by simp
  note c = check_catches_up[OF i(2) l this, of ex_mods]
  obtain st' where s: "sys_check_timeouts ex_mods 1100 st = Some st'" using c t(1) by (auto split: option.splits)
  obtain log where log: "run_ticks ex_mods log (world st) = Some (world st')" "\<And>g. count_list log g = fires 1100 g boot_schedule"
    "if \<exists>x \<in> set boot_schedule. fst x \<le> 1100 then timeouts_last_time st' = 1100 else st' = st"
    using c t(2) unfolding s option.case i(3) by blast
  then have "count_list log tcpip_tcp_timer = 4 \<and> count_list log dhcp_timer_fine = 2 \<and>
     count_list log ip_reass_timer = 1 \<and> count_list log arp_timer = 0 \<and> timeouts_last_time st' = 1100"
    by (simp add: fires_def boot_schedule_def entry_fires_def period_def)
  then show ?thesis using i(1,5) s log(1) by (auto simp: ex_timers_def)
qed

theorem tcp_timer_started_twice_witness:
  "\<exists>st1 st2 es. sys_timeouts_init 0 ex_timers = Some st1 \<and> tcp_timer_needed ex_mods st1 = Some st2 \<and>
     fires 250 tcpip_tcp_timer (pending st2 es) = 2"
  using tcp_timer_started_twice[OF ex_timers_ok, of ex_mods 0] by (fastforce simp: ex_timers_def ex_mods_def)


end
