(* ===== verification/Keeps.thy ===== *)
theory Keeps
  imports IpOut
begin

text \<open>
  What an operation leaves alone. \<open>post m Q\<close>: whatever \<open>m\<close> returns satisfies \<open>Q\<close> (nothing is said when it
  does not return). The rules of \<open>posts\<close> go backwards through the statements of an operation; a rule for an
  operation \<open>f\<close> has the form \<open>(\<And>x. R x \<Longrightarrow> Q x) \<Longrightarrow> post (f st) Q\<close>. With them, the locale \<open>above_ip\<close> proves once that
  whatever is not memory, the ARP table, the frames sent or the identification of datagrams
  is left alone by the whole way down from \<open>ip_output\<close>.
\<close>

named_theorems posts

definition post :: "'a option \<Rightarrow> ('a \<Rightarrow> bool) \<Rightarrow> bool" where
  "post m Q = (\<forall>x. m = Some x \<longrightarrow> Q x)"

lemma postD: "post m Q \<Longrightarrow> m = Some x \<Longrightarrow> Q x"
  by (simp add: post_def)

lemma postI: "(\<And>x. m = Some x \<Longrightarrow> Q x) \<Longrightarrow> post m Q"
  by (simp add: post_def)

lemma post_some [posts]: "Q x \<Longrightarrow> post (Some x) Q"
  by (simp add: post_def)

lemma post_none [posts]: "post None Q"
  by (simp add: post_def)

lemma post_bind [posts]: "post m (\<lambda>x. post (f x) Q) \<Longrightarrow> post (Option.bind m f) Q"
  by (auto simp: post_def bind_eq_Some_conv)

lemma post_map [posts]: "post m (\<lambda>x. Q (f x)) \<Longrightarrow> post (map_option f m) Q"
  by (auto simp: post_def)

lemma post_if [posts]: "(b \<Longrightarrow> post x Q) \<Longrightarrow> (\<not> b \<Longrightarrow> post y Q) \<Longrightarrow> post (if b then x else y) Q"
  by simp

lemma post_let [posts]: "post (f e) Q \<Longrightarrow> post (Let e f) Q"
  by simp

lemma post_case_option [posts]:
  "(x = None \<Longrightarrow> post a Q) \<Longrightarrow> (\<And>y. x = Some y \<Longrightarrow> post (f y) Q) \<Longrightarrow> post (case x of None \<Rightarrow> a | Some y \<Rightarrow> f y) Q"
  by (cases x) auto

lemma post_case_prod [posts]: "(\<And>a b. x = (a, b) \<Longrightarrow> post (f a b) Q) \<Longrightarrow> post (case x of (a, b) \<Rightarrow> f a b) Q"
  by (cases x) auto

lemma post_case_sum [posts]:
  "(\<And>y. x = Inl y \<Longrightarrow> post (f y) Q) \<Longrightarrow> (\<And>y. x = Inr y \<Longrightarrow> post (g y) Q) \<Longrightarrow>
   post (case x of Inl y \<Rightarrow> f y | Inr y \<Rightarrow> g y) Q"
  by (cases x) auto

lemma post_assert [posts]: "(c \<Longrightarrow> Q ()) \<Longrightarrow> post (lwip_assert c) Q"
  by (auto simp: post_def lwip_assert_def)

lemma post_pair: "(\<And>a b. Q (a, b)) \<Longrightarrow> post m Q"
  by (auto simp: post_def)

text \<open>A value of which nothing is used.\<close>

lemma post_any: "(\<And>x. Q x) \<Longrightarrow> post m Q"
  by (simp add: post_def)

lemma post_conj: "post m P \<Longrightarrow> post m Q \<Longrightarrow> post m (\<lambda>x. P x \<and> Q x)"
  by (simp add: post_def)

lemma post_mono: "post m P \<Longrightarrow> (\<And>x. P x \<Longrightarrow> Q x) \<Longrightarrow> post m Q"
  by (auto simp: post_def)

lemma post_case_loc [posts]:
  "(\<And>r. x = Ram r \<Longrightarrow> post (f r) Q) \<Longrightarrow> (\<And>e. x = Pool e \<Longrightarrow> post (g e) Q) \<Longrightarrow> (\<And>r. x = Rom r \<Longrightarrow> post (h r) Q) \<Longrightarrow>
   post (case x of Ram r \<Rightarrow> f r | Pool e \<Rightarrow> g e | Rom r \<Rightarrow> h r) Q"
  by (cases x) auto

section \<open>Below IP\<close>

text \<open>
  A view of the state that does not depend on the memory, the ARP table, the transmit buffer, the frames sent and
  the identification.
\<close>

locale above_ip =
  fixes V :: "lan \<Rightarrow> 'v"
  assumes V_net: "\<And>st n. V (st\<lparr>lnet := n\<rparr>) = V st"
    and V_table: "\<And>st t. V (st\<lparr>arp_table := t\<rparr>) = V st"
    and V_cached: "\<And>st i. V (st\<lparr>etharp_cached_entry := i\<rparr>) = V st"
    and V_ucbuffer: "\<And>st b. V (st\<lparr>ucBuffer := b\<rparr>) = V st"
    and V_wire: "\<And>st w. V (st\<lparr>wire := w\<rparr>) = V st"
    and V_ident: "\<And>st i. V (st\<lparr>ipst := (ipst st)\<lparr>ip_id := i\<rparr>\<rparr>) = V st"
begin

lemmas V_simps = V_net V_table V_cached V_ucbuffer V_wire V_ident

lemma V_set_entry: "V (set_entry i f st) = V st"
  by (simp add: set_entry_def V_simps)

lemma keep_store: "(\<And>st'. V st' = V st \<Longrightarrow> Q st') \<Longrightarrow> post (store d ws st) Q"
proof (induction ws arbitrary: st)
  case Nil
  then show ?case by (simp add: post_def)
next
  case (Cons w ws)
  obtain i xs where w: "w = (i, xs)" by force
  show ?case unfolding w store.simps
    by (intro posts post_any Cons.IH) (simp add: Cons.prems V_net)
qed

lemma keep_puts: "(\<And>st'. V st' = V st \<Longrightarrow> Q st') \<Longrightarrow> post (puts p ws st) Q"
proof (induction ws arbitrary: st)
  case Nil
  then show ?case by (simp add: post_def)
next
  case (Cons w ws)
  obtain i xs where w: "w = (i, xs)" by force
  show ?case unfolding w puts.simps
    by (intro posts post_any Cons.IH) (simp add: Cons.prems V_net)
qed

lemma keep_release: "(\<And>st'. V st' = V st \<Longrightarrow> Q st') \<Longrightarrow> post (release pt p st) Q"
  unfolding release_def by (intro posts post_any) (simp add: V_net split: prod.split)

lemma keep_low_level_output: "(\<And>e st'. V st' = V st \<Longrightarrow> Q (e, st')) \<Longrightarrow> post (low_level_output pt p st) Q"
  unfolding low_level_output_def transmit_def by (intro posts post_any) (simp_all add: V_simps)

lemmas keep_base = keep_store keep_puts keep_release keep_low_level_output

lemma keep_send_ip: "(\<And>e st'. V st' = V st \<Longrightarrow> Q (e, st')) \<Longrightarrow> post (etharp_send_ip pt n p s d st) Q"
  unfolding etharp_send_ip_def by (intro posts keep_base) (simp add: V_simps)

lemma keep_free_entry: "(\<And>st'. V st' = V st \<Longrightarrow> Q st') \<Longrightarrow> post (etharp_free_entry pt i st) Q"
  unfolding etharp_free_entry_def by (intro posts keep_base) (simp_all add: V_set_entry V_simps)

lemma keep_recycle: "(\<And>r st'. V st' = V st \<Longrightarrow> Q (r, st')) \<Longrightarrow> post (recycle pt c st) Q"
  unfolding recycle_def by (intro posts keep_free_entry) (simp_all add: V_set_entry V_simps)

lemma keep_find_entry: "(\<And>r st'. V st' = V st \<Longrightarrow> Q (r, st')) \<Longrightarrow> post (etharp_find_entry pt ip t f st) Q"
  unfolding etharp_find_entry_def by (intro posts keep_recycle) (simp_all add: V_set_entry V_simps)

lemma keep_alloc: "(\<And>p n. Q (p, n)) \<Longrightarrow> post (pbuf_alloc c l k t n0) Q"
  by (rule post_pair)

lemma keep_request: "(\<And>r st'. V st' = V st \<Longrightarrow> Q (r, st')) \<Longrightarrow> post (etharp_request pt n ip st) Q"
  unfolding etharp_request_def etharp_raw_def by (intro posts keep_alloc keep_base) (simp_all add: V_simps)

lemma keep_take_over: "(\<And>r st'. V st' = V st \<Longrightarrow> Q (r, st')) \<Longrightarrow> post (take_over pt q st) Q"
  unfolding take_over_def by (intro posts keep_alloc keep_base post_any) (simp_all add: V_simps)

lemma keep_queue_on: "(\<And>r st'. V st' = V st \<Longrightarrow> Q (r, st')) \<Longrightarrow> post (queue_on pt i q st) Q"
  unfolding queue_on_def by (intro posts keep_take_over keep_base) (simp_all add: V_set_entry V_simps)

lemma keep_query: "(\<And>r st'. V st' = V st \<Longrightarrow> Q (r, st')) \<Longrightarrow> post (etharp_query pt n ip q st) Q"
  unfolding etharp_query_def
  by (intro posts keep_find_entry keep_request keep_send_ip keep_queue_on) (simp_all add: V_set_entry V_simps split: if_splits)

lemma keep_to_index: "(\<And>r st'. V st' = V st \<Longrightarrow> Q (r, st')) \<Longrightarrow> post (etharp_output_to_arp_index pt n q i st) Q"
  unfolding etharp_output_to_arp_index_def
  by (intro posts keep_request keep_send_ip) (simp_all add: V_set_entry V_simps split: if_splits)

lemma keep_unicast: "(\<And>r st'. V st' = V st \<Longrightarrow> Q (r, st')) \<Longrightarrow> post (unicast_output pt n q d st) Q"
  unfolding unicast_output_def by (intro posts keep_to_index keep_query) (simp_all add: V_simps)

lemma keep_header: "(\<And>f n. Q (f, n)) \<Longrightarrow> post (pbuf_header p i n0) Q"
  by (rule post_pair)

lemma keep_etharp_output: "(\<And>r st'. V st' = V st \<Longrightarrow> Q (r, st')) \<Longrightarrow> post (etharp_output pt n q ip st) Q"
  unfolding etharp_output_def by (intro posts keep_header keep_send_ip keep_unicast) (simp_all add: V_simps)

lemma keep_mirror: "(\<And>r st'. V st' = V st \<Longrightarrow> Q (r, st')) \<Longrightarrow> post (mirror pt r p k st) Q"
  unfolding mirror_def by (intro posts keep_base post_any) (simp_all add: V_simps)

text \<open>Loops, by induction on the approximations of the recursion (\<open>post\<close> is admissible).\<close>

lemma keep_mirror_loop:
  assumes "\<And>e q k' st'. V st' = V st \<Longrightarrow> Q (e, q, k', st')"
  shows "post (mirror_loop pt r po l k st) Q"
proof -
  let ?same = "\<lambda>st y. V (snd (snd (snd y))) = V st"
  have "?same st y" if "mirror_loop pt r po l k st = Some y" for y
    apply (rule mirror_loop.raw_induct [where P = "\<lambda>pt r po l k st y. ?same st y", OF _ that])
    subgoal premises p for self pt r po l k st y
    proof -
      have rec: "(\<And>e q k' st'. V st' = V st \<Longrightarrow> R (e, q, k', st')) \<Longrightarrow> post (self pt r po l k st) R" for pt r po l k st R
        using p(1) by (force intro: postI)
      show ?thesis by (rule postD [OF _ p(2), where Q = "?same st"]) (intro posts keep_mirror rec; simp)
    qed
    done
  with assms show ?thesis by (force intro: postI)
qed

lemma keep_send_fragment:
  "(\<And>e q k' st'. V st' = V st \<Longrightarrow> Q (e, q, k', st')) \<Longrightarrow> post (send_fragment H n d h p o' c t st) Q"
  unfolding send_fragment_def seal_header_def fetch_def
  by (intro posts keep_alloc keep_mirror_loop keep_base keep_etharp_output post_any) (simp_all add: V_simps)

lemma keep_frag_loop:
  assumes "\<And>e st'. V st' = V st \<Longrightarrow> Q (e, st')"
  shows "post (frag_loop H n d h omf po o' l ofo st) Q"
proof -
  let ?same = "\<lambda>st y. V (snd y) = V st"
  have "?same st y" if "frag_loop H n d h omf po o' l ofo st = Some y" for y
    apply (rule frag_loop.raw_induct [where P = "\<lambda>H n d h omf po o' l ofo st y. ?same st y", OF _ that])
    subgoal premises p for self H n d h omf po o' l ofo st y
    proof -
      have rec: "(\<And>e st'. V st' = V st \<Longrightarrow> R (e, st')) \<Longrightarrow> post (self H n d h omf po o' l ofo st) R"
        for H n d h omf po o' l ofo st R
        using p(1) by (force intro: postI)
      show ?thesis by (rule postD [OF _ p(2), where Q = "?same st"]) (intro posts keep_send_fragment rec; simp)
    qed
    done
  with assms show ?thesis by (force intro: postI)
qed

lemma keep_ip_frag: "(\<And>r st'. V st' = V st \<Longrightarrow> Q (r, st')) \<Longrightarrow> post (ip_frag H p n d st) Q"
  unfolding ip_frag_def fetch_def by (intro posts keep_frag_loop post_any) simp_all

lemma keep_ip_deliver: "(\<And>r st'. V st' = V st \<Longrightarrow> Q (r, st')) \<Longrightarrow> post (ip_deliver H p d i st) Q"
  unfolding ip_deliver_def by (intro posts keep_ip_frag keep_etharp_output) simp_all

lemma keep_ip_output_if: "(\<And>r st'. V st' = V st \<Longrightarrow> Q (r, st')) \<Longrightarrow> post (ip_output_if H p s d ttl tos proto i st) Q"
  unfolding ip_output_if_def fetch_def set_ipst_def
  by (intro posts keep_header keep_base keep_ip_deliver post_any) (simp_all add: V_simps)

lemma keep_ip_output: "(\<And>r st'. V st' = V st \<Longrightarrow> Q (r, st')) \<Longrightarrow> post (ip_output H p s d ttl tos proto st) Q"
  unfolding ip_output_def by (intro posts keep_ip_output_if) simp_all

end

end
