(* ===== verification/TcpBase.thy ===== *)
theory TcpBase
  imports IpOut
begin

text \<open>
  What the three files of TCP share: access to control blocks, segments and their headers,
  the lists of control blocks (\<open>TCP_REG\<close>, \<open>TCP_RMV\<close>), the release of segments. The application is the record
  \<open>tcp_app\<close> of its callbacks, each given by its number and argument. \<open>None\<close> is a call that does not return.
\<close>

unbundle bit_operations_syntax

section \<open>The application\<close>

record tcp_app =
  on_accept :: "nat \<Rightarrow> nat \<Rightarrow> nat \<Rightarrow> err_t \<Rightarrow> lan \<Rightarrow> (err_t \<times> lan) option"
  on_recv :: "nat \<Rightarrow> nat \<Rightarrow> nat \<Rightarrow> loc option \<Rightarrow> err_t \<Rightarrow> lan \<Rightarrow> (err_t \<times> lan) option"
  on_sent :: "nat \<Rightarrow> nat \<Rightarrow> nat \<Rightarrow> nat \<Rightarrow> lan \<Rightarrow> (err_t \<times> lan) option"
  on_connected :: "nat \<Rightarrow> nat \<Rightarrow> nat \<Rightarrow> err_t \<Rightarrow> lan \<Rightarrow> (err_t \<times> lan) option"
  on_poll :: "nat \<Rightarrow> nat \<Rightarrow> nat \<Rightarrow> lan \<Rightarrow> (err_t \<times> lan) option"
  on_err :: "nat \<Rightarrow> nat \<Rightarrow> err_t \<Rightarrow> lan \<Rightarrow> lan option"

section \<open>Access\<close>

definition tv :: "lan \<Rightarrow> tcp_vars" where
  "tv st = tcps (ipst st)"

definition set_tv :: "(tcp_vars \<Rightarrow> tcp_vars) \<Rightarrow> lan \<Rightarrow> lan" where
  "set_tv f st = set_ipst (\<lambda>s. s\<lparr>tcps := f (tcps s)\<rparr>) st"

definition tcp_at :: "lan \<Rightarrow> nat \<Rightarrow> tcp_pcb" where
  "tcp_at st u = tcp_pcb_at (tv st) u"

definition set_tcp :: "nat \<Rightarrow> (tcp_pcb \<Rightarrow> tcp_pcb) \<Rightarrow> lan \<Rightarrow> lan" where
  "set_tcp u f st = set_tv (\<lambda>v. v\<lparr>tcp_pcb_at := (tcp_pcb_at v)(u := f (tcp_pcb_at v u))\<rparr>) st"

definition seg_at :: "lan \<Rightarrow> nat \<Rightarrow> tcp_seg" where
  "seg_at st s = tcp_seg_at (tv st) s"

definition set_seg :: "nat \<Rightarrow> (tcp_seg \<Rightarrow> tcp_seg) \<Rightarrow> lan \<Rightarrow> lan" where
  "set_seg s f st = set_tv (\<lambda>v. v\<lparr>tcp_seg_at := (tcp_seg_at v)(s := f (tcp_seg_at v s))\<rparr>) st"

definition set_flags :: "nat \<Rightarrow> u8 \<Rightarrow> lan \<Rightarrow> lan" where
  "set_flags u f st = set_tcp u (\<lambda>t. t\<lparr>t_flags := t_flags t OR f\<rparr>) st"

definition clear_flags :: "nat \<Rightarrow> u8 \<Rightarrow> lan \<Rightarrow> lan" where
  "clear_flags u f st = set_tcp u (\<lambda>t. t\<lparr>t_flags := t_flags t AND NOT f\<rparr>) st"

definition with_net :: "net \<Rightarrow> lan \<Rightarrow> lan" where
  "with_net n st = st\<lparr>lnet := n\<rparr>"

section \<open>Headers\<close>

text \<open>Words in network order, and as the processor stores them (\<open>ip_bytes\<close>).\<close>

definition net32 :: "u32 \<Rightarrow> u8 list" where
  "net32 x = rev (ip_bytes x)"

definition ntohl_at :: "u8 list \<Rightarrow> nat \<Rightarrow> u32" where
  "ntohl_at h i = le32 (h ! (i + 3)) (h ! (i + 2)) (h ! (i + 1)) (h ! i)"

definition host16_at :: "u8 list \<Rightarrow> nat \<Rightarrow> nat" where
  "host16_at h i = unat (h ! i) + 256 * unat (h ! (i + 1))"

text \<open>The fields of the header at a pointer.\<close>

definition hdr_seqno :: "dptr \<Rightarrow> lan \<Rightarrow> u32 option" where
  "hdr_seqno d st = map_option (\<lambda>h. ntohl_at h 0) (fetch d 4 4 st)"

definition TCPH_HDRLEN :: "dptr \<Rightarrow> lan \<Rightarrow> nat option" where
  "TCPH_HDRLEN d st = map_option (\<lambda>h. unat (drop_bit 4 (h ! 0))) (fetch d 12 1 st)"

definition TCPH_FLAGS :: "dptr \<Rightarrow> lan \<Rightarrow> u8 option" where
  "TCPH_FLAGS d st = map_option (\<lambda>h. h ! 0 AND TCP_FLAGS) (fetch d 13 1 st)"

definition TCPH_FLAGS_SET :: "dptr \<Rightarrow> u8 \<Rightarrow> lan \<Rightarrow> lan option" where
  "TCPH_FLAGS_SET d f st = do { h \<leftarrow> fetch d 13 1 st; store d [(13, [h ! 0 AND NOT TCP_FLAGS OR f])] st }"

definition TCPH_SET_FLAG :: "dptr \<Rightarrow> u8 \<Rightarrow> lan \<Rightarrow> lan option" where
  "TCPH_SET_FLAG d f st = do { h \<leftarrow> fetch d 13 1 st; store d [(13, [h ! 0 OR f])] st }"

definition tcplen_of :: "nat \<Rightarrow> u8 \<Rightarrow> nat" where
  "tcplen_of len f = len + (if f AND (TCP_FIN OR TCP_SYN) \<noteq> 0 then 1 else 0)"

definition TCP_TCPLEN :: "tcp_seg \<Rightarrow> lan \<Rightarrow> nat option" where
  "TCP_TCPLEN s st = map_option (tcplen_of (s_len s)) (TCPH_FLAGS (s_tcphdr s) st)"

definition LWIP_TCP_OPT_LENGTH :: "u8 \<Rightarrow> nat" where
  "LWIP_TCP_OPT_LENGTH f = (if f AND TF_SEG_OPTS_MSS \<noteq> 0 then 4 else 0)"

section \<open>Lists of control blocks\<close>

datatype pcb_list = Bound | Listening | Active | Time_wait

primrec list_head :: "pcb_list \<Rightarrow> lan \<Rightarrow> nat option" where
  "list_head Bound st = tcp_bound_pcbs (tv st)"
| "list_head Listening st = tcp_listen_pcbs (tv st)"
| "list_head Active st = tcp_active_pcbs (tv st)"
| "list_head Time_wait st = tcp_tw_pcbs (tv st)"

primrec set_head :: "pcb_list \<Rightarrow> nat option \<Rightarrow> lan \<Rightarrow> lan" where
  "set_head Bound h st = set_tv (\<lambda>v. v\<lparr>tcp_bound_pcbs := h\<rparr>) st"
| "set_head Listening h st = set_tv (\<lambda>v. v\<lparr>tcp_listen_pcbs := h\<rparr>) st"
| "set_head Active h st = set_tv (\<lambda>v. v\<lparr>tcp_active_pcbs := h\<rparr>) st"
| "set_head Time_wait h st = set_tv (\<lambda>v. v\<lparr>tcp_tw_pcbs := h\<rparr>) st"

text \<open>The array of all lists, in the order of \<open>tcp_pcb_lists\<close>.\<close>

definition tcp_pcb_lists :: "pcb_list list" where
  "tcp_pcb_lists = [Listening, Bound, Active, Time_wait]"

text \<open>\<open>tcp_timer_needed\<close> of the timeouts, whose pool is one of the network's.\<close>

definition start_timer :: "lan \<Rightarrow> lan option" where
  "start_timer st = do {
     t \<leftarrow> tcp_timer_needed \<lparr>tick = (\<lambda>_ w. Some w), has_pcbs = (\<lambda>_. tcp_active_pcbs (tv st) \<noteq> None \<or> tcp_tw_pcbs (tv st) \<noteq> None)\<rparr>
            ((timeouts (tv st))\<lparr>tpool := npools (lnet st)\<rparr>);
     Some (set_tv (\<lambda>v. v\<lparr>timeouts := t\<rparr>) (with_net ((lnet st)\<lparr>npools := tpool t\<rparr>) st))
   }"

definition TCP_REG :: "pcb_list \<Rightarrow> nat \<Rightarrow> lan \<Rightarrow> lan option" where
  "TCP_REG l pcb st = start_timer (set_head l (Some pcb) (set_tcp pcb (\<lambda>t. t\<lparr>t_next := list_head l st\<rparr>) st))"

partial_function (option) rmv_loop :: "nat \<Rightarrow> nat option \<Rightarrow> lan \<Rightarrow> lan option" where
  "rmv_loop pcb po st =
     (case po of
        None \<Rightarrow> Some st
      | Some u \<Rightarrow>
          if t_next (tcp_at st u) = Some pcb then Some (set_tcp u (\<lambda>t. t\<lparr>t_next := t_next (tcp_at st pcb)\<rparr>) st)
          else rmv_loop pcb (t_next (tcp_at st u)) st)"

definition TCP_RMV :: "pcb_list \<Rightarrow> nat \<Rightarrow> lan \<Rightarrow> lan option" where
  "TCP_RMV l pcb st = do {
     st \<leftarrow> (if list_head l st = Some pcb then Some (set_head l (t_next (tcp_at st pcb)) st)
            else rmv_loop pcb (list_head l st) st);
     Some (set_tcp pcb (\<lambda>t. t\<lparr>t_next := None\<rparr>) st)
   }"

definition set_changed :: "bool \<Rightarrow> lan \<Rightarrow> lan" where
  "set_changed b st = set_tv (\<lambda>v. v\<lparr>tcp_active_pcbs_changed := b\<rparr>) st"

definition TCP_REG_ACTIVE :: "nat \<Rightarrow> lan \<Rightarrow> lan option" where
  "TCP_REG_ACTIVE pcb st = map_option (set_changed True) (TCP_REG Active pcb st)"

definition TCP_RMV_ACTIVE :: "nat \<Rightarrow> lan \<Rightarrow> lan option" where
  "TCP_RMV_ACTIVE pcb st = map_option (set_changed True) (TCP_RMV Active pcb st)"

section \<open>Pools and segments\<close>

definition put_elem :: "memp_t \<Rightarrow> nat \<Rightarrow> lan \<Rightarrow> lan option" where
  "put_elem t e st = map_option (\<lambda>n. with_net n st) (pool_put t e (lnet st))"

definition get_elem :: "memp_t \<Rightarrow> lan \<Rightarrow> (nat option \<times> lan) option" where
  "get_elem t st = map_option (\<lambda>(e, m). (e, with_net ((lnet st)\<lparr>npools := m\<rparr>) st)) (memp_malloc t (npools (lnet st)))"

definition tcp_seg_free :: "host \<Rightarrow> nat \<Rightarrow> lan \<Rightarrow> lan option" where
  "tcp_seg_free H s st = do {
     st \<leftarrow> (case s_p (seg_at st s) of None \<Rightarrow> Some st | Some p \<Rightarrow> release (hport H) p st);
     put_elem MEMP_TCP_SEG s st
   }"

partial_function (option) tcp_segs_free :: "host \<Rightarrow> nat option \<Rightarrow> lan \<Rightarrow> lan option" where
  "tcp_segs_free H so st =
     (case so of
        None \<Rightarrow> Some st
      | Some s \<Rightarrow> Option.bind (tcp_seg_free H s st) (tcp_segs_free H (s_next (seg_at st s))))"

partial_function (option) last_seg :: "nat \<Rightarrow> lan \<Rightarrow> nat option" where
  "last_seg s st = (case s_next (seg_at st s) of None \<Rightarrow> Some s | Some n \<Rightarrow> last_seg n st)"

text \<open>
  The loop over the addresses of the links: the segment goes before the first one that does not come before it.
  \<open>set_first\<close> writes the head of the queue.
\<close>

partial_function (option) insert_seg ::
    "(nat option \<Rightarrow> lan \<Rightarrow> lan) \<Rightarrow> nat \<Rightarrow> u32 \<Rightarrow> nat option \<Rightarrow> nat option \<Rightarrow> lan \<Rightarrow> lan option" where
  "insert_seg set_first sg seqno prev cur st =
     (let link = (\<lambda>st. let st = set_seg sg (\<lambda>s. s\<lparr>s_next := cur\<rparr>) st in
                       case prev of None \<Rightarrow> set_first (Some sg) st
                       | Some b \<Rightarrow> set_seg b (\<lambda>s. s\<lparr>s_next := Some sg\<rparr>) st) in
      case cur of
        None \<Rightarrow> Some (link st)
      | Some c \<Rightarrow>
          Option.bind (hdr_seqno (s_tcphdr (seg_at st c)) st) (\<lambda>q.
            if TCP_SEQ_LT q seqno then insert_seg set_first sg seqno (Some c) (s_next (seg_at st c)) st
            else Some (link st)))"

end
