(* ===== verification/TcpOut.thy ===== *)
theory TcpOut
  imports TcpBase
begin

text \<open>
  Sending, \<open>lwip/src/core/tcp_out.c\<close>, as configured (no timestamps, no checksum on copy, buffers
  with room for later data). \<open>tcp_write\<close> is split as the code is: three phases that only change local variables
  (the record \<open>tcp_write_vars\<close>), then the commit, or the release of what was allocated.
\<close>

unbundle bit_operations_syntax

section \<open>Headers and segments\<close>

definition tcp_hdr_bytes :: "nat \<Rightarrow> nat \<Rightarrow> u32 \<Rightarrow> u32 \<Rightarrow> nat \<Rightarrow> u8 \<Rightarrow> nat \<Rightarrow> u8 list" where
  "tcp_hdr_bytes src dest seqno ackno hdrlen flags wnd =
     net16 (word_of_nat src) @ net16 (word_of_nat dest) @ net32 seqno @ net32 ackno
     @ [push_bit 4 (word_of_nat hdrlen), flags] @ net16 (word_of_nat wnd) @ [0, 0] @ [0, 0]"

text \<open>The checksum over the pseudo header and the buffer, stored into the header, where a 0 is.\<close>

definition seal_segment :: "host \<Rightarrow> loc \<Rightarrow> u32 \<Rightarrow> u32 \<Rightarrow> lan \<Rightarrow> lan option" where
  "seal_segment H p src dest st = do {
     c \<leftarrow> inet_chksum_pseudo (block_addr H) (Some p) src dest IP_PROTO_TCP (word_of_nat (tot_len (buf st p))) (lnet st);
     store (payload (buf st p)) [(16, mem16 c)] st
   }"

definition tcp_output_alloc_header :: "host \<Rightarrow> nat \<Rightarrow> nat \<Rightarrow> nat \<Rightarrow> u32 \<Rightarrow> lan \<Rightarrow> (loc option \<times> lan) option" where
  "tcp_output_alloc_header H pcb optlen datalen seqno st = do {
     (p, n) \<leftarrow> pbuf_alloc (custom_free (hport H)) PBUF_IP (trunc16 (TCP_HLEN + optlen + datalen)) PBUF_RAM (lnet st);
     let st = with_net n st;
     (case p of
        None \<Rightarrow> Some (None, st)
      | Some q \<Rightarrow> do {
          lwip_assert (TCP_HLEN + optlen \<le> plen (buf st q));
          let t = tcp_at st pcb;
          st \<leftarrow> store (payload (buf st q))
                 [(0, tcp_hdr_bytes (t_local_port t) (t_remote_port t) seqno (t_rcv_nxt t) (5 + optlen div 4) TCP_ACK
                        (t_rcv_ann_wnd t))] st;
          Some (p, set_tcp pcb (\<lambda>t. t\<lparr>t_rcv_ann_right_edge := t_rcv_nxt t + word_of_nat (t_rcv_ann_wnd t)\<rparr>) st)
        })
   }"

definition tcp_create_segment :: "host \<Rightarrow> nat \<Rightarrow> loc \<Rightarrow> u8 \<Rightarrow> u32 \<Rightarrow> u8 \<Rightarrow> lan \<Rightarrow> (nat option \<times> lan) option" where
  "tcp_create_segment H pcb p flags seqno optflags st = do {
     let optlen = LWIP_TCP_OPT_LENGTH optflags;
     (e, st) \<leftarrow> get_elem MEMP_TCP_SEG st;
     (case e of
        None \<Rightarrow> map_option (\<lambda>st. (None, st)) (release (hport H) p st)
      | Some s \<Rightarrow> do {
          let st = set_seg s (\<lambda>x. x\<lparr>s_flags := optflags, s_next := None, s_p := Some p,
                     s_len := sub16 (tot_len (buf st p)) optlen, s_oversize_left := 0\<rparr>) st;
          (fail, n) \<leftarrow> pbuf_header p (int TCP_HLEN) (lnet st);
          let st = with_net n st;
          (if fail \<noteq> 0 then map_option (\<lambda>st. (None, st)) (tcp_seg_free H s st)
           else do {
             let d = payload (buf st p);
             let st = set_seg s (\<lambda>x. x\<lparr>s_tcphdr := d\<rparr>) st;
             st \<leftarrow> store d [(0, net16 (word_of_nat (t_local_port (tcp_at st pcb)))), (2, net16 (word_of_nat (t_remote_port (tcp_at st pcb)))),
                    (4, net32 seqno), (12, [push_bit 4 (word_of_nat (5 + optlen div 4)), flags]), (18, [0, 0])] st;
             Some (Some s, st)
           })
        })
   }"

text \<open>The result is the buffer with the number of bytes that are left at its end.\<close>

definition tcp_pbuf_prealloc ::
    "host \<Rightarrow> pbuf_layer \<Rightarrow> nat \<Rightarrow> nat \<Rightarrow> nat \<Rightarrow> u8 \<Rightarrow> bool \<Rightarrow> lan \<Rightarrow> ((loc \<times> nat) option \<times> lan) option" where
  "tcp_pbuf_prealloc H layer len max_length pcb apiflags first_seg st = do {
     let t = tcp_at st pcb;
     let alloc = (if len < max_length \<and>
                     (apiflags AND TCP_WRITE_FLAG_MORE \<noteq> 0 \<or>
                      t_flags t AND TF_NODELAY = 0 \<and> (\<not> first_seg \<or> t_unsent t \<noteq> None \<or> t_unacked t \<noteq> None))
                  then min max_length (align4 (len + TCP_OVERSIZE)) else len);
     (p, n) \<leftarrow> pbuf_alloc (custom_free (hport H)) layer alloc PBUF_RAM (lnet st);
     (case p of
        None \<Rightarrow> Some (None, with_net n st)
      | Some p \<Rightarrow> do {
          lwip_assert (pnext (pb n p) = None);
          Some (Some (p, sub16 (plen (pb n p)) len),
                with_net (set_pb p (\<lambda>b. b\<lparr>plen := len, tot_len := len\<rparr>) n) st)
        })
   }"

section \<open>Queueing data\<close>

definition tcp_write_checks :: "nat \<Rightarrow> nat \<Rightarrow> lan \<Rightarrow> (err_t \<times> lan) option" where
  "tcp_write_checks pcb len st =
     (let t = tcp_at st pcb in
      if t_state t \<notin> {ESTABLISHED, CLOSE_WAIT, SYN_SENT, SYN_RCVD} then Some (ERR_CONN, st)
      else if len = 0 then Some (ERR_OK, st)
      else if t_snd_buf t < len then Some (ERR_MEM, set_flags pcb TF_NAGLEMEMERR st)
      else if TCP_SND_QUEUELEN \<le> t_snd_queuelen t \<or> TCP_SNDQUEUELEN_OVERFLOW < t_snd_queuelen t
      then Some (ERR_MEM, set_flags pcb TF_NAGLEMEMERR st)
      else if t_snd_queuelen t \<noteq> 0 then do { lwip_assert (t_unacked t \<noteq> None \<or> t_unsent t \<noteq> None); Some (ERR_OK, st) }
      else do { lwip_assert (t_unacked t = None \<and> t_unsent t = None); Some (ERR_OK, st) })"

record tcp_write_vars =
  v_concat_p :: "loc option"
  v_last_unsent :: "nat option"
  v_seg :: "nat option"
  v_prev_seg :: "nat option"
  v_queue :: "nat option"
  v_pos :: nat
  v_queuelen :: nat
  v_oversize :: nat
  v_oversize_used :: nat

definition data_at :: "dptr \<Rightarrow> nat \<Rightarrow> dptr" where
  "data_at d n = map_option (\<lambda>(b, off). (b, off + int n)) d"

text \<open>A buffer for \<open>seglen\<close> bytes of \<open>arg\<close> from \<open>pos\<close> on, filled with them (phase 2). \<open>None\<close> inside: no memory.\<close>

definition concat_buffer ::
    "host \<Rightarrow> nat \<Rightarrow> dptr \<Rightarrow> u8 \<Rightarrow> nat \<Rightarrow> nat \<Rightarrow> nat \<Rightarrow> tcp_write_vars \<Rightarrow> lan \<Rightarrow> (tcp_write_vars option \<times> lan) option" where
  "concat_buffer H pcb arg apiflags seglen space last_unsent v st =
     (if apiflags AND TCP_WRITE_FLAG_COPY \<noteq> 0 then do {
        (r, st) \<leftarrow> tcp_pbuf_prealloc H PBUF_RAW seglen space pcb apiflags True st;
        (case r of
           None \<Rightarrow> Some (None, st)
         | Some (p, oversize) \<Rightarrow> do {
             let st = set_seg last_unsent (\<lambda>s. s\<lparr>s_oversize_left := trunc16 (s_oversize_left s + oversize)\<rparr>) st;
             xs \<leftarrow> fetch arg (v_pos v) seglen st;
             st \<leftarrow> store (payload (buf st p)) [(0, xs)] st;
             Some (Some (v\<lparr>v_concat_p := Some p, v_oversize := oversize\<rparr>), st)
           })
      }
      else do {
        (p, n) \<leftarrow> pbuf_alloc (custom_free (hport H)) PBUF_RAW seglen PBUF_ROM (lnet st);
        (case p of
           None \<Rightarrow> Some (None, with_net n st)
         | Some p \<Rightarrow> Some (Some (v\<lparr>v_concat_p := Some p\<rparr>),
             with_net (set_pb p (\<lambda>b. b\<lparr>payload := data_at arg (v_pos v)\<rparr>) n) st))
      })"

text \<open>Phases 1 and 2. The flag says that there is no memory.\<close>

definition write_tail ::
    "host \<Rightarrow> nat \<Rightarrow> dptr \<Rightarrow> nat \<Rightarrow> u8 \<Rightarrow> nat \<Rightarrow> tcp_write_vars \<Rightarrow> lan \<Rightarrow> (bool \<times> tcp_write_vars \<times> lan) option" where
  "write_tail H pcb arg len apiflags mss_local v st =
     (case t_unsent (tcp_at st pcb) of
        None \<Rightarrow> do { lwip_assert (t_unsent_oversize (tcp_at st pcb) = 0); Some (False, v, st) }
      | Some u \<Rightarrow> do {
          l \<leftarrow> last_seg u st;
          let s = seg_at st l;
          let space = sub16 mss_local (s_len s + LWIP_TCP_OPT_LENGTH (s_flags s));
          let oversize = t_unsent_oversize (tcp_at st pcb);
          lwip_assert (oversize = s_oversize_left s);
          let used = (if oversize > 0 then min oversize len else 0);
          let v = v\<lparr>v_last_unsent := Some l, v_seg := (if oversize > 0 then Some l else v_seg v), v_pos := used,
                    v_oversize := oversize - used, v_oversize_used := used\<rparr>;
          let space = sub16 space used;
          lwip_assert (v_oversize v = 0 \<or> v_pos v = len);
          (if v_pos v < len \<and> 0 < space \<and> 0 < s_len s then do {
             let seglen = min space (len - v_pos v);
             (r, st) \<leftarrow> concat_buffer H pcb arg apiflags seglen space l v st;
             (case r of
                None \<Rightarrow> Some (True, v\<lparr>v_seg := Some l\<rparr>, st)
              | Some v \<Rightarrow> do {
                  c \<leftarrow> pbuf_clen (v_concat_p v) (lnet st);
                  Some (False, v\<lparr>v_seg := Some l, v_pos := trunc16 (v_pos v + seglen),
                                 v_queuelen := trunc16 (v_queuelen v + c)\<rparr>, st)
                })
           }
           else Some (False, v, st))
        })"

text \<open>The buffer of a new segment (phase 3).\<close>

definition segment_buffer ::
    "host \<Rightarrow> nat \<Rightarrow> dptr \<Rightarrow> u8 \<Rightarrow> nat \<Rightarrow> nat \<Rightarrow> tcp_write_vars \<Rightarrow> lan \<Rightarrow> ((loc \<times> nat) option \<times> lan) option" where
  "segment_buffer H pcb arg apiflags seglen mss_local v st =
     (if apiflags AND TCP_WRITE_FLAG_COPY \<noteq> 0 then do {
        (r, st) \<leftarrow> tcp_pbuf_prealloc H PBUF_TRANSPORT seglen mss_local pcb apiflags (v_queue v = None) st;
        (case r of
           None \<Rightarrow> Some (None, st)
         | Some (p, oversize) \<Rightarrow> do {
             lwip_assert (seglen \<le> plen (buf st p));
             xs \<leftarrow> fetch arg (v_pos v) seglen st;
             st \<leftarrow> store (payload (buf st p)) [(0, xs)] st;
             Some (r, st)
           })
      }
      else do {
        lwip_assert (v_oversize v = 0);
        (p2, n) \<leftarrow> pbuf_alloc (custom_free (hport H)) PBUF_TRANSPORT seglen PBUF_ROM (lnet st);
        (case p2 of
           None \<Rightarrow> Some (None, with_net n st)
         | Some p2 \<Rightarrow> do {
             let n = set_pb p2 (\<lambda>b. b\<lparr>payload := data_at arg (v_pos v)\<rparr>) n;
             (p, n) \<leftarrow> pbuf_alloc (custom_free (hport H)) PBUF_TRANSPORT 0 PBUF_RAM n;
             (case p of
                None \<Rightarrow> map_option (\<lambda>st. (None, st)) (release (hport H) p2 (with_net n st))
              | Some p \<Rightarrow> do {
                  n \<leftarrow> pbuf_cat (Some p) (Some p2) n;
                  Some (Some (p, v_oversize v), with_net n st)
                })
           })
      })"

text \<open>One turn of the loop of phase 3.\<close>

definition write_segment ::
    "host \<Rightarrow> nat \<Rightarrow> dptr \<Rightarrow> nat \<Rightarrow> u8 \<Rightarrow> nat \<Rightarrow> tcp_write_vars \<Rightarrow> lan \<Rightarrow> (bool \<times> tcp_write_vars \<times> lan) option" where
  "write_segment H pcb arg len apiflags mss_local v st = do {
     let seglen = min (len - v_pos v) mss_local;
     (r, st) \<leftarrow> segment_buffer H pcb arg apiflags seglen mss_local v st;
     (case r of
        None \<Rightarrow> Some (True, v, st)
      | Some (p, oversize) \<Rightarrow> do {
          c \<leftarrow> pbuf_clen (Some p) (lnet st);
          let v = v\<lparr>v_oversize := oversize, v_queuelen := trunc16 (v_queuelen v + c)\<rparr>;
          (if TCP_SND_QUEUELEN < v_queuelen v \<or> TCP_SNDQUEUELEN_OVERFLOW < v_queuelen v
           then map_option (\<lambda>st. (True, v, st)) (release (hport H) p st)
           else do {
             (s, st) \<leftarrow> tcp_create_segment H pcb p 0 (t_snd_lbb (tcp_at st pcb) + word_of_nat (v_pos v)) 0 st;
             (case s of
                None \<Rightarrow> Some (True, v\<lparr>v_seg := None\<rparr>, st)
              | Some s \<Rightarrow> do {
                  let st = set_seg s (\<lambda>x. x\<lparr>s_oversize_left := v_oversize v\<rparr>) st;
                  st \<leftarrow> (case (v_queue v, v_prev_seg v) of
                           (None, _) \<Rightarrow> Some st
                         | (Some _, Some b) \<Rightarrow> Some (set_seg b (\<lambda>x. x\<lparr>s_next := Some s\<rparr>) st)
                         | (Some _, None) \<Rightarrow> None);
                  Some (False, v\<lparr>v_seg := Some s, v_queue := (if v_queue v = None then Some s else v_queue v), v_prev_seg := Some s,
                                 v_pos := trunc16 (v_pos v + seglen)\<rparr>, st)
                })
           })
        })
   }"

partial_function (option) write_loop ::
    "host \<Rightarrow> nat \<Rightarrow> dptr \<Rightarrow> nat \<Rightarrow> u8 \<Rightarrow> nat \<Rightarrow> tcp_write_vars \<Rightarrow> lan \<Rightarrow> (bool \<times> tcp_write_vars \<times> lan) option" where
  "write_loop H pcb arg len apiflags mss_local v st =
     (if v_pos v < len then
        Option.bind (write_segment H pcb arg len apiflags mss_local v st) (\<lambda>(fail, v, st).
          if fail then Some (True, v, st) else write_loop H pcb arg len apiflags mss_local v st)
      else Some (False, v, st))"

text \<open>Phase 1 of the commit: the lengths of the chain, and the bytes behind the last buffer.\<close>

partial_function (option) bump_chain :: "dptr \<Rightarrow> nat \<Rightarrow> loc option \<Rightarrow> lan \<Rightarrow> lan option" where
  "bump_chain arg used po st =
     (case po of
        None \<Rightarrow> Some st
      | Some p \<Rightarrow>
          (let st = with_net (set_pb p (\<lambda>b. b\<lparr>tot_len := trunc16 (tot_len b + used)\<rparr>) (lnet st)) st in
           Option.bind
             (if pnext (buf st p) = None then do {
                xs \<leftarrow> fetch arg 0 used st;
                st \<leftarrow> store (data_at (payload (buf st p)) (plen (buf st p))) [(0, xs)] st;
                Some (with_net (set_pb p (\<lambda>b. b\<lparr>plen := trunc16 (plen b + used)\<rparr>) (lnet st)) st)
              }
              else Some st)
             (\<lambda>st. bump_chain arg used (pnext (buf st p)) st)))"

definition write_commit :: "nat \<Rightarrow> dptr \<Rightarrow> nat \<Rightarrow> u8 \<Rightarrow> tcp_write_vars \<Rightarrow> lan \<Rightarrow> lan option" where
  "write_commit pcb arg len apiflags v st = do {
     st \<leftarrow> (if v_oversize_used v > 0 then
              (case v_last_unsent v of
                 None \<Rightarrow> None
               | Some l \<Rightarrow> do {
                   st \<leftarrow> bump_chain arg (v_oversize_used v) (s_p (seg_at st l)) st;
                   lwip_assert (v_oversize_used v \<le> s_oversize_left (seg_at st l));
                   Some (set_seg l (\<lambda>s. s\<lparr>s_len := trunc16 (s_len s + v_oversize_used v),
                           s_oversize_left := s_oversize_left s - v_oversize_used v\<rparr>) st)
                 })
            else Some st);
     let st = set_tcp pcb (\<lambda>t. t\<lparr>t_unsent_oversize := v_oversize v\<rparr>) st;
     st \<leftarrow> (case (v_concat_p v, v_last_unsent v) of
              (None, _) \<Rightarrow> Some st
            | (Some p, Some l) \<Rightarrow> do {
                n \<leftarrow> pbuf_cat (s_p (seg_at st l)) (Some p) (lnet st);
                Some (set_seg l (\<lambda>s. s\<lparr>s_len := trunc16 (s_len s + tot_len (pb n p))\<rparr>) (with_net n st))
              }
            | (Some p, None) \<Rightarrow> None);
     let st = (case v_last_unsent v of
                 None \<Rightarrow> set_tcp pcb (\<lambda>t. t\<lparr>t_unsent := v_queue v\<rparr>) st
               | Some l \<Rightarrow> set_seg l (\<lambda>s. s\<lparr>s_next := v_queue v\<rparr>) st);
     let st = set_tcp pcb (\<lambda>t. t\<lparr>t_snd_lbb := t_snd_lbb t + word_of_nat len, t_snd_buf := sub16 (t_snd_buf t) len,
                t_snd_queuelen := v_queuelen v\<rparr>) st;
     lwip_assert (t_snd_queuelen (tcp_at st pcb) = 0 \<or> t_unacked (tcp_at st pcb) \<noteq> None \<or> t_unsent (tcp_at st pcb) \<noteq> None);
     (case v_seg v of
        None \<Rightarrow> Some st
      | Some s \<Rightarrow> if s_tcphdr (seg_at st s) \<noteq> None \<and> apiflags AND TCP_WRITE_FLAG_MORE = 0
                  then TCPH_SET_FLAG (s_tcphdr (seg_at st s)) TCP_PSH st else Some st)
   }"

definition write_undo :: "host \<Rightarrow> nat \<Rightarrow> tcp_write_vars \<Rightarrow> lan \<Rightarrow> lan option" where
  "write_undo H pcb v st = do {
     let st = set_flags pcb TF_NAGLEMEMERR st;
     st \<leftarrow> (case v_concat_p v of None \<Rightarrow> Some st | Some p \<Rightarrow> release (hport H) p st);
     st \<leftarrow> tcp_segs_free H (v_queue v) st;
     lwip_assert (t_snd_queuelen (tcp_at st pcb) = 0 \<or> t_unacked (tcp_at st pcb) \<noteq> None \<or> t_unsent (tcp_at st pcb) \<noteq> None);
     Some st
   }"

definition tcp_write :: "host \<Rightarrow> nat \<Rightarrow> dptr \<Rightarrow> nat \<Rightarrow> u8 \<Rightarrow> lan \<Rightarrow> (err_t \<times> lan) option" where
  "tcp_write H pcb arg len apiflags st = do {
     let mss_local = min (t_mss (tcp_at st pcb)) (t_snd_wnd_max (tcp_at st pcb) div 2);
     lwip_assert (arg \<noteq> None);
     (err, st) \<leftarrow> tcp_write_checks pcb len st;
     (if err \<noteq> ERR_OK then Some (err, st)
      else do {
        let v = \<lparr>v_concat_p = None, v_last_unsent = None, v_seg = None, v_prev_seg = None, v_queue = None, v_pos = 0,
                 v_queuelen = t_snd_queuelen (tcp_at st pcb), v_oversize = 0, v_oversize_used = 0\<rparr>;
        (fail, v, st) \<leftarrow> write_tail H pcb arg len apiflags mss_local v st;
        (fail, v, st) \<leftarrow> (if fail then Some (True, v, st) else write_loop H pcb arg len apiflags mss_local v st);
        (if fail then map_option (\<lambda>st. (ERR_MEM, st)) (write_undo H pcb v st)
         else map_option (\<lambda>st. (ERR_OK, st)) (write_commit pcb arg len apiflags v st))
      })
   }"

section \<open>Queueing flags\<close>

text \<open>The new last segment of the queue of unsent ones.\<close>

definition append_unsent :: "nat \<Rightarrow> nat \<Rightarrow> lan \<Rightarrow> lan option" where
  "append_unsent pcb s st =
     (case t_unsent (tcp_at st pcb) of
        None \<Rightarrow> Some (set_tcp pcb (\<lambda>t. t\<lparr>t_unsent := Some s\<rparr>) st)
      | Some u \<Rightarrow> do { l \<leftarrow> last_seg u st; Some (set_seg l (\<lambda>x. x\<lparr>s_next := Some s\<rparr>) st) })"

definition tcp_enqueue_flags :: "host \<Rightarrow> nat \<Rightarrow> u8 \<Rightarrow> lan \<Rightarrow> (err_t \<times> lan) option" where
  "tcp_enqueue_flags H pcb flags st = do {
     lwip_assert (flags AND (TCP_SYN OR TCP_FIN) \<noteq> 0);
     let t = tcp_at st pcb;
     (if TCP_SND_QUEUELEN \<le> t_snd_queuelen t \<or> TCP_SNDQUEUELEN_OVERFLOW < t_snd_queuelen t
      then Some (ERR_MEM, set_flags pcb TF_NAGLEMEMERR st)
      else do {
        let optflags = (if flags AND TCP_SYN \<noteq> 0 then TF_SEG_OPTS_MSS else 0);
        let optlen = LWIP_TCP_OPT_LENGTH optflags;
        (if t_snd_buf t = 0 then Some (ERR_MEM, st)
         else do {
           (p, n) \<leftarrow> pbuf_alloc (custom_free (hport H)) PBUF_TRANSPORT optlen PBUF_RAM (lnet st);
           let st = with_net n st;
           (case p of
              None \<Rightarrow> Some (ERR_MEM, set_flags pcb TF_NAGLEMEMERR st)
            | Some p \<Rightarrow> do {
                lwip_assert (optlen \<le> plen (buf st p));
                (s, st) \<leftarrow> tcp_create_segment H pcb p flags (t_snd_lbb (tcp_at st pcb)) optflags st;
                (case s of
                   None \<Rightarrow> Some (ERR_MEM, set_flags pcb TF_NAGLEMEMERR st)
                 | Some s \<Rightarrow> do {
                     lwip_assert (data_addr H (s_tcphdr (seg_at st s)) mod 4 = 0);
                     lwip_assert (s_len (seg_at st s) = 0);
                     st \<leftarrow> append_unsent pcb s st;
                     c \<leftarrow> pbuf_clen (s_p (seg_at st s)) (lnet st);
                     let st = set_tcp pcb (\<lambda>t. t\<lparr>t_unsent_oversize := 0, t_snd_lbb := t_snd_lbb t + 1,
                                t_snd_buf := sub16 (t_snd_buf t) 1,
                                t_flags := (if flags AND TCP_FIN \<noteq> 0 then t_flags t OR TF_FIN else t_flags t),
                                t_snd_queuelen := trunc16 (t_snd_queuelen t + c)\<rparr>) st;
                     lwip_assert (t_snd_queuelen (tcp_at st pcb) = 0 \<or> t_unacked (tcp_at st pcb) \<noteq> None \<or> t_unsent (tcp_at st pcb) \<noteq> None);
                     Some (ERR_OK, st)
                   })
              })
         })
      })
   }"

definition tcp_send_fin :: "host \<Rightarrow> nat \<Rightarrow> lan \<Rightarrow> (err_t \<times> lan) option" where
  "tcp_send_fin H pcb st =
     (case t_unsent (tcp_at st pcb) of
        None \<Rightarrow> tcp_enqueue_flags H pcb TCP_FIN st
      | Some u \<Rightarrow> do {
          l \<leftarrow> last_seg u st;
          f \<leftarrow> TCPH_FLAGS (s_tcphdr (seg_at st l)) st;
          (if f AND (TCP_SYN OR TCP_FIN OR TCP_RST) = 0 then do {
             st \<leftarrow> TCPH_SET_FLAG (s_tcphdr (seg_at st l)) TCP_FIN st;
             Some (ERR_OK, set_flags pcb TF_FIN st)
           }
           else tcp_enqueue_flags H pcb TCP_FIN st)
        })"

section \<open>Sending\<close>

text \<open>A segment without a place on the queues: checksum, IP, release.\<close>

definition send_and_free :: "host \<Rightarrow> loc \<Rightarrow> u32 \<Rightarrow> u32 \<Rightarrow> u8 \<Rightarrow> u8 \<Rightarrow> lan \<Rightarrow> lan option" where
  "send_and_free H p src dest ttl tos st = do {
     st \<leftarrow> seal_segment H p src dest st;
     (_, st) \<leftarrow> ip_output H p (Some src) dest ttl tos IP_PROTO_TCP st;
     release (hport H) p st
   }"

definition tcp_send_empty_ack :: "host \<Rightarrow> nat \<Rightarrow> lan \<Rightarrow> (err_t \<times> lan) option" where
  "tcp_send_empty_ack H pcb st = do {
     (p, st) \<leftarrow> tcp_output_alloc_header H pcb 0 0 (t_snd_nxt (tcp_at st pcb)) st;
     (case p of
        None \<Rightarrow> Some (ERR_BUF, st)
      | Some p \<Rightarrow> do {
          let st = clear_flags pcb (TF_ACK_DELAY OR TF_ACK_NOW) st;
          let t = tcp_at st pcb;
          st \<leftarrow> send_and_free H p (t_local_ip t) (t_remote_ip t) (t_ttl t) (t_tos t) st;
          Some (ERR_OK, st)
        })
   }"

definition tcp_eff_send_mss :: "host \<Rightarrow> nat \<Rightarrow> u32 \<Rightarrow> nat" where
  "tcp_eff_send_mss H sendmss addr =
     (case ip_route H addr of
        None \<Rightarrow> sendmss
      | Some i \<Rightarrow> if mtu (nif H i) \<noteq> 0 then min sendmss (sub16 (mtu (nif H i)) (IP_HLEN + TCP_HLEN)) else sendmss)"

text \<open>\<open>None\<close> inside: no route to take a local address from.\<close>

definition local_address :: "host \<Rightarrow> nat \<Rightarrow> lan \<Rightarrow> lan option" where
  "local_address H pcb st =
     (if t_local_ip (tcp_at st pcb) \<noteq> IPADDR_ANY then Some st
      else case ip_route H (t_remote_ip (tcp_at st pcb)) of
        None \<Rightarrow> None
      | Some i \<Rightarrow> Some (set_tcp pcb (\<lambda>t. t\<lparr>t_local_ip := ip_addr (nif H i)\<rparr>) st))"

definition tcp_output_segment :: "host \<Rightarrow> nat \<Rightarrow> nat \<Rightarrow> lan \<Rightarrow> lan option" where
  "tcp_output_segment H s pcb st = do {
     let d = s_tcphdr (seg_at st s);
     let t = tcp_at st pcb;
     st \<leftarrow> store d [(8, net32 (t_rcv_nxt t)), (14, net16 (word_of_nat (t_rcv_ann_wnd t)))] st;
     let st = set_tcp pcb (\<lambda>t. t\<lparr>t_rcv_ann_right_edge := t_rcv_nxt t + word_of_nat (t_rcv_ann_wnd t)\<rparr>) st;
     st \<leftarrow> (if s_flags (seg_at st s) AND TF_SEG_OPTS_MSS \<noteq> 0
            then store d [(TCP_HLEN, net32 (0x02040000 OR word_of_nat (tcp_eff_send_mss H TCP_MSS (t_remote_ip t))))] st
            else Some st);
     let st = set_tcp pcb (\<lambda>t. t\<lparr>t_rtime := (if t_rtime t = -1 then 0 else t_rtime t)\<rparr>) st;
     (case local_address H pcb st of
        None \<Rightarrow> Some st
      | Some st \<Rightarrow> do {
          q \<leftarrow> hdr_seqno d st;
          let st = set_tcp pcb (\<lambda>t. if t_rttest t = 0 then t\<lparr>t_rttest := tcp_ticks (tv st), t_rtseq := q\<rparr> else t) st;
          (case (s_p (seg_at st s), d) of
             (Some p, Some (b, off)) \<Rightarrow>
               (case payload (buf st p) of
                  None \<Rightarrow> None
                | Some (b', off') \<Rightarrow>
                    if b' \<noteq> b then None else do {
                      let len = nat ((off - off') mod 65536);
                      let st = with_net (set_pb p (\<lambda>x. x\<lparr>plen := sub16 (plen x) len, tot_len := sub16 (tot_len x) len,
                                 payload := d\<rparr>) (lnet st)) st;
                      st \<leftarrow> store d [(16, [0, 0])] st;
                      let t = tcp_at st pcb;
                      st \<leftarrow> seal_segment H p (t_local_ip t) (t_remote_ip t) st;
                      (_, st) \<leftarrow> ip_output H p (Some (t_local_ip t)) (t_remote_ip t) (t_ttl t) (t_tos t) IP_PROTO_TCP st;
                      Some st
                    })
           | _ \<Rightarrow> None)
        })
   }"

definition tcp_do_output_nagle :: "nat \<Rightarrow> lan \<Rightarrow> bool" where
  "tcp_do_output_nagle pcb st =
     (let t = tcp_at st pcb in
      t_unacked t = None \<or> t_flags t AND (TF_NODELAY OR TF_INFR) \<noteq> 0 \<or>
      (case t_unsent t of None \<Rightarrow> False
       | Some u \<Rightarrow> s_next (seg_at st u) \<noteq> None \<or> t_mss t \<le> s_len (seg_at st u)) \<or>
      t_snd_buf t = 0 \<or> TCP_SND_QUEUELEN \<le> t_snd_queuelen t)"

text \<open>The segment that was sent, on the queue of unacknowledged ones; \<open>useg\<close> is its last element.\<close>

definition queue_unacked :: "nat \<Rightarrow> nat \<Rightarrow> nat option \<Rightarrow> lan \<Rightarrow> (nat option \<times> lan) option" where
  "queue_unacked pcb s useg st = do {
     let st = set_seg s (\<lambda>x. x\<lparr>s_next := None\<rparr>) st;
     (case (t_unacked (tcp_at st pcb), useg) of
        (None, _) \<Rightarrow> Some (Some s, set_tcp pcb (\<lambda>t. t\<lparr>t_unacked := Some s\<rparr>) st)
      | (Some _, None) \<Rightarrow> None
      | (Some h, Some u) \<Rightarrow> do {
          q \<leftarrow> hdr_seqno (s_tcphdr (seg_at st s)) st;
          qu \<leftarrow> hdr_seqno (s_tcphdr (seg_at st u)) st;
          (if TCP_SEQ_LT q qu
           then map_option (\<lambda>st. (useg, st)) (insert_seg (\<lambda>h. set_tcp pcb (\<lambda>t. t\<lparr>t_unacked := h\<rparr>)) s q None (Some h) st)
           else Some (Some s, set_seg u (\<lambda>x. x\<lparr>s_next := Some s\<rparr>) st))
        })
   }"

text \<open>The body of the loop of \<open>tcp_output\<close>, from taking the segment off the queue on.\<close>

definition output_one :: "host \<Rightarrow> nat \<Rightarrow> nat \<Rightarrow> nat option \<Rightarrow> lan \<Rightarrow> (nat option \<times> lan) option" where
  "output_one H pcb s useg st = do {
     let st = set_tcp pcb (\<lambda>t. t\<lparr>t_unsent := s_next (seg_at st s)\<rparr>) st;
     st \<leftarrow> (if t_state (tcp_at st pcb) \<noteq> SYN_SENT
            then map_option (clear_flags pcb (TF_ACK_DELAY OR TF_ACK_NOW)) (TCPH_SET_FLAG (s_tcphdr (seg_at st s)) TCP_ACK st)
            else Some st);
     st \<leftarrow> tcp_output_segment H s pcb st;
     q \<leftarrow> hdr_seqno (s_tcphdr (seg_at st s)) st;
     n \<leftarrow> TCP_TCPLEN (seg_at st s) st;
     let snd_nxt = q + word_of_nat n;
     let st = set_tcp pcb (\<lambda>t. if TCP_SEQ_LT (t_snd_nxt t) snd_nxt then t\<lparr>t_snd_nxt := snd_nxt\<rparr> else t) st;
     (if n > 0 then queue_unacked pcb s useg st
      else map_option (\<lambda>st. (useg, st)) (tcp_seg_free H s st))
   }"

definition in_window :: "nat \<Rightarrow> nat \<Rightarrow> u32 \<Rightarrow> lan \<Rightarrow> bool option" where
  "in_window pcb s wnd st =
     map_option (\<lambda>q. q - t_lastack (tcp_at st pcb) + word_of_nat (s_len (seg_at st s)) \<le> wnd)
       (hdr_seqno (s_tcphdr (seg_at st s)) st)"

partial_function (option) output_loop :: "host \<Rightarrow> nat \<Rightarrow> u32 \<Rightarrow> nat option \<Rightarrow> lan \<Rightarrow> lan option" where
  "output_loop H pcb wnd useg st =
     (case t_unsent (tcp_at st pcb) of
        None \<Rightarrow> Some st
      | Some s \<Rightarrow>
          Option.bind (in_window pcb s wnd st) (\<lambda>inside.
            if \<not> inside then Some st
            else Option.bind (TCPH_FLAGS (s_tcphdr (seg_at st s)) st) (\<lambda>f.
              if f AND TCP_RST \<noteq> 0 then None
              else if \<not> tcp_do_output_nagle pcb st \<and> t_flags (tcp_at st pcb) AND (TF_NAGLEMEMERR OR TF_FIN) = 0 then Some st
              else Option.bind (output_one H pcb s useg st) (\<lambda>(useg, st). output_loop H pcb wnd useg st))))"

definition tcp_output :: "host \<Rightarrow> nat \<Rightarrow> lan \<Rightarrow> (err_t \<times> lan) option" where
  "tcp_output H pcb st = do {
     lwip_assert (t_state (tcp_at st pcb) \<noteq> LISTEN);
     (if tcp_input_pcb (tv st) = Some pcb then Some (ERR_OK, st)
      else do {
        let t = tcp_at st pcb;
        let wnd = word_of_nat (min (t_snd_wnd t) (t_cwnd t));
        inside \<leftarrow> (case t_unsent t of None \<Rightarrow> Some False | Some s \<Rightarrow> in_window pcb s wnd st);
        (if t_flags t AND TF_ACK_NOW \<noteq> 0 \<and> \<not> inside then tcp_send_empty_ack H pcb st
         else do {
           useg \<leftarrow> (case t_unacked t of None \<Rightarrow> Some None | Some u \<Rightarrow> map_option Some (last_seg u st));
           st \<leftarrow> output_loop H pcb wnd useg st;
           let st = set_tcp pcb (\<lambda>t. t\<lparr>t_unsent_oversize := (if t_unsent t = None then 0 else t_unsent_oversize t)\<rparr>) st;
           Some (ERR_OK, clear_flags pcb TF_NAGLEMEMERR st)
         })
      })
   }"

definition tcp_rst :: "host \<Rightarrow> u32 \<Rightarrow> u32 \<Rightarrow> u32 \<Rightarrow> u32 \<Rightarrow> nat \<Rightarrow> nat \<Rightarrow> lan \<Rightarrow> lan option" where
  "tcp_rst H seqno ackno local_ip remote_ip local_port remote_port st = do {
     (p, n) \<leftarrow> pbuf_alloc (custom_free (hport H)) PBUF_IP TCP_HLEN PBUF_RAM (lnet st);
     let st = with_net n st;
     (case p of
        None \<Rightarrow> Some st
      | Some p \<Rightarrow> do {
          lwip_assert (TCP_HLEN \<le> plen (buf st p));
          st \<leftarrow> store (payload (buf st p))
                 [(0, tcp_hdr_bytes local_port remote_port seqno ackno 5 (TCP_RST OR TCP_ACK) TCP_WND)] st;
          send_and_free H p local_ip remote_ip TCP_TTL 0 st
        })
   }"

section \<open>Sending again\<close>

definition tcp_rexmit_rto :: "host \<Rightarrow> nat \<Rightarrow> lan \<Rightarrow> lan option" where
  "tcp_rexmit_rto H pcb st =
     (case t_unacked (tcp_at st pcb) of
        None \<Rightarrow> Some st
      | Some u \<Rightarrow> do {
          l \<leftarrow> last_seg u st;
          let st = set_seg l (\<lambda>x. x\<lparr>s_next := t_unsent (tcp_at st pcb)\<rparr>) st;
          let st = set_tcp pcb (\<lambda>t. t\<lparr>t_unsent := Some u, t_unacked := None, t_nrtx := (t_nrtx t + 1) mod 256, t_rttest := 0\<rparr>) st;
          map_option snd (tcp_output H pcb st)
        })"

definition tcp_rexmit :: "nat \<Rightarrow> lan \<Rightarrow> lan option" where
  "tcp_rexmit pcb st =
     (case t_unacked (tcp_at st pcb) of
        None \<Rightarrow> Some st
      | Some s \<Rightarrow> do {
          let st = set_tcp pcb (\<lambda>t. t\<lparr>t_unacked := s_next (seg_at st s)\<rparr>) st;
          q \<leftarrow> hdr_seqno (s_tcphdr (seg_at st s)) st;
          st \<leftarrow> insert_seg (\<lambda>h. set_tcp pcb (\<lambda>t. t\<lparr>t_unsent := h\<rparr>)) s q None (t_unsent (tcp_at st pcb)) st;
          Some (set_tcp pcb (\<lambda>t. t\<lparr>t_unsent_oversize := (if s_next (seg_at st s) = None then 0 else t_unsent_oversize t),
                  t_nrtx := (t_nrtx t + 1) mod 256, t_rttest := 0\<rparr>) st)
        })"

definition tcp_rexmit_fast :: "nat \<Rightarrow> lan \<Rightarrow> lan option" where
  "tcp_rexmit_fast pcb st =
     (if t_unacked (tcp_at st pcb) \<noteq> None \<and> t_flags (tcp_at st pcb) AND TF_INFR = 0 then do {
        st \<leftarrow> tcp_rexmit pcb st;
        let t = tcp_at st pcb;
        let ssthresh = (if t_snd_wnd t < t_cwnd t then t_snd_wnd t div 2 else t_cwnd t div 2);
        let ssthresh = (if ssthresh < 2 * t_mss t then trunc16 (2 * t_mss t) else ssthresh);
        Some (set_tcp pcb (\<lambda>t. t\<lparr>t_ssthresh := ssthresh, t_cwnd := trunc16 (ssthresh + 3 * t_mss t),
                t_flags := t_flags t OR TF_INFR\<rparr>) st)
      }
      else Some st)"

section \<open>Probes\<close>

definition tcp_keepalive :: "host \<Rightarrow> nat \<Rightarrow> lan \<Rightarrow> lan option" where
  "tcp_keepalive H pcb st = do {
     (p, st) \<leftarrow> tcp_output_alloc_header H pcb 0 0 (t_snd_nxt (tcp_at st pcb) - 1) st;
     (case p of
        None \<Rightarrow> Some st
      | Some p \<Rightarrow> (let t = tcp_at st pcb in send_and_free H p (t_local_ip t) (t_remote_ip t) (t_ttl t) 0 st))
   }"

definition tcp_zero_window_probe :: "host \<Rightarrow> nat \<Rightarrow> lan \<Rightarrow> lan option" where
  "tcp_zero_window_probe H pcb st =
     (case (if t_unacked (tcp_at st pcb) = None then t_unsent (tcp_at st pcb) else t_unacked (tcp_at st pcb)) of
        None \<Rightarrow> Some st
      | Some s \<Rightarrow> do {
          f \<leftarrow> TCPH_FLAGS (s_tcphdr (seg_at st s)) st;
          let is_fin = (f AND TCP_FIN \<noteq> 0 \<and> s_len (seg_at st s) = 0);
          q \<leftarrow> hdr_seqno (s_tcphdr (seg_at st s)) st;
          (p, st) \<leftarrow> tcp_output_alloc_header H pcb 0 (if is_fin then 0 else 1) q st;
          (case p of
             None \<Rightarrow> Some st
           | Some p \<Rightarrow> do {
               st \<leftarrow> (if is_fin then TCPH_FLAGS_SET (payload (buf st p)) (TCP_ACK OR TCP_FIN) st
                      else do {
                        sp \<leftarrow> s_p (seg_at st s);
                        xs \<leftarrow> pbuf_copy_partial (Some sp) 1 (sub16 (tot_len (buf st sp)) (s_len (seg_at st s))) (lnet st);
                        store (payload (buf st p)) [(TCP_HLEN, xs)] st
                      });
               let t = tcp_at st pcb;
               send_and_free H p (t_local_ip t) (t_remote_ip t) (t_ttl t) 0 st
             })
        })"

end
