(* ===== verification/TcpPcb.thy ===== *)
theory TcpPcb
  imports TcpOut
begin

text \<open>
  Control blocks and timers, \<open>lwip/src/core/tcp.c\<close>, as configured (no backlog, no \<open>SO_REUSE\<close>, no queue of
  segments out of order). A list of control blocks is given by its \<open>pcb_list\<close>. The loops of the timers start
  again when a callback changed the list of active blocks.
\<close>

unbundle bit_operations_syntax

section \<open>Receive window\<close>

definition tcp_update_rcv_ann_wnd :: "nat \<Rightarrow> lan \<Rightarrow> (u32 \<times> lan) option" where
  "tcp_update_rcv_ann_wnd pcb st =
     (let t = tcp_at st pcb;
          new_right_edge = t_rcv_nxt t + word_of_nat (t_rcv_wnd t) in
      if TCP_SEQ_GEQ new_right_edge (t_rcv_ann_right_edge t + word_of_nat (min (TCP_WND div 2) (t_mss t)))
      then Some (new_right_edge - t_rcv_ann_right_edge t, set_tcp pcb (\<lambda>t. t\<lparr>t_rcv_ann_wnd := t_rcv_wnd t\<rparr>) st)
      else if TCP_SEQ_GT (t_rcv_nxt t) (t_rcv_ann_right_edge t)
      then Some (0, set_tcp pcb (\<lambda>t. t\<lparr>t_rcv_ann_wnd := 0\<rparr>) st)
      else do {
        let new_rcv_ann_wnd = unat (t_rcv_ann_right_edge t - t_rcv_nxt t);
        lwip_assert (new_rcv_ann_wnd \<le> 0xffff);
        Some (0, set_tcp pcb (\<lambda>t. t\<lparr>t_rcv_ann_wnd := new_rcv_ann_wnd\<rparr>) st)
      })"

definition tcp_recved :: "host \<Rightarrow> nat \<Rightarrow> nat \<Rightarrow> lan \<Rightarrow> lan option" where
  "tcp_recved H pcb len st = do {
     lwip_assert (t_state (tcp_at st pcb) \<noteq> LISTEN);
     lwip_assert (len \<le> 0xffff - t_rcv_wnd (tcp_at st pcb));
     let st = set_tcp pcb (\<lambda>t. t\<lparr>t_rcv_wnd := min (t_rcv_wnd t + len) TCP_WND\<rparr>) st;
     (wnd_inflation, st) \<leftarrow> tcp_update_rcv_ann_wnd pcb st;
     (if sint wnd_inflation \<ge> int TCP_WND_UPDATE_THRESHOLD
      then map_option snd (tcp_output H pcb (set_flags pcb TF_ACK_NOW st)) else Some st)
   }"

section \<open>Releasing\<close>

definition tcp_pcb_purge :: "host \<Rightarrow> nat \<Rightarrow> lan \<Rightarrow> lan option" where
  "tcp_pcb_purge H pcb st =
     (if t_state (tcp_at st pcb) \<in> {CLOSED, TIME_WAIT, LISTEN} then Some st
      else do {
        st \<leftarrow> (case t_refused_data (tcp_at st pcb) of
                 None \<Rightarrow> Some st
               | Some p \<Rightarrow> map_option (set_tcp pcb (\<lambda>t. t\<lparr>t_refused_data := None\<rparr>)) (release (hport H) p st));
        let st = set_tcp pcb (\<lambda>t. t\<lparr>t_rtime := -1\<rparr>) st;
        st \<leftarrow> tcp_segs_free H (t_unsent (tcp_at st pcb)) st;
        st \<leftarrow> tcp_segs_free H (t_unacked (tcp_at st pcb)) st;
        Some (set_tcp pcb (\<lambda>t. t\<lparr>t_unacked := None, t_unsent := None, t_unsent_oversize := 0\<rparr>) st)
      })"

definition tcp_pcb_remove :: "host \<Rightarrow> pcb_list \<Rightarrow> nat \<Rightarrow> lan \<Rightarrow> lan option" where
  "tcp_pcb_remove H l pcb st = do {
     st \<leftarrow> TCP_RMV l pcb st;
     st \<leftarrow> tcp_pcb_purge H pcb st;
     let t = tcp_at st pcb;
     st \<leftarrow> (if t_state t \<noteq> TIME_WAIT \<and> t_state t \<noteq> LISTEN \<and> t_flags t AND TF_ACK_DELAY \<noteq> 0
            then map_option snd (tcp_output H pcb (set_flags pcb TF_ACK_NOW st)) else Some st);
     let t = tcp_at st pcb;
     lwip_assert (t_state t = LISTEN \<or> t_unsent t = None);
     lwip_assert (t_state t = LISTEN \<or> t_unacked t = None);
     Some (set_tcp pcb (\<lambda>t. t\<lparr>t_state := CLOSED\<rparr>) st)
   }"

definition TCP_PCB_REMOVE_ACTIVE :: "host \<Rightarrow> nat \<Rightarrow> lan \<Rightarrow> lan option" where
  "TCP_PCB_REMOVE_ACTIVE H pcb st = map_option (set_changed True) (tcp_pcb_remove H Active pcb st)"

definition event_err :: "tcp_app \<Rightarrow> nat option \<Rightarrow> nat \<Rightarrow> err_t \<Rightarrow> lan \<Rightarrow> lan option" where
  "event_err A errf a err st = (case errf of None \<Rightarrow> Some st | Some f \<Rightarrow> on_err A f a err st)"

definition tcp_abandon :: "host \<Rightarrow> tcp_app \<Rightarrow> nat \<Rightarrow> bool \<Rightarrow> lan \<Rightarrow> lan option" where
  "tcp_abandon H A pcb reset st = do {
     lwip_assert (t_state (tcp_at st pcb) \<noteq> LISTEN);
     (if t_state (tcp_at st pcb) = TIME_WAIT then do {
        st \<leftarrow> tcp_pcb_remove H Time_wait pcb st;
        put_elem MEMP_TCP_PCB pcb st
      }
      else do {
        let t = tcp_at st pcb;
        st \<leftarrow> TCP_PCB_REMOVE_ACTIVE H pcb st;
        st \<leftarrow> tcp_segs_free H (t_unacked (tcp_at st pcb)) st;
        st \<leftarrow> tcp_segs_free H (t_unsent (tcp_at st pcb)) st;
        st \<leftarrow> (if reset then tcp_rst H (t_snd_nxt t) (t_rcv_nxt t) (t_local_ip (tcp_at st pcb)) (t_remote_ip (tcp_at st pcb))
                                  (t_local_port (tcp_at st pcb)) (t_remote_port (tcp_at st pcb)) st
               else Some st);
        st \<leftarrow> put_elem MEMP_TCP_PCB pcb st;
        event_err A (t_errf t) (t_arg t) ERR_ABRT st
      })
   }"

definition tcp_abort :: "host \<Rightarrow> tcp_app \<Rightarrow> nat \<Rightarrow> lan \<Rightarrow> lan option" where
  "tcp_abort H A pcb st = tcp_abandon H A pcb True st"

section \<open>Closing\<close>

text \<open>A connection whose data the application did not take: a reset instead of a FIN.\<close>

definition close_reset :: "host \<Rightarrow> nat \<Rightarrow> lan \<Rightarrow> lan option" where
  "close_reset H pcb st = do {
     lwip_assert (t_flags (tcp_at st pcb) AND TF_RXCLOSED \<noteq> 0);
     let t = tcp_at st pcb;
     st \<leftarrow> tcp_rst H (t_snd_nxt t) (t_rcv_nxt t) (t_local_ip t) (t_remote_ip t) (t_local_port t) (t_remote_port t) st;
     st \<leftarrow> tcp_pcb_purge H pcb st;
     st \<leftarrow> TCP_RMV_ACTIVE pcb st;
     (if t_state (tcp_at st pcb) = ESTABLISHED
      then TCP_REG Time_wait pcb (set_tcp pcb (\<lambda>t. t\<lparr>t_state := TIME_WAIT\<rparr>) st)
      else put_elem MEMP_TCP_PCB pcb st)
   }"

text \<open>A FIN, then the next state.\<close>

definition close_fin :: "host \<Rightarrow> nat \<Rightarrow> tcp_state \<Rightarrow> lan \<Rightarrow> (err_t \<times> lan) option" where
  "close_fin H pcb next st = do {
     (err, st) \<leftarrow> tcp_send_fin H pcb st;
     (if err = ERR_OK then do {
        (_, st) \<leftarrow> tcp_output H pcb (set_tcp pcb (\<lambda>t. t\<lparr>t_state := next\<rparr>) st);
        Some (err, st)
      }
      else Some (err, st))
   }"

definition tcp_close_shutdown :: "host \<Rightarrow> nat \<Rightarrow> bool \<Rightarrow> lan \<Rightarrow> (err_t \<times> lan) option" where
  "tcp_close_shutdown H pcb rst_on_unacked_data st =
     (let t = tcp_at st pcb in
      if rst_on_unacked_data \<and> (t_state t = ESTABLISHED \<or> t_state t = CLOSE_WAIT) \<and>
         (t_refused_data t \<noteq> None \<or> t_rcv_wnd t \<noteq> TCP_WND)
      then map_option (\<lambda>st. (ERR_OK, st)) (close_reset H pcb st)
      else case t_state t of
        CLOSED \<Rightarrow> do {
          st \<leftarrow> (if t_local_port t \<noteq> 0 then TCP_RMV Bound pcb st else Some st);
          map_option (\<lambda>st. (ERR_OK, st)) (put_elem MEMP_TCP_PCB pcb st)
        }
      | LISTEN \<Rightarrow> do {
          st \<leftarrow> tcp_pcb_remove H Listening pcb st;
          map_option (\<lambda>st. (ERR_OK, st)) (put_elem MEMP_TCP_PCB_LISTEN pcb st)
        }
      | SYN_SENT \<Rightarrow> do {
          st \<leftarrow> TCP_PCB_REMOVE_ACTIVE H pcb st;
          map_option (\<lambda>st. (ERR_OK, st)) (put_elem MEMP_TCP_PCB pcb st)
        }
      | SYN_RCVD \<Rightarrow> close_fin H pcb FIN_WAIT_1 st
      | ESTABLISHED \<Rightarrow> close_fin H pcb FIN_WAIT_1 st
      | CLOSE_WAIT \<Rightarrow> close_fin H pcb LAST_ACK st
      | _ \<Rightarrow> Some (ERR_OK, st))"

definition tcp_close :: "host \<Rightarrow> nat \<Rightarrow> lan \<Rightarrow> (err_t \<times> lan) option" where
  "tcp_close H pcb st =
     tcp_close_shutdown H pcb True (if t_state (tcp_at st pcb) \<noteq> LISTEN then set_flags pcb TF_RXCLOSED st else st)"

definition tcp_shutdown :: "host \<Rightarrow> nat \<Rightarrow> bool \<Rightarrow> bool \<Rightarrow> lan \<Rightarrow> (err_t \<times> lan) option" where
  "tcp_shutdown H pcb shut_rx shut_tx st =
     (if t_state (tcp_at st pcb) = LISTEN then Some (ERR_CONN, st)
      else
        let st = (if shut_rx then set_flags pcb TF_RXCLOSED st else st) in
        if shut_rx \<and> shut_tx then tcp_close_shutdown H pcb True st
        else do {
          st \<leftarrow> (if shut_rx then
                   (case t_refused_data (tcp_at st pcb) of
                      None \<Rightarrow> Some st
                    | Some p \<Rightarrow> map_option (set_tcp pcb (\<lambda>t. t\<lparr>t_refused_data := None\<rparr>)) (release (hport H) p st))
                 else Some st);
          (if shut_tx then
             if t_state (tcp_at st pcb) \<in> {SYN_RCVD, ESTABLISHED, CLOSE_WAIT} then tcp_close_shutdown H pcb shut_rx st
             else Some (ERR_CONN, st)
           else Some (ERR_OK, st))
        })"

section \<open>Callbacks\<close>

definition tcp_recv_null :: "host \<Rightarrow> nat \<Rightarrow> loc option \<Rightarrow> err_t \<Rightarrow> lan \<Rightarrow> (err_t \<times> lan) option" where
  "tcp_recv_null H pcb p err st =
     (case p of
        Some q \<Rightarrow> do {
          st \<leftarrow> tcp_recved H pcb (tot_len (buf st q)) st;
          map_option (\<lambda>st. (ERR_OK, st)) (release (hport H) q st)
        }
      | None \<Rightarrow> if err = ERR_OK then tcp_close H pcb st else Some (ERR_OK, st))"

definition event_recv :: "host \<Rightarrow> tcp_app \<Rightarrow> nat \<Rightarrow> loc option \<Rightarrow> err_t \<Rightarrow> lan \<Rightarrow> (err_t \<times> lan) option" where
  "event_recv H A pcb p err st =
     (case t_recv (tcp_at st pcb) of
        Some (App f) \<Rightarrow> on_recv A f (t_arg (tcp_at st pcb)) pcb p err st
      | _ \<Rightarrow> tcp_recv_null H pcb p err st)"

definition event_closed :: "host \<Rightarrow> tcp_app \<Rightarrow> nat \<Rightarrow> lan \<Rightarrow> (err_t \<times> lan) option" where
  "event_closed H A pcb st =
     (case t_recv (tcp_at st pcb) of
        Some (App f) \<Rightarrow> on_recv A f (t_arg (tcp_at st pcb)) pcb None ERR_OK st
      | Some Null_fn \<Rightarrow> tcp_recv_null H pcb None ERR_OK st
      | None \<Rightarrow> Some (ERR_OK, st))"

definition event_sent :: "tcp_app \<Rightarrow> nat \<Rightarrow> nat \<Rightarrow> lan \<Rightarrow> (err_t \<times> lan) option" where
  "event_sent A pcb space st =
     (case t_sent (tcp_at st pcb) of
        Some f \<Rightarrow> on_sent A f (t_arg (tcp_at st pcb)) pcb space st | None \<Rightarrow> Some (ERR_OK, st))"

definition event_connected :: "tcp_app \<Rightarrow> nat \<Rightarrow> err_t \<Rightarrow> lan \<Rightarrow> (err_t \<times> lan) option" where
  "event_connected A pcb err st =
     (case t_connected (tcp_at st pcb) of
        Some f \<Rightarrow> on_connected A f (t_arg (tcp_at st pcb)) pcb err st | None \<Rightarrow> Some (ERR_OK, st))"

definition event_poll :: "tcp_app \<Rightarrow> nat \<Rightarrow> lan \<Rightarrow> (err_t \<times> lan) option" where
  "event_poll A pcb st =
     (case t_poll (tcp_at st pcb) of
        Some f \<Rightarrow> on_poll A f (t_arg (tcp_at st pcb)) pcb st | None \<Rightarrow> Some (ERR_OK, st))"

text \<open>\<open>tcp_accept_null\<close> refuses.\<close>

definition event_accept :: "tcp_app \<Rightarrow> nat \<Rightarrow> err_t \<Rightarrow> lan \<Rightarrow> (err_t \<times> lan) option" where
  "event_accept A pcb err st =
     (case t_accept (tcp_at st pcb) of
        Some (App f) \<Rightarrow> on_accept A f (t_arg (tcp_at st pcb)) pcb err st
      | Some Null_fn \<Rightarrow> Some (ERR_ABRT, st)
      | None \<Rightarrow> Some (ERR_ARG, st))"

definition tcp_arg :: "nat \<Rightarrow> nat \<Rightarrow> lan \<Rightarrow> lan" where
  "tcp_arg pcb a st = set_tcp pcb (\<lambda>t. t\<lparr>t_arg := a\<rparr>) st"

definition tcp_recv :: "nat \<Rightarrow> callback option \<Rightarrow> lan \<Rightarrow> lan option" where
  "tcp_recv pcb f st = do {
     lwip_assert (t_state (tcp_at st pcb) \<noteq> LISTEN);
     Some (set_tcp pcb (\<lambda>t. t\<lparr>t_recv := f\<rparr>) st)
   }"

definition tcp_sent :: "nat \<Rightarrow> nat option \<Rightarrow> lan \<Rightarrow> lan option" where
  "tcp_sent pcb f st = do {
     lwip_assert (t_state (tcp_at st pcb) \<noteq> LISTEN);
     Some (set_tcp pcb (\<lambda>t. t\<lparr>t_sent := f\<rparr>) st)
   }"

definition tcp_err :: "nat \<Rightarrow> nat option \<Rightarrow> lan \<Rightarrow> lan option" where
  "tcp_err pcb f st = do {
     lwip_assert (t_state (tcp_at st pcb) \<noteq> LISTEN);
     Some (set_tcp pcb (\<lambda>t. t\<lparr>t_errf := f\<rparr>) st)
   }"

definition tcp_accept :: "nat \<Rightarrow> callback option \<Rightarrow> lan \<Rightarrow> lan" where
  "tcp_accept pcb f st = set_tcp pcb (\<lambda>t. t\<lparr>t_accept := f\<rparr>) st"

definition tcp_poll :: "nat \<Rightarrow> nat option \<Rightarrow> nat \<Rightarrow> lan \<Rightarrow> lan option" where
  "tcp_poll pcb f interval st = do {
     lwip_assert (t_state (tcp_at st pcb) \<noteq> LISTEN);
     Some (set_tcp pcb (\<lambda>t. t\<lparr>t_poll := f, t_pollinterval := interval\<rparr>) st)
   }"

definition tcp_setprio :: "nat \<Rightarrow> nat \<Rightarrow> lan \<Rightarrow> lan" where
  "tcp_setprio pcb p st = set_tcp pcb (\<lambda>t. t\<lparr>t_prio := p\<rparr>) st"

section \<open>Creating control blocks\<close>

definition tcp_next_iss :: "lan \<Rightarrow> u32 \<times> lan" where
  "tcp_next_iss st = (let i = tcp_iss (tv st) + tcp_ticks (tv st) in (i, set_tv (\<lambda>v. v\<lparr>tcp_iss := i\<rparr>) st))"

text \<open>The block of the list that has been inactive for longest, among those of at most the priority given.\<close>

partial_function (option) oldest_prio :: "nat \<Rightarrow> nat \<Rightarrow> u32 \<Rightarrow> nat option \<Rightarrow> nat option \<Rightarrow> lan \<Rightarrow> nat option option" where
  "oldest_prio prio mprio inactivity inactive po st =
     (case po of
        None \<Rightarrow> Some inactive
      | Some u \<Rightarrow>
          (let t = tcp_at st u; age = tcp_ticks (tv st) - t_tmr t in
           if t_prio t \<le> prio \<and> t_prio t \<le> mprio \<and> inactivity \<le> age
           then oldest_prio prio (t_prio t) age (Some u) (t_next t) st
           else oldest_prio prio mprio inactivity inactive (t_next t) st))"

definition tcp_kill_prio :: "host \<Rightarrow> tcp_app \<Rightarrow> nat \<Rightarrow> lan \<Rightarrow> lan option" where
  "tcp_kill_prio H A prio st = do {
     inactive \<leftarrow> oldest_prio prio TCP_PRIO_MAX 0 None (tcp_active_pcbs (tv st)) st;
     (case inactive of None \<Rightarrow> Some st | Some u \<Rightarrow> tcp_abort H A u st)
   }"

partial_function (option) oldest_tw :: "u32 \<Rightarrow> nat option \<Rightarrow> nat option \<Rightarrow> lan \<Rightarrow> nat option option" where
  "oldest_tw inactivity inactive po st =
     (case po of
        None \<Rightarrow> Some inactive
      | Some u \<Rightarrow>
          (let t = tcp_at st u; age = tcp_ticks (tv st) - t_tmr t in
           if inactivity \<le> age then oldest_tw age (Some u) (t_next t) st
           else oldest_tw inactivity inactive (t_next t) st))"

definition tcp_kill_timewait :: "host \<Rightarrow> tcp_app \<Rightarrow> lan \<Rightarrow> lan option" where
  "tcp_kill_timewait H A st = do {
     inactive \<leftarrow> oldest_tw 0 None (tcp_tw_pcbs (tv st)) st;
     (case inactive of None \<Rightarrow> Some st | Some u \<Rightarrow> tcp_abort H A u st)
   }"

text \<open>An element for a control block: a free one, or that of a connection that is killed for it.\<close>

definition alloc_elem :: "host \<Rightarrow> tcp_app \<Rightarrow> nat \<Rightarrow> lan \<Rightarrow> (nat option \<times> lan) option" where
  "alloc_elem H A prio st = do {
     (e, st) \<leftarrow> get_elem MEMP_TCP_PCB st;
     (if e \<noteq> None then Some (e, st)
      else do {
        st \<leftarrow> tcp_kill_timewait H A st;
        (e, st) \<leftarrow> get_elem MEMP_TCP_PCB st;
        (if e \<noteq> None then Some (e, st)
         else do {
           st \<leftarrow> tcp_kill_prio H A prio st;
           get_elem MEMP_TCP_PCB st
         })
      })
   }"

definition new_pcb :: "nat \<Rightarrow> u32 \<Rightarrow> u32 \<Rightarrow> u8 \<Rightarrow> tcp_pcb" where
  "new_pcb prio iss ticks ctr = zero_tcp_pcb
     \<lparr>t_prio := prio, t_snd_buf := TCP_SND_BUF, t_snd_queuelen := 0, t_rcv_wnd := TCP_WND, t_rcv_ann_wnd := TCP_WND,
      t_tos := 0, t_ttl := TCP_TTL, t_mss := 536, t_rto := 6, t_sa := 0, t_sv := 6, t_rtime := -1, t_cwnd := 1,
      t_snd_wl2 := iss, t_snd_nxt := iss, t_lastack := iss, t_snd_lbb := iss, t_tmr := ticks, t_last_timer := ctr,
      t_polltmr := 0, t_recv := Some Null_fn, t_keep_idle := 7200000, t_keep_cnt_sent := 0\<rparr>"

definition tcp_alloc :: "host \<Rightarrow> tcp_app \<Rightarrow> nat \<Rightarrow> lan \<Rightarrow> (nat option \<times> lan) option" where
  "tcp_alloc H A prio st = do {
     (e, st) \<leftarrow> alloc_elem H A prio st;
     (case e of
        None \<Rightarrow> Some (None, st)
      | Some u \<Rightarrow>
          (let (iss, st) = tcp_next_iss st in
           Some (e, set_tcp u (\<lambda>_. new_pcb prio iss (tcp_ticks (tv st)) (tcp_timer_ctr (tv st))) st)))
   }"

definition tcp_new :: "host \<Rightarrow> tcp_app \<Rightarrow> lan \<Rightarrow> (nat option \<times> lan) option" where
  "tcp_new H A st = tcp_alloc H A TCP_PRIO_NORMAL st"

section \<open>Ports\<close>

partial_function (option) port_on_list :: "nat \<Rightarrow> nat option \<Rightarrow> lan \<Rightarrow> bool option" where
  "port_on_list port po st =
     (case po of
        None \<Rightarrow> Some False
      | Some u \<Rightarrow> if t_local_port (tcp_at st u) = port then Some True else port_on_list port (t_next (tcp_at st u)) st)"

primrec port_in_use :: "nat \<Rightarrow> pcb_list list \<Rightarrow> lan \<Rightarrow> bool option" where
  "port_in_use port [] st = Some False"
| "port_in_use port (l # ls) st =
     Option.bind (port_on_list port (list_head l st) st) (\<lambda>b. if b then Some True else port_in_use port ls st)"

function new_tcp_port_loop :: "nat \<Rightarrow> lan \<Rightarrow> (nat \<times> lan) option" where
  "new_tcp_port_loop n st =
     (let port = (if tcp_port (tv st) = TCP_LOCAL_PORT_RANGE_END then TCP_LOCAL_PORT_RANGE_START
                  else trunc16 (tcp_port (tv st) + 1));
          st = set_tv (\<lambda>v. v\<lparr>tcp_port := port\<rparr>) st in
      case port_in_use port tcp_pcb_lists st of
        None \<Rightarrow> None
      | Some False \<Rightarrow> Some (port, st)
      | Some True \<Rightarrow>
          if TCP_LOCAL_PORT_RANGE_END - TCP_LOCAL_PORT_RANGE_START < n + 1 then Some (0, st)
          else new_tcp_port_loop (n + 1) st)"
  by pat_completeness auto
termination by (relation "measure (\<lambda>(n, _). 0x4000 - n)") auto

declare new_tcp_port_loop.simps [simp del]

definition tcp_new_port :: "lan \<Rightarrow> (nat \<times> lan) option" where
  "tcp_new_port st = new_tcp_port_loop 0 st"

section \<open>Binding, listening, connecting\<close>

partial_function (option) addr_on_list :: "u32 \<Rightarrow> nat \<Rightarrow> nat option \<Rightarrow> lan \<Rightarrow> bool option" where
  "addr_on_list ipaddr port po st =
     (case po of
        None \<Rightarrow> Some False
      | Some u \<Rightarrow>
          if t_local_port (tcp_at st u) = port \<and>
             (t_local_ip (tcp_at st u) = IPADDR_ANY \<or> ipaddr = IPADDR_ANY \<or> t_local_ip (tcp_at st u) = ipaddr)
          then Some True else addr_on_list ipaddr port (t_next (tcp_at st u)) st)"

primrec addr_in_use :: "u32 \<Rightarrow> nat \<Rightarrow> pcb_list list \<Rightarrow> lan \<Rightarrow> bool option" where
  "addr_in_use ipaddr port [] st = Some False"
| "addr_in_use ipaddr port (l # ls) st =
     Option.bind (addr_on_list ipaddr port (list_head l st) st) (\<lambda>b. if b then Some True else addr_in_use ipaddr port ls st)"

text \<open>\<open>ipaddr\<close> is \<open>IPADDR_ANY\<close> for a null pointer.\<close>

definition tcp_bind :: "nat \<Rightarrow> u32 \<Rightarrow> nat \<Rightarrow> lan \<Rightarrow> (err_t \<times> lan) option" where
  "tcp_bind pcb ipaddr port st = do {
     lwip_assert (t_state (tcp_at st pcb) = CLOSED);
     (newport, st) \<leftarrow> (if port = 0 then tcp_new_port st else Some (port, st));
     (if newport = 0 then Some (ERR_BUF, st)
      else do {
        used \<leftarrow> addr_in_use ipaddr newport tcp_pcb_lists st;
        (if used then Some (ERR_USE, st)
         else do {
           let st = (if ipaddr \<noteq> IPADDR_ANY then set_tcp pcb (\<lambda>t. t\<lparr>t_local_ip := ipaddr\<rparr>) st else st);
           st \<leftarrow> TCP_REG Bound pcb (set_tcp pcb (\<lambda>t. t\<lparr>t_local_port := newport\<rparr>) st);
           Some (ERR_OK, st)
         })
      })
   }"

text \<open>The test for a block that listens already comes behind an error check that lets only \<open>CLOSED\<close> through.\<close>

definition tcp_listen_with_backlog :: "nat \<Rightarrow> lan \<Rightarrow> (nat option \<times> lan) option" where
  "tcp_listen_with_backlog pcb st = do {
     lwip_assert (t_state (tcp_at st pcb) = CLOSED);
     (e, st) \<leftarrow> get_elem MEMP_TCP_PCB_LISTEN st;
     (case e of
        None \<Rightarrow> Some (None, st)
      | Some l \<Rightarrow> do {
          let t = tcp_at st pcb;
          let st = set_tcp l (\<lambda>x. x\<lparr>t_arg := t_arg t, t_local_port := t_local_port t, t_state := LISTEN, t_prio := t_prio t,
                     t_so_options := t_so_options t OR SOF_ACCEPTCONN, t_ttl := t_ttl t, t_tos := t_tos t,
                     t_local_ip := t_local_ip t\<rparr>) st;
          st \<leftarrow> (if t_local_port (tcp_at st pcb) \<noteq> 0 then TCP_RMV Bound pcb st else Some st);
          st \<leftarrow> put_elem MEMP_TCP_PCB pcb st;
          st \<leftarrow> TCP_REG Listening l (set_tcp l (\<lambda>x. x\<lparr>t_accept := Some Null_fn\<rparr>) st);
          Some (Some l, st)
        })
   }"

text \<open>The control block of a connection that starts, and its SYN.\<close>

definition connect_syn :: "host \<Rightarrow> nat \<Rightarrow> u32 \<Rightarrow> nat option \<Rightarrow> nat \<Rightarrow> lan \<Rightarrow> (err_t \<times> lan) option" where
  "connect_syn H pcb ipaddr connected old_local_port st = do {
     let (iss, st) = tcp_next_iss st;
     let mss' = tcp_eff_send_mss H 536 ipaddr;
     let st = set_tcp pcb (\<lambda>t. t\<lparr>t_rcv_nxt := 0, t_snd_nxt := iss, t_lastack := iss - 1, t_snd_lbb := iss - 1,
                t_rcv_wnd := TCP_WND, t_rcv_ann_wnd := TCP_WND, t_rcv_ann_right_edge := 0, t_snd_wnd := TCP_WND,
                t_mss := mss', t_cwnd := 1, t_ssthresh := trunc16 (mss' * 10), t_connected := connected\<rparr>) st;
     (ret, st) \<leftarrow> tcp_enqueue_flags H pcb TCP_SYN st;
     (if ret = ERR_OK then do {
        let st = set_tcp pcb (\<lambda>t. t\<lparr>t_state := SYN_SENT\<rparr>) st;
        st \<leftarrow> (if old_local_port \<noteq> 0 then TCP_RMV Bound pcb st else Some st);
        st \<leftarrow> TCP_REG_ACTIVE pcb st;
        (_, st) \<leftarrow> tcp_output H pcb st;
        Some (ret, st)
      }
      else Some (ret, st))
   }"

definition tcp_connect :: "host \<Rightarrow> nat \<Rightarrow> u32 option \<Rightarrow> nat \<Rightarrow> nat option \<Rightarrow> lan \<Rightarrow> (err_t \<times> lan) option" where
  "tcp_connect H pcb ipaddr port connected st = do {
     lwip_assert (t_state (tcp_at st pcb) = CLOSED);
     (case ipaddr of
        None \<Rightarrow> Some (ERR_VAL, st)
      | Some ipaddr \<Rightarrow>
          (let st = set_tcp pcb (\<lambda>t. t\<lparr>t_remote_ip := ipaddr, t_remote_port := port\<rparr>) st in
           case local_address H pcb st of
             None \<Rightarrow> Some (ERR_RTE, st)
           | Some st \<Rightarrow> do {
               let old_local_port = t_local_port (tcp_at st pcb);
               st \<leftarrow> (if old_local_port = 0
                      then map_option (\<lambda>(q, st). set_tcp pcb (\<lambda>t. t\<lparr>t_local_port := q\<rparr>) st) (tcp_new_port st) else Some st);
               (if t_local_port (tcp_at st pcb) = 0 then Some (ERR_BUF, st)
                else connect_syn H pcb ipaddr connected old_local_port st)
             }))
   }"

end
