(* ===== verification/TcpTmr.thy ===== *)
theory TcpTmr
  imports TcpPcb
begin

text \<open>
  The timers of \<open>lwip/src/core/tcp.c\<close>: retransmission, persist and keepalive, the removal of dead connections, delayed
  acknowledgements, data the application refused.
\<close>

unbundle bit_operations_syntax

abbreviation FIN_WAIT_TICKS :: u32 where "FIN_WAIT_TICKS \<equiv> 40"
abbreviation SYN_RCVD_TICKS :: u32 where "SYN_RCVD_TICKS \<equiv> 40"
abbreviation MSL2_TICKS :: u32 where "MSL2_TICKS \<equiv> 240"
abbreviation TCP_MAXIDLE :: u32 where "TCP_MAXIDLE \<equiv> 675000"
abbreviation TCP_KEEPINTVL_DEFAULT :: u32 where "TCP_KEEPINTVL_DEFAULT \<equiv> 75000"
abbreviation TCP_SLOW_INTERVAL :: u32 where "TCP_SLOW_INTERVAL \<equiv> 500"

section \<open>The slow timer\<close>

text \<open>The persist timer is running.\<close>

definition slow_persist :: "host \<Rightarrow> nat \<Rightarrow> lan \<Rightarrow> lan option" where
  "slow_persist H pcb st = do {
     let st = set_tcp pcb (\<lambda>t. t\<lparr>t_persist_cnt := (t_persist_cnt t + 1) mod 256\<rparr>) st;
     limit \<leftarrow> arr_get tcp_persist_backoff (int (t_persist_backoff (tcp_at st pcb)) - 1);
     (if limit \<le> t_persist_cnt (tcp_at st pcb) then
        tcp_zero_window_probe H pcb
          (set_tcp pcb (\<lambda>t. t\<lparr>t_persist_cnt := 0,
             t_persist_backoff := (if t_persist_backoff t < 7 then t_persist_backoff t + 1 else t_persist_backoff t)\<rparr>) st)
      else Some st)
   }"

text \<open>The retransmission timer.\<close>

definition slow_rexmit :: "host \<Rightarrow> nat \<Rightarrow> lan \<Rightarrow> lan option" where
  "slow_rexmit H pcb st =
     (let st = set_tcp pcb (\<lambda>t. t\<lparr>t_rtime := (if t_rtime t \<ge> 0 then s16 (t_rtime t + 1) else t_rtime t)\<rparr>) st;
          t = tcp_at st pcb in
      if t_unacked t \<noteq> None \<and> t_rto t \<le> t_rtime t then do {
        rto \<leftarrow> (if t_state t \<noteq> SYN_SENT
               then map_option (\<lambda>b. s16 ((t_sa t div 8 + t_sv t) * 2 ^ b)) (arr_get tcp_backoff (int (t_nrtx t)))
               else Some (t_rto t));
        let ssthresh = min (t_cwnd t) (t_snd_wnd t) div 2;
        tcp_rexmit_rto H pcb
          (set_tcp pcb (\<lambda>t. t\<lparr>t_rto := rto, t_rtime := 0,
             t_ssthresh := (if ssthresh < t_mss t * 2 then trunc16 (t_mss t * 2) else ssthresh), t_cwnd := t_mss t\<rparr>) st)
      }
      else Some st)"

text \<open>Keepalive probes: the flag says that the connection is given up.\<close>

definition slow_keepalive :: "host \<Rightarrow> nat \<Rightarrow> lan \<Rightarrow> (bool \<times> lan) option" where
  "slow_keepalive H pcb st =
     (let t = tcp_at st pcb; age = tcp_ticks (tv st) - t_tmr t in
      if t_so_options t AND SOF_KEEPALIVE \<noteq> 0 \<and> (t_state t = ESTABLISHED \<or> t_state t = CLOSE_WAIT) then
        if (t_keep_idle t + TCP_MAXIDLE) div TCP_SLOW_INTERVAL < age then Some (True, st)
        else if (t_keep_idle t + word_of_nat (t_keep_cnt_sent t) * TCP_KEEPINTVL_DEFAULT) div TCP_SLOW_INTERVAL < age
        then map_option (\<lambda>st. (False, set_tcp pcb (\<lambda>t. t\<lparr>t_keep_cnt_sent := (t_keep_cnt_sent t + 1) mod 256\<rparr>) st))
               (tcp_keepalive H pcb st)
        else Some (False, st)
      else Some (False, st))"

definition stuck :: "nat \<Rightarrow> lan \<Rightarrow> bool" where
  "stuck pcb st =
     (let t = tcp_at st pcb; age = tcp_ticks (tv st) - t_tmr t in
      t_state t = FIN_WAIT_2 \<and> t_flags t AND TF_RXCLOSED \<noteq> 0 \<and> FIN_WAIT_TICKS < age \<or>
      t_state t = SYN_RCVD \<and> SYN_RCVD_TICKS < age \<or> t_state t = LAST_ACK \<and> MSL2_TICKS < age)"

text \<open>Whether to remove the block, and whether with a reset.\<close>

definition slow_check :: "host \<Rightarrow> nat \<Rightarrow> lan \<Rightarrow> (bool \<times> bool \<times> lan) option" where
  "slow_check H pcb st = do {
     let t = tcp_at st pcb;
     let dead = (t_state t = SYN_SENT \<and> t_nrtx t = TCP_SYNMAXRTX \<or> t_nrtx t = TCP_MAXRTX);
     st \<leftarrow> (if dead then Some st
            else if 0 < t_persist_backoff t then slow_persist H pcb st else slow_rexmit H pcb st);
     (reset, st) \<leftarrow> slow_keepalive H pcb st;
     Some (dead \<or> stuck pcb st \<or> reset, reset, st)
   }"

definition slow_remove :: "host \<Rightarrow> tcp_app \<Rightarrow> nat option \<Rightarrow> nat \<Rightarrow> bool \<Rightarrow> lan \<Rightarrow> lan option" where
  "slow_remove H A prev pcb reset st = do {
     st \<leftarrow> tcp_pcb_purge H pcb st;
     st \<leftarrow> (case prev of
              Some b \<Rightarrow> do {
                lwip_assert (tcp_active_pcbs (tv st) \<noteq> Some pcb);
                Some (set_tcp b (\<lambda>t. t\<lparr>t_next := t_next (tcp_at st pcb)\<rparr>) st)
              }
            | None \<Rightarrow> do {
                lwip_assert (tcp_active_pcbs (tv st) = Some pcb);
                Some (set_head Active (t_next (tcp_at st pcb)) st)
              });
     let t = tcp_at st pcb;
     st \<leftarrow> (if reset then tcp_rst H (t_snd_nxt t) (t_rcv_nxt t) (t_local_ip t) (t_remote_ip t) (t_local_port t) (t_remote_port t) st
            else Some st);
     let t = tcp_at st pcb;
     st \<leftarrow> put_elem MEMP_TCP_PCB pcb st;
     event_err A (t_errf t) (t_arg t) ERR_ABRT (set_changed False st)
   }"

text \<open>Polling the application: the flag says that its callback changed the list.\<close>

definition slow_poll :: "host \<Rightarrow> tcp_app \<Rightarrow> nat \<Rightarrow> lan \<Rightarrow> (bool \<times> lan) option" where
  "slow_poll H A pcb st = do {
     let st = set_tcp pcb (\<lambda>t. t\<lparr>t_polltmr := (t_polltmr t + 1) mod 256\<rparr>) st;
     (if t_pollinterval (tcp_at st pcb) \<le> t_polltmr (tcp_at st pcb) then do {
        (err, st) \<leftarrow> event_poll A pcb (set_changed False (set_tcp pcb (\<lambda>t. t\<lparr>t_polltmr := 0\<rparr>) st));
        (if tcp_active_pcbs_changed (tv st) then Some (True, st)
         else if err = ERR_OK then map_option (\<lambda>(_, st). (False, st)) (tcp_output H pcb st)
         else Some (False, st))
      }
      else Some (False, st))
   }"

partial_function (option) slow_active :: "host \<Rightarrow> tcp_app \<Rightarrow> nat option \<Rightarrow> nat option \<Rightarrow> lan \<Rightarrow> lan option" where
  "slow_active H A prev po st =
     (case po of
        None \<Rightarrow> Some st
      | Some u \<Rightarrow>
          if t_state (tcp_at st u) \<in> {CLOSED, LISTEN, TIME_WAIT} then None
          else if t_last_timer (tcp_at st u) = tcp_timer_ctr (tv st) then slow_active H A prev (t_next (tcp_at st u)) st
          else Option.bind (slow_check H u (set_tcp u (\<lambda>t. t\<lparr>t_last_timer := tcp_timer_ctr (tv st)\<rparr>) st)) (\<lambda>(remove, reset, st).
            if remove then
              (let next = t_next (tcp_at st u) in
               Option.bind (slow_remove H A prev u reset st) (\<lambda>st.
                 if tcp_active_pcbs_changed (tv st) then slow_active H A None (tcp_active_pcbs (tv st)) st
                 else slow_active H A prev next st))
            else
              (let next = t_next (tcp_at st u) in
               Option.bind (slow_poll H A u st) (\<lambda>(changed, st).
                 if changed then slow_active H A None (tcp_active_pcbs (tv st)) st
                 else slow_active H A (Some u) next st))))"

partial_function (option) slow_tw :: "host \<Rightarrow> nat option \<Rightarrow> nat option \<Rightarrow> lan \<Rightarrow> lan option" where
  "slow_tw H prev po st =
     (case po of
        None \<Rightarrow> Some st
      | Some u \<Rightarrow>
          if t_state (tcp_at st u) \<noteq> TIME_WAIT then None
          else if MSL2_TICKS < tcp_ticks (tv st) - t_tmr (tcp_at st u) then
            Option.bind (tcp_pcb_purge H u st) (\<lambda>st.
              (let next = t_next (tcp_at st u) in
               if (case prev of None \<Rightarrow> tcp_tw_pcbs (tv st) \<noteq> Some u | Some b \<Rightarrow> tcp_tw_pcbs (tv st) = Some u) then None
               else Option.bind
                 (put_elem MEMP_TCP_PCB u
                   (case prev of None \<Rightarrow> set_head Time_wait next st | Some b \<Rightarrow> set_tcp b (\<lambda>t. t\<lparr>t_next := next\<rparr>) st))
                 (slow_tw H prev next)))
          else slow_tw H (Some u) (t_next (tcp_at st u)) st)"

definition tcp_slowtmr :: "host \<Rightarrow> tcp_app \<Rightarrow> lan \<Rightarrow> lan option" where
  "tcp_slowtmr H A st = do {
     let st = set_tv (\<lambda>v. v\<lparr>tcp_ticks := tcp_ticks v + 1, tcp_timer_ctr := tcp_timer_ctr v + 1\<rparr>) st;
     st \<leftarrow> slow_active H A None (tcp_active_pcbs (tv st)) st;
     slow_tw H None (tcp_tw_pcbs (tv st)) st
   }"

section \<open>The fast timer\<close>

definition tcp_process_refused_data :: "host \<Rightarrow> tcp_app \<Rightarrow> nat \<Rightarrow> lan \<Rightarrow> (err_t \<times> lan) option" where
  "tcp_process_refused_data H A pcb st = do {
     refused_data \<leftarrow> t_refused_data (tcp_at st pcb);
     let refused_flags = pflags (buf st refused_data);
     (err, st) \<leftarrow> event_recv H A pcb (Some refused_data) ERR_OK (set_tcp pcb (\<lambda>t. t\<lparr>t_refused_data := None\<rparr>) st);
     (if err = ERR_OK then
        if refused_flags AND PBUF_FLAG_TCP_FIN \<noteq> 0 then do {
          (err, st) \<leftarrow> event_closed H A pcb
            (set_tcp pcb (\<lambda>t. t\<lparr>t_rcv_wnd := (if t_rcv_wnd t \<noteq> TCP_WND then trunc16 (t_rcv_wnd t + 1) else t_rcv_wnd t)\<rparr>) st);
          Some (if err = ERR_ABRT then ERR_ABRT else ERR_OK, st)
        }
        else Some (ERR_OK, st)
      else if err = ERR_ABRT then Some (ERR_ABRT, st)
      else Some (ERR_OK, set_tcp pcb (\<lambda>t. t\<lparr>t_refused_data := Some refused_data\<rparr>) st))
   }"

definition fast_ack :: "host \<Rightarrow> nat \<Rightarrow> lan \<Rightarrow> lan option" where
  "fast_ack H pcb st =
     (if t_flags (tcp_at st pcb) AND TF_ACK_DELAY \<noteq> 0
      then map_option (\<lambda>(_, st). clear_flags pcb (TF_ACK_DELAY OR TF_ACK_NOW) st) (tcp_output H pcb (set_flags pcb TF_ACK_NOW st))
      else Some st)"

text \<open>The step to the next block is inside the condition: a block that was processed already is looked at forever.\<close>

partial_function (option) fast_loop :: "host \<Rightarrow> tcp_app \<Rightarrow> nat option \<Rightarrow> lan \<Rightarrow> lan option" where
  "fast_loop H A po st =
     (case po of
        None \<Rightarrow> Some st
      | Some u \<Rightarrow>
          if t_last_timer (tcp_at st u) \<noteq> tcp_timer_ctr (tv st) then
            Option.bind (fast_ack H u (set_tcp u (\<lambda>t. t\<lparr>t_last_timer := tcp_timer_ctr (tv st)\<rparr>) st)) (\<lambda>st.
              (let next = t_next (tcp_at st u) in
               if t_refused_data (tcp_at st u) \<noteq> None then
                 Option.bind (tcp_process_refused_data H A u (set_changed False st)) (\<lambda>(_, st).
                   if tcp_active_pcbs_changed (tv st) then fast_loop H A (tcp_active_pcbs (tv st)) st
                   else fast_loop H A next st)
               else fast_loop H A next st))
          else fast_loop H A (Some u) st)"

definition tcp_fasttmr :: "host \<Rightarrow> tcp_app \<Rightarrow> lan \<Rightarrow> lan option" where
  "tcp_fasttmr H A st =
     (let st = set_tv (\<lambda>v. v\<lparr>tcp_timer_ctr := tcp_timer_ctr v + 1\<rparr>) st in fast_loop H A (tcp_active_pcbs (tv st)) st)"

definition tcp_tmr :: "host \<Rightarrow> tcp_app \<Rightarrow> lan \<Rightarrow> lan option" where
  "tcp_tmr H A st = do {
     st \<leftarrow> tcp_fasttmr H A st;
     let st = set_tv (\<lambda>v. v\<lparr>tcp_tmr_count := tcp_tmr_count v + 1\<rparr>) st;
     (if tcp_tmr_count (tv st) AND 1 \<noteq> 0 then tcp_slowtmr H A st else Some st)
   }"

end
