(* ===== verification/TcpIn.thy ===== *)
theory TcpIn
  imports TcpTmr
begin

text \<open>
  Reception, \<open>lwip/src/core/tcp_in.c\<close>, as configured: segments out of order are dropped. \<open>tcp_input\<close> turns the
  header into host byte order in place, and the code below reads it from there.
\<close>

unbundle bit_operations_syntax

section \<open>The segment\<close>

definition in_field :: "nat \<Rightarrow> lan \<Rightarrow> nat option" where
  "in_field i st = map_option (\<lambda>h. host16_at h 0) (fetch (in_tcphdr (tv st)) i 2 st)"

definition in_src :: "lan \<Rightarrow> nat option" where "in_src st = in_field 0 st"

definition in_dest :: "lan \<Rightarrow> nat option" where "in_dest st = in_field 2 st"

definition in_wnd :: "lan \<Rightarrow> nat option" where "in_wnd st = in_field 14 st"

definition set_inseg :: "(tcp_seg \<Rightarrow> tcp_seg) \<Rightarrow> lan \<Rightarrow> lan" where
  "set_inseg f st = set_tv (\<lambda>v. v\<lparr>inseg := f (inseg v)\<rparr>) st"

text \<open>A reset in answer to the segment.\<close>

definition reset_segment :: "host \<Rightarrow> lan \<Rightarrow> lan option" where
  "reset_segment H st = do {
     dest \<leftarrow> in_dest st;
     src \<leftarrow> in_src st;
     tcp_rst H (in_ackno (tv st)) (in_seqno (tv st) + word_of_nat (in_tcplen (tv st))) (current_iphdr_dest (ipst st))
       (current_iphdr_src (ipst st)) dest src st
   }"

text \<open>\<open>tcp_ack\<close> of \<open>tcp_impl.h\<close>: every second segment is acknowledged at once.\<close>

definition tcp_ack :: "nat \<Rightarrow> lan \<Rightarrow> lan" where
  "tcp_ack pcb st =
     set_tcp pcb (\<lambda>t. if t_flags t AND TF_ACK_DELAY \<noteq> 0 then t\<lparr>t_flags := t_flags t AND NOT TF_ACK_DELAY OR TF_ACK_NOW\<rparr>
                      else t\<lparr>t_flags := t_flags t OR TF_ACK_DELAY\<rparr>) st"

section \<open>Options\<close>

partial_function (option) opt_loop :: "nat \<Rightarrow> nat \<Rightarrow> nat \<Rightarrow> lan \<Rightarrow> lan option" where
  "opt_loop pcb c max_c st =
     (if c < max_c then
        Option.bind (fetch (in_tcphdr (tv st)) (TCP_HLEN + c) 4 st) (\<lambda>opts.
          if opts ! 0 = 0 then Some st
          else if opts ! 0 = 1 then opt_loop pcb (c + 1) max_c st
          else if opts ! 0 = 2 then
            if opts ! 1 \<noteq> 4 \<or> max_c < c + 4 then Some st
            else
              (let m = unat (opts ! 2) * 256 + unat (opts ! 3) in
               opt_loop pcb (c + 4) max_c
                 (set_tcp pcb (\<lambda>t. t\<lparr>t_mss := (if TCP_MSS < m \<or> m = 0 then TCP_MSS else m)\<rparr>) st))
          else if opts ! 1 = 0 then Some st
          else opt_loop pcb (trunc16 (c + unat (opts ! 1))) max_c st)
      else Some st)"

definition tcp_parseopt :: "nat \<Rightarrow> lan \<Rightarrow> lan option" where
  "tcp_parseopt pcb st = do {
     n \<leftarrow> TCPH_HDRLEN (in_tcphdr (tv st)) st;
     (if 5 < n then opt_loop pcb 0 ((n - 5) * 4) st else Some st)
   }"

section \<open>Acknowledgements\<close>

definition update_window :: "nat \<Rightarrow> nat \<Rightarrow> lan \<Rightarrow> lan" where
  "update_window pcb wnd st =
     (let seqno = in_seqno (tv st); ackno = in_ackno (tv st) in
      set_tcp pcb (\<lambda>t.
        if TCP_SEQ_LT (t_snd_wl1 t) seqno \<or> t_snd_wl1 t = seqno \<and> TCP_SEQ_LT (t_snd_wl2 t) ackno \<or>
           t_snd_wl2 t = ackno \<and> t_snd_wnd t < wnd
        then t\<lparr>t_snd_wnd := wnd, t_snd_wnd_max := max (t_snd_wnd_max t) wnd, t_snd_wl1 := seqno, t_snd_wl2 := ackno,
               t_persist_cnt := (if wnd = 0 \<and> t_persist_backoff t = 0 then 0 else t_persist_cnt t),
               t_persist_backoff := (if wnd = 0 then if t_persist_backoff t = 0 then 1 else t_persist_backoff t else 0)\<rparr>
        else t) st)"

definition inflate :: "tcp_pcb \<Rightarrow> tcp_pcb" where
  "inflate t = (if t_cwnd t < trunc16 (t_cwnd t + t_mss t) then t\<lparr>t_cwnd := trunc16 (t_cwnd t + t_mss t)\<rparr> else t)"

text \<open>An acknowledgement of nothing new. \<open>edge\<close> is the right edge of the window before the update.\<close>

definition receive_dupack :: "nat \<Rightarrow> u32 \<Rightarrow> lan \<Rightarrow> lan option" where
  "receive_dupack pcb edge st =
     (let st = set_tcp pcb (\<lambda>t. t\<lparr>t_acked := 0\<rparr>) st;
          t = tcp_at st pcb in
      if in_tcplen (tv st) = 0 \<and> t_snd_wl2 t + word_of_nat (t_snd_wnd t) = edge \<and> t_rtime t \<ge> 0 \<and> t_lastack t = in_ackno (tv st) then
        (let st = set_tcp pcb (\<lambda>t. t\<lparr>t_dupacks := (if t_dupacks t < (t_dupacks t + 1) mod 256 then t_dupacks t + 1 else t_dupacks t)\<rparr>) st in
         if 3 < t_dupacks (tcp_at st pcb) then Some (set_tcp pcb inflate st)
         else if t_dupacks (tcp_at st pcb) = 3 then tcp_rexmit_fast pcb st else Some st)
      else Some (set_tcp pcb (\<lambda>t. t\<lparr>t_dupacks := 0\<rparr>) st))"

text \<open>Slow start or congestion avoidance; the second divides by the congestion window.\<close>

definition grow_cwnd :: "tcp_pcb \<Rightarrow> tcp_pcb option" where
  "grow_cwnd t =
     (if t_state t < ESTABLISHED then Some t
      else if t_cwnd t < t_ssthresh t then Some (inflate t)
      else if t_cwnd t = 0 then None
      else
        let new_cwnd = trunc16 (t_cwnd t + t_mss t * t_mss t div t_cwnd t) in
        Some (if t_cwnd t < new_cwnd then t\<lparr>t_cwnd := new_cwnd\<rparr> else t))"

text \<open>The acknowledgement leaves the first segment of a queue: it is released.\<close>

definition drop_seg :: "host \<Rightarrow> nat \<Rightarrow> nat \<Rightarrow> lan \<Rightarrow> lan option" where
  "drop_seg H pcb s st = do {
     c \<leftarrow> pbuf_clen (s_p (seg_at st s)) (lnet st);
     lwip_assert (c \<le> t_snd_queuelen (tcp_at st pcb));
     f \<leftarrow> TCPH_FLAGS (s_tcphdr (seg_at st s)) st;
     let st = set_tcp pcb (\<lambda>t. t\<lparr>t_acked := (if t_acked t \<noteq> 0 \<and> f AND TCP_FIN \<noteq> 0 then t_acked t - 1 else t_acked t),
                t_snd_queuelen := t_snd_queuelen t - c\<rparr>) st;
     st \<leftarrow> tcp_seg_free H s st;
     lwip_assert (t_snd_queuelen (tcp_at st pcb) = 0 \<or> t_unacked (tcp_at st pcb) \<noteq> None \<or> t_unsent (tcp_at st pcb) \<noteq> None);
     Some st
   }"

partial_function (option) ack_unacked :: "host \<Rightarrow> nat \<Rightarrow> lan \<Rightarrow> lan option" where
  "ack_unacked H pcb st =
     (case t_unacked (tcp_at st pcb) of
        None \<Rightarrow> Some st
      | Some s \<Rightarrow>
          Option.bind (hdr_seqno (s_tcphdr (seg_at st s)) st) (\<lambda>q.
          Option.bind (TCP_TCPLEN (seg_at st s) st) (\<lambda>n.
            if TCP_SEQ_LEQ (q + word_of_nat n) (in_ackno (tv st)) then
              Option.bind (drop_seg H pcb s (set_tcp pcb (\<lambda>t. t\<lparr>t_unacked := s_next (seg_at st s)\<rparr>) st)) (ack_unacked H pcb)
            else Some st)))"

partial_function (option) ack_unsent :: "host \<Rightarrow> nat \<Rightarrow> lan \<Rightarrow> lan option" where
  "ack_unsent H pcb st =
     (case t_unsent (tcp_at st pcb) of
        None \<Rightarrow> Some st
      | Some s \<Rightarrow>
          Option.bind (hdr_seqno (s_tcphdr (seg_at st s)) st) (\<lambda>q.
          Option.bind (TCP_TCPLEN (seg_at st s) st) (\<lambda>n.
            if TCP_SEQ_BETWEEN (in_ackno (tv st)) (q + word_of_nat n) (t_snd_nxt (tcp_at st pcb)) then
              Option.bind
                (drop_seg H pcb s (set_tcp pcb (\<lambda>t. t\<lparr>t_unsent := s_next (seg_at st s),
                   t_unsent_oversize := (if s_next (seg_at st s) = None then 0 else t_unsent_oversize t)\<rparr>) st))
                (ack_unsent H pcb)
            else Some st)))"

text \<open>An acknowledgement of new data.\<close>

definition receive_newack :: "host \<Rightarrow> nat \<Rightarrow> lan \<Rightarrow> lan option" where
  "receive_newack H pcb st = do {
     let ackno = in_ackno (tv st);
     let st = set_tcp pcb (\<lambda>t. if t_flags t AND TF_INFR \<noteq> 0
                then t\<lparr>t_flags := t_flags t AND NOT TF_INFR, t_cwnd := t_ssthresh t\<rparr> else t) st;
     let st = set_tcp pcb (\<lambda>t. t\<lparr>t_nrtx := 0, t_rto := s16 (t_sa t div 8 + t_sv t),
                t_acked := trunc16 (unat (ackno - t_lastack t)),
                t_snd_buf := trunc16 (t_snd_buf t + trunc16 (unat (ackno - t_lastack t))),
                t_dupacks := 0, t_lastack := ackno\<rparr>) st;
     t \<leftarrow> grow_cwnd (tcp_at st pcb);
     st \<leftarrow> ack_unacked H pcb (set_tcp pcb (\<lambda>_. t) st);
     Some (set_tcp pcb (\<lambda>t. t\<lparr>t_rtime := (if t_unacked t = None then -1 else 0), t_polltmr := 0\<rparr>) st)
   }"

text \<open>The round trip time estimate of Van Jacobson, in 16-bit arithmetic.\<close>

definition estimate_rtt :: "u32 \<Rightarrow> tcp_pcb \<Rightarrow> tcp_pcb" where
  "estimate_rtt ticks t =
     (let m = s16 (uint (ticks - t_rttest t));
          m = s16 (m - t_sa t div 8);
          sa = s16 (t_sa t + m);
          m = (if m < 0 then s16 (- m) else m);
          m = s16 (m - t_sv t div 4);
          sv = s16 (t_sv t + m)
      in t\<lparr>t_sa := sa, t_sv := sv, t_rto := s16 (sa div 8 + sv), t_rttest := 0\<rparr>)"

definition receive_ack :: "host \<Rightarrow> nat \<Rightarrow> lan \<Rightarrow> lan option" where
  "receive_ack H pcb st = do {
     let edge = word_of_nat (t_snd_wnd (tcp_at st pcb)) + t_snd_wl2 (tcp_at st pcb);
     let ackno = in_ackno (tv st);
     wnd \<leftarrow> in_wnd st;
     let st = update_window pcb wnd st;
     let t = tcp_at st pcb;
     st \<leftarrow> (if TCP_SEQ_LEQ ackno (t_lastack t) then receive_dupack pcb edge st
            else if TCP_SEQ_BETWEEN ackno (t_lastack t + 1) (t_snd_nxt t) then receive_newack H pcb st
            else Some (set_tcp pcb (\<lambda>t. t\<lparr>t_acked := 0\<rparr>) st));
     st \<leftarrow> ack_unsent H pcb st;
     Some (set_tcp pcb (\<lambda>t. if t_rttest t \<noteq> 0 \<and> TCP_SEQ_LT (t_rtseq t) ackno
             then estimate_rtt (tcp_ticks (tv st)) t else t) st)
   }"

section \<open>Data\<close>

text \<open>The loop over the buffers that lie before the data that is new.\<close>

partial_function (option) trim_loop :: "nat \<Rightarrow> loc \<Rightarrow> int \<Rightarrow> lan \<Rightarrow> (loc \<times> int \<times> lan) option" where
  "trim_loop new_tot_len p off st =
     (if int (plen (buf st p)) < off then
        (case pnext (buf st p) of
           None \<Rightarrow> None
         | Some q \<Rightarrow>
             trim_loop new_tot_len q (off - int (plen (buf st p)))
               (with_net (set_pb p (\<lambda>b. b\<lparr>tot_len := new_tot_len, plen := 0\<rparr>) (lnet st)) st))
      else Some (p, off, st))"

definition trim_front :: "nat \<Rightarrow> lan \<Rightarrow> lan option" where
  "trim_front pcb st = do {
     let off = sint (t_rcv_nxt (tcp_at st pcb) - in_seqno (tv st));
     p \<leftarrow> s_p (inseg (tv st));
     lwip_assert (off < 0x7fff);
     (q, off', st) \<leftarrow> (if int (plen (buf st p)) < off then do {
         lwip_assert (off \<le> int (tot_len (buf st p)));
         trim_loop (nat ((int (tot_len (buf st p)) - off) mod 65536)) p off st
       }
       else Some (p, off, st));
     (fail, n) \<leftarrow> pbuf_header q (- off') (lnet st);
     lwip_assert (fail = 0);
     let st = with_net n st;
     let rcv_nxt = t_rcv_nxt (tcp_at st pcb);
     let st = set_inseg (\<lambda>s. s\<lparr>s_len := sub16 (s_len s) (trunc16 (unat (rcv_nxt - in_seqno (tv st))))\<rparr>) st;
     st \<leftarrow> store (s_tcphdr (inseg (tv st))) [(4, ip_bytes rcv_nxt)] st;
     Some (set_tv (\<lambda>v. v\<lparr>in_seqno := rcv_nxt\<rparr>) st)
   }"

definition set_tcplen :: "lan \<Rightarrow> lan option" where
  "set_tcplen st = do { n \<leftarrow> TCP_TCPLEN (inseg (tv st)) st; Some (set_tv (\<lambda>v. v\<lparr>in_tcplen := trunc16 n\<rparr>) st) }"

text \<open>The end of the segment is behind the window.\<close>

definition trim_end :: "host \<Rightarrow> nat \<Rightarrow> lan \<Rightarrow> lan option" where
  "trim_end H pcb st = do {
     let d = s_tcphdr (inseg (tv st));
     f \<leftarrow> TCPH_FLAGS d st;
     st \<leftarrow> (if f AND TCP_FIN \<noteq> 0 then TCPH_FLAGS_SET d (f AND NOT TCP_FIN) st else Some st);
     f \<leftarrow> TCPH_FLAGS d st;
     let wnd = t_rcv_wnd (tcp_at st pcb);
     let st = set_inseg (\<lambda>s. s\<lparr>s_len := (if f AND TCP_SYN \<noteq> 0 then sub16 wnd 1 else wnd)\<rparr>) st;
     p \<leftarrow> s_p (inseg (tv st));
     n \<leftarrow> pbuf_realloc (custom_free (hport H)) p (s_len (inseg (tv st))) (lnet st);
     st \<leftarrow> set_tcplen (with_net n st);
     lwip_assert (in_seqno (tv st) + word_of_nat (in_tcplen (tv st)) = t_rcv_nxt (tcp_at st pcb) + word_of_nat wnd);
     Some st
   }"

text \<open>The segment is the next one.\<close>

definition receive_next :: "host \<Rightarrow> nat \<Rightarrow> lan \<Rightarrow> lan option" where
  "receive_next H pcb st = do {
     st \<leftarrow> set_tcplen st;
     st \<leftarrow> (if t_rcv_wnd (tcp_at st pcb) < in_tcplen (tv st) then trim_end H pcb st else Some st);
     let st = set_tcp pcb (\<lambda>t. t\<lparr>t_rcv_nxt := in_seqno (tv st) + word_of_nat (in_tcplen (tv st))\<rparr>) st;
     lwip_assert (in_tcplen (tv st) \<le> t_rcv_wnd (tcp_at st pcb));
     let st = set_tcp pcb (\<lambda>t. t\<lparr>t_rcv_wnd := t_rcv_wnd t - in_tcplen (tv st)\<rparr>) st;
     (_, st) \<leftarrow> tcp_update_rcv_ann_wnd pcb st;
     p \<leftarrow> s_p (inseg (tv st));
     let st = (if 0 < tot_len (buf st p)
               then set_inseg (\<lambda>s. s\<lparr>s_p := None\<rparr>) (set_tv (\<lambda>v. v\<lparr>recv_data := Some p\<rparr>) st) else st);
     f \<leftarrow> TCPH_FLAGS (s_tcphdr (inseg (tv st))) st;
     let st = (if f AND TCP_FIN \<noteq> 0 then set_tv (\<lambda>v. v\<lparr>recv_flags := recv_flags v OR TF_GOT_FIN\<rparr>) st else st);
     Some (tcp_ack pcb st)
   }"

definition receive_data :: "host \<Rightarrow> nat \<Rightarrow> lan \<Rightarrow> lan option" where
  "receive_data H pcb st = do {
     let t = tcp_at st pcb;
     let seqno = in_seqno (tv st);
     st \<leftarrow> (if TCP_SEQ_BETWEEN (t_rcv_nxt t) (seqno + 1) (seqno + word_of_nat (in_tcplen (tv st)) - 1) then trim_front pcb st
            else if TCP_SEQ_LT seqno (t_rcv_nxt t) then Some (set_flags pcb TF_ACK_NOW st)
            else Some st);
     let t = tcp_at st pcb;
     let seqno = in_seqno (tv st);
     (if TCP_SEQ_BETWEEN seqno (t_rcv_nxt t) (t_rcv_nxt t + word_of_nat (t_rcv_wnd t) - 1) \<and> t_rcv_nxt t = seqno
      then receive_next H pcb st
      else map_option snd (tcp_send_empty_ack H pcb st))
   }"

definition tcp_receive :: "host \<Rightarrow> nat \<Rightarrow> lan \<Rightarrow> lan option" where
  "tcp_receive H pcb st = do {
     lwip_assert (ESTABLISHED \<le> t_state (tcp_at st pcb));
     st \<leftarrow> (if in_flags (tv st) AND TCP_ACK \<noteq> 0 then receive_ack H pcb st else Some st);
     let t = tcp_at st pcb;
     (if 0 < in_tcplen (tv st) \<and> t_state t < CLOSE_WAIT then receive_data H pcb st
      else if \<not> TCP_SEQ_BETWEEN (in_seqno (tv st)) (t_rcv_nxt t) (t_rcv_nxt t + word_of_nat (t_rcv_wnd t) - 1)
      then Some (set_flags pcb TF_ACK_NOW st)
      else Some st)
   }"

section \<open>The state machine\<close>

definition set_state :: "nat \<Rightarrow> tcp_state \<Rightarrow> lan \<Rightarrow> lan" where
  "set_state pcb s st = set_tcp pcb (\<lambda>t. t\<lparr>t_state := s\<rparr>) st"

definition to_time_wait :: "host \<Rightarrow> nat \<Rightarrow> lan \<Rightarrow> lan option" where
  "to_time_wait H pcb st = do {
     st \<leftarrow> tcp_pcb_purge H pcb st;
     st \<leftarrow> TCP_RMV_ACTIVE pcb st;
     TCP_REG Time_wait pcb (set_state pcb TIME_WAIT st)
   }"

text \<open>\<open>SYN_SENT\<close>.\<close>

definition process_syn_sent :: "host \<Rightarrow> tcp_app \<Rightarrow> nat \<Rightarrow> lan \<Rightarrow> (err_t \<times> lan) option" where
  "process_syn_sent H A pcb st = do {
     let f = in_flags (tv st);
     let seqno = in_seqno (tv st);
     let ackno = in_ackno (tv st);
     good \<leftarrow> (if f AND TCP_ACK \<noteq> 0 \<and> f AND TCP_SYN \<noteq> 0 then do {
                s \<leftarrow> t_unacked (tcp_at st pcb);
                q \<leftarrow> hdr_seqno (s_tcphdr (seg_at st s)) st;
                Some (ackno = q + 1)
              }
              else Some False);
     (if good then do {
        wnd \<leftarrow> in_wnd st;
        rseg \<leftarrow> t_unacked (tcp_at st pcb);
        let mss' = tcp_eff_send_mss H (t_mss (tcp_at st pcb)) (t_remote_ip (tcp_at st pcb));
        lwip_assert (0 < t_snd_queuelen (tcp_at st pcb));
        let st = set_tcp pcb (\<lambda>t. t\<lparr>t_snd_buf := trunc16 (t_snd_buf t + 1), t_rcv_nxt := seqno + 1,
                   t_rcv_ann_right_edge := seqno + 1, t_lastack := ackno, t_snd_wnd := wnd, t_snd_wnd_max := wnd,
                   t_snd_wl1 := seqno - 1, t_state := ESTABLISHED, t_mss := mss', t_ssthresh := trunc16 (mss' * 10),
                   t_cwnd := (if t_cwnd t = 1 then trunc16 (mss' * 2) else mss'), t_snd_queuelen := t_snd_queuelen t - 1,
                   t_unacked := s_next (seg_at st rseg)\<rparr>) st;
        st \<leftarrow> tcp_seg_free H rseg st;
        let st = set_tcp pcb (\<lambda>t. if t_unacked t = None then t\<lparr>t_rtime := -1\<rparr> else t\<lparr>t_rtime := 0, t_nrtx := 0\<rparr>) st;
        (err, st) \<leftarrow> event_connected A pcb ERR_OK st;
        Some (if err = ERR_ABRT then (ERR_ABRT, st) else (ERR_OK, set_flags pcb TF_ACK_NOW st))
      }
      else if f AND TCP_ACK \<noteq> 0 then map_option (\<lambda>st. (ERR_OK, st)) (reset_segment H st)
      else Some (ERR_OK, st))
   }"

text \<open>\<open>SYN_RCVD\<close>.\<close>

definition process_syn_rcvd :: "host \<Rightarrow> tcp_app \<Rightarrow> nat \<Rightarrow> lan \<Rightarrow> (err_t \<times> lan) option" where
  "process_syn_rcvd H A pcb st =
     (let f = in_flags (tv st); t = tcp_at st pcb in
      if f AND TCP_ACK \<noteq> 0 then
        if TCP_SEQ_BETWEEN (in_ackno (tv st)) (t_lastack t + 1) (t_snd_nxt t) then do {
          lwip_assert (t_accept t \<noteq> None);
          (err, st) \<leftarrow> event_accept A pcb ERR_OK (set_state pcb ESTABLISHED st);
          (if err \<noteq> ERR_OK then
             map_option (\<lambda>st. (ERR_ABRT, st)) (if err \<noteq> ERR_ABRT then tcp_abort H A pcb st else Some st)
           else do {
             let old_cwnd = t_cwnd (tcp_at st pcb);
             st \<leftarrow> tcp_receive H pcb st;
             let st = set_tcp pcb (\<lambda>t. t\<lparr>t_acked := t_acked t - 1,
                        t_cwnd := (if old_cwnd = 1 then trunc16 (t_mss t * 2) else t_mss t)\<rparr>) st;
             Some (ERR_OK, if recv_flags (tv st) AND TF_GOT_FIN \<noteq> 0
                           then set_state pcb CLOSE_WAIT (set_flags pcb TF_ACK_NOW st) else st)
           })
        }
        else map_option (\<lambda>st. (ERR_OK, st)) (reset_segment H st)
      else if f AND TCP_SYN \<noteq> 0 \<and> in_seqno (tv st) = t_rcv_nxt t - 1
      then map_option (\<lambda>st. (ERR_OK, st)) (tcp_rexmit pcb st)
      else Some (ERR_OK, st))"

text \<open>The states after the handshake: data first, then the FIN and the acknowledgement of our own FIN.\<close>

definition process_open :: "host \<Rightarrow> nat \<Rightarrow> lan \<Rightarrow> lan option" where
  "process_open H pcb st = do {
     let s = t_state (tcp_at st pcb);
     st \<leftarrow> tcp_receive H pcb st;
     let fin = (recv_flags (tv st) AND TF_GOT_FIN \<noteq> 0);
     let acked = (in_flags (tv st) AND TCP_ACK \<noteq> 0 \<and> in_ackno (tv st) = t_snd_nxt (tcp_at st pcb));
     (case s of
        FIN_WAIT_1 \<Rightarrow>
          if fin then
            let st = set_flags pcb TF_ACK_NOW st in
            if acked then to_time_wait H pcb st else Some (set_state pcb CLOSING st)
          else Some (if acked then set_state pcb FIN_WAIT_2 st else st)
      | FIN_WAIT_2 \<Rightarrow> if fin then to_time_wait H pcb (set_flags pcb TF_ACK_NOW st) else Some st
      | CLOSING \<Rightarrow> if acked then to_time_wait H pcb st else Some st
      | LAST_ACK \<Rightarrow> Some (if acked then set_tv (\<lambda>v. v\<lparr>recv_flags := recv_flags v OR TF_CLOSED\<rparr>) st else st)
      | _ \<Rightarrow> Some (if fin then set_state pcb CLOSE_WAIT (set_flags pcb TF_ACK_NOW st) else st))
   }"

text \<open>A reset is taken when it is in the window, in \<open>SYN_SENT\<close> when it acknowledges the SYN.\<close>

definition process_rst :: "nat \<Rightarrow> lan \<Rightarrow> (err_t \<times> lan) option" where
  "process_rst pcb st =
     (let t = tcp_at st pcb in
      if (if t_state t = SYN_SENT then in_ackno (tv st) = t_snd_nxt t
          else TCP_SEQ_BETWEEN (in_seqno (tv st)) (t_rcv_nxt t) (t_rcv_nxt t + word_of_nat (t_rcv_wnd t)))
      then do {
        lwip_assert (t_state t \<noteq> CLOSED);
        Some (ERR_RST, clear_flags pcb TF_ACK_DELAY (set_tv (\<lambda>v. v\<lparr>recv_flags := recv_flags v OR TF_RESET\<rparr>) st))
      }
      else Some (ERR_OK, st))"

definition tcp_process :: "host \<Rightarrow> tcp_app \<Rightarrow> nat \<Rightarrow> lan \<Rightarrow> (err_t \<times> lan) option" where
  "tcp_process H A pcb st =
     (let f = in_flags (tv st); s = t_state (tcp_at st pcb) in
      if f AND TCP_RST \<noteq> 0 then process_rst pcb st
      else if f AND TCP_SYN \<noteq> 0 \<and> s \<noteq> SYN_SENT \<and> s \<noteq> SYN_RCVD then Some (ERR_OK, set_flags pcb TF_ACK_NOW st)
      else do {
        let st = set_tcp pcb (\<lambda>t. t\<lparr>t_tmr := (if t_flags t AND TF_RXCLOSED = 0 then tcp_ticks (tv st) else t_tmr t),
                   t_keep_cnt_sent := 0\<rparr>) st;
        st \<leftarrow> tcp_parseopt pcb st;
        (if s = SYN_SENT then process_syn_sent H A pcb st
         else if s = SYN_RCVD then process_syn_rcvd H A pcb st
         else if s \<in> {ESTABLISHED, CLOSE_WAIT, FIN_WAIT_1, FIN_WAIT_2, CLOSING, LAST_ACK}
         then map_option (\<lambda>st. (ERR_OK, st)) (process_open H pcb st)
         else Some (ERR_OK, st))
      })"

section \<open>Other blocks\<close>

text \<open>The new control block of a connection that a SYN asks for.\<close>

definition accept_syn :: "host \<Rightarrow> tcp_app \<Rightarrow> nat \<Rightarrow> nat \<Rightarrow> lan \<Rightarrow> (err_t \<times> lan) option" where
  "accept_syn H A pcb npcb st = do {
     src \<leftarrow> in_src st;
     wnd \<leftarrow> in_wnd st;
     let l = tcp_at st pcb;
     let seqno = in_seqno (tv st);
     let st = set_tcp npcb (\<lambda>t. t\<lparr>t_local_ip := current_iphdr_dest (ipst st), t_local_port := t_local_port l,
                t_remote_ip := current_iphdr_src (ipst st), t_remote_port := src, t_state := SYN_RCVD,
                t_rcv_nxt := seqno + 1, t_rcv_ann_right_edge := seqno + 1, t_snd_wnd := wnd, t_snd_wnd_max := wnd,
                t_ssthresh := wnd, t_snd_wl1 := seqno - 1, t_arg := t_arg l, t_accept := t_accept l,
                t_so_options := t_so_options l AND SOF_INHERITED\<rparr>) st;
     st \<leftarrow> TCP_REG_ACTIVE npcb st;
     st \<leftarrow> tcp_parseopt npcb st;
     let st = set_tcp npcb (\<lambda>t. t\<lparr>t_mss := tcp_eff_send_mss H (t_mss t) (t_remote_ip t)\<rparr>) st;
     (rc, st) \<leftarrow> tcp_enqueue_flags H npcb (TCP_SYN OR TCP_ACK) st;
     (if rc \<noteq> ERR_OK then map_option (\<lambda>st. (rc, st)) (tcp_abandon H A npcb False st)
      else tcp_output H npcb st)
   }"

definition tcp_listen_input :: "host \<Rightarrow> tcp_app \<Rightarrow> nat \<Rightarrow> lan \<Rightarrow> (err_t \<times> lan) option" where
  "tcp_listen_input H A pcb st =
     (let f = in_flags (tv st) in
      if f AND TCP_RST \<noteq> 0 then Some (ERR_OK, st)
      else if f AND TCP_ACK \<noteq> 0 then map_option (\<lambda>st. (ERR_OK, st)) (reset_segment H st)
      else if f AND TCP_SYN \<noteq> 0 then do {
        (npcb, st) \<leftarrow> tcp_alloc H A (t_prio (tcp_at st pcb)) st;
        (case npcb of
           None \<Rightarrow> Some (ERR_MEM, st)
         | Some npcb \<Rightarrow> accept_syn H A pcb npcb st)
      }
      else Some (ERR_OK, st))"

definition tcp_timewait_input :: "host \<Rightarrow> nat \<Rightarrow> lan \<Rightarrow> (err_t \<times> lan) option" where
  "tcp_timewait_input H pcb st =
     (let f = in_flags (tv st); t = tcp_at st pcb;
          answer = (\<lambda>st. if 0 < in_tcplen (tv st) then tcp_output H pcb (set_flags pcb TF_ACK_NOW st) else Some (ERR_OK, st)) in
      if f AND TCP_RST \<noteq> 0 then Some (ERR_OK, st)
      else if f AND TCP_SYN \<noteq> 0 then
        if TCP_SEQ_BETWEEN (in_seqno (tv st)) (t_rcv_nxt t) (t_rcv_nxt t + word_of_nat (t_rcv_wnd t))
        then map_option (\<lambda>st. (ERR_OK, st)) (reset_segment H st)
        else answer st
      else if f AND TCP_FIN \<noteq> 0 then answer (set_tcp pcb (\<lambda>t. t\<lparr>t_tmr := tcp_ticks (tv st)\<rparr>) st)
      else answer st)"

section \<open>Input\<close>

text \<open>The connection of the segment: its control block and the one before it in the list.\<close>

definition connection_of :: "nat \<Rightarrow> nat \<Rightarrow> nat \<Rightarrow> lan \<Rightarrow> bool" where
  "connection_of src dest u st =
     (let t = tcp_at st u in
      t_remote_port t = src \<and> t_local_port t = dest \<and> t_remote_ip t = current_iphdr_src (ipst st) \<and>
      t_local_ip t = current_iphdr_dest (ipst st))"

partial_function (option) find_active ::
    "nat \<Rightarrow> nat \<Rightarrow> nat option \<Rightarrow> nat option \<Rightarrow> lan \<Rightarrow> (nat \<times> nat option) option option" where
  "find_active src dest prev po st =
     (case po of
        None \<Rightarrow> Some None
      | Some u \<Rightarrow>
          if t_state (tcp_at st u) \<in> {CLOSED, TIME_WAIT, LISTEN} then None
          else if connection_of src dest u st then Some (Some (u, prev))
          else find_active src dest (Some u) (t_next (tcp_at st u)) st)"

partial_function (option) find_tw :: "nat \<Rightarrow> nat \<Rightarrow> nat option \<Rightarrow> lan \<Rightarrow> nat option option" where
  "find_tw src dest po st =
     (case po of
        None \<Rightarrow> Some None
      | Some u \<Rightarrow>
          if t_state (tcp_at st u) \<noteq> TIME_WAIT then None
          else if connection_of src dest u st then Some (Some u)
          else find_tw src dest (t_next (tcp_at st u)) st)"

partial_function (option) find_listen :: "nat \<Rightarrow> nat option \<Rightarrow> nat option \<Rightarrow> lan \<Rightarrow> (nat \<times> nat option) option option" where
  "find_listen dest prev po st =
     (case po of
        None \<Rightarrow> Some None
      | Some u \<Rightarrow>
          if t_local_port (tcp_at st u) = dest \<and>
             (t_local_ip (tcp_at st u) = current_iphdr_dest (ipst st) \<or> t_local_ip (tcp_at st u) = IPADDR_ANY)
          then Some (Some (u, prev))
          else find_listen dest (Some u) (t_next (tcp_at st u)) st)"

definition to_front :: "pcb_list \<Rightarrow> nat option \<Rightarrow> nat \<Rightarrow> lan \<Rightarrow> lan" where
  "to_front l prev u st =
     (case prev of
        None \<Rightarrow> st
      | Some b \<Rightarrow>
          (let st = set_tcp b (\<lambda>t. t\<lparr>t_next := t_next (tcp_at st u)\<rparr>) st;
               st = set_tcp u (\<lambda>t. t\<lparr>t_next := list_head l st\<rparr>) st
           in set_head l (Some u) st))"

text \<open>What the application is told after the segment was processed; an aborted connection is not touched again.\<close>

definition deliver_fin :: "host \<Rightarrow> tcp_app \<Rightarrow> nat \<Rightarrow> lan \<Rightarrow> lan option" where
  "deliver_fin H A pcb st = do {
     (err, st) \<leftarrow>
       (if recv_flags (tv st) AND TF_GOT_FIN \<noteq> 0 then
          (case t_refused_data (tcp_at st pcb) of
             Some q \<Rightarrow> Some (ERR_OK, with_net (set_pb q (\<lambda>b. b\<lparr>pflags := pflags b OR PBUF_FLAG_TCP_FIN\<rparr>) (lnet st)) st)
           | None \<Rightarrow>
               event_closed H A pcb
                 (set_tcp pcb (\<lambda>t. t\<lparr>t_rcv_wnd := (if t_rcv_wnd t \<noteq> TCP_WND then trunc16 (t_rcv_wnd t + 1) else t_rcv_wnd t)\<rparr>) st))
        else Some (ERR_OK, st));
     (if err = ERR_ABRT then Some st
      else map_option snd (tcp_output H pcb (set_tv (\<lambda>v. v\<lparr>tcp_input_pcb := None\<rparr>) st)))
   }"

definition deliver_data :: "host \<Rightarrow> tcp_app \<Rightarrow> nat \<Rightarrow> lan \<Rightarrow> lan option" where
  "deliver_data H A pcb st =
     (case recv_data (tv st) of
        None \<Rightarrow> deliver_fin H A pcb st
      | Some p \<Rightarrow> do {
          lwip_assert (t_refused_data (tcp_at st pcb) = None);
          (if t_flags (tcp_at st pcb) AND TF_RXCLOSED \<noteq> 0 then do {
             st \<leftarrow> release (hport H) p st;
             tcp_abort H A pcb st
           }
           else do {
             (err, st) \<leftarrow> event_recv H A pcb (Some p) ERR_OK st;
             (if err = ERR_ABRT then Some st
              else deliver_fin H A pcb (if err \<noteq> ERR_OK then set_tcp pcb (\<lambda>t. t\<lparr>t_refused_data := Some p\<rparr>) st else st))
           })
        })"

definition deliver :: "host \<Rightarrow> tcp_app \<Rightarrow> nat \<Rightarrow> lan \<Rightarrow> lan option" where
  "deliver H A pcb st = do {
     (err, st) \<leftarrow> (if 0 < t_acked (tcp_at st pcb) then event_sent A pcb (t_acked (tcp_at st pcb)) st else Some (ERR_OK, st));
     (if err = ERR_ABRT then Some st else deliver_data H A pcb st)
   }"

definition tcp_remove_active :: "host \<Rightarrow> nat \<Rightarrow> lan \<Rightarrow> lan option" where
  "tcp_remove_active H pcb st = do { st \<leftarrow> tcp_pcb_remove H Active pcb st; put_elem MEMP_TCP_PCB pcb st }"

definition input_process :: "host \<Rightarrow> tcp_app \<Rightarrow> nat \<Rightarrow> lan \<Rightarrow> lan option" where
  "input_process H A pcb st = do {
     (err, st) \<leftarrow> tcp_process H A pcb (set_tv (\<lambda>v. v\<lparr>tcp_input_pcb := Some pcb\<rparr>) st);
     (if err = ERR_ABRT then Some st
      else if recv_flags (tv st) AND TF_RESET \<noteq> 0 then do {
        st \<leftarrow> event_err A (t_errf (tcp_at st pcb)) (t_arg (tcp_at st pcb)) ERR_RST st;
        tcp_remove_active H pcb st
      }
      else if recv_flags (tv st) AND TF_CLOSED \<noteq> 0 then do {
        st \<leftarrow> (if t_flags (tcp_at st pcb) AND TF_RXCLOSED = 0
               then event_err A (t_errf (tcp_at st pcb)) (t_arg (tcp_at st pcb)) ERR_CLSD st else Some st);
        tcp_remove_active H pcb st
      }
      else deliver H A pcb st)
   }"

definition input_connection :: "host \<Rightarrow> tcp_app \<Rightarrow> nat \<Rightarrow> loc \<Rightarrow> lan \<Rightarrow> lan option" where
  "input_connection H A pcb p st = do {
     let st = set_inseg (\<lambda>s. s\<lparr>s_next := None, s_len := tot_len (buf st p), s_p := Some p, s_tcphdr := in_tcphdr (tv st)\<rparr>) st;
     let st = set_tv (\<lambda>v. v\<lparr>recv_data := None, recv_flags := 0\<rparr>) st;
     let st = (if in_flags (tv st) AND TCP_PSH \<noteq> 0
               then with_net (set_pb p (\<lambda>b. b\<lparr>pflags := pflags b OR PBUF_FLAG_PUSH\<rparr>) (lnet st)) st else st);
     (drop, st) \<leftarrow>
       (if t_refused_data (tcp_at st pcb) \<noteq> None then do {
          (err, st) \<leftarrow> tcp_process_refused_data H A pcb st;
          Some (err = ERR_ABRT \<or> t_refused_data (tcp_at st pcb) \<noteq> None \<and> 0 < in_tcplen (tv st), st)
        }
        else Some (False, st));
     st \<leftarrow> (if drop then Some st else input_process H A pcb st);
     let st = set_tv (\<lambda>v. v\<lparr>tcp_input_pcb := None, recv_data := None\<rparr>) st;
     (case s_p (inseg (tv st)) of
        None \<Rightarrow> Some st
      | Some q \<Rightarrow> map_option (set_inseg (\<lambda>s. s\<lparr>s_p := None\<rparr>)) (release (hport H) q st))
   }"

text \<open>The segment is for a connection, a connection in \<open>TIME_WAIT\<close>, a listening block, or nobody.\<close>

definition tcp_demux :: "host \<Rightarrow> tcp_app \<Rightarrow> loc \<Rightarrow> lan \<Rightarrow> lan option" where
  "tcp_demux H A p st = do {
     src \<leftarrow> in_src st;
     dest \<leftarrow> in_dest st;
     a \<leftarrow> find_active src dest None (tcp_active_pcbs (tv st)) st;
     (case a of
        Some (u, prev) \<Rightarrow> do {
          lwip_assert (t_next (tcp_at st u) \<noteq> Some u);
          let st = to_front Active prev u st;
          lwip_assert (t_next (tcp_at st u) \<noteq> Some u);
          input_connection H A u p st
        }
      | None \<Rightarrow> do {
          w \<leftarrow> find_tw src dest (tcp_tw_pcbs (tv st)) st;
          (case w of
             Some u \<Rightarrow> do { (_, st) \<leftarrow> tcp_timewait_input H u st; release (hport H) p st }
           | None \<Rightarrow> do {
               l \<leftarrow> find_listen dest None (tcp_listen_pcbs (tv st)) st;
               (case l of
                  Some (u, prev) \<Rightarrow> do {
                    (_, st) \<leftarrow> tcp_listen_input H A u (to_front Listening prev u st);
                    release (hport H) p st
                  }
                | None \<Rightarrow> do {
                    f \<leftarrow> TCPH_FLAGS (in_tcphdr (tv st)) st;
                    st \<leftarrow> (if f AND TCP_RST = 0 then reset_segment H st else Some st);
                    release (hport H) p st
                  })
             })
        })
   }"

definition tcp_input :: "host \<Rightarrow> tcp_app \<Rightarrow> nat \<Rightarrow> loc \<Rightarrow> lan \<Rightarrow> lan option" where
  "tcp_input H A inp p st = do {
     let iphdr = payload (buf st p);
     h \<leftarrow> fetch iphdr 0 1 st;
     let st = set_tv (\<lambda>v. v\<lparr>in_tcphdr := data_at iphdr (IPH_HL h * 4)\<rparr>) st;
     (fail, n) \<leftarrow> pbuf_header p (- int (IPH_HL h * 4)) (lnet st);
     let st = with_net n st;
     let dest = current_iphdr_dest (ipst st);
     (if fail \<noteq> 0 \<or> tot_len (buf st p) < TCP_HLEN then release (hport H) p st
      else if ip4_addr_isbroadcast dest (nif H inp) \<or> ip_addr_ismulticast dest then release (hport H) p st
      else do {
        c \<leftarrow> inet_chksum_pseudo (block_addr H) (Some p) (current_iphdr_src (ipst st)) dest IP_PROTO_TCP
               (word_of_nat (tot_len (buf st p))) (lnet st);
        (if c \<noteq> 0 then release (hport H) p st
         else do {
           let d = in_tcphdr (tv st);
           hdrlen \<leftarrow> TCPH_HDRLEN d st;
           (fail, n) \<leftarrow> pbuf_header p (- int (hdrlen * 4)) (lnet st);
           let st = with_net n st;
           (if fail \<noteq> 0 then release (hport H) p st
            else do {
              x \<leftarrow> fetch d 0 TCP_HLEN st;
              st \<leftarrow> store d [(0, mem16 (ntohs_at x 0)), (2, mem16 (ntohs_at x 2)), (4, ip_bytes (ntohl_at x 4)),
                     (8, ip_bytes (ntohl_at x 8)), (14, mem16 (ntohs_at x 14))] st;
              f \<leftarrow> TCPH_FLAGS d st;
              tcp_demux H A p
                (set_tv (\<lambda>v. v\<lparr>in_seqno := ntohl_at x 4, in_ackno := ntohl_at x 8, in_flags := f,
                           in_tcplen := trunc16 (tcplen_of (tot_len (buf st p)) f)\<rparr>) st)
            })
         })
      })
   }"

section \<open>Below and above\<close>

text \<open>The host whose IP passes its segments to TCP.\<close>

definition tcp_host :: "host \<Rightarrow> tcp_app \<Rightarrow> host" where
  "tcp_host H A = H\<lparr>tcp_handler := tcp_input H A\<rparr>"

end
