(* ===== verification/TcpKeeps.thy ===== *)
theory TcpKeeps
  imports Keeps TcpIn
begin

text \<open>
  What the operations of TCP leave alone: the locales extend \<open>above_ip\<close> by the parts of the state of TCP
  that a group of operations may change, and prove once for each operation that a view without these parts is kept.
\<close>

section \<open>Control blocks and segments\<close>

text \<open>A view that does not see the segments.\<close>

locale seg_view = above_ip V for V :: "lan \<Rightarrow> 'v" +
  assumes V_seg: "\<And>s f st. V (set_seg s f st) = V st"
begin

lemma V_with_net: "V (with_net n st) = V st"
  by (simp add: with_net_def V_net)

lemmas S_simps = V_simps V_with_net V_seg

lemma keep_put_elem: "(\<And>st'. V st' = V st \<Longrightarrow> Q st') \<Longrightarrow> post (put_elem k e st) Q"
  unfolding put_elem_def by (intro posts post_any) (simp_all add: S_simps)

lemma keep_seg_free: "(\<And>st'. V st' = V st \<Longrightarrow> Q st') \<Longrightarrow> post (tcp_seg_free H s st) Q"
  unfolding tcp_seg_free_def put_elem_def by (intro posts keep_release post_any) (simp_all add: S_simps)

lemma keep_segs_free:
  assumes "\<And>st'. V st' = V st \<Longrightarrow> Q st'"
  shows "post (tcp_segs_free H so st) Q"
proof -
  have "V y = V st" if "tcp_segs_free H so st = Some y" for y
    apply (rule tcp_segs_free.raw_induct [where P = "\<lambda>H so st y. V y = V st", OF _ that])
    subgoal premises p for self H so st y
    proof -
      have rec: "(\<And>st'. V st' = V st \<Longrightarrow> R st') \<Longrightarrow> post (self H so st) R" for H so st R
        using p(1) by (auto intro: postI)
      show ?thesis by (rule postD [OF _ p(2)]) (intro posts keep_seg_free rec; simp)
    qed
    done
  with assms show ?thesis by (auto intro: postI)
qed

lemma keep_flag: "(\<And>st'. V st' = V st \<Longrightarrow> Q st') \<Longrightarrow> post (TCPH_SET_FLAG d f st) Q"
  unfolding TCPH_SET_FLAG_def fetch_def by (rule post_bind, rule post_any, rule keep_store, simp)

lemma keep_elem: "(\<And>e st'. V st' = V st \<Longrightarrow> Q (e, st')) \<Longrightarrow> post (get_elem k st) Q"
  unfolding get_elem_def by (intro posts post_any) (simp add: S_simps split: prod.split)

lemma keep_create_segment: "(\<And>e st'. V st' = V st \<Longrightarrow> Q (e, st')) \<Longrightarrow> post (tcp_create_segment H u p f q o' st) Q"
  unfolding tcp_create_segment_def
  by (intro posts keep_elem keep_release keep_header keep_seg_free keep_store) (simp_all add: S_simps)

end

text \<open>A view that sees at most the state and \<open>snd_nxt\<close> of the control blocks, and the received segment.\<close>

locale tcp_view = seg_view V for V :: "lan \<Rightarrow> 'v" +
  assumes V_tcp: "\<And>f u st. t_state (f (tcp_at st u)) = t_state (tcp_at st u) \<Longrightarrow>
      t_snd_nxt (f (tcp_at st u)) = t_snd_nxt (tcp_at st u) \<Longrightarrow> V (set_tcp u f st) = V st"
    and V_head: "\<And>l h st. V (set_head l h st) = V st"
    and V_changed: "\<And>b st. V (set_changed b st) = V st"
    and V_timeouts: "\<And>t st. V (set_tv (\<lambda>v. v\<lparr>timeouts := t\<rparr>) st) = V st"
begin

lemma V_flags: "V (set_flags u f st) = V st" "V (clear_flags u f st) = V st"
  by (simp_all add: set_flags_def clear_flags_def V_tcp)

lemmas W_simps = S_simps V_flags V_head V_changed V_timeouts

lemma keep_insert_seg:
  assumes h: "\<And>h st. V (set_first h st) = V st" and "\<And>st'. V st' = V st \<Longrightarrow> Q st'"
  shows "post (insert_seg set_first g q prev cur st) Q"
proof -
  have *: "(\<forall>h st. V (set_first h st) = V st) \<longrightarrow> V y = V st" if "insert_seg set_first g q prev cur st = Some y" for y
    apply (rule insert_seg.raw_induct
      [where P = "\<lambda>sf g q prev cur st y. (\<forall>h st. V (sf h st) = V st) \<longrightarrow> V y = V st", OF _ that])
    subgoal premises p for self sf g q prev cur st y
    proof
      assume h: "\<forall>h st. V (sf h st) = V st"
      have rec: "(\<And>st'. V st' = V st \<Longrightarrow> R st') \<Longrightarrow> post (self sf g q prev cur st) R" for g q prev cur st R
        using p(1) h by (auto intro: postI)
      show "V y = V st"
        by (rule postD [OF _ p(2)]) (intro posts rec post_any; simp add: h W_simps Let_def split: option.split)
    qed
    done
  with h have "V y = V st" if "insert_seg set_first g q prev cur st = Some y" for y
    using that by auto
  with assms(2) show ?thesis by (auto intro: postI)
qed

lemma keep_rmv_loop:
  assumes "\<And>st'. V st' = V st \<Longrightarrow> Q st'"
  shows "post (rmv_loop u po st) Q"
proof -
  have "V y = V st" if "rmv_loop u po st = Some y" for y
    apply (rule rmv_loop.raw_induct [where P = "\<lambda>u po st y. V y = V st", OF _ that])
    subgoal premises p for self u po st y
    proof -
      have rec: "(\<And>st'. V st' = V st \<Longrightarrow> R st') \<Longrightarrow> post (self u po st) R" for u po st R
        using p(1) by (auto intro: postI)
      show ?thesis by (rule postD [OF _ p(2)]) (intro posts rec; simp add: V_tcp)
    qed
    done
  with assms show ?thesis by (auto intro: postI)
qed

lemma keep_RMV: "(\<And>st'. V st' = V st \<Longrightarrow> Q st') \<Longrightarrow> post (TCP_RMV l u st) Q"
  unfolding TCP_RMV_def by (intro posts keep_rmv_loop) (simp_all add: V_tcp W_simps)

lemma keep_start_timer: "(\<And>st'. V st' = V st \<Longrightarrow> Q st') \<Longrightarrow> post (start_timer st) Q"
  unfolding start_timer_def by (intro posts post_any) (simp add: W_simps)

lemma keep_REG: "(\<And>st'. V st' = V st \<Longrightarrow> Q st') \<Longrightarrow> post (TCP_REG l u st) Q"
  unfolding TCP_REG_def by (intro keep_start_timer) (simp add: V_tcp W_simps)

lemma keep_lists: "(\<And>st'. V st' = V st \<Longrightarrow> Q st') \<Longrightarrow> post (TCP_RMV_ACTIVE u st) Q"
  "(\<And>st'. V st' = V st \<Longrightarrow> Q st') \<Longrightarrow> post (TCP_REG_ACTIVE u st) Q"
  unfolding TCP_RMV_ACTIVE_def TCP_REG_ACTIVE_def by (intro posts keep_RMV keep_REG; simp add: W_simps)+

lemma keep_purge: "(\<And>st'. V st' = V st \<Longrightarrow> Q st') \<Longrightarrow> post (tcp_pcb_purge H u st) Q"
  unfolding tcp_pcb_purge_def by (intro posts keep_release keep_segs_free) (simp_all add: V_tcp W_simps)

section \<open>Segments without data\<close>

lemma keep_alloc_header: "(\<And>p st'. V st' = V st \<Longrightarrow> Q (p, st')) \<Longrightarrow> post (tcp_output_alloc_header H u ol dl q st) Q"
  unfolding tcp_output_alloc_header_def by (intro posts keep_alloc keep_store) (simp_all add: V_tcp W_simps)

lemma keep_seal: "(\<And>st'. V st' = V st \<Longrightarrow> Q st') \<Longrightarrow> post (seal_segment H p s d st) Q"
  unfolding seal_segment_def by (rule post_bind, rule post_any) (rule keep_store)

lemma keep_send_and_free: "(\<And>st'. V st' = V st \<Longrightarrow> Q st') \<Longrightarrow> post (send_and_free H p s d ttl tos st) Q"
  unfolding send_and_free_def by (intro posts keep_seal keep_ip_output keep_release) simp_all

lemma keep_empty_ack: "(\<And>e st'. V st' = V st \<Longrightarrow> Q (e, st')) \<Longrightarrow> post (tcp_send_empty_ack H u st) Q"
  unfolding tcp_send_empty_ack_def by (intro posts keep_alloc_header keep_send_and_free) (simp_all add: W_simps)

lemma keep_rst: "(\<And>st'. V st' = V st \<Longrightarrow> Q st') \<Longrightarrow> post (tcp_rst H q k l r lp rp st) Q"
  unfolding tcp_rst_def by (intro posts keep_alloc keep_store keep_send_and_free) (simp_all add: W_simps)

lemma keep_reset: "(\<And>st'. V st' = V st \<Longrightarrow> Q st') \<Longrightarrow> post (reset_segment H st) Q"
  unfolding reset_segment_def in_dest_def in_src_def in_field_def by (intro posts keep_rst post_any) simp_all

lemma keep_rexmit: "(\<And>st'. V st' = V st \<Longrightarrow> Q st') \<Longrightarrow> post (tcp_rexmit u st) Q"
  unfolding tcp_rexmit_def hdr_seqno_def fetch_def
  by (intro posts keep_insert_seg post_any) (simp_all add: V_tcp W_simps)

lemma keep_rexmit_fast: "(\<And>st'. V st' = V st \<Longrightarrow> Q st') \<Longrightarrow> post (tcp_rexmit_fast u st) Q"
  unfolding tcp_rexmit_fast_def by (intro posts keep_rexmit) (simp_all add: V_tcp)

lemma keep_options:
  assumes "\<And>st'. V st' = V st \<Longrightarrow> Q st'"
  shows "post (tcp_parseopt u st) Q"
proof -
  have *: "V y = V st" if "opt_loop u c m st = Some y" for c m st y
    apply (rule opt_loop.raw_induct [where P = "\<lambda>u c m st y. V y = V st", OF _ that])
    subgoal premises p for self u c m st y
    proof -
      have rec: "(\<And>st'. V st' = V st \<Longrightarrow> R st') \<Longrightarrow> post (self u c m st) R" for u c m st R
        using p(1) by (auto intro: postI)
      show ?thesis unfolding fetch_def by (rule postD [OF _ p(2) [unfolded fetch_def]]) (intro posts rec post_any; simp add: V_tcp)
    qed
    done
  have loop: "(\<And>st'. V st' = V st \<Longrightarrow> R st') \<Longrightarrow> post (opt_loop u c m st) R" for c m R using * by (auto intro: postI)
  show ?thesis unfolding tcp_parseopt_def TCPH_HDRLEN_def fetch_def
    by (intro posts loop post_any) (simp_all add: assms)
qed

end

section \<open>Reception\<close>

lemma keep_grow: "(\<And>t'. t_state t' = t_state t \<Longrightarrow> t_snd_nxt t' = t_snd_nxt t \<Longrightarrow> Q t') \<Longrightarrow> post (grow_cwnd t) Q"
  unfolding grow_cwnd_def inflate_def by (intro posts) simp_all

lemma estimate_sel: "t_state (estimate_rtt k t) = t_state t" "t_snd_nxt (estimate_rtt k t) = t_snd_nxt t"
  "t_state (inflate t) = t_state t" "t_snd_nxt (inflate t) = t_snd_nxt t"
  by (simp_all add: estimate_rtt_def inflate_def Let_def)

text \<open>A view that does not see the received segment either, apart from its flags and acknowledgement.\<close>

locale receive_view = tcp_view +
  assumes V_inseg: "\<And>f st. V (set_inseg f st) = V st"
    and V_seqno: "\<And>q st. V (set_tv (\<lambda>v. v\<lparr>in_seqno := q\<rparr>) st) = V st"
    and V_tcplen: "\<And>q st. V (set_tv (\<lambda>v. v\<lparr>in_tcplen := q\<rparr>) st) = V st"
    and V_data: "\<And>q st. V (set_tv (\<lambda>v. v\<lparr>recv_data := q\<rparr>) st) = V st"
    and V_rflags: "\<And>f st. V (set_tv (\<lambda>v. v\<lparr>recv_flags := f v\<rparr>) st) = V st"
begin

lemmas R_simps = W_simps V_inseg V_seqno V_tcplen V_data V_rflags

lemma keep_dupack: "(\<And>st'. V st' = V st \<Longrightarrow> Q st') \<Longrightarrow> post (receive_dupack u e st) Q"
  unfolding receive_dupack_def by (intro posts keep_rexmit_fast) (simp_all add: V_tcp estimate_sel)

lemma keep_drop_seg: "(\<And>st'. V st' = V st \<Longrightarrow> Q st') \<Longrightarrow> post (drop_seg H u s st) Q"
  unfolding drop_seg_def TCPH_FLAGS_def fetch_def
  apply (rule post_bind, rule post_any)
  apply (intro posts keep_seg_free post_any)
  by (simp_all add: V_tcp)

lemma keep_ack_unacked:
  assumes "\<And>st'. V st' = V st \<Longrightarrow> Q st'"
  shows "post (ack_unacked H u st) Q"
proof -
  have "V y = V st" if "ack_unacked H u st = Some y" for y
    apply (rule ack_unacked.raw_induct [where P = "\<lambda>H u st y. V y = V st", OF _ that])
    subgoal premises p for self H u st y
    proof -
      have rec: "(\<And>st'. V st' = V st \<Longrightarrow> R st') \<Longrightarrow> post (self H u st) R" for H u st R
        using p(1) by (auto intro: postI)
      show ?thesis unfolding hdr_seqno_def TCP_TCPLEN_def TCPH_FLAGS_def fetch_def
        by (rule postD [OF _ p(2) [unfolded hdr_seqno_def TCP_TCPLEN_def TCPH_FLAGS_def fetch_def]])
          (intro posts keep_drop_seg rec post_any; simp add: V_tcp)
    qed
    done
  with assms show ?thesis by (auto intro: postI)
qed

lemma keep_ack_unsent:
  assumes "\<And>st'. V st' = V st \<Longrightarrow> Q st'"
  shows "post (ack_unsent H u st) Q"
proof -
  have "V y = V st" if "ack_unsent H u st = Some y" for y
    apply (rule ack_unsent.raw_induct [where P = "\<lambda>H u st y. V y = V st", OF _ that])
    subgoal premises p for self H u st y
    proof -
      have rec: "(\<And>st'. V st' = V st \<Longrightarrow> R st') \<Longrightarrow> post (self H u st) R" for H u st R
        using p(1) by (auto intro: postI)
      show ?thesis unfolding hdr_seqno_def TCP_TCPLEN_def TCPH_FLAGS_def fetch_def
        by (rule postD [OF _ p(2) [unfolded hdr_seqno_def TCP_TCPLEN_def TCPH_FLAGS_def fetch_def]])
          (intro posts keep_drop_seg rec post_any; simp add: V_tcp)
    qed
    done
  with assms show ?thesis by (auto intro: postI)
qed

lemma keep_newack: "(\<And>st'. V st' = V st \<Longrightarrow> Q st') \<Longrightarrow> post (receive_newack H u st) Q"
  unfolding receive_newack_def by (intro posts keep_grow keep_ack_unacked) (simp_all add: V_tcp)

lemma keep_window: "V (update_window u w st) = V st"
  by (simp add: update_window_def Let_def V_tcp)

lemma keep_receive_ack: "(\<And>st'. V st' = V st \<Longrightarrow> Q st') \<Longrightarrow> post (receive_ack H u st) Q"
  unfolding receive_ack_def in_wnd_def in_field_def fetch_def
  apply (rule post_let, rule post_let, rule post_bind, rule post_any)
  by (intro posts keep_dupack keep_newack keep_ack_unsent) (simp_all add: V_tcp keep_window estimate_sel)

lemma keep_trim_loop:
  assumes "\<And>q k st'. V st' = V st \<Longrightarrow> Q (q, k, st')"
  shows "post (trim_loop n p off st) Q"
proof -
  have "V (snd (snd y)) = V st" if "trim_loop n p off st = Some y" for y
    apply (rule trim_loop.raw_induct [where P = "\<lambda>n p off st y. V (snd (snd y)) = V st", OF _ that])
    subgoal premises p for self n p off st y
    proof -
      have rec: "(\<And>q k st'. V st' = V st \<Longrightarrow> R (q, k, st')) \<Longrightarrow> post (self n p off st) R" for n p off st R
        using p(1) by (force intro: postI)
      show ?thesis by (rule postD [OF _ p(2), where Q = "\<lambda>y. V (snd (snd y)) = V st"]) (intro posts rec; simp add: W_simps)
    qed
    done
  with assms show ?thesis by (force intro: postI)
qed

lemma keep_trim_front: "(\<And>st'. V st' = V st \<Longrightarrow> Q st') \<Longrightarrow> post (trim_front u st) Q"
  unfolding trim_front_def
  apply (rule post_let, rule post_bind, rule post_any)
  by (intro posts keep_trim_loop keep_header keep_store) (simp_all add: R_simps split: if_splits)

lemma keep_set_tcplen: "(\<And>st'. V st' = V st \<Longrightarrow> Q st') \<Longrightarrow> post (set_tcplen st) Q"
  unfolding set_tcplen_def by (rule post_bind, rule post_any) (intro posts, simp add: R_simps)

lemma keep_flags_set: "(\<And>st'. V st' = V st \<Longrightarrow> Q st') \<Longrightarrow> post (TCPH_FLAGS_SET d f st) Q"
  "(\<And>st'. V st' = V st \<Longrightarrow> Q st') \<Longrightarrow> post (TCPH_SET_FLAG d f st) Q"
  unfolding TCPH_FLAGS_SET_def TCPH_SET_FLAG_def fetch_def
  by (rule post_bind, rule post_any, rule keep_store, simp)+

lemma keep_trim_end: "(\<And>st'. V st' = V st \<Longrightarrow> Q st') \<Longrightarrow> post (trim_end H u st) Q"
  unfolding trim_end_def TCPH_FLAGS_def
  by (intro posts keep_flags_set keep_set_tcplen post_any) (simp_all add: R_simps)

lemma keep_ann_wnd: "(\<And>w st'. V st' = V st \<Longrightarrow> Q (w, st')) \<Longrightarrow> post (tcp_update_rcv_ann_wnd u st) Q"
  unfolding tcp_update_rcv_ann_wnd_def by (intro posts) (simp_all add: V_tcp)

lemma keep_receive_next: "(\<And>st'. V st' = V st \<Longrightarrow> Q st') \<Longrightarrow> post (receive_next H u st) Q"
  unfolding receive_next_def TCPH_FLAGS_def tcp_ack_def
  by (intro posts keep_set_tcplen keep_trim_end keep_ann_wnd post_any) (simp_all add: V_tcp R_simps)

lemma keep_receive_data: "(\<And>st'. V st' = V st \<Longrightarrow> Q st') \<Longrightarrow> post (receive_data H u st) Q"
  unfolding receive_data_def
  by (intro posts keep_trim_front keep_receive_next keep_empty_ack) (simp_all add: W_simps)

lemma keep_receive: "(\<And>st'. V st' = V st \<Longrightarrow> Q st') \<Longrightarrow> post (tcp_receive H u st) Q"
  unfolding tcp_receive_def
  by (intro posts keep_receive_ack keep_receive_data) (simp_all add: W_simps)

end

section \<open>Sending\<close>

text \<open>A view that does not see \<open>snd_nxt\<close>.\<close>

locale send_view = tcp_view +
  assumes V_pcb: "\<And>f u st. t_state (f (tcp_at st u)) = t_state (tcp_at st u) \<Longrightarrow> V (set_tcp u f st) = V st"
begin

lemma keep_append: "(\<And>st'. V st' = V st \<Longrightarrow> Q st') \<Longrightarrow> post (append_unsent u s st) Q"
  unfolding append_unsent_def by (intro posts post_any) (simp_all add: W_simps V_pcb)

lemma keep_enqueue_flags: "(\<And>e st'. V st' = V st \<Longrightarrow> Q (e, st')) \<Longrightarrow> post (tcp_enqueue_flags H u f st) Q"
  unfolding tcp_enqueue_flags_def pbuf_clen_def
  by (intro posts keep_alloc keep_create_segment keep_append post_any) (simp_all add: W_simps V_pcb)

lemma keep_send_fin: "(\<And>e st'. V st' = V st \<Longrightarrow> Q (e, st')) \<Longrightarrow> post (tcp_send_fin H u st) Q"
  unfolding tcp_send_fin_def TCPH_FLAGS_def fetch_def
  by (intro posts keep_enqueue_flags keep_flag post_any) (simp_all add: W_simps)

lemma local_address_V: "local_address H u st = Some st' \<Longrightarrow> V st' = V st"
  by (auto simp: local_address_def V_pcb split: if_splits option.splits)

lemma keep_output_segment: "(\<And>st'. V st' = V st \<Longrightarrow> Q st') \<Longrightarrow> post (tcp_output_segment H s u st) Q"
  unfolding tcp_output_segment_def hdr_seqno_def fetch_def
  by (intro posts keep_store keep_seal keep_ip_output post_any) (simp_all add: W_simps V_pcb local_address_V)

lemma keep_queue_unacked: "(\<And>e st'. V st' = V st \<Longrightarrow> Q (e, st')) \<Longrightarrow> post (queue_unacked u s g st) Q"
  unfolding queue_unacked_def hdr_seqno_def fetch_def
  by (intro posts keep_insert_seg post_any) (simp_all add: W_simps V_pcb)

lemma keep_output_one: "(\<And>e st'. V st' = V st \<Longrightarrow> Q (e, st')) \<Longrightarrow> post (output_one H u s g st) Q"
  unfolding output_one_def hdr_seqno_def TCP_TCPLEN_def TCPH_FLAGS_def fetch_def
  by (intro posts keep_flag keep_output_segment keep_queue_unacked keep_seg_free post_any) (simp_all add: W_simps V_pcb)

lemma keep_output_loop:
  assumes "\<And>st'. V st' = V st \<Longrightarrow> Q st'"
  shows "post (output_loop H u w g st) Q"
proof -
  have "V y = V st" if "output_loop H u w g st = Some y" for y
    apply (rule output_loop.raw_induct [where P = "\<lambda>H u w g st y. V y = V st", OF _ that])
    subgoal premises p for self H u w g st y
    proof -
      have rec: "(\<And>st'. V st' = V st \<Longrightarrow> R st') \<Longrightarrow> post (self H u w g st) R" for H u w g st R
        using p(1) by (auto intro: postI)
      show ?thesis unfolding in_window_def hdr_seqno_def TCPH_FLAGS_def fetch_def
        by (rule postD [OF _ p(2) [unfolded in_window_def hdr_seqno_def TCPH_FLAGS_def fetch_def]])
          (intro posts keep_output_one rec post_any; simp)
    qed
    done
  with assms show ?thesis by (auto intro: postI)
qed

lemma keep_output: "(\<And>e st'. V st' = V st \<Longrightarrow> Q (e, st')) \<Longrightarrow> post (tcp_output H u st) Q"
  unfolding tcp_output_def in_window_def hdr_seqno_def fetch_def
  by (intro posts keep_empty_ack keep_output_loop post_any) (simp_all add: W_simps V_pcb)

end

section \<open>The views of the state machine\<close>

definition states :: "lan \<Rightarrow> nat \<Rightarrow> tcp_state" where
  "states st u = t_state (tcp_at st u)"

text \<open>What decides about the next state, without and with the flags of the reception.\<close>

definition machine :: "lan \<Rightarrow> (nat \<Rightarrow> tcp_state \<times> u32) \<times> u8 \<times> u32" where
  "machine st = (\<lambda>u. (t_state (tcp_at st u), t_snd_nxt (tcp_at st u)), in_flags (tv st), in_ackno (tv st))"

definition machine_and_flags :: "lan \<Rightarrow> ((nat \<Rightarrow> tcp_state \<times> u32) \<times> u8 \<times> u32) \<times> u8" where
  "machine_and_flags st = (machine st, recv_flags (tv st))"

lemma set_tcp_at: "tcp_at (set_tcp u f st) v = (if v = u then f (tcp_at st u) else tcp_at st v)"
  by (simp add: tcp_at_def set_tcp_def set_tv_def tv_def set_ipst_def)

lemma tcp_at_tv: "tv st = tv st' \<Longrightarrow> tcp_at st = tcp_at st'" "tv st = tv st' \<Longrightarrow> seg_at st = seg_at st'"
  by (simp_all add: tcp_at_def seg_at_def fun_eq_iff)

lemmas tcp_access = set_seg_def set_changed_def set_inseg_def set_tcp_def set_tv_def tv_def set_ipst_def

lemma tcp_at_set_tv: "tcp_at (set_tv g st) u = tcp_pcb_at (g (tv st)) u" "tv (set_tv g st) = g (tv st)"
  by (simp_all add: tcp_at_def set_tv_def tv_def set_ipst_def)

interpretation tv_below: above_ip tv
  by unfold_locales (simp_all add: tv_def)

lemma set_head_view:
  "tcp_at (set_head l h st) = tcp_at st" "seg_at (set_head l h st) = seg_at st" "in_flags (tv (set_head l h st)) = in_flags (tv st)"
  "in_ackno (tv (set_head l h st)) = in_ackno (tv st)" "recv_flags (tv (set_head l h st)) = recv_flags (tv st)"
  by (cases l; simp add: tcp_at_def seg_at_def tcp_access fun_eq_iff)+

lemmas view_defs = states_def machine_def machine_and_flags_def fun_eq_iff set_tcp_at set_head_view

interpretation sent: send_view states
  by (unfold_locales; (auto simp: view_defs)?; auto simp: tcp_at_def tcp_access)

interpretation flagged: tcp_view machine_and_flags
  by (unfold_locales; (auto simp: view_defs)?; auto simp: tcp_at_def tcp_access)

interpretation received: receive_view machine
  by (unfold_locales; (auto simp: view_defs)?; auto simp: tcp_at_def tcp_access)

interpretation received_states: receive_view states
  by (unfold_locales; (auto simp: view_defs)?; auto simp: tcp_at_def tcp_access)

end
