(* ===== verification/TcpMachine.thy ===== *)
theory TcpMachine
  imports TcpKeeps ChksumProps
begin

text \<open>
  The state machine of TCP against the diagram of RFC 793: \<open>rfc793\<close> is the diagram, \<open>segment_events\<close> says which
  of its events a segment is, and \<open>tcp_process\<close> and \<open>tcp_close\<close> move a connection along it and
  leave all others where they are.
\<close>

unbundle bit_operations_syntax

section \<open>The diagram\<close>

text \<open>Our SYN or FIN is acknowledged, the FIN of the other side has arrived, the application closes.\<close>

datatype tcp_event = Syn_acked | Fin_acked | Fin | Close

inductive rfc793 :: "tcp_state \<Rightarrow> tcp_event \<Rightarrow> tcp_state \<Rightarrow> bool" where
  "rfc793 SYN_SENT Syn_acked ESTABLISHED"
| "rfc793 SYN_RCVD Syn_acked ESTABLISHED"
| "rfc793 ESTABLISHED Fin CLOSE_WAIT"
| "rfc793 FIN_WAIT_1 Fin CLOSING"
| "rfc793 FIN_WAIT_1 Fin_acked FIN_WAIT_2"
| "rfc793 FIN_WAIT_2 Fin TIME_WAIT"
| "rfc793 CLOSING Fin_acked TIME_WAIT"
| "rfc793 LISTEN Close CLOSED"
| "rfc793 SYN_SENT Close CLOSED"
| "rfc793 SYN_RCVD Close FIN_WAIT_1"
| "rfc793 ESTABLISHED Close FIN_WAIT_1"
| "rfc793 CLOSE_WAIT Close LAST_ACK"

code_pred rfc793 .

inductive_cases rfc793_fin: "rfc793 s Fin s'"

inductive_cases rfc793_close: "rfc793 s Close s'"

lemmas rfc793_edges = rfc793.intros

inductive rfc793_path :: "tcp_state \<Rightarrow> tcp_event list \<Rightarrow> tcp_state \<Rightarrow> bool" where
  stay: "rfc793_path s [] s"
| move: "rfc793 s e s' \<Longrightarrow> rfc793_path s' es s'' \<Longrightarrow> rfc793_path s (e # es) s''"

inductive_simps path_simps: "rfc793_path s [] s'" "rfc793_path s (e # es) s'"

text \<open>An event leads to one state.\<close>

lemma rfc793_deterministic: "rfc793 s e s' \<Longrightarrow> rfc793 s e s'' \<Longrightarrow> s' = s''"
  by (auto elim!: rfc793.cases)

lemma path_deterministic: "rfc793_path s es s' \<Longrightarrow> rfc793_path s es s'' \<Longrightarrow> s' = s''"
proof (induction arbitrary: s'' rule: rfc793_path.induct)
  case (stay s)
  then show ?case by (simp add: path_simps)
next
  case (move s e s1 es s2)
  then show ?case by (metis path_simps(2) rfc793_deterministic)
qed

section \<open>Segments as events\<close>

text \<open>The segment gets past the tests for a reset and for a SYN out of place.\<close>

definition passes :: "u8 \<Rightarrow> tcp_state \<Rightarrow> bool" where
  "passes f s = (f AND TCP_RST = 0 \<and> (f AND TCP_SYN = 0 \<or> s = SYN_SENT \<or> s = SYN_RCVD))"

definition acks_syn :: "nat \<Rightarrow> lan \<Rightarrow> bool" where
  "acks_syn u st =
     (in_flags (tv st) AND TCP_ACK \<noteq> 0 \<and>
      (case t_state (tcp_at st u) of
         SYN_SENT \<Rightarrow> in_flags (tv st) AND TCP_SYN \<noteq> 0 \<and>
           (\<exists>s \<in> set_option (t_unacked (tcp_at st u)). \<exists>q \<in> set_option (hdr_seqno (s_tcphdr (seg_at st s)) st). in_ackno (tv st) = q + 1)
       | SYN_RCVD \<Rightarrow> TCP_SEQ_BETWEEN (in_ackno (tv st)) (t_lastack (tcp_at st u) + 1) (t_snd_nxt (tcp_at st u))
       | _ \<Rightarrow> False))"

definition acks_fin :: "nat \<Rightarrow> lan \<Rightarrow> bool" where
  "acks_fin u st = (in_flags (tv st) AND TCP_ACK \<noteq> 0 \<and> in_ackno (tv st) = t_snd_nxt (tcp_at st u))"

definition got_fin :: "lan \<Rightarrow> bool" where
  "got_fin st = (recv_flags (tv st) AND TF_GOT_FIN \<noteq> 0)"

fun segment_events :: "tcp_state \<Rightarrow> bool \<Rightarrow> bool \<Rightarrow> bool \<Rightarrow> tcp_event list" where
  "segment_events SYN_SENT syn fin ack = (if syn then [Syn_acked] else [])"
| "segment_events SYN_RCVD syn fin ack = (if syn then Syn_acked # (if fin then [Fin] else []) else [])"
| "segment_events ESTABLISHED syn fin ack = (if fin then [Fin] else [])"
| "segment_events FIN_WAIT_1 syn fin ack = (if ack then [Fin_acked] else []) @ (if fin then [Fin] else [])"
| "segment_events FIN_WAIT_2 syn fin ack = (if fin then [Fin] else [])"
| "segment_events CLOSING syn fin ack = (if ack then [Fin_acked] else [])"
| "segment_events _ syn fin ack = []"

text \<open>The callbacks leave the states of the connections alone, unless they abort the connection.\<close>

definition calm :: "tcp_app \<Rightarrow> bool" where
  "calm A = (\<forall>f a u e st r st'. r \<noteq> ERR_ABRT \<longrightarrow>
     on_accept A f a u e st = Some (r, st') \<or> on_connected A f a u e st = Some (r, st') \<longrightarrow>
     states st' = states st)"

section \<open>The steps of the machine\<close>

lemma states_set_state: "states (set_state u s st) = (states st)(u := s)"
  by (auto simp: states_def set_state_def set_tcp_at)

lemma flagged_iff: "machine_and_flags a = machine_and_flags b \<longleftrightarrow> machine a = machine b \<and> recv_flags (tv a) = recv_flags (tv b)"
  by (simp add: machine_and_flags_def)

lemma machine_iff: "machine a = machine b \<longleftrightarrow>
  states a = states b \<and> (\<forall>u. t_snd_nxt (tcp_at a u) = t_snd_nxt (tcp_at b u)) \<and>
  in_flags (tv a) = in_flags (tv b) \<and> in_ackno (tv a) = in_ackno (tv b)"
  by (auto simp: machine_def states_def fun_eq_iff)

lemma flagged_set_state: "machine_and_flags a = machine_and_flags (set_state u s b) \<Longrightarrow>
  states a = (states b)(u := s) \<and> recv_flags (tv a) = recv_flags (tv b)"
  by (simp add: flagged_iff machine_iff states_set_state) (simp add: set_state_def set_tcp_def tcp_at_set_tv)

lemma to_time_wait_moves:
  "(\<And>st'. states st' = (states st)(u := TIME_WAIT) \<Longrightarrow> recv_flags (tv st') = recv_flags (tv st) \<Longrightarrow> Q st') \<Longrightarrow>
   post (to_time_wait H u st) Q"
  unfolding to_time_wait_def
  apply (rule post_bind, rule flagged.keep_purge, rule post_bind, rule flagged.keep_lists, rule flagged.keep_REG)
  subgoal for a b c by (drule flagged_set_state) (simp add: flagged_iff machine_iff)
  done

lemma set_flags_sel [simp]: "states (set_flags u f st) = states st" "recv_flags (tv (set_flags u f st)) = recv_flags (tv st)"
  "machine (set_flags u f st) = machine st"
  by (rule sent.V_flags(1), simp add: set_flags_def set_tcp_def tcp_at_set_tv, rule received.V_flags(1))

lemma receive_moves_nothing:
  "(\<And>st'. machine st' = machine st \<Longrightarrow> Q st') \<Longrightarrow> post (tcp_receive H u st) Q"
  by (rule received.keep_receive)

lemma bit_or [simp]: "(x OR TF_CLOSED) AND TF_GOT_FIN = x AND TF_GOT_FIN" "(x OR TF_RESET) AND TF_GOT_FIN = x AND TF_GOT_FIN"
  for x :: u8
  by (simp_all add: bit.conj_disj_distrib2)

definition follows :: "nat \<Rightarrow> lan \<Rightarrow> (bool \<Rightarrow> tcp_event list) \<Rightarrow> lan \<Rightarrow> bool" where
  "follows u st es st' = (\<exists>s. states st' = (states st)(u := s) \<and> rfc793_path (states st u) (es (got_fin st')) s)"

lemma follows_stay: "states st' = states st \<Longrightarrow> es (got_fin st') = [] \<Longrightarrow> follows u st es st'"
  unfolding follows_def by (intro exI [of _ "states st u"]) (simp add: path_simps)

lemma follows_move:
  "states st' = (states st)(u := s) \<Longrightarrow> rfc793_path (states st u) (es (got_fin st')) s \<Longrightarrow> follows u st es st'"
  unfolding follows_def by blast

lemma moved_sel [simp]:
  "states (set_state u s st) = (states st)(u := s)" "recv_flags (tv (set_state u s st)) = recv_flags (tv st)"
  "states (set_tv (\<lambda>v. v\<lparr>recv_flags := f v\<rparr>) st) = states st"
  "recv_flags (tv (set_tv (\<lambda>v. v\<lparr>recv_flags := f v\<rparr>) st)) = f (tv st)"
  by (simp_all add: states_set_state) (simp_all add: set_state_def set_tcp_def tcp_at_set_tv states_def fun_eq_iff tcp_at_def)

text \<open>Data, then the FINs of both sides.\<close>

lemma process_open_moves:
  assumes "states st u \<in> {ESTABLISHED, CLOSE_WAIT, FIN_WAIT_1, FIN_WAIT_2, CLOSING, LAST_ACK}"
  shows "post (process_open H u st) (follows u st (\<lambda>fin. segment_events (states st u) False fin (acks_fin u st)))"
  unfolding process_open_def
proof (rule post_let, rule post_bind, rule receive_moves_nothing)
  fix st1
  assume m: "machine st1 = machine st"
  then have s1: "states st1 = states st"
    and ack: "(in_flags (tv st1) AND TCP_ACK \<noteq> 0 \<and> in_ackno (tv st1) = t_snd_nxt (tcp_at st1 u)) = acks_fin u st"
    by (auto simp: machine_iff acks_fin_def)
  have s: "t_state (tcp_at st u) = states st u" by (simp add: states_def)
  show "post (let fin = recv_flags (tv st1) AND TF_GOT_FIN \<noteq> 0;
      acked = in_flags (tv st1) AND TCP_ACK \<noteq> 0 \<and> in_ackno (tv st1) = t_snd_nxt (tcp_at st1 u) in
      case t_state (tcp_at st u) of
        FIN_WAIT_1 \<Rightarrow>
          if fin then
            let st = set_flags u TF_ACK_NOW st1 in
            if acked then to_time_wait H u st else Some (set_state u CLOSING st)
          else Some (if acked then set_state u FIN_WAIT_2 st1 else st1)
      | FIN_WAIT_2 \<Rightarrow> if fin then to_time_wait H u (set_flags u TF_ACK_NOW st1) else Some st1
      | CLOSING \<Rightarrow> if acked then to_time_wait H u st1 else Some st1
      | LAST_ACK \<Rightarrow> Some (if acked then set_tv (\<lambda>v. v\<lparr>recv_flags := recv_flags v OR TF_CLOSED\<rparr>) st1 else st1)
      | _ \<Rightarrow> Some (if fin then set_state u CLOSE_WAIT (set_flags u TF_ACK_NOW st1) else st1))
    (follows u st (\<lambda>fin. segment_events (states st u) False fin (acks_fin u st)))"
    unfolding Let_def s ack using assms
    by (cases "states st u"; simp split del: if_split; intro posts to_time_wait_moves)
      (auto simp: s1 got_fin_def path_simps intro!: follows_stay follows_move rfc793_edges)
qed

section \<open>Options\<close>

lemma set_tcp_twice: "set_tcp u f (set_tcp u g st) = set_tcp u (\<lambda>t. f (g t)) st"
  by (simp add: set_tcp_def set_tv_def set_ipst_def)

lemma set_tcp_cong: "f (tcp_at st u) = g (tcp_at st u) \<Longrightarrow> set_tcp u f st = set_tcp u g st"
  by (auto simp: set_tcp_def set_tv_def set_ipst_def tcp_at_def tv_def)

lemma set_tcp_same: "f (tcp_at st u) = tcp_at st u \<Longrightarrow> set_tcp u f st = st"
  by (simp add: set_tcp_def set_tv_def set_ipst_def tcp_at_def tv_def)

lemma tv_set_tcp: "tv (set_tcp u f st) = (tv st)\<lparr>tcp_pcb_at := (tcp_pcb_at (tv st))(u := f (tcp_at st u))\<rparr>"
  by (simp add: set_tcp_def tcp_at_set_tv tcp_at_def)

lemma fetch_set_tcp [simp]: "fetch d i n (set_tcp u f st) = fetch d i n st"
  by (simp add: fetch_def set_tcp_def set_tv_def set_ipst_def)

definition with_mss :: "nat \<Rightarrow> nat \<Rightarrow> lan \<Rightarrow> lan" where
  "with_mss u m st = set_tcp u (\<lambda>t. t\<lparr>t_mss := m\<rparr>) st"

lemma opt_loop_returns:
  assumes "in_tcphdr (tv st) \<noteq> None" and "mx \<le> 40"
  shows "\<exists>m. opt_loop u c mx st = Some (with_mss u m st) \<and> (m = t_mss (tcp_at st u) \<or> 1 \<le> m \<and> m \<le> TCP_MSS)"
  using assms
proof (induction "mx - c" arbitrary: c st rule: less_induct)
  case less
  have stop: "\<exists>m. Some st = Some (with_mss u m st) \<and> (m = t_mss (tcp_at st u) \<or> 1 \<le> m \<and> m \<le> TCP_MSS)" for st
    by (intro exI [of _ "t_mss (tcp_at st u)"]) (simp add: with_mss_def set_tcp_same)
  show ?case
  proof (cases "c < mx")
    case False
    then show ?thesis by (subst opt_loop.simps) (use stop in simp)
  next
    case True
    obtain opts where o: "fetch (in_tcphdr (tv st)) (TCP_HLEN + c) 4 st = Some opts"
      using less.prems(1) by (auto simp: fetch_def peek_def)
    define m where "m = unat (opts ! 2) * 256 + unat (opts ! 3)"
    define mss where "mss = (if TCP_MSS < m \<or> m = 0 then TCP_MSS else m)"
    have "1 \<le> mss" "mss \<le> TCP_MSS" by (auto simp: mss_def)
    moreover have "\<exists>m. opt_loop u (c + 4) mx (with_mss u mss st) = Some (with_mss u m (with_mss u mss st)) \<and>
        (m = t_mss (tcp_at (with_mss u mss st) u) \<or> 1 \<le> m \<and> m \<le> TCP_MSS)"
      using True less.prems by (intro less.hyps) (auto simp: with_mss_def tv_set_tcp)
    ultimately have mss: "\<exists>m. opt_loop u (c + 4) mx (with_mss u mss st) = Some (with_mss u m st) \<and>
        (m = t_mss (tcp_at st u) \<or> 1 \<le> m \<and> m \<le> TCP_MSS)"
      by (auto simp: with_mss_def set_tcp_at set_tcp_twice)
    have skip: "\<exists>m. opt_loop u (trunc16 (c + k)) mx st = Some (with_mss u m st) \<and>
        (m = t_mss (tcp_at st u) \<or> 1 \<le> m \<and> m \<le> TCP_MSS)" if "0 < k" "k < 256" for k
      using True less.prems that by (intro less.hyps) auto
    show ?thesis
      using stop [of st] mss skip [of 1] skip [of 4] skip [of "unat (opts ! 1)"] byte_bound [of "opts ! 1"] True less.prems(2)
      by (subst opt_loop.simps) (simp add: o Let_def m_def [symmetric] mss_def [symmetric] with_mss_def unat_gt_0)
  qed
qed

lemma parseopt_returns:
  assumes "in_tcphdr (tv st) \<noteq> None"
  shows "\<exists>m. tcp_parseopt u st = Some (set_tcp u (\<lambda>t. t\<lparr>t_mss := m\<rparr>) st) \<and>
    (m = t_mss (tcp_at st u) \<or> 1 \<le> m \<and> m \<le> TCP_MSS)"
proof -
  obtain h where h: "fetch (in_tcphdr (tv st)) 12 1 st = Some h" using assms by (auto simp: fetch_def peek_def)
  have "unat (drop_bit 4 (h ! 0)) = unat (h ! 0) div 16" by (subst unat_drop_bit_eq) (simp add: drop_bit_eq_div)
  then have "unat (drop_bit 4 (h ! 0)) \<le> 15" using byte_bound [of "h ! 0"] by simp
  then have "(unat (drop_bit 4 (h ! 0)) - 5) * 4 \<le> 40" by simp
  note loop = opt_loop_returns [OF assms this, of u 0, unfolded with_mss_def]
  have "tcp_parseopt u st = (if 5 < unat (drop_bit 4 (h ! 0)) then opt_loop u 0 ((unat (drop_bit 4 (h ! 0)) - 5) * 4) st else Some st)"
    by (simp add: tcp_parseopt_def TCPH_HDRLEN_def h del: One_nat_def)
  with loop show ?thesis
    by (cases "5 < unat (drop_bit 4 (h ! 0))")
      (simp_all add: set_tcp_same exI [of _ "t_mss (tcp_at st u)"])
qed

lemma parseopt_post:
  assumes "\<And>m. Q (set_tcp u (\<lambda>t. t\<lparr>t_mss := m\<rparr>) st)"
  shows "post (tcp_parseopt u st) Q"
proof (cases "in_tcphdr (tv st) = None")
  case True
  then show ?thesis by (simp add: post_def tcp_parseopt_def TCPH_HDRLEN_def fetch_def peek_def)
next
  case False
  with parseopt_returns [OF False, of u] assms show ?thesis by (auto simp: post_def)
qed

section \<open>The handshake\<close>

lemma calm_connected:
  assumes "calm A" and "\<And>e st'. (e \<noteq> ERR_ABRT \<Longrightarrow> states st' = states st) \<Longrightarrow> Q (e, st')"
  shows "post (event_connected A u r st) Q"
  unfolding event_connected_def
  by (intro posts) (use assms in \<open>auto simp: calm_def post_def\<close>)

lemma calm_accept:
  assumes "calm A"
    and "\<And>e st'. (e \<noteq> ERR_ABRT \<Longrightarrow> states st' = states st) \<Longrightarrow> Q (e, st')"
  shows "post (event_accept A u r st) Q"
proof -
  have "post (case t_accept (tcp_at st u) of Some (App f) \<Rightarrow> on_accept A f (t_arg (tcp_at st u)) u r st
      | Some Null_fn \<Rightarrow> Some (ERR_ABRT, st) | None \<Rightarrow> Some (ERR_ARG, st)) Q"
    using assms by (auto simp: calm_def post_def split: option.split callback.split)
  then show ?thesis unfolding event_accept_def .
qed

definition unless_aborted :: "(lan \<Rightarrow> bool) \<Rightarrow> err_t \<times> lan \<Rightarrow> bool" where
  "unless_aborted P r = (fst r \<noteq> ERR_ABRT \<longrightarrow> P (snd r))"

lemma states_set_tcp: "states (set_tcp u f st) = (states st)(u := t_state (f (tcp_at st u)))"
  by (auto simp: states_def set_tcp_at)

lemma syn_sent_moves:
  assumes "states st u = SYN_SENT" and "calm A"
  shows "post (process_syn_sent H A u st) (unless_aborted (follows u st (\<lambda>fin. segment_events SYN_SENT (acks_syn u st) fin ack)))"
proof -
  have s: "t_state (tcp_at st u) = SYN_SENT" using assms(1) by (simp add: states_def)
  show ?thesis
    unfolding process_syn_sent_def
    apply (rule post_let, rule post_let, rule post_let, rule post_bind)
    apply (rule postI)
    subgoal for good
    proof -
      assume g: "(if in_flags (tv st) AND TCP_ACK \<noteq> 0 \<and> in_flags (tv st) AND TCP_SYN \<noteq> 0 then do {
                s \<leftarrow> t_unacked (tcp_at st u);
                q \<leftarrow> hdr_seqno (s_tcphdr (seg_at st s)) st;
                Some (in_ackno (tv st) = q + 1)
              }
              else Some False) = Some good"
      have good: "good = acks_syn u st" 
        using g s by (auto simp: acks_syn_def bind_eq_Some_conv split: if_splits)
      show ?thesis unfolding good
        apply (rule post_if)
        subgoal
          unfolding in_wnd_def in_field_def fetch_def
          apply (rule post_bind, rule post_any)
          apply (intro posts sent.keep_seg_free calm_connected [OF assms(2)] post_any)
          by (auto simp: unless_aborted_def path_simps states_set_tcp assms(1) states_def [symmetric] intro!: follows_move rfc793_edges)
        subgoal
          by (intro posts sent.keep_reset) (simp_all add: unless_aborted_def follows_stay)
        done
    qed
    done
qed

lemma syn_rcvd_moves:
  assumes "states st u = SYN_RCVD" and "calm A"
  shows "post (process_syn_rcvd H A u st) (unless_aborted (follows u st (\<lambda>fin. segment_events SYN_RCVD (acks_syn u st) fin ack)))"
proof -
  have s: "t_state (tcp_at st u) = SYN_RCVD" using assms(1) by (simp add: states_def)
  have good: "acks_syn u st = (in_flags (tv st) AND TCP_ACK \<noteq> 0 \<and>
      TCP_SEQ_BETWEEN (in_ackno (tv st)) (t_lastack (tcp_at st u) + 1) (t_snd_nxt (tcp_at st u)))"
    by (simp add: acks_syn_def s)
  show ?thesis
    unfolding process_syn_rcvd_def
    apply (intro posts calm_accept [OF assms(2)] sent.keep_reset sent.keep_rexmit received_states.keep_receive post_any)
    by (auto simp: unless_aborted_def good got_fin_def path_simps states_set_tcp states_def [symmetric] assms(1)
        intro!: follows_stay follows_move rfc793_edges)
qed

section \<open>The whole machine\<close>

lemma acks_syn_mss: "acks_syn u (set_tcp u (\<lambda>t. t\<lparr>t_mss := m\<rparr>) (set_tcp u (\<lambda>t. t\<lparr>t_tmr := k t, t_keep_cnt_sent := 0\<rparr>) st)) = acks_syn u st"
  and acks_fin_mss: "acks_fin u (set_tcp u (\<lambda>t. t\<lparr>t_mss := m\<rparr>) (set_tcp u (\<lambda>t. t\<lparr>t_tmr := k t, t_keep_cnt_sent := 0\<rparr>) st)) = acks_fin u st"
  by (simp_all add: acks_syn_def acks_fin_def set_tcp_at tv_set_tcp seg_at_def hdr_seqno_def split: tcp_state.split)

lemma follows_from: "states st1 = states st \<Longrightarrow> follows u st1 es = follows u st es"
  by (simp add: follows_def fun_eq_iff)

lemma post_some_iff: "post (Some x) Q = Q x"
  by (simp add: post_def)

lemma post_map_iff: "post (map_option f m) Q = post m (\<lambda>x. Q (f x))"
  by (auto simp: post_def)

lemma unless_aborted_ok: "unless_aborted P (ERR_OK, st) = P st"
  by (simp add: unless_aborted_def)

lemmas post_eqs = post_some_iff post_map_iff unless_aborted_ok


section \<open>Closing\<close>

lemma remove_moves:
  "(\<And>st'. states st' = (states st)(u := CLOSED) \<Longrightarrow> Q st') \<Longrightarrow> post (tcp_pcb_remove H l u st) Q"
  unfolding tcp_pcb_remove_def
  by (intro posts sent.keep_RMV sent.keep_purge sent.keep_output) (simp_all add: states_set_tcp)

lemma remove_active_moves:
  "(\<And>st'. states st' = (states st)(u := CLOSED) \<Longrightarrow> Q st') \<Longrightarrow> post (TCP_PCB_REMOVE_ACTIVE H u st) Q"
  unfolding TCP_PCB_REMOVE_ACTIVE_def by (intro posts remove_moves) (simp add: sent.V_changed)

lemma close_reset_moves:
  "(\<And>st'. states st' = (states st)(u := if states st u = ESTABLISHED then TIME_WAIT else states st u) \<Longrightarrow> Q st') \<Longrightarrow>
   post (close_reset H u st) Q"
  unfolding close_reset_def
  by (intro posts sent.keep_rst sent.keep_purge sent.keep_lists sent.keep_REG sent.keep_put_elem)
    (simp_all add: states_set_tcp states_def [symmetric] fun_upd_idem)

lemma close_fin_moves:
  "(\<And>e st'. states st' = (if e = ERR_OK then (states st)(u := s) else states st) \<Longrightarrow> Q (e, st')) \<Longrightarrow>
   post (close_fin H u s st) Q"
  unfolding close_fin_def
  by (intro posts sent.keep_send_fin sent.keep_output) (simp_all add: states_set_tcp)

text \<open>The application closes a connection whose data it did not take.\<close>

definition unread :: "nat \<Rightarrow> lan \<Rightarrow> bool" where
  "unread u st = (states st u \<in> {ESTABLISHED, CLOSE_WAIT} \<and>
     (t_refused_data (tcp_at st u) \<noteq> None \<or> t_rcv_wnd (tcp_at st u) \<noteq> TCP_WND))"

definition closable :: "tcp_state set" where
  "closable = {LISTEN, SYN_SENT, SYN_RCVD, ESTABLISHED, CLOSE_WAIT}"

definition closed_to :: "nat \<Rightarrow> lan \<Rightarrow> err_t \<Rightarrow> lan \<Rightarrow> bool" where
  "closed_to u st err st' = (\<exists>s'. states st' = (states st)(u := s') \<and>
     (if err \<noteq> ERR_OK then s' = states st u
      else if unread u st then s' = (if states st u = ESTABLISHED then TIME_WAIT else CLOSE_WAIT)
      else rfc793_path (states st u) (if states st u \<in> closable then [Close] else []) s'))"


end
