(* ===== verification/TcpWindow.thy ===== *)
theory TcpWindow
  imports TcpMachine PbufProps
begin

text \<open>
  Sequence numbers and the receive window. The comparisons of \<open>tcp_impl.h\<close> are the order of the distances from any
  number less than half the space away; \<open>room\<close> is the distance from \<open>rcv_nxt\<close> to the right edge announced last.
\<close>

unbundle bit_operations_syntax

section \<open>Sequence numbers\<close>

lemma sint_small: "- (2 ^ 31) \<le> z \<Longrightarrow> z < 2 ^ 31 \<Longrightarrow> sint (word_of_int z :: u32) = z"
  by (subst sint_sbintrunc') (simp add: signed_take_bit_int_eq_self_iff)

lemma seq_diff: "(x + word_of_int i) - (x + word_of_int j) = (word_of_int (i - j) :: u32)"
  by simp

text \<open>Numbers less than half the space apart are compared like their distances from a common origin.\<close>

lemma seq_compare:
  assumes "- (2 ^ 31) \<le> i - j" and "i - j < 2 ^ 31"
  shows "TCP_SEQ_LT (x + word_of_int i) (x + word_of_int j) \<longleftrightarrow> i < j"
    and "TCP_SEQ_LEQ (x + word_of_int i) (x + word_of_int j) \<longleftrightarrow> i \<le> j"
    and "TCP_SEQ_GT (x + word_of_int i) (x + word_of_int j) \<longleftrightarrow> j < i"
    and "TCP_SEQ_GEQ (x + word_of_int i) (x + word_of_int j) \<longleftrightarrow> j \<le> i"
  unfolding TCP_SEQ_LT_def TCP_SEQ_LEQ_def TCP_SEQ_GT_def TCP_SEQ_GEQ_def seq_diff sint_small [OF assms] by auto

lemma seq_between:
  assumes "- (2 ^ 31) \<le> i - j" "i - j < 2 ^ 31" "- (2 ^ 31) \<le> i - k" "i - k < 2 ^ 31"
  shows "TCP_SEQ_BETWEEN (x + word_of_int i) (x + word_of_int j) (x + word_of_int k) \<longleftrightarrow> j \<le> i \<and> i \<le> k"
  unfolding TCP_SEQ_BETWEEN_def using assms by (simp add: seq_compare)

section \<open>The announced window\<close>

definition room :: "tcp_pcb \<Rightarrow> int" where
  "room t = sint (t_rcv_ann_right_edge t - t_rcv_nxt t)"

text \<open>The window holds what was announced, and the edge is not far behind \<open>rcv_nxt\<close>.\<close>

definition window_ok :: "tcp_pcb \<Rightarrow> bool" where
  "window_ok t = (t_rcv_wnd t \<le> TCP_WND \<and> room t \<le> int (t_rcv_wnd t) \<and> - 65536 \<le> room t \<and> t_mss t \<le> 65535)"

definition announce :: "tcp_pcb \<Rightarrow> nat" where
  "announce t =
     (if room t + int (min (TCP_WND div 2) (t_mss t)) \<le> int (t_rcv_wnd t) then t_rcv_wnd t
      else nat (room t))"

lemma edge_room: "t_rcv_ann_right_edge t = t_rcv_nxt t + word_of_int (room t)"
  by (simp add: room_def)

lemma announce_eq:
  assumes "window_ok (tcp_at st u)"
  shows "\<exists>w. tcp_update_rcv_ann_wnd u st = Some (w, set_tcp u (\<lambda>t. t\<lparr>t_rcv_ann_wnd := announce (tcp_at st u)\<rparr>) st)"
proof -
  define t where "t = tcp_at st u"
  define m where "m = min (TCP_WND div 2) (t_mss t)"
  let ?r = "room t" and ?w = "int (t_rcv_wnd t)"
  have ok: "?w \<le> 2920" "?r \<le> ?w" "- 65536 \<le> ?r" "m \<le> 1460"
    using assms by (auto simp: window_ok_def t_def m_def)
  have e1: "TCP_SEQ_GEQ (t_rcv_nxt t + word_of_nat (t_rcv_wnd t)) (t_rcv_ann_right_edge t + word_of_nat m) \<longleftrightarrow> ?r + int m \<le> ?w"
    using seq_compare(4) [of ?w "?r + int m" "t_rcv_nxt t"] ok by (simp add: edge_room add.assoc)
  have e2: "TCP_SEQ_GT (t_rcv_nxt t) (t_rcv_ann_right_edge t) \<longleftrightarrow> ?r < 0"
    using seq_compare(3) [of 0 ?r "t_rcv_nxt t"] ok by (simp add: edge_room)
  have e3: "unat (t_rcv_ann_right_edge t - t_rcv_nxt t) = nat ?r" if "0 \<le> ?r"
    using that ok by (simp add: edge_room unat_eq_nat_uint uint_word_of_int)
  have all: "set_tcp u (\<lambda>t. t\<lparr>t_rcv_ann_wnd := t_rcv_wnd t\<rparr>) st = set_tcp u (\<lambda>x. x\<lparr>t_rcv_ann_wnd := t_rcv_wnd t\<rparr>) st"
    by (rule set_tcp_cong) (simp add: t_def)
  have a: "announce t = (if ?r + int m \<le> ?w then t_rcv_wnd t else nat ?r)" by (simp add: announce_def m_def)
  show ?thesis
    unfolding tcp_update_rcv_ann_wnd_def Let_def t_def [symmetric] m_def [symmetric] e1 e2 all
    using ok e3 by (auto simp: a lwip_assert_def)
qed

text \<open>Claim C10: the announced window never takes back what was announced. From a block whose window fits,
  \<open>tcp_update_rcv_ann_wnd\<close> has a result, changes no member but \<open>rcv_ann_wnd\<close> and no other block, keeps
  \<open>rcv_ann_wnd\<close> within \<open>rcv_wnd\<close>, and the right edge of the announced window never moves left; if it lay at or behind
  \<open>rcv_nxt\<close>, it either stays exactly where it is or moves right by at least half of the window or one maximal segment, whichever
  is less, and then the whole window is announced (the silly window avoidance of RFC 1122).
\<close>

theorem window_never_shrinks:
  assumes "window_ok (tcp_at st u)"
  shows "\<exists>w st'. tcp_update_rcv_ann_wnd u st = Some (w, st') \<and>
    (let t = tcp_at st u; t' = tcp_at st' u; gain = int (t_rcv_ann_wnd t') - room t in
     t' = t\<lparr>t_rcv_ann_wnd := t_rcv_ann_wnd t'\<rparr> \<and> t_rcv_ann_wnd t' \<le> t_rcv_wnd t \<and> (\<forall>v. v \<noteq> u \<longrightarrow> tcp_at st' v = tcp_at st v) \<and>
     0 \<le> gain \<and> (0 \<le> room t \<longrightarrow> gain = 0 \<or> int (min (TCP_WND div 2) (t_mss t)) \<le> gain \<and> t_rcv_ann_wnd t' = t_rcv_wnd t))"
proof -
  obtain w where "tcp_update_rcv_ann_wnd u st = Some (w, set_tcp u (\<lambda>t. t\<lparr>t_rcv_ann_wnd := announce (tcp_at st u)\<rparr>) st)"
    using announce_eq [OF assms] ..
  then show ?thesis
    using assms by (auto simp: Let_def set_tcp_at announce_def window_ok_def)
qed

end
