(* ===== verification/TcpReceive.thy ===== *)
theory TcpReceive
  imports TcpWindow
begin

text \<open>
  In-order reception: the packet of a segment as the list of its buffers with its content, the part in front of
  \<open>rcv_nxt\<close> taken off, and what the application gets.
\<close>

unbundle bit_operations_syntax

section \<open>The packet of a segment\<close>

text \<open>A packet of consistent lengths whose headers can be moved: the data of a buffer with its own memory lies behind
  its \<open>struct pbuf\<close>.\<close>

definition movable :: "net \<Rightarrow> loc \<Rightarrow> bool" where
  "movable n q = (ptype (pb n q) = PBUF_RAM \<or> ptype (pb n q) = PBUF_POOL \<longrightarrow>
     (\<exists>off. payload (pb n q) = Some (q, off) \<and> int SIZEOF_STRUCT_PBUF \<le> off))"

definition chain_ok :: "net \<Rightarrow> loc \<Rightarrow> loc list \<Rightarrow> bool" where
  "chain_ok n p ps = (ps \<noteq> [] \<and> pchain (pb n) (Some p) ps None \<and> distinct ps \<and> lens_ok (pb n) ps \<and> has_data n ps \<and>
     (\<forall>q \<in> set ps. movable n q) \<and> length (content n ps) < 65536)"

lemma chain_ok_tot: "chain_ok n p ps \<Longrightarrow> tot_len (pb n p) = length (content n ps)"
  by (cases ps) (auto simp: chain_ok_def length_content lens_tot length_data)

text \<open>The network after buffers of the packet were trimmed.\<close>

definition trimmed :: "net \<Rightarrow> loc list \<Rightarrow> net \<Rightarrow> bool" where
  "trimmed n ps n' = (n' = n\<lparr>pb := pb n'\<rparr> \<and> (\<forall>l. l \<notin> set ps \<longrightarrow> pb n' l = pb n l) \<and>
     (\<forall>l. pnext (pb n' l) = pnext (pb n l)) \<and> (\<forall>q \<in> set ps. cells n' q \<subseteq> cells n q))"

lemma trimmed_refl: "trimmed n ps n"
  by (simp add: trimmed_def)

lemma buf_data_move:
  assumes "payload (pb n q) = Some (b, o')" and "k \<le> plen (pb n q)"
    and "pb n' q = (pb n q)\<lparr>payload := Some (b, o' + int k), plen := plen (pb n q) - k, tot_len := t\<rparr>" and "bytes n' = bytes n"
  shows "buf_data n' q = drop k (buf_data n q)"
  using assms by (auto simp: buf_data_def intro!: nth_equalityI) (simp add: algebra_simps)

text \<open>\<open>pbuf_header\<close> on the first buffer.\<close>

lemma header_hide:
  assumes "movable n q" "payload (pb n q) \<noteq> None" "int (plen (pb n q)) \<ge> k" "0 \<le> k" "int (tot_len (pb n q)) \<ge> k" "tot_len (pb n q) < 65536"
    and "plen (pb n q) < 65536"
  shows "pbuf_header q (- k) n = Some (0, set_pb q (\<lambda>b. b\<lparr>payload := map_option (\<lambda>(b, off). (b, off + k)) (payload b),
    plen := plen b - nat k, tot_len := tot_len b - nat k\<rparr>) n)"
proof -
  obtain b o' where pay: "payload (pb n q) = Some (b, o')" using assms(2) by auto
  have mod: "nat ((int a + - k) mod 65536) = a - nat k" if "int a \<ge> k" "a < 65536" for a
    using that assms(4) by (simp add: nat_diff_distrib)
  have len: "nat ((int (plen (pb n q)) + - k) mod 65536) = plen (pb n q) - nat k"
    "nat ((int (tot_len (pb n q)) + - k) mod 65536) = tot_len (pb n q) - nat k"
    using assms by (auto intro!: mod)
  have m: "ptype (pb n q) = PBUF_RAM \<or> ptype (pb n q) = PBUF_POOL \<Longrightarrow> b = q \<and> 16 \<le> o'"
    using assms(1) pay by (auto simp: movable_def)
  show ?thesis
  proof (cases "k = 0")
    case True
    have "(pb n q)\<lparr>payload := Some (b, o')\<rparr> = pb n q" using pay by (cases "pb n q") simp
    then have "(pb n)(q := (pb n q)\<lparr>payload := Some (b, o')\<rparr>) = pb n" by (simp only: fun_upd_triv)
    then show ?thesis using True by (simp add: pbuf_header_def set_pb_def pay)
  next
    case False
    then have "k > 0" using assms(4) by simp
    then show ?thesis
      unfolding pbuf_header_def using m assms(3,4) by (auto simp: Let_def pay set_pb_def len [simplified])
  qed
qed

lemma chain_ok_bounds:
  assumes "chain_ok n p (q # ps)"
  shows "p = q" and "plen (pb n q) + length (content n ps) < 65536" and "tot_len (pb n q) = plen (pb n q) + length (content n ps)"
    and "payload (pb n q) \<noteq> None" "movable n q"
  using assms by (auto simp: chain_ok_def length_data length_content)

text \<open>The loop over the buffers that are all old, and the header of the one that is not.\<close>

lemma trim_loop_spec:
  assumes "chain_ok (lnet st) p ps" and "0 \<le> off" and "off \<le> int (length (content (lnet st) ps))"
    and "N = length (content (lnet st) ps) - nat off"
  shows "\<exists>q k n n'. trim_loop N p off st = Some (q, k, with_net n st) \<and> pbuf_header q (- k) n = Some (0, n') \<and>
    chain_ok n' p ps \<and> content n' ps = drop (nat off) (content (lnet st) ps) \<and> trimmed (lnet st) ps n'"
  using assms
proof (induction ps arbitrary: p off st N)
  case Nil
  then show ?case by (simp add: chain_ok_def)
next
  case (Cons q qs)
  let ?n = "lnet st"
  note b = chain_ok_bounds [OF Cons.prems(1)]
  note ok = Cons.prems(1) [unfolded chain_ok_def b(1)]
  show ?case
  proof (cases "int (plen (pb ?n q)) < off")
    case False
    obtain b0 o0 where pay: "payload (pb ?n q) = Some (b0, o0)" using b(4) by auto
    define n' where "n' = set_pb q (\<lambda>b. b\<lparr>payload := map_option (\<lambda>(b, x). (b, x + off)) (payload b),
      plen := plen b - nat off, tot_len := tot_len b - nat off\<rparr>) ?n"
    have h: "pbuf_header q (- off) ?n = Some (0, n')" unfolding n'_def
      by (rule header_hide) (use b False Cons.prems(2) in auto)
    have pb': "pb n' q = (pb ?n q)\<lparr>payload := Some (b0, o0 + off), plen := plen (pb ?n q) - nat off, tot_len := tot_len (pb ?n q) - nat off\<rparr>"
      "\<And>l. l \<noteq> q \<Longrightarrow> pb n' l = pb ?n l" "bytes n' = bytes ?n" "n' = ?n\<lparr>pb := pb n'\<rparr>"
      by (auto simp: n'_def set_pb_def pay)
    have q: "buf_data n' q = drop (nat off) (buf_data ?n q)"
      by (rule buf_data_move [OF pay]) (use pb' False Cons.prems(2) in auto)
    have qs: "q \<notin> set qs" using ok by simp
    have "buf_data n' l = buf_data ?n l" if "l \<in> set qs" for l
    proof -
      have "l \<noteq> q" using that qs by auto
      then show ?thesis using pb'(2,3) by (simp add: buf_data_def split: option.split)
    qed
    then have r: "content n' qs = content ?n qs" by (rule content_cong)
    have c: "content n' (q # qs) = drop (nat off) (content ?n (q # qs))"
      using q r False b(4) by (simp add: length_data)
    have l: "\<forall>l \<in> set qs. pb n' l = pb ?n l" using pb'(2) qs by metis
    have "pchain (pb n') (Some q) (q # qs) None"
      by (rule pchain_frame [of "pb ?n"]) (use ok pb'(1) l in auto)
    moreover have "lens_ok (pb n') qs" by (rule lens_ok_frame [of "pb ?n"]) (use ok l in auto)
    moreover have "(\<Sum>x \<leftarrow> qs. plen (pb n' x)) = (\<Sum>x \<leftarrow> qs. plen (pb ?n x))"
      using l by (intro arg_cong [where f = sum_list] map_cong) auto
    ultimately have "chain_ok n' q (q # qs)"
      using ok l pb'(1) pay False Cons.prems(2) c
      by (auto simp: chain_ok_def movable_def has_data_def)
    moreover have "pnext (pb n' x) = pnext (pb ?n x)" for x using pb' by (cases "x = q") auto
    then have "trimmed ?n (q # qs) n'"
      using pb' l pay Cons.prems(2) False by (auto simp: trimmed_def cells_def)
    ultimately show ?thesis
      using c h False b(1) by (intro exI [of _ q] exI [of _ off] exI [of _ ?n] exI [of _ n'])
        (subst trim_loop.simps, simp add: buf_def with_net_def)
  next
    case True
    define N' where "N' = length (content ?n (q # qs)) - nat off"
    define st1 where "st1 = with_net (set_pb q (\<lambda>b. b\<lparr>tot_len := N', plen := 0\<rparr>) ?n) st"
    have n1: "pb (lnet st1) q = (pb ?n q)\<lparr>tot_len := N', plen := 0\<rparr>" "\<And>l. l \<noteq> q \<Longrightarrow> pb (lnet st1) l = pb ?n l"
      "bytes (lnet st1) = bytes ?n" "lnet st1 = ?n\<lparr>pb := pb (lnet st1)\<rparr>"
      by (auto simp: st1_def with_net_def set_pb_def)
    have qs: "q \<notin> set qs" "qs \<noteq> []" using ok True Cons.prems(3) b(4) by (auto simp: length_data)
    have l: "\<forall>l \<in> set qs. pb (lnet st1) l = pb ?n l" using n1(2) qs(1) by metis
    have "buf_data (lnet st1) x = buf_data ?n x" if "x \<in> set qs" for x
      using l that n1(3) by (simp add: buf_data_def split: option.split)
    then have c1: "content (lnet st1) qs = content ?n qs" by (rule content_cong)
    obtain p' where nx: "pnext (pb ?n q) = Some p'" using ok qs(2) by (cases qs) auto
    have "pchain (pb (lnet st1)) (Some p') qs None" by (rule pchain_frame [of "pb ?n"]) (use ok l nx in auto)
    moreover have "lens_ok (pb (lnet st1)) qs" by (rule lens_ok_frame [of "pb ?n"]) (use ok l in auto)
    ultimately have ok1: "chain_ok (lnet st1) p' qs"
      using ok l qs(2) c1 by (auto simp: chain_ok_def movable_def has_data_def)
    have len: "length (content ?n (q # qs)) = plen (pb ?n q) + length (content ?n qs)" using b(4) by (simp add: length_data)
    have N': "N' = length (content (lnet st1) qs) - nat (off - int (plen (pb ?n q)))"
      using True Cons.prems(2,3) len c1 by (simp add: N'_def nat_diff_distrib)
    obtain q2 k m n' where IH: "trim_loop N' p' (off - int (plen (pb ?n q))) st1 = Some (q2, k, with_net m st1)"
      "pbuf_header q2 (- k) m = Some (0, n')" "chain_ok n' p' qs"
      "content n' qs = drop (nat (off - int (plen (pb ?n q)))) (content (lnet st1) qs)" "trimmed (lnet st1) qs n'"
      using Cons.IH [OF ok1, of "off - int (plen (pb ?n q))" N'] N' True Cons.prems(2,3) len c1 by auto
    note t = IH(5) [unfolded trimmed_def]
    have q': "pb n' q = (pb ?n q)\<lparr>tot_len := N', plen := 0\<rparr>" using t qs(1) n1(1) by simp
    have c: "content n' (q # qs) = drop (nat off) (content ?n (q # qs))"
      using IH(4) c1 True b(4) q' Cons.prems(2) by (simp add: buf_data_def [of n'] length_data nat_diff_distrib split: option.split)
    have s: "(\<Sum>x \<leftarrow> qs. plen (pb n' x)) = N'"
      using IH(3,4) c1 len True Cons.prems(2) by (simp add: chain_ok_def flip: length_content) (simp add: N'_def nat_diff_distrib)
    have "chain_ok n' q (q # qs)"
      using IH(3) ok q' nx s c b(1) len Cons.prems
      by (auto simp: chain_ok_def movable_def)
    moreover have "trimmed ?n (q # qs) n'"
    proof -
      have "n' = ?n\<lparr>pb := pb n'\<rparr>" using t n1(4) by (metis net.surjective net.update_convs(3))
      moreover have "pnext (pb n' x) = pnext (pb ?n x)" for x using t n1(1,2) by (cases "x = q") auto
      moreover have "cells n' q = {}" by (simp add: cells_def q')
      moreover have "cells (lnet st1) x = cells ?n x" if "x \<in> set qs" for x using l that by (simp add: cells_def)
      ultimately show ?thesis using t n1(2) by (auto simp: trimmed_def)
    qed
    moreover have "trim_loop N p off st = Some (q2, k, with_net m st)"
      using IH(1) True nx Cons.prems(4) b(1) 
      by (subst trim_loop.simps) (simp add: buf_def N'_def st1_def with_net_def)
    ultimately show ?thesis using IH(2) c b(1) by blast
  qed
qed

section \<open>The segment that is processed\<close>

text \<open>The packet of the segment is \<open>ps\<close> from \<open>p\<close> on with the content \<open>xs\<close>; its header lies outside of it and has the flags \<open>f\<close>,
  without a SYN.\<close>

definition header_cells :: "dptr \<Rightarrow> (loc \<times> int) set" where
  "header_cells d = (case d of None \<Rightarrow> {} | Some (b, off) \<Rightarrow> {b} \<times> {off..<off + 20})"

definition segment :: "lan \<Rightarrow> loc \<Rightarrow> loc list \<Rightarrow> u8 list \<Rightarrow> u8 \<Rightarrow> bool" where
  "segment st p ps xs f = (s_p (inseg (tv st)) = Some p \<and> chain_ok (lnet st) p ps \<and> content (lnet st) ps = xs \<and>
     s_len (inseg (tv st)) = length xs \<and> TCPH_FLAGS (s_tcphdr (inseg (tv st))) st = Some f \<and> f AND TCP_SYN = 0 \<and>
     (\<forall>q \<in> set ps. cells (lnet st) q \<inter> header_cells (s_tcphdr (inseg (tv st))) = {}))"

text \<open>The network in front of \<open>rcv_nxt\<close> is gone, and the sequence number in the header was overwritten.\<close>

definition past_old :: "nat \<Rightarrow> u32 \<Rightarrow> net \<Rightarrow> lan \<Rightarrow> lan" where
  "past_old k r n st = set_tv (\<lambda>v. v\<lparr>inseg := (inseg v)\<lparr>s_len := s_len (inseg v) - k\<rparr>, in_seqno := r\<rparr>) (with_net n st)"

lemma net_sel [simp]: "lnet (with_net n st) = n" "tv (with_net n st) = tv st" "lnet (set_tv g st) = lnet st"
  "tcp_at (with_net n st) = tcp_at st" "lnet (set_inseg h st) = lnet st" "tv (set_inseg h st) = (tv st)\<lparr>inseg := h (inseg (tv st))\<rparr>"
  "lnet (set_tcp u e st) = lnet st" "wire (set_tcp u e st) = wire st" "wire (set_tv g st) = wire st" "wire (set_inseg h st) = wire st"
  "wire (with_net n st) = wire st" "tcp_at (set_inseg h st) = tcp_at st" "with_net n (with_net m st) = with_net n st"
  by (simp_all add: with_net_def set_tv_def set_ipst_def tv_def set_inseg_def set_tcp_def tcp_at_def fun_eq_iff)

lemma with_net_same: "with_net (lnet st) st = st"
  by (simp add: with_net_def)

lemma set_tv_net: "set_tv g (with_net n st) = with_net n (set_tv g st)" "set_tv g (set_tv h st) = set_tv (\<lambda>v. g (h v)) st"
  by (simp_all add: with_net_def set_tv_def set_ipst_def)

lemma set_inseg_net: "set_inseg h (with_net n st) = with_net n (set_inseg h st)"
  by (simp add: set_inseg_def set_tv_net)

lemma set_inseg_cong: "h (inseg (tv st)) = h' (inseg (tv st)) \<Longrightarrow> set_inseg h st = set_inseg h' st"
  by (simp add: set_inseg_def set_tv_def set_ipst_def tv_def)

lemma store_one: "store (Some (b, off)) [(i, xs)] st = Some (with_net ((lnet st)\<lparr>bytes := (bytes (lnet st))(b := (\<lambda>j.
    if off + int i \<le> j \<and> j < off + int i + int (length xs) then xs ! nat (j - (off + int i)) else bytes (lnet st) b j))\<rparr>) st)"
  by (simp add: poke_def with_net_def)

lemma flags_some: "TCPH_FLAGS d st = Some f \<Longrightarrow> \<exists>b off. d = Some (b, off) \<and> f = bytes (lnet st) b (off + 13) AND TCP_FLAGS"
  by (cases d) (auto simp: TCPH_FLAGS_def fetch_def peek_def)

lemma flags_at: "TCPH_FLAGS (Some (b, off)) st = Some (bytes (lnet st) b (off + 13) AND TCP_FLAGS)"
  by (simp add: TCPH_FLAGS_def fetch_def peek_def)

lemma four_ip_bytes: "length (ip_bytes x) = 4"
  by (simp add: ip_bytes_def)

lemma trim_front_spec:
  assumes seg: "segment st p ps xs f" and nxt: "t_rcv_nxt (tcp_at st u) = in_seqno (tv st) + word_of_nat k"
    and k: "k \<le> length xs" "k < 0x7fff"
  shows "\<exists>n. trim_front u st = Some (past_old k (t_rcv_nxt (tcp_at st u)) n st) \<and>
    segment (past_old k (t_rcv_nxt (tcp_at st u)) n st) p ps (drop k xs) f"
proof -
  let ?r = "t_rcv_nxt (tcp_at st u)" and ?n = "lnet st"
  note g = seg [unfolded segment_def]
  obtain b off where d: "s_tcphdr (inseg (tv st)) = Some (b, off)" and f: "f = bytes ?n b (off + 13) AND TCP_FLAGS"
    using flags_some [of "s_tcphdr (inseg (tv st))" st f] g by blast
  have off: "sint (?r - in_seqno (tv st)) = int k"
    using k(2) sint_small [of "int k"] by (simp add: nxt)
  have tot: "tot_len (buf st p) = length xs" using chain_ok_tot [of ?n p ps] g by (simp add: buf_def)
  obtain q j m n' where t: "trim_loop (length xs - k) p (int k) st = Some (q, j, with_net m st)" "pbuf_header q (- j) m = Some (0, n')"
    "chain_ok n' p ps" "content n' ps = drop k xs" "trimmed ?n ps n'"
    using trim_loop_spec [of st p ps "int k" "length xs - k"] g k(1) by auto
  have here: "trim_loop (length xs - k) p (int k) st = Some (p, int k, st)" if "\<not> int (plen (buf st p)) < int k"
    using that by (subst trim_loop.simps) simp
  define n where "n = n'\<lparr>bytes := (bytes n')(b := (\<lambda>j.
    if off + int 4 \<le> j \<and> j < off + int 4 + int (length (ip_bytes ?r)) then ip_bytes ?r ! nat (j - (off + int 4)) else bytes n' b j))\<rparr>"
  have loop: "(if int (plen (buf st p)) < int k then do {
         lwip_assert (int k \<le> int (tot_len (buf st p)));
         trim_loop (nat ((int (tot_len (buf st p)) - int k) mod 65536)) p (int k) st
       } else Some (p, int k, st)) = Some (q, j, with_net m st)"
  proof (cases "int (plen (buf st p)) < int k")
    case True
    have "nat ((int (length xs) - int k) mod 65536) = length xs - k" using k(1) g by (auto simp: chain_ok_def nat_diff_distrib)
    with True t(1) k(1) show ?thesis by (simp add: tot lwip_assert_def nat_diff_distrib)
  next
    case False
    with here t(1) show ?thesis by simp
  qed
  have len: "sub16 (length xs) (trunc16 (unat (?r - in_seqno (tv st)))) = length xs - k"
    using k g by (auto simp: nxt chain_ok_def sub16_def unat_of_nat trunc16_def nat_diff_distrib)
  have st: "store (Some (b, off)) [(4, ip_bytes ?r)] (set_inseg (\<lambda>s. s\<lparr>s_len := s_len s - k\<rparr>) (with_net n' st))
    = Some (with_net n (set_inseg (\<lambda>s. s\<lparr>s_len := s_len s - k\<rparr>) st))"
    unfolding store_one by (simp add: n_def set_inseg_net cong: if_cong)
  have il: "set_inseg (\<lambda>s. s\<lparr>s_len := sub16 (s_len s) (trunc16 (unat (?r - in_seqno (tv st))))\<rparr>) (with_net n' st) =
      set_inseg (\<lambda>s. s\<lparr>s_len := s_len s - k\<rparr>) (with_net n' st)"
    by (rule set_inseg_cong) (use g len in simp)
  have a1: "lwip_assert (int k < 0x7fff) = Some ()" and sp: "s_p (inseg (tv st)) = Some p"
    using k(2) g by (auto simp: lwip_assert_def)
  have "trim_front u st = Some (set_tv (\<lambda>v. v\<lparr>in_seqno := ?r\<rparr>) (with_net n (set_inseg (\<lambda>s. s\<lparr>s_len := s_len s - k\<rparr>) st)))"
    unfolding trim_front_def Let_def off
    unfolding d sp a1 bind.simps loop prod.case net_sel t(2)
    by (simp add: il st g d lwip_assert_def del: store.simps)
  then have "trim_front u st = Some (past_old k ?r n st)"
    by (simp add: past_old_def set_inseg_def set_tv_net)
  moreover have "segment (past_old k ?r n st) p ps (drop k xs) f"
  proof -
    have n: "pb n = pb n'" by (simp add: n_def)
    have cells: "cells n q \<inter> header_cells (Some (b, off)) = {}" if "q \<in> set ps" for q
    proof -
      have "cells n q = cells n' q" by (simp add: cells_def n)
      moreover have "cells n' q \<subseteq> cells (lnet st) q" using t(5) that by (simp add: trimmed_def)
      moreover have "cells (lnet st) q \<inter> header_cells (Some (b, off)) = {}" using g that d by auto
      ultimately show ?thesis by blast
    qed
    have data: "buf_data n q = buf_data n' q" if "q \<in> set ps" for q
    proof (rule data_cong)
      fix c i assume "(c, i) \<in> cells n' q"
      then have "(c, i) \<in> cells n q" by (simp add: cells_def n)
      then have "(c, i) \<notin> header_cells (Some (b, off))" using cells [OF that] by blast
      then show "bytes n c i = bytes n' c i" by (auto simp: n_def header_cells_def four_ip_bytes)
    qed (simp add: n)
    have c: "content n ps = content n' ps" by (rule content_cong) (rule data)
    have "chain_ok n p ps" using t(3) n c by (simp add: chain_ok_def has_data_def movable_def)
    moreover have "bytes n b (off + 13) = bytes (lnet st) b (off + 13)"
      using t(5) by (simp add: n_def four_ip_bytes trimmed_def) (metis net.select_convs(4) net.surjective net.update_convs(3))
    ultimately show ?thesis
      using c t(4) g k(1) cells f d by (simp add: segment_def past_old_def flags_at tcp_at_set_tv)
  qed
  ultimately show ?thesis by blast
qed

section \<open>Data in order\<close>

text \<open>The sequence numbers that the segment occupies, behind its first \<open>k\<close> bytes.\<close>

definition fin_len :: "u8 \<Rightarrow> nat" where
  "fin_len f = (if f AND TCP_FIN \<noteq> 0 then 1 else 0)"

lemma tcplen_fin: "f AND TCP_SYN = 0 \<Longrightarrow> tcplen_of n f = n + fin_len f"
  unfolding tcplen_of_def fin_len_def bit.conj_disj_distrib by simp

lemma set_tcplen_spec:
  assumes "segment st p ps xs f"
  shows "set_tcplen st = Some (set_tv (\<lambda>v. v\<lparr>in_tcplen := trunc16 (length xs + fin_len f)\<rparr>) st)"
  using assms by (auto simp: set_tcplen_def TCP_TCPLEN_def segment_def tcplen_fin)

lemma segment_cong:
  assumes "lnet st' = lnet st" "inseg (tv st') = inseg (tv st)"
  shows "segment st' p ps xs f = segment st p ps xs f"
  using assms by (simp add: segment_def TCPH_FLAGS_def fetch_def)

text \<open>The block after \<open>n\<close> numbers more were received: nothing else but the announced window and the flags for an
  acknowledgement differs.\<close>

definition took :: "nat \<Rightarrow> tcp_pcb \<Rightarrow> tcp_pcb \<Rightarrow> bool" where
  "took n t t' = (\<exists>a fl. fl AND TF_RXCLOSED = t_flags t AND TF_RXCLOSED \<and>
     t' = t\<lparr>t_rcv_nxt := t_rcv_nxt t + word_of_nat n, t_rcv_wnd := t_rcv_wnd t - n, t_rcv_ann_wnd := a, t_flags := fl\<rparr>)"

definition rest_received :: "nat \<Rightarrow> loc \<Rightarrow> loc list \<Rightarrow> u8 list \<Rightarrow> nat \<Rightarrow> lan \<Rightarrow> lan \<Rightarrow> bool" where
  "rest_received u p ps ys n st st' =
     (lnet st' = lnet st \<and> wire st' = wire st \<and> recv_data (tv st') = Some p \<and> s_p (inseg (tv st')) = None \<and>
      (\<exists>t'. tcp_at st' = (tcp_at st)(u := t') \<and> took n (tcp_at st u) t'))"

lemma tcp_ack_block: "\<exists>fl. fl AND TF_RXCLOSED = t_flags (tcp_at st u) AND TF_RXCLOSED \<and>
    tcp_ack u st = set_tcp u (\<lambda>t. t\<lparr>t_flags := fl\<rparr>) st"
proof -
  let ?f = "t_flags (tcp_at st u)"
  have "(?f AND NOT TF_ACK_DELAY OR TF_ACK_NOW) AND TF_RXCLOSED = ?f AND TF_RXCLOSED" "(?f OR TF_ACK_DELAY) AND TF_RXCLOSED = ?f AND TF_RXCLOSED"
    by (simp_all add: bit.conj_disj_distrib2 and.assoc)
  then show ?thesis unfolding tcp_ack_def by (cases "?f AND TF_ACK_DELAY = 0") (force intro: set_tcp_cong)+
qed

lemma room_after: "- 65536 \<le> room t - int n \<Longrightarrow> room t \<le> 65535 \<Longrightarrow>
  room (t\<lparr>t_rcv_nxt := t_rcv_nxt t + word_of_nat n, t_rcv_wnd := w\<rparr>) = room t - int n"
proof -
  assume a: "- 65536 \<le> room t - int n" "room t \<le> 65535"
  have eq: "t_rcv_ann_right_edge t - (t_rcv_nxt t + word_of_nat n) = word_of_int (room t - int n)"
    by (simp add: edge_room)
  have "sint (t_rcv_ann_right_edge t - (t_rcv_nxt t + word_of_nat n)) = room t - int n"
    unfolding eq by (rule sint_small) (use a in auto)
  then show ?thesis by (simp add: room_def)
qed

lemma same_memory [simp]: "TCPH_FLAGS d (set_tcp u e st) = TCPH_FLAGS d st" "TCPH_FLAGS d (set_tv g st) = TCPH_FLAGS d st"
  "TCPH_FLAGS d (set_inseg h st) = TCPH_FLAGS d st" "buf (set_tcp u e st) = buf st" "buf (set_tv g st) = buf st"
  "buf (set_inseg h st) = buf st"
  by (simp_all add: TCPH_FLAGS_def fetch_def buf_def fun_eq_iff)

lemma tcp_fields [simp]: "inseg (tv (set_tcp u e st)) = inseg (tv st)" "in_seqno (tv (set_tcp u e st)) = in_seqno (tv st)"
  "in_tcplen (tv (set_tcp u e st)) = in_tcplen (tv st)" "recv_flags (tv (set_tcp u e st)) = recv_flags (tv st)"
  "recv_data (tv (set_tcp u e st)) = recv_data (tv st)" "in_flags (tv (set_tcp u e st)) = in_flags (tv st)"
  by (simp_all add: tv_set_tcp)

lemma tcp_at_vars [simp]: "tcp_at (set_tv (\<lambda>v. v\<lparr>in_tcplen := n\<rparr>) st) = tcp_at st"
  "tcp_at (set_tv (\<lambda>v. v\<lparr>recv_data := d\<rparr>) st) = tcp_at st" "tcp_at (set_tv (\<lambda>v. v\<lparr>in_seqno := q\<rparr>) st) = tcp_at st"
  "tcp_at (set_tv (\<lambda>v. v\<lparr>recv_flags := r v\<rparr>) st) = tcp_at st"
  by (simp_all add: tcp_at_set_tv fun_eq_iff) (simp_all add: tcp_at_def)

lemmas tv_set_tv [simp] = tcp_at_set_tv(2)

lemma receive_next_spec:
  assumes seg: "segment st p ps ys f" and ys: "ys \<noteq> []" and win: "length ys + fin_len f \<le> t_rcv_wnd (tcp_at st u)"
    and ok: "window_ok (tcp_at st u)" "int (length ys + fin_len f) - 65536 \<le> room (tcp_at st u)"
    and nxt: "in_seqno (tv st) = t_rcv_nxt (tcp_at st u)"
  shows "\<exists>st'. receive_next H u st = Some st' \<and> rest_received u p ps ys (length ys + fin_len f) st st' \<and>
    (got_fin st' \<longleftrightarrow> got_fin st \<or> f AND TCP_FIN \<noteq> 0) \<and>
    recv_flags (tv st') = (if f AND TCP_FIN \<noteq> 0 then recv_flags (tv st) OR TF_GOT_FIN else recv_flags (tv st))"
proof -
  define n where "n = length ys + fin_len f"
  note win = win [folded n_def] and ok = ok [folded n_def]
  have n: "n \<le> 2920" using win ok by (simp add: window_ok_def)
  let ?a = "set_tv (\<lambda>v. v\<lparr>in_tcplen := n\<rparr>) st"
  let ?b = "set_tcp u (\<lambda>t. t\<lparr>t_rcv_nxt := t_rcv_nxt t + word_of_nat n, t_rcv_wnd := t_rcv_wnd t - n\<rparr>) ?a"
  have b: "tcp_at ?b u = (tcp_at st u)\<lparr>t_rcv_nxt := t_rcv_nxt (tcp_at st u) + word_of_nat n, t_rcv_wnd := t_rcv_wnd (tcp_at st u) - n\<rparr>"
    by (simp add: set_tcp_at)
  have "room (tcp_at ?b u) = room (tcp_at st u) - int n"
    unfolding b by (rule room_after) (use ok n in \<open>auto simp: window_ok_def\<close>)
  then have "window_ok (tcp_at ?b u)" using ok n win by (auto simp: window_ok_def b)
  from announce_eq [OF this] obtain w where w: "tcp_update_rcv_ann_wnd u ?b = Some (w, set_tcp u (\<lambda>t. t\<lparr>t_rcv_ann_wnd := announce (tcp_at ?b u)\<rparr>) ?b)" ..
  have l: "set_tcplen st = Some ?a" using set_tcplen_spec [OF seg] n by (simp add: n_def)
  have upd: "set_tcp u (\<lambda>t. t\<lparr>t_rcv_wnd := t_rcv_wnd t - n\<rparr>) (set_tcp u (\<lambda>t. t\<lparr>t_rcv_nxt := in_seqno (tv st) + word_of_nat n\<rparr>) ?a) = ?b"
    unfolding set_tcp_twice by (rule set_tcp_cong) (simp add: nxt tcp_at_set_tv tcp_at_def)
  note g = seg [unfolded segment_def]
  have win': "\<not> t_rcv_wnd (tcp_at st u) < n" using win by simp
  have tot: "0 < tot_len (buf st p)"
    using seg ys chain_ok_tot [of "lnet st" p ps] by (auto simp: segment_def buf_def)
  let ?c = "set_inseg (\<lambda>s. s\<lparr>s_p := None\<rparr>) (set_tv (\<lambda>v. v\<lparr>recv_data := Some p\<rparr>)
      (set_tcp u (\<lambda>t. t\<lparr>t_rcv_ann_wnd := announce (tcp_at ?b u)\<rparr>) ?b))"
  define z where "z = (if f AND TCP_FIN \<noteq> 0 then set_tv (\<lambda>v. v\<lparr>recv_flags := recv_flags v OR TF_GOT_FIN\<rparr>) ?c else ?c)"
  have r: "receive_next H u st = Some (tcp_ack u z)"
    unfolding receive_next_def l bind.simps Let_def z_def
    by (simp add: upd w win win' set_tcp_at g tot lwip_assert_def cong: if_cong split del: if_split)
  have z: "lnet z = lnet st" "wire z = wire st" "recv_data (tv z) = Some p" "s_p (inseg (tv z)) = None" "got_fin z \<longleftrightarrow> got_fin st \<or> f AND TCP_FIN \<noteq> 0"
    "recv_flags (tv z) = (if f AND TCP_FIN \<noteq> 0 then recv_flags (tv st) OR TF_GOT_FIN else recv_flags (tv st))"
    "tcp_at z v = (if v = u then (tcp_at ?b u)\<lparr>t_rcv_ann_wnd := announce (tcp_at ?b u)\<rparr> else tcp_at st v)" for v
    by (simp_all add: z_def got_fin_def set_tcp_at bit.conj_disj_distrib2)
  obtain fl where fl: "fl AND TF_RXCLOSED = t_flags (tcp_at z u) AND TF_RXCLOSED" "tcp_ack u z = set_tcp u (\<lambda>t. t\<lparr>t_flags := fl\<rparr>) z"
    using tcp_ack_block by blast
  have "took n (tcp_at st u) ((tcp_at z u)\<lparr>t_flags := fl\<rparr>)"
    using fl(1) unfolding took_def
    by (intro exI [of _ "announce (tcp_at ?b u)"] exI [of _ fl]) (simp add: z(7) b)
  moreover have "tcp_at (tcp_ack u z) = (tcp_at st)(u := (tcp_at z u)\<lparr>t_flags := fl\<rparr>)" by (auto simp: fl(2) set_tcp_at z(7))
  moreover have "got_fin (tcp_ack u z) = got_fin z" "recv_flags (tv (tcp_ack u z)) = recv_flags (tv z)" "wire (tcp_ack u z) = wire z" "lnet (tcp_ack u z) = lnet z"
    "recv_data (tv (tcp_ack u z)) = recv_data (tv z)" "inseg (tv (tcp_ack u z)) = inseg (tv z)"
    by (simp_all add: fl(2) got_fin_def)
  ultimately show ?thesis using r z by (auto simp: rest_received_def n_def [symmetric])
qed

lemma receive_data_next:
  assumes "in_seqno (tv st) = t_rcv_nxt (tcp_at st u)" and "in_tcplen (tv st) < 70000"
    and "0 < t_rcv_wnd (tcp_at st u)" "t_rcv_wnd (tcp_at st u) \<le> TCP_WND"
  shows "receive_data H u st = receive_next H u st"
proof -
  let ?r = "t_rcv_nxt (tcp_at st u)" and ?w = "t_rcv_wnd (tcp_at st u)" and ?n = "in_tcplen (tv st)"
  have "\<not> TCP_SEQ_LT ?r ?r" using seq_compare(1) [of 0 0 ?r] by simp
  moreover have "\<not> TCP_SEQ_BETWEEN ?r (?r + 1) (?r + word_of_nat ?n - 1)"
    using seq_between [of 0 1 "int ?n - 1" ?r] assms(2) by (simp add: algebra_simps)
  moreover have "TCP_SEQ_BETWEEN ?r ?r (?r + word_of_nat ?w - 1)"
    using seq_between [of 0 0 "int ?w - 1" ?r] assms(3,4) by (simp add: algebra_simps)
  ultimately show ?thesis by (simp add: receive_data_def Let_def assms(1))
qed

text \<open>What the reception of a segment makes of its packet and of the block.\<close>

definition delivered :: "nat \<Rightarrow> loc \<Rightarrow> loc list \<Rightarrow> u8 list \<Rightarrow> u8 \<Rightarrow> lan \<Rightarrow> lan \<Rightarrow> bool" where
  "delivered u p ps ys f st st' =
     (recv_data (tv st') = Some p \<and> s_p (inseg (tv st')) = None \<and> chain_ok (lnet st') p ps \<and> content (lnet st') ps = ys \<and>
      (\<exists>t'. tcp_at st' = (tcp_at st)(u := t') \<and> took (length ys + fin_len f) (tcp_at st u) t') \<and>
      (got_fin st' \<longleftrightarrow> got_fin st \<or> f AND TCP_FIN \<noteq> 0))"

text \<open>Claim C8: data that is next in order reaches the application whole, once and in order. Let the segment carry
  \<open>xs\<close> and possibly a FIN, with \<open>rcv_nxt\<close> \<open>k\<close> bytes into it, and let what is new fit the window. Then \<open>receive_data\<close>
  has a result in which the packet handed to the application has exactly the content \<open>drop k xs\<close>, over all its buffers
  and with consistent lengths, \<open>rcv_nxt\<close> has advanced by the new bytes and the FIN, the window has shrunk by them, the FIN
  has been noticed, and besides the announced window and the flags for an acknowledgement no other member of the
  block and no other block has changed.
\<close>

theorem in_order_data_delivered:
  assumes seg: "segment st p ps xs f" and len: "in_tcplen (tv st) = length xs + fin_len f"
    and nxt: "t_rcv_nxt (tcp_at st u) = in_seqno (tv st) + word_of_nat k" and k: "k < length xs" "k < 0x7fff"
    and win: "length xs - k + fin_len f \<le> t_rcv_wnd (tcp_at st u)" "window_ok (tcp_at st u)"
      "int (length xs - k + fin_len f) - 65536 \<le> room (tcp_at st u)"
  shows "\<exists>st'. receive_data H u st = Some st' \<and> delivered u p ps (drop k xs) f st st'"
proof -
  define n where "n = length xs + fin_len f"
  have n: "k < n" "n < 70000" "fin_len f \<le> 1" using seg k by (auto simp: segment_def chain_ok_def n_def fin_len_def)
  let ?q = "in_seqno (tv st)"
  have old: "TCP_SEQ_BETWEEN (?q + word_of_nat k) (?q + 1) (?q + word_of_nat n - 1) \<longleftrightarrow> 1 \<le> k"
    using seq_between [of "int k" 1 "int n - 1" ?q] n by (auto simp: algebra_simps)
  obtain st1 where st1: "(if TCP_SEQ_BETWEEN (t_rcv_nxt (tcp_at st u)) (?q + 1) (?q + word_of_nat (in_tcplen (tv st)) - 1) then trim_front u st
            else if TCP_SEQ_LT ?q (t_rcv_nxt (tcp_at st u)) then Some (set_flags u TF_ACK_NOW st)
            else Some st) = Some st1" and s1: "segment st1 p ps (drop k xs) f" "tcp_at st1 = tcp_at st"
      "in_seqno (tv st1) = t_rcv_nxt (tcp_at st u)" "got_fin st1 = got_fin st"
  proof (cases "k = 0")
    case True
    have eq: "t_rcv_nxt (tcp_at st u) = ?q" by (simp add: nxt True)
    have "\<not> TCP_SEQ_LT ?q ?q" using seq_compare(1) [of 0 0 ?q] by simp
    moreover have "\<not> TCP_SEQ_BETWEEN ?q (?q + 1) (?q + word_of_nat n - 1)" using old True by simp
    ultimately show ?thesis
      by (intro that [of st]) (use seg True in \<open>simp_all add: eq len n_def [symmetric]\<close>)
  next
    case False
    obtain m where m: "trim_front u st = Some (past_old k (t_rcv_nxt (tcp_at st u)) m st)"
      "segment (past_old k (t_rcv_nxt (tcp_at st u)) m st) p ps (drop k xs) f"
      using trim_front_spec [OF seg nxt] k by auto
    let ?c = "past_old k (t_rcv_nxt (tcp_at st u)) m st"
    have "tcp_at ?c = tcp_at st" "in_seqno (tv ?c) = t_rcv_nxt (tcp_at st u)" "got_fin ?c = got_fin st"
      by (simp_all add: past_old_def got_fin_def tcp_at_set_tv fun_eq_iff) (simp add: tcp_at_def)
    moreover have "TCP_SEQ_BETWEEN (t_rcv_nxt (tcp_at st u)) (?q + 1) (?q + word_of_nat (in_tcplen (tv st)) - 1)"
      using old False by (simp add: nxt len n_def [symmetric])
    ultimately show ?thesis using m that [of ?c] by simp
  qed
  let ?r = "t_rcv_nxt (tcp_at st u)" and ?w = "t_rcv_wnd (tcp_at st u)"
  have here: "TCP_SEQ_BETWEEN ?r ?r (?r + word_of_nat ?w - 1)"
    using seq_between [of 0 0 "int ?w - 1" ?r] win k by (simp add: window_ok_def algebra_simps)
  obtain st' where st': "receive_next H u st1 = Some st'" "rest_received u p ps (drop k xs) (length (drop k xs) + fin_len f) st1 st'"
    "got_fin st' \<longleftrightarrow> got_fin st1 \<or> f AND TCP_FIN \<noteq> 0"
    using receive_next_spec [OF s1(1), of u H] win k s1 by auto
  have "receive_data H u st = Some st'"
    unfolding receive_data_def Let_def st1 bind.simps using here s1 st'(1) by simp
  then show ?thesis
    using st'(2,3) s1 by (intro exI [of _ st']) (simp add: delivered_def rest_received_def segment_def)
qed

end
