(* ===== verification/TcpArrival.thy ===== *)
theory TcpArrival
  imports TcpReceive IpEcho
begin

text \<open>
  From the frame to TCP: the segment of a frame with a good checksum, as \<open>tcp_input\<close> finds it, with its header turned
  into host byte order in place.
\<close>

unbundle bit_operations_syntax

section \<open>The header in host byte order\<close>

definition host_order :: "u8 list \<Rightarrow> u8 list" where
  "host_order x = mem16 (ntohs_at x 0) @ mem16 (ntohs_at x 2) @ ip_bytes (ntohl_at x 4) @ ip_bytes (ntohl_at x 8) @
     [x ! 12, x ! 13] @ mem16 (ntohs_at x 14) @ drop 16 x"

lemma length_host_order [simp]: "length x = 20 \<Longrightarrow> length (host_order x) = 20"
  by (simp add: host_order_def four_ip_bytes)

lemma list20: "length x = 20 \<Longrightarrow> \<exists>a b c d e f g h i j k l m n p q r s t u. x = [a, b, c, d, e, f, g, h, i, j, k, l, m, n, p, q, r, s, t, u]"
  by (simp add: numeral_eq_Suc length_Suc_conv) blast

lemma blit_behind: "length a = n \<Longrightarrow> blit (n + i) ys (a @ xs) = a @ blit i ys xs"
  by (simp add: blit_def)

lemma fold_blit_behind: "length a = n \<Longrightarrow> fold (\<lambda>(i, ys). blit (n + i) ys) ws (a @ xs) = a @ fold (\<lambda>(i, ys). blit i ys) ws xs"
  by (induction ws arbitrary: xs) (auto simp: blit_behind)

lemma header_turned:
  assumes "length x = 20"
  shows "fold (\<lambda>(i, ys). blit i ys) [(0, mem16 (ntohs_at x 0)), (2, mem16 (ntohs_at x 2)), (4, ip_bytes (ntohl_at x 4)),
     (8, ip_bytes (ntohl_at x 8)), (14, mem16 (ntohs_at x 14))] (x @ data) = host_order x @ data"
proof -
  have i: "ip_bytes w = [ip_bytes w ! 0, ip_bytes w ! 1, ip_bytes w ! 2, ip_bytes w ! 3]" for w by (simp add: ip_bytes_def)
  have m: "mem16 w = [mem16 w ! 0, mem16 w ! 1]" for w by (simp add: mem16_def)
  obtain a b c d e f g h i' j k l m' n p q r s t u where x: "x = [a, b, c, d, e, f, g, h, i', j, k, l, m', n, p, q, r, s, t, u]"
    using list20 [OF assms] by blast
  define p0 p2 p14 where p: "p0 = mem16 (ntohs_at x 0)" "p2 = mem16 (ntohs_at x 2)" "p14 = mem16 (ntohs_at x 14)"
  define q4 q8 where q: "q4 = ip_bytes (ntohl_at x 4)" "q8 = ip_bytes (ntohl_at x 8)"
  have l: "length p0 = 2" "length p2 = 2" "length p14 = 2" "length q4 = 4" "length q8 = 4" by (simp_all add: p q four_ip_bytes)
  show ?thesis
    unfolding host_order_def p [symmetric] q [symmetric] by (simp add: blit_def l x)
qed

lemma host16_mem16: "host16_at (mem16 w @ xs) 0 = unat w"
  using mem16_le [of w] by (simp add: host16_at_def mem16_def)

section \<open>The segment as the code finds it\<close>

text \<open>The variables of \<open>tcp_in.c\<close> before the connection is looked for; the header \<open>x\<close> was as it came.\<close>

definition arrived :: "dptr \<Rightarrow> u8 list \<Rightarrow> nat \<Rightarrow> lan \<Rightarrow> lan" where
  "arrived d x n st = set_tv (\<lambda>v. v\<lparr>in_tcphdr := d, in_seqno := ntohl_at x 4, in_ackno := ntohl_at x 8, in_flags := x ! 13 AND TCP_FLAGS,
     in_tcplen := trunc16 (tcplen_of n (x ! 13 AND TCP_FLAGS))\<rparr>) st"

abbreviation offset_of :: "u8 list \<Rightarrow> nat" where "offset_of x \<equiv> unat (drop_bit 4 (x ! 12))"

lemma view_pseudo:
  assumes "view n e off k xs"
  shows "inet_chksum_pseudo base (Some (Pool e)) S D pr l n = Some (inet_chksum addr (pseudo_header S D pr l @ drop k xs))"
  using inet_chksum_pseudo_flat [of n "Some (Pool e)" "[Pool e]" base S D pr l addr] view_sel [OF assms] view_data [OF assms] view_short [OF assms]
  by (simp add: short_bufs_def)

lemma addrs_sel [simp]: "current_iphdr_dest (ipst (set_tv g st)) = current_iphdr_dest (ipst st)"
  "current_iphdr_src (ipst (set_tv g st)) = current_iphdr_src (ipst st)" "ipst (with_net n st) = ipst st"
  by (simp_all add: set_tv_def set_ipst_def with_net_def)

text \<open>A good segment: a header that claims to be longer than the segment stops \<open>pbuf_header\<close>; otherwise, without options, the
  connection is looked for.\<close>

lemma tcp_input_good:
  assumes v: "view (lnet st) e off 14 (a @ h @ x @ data)" and len: "length a = 14" "length h = 20" "length x = 20" and hl: "IPH_HL h = 5"
    and dest: "\<not> ip4_addr_isbroadcast (current_iphdr_dest (ipst st)) (nif H inp)" "\<not> ip_addr_ismulticast (current_iphdr_dest (ipst st))"
    and ck: "inet_chksum 0 (pseudo_header (current_iphdr_src (ipst st)) (current_iphdr_dest (ipst st)) IP_PROTO_TCP
        (word_of_nat (20 + length data)) @ x @ data) = 0"
  shows "20 + length data < offset_of x * 4 \<Longrightarrow> tcp_input H A inp (Pool e) st = None"
    and "offset_of x = 5 \<Longrightarrow> \<exists>n. tcp_input H A inp (Pool e) st =
        tcp_demux H A (Pool e) (arrived (Some (Pool e, off + 34)) x (length data) (with_net n st)) \<and>
      view n e off 54 (a @ h @ host_order x @ data) \<and> only_buf e (lnet st) n"
proof -
  let ?xs = "a @ h @ x @ data" and ?d = "Some (Pool e, off + 34)"
  define st1 where "st1 = set_tv (\<lambda>v. v\<lparr>in_tcphdr := ?d\<rparr>) st"
  have st1: "lnet st1 = lnet st" "current_iphdr_dest (ipst st1) = current_iphdr_dest (ipst st)"
    "current_iphdr_src (ipst st1) = current_iphdr_src (ipst st)" "in_tcphdr (tv st1) = ?d"
    by (simp_all add: st1_def)
  obtain n where n: "pbuf_header (Pool e) (- int 20) (lnet st) = Some (0, n)" "view n e off 34 ?xs" "only_buf e (lnet st) n"
    using view_hide [OF v, of 20] len by auto
  have pay: "payload (buf st (Pool e)) = Some (Pool e, off + 14)" using view_sel(1) [OF v] by (simp add: buf_def)
  have h: "fetch (Some (Pool e, off + 14)) 0 1 st = Some [h ! 0]"
    using fetch_view [OF v, of 14 0 1] len by (cases h) simp_all
  have hl': "IPH_HL [h ! 0] = 5" using hl by (simp add: IPH_HL_def)
  have "take 1 (drop 12 (x @ data)) = [x ! 12]" using len(3) by (simp add: take_Suc_conv_app_nth nth_append)
  then have o: "TCPH_HDRLEN ?d (with_net n st1) = Some (offset_of x)"
    using fetch_view [of "with_net n st1" e off 34 ?xs 34 12 1] n(2) len by (simp add: TCPH_HDRLEN_def)
  have tot: "tot_len (buf (with_net n st1) (Pool e)) = 20 + length data" using view_sel [OF n(2)] len by (simp add: buf_def)
  have c: "inet_chksum_pseudo (block_addr H) (Some (Pool e)) (current_iphdr_src (ipst st)) (current_iphdr_dest (ipst st)) IP_PROTO_TCP
      (word_of_nat (20 + length data)) n = Some 0"
    using view_pseudo [OF n(2), of "block_addr H" _ _ _ _ 0] ck len by simp
  have start: "set_tv (\<lambda>v. v\<lparr>in_tcphdr := data_at (Some (Pool e, off + 14)) (5 * 4)\<rparr>) st = st1" by (simp add: st1_def data_at_def add.commute)
  have five: "- int (5 * 4) = - int 20" by simp
  note start = tcp_input_def [of H A inp "Pool e" st, unfolded pay Let_def h bind.bind_lunit hl' start st1 five n(1) prod.case tot addrs_sel(3)
      not_False_eq_True]
  show "tcp_input H A inp (Pool e) st = None" if "20 + length data < offset_of x * 4"
  proof -
    have "pbuf_header (Pool e) (- int k) n = None" if "20 + length data < k" for k
      using that view_sel [OF n(2)] len by (simp add: pbuf_header_def)
    note this [OF that]
    then show ?thesis unfolding start using c dest o by (simp add: st1)
  qed
  show "\<exists>n. tcp_input H A inp (Pool e) st =
        tcp_demux H A (Pool e) (arrived ?d x (length data) (with_net n st)) \<and>
      view n e off 54 (a @ h @ host_order x @ data) \<and> only_buf e (lnet st) n" if five: "offset_of x = 5"
  proof -
    obtain n2 where n2: "pbuf_header (Pool e) (- int 20) n = Some (0, n2)" "view n2 e off 54 ?xs" "only_buf e n n2"
      using view_hide [OF n(2), of 20] len by auto
    let ?st2 = "with_net n2 st1"
    have x: "fetch ?d 0 20 ?st2 = Some x" using fetch_view [of ?st2 e off 54 ?xs 34 0 20] n2(2) len by simp
    let ?ws = "[(0, mem16 (ntohs_at x 0)), (2, mem16 (ntohs_at x 2)), (4, ip_bytes (ntohl_at x 4)), (8, ip_bytes (ntohl_at x 8)),
      (14, mem16 (ntohs_at x 14))]"
    let ?ys = "a @ h @ host_order x @ data"
    have "fold (\<lambda>(i, ys). blit (34 + i) ys) ?ws ?xs = ?ys"
      using fold_blit_behind [of "a @ h" 34 ?ws "x @ data"] header_turned [OF len(3), of data] len by simp
    moreover have "\<forall>(i, ys) \<in> set ?ws. 34 + i + length ys \<le> length ?xs" using len by (simp add: four_ip_bytes)
    ultimately obtain n3 where n3: "store ?d ?ws ?st2 = Some (with_net n3 ?st2)" "view n3 e off 54 ?ys" "only_buf e n2 n3"
      using store_view [of ?st2 e off 54 ?xs ?ws 34] n2(2) by (auto simp: with_net_def simp del: store.simps)
    have "take 1 (drop 13 (host_order x @ data)) = [x ! 13]" using len(3) by (simp add: host_order_def four_ip_bytes)
    then have f: "TCPH_FLAGS ?d (with_net n3 st1) = Some (x ! 13 AND TCP_FLAGS)"
      using fetch_view [of "with_net n3 st1" e off 54 ?ys 34 13 1] n3(2) len by (simp add: TCPH_FLAGS_def)
    have tot3: "tot_len (buf (with_net n3 st1) (Pool e)) = length data" using view_sel [OF n3(2)] len by (simp add: buf_def)
    have "tcp_input H A inp (Pool e) st = tcp_demux H A (Pool e) (arrived ?d x (length data) (with_net n3 st))"
      unfolding start using c dest o n2(1) x n3(1) f tot3 five
      by (simp add: st1 arrived_def del: store.simps) (simp add: st1_def set_tv_net)
    then show ?thesis using n3(2,3) n(3) n2(3) by (metis only_buf_trans)
  qed
qed

section \<open>From the frame\<close>

text \<open>The datagram \<open>h @ x @ data\<close> is a good segment for the interface: an IP header without options, a TCP header, data, right
  checksums.\<close>

definition good_segment :: "netif \<Rightarrow> u8 list \<Rightarrow> u8 list \<Rightarrow> u8 list \<Rightarrow> bool" where
  "good_segment n h x data = (length h = 20 \<and> length x = 20 \<and> IPH_V h = 4 \<and> IPH_HL h = 5 \<and> IPH_LEN h = 40 + length data \<and>
     IPH_OFFSET h AND 0x3fff = 0 \<and> IPH_PROTO h = IP_PROTO_TCP \<and> IPH_DEST h = ip_addr n \<and> neighbour n (IPH_SRC h) \<and>
     inet_chksum 0 h = 0 \<and>
     inet_chksum 0 (pseudo_header (IPH_SRC h) (IPH_DEST h) IP_PROTO_TCP (word_of_nat (20 + length data)) @ x @ data) = 0)"

definition forget_addrs :: "lan \<Rightarrow> lan" where
  "forget_addrs = set_ipst (\<lambda>s. s\<lparr>current_iphdr_src := IPADDR_ANY, current_iphdr_dest := IPADDR_ANY\<rparr>)"

lemma tcp_host_sel [simp]: "nif (tcp_host H A) = nif H" "hport (tcp_host H A) = hport H" "tcp_handler (tcp_host H A) = tcp_input H A"
  by (simp_all add: tcp_host_def nif_def fun_eq_iff)

text \<open>The state in which \<open>tcp_input\<close> is called.\<close>

definition at_tcp :: "u8 list \<Rightarrow> net \<Rightarrow> lan \<Rightarrow> lan" where
  "at_tcp h n st = set_ipst (at_host h) (st\<lparr>lnet := n\<rparr>)"

lemma at_tcp_sel [simp]: "lnet (at_tcp h n st) = n" "tv (at_tcp h n st) = tv st" "wire (at_tcp h n st) = wire st"
  "raw_pcbs (ipst (at_tcp h n st)) = raw_pcbs (ipst st)" "current_iphdr_dest (ipst (at_tcp h n st)) = IPH_DEST h"
  "current_iphdr_src (ipst (at_tcp h n st)) = IPH_SRC h"
  by (simp_all add: at_tcp_def set_ipst_def at_host_def tv_def)

lemma segment_reaches_tcp:
  assumes pool: "memp_ok sizes (npools (lnet st)) F" "all_plain sizes (pb (lnet st))" "F MEMP_PBUF_POOL = e # es"
    and i: "ip_interface (nif H inp)" and g: "good_segment (nif H inp) h x data" and raw: "raw_pcbs (ipst st) = None"
    and len: "length d = 6" "length s = 6" "54 + length data + length pad \<le> 600"
  shows "\<exists>off n. receive (tcp_host H A) inp [Some (d @ s @ ETHTYPE_IP @ h @ x @ data @ pad)] st =
      map_option forget_addrs (tcp_input H A inp (Pool e) (at_tcp h n st)) \<and>
    view n e off 14 ((d @ s @ ETHTYPE_IP) @ h @ x @ data) \<and> memp_ok sizes (npools n) (F(MEMP_PBUF_POOL := es))"
proof -
  note g = g [unfolded good_segment_def]
  let ?a = "d @ s @ ETHTYPE_IP"
  obtain off n where n: "receive (tcp_host H A) inp [Some (d @ s @ ETHTYPE_IP @ h @ (x @ data) @ pad)] st =
       ip_local (tcp_host H A) (Pool e) inp (at_tcp h n st)"
     "view n e off 14 (?a @ h @ x @ data)" "memp_ok sizes (npools n) (F(MEMP_PBUF_POOL := es))"
    using datagram_arrives [OF pool, of "tcp_host H A" inp h d s "x @ data" pad] i g len by (auto simp: at_tcp_def)
  let ?st = "at_tcp h n st"
  have len': "length ?a = 14" using len by simp
  have pay: "payload (buf ?st (Pool e)) = Some (Pool e, off + 14)" using view_sel(1) [OF n(2)] by (simp add: buf_def)
  have hd: "fetch (Some (Pool e, off + 14)) 0 20 ?st = Some h"
    using fetch_view [of ?st e off 14 "?a @ h @ x @ data" 14 0 20] n(2) g len' by simp
  have "take 1 (drop 9 (h @ x @ data)) = [h ! 9]" using g by (simp add: take_Suc_conv_app_nth nth_append)
  then have pr: "fetch (Some (Pool e, off + 14)) 9 1 ?st = Some [IP_PROTO_TCP]"
    using fetch_view [of ?st e off 14 "?a @ h @ x @ data" 14 9 1] n(2) g len' by (simp add: IPH_PROTO_def)
  have "ip_local (tcp_host H A) (Pool e) inp ?st = map_option forget_addrs (tcp_input H A inp (Pool e) ?st)"
    using hd pr pay raw g unfolding ip_local_def ip_dispatch_def raw_input_def
    by (simp add: raw_loop.simps map_conv_bind_option comp_def forget_addrs_def)
  then show ?thesis using n by auto
qed

lemma not_for_all: "ip_interface n \<Longrightarrow> \<not> ip4_addr_isbroadcast (ip_addr n) n \<and> \<not> ip_addr_ismulticast (ip_addr n)"
  by (simp add: ip_interface_def)

text \<open>Claim C13: a good segment whose data offset is larger than the segment stops the board: \<open>tcp_input\<close> takes the length of the
  header from the segment unchecked, and \<open>pbuf_header\<close>, asked to hide more than there is, ends in \<open>LWIP_ERROR\<close>,
  which does not return as configured. Any neighbour can send the frame, to any port, without a connection.\<close>

theorem data_offset_stops:
  assumes "memp_ok sizes (npools (lnet st)) F" "all_plain sizes (pb (lnet st))" "F MEMP_PBUF_POOL = e # es"
    and "ip_interface (nif H inp)" "good_segment (nif H inp) h x data" "raw_pcbs (ipst st) = None"
    and "length d = 6" "length s = 6" "54 + length data + length pad \<le> 600"
    and "20 + length data < offset_of x * 4"
  shows "receive (tcp_host H A) inp [Some (d @ s @ ETHTYPE_IP @ h @ x @ data @ pad)] st = None"
proof -
  obtain off n where n: "receive (tcp_host H A) inp [Some (d @ s @ ETHTYPE_IP @ h @ x @ data @ pad)] st =
      map_option forget_addrs (tcp_input H A inp (Pool e) (at_tcp h n st))" "view n e off 14 ((d @ s @ ETHTYPE_IP) @ h @ x @ data)"
    using segment_reaches_tcp [OF assms(1-9)] by blast
  have "tcp_input H A inp (Pool e) (at_tcp h n st) = None"
    by (rule tcp_input_good(1) [of _ e off "d @ s @ ETHTYPE_IP"])
      (use n(2) assms(5,7,8,10) not_for_all [OF assms(4)] in \<open>auto simp: good_segment_def\<close>)
  then show ?thesis unfolding n(1) by simp
qed

end
