(* ===== verification/TcpDelivery.thy ===== *)
theory TcpDelivery
  imports TcpArrival TcpMachine
begin

text \<open>
  A data segment on its whole way: from the frame through \<open>tcp_input\<close>, the connection of the segment and
  \<open>tcp_process\<close> to the receive callback of the application.
\<close>

unbundle bit_operations_syntax

section \<open>An acknowledgement of nothing new\<close>

text \<open>The members of a block that reception and delivery read.\<close>

definition recv_side :: "tcp_pcb \<Rightarrow> tcp_state \<times> u32 \<times> nat \<times> u32 \<times> nat \<times> u8 \<times> loc option \<times> callback option \<times> nat" where
  "recv_side t = (t_state t, t_rcv_nxt t, t_rcv_wnd t, t_rcv_ann_right_edge t, t_mss t, t_flags t, t_refused_data t, t_recv t, t_arg t)"

lemma window_update_side:
  "\<exists>t'. update_window u w st = set_tcp u (\<lambda>_. t') st \<and> recv_side t' = recv_side (tcp_at st u) \<and>
     t_unsent t' = t_unsent (tcp_at st u) \<and> t_lastack t' = t_lastack (tcp_at st u)"
proof -
  let ?f = "\<lambda>t. if TCP_SEQ_LT (t_snd_wl1 t) (in_seqno (tv st)) \<or> t_snd_wl1 t = in_seqno (tv st) \<and> TCP_SEQ_LT (t_snd_wl2 t) (in_ackno (tv st)) \<or>
           t_snd_wl2 t = in_ackno (tv st) \<and> t_snd_wnd t < w
        then t\<lparr>t_snd_wnd := w, t_snd_wnd_max := max (t_snd_wnd_max t) w, t_snd_wl1 := in_seqno (tv st), t_snd_wl2 := in_ackno (tv st),
               t_persist_cnt := (if w = 0 \<and> t_persist_backoff t = 0 then 0 else t_persist_cnt t),
               t_persist_backoff := (if w = 0 then if t_persist_backoff t = 0 then 1 else t_persist_backoff t else 0)\<rparr>
        else t"
  have "update_window u w st = set_tcp u ?f st" by (simp add: update_window_def Let_def)
  also have "\<dots> = set_tcp u (\<lambda>_. ?f (tcp_at st u)) st" by (rule set_tcp_cong) simp
  finally show ?thesis by (intro exI [of _ "?f (tcp_at st u)"] conjI) (assumption, auto simp: recv_side_def)
qed

lemma old_ack:
  assumes "in_wnd st = Some w" and "TCP_SEQ_LEQ (in_ackno (tv st)) (t_lastack (tcp_at st u))" and "t_unsent (tcp_at st u) = None"
    and "in_tcplen (tv st) \<noteq> 0"
  shows "\<exists>t'. receive_ack H u st = Some (set_tcp u (\<lambda>_. t') st) \<and> recv_side t' = recv_side (tcp_at st u) \<and> t_acked t' = 0"
proof -
  obtain t1 where t1: "update_window u w st = set_tcp u (\<lambda>_. t1) st" "recv_side t1 = recv_side (tcp_at st u)" "t_unsent t1 = None"
    "t_lastack t1 = t_lastack (tcp_at st u)"
    using window_update_side [of u w st] assms(3) by auto
  let ?t2 = "t1\<lparr>t_acked := 0, t_dupacks := 0\<rparr>"
  have dup: "receive_dupack u edge (set_tcp u (\<lambda>_. t1) st) = Some (set_tcp u (\<lambda>_. ?t2) st)" for edge
    using assms(4) by (simp add: receive_dupack_def Let_def set_tcp_twice)
  have unsent: "ack_unsent H u (set_tcp u (\<lambda>_. ?t2) st) = Some (set_tcp u (\<lambda>_. ?t2) st)"
    by (subst ack_unsent.simps) (simp add: set_tcp_at t1(3))
  define t3 where "t3 = (if t_rttest ?t2 \<noteq> 0 \<and> TCP_SEQ_LT (t_rtseq ?t2) (in_ackno (tv st)) then estimate_rtt (tcp_ticks (tv st)) ?t2 else ?t2)"
  have "receive_ack H u st = Some (set_tcp u (\<lambda>_. t3) st)"
    using assms(1,2) by (simp add: receive_ack_def Let_def t1 set_tcp_at tv_set_tcp dup unsent set_tcp_twice t3_def)
  moreover have "recv_side t3 = recv_side t1" "t_acked t3 = 0" by (simp_all add: t3_def recv_side_def estimate_rtt_def Let_def)
  ultimately show ?thesis using t1(2) by auto
qed

section \<open>The segment is processed\<close>

text \<open>The block after data of \<open>n\<close> numbers with the flags \<open>f\<close> in \<open>ESTABLISHED\<close>, for what the delivery reads of it.\<close>

definition data_taken :: "nat \<Rightarrow> u8 \<Rightarrow> tcp_pcb \<Rightarrow> tcp_pcb \<Rightarrow> bool" where
  "data_taken n f t t' = (t_state t' = (if f AND TCP_FIN \<noteq> 0 then CLOSE_WAIT else ESTABLISHED) \<and>
     t_rcv_nxt t' = t_rcv_nxt t + word_of_nat n \<and> t_rcv_wnd t' = t_rcv_wnd t - n \<and> t_acked t' = 0 \<and>
     t_flags t' AND TF_RXCLOSED = t_flags t AND TF_RXCLOSED \<and> t_refused_data t' = t_refused_data t \<and>
     t_recv t' = t_recv t \<and> t_arg t' = t_arg t)"

text \<open>A segment with the data \<open>xs\<close> is the next one of an established connection and acknowledges nothing new.\<close>

definition next_data :: "nat \<Rightarrow> u8 list \<Rightarrow> u8 \<Rightarrow> u32 \<Rightarrow> u32 \<Rightarrow> tcp_pcb \<Rightarrow> bool" where
  "next_data u xs f seqno ackno t = (t_state t = ESTABLISHED \<and> xs \<noteq> [] \<and> seqno = t_rcv_nxt t \<and> TCP_SEQ_LEQ ackno (t_lastack t) \<and>
     f AND TCP_ACK \<noteq> 0 \<and> f AND TCP_SYN = 0 \<and> f AND TCP_RST = 0 \<and> t_unsent t = None \<and>
     length xs + fin_len f \<le> t_rcv_wnd t \<and> window_ok t \<and> int (length xs + fin_len f) - 65536 \<le> room t)"

lemma data_processed:
  assumes seg: "segment st p ps xs f" and nxt: "next_data u xs f (in_seqno (tv st)) (in_ackno (tv st)) (tcp_at st u)"
    and f: "in_flags (tv st) = f" and hdr: "TCPH_HDRLEN (in_tcphdr (tv st)) st = Some 5" "in_wnd st = Some w"
    and len: "in_tcplen (tv st) = length xs + fin_len f" and fresh: "recv_flags (tv st) = 0"
  shows "\<exists>st' t'. tcp_process H A u st = Some (ERR_OK, st') \<and> lnet st' = lnet st \<and> wire st' = wire st \<and>
    recv_data (tv st') = Some p \<and> s_p (inseg (tv st')) = None \<and> tcp_at st' = (tcp_at st)(u := t') \<and>
    data_taken (length xs + fin_len f) f (tcp_at st u) t' \<and>
    recv_flags (tv st') = (if f AND TCP_FIN \<noteq> 0 then TF_GOT_FIN else 0)"
proof -
  note g = nxt [unfolded next_data_def]
  define t0 where "t0 = (tcp_at st u)\<lparr>t_tmr := (if t_flags (tcp_at st u) AND TF_RXCLOSED = 0 then tcp_ticks (tv st) else t_tmr (tcp_at st u)),
    t_keep_cnt_sent := 0\<rparr>"
  define st0 where "st0 = set_tcp u (\<lambda>t. t\<lparr>t_tmr := (if t_flags t AND TF_RXCLOSED = 0 then tcp_ticks (tv st) else t_tmr t),
    t_keep_cnt_sent := 0\<rparr>) st"
  have t0: "tcp_at st0 u = t0" by (simp add: st0_def t0_def set_tcp_at)
  have s0: "tcp_at st0 v = (if v = u then t0 else tcp_at st v)" "lnet st0 = lnet st" "in_tcphdr (tv st0) = in_tcphdr (tv st)"
    "in_ackno (tv st0) = in_ackno (tv st)" "in_tcplen (tv st0) = in_tcplen (tv st)" "in_flags (tv st0) = f"
    "t_unsent t0 = None" "t_lastack t0 = t_lastack (tcp_at st u)" "t_state t0 = ESTABLISHED" for v
    using g f by (simp_all add: st0_def t0_def set_tcp_at tv_set_tcp)
  have "TCPH_HDRLEN (in_tcphdr (tv st0)) st0 = Some 5" using hdr(1) by (simp add: s0 TCPH_HDRLEN_def fetch_def)
  then have "tcp_parseopt u st0 = Some st0" by (simp add: tcp_parseopt_def)
  then have opt: "tcp_process H A u st = map_option (\<lambda>st. (ERR_OK, st)) (process_open H u st0)"
    using g f by (simp add: tcp_process_def Let_def st0_def)
  have wnd: "in_wnd st0 = Some w" using hdr(2) by (simp add: in_wnd_def in_field_def s0 fetch_def)
  obtain t1 where t1: "receive_ack H u st0 = Some (set_tcp u (\<lambda>_. t1) st0)" "recv_side t1 = recv_side t0" "t_acked t1 = 0"
    using old_ack [OF wnd, of u H] g len by (auto simp: t0 s0)
  define st1 where "st1 = set_tcp u (\<lambda>_. t1) st0"
  have side: "recv_side t1 = recv_side (tcp_at st u)" by (simp add: t1(2)) (simp add: recv_side_def t0_def)
  then have e: "t_state t1 = ESTABLISHED" "t_rcv_nxt t1 = t_rcv_nxt (tcp_at st u)" "t_rcv_wnd t1 = t_rcv_wnd (tcp_at st u)"
    "window_ok t1 = window_ok (tcp_at st u)" "room t1 = room (tcp_at st u)" "t_flags t1 = t_flags (tcp_at st u)"
    using g by (auto simp: recv_side_def window_ok_def room_def)
  have s1: "tcp_at st1 = (tcp_at st)(u := t1)" "lnet st1 = lnet st" "wire st1 = wire st" "in_seqno (tv st1) = in_seqno (tv st)"
    "in_tcplen (tv st1) = in_tcplen (tv st)" "recv_flags (tv st1) = recv_flags (tv st)" "in_flags (tv st1) = f"
    by (auto simp: st1_def set_tcp_at st0_def f)
  have seg1: "segment st1 p ps xs f" using seg by (simp add: st1_def st0_def segment_def)
  obtain st2 where st2: "receive_next H u st1 = Some st2" "rest_received u p ps xs (length xs + fin_len f) st1 st2"
    "recv_flags (tv st2) = (if f AND TCP_FIN \<noteq> 0 then TF_GOT_FIN else 0)"
    using receive_next_spec [OF seg1, of u H] g by (auto simp: s1 e fresh)
  obtain t2 where t2: "tcp_at st2 = (tcp_at st)(u := t2)" "took (length xs + fin_len f) t1 t2"
    using st2(2) by (auto simp: rest_received_def s1)
  have n: "0 < length xs + fin_len f" "length xs + fin_len f \<le> t_rcv_wnd (tcp_at st u)" "t_rcv_wnd (tcp_at st u) \<le> TCP_WND"
    using g by (simp_all add: window_ok_def)
  have "receive_data H u st1 = Some st2"
    using receive_data_next [of st1 u H] st2(1) g n by (simp add: s1 e len)
  then have "tcp_receive H u st0 = Some st2"
    using g t1(1) n by (simp add: tcp_receive_def lwip_assert_def st1_def [symmetric] s0 s1 e len state_order)
  define st3 where "st3 = (if f AND TCP_FIN \<noteq> 0 then set_state u CLOSE_WAIT (set_flags u TF_ACK_NOW st2) else st2)"
  have fin: "recv_flags (tv st2) AND TF_GOT_FIN \<noteq> 0 \<longleftrightarrow> f AND TCP_FIN \<noteq> 0" using st2(3) by simp
  have "process_open H u st0 = Some st3"
    using \<open>tcp_receive H u st0 = Some st2\<close> fin by (simp add: process_open_def Let_def t0 s0 st3_def)
  then have "tcp_process H A u st = Some (ERR_OK, st3)" by (simp add: opt)
  moreover have "lnet st3 = lnet st" "wire st3 = wire st" "recv_data (tv st3) = Some p" "s_p (inseg (tv st3)) = None"
    "recv_flags (tv st3) = recv_flags (tv st2)"
    using st2(2) by (auto simp: st3_def rest_received_def s1 set_state_def set_flags_def)
  moreover define t3 where "t3 = tcp_at st3 u"
  have "tcp_at st3 = (tcp_at st)(u := t3)"
    by (auto simp: t3_def st3_def set_state_def set_flags_def set_tcp_at t2(1) fun_eq_iff)
  moreover have "data_taken (length xs + fin_len f) f (tcp_at st u) t3"
    using t2(2) t1(3) side
    by (auto simp: data_taken_def t3_def st3_def set_state_def set_flags_def set_tcp_at t2(1) took_def recv_side_def bit.conj_disj_distrib2 e(1))
  ultimately show ?thesis using st2(3) by auto
qed

section \<open>The connection of the segment\<close>

text \<open>What follows the receive callback: a FIN, data the application refused, output, and the end of \<open>tcp_input\<close>.\<close>

definition after_recv :: "host \<Rightarrow> tcp_app \<Rightarrow> nat \<Rightarrow> loc \<Rightarrow> err_t \<times> lan \<Rightarrow> lan option" where
  "after_recv H A u p r = (case r of (err, st) \<Rightarrow> do {
     st \<leftarrow> (if err = ERR_ABRT then Some st
            else deliver_fin H A u (if err \<noteq> ERR_OK then set_tcp u (\<lambda>t. t\<lparr>t_refused_data := Some p\<rparr>) st else st));
     let st = set_tv (\<lambda>v. v\<lparr>tcp_input_pcb := None, recv_data := None\<rparr>) st;
     (case s_p (inseg (tv st)) of
        None \<Rightarrow> Some st
      | Some q \<Rightarrow> map_option (set_inseg (\<lambda>s. s\<lparr>s_p := None\<rparr>)) (release (hport H) q st))
   })"

text \<open>The data as the application finds it, and the state of the connection then.\<close>

definition handed_up :: "nat \<Rightarrow> loc \<Rightarrow> u8 list \<Rightarrow> u8 \<Rightarrow> lan \<Rightarrow> lan \<Rightarrow> bool" where
  "handed_up u p data f st st1 = (chain_ok (lnet st1) p [p] \<and> content (lnet st1) [p] = data \<and> s_p (inseg (tv st1)) = None \<and> wire st1 = wire st \<and>
     (\<exists>t'. tcp_at st1 = (tcp_at st)(u := t') \<and> data_taken (length data + fin_len f) f (tcp_at st u) t'))"

lemma view_push: "view (set_pb (Pool e) (\<lambda>b. b\<lparr>pflags := pflags b OR PBUF_FLAG_PUSH\<rparr>) n) e off k xs = view n e off k xs"
  by (simp add: view_def pool_buf_def set_pb_def bit.conj_disj_distrib2)

text \<open>A view of a packet behind its header is the packet of a segment.\<close>

lemma view_segment:
  assumes v: "view (lnet st) e off 54 (y @ data)" and y: "length y = 54"
    and g: "s_p (inseg (tv st)) = Some (Pool e)" "s_len (inseg (tv st)) = length data" "s_tcphdr (inseg (tv st)) = Some (Pool e, off + 34)"
    and f: "TCPH_FLAGS (Some (Pool e, off + 34)) st = Some f" "f AND TCP_SYN = 0"
  shows "segment st (Pool e) [Pool e] data f"
proof -
  note s = view_sel [OF v]
  have d: "buf_data (lnet st) (Pool e) = data" using view_data [OF v] y by simp
  have "length data < 65536" using view_short [OF v] by simp
  moreover have "16 \<le> off" using v by (simp add: view_def)
  ultimately show ?thesis
    using s g f d y by (auto simp: segment_def chain_ok_def has_data_def movable_def cells_def header_cells_def)
qed

lemma connection_gets_data:
  assumes v: "view (lnet st) e off 54 (a @ h @ host_order x @ data)" and l: "length a = 14" "length h = 20" "length x = 20"
    and hdr: "in_tcphdr (tv st) = Some (Pool e, off + 34)" "in_flags (tv st) = x ! 13 AND TCP_FLAGS"
      "in_tcplen (tv st) = trunc16 (tcplen_of (length data) (x ! 13 AND TCP_FLAGS))" and five: "offset_of x = 5"
    and u: "tcp_active_pcbs (tv st) = Some u" "connection_of (unat (ntohs_at x 0)) (unat (ntohs_at x 2)) u st" "t_next (tcp_at st u) \<noteq> Some u"
    and nxt: "next_data u data (x ! 13 AND TCP_FLAGS) (in_seqno (tv st)) (in_ackno (tv st)) (tcp_at st u)"
    and app: "t_refused_data (tcp_at st u) = None" "t_recv (tcp_at st u) = Some (App g)" "t_flags (tcp_at st u) AND TF_RXCLOSED = 0"
  shows "\<exists>st1. tcp_demux H A (Pool e) st = Option.bind (on_recv A g (t_arg (tcp_at st u)) u (Some (Pool e)) ERR_OK st1) (after_recv H A u (Pool e)) \<and>
    handed_up u (Pool e) data (x ! 13 AND TCP_FLAGS) st st1 \<and> npools (lnet st1) = npools (lnet st)"
proof -
  let ?d = "Some (Pool e, off + 34)" and ?f = "x ! 13 AND TCP_FLAGS" and ?n = "length data + fin_len (x ! 13 AND TCP_FLAGS)"
  have hf: "fetch ?d i m st' = Some (take m (drop i (host_order x)))" if "view (lnet st') e off 54 (a @ h @ host_order x @ data)" "i + m \<le> 20" for st' i m
    using fetch_view [OF that(1), of 34 i m] that(2) l by simp
  have x: "take 2 (host_order x) = mem16 (ntohs_at x 0)" "take 2 (drop 2 (host_order x)) = mem16 (ntohs_at x 2)"
    "take 2 (drop 14 (host_order x)) = mem16 (ntohs_at x 14)" "drop 12 (host_order x) ! 0 = x ! 12"
    "drop 13 (host_order x) ! 0 = x ! 13"
    using l(3) by (simp_all add: host_order_def four_ip_bytes)
  have ports: "in_src st = Some (unat (ntohs_at x 0))" "in_dest st = Some (unat (ntohs_at x 2))"
    using hf [OF v, of 0 2] hf [OF v, of 2 2] host16_mem16 [of _ "[]"] by (simp_all add: in_src_def in_dest_def in_field_def hdr x)
  have "t_state (tcp_at st u) = ESTABLISHED" using nxt by (simp add: next_data_def)
  then have "find_active (unat (ntohs_at x 0)) (unat (ntohs_at x 2)) None (Some u) st = Some (Some (u, None))"
    using u(2) by (subst find_active.simps) simp
  then have demux: "tcp_demux H A (Pool e) st = input_connection H A u (Pool e) st"
    using u by (simp add: tcp_demux_def ports to_front_def lwip_assert_def)
  define st1 where "st1 = set_tv (\<lambda>v. v\<lparr>recv_data := None, recv_flags := 0\<rparr>)
    (set_inseg (\<lambda>s. s\<lparr>s_next := None, s_len := tot_len (buf st (Pool e)), s_p := Some (Pool e), s_tcphdr := in_tcphdr (tv st)\<rparr>) st)"
  define st2 where "st2 = (if in_flags (tv st1) AND TCP_PSH \<noteq> 0
    then with_net (set_pb (Pool e) (\<lambda>b. b\<lparr>pflags := pflags b OR PBUF_FLAG_PUSH\<rparr>) (lnet st1)) st1 else st1)"
  define st3 where "st3 = set_tv (\<lambda>v. v\<lparr>tcp_input_pcb := Some u\<rparr>) st2"
  have tot: "tot_len (buf st (Pool e)) = length data" using view_sel [OF v] l by (simp add: buf_def)
  have s3: "tcp_at st3 = tcp_at st" "in_tcphdr (tv st3) = ?d" "in_flags (tv st3) = ?f" "in_tcplen (tv st3) = ?n" "in_seqno (tv st3) = in_seqno (tv st)"
    "in_ackno (tv st3) = in_ackno (tv st)" "recv_flags (tv st3) = 0" "wire st3 = wire st" "npools (lnet st3) = npools (lnet st)"
  proof -
    have "length data < 65535" using view_short [OF v] by simp
    moreover have "?f AND TCP_SYN = 0" using nxt by (simp add: next_data_def)
    ultimately have "in_tcplen (tv st) = ?n" by (simp add: hdr tcplen_fin fin_len_def)
    then show "tcp_at st3 = tcp_at st" "in_tcphdr (tv st3) = ?d" "in_flags (tv st3) = ?f" "in_tcplen (tv st3) = ?n" "in_seqno (tv st3) = in_seqno (tv st)"
      "in_ackno (tv st3) = in_ackno (tv st)" "recv_flags (tv st3) = 0" "wire st3 = wire st" "npools (lnet st3) = npools (lnet st)"
      by (simp_all add: st3_def st2_def st1_def hdr tcp_at_set_tv fun_eq_iff set_pb_def) (simp_all add: tcp_at_def)
  qed
  have g3: "s_p (inseg (tv st3)) = Some (Pool e)" "s_len (inseg (tv st3)) = length data" "s_tcphdr (inseg (tv st3)) = ?d"
    by (simp_all add: st3_def st2_def st1_def hdr tot)
  have v3: "view (lnet st3) e off 54 (a @ h @ host_order x @ data)" using v by (simp add: st3_def st2_def st1_def view_push)
  have h3: "TCPH_FLAGS ?d st3 = Some ?f" "TCPH_HDRLEN (in_tcphdr (tv st3)) st3 = Some 5" "in_wnd st3 = Some (unat (ntohs_at x 14))"
    using hf [OF v3, of 13 1] hf [OF v3, of 12 1] hf [OF v3, of 14 2] five host16_mem16 [of _ "[]"]
    by (simp_all add: TCPH_FLAGS_def TCPH_HDRLEN_def in_wnd_def in_field_def s3 x)
  have seg: "segment st3 (Pool e) [Pool e] data ?f"
    by (rule view_segment [of _ e off "a @ h @ host_order x"]) (use v3 l g3 h3 nxt in \<open>auto simp: next_data_def\<close>)
  have nxt3: "next_data u data ?f (in_seqno (tv st3)) (in_ackno (tv st3)) (tcp_at st3 u)" using nxt by (simp add: s3)
  obtain st4 t4 where 4: "tcp_process H A u st3 = Some (ERR_OK, st4)" "lnet st4 = lnet st3" "wire st4 = wire st3"
    "recv_data (tv st4) = Some (Pool e)" "s_p (inseg (tv st4)) = None" "tcp_at st4 = (tcp_at st)(u := t4)"
    "data_taken ?n ?f (tcp_at st u) t4" "recv_flags (tv st4) = (if ?f AND TCP_FIN \<noteq> 0 then TF_GOT_FIN else 0)"
    using data_processed [OF seg nxt3 s3(3) h3(2,3) s3(4,7), of H A] by (auto simp: s3)
  have none: "recv_flags (tv st4) AND TF_RESET = 0" "recv_flags (tv st4) AND TF_CLOSED = 0" by (simp_all add: 4(8))
  have t4: "t_acked t4 = 0" "t_refused_data t4 = None" "t_flags t4 AND TF_RXCLOSED = 0" "t_recv t4 = Some (App g)" "t_arg t4 = t_arg (tcp_at st u)"
    using 4(7) app by (simp_all add: data_taken_def)
  have "input_process H A u st2 = Option.bind (on_recv A g (t_arg (tcp_at st u)) u (Some (Pool e)) ERR_OK st4)
      (\<lambda>(err, st). if err = ERR_ABRT then Some st
         else deliver_fin H A u (if err \<noteq> ERR_OK then set_tcp u (\<lambda>t. t\<lparr>t_refused_data := Some (Pool e)\<rparr>) st else st))"
    by (simp add: input_process_def st3_def [symmetric] 4(1) none deliver_def deliver_data_def 4(4,6) t4 lwip_assert_def event_recv_def)
  moreover have "input_connection H A u (Pool e) st = Option.bind (input_process H A u st2) (\<lambda>st.
      let st = set_tv (\<lambda>v. v\<lparr>tcp_input_pcb := None, recv_data := None\<rparr>) st in
      (case s_p (inseg (tv st)) of
         None \<Rightarrow> Some st
       | Some q \<Rightarrow> map_option (set_inseg (\<lambda>s. s\<lparr>s_p := None\<rparr>)) (release (hport H) q st)))"
  proof -
    have "t_refused_data (tcp_at st2 u) = None" using app(1) s3(1) by (simp add: st3_def fun_eq_iff tcp_at_set_tv) (simp add: tcp_at_def)
    then show ?thesis
      unfolding input_connection_def Let_def st1_def [symmetric] st2_def [symmetric] by simp
  qed
  ultimately have "tcp_demux H A (Pool e) st = Option.bind (on_recv A g (t_arg (tcp_at st u)) u (Some (Pool e)) ERR_OK st4) (after_recv H A u (Pool e))"
    unfolding demux by (simp add: after_recv_def [abs_def] case_prod_beta' Let_def)
  moreover have "handed_up u (Pool e) data ?f st st4"
    using 4 seg by (auto simp: handed_up_def segment_def s3)
  ultimately show ?thesis using 4(2) s3(9) by auto
qed

section \<open>From the frame to the application\<close>

lemma map_bind_opt: "map_option f (Option.bind m k) = Option.bind m (\<lambda>x. map_option f (k x))"
  by (cases m) simp_all

text \<open>The segment in the datagram \<open>h @ x @ data\<close> is for the connection \<open>u\<close>, the first of the active ones, which takes data for
  the callback \<open>g\<close>.\<close>

definition for_connection :: "u8 list \<Rightarrow> u8 list \<Rightarrow> u8 list \<Rightarrow> nat \<Rightarrow> nat \<Rightarrow> lan \<Rightarrow> bool" where
  "for_connection h x data u g st = (let t = tcp_at st u in
     offset_of x = 5 \<and> tcp_active_pcbs (tv st) = Some u \<and> t_next t \<noteq> Some u \<and>
     t_remote_ip t = IPH_SRC h \<and> t_local_ip t = IPH_DEST h \<and>
     t_remote_port t = unat (ntohs_at x 0) \<and> t_local_port t = unat (ntohs_at x 2) \<and>
     t_refused_data t = None \<and> t_recv t = Some (App g) \<and> t_flags t AND TF_RXCLOSED = 0 \<and>
     next_data u data (x ! 13 AND TCP_FLAGS) (ntohl_at x 4) (ntohl_at x 8) t)"


end
