(* ===== verification/TcpPorts.thy ===== *)
theory TcpPorts
  imports TcpReceive
begin

text \<open>
  The choice of a local port: the lists of control blocks as lists of numbers, and the search of
  \<open>tcp_new_port\<close> as a walk round the range of dynamic ports.
\<close>

section \<open>The lists of control blocks\<close>

fun pcb_chain :: "lan \<Rightarrow> nat option \<Rightarrow> nat list \<Rightarrow> bool" where
  "pcb_chain st po [] = (po = None)"
| "pcb_chain st po (u # us) = (po = Some u \<and> pcb_chain st (t_next (tcp_at st u)) us)"

definition ports_of :: "lan \<Rightarrow> nat list \<Rightarrow> nat set" where
  "ports_of st us = (\<lambda>u. t_local_port (tcp_at st u)) ` set us"

lemma port_on_list_eq: "pcb_chain st po us \<Longrightarrow> port_on_list port po st = Some (port \<in> ports_of st us)"
  by (induction us arbitrary: po) (subst port_on_list.simps; auto simp: ports_of_def)+

lemma port_in_use_eq:
  "(\<And>l. l \<in> set ls \<Longrightarrow> pcb_chain st (list_head l st) (us l)) \<Longrightarrow>
   port_in_use port ls st = Some (\<exists>l \<in> set ls. port \<in> ports_of st (us l))"
proof (induction ls)
  case (Cons l ls)
  then have "port_on_list port (list_head l st) st = Some (port \<in> ports_of st (us l))" by (intro port_on_list_eq) simp
  with Cons show ?case by auto
qed simp

lemma every_list: "set tcp_pcb_lists = UNIV"
  by (auto simp: tcp_pcb_lists_def) (metis pcb_list.exhaust)

section \<open>The walk\<close>

definition with_port :: "nat \<Rightarrow> lan \<Rightarrow> lan" where
  "with_port p st = set_tv (\<lambda>v. v\<lparr>tcp_port := p\<rparr>) st"

lemma with_port_sel [simp]: "tcp_port (tv (with_port p st)) = p" "tcp_at (with_port p st) = tcp_at st"
  "list_head l (with_port p st) = list_head l st" "with_port q (with_port p st) = with_port q st"
  "with_port (tcp_port (tv st)) st = st"
  by (cases l; simp add: with_port_def tcp_at_def tcp_access fun_eq_iff)+

lemma pcb_chain_port [simp]: "pcb_chain (with_port p st) po us = pcb_chain st po us"
  by (induction us arbitrary: po) simp_all

text \<open>The port \<open>k\<close> steps behind \<open>p\<close> in the circle of the dynamic ports.\<close>

definition after :: "nat \<Rightarrow> nat \<Rightarrow> nat" where
  "after p k = TCP_LOCAL_PORT_RANGE_START + (p - TCP_LOCAL_PORT_RANGE_START + k) mod 0x4000"

lemma after_step: "after p (Suc k) = (if after p k = TCP_LOCAL_PORT_RANGE_END then TCP_LOCAL_PORT_RANGE_START else trunc16 (after p k + 1))"
  by (auto simp: after_def mod_Suc trunc16_def)

lemma after_range: "after p k \<in> {TCP_LOCAL_PORT_RANGE_START..TCP_LOCAL_PORT_RANGE_END}"
proof -
  have "(p - TCP_LOCAL_PORT_RANGE_START + k) mod 0x4000 < 0x4000" by simp
  then show ?thesis by (simp add: after_def)
qed

lemma after_all: "\<exists>k. 0 < k \<and> k \<le> 0x4000 \<and> q = after p k" if "q \<in> {TCP_LOCAL_PORT_RANGE_START..TCP_LOCAL_PORT_RANGE_END}"
proof -
  define a where "a = (p - TCP_LOCAL_PORT_RANGE_START) mod 0x4000"
  define b where "b = q - TCP_LOCAL_PORT_RANGE_START"
  have ab: "a < 0x4000" "b < 0x4000" "q = TCP_LOCAL_PORT_RANGE_START + b" using that by (auto simp: a_def b_def)
  have k: "after p k = TCP_LOCAL_PORT_RANGE_START + (a + k) mod 0x4000" for k by (simp add: after_def a_def mod_simps)
  show ?thesis
  proof (cases "a < b")
    case True
    then show ?thesis using ab by (intro exI [of _ "b - a"]) (simp add: k)
  next
    case False
    then have "a + (0x4000 + b - a) = 0x4000 + b" using ab by simp
    then show ?thesis using ab False by (intro exI [of _ "0x4000 + b - a"]) (simp add: k)
  qed
qed

definition first_free :: "nat set \<Rightarrow> nat \<Rightarrow> nat \<Rightarrow> bool" where
  "first_free used p k = (0 < k \<and> k \<le> 0x4000 \<and> after p k \<notin> used \<and> (\<forall>i. 0 < i \<and> i < k \<longrightarrow> after p i \<in> used))"

lemma port_loop_spec:
  assumes "\<And>q. port_in_use q tcp_pcb_lists st = Some (q \<in> used)"
    and "\<And>q r. port_in_use q tcp_pcb_lists (with_port r st) = port_in_use q tcp_pcb_lists st"
    and "\<And>i. 0 < i \<Longrightarrow> i \<le> n \<Longrightarrow> after p i \<in> used" and "n < 0x4000"
  shows "(\<exists>k. first_free used p k \<and> new_tcp_port_loop n (with_port (after p n) st) = Some (after p k, with_port (after p k) st)) \<or>
    ((\<forall>k. 0 < k \<and> k \<le> 0x4000 \<longrightarrow> after p k \<in> used) \<and>
     new_tcp_port_loop n (with_port (after p n) st) = Some (0, with_port (after p 0x4000) st))"
  using assms(3,4)
proof (induction "0x4000 - n" arbitrary: n rule: less_induct)
  case less
  have step: "new_tcp_port_loop n (with_port (after p n) st) =
      (if after p (Suc n) \<notin> used then Some (after p (Suc n), with_port (after p (Suc n)) st)
       else if 0x3fff < n + 1 then Some (0, with_port (after p (Suc n)) st)
       else new_tcp_port_loop (Suc n) (with_port (after p (Suc n)) st))"
  proof -
    have q: "(if tcp_port (tv (with_port (after p n) st)) = TCP_LOCAL_PORT_RANGE_END then TCP_LOCAL_PORT_RANGE_START
        else trunc16 (tcp_port (tv (with_port (after p n) st)) + 1)) = after p (Suc n)"
      by (simp only: with_port_sel(1) after_step)
    have set: "set_tv (\<lambda>v. v\<lparr>tcp_port := r\<rparr>) (with_port (after p n) st) = with_port r st" for r
      using with_port_sel(4) by (simp add: with_port_def)
    show ?thesis
      by (subst new_tcp_port_loop.simps, unfold q) (simp add: Let_def set assms(1,2))
  qed
  show ?case
  proof (cases "after p (Suc n) \<in> used")
    case False
    then have "first_free used p (Suc n)" using less.prems by (auto simp: first_free_def)
    then show ?thesis using False step by auto
  next
    case True
    then have used: "after p i \<in> used" if "0 < i" "i \<le> Suc n" for i
      using less.prems that by (cases "i = Suc n") auto
    show ?thesis
    proof (cases "Suc n = 0x4000")
      case True
      then show ?thesis using used step \<open>after p (Suc n) \<in> used\<close> by auto
    next
      case False
      then show ?thesis using less.hyps [of "Suc n"] used less.prems step True by auto
    qed
  qed
qed

text \<open>Claim C12: the search for a local port ends, and finds the first one in the circle of the dynamic ports behind the one
  given last that no control block on any of the four lists has. It gives 0 only when all of them are in use, and changes
  nothing but the variable that remembers the port.\<close>

theorem new_port_free:
  assumes "\<And>l. pcb_chain st (list_head l st) (us l)"
    and "tcp_port (tv st) \<in> {TCP_LOCAL_PORT_RANGE_START..TCP_LOCAL_PORT_RANGE_END}"
  shows "let used = (\<Union>l. ports_of st (us l)); p = tcp_port (tv st) in
    (\<exists>k. first_free used p k \<and> tcp_new_port st = Some (after p k, with_port (after p k) st)) \<or>
    {TCP_LOCAL_PORT_RANGE_START..TCP_LOCAL_PORT_RANGE_END} \<subseteq> used \<and> tcp_new_port st = Some (0, st)"
proof -
  define used where "used = (\<Union>l. ports_of st (us l))"
  define p where "p = tcp_port (tv st)"
  have round: "(d + 0x4000) mod 0x4000 = d mod 0x4000" for d :: nat by (rule mod_add_self2)
  have "after p 0 = p" using assms(2) by (auto simp: after_def p_def)
  moreover have "after p 0x4000 = after p 0" unfolding after_def round by simp
  ultimately have p: "after p 0 = p" "after p 0x4000 = p" by simp_all
  have "port_in_use q tcp_pcb_lists st = Some (q \<in> used)" for q
    using port_in_use_eq [of tcp_pcb_lists st us q] assms(1) by (simp add: every_list used_def)
  moreover have "port_in_use q tcp_pcb_lists (with_port r st) = port_in_use q tcp_pcb_lists st" for q r
    using port_in_use_eq [of tcp_pcb_lists st us q] port_in_use_eq [of tcp_pcb_lists "with_port r st" us q] assms(1)
    by (simp add: ports_of_def)
  ultimately have "(\<exists>k. first_free used p k \<and> new_tcp_port_loop 0 st = Some (after p k, with_port (after p k) st)) \<or>
    ((\<forall>k. 0 < k \<and> k \<le> 0x4000 \<longrightarrow> after p k \<in> used) \<and> new_tcp_port_loop 0 st = Some (0, st))"
    using port_loop_spec [of st used 0 p] by (simp add: p) (simp add: p_def)
  moreover have "{TCP_LOCAL_PORT_RANGE_START..TCP_LOCAL_PORT_RANGE_END} \<subseteq> used" if "\<forall>k. 0 < k \<and> k \<le> 0x4000 \<longrightarrow> after p k \<in> used"
    using that after_all [of _ p] by blast
  ultimately show ?thesis by (auto simp: Let_def tcp_new_port_def used_def [symmetric] p_def [symmetric])
qed

end
