(* ===== verification/TcpErrors.thy ===== *)
theory TcpErrors
  imports TcpMachine
begin

text \<open>
  Where the fast timer does not come back.
\<close>

unbundle bit_operations_syntax

text \<open>At a block that it has seen already the loop of \<open>tcp_fasttmr\<close> stays forever.\<close>

lemma fast_loop_spins:
  assumes "t_last_timer (tcp_at st u) = tcp_timer_ctr (tv st)"
  shows "fast_loop H A (Some u) st = None"
proof -
  have "\<not> (po = Some u \<and> t_last_timer (tcp_at st u) = tcp_timer_ctr (tv st))" if "fast_loop H A po st = Some r" for po r
    by (rule fast_loop.raw_induct [where P = "\<lambda>H A po st r. \<not> (po = Some u \<and> t_last_timer (tcp_at st u) = tcp_timer_ctr (tv st))", OF _ that])
      (auto split: option.splits if_splits)
  then show ?thesis using assms by (cases "fast_loop H A (Some u) st") auto
qed

text \<open>A connection that nobody has answered, behind the first active one, is closed.\<close>

lemma close_unanswered:
  assumes w: "t_state (tcp_at st w) = SYN_SENT" "t_unsent (tcp_at st w) = None" "t_unacked (tcp_at st w) = None"
      "t_refused_data (tcp_at st w) = None" "t_flags (tcp_at st w) AND TF_ACK_DELAY = 0" "w mod 4 = 0"
    and u: "tcp_active_pcbs (tv st) = Some u" "u \<noteq> w" "t_next (tcp_at st u) = Some w"
  shows "\<exists>st'. tcp_close H w st = Some (ERR_OK, st') \<and> tcp_active_pcbs_changed (tv st') \<and> tcp_active_pcbs (tv st') = Some u \<and>
    tcp_timer_ctr (tv st') = tcp_timer_ctr (tv st) \<and> t_last_timer (tcp_at st' u) = t_last_timer (tcp_at st u)"
proof -
  define out where "out = set_tcp w (\<lambda>t. t\<lparr>t_next := None\<rparr>) (set_tcp u (\<lambda>t. t\<lparr>t_next := t_next (tcp_at st w)\<rparr>) (set_flags w TF_RXCLOSED st))"
  have out: "t_state (tcp_at out w) = SYN_SENT" "t_unsent (tcp_at out w) = None" "t_unacked (tcp_at out w) = None"
    "t_refused_data (tcp_at out w) = None" "t_flags (tcp_at out w) AND TF_ACK_DELAY = 0" "tcp_active_pcbs (tv out) = Some u"
    "tcp_timer_ctr (tv out) = tcp_timer_ctr (tv st)" "t_last_timer (tcp_at out u) = t_last_timer (tcp_at st u)"
    using w u by (simp_all add: out_def set_flags_def set_tcp_at tv_set_tcp bit.conj_disj_distrib2)
  have rmv: "TCP_RMV Active w (set_flags w TF_RXCLOSED st) = Some out"
    using u by (simp add: TCP_RMV_def rmv_loop.simps set_flags_def set_tcp_at tv_set_tcp out_def)
  define gone where "gone = set_changed True (set_tcp w (\<lambda>t. t\<lparr>t_state := CLOSED\<rparr>)
    (set_tcp w (\<lambda>t. t\<lparr>t_unacked := None, t_unsent := None, t_unsent_oversize := 0\<rparr>) (set_tcp w (\<lambda>t. t\<lparr>t_rtime := -1\<rparr>) out)))"
  have "TCP_PCB_REMOVE_ACTIVE H w (set_flags w TF_RXCLOSED st) = Some gone"
    by (simp add: TCP_PCB_REMOVE_ACTIVE_def tcp_pcb_remove_def rmv tcp_pcb_purge_def out tcp_segs_free.simps set_tcp_at Let_def lwip_assert_def gone_def)
  moreover have "tcp_close H w st = Option.bind (TCP_PCB_REMOVE_ACTIVE H w (set_flags w TF_RXCLOSED st)) (\<lambda>st. map_option (Pair ERR_OK) (put_elem MEMP_TCP_PCB w st))"
    using w by (simp add: tcp_close_def tcp_close_shutdown_def Let_def set_flags_def set_tcp_at)
  moreover obtain n where "put_elem MEMP_TCP_PCB w gone = Some (with_net n gone)"
    using w(6) by (auto simp: put_elem_def pool_put_def memp_free_def lwip_assert_def)
  moreover have "tv (with_net n gone) = tv gone" "tcp_at (with_net n gone) = tcp_at gone"
    by (simp_all add: with_net_def tv_def tcp_at_def fun_eq_iff)
  moreover have "tcp_at (set_changed True z) = tcp_at z" for z
    by (simp add: set_changed_def tcp_at_set_tv fun_eq_iff) (simp add: tcp_at_def)
  ultimately show ?thesis
    using out(6-8) u(2) by (simp add: gone_def set_tcp_at) (simp add: set_changed_def tcp_at_set_tv tv_set_tcp)
qed

text \<open>The state in which the data that was refused is offered again: the counter has moved on and the block is marked as seen.\<close>

definition offered :: "nat \<Rightarrow> lan \<Rightarrow> lan" where
  "offered u st = set_tcp u (\<lambda>t. t\<lparr>t_refused_data := None\<rparr>) (set_changed False
     (set_tcp u (\<lambda>t. t\<lparr>t_last_timer := tcp_timer_ctr (tv st) + 1\<rparr>) (set_tv (\<lambda>v. v\<lparr>tcp_timer_ctr := tcp_timer_ctr v + 1\<rparr>) st)))"

text \<open>Claim C14: the fast timer hangs when a connection is closed from a callback. Let the first active connection have data that the
  application refused, and let the application, offered the data again, take it and change the list of active
  connections, say by closing another one, while the first of the list is still a block that the timer has seen in this turn (the
  connection itself, or one that is new). Then \<open>tcp_fasttmr\<close> does not return: it starts again at the head of the list, and its loop
  only goes on to the next block from one it has not seen.\<close>

theorem fasttmr_hangs:
  assumes "tcp_active_pcbs (tv st) = Some u" and "t_last_timer (tcp_at st u) \<noteq> tcp_timer_ctr (tv st) + 1"
    and "t_refused_data (tcp_at st u) = Some p" and "t_recv (tcp_at st u) = Some (App f)" and "t_flags (tcp_at st u) AND TF_ACK_DELAY = 0"
    and "pflags (buf st p) AND PBUF_FLAG_TCP_FIN = 0"
    and "on_recv A f (t_arg (tcp_at st u)) u (Some p) ERR_OK (offered u st) = Some (ERR_OK, st')"
    and "tcp_active_pcbs_changed (tv st')" and "tcp_active_pcbs (tv st') = Some w" and "t_last_timer (tcp_at st' w) = tcp_timer_ctr (tv st')"
  shows "tcp_fasttmr H A st = None"
proof -
  let ?s1 = "set_tv (\<lambda>v. v\<lparr>tcp_timer_ctr := tcp_timer_ctr v + 1\<rparr>) st"
  have at: "tcp_at ?s1 = tcp_at st" by (simp add: tcp_at_set_tv fun_eq_iff) (simp add: tcp_at_def)
  define s2 where "s2 = set_tcp u (\<lambda>t. t\<lparr>t_last_timer := tcp_timer_ctr (tv st) + 1\<rparr>) ?s1"
  have s2: "tcp_at s2 u = (tcp_at st u)\<lparr>t_last_timer := tcp_timer_ctr (tv st) + 1\<rparr>" by (simp add: s2_def set_tcp_at at)
  have "fast_ack H u s2 = Some s2" using assms(5) by (simp add: fast_ack_def s2)
  moreover have "tcp_process_refused_data H A u (set_changed False s2) = Some (ERR_OK, st')"
  proof -
    have "tcp_at (set_changed False s2) = tcp_at s2" "buf (set_changed False s2) = buf st"
      by (simp_all add: set_changed_def s2_def tcp_at_set_tv fun_eq_iff buf_def) (simp_all add: tcp_at_def tcp_access)
    then show ?thesis
      using assms(3,4,6,7) s2 by (simp add: tcp_process_refused_data_def event_recv_def set_tcp_at offered_def s2_def [symmetric])
  qed
  moreover have "tcp_timer_ctr (tv ?s1) = tcp_timer_ctr (tv st) + 1" "tcp_active_pcbs (tv ?s1) = Some u"
    using assms(1) by (simp_all add: tcp_at_set_tv)
  ultimately have "fast_loop H A (Some u) ?s1 = fast_loop H A (Some w) st'"
    using assms(2,3,8,9) s2 by (subst fast_loop.simps) (simp add: at s2_def [symmetric])
  then show ?thesis
    using fast_loop_spins [OF assms(10)] assms(1) by (simp add: tcp_fasttmr_def Let_def tcp_at_set_tv)
qed

end
