(* ===== verification/TcpWrite.thy ===== *)
theory TcpWrite
  imports TcpMachine
begin

text \<open>
  Queueing data: \<open>tcp_write\<close> queues all of the data or nothing, for what the control block says of its queue.
\<close>

unbundle bit_operations_syntax

section \<open>What the phases leave alone\<close>

context seg_view
begin

lemma keep_prealloc: "(\<And>r st'. V st' = V st \<Longrightarrow> Q (r, st')) \<Longrightarrow> post (tcp_pbuf_prealloc H l n k u f b st) Q"
  unfolding tcp_pbuf_prealloc_def Let_def by (intro posts keep_alloc) (simp_all add: S_simps)

lemma keep_concat_buffer: "(\<And>r st'. V st' = V st \<Longrightarrow> Q (r, st')) \<Longrightarrow> post (concat_buffer H u d f n k l v st) Q"
  unfolding concat_buffer_def Let_def fetch_def
  by (intro posts keep_prealloc keep_alloc post_bind [OF post_any] keep_store) (simp_all add: S_simps)

lemma keep_segment_buffer: "(\<And>r st'. V st' = V st \<Longrightarrow> Q (r, st')) \<Longrightarrow> post (segment_buffer H u d f n k v st) Q"
  unfolding segment_buffer_def Let_def fetch_def
  by (intro posts keep_prealloc keep_alloc keep_store keep_release post_bind [OF post_any]) (simp_all add: S_simps)

lemma keep_bump_chain:
  assumes "\<And>st'. V st' = V st \<Longrightarrow> Q st'"
  shows "post (bump_chain d n po st) Q"
proof -
  have "V y = V st" if "bump_chain d n po st = Some y" for y
    apply (rule bump_chain.raw_induct [where P = "\<lambda>d n po st y. V y = V st", OF _ that])
    subgoal premises p for self d n po st y
    proof -
      have rec: "(\<And>st'. V st' = V st \<Longrightarrow> R st') \<Longrightarrow> post (self d n po st) R" for d n po st R
        using p(1) by (auto intro: postI)
      show ?thesis
        by (rule postD [OF _ p(2)]) (unfold fetch_def, intro posts post_bind [OF post_any] keep_store rec; simp add: S_simps)
    qed
    done
  with assms show ?thesis by (auto intro: postI)
qed

end

text \<open>All control blocks.\<close>

interpretation blocks: seg_view tcp_at
  by unfold_locales (simp_all add: fun_eq_iff tcp_at_def tcp_access)

section \<open>The length of the queue\<close>

lemma store_headers:
  assumes "\<And>st'. pb (lnet st') = pb (lnet st) \<Longrightarrow> tcp_at st' = tcp_at st \<Longrightarrow> Q st'"
  shows "post (store d ws st) Q"
proof -
  have "store d ws st = Some st' \<Longrightarrow> pb (lnet st') = pb (lnet st) \<and> tcp_at st' = tcp_at st" for st'
  proof (induction ws arbitrary: st)
    case (Cons w ws)
    obtain i xs where w: "w = (i, xs)" by force
    obtain n where n: "poke d (int i) xs (lnet st) = Some n" "store d ws (st\<lparr>lnet := n\<rparr>) = Some st'"
      using Cons.prems by (auto simp: w bind_eq_Some_conv)
    have "pb n = pb (lnet st)" using n(1) by (auto simp: poke_def split: option.splits if_splits)
    then show ?case using Cons.IH [OF n(2)] by (simp add: blocks.V_net)
  qed simp
  with assms show ?thesis by (auto intro: postI)
qed

lemma seg_net [simp]: "lnet (set_seg s f st) = lnet st"
  by (simp add: tcp_access)

lemma one_buffer: "pnext (pb n p) = None \<Longrightarrow> pbuf_clen (Some p) n = Some 1"
  by (simp add: pbuf_clen_def clen_loop.simps)

lemma rom_buffer: "(\<And>p n. p = None \<or> pnext (pb n (the p)) = None \<Longrightarrow> Q (p, n)) \<Longrightarrow> post (pbuf_alloc c l k PBUF_ROM n0) Q"
  unfolding pbuf_alloc_def Let_def by (simp, intro posts post_any) (auto split: option.splits)

lemma prealloc_buffer:
  assumes "\<And>r st'. tcp_at st' = tcp_at st \<Longrightarrow> r = None \<or> pnext (buf st' (fst (the r))) = None \<Longrightarrow> Q (r, st')"
  shows "post (tcp_pbuf_prealloc H l n k u f b st) Q"
  unfolding tcp_pbuf_prealloc_def Let_def by (intro posts post_any) (auto intro!: assms simp: blocks.S_simps buf_def with_net_def)

text \<open>The buffer of phase 2 is a single one.\<close>

lemma concat_buffer_one:
  assumes "\<And>st'. tcp_at st' = tcp_at st \<Longrightarrow> Q (None, st')"
    and "\<And>v' st'. tcp_at st' = tcp_at st \<Longrightarrow> pbuf_clen (v_concat_p v') (lnet st') = Some 1 \<Longrightarrow> v_queuelen v' = v_queuelen v \<Longrightarrow>
      v_last_unsent v' = v_last_unsent v \<Longrightarrow> v_queue v' = v_queue v \<Longrightarrow> Q (Some v', st')"
  shows "post (concat_buffer H u d f n k l v st) Q"
  unfolding concat_buffer_def Let_def fetch_def
  apply (intro posts prealloc_buffer rom_buffer store_headers post_any)
  apply (auto intro!: assms one_buffer simp: blocks.S_simps buf_def with_net_def set_pb_def simp del: store.simps One_nat_def)
  done

section \<open>The phases\<close>

text \<open>What the record of local variables says after a phase: no buffer more than one over the queue before.\<close>

lemma clen_one: "pbuf_clen p n = Some 1 \<Longrightarrow> Q 1 \<Longrightarrow> post (pbuf_clen p n) Q"
  by (simp add: post_def)

lemma tail_vars:
  assumes "v_queuelen v < 65535" "v_last_unsent v = None"
    and "\<And>fail v' st'. tcp_at st' = tcp_at st \<Longrightarrow> (v_last_unsent v' = None) = (t_unsent (tcp_at st u) = None) \<Longrightarrow>
      v_queuelen v' \<le> Suc (v_queuelen v) \<Longrightarrow> Q (fail, v', st')"
  shows "post (write_tail H u d len f mss v st) Q"
  unfolding write_tail_def Let_def
  apply (intro posts concat_buffer_one clen_one)
     apply (rule assms(3); simp add: assms)
  apply (rule post_any)
  apply (intro posts concat_buffer_one clen_one)
  using assms(1,2) by (auto intro!: assms(3) simp: trunc16_small simp del: One_nat_def)

lemma segment_vars:
  assumes "\<And>v' st'. tcp_at st' = tcp_at st \<Longrightarrow> v_last_unsent v' = v_last_unsent v \<Longrightarrow> Q (True, v', st')"
    and "\<And>v' st'. tcp_at st' = tcp_at st \<Longrightarrow> v_last_unsent v' = v_last_unsent v \<Longrightarrow> v_queuelen v' \<le> TCP_SND_QUEUELEN \<Longrightarrow> Q (False, v', st')"
  shows "post (write_segment H u d len f mss v st) Q"
  unfolding write_segment_def Let_def
  by (intro posts blocks.keep_segment_buffer blocks.keep_release blocks.keep_create_segment post_any)
    (auto intro!: assms simp: blocks.S_simps)

lemma loop_vars:
  assumes "\<And>fail v' st'. tcp_at st' = tcp_at st \<Longrightarrow> v_last_unsent v' = v_last_unsent v \<Longrightarrow>
      fail \<or> v_queuelen v' \<le> max TCP_SND_QUEUELEN (v_queuelen v) \<Longrightarrow> Q (fail, v', st')"
  shows "post (write_loop H u d len f mss v st) Q"
proof -
  let ?P = "\<lambda>v st (fail, v', st'). tcp_at st' = tcp_at st \<and> v_last_unsent v' = v_last_unsent v \<and>
      (fail \<or> v_queuelen v' \<le> max TCP_SND_QUEUELEN (v_queuelen v))"
  have "?P v st y" if "write_loop H u d len f mss v st = Some y" for y
    apply (rule write_loop.raw_induct [where P = "\<lambda>H u d len f mss v st y. ?P v st y", OF _ that])
    subgoal premises p for self H u d len f mss v st y
    proof -
      have rec: "(\<And>r. ?P v st r \<Longrightarrow> R r) \<Longrightarrow> post (self H u d len f mss v st) R" for H u d len f mss v st R
        using p(1) by (auto intro: postI)
      show ?thesis
        by (rule postD [OF _ p(2)]) (intro posts segment_vars rec; auto)
    qed
    done
  with assms show ?thesis by (auto intro!: postI)
qed

section \<open>Commit and release\<close>

definition committed :: "nat \<Rightarrow> tcp_write_vars \<Rightarrow> tcp_pcb \<Rightarrow> tcp_pcb" where
  "committed len v t = t\<lparr>t_unsent_oversize := v_oversize v, t_unsent := (if v_last_unsent v = None then v_queue v else t_unsent t),
     t_snd_lbb := t_snd_lbb t + word_of_nat len, t_snd_buf := sub16 (t_snd_buf t) len, t_snd_queuelen := v_queuelen v\<rparr>"

lemma commit_block:
  assumes "\<And>st'. tcp_at st' = (tcp_at st)(u := committed len v (tcp_at st u)) \<Longrightarrow> Q st'"
  shows "post (write_commit u d len f v st) Q"
proof -
  have at: "tcp_at (set_tcp u g x) = (tcp_at x)(u := g (tcp_at x u))" for g x by (auto simp: set_tcp_at)
  show ?thesis
  proof (cases "v_last_unsent v")
    case None
    show ?thesis
      unfolding write_commit_def Let_def None option.case
      by (intro posts blocks.keep_flag; (rule assms)?; simp add: at blocks.S_simps committed_def None)
  next
    case (Some l)
    show ?thesis
      unfolding write_commit_def Let_def Some option.case
      by (intro posts blocks.keep_bump_chain blocks.keep_flag post_any; (rule assms)?; simp add: at blocks.S_simps committed_def Some)
  qed
qed

lemma undo_block:
  assumes "\<And>st'. tcp_at st' = (tcp_at st)(u := (tcp_at st u)\<lparr>t_flags := t_flags (tcp_at st u) OR TF_NAGLEMEMERR\<rparr>) \<Longrightarrow> Q st'"
  shows "post (write_undo H u v st) Q"
  unfolding write_undo_def Let_def
  by (intro posts blocks.keep_release blocks.keep_segs_free) (auto intro!: assms simp: set_flags_def set_tcp_at fun_eq_iff)

section \<open>All or nothing\<close>

definition queued_all :: "nat \<Rightarrow> tcp_pcb \<Rightarrow> tcp_pcb \<Rightarrow> bool" where
  "queued_all len t t' = (len \<le> t_snd_buf t \<and> t_snd_buf t' = t_snd_buf t - len \<and> t_snd_lbb t' = t_snd_lbb t + word_of_nat len \<and>
     (0 < len \<longrightarrow> t_snd_queuelen t' \<le> TCP_SND_QUEUELEN) \<and> (t_unsent t \<noteq> None \<longrightarrow> t_unsent t' = t_unsent t) \<and>
     t' = t\<lparr>t_unsent_oversize := t_unsent_oversize t', t_unsent := t_unsent t', t_snd_lbb := t_snd_lbb t', t_snd_buf := t_snd_buf t',
            t_snd_queuelen := t_snd_queuelen t'\<rparr>)"

lemma checks_block:
  assumes "Q (ERR_CONN, st)" and "Q (ERR_MEM, set_flags u TF_NAGLEMEMERR st)"
    and "(0 < len \<Longrightarrow> len \<le> t_snd_buf (tcp_at st u) \<and> t_snd_queuelen (tcp_at st u) < TCP_SND_QUEUELEN) \<Longrightarrow> Q (ERR_OK, st)"
  shows "post (tcp_write_checks u len st) Q"
  unfolding tcp_write_checks_def Let_def by (intro posts) (use assms in auto)

lemma queued_commit:
  assumes "t_snd_buf t < 65536" and "0 < len \<Longrightarrow> len \<le> t_snd_buf t \<and> t_snd_queuelen t < TCP_SND_QUEUELEN"
    and "v_queuelen v \<le> max TCP_SND_QUEUELEN (Suc (t_snd_queuelen t))" and "(v_last_unsent v = None) = (t_unsent t = None)"
  shows "queued_all len t (committed len v t)"
proof -
  have le: "len \<le> t_snd_buf t" using assms(2) by (cases "0 < len") auto
  then have "sub16 (t_snd_buf t) len = t_snd_buf t - len" using assms(1) by (simp add: sub16_def nat_diff_distrib flip: of_nat_diff)
  then show ?thesis using assms le by (auto simp: queued_all_def committed_def)
qed


end
