(* ===== verification/TcpWitnesses.thy ===== *)
theory TcpWitnesses
  imports IpWitnesses TcpDelivery TcpPorts TcpErrors TcpWrite
begin

text \<open>
  The properties of TCP at concrete connections: a connection of the board that holds one segment of five bytes, or
  a FIN without data.
\<close>

unbundle bit_operations_syntax

section \<open>A connection and a segment\<close>

definition ex_app :: tcp_app where
  "ex_app = \<lparr>on_accept = (\<lambda>_ _ _ _ st. Some (ERR_OK, st)), on_recv = (\<lambda>_ _ _ _ _ st. Some (ERR_OK, st)),
     on_sent = (\<lambda>_ _ _ _ st. Some (ERR_OK, st)), on_connected = (\<lambda>_ _ _ _ st. Some (ERR_OK, st)),
     on_poll = (\<lambda>_ _ _ st. Some (ERR_OK, st)), on_err = (\<lambda>_ _ _ st. Some st)\<rparr>"

lemma ex_app_calm: "calm ex_app"
  by (auto simp: calm_def ex_app_def)

text \<open>The connection expects the byte 1000 and has announced its whole window.\<close>

definition ex_pcb :: "tcp_state \<Rightarrow> tcp_pcb" where
  "ex_pcb s = zero_tcp_pcb\<lparr>t_state := s, t_rcv_nxt := 1000, t_rcv_wnd := 2920, t_rcv_ann_wnd := 2920,
     t_rcv_ann_right_edge := 3920, t_mss := 1460, t_snd_nxt := 7000, t_snd_lbb := 7000, t_lastack := 7000\<rparr>"

text \<open>The segment lies in the pool buffer at the offset 0: 20 bytes of header with the flags \<open>f\<close>, then the data
  1, 2, \<dots>, of which the buffer shows \<open>n\<close> bytes.\<close>

definition ex_segment :: "u32 \<Rightarrow> nat \<Rightarrow> u8 \<Rightarrow> tcp_state \<Rightarrow> lan" where
  "ex_segment seqno n f s = (ex_lan ex_heap [])
     \<lparr>lnet := (ex_net ex_heap)\<lparr>
        pb := (\<lambda>_. \<lparr>pnext = None, payload = Some (Pool 0, 70), tot_len = n, plen = n, ptype = PBUF_POOL, pflags = 0, pref = 1\<rparr>),
        bytes := (\<lambda>_ j. if j = 62 then 0x50 else if j = 63 then f else word_of_int (j - 69))\<rparr>,
      ipst := ex_ip_state\<lparr>tcps := tcp_vars_init\<lparr>tcp_pcb_at := (\<lambda>_. ex_pcb s), tcp_active_pcbs := Some 0,
        inseg := \<lparr>s_next = None, s_p = Some (Pool 0), s_len = n, s_oversize_left = 0, s_flags = 0, s_tcphdr = Some (Pool 0, 50)\<rparr>,
        in_tcphdr := Some (Pool 0, 50), in_seqno := seqno, in_flags := f, in_tcplen := tcplen_of n f\<rparr>\<rparr>\<rparr>"

lemma ex_segment_tv: "tv (ex_segment q n f s) = tcp_vars_init\<lparr>tcp_pcb_at := (\<lambda>_. ex_pcb s), tcp_active_pcbs := Some 0,
        inseg := \<lparr>s_next = None, s_p = Some (Pool 0), s_len = n, s_oversize_left = 0, s_flags = 0, s_tcphdr = Some (Pool 0, 50)\<rparr>,
        in_tcphdr := Some (Pool 0, 50), in_seqno := q, in_flags := f, in_tcplen := tcplen_of n f\<rparr>"
  by (simp add: ex_segment_def tv_def)

lemma ex_segment_at [simp]: "tcp_at (ex_segment q n f s) u = ex_pcb s"
  by (simp add: tcp_at_def ex_segment_tv)

lemma ex_segment_net [simp]:
  "pb (lnet (ex_segment q n f s)) l = \<lparr>pnext = None, payload = Some (Pool 0, 70), tot_len = n, plen = n, ptype = PBUF_POOL, pflags = 0, pref = 1\<rparr>"
  "bytes (lnet (ex_segment q n f s)) l j = (if j = 62 then 0x50 else if j = 63 then f else word_of_int (j - 69))"
  by (simp_all add: ex_segment_def)

lemma ex_pcb_ok: "window_ok (ex_pcb s)" "room (ex_pcb s) = 2920"
proof -
  show "room (ex_pcb s) = 2920" by (simp add: room_def ex_pcb_def)
  then show "window_ok (ex_pcb s)" by (simp add: window_ok_def) (simp add: ex_pcb_def)
qed

section \<open>Witnesses\<close>

theorem window_never_shrinks_witness:
  "\<exists>w st'. tcp_update_rcv_ann_wnd 0 (ex_segment 1000 0 1 ESTABLISHED) = Some (w, st') \<and> t_rcv_ann_wnd (tcp_at st' 0) = 2920"
  using window_never_shrinks [of "ex_segment 1000 0 1 ESTABLISHED" 0] ex_pcb_ok [of ESTABLISHED]
  by (auto simp: Let_def) (simp_all add: ex_pcb_def)

text \<open>Two of the five bytes are old, and the segment carries a FIN.\<close>

lemma ex_segment_is: "segment (ex_segment q 5 1 s) (Pool 0) [Pool 0] [1, 2, 3, 4, 5] 1"
  by (auto simp: segment_def ex_segment_tv chain_ok_def has_data_def movable_def buf_data_def flags_at header_cells_def cells_def upt_rec)

theorem in_order_data_delivered_witness:
  "\<exists>st'. receive_data ex_host 0 (ex_segment 998 5 1 ESTABLISHED) = Some st' \<and> content (lnet st') [Pool 0] = [3, 4, 5] \<and>
     t_rcv_nxt (tcp_at st' 0) = 1004 \<and> got_fin st'"
proof -
  have "in_tcplen (tv (ex_segment 998 5 1 ESTABLISHED)) = length ([1, 2, 3, 4, 5] :: u8 list) + fin_len 1"
    "t_rcv_nxt (tcp_at (ex_segment 998 5 1 ESTABLISHED) 0) = in_seqno (tv (ex_segment 998 5 1 ESTABLISHED)) + word_of_nat 2"
    by (simp_all add: ex_segment_tv tcplen_of_def fin_len_def) (simp add: ex_pcb_def)
  from in_order_data_delivered [OF ex_segment_is this, of ex_host]
  have "\<exists>st'. receive_data ex_host 0 (ex_segment 998 5 1 ESTABLISHED) = Some st' \<and>
      delivered 0 (Pool 0) [Pool 0] [3, 4, 5] 1 (ex_segment 998 5 1 ESTABLISHED) st'"
    using ex_pcb_ok [of ESTABLISHED] by (simp add: fin_len_def) (simp add: ex_pcb_def)
  then show ?thesis by (auto simp: delivered_def fin_len_def took_def) (simp add: ex_pcb_def)
qed

text \<open>The FIN moves the connection to \<open>CLOSE_WAIT\<close>.\<close>

lemma ex_fin_processed: "\<exists>st'. tcp_process ex_host ex_app 0 (ex_segment 1000 5 1 ESTABLISHED) = Some (ERR_OK, st') \<and> got_fin st'"
proof -
  let ?st = "ex_segment 1000 5 1 ESTABLISHED"
  define pre where "pre = set_tcp 0 (\<lambda>t. t\<lparr>t_tmr := (if t_flags t AND TF_RXCLOSED = 0 then tcp_ticks (tv ?st) else t_tmr t),
    t_keep_cnt_sent := 0\<rparr>) ?st"
  have s: "t_state (ex_pcb ESTABLISHED) = ESTABLISHED" "in_flags (tv ?st) = 1" by (simp_all add: ex_pcb_def ex_segment_tv)
  have pre: "lnet pre = lnet ?st" "inseg (tv pre) = inseg (tv ?st)" "in_tcphdr (tv pre) = Some (Pool 0, 50)" "in_flags (tv pre) = 1"
    "in_seqno (tv pre) = 1000" "in_tcplen (tv pre) = 6"
    "tcp_at pre 0 = (ex_pcb ESTABLISHED)\<lparr>t_tmr := 0, t_keep_cnt_sent := 0\<rparr>"
    by (simp_all add: pre_def tv_set_tcp set_tcp_at) (simp_all add: ex_segment_tv tcplen_of_def tcp_vars_init_def ex_pcb_def zero_tcp_pcb_def)
  have opt: "tcp_parseopt 0 pre = Some pre"
    by (simp add: tcp_parseopt_def TCPH_HDRLEN_def fetch_def peek_def pre)
  have seg: "segment pre (Pool 0) [Pool 0] [1, 2, 3, 4, 5] 1"
    using ex_segment_is [of 1000 ESTABLISHED] pre by (simp add: segment_def TCPH_FLAGS_def fetch_def)
  have win: "window_ok (tcp_at pre 0)" "room (tcp_at pre 0) = 2920"
    using ex_pcb_ok [of ESTABLISHED] by (simp_all add: pre(7) window_ok_def room_def)
  have "t_rcv_nxt (tcp_at pre 0) = 1000" "t_rcv_wnd (tcp_at pre 0) = 2920" by (simp_all add: pre(7)) (simp_all add: ex_pcb_def)
  note t = this win
  obtain st' where st': "receive_next ex_host 0 pre = Some st'" "got_fin st'"
    using receive_next_spec [OF seg, of 0 ex_host] t pre(5) by (auto simp: fin_len_def)
  have "tcp_receive ex_host 0 pre = Some st'"
    using st'(1) t s by (simp add: tcp_receive_def receive_data_def Let_def pre(4,5,6) lwip_assert_def TCP_SEQ_BETWEEN_def
      TCP_SEQ_GEQ_def TCP_SEQ_LEQ_def TCP_SEQ_LT_def) (simp add: pre(7) s state_order)
  then show ?thesis
    using st'(2) by (simp add: tcp_process_def Let_def s pre_def [symmetric] opt process_open_def pre)
      (simp add: got_fin_def)
qed


text \<open>A connection that has not been answered is closed.\<close>

lemma ex_close: "\<exists>st'. tcp_close ex_host 0 (ex_segment 0 0 0 SYN_SENT) = Some (ERR_OK, st')"
proof -
  let ?st = "set_flags 0 TF_RXCLOSED (ex_segment 0 0 0 SYN_SENT)"
  have s: "tcp_close ex_host 0 (ex_segment 0 0 0 SYN_SENT) = Option.bind (TCP_PCB_REMOVE_ACTIVE ex_host 0 ?st)
      (\<lambda>st. map_option (Pair ERR_OK) (put_elem MEMP_TCP_PCB 0 st))"
    by (simp add: tcp_close_def) (simp add: tcp_close_shutdown_def Let_def ex_pcb_def set_flags_def set_tcp_at)
  define out where "out = set_tcp 0 (\<lambda>t. t\<lparr>t_next := None\<rparr>) (set_head Active None ?st)"
  have out: "t_state (tcp_at out 0) = SYN_SENT" "t_flags (tcp_at out 0) AND TF_ACK_DELAY = 0" "t_refused_data (tcp_at out 0) = None"
    "t_unsent (tcp_at out 0) = None" "t_unacked (tcp_at out 0) = None"
    by (simp_all add: out_def set_tcp_at set_flags_def tcp_at_set_tv tv_set_tcp)
      (simp_all add: tcp_at_def tv_set_tcp ex_segment_tv ex_pcb_def zero_tcp_pcb_def set_tcp_at)
  have "TCP_RMV Active 0 ?st = Some out"
    by (simp add: TCP_RMV_def out_def set_flags_def tv_set_tcp set_tcp_at) (simp add: ex_segment_tv ex_pcb_def zero_tcp_pcb_def)
  then have "\<exists>st'. TCP_PCB_REMOVE_ACTIVE ex_host 0 ?st = Some st'"
    by (simp add: TCP_PCB_REMOVE_ACTIVE_def tcp_pcb_remove_def tcp_pcb_purge_def out tcp_segs_free.simps set_tcp_at Let_def lwip_assert_def)
  then show ?thesis unfolding s by (auto simp: put_elem_def pool_put_def memp_free_def lwip_assert_def)
qed


section \<open>A frame for the connection\<close>

text \<open>The neighbour 192.168.1.7 sends four bytes from its port 5000 to port 80; \<open>offs\<close> is the byte with the data offset and
  \<open>ck\<close> the checksum.\<close>

definition ex_ip_hdr :: "u8 list" where
  "ex_ip_hdr = [0x45, 0, 0, 0x2c, 0, 1, 0, 0, 0x40, 6, 0xf7, 0x69, 0xc0, 0xa8, 1, 7, 0xc0, 0xa8, 1, 0xa]"

definition ex_tcp_hdr :: "u8 \<Rightarrow> u8 list \<Rightarrow> u8 list" where
  "ex_tcp_hdr offs ck = [0x13, 0x88, 0, 0x50, 0, 0, 3, 0xe8, 0, 0, 0x1b, 0x58, offs, 0x18, 0x10, 0] @ ck @ [0, 0]"

lemma ex_ip_hdr_fields: "length ex_ip_hdr = 20" "IPH_V ex_ip_hdr = 4" "IPH_HL ex_ip_hdr = 5" "IPH_LEN ex_ip_hdr = 44"
  "IPH_OFFSET ex_ip_hdr AND 0x3fff = 0" "IPH_PROTO ex_ip_hdr = 6" "IPH_DEST ex_ip_hdr = 0x0a01a8c0" "IPH_SRC ex_ip_hdr = 0x0701a8c0"
  "inet_chksum 0 ex_ip_hdr = 0"
  by (simp_all add: ex_ip_hdr_def IPH_V_def IPH_HL_def IPH_LEN_def IPH_OFFSET_def IPH_PROTO_def IPH_DEST_def IPH_SRC_def ntohs_at_def
      ip_of_bytes_def le32_def inet_chksum_zero)

lemma ex_pseudo: "pseudo_header 0x0701a8c0 0x0a01a8c0 6 24 = [0xc0, 0xa8, 1, 7, 0xc0, 0xa8, 1, 10, 0, 6, 0, 24]"
  by (simp add: pseudo_header_def mem32_def mem16be_def)

lemma ex_good: "good_segment ex_nif ex_ip_hdr (ex_tcp_hdr 0x50 [0xe5, 0x48]) [1, 2, 3, 4]"
  "good_segment ex_nif ex_ip_hdr (ex_tcp_hdr 0xf0 [0x45, 0x48]) [1, 2, 3, 4]"
  by (simp_all add: good_segment_def ex_ip_hdr_fields ex_interface ex_pseudo) (simp_all add: ex_tcp_hdr_def inet_chksum_zero)

theorem data_offset_stops_witness:
  "receive (tcp_host ex_host ex_app) 0 [Some ([2, 0, 0, 0, 0, 1] @ [9, 9, 9, 9, 9, 9] @ ETHTYPE_IP @ ex_ip_hdr @ ex_tcp_hdr 0xf0 [0x45, 0x48] @
     [1, 2, 3, 4] @ [0, 0])] (ex_lan ex_heap ex_table) = None"
proof -
  obtain e es where F: "rev (elems (\<lambda>_. 616) MEMP_PBUF_POOL) = e # es" using ex_pool by blast
  show ?thesis
    by (rule data_offset_stops [of "\<lambda>_. 616" _ "\<lambda>t. rev (elems (\<lambda>_. 616) t)" e es])
      (use ex_net_ok [of ex_heap] F ex_interface ex_good in \<open>simp_all add: ex_tcp_hdr_def\<close>)
qed

text \<open>The connection takes the frame, and its callback sees the four bytes.\<close>

definition ex_conn :: tcp_pcb where
  "ex_conn = (ex_pcb ESTABLISHED)\<lparr>t_local_ip := 0x0a01a8c0, t_remote_ip := 0x0701a8c0, t_local_port := 80, t_remote_port := 5000,
     t_recv := Some (App 1)\<rparr>"

definition ex_conn_lan :: lan where
  "ex_conn_lan = (ex_lan ex_heap ex_table)\<lparr>ipst := ex_ip_state\<lparr>tcps := tcp_vars_init\<lparr>tcp_pcb_at := (\<lambda>_. ex_conn), tcp_active_pcbs := Some 0\<rparr>\<rparr>\<rparr>"

definition ex_reader :: tcp_app where
  "ex_reader = ex_app\<lparr>on_recv := (\<lambda>_ _ _ p _ st. if content (lnet st) [the p] = [1, 2, 3, 4] then Some (ERR_ABRT, st) else None)\<rparr>"

lemma ex_conn_sel [simp]: "tcp_at ex_conn_lan u = ex_conn" "tcp_active_pcbs (tv ex_conn_lan) = Some 0" "tcp_port (tv ex_conn_lan) = 0xc000"
  "lnet ex_conn_lan = ex_net ex_heap" "raw_pcbs (ipst ex_conn_lan) = None"
  by (simp_all add: ex_conn_lan_def tcp_at_def tv_def tcp_vars_init_def)

lemma ex_for_connection: "for_connection ex_ip_hdr (ex_tcp_hdr 0x50 [0xe5, 0x48]) [1, 2, 3, 4] 0 1 ex_conn_lan"
proof -
  have "window_ok ex_conn" "room ex_conn = 2920"
    using ex_pcb_ok [of ESTABLISHED] by (simp_all add: ex_conn_def window_ok_def room_def)
  moreover have "t_rcv_nxt ex_conn = 1000" "t_lastack ex_conn = 7000" "t_rcv_wnd ex_conn = 2920" "t_state ex_conn = ESTABLISHED"
    "t_local_ip ex_conn = 0x0a01a8c0" "t_remote_ip ex_conn = 0x0701a8c0" "t_local_port ex_conn = 80" "t_remote_port ex_conn = 5000"
    "t_recv ex_conn = Some (App 1)" "t_next ex_conn = None" "t_refused_data ex_conn = None" "t_flags ex_conn = 0" "t_unsent ex_conn = None"
    by (simp_all add: ex_conn_def ex_pcb_def zero_tcp_pcb_def)
  ultimately show ?thesis
    by (simp add: for_connection_def next_data_def ex_ip_hdr_fields fin_len_def Let_def)
      (simp add: ex_tcp_hdr_def ntohs_at_def ntohl_at_def le32_def TCP_SEQ_LEQ_def)
qed


section \<open>Ports\<close>

theorem new_port_free_witness:
  "\<exists>k. tcp_new_port ex_conn_lan = Some (after 0xc000 k, with_port (after 0xc000 k) ex_conn_lan) \<and> after 0xc000 k \<noteq> 80"
proof -
  have lists: "pcb_chain ex_conn_lan (list_head l ex_conn_lan) (if l = Active then [0] else [])" for l
    by (cases l) (simp_all add: ex_conn_def ex_pcb_def zero_tcp_pcb_def, simp_all add: ex_conn_lan_def tv_def tcp_vars_init_def)
  have used: "(\<Union>l. ports_of ex_conn_lan (if l = Active then [0] else [])) = {80}"
    by (auto simp: ports_of_def ex_conn_def intro: exI [of _ Active])
  have "\<not> {TCP_LOCAL_PORT_RANGE_START..TCP_LOCAL_PORT_RANGE_END} \<subseteq> {80}"
  proof
    assume "{TCP_LOCAL_PORT_RANGE_START..TCP_LOCAL_PORT_RANGE_END} \<subseteq> {80}"
    then have "TCP_LOCAL_PORT_RANGE_START \<in> {80}" by (rule subsetD) simp
    then show False by simp
  qed
  then show ?thesis
    using new_port_free [of ex_conn_lan "\<lambda>l. if l = Active then [0] else []", OF lists]
    by (auto simp: used Let_def first_free_def)
qed

section \<open>The fast timer\<close>

text \<open>The callback of the first connection closes the second one, which waits for an answer to its SYN.\<close>

definition ex_refuser :: tcp_pcb where
  "ex_refuser = ex_conn\<lparr>t_refused_data := Some (Rom 4), t_next := Some 4\<rparr>"

definition ex_two :: lan where
  "ex_two = (ex_lan ex_heap ex_table)\<lparr>ipst := ex_ip_state\<lparr>tcps := tcp_vars_init\<lparr>
     tcp_pcb_at := (\<lambda>u. if u = 0 then ex_refuser else ex_pcb SYN_SENT), tcp_active_pcbs := Some 0\<rparr>\<rparr>\<rparr>"

definition ex_closer :: tcp_app where
  "ex_closer = ex_app\<lparr>on_recv := (\<lambda>_ _ _ _ _ st. tcp_close ex_host 4 st)\<rparr>"

lemma ex_two_at [simp]: "tcp_at ex_two u = (if u = 0 then ex_refuser else ex_pcb SYN_SENT)" "tcp_active_pcbs (tv ex_two) = Some 0"
  "tcp_timer_ctr (tv ex_two) = 0"
  by (simp_all add: ex_two_def tcp_at_def tv_def tcp_vars_init_def)

lemma ex_offered: "tcp_at (offered 0 ex_two) u = (if u = 0 then ex_refuser\<lparr>t_refused_data := None, t_last_timer := 1\<rparr> else ex_pcb SYN_SENT)"
  "tcp_active_pcbs (tv (offered 0 ex_two)) = Some 0" "tcp_timer_ctr (tv (offered 0 ex_two)) = 1"
  by (simp_all add: offered_def set_tcp_at tv_set_tcp set_changed_def tcp_at_set_tv)
    (simp_all add: tcp_at_def tcp_access ex_two_def)

theorem fasttmr_hangs_witness: "tcp_fasttmr ex_host ex_closer ex_two = None"
proof -
  obtain st' where st': "tcp_close ex_host 4 (offered 0 ex_two) = Some (ERR_OK, st')" "tcp_active_pcbs_changed (tv st')"
    "tcp_active_pcbs (tv st') = Some 0" "tcp_timer_ctr (tv st') = 1" "t_last_timer (tcp_at st' 0) = 1"
    using close_unanswered [of "offered 0 ex_two" 4 0 ex_host]
    by (auto simp: ex_offered) (auto simp: ex_refuser_def ex_pcb_def zero_tcp_pcb_def)
  have "t_recv ex_refuser = Some (App 1)" "t_flags ex_refuser = 0" "t_last_timer ex_refuser = 0" "t_arg ex_refuser = 0"
    "t_refused_data ex_refuser = Some (Rom 4)"
    by (simp_all add: ex_refuser_def ex_conn_def ex_pcb_def zero_tcp_pcb_def)
  moreover have "pflags (buf ex_two (Rom 4)) = 0" by (simp add: ex_two_def buf_def ex_net_def ex_buf_def)
  ultimately show ?thesis
    using st' by (intro fasttmr_hangs [of _ 0 "Rom 4" 1 _ st' 0]) (simp_all add: ex_closer_def)
qed

section \<open>Queueing\<close>

text \<open>The connection has room for 100 bytes and is given five.\<close>

definition ex_writer :: lan where
  "ex_writer = set_tcp 0 (\<lambda>t. t\<lparr>t_snd_buf := 100, t_snd_wnd_max := 2000\<rparr>) ex_conn_lan"

lemma ex_writer_at: "tcp_at ex_writer 0 = ex_conn\<lparr>t_snd_buf := 100, t_snd_wnd_max := 2000\<rparr>" "lnet ex_writer = ex_net ex_heap"
  by (simp_all add: ex_writer_def set_tcp_at)

lemma ex_conn_idle: "t_unsent ex_conn = None" "t_unacked ex_conn = None" "t_snd_queuelen ex_conn = 0" "t_state ex_conn = ESTABLISHED"
  "t_unsent_oversize ex_conn = 0" "t_mss ex_conn = 1460" "t_flags ex_conn = 0" "t_snd_lbb ex_conn = 7000" "t_snd_buf ex_conn = 0"
  by (simp_all add: ex_conn_def ex_pcb_def zero_tcp_pcb_def)

definition no_vars :: tcp_write_vars where
  "no_vars = \<lparr>v_concat_p = None, v_last_unsent = None, v_seg = None, v_prev_seg = None, v_queue = None, v_pos = 0,
     v_queuelen = 0, v_oversize = 0, v_oversize_used = 0\<rparr>"

lemma store_some: "\<exists>n. store (Some (b, off)) ws st = Some (with_net n st) \<and> pb n = pb (lnet st) \<and> npools n = npools (lnet st)"
proof (induction ws arbitrary: st)
  case Nil
  then show ?case by (intro exI [of _ "lnet st"]) (simp add: with_net_same)
next
  case (Cons w ws)
  obtain i xs where w: "w = (i, xs)" by force
  obtain n where n: "poke (Some (b, off)) (int i) xs (lnet st) = Some n" "pb n = pb (lnet st)" "npools n = npools (lnet st)"
    by (simp add: poke_def)
  then show ?case using Cons.IH [of "with_net n st"] by (auto simp: w with_net_def)
qed

lemma ex_buffer: "\<exists>r st'. segment_buffer ex_host 0 (Some (Rom 4, 0)) TCP_WRITE_FLAG_COPY 5 1000 no_vars ex_writer = Some (Some (Ram r, 0), st') \<and>
   payload (buf st' (Ram r)) = Some (Ram r, 72) \<and> pnext (buf st' (Ram r)) = None \<and> tot_len (buf st' (Ram r)) = 5 \<and>
   plen (buf st' (Ram r)) = 5 \<and> ptype (buf st' (Ram r)) = PBUF_RAM \<and> npools (lnet st') = npools (ex_net ex_heap) \<and> tcp_at st' = tcp_at ex_writer"
proof -
  obtain r hp where m: "mem_malloc 80 ex_heap = Some (Some r, hp)"
    using mem_malloc_refines_aux [OF ex_heap_ok, of 80] by (auto simp: request_def align_size_def trunc16_def)
  have h: "nheap (ex_net ex_heap) = ex_heap" by (simp add: ex_net_def)
  let ?n = "set_pb (Ram r) (\<lambda>_. \<lparr>pnext = None, payload = Some (Ram r, 72), tot_len = 5, plen = 5, ptype = PBUF_RAM, pflags = 0, pref = 1\<rparr>)
      ((ex_net ex_heap)\<lparr>nheap := hp\<rparr>)"
  have a: "pbuf_alloc (custom_free (hport ex_host)) PBUF_TRANSPORT 5 PBUF_RAM (lnet ex_writer) = Some (Some (Ram r), ?n)"
    using m by (simp add: pbuf_alloc_def ex_writer_at h align4_def trunc16_def)
  let ?m = "set_pb (Ram r) (\<lambda>b. b\<lparr>plen := 5, tot_len := 5\<rparr>) ?n"
  have p: "tcp_pbuf_prealloc ex_host PBUF_TRANSPORT 5 1000 0 TCP_WRITE_FLAG_COPY True ex_writer = Some (Some (Ram r, 0), with_net ?m ex_writer)"
    using a by (simp add: tcp_pbuf_prealloc_def ex_writer_at ex_conn_idle lwip_assert_def sub16_def set_pb_def)
  let ?b = "\<lparr>pnext = None, payload = Some (Ram r, 72), tot_len = 5, plen = 5, ptype = PBUF_RAM, pflags = 0, pref = 1\<rparr>"
  have b: "buf (with_net ?m ex_writer) (Ram r) = ?b" by (simp add: buf_def set_pb_def)
  obtain xs where xs: "fetch (Some (Rom 4, 0)) 0 5 (with_net ?m ex_writer) = Some xs" using fetch_some by blast
  obtain n where n: "store (Some (Ram r, 72)) [(0, xs)] (with_net ?m ex_writer) = Some (with_net n ex_writer)" "pb n = pb ?m" "npools n = npools ?m"
    using store_some [of "Ram r" 72 "[(0, xs)]" "with_net ?m ex_writer"] by (auto simp del: store.simps)
  show ?thesis
    using p b xs n by (intro exI [of _ r] exI [of _ "with_net n ex_writer"])
      (simp add: segment_buffer_def no_vars_def lwip_assert_def buf_def set_pb_def fun_eq_iff del: store.simps)
qed

lemma ex_created:
  assumes "payload (buf st (Ram r)) = Some (Ram r, 72)" "tot_len (buf st (Ram r)) = 5" "plen (buf st (Ram r)) = 5"
    "ptype (buf st (Ram r)) = PBUF_RAM" "npools (lnet st) = npools (ex_net ex_heap)"
  shows "\<exists>s st'. tcp_create_segment ex_host 0 (Ram r) 0 q 0 st = Some (Some s, st')"
proof -
  obtain e es where F: "rev (elems (\<lambda>_. 616) MEMP_TCP_SEG) = e # es" by (cases "rev (elems (\<lambda>_. 616) MEMP_TCP_SEG)") (simp_all add: elems_def)
  obtain mp where mp: "memp_malloc MEMP_TCP_SEG (npools (ex_net ex_heap)) = Some (Some e, mp)"
    using memp_malloc_spec [OF ex_net_ok(1), of MEMP_TCP_SEG ex_heap] F by auto
  define st1 where "st1 = set_seg e (\<lambda>x. x\<lparr>s_flags := 0, s_next := None, s_p := Some (Ram r), s_len := sub16 5 0, s_oversize_left := 0\<rparr>)
    (with_net ((lnet st)\<lparr>npools := mp\<rparr>) st)"
  have b: "buf st1 = buf st" "lnet st1 = (lnet st)\<lparr>npools := mp\<rparr>" by (simp_all add: st1_def buf_def fun_eq_iff)
  obtain n where n: "pbuf_header (Ram r) 20 (lnet st1) = Some (0, n)" "payload (pb n (Ram r)) = Some (Ram r, 52)"
    using assms by (simp add: pbuf_header_def b buf_def set_pb_def)
  have pay: "payload (buf (with_net n x) (Ram r)) = Some (Ram r, 52)" for x using n(2) by (simp add: buf_def)
  have some: "\<exists>st'. store (Some (c, off)) ws x = Some st'" for c off ws x using store_some by blast
  show ?thesis
    using assms(5) mp n(1) by (simp add: tcp_create_segment_def get_elem_def Let_def b(2) pay bind_eq_Some_conv some del: store.simps)
qed

lemma ex_segment_written: "\<exists>v st'. write_segment ex_host 0 (Some (Rom 4, 0)) 5 TCP_WRITE_FLAG_COPY 1000 no_vars ex_writer = Some (False, v, st') \<and>
   v_pos v = 5 \<and> v_queue v \<noteq> None \<and> v_last_unsent v = None \<and> v_oversize_used v = 0 \<and> v_concat_p v = None \<and> tcp_at st' = tcp_at ex_writer"
proof -
  obtain r st1 where 1: "segment_buffer ex_host 0 (Some (Rom 4, 0)) TCP_WRITE_FLAG_COPY 5 1000 no_vars ex_writer = Some (Some (Ram r, 0), st1)"
    "payload (buf st1 (Ram r)) = Some (Ram r, 72)" "pnext (buf st1 (Ram r)) = None" "tot_len (buf st1 (Ram r)) = 5"
    "plen (buf st1 (Ram r)) = 5" "ptype (buf st1 (Ram r)) = PBUF_RAM" "npools (lnet st1) = npools (ex_net ex_heap)" "tcp_at st1 = tcp_at ex_writer"
    using ex_buffer by blast
  have c: "pbuf_clen (Some (Ram r)) (lnet st1) = Some 1" using 1(3) by (simp add: one_buffer buf_def del: One_nat_def)
  have vars: "v_pos no_vars = 0" "v_queuelen no_vars = 0" "v_queue no_vars = None" "v_last_unsent no_vars = None"
    "v_oversize_used no_vars = 0" "v_concat_p no_vars = None"
    by (simp_all add: no_vars_def)
  let ?q = "t_snd_lbb (tcp_at st1 0) + word_of_nat 0"
  obtain s st2 where 2: "tcp_create_segment ex_host 0 (Ram r) 0 ?q 0 st1 = Some (Some s, st2)" using ex_created [OF 1(2,4-7)] by blast
  have "tcp_at st2 = tcp_at st1" using postD [OF blocks.keep_create_segment 2, of "\<lambda>(e, x). tcp_at x = tcp_at st1"] by simp
  then show ?thesis
    using 1(1,8) 2 c by (simp add: write_segment_def vars trunc16_def Let_def blocks.V_seg)
qed


end
