(* ===== verification/Netif.thy ===== *)
theory Netif
  imports TcpPcb
begin

text \<open>
  The list of interfaces, \<open>lwip/src/core/netif.c\<close>, as configured (no loopback, no callbacks for status and link,
  no DHCP client started). A \<open>struct netif\<close> is given by its address, a number; the list is linked through \<open>if_next\<close>
  as in the code. The host that the layers above work on is read off these variables by \<open>host_of\<close>: an interface is
  then its position in the list. Address resolution serves one Ethernet interface. \<open>None\<close> is a call that does not return.
\<close>

unbundle bit_operations_syntax

abbreviation NETIF_FLAG_LINK_UP :: u8 where "NETIF_FLAG_LINK_UP \<equiv> 0x10"

section \<open>Interfaces\<close>

record iface = netif +
  if_next :: "nat option"
  if_name :: "u8 list"
  if_num :: u8
  if_state :: nat

record netif_vars =
  if_at :: "nat \<Rightarrow> iface"
  netif_list :: "nat option"
  default_netif :: "nat option"
  netif_num :: u8

definition zero_iface :: iface where
  "zero_iface = \<lparr>ip_addr = 0, netmask = 0, gw = 0, mtu = 0, hwaddr_len = 0, hwaddr = replicate 6 0, netif_flags = 0,
     if_next = None, if_name = [0, 0], if_num = 0, if_state = 0\<rparr>"

text \<open>The variables when the program starts.\<close>

definition netif_vars_init :: netif_vars where
  "netif_vars_init = \<lparr>if_at = (\<lambda>_. zero_iface), netif_list = None, default_netif = None, netif_num = 0\<rparr>"

definition set_if :: "nat \<Rightarrow> (iface \<Rightarrow> iface) \<Rightarrow> netif_vars \<Rightarrow> netif_vars" where
  "set_if u f v = v\<lparr>if_at := (if_at v)(u := f (if_at v u))\<rparr>"

section \<open>The host as the other modules see it\<close>

partial_function (option) list_from :: "nat option \<Rightarrow> netif_vars \<Rightarrow> nat list option" where
  "list_from po v =
     (case po of None \<Rightarrow> Some [] | Some u \<Rightarrow> Option.bind (list_from (if_next (if_at v u)) v) (\<lambda>us. Some (u # us)))"

fun position :: "nat \<Rightarrow> nat list \<Rightarrow> nat option" where
  "position u [] = None"
| "position u (x # xs) = (if x = u then Some 0 else map_option Suc (position u xs))"

text \<open>A default interface outside of the list is not modelled: no host.\<close>

definition host_of :: "host \<Rightarrow> netif_vars \<Rightarrow> host option" where
  "host_of B v = do {
     us \<leftarrow> list_from (netif_list v) v;
     d \<leftarrow> (case default_netif v of None \<Rightarrow> Some None | Some u \<Rightarrow> map_option Some (position u us));
     Some (B\<lparr>netifs := map (\<lambda>u. netif.truncate (if_at v u)) us, netif_default := d\<rparr>)
   }"

section \<open>Addresses\<close>

text \<open>\<open>ip_addr_set\<close>, where a null pointer stands for \<open>IPADDR_ANY\<close>.\<close>

definition ip_addr_set :: "u32 option \<Rightarrow> u32" where
  "ip_addr_set src = (case src of None \<Rightarrow> IPADDR_ANY | Some a \<Rightarrow> a)"

text \<open>The two loops of \<open>netif_set_ipaddr\<close>. The successor is read before the connection is aborted.\<close>

partial_function (option) abort_loop :: "host \<Rightarrow> tcp_app \<Rightarrow> u32 \<Rightarrow> nat option \<Rightarrow> lan \<Rightarrow> lan option" where
  "abort_loop H A old po st =
     (case po of
        None \<Rightarrow> Some st
      | Some u \<Rightarrow>
          if t_local_ip (tcp_at st u) = old
          then Option.bind (tcp_abort H A u st) (abort_loop H A old (t_next (tcp_at st u)))
          else abort_loop H A old (t_next (tcp_at st u)) st)"

partial_function (option) listen_loop :: "u32 \<Rightarrow> u32 \<Rightarrow> nat option \<Rightarrow> lan \<Rightarrow> lan option" where
  "listen_loop old new po st =
     (case po of
        None \<Rightarrow> Some st
      | Some u \<Rightarrow>
          (let t = tcp_at st u;
               st = (if t_local_ip t \<noteq> IPADDR_ANY \<and> t_local_ip t = old then set_tcp u (\<lambda>t. t\<lparr>t_local_ip := new\<rparr>) st else st)
           in listen_loop old new (t_next (tcp_at st u)) st))"

definition netif_set_ipaddr :: "host \<Rightarrow> tcp_app \<Rightarrow> nat \<Rightarrow> u32 option \<Rightarrow> netif_vars \<times> lan \<Rightarrow> (netif_vars \<times> lan) option" where
  "netif_set_ipaddr B A u ipaddr = (\<lambda>(v, st). do {
     st \<leftarrow> (case ipaddr of
              None \<Rightarrow> Some st
            | Some new \<Rightarrow>
                if new \<noteq> ip_addr (if_at v u) then do {
                  H \<leftarrow> host_of B v;
                  st \<leftarrow> abort_loop H A (ip_addr (if_at v u)) (tcp_active_pcbs (tv st)) st;
                  listen_loop (ip_addr (if_at v u)) new (tcp_listen_pcbs (tv st)) st
                }
                else Some st);
     Some (set_if u (\<lambda>n. n\<lparr>ip_addr := ip_addr_set ipaddr\<rparr>) v, st)
   })"

definition netif_set_gw :: "nat \<Rightarrow> u32 option \<Rightarrow> netif_vars \<Rightarrow> netif_vars" where
  "netif_set_gw u a = set_if u (\<lambda>n. n\<lparr>gw := ip_addr_set a\<rparr>)"

definition netif_set_netmask :: "nat \<Rightarrow> u32 option \<Rightarrow> netif_vars \<Rightarrow> netif_vars" where
  "netif_set_netmask u a = set_if u (\<lambda>n. n\<lparr>netmask := ip_addr_set a\<rparr>)"

definition netif_set_addr ::
    "host \<Rightarrow> tcp_app \<Rightarrow> nat \<Rightarrow> u32 option \<Rightarrow> u32 option \<Rightarrow> u32 option \<Rightarrow> netif_vars \<times> lan \<Rightarrow> (netif_vars \<times> lan) option" where
  "netif_set_addr B A u ipaddr nm gate s =
     map_option (\<lambda>(v, st). (netif_set_gw u gate (netif_set_netmask u nm v), st)) (netif_set_ipaddr B A u ipaddr s)"

section \<open>The list\<close>

text \<open>\<open>init\<close> is the function that the driver gives, as far as it writes the structure.\<close>

definition netif_add ::
    "host \<Rightarrow> tcp_app \<Rightarrow> (iface \<Rightarrow> (err_t \<times> iface) option) \<Rightarrow> nat \<Rightarrow> u32 option \<Rightarrow> u32 option \<Rightarrow> u32 option \<Rightarrow> nat \<Rightarrow>
     netif_vars \<times> lan \<Rightarrow> (nat option \<times> netif_vars \<times> lan) option" where
  "netif_add B A init u ipaddr nm gate data = (\<lambda>(v, st). do {
     let v = set_if u (\<lambda>n. n\<lparr>ip_addr := IPADDR_ANY, netmask := IPADDR_ANY, gw := IPADDR_ANY, netif_flags := 0,
               if_state := data, if_num := netif_num v\<rparr>) v;
     let v = v\<lparr>netif_num := netif_num v + 1\<rparr>;
     (v, st) \<leftarrow> netif_set_addr B A u ipaddr nm gate (v, st);
     (err, n) \<leftarrow> init (if_at v u);
     let v = set_if u (\<lambda>_. n) v;
     (if err \<noteq> ERR_OK then Some (None, v, st)
      else
        let v = set_if u (\<lambda>n. n\<lparr>if_next := netif_list v\<rparr>) v in
        Some (Some u, v\<lparr>netif_list := Some u\<rparr>, st))
   })"

definition netif_set_default :: "nat option \<Rightarrow> netif_vars \<Rightarrow> netif_vars" where
  "netif_set_default u v = v\<lparr>default_netif := u\<rparr>"

text \<open>The search for the predecessor; \<open>None\<close> as the inner result where it is not found.\<close>

partial_function (option) unlink_loop :: "nat \<Rightarrow> nat option \<Rightarrow> netif_vars \<Rightarrow> netif_vars option option" where
  "unlink_loop u po v =
     (case po of
        None \<Rightarrow> Some None
      | Some x \<Rightarrow>
          if if_next (if_at v x) = Some u then Some (Some (set_if x (\<lambda>n. n\<lparr>if_next := if_next (if_at v u)\<rparr>) v))
          else unlink_loop u (if_next (if_at v x)) v)"

partial_function (option) find_loop :: "u8 list \<Rightarrow> u8 \<Rightarrow> nat option \<Rightarrow> netif_vars \<Rightarrow> nat option option" where
  "find_loop name num po v =
     (case po of
        None \<Rightarrow> Some None
      | Some u \<Rightarrow>
          (let n = if_at v u in
           if num = if_num n \<and> name ! 0 = if_name n ! 0 \<and> name ! 1 = if_name n ! 1 then Some (Some u)
           else find_loop name num (if_next n) v))"

text \<open>A name is the bytes of the string before its terminating NUL; the characters of a shorter name would be read behind its end.\<close>

definition netif_find :: "u8 list option \<Rightarrow> netif_vars \<Rightarrow> nat option option" where
  "netif_find name v =
     (case name of
        None \<Rightarrow> Some None
      | Some s \<Rightarrow>
          if length s < 2 then None
          else find_loop s (at (drop 2 s) - 48) (netif_list v) v)"

section \<open>Up and down\<close>

definition netif_set_up :: "port \<Rightarrow> nat \<Rightarrow> netif_vars \<times> lan \<Rightarrow> (netif_vars \<times> lan) option" where
  "netif_set_up pt u = (\<lambda>(v, st).
     if netif_flags (if_at v u) AND NETIF_FLAG_UP = 0 then do {
       let v = set_if u (\<lambda>n. n\<lparr>netif_flags := netif_flags n OR NETIF_FLAG_UP\<rparr>) v;
       let n = netif.truncate (if_at v u);
       (if netif_flags n AND NETIF_FLAG_LINK_UP \<noteq> 0 \<and> netif_flags n AND NETIF_FLAG_ETHARP \<noteq> 0
        then map_option (\<lambda>(_, st). (v, st)) (etharp_request pt n (ip_addr n) st)
        else Some (v, st))
     }
     else Some (v, st))"

definition netif_set_down :: "port \<Rightarrow> nat \<Rightarrow> netif_vars \<times> lan \<Rightarrow> (netif_vars \<times> lan) option" where
  "netif_set_down pt u = (\<lambda>(v, st).
     if netif_flags (if_at v u) AND NETIF_FLAG_UP \<noteq> 0 then do {
       let v = set_if u (\<lambda>n. n\<lparr>netif_flags := netif_flags n AND NOT NETIF_FLAG_UP\<rparr>) v;
       (if netif_flags (if_at v u) AND NETIF_FLAG_ETHARP \<noteq> 0
        then map_option (\<lambda>st. (v, st)) (etharp_cleanup_netif pt st)
        else Some (v, st))
     }
     else Some (v, st))"

definition netif_set_link_up :: "port \<Rightarrow> nat \<Rightarrow> netif_vars \<times> lan \<Rightarrow> (netif_vars \<times> lan) option" where
  "netif_set_link_up pt u = (\<lambda>(v, st).
     if netif_flags (if_at v u) AND NETIF_FLAG_LINK_UP = 0 then do {
       let v = set_if u (\<lambda>n. n\<lparr>netif_flags := netif_flags n OR NETIF_FLAG_LINK_UP\<rparr>) v;
       let n = netif.truncate (if_at v u);
       (if netif_flags n AND NETIF_FLAG_UP \<noteq> 0 \<and> netif_flags n AND NETIF_FLAG_ETHARP \<noteq> 0
        then map_option (\<lambda>(_, st). (v, st)) (etharp_request pt n (ip_addr n) st)
        else Some (v, st))
     }
     else Some (v, st))"

definition netif_set_link_down :: "nat \<Rightarrow> netif_vars \<Rightarrow> netif_vars" where
  "netif_set_link_down u v =
     (if netif_flags (if_at v u) AND NETIF_FLAG_LINK_UP \<noteq> 0
      then set_if u (\<lambda>n. n\<lparr>netif_flags := netif_flags n AND NOT NETIF_FLAG_LINK_UP\<rparr>) v else v)"

text \<open>An interface that is not on the list is brought down and the function returns.\<close>

definition netif_remove :: "port \<Rightarrow> nat option \<Rightarrow> netif_vars \<times> lan \<Rightarrow> (netif_vars \<times> lan) option" where
  "netif_remove pt uo s =
     (case uo of
        None \<Rightarrow> Some s
      | Some u \<Rightarrow> do {
          (v, st) \<leftarrow> (if netif_flags (if_at (fst s) u) AND NETIF_FLAG_UP \<noteq> 0 then netif_set_down pt u s else Some s);
          found \<leftarrow> (if netif_list v = Some u then Some (Some (v\<lparr>netif_list := if_next (if_at v u)\<rparr>))
                   else unlink_loop u (netif_list v) v);
          Some (case found of
                  None \<Rightarrow> (v, st)
                | Some v \<Rightarrow> (if default_netif v = Some u then netif_set_default None v else v, st))
        })"

end
