(* ===== verification/Startup.thy ===== *)
theory Startup
  imports Netif
begin

text \<open>
  The start of the network: \<open>lwip_init\<close> of \<open>lwip/src/core/init.c\<close>, the interface set up by \<open>ethernetif_init\<close> of
  \<open>lwip/port/ethernetif.c\<close>, the two servers of \<open>httpd_init\<close> and \<open>initEthernet\<close>, which calls them, of \<open>lwip/httpd.c\<close>.
  The link is reported by the PHY, of which the \<open>n\<close>-th query is the parameter \<open>phy\<close>. The controller's and the pins'
  registers are not modelled.
\<close>

unbundle bit_operations_syntax

section \<open>The stack\<close>

text \<open>\<open>mem_init\<close>, \<open>memp_init\<close> and \<open>sys_timeouts_init\<close>; the other initialisers are empty as configured.\<close>

definition lwip_init :: "(memp_t \<Rightarrow> nat) \<Rightarrow> u32 \<Rightarrow> lan \<Rightarrow> lan option" where
  "lwip_init sizes sys_now st = do {
     let n = (lnet st)\<lparr>nheap := mem_init (nheap (lnet st)), npools := memp_init sizes (npools (lnet st))\<rparr>;
     t \<leftarrow> sys_timeouts_init sys_now ((timeouts (tv st))\<lparr>tpool := npools n\<rparr>);
     Some (set_tv (\<lambda>v. v\<lparr>timeouts := t\<rparr>) (with_net (n\<lparr>npools := tpool t\<rparr>) st))
   }"

section \<open>The interface\<close>

abbreviation ENET_PHY_TIMEOUT :: nat where "ENET_PHY_TIMEOUT \<equiv> 0xFFFF"

text \<open>The wait for the link: the number of queries and the last answer.\<close>

function phy_loop :: "(nat \<Rightarrow> bool) \<Rightarrow> nat \<Rightarrow> bool \<Rightarrow> nat \<times> bool" where
  "phy_loop phy count link =
     (if count < ENET_PHY_TIMEOUT \<and> \<not> link then phy_loop phy (count + 1) (phy count) else (count, link))"
  by pat_completeness auto
termination by (relation "measure (\<lambda>(_, count, _). ENET_PHY_TIMEOUT - count)") auto

declare phy_loop.simps [simp del]

definition low_level_init :: "(nat \<Rightarrow> bool) \<Rightarrow> iface \<Rightarrow> (err_t \<times> iface) option" where
  "low_level_init phy n = do {
     let n = n\<lparr>hwaddr_len := ETHARP_HWADDR_LEN, hwaddr := [0x00, 0x12, 0x13, 0x10, 0x15, 0x11], mtu := 1500,
               netif_flags := NETIF_FLAG_BROADCAST OR NETIF_FLAG_ETHARP OR NETIF_FLAG_LINK_UP\<rparr>;
     lwip_assert (fst (phy_loop phy 0 False) \<noteq> ENET_PHY_TIMEOUT);
     Some (ERR_OK, n)
   }"

definition ethernetif_init :: "(nat \<Rightarrow> bool) \<Rightarrow> iface \<Rightarrow> (err_t \<times> iface) option" where
  "ethernetif_init phy n = low_level_init phy (n\<lparr>if_name := [101, 110]\<rparr>)"

section \<open>The servers\<close>

text \<open>The numbers of \<open>http_accept\<close> and \<open>echo_accept\<close> among the functions of the application.\<close>

abbreviation http_accept_fn :: callback where "http_accept_fn \<equiv> App 0"
abbreviation echo_accept_fn :: callback where "echo_accept_fn \<equiv> App 1"
abbreviation HTTPD_SERVER_PORT :: nat where "HTTPD_SERVER_PORT \<equiv> 80"

text \<open>A write through the null pointer that \<open>tcp_listen\<close> may return is not modelled: no return.\<close>

definition httpd_init_addr :: "host \<Rightarrow> tcp_app \<Rightarrow> u32 \<Rightarrow> lan \<Rightarrow> lan option" where
  "httpd_init_addr H A local_addr st = do {
     (httppcb, st) \<leftarrow> tcp_new H A st;
     pcb \<leftarrow> httppcb;
     let st = tcp_setprio pcb TCP_PRIO_MIN st;
     (err, st) \<leftarrow> tcp_bind pcb local_addr HTTPD_SERVER_PORT st;
     lwip_assert (err = ERR_OK);
     (httppcb, st) \<leftarrow> tcp_listen_with_backlog pcb st;
     pcb \<leftarrow> httppcb;
     let st = tcp_accept pcb (Some http_accept_fn) (tcp_arg pcb pcb st);
     (servpcb, st) \<leftarrow> tcp_new H A st;
     (case servpcb of
        None \<Rightarrow> Some st
      | Some pcb \<Rightarrow> do {
          (err, st) \<leftarrow> tcp_bind pcb local_addr 10887 st;
          (if err = ERR_OK then do {
             (servpcb, st) \<leftarrow> tcp_listen_with_backlog pcb st;
             pcb \<leftarrow> servpcb;
             Some (tcp_accept pcb (Some echo_accept_fn) st)
           }
           else Some st)
        })
   }"

definition httpd_init :: "host \<Rightarrow> tcp_app \<Rightarrow> lan \<Rightarrow> lan option" where
  "httpd_init H A st = httpd_init_addr H A IPADDR_ANY st"

section \<open>The board\<close>

text \<open>\<open>IP4_ADDR\<close>: the bytes in memory.\<close>

definition IP4_ADDR :: "u8 \<Rightarrow> u8 \<Rightarrow> u8 \<Rightarrow> u8 \<Rightarrow> u32" where
  "IP4_ADDR a b c d = le32 a b c d"

text \<open>\<open>fsl_netif0\<close> is the interface 0. The table of CGI handlers that is set here is the constant \<open>cgis\<close> of the server.\<close>

definition initEthernet ::
    "host \<Rightarrow> tcp_app \<Rightarrow> (memp_t \<Rightarrow> nat) \<Rightarrow> (nat \<Rightarrow> bool) \<Rightarrow> u32 \<Rightarrow> netif_vars \<times> lan \<Rightarrow> (netif_vars \<times> lan) option" where
  "initEthernet B A sizes phy sys_now = (\<lambda>(v, st). do {
     st \<leftarrow> lwip_init sizes sys_now st;
     (_, v, st) \<leftarrow> netif_add B A (ethernetif_init phy) 0 (Some (IP4_ADDR 192 168 1 110)) (Some (IP4_ADDR 255 255 255 0))
                     (Some (IP4_ADDR 192 168 1 100)) 0 (v, st);
     (v, st) \<leftarrow> netif_set_up (hport B) 0 (netif_set_default (Some 0) v, st);
     H \<leftarrow> host_of B v;
     st \<leftarrow> httpd_init H A st;
     Some (v, st)
   })"

end
