(* ===== verification/NetifProps.thy ===== *)
theory NetifProps
  imports Netif TcpPorts
begin

text \<open>
  The list of interfaces as a list of numbers. Every operation of \<open>netif.c\<close> keeps the list free of cycles and the
  default interface on it, as long as only interfaces that are not on the list are added.
\<close>

unbundle bit_operations_syntax

section \<open>The list as a list of numbers\<close>

fun if_chain :: "netif_vars \<Rightarrow> nat option \<Rightarrow> nat list \<Rightarrow> bool" where
  "if_chain v po [] = (po = None)"
| "if_chain v po (u # us) = (po = Some u \<and> if_chain v (if_next (if_at v u)) us)"

definition interfaces :: "netif_vars \<Rightarrow> nat list \<Rightarrow> bool" where
  "interfaces v us = (if_chain v (netif_list v) us \<and> distinct us \<and> (\<forall>d. default_netif v = Some d \<longrightarrow> d \<in> set us))"

lemma if_chain_same:
  "(\<And>x. x \<in> set us \<Longrightarrow> if_next (if_at v' x) = if_next (if_at v x)) \<Longrightarrow> if_chain v' po us = if_chain v po us"
  by (induction us arbitrary: po) auto

lemma if_chain_heads [simp]:
  "if_chain (v\<lparr>default_netif := d\<rparr>) po us = if_chain v po us" "if_chain (v\<lparr>netif_list := h\<rparr>) po us = if_chain v po us"
  by (rule if_chain_same; simp)+

lemma if_chain_unique: "if_chain v po us \<Longrightarrow> if_chain v po vs \<Longrightarrow> us = vs"
proof (induction us arbitrary: po vs)
  case Nil
  then show ?case by (cases vs) auto
next
  case (Cons u us)
  then show ?case by (cases vs) auto
qed

lemma list_from_chain: "if_chain v po us \<Longrightarrow> list_from po v = Some us"
  by (induction us arbitrary: po) (subst list_from.simps; simp)+

lemma list_from_some: "list_from po v = Some us \<Longrightarrow> if_chain v po us"
proof (induction us arbitrary: po)
  case Nil
  then show ?case by (subst (asm) list_from.simps) (auto simp: bind_eq_Some_conv split: option.splits)
next
  case (Cons u us)
  then show ?case by (subst (asm) list_from.simps) (auto simp: bind_eq_Some_conv split: option.splits)
qed

lemma set_if_sel [simp]:
  "if_at (set_if u f v) x = (if x = u then f (if_at v u) else if_at v x)" "netif_list (set_if u f v) = netif_list v"
  "default_netif (set_if u f v) = default_netif v" "netif_num (set_if u f v) = netif_num v"
  by (simp_all add: set_if_def)

lemma interfaces_same:
  assumes "interfaces v us" and "netif_list v' = netif_list v" and "default_netif v' = default_netif v"
    and "\<And>x. x \<in> set us \<Longrightarrow> if_next (if_at v' x) = if_next (if_at v x)"
  shows "interfaces v' us"
  using assms if_chain_same [of us v' v] by (simp add: interfaces_def)

lemma interfaces_set_if:
  "interfaces v us \<Longrightarrow> u \<notin> set us \<or> (\<forall>n. if_next (f n) = if_next n) \<Longrightarrow> interfaces (set_if u f v) us"
  by (rule interfaces_same) auto

lemma position_listed: "u \<in> set us \<Longrightarrow> \<exists>i. position u us = Some i \<and> i < length us \<and> us ! i = u"
proof (induction us)
  case (Cons x xs)
  show ?case
  proof (cases "x = u")
    case False
    then obtain i where "position u xs = Some i" "i < length xs" "xs ! i = u" using Cons by auto
    then show ?thesis using False by (intro exI [of _ "Suc i"]) simp
  qed simp
qed simp

text \<open>On a well-formed list the host is defined, and its default interface is the one that was set.\<close>

lemma host_of_listed:
  assumes "interfaces v us"
  shows "\<exists>d. host_of B v = Some (B\<lparr>netifs := map (\<lambda>u. netif.truncate (if_at v u)) us, netif_default := d\<rparr>) \<and>
     (case default_netif v of None \<Rightarrow> d = None | Some u \<Rightarrow> \<exists>i. d = Some i \<and> i < length us \<and> us ! i = u)"
proof -
  have l: "list_from (netif_list v) v = Some us" using assms by (auto simp: interfaces_def intro: list_from_chain)
  show ?thesis
  proof (cases "default_netif v")
    case None
    then show ?thesis by (simp add: host_of_def l)
  next
    case (Some u)
    then obtain i where "position u us = Some i" "i < length us" "us ! i = u"
      using assms position_listed by (auto simp: interfaces_def)
    then show ?thesis using Some by (intro exI [of _ "Some i"]) (simp add: host_of_def l)
  qed
qed

section \<open>Operations\<close>

lemma set_ipaddr_vars:
  "netif_set_ipaddr B A u a (v, st) = Some (v', st') \<Longrightarrow> v' = set_if u (\<lambda>n. n\<lparr>ip_addr := ip_addr_set a\<rparr>) v"
  by (auto simp: netif_set_ipaddr_def bind_eq_Some_conv)

lemma set_addr_vars:
  "netif_set_addr B A u a m g (v, st) = Some (v', st') \<Longrightarrow>
   netif_list v' = netif_list v \<and> default_netif v' = default_netif v \<and> (\<forall>x. if_next (if_at v' x) = if_next (if_at v x))"
  by (auto simp: netif_set_addr_def netif_set_gw_def netif_set_netmask_def dest!: set_ipaddr_vars)

lemma set_addr_listed: "netif_set_addr B A u a m g (v, st) = Some (v', st') \<Longrightarrow> interfaces v us \<Longrightarrow> interfaces v' us"
  by (frule set_addr_vars) (auto intro: interfaces_same)

lemma interfaces_push:
  assumes "interfaces v us" and "u \<notin> set us"
  shows "interfaces (set_if u (\<lambda>n. n\<lparr>if_next := netif_list v\<rparr>) v\<lparr>netif_list := Some u\<rparr>) (u # us)"
proof -
  let ?v = "set_if u (\<lambda>n. n\<lparr>if_next := netif_list v\<rparr>) v\<lparr>netif_list := Some u\<rparr>"
  have "if_chain ?v (netif_list v) us = if_chain v (netif_list v) us"
    by (rule if_chain_same) (use assms(2) in \<open>auto simp: set_if_def\<close>)
  with assms show ?thesis by (auto simp: interfaces_def set_if_def)
qed

lemma netif_add_listed:
  assumes "netif_add B A init u a m g data (v, st) = Some (r, v', st')" and "interfaces v us" and "u \<notin> set us"
  shows "(r = Some u \<and> interfaces v' (u # us)) \<or> (r = None \<and> interfaces v' us)"
proof -
  define w where "w = set_if u (\<lambda>n. n\<lparr>ip_addr := IPADDR_ANY, netmask := IPADDR_ANY, gw := IPADDR_ANY, netif_flags := 0,
               if_state := data, if_num := netif_num v\<rparr>) v"
  have w: "interfaces (w\<lparr>netif_num := k\<rparr>) us" for k
    using assms(2) by (rule interfaces_same) (simp_all add: w_def)
  obtain v1 st1 err n where s: "netif_set_addr B A u a m g (w\<lparr>netif_num := netif_num v + 1\<rparr>, st) = Some (v1, st1)"
    "init (if_at v1 u) = Some (err, n)"
    "r = (if err \<noteq> ERR_OK then None else Some u)"
    "v' = (if err \<noteq> ERR_OK then set_if u (\<lambda>_. n) v1
       else set_if u (\<lambda>x. x\<lparr>if_next := netif_list (set_if u (\<lambda>_. n) v1)\<rparr>) (set_if u (\<lambda>_. n) v1)\<lparr>netif_list := Some u\<rparr>)"
    using assms(1) by (simp add: netif_add_def w_def [symmetric] Let_def bind_eq_Some_conv) (auto simp: w_def split: if_splits)
  have "interfaces (set_if u (\<lambda>_. n) v1) us"
    using set_addr_listed [OF s(1) w] assms(3) by (intro interfaces_set_if) auto
  from this interfaces_push [OF this assms(3)] show ?thesis using s(3,4) by (auto split: if_splits)
qed

text \<open>The search for the predecessor of \<open>u\<close> from an interface \<open>x\<close> that is not \<open>u\<close> itself.\<close>

lemma unlink_loop_spec:
  "if_chain v (Some x) (x # xs) \<Longrightarrow> distinct (x # xs) \<Longrightarrow> u \<noteq> x \<Longrightarrow>
   \<exists>r. unlink_loop u (Some x) v = Some r \<and>
     (case r of None \<Rightarrow> u \<notin> set xs
      | Some v' \<Rightarrow> u \<in> set xs \<and> if_chain v' (Some x) (x # remove1 u xs) \<and> netif_list v' = netif_list v \<and>
          default_netif v' = default_netif v \<and> (\<forall>y. y \<notin> set (x # xs) \<longrightarrow> if_at v' y = if_at v y))"
proof (induction xs arbitrary: x)
  case Nil
  then show ?case by (subst unlink_loop.simps) (simp, subst unlink_loop.simps, simp)
next
  case (Cons y ys)
  show ?case
  proof (cases "u = y")
    case True
    let ?v = "set_if x (\<lambda>n. n\<lparr>if_next := if_next (if_at v u)\<rparr>) v"
    have "if_chain ?v (if_next (if_at v u)) ys = if_chain v (if_next (if_at v u)) ys"
      by (rule if_chain_same) (use Cons.prems in auto)
    then show ?thesis using True Cons.prems by (subst unlink_loop.simps) auto
  next
    case False
    then obtain r where r: "unlink_loop u (Some y) v = Some r"
      "case r of None \<Rightarrow> u \<notin> set ys
       | Some v' \<Rightarrow> u \<in> set ys \<and> if_chain v' (Some y) (y # remove1 u ys) \<and> netif_list v' = netif_list v \<and>
          default_netif v' = default_netif v \<and> (\<forall>z. z \<notin> set (y # ys) \<longrightarrow> if_at v' z = if_at v z)"
      using Cons.IH [of y] Cons.prems by auto
    have "unlink_loop u (Some x) v = Some r" using r(1) False Cons.prems by (subst unlink_loop.simps) simp
    moreover have "if_at v' x = if_at v x" if "r = Some v'" for v' using r(2) that Cons.prems by auto
    ultimately show ?thesis using r(2) False Cons.prems by (intro exI [of _ r]) (auto split: option.splits)
  qed
qed

lemma set_down_vars:
  "netif_set_down pt u (v, st) = Some (v', st') \<Longrightarrow>
   netif_list v' = netif_list v \<and> default_netif v' = default_netif v \<and> (\<forall>x. if_next (if_at v' x) = if_next (if_at v x))"
  by (auto simp: netif_set_down_def Let_def split: if_splits)

lemma set_up_vars:
  "netif_set_up pt u (v, st) = Some (v', st') \<or> netif_set_link_up pt u (v, st) = Some (v', st') \<Longrightarrow>
   netif_list v' = netif_list v \<and> default_netif v' = default_netif v \<and> (\<forall>x. if_next (if_at v' x) = if_next (if_at v x))"
  by (auto simp: netif_set_up_def netif_set_link_up_def Let_def split: if_splits)

lemma netif_remove_listed:
  assumes "netif_remove pt (Some u) (v, st) = Some (v', st')" and "interfaces v us"
  shows "interfaces v' (remove1 u us) \<and> default_netif v' = (if default_netif v = Some u then None else default_netif v)"
proof -
  obtain w st1 found where s: "(if netif_flags (if_at v u) AND NETIF_FLAG_UP \<noteq> 0 then netif_set_down pt u (v, st) else Some (v, st)) = Some (w, st1)"
    "(if netif_list w = Some u then Some (Some (w\<lparr>netif_list := if_next (if_at w u)\<rparr>)) else unlink_loop u (netif_list w) w) = Some found"
    "v' = (case found of None \<Rightarrow> w | Some v \<Rightarrow> (if default_netif v = Some u then netif_set_default None v else v))"
    using assms(1) by (auto simp: netif_remove_def bind_eq_Some_conv split: option.splits)
  have w: "interfaces w us" "default_netif w = default_netif v"
    using s(1) assms(2) by (auto split: if_splits dest!: set_down_vars intro: interfaces_same)
  show ?thesis
  proof (cases us)
    case Nil
    then show ?thesis using s(2,3) w by (subst (asm) unlink_loop.simps) (auto simp: interfaces_def)
  next
    case (Cons x xs)
    show ?thesis
    proof (cases "x = u")
      case True
      let ?w = "w\<lparr>netif_list := if_next (if_at w u)\<rparr>"
      have "v' = (if default_netif w = Some u then ?w\<lparr>default_netif := None\<rparr> else ?w)"
        using True Cons s(2,3) w by (auto simp: interfaces_def netif_set_default_def)
      with True Cons w show ?thesis by (auto simp: interfaces_def)
    next
      case False
      obtain r where r: "unlink_loop u (Some x) w = Some r"
        "case r of None \<Rightarrow> u \<notin> set xs
         | Some v' \<Rightarrow> u \<in> set xs \<and> if_chain v' (Some x) (x # remove1 u xs) \<and> netif_list v' = netif_list w \<and>
            default_netif v' = default_netif w \<and> (\<forall>y. y \<notin> set (x # xs) \<longrightarrow> if_at v' y = if_at w y)"
        using unlink_loop_spec [of w x xs u] w Cons False by (auto simp: interfaces_def)
      have h: "netif_list w = Some x" using w(1) Cons by (simp add: interfaces_def)
      then have "found = r" using s(2) r(1) False by simp
      then show ?thesis
        using r(2) s(3) w h Cons False by (cases r) (auto simp: interfaces_def netif_set_default_def remove1_idem)
    qed
  qed
qed

section \<open>Any sequence of operations\<close>

text \<open>
  The calls of the module's functions, with any arguments, and anything the rest of the stack does in between: it
  reads these variables only. \<open>Add\<close> and \<open>Default\<close> are labelled with the interface they are given.
\<close>

datatype netif_op = Add nat | Default "nat option" | Other_op

inductive netif_call :: "host \<Rightarrow> tcp_app \<Rightarrow> netif_op \<Rightarrow> netif_vars \<times> lan \<Rightarrow> netif_vars \<times> lan \<Rightarrow> bool" for B A where
  add: "netif_add B A init u a m g data s = Some (r, s') \<Longrightarrow> netif_call B A (Add u) s s'"
| remove: "netif_remove (hport B) uo s = Some s' \<Longrightarrow> netif_call B A Other_op s s'"
| address: "netif_set_addr B A u a m g s = Some s' \<Longrightarrow> netif_call B A Other_op s s'"
| up: "netif_set_up (hport B) u s = Some s' \<or> netif_set_link_up (hport B) u s = Some s' \<Longrightarrow> netif_call B A Other_op s s'"
| down: "netif_set_down (hport B) u s = Some s' \<Longrightarrow> netif_call B A Other_op s s'"
| link_down: "netif_call B A Other_op (v, st) (netif_set_link_down u v, st)"
| default: "netif_call B A (Default d) (v, st) (netif_set_default d v, st)"
| other: "netif_call B A Other_op (v, st) (v, st')"

text \<open>What \<open>netif.c\<close> relies on and does not check: an interface is added while it is not on the list, and the default
  interface is none or one of the list.\<close>

definition caller_ok :: "netif_op \<Rightarrow> netif_vars \<Rightarrow> bool" where
  "caller_ok op v =
     (case list_from (netif_list v) v of
        None \<Rightarrow> False
      | Some us \<Rightarrow> (case op of Add u \<Rightarrow> u \<notin> set us | Default d \<Rightarrow> set_option d \<subseteq> set us | Other_op \<Rightarrow> True))"

definition netif_step :: "host \<Rightarrow> tcp_app \<Rightarrow> netif_vars \<times> lan \<Rightarrow> netif_vars \<times> lan \<Rightarrow> bool" where
  "netif_step B A s s' = (\<exists>op. netif_call B A op s s' \<and> caller_ok op (fst s))"

lemma netif_call_listed:
  "netif_call B A op s s' \<Longrightarrow> caller_ok op (fst s) \<Longrightarrow> interfaces (fst s) us \<Longrightarrow> \<exists>us'. interfaces (fst s') us'"
proof (induction rule: netif_call.induct)
  case (add init u a m g data s r s')
  then have "u \<notin> set us" using list_from_chain by (fastforce simp: interfaces_def caller_ok_def)
  with add netif_add_listed [of B A init u a m g data "fst s" "snd s" r "fst s'" "snd s'" us] show ?case by auto
next
  case (remove uo s s')
  show ?case
  proof (cases uo)
    case None
    with remove show ?thesis by (auto simp: netif_remove_def)
  next
    case (Some u)
    with remove netif_remove_listed [of "hport B" u "fst s" "snd s" "fst s'" "snd s'" us] show ?thesis by auto
  qed
next
  case (address u a m g s s')
  with set_addr_listed [of B A u a m g "fst s" "snd s" "fst s'" "snd s'" us] show ?case by auto
next
  case (up u s s')
  with set_up_vars [of "hport B" u "fst s" "snd s" "fst s'" "snd s'"] interfaces_same [of "fst s" us "fst s'"] show ?case by auto
next
  case (down u s s')
  with set_down_vars [of "hport B" u "fst s" "snd s" "fst s'" "snd s'"] interfaces_same [of "fst s" us "fst s'"] show ?case by auto
next
  case (link_down v st u)
  then show ?case by (intro exI [of _ us]) (simp add: netif_set_link_down_def interfaces_set_if)
next
  case (default d v st)
  then have "set_option d \<subseteq> set us" using list_from_chain by (fastforce simp: interfaces_def caller_ok_def)
  with default show ?case by (auto simp: interfaces_def netif_set_default_def)
qed auto

lemma netif_step_listed: "netif_step B A s s' \<Longrightarrow> interfaces (fst s) us \<Longrightarrow> \<exists>us'. interfaces (fst s') us'"
  unfolding netif_step_def using netif_call_listed [of B A _ s s' us] by blast

lemma find_loop_spec:
  "if_chain v po us \<Longrightarrow> find_loop name num po v =
     Some (find (\<lambda>u. num = if_num (if_at v u) \<and> name ! 0 = if_name (if_at v u) ! 0 \<and> name ! 1 = if_name (if_at v u) ! 1) us)"
  by (induction us arbitrary: po) (subst find_loop.simps; simp add: Let_def)+

lemma route_loop_listed:
  "route_loop dest k ns = Some i \<Longrightarrow> k \<le> i \<and> i < k + length ns \<and> netif_is_up (ns ! (i - k))"
proof (induction ns arbitrary: k)
  case (Cons n ns)
  then show ?case by (fastforce simp: nth_Cons' split: if_splits)
qed simp

lemma routes_listed:
  assumes "ip_route H dest = Some i" and "\<And>d. netif_default H = Some d \<Longrightarrow> d < length (netifs H)"
  shows "i < length (netifs H) \<and> netif_is_up (netifs H ! i)"
  using assms by (auto simp: ip_route_def nif_def split: option.splits if_splits dest: route_loop_listed)

section \<open>An interface that is added twice\<close>

lemma walk_to:
  "if_chain v po (xs @ u # ys) \<Longrightarrow> u \<notin> set xs \<Longrightarrow> (\<And>x. x \<noteq> u \<Longrightarrow> if_next (if_at v' x) = if_next (if_at v x)) \<Longrightarrow> if_chain v' po zs \<Longrightarrow>
   \<exists>rest. zs = xs @ u # rest \<and> if_chain v' (if_next (if_at v' u)) rest"
proof (induction xs arbitrary: po zs)
  case Nil
  then show ?case by (cases zs) auto
next
  case (Cons x xs)
  then obtain zs' where "zs = x # zs'" "if_chain v' (if_next (if_at v x)) zs'" by (cases zs) auto
  with Cons show ?case by auto
qed

text \<open>The list then leads back to its head: no loop over it ends.\<close>

theorem readded_interface_loops:
  assumes "interfaces v us" and "u \<in> set us" and "netif_add B A init u a m g data (v, st) = Some (Some u, v', st')"
  shows "list_from (netif_list v') v' = None"
proof (rule ccontr)
  assume "list_from (netif_list v') v' \<noteq> None"
  then obtain zs where zs: "if_chain v' (netif_list v') zs" using list_from_some by blast
  have v': "netif_list v' = Some u" "if_next (if_at v' u) = netif_list v" "\<And>x. x \<noteq> u \<Longrightarrow> if_next (if_at v' x) = if_next (if_at v x)"
    using assms(3) by (auto simp: netif_add_def Let_def bind_eq_Some_conv dest!: set_addr_vars split: if_splits)
  obtain xs ys where us: "us = xs @ u # ys" "u \<notin> set xs" using split_list_first [OF assms(2)] by blast
  obtain rest where rest: "zs = u # rest" "if_chain v' (netif_list v) rest" using zs v' by (cases zs) auto
  have "if_chain v (netif_list v) (xs @ u # ys)" using assms(1) us by (simp add: interfaces_def)
  from walk_to [OF this us(2) v'(3) rest(2)] obtain rest' where r: "rest = xs @ u # rest'" "if_chain v' (netif_list v) rest'"
    using v'(2) by auto
  have "length rest = length rest'" using if_chain_unique [OF rest(2) r(2)] by simp
  with r(1) show False by simp
qed

section \<open>The invariant\<close>


section \<open>A new address\<close>

lemma abort_loop_none:
  "pcb_chain st po us \<Longrightarrow> \<forall>u \<in> set us. t_local_ip (tcp_at st u) \<noteq> old \<Longrightarrow> abort_loop H A old po st = Some st"
  by (induction us arbitrary: po) (subst abort_loop.simps; simp)+

lemma listen_loop_spec:
  "pcb_chain st po us \<Longrightarrow> distinct us \<Longrightarrow> \<exists>st'. listen_loop old new po st = Some st' \<and> lnet st' = lnet st \<and> wire st' = wire st \<and>
     (\<forall>u. tcp_at st' u = (if u \<in> set us \<and> t_local_ip (tcp_at st u) \<noteq> IPADDR_ANY \<and> t_local_ip (tcp_at st u) = old
                         then (tcp_at st u)\<lparr>t_local_ip := new\<rparr> else tcp_at st u))"
proof (induction us arbitrary: po st)
  case Nil
  then show ?case by (subst listen_loop.simps) simp
next
  case (Cons x xs)
  let ?st = "if t_local_ip (tcp_at st x) \<noteq> IPADDR_ANY \<and> t_local_ip (tcp_at st x) = old then set_tcp x (\<lambda>t. t\<lparr>t_local_ip := new\<rparr>) st else st"
  have nx: "t_next (tcp_at ?st u) = t_next (tcp_at st u)" for u by (simp add: set_tcp_at)
  have "pcb_chain ?st po ys = pcb_chain st po ys" for po ys
  proof (induction ys arbitrary: po)
    case (Cons y ys)
    then show ?case by (simp only: pcb_chain.simps nx)
  qed simp
  then obtain st' where st': "listen_loop old new (t_next (tcp_at ?st x)) ?st = Some st'" "lnet st' = lnet ?st" "wire st' = wire ?st"
    "\<forall>u. tcp_at st' u = (if u \<in> set xs \<and> t_local_ip (tcp_at ?st u) \<noteq> IPADDR_ANY \<and> t_local_ip (tcp_at ?st u) = old
                         then (tcp_at ?st u)\<lparr>t_local_ip := new\<rparr> else tcp_at ?st u)"
    using Cons.IH [of "?st" "t_next (tcp_at ?st x)"] Cons.prems nx by (auto simp del: if_split)
  have "listen_loop old new po st = Some st'" using Cons.prems st'(1) by (subst listen_loop.simps) (simp add: Let_def)
  moreover have "lnet ?st = lnet st" "wire ?st = wire st" by (simp_all add: set_tcp_def set_tv_def set_ipst_def)
  moreover have "tcp_at st' u = (if u \<in> set (x # xs) \<and> t_local_ip (tcp_at st u) \<noteq> IPADDR_ANY \<and> t_local_ip (tcp_at st u) = old
      then (tcp_at st u)\<lparr>t_local_ip := new\<rparr> else tcp_at st u)" for u
    using st'(4) Cons.prems(2) by (auto simp: set_tcp_at)
  ultimately show ?case using st'(2,3) by (intro exI [of _ st']) simp
qed

text \<open>
  An address that changes while no connection is bound to the old one: nothing is aborted and sent, the servers that
  listen on the old address listen on the new one, and only they.
\<close>

theorem new_address_moves_servers:
  assumes "interfaces v us" and "new \<noteq> ip_addr (if_at v u)"
    and "pcb_chain st (tcp_active_pcbs (tv st)) as" and "\<forall>c \<in> set as. t_local_ip (tcp_at st c) \<noteq> ip_addr (if_at v u)"
    and "pcb_chain st (tcp_listen_pcbs (tv st)) ls" and "distinct ls"
  shows "\<exists>st'. netif_set_ipaddr B A u (Some new) (v, st) = Some (set_if u (\<lambda>n. n\<lparr>ip_addr := new\<rparr>) v, st') \<and>
     lnet st' = lnet st \<and> wire st' = wire st \<and>
     (\<forall>c. tcp_at st' c = (if c \<in> set ls \<and> t_local_ip (tcp_at st c) \<noteq> IPADDR_ANY \<and> t_local_ip (tcp_at st c) = ip_addr (if_at v u)
                         then (tcp_at st c)\<lparr>t_local_ip := new\<rparr> else tcp_at st c))"
proof -
  obtain H where "host_of B v = Some H" using host_of_listed [OF assms(1)] by blast
  moreover have "abort_loop H A (ip_addr (if_at v u)) (tcp_active_pcbs (tv st)) st = Some st"
    by (rule abort_loop_none [OF assms(3,4)])
  ultimately show ?thesis
    using listen_loop_spec [OF assms(5,6), of "ip_addr (if_at v u)" new] assms(2)
    by (auto simp: netif_set_ipaddr_def ip_addr_set_def)
qed

end
