(* ===== verification/StartupProps.thy ===== *)
theory StartupProps
  imports Startup NetifProps TimersProps TcpWitnesses
begin

text \<open>
  The state of the board after \<open>initEthernet\<close>: the heap and the pools, the interface with the frame that announces
  it, the two servers, the timers.
\<close>

unbundle bit_operations_syntax

section \<open>The announcement\<close>

lemma split_at: "n \<le> length xs \<Longrightarrow> \<exists>a b. xs = a @ b \<and> length a = n"
  by (intro exI [of _ "take n xs"] exI [of _ "drop n xs"]) simp

text \<open>The fields are written in another order than they lie in the frame, and cover it.\<close>

lemma fields_cover:
  assumes "length xs = 42" and "length es = 6" "length ed = 6" "length hs = 6" "length ht = 6" "length oc = 2"
  shows "fold (\<lambda>(i, ys). blit i ys) (arp_fields es ed hs ips ht ipd oc) xs = arp_frame ed es oc hs ips ht ipd"
proof -
  obtain d x1 where 1: "xs = d @ x1" "length d = 6" using split_at [of 6 xs] assms(1) by auto
  obtain s x2 where 2: "x1 = s @ x2" "length s = 6" using split_at [of 6 x1] assms(1) 1 by auto
  obtain t x3 where 3: "x2 = t @ x3" "length t = 2" using split_at [of 2 x2] assms(1) 1 2 by auto
  obtain h x4 where 4: "x3 = h @ x4" "length h = 2" using split_at [of 2 x3] assms(1) 1 2 3 by auto
  obtain p x5 where 5: "x4 = p @ x5" "length p = 2" using split_at [of 2 x4] assms(1) 1 2 3 4 by auto
  obtain l x6 where 6: "x5 = l @ x6" "length l = 1" using split_at [of 1 x5] assms(1) 1 2 3 4 5 by auto
  obtain m x7 where 7: "x6 = m @ x7" "length m = 1" using split_at [of 1 x6] assms(1) 1 2 3 4 5 6 by auto
  obtain c x8 where 8: "x7 = c @ x8" "length c = 2" using split_at [of 2 x7] assms(1) 1 2 3 4 5 6 7 by auto
  obtain e x9 where 9: "x8 = e @ x9" "length e = 6" using split_at [of 6 x8] assms(1) 1 2 3 4 5 6 7 8 by auto
  obtain f xa where a: "x9 = f @ xa" "length f = 4" using split_at [of 4 x9] assms(1) 1 2 3 4 5 6 7 8 9 by auto
  obtain g i where b: "xa = g @ i" "length g = 6" using split_at [of 6 xa] assms(1) 1 2 3 4 5 6 7 8 9 a by auto
  have "length i = 4" using assms(1) 1 2 3 4 5 6 7 8 9 a b by simp
  with 1 2 3 4 5 6 7 8 9 a b assms show ?thesis by (simp add: arp_fields_def arp_frame_def blit_def)
qed

text \<open>Writing into a buffer: what the 42 bytes behind its payload are afterwards.\<close>

lemma puts_block:
  "payload (buf st p) = Some (b, off) \<Longrightarrow> peek (Some (b, off)) 0 n (lnet st) = Some xs \<Longrightarrow> \<forall>(i, ys) \<in> set ws. i + length ys \<le> n \<Longrightarrow>
   \<exists>bs. puts p ws st = Some (st\<lparr>lnet := (lnet st)\<lparr>bytes := bs\<rparr>\<rparr>) \<and>
     peek (Some (b, off)) 0 n ((lnet st)\<lparr>bytes := bs\<rparr>) = Some (fold (\<lambda>(i, ys). blit i ys) ws xs)"
proof (induction ws arbitrary: st xs)
  case Nil
  then show ?case by (intro exI [of _ "bytes (lnet st)"]) simp
next
  case (Cons w ws)
  obtain i ys where w: "w = (i, ys)" by force
  let ?bs = "(bytes (lnet st))(b := \<lambda>k. if off + int i \<le> k \<and> k < off + int i + int (length ys) then ys ! nat (k - (off + int i))
     else bytes (lnet st) b k)"
  let ?st = "st\<lparr>lnet := (lnet st)\<lparr>bytes := ?bs\<rparr>\<rparr>"
  have poke: "poke (payload (buf st p)) (int i) ys (lnet st) = Some ((lnet st)\<lparr>bytes := ?bs\<rparr>)"
    using Cons.prems(1) by (simp add: poke_def)
  have xs: "xs = map (\<lambda>k. bytes (lnet st) b (off + int k)) [0..<n]" using Cons.prems(2) by (simp add: peek_def)
  have fits: "i + length ys \<le> n" using Cons.prems(3) w by simp
  have "peek (Some (b, off)) 0 n (lnet ?st) = Some (blit i ys xs)"
  proof -
    have "map (\<lambda>k. ?bs b (off + int k)) [0..<n] = blit i ys xs"
      by (rule nth_equalityI) (use fits xs in \<open>auto simp: nth_blit nat_diff_distrib\<close>)
    then show ?thesis by (simp add: peek_def)
  qed
  moreover have "payload (buf ?st p) = Some (b, off)" using Cons.prems(1) by (simp add: buf_def)
  ultimately obtain bs where "puts p ws ?st = Some (?st\<lparr>lnet := (lnet ?st)\<lparr>bytes := bs\<rparr>\<rparr>)"
    "peek (Some (b, off)) 0 n ((lnet ?st)\<lparr>bytes := bs\<rparr>) = Some (fold (\<lambda>(i, ys). blit i ys) ws (blit i ys xs))"
    using Cons.IH [of ?st "blit i ys xs"] Cons.prems(3) by auto
  then show ?case using w poke by (intro exI [of _ bs]) simp
qed

text \<open>An ARP request goes out through a heap buffer, which is given back.\<close>

lemma request_sent:
  assumes "heap_ok (nheap (lnet st)) bs" and "fit 60 0 bs \<noteq> None"
    and "hwaddr_len ni = 6" and "length (hwaddr ni) = 6"
    and "link_up pt (wire st)" and "send_frame pt (wire st) f"
    and "f = arp_frame ethbroadcast (hwaddr ni) ARP_REQUEST (hwaddr ni) (ip_addr ni) ethzero ip"
  shows "\<exists>n. etharp_request pt ni ip st = Some (ERR_OK, st\<lparr>lnet := n, wire := f # wire st\<rparr>) \<and> heap_ok (nheap n) bs \<and>
     npools n = npools (lnet st) \<and> (\<forall>e. pb n (Pool e) = pb (lnet st) (Pool e))"
proof -
  have r: "request 60 = 60" by (simp add: request_def align_size_def trunc16_def)
  obtain r h where m: "mem_malloc 60 (nheap (lnet st)) = Some (Some r, h)"
    using mem_malloc_refines_aux [OF assms(1), of 60] assms(2) r by auto
  define b where "b = \<lparr>pnext = None, payload = Some (Ram r, 16), tot_len = 42, plen = 42, ptype = PBUF_RAM, pflags = 0, pref = 1\<rparr>"
  define n1 where "n1 = set_pb (Ram r) (\<lambda>_. b) ((lnet st)\<lparr>nheap := h\<rparr>)"
  have alloc: "pbuf_alloc (custom_free pt) PBUF_RAW SIZEOF_ETHARP_PACKET PBUF_RAM (lnet st) = Some (Some (Ram r), n1)"
    using m by (simp add: pbuf_alloc_def align4_def trunc16_def n1_def b_def)
  have b1: "pb n1 (Ram r) = b" by (simp add: n1_def set_pb_def)
  have b: "payload b = Some (Ram r, 16)" "plen b = 42" "tot_len b = 42" "ptype b = PBUF_RAM" "pflags b = 0" "pref b = 1" "pnext b = None"
    by (simp_all add: b_def)
  obtain xs where xs: "peek (Some (Ram r, 16)) 0 42 n1 = Some xs" "length xs = 42" by (simp add: peek_def)
  let ?ws = "arp_fields (hwaddr ni) ethbroadcast (hwaddr ni) (ip_addr ni) ethzero ip ARP_REQUEST"
  have "\<forall>(i, ys) \<in> set ?ws. i + length ys \<le> 42" using assms(4) by (simp add: arp_fields_def ethbroadcast_def ethzero_def)
  from puts_block [OF _ _ this, of "st\<lparr>lnet := n1\<rparr>" "Ram r" "Ram r" 16 xs] obtain bs' where
    put: "puts (Ram r) ?ws (st\<lparr>lnet := n1\<rparr>) = Some (st\<lparr>lnet := n1\<lparr>bytes := bs'\<rparr>\<rparr>)"
    "peek (Some (Ram r, 16)) 0 42 (n1\<lparr>bytes := bs'\<rparr>) = Some (fold (\<lambda>(i, ys). blit i ys) ?ws xs)"
    using xs(1) b1 b by (auto simp: buf_def)
  have f: "fold (\<lambda>(i, ys). blit i ys) ?ws xs = f"
    using fields_cover [OF xs(2)] assms(4,7) by (simp add: ethbroadcast_def ethzero_def)
  define st2 where "st2 = st\<lparr>lnet := n1\<lparr>bytes := bs'\<rparr>\<rparr>"
  have out: "low_level_output pt (Ram r) st2 = Some (ERR_OK, st2\<lparr>wire := f # wire st\<rparr>)"
    using put(2) assms(5,6) by (simp add: low_level_output_def buf_def st2_def b1 b f rd_def transmit_def)
  obtain h' where h': "mem_free (Some r) h = Some h'" "heap_ok h' bs" using malloc_then_free [OF assms(1) m] by blast
  define n3 where "n3 = set_pb (Ram r) (\<lambda>b. b\<lparr>pref := 0\<rparr>) (n1\<lparr>bytes := bs'\<rparr>)\<lparr>nheap := h'\<rparr>"
  have "nheap n1 = h" by (simp add: n1_def set_pb_def)
  then have free: "pbuf_free (custom_free pt) (Some (Ram r)) (n1\<lparr>bytes := bs'\<rparr>) = Some (1, n3)"
    using h'(1) by (simp add: pbuf_free_def lwip_assert_def pbuf_free_loop.simps [of "custom_free pt" "Some _"] pbuf_free_loop.simps [of "custom_free pt" None]
      dealloc_def set_pb_def b1 b n3_def)
  have "etharp_request pt ni ip st = Some (ERR_OK, st\<lparr>lnet := n3, wire := f # wire st\<rparr>)"
    using put(1) out free b1 assms(3)
    by (simp add: etharp_request_def etharp_raw_def alloc lwip_assert_def buf_def release_def st2_def [symmetric] b)
       (simp add: st2_def)
  then show ?thesis
    using h'(2) by (intro exI [of _ n3]) (simp add: n3_def n1_def set_pb_def)
qed

section \<open>The stack\<close>

text \<open>What a start of the servers leaves alone.\<close>

definition core :: "lan \<Rightarrow> heap \<times> (loc \<Rightarrow> pbuf) \<times> u8 list list \<times> etharp_entry list \<times> (nat \<Rightarrow> sys_timeo) \<times> nat option \<times> nat option \<times> nat option" where
  "core st = (nheap (lnet st), pb (lnet st), wire st, arp_table st, tmo (timeouts (tv st)), next_timeout (timeouts (tv st)),
     tcp_active_pcbs (tv st), tcp_tw_pcbs (tv st))"

lemma free_list_unique: "free_list nx h xs \<Longrightarrow> free_list nx h ys \<Longrightarrow> xs = ys"
proof (induction xs arbitrary: h ys)
  case Nil
  then show ?case by (cases ys) auto
next
  case (Cons x xs)
  then show ?case by (cases ys) auto
qed

lemma sys_timeout_pool:
  assumes "sys_timeout ms h a t = Some t'" and "memp_ok sizes (tpool t) F"
  shows "\<exists>F'. memp_ok sizes (tpool t') F' \<and> (\<forall>k. k \<noteq> MEMP_SYS_TIMEOUT \<longrightarrow> F' k = F k)"
proof (cases "F MEMP_SYS_TIMEOUT")
  case Nil
  then show ?thesis using assms memp_malloc_spec [OF assms(2), of MEMP_SYS_TIMEOUT] by (simp add: sys_timeout_def)
next
  case (Cons e es)
  then obtain mp where "memp_malloc MEMP_SYS_TIMEOUT (tpool t) = Some (Some e, mp)" "memp_ok sizes mp (F(MEMP_SYS_TIMEOUT := es))"
    using memp_malloc_spec [OF assms(2), of MEMP_SYS_TIMEOUT] by auto
  moreover from this(1) have "tpool t' = mp"
    using assms(1) by (auto simp: sys_timeout_def Let_def split: option.splits if_splits)
  ultimately show ?thesis by (intro exI [of _ "F(MEMP_SYS_TIMEOUT := es)"]) simp
qed

lemma timeouts_init_pool:
  assumes "sys_timeouts_init now t = Some t'" and "memp_ok sizes (tpool t) F"
  shows "\<exists>F'. memp_ok sizes (tpool t') F' \<and> (\<forall>k. k \<noteq> MEMP_SYS_TIMEOUT \<longrightarrow> F' k = F k)"
proof -
  obtain t1 t2 t3 t4 t5 where t: "sys_timeout IP_TMR_INTERVAL (Some ip_reass_timer) 0 t = Some t1"
    "sys_timeout ARP_TMR_INTERVAL (Some arp_timer) 0 t1 = Some t2"
    "sys_timeout DHCP_COARSE_TIMER_MSECS (Some dhcp_timer_coarse) 0 t2 = Some t3"
    "sys_timeout DHCP_FINE_TIMER_MSECS (Some dhcp_timer_fine) 0 t3 = Some t4"
    "sys_timeout TCP_TMR_INTERVAL (Some tcpip_tcp_timer) 0 t4 = Some t5" "tpool t' = tpool t5"
    using assms(1) by (auto simp: sys_timeouts_init_def bind_eq_Some_conv)
  obtain F1 where F1: "memp_ok sizes (tpool t1) F1" "\<forall>k. k \<noteq> MEMP_SYS_TIMEOUT \<longrightarrow> F1 k = F k" using sys_timeout_pool [OF t(1) assms(2)] by blast
  obtain F2 where F2: "memp_ok sizes (tpool t2) F2" "\<forall>k. k \<noteq> MEMP_SYS_TIMEOUT \<longrightarrow> F2 k = F1 k" using sys_timeout_pool [OF t(2) F1(1)] by blast
  obtain F3 where F3: "memp_ok sizes (tpool t3) F3" "\<forall>k. k \<noteq> MEMP_SYS_TIMEOUT \<longrightarrow> F3 k = F2 k" using sys_timeout_pool [OF t(3) F2(1)] by blast
  obtain F4 where F4: "memp_ok sizes (tpool t4) F4" "\<forall>k. k \<noteq> MEMP_SYS_TIMEOUT \<longrightarrow> F4 k = F3 k" using sys_timeout_pool [OF t(4) F3(1)] by blast
  obtain F5 where F5: "memp_ok sizes (tpool t5) F5" "\<forall>k. k \<noteq> MEMP_SYS_TIMEOUT \<longrightarrow> F5 k = F4 k" using sys_timeout_pool [OF t(5) F4(1)] by blast
  show ?thesis using F1(2) F2(2) F3(2) F4(2) F5 t(6) by (intro exI [of _ F5]) simp
qed

lemma lwip_init_spec:
  assumes "sizes_ok sizes" and "next_timeout (timeouts (tv st)) = None"
  shows "\<exists>st' es F. lwip_init sizes now st = Some st' \<and> heap_ok (nheap (lnet st')) [(MEM_SIZE_ALIGNED, False)] \<and>
     memp_ok sizes (npools (lnet st')) F \<and> (\<forall>k. k \<noteq> MEMP_SYS_TIMEOUT \<longrightarrow> F k = rev (elems sizes k)) \<and>
     free_list (\<lambda>e. tnext (tmo (timeouts (tv st')) e)) (next_timeout (timeouts (tv st'))) es \<and> pending (timeouts (tv st')) es = boot_schedule \<and>
     set (F MEMP_SYS_TIMEOUT) = set (elems sizes MEMP_SYS_TIMEOUT) - set es \<and>
     tcp_at st' = tcp_at st \<and> (\<forall>l. list_head l st' = list_head l st) \<and> pb (lnet st') = pb (lnet st) \<and>
     wire st' = wire st \<and> arp_table st' = arp_table st"
proof -
  let ?mp = "memp_init sizes (npools (lnet st))"
  let ?t = "(timeouts (tv st))\<lparr>tpool := ?mp\<rparr>"
  have mp: "memp_ok sizes ?mp (\<lambda>k. rev (elems sizes k))" by (rule memp_init_ok [OF assms(1)])
  then have "tmr_ok sizes ?t []" using assms(2) by (auto simp: tmr_ok_def pool_holds_def intro!: exI [of _ "\<lambda>k. rev (elems sizes k)"])
  from timeouts_init_spec [OF this, of now] obtain t es where t: "sys_timeouts_init now ?t = Some t" "tmr_ok sizes t es" "pending t es = boot_schedule"
    by blast
  obtain F where F: "memp_ok sizes (tpool t) F" "\<forall>k. k \<noteq> MEMP_SYS_TIMEOUT \<longrightarrow> F k = rev (elems sizes k)"
    using timeouts_init_pool [OF t(1), of sizes] mp by auto
  obtain G where G: "memp_ok sizes (tpool t) G" "set es = set (elems sizes MEMP_SYS_TIMEOUT) - set (G MEMP_SYS_TIMEOUT)"
    using t(2) by (auto simp: tmr_ok_def pool_holds_def)
  have "F MEMP_SYS_TIMEOUT = G MEMP_SYS_TIMEOUT" using F(1) G(1) by (intro free_list_unique [of "mp_next (tpool t)" "memp_tab (tpool t) MEMP_SYS_TIMEOUT"]) (simp_all add: memp_ok_def)
  moreover have "set (G MEMP_SYS_TIMEOUT) \<subseteq> set (elems sizes MEMP_SYS_TIMEOUT)" using G(1) by (auto simp: memp_ok_def)
  ultimately have es: "set (F MEMP_SYS_TIMEOUT) = set (elems sizes MEMP_SYS_TIMEOUT) - set es" using G(2) by auto
  have c: "free_list (\<lambda>e. tnext (tmo t e)) (next_timeout t) es" using t(2) by (simp add: tmr_ok_def)
  let ?st = "set_tv (\<lambda>v. v\<lparr>timeouts := t\<rparr>) (with_net ((lnet st)\<lparr>nheap := mem_init (nheap (lnet st)), npools := tpool t\<rparr>) st)"
  have "lwip_init sizes now st = Some ?st" using t(1) by (simp add: lwip_init_def)
  moreover have "list_head l ?st = list_head l st" for l by (cases l) (simp_all add: tcp_access with_net_def)
  moreover have "tcp_at ?st = tcp_at st" by (simp add: fun_eq_iff tcp_at_def tcp_access with_net_def)
  ultimately show ?thesis
    using mem_init_ok F es c t(3) by (intro exI [of _ ?st] exI [of _ es] exI [of _ F]) (simp add: tcp_access with_net_def)
qed

section \<open>The interface\<close>

lemma phy_loop_up: "c \<le> n \<Longrightarrow> n < ENET_PHY_TIMEOUT - 1 \<Longrightarrow> phy n \<Longrightarrow> fst (phy_loop phy c False) < ENET_PHY_TIMEOUT"
proof (induction "n - c" arbitrary: c)
  case 0
  then have "c = n" by simp
  with 0 show ?case by (subst phy_loop.simps) (simp add: phy_loop.simps [of phy _ True])
next
  case (Suc k)
  then show ?case
    by (cases "phy c"; subst phy_loop.simps) (simp_all add: phy_loop.simps [of phy _ True])
qed

lemma phy_loop_down:
  "c < ENET_PHY_TIMEOUT \<Longrightarrow> (\<And>n. c \<le> n \<Longrightarrow> n < ENET_PHY_TIMEOUT - 1 \<Longrightarrow> \<not> phy n) \<Longrightarrow> fst (phy_loop phy c False) = ENET_PHY_TIMEOUT"
proof (induction "ENET_PHY_TIMEOUT - c" arbitrary: c)
  case (Suc k)
  show ?case
  proof (cases "c = ENET_PHY_TIMEOUT - 1")
    case True
    then show ?thesis by (subst phy_loop.simps) (simp add: phy_loop.simps [of phy ENET_PHY_TIMEOUT])
  next
    case False
    then have "\<not> phy c" "c + 1 < ENET_PHY_TIMEOUT" using Suc.prems by auto
    moreover have "fst (phy_loop phy (c + 1) False) = ENET_PHY_TIMEOUT"
      by (rule Suc.hyps(1)) (use Suc False in auto)
    ultimately show ?thesis using Suc.prems by (subst phy_loop.simps) simp
  qed
qed simp

text \<open>
  The link must be up at one of the first 65534 queries. When only the last one finds it up, the count is at its limit
  all the same, and the program stops with the message that the link is down.
\<close>

theorem link_found_in_time:
  "low_level_init phy n \<noteq> None \<longleftrightarrow> (\<exists>k < ENET_PHY_TIMEOUT - 1. phy k)"
proof (cases "\<exists>k < ENET_PHY_TIMEOUT - 1. phy k")
  case True
  then obtain k where "k < ENET_PHY_TIMEOUT - 1" "phy k" by blast
  then have "fst (phy_loop phy 0 False) < ENET_PHY_TIMEOUT" by (intro phy_loop_up [of 0 k]) auto
  then show ?thesis using True by (simp add: low_level_init_def lwip_assert_def)
next
  case False
  then have "fst (phy_loop phy 0 False) = ENET_PHY_TIMEOUT" by (intro phy_loop_down) auto
  then show ?thesis using False by (simp add: low_level_init_def lwip_assert_def)
qed

section \<open>The servers\<close>

lemma core_set_tcp [simp]: "core (set_tcp u f st) = core st"
  by (simp add: core_def tcp_access)

lemma heads_set_tcp [simp]: "list_head l (set_tcp u f st) = list_head l st"
  by (cases l) (simp_all add: tcp_access)

lemma first_set_tcp [simp]:
  "tcp_active_pcbs (tv (set_tcp u f st)) = tcp_active_pcbs (tv st)" "tcp_tw_pcbs (tv (set_tcp u f st)) = tcp_tw_pcbs (tv st)"
  by (simp_all add: tcp_access)

lemma first_heads: "list_head Active st = None \<Longrightarrow> tcp_active_pcbs (tv st) = None" "list_head Time_wait st = None \<Longrightarrow> tcp_tw_pcbs (tv st) = None"
  "list_head Listening st = None \<Longrightarrow> tcp_listen_pcbs (tv st) = None"
  by simp_all

lemma lnet_set_tcp [simp]: "lnet (set_tcp u f st) = lnet st"
  by (simp add: tcp_access)

text \<open>The pools, by their free elements.\<close>

definition pools :: "(memp_t \<Rightarrow> nat) \<Rightarrow> lan \<Rightarrow> (memp_t \<Rightarrow> nat list) \<Rightarrow> bool" where
  "pools sizes st F = memp_ok sizes (npools (lnet st)) F"

lemma pools_set_tcp [simp]: "pools sizes (set_tcp u f st) = pools sizes st"
  by (simp add: pools_def fun_eq_iff)

lemma get_elem_spec:
  assumes "pools sizes st F" and "F t = e # es"
  shows "\<exists>st'. get_elem t st = Some (Some e, st') \<and> core st' = core st \<and> tv st' = tv st \<and> pools sizes st' (F(t := es))"
  using memp_malloc_spec [of sizes "npools (lnet st)" F t] assms
  by (auto simp: get_elem_def pools_def with_net_def core_def tv_def)

lemma put_elem_spec:
  assumes "pools sizes st F" and "e \<in> set (elems sizes t)" and "e \<notin> set (F t)"
  shows "\<exists>st'. put_elem t e st = Some st' \<and> core st' = core st \<and> tv st' = tv st \<and> pools sizes st' (F(t := e # F t))"
  using memp_free_spec [of sizes "npools (lnet st)" F e t] assms
  by (auto simp: put_elem_def pool_put_def pools_def with_net_def core_def tv_def)

lemma tv_parts: "tv st' = tv st \<Longrightarrow> tcp_at st' = tcp_at st \<and> (\<forall>l. list_head l st' = list_head l st)"
proof
  assume a: "tv st' = tv st"
  then show "tcp_at st' = tcp_at st" by (simp add: tcp_at_def fun_eq_iff)
  show "\<forall>l. list_head l st' = list_head l st"
  proof
    fix l
    show "list_head l st' = list_head l st" using a by (cases l) simp_all
  qed
qed

text \<open>Without a connection the registration of a block does not start a timer.\<close>

lemma reg_idle:
  assumes "tcp_active_pcbs (tv st) = None" "tcp_tw_pcbs (tv st) = None" and "l = Bound \<or> l = Listening"
  shows "\<exists>st'. TCP_REG l pcb st = Some st' \<and> core st' = core st \<and> npools (lnet st') = npools (lnet st) \<and>
     tcp_at st' = (tcp_at st)(pcb := (tcp_at st pcb)\<lparr>t_next := list_head l st\<rparr>) \<and>
     (\<forall>k. list_head k st' = (if k = l then Some pcb else list_head k st))"
proof -
  let ?s = "set_head l (Some pcb) (set_tcp pcb (\<lambda>t. t\<lparr>t_next := list_head l st\<rparr>) st)"
  have a: "tcp_active_pcbs (tv ?s) = None" "tcp_tw_pcbs (tv ?s) = None" "core ?s = core st" "lnet ?s = lnet st"
    using assms by (auto simp: tcp_access core_def)
  have at: "tcp_at ?s = (tcp_at st)(pcb := (tcp_at st pcb)\<lparr>t_next := list_head l st\<rparr>)"
    by (simp only: set_head_view(1)) (simp add: fun_eq_iff set_tcp_at)
  have h: "list_head k ?s = (if k = l then Some pcb else list_head k st)" for k
    using assms(3) by (cases k) (auto simp: tcp_access)
  let ?t = "(timeouts (tv ?s))\<lparr>tpool := npools (lnet ?s)\<rparr>"
  let ?r = "set_tv (\<lambda>v. v\<lparr>timeouts := ?t\<rparr>) (with_net ((lnet ?s)\<lparr>npools := npools (lnet ?s)\<rparr>) ?s)"
  have "TCP_REG l pcb st = Some ?r"
    using a(1,2) by (simp add: TCP_REG_def start_timer_def tcp_timer_needed_def)
  moreover have "core ?r = core st" using a(3) by (simp add: core_def set_tv_def set_ipst_def tv_def with_net_def)
  moreover have "tcp_at ?r = tcp_at ?s" by (simp add: fun_eq_iff tcp_at_def set_tv_def set_ipst_def tv_def with_net_def)
  moreover have "list_head k ?r = list_head k ?s" for k by (cases k) (simp_all add: set_tv_def set_ipst_def tv_def with_net_def)
  moreover have "npools (lnet ?r) = npools (lnet ?s)" by (simp add: set_tv_def set_ipst_def with_net_def)
  ultimately show ?thesis using a(4) at h by (intro exI [of _ ?r]) simp
qed

lemma rmv_head:
  assumes "list_head l st = Some pcb" and "l = Bound \<or> l = Listening"
  shows "\<exists>st'. TCP_RMV l pcb st = Some st' \<and> core st' = core st \<and> npools (lnet st') = npools (lnet st) \<and>
     tcp_at st' = (tcp_at st)(pcb := (tcp_at st pcb)\<lparr>t_next := None\<rparr>) \<and>
     (\<forall>k. list_head k st' = (if k = l then t_next (tcp_at st pcb) else list_head k st))"
proof -
  let ?s = "set_head l (t_next (tcp_at st pcb)) st"
  have h: "list_head k ?s = (if k = l then t_next (tcp_at st pcb) else list_head k st)" for k
    using assms(2) by (cases k) (auto simp: tcp_access)
  have "core ?s = core st" "lnet ?s = lnet st" using assms(2) by (auto simp: tcp_access core_def)
  then show ?thesis
    using assms(1) h by (intro exI [of _ "set_tcp pcb (\<lambda>t. t\<lparr>t_next := None\<rparr>) ?s"])
      (simp add: TCP_RMV_def fun_eq_iff set_tcp_at set_head_view(1))
qed

lemma tcp_new_spec:
  assumes "pools sizes st F" and "F MEMP_TCP_PCB = e # es"
  shows "\<exists>st' iss. tcp_new H A st = Some (Some e, st') \<and> core st' = core st \<and> pools sizes st' (F(MEMP_TCP_PCB := es)) \<and>
     tcp_at st' = (tcp_at st)(e := new_pcb TCP_PRIO_NORMAL iss (tcp_ticks (tv st)) (tcp_timer_ctr (tv st))) \<and>
     (\<forall>l. list_head l st' = list_head l st)"
proof -
  obtain s where s: "get_elem MEMP_TCP_PCB st = Some (Some e, s)" "core s = core st" "tv s = tv st" "pools sizes s (F(MEMP_TCP_PCB := es))"
    using get_elem_spec [OF assms] by blast
  obtain iss s2 where i: "tcp_next_iss s = (iss, s2)" by force
  then have s2: "s2 = set_tv (\<lambda>v. v\<lparr>tcp_iss := iss\<rparr>) s" by (auto simp: tcp_next_iss_def Let_def)
  have "tcp_ticks (tv s2) = tcp_ticks (tv st)" "tcp_timer_ctr (tv s2) = tcp_timer_ctr (tv st)" "core s2 = core st"
    "pools sizes s2 = pools sizes s" "tcp_at s2 = tcp_at st"
    using s(2,3) by (simp_all add: s2 set_tv_def set_ipst_def tv_def core_def pools_def fun_eq_iff tcp_at_def)
  moreover have "list_head l s2 = list_head l st" for l using s(3) by (cases l) (simp_all add: s2 set_tv_def set_ipst_def tv_def)
  ultimately show ?thesis
    using s i by (intro exI [of _ "set_tcp e (\<lambda>_. new_pcb TCP_PRIO_NORMAL iss (tcp_ticks (tv s2)) (tcp_timer_ctr (tv s2))) s2"] exI [of _ iss])
      (simp add: tcp_new_def tcp_alloc_def alloc_elem_def fun_eq_iff set_tcp_at)
qed

lemma addr_on_list_any: "pcb_chain st po us \<Longrightarrow> addr_on_list IPADDR_ANY port po st = Some (port \<in> ports_of st us)"
  by (induction us arbitrary: po) (subst addr_on_list.simps; auto simp: ports_of_def)+

text \<open>A server: the control block is bound to the port and gives way to a smaller one that listens.\<close>

lemma server_spec:
  assumes "pools sizes st F" and "F MEMP_TCP_PCB_LISTEN = l # ls" and "e \<in> set (elems sizes MEMP_TCP_PCB)" "e \<notin> set (F MEMP_TCP_PCB)"
    and "t_state (tcp_at st e) = CLOSED" "t_local_ip (tcp_at st e) = 0"
    and "list_head Bound st = None" "list_head Active st = None" "list_head Time_wait st = None"
    and "pcb_chain st (list_head Listening st) us" and "port \<notin> ports_of st us" and "0 < port" and "l \<noteq> e"
  shows "\<exists>st1 st2. tcp_bind e IPADDR_ANY port st = Some (ERR_OK, st1) \<and> tcp_listen_with_backlog e st1 = Some (Some l, st2) \<and>
     core st2 = core st \<and> pools sizes st2 (F(MEMP_TCP_PCB_LISTEN := ls, MEMP_TCP_PCB := e # F MEMP_TCP_PCB)) \<and>
     (\<forall>k. list_head k st2 = (if k = Listening then Some l else list_head k st)) \<and>
     t_state (tcp_at st2 l) = LISTEN \<and> t_local_port (tcp_at st2 l) = port \<and> t_local_ip (tcp_at st2 l) = 0 \<and>
     t_next (tcp_at st2 l) = list_head Listening st \<and> (\<forall>u. u \<noteq> e \<and> u \<noteq> l \<longrightarrow> tcp_at st2 u = tcp_at st u)"
proof -
  have free: "addr_in_use IPADDR_ANY port tcp_pcb_lists st = Some False"
    using addr_on_list_any [OF assms(10), of port] addr_on_list_any [of st None "[]" port] assms(7-11)
    by (simp add: tcp_pcb_lists_def ports_of_def)
  let ?s1 = "set_tcp e (\<lambda>t. t\<lparr>t_local_port := port\<rparr>) st"
  have idle: "tcp_active_pcbs (tv ?s1) = None" "tcp_tw_pcbs (tv ?s1) = None"
    using first_heads(1,2) [of st] assms(8,9) by simp_all
  obtain st1 where r: "TCP_REG Bound e ?s1 = Some st1" "core st1 = core st" "npools (lnet st1) = npools (lnet st)"
    "tcp_at st1 = (tcp_at st)(e := (tcp_at st e)\<lparr>t_local_port := port, t_next := None\<rparr>)"
    "\<forall>k. list_head k st1 = (if k = Bound then Some e else list_head k st)"
    using reg_idle [OF idle, of Bound e] assms(7) by (auto simp: fun_eq_iff set_tcp_at)
  have bind: "tcp_bind e IPADDR_ANY port st = Some (ERR_OK, st1)"
    using free r(1) assms(5,12) by (simp add: tcp_bind_def lwip_assert_def)
  have "pools sizes st1 F" using assms(1) r(3) by (simp add: pools_def)
  from get_elem_spec [OF this assms(2)] obtain s2 where s2: "get_elem MEMP_TCP_PCB_LISTEN st1 = Some (Some l, s2)" "core s2 = core st"
    "tv s2 = tv st1" "pools sizes s2 (F(MEMP_TCP_PCB_LISTEN := ls))" using r(2) by auto
  define t where "t = tcp_at st1 e"
  define s3 where "s3 = set_tcp l (\<lambda>x. x\<lparr>t_arg := t_arg t, t_local_port := t_local_port t, t_state := LISTEN, t_prio := t_prio t,
                     t_so_options := t_so_options t OR SOF_ACCEPTCONN, t_ttl := t_ttl t, t_tos := t_tos t, t_local_ip := t_local_ip t\<rparr>) s2"
  have t: "t_local_port t = port" "t_next t = None" "t_local_ip t = 0" "t_state t = CLOSED"
    using r(4) assms(5,6) by (simp_all add: t_def)
  have at2: "tcp_at s2 = tcp_at st1" "\<forall>k. list_head k s2 = list_head k st1" using tv_parts [OF s2(3)] by auto
  have e3: "tcp_at s3 e = t" using at2 assms(13) by (simp add: s3_def set_tcp_at t_def)
  have "list_head Bound s3 = Some e" using r(5) at2 by (simp add: s3_def)
  from rmv_head [OF this] obtain s4 where s4: "TCP_RMV Bound e s3 = Some s4" "core s4 = core st" "npools (lnet s4) = npools (lnet s2)"
    "tcp_at s4 = (tcp_at s3)(e := t\<lparr>t_next := None\<rparr>)" "\<forall>k. list_head k s4 = list_head k st"
    using s2(2) e3 t at2(2) r(5) assms(7) by (auto simp: s3_def)
  have "pools sizes s4 (F(MEMP_TCP_PCB_LISTEN := ls))" using s2(4) s4(3) by (simp add: pools_def)
  from put_elem_spec [OF this assms(3)] assms(4) obtain s5 where s5: "put_elem MEMP_TCP_PCB e s4 = Some s5" "core s5 = core st" "tv s5 = tv s4"
    "pools sizes s5 (F(MEMP_TCP_PCB_LISTEN := ls, MEMP_TCP_PCB := e # F MEMP_TCP_PCB))" using s4(2) by auto
  have at5: "tcp_at s5 = tcp_at s4" "\<forall>k. list_head k s5 = list_head k st" using tv_parts [OF s5(3)] s4(5) by auto
  let ?s6 = "set_tcp l (\<lambda>x. x\<lparr>t_accept := Some Null_fn\<rparr>) s5"
  have idle: "tcp_active_pcbs (tv ?s6) = None" "tcp_tw_pcbs (tv ?s6) = None"
    using first_heads(1,2) [of s5] at5(2) assms(8,9) by (simp_all only: first_set_tcp simp_thms)
  obtain st2 where q: "TCP_REG Listening l ?s6 = Some st2" "core st2 = core st" "npools (lnet st2) = npools (lnet s5)"
    "tcp_at st2 = (tcp_at ?s6)(l := (tcp_at ?s6 l)\<lparr>t_next := list_head Listening st\<rparr>)"
    "\<forall>k. list_head k st2 = (if k = Listening then Some l else list_head k st)"
    using reg_idle [OF idle, of Listening l] s5(2) at5(2) by auto
  have pne: "0 < t_local_port t" using t(1) assms(12) by simp
  have te: "tcp_at s2 e = t" "tcp_at st1 e = t" using at2 by (simp_all add: t_def)
  have listen: "tcp_listen_with_backlog e st1 = Some (Some l, st2)"
    using s2(1) s4(1) s5(1) q(1) t(4) e3 pne
    by (simp add: tcp_listen_with_backlog_def lwip_assert_def te s3_def [symmetric] Let_def)
  have "pools sizes st2 (F(MEMP_TCP_PCB_LISTEN := ls, MEMP_TCP_PCB := e # F MEMP_TCP_PCB))" using s5(4) q(3) by (simp add: pools_def)
  moreover have "tcp_at st2 u = tcp_at st u" if "u \<noteq> e" "u \<noteq> l" for u
    using that q(4) s4(4) r(4) at2(1) at5(1) by (simp add: set_tcp_at s3_def)
  moreover have "tcp_at st2 l = (tcp_at s3 l)\<lparr>t_accept := Some Null_fn, t_next := list_head Listening st\<rparr>"
    using q(4) at5(1) s4(4) assms(13) by (simp add: set_tcp_at)
  ultimately show ?thesis
    using bind listen q(2,5) t by (intro exI [of _ st1] exI [of _ st2]) (simp add: s3_def set_tcp_at)
qed

section \<open>The board\<close>

definition board_netif :: netif where
  "board_netif = \<lparr>ip_addr = IP4_ADDR 192 168 1 110, netmask = IP4_ADDR 255 255 255 0, gw = IP4_ADDR 192 168 1 100, mtu = 1500,
     hwaddr_len = 6, hwaddr = [0x00, 0x12, 0x13, 0x10, 0x15, 0x11], netif_flags = 0x33\<rparr>"

definition announcement :: "u8 list" where
  "announcement = arp_frame ethbroadcast (hwaddr board_netif) ARP_REQUEST (hwaddr board_netif) (ip_addr board_netif)
     ethzero (ip_addr board_netif)"

text \<open>What the start leaves behind: the servers on their ports, nothing else.\<close>

definition serving :: "lan \<Rightarrow> nat \<Rightarrow> nat \<Rightarrow> callback \<Rightarrow> bool" where
  "serving st l port f = (t_state (tcp_at st l) = LISTEN \<and> t_local_port (tcp_at st l) = port \<and>
     t_local_ip (tcp_at st l) = IPADDR_ANY \<and> t_accept (tcp_at st l) = Some f)"

lemma board_added:
  assumes "k < ENET_PHY_TIMEOUT - 1" "phy k" and "\<forall>l. list_head l st = None"
  shows "\<exists>v. netif_add B A (ethernetif_init phy) 0 (Some (IP4_ADDR 192 168 1 110)) (Some (IP4_ADDR 255 255 255 0))
                     (Some (IP4_ADDR 192 168 1 100)) 0 (netif_vars_init, st) = Some (Some 0, v, st) \<and>
     netif_list v = Some 0 \<and> if_next (if_at v 0) = None \<and> default_netif v = None \<and>
     netif.truncate (if_at v 0) = board_netif\<lparr>netif_flags := 0x32\<rparr>"
proof -
  have up: "fst (phy_loop phy 0 False) \<noteq> ENET_PHY_TIMEOUT"
    using link_found_in_time [of phy zero_iface] assms(1,2) by (auto simp: low_level_init_def lwip_assert_def split: if_splits)
  have h: "tcp_active_pcbs (tv st) = None" "tcp_listen_pcbs (tv st) = None"
    using assms(3) by (simp_all add: first_heads)
  have f: "NETIF_FLAG_BROADCAST OR NETIF_FLAG_ETHARP OR NETIF_FLAG_LINK_UP = (0x32 :: u8)" by simp
  show ?thesis
    by (simp add: netif_add_def netif_set_addr_def netif_set_ipaddr_def netif_set_gw_def netif_set_netmask_def ip_addr_set_def Let_def
        host_of_def list_from.simps abort_loop.simps listen_loop.simps h ethernetif_init_def low_level_init_def lwip_assert_def up
        netif_vars_init_def set_if_def zero_iface_def board_netif_def netif.truncate_def)
qed

lemma elems_length: "length (elems sizes t) = memp_num t"
  by (simp add: elems_def)

lemma httpd_init_spec:
  assumes "pools sizes st F" and "sizes_ok sizes" and "F MEMP_TCP_PCB = rev (elems sizes MEMP_TCP_PCB)"
    and "F MEMP_TCP_PCB_LISTEN = rev (elems sizes MEMP_TCP_PCB_LISTEN)" and "\<forall>l. list_head l st = None"
  shows "\<exists>st' l1 l2 ls. httpd_init H A st = Some st' \<and> core st' = core st \<and> pools sizes st' (F(MEMP_TCP_PCB_LISTEN := ls)) \<and>
     pcb_chain st' (list_head Listening st') [l2, l1] \<and> serving st' l1 HTTPD_SERVER_PORT http_accept_fn \<and>
     serving st' l2 10887 echo_accept_fn \<and> (\<forall>l. l \<noteq> Listening \<longrightarrow> list_head l st' = None)"
proof -
  have len: "length (F MEMP_TCP_PCB) = 10" "length (F MEMP_TCP_PCB_LISTEN) = 6" using assms(3,4) by (simp_all add: elems_length)
  obtain e es where e: "F MEMP_TCP_PCB = e # es" using len(1) by (cases "F MEMP_TCP_PCB") auto
  obtain l1 l2 ls where l: "F MEMP_TCP_PCB_LISTEN = l1 # l2 # ls"
    using len(2) by (cases "F MEMP_TCP_PCB_LISTEN"; cases "tl (F MEMP_TCP_PCB_LISTEN)") auto
  have d: "distinct (F MEMP_TCP_PCB)" "distinct (F MEMP_TCP_PCB_LISTEN)" using assms(1) by (simp_all add: pools_def memp_ok_def)
  have in_e: "e \<in> set (elems sizes MEMP_TCP_PCB)" "e \<notin> set es" using arg_cong [OF assms(3), of set] e d(1) by auto
  have in_l: "l1 \<in> set (elems sizes MEMP_TCP_PCB_LISTEN)" "l2 \<in> set (elems sizes MEMP_TCP_PCB_LISTEN)" "l1 \<noteq> l2"
    using arg_cong [OF assms(4), of set] l d(2) by auto
  have ne: "l1 \<noteq> e" "l2 \<noteq> e"
    using elems_disjoint [OF assms(2), of MEMP_TCP_PCB_LISTEN MEMP_TCP_PCB] in_e(1) in_l by auto
  obtain a iss where a: "tcp_new H A st = Some (Some e, a)" "core a = core st" "pools sizes a (F(MEMP_TCP_PCB := es))"
    "tcp_at a e = new_pcb TCP_PRIO_NORMAL iss (tcp_ticks (tv st)) (tcp_timer_ctr (tv st))" "\<forall>l. list_head l a = None"
    using tcp_new_spec [OF assms(1) e, of H A] assms(5) by auto
  define b where "b = tcp_setprio e TCP_PRIO_MIN a"
  have b: "pools sizes b (F(MEMP_TCP_PCB := es))" "t_state (tcp_at b e) = CLOSED" "t_local_ip (tcp_at b e) = 0" "\<forall>l. list_head l b = None" "core b = core st"
    using a by (simp_all add: b_def tcp_setprio_def set_tcp_at new_pcb_def zero_tcp_pcb_def)
  obtain c g where c: "tcp_bind e IPADDR_ANY 80 b = Some (ERR_OK, c)" "tcp_listen_with_backlog e c = Some (Some l1, g)" "core g = core st"
    "pools sizes g (F(MEMP_TCP_PCB := es, MEMP_TCP_PCB_LISTEN := l2 # ls, MEMP_TCP_PCB := e # es))"
    "\<forall>k. list_head k g = (if k = Listening then Some l1 else None)"
    "t_state (tcp_at g l1) = LISTEN" "t_local_port (tcp_at g l1) = 80" "t_local_ip (tcp_at g l1) = 0" "t_next (tcp_at g l1) = None"
    using server_spec [OF b(1) _ in_e(1) _ b(2,3), of l1 "l2 # ls" "[]" 80] b(4,5) in_e ne l by (auto simp: ports_of_def)
  define h where "h = tcp_accept l1 (Some http_accept_fn) (tcp_arg l1 l1 g)"
  have F1: "F(MEMP_TCP_PCB := es, MEMP_TCP_PCB_LISTEN := l2 # ls, MEMP_TCP_PCB := e # es) = F(MEMP_TCP_PCB_LISTEN := l2 # ls)"
    using e by auto
  have h: "core h = core st" "pools sizes h (F(MEMP_TCP_PCB_LISTEN := l2 # ls))"
    "\<forall>k. list_head k h = (if k = Listening then Some l1 else None)" "serving h l1 80 http_accept_fn" "t_next (tcp_at h l1) = None"
    using c F1 by (simp_all add: h_def tcp_accept_def tcp_arg_def set_tcp_at serving_def)
  have "(F(MEMP_TCP_PCB_LISTEN := l2 # ls)) MEMP_TCP_PCB = e # es" using e by simp
  from tcp_new_spec [OF h(2) this, of H A] obtain i iss' where i0: "tcp_new H A h = Some (Some e, i)" "core i = core h"
    "pools sizes i (F(MEMP_TCP_PCB_LISTEN := l2 # ls, MEMP_TCP_PCB := es))"
    "tcp_at i = (tcp_at h)(e := new_pcb TCP_PRIO_NORMAL iss' (tcp_ticks (tv h)) (tcp_timer_ctr (tv h)))"
    "\<forall>k. list_head k i = list_head k h"
    by blast
  have i: "tcp_new H A h = Some (Some e, i)" "core i = core st" "pools sizes i (F(MEMP_TCP_PCB_LISTEN := l2 # ls, MEMP_TCP_PCB := es))"
    "tcp_at i = (tcp_at h)(e := new_pcb TCP_PRIO_NORMAL iss' (tcp_ticks (tv h)) (tcp_timer_ctr (tv h)))"
    "\<forall>k. list_head k i = (if k = Listening then Some l1 else None)"
    using i0 h(1,3) by simp_all
  have i': "t_state (tcp_at i e) = CLOSED" "t_local_ip (tcp_at i e) = 0" "tcp_at i l1 = tcp_at h l1"
    using i(4) ne by (simp_all add: new_pcb_def zero_tcp_pcb_def)
  have ch: "pcb_chain i (list_head Listening i) [l1]" "10887 \<notin> ports_of i [l1]"
    using i(5) i'(3) h(4,5) by (simp_all add: ports_of_def serving_def)
  obtain j m where j: "tcp_bind e IPADDR_ANY 10887 i = Some (ERR_OK, j)" "tcp_listen_with_backlog e j = Some (Some l2, m)" "core m = core st"
    "pools sizes m (F(MEMP_TCP_PCB_LISTEN := l2 # ls, MEMP_TCP_PCB := es, MEMP_TCP_PCB_LISTEN := ls, MEMP_TCP_PCB := e # es))"
    "\<forall>k. list_head k m = (if k = Listening then Some l2 else None)"
    "t_state (tcp_at m l2) = LISTEN" "t_local_port (tcp_at m l2) = 10887" "t_local_ip (tcp_at m l2) = 0" "t_next (tcp_at m l2) = Some l1"
    "tcp_at m l1 = tcp_at h l1"
    using server_spec [OF i(3) _ in_e(1) _ i'(1,2) _ _ _ ch, of l2 ls] i(2,5) i'(3) in_e in_l(3) ne by auto
  have F2: "F(MEMP_TCP_PCB_LISTEN := l2 # ls, MEMP_TCP_PCB := es, MEMP_TCP_PCB_LISTEN := ls, MEMP_TCP_PCB := e # es) =
      F(MEMP_TCP_PCB_LISTEN := ls)"
    using e by auto
  define z where "z = tcp_accept l2 (Some echo_accept_fn) m"
  have z: "core z = core st" "pools sizes z (F(MEMP_TCP_PCB_LISTEN := ls))" "list_head k z = (if k = Listening then Some l2 else None)"
    "serving z l2 10887 echo_accept_fn" "serving z l1 80 http_accept_fn" "t_next (tcp_at z l2) = Some l1" "t_next (tcp_at z l1) = None" for k
    using j F2 h(4,5) in_l(3) by (simp_all add: z_def tcp_accept_def set_tcp_at serving_def)
  have "httpd_init H A st = Some z"
    using a(1) c(1,2) i(1) j(1,2)
    by (simp add: httpd_init_def httpd_init_addr_def b_def [symmetric] h_def [symmetric] lwip_assert_def z_def del: One_nat_def)
  then show ?thesis using z by (intro exI [of _ z] exI [of _ l1] exI [of _ l2] exI [of _ ls]) simp
qed

text \<open>Claim C5: the board starts. With every list of connections empty, a link that comes up in time and a controller that
  sends, \<open>initEthernet\<close> returns: the interface of the board is the only and the default one and is up, its address is announced to
  the neighbours, the heap is one free block, the web server listens on port 80 and the dock on port 10887 for any
  address, each with its own function, there is no other control block, every other pool but that of the timers is full, and the timers are
  those of the modules.\<close>

theorem board_starts:
  assumes "sizes_ok sizes" and "next_timeout (timeouts (tv st)) = None" and "\<forall>l. list_head l st = None"
    and "k < ENET_PHY_TIMEOUT - 1" "phy k"
    and "link_up (hport B) (wire st)" "send_frame (hport B) (wire st) announcement"
  shows "\<exists>v st' F l1 l2 es. initEthernet B A sizes phy now (netif_vars_init, st) = Some (v, st') \<and>
     host_of B v = Some (B\<lparr>netifs := [board_netif], netif_default := Some 0\<rparr>) \<and>
     wire st' = announcement # wire st \<and> arp_table st' = arp_table st \<and>
     heap_ok (nheap (lnet st')) [(MEM_SIZE_ALIGNED, False)] \<and> memp_ok sizes (npools (lnet st')) F \<and>
     (\<forall>t. t \<noteq> MEMP_SYS_TIMEOUT \<and> t \<noteq> MEMP_TCP_PCB_LISTEN \<longrightarrow> F t = rev (elems sizes t)) \<and>
     pcb_chain st' (tcp_listen_pcbs (tv st')) [l2, l1] \<and> serving st' l1 80 http_accept_fn \<and> serving st' l2 10887 echo_accept_fn \<and>
     tcp_bound_pcbs (tv st') = None \<and> tcp_active_pcbs (tv st') = None \<and> tcp_tw_pcbs (tv st') = None \<and>
     free_list (\<lambda>e. tnext (tmo (timeouts (tv st')) e)) (next_timeout (timeouts (tv st'))) es \<and>
     pending (timeouts (tv st')) es = boot_schedule"
proof -
  obtain s1 es F where 1: "lwip_init sizes now st = Some s1" "heap_ok (nheap (lnet s1)) [(MEM_SIZE_ALIGNED, False)]"
    "memp_ok sizes (npools (lnet s1)) F" "\<forall>t. t \<noteq> MEMP_SYS_TIMEOUT \<longrightarrow> F t = rev (elems sizes t)"
    "free_list (\<lambda>e. tnext (tmo (timeouts (tv s1)) e)) (next_timeout (timeouts (tv s1))) es"
    "pending (timeouts (tv s1)) es = boot_schedule" "\<forall>l. list_head l s1 = None" "wire s1 = wire st" "arp_table s1 = arp_table st"
    using lwip_init_spec [OF assms(1,2), of now] assms(3) by auto
  obtain v where v: "netif_add B A (ethernetif_init phy) 0 (Some (IP4_ADDR 192 168 1 110)) (Some (IP4_ADDR 255 255 255 0))
      (Some (IP4_ADDR 192 168 1 100)) 0 (netif_vars_init, s1) = Some (Some 0, v, s1)" "netif_list v = Some 0" "if_next (if_at v 0) = None"
    "netif.truncate (if_at v 0) = board_netif\<lparr>netif_flags := 0x32\<rparr>"
    using board_added [of k phy s1 B A] assms(4,5) 1(7) by blast
  let ?d = "netif_set_default (Some 0) v"
  let ?v = "set_if 0 (\<lambda>n. n\<lparr>netif_flags := netif_flags n OR NETIF_FLAG_UP\<rparr>) ?d"
  have fl: "netif_flags (if_at v 0) = 0x32" using arg_cong [OF v(4), of netif_flags] by (simp add: netif.truncate_def)
  have trunc: "netif.truncate (n\<lparr>netif_flags := x\<rparr>) = (netif.truncate n)\<lparr>netif_flags := x\<rparr>" for n :: iface and x
    by (simp add: netif.truncate_def)
  have at: "netif.truncate (if_at ?v 0) = board_netif"
    using fl v(4) by (simp add: netif_set_default_def trunc) (simp add: board_netif_def)
  have req: "\<exists>n. etharp_request (hport B) board_netif (ip_addr board_netif) s1 = Some (ERR_OK, s1\<lparr>lnet := n, wire := announcement # wire s1\<rparr>) \<and>
      heap_ok (nheap n) [(MEM_SIZE_ALIGNED, False)] \<and> npools n = npools (lnet s1)"
    using request_sent [OF 1(2), of board_netif "hport B" announcement "ip_addr board_netif"] 1(8) assms(6,7)
    by (auto simp: announcement_def board_netif_def)
  then obtain n where n: "etharp_request (hport B) board_netif (ip_addr board_netif) s1 = Some (ERR_OK, s1\<lparr>lnet := n, wire := announcement # wire s1\<rparr>)"
    "heap_ok (nheap n) [(MEM_SIZE_ALIGNED, False)]" "npools n = npools (lnet s1)" by blast
  define s2 where "s2 = s1\<lparr>lnet := n, wire := announcement # wire s1\<rparr>"
  have up: "netif_set_up (hport B) 0 (?d, s1) = Some (?v, s2)"
    using n(1) fl at by (simp add: netif_set_up_def Let_def s2_def) (simp add: netif_set_default_def board_netif_def)
  have H: "host_of B ?v = Some (B\<lparr>netifs := [board_netif], netif_default := Some 0\<rparr>)"
    using v(2,3) at by (simp add: host_of_def list_from.simps netif_set_default_def)
  have tv2: "tv s2 = tv s1" by (simp add: s2_def tv_def)
  have heads2: "\<forall>l. list_head l s2 = None" using tv_parts [OF tv2] 1(7) by simp
  have "pools sizes s2 F" using 1(3) n(3) by (simp add: pools_def s2_def)
  from httpd_init_spec [OF this assms(1) _ _ heads2, of "B\<lparr>netifs := [board_netif], netif_default := Some 0\<rparr>" A] 1(4)
  obtain s3 l1 l2 ls where 3: "httpd_init (B\<lparr>netifs := [board_netif], netif_default := Some 0\<rparr>) A s2 = Some s3" "core s3 = core s2"
    "pools sizes s3 (F(MEMP_TCP_PCB_LISTEN := ls))" "pcb_chain s3 (list_head Listening s3) [l2, l1]"
    "serving s3 l1 80 http_accept_fn" "serving s3 l2 10887 echo_accept_fn" "\<forall>l. l \<noteq> Listening \<longrightarrow> list_head l s3 = None"
    by auto
  have run: "initEthernet B A sizes phy now (netif_vars_init, st) = Some (?v, s3)"
    using 1(1) v(1) up H 3(1) by (simp add: initEthernet_def)
  have c: "nheap (lnet s3) = nheap n" "wire s3 = announcement # wire st" "arp_table s3 = arp_table st"
    "tmo (timeouts (tv s3)) = tmo (timeouts (tv s1))" "next_timeout (timeouts (tv s3)) = next_timeout (timeouts (tv s1))"
    using 3(2) 1(8,9) tv2 by (auto simp: core_def s2_def)
  have "list_head Bound s3 = None" "list_head Active s3 = None" "list_head Time_wait s3 = None" by (rule 3(7) [rule_format], simp)+
  then show ?thesis
    using run H c n(2) 3 1(4-6)
    by (intro exI [of _ ?v] exI [of _ s3] exI [of _ "F(MEMP_TCP_PCB_LISTEN := ls)"] exI [of _ l1] exI [of _ l2] exI [of _ es])
      (simp add: pools_def)
qed

section \<open>At a concrete board\<close>

lemma ex_lan_idle: "list_head l (ex_lan h tab) = None" "next_timeout (timeouts (tv (ex_lan h tab))) = None"
  by (cases l; simp add: tv_def ex_ip_state_def tcp_vars_init_def) (simp add: tv_def ex_ip_state_def tcp_vars_init_def)


theorem board_starts_witness:
  "\<exists>v st'. initEthernet ex_host ex_app (\<lambda>_. 616) (\<lambda>n. n = 7) 0 (netif_vars_init, ex_lan ex_heap (replicate 10 empty_entry)) = Some (v, st') \<and>
     wire st' = [announcement] \<and> (\<exists>l. serving st' l 10887 echo_accept_fn)"
proof -
  have "sizes_ok (\<lambda>_. 616)" by (simp add: sizes_ok_def)
  then show ?thesis
    using board_starts [of "\<lambda>_. 616" "ex_lan ex_heap (replicate 10 empty_entry)" 7 "\<lambda>n. n = 7" ex_host ex_app 0] ex_lan_idle
    by simp blast
qed

end
