(* ===== verification/Spec2Isabelle.thy ===== *)
theory Spec2Isabelle
  imports Witnesses HeapOwners ServerWitnesses EtharpWitnesses IpWitnesses ReassWitnesses ChksumClaims IpAddrProps TimersProps TcpWitnesses StartupProps
begin

text \<open>
  Verification of the firmware of the LGT8 instrument (Antares), a Freescale K64F board: the
  program's own core in \<open>source/\<close>, \<open>Sweep/\<close>, \<open>Servo/\<close>, \<open>Monitor/\<close> and
  \<open>lwip/httpd.c\<close>, and the C network stack below it in \<open>lwip/src/core\<close>,
  \<open>lwip/src/netif/etharp.c\<close> and \<open>lwip/port\<close>, each as the build configures it (\<open>lwipopts.h\<close>:
  \<open>NO_SYS\<close>, little endian, alignment 4, one interface with a static address, ten pool buffers of 600 bytes).

  The parts and how they interact. The periodic interrupt calls the tick of each driver; the main
  loop (\<open>source/main.cpp\<close>) lets the drivers empty their event queues, routes the mail they post to
  the driver that subscribed it, and counts the alarms. The host talks to the board over TCP: a
  message on port 10887 goes through the dock (\<open>echo_*\<close> in \<open>lwip/httpd.c\<close>) and the gate
  \<open>ethergate\<close> into the post office and back; port 80 serves files and the status line. The
  Ethernet interrupt brings a frame into a pool buffer and up through ARP, IP and ICMP, UDP or TCP.

  Conventions. A C or C++ record is a \<open>record\<close>, an enumeration a \<open>datatype\<close>, a machine
  integer a word of its width or, for lengths, a \<open>nat\<close> that is reduced where the code stores it. A
  pointer is \<open>option\<close>; packet buffers live in a store that maps locations to headers and
  bytes, so aliasing and writes outside a buffer are seen. \<open>None\<close> of an operation's result
  (\<open>Inl\<close> in the drivers) is that it does not return: a failed \<open>LWIP_ASSERT\<close> stops in a loop, and an
  access outside an object is not followed further. A loop over a linked structure is a
  \<open>partial_function (option)\<close>, where running forever is \<open>None\<close>, so every theorem with a
  \<open>Some\<close> result states termination. Only the release of custom buffers has fuel
  (\<open>ipfrag_free_pbuf_custom\<close>): the number of buffers that refer to each other through
  \<open>original\<close>, at most the 15 custom buffers there are.

  The program's core.
  \<^item> \<open>Prelude\<close>: integers, sequencing, list and word facts. \<open>Antares\<close>: \<open>antares.h\<close>, \<open>board.h\<close>, the messages.
  \<^item> \<open>EventLoop\<close>: the contract of a driver's event queue, a locale interpreted in the three drivers.
  \<^item> \<open>Sweep\<close>, \<open>SweepFsm\<close>, \<open>SweepMove\<close>: \<open>Sweep/*.cpp\<close> with the generated state
    machine, and \<open>sscanf\<close> as the drivers use it; where a GOTO arrives, what it writes, and that a search does not end.
  \<^item> \<open>Servo\<close>, \<open>ServoProps\<close>: \<open>Servo/*.cpp\<close>; the control law over the rationals, its bounds,
    the tachometer buffer.
  \<^item> \<open>Monitor\<close>, \<open>Status\<close>: \<open>Monitor/*.cpp\<close> and the status line.
  \<^item> \<open>Kernel\<close>, \<open>KernelProps\<close>: post office, subscriptions, alarms and the main loop of \<open>main.cpp\<close>;
    the machine invariant over every sequence of its steps. \<open>Witnesses\<close>: a booted board.

  The memory of the network stack.
  \<^item> \<open>Allocator\<close>: the contract of an allocator, a locale with the clients' loops proved once,
    interpreted on the heap and on the pools.
  \<^item> \<open>Mem\<close>, \<open>MemProps\<close>, \<open>HeapOwners\<close>: \<open>mem.c\<close>, its blocks as a list, and the heap as its callers see it.
  \<^item> \<open>Memp\<close>: \<open>memp.c\<close>, free lists of disjoint elements.
  \<^item> \<open>Pbuf\<close>, \<open>PbufProps\<close>, \<open>Packets\<close>: \<open>pbuf.c\<close>; a packet as the list of its buffers with its
    content, allocation and release against the pool.

  The protocols.
  \<^item> \<open>Chksum\<close>, \<open>ChksumProps\<close>, \<open>ChksumClaims\<close>: \<open>inet_chksum.c\<close> and \<open>def.c\<close>, against sums of natural numbers.
  \<^item> \<open>IpAddr\<close>, \<open>IpAddrProps\<close>: \<open>ip_addr.c\<close>.
  \<^item> \<open>Etharp\<close>, \<open>EtharpTable\<close>, \<open>EtharpInv\<close>, \<open>EtharpProps\<close>, \<open>EtharpClaims\<close>: \<open>ethernetif.c\<close> and
    \<open>etharp.c\<close>; the table's invariant through every operation, and reception from the frame upwards.
  \<^item> \<open>IpState\<close>, \<open>IpHdr\<close>: the variables of the IP modules, the host (interfaces and the layers above),
    memory through a pointer. \<open>IpIn\<close>, \<open>IpOut\<close>: \<open>ip.c\<close>. \<open>IpFrag\<close>, \<open>Reass\<close>: \<open>ip_frag.c\<close>. \<open>Icmp\<close>:
    \<open>icmp.c\<close>. \<open>Udp\<close>: \<open>udp.c\<close>. \<open>Raw\<close>: \<open>raw.c\<close>.
  \<^item> \<open>IpView\<close>, \<open>IpEcho\<close>: a packet in one buffer as its bytes from the start of the
    frame, and how many of them headers taken off hide; from the frame with a ping to the frame with the answer.
  \<^item> \<open>ReassProps\<close>, \<open>ReassChain\<close>, \<open>ReassClaims\<close>, \<open>ReassTraces\<close>: reassembly. The linked list that lies over the
    headers of the waiting fragments is a list of ranges, on which placing and
    deciding are plain functions (\<open>place_list\<close>, \<open>place_step\<close>, \<open>reass_step\<close>); \<open>ip_reass\<close> implements them,
    one datagram at a time. Sequences of fragments: in order, with a hole, contradictory.
  \<^item> \<open>Timers\<close>, \<open>TimersProps\<close>: \<open>lwip_timers.c\<close> and the clock of \<open>sys_arch.c\<close>.
  \<^item> \<open>TcpState\<close>: \<open>tcp.h\<close> and \<open>tcp_impl.h\<close>; \<open>TcpBase\<close>: access, the lists of control blocks, segments;
    \<open>TcpOut\<close>: \<open>tcp_out.c\<close>; \<open>TcpPcb\<close>, \<open>TcpTmr\<close>: \<open>tcp.c\<close>; \<open>TcpIn\<close>: \<open>tcp_in.c\<close>. Control blocks and segments are pool
    elements, linked by their numbers; the callbacks of the application are the record \<open>tcp_app\<close>; \<open>tcp_host\<close> puts
    \<open>tcp_input\<close> above IP.
  \<^item> \<open>Keeps\<close>, \<open>TcpKeeps\<close>: what an operation leaves alone, as locales over a view of the state: \<open>above_ip\<close> for everything
    below TCP, \<open>tcp_view\<close>, \<open>receive_view\<close> and \<open>send_view\<close> for the operations of TCP, interpreted at the states of the
    connections, with their sequence numbers and the flags of the segment.
  \<^item> \<open>TcpMachine\<close>: the state diagram of RFC 793 and the operations that move along it. \<open>TcpWindow\<close>: comparison of sequence
    numbers and the announced window. \<open>TcpReceive\<close>: the packet of a segment, its old part taken off, delivery.
    \<open>TcpArrival\<close>, \<open>TcpDelivery\<close>: from the frame with a segment to the receive callback. \<open>TcpWrite\<close>: \<open>tcp_write\<close> as a whole,
    over the locale \<open>seg_view\<close>. \<open>TcpPorts\<close>: the lists of control blocks and the choice of a port. \<open>TcpErrors\<close>: where the
    fast timer hangs.
  \<^item> \<open>Netif\<close>, \<open>NetifProps\<close>: \<open>netif.c\<close>, the linked list of interfaces from which \<open>host_of\<close> reads the host of the IP modules;
    its invariant over any sequence of operations. \<open>Startup\<close>, \<open>StartupProps\<close>: \<open>init.c\<close>, \<open>ethernetif_init\<close> and
    \<open>initEthernet\<close>; the state in which the board starts.
  \<^item> \<open>Tcp\<close>: what the servers see of \<open>tcp.h\<close>. \<open>Echo\<close>, \<open>EchoProps\<close>: the dock. \<open>Http\<close>, \<open>HttpProps\<close>,
    \<open>HttpClaims\<close>: the HTTP server and \<open>fs.c\<close>.
  \<^item> \<open>ServerWitnesses\<close>, \<open>EtharpWitnesses\<close>, \<open>IpWitnesses\<close>, \<open>ReassWitnesses\<close>, \<open>TcpWitnesses\<close>: the properties at concrete
    states.

  Parameters. In the properties of the servers, the answers of TCP (\<open>tcp_env\<close>); in TCP, the callbacks of its
  applications (\<open>tcp_app\<close>). The controller (link state, whether it takes a frame), \<open>dhcp_arp_reply\<close>, the callbacks of UDP
  and raw control blocks, what IP does with a segment (\<open>tcp_handler\<close>, for which \<open>tcp_host\<close> puts \<open>tcp_input\<close>), the PHY's answers while the link is awaited, the generated files of \<open>fsdata.c\<close>, the element sizes of the pools, and what uninitialised memory holds.

  Not modelled. DHCP is compiled but never started; DNS, IGMP, AUTOIP, IPv6, SNMP,
  PPP, SLIP, the sequential and socket interfaces and statistics are compiled out.
  The set-up of clocks, pins and peripherals, the vendor's drivers and CMSIS only write registers; the debug
  console and the log only print.
\<close>

end
